(* ===== verification/Prelude.thy ===== *)
theory Prelude
  imports Main "HOL-Library.AList" "HOL-Library.Char_ord" "HOL-Library.List_Lexorder"
    "HOL-Library.Product_Lexorder" "HOL-Library.Multiset"
begin

text \<open>
  Shared vocabulary of the development: the exceptions of the Python code as values, the
  sequencing of fallible operations, loops that may raise, insertion-ordered dictionaries,
  and the Hoare-style predicate in which the component theories state what an operation
  guarantees and which exceptions it may raise.
\<close>

section \<open>Exceptions and results\<close>

datatype error_code =
    INVALID_INPUT
  | UNSUPPORTED_FORMAT
  | PROFILE_PARSE_FAILED
  | EXTERNAL_TOOL_FAILED
  | EXTERNAL_TOOL_TIMEOUT
  | RESOURCE_LIMIT_EXCEEDED
  | PATH_SAFETY_VIOLATION
  | OUTPUT_WRITE_FAILED
  | INTERNAL_ERROR

text \<open>
  \<open>PerfLensError\<close> carries its code, stage and message, the three fields that
  identify an error (\<open>stable_error_id\<close> hashes exactly these).
\<close>

datatype py_error =
    ValueError string
  | TypeError
  | OverflowError
  | KeyError
  | IndexError
  | AssertionError
  | PerfLensError error_code string string

type_synonym 'a result = "py_error + 'a"

text \<open>A dictionary keeps insertion order: an association list with distinct keys.\<close>

type_synonym ('k, 'v) dict = "('k \<times> 'v) list"

named_theorems wp_intro \<open>introduction rules for \<open>ensures\<close>\<close>
named_theorems dict_simps \<open>lookup and key laws of dictionaries\<close>

fun bindE :: "'a result \<Rightarrow> ('a \<Rightarrow> 'b result) \<Rightarrow> 'b result" where
  "bindE (Inl e) f = Inl e"
| "bindE (Inr x) f = f x"

definition raise_if :: "bool \<Rightarrow> py_error \<Rightarrow> unit result" where
  "raise_if b e = (if b then Inl e else Inr ())"

text \<open>A \<open>for\<close> loop whose body updates a state and may raise.\<close>

fun foldE :: "('a \<Rightarrow> 's \<Rightarrow> 's result) \<Rightarrow> 'a list \<Rightarrow> 's \<Rightarrow> 's result" where
  "foldE f [] s = Inr s"
| "foldE f (x # xs) s = bindE (f x s) (foldE f xs)"

text \<open>A \<open>for\<close> loop that only checks.\<close>

fun checkE :: "('a \<Rightarrow> unit result) \<Rightarrow> 'a list \<Rightarrow> unit result" where
  "checkE f [] = Inr ()"
| "checkE f (x # xs) = bindE (f x) (\<lambda>_. checkE f xs)"

text \<open>A comprehension whose element expression may raise.\<close>

fun mapE :: "('a \<Rightarrow> 'b result) \<Rightarrow> 'a list \<Rightarrow> 'b list result" where
  "mapE f [] = Inr []"
| "mapE f (x # xs) = bindE (f x) (\<lambda>y. bindE (mapE f xs) (\<lambda>ys. Inr (y # ys)))"

text \<open>
  \<open>ensures E P m\<close>: if \<open>m\<close> returns, the value satisfies \<open>P\<close>; if it raises, the
  exception is one of those \<open>E\<close> allows.
\<close>

definition ensures :: "(py_error \<Rightarrow> bool) \<Rightarrow> ('a \<Rightarrow> bool) \<Rightarrow> 'a result \<Rightarrow> bool" where
  "ensures E P m = (case m of Inl e \<Rightarrow> E e | Inr x \<Rightarrow> P x)"

definition dict_modify :: "'k \<Rightarrow> 'v \<Rightarrow> ('v \<Rightarrow> 'v) \<Rightarrow> ('k, 'v) dict \<Rightarrow> ('k, 'v) dict" where
  "dict_modify k d f m =
     AList.update k (f (case map_of m k of None \<Rightarrow> d | Some v \<Rightarrow> v)) m"

definition dict_get_or :: "'v \<Rightarrow> ('k, 'v) dict \<Rightarrow> 'k \<Rightarrow> 'v" where
  "dict_get_or d m k = (case map_of m k of None \<Rightarrow> d | Some v \<Rightarrow> v)"

abbreviation dict_set :: "'k \<Rightarrow> 'v \<Rightarrow> ('k, 'v) dict \<Rightarrow> ('k, 'v) dict" where
  "dict_set \<equiv> AList.update"

abbreviation dict_pop :: "'k \<Rightarrow> ('k, 'v) dict \<Rightarrow> ('k, 'v) dict" where
  "dict_pop \<equiv> AList.delete"

abbreviation dict_wf :: "('k, 'v) dict \<Rightarrow> bool" where
  "dict_wf m \<equiv> distinct (map fst m)"

definition dict_sum :: "('v \<Rightarrow> int) \<Rightarrow> ('k, 'v) dict \<Rightarrow> int" where
  "dict_sum g m = sum_list (map (\<lambda>p. g (snd p)) m)"

section \<open>Sequencing\<close>

lemma bindE_Inr_iff [simp]: "bindE m f = Inr y \<longleftrightarrow> (\<exists>x. m = Inr x \<and> f x = Inr y)"
  by (cases m) auto

lemma bindE_Inl_iff:
  "bindE m f = Inl e \<longleftrightarrow> m = Inl e \<or> (\<exists>x. m = Inr x \<and> f x = Inl e)"
  by (cases m) auto

lemma bindE_assoc: "bindE (bindE m f) g = bindE m (\<lambda>x. bindE (f x) g)"
  by (cases m) auto

lemma raise_if_Inr [simp]: "raise_if b e = Inr u \<longleftrightarrow> \<not> b"
  by (simp add: raise_if_def)

lemma raise_if_Inl [simp]: "raise_if b e = Inl e' \<longleftrightarrow> b \<and> e' = e"
  by (auto simp: raise_if_def)

lemma bindE_raise_if: "bindE (raise_if b e) f = (if b then Inl e else f ())"
  by (simp add: raise_if_def)

lemma foldE_append: "foldE f (xs @ ys) s = bindE (foldE f xs s) (foldE f ys)"
proof (induction xs arbitrary: s)
  case (Cons x xs)
  then show ?case by (cases "f x s") auto
qed simp

lemma checkE_Inr [simp]: "checkE f xs = Inr u \<longleftrightarrow> (\<forall>x \<in> set xs. f x = Inr ())"
  by (induction xs) auto

lemma mapE_Inr: "mapE f xs = Inr ys \<longleftrightarrow> list_all2 (\<lambda>x y. f x = Inr y) xs ys"
  by (induction xs arbitrary: ys) (auto simp: list_all2_Cons1)

lemma mapE_total: "(\<And>x. x \<in> set xs \<Longrightarrow> \<exists>y. f x = Inr y) \<Longrightarrow> \<exists>ys. mapE f xs = Inr ys"
  by (induction xs) fastforce+

section \<open>Guarantees\<close>

lemma ensures_Inr [simp]: "ensures E P (Inr x) = P x"
  by (simp add: ensures_def)

lemma ensures_Inl [simp]: "ensures E P (Inl e) = E e"
  by (simp add: ensures_def)

lemma ensuresD: "ensures E P m \<Longrightarrow> m = Inr x \<Longrightarrow> P x"
  by (simp add: ensures_def)

lemma ensures_errorD: "ensures E P m \<Longrightarrow> m = Inl e \<Longrightarrow> E e"
  by (simp add: ensures_def)

lemma ensures_bind [wp_intro]:
  assumes "ensures E Q m" and "\<And>x. Q x \<Longrightarrow> ensures E P (f x)"
  shows "ensures E P (bindE m f)"
  using assms by (cases m) (auto simp: ensures_def)

lemma ensures_mono:
  assumes "ensures E P m" and "\<And>x. P x \<Longrightarrow> Q x" and "\<And>e. E e \<Longrightarrow> F e"
  shows "ensures F Q m"
  using assms by (cases m) (auto simp: ensures_def)

lemma ensures_conj: "ensures E P m \<Longrightarrow> ensures E Q m \<Longrightarrow> ensures E (\<lambda>x. P x \<and> Q x) m"
  by (cases m) (auto simp: ensures_def)

lemma ensures_raise_if: "ensures E P (raise_if b e) = (if b then E e else P ())"
  by (simp add: raise_if_def)

text \<open>
  A loop keeps an invariant that may mention the part of the list already processed.
\<close>

lemma ensures_foldE_prefix:
  assumes "I [] s"
    and step: "\<And>ys x zs s. xs = ys @ x # zs \<Longrightarrow> I ys s \<Longrightarrow> ensures E (I (ys @ [x])) (f x s)"
  shows "ensures E (I xs) (foldE f xs s)"
proof -
  have "ensures E (I xs) (foldE f zs t)" if "xs = ys @ zs" and "I ys t" for ys zs t
    using that
  proof (induction zs arbitrary: ys t)
    case Nil
    then show ?case by simp
  next
    case (Cons x zs)
    have "ensures E (I (ys @ [x])) (f x t)"
      using step Cons.prems by blast
    then show ?case
      using Cons.IH [of "ys @ [x]"] Cons.prems(1) by (auto intro!: ensures_bind)
  qed
  from this [of "[]" xs s] show ?thesis using assms(1) by simp
qed

lemma ensures_foldE:
  assumes "I s" and "\<And>x s. x \<in> set xs \<Longrightarrow> I s \<Longrightarrow> ensures E I (f x s)"
  shows "ensures E I (foldE f xs s)"
  using ensures_foldE_prefix [where I = "\<lambda>_. I" and xs = xs and E = E and f = f and s = s] assms
  by auto

lemma foldE_pure:
  assumes "\<And>x s. x \<in> set xs \<Longrightarrow> f x s = Inr (g x s)"
  shows "foldE f xs s = Inr (fold g xs s)"
  using assms by (induction xs arbitrary: s) auto

section \<open>Dictionaries\<close>

lemma map_of_dict_set [dict_simps]: "map_of (dict_set k v m) k' = (if k' = k then Some v else map_of m k')"
  by (simp add: update_conv')

lemma map_of_dict_pop [dict_simps]: "map_of (dict_pop k m) k' = (if k' = k then None else map_of m k')"
  by (simp add: delete_conv')

lemma map_of_dict_modify [dict_simps]:
  "map_of (dict_modify k d f m) k' =
     (if k' = k then Some (f (dict_get_or d m k)) else map_of m k')"
  by (simp add: dict_modify_def dict_get_or_def update_conv')

lemma dict_get_or_set [dict_simps]:
  "dict_get_or d (dict_set k v m) k' = (if k' = k then v else dict_get_or d m k')"
  by (simp add: dict_get_or_def map_of_dict_set)

lemma dict_get_or_modify [dict_simps]:
  "dict_get_or d (dict_modify k d f m) k' =
     (if k' = k then f (dict_get_or d m k) else dict_get_or d m k')"
  by (simp add: dict_get_or_def map_of_dict_modify)

lemma dict_get_or_Nil [simp]: "dict_get_or d [] k = d"
  by (simp add: dict_get_or_def)

lemma keys_dict_set [dict_simps]: "fst ` set (dict_set k v m) = insert k (fst ` set m)"
  by (induction m) auto

lemma keys_dict_modify [dict_simps]: "fst ` set (dict_modify k d f m) = insert k (fst ` set m)"
  by (simp add: dict_modify_def keys_dict_set)

lemma dict_wf_set [simp]: "dict_wf (dict_set k v m) \<longleftrightarrow> dict_wf m"
  by (induction m) (auto simp: keys_dict_set image_iff)

lemma dict_wf_modify [simp]: "dict_wf (dict_modify k d f m) \<longleftrightarrow> dict_wf m"
  by (simp add: dict_modify_def)

lemma dict_wf_pop [simp]: "dict_wf m \<Longrightarrow> dict_wf (dict_pop k m)"
  by (rule distinct_delete)

lemma dict_sum_Nil [simp]: "dict_sum g [] = 0"
  by (simp add: dict_sum_def)

lemma dict_sum_Cons [simp]: "dict_sum g ((k, v) # m) = g v + dict_sum g m"
  by (simp add: dict_sum_def)

lemma dict_sum_set:
  "dict_wf m \<Longrightarrow> dict_sum g (dict_set k v m) =
     dict_sum g m + g v - (case map_of m k of None \<Rightarrow> 0 | Some w \<Rightarrow> g w)"
proof (induction m)
  case (Cons p m)
  obtain a b where p: "p = (a, b)" by (cases p)
  show ?case
  proof (cases "a = k")
    case True
    with Cons.prems p show ?thesis by (simp add: dict_sum_def)
  next
    case False
    with Cons p show ?thesis by simp
  qed
qed simp

lemma dict_sum_pop:
  "dict_wf m \<Longrightarrow> dict_sum g (dict_pop k m) = dict_sum g m - (case map_of m k of None \<Rightarrow> 0 | Some w \<Rightarrow> g w)"
proof (induction m)
  case (Cons p m)
  obtain a b where p: "p = (a, b)" by (cases p)
  show ?case
  proof (cases "a = k")
    case True
    then have "k \<notin> fst ` set m" using Cons.prems p by simp
    then have "dict_pop k m = m" by (rule delete_id)
    with True p show ?thesis by simp
  next
    case False
    with Cons p show ?thesis by simp
  qed
qed simp

lemma dict_sum_modify:
  assumes "dict_wf m" and "g d = 0" and "\<And>v. g (f v) = g v + c"
  shows "dict_sum g (dict_modify k d f m) = dict_sum g m + c"
  using assms by (simp add: dict_modify_def dict_sum_set split: option.splits)

lemma dict_sum_perm: "mset m = mset m' \<Longrightarrow> dict_sum g m = dict_sum g m'"
  unfolding dict_sum_def sum_mset_sum_list [symmetric] mset_map by simp

lemma dict_sum_sort_key [simp]: "dict_sum g (sort_key h m) = dict_sum g m"
  by (rule dict_sum_perm) simp

lemma map_of_in_values: "map_of m k = Some v \<Longrightarrow> v \<in> snd ` set m"
  by (force dest: map_of_SomeD)

lemma distinct_map_sort_key: "distinct (map f (sort_key g xs)) = distinct (map f xs)"
proof -
  have "mset (map f (sort_key g xs)) = mset (map f xs)"
    by simp
  then show ?thesis by (rule mset_eq_imp_distinct_iff)
qed

section \<open>Lists\<close>

lemma list_all2_in_set2:
  assumes "list_all2 R xs ys" and "y \<in> set ys"
  obtains x where "x \<in> set xs" "R x y"
  using assms by (metis in_set_conv_nth list_all2_conv_all_nth)

lemma sorted_le_last: "sorted (xs @ [x]) \<Longrightarrow> y \<in> set xs \<Longrightarrow> y \<le> x"
  by (simp add: sorted_append)

lemma sum_list_filter_partition:
  "(\<Sum>x\<leftarrow>xs. f x) = (\<Sum>x\<leftarrow>filter P xs. f x) + (\<Sum>x\<leftarrow>filter (\<lambda>x. \<not> P x) xs. (f x :: int))"
  by (induction xs) auto

lemma length_filter_partition3:
  assumes "\<And>x. x \<in> set xs \<Longrightarrow> (P x \<and> \<not> Q x \<and> \<not> R x) \<or> (\<not> P x \<and> Q x \<and> \<not> R x) \<or> (\<not> P x \<and> \<not> Q x \<and> R x)"
  shows "length (filter P xs) + length (filter Q xs) + length (filter R xs) = length xs"
  using assms by (induction xs) auto

lemma take_sort_key_dominates:
  assumes "x \<in> set (take n (sort_key k xs))" and "y \<in> set (drop n (sort_key k xs))"
  shows "k x \<le> k y"
proof -
  have "sorted (map k (take n (sort_key k xs) @ drop n (sort_key k xs)))"
    by simp
  then show ?thesis
    using assms unfolding map_append sorted_append by auto
qed

lemma sum_list_group:
  assumes "distinct ks" and "\<And>x. x \<in> set xs \<Longrightarrow> key x \<in> set ks"
  shows "sum_list (map (\<lambda>k. sum_list (map f (filter (\<lambda>x. key x = k) xs))) ks) = sum_list (map (f :: 'a \<Rightarrow> int) xs)"
  using assms(2)
proof (induction xs)
  case (Cons x xs)
  have step: "sum_list (map f (filter (\<lambda>y. key y = k) (x # xs))) =
      (if key x = k then f x else 0) + sum_list (map f (filter (\<lambda>y. key y = k) xs))" for k
    by simp
  have one: "sum_list (map (\<lambda>k. if key x = k then f x else 0) ks) = f x" if "key x \<in> set ks"
    using that by (simp add: sum_list_distinct_conv_sum_set [OF assms(1)])
  show ?case
    unfolding step sum_list_addf using Cons one by simp
qed simp

lemma length_filter_sum: "int (length (filter P xs)) = sum_list (map (\<lambda>x. if P x then 1 else 0) xs)"
  by (induction xs) auto

lemma sum_list_map_filter_option:
  "sum_list (List.map_filter f xs) = sum_list (map (\<lambda>x. case f x of None \<Rightarrow> 0 | Some v \<Rightarrow> (v :: int)) xs)"
  by (induction xs) (auto simp: List.map_filter_def split: option.splits)

end
