(* ===== verification/Sha256.thy ===== *)
theory Sha256
  imports Prelude "HOL-Library.Word"
begin

text \<open>
  The parts of Python's standard library that the event ledgers are digested with:
  \<open>str.encode("utf-8")\<close>, \<open>int.to_bytes(8, "big")\<close> and \<open>hashlib.sha256\<close>
  with its \<open>hexdigest\<close>. Bytes are integers from 0 to 255. A \<open>string\<close> holds the
  code points up to U+00FF, whose UTF-8 form has one or two bytes.
\<close>

unbundle bit_operations_syntax

section \<open>Encodings\<close>

definition utf8_char :: "char \<Rightarrow> int list" where
  "utf8_char c =
     (let n = (of_char c :: int) in
      if n < 128 then [n] else [192 + n div 64, 128 + n mod 64])"

definition utf8_encode :: "string \<Rightarrow> int list" where
  "utf8_encode s = concat (map utf8_char s)"

text \<open>Big-endian bytes; the source's lengths are below \<open>2 ^ 63\<close>, the bound on a Python object.\<close>

fun to_bytes_big :: "nat \<Rightarrow> int \<Rightarrow> int list" where
  "to_bytes_big 0 n = []"
| "to_bytes_big (Suc k) n = to_bytes_big k (n div 256) @ [n mod 256]"

definition hex_digit :: "int \<Rightarrow> char" where
  "hex_digit n = ''0123456789abcdef'' ! nat n"

definition hex_byte :: "int \<Rightarrow> string" where
  "hex_byte n = [hex_digit (n div 16 mod 16), hex_digit (n mod 16)]"

section \<open>SHA-256\<close>

type_synonym w32 = "32 word"

definition sha256_k :: "w32 list" where
  "sha256_k =
     [1116352408, 1899447441, 3049323471, 3921009573, 961987163, 1508970993, 2453635748, 2870763221,
      3624381080, 310598401, 607225278, 1426881987, 1925078388, 2162078206, 2614888103, 3248222580,
      3835390401, 4022224774, 264347078, 604807628, 770255983, 1249150122, 1555081692, 1996064986,
      2554220882, 2821834349, 2952996808, 3210313671, 3336571891, 3584528711, 113926993, 338241895,
      666307205, 773529912, 1294757372, 1396182291, 1695183700, 1986661051, 2177026350, 2456956037,
      2730485921, 2820302411, 3259730800, 3345764771, 3516065817, 3600352804, 4094571909, 275423344,
      430227734, 506948616, 659060556, 883997877, 958139571, 1322822218, 1537002063, 1747873779,
      1955562222, 2024104815, 2227730452, 2361852424, 2428436474, 2756734187, 3204031479, 3329325298]"

definition sha256_h0 :: "w32 list" where
  "sha256_h0 =
     [1779033703, 3144134277, 1013904242, 2773480762, 1359893119, 2600822924, 528734635, 1541459225]"

definition sha256_pad :: "int list \<Rightarrow> int list" where
  "sha256_pad m =
     m @ [128] @ replicate ((119 - length m mod 64) mod 64) 0 @ to_bytes_big 8 (8 * int (length m))"

fun be_words :: "int list \<Rightarrow> w32 list" where
  "be_words (a # b # c # d # bs) =
     of_int (a * 16777216 + b * 65536 + c * 256 + d) # be_words bs"
| "be_words _ = []"

definition small_sigma0 :: "w32 \<Rightarrow> w32" where
  "small_sigma0 x = word_rotr 7 x XOR word_rotr 18 x XOR drop_bit 3 x"

definition small_sigma1 :: "w32 \<Rightarrow> w32" where
  "small_sigma1 x = word_rotr 17 x XOR word_rotr 19 x XOR drop_bit 10 x"

text \<open>The message schedule, kept newest first while it grows from 16 to 64 words.\<close>

fun schedule_rev :: "nat \<Rightarrow> w32 list \<Rightarrow> w32 list" where
  "schedule_rev 0 ws = ws"
| "schedule_rev (Suc k) ws =
     schedule_rev k ((small_sigma1 (ws ! 1) + ws ! 6 + small_sigma0 (ws ! 14) + ws ! 15) # ws)"

definition schedule :: "w32 list \<Rightarrow> w32 list" where
  "schedule block = rev (schedule_rev 48 (rev block))"

fun sha256_round :: "w32 \<times> w32 \<Rightarrow> w32 list \<Rightarrow> w32 list" where
  "sha256_round (k, w) [a, b, c, d, e, f, g, h] =
     (let s1 = word_rotr 6 e XOR word_rotr 11 e XOR word_rotr 25 e;
          ch = (e AND f) XOR (NOT e AND g);
          t1 = h + s1 + ch + k + w;
          s0 = word_rotr 2 a XOR word_rotr 13 a XOR word_rotr 22 a;
          maj = (a AND b) XOR (a AND c) XOR (b AND c)
      in [t1 + (s0 + maj), a, b, c, d + t1, e, f, g])"
| "sha256_round _ st = st"

definition sha256_block :: "w32 list \<Rightarrow> w32 list \<Rightarrow> w32 list" where
  "sha256_block block st =
     map2 (+) st (fold sha256_round (zip sha256_k (schedule block)) st)"

function sha256_blocks :: "w32 list \<Rightarrow> w32 list \<Rightarrow> w32 list" where
  "sha256_blocks ws st =
     (if ws = [] then st else sha256_blocks (drop 16 ws) (sha256_block (take 16 ws) st))"
  by pat_completeness auto
termination
  by (relation "measure (\<lambda>(ws, st). length ws)") auto

declare sha256_blocks.simps [simp del]

definition sha256_hexdigest :: "int list \<Rightarrow> string" where
  "sha256_hexdigest m =
     concat (map (\<lambda>w. concat (map hex_byte (to_bytes_big 4 (uint w))))
       (sha256_blocks (be_words (sha256_pad m)) sha256_h0))"

section \<open>Facts\<close>

lemma length_to_bytes_big [simp]: "length (to_bytes_big k n) = k"
  by (induction k arbitrary: n) auto

lemma to_bytes_big_inject:
  "0 \<le> n \<Longrightarrow> n < 256 ^ k \<Longrightarrow> 0 \<le> m \<Longrightarrow> m < 256 ^ k \<Longrightarrow> to_bytes_big k n = to_bytes_big k m \<Longrightarrow> n = m"
proof (induction k arbitrary: n m)
  case (Suc k)
  have "0 \<le> n div 256" "n div 256 < 256 ^ k" "0 \<le> m div 256" "m div 256 < 256 ^ k"
    using Suc.prems by (simp_all add: div_less_iff_less_mult mult.commute pos_imp_zdiv_nonneg_iff)
  moreover have "to_bytes_big k (n div 256) = to_bytes_big k (m div 256)" "n mod 256 = m mod 256"
    using Suc.prems(5) by auto
  ultimately have "n div 256 = m div 256" "n mod 256 = m mod 256"
    using Suc.IH by blast+
  then show ?case by (metis div_mult_mod_eq)
qed simp

lemma utf8_char_prefix_free:
  assumes "utf8_char c @ xs = utf8_char d @ ys"
  shows "c = d \<and> xs = ys"
proof -
  have "(of_char c :: int) = of_char d \<and> xs = ys"
  proof -
    have "0 \<le> (of_char c :: int) div 64" "0 \<le> (of_char d :: int) div 64"
      by (simp_all add: of_char_def pos_imp_zdiv_nonneg_iff)
    show ?thesis
    proof (cases "(of_char c :: int) < 128"; cases "(of_char d :: int) < 128")
      assume "\<not> (of_char c :: int) < 128" "\<not> (of_char d :: int) < 128"
      with assms have "(of_char c :: int) div 64 = of_char d div 64"
        "(of_char c :: int) mod 64 = of_char d mod 64" "xs = ys"
        by (simp_all add: utf8_char_def Let_def)
      then show ?thesis by (metis div_mult_mod_eq)
    qed (use assms in \<open>auto simp: utf8_char_def Let_def\<close>)
  qed
  then show ?thesis by simp
qed

lemma utf8_char_nonempty [simp]: "utf8_char c \<noteq> []"
  by (simp add: utf8_char_def Let_def)

lemma utf8_encode_Cons [simp]: "utf8_encode (c # s) = utf8_char c @ utf8_encode s"
  by (simp add: utf8_encode_def)

lemma utf8_encode_Nil [simp]: "utf8_encode [] = []"
  by (simp add: utf8_encode_def)

lemma utf8_encode_inject: "utf8_encode s = utf8_encode t \<longleftrightarrow> s = t"
proof
  show "utf8_encode s = utf8_encode t \<Longrightarrow> s = t"
  proof (induction s arbitrary: t)
    case Nil
    then show ?case by (cases t) auto
  next
    case (Cons c s)
    then obtain d u where t: "t = d # u"
      by (cases t) auto
    with Cons.prems have "utf8_char c @ utf8_encode s = utf8_char d @ utf8_encode u"
      by simp
    then have "c = d" "utf8_encode s = utf8_encode u"
      using utf8_char_prefix_free by blast+
    then show ?case using Cons.IH t by simp
  qed
qed simp

end
