(* ===== verification/Sha256Vector.thy ===== *)
theory Sha256Vector
  imports Sha256
begin

text \<open>
  A published test vector for the digest of theory \<open>Sha256\<close>, evaluated in the kernel.
\<close>

lemma sha256_abc:
  "sha256_hexdigest (utf8_encode ''abc'') =
     ''ba7816bf8f01cfea414140de5dae2223b00361a396177a9cb410ff61f20015ad''"
  by code_simp

end
