(* ===== verification/TraceEvents.thy ===== *)
theory TraceEvents
  imports Prelude
begin

text \<open>
  The normalized trace events of \<open>src/src/perflens/domain/trace.py\<close>: the enumerations, the
  identities, the five event classes (record extension mirrors dataclass inheritance), the
  resource limits and the validation of one event. Python's static types are kept, so the
  \<open>isinstance\<close> tests on ints, tuples and strings have no counterpart; every range test has.
\<close>

section \<open>Data\<close>

datatype trace_event_kind =
    SCHED_SWITCH | SCHED_WAKEUP | SCHED_MIGRATE
  | LOCK_WAIT | LOCK_ACQUIRED | LOCK_WAIT_ENDED | LOCK_RELEASED
  | FUTEX_WAIT | FUTEX_WAKE

datatype trace_scope = Scope_TARGET | Scope_FOREIGN

datatype evidence_semantics = Sem_EXACT | Sem_CANDIDATE

datatype wakeup_source = Src_WAKEUP | Src_WAKEUP_NEW | Src_WAKING

datatype lock_action = Lock_WAIT | Lock_ACQUIRED | Lock_WAIT_ENDED | Lock_RELEASED

datatype lock_wait_outcome =
  Outcome_ACQUIRED | Outcome_TIMED_OUT | Outcome_INTERRUPTED | Outcome_FAILED | Outcome_UNKNOWN

datatype futex_action = Futex_WAIT | Futex_WAKE

datatype futex_operation =
    Op_WAIT | Op_WAIT_BITSET | Op_WAIT_REQUEUE_PI
  | Op_WAKE | Op_WAKE_BITSET | Op_REQUEUE | Op_UNKNOWN

record target_identity =
  tgt_pid :: int
  tgt_uid :: int
  tgt_start_time_ticks :: int

record task_identity =
  task_pid :: "int option"
  task_tid :: "int option"

record trace_event_base =
  te_event_id :: string
  te_sequence :: int
  te_timestamp_ns :: int
  te_target :: target_identity
  te_semantics :: evidence_semantics
  te_cpu :: "int option"
  te_stack :: "string list"

record sched_switch_event = trace_event_base +
  sw_previous :: task_identity
  sw_previous_scope :: trace_scope
  sw_next :: task_identity
  sw_next_scope :: trace_scope
  sw_previous_state :: string

record sched_wakeup_event = trace_event_base +
  wk_woken :: task_identity
  wk_woken_scope :: trace_scope
  wk_source :: wakeup_source
  wk_waker :: "task_identity option"
  wk_waker_scope :: "trace_scope option"

record sched_migrate_event = trace_event_base +
  mg_task :: task_identity
  mg_task_scope :: trace_scope
  mg_origin_cpu :: int
  mg_destination_cpu :: int

record lock_event = trace_event_base +
  lk_task :: task_identity
  lk_task_scope :: trace_scope
  lk_action :: lock_action
  lk_lock_id :: string
  lk_wait_outcome :: "lock_wait_outcome option"
  lk_owner :: "task_identity option"
  lk_owner_scope :: "trace_scope option"

record futex_event = trace_event_base +
  fx_task :: task_identity
  fx_task_scope :: trace_scope
  fx_action :: futex_action
  fx_futex_id :: string
  fx_operation :: futex_operation
  fx_wake_count :: "int option"

datatype trace_event =
    SchedSwitch sched_switch_event
  | SchedWakeup sched_wakeup_event
  | SchedMigrate sched_migrate_event
  | Lock lock_event
  | Futex futex_event

record trace_limits =
  tl_max_events :: int
  tl_max_input_lines :: int
  tl_max_line_chars :: int
  tl_max_stack_depth :: int
  tl_max_unique_tids :: int
  tl_max_unique_locks :: int
  tl_max_warnings :: int
  tl_max_output_bytes :: int

section \<open>Construction\<close>

definition mk_task_identity :: "int option \<Rightarrow> int option \<Rightarrow> task_identity result" where
  "mk_task_identity pid tid =
     (if (pid = None) \<noteq> (tid = None)
      then Inl (ValueError ''redacted task PID and TID must either both be absent or present'')
      else Inr \<lparr>task_pid = pid, task_tid = tid\<rparr>)"

definition external_redacted :: task_identity where
  "external_redacted = \<lparr>task_pid = None, task_tid = None\<rparr>"

definition trace_limits_default :: trace_limits where
  "trace_limits_default =
     \<lparr>tl_max_events = 100000, tl_max_input_lines = 1000000, tl_max_line_chars = 64 * 2 ^ 10,
      tl_max_stack_depth = 127, tl_max_unique_tids = 65536, tl_max_unique_locks = 100000,
      tl_max_warnings = 100, tl_max_output_bytes = 64 * 2 ^ 20\<rparr>"

definition trace_limits_post_init :: "trace_limits \<Rightarrow> unit result" where
  "trace_limits_post_init lim =
     raise_if (\<exists>v \<in> set [tl_max_events lim, tl_max_input_lines lim, tl_max_line_chars lim,
                 tl_max_stack_depth lim, tl_max_unique_tids lim, tl_max_unique_locks lim,
                 tl_max_warnings lim, tl_max_output_bytes lim]. v < 1)
       (ValueError ''trace ResourceLimits values must be positive'')"

section \<open>Accessors common to the event classes\<close>

fun ev_base :: "trace_event \<Rightarrow> trace_event_base" where
  "ev_base (SchedSwitch e) = trace_event_base.truncate e"
| "ev_base (SchedWakeup e) = trace_event_base.truncate e"
| "ev_base (SchedMigrate e) = trace_event_base.truncate e"
| "ev_base (Lock e) = trace_event_base.truncate e"
| "ev_base (Futex e) = trace_event_base.truncate e"

abbreviation ev_id :: "trace_event \<Rightarrow> string" where
  "ev_id e \<equiv> te_event_id (ev_base e)"

abbreviation ev_ts :: "trace_event \<Rightarrow> int" where
  "ev_ts e \<equiv> te_timestamp_ns (ev_base e)"

fun lock_event_kind :: "lock_action \<Rightarrow> trace_event_kind" where
  "lock_event_kind Lock_WAIT = LOCK_WAIT"
| "lock_event_kind Lock_ACQUIRED = LOCK_ACQUIRED"
| "lock_event_kind Lock_WAIT_ENDED = LOCK_WAIT_ENDED"
| "lock_event_kind Lock_RELEASED = LOCK_RELEASED"

fun futex_event_kind :: "futex_action \<Rightarrow> trace_event_kind" where
  "futex_event_kind Futex_WAIT = FUTEX_WAIT"
| "futex_event_kind Futex_WAKE = FUTEX_WAKE"

fun event_kind :: "trace_event \<Rightarrow> trace_event_kind" where
  "event_kind (SchedSwitch e) = SCHED_SWITCH"
| "event_kind (SchedWakeup e) = SCHED_WAKEUP"
| "event_kind (SchedMigrate e) = SCHED_MIGRATE"
| "event_kind (Lock e) = lock_event_kind (lk_action e)"
| "event_kind (Futex e) = futex_event_kind (fx_action e)"

section \<open>Validation of one event\<close>

fun str_nat :: "nat \<Rightarrow> string" where
  "str_nat n =
     (if n < 10 then [char_of (48 + n)] else str_nat (n div 10) @ [char_of (48 + n mod 10)])"

declare str_nat.simps [simp del]

definition require_plain_int :: "int \<Rightarrow> string \<Rightarrow> nat \<Rightarrow> unit result" where
  "require_plain_int v field_name minimum =
     raise_if (v < int minimum)
       (ValueError (field_name @ '' must be an integer >= '' @ str_nat minimum))"

definition validate_target :: "target_identity \<Rightarrow> unit result" where
  "validate_target t =
     bindE (require_plain_int (tgt_pid t) ''target.pid'' 1) (\<lambda>_.
     bindE (require_plain_int (tgt_uid t) ''target.uid'' 0) (\<lambda>_.
     require_plain_int (tgt_start_time_ticks t) ''target.start_time_ticks'' 1))"

definition validate_task :: "task_identity \<Rightarrow> string \<Rightarrow> unit result" where
  "validate_task t field_name =
     (case (task_pid t, task_tid t) of
        (Some pid, Some tid) \<Rightarrow>
          bindE (require_plain_int pid (field_name @ ''.pid'') 1) (\<lambda>_.
          require_plain_int tid (field_name @ ''.tid'') 1)
      | _ \<Rightarrow> Inl (ValueError (field_name @ '' target identity must not be redacted'')))"

definition validate_scoped_task ::
  "task_identity \<Rightarrow> trace_scope \<Rightarrow> target_identity \<Rightarrow> string \<Rightarrow> unit result" where
  "validate_scoped_task t scope tgt field_name =
     (case scope of
        Scope_TARGET \<Rightarrow>
          bindE (validate_task t field_name) (\<lambda>_.
          raise_if (task_pid t \<noteq> Some (tgt_pid tgt))
            (ValueError (field_name @ '' is marked target but has a foreign pid'')))
      | Scope_FOREIGN \<Rightarrow>
          raise_if (task_pid t \<noteq> None \<or> task_tid t \<noteq> None)
            (ValueError (field_name @ '' foreign identity must already be redacted'')))"

definition forbidden_controls :: "char list" where
  "forbidden_controls = [char_of (0::nat), char_of (10::nat), char_of (13::nat)]"

definition validate_bounded_text :: "string \<Rightarrow> string \<Rightarrow> trace_limits \<Rightarrow> unit result" where
  "validate_bounded_text v field_name lim =
     bindE (raise_if (v = [] \<or> int (length v) > tl_max_line_chars lim)
       (ValueError (field_name @ '' must be non-empty and within max_line_chars''))) (\<lambda>_.
     raise_if (\<exists>c \<in> set forbidden_controls. c \<in> set v)
       (ValueError (field_name @ '' contains a forbidden control character'')))"

definition validate_stack :: "string list \<Rightarrow> trace_limits \<Rightarrow> unit result" where
  "validate_stack frames lim =
     bindE (raise_if (int (length frames) > tl_max_stack_depth lim)
       (ValueError ''stack exceeds max_stack_depth'')) (\<lambda>_.
     checkE (\<lambda>(index, frame).
         validate_bounded_text frame (''stack['' @ str_nat index @ '']'') lim)
       (enumerate 0 frames))"

definition validate_common :: "trace_event_base \<Rightarrow> trace_limits \<Rightarrow> unit result" where
  "validate_common e lim =
     bindE (validate_bounded_text (te_event_id e) ''event_id'' lim) (\<lambda>_.
     bindE (require_plain_int (te_sequence e) ''sequence'' 0) (\<lambda>_.
     bindE (require_plain_int (te_timestamp_ns e) ''timestamp_ns'' 0) (\<lambda>_.
     bindE (validate_target (te_target e)) (\<lambda>_.
     bindE (case te_cpu e of None \<Rightarrow> Inr () | Some c \<Rightarrow> require_plain_int c ''cpu'' 0) (\<lambda>_.
     validate_stack (te_stack e) lim)))))"

definition validate_sched_switch :: "sched_switch_event \<Rightarrow> trace_limits \<Rightarrow> unit result" where
  "validate_sched_switch e lim =
     bindE (raise_if (te_semantics e \<noteq> Sem_EXACT)
       (ValueError ''sched_switch evidence semantics must be exact'')) (\<lambda>_.
     bindE (validate_scoped_task (sw_previous e) (sw_previous_scope e) (te_target e) ''previous'') (\<lambda>_.
     bindE (validate_scoped_task (sw_next e) (sw_next_scope e) (te_target e) ''next'') (\<lambda>_.
     bindE (raise_if (sw_previous_scope e \<noteq> Scope_TARGET \<and> sw_next_scope e \<noteq> Scope_TARGET)
       (ValueError ''sched_switch must involve the authorized target'')) (\<lambda>_.
     validate_bounded_text (sw_previous_state e) ''previous_state'' lim))))"

definition validate_sched_wakeup :: "sched_wakeup_event \<Rightarrow> unit result" where
  "validate_sched_wakeup e =
     bindE (raise_if (te_semantics e \<noteq> Sem_EXACT)
       (ValueError ''sched_wakeup evidence semantics must be exact'')) (\<lambda>_.
     bindE (validate_scoped_task (wk_woken e) (wk_woken_scope e) (te_target e) ''woken'') (\<lambda>_.
     bindE (raise_if (wk_woken_scope e \<noteq> Scope_TARGET)
       (ValueError ''sched_wakeup must identify an authorized target task'')) (\<lambda>_.
     bindE (raise_if ((wk_waker e = None) \<noteq> (wk_waker_scope e = None))
       (ValueError ''waker and waker_scope must either both be present or both be absent'')) (\<lambda>_.
     (case (wk_waker e, wk_waker_scope e) of
        (Some t, Some sc) \<Rightarrow> validate_scoped_task t sc (te_target e) ''waker''
      | _ \<Rightarrow> Inr ())))))"

definition validate_sched_migrate :: "sched_migrate_event \<Rightarrow> unit result" where
  "validate_sched_migrate e =
     bindE (raise_if (te_semantics e \<noteq> Sem_EXACT)
       (ValueError ''sched_migrate evidence semantics must be exact'')) (\<lambda>_.
     bindE (validate_scoped_task (mg_task e) (mg_task_scope e) (te_target e) ''task'') (\<lambda>_.
     bindE (raise_if (mg_task_scope e \<noteq> Scope_TARGET)
       (ValueError ''sched_migrate task must belong to the authorized target'')) (\<lambda>_.
     bindE (require_plain_int (mg_origin_cpu e) ''origin_cpu'' 0) (\<lambda>_.
     bindE (require_plain_int (mg_destination_cpu e) ''destination_cpu'' 0) (\<lambda>_.
     raise_if (mg_origin_cpu e = mg_destination_cpu e)
       (ValueError ''sched_migrate origin and destination CPUs must differ''))))))"

definition validate_lock :: "lock_event \<Rightarrow> trace_limits \<Rightarrow> unit result" where
  "validate_lock e lim =
     bindE (validate_scoped_task (lk_task e) (lk_task_scope e) (te_target e) ''task'') (\<lambda>_.
     bindE (raise_if (lk_task_scope e \<noteq> Scope_TARGET)
       (ValueError ''lock event task must belong to the authorized target'')) (\<lambda>_.
     bindE (validate_bounded_text (lk_lock_id e) ''lock_id'' lim) (\<lambda>_.
     bindE (raise_if ((lk_owner e = None) \<noteq> (lk_owner_scope e = None))
       (ValueError ''owner and owner_scope must either both be present or both be absent'')) (\<lambda>_.
     bindE (raise_if (lk_action e \<noteq> Lock_WAIT \<and> lk_owner e \<noteq> None)
       (ValueError ''owner metadata is valid only for lock wait evidence'')) (\<lambda>_.
     bindE (raise_if ((lk_action e = Lock_WAIT_ENDED) \<noteq> (lk_wait_outcome e \<noteq> None))
       (ValueError ''wait_outcome is required only for lock wait-ended evidence'')) (\<lambda>_.
     bindE (raise_if (lk_action e \<in> {Lock_ACQUIRED, Lock_WAIT_ENDED, Lock_RELEASED}
         \<and> te_semantics e \<noteq> Sem_EXACT)
       (ValueError ''lock acquire/release evidence semantics must be exact'')) (\<lambda>_.
     (case (lk_owner e, lk_owner_scope e) of
        (Some t, Some sc) \<Rightarrow> validate_scoped_task t sc (te_target e) ''owner''
      | _ \<Rightarrow> Inr ()))))))))"

definition validate_futex :: "futex_event \<Rightarrow> trace_limits \<Rightarrow> unit result" where
  "validate_futex e lim =
     bindE (validate_scoped_task (fx_task e) (fx_task_scope e) (te_target e) ''task'') (\<lambda>_.
     bindE (raise_if (fx_task_scope e \<noteq> Scope_TARGET)
       (ValueError ''futex event task must belong to the authorized target'')) (\<lambda>_.
     bindE (raise_if (te_semantics e \<noteq> Sem_CANDIDATE)
       (ValueError ''futex evidence must remain candidate semantics'')) (\<lambda>_.
     bindE (raise_if (fx_action e = Futex_WAIT \<and>
         fx_operation e \<notin> {Op_WAIT, Op_WAIT_BITSET, Op_WAIT_REQUEUE_PI, Op_UNKNOWN})
       (ValueError ''futex wait action contradicts its normalized operation'')) (\<lambda>_.
     bindE (raise_if (fx_action e = Futex_WAKE \<and>
         fx_operation e \<notin> {Op_WAKE, Op_WAKE_BITSET, Op_REQUEUE, Op_UNKNOWN})
       (ValueError ''futex wake action contradicts its normalized operation'')) (\<lambda>_.
     bindE (validate_bounded_text (fx_futex_id e) ''futex_id'' lim) (\<lambda>_.
     bindE (raise_if (fx_action e = Futex_WAIT \<and> fx_wake_count e \<noteq> None)
       (ValueError ''wake_count is invalid for futex wait evidence'')) (\<lambda>_.
     (case fx_wake_count e of
        None \<Rightarrow> Inr ()
      | Some n \<Rightarrow> require_plain_int n ''wake_count'' 0))))))))"

definition validate_trace_event :: "trace_event \<Rightarrow> trace_limits \<Rightarrow> unit result" where
  "validate_trace_event e lim =
     bindE (validate_common (ev_base e) lim) (\<lambda>_.
     (case e of
        SchedSwitch x \<Rightarrow> validate_sched_switch x lim
      | SchedWakeup x \<Rightarrow> validate_sched_wakeup x
      | SchedMigrate x \<Rightarrow> validate_sched_migrate x
      | Lock x \<Rightarrow> validate_lock x lim
      | Futex x \<Rightarrow> validate_futex x lim))"

fun tasks_for_event :: "trace_event \<Rightarrow> (task_identity \<times> trace_scope) list" where
  "tasks_for_event (SchedSwitch e) =
     [(sw_previous e, sw_previous_scope e), (sw_next e, sw_next_scope e)]"
| "tasks_for_event (SchedWakeup e) =
     (wk_woken e, wk_woken_scope e) #
     (case (wk_waker e, wk_waker_scope e) of (Some t, Some sc) \<Rightarrow> [(t, sc)] | _ \<Rightarrow> [])"
| "tasks_for_event (SchedMigrate e) = [(mg_task e, mg_task_scope e)]"
| "tasks_for_event (Lock e) =
     (lk_task e, lk_task_scope e) #
     (case (lk_owner e, lk_owner_scope e) of (Some t, Some sc) \<Rightarrow> [(t, sc)] | _ \<Rightarrow> [])"
| "tasks_for_event (Futex e) = [(fx_task e, fx_task_scope e)]"

end
