(* ===== verification/TraceSequence.thy ===== *)
theory TraceSequence
  imports TraceEvents
begin

text \<open>
  \<open>validate_trace_sequence\<close> of \<open>src/src/perflens/domain/trace.py\<close>: one pass over a trace
  that checks order, identity, semantics and resource bounds and collects statistics. The
  loop state is a record with one field per local variable. The main result is that the
  loop accepts exactly the sequences of a declarative specification and that the statistics
  it returns are the ones the specification defines.
\<close>

section \<open>The loop\<close>

record validation_state =
  vs_event_ids :: "string set"
  vs_tids :: "int set"
  vs_lock_ids :: "string set"
  vs_event_count :: int
  vs_exact_count :: int
  vs_candidate_count :: int
  vs_target_scope_count :: int
  vs_foreign_scope_count :: int
  vs_first_timestamp :: "int option"
  vs_last_timestamp :: "int option"
  vs_previous_sequence :: "int option"
  vs_target :: "target_identity option"

record trace_validation_warning =
  tvw_code :: string
  tvw_message :: string

record trace_validation_stats =
  st_event_count :: int
  st_input_line_count :: int
  st_output_bytes :: int
  st_first_timestamp_ns :: "int option"
  st_last_timestamp_ns :: "int option"
  st_unique_tid_count :: int
  st_unique_lock_count :: int
  st_exact_event_count :: int
  st_candidate_event_count :: int
  st_target_scope_event_count :: int
  st_foreign_scope_event_count :: int
  st_warning_count :: int
  st_warnings :: "trace_validation_warning list"
  st_warnings_truncated :: bool

definition validation_init :: "target_identity option \<Rightarrow> validation_state" where
  "validation_init expected_target =
     \<lparr>vs_event_ids = {}, vs_tids = {}, vs_lock_ids = {}, vs_event_count = 0,
      vs_exact_count = 0, vs_candidate_count = 0, vs_target_scope_count = 0,
      vs_foreign_scope_count = 0, vs_first_timestamp = None, vs_last_timestamp = None,
      vs_previous_sequence = None, vs_target = expected_target\<rparr>"

text \<open>The TIDs and lock identities one event contributes.\<close>

definition event_tids :: "trace_event \<Rightarrow> int set" where
  "event_tids e =
     set (List.map_filter (\<lambda>(t, sc). if sc = Scope_TARGET then task_tid t else None) (tasks_for_event e))"

fun event_lock_ids :: "trace_event \<Rightarrow> string set" where
  "event_lock_ids (Lock e) = {lk_lock_id e}"
| "event_lock_ids (Futex e) = {fx_futex_id e}"
| "event_lock_ids _ = {}"

text \<open>
  The checks of the loop body come first here, in the order in which they can raise; the
  updates, none of which a raised check can expose, are \<open>validation_advance\<close>.
\<close>

definition validation_advance :: "trace_event \<Rightarrow> validation_state \<Rightarrow> validation_state" where
  "validation_advance e s =
     (let b = ev_base e; tasks = tasks_for_event e in
      \<lparr>vs_event_ids = insert (te_event_id b) (vs_event_ids s),
       vs_tids = vs_tids s \<union> event_tids e,
       vs_lock_ids = vs_lock_ids s \<union> event_lock_ids e,
       vs_event_count = vs_event_count s + 1,
       vs_exact_count = vs_exact_count s + (if te_semantics b = Sem_EXACT then 1 else 0),
       vs_candidate_count = vs_candidate_count s + (if te_semantics b = Sem_EXACT then 0 else 1),
       vs_target_scope_count = vs_target_scope_count s +
         (if \<exists>p \<in> set tasks. snd p = Scope_TARGET then 1 else 0),
       vs_foreign_scope_count = vs_foreign_scope_count s +
         (if \<exists>p \<in> set tasks. snd p = Scope_FOREIGN then 1 else 0),
       vs_first_timestamp =
         (case vs_first_timestamp s of None \<Rightarrow> Some (te_timestamp_ns b) | Some t \<Rightarrow> Some t),
       vs_last_timestamp = Some (te_timestamp_ns b),
       vs_previous_sequence = Some (te_sequence b),
       vs_target = (case vs_target s of None \<Rightarrow> Some (te_target b) | Some t \<Rightarrow> Some t)\<rparr>)"

definition validate_step :: "trace_limits \<Rightarrow> trace_event \<Rightarrow> validation_state \<Rightarrow> validation_state result" where
  "validate_step lim e s =
     (let count = vs_event_count s + 1;
          b = ev_base e;
          tids = vs_tids s \<union> event_tids e;
          locks = vs_lock_ids s \<union> event_lock_ids e
      in
      bindE (raise_if (count > tl_max_events lim)
        (ValueError ''trace event count exceeds max_events'')) (\<lambda>_.
      bindE (validate_trace_event e lim) (\<lambda>_.
      bindE (raise_if (te_event_id b \<in> vs_event_ids s)
        (ValueError ''duplicate trace event_id'')) (\<lambda>_.
      bindE (raise_if (case vs_previous_sequence s of None \<Rightarrow> False | Some q \<Rightarrow> te_sequence b \<le> q)
        (ValueError ''trace sequence must be strictly increasing'')) (\<lambda>_.
      bindE (raise_if (case vs_last_timestamp s of None \<Rightarrow> False | Some t \<Rightarrow> te_timestamp_ns b < t)
        (ValueError ''trace timestamps must not move backwards'')) (\<lambda>_.
      bindE (raise_if (case vs_target s of None \<Rightarrow> False | Some t \<Rightarrow> te_target b \<noteq> t)
        (ValueError ''trace target identity changed within the sequence'')) (\<lambda>_.
      bindE (raise_if (int (card tids) > tl_max_unique_tids lim)
        (ValueError ''trace TID cardinality exceeds max_unique_tids'')) (\<lambda>_.
      bindE (raise_if (int (card locks) > tl_max_unique_locks lim)
        (ValueError ''trace lock cardinality exceeds max_unique_locks'')) (\<lambda>_.
      Inr (validation_advance e s))))))))))"

definition add_validation_warning ::
  "trace_limits \<Rightarrow> bool \<Rightarrow> trace_validation_warning \<Rightarrow>
     int \<times> trace_validation_warning list \<Rightarrow> int \<times> trace_validation_warning list" where
  "add_validation_warning lim fire w acc =
     (case acc of (n, ws) \<Rightarrow>
        if fire then (n + 1, if int (length ws) < tl_max_warnings lim then ws @ [w] else ws)
        else (n, ws))"

definition validation_finish ::
  "trace_limits \<Rightarrow> int option \<Rightarrow> int \<Rightarrow> validation_state \<Rightarrow> trace_validation_stats" where
  "validation_finish lim input_line_count observed_output_bytes s =
     (case add_validation_warning lim (vs_foreign_scope_count s \<noteq> 0)
              \<lparr>tvw_code = ''foreign_scope_present'',
               tvw_message = ''foreign task metadata requires privacy filtering before publication''\<rparr>
            (add_validation_warning lim (vs_candidate_count s \<noteq> 0)
              \<lparr>tvw_code = ''candidate_evidence_present'',
               tvw_message = ''candidate events cannot establish a specific high-level lock or root cause''\<rparr>
              (0, [])) of
        (warning_count, warnings) \<Rightarrow>
          \<lparr>st_event_count = vs_event_count s,
           st_input_line_count = (case input_line_count of None \<Rightarrow> vs_event_count s | Some n \<Rightarrow> n),
           st_output_bytes = observed_output_bytes,
           st_first_timestamp_ns = vs_first_timestamp s,
           st_last_timestamp_ns = vs_last_timestamp s,
           st_unique_tid_count = int (card (vs_tids s)),
           st_unique_lock_count = int (card (vs_lock_ids s)),
           st_exact_event_count = vs_exact_count s,
           st_candidate_event_count = vs_candidate_count s,
           st_target_scope_event_count = vs_target_scope_count s,
           st_foreign_scope_event_count = vs_foreign_scope_count s,
           st_warning_count = warning_count,
           st_warnings = warnings,
           st_warnings_truncated = (warning_count > int (length warnings))\<rparr>)"

definition validate_trace_sequence ::
  "trace_event list \<Rightarrow> target_identity option \<Rightarrow> int option \<Rightarrow> int option \<Rightarrow> trace_limits option
     \<Rightarrow> trace_validation_stats result" where
  "validate_trace_sequence events expected_target input_line_count output_bytes limits =
     (let lim = (case limits of None \<Rightarrow> trace_limits_default | Some l \<Rightarrow> l);
          observed = (case output_bytes of None \<Rightarrow> 0 | Some n \<Rightarrow> n)
      in
      bindE (case expected_target of None \<Rightarrow> Inr () | Some t \<Rightarrow> validate_target t) (\<lambda>_.
      bindE (case input_line_count of None \<Rightarrow> Inr ()
             | Some n \<Rightarrow> bindE (require_plain_int n ''input_line_count'' 0) (\<lambda>_.
                 raise_if (n > tl_max_input_lines lim)
                   (ValueError ''input_line_count exceeds max_input_lines''))) (\<lambda>_.
      bindE (case output_bytes of None \<Rightarrow> Inr ()
             | Some n \<Rightarrow> require_plain_int n ''output_bytes'' 0) (\<lambda>_.
      bindE (raise_if (observed > tl_max_output_bytes lim)
        (ValueError ''output_bytes exceeds max_output_bytes'')) (\<lambda>_.
      bindE (foldE (validate_step lim) events (validation_init expected_target)) (\<lambda>s.
      Inr (validation_finish lim input_line_count observed s)))))))"

section \<open>Specification\<close>

text \<open>What an accepted sequence looks like, and the loop state after it.\<close>

definition sequence_target :: "target_identity option \<Rightarrow> trace_event list \<Rightarrow> target_identity option" where
  "sequence_target expected evs =
     (case expected of
        Some t \<Rightarrow> Some t
      | None \<Rightarrow> (case evs of [] \<Rightarrow> None | e # _ \<Rightarrow> Some (te_target (ev_base e))))"

definition sequence_ok :: "trace_limits \<Rightarrow> target_identity option \<Rightarrow> trace_event list \<Rightarrow> bool" where
  "sequence_ok lim expected evs \<longleftrightarrow>
     int (length evs) \<le> tl_max_events lim \<and>
     (\<forall>e \<in> set evs. validate_trace_event e lim = Inr ()) \<and>
     distinct (map ev_id evs) \<and>
     sorted_wrt (<) (map (\<lambda>e. te_sequence (ev_base e)) evs) \<and>
     sorted (map ev_ts evs) \<and>
     (\<forall>e \<in> set evs. sequence_target expected evs = Some (te_target (ev_base e))) \<and>
     int (card (\<Union>(event_tids ` set evs))) \<le> tl_max_unique_tids lim \<and>
     int (card (\<Union>(event_lock_ids ` set evs))) \<le> tl_max_unique_locks lim"

definition count_events :: "(trace_event \<Rightarrow> bool) \<Rightarrow> trace_event list \<Rightarrow> int" where
  "count_events P evs = int (length (filter P evs))"

definition validation_state_of :: "target_identity option \<Rightarrow> trace_event list \<Rightarrow> validation_state" where
  "validation_state_of expected evs =
     \<lparr>vs_event_ids = set (map ev_id evs),
      vs_tids = \<Union>(event_tids ` set evs),
      vs_lock_ids = \<Union>(event_lock_ids ` set evs),
      vs_event_count = int (length evs),
      vs_exact_count = count_events (\<lambda>e. te_semantics (ev_base e) = Sem_EXACT) evs,
      vs_candidate_count = count_events (\<lambda>e. te_semantics (ev_base e) \<noteq> Sem_EXACT) evs,
      vs_target_scope_count =
        count_events (\<lambda>e. \<exists>p \<in> set (tasks_for_event e). snd p = Scope_TARGET) evs,
      vs_foreign_scope_count =
        count_events (\<lambda>e. \<exists>p \<in> set (tasks_for_event e). snd p = Scope_FOREIGN) evs,
      vs_first_timestamp = (case evs of [] \<Rightarrow> None | e # _ \<Rightarrow> Some (ev_ts e)),
      vs_last_timestamp = (if evs = [] then None else Some (ev_ts (last evs))),
      vs_previous_sequence = (if evs = [] then None else Some (te_sequence (ev_base (last evs)))),
      vs_target = sequence_target expected evs\<rparr>"

definition wf_trace_limits :: "trace_limits \<Rightarrow> bool" where
  "wf_trace_limits lim \<longleftrightarrow> trace_limits_post_init lim = Inr ()"

section \<open>The loop meets the specification\<close>

lemma wf_trace_limitsD:
  assumes "wf_trace_limits lim"
  shows "1 \<le> tl_max_events lim" "1 \<le> tl_max_unique_tids lim" "1 \<le> tl_max_unique_locks lim"
    "1 \<le> tl_max_warnings lim" "1 \<le> tl_max_output_bytes lim"
  using assms by (auto simp: wf_trace_limits_def trace_limits_post_init_def)

lemma finite_event_tids [simp]: "finite (event_tids e)"
  by (simp add: event_tids_def)

lemma finite_event_lock_ids [simp]: "finite (event_lock_ids e)"
  by (cases e) auto

lemma card_UN_snoc_mono:
  assumes "\<And>e. finite (f e)"
  shows "card (\<Union>(f ` set evs)) \<le> card (\<Union>(f ` set (evs @ [e])))"
  by (rule card_mono) (auto simp: assms)

lemma sorted_wrt_less_snoc:
  "sorted_wrt (<) (xs @ [x]) \<longleftrightarrow> sorted_wrt (<) xs \<and> (xs = [] \<or> last xs < (x::int))"
proof (induction xs)
  case (Cons y ys)
  then show ?case by (cases ys rule: rev_cases) (auto simp: sorted_wrt_append)
qed simp

lemma sorted_snoc: "sorted (xs @ [x]) \<longleftrightarrow> sorted xs \<and> (xs = [] \<or> last xs \<le> (x::int))"
proof (induction xs)
  case (Cons y ys)
  then show ?case by (cases ys rule: rev_cases) (auto simp: sorted_append)
qed simp

lemma sequence_target_snoc:
  "sequence_target expected (evs @ [e]) =
     (case sequence_target expected evs of None \<Rightarrow> Some (te_target (ev_base e)) | Some t \<Rightarrow> Some t)"
  by (auto simp: sequence_target_def split: option.splits list.splits)

lemma sequence_target_Some: "evs \<noteq> [] \<Longrightarrow> \<exists>t. sequence_target expected evs = Some t"
  by (auto simp: sequence_target_def split: option.splits list.splits)

lemma sequence_target_all_snoc:
  "(\<forall>d \<in> set (evs @ [e]). sequence_target expected (evs @ [e]) = Some (te_target (ev_base d))) \<longleftrightarrow>
   (\<forall>d \<in> set evs. sequence_target expected evs = Some (te_target (ev_base d))) \<and>
   (case sequence_target expected evs of None \<Rightarrow> True | Some t \<Rightarrow> te_target (ev_base e) = t)"
proof (cases "evs = []")
  case True
  then show ?thesis by (auto simp: sequence_target_def split: option.splits)
next
  case False
  then obtain t where "sequence_target expected evs = Some t"
    using sequence_target_Some by blast
  then show ?thesis by (auto simp: sequence_target_snoc)
qed

text \<open>One step extends an accepted prefix exactly when the specification accepts the longer one.\<close>

lemma sequence_ok_snoc:
  "sequence_ok lim expected (evs @ [e]) \<longleftrightarrow>
     sequence_ok lim expected evs \<and>
     int (length evs) + 1 \<le> tl_max_events lim \<and>
     validate_trace_event e lim = Inr () \<and>
     ev_id e \<notin> set (map ev_id evs) \<and>
     (evs = [] \<or> te_sequence (ev_base (last evs)) < te_sequence (ev_base e)) \<and>
     (evs = [] \<or> ev_ts (last evs) \<le> ev_ts e) \<and>
     (case sequence_target expected evs of None \<Rightarrow> True | Some t \<Rightarrow> te_target (ev_base e) = t) \<and>
     int (card (\<Union>(event_tids ` set evs) \<union> event_tids e)) \<le> tl_max_unique_tids lim \<and>
     int (card (\<Union>(event_lock_ids ` set evs) \<union> event_lock_ids e)) \<le> tl_max_unique_locks lim"
proof -
  have tids: "\<Union>(event_tids ` set (evs @ [e])) = \<Union>(event_tids ` set evs) \<union> event_tids e"
    and locks: "\<Union>(event_lock_ids ` set (evs @ [e])) = \<Union>(event_lock_ids ` set evs) \<union> event_lock_ids e"
    by auto
  have mono: "card (\<Union>(event_tids ` set evs)) \<le> card (\<Union>(event_tids ` set evs) \<union> event_tids e)"
    "card (\<Union>(event_lock_ids ` set evs)) \<le> card (\<Union>(event_lock_ids ` set evs) \<union> event_lock_ids e)"
    by (auto intro!: card_mono)
  have sorts:
    "sorted_wrt (<) (map (\<lambda>e. te_sequence (ev_base e)) (evs @ [e])) \<longleftrightarrow>
       sorted_wrt (<) (map (\<lambda>e. te_sequence (ev_base e)) evs) \<and>
       (evs = [] \<or> te_sequence (ev_base (last evs)) < te_sequence (ev_base e))"
    "sorted (map ev_ts (evs @ [e])) \<longleftrightarrow> sorted (map ev_ts evs) \<and> (evs = [] \<or> ev_ts (last evs) \<le> ev_ts e)"
    by (cases "evs = []"; simp add: sorted_wrt_less_snoc sorted_snoc last_map del: sorted_wrt_append)+
  show ?thesis
    unfolding sequence_ok_def tids locks sorts sequence_target_all_snoc
    using mono by auto
qed

lemma validate_step_Inr:
  "validate_step lim e s = Inr s' \<longleftrightarrow>
     vs_event_count s + 1 \<le> tl_max_events lim \<and>
     validate_trace_event e lim = Inr () \<and>
     ev_id e \<notin> vs_event_ids s \<and>
     (case vs_previous_sequence s of None \<Rightarrow> True | Some q \<Rightarrow> q < te_sequence (ev_base e)) \<and>
     (case vs_last_timestamp s of None \<Rightarrow> True | Some t \<Rightarrow> t \<le> ev_ts e) \<and>
     (case vs_target s of None \<Rightarrow> True | Some t \<Rightarrow> te_target (ev_base e) = t) \<and>
     int (card (vs_tids s \<union> event_tids e)) \<le> tl_max_unique_tids lim \<and>
     int (card (vs_lock_ids s \<union> event_lock_ids e)) \<le> tl_max_unique_locks lim \<and>
     s' = validation_advance e s"
  unfolding validate_step_def Let_def bindE_Inr_iff raise_if_Inr
  by (auto simp: not_less not_le split: option.splits)

lemma validate_step_spec:
  "validate_step lim e (validation_state_of expected evs) = Inr s \<longleftrightarrow>
     int (length evs) + 1 \<le> tl_max_events lim \<and>
     validate_trace_event e lim = Inr () \<and>
     ev_id e \<notin> set (map ev_id evs) \<and>
     (evs = [] \<or> te_sequence (ev_base (last evs)) < te_sequence (ev_base e)) \<and>
     (evs = [] \<or> ev_ts (last evs) \<le> ev_ts e) \<and>
     (case sequence_target expected evs of None \<Rightarrow> True | Some t \<Rightarrow> te_target (ev_base e) = t) \<and>
     int (card (\<Union>(event_tids ` set evs) \<union> event_tids e)) \<le> tl_max_unique_tids lim \<and>
     int (card (\<Union>(event_lock_ids ` set evs) \<union> event_lock_ids e)) \<le> tl_max_unique_locks lim \<and>
     s = validation_state_of expected (evs @ [e])"
proof -
  have "validation_advance e (validation_state_of expected evs) = validation_state_of expected (evs @ [e])"
    by (auto simp: validation_advance_def validation_state_of_def count_events_def
        sequence_target_snoc Let_def split: list.splits)
  then show ?thesis
    unfolding validate_step_Inr
    by (cases "evs = []") (simp_all add: validation_state_of_def)
qed

lemma validation_state_of_Nil: "validation_state_of expected [] = validation_init expected"
  by (simp add: validation_state_of_def validation_init_def count_events_def sequence_target_def
      split: option.splits)

lemma validate_loop_spec:
  assumes "wf_trace_limits lim"
  shows "foldE (validate_step lim) evs (validation_init expected) = Inr s \<longleftrightarrow>
     sequence_ok lim expected evs \<and> s = validation_state_of expected evs"
proof (induction evs arbitrary: s rule: rev_induct)
  case Nil
  have "sequence_ok lim expected []"
    using wf_trace_limitsD [OF assms] by (simp add: sequence_ok_def)
  then show ?case by (auto simp: validation_state_of_Nil)
next
  case (snoc e evs)
  show ?case
    by (auto simp: foldE_append snoc.IH validate_step_spec sequence_ok_snoc)
qed

lemma validate_trace_sequence_Inr:
  assumes "wf_trace_limits lim"
  shows "validate_trace_sequence evs None None None (Some lim) = Inr st \<longleftrightarrow>
     sequence_ok lim None evs \<and>
     st = validation_finish lim None 0 (validation_state_of None evs)"
  using wf_trace_limitsD [OF assms]
  by (auto simp: validate_trace_sequence_def bindE_raise_if validate_loop_spec [OF assms])

lemma sequence_ok_prefix: "sequence_ok lim expected (ys @ zs) \<Longrightarrow> sequence_ok lim expected ys"
proof (induction zs rule: rev_induct)
  case (snoc z zs)
  then show ?case using sequence_ok_snoc [of lim expected "ys @ zs" z] by simp
qed simp

end
