(* ===== verification/TraceSamples.thy ===== *)
theory TraceSamples
  imports TraceSequence
begin

text \<open>
  A small concrete trace that passes the validation; the results about the analyzers are
  applied to it.
\<close>

definition sample_target :: target_identity where
  "sample_target = \<lparr>tgt_pid = 100, tgt_uid = 1000, tgt_start_time_ticks = 5\<rparr>"

definition sample_task :: "int \<Rightarrow> task_identity" where
  "sample_task tid = \<lparr>task_pid = Some 100, task_tid = Some tid\<rparr>"

definition sample_switch :: "string \<Rightarrow> int \<Rightarrow> int \<Rightarrow> bool \<Rightarrow> trace_event" where
  "sample_switch i seq ts inward = SchedSwitch
     \<lparr>te_event_id = i, te_sequence = seq, te_timestamp_ns = ts, te_target = sample_target,
      te_semantics = Sem_EXACT, te_cpu = Some 0, te_stack = [],
      sw_previous = (if inward then external_redacted else sample_task 101),
      sw_previous_scope = (if inward then Scope_FOREIGN else Scope_TARGET),
      sw_next = (if inward then sample_task 101 else external_redacted),
      sw_next_scope = (if inward then Scope_TARGET else Scope_FOREIGN),
      sw_previous_state = ''S''\<rparr>"

definition sample_wakeup :: "string \<Rightarrow> int \<Rightarrow> int \<Rightarrow> trace_event" where
  "sample_wakeup i seq ts = SchedWakeup
     \<lparr>te_event_id = i, te_sequence = seq, te_timestamp_ns = ts, te_target = sample_target,
      te_semantics = Sem_EXACT, te_cpu = Some 0, te_stack = [],
      wk_woken = sample_task 101, wk_woken_scope = Scope_TARGET, wk_source = Src_WAKEUP,
      wk_waker = Some (sample_task 102), wk_waker_scope = Some Scope_TARGET\<rparr>"

text \<open>Thread 101 runs for 20 ns, sleeps for 20 ns, waits 10 ns for a CPU and runs again.\<close>

definition sample_trace :: "trace_event list" where
  "sample_trace =
     [sample_switch ''e0'' 0 10 True, sample_switch ''e1'' 1 30 False,
      sample_wakeup ''e2'' 2 50, sample_switch ''e3'' 3 60 True]"

lemma sample_trace_ok: "sequence_ok trace_limits_default None sample_trace"
  by code_simp

lemma trace_limits_default_wf: "wf_trace_limits trace_limits_default"
  by code_simp

end
