(* ===== verification/Durations.thy ===== *)
theory Durations
  imports Prelude
begin

text \<open>
  Duration statistics of \<open>src/src/perflens/domain/trace_analysis.py\<close>: the nearest-rank
  percentile and the distribution record built from it. The lock analyzer carries its own
  copy of \<open>_distribution\<close>, modelled in \<open>TraceLocks\<close>.
\<close>

record duration_distribution =
  dd_sample_count :: int
  dd_total_ns :: int
  dd_minimum_ns :: int
  dd_mean_ns :: int
  dd_p50_ns :: "int option"
  dd_p95_ns :: "int option"
  dd_p99_ns :: "int option"
  dd_max_ns :: "int option"

definition nearest_rank_percentile :: "int list \<Rightarrow> int \<Rightarrow> int result" where
  "nearest_rank_percentile values percentile =
     bindE (raise_if (values = [])
       (ValueError ''nearest-rank percentile requires at least one value'')) (\<lambda>_.
     bindE (raise_if (percentile < 1 \<or> percentile > 100)
       (ValueError ''percentile must be in the inclusive range 1..100'')) (\<lambda>_.
     bindE (raise_if (\<exists>v \<in> set values. v < 0)
       (ValueError ''duration values must be non-negative'')) (\<lambda>_.
     let ordered = sort values;
         rank = (percentile * int (length ordered) + 99) div 100
     in Inr (ordered ! nat (rank - 1)))))"

definition empty_distribution :: duration_distribution where
  "empty_distribution =
     \<lparr>dd_sample_count = 0, dd_total_ns = 0, dd_minimum_ns = 0, dd_mean_ns = 0,
      dd_p50_ns = None, dd_p95_ns = None, dd_p99_ns = None, dd_max_ns = None\<rparr>"

definition distribution :: "int list \<Rightarrow> duration_distribution result" where
  "distribution values =
     (if values = [] then Inr empty_distribution
      else let total = sum_list values in
        bindE (nearest_rank_percentile values 50) (\<lambda>p50.
        bindE (nearest_rank_percentile values 95) (\<lambda>p95.
        bindE (nearest_rank_percentile values 99) (\<lambda>p99.
        Inr \<lparr>dd_sample_count = int (length values), dd_total_ns = total,
             dd_minimum_ns = Min (set values), dd_mean_ns = total div int (length values),
             dd_p50_ns = Some p50, dd_p95_ns = Some p95, dd_p99_ns = Some p99,
             dd_max_ns = Some (Max (set values))\<rparr>))))"

section \<open>Ranks in sorted lists\<close>

lemma sorted_rank_le:
  assumes "sorted ys" and "i < length ys"
  shows "i + 1 \<le> length (filter (\<lambda>x. x \<le> ys ! i) ys)"
proof -
  have "filter (\<lambda>x. x \<le> ys ! i) (take (i + 1) ys) = take (i + 1) ys"
    using assms by (auto simp: filter_id_conv in_set_conv_nth sorted_iff_nth_mono less_Suc_eq_le)
  then have "length (filter (\<lambda>x. x \<le> ys ! i) (take (i + 1) ys)) = i + 1"
    using assms(2) by simp
  moreover have "length (filter P (take k ys)) \<le> length (filter P ys)" for P k
    by (metis append_take_drop_id filter_append le_add1 length_append)
  ultimately show ?thesis by metis
qed

lemma sorted_rank_less:
  assumes "sorted ys" and "i < length ys"
  shows "length (filter (\<lambda>x. x < ys ! i) ys) \<le> i"
proof -
  have "filter (\<lambda>x. x < ys ! i) (drop i ys) = []"
    using assms by (auto simp: filter_empty_conv in_set_conv_nth not_less sorted_iff_nth_mono)
  then have "filter (\<lambda>x. x < ys ! i) ys = filter (\<lambda>x. x < ys ! i) (take i ys)"
    by (metis append_take_drop_id append_Nil2 filter_append)
  then show ?thesis
    by (metis length_filter_le length_take min.bounded_iff)
qed

lemma length_filter_sort: "length (filter P (sort xs)) = length (filter P xs)"
  by (metis filter_sort length_sort)

lemma rank_bounds:
  assumes "(1::int) \<le> p" "p \<le> 100" "0 < n"
  shows "1 \<le> (p * n + 99) div 100" "(p * n + 99) div 100 \<le> n"
    "p * n \<le> 100 * ((p * n + 99) div 100)" "100 * ((p * n + 99) div 100 - 1) < p * n"
proof -
  have "1 * 1 \<le> p * n" and "p * n \<le> 100 * n"
    using assms by (intro mult_mono; simp)+
  moreover define m where "m = p * n"
  ultimately have "1 \<le> m" "m \<le> 100 * n"
    by simp_all
  moreover define q where "q = (m + 99) div 100"
  moreover have "100 * q \<le> m + 99" "m + 99 < 100 * q + 100"
    unfolding q_def by simp_all
  ultimately show "1 \<le> (p * n + 99) div 100" "(p * n + 99) div 100 \<le> n"
    "p * n \<le> 100 * ((p * n + 99) div 100)" "100 * ((p * n + 99) div 100 - 1) < p * n"
    unfolding m_def [symmetric] q_def [symmetric] by simp_all
qed

lemma nearest_rank_percentile_Inr:
  assumes "values \<noteq> []" "1 \<le> p" "p \<le> 100" "\<forall>v \<in> set values. 0 \<le> v"
  shows "nearest_rank_percentile values p =
    Inr (sort values ! nat ((p * int (length values) + 99) div 100 - 1))"
  using assms by (auto simp: nearest_rank_percentile_def bindE_raise_if not_less)

lemma nearest_rank_index:
  assumes "values \<noteq> []" "1 \<le> p" "p \<le> 100"
  shows "nat ((p * int (length values) + 99) div 100 - 1) < length values"
  using rank_bounds [of p "int (length values)"] assms by (simp add: nat_less_iff)

lemma nearest_rank_returns:
  "nearest_rank_percentile values p = Inr v \<longleftrightarrow>
     values \<noteq> [] \<and> 1 \<le> p \<and> p \<le> 100 \<and> (\<forall>x \<in> set values. 0 \<le> x) \<and>
     v = sort values ! nat ((p * int (length values) + 99) div 100 - 1)"
  unfolding nearest_rank_percentile_def Let_def bindE_Inr_iff raise_if_Inr
  by (auto simp: not_less)

lemma nearest_rank_in_set:
  assumes "nearest_rank_percentile values p = Inr v"
  shows "v \<in> set values"
proof -
  have "v \<in> set (sort values)"
    using assms nearest_rank_index [of "values" p]
    by (auto simp: nearest_rank_returns simp del: set_sort)
  then show ?thesis by simp
qed

lemma nearest_rank_mono:
  assumes "nearest_rank_percentile values p = Inr v" "nearest_rank_percentile values q = Inr w"
    and "p \<le> q"
  shows "v \<le> w"
proof -
  have ne: "values \<noteq> []" and q: "1 \<le> q" "q \<le> 100"
    using assms by (auto simp: nearest_rank_returns)
  have "p * int (length values) \<le> q * int (length values)"
    using assms(3) by (intro mult_right_mono) auto
  then have "nat ((p * int (length values) + 99) div 100 - 1)
      \<le> nat ((q * int (length values) + 99) div 100 - 1)"
    by (intro nat_mono) (simp add: zdiv_mono1)
  then show ?thesis
    using assms nearest_rank_index [OF ne q]
    by (auto simp: nearest_rank_returns intro!: sorted_nth_mono)
qed

lemma nearest_rank_total:
  "values \<noteq> [] \<Longrightarrow> 1 \<le> p \<Longrightarrow> p \<le> 100 \<Longrightarrow> \<forall>v \<in> set values. 0 \<le> v \<Longrightarrow>
     \<exists>v. nearest_rank_percentile values p = Inr v"
  by (simp add: nearest_rank_percentile_Inr)

lemma distribution_total:
  assumes "\<forall>v \<in> set values. 0 \<le> v"
  shows "\<exists>d. distribution values = Inr d"
  using assms by (cases "values = []") (auto simp: distribution_def nearest_rank_percentile_Inr Let_def)

lemma distribution_fields:
  assumes "distribution values = Inr d"
  shows "dd_sample_count d = int (length values)" "dd_total_ns d = sum_list values"
  using assms by (auto simp: distribution_def empty_distribution_def Let_def split: if_splits)

lemma sum_list_bounds_int:
  fixes xs :: "int list"
  assumes "\<And>x. x \<in> set xs \<Longrightarrow> lo \<le> x" "\<And>x. x \<in> set xs \<Longrightarrow> x \<le> hi"
  shows "lo * int (length xs) \<le> sum_list xs" "sum_list xs \<le> hi * int (length xs)"
  using assms
proof (induction xs)
  case (Cons x xs)
  case 1
  have "lo \<le> x" "lo * int (length xs) \<le> sum_list xs"
    using Cons.IH(1) 1 by auto
  then show ?case by (simp add: algebra_simps)
next
  case (Cons x xs)
  case 2
  have "x \<le> hi" "sum_list xs \<le> hi * int (length xs)"
    using Cons.IH(2) 2 by auto
  then show ?case by (simp add: algebra_simps)
qed simp_all

end
