(* ===== verification/Accounting.thy ===== *)
theory Accounting
  imports Prelude Sha256
begin

text \<open>
  Event accounting of \<open>src/src/perflens/domain/trace_analysis.py\<close>: every observed event
  identity carries one status, later marks move it, and the final ledgers report how many
  events ended in each status. The locale \<open>event_ledger\<close> is the interface the analyzers
  rely on; it is interpreted here on \<open>_EventAccountingBuilder\<close> and in \<open>TraceLocks\<close> on the
  lock analyzer's own \<open>_AccountingBuilder\<close>.
\<close>

section \<open>Data\<close>

datatype event_status = St_OBSERVED | St_CONSUMED | St_UNPAIRED | St_IGNORED

record analysis_limits =
  al_max_intervals :: int
  al_max_worst_intervals :: int
  al_max_event_ids :: int
  al_max_warnings :: int

record event_id_ledger =
  el_total_count :: int
  el_ids :: "string list"
  el_all_event_ids_sha256 :: string
  el_truncated :: bool

record analysis_warning =
  aw_code :: string
  aw_message :: string
  aw_event_id :: "string option"
  aw_tid :: "int option"

record event_accounting =
  ea_observed_event_count :: int
  ea_consumed :: event_id_ledger
  ea_unpaired :: event_id_ledger
  ea_ignored :: event_id_ledger
  ea_warning_count :: int
  ea_warnings :: "analysis_warning list"
  ea_warnings_truncated :: bool

record accounting_builder =
  ab_order :: "string list"
  ab_status :: "(string, event_status) dict"
  ab_warning_count :: int
  ab_warnings :: "analysis_warning list"

definition analysis_limits_default :: analysis_limits where
  "analysis_limits_default =
     \<lparr>al_max_intervals = 100000, al_max_worst_intervals = 100, al_max_event_ids = 1000,
      al_max_warnings = 100\<rparr>"

definition analysis_limits_post_init :: "analysis_limits \<Rightarrow> unit result" where
  "analysis_limits_post_init lim =
     raise_if (\<exists>v \<in> set [al_max_intervals lim, al_max_worst_intervals lim, al_max_event_ids lim,
                 al_max_warnings lim]. v < 1)
       (ValueError ''trace AnalysisLimits values must be positive'')"

section \<open>Operations\<close>

definition ledger_bytes :: "string list \<Rightarrow> int list" where
  "ledger_bytes event_ids =
     concat (map (\<lambda>i. to_bytes_big 8 (int (length (utf8_encode i))) @ utf8_encode i) event_ids)"

definition event_id_ledger_sha256 :: "string list \<Rightarrow> string" where
  "event_id_ledger_sha256 event_ids = sha256_hexdigest (ledger_bytes event_ids)"

definition acct_init :: accounting_builder where
  "acct_init = \<lparr>ab_order = [], ab_status = [], ab_warning_count = 0, ab_warnings = []\<rparr>"

definition acct_observe :: "string \<Rightarrow> bool \<Rightarrow> accounting_builder \<Rightarrow> accounting_builder" where
  "acct_observe i ignored b =
     b\<lparr>ab_order := ab_order b @ [i],
       ab_status := dict_set i (if ignored then St_IGNORED else St_OBSERVED) (ab_status b)\<rparr>"

definition acct_consume_one :: "string \<Rightarrow> accounting_builder \<Rightarrow> accounting_builder result" where
  "acct_consume_one i b =
     (case map_of (ab_status b) i of
        None \<Rightarrow> Inl KeyError
      | Some st \<Rightarrow>
          if st \<noteq> St_IGNORED then Inr (b\<lparr>ab_status := dict_set i St_CONSUMED (ab_status b)\<rparr>)
          else Inr b)"

definition acct_consume :: "string list \<Rightarrow> accounting_builder \<Rightarrow> accounting_builder result" where
  "acct_consume = foldE acct_consume_one"

definition acct_unpaired_one :: "string \<Rightarrow> accounting_builder \<Rightarrow> accounting_builder result" where
  "acct_unpaired_one i b =
     (case map_of (ab_status b) i of
        None \<Rightarrow> Inl KeyError
      | Some st \<Rightarrow>
          if st = St_OBSERVED then Inr (b\<lparr>ab_status := dict_set i St_UNPAIRED (ab_status b)\<rparr>)
          else Inr b)"

definition acct_unpaired :: "string list \<Rightarrow> accounting_builder \<Rightarrow> accounting_builder result" where
  "acct_unpaired = foldE acct_unpaired_one"

definition acct_warn ::
  "analysis_limits \<Rightarrow> string \<Rightarrow> string \<Rightarrow> string option \<Rightarrow> int option
     \<Rightarrow> accounting_builder \<Rightarrow> accounting_builder" where
  "acct_warn lim code message eid tid b =
     b\<lparr>ab_warning_count := ab_warning_count b + 1,
       ab_warnings :=
         (if int (length (ab_warnings b)) < al_max_warnings lim
          then ab_warnings b @ [\<lparr>aw_code = code, aw_message = message, aw_event_id = eid, aw_tid = tid\<rparr>]
          else ab_warnings b)\<rparr>"

text \<open>\<open>finish\<close>: what is still only observed becomes unpaired, then the ledgers are built.\<close>

definition acct_settle :: "(string, event_status) dict \<Rightarrow> (string, event_status) dict" where
  "acct_settle m = map (\<lambda>(i, st). (i, if st = St_OBSERVED then St_UNPAIRED else st)) m"

definition build_ledger ::
  "int \<Rightarrow> string list \<Rightarrow> (string, event_status) dict \<Rightarrow> event_status \<Rightarrow> event_id_ledger" where
  "build_ledger max_event_ids order m st =
     (let ids = filter (\<lambda>i. map_of m i = Some st) order;
          sample = take (nat max_event_ids) ids
      in \<lparr>el_total_count = int (length ids), el_ids = sample,
          el_all_event_ids_sha256 = event_id_ledger_sha256 ids,
          el_truncated = int (length ids) > int (length sample)\<rparr>)"

definition acct_finish :: "analysis_limits \<Rightarrow> accounting_builder \<Rightarrow> event_accounting" where
  "acct_finish lim b =
     (let m = acct_settle (ab_status b);
          ledger = build_ledger (al_max_event_ids lim) (ab_order b) m
      in \<lparr>ea_observed_event_count = int (length (ab_order b)),
          ea_consumed = ledger St_CONSUMED,
          ea_unpaired = ledger St_UNPAIRED,
          ea_ignored = ledger St_IGNORED,
          ea_warning_count = ab_warning_count b,
          ea_warnings = ab_warnings b,
          ea_warnings_truncated = ab_warning_count b > int (length (ab_warnings b))\<rparr>)"

section \<open>The interface\<close>

text \<open>
  What a client may rely on: the observation order only grows, marks are applied to known
  identities without raising, and the ledgers of \<open>finish\<close> count the settled statuses.
\<close>

definition consumed_status :: "string list \<Rightarrow> (string \<rightharpoonup> event_status) \<Rightarrow> (string \<rightharpoonup> event_status)" where
  "consumed_status ids m =
     (\<lambda>i. if i \<in> set ids \<and> m i \<noteq> None \<and> m i \<noteq> Some St_IGNORED then Some St_CONSUMED else m i)"

definition unpaired_status :: "string list \<Rightarrow> (string \<rightharpoonup> event_status) \<Rightarrow> (string \<rightharpoonup> event_status)" where
  "unpaired_status ids m =
     (\<lambda>i. if i \<in> set ids \<and> m i = Some St_OBSERVED then Some St_UNPAIRED else m i)"

definition settled :: "event_status option \<Rightarrow> event_status option" where
  "settled st = (if st = Some St_OBSERVED then Some St_UNPAIRED else st)"

definition ledger_total :: "(string \<rightharpoonup> event_status) \<Rightarrow> string list \<Rightarrow> event_status \<Rightarrow> int" where
  "ledger_total m order st = int (length (filter (\<lambda>i. settled (m i) = Some st) order))"

locale event_ledger =
  fixes order :: "'b \<Rightarrow> string list"
    and status :: "'b \<Rightarrow> (string \<rightharpoonup> event_status)"
    and observe :: "string \<Rightarrow> bool \<Rightarrow> 'b \<Rightarrow> 'b"
    and consume :: "string list \<Rightarrow> 'b \<Rightarrow> 'b result"
    and unpaired :: "string list \<Rightarrow> 'b \<Rightarrow> 'b result"
    and warn :: "'w \<Rightarrow> 'b \<Rightarrow> 'b"
  assumes order_observe: "order (observe i g b) = order b @ [i]"
    and status_observe: "status (observe i g b) = (status b)(i \<mapsto> if g then St_IGNORED else St_OBSERVED)"
    and consume_known: "set ids \<subseteq> dom (status b) \<Longrightarrow>
      \<exists>b'. consume ids b = Inr b' \<and> order b' = order b \<and> status b' = consumed_status ids (status b)"
    and unpaired_known: "set ids \<subseteq> dom (status b) \<Longrightarrow>
      \<exists>b'. unpaired ids b = Inr b' \<and> order b' = order b \<and> status b' = unpaired_status ids (status b)"
    and order_warn: "order (warn w b) = order b"
    and status_warn: "status (warn w b) = status b"
begin

definition ledger_inv :: "string list \<Rightarrow> 'b \<Rightarrow> bool" where
  "ledger_inv ids b \<longleftrightarrow> order b = ids \<and> dom (status b) = set ids"

lemma inv_observe: "ledger_inv ids b \<Longrightarrow> ledger_inv (ids @ [i]) (observe i g b)"
  by (auto simp: ledger_inv_def order_observe status_observe)

lemma inv_warn: "ledger_inv ids b \<Longrightarrow> ledger_inv ids (warn w b)"
  by (simp add: ledger_inv_def order_warn status_warn)

lemma ensures_consume:
  assumes "ledger_inv ids b" and "set js \<subseteq> set ids"
  shows "ensures E (\<lambda>b'. ledger_inv ids b' \<and> status b' = consumed_status js (status b)) (consume js b)"
proof -
  obtain b' where b': "consume js b = Inr b'" "order b' = order b"
    "status b' = consumed_status js (status b)"
    using consume_known [of js b] assms by (auto simp: ledger_inv_def)
  have "dom (consumed_status js (status b)) = dom (status b)"
    by (auto simp: consumed_status_def split: if_splits)
  then show ?thesis using b' assms(1) by (simp add: ledger_inv_def)
qed

lemma ensures_unpaired:
  assumes "ledger_inv ids b" and "set js \<subseteq> set ids"
  shows "ensures E (\<lambda>b'. ledger_inv ids b' \<and> status b' = unpaired_status js (status b)) (unpaired js b)"
proof -
  obtain b' where b': "unpaired js b = Inr b'" "order b' = order b"
    "status b' = unpaired_status js (status b)"
    using unpaired_known [of js b] assms by (auto simp: ledger_inv_def)
  have "dom (unpaired_status js (status b)) = dom (status b)"
    by (auto simp: unpaired_status_def split: if_splits)
  then show ?thesis using b' assms(1) by (simp add: ledger_inv_def)
qed

text \<open>Every observed event is counted in exactly one of the three ledgers.\<close>

lemma ledgers_partition:
  assumes "ledger_inv ids b"
  shows "ledger_total (status b) ids St_CONSUMED + ledger_total (status b) ids St_UNPAIRED
       + ledger_total (status b) ids St_IGNORED = int (length ids)"
proof -
  have "length (filter (\<lambda>i. settled (status b i) = Some St_CONSUMED) ids)
      + length (filter (\<lambda>i. settled (status b i) = Some St_UNPAIRED) ids)
      + length (filter (\<lambda>i. settled (status b i) = Some St_IGNORED) ids) = length ids"
  proof (rule length_filter_partition3)
    fix i assume "i \<in> set ids"
    then obtain st where "status b i = Some st"
      using assms by (auto simp: ledger_inv_def)
    then show "(settled (status b i) = Some St_CONSUMED \<and> \<not> settled (status b i) = Some St_UNPAIRED
        \<and> \<not> settled (status b i) = Some St_IGNORED) \<or>
      (\<not> settled (status b i) = Some St_CONSUMED \<and> settled (status b i) = Some St_UNPAIRED
        \<and> \<not> settled (status b i) = Some St_IGNORED) \<or>
      (\<not> settled (status b i) = Some St_CONSUMED \<and> \<not> settled (status b i) = Some St_UNPAIRED
        \<and> settled (status b i) = Some St_IGNORED)"
      by (cases st) (auto simp: settled_def)
  qed
  then show ?thesis unfolding ledger_total_def by linarith
qed

end

section \<open>The builder provides the interface\<close>

lemma consume_one_known:
  assumes "i \<in> dom (map_of (ab_status b))"
  shows "\<exists>b'. acct_consume_one i b = Inr b' \<and> ab_order b' = ab_order b \<and>
    map_of (ab_status b') = consumed_status [i] (map_of (ab_status b))"
  using assms
  by (auto simp: acct_consume_one_def consumed_status_def fun_eq_iff map_of_dict_set split: option.splits)

lemma unpaired_one_known:
  assumes "i \<in> dom (map_of (ab_status b))"
  shows "\<exists>b'. acct_unpaired_one i b = Inr b' \<and> ab_order b' = ab_order b \<and>
    map_of (ab_status b') = unpaired_status [i] (map_of (ab_status b))"
  using assms
  by (auto simp: acct_unpaired_one_def unpaired_status_def fun_eq_iff map_of_dict_set split: option.splits)

lemma consumed_status_Cons: "consumed_status (i # is) m = consumed_status is (consumed_status [i] m)"
  by (auto simp: consumed_status_def fun_eq_iff)

lemma unpaired_status_Cons: "unpaired_status (i # is) m = unpaired_status is (unpaired_status [i] m)"
  by (auto simp: unpaired_status_def fun_eq_iff)

lemma dom_consumed_status [simp]: "dom (consumed_status is m) = dom m"
  by (auto simp: consumed_status_def split: if_splits)

lemma dom_unpaired_status [simp]: "dom (unpaired_status is m) = dom m"
  by (auto simp: unpaired_status_def split: if_splits)

text \<open>A mark of one known identity lifts to a mark of a list of them.\<close>

lemma mark_list_known:
  assumes one: "\<And>i b. i \<in> dom (st b) \<Longrightarrow> \<exists>b'. f i b = Inr b' \<and> ord b' = ord b \<and> st b' = upd [i] (st b)"
    and upd: "\<And>m. upd [] m = m" "\<And>i is m. upd (i # is) m = upd is (upd [i] m)" "\<And>is m. dom (upd is m) = dom m"
  shows "set ids \<subseteq> dom (st b) \<Longrightarrow> \<exists>b'. foldE f ids b = Inr b' \<and> ord b' = ord b \<and> st b' = upd ids (st b)"
proof (induction ids arbitrary: b)
  case Nil
  then show ?case by (simp add: upd(1))
next
  case (Cons i ids)
  obtain c where c: "f i b = Inr c" "ord c = ord b" "st c = upd [i] (st b)"
    using one [of i b] Cons.prems by auto
  then have "set ids \<subseteq> dom (st c)"
    using Cons.prems by (simp add: upd(3))
  from Cons.IH [OF this] c show ?case
    by (auto simp: upd(2) [of i ids])
qed

lemma consumed_status_Nil: "consumed_status [] m = m"
  by (auto simp: consumed_status_def)

lemma unpaired_status_Nil: "unpaired_status [] m = m"
  by (auto simp: unpaired_status_def)

lemmas consumed_list_known = mark_list_known
  [where upd = consumed_status, OF _ consumed_status_Nil consumed_status_Cons dom_consumed_status]

lemmas unpaired_list_known = mark_list_known
  [where upd = unpaired_status, OF _ unpaired_status_Nil unpaired_status_Cons dom_unpaired_status]

interpretation acct: event_ledger ab_order "\<lambda>b. map_of (ab_status b)" acct_observe acct_consume
  acct_unpaired "\<lambda>(lim, code, msg, eid, tid). acct_warn lim code msg eid tid"
proof unfold_locales
  fix ids b
  show "set ids \<subseteq> dom (map_of (ab_status b)) \<Longrightarrow>
      \<exists>b'. acct_consume ids b = Inr b' \<and> ab_order b' = ab_order b \<and>
        map_of (ab_status b') = consumed_status ids (map_of (ab_status b))"
    unfolding acct_consume_def by (rule consumed_list_known [OF consume_one_known])
  show "set ids \<subseteq> dom (map_of (ab_status b)) \<Longrightarrow>
      \<exists>b'. acct_unpaired ids b = Inr b' \<and> ab_order b' = ab_order b \<and>
        map_of (ab_status b') = unpaired_status ids (map_of (ab_status b))"
    unfolding acct_unpaired_def by (rule unpaired_list_known [OF unpaired_one_known])
qed (auto simp: acct_observe_def acct_warn_def update_conv')

lemma map_of_settle: "map_of (acct_settle m) i = settled (map_of m i)"
  by (induction m) (auto simp: acct_settle_def settled_def)

lemma build_ledger_total:
  "el_total_count (build_ledger n order (acct_settle m) st) = ledger_total (map_of m) order st"
  by (simp add: build_ledger_def ledger_total_def map_of_settle Let_def)

lemma acct_finish_totals:
  "ea_observed_event_count (acct_finish lim b) = int (length (ab_order b))"
  "el_total_count (ea_consumed (acct_finish lim b)) = ledger_total (map_of (ab_status b)) (ab_order b) St_CONSUMED"
  "el_total_count (ea_unpaired (acct_finish lim b)) = ledger_total (map_of (ab_status b)) (ab_order b) St_UNPAIRED"
  "el_total_count (ea_ignored (acct_finish lim b)) = ledger_total (map_of (ab_status b)) (ab_order b) St_IGNORED"
  by (simp_all add: acct_finish_def build_ledger_total Let_def)

lemma acct_finish_conserved:
  assumes "acct.ledger_inv ids b"
  shows "el_total_count (ea_consumed (acct_finish lim b)) + el_total_count (ea_unpaired (acct_finish lim b))
       + el_total_count (ea_ignored (acct_finish lim b)) = ea_observed_event_count (acct_finish lim b)"
  using acct.ledgers_partition [OF assms] assms
  by (simp add: acct_finish_totals acct.ledger_inv_def)

section \<open>Ledger digests\<close>

lemma framed_inject:
  assumes "length (utf8_encode i) < 256 ^ 8" "length (utf8_encode j) < 256 ^ 8"
    and "to_bytes_big 8 (int (length (utf8_encode i))) @ utf8_encode i @ xs =
         to_bytes_big 8 (int (length (utf8_encode j))) @ utf8_encode j @ ys"
  shows "i = j \<and> xs = ys"
proof -
  have heads: "to_bytes_big 8 (int (length (utf8_encode i))) = to_bytes_big 8 (int (length (utf8_encode j)))"
    and rest: "utf8_encode i @ xs = utf8_encode j @ ys"
    using assms(3) append_eq_append_conv [of "to_bytes_big 8 _" "to_bytes_big 8 _"] by simp_all
  have small: "int (length (utf8_encode k)) < 256 ^ 8" if "length (utf8_encode k) < 256 ^ 8" for k
    using that by simp
  have "int (length (utf8_encode i)) = int (length (utf8_encode j))"
    by (rule to_bytes_big_inject [OF _ small _ small heads]) (use assms(1,2) in simp_all)
  then have "utf8_encode i = utf8_encode j \<and> xs = ys"
    using rest append_eq_append_conv [of "utf8_encode i" "utf8_encode j"] by simp
  then show ?thesis by (simp add: utf8_encode_inject)
qed

end
