(* ===== verification/TraceProperties.thy ===== *)
theory TraceProperties
  imports TraceSamples Durations Accounting
begin

text \<open>
  What the validation of a trace, the duration statistics and the event ledgers guarantee
  on their own, before any analyzer uses them.
\<close>

section \<open>Validation\<close>



lemma validate_scoped_taskD:
  assumes "validate_scoped_task t sc tgt name = Inr u"
  shows "(sc = Scope_TARGET \<longrightarrow> task_pid t = Some (tgt_pid tgt) \<and> (\<exists>tid \<ge> 1. task_tid t = Some tid)) \<and>
    (sc = Scope_FOREIGN \<longrightarrow> t = external_redacted)"
  using assms
  by (cases sc)
    (auto simp: validate_scoped_task_def validate_task_def require_plain_int_def external_redacted_def
      split: option.splits)

lemma valid_event_tasks:
  assumes "validate_trace_event e lim = Inr ()" and "(t, sc) \<in> set (tasks_for_event e)"
  obtains name where "validate_scoped_task t sc (te_target (ev_base e)) name = Inr ()"
  using assms
  by (cases e)
    (auto simp: validate_trace_event_def validate_sched_switch_def validate_sched_wakeup_def
      validate_sched_migrate_def validate_lock_def validate_futex_def trace_event_base.truncate_def
      split: option.splits)

text \<open>
  Privacy boundary: in an accepted sequence every task that is not a thread of the
  authorized target carries no identity at all, and every task marked as target belongs to
  the one target process of the sequence.
\<close>

theorem accepted_tasks_redacted:
  assumes "wf_trace_limits lim" and "validate_trace_sequence evs None None None (Some lim) = Inr st"
    and "e \<in> set evs" and "(t, sc) \<in> set (tasks_for_event e)"
  shows "(sc = Scope_FOREIGN \<longrightarrow> t = external_redacted) \<and>
    (sc = Scope_TARGET \<longrightarrow> (\<exists>target tid. sequence_target None evs = Some target \<and>
       t = \<lparr>task_pid = Some (tgt_pid target), task_tid = Some tid\<rparr> \<and> 1 \<le> tid))"
proof -
  have ok: "validate_trace_event e lim = Inr ()" "sequence_target None evs = Some (te_target (ev_base e))"
    using assms by (auto simp: validate_trace_sequence_Inr sequence_ok_def)
  obtain name where "validate_scoped_task t sc (te_target (ev_base e)) name = Inr ()"
    by (rule valid_event_tasks [OF ok(1) assms(4)])
  from validate_scoped_taskD [OF this] ok(2) show ?thesis by (cases t) auto
qed

theorem accepted_tasks_redacted_witness:
  "external_redacted = \<lparr>task_pid = None, task_tid = None\<rparr> \<and>
   (\<exists>st. validate_trace_sequence sample_trace None None None (Some trace_limits_default) = Inr st) \<and>
   (\<exists>target tid. sequence_target None sample_trace = Some target \<and>
      sample_task 101 = \<lparr>task_pid = Some (tgt_pid target), task_tid = Some tid\<rparr> \<and> 1 \<le> tid)"
proof -
  obtain st where st: "validate_trace_sequence sample_trace None None None (Some trace_limits_default) = Inr st"
    using sample_trace_ok by (simp add: validate_trace_sequence_Inr [OF trace_limits_default_wf])
  have "sample_switch ''e0'' 0 10 True \<in> set sample_trace"
    "(sample_task 101, Scope_TARGET) \<in> set (tasks_for_event (sample_switch ''e0'' 0 10 True))"
    by (simp_all add: sample_trace_def sample_switch_def)
  from accepted_tasks_redacted [OF trace_limits_default_wf st this] st
  show ?thesis by (auto simp: external_redacted_def)
qed

section \<open>Duration statistics\<close>

text \<open>
  The nearest-rank percentile returns for every non-empty list of durations and every
  percentile from 1 to 100, and it is the smallest observed value that at least the given
  share of the observations do not exceed.
\<close>

theorem nearest_rank_correct:
  assumes "values \<noteq> []" and "1 \<le> p" and "p \<le> 100" and "\<forall>v \<in> set values. 0 \<le> v"
  shows "\<exists>v \<in> set values. nearest_rank_percentile values p = Inr v \<and>
    p * int (length values) \<le> 100 * int (length (filter (\<lambda>x. x \<le> v) values)) \<and>
    100 * int (length (filter (\<lambda>x. x < v) values)) < p * int (length values)"
proof -
  obtain v where v: "nearest_rank_percentile values p = Inr v"
    using nearest_rank_total [OF assms] by blast
  define k where "k = nat ((p * int (length values) + 99) div 100 - 1)"
  have k: "k < length values" unfolding k_def by (rule nearest_rank_index [OF assms(1-3)])
  have vk: "v = sort values ! k" using v by (simp add: nearest_rank_returns k_def)
  have n: "0 < int (length values)" using assms(1) by simp
  have rank: "int k + 1 = (p * int (length values) + 99) div 100"
    using rank_bounds(1) [OF assms(2,3) n] by (simp add: k_def)
  have "k + 1 \<le> length (filter (\<lambda>x. x \<le> v) values)"
    using sorted_rank_le [of "sort values" k] k by (simp add: vk length_filter_sort)
  moreover have "length (filter (\<lambda>x. x < v) values) \<le> k"
    using sorted_rank_less [of "sort values" k] k by (simp add: vk length_filter_sort)
  ultimately show ?thesis
    using v nearest_rank_in_set [OF v] rank_bounds(3,4) [OF assms(2,3) n] rank
    by (intro bexI [of _ v]) auto
qed

theorem nearest_rank_correct_witness:
  "\<exists>v \<in> set [30, 10, 20, 40 :: int]. nearest_rank_percentile [30, 10, 20, 40] 50 = Inr v \<and>
    200 \<le> 100 * int (length (filter (\<lambda>x. x \<le> v) [30, 10, 20, 40])) \<and>
    100 * int (length (filter (\<lambda>x. x < v) [30, 10, 20, 40])) < 200"
  using nearest_rank_correct [of "[30, 10, 20, 40]" 50] by simp

text \<open>
  A distribution of non-negative durations always exists and its figures are ordered:
  minimum, median, 95th and 99th percentile and maximum never decrease, and the mean lies
  between the minimum and the maximum.
\<close>

theorem distribution_ordered:
  assumes "values \<noteq> []" and nonneg: "\<forall>v \<in> set values. 0 \<le> v"
  shows "\<exists>d p50 p95 p99 hi. distribution values = Inr d \<and>
    dd_p50_ns d = Some p50 \<and> dd_p95_ns d = Some p95 \<and> dd_p99_ns d = Some p99 \<and> dd_max_ns d = Some hi \<and>
    dd_minimum_ns d \<le> p50 \<and> p50 \<le> p95 \<and> p95 \<le> p99 \<and> p99 \<le> hi \<and>
    dd_minimum_ns d \<le> dd_mean_ns d \<and> dd_mean_ns d \<le> hi \<and>
    dd_sample_count d = int (length values) \<and> dd_total_ns d = sum_list values"
proof -
  obtain a b c where
    pc: "nearest_rank_percentile values 50 = Inr a" "nearest_rank_percentile values 95 = Inr b"
      "nearest_rank_percentile values 99 = Inr c"
    using nearest_rank_total [OF assms(1) _ _ nonneg] by force
  let ?lo = "Min (set values)" and ?hi = "Max (set values)" and ?n = "int (length values)"
  have n: "0 < ?n" using assms(1) by simp
  have bounds: "?lo * ?n \<le> sum_list values" "sum_list values \<le> ?hi * ?n"
    using sum_list_bounds_int [of "values" ?lo ?hi] by simp_all
  have "(?lo * ?n) div ?n \<le> sum_list values div ?n" "sum_list values div ?n \<le> (?hi * ?n) div ?n"
    by (rule zdiv_mono1 [OF bounds(1) n], rule zdiv_mono1 [OF bounds(2) n])
  then have mean: "?lo \<le> sum_list values div ?n" "sum_list values div ?n \<le> ?hi"
    using n by simp_all
  have "?lo \<le> a" "c \<le> ?hi"
    using nearest_rank_in_set [OF pc(1)] nearest_rank_in_set [OF pc(3)] by simp_all
  moreover have "a \<le> b" "b \<le> c"
    using nearest_rank_mono [OF pc(1,2)] nearest_rank_mono [OF pc(2,3)] by simp_all
  ultimately show ?thesis using assms(1) mean by (simp add: distribution_def pc Let_def)
qed

theorem distribution_ordered_witness:
  "\<exists>d. distribution [30, 10, 20] = Inr d \<and> dd_total_ns d = 60 \<and> dd_minimum_ns d \<le> dd_mean_ns d"
  using distribution_ordered [of "[30, 10, 20]"] by auto

section \<open>Ledger digests\<close>

lemma to_bytes_big_nonempty [simp]: "to_bytes_big 8 n \<noteq> []"
  using length_to_bytes_big [of 8 n] by fastforce

text \<open>
  The bytes a ledger digest is computed from determine the identities and their order:
  the length framing leaves no two different lists of identities with the same bytes.
\<close>

theorem ledger_bytes_injective:
  assumes "\<forall>i \<in> set xs \<union> set ys. length (utf8_encode i) < 256 ^ 8"
    and "ledger_bytes xs = ledger_bytes ys"
  shows "xs = ys"
  using assms
proof (induction xs arbitrary: ys)
  case Nil
  then show ?case by (cases ys) (auto simp: ledger_bytes_def)
next
  case (Cons x xs)
  obtain y ys' where ys: "ys = y # ys'"
    using Cons.prems(2) by (cases ys) (auto simp: ledger_bytes_def)
  have "to_bytes_big 8 (int (length (utf8_encode x))) @ utf8_encode x @ ledger_bytes xs =
      to_bytes_big 8 (int (length (utf8_encode y))) @ utf8_encode y @ ledger_bytes ys'"
    using Cons.prems(2) by (simp add: ys ledger_bytes_def)
  from framed_inject [OF _ _ this] Cons.prems(1) have "x = y" "ledger_bytes xs = ledger_bytes ys'"
    by (simp_all add: ys)
  then show ?case using Cons.IH [of ys'] Cons.prems(1) by (simp add: ys)
qed

theorem ledger_bytes_injective_witness:
  "ledger_bytes [''a'', ''bc''] \<noteq> ledger_bytes [''ab'', ''c'']"
proof
  assume "ledger_bytes [''a'', ''bc''] = ledger_bytes [''ab'', ''c'']"
  then have "[''a'', ''bc''] = [''ab'', ''c'']"
    by (rule ledger_bytes_injective [rotated]) (simp add: utf8_char_def)
  then show False by simp
qed

end
