(* ===== verification/TemporalModel.thy ===== *)
theory TemporalModel
  imports TraceSequence Durations Accounting
begin

text \<open>
  The scheduler and off-CPU analyzer of \<open>src/src/perflens/domain/trace_analysis.py\<close>. The
  local variables of \<open>_analyze_temporal\<close> are the fields of \<open>temporal_state\<close>; its nested
  functions are operations on that record. A mutated accumulator object is updated in place
  in the dictionary that owns it.
\<close>

section \<open>Data\<close>

datatype interval_completeness = IC_COMPLETE | IC_INCOMPLETE

datatype incomplete_reason =
    IR_TRACE_START_BOUNDARY | IR_TRACE_END_BOUNDARY | IR_MISSING_WAKEUP
  | IR_DUPLICATE_WAKEUP | IR_OVERLAPPING_SWITCH_OUT | IR_DUPLICATE_SWITCH_IN

datatype wait_category = WC_SLEEP | WC_UNKNOWN

record runtime_interval =
  ri_tid :: int
  ri_switch_in_timestamp_ns :: int
  ri_switch_out_timestamp_ns :: int
  ri_duration_ns :: int
  ri_switch_in_event_id :: string
  ri_switch_out_event_id :: string

record runnable_latency_interval =
  rl_tid :: int
  rl_wakeup_timestamp_ns :: int
  rl_switch_in_timestamp_ns :: int
  rl_duration_ns :: int
  rl_wakeup_event_id :: string
  rl_switch_in_event_id :: string
  rl_waker_target_tid :: "int option"

record off_cpu_interval =
  oc_tid :: int
  oc_switch_out_timestamp_ns :: "int option"
  oc_wakeup_timestamp_ns :: "int option"
  oc_switch_in_timestamp_ns :: "int option"
  oc_total_duration_ns :: "int option"
  oc_blocked_duration_ns :: "int option"
  oc_runnable_duration_ns :: "int option"
  oc_unknown_duration_ns :: "int option"
  oc_observed_blocked_prefix_ns :: "int option"
  oc_observed_runnable_suffix_ns :: "int option"
  oc_previous_state :: "string option"
  oc_candidate_wait_category :: wait_category
  oc_switch_out_stack :: "string list"
  oc_waker_target_tid :: "int option"
  oc_completeness :: interval_completeness
  oc_split_complete :: bool
  oc_incomplete_reason :: "incomplete_reason option"
  oc_switch_out_event_id :: "string option"
  oc_wakeup_event_ids :: "string list"
  oc_switch_in_event_id :: "string option"

record scheduler_thread_summary =
  ss_tid :: int
  ss_switch_in_count :: int
  ss_switch_out_count :: int
  ss_migration_count :: int
  ss_incomplete_transition_count :: int
  ss_runtime :: duration_distribution
  ss_runnable_latency :: duration_distribution

record wait_category_count =
  wcc_category :: wait_category
  wcc_interval_count :: int

record off_cpu_thread_summary =
  os_tid :: int
  os_total_complete_interval_count :: int
  os_split_complete_interval_count :: int
  os_total_incomplete_interval_count :: int
  os_off_cpu :: duration_distribution
  os_blocked :: duration_distribution
  os_runnable :: duration_distribution
  os_unknown :: duration_distribution
  os_candidate_categories :: "wait_category_count list"

record scheduler_analysis =
  sa_target :: "target_identity option"
  sa_threads :: "scheduler_thread_summary list"
  sa_worst_runtime_intervals :: "runtime_interval list"
  sa_worst_runnable_latencies :: "runnable_latency_interval list"
  sa_runtime_interval_count :: int
  sa_runnable_latency_interval_count :: int
  sa_event_accounting :: event_accounting

record off_cpu_analysis =
  oa_target :: "target_identity option"
  oa_threads :: "off_cpu_thread_summary list"
  oa_worst_intervals :: "off_cpu_interval list"
  oa_interval_count :: int
  oa_total_complete_interval_count :: int
  oa_split_complete_interval_count :: int
  oa_total_incomplete_interval_count :: int
  oa_event_accounting :: event_accounting

record run_state =
  rs_timestamp_ns :: int
  rs_event_id :: string
  rs_cpu :: "int option"

record wakeup =
  wu_timestamp_ns :: int
  wu_event_id :: string
  wu_waker_target_tid :: "int option"

record off_cpu_state =
  of_timestamp_ns :: int
  of_event_id :: string
  of_previous_state :: string
  of_stack :: "string list"

record thread_accumulator =
  ta_switch_in_count :: int
  ta_switch_out_count :: int
  ta_migration_count :: int
  ta_incomplete_transition_count :: int
  ta_total_complete_off_cpu_count :: int
  ta_split_complete_off_cpu_count :: int
  ta_total_incomplete_off_cpu_count :: int
  ta_runtime_ns :: "int list"
  ta_runnable_latency_ns :: "int list"
  ta_off_cpu_ns :: "int list"
  ta_blocked_ns :: "int list"
  ta_off_cpu_runnable_ns :: "int list"
  ta_unknown_off_cpu_ns :: "int list"
  ta_candidate_categories :: "(wait_category, int) dict"

record temporal_state =
  ts_acct :: accounting_builder
  ts_run_states :: "(int, run_state) dict"
  ts_off_states :: "(int, off_cpu_state) dict"
  ts_wakeups :: "(int, wakeup list) dict"
  ts_last_run_cpu :: "(int, int) dict"
  ts_threads :: "(int, thread_accumulator) dict"
  ts_runtime_intervals :: "runtime_interval list"
  ts_runnable_intervals :: "runnable_latency_interval list"
  ts_off_cpu_intervals :: "off_cpu_interval list"
  ts_interval_count :: int

record temporal_result =
  tr_scheduler :: scheduler_analysis
  tr_off_cpu :: off_cpu_analysis

definition empty_thread_accumulator :: thread_accumulator where
  "empty_thread_accumulator =
     \<lparr>ta_switch_in_count = 0, ta_switch_out_count = 0, ta_migration_count = 0,
      ta_incomplete_transition_count = 0, ta_total_complete_off_cpu_count = 0,
      ta_split_complete_off_cpu_count = 0, ta_total_incomplete_off_cpu_count = 0,
      ta_runtime_ns = [], ta_runnable_latency_ns = [], ta_off_cpu_ns = [], ta_blocked_ns = [],
      ta_off_cpu_runnable_ns = [], ta_unknown_off_cpu_ns = [], ta_candidate_categories = []\<rparr>"

definition temporal_init :: temporal_state where
  "temporal_init =
     \<lparr>ts_acct = acct_init, ts_run_states = [], ts_off_states = [], ts_wakeups = [],
      ts_last_run_cpu = [], ts_threads = [], ts_runtime_intervals = [],
      ts_runnable_intervals = [], ts_off_cpu_intervals = [], ts_interval_count = 0\<rparr>"

section \<open>Helpers\<close>

fun wait_category_value :: "wait_category \<Rightarrow> string" where
  "wait_category_value WC_SLEEP = ''sleep''"
| "wait_category_value WC_UNKNOWN = ''unknown''"

definition off_cpu_sort_key :: "off_cpu_interval \<Rightarrow> int \<times> int \<times> int \<times> string" where
  "off_cpu_sort_key i =
     (let duration = (case oc_total_duration_ns i of None \<Rightarrow> -1 | Some d \<Rightarrow> d);
          start = (case oc_switch_out_timestamp_ns i of None \<Rightarrow> -1 | Some t \<Rightarrow> t);
          truthy = (\<lambda>s. case s of None \<Rightarrow> [] | Some x \<Rightarrow> x);
          eid = (if truthy (oc_switch_out_event_id i) \<noteq> [] then truthy (oc_switch_out_event_id i)
                 else truthy (oc_switch_in_event_id i))
      in (- duration, oc_tid i, start, eid))"

definition target_tid :: "int option \<Rightarrow> int result" where
  "target_tid t =
     (case t of
        None \<Rightarrow> Inl (ValueError ''target-scoped scheduler event contains a redacted task'')
      | Some x \<Rightarrow> Inr x)"

definition candidate_wait_category :: "string option \<Rightarrow> wait_category" where
  "candidate_wait_category st =
     (case st of
        None \<Rightarrow> WC_UNKNOWN
      | Some x \<Rightarrow> if x \<in> {''interruptible_sleep'', ''parked'', ''stopped'', ''S''} then WC_SLEEP else WC_UNKNOWN)"

definition with_accumulator ::
  "int \<Rightarrow> (thread_accumulator \<Rightarrow> thread_accumulator) \<Rightarrow> temporal_state \<Rightarrow> temporal_state" where
  "with_accumulator tid f s =
     s\<lparr>ts_threads := dict_modify tid empty_thread_accumulator f (ts_threads s)\<rparr>"

definition reserve_interval :: "analysis_limits \<Rightarrow> temporal_state \<Rightarrow> temporal_state result" where
  "reserve_interval lim s =
     bindE (raise_if (ts_interval_count s + 1 > al_max_intervals lim)
       (ValueError ''trace analysis interval count exceeds max_intervals'')) (\<lambda>_.
     Inr (s\<lparr>ts_interval_count := ts_interval_count s + 1\<rparr>))"

definition mark_consumed :: "string list \<Rightarrow> temporal_state \<Rightarrow> temporal_state result" where
  "mark_consumed ids s = bindE (acct_consume ids (ts_acct s)) (\<lambda>b. Inr (s\<lparr>ts_acct := b\<rparr>))"

definition mark_unpaired :: "string list \<Rightarrow> temporal_state \<Rightarrow> temporal_state result" where
  "mark_unpaired ids s = bindE (acct_unpaired ids (ts_acct s)) (\<lambda>b. Inr (s\<lparr>ts_acct := b\<rparr>))"

definition warn ::
  "analysis_limits \<Rightarrow> string \<Rightarrow> string \<Rightarrow> string option \<Rightarrow> int \<Rightarrow> temporal_state \<Rightarrow> temporal_state" where
  "warn lim code message eid tid s =
     s\<lparr>ts_acct := acct_warn lim code message eid (Some tid) (ts_acct s)\<rparr>"

definition count_incomplete_transition :: "int \<Rightarrow> temporal_state \<Rightarrow> temporal_state" where
  "count_incomplete_transition tid =
     with_accumulator tid (\<lambda>a. a\<lparr>ta_incomplete_transition_count := ta_incomplete_transition_count a + 1\<rparr>)"

definition count_category :: "wait_category \<Rightarrow> thread_accumulator \<Rightarrow> thread_accumulator" where
  "count_category c a =
     a\<lparr>ta_candidate_categories := dict_modify c 0 (\<lambda>n. n + 1) (ta_candidate_categories a)\<rparr>"

definition single_wakeup :: "wakeup list \<Rightarrow> wakeup option" where
  "single_wakeup ws = (case ws of [w] \<Rightarrow> Some w | _ \<Rightarrow> None)"

text \<open>The interval record that \<open>append_incomplete\<close> builds.\<close>

definition incomplete_interval ::
  "int \<Rightarrow> incomplete_reason \<Rightarrow> off_cpu_state option \<Rightarrow> wakeup list \<Rightarrow> sched_switch_event option
     \<Rightarrow> off_cpu_interval" where
  "incomplete_interval tid reason switch_out pending switch_in =
     (let start_ns = map_option of_timestamp_ns switch_out;
          end_ns = map_option te_timestamp_ns switch_in;
          total_ns = (case (start_ns, end_ns) of (Some a, Some b) \<Rightarrow> Some (b - a) | _ \<Rightarrow> None);
          wakeup_ns = map_option wu_timestamp_ns (single_wakeup pending);
          waker = Option.bind (single_wakeup pending) wu_waker_target_tid
      in \<lparr>oc_tid = tid,
          oc_switch_out_timestamp_ns = start_ns,
          oc_wakeup_timestamp_ns = wakeup_ns,
          oc_switch_in_timestamp_ns = end_ns,
          oc_total_duration_ns = total_ns,
          oc_blocked_duration_ns = None,
          oc_runnable_duration_ns = None,
          oc_unknown_duration_ns = total_ns,
          oc_observed_blocked_prefix_ns =
            (case (start_ns, wakeup_ns, end_ns) of (Some a, Some w, None) \<Rightarrow> Some (w - a) | _ \<Rightarrow> None),
          oc_observed_runnable_suffix_ns =
            (case (start_ns, wakeup_ns, end_ns) of (None, Some w, Some b) \<Rightarrow> Some (b - w) | _ \<Rightarrow> None),
          oc_previous_state = map_option of_previous_state switch_out,
          oc_candidate_wait_category = candidate_wait_category (map_option of_previous_state switch_out),
          oc_switch_out_stack = (case switch_out of None \<Rightarrow> [] | Some st \<Rightarrow> of_stack st),
          oc_waker_target_tid = waker,
          oc_completeness = (if total_ns \<noteq> None then IC_COMPLETE else IC_INCOMPLETE),
          oc_split_complete = False,
          oc_incomplete_reason = Some reason,
          oc_switch_out_event_id = map_option of_event_id switch_out,
          oc_wakeup_event_ids = map wu_event_id pending,
          oc_switch_in_event_id = map_option te_event_id switch_in\<rparr>)"

definition append_incomplete ::
  "analysis_limits \<Rightarrow> int \<Rightarrow> incomplete_reason \<Rightarrow> off_cpu_state option \<Rightarrow> wakeup list
     \<Rightarrow> sched_switch_event option \<Rightarrow> temporal_state \<Rightarrow> temporal_state result" where
  "append_incomplete lim tid reason switch_out pending switch_in s =
     bindE (reserve_interval lim s) (\<lambda>s.
     let i = incomplete_interval tid reason switch_out pending switch_in;
         s = s\<lparr>ts_off_cpu_intervals := ts_off_cpu_intervals s @ [i]\<rparr>
     in (case oc_total_duration_ns i of
           Some total_ns \<Rightarrow>
             let s = with_accumulator tid (\<lambda>a.
               count_category (candidate_wait_category (map_option of_previous_state switch_out))
                 (a\<lparr>ta_total_complete_off_cpu_count := ta_total_complete_off_cpu_count a + 1,
                    ta_off_cpu_ns := ta_off_cpu_ns a @ [total_ns],
                    ta_unknown_off_cpu_ns := ta_unknown_off_cpu_ns a @ [total_ns]\<rparr>)) s
             in (case (switch_out, switch_in) of
                   (Some st, Some e) \<Rightarrow> mark_consumed [of_event_id st, te_event_id e] s
                 | _ \<Rightarrow> Inr s)
         | None \<Rightarrow>
             Inr (with_accumulator tid (\<lambda>a.
               a\<lparr>ta_total_incomplete_off_cpu_count := ta_total_incomplete_off_cpu_count a + 1\<rparr>) s)))"

section \<open>Handlers\<close>

text \<open>\<open>handle_switch_out\<close>: close the running interval, then open an off-CPU one.\<close>

definition switch_out_runtime ::
  "analysis_limits \<Rightarrow> sched_switch_event \<Rightarrow> int \<Rightarrow> temporal_state \<Rightarrow> temporal_state result" where
  "switch_out_runtime lim e tid s0 =
     (let s = with_accumulator tid (\<lambda>a. a\<lparr>ta_switch_out_count := ta_switch_out_count a + 1\<rparr>) s0;
          run = map_of (ts_run_states s) tid;
          s = s\<lparr>ts_run_states := dict_pop tid (ts_run_states s)\<rparr>
      in (case run of
            None \<Rightarrow>
              bindE (mark_unpaired [te_event_id e] (count_incomplete_transition tid s)) (\<lambda>s.
              Inr (warn lim ''switch_out_without_switch_in''
                ''switch-out has no matching switch-in inside the trace'' (Some (te_event_id e)) tid s))
          | Some r \<Rightarrow>
              let duration = te_timestamp_ns e - rs_timestamp_ns r in
              bindE (reserve_interval lim s) (\<lambda>s.
              let s = s\<lparr>ts_runtime_intervals := ts_runtime_intervals s @
                    [\<lparr>ri_tid = tid, ri_switch_in_timestamp_ns = rs_timestamp_ns r,
                      ri_switch_out_timestamp_ns = te_timestamp_ns e, ri_duration_ns = duration,
                      ri_switch_in_event_id = rs_event_id r, ri_switch_out_event_id = te_event_id e\<rparr>]\<rparr>;
                  s = with_accumulator tid (\<lambda>a. a\<lparr>ta_runtime_ns := ta_runtime_ns a @ [duration]\<rparr>) s
              in bindE (mark_consumed [rs_event_id r, te_event_id e] s) (\<lambda>s.
              Inr (case te_cpu e of
                     None \<Rightarrow> s
                   | Some c \<Rightarrow> s\<lparr>ts_last_run_cpu := dict_set tid c (ts_last_run_cpu s)\<rparr>)))))"

definition switch_out_off_cpu ::
  "analysis_limits \<Rightarrow> sched_switch_event \<Rightarrow> int \<Rightarrow> temporal_state \<Rightarrow> temporal_state result" where
  "switch_out_off_cpu lim e tid s0 =
     (let previous_off = map_of (ts_off_states s0) tid;
          stale = dict_get_or [] (ts_wakeups s0) tid;
          s = s0\<lparr>ts_off_states := dict_pop tid (ts_off_states s0),
                 ts_wakeups := dict_pop tid (ts_wakeups s0)\<rparr>
      in bindE
         (case previous_off of
            Some st \<Rightarrow>
              bindE (mark_unpaired (of_event_id st # te_event_id e # map wu_event_id stale)
                (count_incomplete_transition tid s)) (\<lambda>s.
              bindE (append_incomplete lim tid IR_OVERLAPPING_SWITCH_OUT (Some st) stale None s) (\<lambda>s.
              Inr (warn lim ''overlapping_switch_out''
                ''a second switch-out arrived before the prior off-CPU interval closed''
                (Some (te_event_id e)) tid s)))
          | None \<Rightarrow>
              (case stale of
                 [] \<Rightarrow> Inr s
               | w # _ \<Rightarrow>
                   bindE (mark_unpaired (map wu_event_id stale) s) (\<lambda>s.
                   Inr (warn lim ''wakeup_while_running''
                     ''wakeup observed before a matching target switch-out''
                     (Some (wu_event_id w)) tid s))))
         (\<lambda>s. Inr (s\<lparr>ts_off_states := dict_set tid
                 \<lparr>of_timestamp_ns = te_timestamp_ns e, of_event_id = te_event_id e,
                  of_previous_state = sw_previous_state e, of_stack = te_stack e\<rparr> (ts_off_states s)\<rparr>)))"

definition handle_switch_out ::
  "analysis_limits \<Rightarrow> sched_switch_event \<Rightarrow> temporal_state \<Rightarrow> temporal_state result" where
  "handle_switch_out lim e s =
     bindE (target_tid (task_tid (sw_previous e))) (\<lambda>tid.
     bindE (switch_out_runtime lim e tid s) (switch_out_off_cpu lim e tid))"

definition waker_target_tid :: "sched_wakeup_event \<Rightarrow> int option" where
  "waker_target_tid e =
     (case (wk_waker e, wk_waker_scope e) of
        (Some t, Some Scope_TARGET) \<Rightarrow> task_tid t
      | _ \<Rightarrow> None)"

definition handle_wakeup :: "sched_wakeup_event \<Rightarrow> temporal_state \<Rightarrow> temporal_state result" where
  "handle_wakeup e s =
     bindE (target_tid (task_tid (wk_woken e))) (\<lambda>tid.
     let s = with_accumulator tid id s in
     Inr (s\<lparr>ts_wakeups := dict_modify tid []
           (\<lambda>ws. ws @ [\<lparr>wu_timestamp_ns = te_timestamp_ns e, wu_event_id = te_event_id e,
                        wu_waker_target_tid = waker_target_tid e\<rparr>]) (ts_wakeups s)\<rparr>))"

text \<open>\<open>handle_switch_in\<close>: the new running interval, the runnable latency, the off-CPU interval.\<close>

definition switch_in_run :: "sched_switch_event \<Rightarrow> int \<Rightarrow> temporal_state \<Rightarrow> temporal_state" where
  "switch_in_run e tid s0 =
     (let s = (case te_cpu e of
                 None \<Rightarrow> s0
               | Some c \<Rightarrow>
                   (case map_of (ts_last_run_cpu s0) tid of
                      None \<Rightarrow> s0
                    | Some previous_cpu \<Rightarrow>
                        if previous_cpu \<noteq> c
                        then with_accumulator tid
                               (\<lambda>a. a\<lparr>ta_migration_count := ta_migration_count a + 1\<rparr>) s0
                        else s0))
      in s\<lparr>ts_run_states := dict_set tid
             \<lparr>rs_timestamp_ns = te_timestamp_ns e, rs_event_id = te_event_id e, rs_cpu = te_cpu e\<rparr>
             (ts_run_states s)\<rparr>)"

definition switch_in_latency ::
  "analysis_limits \<Rightarrow> sched_switch_event \<Rightarrow> int \<Rightarrow> wakeup list \<Rightarrow> temporal_state \<Rightarrow> temporal_state result" where
  "switch_in_latency lim e tid pending s0 =
     (case pending of
        [] \<Rightarrow> Inr s0
      | [w] \<Rightarrow>
          bindE (reserve_interval lim s0) (\<lambda>s.
          let latency = te_timestamp_ns e - wu_timestamp_ns w;
              s = s\<lparr>ts_runnable_intervals := ts_runnable_intervals s @
                    [\<lparr>rl_tid = tid, rl_wakeup_timestamp_ns = wu_timestamp_ns w,
                      rl_switch_in_timestamp_ns = te_timestamp_ns e, rl_duration_ns = latency,
                      rl_wakeup_event_id = wu_event_id w, rl_switch_in_event_id = te_event_id e,
                      rl_waker_target_tid = wu_waker_target_tid w\<rparr>]\<rparr>;
              s = with_accumulator tid
                    (\<lambda>a. a\<lparr>ta_runnable_latency_ns := ta_runnable_latency_ns a @ [latency]\<rparr>) s
          in mark_consumed [wu_event_id w, te_event_id e] s)
      | w # _ # _ \<Rightarrow>
          bindE (mark_unpaired (te_event_id e # map wu_event_id pending)
            (count_incomplete_transition tid s0)) (\<lambda>s.
          Inr (warn lim ''duplicate_wakeup''
            ''multiple wakeups precede one switch-in; runnable latency is ambiguous''
            (Some (wu_event_id w)) tid s)))"

definition complete_interval ::
  "int \<Rightarrow> off_cpu_state \<Rightarrow> wakeup \<Rightarrow> sched_switch_event \<Rightarrow> off_cpu_interval" where
  "complete_interval tid st w e =
     \<lparr>oc_tid = tid,
      oc_switch_out_timestamp_ns = Some (of_timestamp_ns st),
      oc_wakeup_timestamp_ns = Some (wu_timestamp_ns w),
      oc_switch_in_timestamp_ns = Some (te_timestamp_ns e),
      oc_total_duration_ns = Some (te_timestamp_ns e - of_timestamp_ns st),
      oc_blocked_duration_ns = Some (wu_timestamp_ns w - of_timestamp_ns st),
      oc_runnable_duration_ns = Some (te_timestamp_ns e - wu_timestamp_ns w),
      oc_unknown_duration_ns = Some 0,
      oc_observed_blocked_prefix_ns = None,
      oc_observed_runnable_suffix_ns = None,
      oc_previous_state = Some (of_previous_state st),
      oc_candidate_wait_category = candidate_wait_category (Some (of_previous_state st)),
      oc_switch_out_stack = of_stack st,
      oc_waker_target_tid = wu_waker_target_tid w,
      oc_completeness = IC_COMPLETE,
      oc_split_complete = True,
      oc_incomplete_reason = None,
      oc_switch_out_event_id = Some (of_event_id st),
      oc_wakeup_event_ids = [wu_event_id w],
      oc_switch_in_event_id = Some (te_event_id e)\<rparr>"

definition switch_in_complete ::
  "analysis_limits \<Rightarrow> sched_switch_event \<Rightarrow> int \<Rightarrow> off_cpu_state \<Rightarrow> wakeup
     \<Rightarrow> temporal_state \<Rightarrow> temporal_state result" where
  "switch_in_complete lim e tid st w s0 =
     bindE (reserve_interval lim s0) (\<lambda>s.
     let total_ns = te_timestamp_ns e - of_timestamp_ns st;
         blocked = wu_timestamp_ns w - of_timestamp_ns st;
         runnable = te_timestamp_ns e - wu_timestamp_ns w;
         s = s\<lparr>ts_off_cpu_intervals := ts_off_cpu_intervals s @ [complete_interval tid st w e]\<rparr>;
         s = with_accumulator tid (\<lambda>a.
               count_category (candidate_wait_category (Some (of_previous_state st)))
                 (a\<lparr>ta_total_complete_off_cpu_count := ta_total_complete_off_cpu_count a + 1,
                    ta_split_complete_off_cpu_count := ta_split_complete_off_cpu_count a + 1,
                    ta_off_cpu_ns := ta_off_cpu_ns a @ [total_ns],
                    ta_blocked_ns := ta_blocked_ns a @ [blocked],
                    ta_off_cpu_runnable_ns := ta_off_cpu_runnable_ns a @ [runnable]\<rparr>)) s
     in mark_consumed [of_event_id st, wu_event_id w, te_event_id e] s)"

definition switch_in_off_cpu ::
  "analysis_limits \<Rightarrow> sched_switch_event \<Rightarrow> int \<Rightarrow> off_cpu_state option \<Rightarrow> wakeup list
     \<Rightarrow> temporal_state \<Rightarrow> temporal_state result" where
  "switch_in_off_cpu lim e tid off pending s0 =
     (case off of
        None \<Rightarrow>
          bindE (mark_unpaired (te_event_id e # map wu_event_id pending)
            (count_incomplete_transition tid s0))
          (append_incomplete lim tid IR_TRACE_START_BOUNDARY None pending (Some e))
      | Some st \<Rightarrow>
          (case pending of
             [] \<Rightarrow>
               bindE (mark_unpaired [of_event_id st, te_event_id e]
                 (count_incomplete_transition tid s0)) (\<lambda>s.
               bindE (append_incomplete lim tid IR_MISSING_WAKEUP (Some st) [] (Some e) s) (\<lambda>s.
               Inr (warn lim ''missing_wakeup''
                 ''off-CPU interval has no wakeup; blocked/runnable split is unknown''
                 (Some (te_event_id e)) tid s)))
           | [w] \<Rightarrow> switch_in_complete lim e tid st w s0
           | _ # _ # _ \<Rightarrow>
               bindE (mark_unpaired (of_event_id st # te_event_id e # map wu_event_id pending) s0)
               (append_incomplete lim tid IR_DUPLICATE_WAKEUP (Some st) pending (Some e))))"

definition handle_switch_in ::
  "analysis_limits \<Rightarrow> sched_switch_event \<Rightarrow> temporal_state \<Rightarrow> temporal_state result" where
  "handle_switch_in lim e s0 =
     bindE (target_tid (task_tid (sw_next e))) (\<lambda>tid.
     let s = with_accumulator tid (\<lambda>a. a\<lparr>ta_switch_in_count := ta_switch_in_count a + 1\<rparr>) s0;
         existing = map_of (ts_run_states s) tid;
         s = s\<lparr>ts_run_states := dict_pop tid (ts_run_states s)\<rparr>
     in (case existing of
           Some r \<Rightarrow>
             bindE (mark_unpaired [rs_event_id r, te_event_id e] (count_incomplete_transition tid s)) (\<lambda>s.
             Inr (warn lim ''duplicate_switch_in''
               ''switch-in arrived while the target task was already considered running''
               (Some (te_event_id e)) tid s))
         | None \<Rightarrow>
             let s = switch_in_run e tid s;
                 pending = dict_get_or [] (ts_wakeups s) tid;
                 off = map_of (ts_off_states s) tid;
                 s = s\<lparr>ts_wakeups := dict_pop tid (ts_wakeups s),
                       ts_off_states := dict_pop tid (ts_off_states s)\<rparr>
             in bindE (switch_in_latency lim e tid pending s)
                  (switch_in_off_cpu lim e tid off pending)))"

definition handle_migrate :: "sched_migrate_event \<Rightarrow> temporal_state \<Rightarrow> temporal_state result" where
  "handle_migrate e s0 =
     bindE (target_tid (task_tid (mg_task e))) (\<lambda>tid.
     let s = with_accumulator tid (\<lambda>a. a\<lparr>ta_migration_count := ta_migration_count a + 1\<rparr>) s0;
         s = s\<lparr>ts_last_run_cpu := dict_set tid (mg_destination_cpu e) (ts_last_run_cpu s)\<rparr>
     in mark_consumed [te_event_id e] s)"

section \<open>The run\<close>

fun is_lock_or_futex :: "trace_event \<Rightarrow> bool" where
  "is_lock_or_futex (Lock _) = True"
| "is_lock_or_futex (Futex _) = True"
| "is_lock_or_futex _ = False"

definition observe_event :: "trace_event \<Rightarrow> bool \<Rightarrow> temporal_state \<Rightarrow> temporal_state" where
  "observe_event e ignored s = s\<lparr>ts_acct := acct_observe (ev_id e) ignored (ts_acct s)\<rparr>"

definition handle_switch ::
  "analysis_limits \<Rightarrow> sched_switch_event \<Rightarrow> temporal_state \<Rightarrow> temporal_state result" where
  "handle_switch lim x s =
     bindE (if sw_previous_scope x = Scope_TARGET then handle_switch_out lim x s else Inr s) (\<lambda>s.
     if sw_next_scope x = Scope_TARGET then handle_switch_in lim x s else Inr s)"

definition temporal_step :: "analysis_limits \<Rightarrow> trace_event \<Rightarrow> temporal_state \<Rightarrow> temporal_state result" where
  "temporal_step lim e s0 =
     (let s = observe_event e (is_lock_or_futex e) s0 in
      (case e of
         SchedWakeup x \<Rightarrow> handle_wakeup x s
       | SchedMigrate x \<Rightarrow> handle_migrate x s
       | SchedSwitch x \<Rightarrow> handle_switch lim x s
       | _ \<Rightarrow> Inr s))"

definition end_running ::
  "analysis_limits \<Rightarrow> int \<times> run_state \<Rightarrow> temporal_state \<Rightarrow> temporal_state result" where
  "end_running lim p s =
     (case p of (tid, r) \<Rightarrow>
        bindE (mark_unpaired [rs_event_id r] (count_incomplete_transition tid s)) (\<lambda>s.
        Inr (warn lim ''trace_ended_while_running''
          ''target task remained running at the trace boundary'' (Some (rs_event_id r)) tid s)))"

definition pending_tids :: "temporal_state \<Rightarrow> int list" where
  "pending_tids s = sort (remdups (map fst (ts_off_states s) @ map fst (ts_wakeups s)))"

definition end_pending :: "analysis_limits \<Rightarrow> int \<Rightarrow> temporal_state \<Rightarrow> temporal_state result" where
  "end_pending lim tid s =
     (let off = map_of (ts_off_states s) tid;
          pending = dict_get_or [] (ts_wakeups s) tid;
          ids = map wu_event_id pending @ (case off of None \<Rightarrow> [] | Some st \<Rightarrow> [of_event_id st])
      in bindE (mark_unpaired ids (count_incomplete_transition tid s)) (\<lambda>s.
         bindE (append_incomplete lim tid IR_TRACE_END_BOUNDARY off pending None s) (\<lambda>s.
         Inr (warn lim ''trace_end_boundary''
           ''off-CPU state did not reach a switch-in before the trace ended''
           (case ids of [] \<Rightarrow> None | i # _ \<Rightarrow> Some i) tid s))))"

definition temporal_run :: "analysis_limits \<Rightarrow> trace_event list \<Rightarrow> temporal_state result" where
  "temporal_run lim events =
     bindE (foldE (temporal_step lim) events temporal_init) (\<lambda>s.
     bindE (foldE (end_running lim) (ts_run_states s) s) (\<lambda>s.
     foldE (end_pending lim) (pending_tids s) s))"

section \<open>Results\<close>

definition scheduler_summary :: "int \<times> thread_accumulator \<Rightarrow> scheduler_thread_summary result" where
  "scheduler_summary p =
     (case p of (tid, a) \<Rightarrow>
        bindE (distribution (ta_runtime_ns a)) (\<lambda>runtime.
        bindE (distribution (ta_runnable_latency_ns a)) (\<lambda>latency.
        Inr \<lparr>ss_tid = tid, ss_switch_in_count = ta_switch_in_count a,
             ss_switch_out_count = ta_switch_out_count a, ss_migration_count = ta_migration_count a,
             ss_incomplete_transition_count = ta_incomplete_transition_count a,
             ss_runtime = runtime, ss_runnable_latency = latency\<rparr>)))"

definition off_cpu_summary :: "int \<times> thread_accumulator \<Rightarrow> off_cpu_thread_summary result" where
  "off_cpu_summary p =
     (case p of (tid, a) \<Rightarrow>
        bindE (distribution (ta_off_cpu_ns a)) (\<lambda>off.
        bindE (distribution (ta_blocked_ns a)) (\<lambda>blocked.
        bindE (distribution (ta_off_cpu_runnable_ns a)) (\<lambda>runnable.
        bindE (distribution (ta_unknown_off_cpu_ns a)) (\<lambda>unknown.
        Inr \<lparr>os_tid = tid,
             os_total_complete_interval_count = ta_total_complete_off_cpu_count a,
             os_split_complete_interval_count = ta_split_complete_off_cpu_count a,
             os_total_incomplete_interval_count = ta_total_incomplete_off_cpu_count a,
             os_off_cpu = off, os_blocked = blocked, os_runnable = runnable, os_unknown = unknown,
             os_candidate_categories =
               map (\<lambda>(c, n). \<lparr>wcc_category = c, wcc_interval_count = n\<rparr>)
                 (sort_key (\<lambda>q. wait_category_value (fst q)) (ta_candidate_categories a))\<rparr>)))))"

definition runtime_sort_key :: "runtime_interval \<Rightarrow> int \<times> int \<times> int \<times> string" where
  "runtime_sort_key i =
     (- ri_duration_ns i, ri_tid i, ri_switch_in_timestamp_ns i, ri_switch_in_event_id i)"

definition runnable_sort_key :: "runnable_latency_interval \<Rightarrow> int \<times> int \<times> int \<times> string" where
  "runnable_sort_key i =
     (- rl_duration_ns i, rl_tid i, rl_wakeup_timestamp_ns i, rl_wakeup_event_id i)"

definition build_scheduler ::
  "analysis_limits \<Rightarrow> target_identity option \<Rightarrow> event_accounting \<Rightarrow> scheduler_thread_summary list
     \<Rightarrow> temporal_state \<Rightarrow> scheduler_analysis" where
  "build_scheduler lim tgt acc threads s =
     \<lparr>sa_target = tgt, sa_threads = threads,
      sa_worst_runtime_intervals =
        take (nat (al_max_worst_intervals lim)) (sort_key runtime_sort_key (ts_runtime_intervals s)),
      sa_worst_runnable_latencies =
        take (nat (al_max_worst_intervals lim)) (sort_key runnable_sort_key (ts_runnable_intervals s)),
      sa_runtime_interval_count = int (length (ts_runtime_intervals s)),
      sa_runnable_latency_interval_count = int (length (ts_runnable_intervals s)),
      sa_event_accounting = acc\<rparr>"

definition build_off_cpu ::
  "analysis_limits \<Rightarrow> target_identity option \<Rightarrow> event_accounting \<Rightarrow> off_cpu_thread_summary list
     \<Rightarrow> temporal_state \<Rightarrow> off_cpu_analysis" where
  "build_off_cpu lim tgt acc threads s =
     (let complete = int (length (filter (\<lambda>i. oc_completeness i = IC_COMPLETE) (ts_off_cpu_intervals s)))
      in \<lparr>oa_target = tgt, oa_threads = threads,
          oa_worst_intervals =
            take (nat (al_max_worst_intervals lim)) (sort_key off_cpu_sort_key (ts_off_cpu_intervals s)),
          oa_interval_count = int (length (ts_off_cpu_intervals s)),
          oa_total_complete_interval_count = complete,
          oa_split_complete_interval_count = int (length (filter oc_split_complete (ts_off_cpu_intervals s))),
          oa_total_incomplete_interval_count = int (length (ts_off_cpu_intervals s)) - complete,
          oa_event_accounting = acc\<rparr>)"

definition first_target :: "trace_event list \<Rightarrow> target_identity option" where
  "first_target events = (case events of [] \<Rightarrow> None | e # _ \<Rightarrow> Some (te_target (ev_base e)))"

definition analyze_temporal ::
  "trace_event list \<Rightarrow> analysis_limits \<Rightarrow> trace_limits \<Rightarrow> temporal_result result" where
  "analyze_temporal events lim rlim =
     bindE (validate_trace_sequence events None None None (Some rlim)) (\<lambda>validation.
     bindE (temporal_run lim events) (\<lambda>s.
     let accounting = acct_finish lim (ts_acct s);
         tgt = first_target events;
         rows = sort_key fst (ts_threads s)
     in bindE (mapE scheduler_summary rows) (\<lambda>sched_threads.
        bindE (mapE off_cpu_summary rows) (\<lambda>off_threads.
        bindE (raise_if (st_event_count validation \<noteq> ea_observed_event_count accounting)
          (ValueError ''trace analysis event accounting is not conserved'')) (\<lambda>_.
        Inr \<lparr>tr_scheduler = build_scheduler lim tgt accounting sched_threads s,
             tr_off_cpu = build_off_cpu lim tgt accounting off_threads s\<rparr>)))))"

definition analyze_scheduler_and_off_cpu ::
  "trace_event list \<Rightarrow> analysis_limits option \<Rightarrow> trace_limits option
     \<Rightarrow> (scheduler_analysis \<times> off_cpu_analysis) result" where
  "analyze_scheduler_and_off_cpu events limits resource_limits =
     bindE (analyze_temporal events
       (case limits of None \<Rightarrow> analysis_limits_default | Some l \<Rightarrow> l)
       (case resource_limits of None \<Rightarrow> trace_limits_default | Some l \<Rightarrow> l)) (\<lambda>r.
     Inr (tr_scheduler r, tr_off_cpu r))"

definition analyze_scheduler ::
  "trace_event list \<Rightarrow> analysis_limits option \<Rightarrow> trace_limits option \<Rightarrow> scheduler_analysis result" where
  "analyze_scheduler events limits resource_limits =
     bindE (analyze_scheduler_and_off_cpu events limits resource_limits) (\<lambda>p. Inr (fst p))"

definition analyze_off_cpu ::
  "trace_event list \<Rightarrow> analysis_limits option \<Rightarrow> trace_limits option \<Rightarrow> off_cpu_analysis result" where
  "analyze_off_cpu events limits resource_limits =
     bindE (analyze_scheduler_and_off_cpu events limits resource_limits) (\<lambda>p. Inr (snd p))"

end
