(* ===== verification/TemporalInvariant.thy ===== *)
theory TemporalInvariant
  imports TemporalModel
begin

text \<open>
  The invariant of the scheduler and off-CPU analyzer and its preservation by every
  handler. The invariant says: the accounting knows exactly the observed identities; the
  pending states hold observed identities and past timestamps of target threads, and no
  thread is running and off-CPU at once; every interval emitted so far is well formed; and
  the per-thread accumulators are the projections of the interval lists.
\<close>

section \<open>Invariant\<close>

definition acc_of :: "temporal_state \<Rightarrow> int \<Rightarrow> thread_accumulator" where
  "acc_of s = dict_get_or empty_thread_accumulator (ts_threads s)"

definition runtime_ok :: "int set \<Rightarrow> runtime_interval \<Rightarrow> bool" where
  "runtime_ok T i \<longleftrightarrow> ri_tid i \<in> T \<and>
     ri_duration_ns i = ri_switch_out_timestamp_ns i - ri_switch_in_timestamp_ns i \<and> 0 \<le> ri_duration_ns i"

definition runnable_ok :: "int set \<Rightarrow> runnable_latency_interval \<Rightarrow> bool" where
  "runnable_ok T i \<longleftrightarrow> rl_tid i \<in> T \<and> set_option (rl_waker_target_tid i) \<subseteq> T \<and>
     rl_duration_ns i = rl_switch_in_timestamp_ns i - rl_wakeup_timestamp_ns i \<and> 0 \<le> rl_duration_ns i"

definition off_cpu_ok :: "int set \<Rightarrow> off_cpu_interval \<Rightarrow> bool" where
  "off_cpu_ok T i \<longleftrightarrow>
     oc_tid i \<in> T \<and> set_option (oc_waker_target_tid i) \<subseteq> T \<and>
     (oc_completeness i = IC_COMPLETE \<longleftrightarrow> oc_total_duration_ns i \<noteq> None) \<and>
     (\<forall>d. oc_total_duration_ns i = Some d \<longrightarrow> 0 \<le> d \<and>
        (\<exists>a b. oc_switch_out_timestamp_ns i = Some a \<and> oc_switch_in_timestamp_ns i = Some b \<and> d = b - a)) \<and>
     (oc_split_complete i \<longrightarrow>
        (\<exists>b r. oc_total_duration_ns i = Some (b + r) \<and> oc_blocked_duration_ns i = Some b \<and>
           oc_runnable_duration_ns i = Some r \<and> 0 \<le> b \<and> 0 \<le> r) \<and>
        oc_unknown_duration_ns i = Some 0 \<and> oc_incomplete_reason i = None) \<and>
     (\<not> oc_split_complete i \<longrightarrow>
        oc_blocked_duration_ns i = None \<and> oc_runnable_duration_ns i = None \<and>
        oc_unknown_duration_ns i = oc_total_duration_ns i \<and> oc_incomplete_reason i \<noteq> None) \<and>
     (\<forall>p. oc_observed_blocked_prefix_ns i = Some p \<longrightarrow> 0 \<le> p) \<and>
     (\<forall>p. oc_observed_runnable_suffix_ns i = Some p \<longrightarrow> 0 \<le> p)"

text \<open>The accumulators are projections of the interval lists onto one thread.\<close>

definition of_thread :: "int \<Rightarrow> off_cpu_interval list \<Rightarrow> off_cpu_interval list" where
  "of_thread tid = filter (\<lambda>i. oc_tid i = tid)"

definition unsplit_total :: "off_cpu_interval \<Rightarrow> int option" where
  "unsplit_total i = (if oc_split_complete i then None else oc_total_duration_ns i)"

definition row_matches ::
  "int \<Rightarrow> thread_accumulator \<Rightarrow> runtime_interval list \<Rightarrow> runnable_latency_interval list
     \<Rightarrow> off_cpu_interval list \<Rightarrow> bool" where
  "row_matches tid a R L F \<longleftrightarrow>
     ta_runtime_ns a = map ri_duration_ns (filter (\<lambda>i. ri_tid i = tid) R) \<and>
     ta_runnable_latency_ns a = map rl_duration_ns (filter (\<lambda>i. rl_tid i = tid) L) \<and>
     ta_off_cpu_ns a = List.map_filter oc_total_duration_ns (of_thread tid F) \<and>
     ta_blocked_ns a = List.map_filter oc_blocked_duration_ns (of_thread tid F) \<and>
     ta_off_cpu_runnable_ns a = List.map_filter oc_runnable_duration_ns (of_thread tid F) \<and>
     ta_unknown_off_cpu_ns a = List.map_filter unsplit_total (of_thread tid F) \<and>
     ta_total_complete_off_cpu_count a =
       int (length (filter (\<lambda>i. oc_completeness i = IC_COMPLETE) (of_thread tid F))) \<and>
     ta_split_complete_off_cpu_count a = int (length (filter oc_split_complete (of_thread tid F))) \<and>
     ta_total_incomplete_off_cpu_count a =
       int (length (filter (\<lambda>i. oc_completeness i = IC_INCOMPLETE) (of_thread tid F))) \<and>
     dict_wf (ta_candidate_categories a) \<and>
     (\<forall>c. dict_get_or 0 (ta_candidate_categories a) c =
        int (length (filter (\<lambda>i. oc_completeness i = IC_COMPLETE \<and> oc_candidate_wait_category i = c)
          (of_thread tid F))))"

definition rows_match ::
  "(int \<Rightarrow> thread_accumulator) \<Rightarrow> runtime_interval list \<Rightarrow> runnable_latency_interval list
     \<Rightarrow> off_cpu_interval list \<Rightarrow> bool" where
  "rows_match A R L F \<longleftrightarrow> (\<forall>tid. row_matches tid (A tid) R L F)"

definition run_ok :: "string set \<Rightarrow> int \<Rightarrow> int set \<Rightarrow> (int, run_state) dict \<Rightarrow> bool" where
  "run_ok ids now T run \<longleftrightarrow> dict_wf run \<and>
     (\<forall>t r. map_of run t = Some r \<longrightarrow> t \<in> T \<and> rs_event_id r \<in> ids \<and> rs_timestamp_ns r \<le> now)"

definition off_ok ::
  "string set \<Rightarrow> int \<Rightarrow> int set \<Rightarrow> (int, run_state) dict \<Rightarrow> (int, off_cpu_state) dict \<Rightarrow> bool" where
  "off_ok ids now T run off \<longleftrightarrow> dict_wf off \<and>
     (\<forall>t st. map_of off t = Some st \<longrightarrow>
        t \<in> T \<and> of_event_id st \<in> ids \<and> of_timestamp_ns st \<le> now \<and> map_of run t = None)"

definition wakeup_ok :: "string set \<Rightarrow> int \<Rightarrow> int set \<Rightarrow> off_cpu_state option \<Rightarrow> wakeup \<Rightarrow> bool" where
  "wakeup_ok ids now T off w \<longleftrightarrow>
     wu_event_id w \<in> ids \<and> wu_timestamp_ns w \<le> now \<and> set_option (wu_waker_target_tid w) \<subseteq> T \<and>
     (\<forall>st. off = Some st \<longrightarrow> of_timestamp_ns st \<le> wu_timestamp_ns w)"

definition wakeups_ok ::
  "string set \<Rightarrow> int \<Rightarrow> int set \<Rightarrow> (int, off_cpu_state) dict \<Rightarrow> (int, wakeup list) dict \<Rightarrow> bool" where
  "wakeups_ok ids now T off wk \<longleftrightarrow> dict_wf wk \<and>
     (\<forall>t ws. map_of wk t = Some ws \<longrightarrow>
        t \<in> T \<and> ws \<noteq> [] \<and> (\<forall>w \<in> set ws. wakeup_ok ids now T (map_of off t) w))"

definition threads_ok :: "int set \<Rightarrow> (int, thread_accumulator) dict \<Rightarrow> bool" where
  "threads_ok T th \<longleftrightarrow> dict_wf th \<and> fst ` set th \<subseteq> T"

definition intervals_ok ::
  "int set \<Rightarrow> runtime_interval list \<Rightarrow> runnable_latency_interval list \<Rightarrow> off_cpu_interval list \<Rightarrow> bool" where
  "intervals_ok T R L F \<longleftrightarrow>
     (\<forall>i \<in> set R. runtime_ok T i) \<and> (\<forall>i \<in> set L. runnable_ok T i) \<and> (\<forall>i \<in> set F. off_cpu_ok T i)"

definition temporal_inv :: "string list \<Rightarrow> int \<Rightarrow> int set \<Rightarrow> temporal_state \<Rightarrow> bool" where
  "temporal_inv ids now T s \<longleftrightarrow>
     acct.ledger_inv ids (ts_acct s) \<and>
     run_ok (set ids) now T (ts_run_states s) \<and>
     off_ok (set ids) now T (ts_run_states s) (ts_off_states s) \<and>
     wakeups_ok (set ids) now T (ts_off_states s) (ts_wakeups s) \<and>
     threads_ok T (ts_threads s) \<and>
     intervals_ok T (ts_runtime_intervals s) (ts_runnable_intervals s) (ts_off_cpu_intervals s) \<and>
     rows_match (acc_of s) (ts_runtime_intervals s) (ts_runnable_intervals s) (ts_off_cpu_intervals s) \<and>
     ts_interval_count s =
       int (length (ts_runtime_intervals s) + length (ts_runnable_intervals s) + length (ts_off_cpu_intervals s))"

definition interval_limit_error :: "py_error \<Rightarrow> bool" where
  "interval_limit_error e \<longleftrightarrow> e = ValueError ''trace analysis interval count exceeds max_intervals''"

section \<open>Rows and accumulators\<close>

text \<open>The part of an accumulator that \<open>row_matches\<close> reads.\<close>

definition same_measures :: "thread_accumulator \<Rightarrow> thread_accumulator \<Rightarrow> bool" where
  "same_measures a b \<longleftrightarrow>
     ta_runtime_ns a = ta_runtime_ns b \<and> ta_runnable_latency_ns a = ta_runnable_latency_ns b \<and>
     ta_off_cpu_ns a = ta_off_cpu_ns b \<and> ta_blocked_ns a = ta_blocked_ns b \<and>
     ta_off_cpu_runnable_ns a = ta_off_cpu_runnable_ns b \<and>
     ta_unknown_off_cpu_ns a = ta_unknown_off_cpu_ns b \<and>
     ta_total_complete_off_cpu_count a = ta_total_complete_off_cpu_count b \<and>
     ta_split_complete_off_cpu_count a = ta_split_complete_off_cpu_count b \<and>
     ta_total_incomplete_off_cpu_count a = ta_total_incomplete_off_cpu_count b \<and>
     ta_candidate_categories a = ta_candidate_categories b"

lemma acc_of_with [simp]: "acc_of (with_accumulator t f s) = (acc_of s)(t := f (acc_of s t))"
  by (auto simp: acc_of_def with_accumulator_def dict_get_or_modify fun_eq_iff)

lemma acc_of_threads: "ts_threads s = ts_threads s' \<Longrightarrow> acc_of s = acc_of s'"
  by (simp add: acc_of_def)

lemma rows_match_neutral:
  assumes "rows_match A R L F" and "same_measures (f (A t)) (A t)"
  shows "rows_match (A(t := f (A t))) R L F"
  using assms unfolding rows_match_def row_matches_def same_measures_def by simp

lemma rows_match_runtime:
  assumes "rows_match A R L F" and "ri_tid i = t"
  shows "rows_match (A(t := (A t)\<lparr>ta_runtime_ns := ta_runtime_ns (A t) @ [ri_duration_ns i]\<rparr>)) (R @ [i]) L F"
  using assms unfolding rows_match_def row_matches_def by simp

lemma rows_match_latency:
  assumes "rows_match A R L F" and "rl_tid i = t"
  shows "rows_match (A(t := (A t)\<lparr>ta_runnable_latency_ns := ta_runnable_latency_ns (A t) @ [rl_duration_ns i]\<rparr>))
    R (L @ [i]) F"
  using assms unfolding rows_match_def row_matches_def by simp

lemma of_thread_snoc [simp]:
  "of_thread t (F @ [i]) = of_thread t F @ (if oc_tid i = t then [i] else [])"
  by (simp add: of_thread_def)

lemma map_filter_append [simp]: "List.map_filter f (xs @ ys) = List.map_filter f xs @ List.map_filter f ys"
  by (simp add: List.map_filter_def)

lemma map_filter_single: "List.map_filter f [x] = (case f x of None \<Rightarrow> [] | Some y \<Rightarrow> [y])"
  by (simp add: List.map_filter_def split: option.split)

lemma map_filter_Nil [simp]: "List.map_filter f [] = []"
  by (simp add: List.map_filter_def)

lemmas accumulate_simps =
  rows_match_def row_matches_def map_filter_single count_category_def unsplit_total_def
  dict_get_or_modify

lemma rows_match_complete:
  assumes "rows_match A R L F"
  shows "rows_match (A(tid := count_category (candidate_wait_category (Some (of_previous_state st)))
      ((A tid)\<lparr>ta_total_complete_off_cpu_count := ta_total_complete_off_cpu_count (A tid) + 1,
        ta_split_complete_off_cpu_count := ta_split_complete_off_cpu_count (A tid) + 1,
        ta_off_cpu_ns := ta_off_cpu_ns (A tid) @ [te_timestamp_ns e - of_timestamp_ns st],
        ta_blocked_ns := ta_blocked_ns (A tid) @ [wu_timestamp_ns w - of_timestamp_ns st],
        ta_off_cpu_runnable_ns := ta_off_cpu_runnable_ns (A tid) @ [te_timestamp_ns e - wu_timestamp_ns w]\<rparr>)))
    R L (F @ [complete_interval tid st w e])"
  using assms by (simp add: accumulate_simps complete_interval_def)

lemma rows_match_unsplit:
  assumes "rows_match A R L F"
  shows "rows_match (A(tid := count_category (candidate_wait_category (Some (of_previous_state st)))
      ((A tid)\<lparr>ta_total_complete_off_cpu_count := ta_total_complete_off_cpu_count (A tid) + 1,
        ta_off_cpu_ns := ta_off_cpu_ns (A tid) @ [te_timestamp_ns e - of_timestamp_ns st],
        ta_unknown_off_cpu_ns := ta_unknown_off_cpu_ns (A tid) @ [te_timestamp_ns e - of_timestamp_ns st]\<rparr>)))
    R L (F @ [incomplete_interval tid reason (Some st) pending (Some e)])"
  using assms by (simp add: accumulate_simps incomplete_interval_def Let_def)

lemma rows_match_incomplete:
  assumes "rows_match A R L F" and "out = None \<or> inn = None"
  shows "rows_match (A(tid := (A tid)\<lparr>ta_total_incomplete_off_cpu_count := ta_total_incomplete_off_cpu_count (A tid) + 1\<rparr>))
    R L (F @ [incomplete_interval tid reason out pending inn])"
  using assms by (auto simp: accumulate_simps incomplete_interval_def Let_def split: option.splits)

section \<open>State updates that keep the invariant\<close>

lemma threads_ok_with [simp]:
  "t \<in> T \<Longrightarrow> threads_ok T (ts_threads (with_accumulator t f s)) \<longleftrightarrow> threads_ok T (ts_threads s)"
  by (auto simp: threads_ok_def with_accumulator_def keys_dict_modify)

lemma with_accumulator_fields [simp]:
  "ts_acct (with_accumulator t f s) = ts_acct s"
  "ts_run_states (with_accumulator t f s) = ts_run_states s"
  "ts_off_states (with_accumulator t f s) = ts_off_states s"
  "ts_wakeups (with_accumulator t f s) = ts_wakeups s"
  "ts_last_run_cpu (with_accumulator t f s) = ts_last_run_cpu s"
  "ts_runtime_intervals (with_accumulator t f s) = ts_runtime_intervals s"
  "ts_runnable_intervals (with_accumulator t f s) = ts_runnable_intervals s"
  "ts_off_cpu_intervals (with_accumulator t f s) = ts_off_cpu_intervals s"
  "ts_interval_count (with_accumulator t f s) = ts_interval_count s"
  by (simp_all add: with_accumulator_def)

lemma acc_of_update [simp]:
  "acc_of (s\<lparr>ts_acct := b\<rparr>) = acc_of s"
  "acc_of (s\<lparr>ts_run_states := r\<rparr>) = acc_of s"
  "acc_of (s\<lparr>ts_off_states := r2\<rparr>) = acc_of s"
  "acc_of (s\<lparr>ts_wakeups := r3\<rparr>) = acc_of s"
  "acc_of (s\<lparr>ts_last_run_cpu := r4\<rparr>) = acc_of s"
  "acc_of (s\<lparr>ts_runtime_intervals := r5\<rparr>) = acc_of s"
  "acc_of (s\<lparr>ts_runnable_intervals := r6\<rparr>) = acc_of s"
  "acc_of (s\<lparr>ts_off_cpu_intervals := r7\<rparr>) = acc_of s"
  "acc_of (s\<lparr>ts_interval_count := n\<rparr>) = acc_of s"
  by (simp_all add: acc_of_def)

lemma inv_ledger: "temporal_inv ids now T s \<Longrightarrow> acct.ledger_inv ids (ts_acct s)"
  by (simp add: temporal_inv_def)

lemma inv_acct:
  "temporal_inv ids now T s \<Longrightarrow> acct.ledger_inv ids b \<Longrightarrow> temporal_inv ids now T (s\<lparr>ts_acct := b\<rparr>)"
  by (simp add: temporal_inv_def)

lemma inv_temporal_warn: "temporal_inv ids now T s \<Longrightarrow> temporal_inv ids now T (warn lim c m i t s)"
  unfolding warn_def
  by (rule inv_acct, assumption)
    (use acct.inv_warn [where w = "(lim, c, m, i, Some t)"] inv_ledger in auto)

lemma inv_with:
  assumes "temporal_inv ids now T s" "t \<in> T" "\<And>a. same_measures (f a) a"
  shows "temporal_inv ids now T (with_accumulator t f s)"
  using assms unfolding temporal_inv_def by (simp add: rows_match_neutral)

lemma inv_count_incomplete:
  "temporal_inv ids now T s \<Longrightarrow> t \<in> T \<Longrightarrow> temporal_inv ids now T (count_incomplete_transition t s)"
  unfolding count_incomplete_transition_def
  by (rule inv_with) (auto simp: same_measures_def)

lemma inv_last_cpu: "temporal_inv ids now T s \<Longrightarrow> temporal_inv ids now T (s\<lparr>ts_last_run_cpu := m\<rparr>)"
  by (simp add: temporal_inv_def)

lemma inv_pop_run:
  "temporal_inv ids now T s \<Longrightarrow> temporal_inv ids now T (s\<lparr>ts_run_states := dict_pop t (ts_run_states s)\<rparr>)"
  by (auto simp: temporal_inv_def run_ok_def off_ok_def map_of_dict_pop dict_wf_pop simp del: delete_conv)

lemma inv_pop_wakeups:
  "temporal_inv ids now T s \<Longrightarrow> temporal_inv ids now T (s\<lparr>ts_wakeups := dict_pop t (ts_wakeups s)\<rparr>)"
  by (auto simp: temporal_inv_def wakeups_ok_def map_of_dict_pop dict_wf_pop simp del: delete_conv)

lemma inv_pop_off:
  "temporal_inv ids now T s \<Longrightarrow> temporal_inv ids now T (s\<lparr>ts_off_states := dict_pop t (ts_off_states s)\<rparr>)"
  by (auto simp: temporal_inv_def off_ok_def wakeups_ok_def wakeup_ok_def map_of_dict_pop dict_wf_pop
      simp del: delete_conv)

lemma inv_set_run:
  assumes "temporal_inv ids now T s" "t \<in> T" "rs_event_id r \<in> set ids" "rs_timestamp_ns r \<le> now"
    and "map_of (ts_off_states s) t = None"
  shows "temporal_inv ids now T (s\<lparr>ts_run_states := dict_set t r (ts_run_states s)\<rparr>)"
  using assms by (auto simp: temporal_inv_def run_ok_def off_ok_def map_of_dict_set simp del: update_conv)

lemma inv_set_off:
  assumes "temporal_inv ids now T s" "t \<in> T" "of_event_id st \<in> set ids" "of_timestamp_ns st \<le> now"
    and "map_of (ts_run_states s) t = None" "map_of (ts_wakeups s) t = None"
  shows "temporal_inv ids now T (s\<lparr>ts_off_states := dict_set t st (ts_off_states s)\<rparr>)"
  using assms by (auto simp: temporal_inv_def off_ok_def wakeups_ok_def map_of_dict_set simp del: update_conv)

lemma inv_add_runtime:
  assumes "temporal_inv ids now T s" "t \<in> T" "runtime_ok T i" "ri_tid i = t" "ri_duration_ns i = d"
  shows "temporal_inv ids now T
    (with_accumulator t (\<lambda>a. a\<lparr>ta_runtime_ns := ta_runtime_ns a @ [d]\<rparr>)
      (s\<lparr>ts_interval_count := ts_interval_count s + 1,
         ts_runtime_intervals := ts_runtime_intervals s @ [i]\<rparr>))"
  using assms rows_match_runtime [of "acc_of s" _ _ _ i t]
  by (simp add: temporal_inv_def intervals_ok_def)

lemma inv_add_latency:
  assumes "temporal_inv ids now T s" "t \<in> T" "runnable_ok T i" "rl_tid i = t" "rl_duration_ns i = d"
  shows "temporal_inv ids now T
    (with_accumulator t (\<lambda>a. a\<lparr>ta_runnable_latency_ns := ta_runnable_latency_ns a @ [d]\<rparr>)
      (s\<lparr>ts_interval_count := ts_interval_count s + 1,
         ts_runnable_intervals := ts_runnable_intervals s @ [i]\<rparr>))"
  using assms rows_match_latency [of "acc_of s" _ _ _ i t]
  by (simp add: temporal_inv_def intervals_ok_def)

lemma inv_add_off_cpu:
  assumes "temporal_inv ids now T s" "t \<in> T" "off_cpu_ok T i"
    and "\<And>R L F. rows_match (acc_of s) R L F \<Longrightarrow> rows_match ((acc_of s)(t := f (acc_of s t))) R L (F @ [i])"
  shows "temporal_inv ids now T
    (with_accumulator t f
      (s\<lparr>ts_interval_count := ts_interval_count s + 1,
         ts_off_cpu_intervals := ts_off_cpu_intervals s @ [i]\<rparr>))"
  using assms by (simp add: temporal_inv_def intervals_ok_def)

section \<open>Rules for the fallible primitives\<close>

lemma wp_mark_consumed:
  assumes "temporal_inv ids now T s" "set js \<subseteq> set ids"
    and "\<And>b. temporal_inv ids now T (s\<lparr>ts_acct := b\<rparr>) \<Longrightarrow> ensures E P (f (s\<lparr>ts_acct := b\<rparr>))"
  shows "ensures E P (bindE (mark_consumed js s) f)"
  unfolding mark_consumed_def bindE_assoc
  by (rule ensures_bind [OF acct.ensures_consume [OF inv_ledger [OF assms(1)] assms(2)]])
    (simp add: assms(3) inv_acct [OF assms(1)])

lemma wp_mark_unpaired:
  assumes "temporal_inv ids now T s" "set js \<subseteq> set ids"
    and "\<And>b. temporal_inv ids now T (s\<lparr>ts_acct := b\<rparr>) \<Longrightarrow> ensures E P (f (s\<lparr>ts_acct := b\<rparr>))"
  shows "ensures E P (bindE (mark_unpaired js s) f)"
  unfolding mark_unpaired_def bindE_assoc
  by (rule ensures_bind [OF acct.ensures_unpaired [OF inv_ledger [OF assms(1)] assms(2)]])
    (simp add: assms(3) inv_acct [OF assms(1)])

lemma bindE_Inr_right [simp]: "bindE m Inr = m"
  by (cases m) auto

lemma wp_mark_consumed_tail:
  assumes "temporal_inv ids now T s" "set js \<subseteq> set ids"
    and "\<And>b. temporal_inv ids now T (s\<lparr>ts_acct := b\<rparr>) \<Longrightarrow> P (s\<lparr>ts_acct := b\<rparr>)"
  shows "ensures E P (mark_consumed js s)"
  using wp_mark_consumed [of ids now T s js E P Inr] assms by simp

lemma wp_reserve:
  assumes "E (ValueError ''trace analysis interval count exceeds max_intervals'')"
    and "ensures E P (f (s\<lparr>ts_interval_count := ts_interval_count s + 1\<rparr>))"
  shows "ensures E P (bindE (reserve_interval lim s) f)"
  using assms by (simp add: reserve_interval_def raise_if_def)

text \<open>The frame of \<open>append_incomplete\<close>: it leaves the pending states alone.\<close>

definition same_pending :: "temporal_state \<Rightarrow> temporal_state \<Rightarrow> bool" where
  "same_pending s s' \<longleftrightarrow> ts_run_states s' = ts_run_states s \<and> ts_off_states s' = ts_off_states s \<and>
     ts_wakeups s' = ts_wakeups s"

lemma single_wakeup_Some: "single_wakeup ws = Some w \<longleftrightarrow> ws = [w]"
  by (auto simp: single_wakeup_def split: list.splits)

lemma incomplete_interval_ok:
  assumes "t \<in> T"
    and "\<And>st e. out = Some st \<Longrightarrow> inn = Some e \<Longrightarrow> of_timestamp_ns st \<le> te_timestamp_ns e"
    and "\<forall>w \<in> set pending. wakeup_ok ids now T out w"
    and "\<And>e. inn = Some e \<Longrightarrow> te_timestamp_ns e = now"
  shows "off_cpu_ok T (incomplete_interval t reason out pending inn)"
proof (cases "single_wakeup pending")
  case None
  then show ?thesis
    using assms(1,2) by (auto simp: off_cpu_ok_def incomplete_interval_def Let_def split: option.splits)
next
  case (Some w)
  then have "wakeup_ok ids now T out w"
    using assms(3) by (simp add: single_wakeup_Some)
  then show ?thesis
    using assms(1,2,4) Some
    by (auto simp: off_cpu_ok_def incomplete_interval_def wakeup_ok_def Let_def split: option.splits)
qed

lemma append_incomplete_ok:
  assumes inv: "temporal_inv ids now T s" and t: "t \<in> T"
    and out: "\<And>st. out = Some st \<Longrightarrow> of_event_id st \<in> set ids \<and> of_timestamp_ns st \<le> now"
    and inn: "\<And>e. inn = Some e \<Longrightarrow> te_event_id e \<in> set ids \<and> te_timestamp_ns e = now"
    and pending: "\<forall>w \<in> set pending. wakeup_ok (set ids) now T out w"
  shows "ensures interval_limit_error (\<lambda>s'. temporal_inv ids now T s' \<and> same_pending s s')
    (append_incomplete lim t reason out pending inn s)"
proof -
  let ?i = "incomplete_interval t reason out pending inn"
  have ok: "off_cpu_ok T ?i"
    using incomplete_interval_ok [OF t _ pending] out inn by force
  show ?thesis
  proof (cases "out = None \<or> inn = None")
    case True
    then have "oc_total_duration_ns ?i = None"
      by (auto simp: incomplete_interval_def Let_def split: option.splits)
    then show ?thesis
      using inv_add_off_cpu [OF inv t ok, of "\<lambda>a. a\<lparr>ta_total_incomplete_off_cpu_count := ta_total_incomplete_off_cpu_count a + 1\<rparr>"]
        rows_match_incomplete [OF _ True]
      unfolding append_incomplete_def Let_def
      by (intro wp_reserve) (simp_all add: interval_limit_error_def same_pending_def)
  next
    case False
    then obtain st e where se: "out = Some st" "inn = Some e" by auto
    let ?d = "te_timestamp_ns e - of_timestamp_ns st"
    let ?f = "\<lambda>a. count_category (candidate_wait_category (Some (of_previous_state st)))
      (a\<lparr>ta_total_complete_off_cpu_count := ta_total_complete_off_cpu_count a + 1,
         ta_off_cpu_ns := ta_off_cpu_ns a @ [?d], ta_unknown_off_cpu_ns := ta_unknown_off_cpu_ns a @ [?d]\<rparr>)"
    let ?s = "with_accumulator t ?f (s\<lparr>ts_interval_count := ts_interval_count s + 1,
      ts_off_cpu_intervals := ts_off_cpu_intervals s @ [?i]\<rparr>)"
    have inv': "temporal_inv ids now T ?s"
      using inv_add_off_cpu [OF inv t ok, of ?f] rows_match_unsplit [of _ _ _ _ t st e reason pending] se
      by simp
    have "oc_total_duration_ns ?i = Some ?d"
      by (simp add: incomplete_interval_def Let_def se)
    then have eq: "append_incomplete lim t reason out pending inn s =
        bindE (reserve_interval lim s) (\<lambda>_. mark_consumed [of_event_id st, te_event_id e] ?s)"
      by (simp add: append_incomplete_def se reserve_interval_def raise_if_def Let_def)
    show ?thesis
      unfolding eq
      by (rule wp_reserve, simp add: interval_limit_error_def, rule wp_mark_consumed_tail [OF inv'])
        (use out inn se in \<open>auto simp: same_pending_def\<close>)
  qed
qed

end
