(* ===== verification/TemporalProofs.thy ===== *)
theory TemporalProofs
  imports TemporalInvariant
begin

text \<open>
  Every handler of the scheduler and off-CPU analyzer keeps the invariant and can only
  raise the interval-limit error; the whole run therefore ends in a state that satisfies
  it, and the result records are built without raising.
\<close>

section \<open>Switch-out\<close>

lemma warn_fields [simp]:
  "ts_run_states (warn lim c m i t s) = ts_run_states s"
  "ts_off_states (warn lim c m i t s) = ts_off_states s"
  "ts_wakeups (warn lim c m i t s) = ts_wakeups s"
  "ts_threads (warn lim c m i t s) = ts_threads s"
  by (simp_all add: warn_def)

lemma count_incomplete_fields [simp]:
  "ts_run_states (count_incomplete_transition t s) = ts_run_states s"
  "ts_off_states (count_incomplete_transition t s) = ts_off_states s"
  "ts_wakeups (count_incomplete_transition t s) = ts_wakeups s"
  by (simp_all add: count_incomplete_transition_def)

lemma switch_out_runtime_ok:
  assumes inv: "temporal_inv ids now T s" and t: "t \<in> T"
    and e: "te_event_id e \<in> set ids" "te_timestamp_ns e = now"
  shows "ensures interval_limit_error
    (\<lambda>s'. temporal_inv ids now T s' \<and> map_of (ts_run_states s') t = None \<and>
       ts_off_states s' = ts_off_states s \<and> ts_wakeups s' = ts_wakeups s)
    (switch_out_runtime lim e t s)"
proof -
  let ?s1 = "with_accumulator t (\<lambda>a. a\<lparr>ta_switch_out_count := ta_switch_out_count a + 1\<rparr>) s"
  let ?s = "?s1\<lparr>ts_run_states := dict_pop t (ts_run_states ?s1)\<rparr>"
  have inv1: "temporal_inv ids now T ?s1"
    by (rule inv_with [OF inv t]) (simp add: same_measures_def)
  have inv2: "temporal_inv ids now T ?s"
    by (rule inv_pop_run [OF inv1])
  show ?thesis
  proof (cases "map_of (ts_run_states s) t")
    case None
    show ?thesis
      unfolding switch_out_runtime_def Let_def with_accumulator_fields None option.case
      by (rule wp_mark_unpaired [OF inv_count_incomplete [OF inv2 t, unfolded with_accumulator_fields]])
        (use e in \<open>auto simp: map_of_dict_pop intro!: inv_temporal_warn\<close>)
  next
    case (Some r)
    then have r: "rs_event_id r \<in> set ids" "rs_timestamp_ns r \<le> now"
      using inv by (auto simp: temporal_inv_def run_ok_def)
    let ?d = "te_timestamp_ns e - rs_timestamp_ns r"
    let ?i = "\<lparr>ri_tid = t, ri_switch_in_timestamp_ns = rs_timestamp_ns r,
      ri_switch_out_timestamp_ns = te_timestamp_ns e, ri_duration_ns = ?d,
      ri_switch_in_event_id = rs_event_id r, ri_switch_out_event_id = te_event_id e\<rparr>"
    have inv3: "temporal_inv ids now T
      (with_accumulator t (\<lambda>a. a\<lparr>ta_runtime_ns := ta_runtime_ns a @ [?d]\<rparr>)
        (?s\<lparr>ts_interval_count := ts_interval_count ?s + 1,
            ts_runtime_intervals := ts_runtime_intervals ?s @ [?i]\<rparr>))" (is "temporal_inv _ _ _ ?s3")
      by (rule inv_add_runtime [OF inv2 t]) (use r e t in \<open>auto simp: runtime_ok_def\<close>)
    have eq: "switch_out_runtime lim e t s =
      bindE (reserve_interval lim ?s) (\<lambda>_. bindE (mark_consumed [rs_event_id r, te_event_id e] ?s3) (\<lambda>s.
        Inr (case te_cpu e of None \<Rightarrow> s | Some c \<Rightarrow> s\<lparr>ts_last_run_cpu := dict_set t c (ts_last_run_cpu s)\<rparr>)))"
      by (simp add: switch_out_runtime_def Some reserve_interval_def raise_if_def Let_def)
    show ?thesis
      unfolding eq
      by (rule wp_reserve, simp add: interval_limit_error_def, rule wp_mark_consumed [OF inv3])
        (use r e inv_last_cpu in \<open>auto simp: map_of_dict_pop split: option.split\<close>)
  qed
qed

lemma pending_wakeups_ok:
  assumes "temporal_inv ids now T s"
  shows "\<forall>w \<in> set (dict_get_or [] (ts_wakeups s) t). wakeup_ok (set ids) now T (map_of (ts_off_states s) t) w"
  using assms by (auto simp: temporal_inv_def wakeups_ok_def dict_get_or_def split: option.splits)

lemma off_state_ok:
  assumes "temporal_inv ids now T s" "map_of (ts_off_states s) t = Some st"
  shows "of_event_id st \<in> set ids" "of_timestamp_ns st \<le> now" "t \<in> T"
  using assms by (auto simp: temporal_inv_def off_ok_def)

lemma wakeup_ids: "\<forall>w \<in> set ws. wakeup_ok ids now T st w \<Longrightarrow> wu_event_id ` set ws \<subseteq> ids"
  by (auto simp: wakeup_ok_def)

lemma same_pendingD:
  "same_pending s s' \<Longrightarrow> ts_run_states s' = ts_run_states s"
  "same_pending s s' \<Longrightarrow> ts_off_states s' = ts_off_states s"
  "same_pending s s' \<Longrightarrow> ts_wakeups s' = ts_wakeups s"
  by (simp_all add: same_pending_def)

lemma switch_out_off_cpu_ok:
  assumes inv: "temporal_inv ids now T s" and t: "t \<in> T"
    and e: "te_event_id e \<in> set ids" "te_timestamp_ns e = now"
    and run: "map_of (ts_run_states s) t = None"
  shows "ensures interval_limit_error (temporal_inv ids now T) (switch_out_off_cpu lim e t s)"
proof -
  let ?stale = "dict_get_or [] (ts_wakeups s) t"
  let ?s = "s\<lparr>ts_off_states := dict_pop t (ts_off_states s), ts_wakeups := dict_pop t (ts_wakeups s)\<rparr>"
  let ?off = "\<lparr>of_timestamp_ns = te_timestamp_ns e, of_event_id = te_event_id e,
    of_previous_state = sw_previous_state e, of_stack = te_stack e\<rparr>"
  let ?Q = "\<lambda>s'. temporal_inv ids now T s' \<and> same_pending ?s s'"
  have inv1: "temporal_inv ids now T ?s"
    using inv_pop_wakeups [OF inv_pop_off [OF inv, of t], of t] by simp
  have stale: "\<forall>w \<in> set ?stale. wakeup_ok (set ids) now T (map_of (ts_off_states s) t) w"
    by (rule pending_wakeups_ok [OF inv])
  have final: "temporal_inv ids now T (s'\<lparr>ts_off_states := dict_set t ?off (ts_off_states s')\<rparr>)" if "?Q s'" for s'
    by (rule inv_set_off) (use that t e run in \<open>auto simp: same_pending_def map_of_dict_pop\<close>)
  have body: "ensures interval_limit_error ?Q
    (case map_of (ts_off_states s) t of
       Some st \<Rightarrow>
         bindE (mark_unpaired (of_event_id st # te_event_id e # map wu_event_id ?stale)
           (count_incomplete_transition t ?s)) (\<lambda>s.
         bindE (append_incomplete lim t IR_OVERLAPPING_SWITCH_OUT (Some st) ?stale None s) (\<lambda>s.
         Inr (warn lim ''overlapping_switch_out''
           ''a second switch-out arrived before the prior off-CPU interval closed''
           (Some (te_event_id e)) t s)))
     | None \<Rightarrow>
         (case ?stale of
            [] \<Rightarrow> Inr ?s
          | w # _ \<Rightarrow>
              bindE (mark_unpaired (map wu_event_id ?stale) ?s) (\<lambda>s.
              Inr (warn lim ''wakeup_while_running''
                ''wakeup observed before a matching target switch-out'' (Some (wu_event_id w)) t s))))"
  proof (cases "map_of (ts_off_states s) t")
    case None
    show ?thesis
    proof (cases ?stale)
      case Nil
      with None inv1 show ?thesis by (simp add: same_pending_def)
    next
      case (Cons w ws)
      have ids: "set (map wu_event_id (w # ws)) \<subseteq> set ids"
        using wakeup_ids [OF stale] Cons by simp
      show ?thesis
        unfolding None option.case Cons list.case
        by (rule wp_mark_unpaired [OF inv1 ids]) (simp add: same_pending_def inv_temporal_warn)
    qed
  next
    case (Some st)
    have ids: "set (of_event_id st # te_event_id e # map wu_event_id ?stale) \<subseteq> set ids"
      using wakeup_ids [OF stale] off_state_ok [OF inv Some] e by simp
    have app: "ensures interval_limit_error ?Q
      (append_incomplete lim t IR_OVERLAPPING_SWITCH_OUT (Some st) ?stale None s')"
      if "temporal_inv ids now T s'" "same_pending ?s s'" for s'
      by (rule ensures_mono [OF append_incomplete_ok [OF that(1) t]])
        (use that(2) off_state_ok [OF inv Some] stale Some in \<open>auto simp: same_pending_def\<close>)
    show ?thesis
      unfolding Some option.case
      by (rule wp_mark_unpaired [OF inv_count_incomplete [OF inv1 t] ids], rule ensures_bind [OF app])
        (auto simp: same_pending_def intro: inv_temporal_warn)
  qed
  show ?thesis
    unfolding switch_out_off_cpu_def Let_def
    by (rule ensures_bind [OF body]) (use final in simp)
qed

lemma handle_switch_out_ok:
  assumes "temporal_inv ids now T s" "task_tid (sw_previous e) = Some t" "t \<in> T"
    and "te_event_id e \<in> set ids" "te_timestamp_ns e = now"
  shows "ensures interval_limit_error (temporal_inv ids now T) (handle_switch_out lim e s)"
  using assms unfolding handle_switch_out_def
  by (auto simp: target_tid_def intro!: ensures_bind [OF switch_out_runtime_ok] switch_out_off_cpu_ok)

section \<open>Wakeup and migration\<close>

lemma inv_add_wakeup:
  assumes "temporal_inv ids now T s" "t \<in> T" "wakeup_ok (set ids) now T (map_of (ts_off_states s) t) w"
  shows "temporal_inv ids now T (s\<lparr>ts_wakeups := dict_modify t [] (\<lambda>ws. ws @ [w]) (ts_wakeups s)\<rparr>)"
  using assms
  by (auto simp: temporal_inv_def wakeups_ok_def map_of_dict_modify dict_get_or_def split: option.splits)

lemma handle_wakeup_ok:
  assumes inv: "temporal_inv ids now T s" and t: "task_tid (wk_woken e) = Some t" "t \<in> T"
    and e: "te_event_id e \<in> set ids" "te_timestamp_ns e = now" "set_option (waker_target_tid e) \<subseteq> T"
  shows "ensures interval_limit_error (temporal_inv ids now T) (handle_wakeup e s)"
proof -
  let ?s = "with_accumulator t id s"
  have inv1: "temporal_inv ids now T ?s"
    by (rule inv_with [OF inv t(2)]) (simp add: same_measures_def)
  have "wakeup_ok (set ids) now T (map_of (ts_off_states ?s) t)
      \<lparr>wu_timestamp_ns = te_timestamp_ns e, wu_event_id = te_event_id e, wu_waker_target_tid = waker_target_tid e\<rparr>"
    using e off_state_ok [OF inv] by (auto simp: wakeup_ok_def)
  from inv_add_wakeup [OF inv1 t(2) this] show ?thesis
    unfolding handle_wakeup_def by (simp add: t target_tid_def Let_def)
qed

lemma handle_migrate_ok:
  assumes inv: "temporal_inv ids now T s" and t: "task_tid (mg_task e) = Some t" "t \<in> T"
    and e: "te_event_id e \<in> set ids"
  shows "ensures interval_limit_error (temporal_inv ids now T) (handle_migrate e s)"
proof -
  have "temporal_inv ids now T (with_accumulator t (\<lambda>a. a\<lparr>ta_migration_count := ta_migration_count a + 1\<rparr>) s)"
    by (rule inv_with [OF inv t(2)]) (simp add: same_measures_def)
  from inv_last_cpu [OF this] show ?thesis
    unfolding handle_migrate_def
    using e by (auto simp: t target_tid_def Let_def intro!: wp_mark_consumed_tail)
qed

section \<open>Switch-in\<close>

lemma inv_switch_in_run:
  assumes inv: "temporal_inv ids now T s" and t: "t \<in> T"
    and e: "te_event_id e \<in> set ids" "te_timestamp_ns e = now"
  shows "temporal_inv ids now T ((switch_in_run e t s)\<lparr>
      ts_wakeups := dict_pop t (ts_wakeups (switch_in_run e t s)),
      ts_off_states := dict_pop t (ts_off_states (switch_in_run e t s))\<rparr>)"
proof -
  define s1 where "s1 = (case te_cpu e of None \<Rightarrow> s | Some c \<Rightarrow>
    (case map_of (ts_last_run_cpu s) t of None \<Rightarrow> s
     | Some previous_cpu \<Rightarrow> if previous_cpu \<noteq> c
         then with_accumulator t (\<lambda>a. a\<lparr>ta_migration_count := ta_migration_count a + 1\<rparr>) s else s))"
  let ?r = "\<lparr>rs_timestamp_ns = te_timestamp_ns e, rs_event_id = te_event_id e, rs_cpu = te_cpu e\<rparr>"
  have inv1: "temporal_inv ids now T s1"
    unfolding s1_def by (auto split: option.split simp: same_measures_def intro!: inv inv_with [OF inv t])
  have inv2: "temporal_inv ids now T (s1\<lparr>ts_wakeups := dict_pop t (ts_wakeups s1),
      ts_off_states := dict_pop t (ts_off_states s1)\<rparr>)" (is "temporal_inv _ _ _ ?s2")
    using inv_pop_off [OF inv_pop_wakeups [OF inv1, of t], of t] by simp
  have "temporal_inv ids now T (?s2\<lparr>ts_run_states := dict_set t ?r (ts_run_states ?s2)\<rparr>)"
    by (rule inv_set_run [OF inv2 t]) (use e in \<open>auto simp: map_of_dict_pop\<close>)
  moreover have "switch_in_run e t s = s1\<lparr>ts_run_states := dict_set t ?r (ts_run_states s1)\<rparr>"
    by (simp add: switch_in_run_def s1_def Let_def)
  ultimately show ?thesis by (cases s1) simp
qed

lemma switch_in_run_fields [simp]:
  "ts_wakeups (switch_in_run e t s) = ts_wakeups s"
  "ts_off_states (switch_in_run e t s) = ts_off_states s"
  by (simp_all add: switch_in_run_def Let_def split: option.split)

lemma switch_in_latency_ok:
  assumes inv: "temporal_inv ids now T s" and t: "t \<in> T"
    and e: "te_event_id e \<in> set ids" "te_timestamp_ns e = now"
    and pending: "\<forall>w \<in> set pending. wakeup_ok (set ids) now T off w"
  shows "ensures interval_limit_error (temporal_inv ids now T) (switch_in_latency lim e t pending s)"
proof -
  consider "pending = []" | w where "pending = [w]" | w v ws where "pending = w # v # ws"
    by (metis list.exhaust)
  then show ?thesis
  proof cases
    case 1
    with inv show ?thesis by (simp add: switch_in_latency_def)
  next
    case (2 w)
    then have w: "wu_event_id w \<in> set ids" "wu_timestamp_ns w \<le> now" "set_option (wu_waker_target_tid w) \<subseteq> T"
      using pending by (auto simp: wakeup_ok_def)
    let ?d = "te_timestamp_ns e - wu_timestamp_ns w"
    let ?i = "\<lparr>rl_tid = t, rl_wakeup_timestamp_ns = wu_timestamp_ns w,
      rl_switch_in_timestamp_ns = te_timestamp_ns e, rl_duration_ns = ?d,
      rl_wakeup_event_id = wu_event_id w, rl_switch_in_event_id = te_event_id e,
      rl_waker_target_tid = wu_waker_target_tid w\<rparr>"
    have inv1: "temporal_inv ids now T
      (with_accumulator t (\<lambda>a. a\<lparr>ta_runnable_latency_ns := ta_runnable_latency_ns a @ [?d]\<rparr>)
        (s\<lparr>ts_interval_count := ts_interval_count s + 1,
           ts_runnable_intervals := ts_runnable_intervals s @ [?i]\<rparr>))" (is "temporal_inv _ _ _ ?s1")
      by (rule inv_add_latency [OF inv t]) (use w e t in \<open>auto simp: runnable_ok_def\<close>)
    have "switch_in_latency lim e t pending s =
        bindE (reserve_interval lim s) (\<lambda>_. mark_consumed [wu_event_id w, te_event_id e] ?s1)"
      by (simp add: switch_in_latency_def 2 reserve_interval_def raise_if_def Let_def)
    then show ?thesis
      using w e by (auto simp: interval_limit_error_def intro!: wp_reserve wp_mark_consumed_tail [OF inv1])
  next
    case (3 w v ws)
    have "set (te_event_id e # map wu_event_id pending) \<subseteq> set ids"
      using wakeup_ids [OF pending] e by simp
    then show ?thesis
      unfolding switch_in_latency_def 3 list.case
      by (rule wp_mark_unpaired [OF inv_count_incomplete [OF inv t]]) (simp add: inv_temporal_warn)
  qed
qed

lemma complete_interval_ok:
  assumes "t \<in> T" "wakeup_ok ids now T (Some st) w" "te_timestamp_ns e = now"
  shows "off_cpu_ok T (complete_interval t st w e)"
  using assms by (auto simp: off_cpu_ok_def complete_interval_def wakeup_ok_def)

lemma switch_in_complete_ok:
  assumes inv: "temporal_inv ids now T s" and t: "t \<in> T"
    and e: "te_event_id e \<in> set ids" "te_timestamp_ns e = now"
    and w: "wakeup_ok (set ids) now T (Some st) w" and st: "of_event_id st \<in> set ids"
  shows "ensures interval_limit_error (temporal_inv ids now T) (switch_in_complete lim e t st w s)"
proof -
  let ?f = "\<lambda>a. count_category (candidate_wait_category (Some (of_previous_state st)))
    (a\<lparr>ta_total_complete_off_cpu_count := ta_total_complete_off_cpu_count a + 1,
       ta_split_complete_off_cpu_count := ta_split_complete_off_cpu_count a + 1,
       ta_off_cpu_ns := ta_off_cpu_ns a @ [te_timestamp_ns e - of_timestamp_ns st],
       ta_blocked_ns := ta_blocked_ns a @ [wu_timestamp_ns w - of_timestamp_ns st],
       ta_off_cpu_runnable_ns := ta_off_cpu_runnable_ns a @ [te_timestamp_ns e - wu_timestamp_ns w]\<rparr>)"
  have inv1: "temporal_inv ids now T (with_accumulator t ?f
      (s\<lparr>ts_interval_count := ts_interval_count s + 1,
         ts_off_cpu_intervals := ts_off_cpu_intervals s @ [complete_interval t st w e]\<rparr>))"
    (is "temporal_inv _ _ _ ?s1")
    by (rule inv_add_off_cpu [OF inv t complete_interval_ok [OF t w e(2)]])
      (rule rows_match_complete)
  have "switch_in_complete lim e t st w s =
      bindE (reserve_interval lim s) (\<lambda>_. mark_consumed [of_event_id st, wu_event_id w, te_event_id e] ?s1)"
    by (simp add: switch_in_complete_def reserve_interval_def raise_if_def Let_def)
  then show ?thesis
    using w e st by (auto simp: interval_limit_error_def wakeup_ok_def intro!: wp_reserve wp_mark_consumed_tail [OF inv1])
qed

lemma switch_in_off_cpu_ok:
  assumes inv: "temporal_inv ids now T s" and t: "t \<in> T"
    and e: "te_event_id e \<in> set ids" "te_timestamp_ns e = now"
    and pending: "\<forall>w \<in> set pending. wakeup_ok (set ids) now T off w"
    and off: "\<And>st. off = Some st \<Longrightarrow> of_event_id st \<in> set ids \<and> of_timestamp_ns st \<le> now"
  shows "ensures interval_limit_error (temporal_inv ids now T) (switch_in_off_cpu lim e t off pending s)"
proof -
  have app: "ensures interval_limit_error (temporal_inv ids now T)
      (append_incomplete lim t reason off pending (Some e) s')" if "temporal_inv ids now T s'" for s' reason
    by (rule ensures_mono [OF append_incomplete_ok [OF that t]]) (use e pending off in auto)
  have ids: "wu_event_id ` set pending \<subseteq> set ids"
    by (rule wakeup_ids [OF pending])
  show ?thesis
  proof (cases off)
    case None
    have "set (te_event_id e # map wu_event_id pending) \<subseteq> set ids"
      using ids e by simp
    then show ?thesis
      unfolding switch_in_off_cpu_def None option.case
      by (rule wp_mark_unpaired [OF inv_count_incomplete [OF inv t]]) (use app None in simp)
  next
    case (Some st)
    consider "pending = []" | w where "pending = [w]" | w v ws where "pending = w # v # ws"
      by (metis list.exhaust)
    then show ?thesis
    proof cases
      case 1
      have "set [of_event_id st, te_event_id e] \<subseteq> set ids"
        using e off [OF Some] by simp
      then show ?thesis
        unfolding switch_in_off_cpu_def Some option.case 1 list.case
        by (rule wp_mark_unpaired [OF inv_count_incomplete [OF inv t]])
          (use app 1 Some in \<open>auto intro!: ensures_bind [OF app [unfolded 1 Some]] inv_temporal_warn\<close>)
    next
      case (2 w)
      then show ?thesis
        using switch_in_complete_ok [OF inv t e, of st w] pending off Some
        by (simp add: switch_in_off_cpu_def)
    next
      case (3 w v ws)
      have "set (of_event_id st # te_event_id e # map wu_event_id pending) \<subseteq> set ids"
        using ids e off [OF Some] by simp
      then show ?thesis
        unfolding switch_in_off_cpu_def Some option.case 3 list.case
        by (rule wp_mark_unpaired [OF inv]) (use app 3 Some in simp)
    qed
  qed
qed

lemma handle_switch_in_ok:
  assumes inv: "temporal_inv ids now T s" and t: "task_tid (sw_next e) = Some t" "t \<in> T"
    and e: "te_event_id e \<in> set ids" "te_timestamp_ns e = now"
  shows "ensures interval_limit_error (temporal_inv ids now T) (handle_switch_in lim e s)"
proof -
  let ?s1 = "with_accumulator t (\<lambda>a. a\<lparr>ta_switch_in_count := ta_switch_in_count a + 1\<rparr>) s"
  let ?s2 = "?s1\<lparr>ts_run_states := dict_pop t (ts_run_states ?s1)\<rparr>"
  have inv1: "temporal_inv ids now T ?s1"
    by (rule inv_with [OF inv t(2)]) (simp add: same_measures_def)
  have inv2: "temporal_inv ids now T ?s2"
    by (rule inv_pop_run [OF inv1])
  show ?thesis
  proof (cases "map_of (ts_run_states s) t")
    case (Some r)
    then have "set [rs_event_id r, te_event_id e] \<subseteq> set ids"
      using inv e by (auto simp: temporal_inv_def run_ok_def)
    then show ?thesis
      unfolding handle_switch_in_def Let_def
      using Some t by (auto simp: target_tid_def
          intro!: wp_mark_unpaired [OF inv_count_incomplete [OF inv2 t(2), simplified]] inv_temporal_warn)
  next
    case None
    let ?s3 = "(switch_in_run e t ?s2)\<lparr>ts_wakeups := dict_pop t (ts_wakeups (switch_in_run e t ?s2)),
      ts_off_states := dict_pop t (ts_off_states (switch_in_run e t ?s2))\<rparr>"
    let ?pending = "dict_get_or [] (ts_wakeups s) t"
    let ?off = "map_of (ts_off_states s) t"
    have inv3: "temporal_inv ids now T ?s3"
      by (rule inv_switch_in_run [OF inv2 t(2) e])
    have pending: "\<forall>w \<in> set ?pending. wakeup_ok (set ids) now T ?off w"
      by (rule pending_wakeups_ok [OF inv])
    have off: "of_event_id st \<in> set ids \<and> of_timestamp_ns st \<le> now" if "?off = Some st" for st
      using off_state_ok [OF inv that] by simp
    have "handle_switch_in lim e s =
      bindE (switch_in_latency lim e t ?pending ?s3) (switch_in_off_cpu lim e t ?off ?pending)"
      by (simp add: handle_switch_in_def t target_tid_def None Let_def)
    then show ?thesis
      by (simp only:) (rule ensures_bind [OF switch_in_latency_ok [OF inv3 t(2) e pending]],
          rule switch_in_off_cpu_ok [OF _ t(2) e pending off])
  qed
qed

section \<open>The run\<close>

lemma truncate_fields [simp]:
  "te_event_id (trace_event_base.truncate x) = te_event_id x"
  "te_sequence (trace_event_base.truncate x) = te_sequence x"
  "te_timestamp_ns (trace_event_base.truncate x) = te_timestamp_ns x"
  "te_target (trace_event_base.truncate x) = te_target x"
  "te_semantics (trace_event_base.truncate x) = te_semantics x"
  "te_cpu (trace_event_base.truncate x) = te_cpu x"
  "te_stack (trace_event_base.truncate x) = te_stack x"
  by (simp_all add: trace_event_base.truncate_def)

lemma validate_target_task:
  "validate_scoped_task t Scope_TARGET tgt name = Inr u \<Longrightarrow>
     \<exists>tid. task_tid t = Some tid \<and> 1 \<le> tid \<and> task_pid t = Some (tgt_pid tgt)"
  by (auto simp: validate_scoped_task_def validate_task_def require_plain_int_def split: option.splits)

lemma event_tids_member:
  "(t, Scope_TARGET) \<in> set (tasks_for_event e) \<Longrightarrow> task_tid t = Some tid \<Longrightarrow> tid \<in> event_tids e"
  by (force simp: event_tids_def List.map_filter_def)

lemma switch_previous_tid:
  assumes "validate_trace_event (SchedSwitch x) lim = Inr ()" "sw_previous_scope x = Scope_TARGET"
  shows "\<exists>t. task_tid (sw_previous x) = Some t \<and> t \<in> event_tids (SchedSwitch x)"
proof -
  obtain t where t: "task_tid (sw_previous x) = Some t"
    using assms validate_target_task by (fastforce simp: validate_trace_event_def validate_sched_switch_def)
  then have "t \<in> event_tids (SchedSwitch x)"
    using assms(2) by (intro event_tids_member [where t = "sw_previous x"]) auto
  with t show ?thesis by blast
qed

lemma switch_next_tid:
  assumes "validate_trace_event (SchedSwitch x) lim = Inr ()" "sw_next_scope x = Scope_TARGET"
  shows "\<exists>t. task_tid (sw_next x) = Some t \<and> t \<in> event_tids (SchedSwitch x)"
proof -
  obtain t where t: "task_tid (sw_next x) = Some t"
    using assms validate_target_task by (fastforce simp: validate_trace_event_def validate_sched_switch_def)
  then have "t \<in> event_tids (SchedSwitch x)"
    using assms(2) by (intro event_tids_member [where t = "sw_next x"]) auto
  with t show ?thesis by blast
qed

lemma wakeup_tids:
  assumes "validate_trace_event (SchedWakeup x) lim = Inr ()"
  shows "\<exists>t. task_tid (wk_woken x) = Some t \<and> t \<in> event_tids (SchedWakeup x)"
    and "set_option (waker_target_tid x) \<subseteq> event_tids (SchedWakeup x)"
proof -
  have scope: "wk_woken_scope x = Scope_TARGET"
    using assms by (auto simp: validate_trace_event_def validate_sched_wakeup_def)
  then obtain t where t: "task_tid (wk_woken x) = Some t"
    using assms validate_target_task by (fastforce simp: validate_trace_event_def validate_sched_wakeup_def)
  then have "t \<in> event_tids (SchedWakeup x)"
    using scope by (intro event_tids_member [where t = "wk_woken x"]) auto
  with t show "\<exists>t. task_tid (wk_woken x) = Some t \<and> t \<in> event_tids (SchedWakeup x)" by blast
  show "set_option (waker_target_tid x) \<subseteq> event_tids (SchedWakeup x)"
    by (auto simp: waker_target_tid_def event_tids_def List.map_filter_def
        split: option.splits trace_scope.splits)
qed

lemma migrate_tid:
  assumes "validate_trace_event (SchedMigrate x) lim = Inr ()"
  shows "\<exists>t. task_tid (mg_task x) = Some t \<and> t \<in> event_tids (SchedMigrate x)"
proof -
  have scope: "mg_task_scope x = Scope_TARGET"
    using assms by (auto simp: validate_trace_event_def validate_sched_migrate_def)
  then obtain t where t: "task_tid (mg_task x) = Some t"
    using assms validate_target_task by (fastforce simp: validate_trace_event_def validate_sched_migrate_def)
  then have "t \<in> event_tids (SchedMigrate x)"
    using scope by (intro event_tids_member [where t = "mg_task x"]) auto
  with t show ?thesis by blast
qed

lemma inv_advance:
  assumes "temporal_inv ids now T s" "now \<le> now'"
  shows "temporal_inv (ids @ [ev_id e]) now' T (observe_event e g s)"
proof -
  have "acct.ledger_inv (ids @ [ev_id e]) (acct_observe (ev_id e) g (ts_acct s))"
    by (rule acct.inv_observe) (rule inv_ledger [OF assms(1)])
  then show ?thesis
    using assms unfolding temporal_inv_def observe_event_def
    by (force simp: run_ok_def off_ok_def wakeups_ok_def wakeup_ok_def)
qed

lemma handle_switch_ok:
  assumes inv: "temporal_inv ids now T s" and valid: "validate_trace_event (SchedSwitch x) rlim = Inr ()"
    and "event_tids (SchedSwitch x) \<subseteq> T" "te_event_id x \<in> set ids" "te_timestamp_ns x = now"
  shows "ensures interval_limit_error (temporal_inv ids now T) (handle_switch lim x s)"
proof -
  have out: "ensures interval_limit_error (temporal_inv ids now T)
      (if sw_previous_scope x = Scope_TARGET then handle_switch_out lim x s else Inr s)"
    using switch_previous_tid [OF valid] assms handle_switch_out_ok [OF inv] by fastforce
  show ?thesis
    unfolding handle_switch_def
    by (rule ensures_bind [OF out]) (use switch_next_tid [OF valid] assms handle_switch_in_ok in fastforce)
qed

lemma temporal_step_ok:
  assumes inv: "temporal_inv ids now T s" and le: "now \<le> ev_ts e"
    and valid: "validate_trace_event e rlim = Inr ()" and tids: "event_tids e \<subseteq> T"
  shows "ensures interval_limit_error (temporal_inv (ids @ [ev_id e]) (ev_ts e) T) (temporal_step lim e s)"
proof -
  have inv1: "temporal_inv (ids @ [ev_id e]) (ev_ts e) T (observe_event e (is_lock_or_futex e) s)"
    by (rule inv_advance [OF inv le])
  show ?thesis
  proof (cases e)
    case (SchedSwitch x)
    with inv1 valid tids show ?thesis
      by (auto simp: temporal_step_def Let_def intro: handle_switch_ok)
  next
    case (SchedWakeup x)
    with inv1 valid tids wakeup_tids [of x rlim] show ?thesis
      by (auto simp: temporal_step_def Let_def intro!: handle_wakeup_ok)
  next
    case (SchedMigrate x)
    with inv1 valid tids migrate_tid [of x rlim] show ?thesis
      by (auto simp: temporal_step_def Let_def intro!: handle_migrate_ok)
  qed (use inv1 in \<open>simp_all add: temporal_step_def Let_def\<close>)
qed

lemma temporal_inv_init: "temporal_inv [] now T temporal_init"
  by (simp add: temporal_inv_def temporal_init_def acct.ledger_inv_def acct_init_def run_ok_def off_ok_def
      wakeups_ok_def threads_ok_def intervals_ok_def rows_match_def row_matches_def acc_of_def
      empty_thread_accumulator_def of_thread_def)

definition trace_tids :: "trace_event list \<Rightarrow> int set" where
  "trace_tids evs = \<Union>(event_tids ` set evs)"

definition now_after :: "trace_event list \<Rightarrow> int" where
  "now_after evs = (if evs = [] then 0 else ev_ts (last evs))"

lemma valid_timestamp: "validate_trace_event e lim = Inr () \<Longrightarrow> 0 \<le> ev_ts e"
  by (auto simp: validate_trace_event_def validate_common_def require_plain_int_def)

lemma temporal_loop_ok:
  assumes ok: "sequence_ok rlim expected evs"
  shows "ensures interval_limit_error (temporal_inv (map ev_id evs) (now_after evs) (trace_tids evs))
    (foldE (temporal_step lim) evs temporal_init)"
proof (rule ensures_foldE_prefix
    [where I = "\<lambda>ys. temporal_inv (map ev_id ys) (now_after ys) (trace_tids evs)"])
  show "temporal_inv (map ev_id []) (now_after []) (trace_tids evs) temporal_init"
    using temporal_inv_init by simp
next
  fix ys e zs s
  assume split: "evs = ys @ e # zs" and inv: "temporal_inv (map ev_id ys) (now_after ys) (trace_tids evs) s"
  have "sequence_ok rlim expected (ys @ [e])"
    using sequence_ok_prefix [of rlim expected "ys @ [e]" zs] ok split by simp
  then have "validate_trace_event e rlim = Inr ()" "ys = [] \<or> ev_ts (last ys) \<le> ev_ts e"
    by (simp_all add: sequence_ok_snoc)
  moreover from this have "now_after ys \<le> ev_ts e"
    using valid_timestamp by (auto simp: now_after_def)
  moreover have "event_tids e \<subseteq> trace_tids evs"
    using split by (auto simp: trace_tids_def)
  ultimately show "ensures interval_limit_error
      (temporal_inv (map ev_id (ys @ [e])) (now_after (ys @ [e])) (trace_tids evs)) (temporal_step lim e s)"
    using temporal_step_ok [OF inv] by (simp add: now_after_def)
qed

section \<open>The end of the trace\<close>

lemma end_running_ok:
  assumes inv: "temporal_inv ids now T s" and "tid \<in> T" "rs_event_id r \<in> set ids"
  shows "ensures interval_limit_error (\<lambda>s'. temporal_inv ids now T s' \<and> same_pending s s')
    (end_running lim (tid, r) s)"
  unfolding end_running_def prod.case
  by (rule wp_mark_unpaired [OF inv_count_incomplete [OF inv assms(2)]])
    (use assms(3) in \<open>simp_all add: inv_temporal_warn same_pending_def\<close>)

lemma end_pending_ok:
  assumes inv: "temporal_inv ids now T s" and t: "tid \<in> T"
  shows "ensures interval_limit_error (\<lambda>s'. temporal_inv ids now T s' \<and> same_pending s s')
    (end_pending lim tid s)"
proof -
  let ?off = "map_of (ts_off_states s) tid"
  let ?pending = "dict_get_or [] (ts_wakeups s) tid"
  let ?Q = "\<lambda>s'. temporal_inv ids now T s' \<and> same_pending s s'"
  have pending: "\<forall>w \<in> set ?pending. wakeup_ok (set ids) now T ?off w"
    by (rule pending_wakeups_ok [OF inv])
  have ids: "set (map wu_event_id ?pending @ (case ?off of None \<Rightarrow> [] | Some st \<Rightarrow> [of_event_id st])) \<subseteq> set ids"
    using wakeup_ids [OF pending] off_state_ok [OF inv] by (auto split: option.splits)
  have app: "ensures interval_limit_error ?Q (append_incomplete lim tid IR_TRACE_END_BOUNDARY ?off ?pending None s')"
    if "temporal_inv ids now T s'" "same_pending s s'" for s'
    by (rule ensures_mono [OF append_incomplete_ok [OF that(1) t]])
      (use that(2) off_state_ok [OF inv] pending in \<open>auto simp: same_pending_def\<close>)
  show ?thesis
    unfolding end_pending_def Let_def
    by (rule wp_mark_unpaired [OF inv_count_incomplete [OF inv t] ids], rule ensures_bind [OF app])
      (auto simp: same_pending_def intro: inv_temporal_warn)
qed

lemma temporal_run_ok:
  assumes ok: "sequence_ok rlim expected evs"
  shows "ensures interval_limit_error (temporal_inv (map ev_id evs) (now_after evs) (trace_tids evs))
    (temporal_run lim evs)"
  unfolding temporal_run_def
proof (rule ensures_bind [OF temporal_loop_ok [OF ok]])
  fix s
  let ?inv = "temporal_inv (map ev_id evs) (now_after evs) (trace_tids evs)"
  assume inv: "?inv s"
  have running: "ensures interval_limit_error (\<lambda>s'. ?inv s' \<and> same_pending s s')
      (foldE (end_running lim) (ts_run_states s) s)"
  proof (rule ensures_foldE)
    fix p s'
    assume p: "p \<in> set (ts_run_states s)" and s': "?inv s' \<and> same_pending s s'"
    obtain tid r where "p = (tid, r)" by (cases p)
    moreover from this p inv have "map_of (ts_run_states s) tid = Some r"
      by (auto simp: temporal_inv_def run_ok_def)
    ultimately show "ensures interval_limit_error (\<lambda>s'. ?inv s' \<and> same_pending s s') (end_running lim p s')"
      using s' inv by (auto simp: temporal_inv_def run_ok_def same_pending_def
          intro!: ensures_mono [OF end_running_ok [of "map ev_id evs" "now_after evs" "trace_tids evs"]])
  qed (use inv in \<open>simp add: same_pending_def\<close>)
  show "ensures interval_limit_error ?inv (bindE (foldE (end_running lim) (ts_run_states s) s)
      (\<lambda>s. foldE (end_pending lim) (pending_tids s) s))"
  proof (rule ensures_bind [OF running])
    fix s1
    assume s1: "?inv s1 \<and> same_pending s s1"
    have keys: "tid \<in> trace_tids evs" if "tid \<in> set (pending_tids s1)" for tid
    proof -
      from that have "map_of (ts_off_states s1) tid \<noteq> None \<or> map_of (ts_wakeups s1) tid \<noteq> None"
        by (auto simp: pending_tids_def map_of_eq_None_iff)
      then show ?thesis
        using s1 by (auto simp: temporal_inv_def off_ok_def wakeups_ok_def)
    qed
    show "ensures interval_limit_error ?inv (foldE (end_pending lim) (pending_tids s1) s1)"
      by (rule ensures_foldE) (use s1 keys in \<open>auto intro: ensures_mono [OF end_pending_ok]\<close>)
  qed
qed

end
