(* ===== verification/TemporalBudget.thy ===== *)
theory TemporalBudget
  imports TemporalProofs
begin

text \<open>
  The interval budget of the scheduler and off-CPU analyzer: how many intervals each
  handler may reserve, and hence how large \<open>max_intervals\<close> has to be for a trace of a given
  size to be analyzed without the interval-limit error.
\<close>

definition spends :: "analysis_limits \<Rightarrow> int \<Rightarrow> int \<Rightarrow> temporal_state result \<Rightarrow> bool" where
  "spends lim k c m \<longleftrightarrow> c + k \<le> al_max_intervals lim \<longrightarrow>
     ensures (\<lambda>e. \<not> interval_limit_error e) (\<lambda>s'. ts_interval_count s' \<le> c + k) m"

lemma spends_bind:
  assumes "spends lim k c m" and "\<And>s. ts_interval_count s \<le> c + k \<Longrightarrow> spends lim l (c + k) (f s)"
    and "0 \<le> l"
  shows "spends lim (k + l) c (bindE m f)"
  using assms unfolding spends_def
  by (cases m) (auto simp: ensures_def add.assoc)

lemma spends_mono: "spends lim k c m \<Longrightarrow> k \<le> l \<Longrightarrow> spends lim l c m"
  unfolding spends_def by (auto elim!: ensures_mono)

lemma spends_Inr: "ts_interval_count s \<le> c \<Longrightarrow> 0 \<le> k \<Longrightarrow> spends lim k c (Inr s)"
  by (simp add: spends_def)

lemma acct_errors: "acct_consume js b = Inl e \<Longrightarrow> e = KeyError" "acct_unpaired js b = Inl e \<Longrightarrow> e = KeyError"
  unfolding acct_consume_def acct_unpaired_def
  by (induction js arbitrary: b)
    (auto simp: bindE_Inl_iff acct_consume_one_def acct_unpaired_one_def split: option.splits if_splits)

lemma spends_mark:
  assumes "ts_interval_count s \<le> c"
  shows "spends lim 0 c (mark_consumed js s)" "spends lim 0 c (mark_unpaired js s)"
  unfolding spends_def mark_consumed_def mark_unpaired_def ensures_def
  using assms by (auto split: sum.splits simp: bindE_Inl_iff interval_limit_error_def dest: acct_errors)

lemma spends_reserve:
  assumes "ts_interval_count s \<le> c"
  shows "spends lim 1 c (reserve_interval lim s)"
  using assms by (auto simp: spends_def reserve_interval_def raise_if_def)

lemma count_fields [simp]:
  "ts_interval_count (warn lim c m i t s) = ts_interval_count s"
  "ts_interval_count (count_incomplete_transition t s) = ts_interval_count s"
  "ts_interval_count (switch_in_run e t s) = ts_interval_count s"
  "ts_interval_count (observe_event ev g s) = ts_interval_count s"
  by (simp_all add: warn_def count_incomplete_transition_def switch_in_run_def observe_event_def Let_def
      split: option.split)

lemma spends_append_incomplete:
  assumes "ts_interval_count s \<le> c"
  shows "spends lim 1 c (append_incomplete lim t reason out pending inn s)"
  unfolding append_incomplete_def Let_def
  by (rule spends_bind [where l = 0, OF spends_reserve [OF assms], simplified])
    (auto split: option.split intro!: spends_mark spends_Inr)

lemma spends_target_tid:
  assumes "\<And>t. spends lim k c (f t)"
  shows "spends lim k c (bindE (target_tid x) f)"
  using assms by (auto simp: target_tid_def spends_def interval_limit_error_def split: option.splits)

lemma spends_switch_out_runtime:
  assumes "ts_interval_count s \<le> c"
  shows "spends lim 1 c (switch_out_runtime lim e t s)"
  unfolding switch_out_runtime_def Let_def
  using assms
  by (auto split: option.split
      intro!: spends_mono [OF spends_bind [where l = 0, OF spends_mark(2)]] spends_Inr spends_mark
        spends_bind [where l = 0, OF spends_mark(1)] spends_bind [where l = 0, OF spends_reserve, simplified]
        spends_bind [where k = 0 and l = 0, OF spends_mark(1), simplified])

lemma spends_switch_out_off_cpu:
  assumes "ts_interval_count s \<le> c"
  shows "spends lim 1 c (switch_out_off_cpu lim e t s)"
  unfolding switch_out_off_cpu_def Let_def
proof (rule spends_bind [where l = 0, simplified])
  let ?stale = "dict_get_or [] (ts_wakeups s) t"
  let ?s = "s\<lparr>ts_off_states := dict_pop t (ts_off_states s), ts_wakeups := dict_pop t (ts_wakeups s)\<rparr>"
  show "spends lim 1 c
    (case map_of (ts_off_states s) t of
       Some st \<Rightarrow>
         bindE (mark_unpaired (of_event_id st # te_event_id e # map wu_event_id ?stale)
           (count_incomplete_transition t ?s)) (\<lambda>s.
         bindE (append_incomplete lim t IR_OVERLAPPING_SWITCH_OUT (Some st) ?stale None s) (\<lambda>s.
         Inr (warn lim ''overlapping_switch_out''
           ''a second switch-out arrived before the prior off-CPU interval closed''
           (Some (te_event_id e)) t s)))
     | None \<Rightarrow>
         (case ?stale of
            [] \<Rightarrow> Inr ?s
          | w # _ \<Rightarrow>
              bindE (mark_unpaired (map wu_event_id ?stale) ?s) (\<lambda>s.
              Inr (warn lim ''wakeup_while_running''
                ''wakeup observed before a matching target switch-out'' (Some (wu_event_id w)) t s))))"
    using assms
    by (auto split: option.split list.split
        intro!: spends_bind [where k = 0, OF spends_mark(2), simplified]
          spends_bind [where l = 0, OF spends_append_incomplete, simplified] spends_Inr)
qed (auto intro: spends_Inr)

lemma spends_switch_in_latency:
  assumes "ts_interval_count s \<le> c"
  shows "spends lim 1 c (switch_in_latency lim e t pending s)"
  unfolding switch_in_latency_def Let_def
  using assms
  by (auto split: list.split
      intro!: spends_bind [where k = 0, OF spends_mark(2), simplified] spends_Inr
        spends_bind [where l = 0, OF spends_reserve, simplified] spends_mark)

lemma spends_switch_in_off_cpu:
  assumes "ts_interval_count s \<le> c"
  shows "spends lim 1 c (switch_in_off_cpu lim e t off pending s)"
  unfolding switch_in_off_cpu_def switch_in_complete_def Let_def
  using assms
  by (auto split: option.split list.split
      intro!: spends_bind [where k = 0, OF spends_mark(2), simplified] spends_Inr spends_append_incomplete
        spends_bind [where l = 0, OF spends_append_incomplete, simplified]
        spends_bind [where l = 0, OF spends_reserve, simplified] spends_mark)

lemma spends_handle_switch_out:
  assumes "ts_interval_count s \<le> c"
  shows "spends lim 2 c (handle_switch_out lim e s)"
  unfolding handle_switch_out_def
  by (intro spends_target_tid)
    (use spends_bind [where l = 1, OF spends_switch_out_runtime [OF assms]] spends_switch_out_off_cpu in force)

lemma spends_handle_switch_in:
  assumes "ts_interval_count s \<le> c"
  shows "spends lim 2 c (handle_switch_in lim e s)"
proof -
  have two: "spends lim 2 c (bindE (switch_in_latency lim e t pending s') (switch_in_off_cpu lim e t off pending))"
    if "ts_interval_count s' \<le> c" for s' t pending off
    using spends_bind [where l = 1, OF spends_switch_in_latency [OF that]] spends_switch_in_off_cpu by force
  show ?thesis
    unfolding handle_switch_in_def Let_def
    using assms
    by (intro spends_target_tid)
      (auto split: option.split intro!: two spends_bind [where k = 0, OF spends_mark(2), simplified] spends_Inr)
qed

lemma spends_temporal_step:
  assumes "ts_interval_count s \<le> c"
  shows "spends lim 4 c (temporal_step lim e s)"
proof -
  have out: "spends lim 2 c (if sw_previous_scope x = Scope_TARGET then handle_switch_out lim x s' else Inr s')"
    if "ts_interval_count s' \<le> c" for x s'
    using that by (auto intro: spends_handle_switch_out spends_Inr)
  have sw: "spends lim 4 c (handle_switch lim x s')" if "ts_interval_count s' \<le> c" for x s'
  proof -
    have "spends lim (2 + 2) c (handle_switch lim x s')"
      unfolding handle_switch_def
      by (rule spends_bind [OF out [OF that]]) (auto intro: spends_handle_switch_in spends_Inr)
    then show ?thesis by simp
  qed
  have wk: "spends lim 4 c (handle_wakeup x s')" if "ts_interval_count s' \<le> c" for x s'
    unfolding handle_wakeup_def Let_def using that by (auto intro!: spends_target_tid spends_Inr)
  have mg: "spends lim 4 c (handle_migrate x s')" if "ts_interval_count s' \<le> c" for x s'
    unfolding handle_migrate_def Let_def using that
    by (auto intro!: spends_target_tid spends_mono [OF spends_mark(1)])
  show ?thesis
    unfolding temporal_step_def Let_def
    using assms by (auto split: trace_event.split intro!: sw wk mg spends_Inr)
qed

lemma spends_foldE:
  assumes "\<And>x s c. x \<in> set xs \<Longrightarrow> ts_interval_count s \<le> c \<Longrightarrow> spends lim k c (f x s)" "0 \<le> k"
    and "ts_interval_count s \<le> c"
  shows "spends lim (k * int (length xs)) c (foldE f xs s)"
  using assms(1,3)
proof (induction xs arbitrary: s c)
  case Nil
  then show ?case by (simp add: spends_Inr)
next
  case (Cons x xs)
  have "spends lim (k + k * int (length xs)) c (bindE (f x s) (foldE f xs))"
    by (rule spends_bind) (use Cons assms(2) in auto)
  then show ?case by (simp add: algebra_simps)
qed

lemma finite_trace_tids [simp]: "finite (trace_tids evs)"
  by (simp add: trace_tids_def)

lemma temporal_run_returns:
  assumes ok: "sequence_ok rlim expected evs"
    and budget: "4 * int (length evs) + int (card (trace_tids evs)) \<le> al_max_intervals lim"
  shows "\<exists>s. temporal_run lim evs = Inr s"
proof -
  let ?inv = "temporal_inv (map ev_id evs) (now_after evs) (trace_tids evs)"
  let ?n = "4 * int (length evs)"
  obtain s where s: "foldE (temporal_step lim) evs temporal_init = Inr s" and c: "ts_interval_count s \<le> ?n"
    using spends_foldE [of evs lim 4 "temporal_step lim" temporal_init 0] spends_temporal_step
      temporal_loop_ok [OF ok, of lim] budget
    by (auto simp: spends_def temporal_init_def ensures_def split: sum.splits)
  have inv: "?inv s"
    by (rule ensuresD [OF temporal_loop_ok [OF ok] s])
  have running: "spends lim 0 ?n (end_running lim p s')" if "ts_interval_count s' \<le> ?n" for p s'
    unfolding end_running_def using that
    by (auto split: prod.split intro!: spends_bind [where k = 0 and l = 0, OF spends_mark(2), simplified] spends_Inr)
  have pending: "spends lim 1 d (end_pending lim t s')" if "ts_interval_count s' \<le> d" for t s' d
    unfolding end_pending_def Let_def using that
    by (auto intro!: spends_bind [where k = 0, OF spends_mark(2), simplified]
        spends_bind [where l = 0, OF spends_append_incomplete, simplified] spends_Inr)
  have keys: "length (pending_tids s1) \<le> card (trace_tids evs)" if "?inv s1" for s1
  proof -
    have "t \<in> trace_tids evs" if "t \<in> set (pending_tids s1)" for t
    proof -
      from that have "map_of (ts_off_states s1) t \<noteq> None \<or> map_of (ts_wakeups s1) t \<noteq> None"
        by (auto simp: pending_tids_def map_of_eq_None_iff)
      then show ?thesis
        using \<open>?inv s1\<close> by (auto simp: temporal_inv_def off_ok_def wakeups_ok_def)
    qed
    then have "card (set (pending_tids s1)) \<le> card (trace_tids evs)"
      by (intro card_mono) auto
    moreover have "distinct (pending_tids s1)" by (simp add: pending_tids_def)
    ultimately show ?thesis by (simp add: distinct_card)
  qed
  have "ensures (\<lambda>e. \<not> interval_limit_error e) (\<lambda>_. True) (temporal_run lim evs)"
  proof -
    have r: "ensures (\<lambda>e. \<not> interval_limit_error e) (\<lambda>s'. ts_interval_count s' \<le> ?n)
        (foldE (end_running lim) (ts_run_states s) s)"
      by (rule ensures_foldE) (use c running budget in \<open>auto simp: spends_def\<close>)
    show ?thesis
    proof (cases "foldE (end_running lim) (ts_run_states s) s")
      case (Inl e)
      with r s show ?thesis by (simp add: temporal_run_def)
    next
      case (Inr s1)
      have inv1: "?inv s1"
      proof -
        have "ensures (\<lambda>_. True) ?inv (foldE (end_running lim) (ts_run_states s) s)"
        proof (rule ensures_foldE [where I = ?inv], rule inv)
          fix p s' assume p: "p \<in> set (ts_run_states s)" and "?inv s'"
          moreover obtain t x where "p = (t, x)" by (cases p)
          moreover from this p inv have "map_of (ts_run_states s) t = Some x"
            by (auto simp: temporal_inv_def run_ok_def)
          ultimately show "ensures (\<lambda>_. True) ?inv (end_running lim p s')"
            using inv by (auto simp: temporal_inv_def run_ok_def
                intro!: ensures_mono [OF end_running_ok [of "map ev_id evs" "now_after evs" "trace_tids evs"]])
        qed
        then show ?thesis using Inr by simp
      qed
      have "spends lim (1 * int (length (pending_tids s1))) ?n (foldE (end_pending lim) (pending_tids s1) s1)"
        by (rule spends_foldE) (use pending r Inr in auto)
      then show ?thesis
        using keys [OF inv1] budget s Inr by (auto simp: temporal_run_def spends_def elim!: ensures_mono)
    qed
  qed
  then show ?thesis
    using temporal_run_ok [OF ok, of lim] by (auto simp: ensures_def split: sum.splits)
qed

end
