(* ===== verification/TemporalResults.thy ===== *)
theory TemporalResults
  imports TemporalBudget TraceSamples
begin

text \<open>
  What the scheduler and off-CPU analyses guarantee to their callers: which exceptions they
  raise, that events, interval counts and off-CPU time are conserved between the global and
  the per-thread views, that the exported intervals are well formed and worst first, and
  that only authorized target threads are reported.
\<close>

section \<open>From the final state to the result records\<close>

lemma rows_nonneg:
  assumes "temporal_inv ids now T s"
  shows "\<forall>d \<in> set (ta_runtime_ns (acc_of s t)). 0 \<le> d" "\<forall>d \<in> set (ta_runnable_latency_ns (acc_of s t)). 0 \<le> d"
    "\<forall>d \<in> set (ta_off_cpu_ns (acc_of s t)). 0 \<le> d" "\<forall>d \<in> set (ta_blocked_ns (acc_of s t)). 0 \<le> d"
    "\<forall>d \<in> set (ta_off_cpu_runnable_ns (acc_of s t)). 0 \<le> d" "\<forall>d \<in> set (ta_unknown_off_cpu_ns (acc_of s t)). 0 \<le> d"
proof -
  have row: "row_matches t (acc_of s t) (ts_runtime_intervals s) (ts_runnable_intervals s) (ts_off_cpu_intervals s)"
    and ok: "intervals_ok T (ts_runtime_intervals s) (ts_runnable_intervals s) (ts_off_cpu_intervals s)"
    using assms by (simp_all add: temporal_inv_def rows_match_def)
  show "\<forall>d \<in> set (ta_runtime_ns (acc_of s t)). 0 \<le> d" "\<forall>d \<in> set (ta_runnable_latency_ns (acc_of s t)). 0 \<le> d"
    using row ok by (auto simp: row_matches_def intervals_ok_def runtime_ok_def runnable_ok_def)
  have off: "off_cpu_ok T i" if "i \<in> set (of_thread t (ts_off_cpu_intervals s))" for i
    using that ok by (simp add: intervals_ok_def of_thread_def)
  show "\<forall>d \<in> set (ta_off_cpu_ns (acc_of s t)). 0 \<le> d" "\<forall>d \<in> set (ta_unknown_off_cpu_ns (acc_of s t)). 0 \<le> d"
    using row off by (fastforce simp: row_matches_def List.map_filter_def off_cpu_ok_def unsplit_total_def split: if_splits)+
  show "\<forall>d \<in> set (ta_blocked_ns (acc_of s t)). 0 \<le> d" "\<forall>d \<in> set (ta_off_cpu_runnable_ns (acc_of s t)). 0 \<le> d"
    using row off by (fastforce simp: row_matches_def List.map_filter_def off_cpu_ok_def)+
qed

lemma acc_of_member:
  assumes "temporal_inv ids now T s" "(t, a) \<in> set (ts_threads s)"
  shows "a = acc_of s t"
  using assms by (simp add: temporal_inv_def threads_ok_def acc_of_def dict_get_or_def)

lemma summaries_total:
  assumes inv: "temporal_inv ids now T s" and mem: "p \<in> set (ts_threads s)"
  shows "\<exists>r. scheduler_summary p = Inr r" "\<exists>r. off_cpu_summary p = Inr r"
proof -
  obtain t where p: "p = (t, acc_of s t)"
    using mem acc_of_member [OF inv] by (metis surj_pair)
  show "\<exists>r. scheduler_summary p = Inr r" "\<exists>r. off_cpu_summary p = Inr r"
    using rows_nonneg [OF inv, of t, THEN distribution_total] by (auto simp: scheduler_summary_def off_cpu_summary_def p)
qed

text \<open>How a returned result arises from the final analyzer state.\<close>

lemma analyze_temporal_cases:
  assumes lim: "wf_trace_limits rlim"
  shows "analyze_temporal evs lim rlim = Inr r \<longleftrightarrow>
     sequence_ok rlim None evs \<and>
     (\<exists>s st ot. temporal_run lim evs = Inr s \<and>
        mapE scheduler_summary (sort_key fst (ts_threads s)) = Inr st \<and>
        mapE off_cpu_summary (sort_key fst (ts_threads s)) = Inr ot \<and>
        r = \<lparr>tr_scheduler = build_scheduler lim (first_target evs) (acct_finish lim (ts_acct s)) st s,
             tr_off_cpu = build_off_cpu lim (first_target evs) (acct_finish lim (ts_acct s)) ot s\<rparr>)"
    (is "?lhs \<longleftrightarrow> ?rhs")
proof -
  have count: "st_event_count (validation_finish rlim None 0 (validation_state_of None evs)) = int (length evs)"
    by (simp add: validation_finish_def validation_state_of_def add_validation_warning_def)
  have obs: "ea_observed_event_count (acct_finish lim (ts_acct s)) = int (length evs)"
    if "sequence_ok rlim None evs" "temporal_run lim evs = Inr s" for s
    using ensuresD [OF temporal_run_ok [OF that(1)] that(2)]
    by (simp add: acct_finish_totals temporal_inv_def acct.ledger_inv_def)
  show ?thesis
    unfolding analyze_temporal_def Let_def
    by (auto simp: validate_trace_sequence_Inr [OF lim] count obs)
qed

lemma analyze_temporal_state:
  assumes "wf_trace_limits rlim" "analyze_temporal evs lim rlim = Inr r"
  obtains s st ot where "temporal_inv (map ev_id evs) (now_after evs) (trace_tids evs) s"
    "list_all2 (\<lambda>p x. scheduler_summary p = Inr x) (sort_key fst (ts_threads s)) st"
    "list_all2 (\<lambda>p x. off_cpu_summary p = Inr x) (sort_key fst (ts_threads s)) ot"
    "tr_scheduler r = build_scheduler lim (first_target evs) (acct_finish lim (ts_acct s)) st s"
    "tr_off_cpu r = build_off_cpu lim (first_target evs) (acct_finish lim (ts_acct s)) ot s"
proof -
  from assms obtain s st ot where ok: "sequence_ok rlim None evs" and run: "temporal_run lim evs = Inr s"
    and maps: "mapE scheduler_summary (sort_key fst (ts_threads s)) = Inr st"
      "mapE off_cpu_summary (sort_key fst (ts_threads s)) = Inr ot"
    and r: "r = \<lparr>tr_scheduler = build_scheduler lim (first_target evs) (acct_finish lim (ts_acct s)) st s,
      tr_off_cpu = build_off_cpu lim (first_target evs) (acct_finish lim (ts_acct s)) ot s\<rparr>"
    by (auto simp: analyze_temporal_cases)
  show thesis
    by (rule that [of s st ot]) (use maps r ensuresD [OF temporal_run_ok [OF ok] run] in \<open>simp_all add: mapE_Inr\<close>)
qed

section \<open>Exceptions\<close>

lemma analyze_temporal_after_run:
  assumes lim: "wf_trace_limits rlim" and ok: "sequence_ok rlim None evs" and run: "temporal_run lim evs = Inr s"
  obtains r where "analyze_temporal evs lim rlim = Inr r"
proof -
  have inv: "temporal_inv (map ev_id evs) (now_after evs) (trace_tids evs) s"
    by (rule ensuresD [OF temporal_run_ok [OF ok] run])
  obtain st ot where "mapE scheduler_summary (sort_key fst (ts_threads s)) = Inr st"
    "mapE off_cpu_summary (sort_key fst (ts_threads s)) = Inr ot"
    using mapE_total [of "sort_key fst (ts_threads s)" scheduler_summary]
      mapE_total [of "sort_key fst (ts_threads s)" off_cpu_summary] summaries_total [OF inv] by auto
  then show thesis
    using that analyze_temporal_cases [OF lim] ok run by blast
qed


section \<open>Returning\<close>

lemma analyze_temporal_total:
  assumes lim: "wf_trace_limits rlim" and ok: "sequence_ok rlim None evs"
    and budget: "4 * int (length evs) + int (card (trace_tids evs)) \<le> al_max_intervals lim"
  obtains r where "analyze_temporal evs lim rlim = Inr r"
proof -
  obtain s where "temporal_run lim evs = Inr s"
    using temporal_run_returns [OF ok budget] by blast
  then show thesis
    by (rule analyze_temporal_after_run [OF lim ok]) (rule that)
qed

lemma sample_analysis:
  obtains r where "analyze_temporal sample_trace analysis_limits_default trace_limits_default = Inr r"
proof (rule analyze_temporal_total [OF trace_limits_default_wf sample_trace_ok])
  show "4 * int (length sample_trace) + int (card (trace_tids sample_trace))
      \<le> al_max_intervals analysis_limits_default"
    unfolding trace_tids_def by code_simp
qed (rule that)

section \<open>Rows\<close>

lemma scheduler_summary_fields:
  assumes "scheduler_summary (t, a) = Inr x"
  shows "ss_tid x = t" "dd_sample_count (ss_runtime x) = int (length (ta_runtime_ns a))"
    "dd_total_ns (ss_runtime x) = sum_list (ta_runtime_ns a)"
    "dd_sample_count (ss_runnable_latency x) = int (length (ta_runnable_latency_ns a))"
    "dd_total_ns (ss_runnable_latency x) = sum_list (ta_runnable_latency_ns a)"
  using assms by (auto simp: scheduler_summary_def distribution_fields)

lemma off_cpu_summary_fields:
  assumes "off_cpu_summary (t, a) = Inr x"
  shows "os_tid x = t" "dd_sample_count (os_off_cpu x) = int (length (ta_off_cpu_ns a))"
    "dd_total_ns (os_off_cpu x) = sum_list (ta_off_cpu_ns a)"
    "dd_total_ns (os_blocked x) = sum_list (ta_blocked_ns a)"
    "dd_total_ns (os_runnable x) = sum_list (ta_off_cpu_runnable_ns a)"
    "dd_total_ns (os_unknown x) = sum_list (ta_unknown_off_cpu_ns a)"
    "os_total_complete_interval_count x = ta_total_complete_off_cpu_count a"
    "os_split_complete_interval_count x = ta_split_complete_off_cpu_count a"
    "os_total_incomplete_interval_count x = ta_total_incomplete_off_cpu_count a"
  using assms by (auto simp: off_cpu_summary_def distribution_fields)

lemma off_cpu_time_split:
  assumes "\<forall>i \<in> set F. off_cpu_ok T i"
  shows "sum_list (List.map_filter oc_total_duration_ns F) =
    sum_list (List.map_filter oc_blocked_duration_ns F) + sum_list (List.map_filter oc_runnable_duration_ns F)
    + sum_list (List.map_filter unsplit_total F)"
  using assms
proof (induction F)
  case (Cons i F)
  then have "off_cpu_ok T i" by simp
  then show ?case
    using Cons by (auto simp: List.map_filter_def off_cpu_ok_def unsplit_total_def split: if_splits)
qed simp

lemma completeness_exhaust: "oc_completeness i \<noteq> IC_COMPLETE \<longleftrightarrow> oc_completeness i = IC_INCOMPLETE"
  by (cases "oc_completeness i") auto

lemma length_map_filter_total:
  assumes "\<forall>i \<in> set F. off_cpu_ok T i"
  shows "length (List.map_filter oc_total_duration_ns F) = length (filter (\<lambda>i. oc_completeness i = IC_COMPLETE) F)"
  using assms by (induction F) (auto simp: List.map_filter_def off_cpu_ok_def)

lemma intervals_in_threads:
  assumes "temporal_inv ids now T s"
  shows "oc_tid ` set (ts_off_cpu_intervals s) \<subseteq> fst ` set (ts_threads s)"
    "ri_tid ` set (ts_runtime_intervals s) \<subseteq> fst ` set (ts_threads s)"
    "rl_tid ` set (ts_runnable_intervals s) \<subseteq> fst ` set (ts_threads s)"
proof -
  have row: "row_matches t (acc_of s t) (ts_runtime_intervals s) (ts_runnable_intervals s) (ts_off_cpu_intervals s)" for t
    using assms by (simp add: temporal_inv_def rows_match_def)
  have absent: "acc_of s t = empty_thread_accumulator" if "t \<notin> fst ` set (ts_threads s)" for t
  proof -
    from that have "map_of (ts_threads s) t = None" by (simp add: map_of_eq_None_iff)
    then show ?thesis by (simp add: acc_of_def dict_get_or_def)
  qed
  have none: "filter (\<lambda>i. oc_tid i = t) (ts_off_cpu_intervals s) = []"
    if "t \<notin> fst ` set (ts_threads s)" for t
  proof -
    have "filter (\<lambda>i. oc_completeness i = IC_COMPLETE) (of_thread t (ts_off_cpu_intervals s)) = []"
      "filter (\<lambda>i. oc_completeness i = IC_INCOMPLETE) (of_thread t (ts_off_cpu_intervals s)) = []"
      using row [of t] by (simp_all add: row_matches_def absent [OF that] empty_thread_accumulator_def)
    then show ?thesis
      by (auto simp: of_thread_def filter_empty_conv completeness_exhaust)
  qed
  show "oc_tid ` set (ts_off_cpu_intervals s) \<subseteq> fst ` set (ts_threads s)"
    using none by (auto simp: filter_empty_conv)
  have "filter (\<lambda>i. ri_tid i = t) (ts_runtime_intervals s) = []" "filter (\<lambda>i. rl_tid i = t) (ts_runnable_intervals s) = []"
    if "t \<notin> fst ` set (ts_threads s)" for t
    using row [of t] by (simp_all add: row_matches_def absent [OF that] empty_thread_accumulator_def)
  then show "ri_tid ` set (ts_runtime_intervals s) \<subseteq> fst ` set (ts_threads s)"
    "rl_tid ` set (ts_runnable_intervals s) \<subseteq> fst ` set (ts_threads s)"
    unfolding filter_empty_conv by blast+
qed

lemma summary_rows:
  assumes inv: "temporal_inv ids now T s"
    and rows: "list_all2 (\<lambda>p x. f p = Inr x) (sort_key fst (ts_threads s)) xs"
    and measure: "\<And>t a x. f (t, a) = Inr x \<Longrightarrow> g x = h a"
  shows "sum_list (map g xs) = sum_list (map (\<lambda>t. h (acc_of s t)) (sort (map fst (ts_threads s))) :: int list)"
proof -
  have "map g xs = map (\<lambda>p. h (snd p)) (sort_key fst (ts_threads s))"
    using rows by (induction rule: list_all2_induct) (auto dest: measure)
  also have "\<dots> = map (\<lambda>p. h (acc_of s (fst p))) (sort_key fst (ts_threads s))"
    using acc_of_member [OF inv] by auto
  also have "\<dots> = map (\<lambda>t. h (acc_of s t)) (map fst (sort_key fst (ts_threads s)))"
    by simp
  also have "map fst (sort_key fst (ts_threads s)) = sort (map fst (ts_threads s))"
    by (rule properties_for_sort [symmetric]) simp_all
  finally show ?thesis by simp
qed

text \<open>A measure of the rows that counts the intervals of the row's thread adds up to all of them.\<close>

lemma rows_sum:
  assumes inv: "temporal_inv ids now T s"
    and rows: "list_all2 (\<lambda>p x. f p = Inr x) (sort_key fst (ts_threads s)) xs"
    and measure: "\<And>t a x. f (t, a) = Inr x \<Longrightarrow> g x = h a"
    and row: "\<And>t. h (acc_of s t) = sum_list (map w (filter (\<lambda>i. key i = t) is))"
    and keys: "key ` set is \<subseteq> fst ` set (ts_threads s)"
  shows "sum_list (map g xs) = sum_list (map (w :: _ \<Rightarrow> int) is)"
proof -
  have "sum_list (map g xs) = sum_list (map (\<lambda>t. h (acc_of s t)) (sort (map fst (ts_threads s))))"
    by (rule summary_rows [OF inv rows measure])
  also have "\<dots> = sum_list (map w is)"
    unfolding row by (rule sum_list_group) (use inv keys in \<open>auto simp: temporal_inv_def threads_ok_def\<close>)
  finally show ?thesis .
qed

lemma rows_count:
  assumes inv: "temporal_inv ids now T s"
    and rows: "list_all2 (\<lambda>p x. f p = Inr x) (sort_key fst (ts_threads s)) xs"
    and keys: "key ` set is \<subseteq> fst ` set (ts_threads s)"
    and measure: "\<And>t a x. f (t, a) = Inr x \<Longrightarrow> g x = h a"
    and row: "\<And>t. h (acc_of s t) = int (length (filter P (filter (\<lambda>i. key i = t) is)))"
  shows "sum_list (map g xs) = int (length (filter P is))"
  unfolding length_filter_sum
  by (rule rows_sum [OF inv rows measure _ keys]) (assumption, unfold row, rule length_filter_sum)

lemma off_cpu_row_split:
  assumes inv: "temporal_inv ids now T s" and p: "p \<in> set (ts_threads s)" and px: "off_cpu_summary p = Inr x"
  shows "dd_total_ns (os_off_cpu x) = dd_total_ns (os_blocked x) + dd_total_ns (os_runnable x) + dd_total_ns (os_unknown x)
    \<and> dd_sample_count (os_off_cpu x) = os_total_complete_interval_count x"
proof -
  obtain t where pt: "p = (t, acc_of s t)"
    using p acc_of_member [OF inv] by (metis surj_pair)
  have row: "row_matches t (acc_of s t) (ts_runtime_intervals s) (ts_runnable_intervals s) (ts_off_cpu_intervals s)"
    and ok: "\<forall>i \<in> set (of_thread t (ts_off_cpu_intervals s)). off_cpu_ok T i"
    using inv by (simp_all add: temporal_inv_def rows_match_def intervals_ok_def of_thread_def)
  show ?thesis
    using row off_cpu_time_split [OF ok] length_map_filter_total [OF ok] px
    by (simp add: pt off_cpu_summary_fields row_matches_def)
qed

section \<open>Properties\<close>

text \<open>The duration the worst-first order goes by; an interval without one sorts last.\<close>

definition off_cpu_duration :: "off_cpu_interval \<Rightarrow> int" where
  "off_cpu_duration i = (case oc_total_duration_ns i of None \<Rightarrow> -1 | Some d \<Rightarrow> d)"





text \<open>
  C4. Event conservation: both analyses report every event of the trace as observed, and
  each observed event is counted in exactly one of the consumed, unpaired and ignored
  ledgers.
\<close>

theorem temporal_events_conserved:
  assumes "wf_trace_limits rlim" and "analyze_temporal evs lim rlim = Inr r"
    and "acc \<in> {sa_event_accounting (tr_scheduler r), oa_event_accounting (tr_off_cpu r)}"
  shows "ea_observed_event_count acc = int (length evs) \<and>
    el_total_count (ea_consumed acc) + el_total_count (ea_unpaired acc) + el_total_count (ea_ignored acc)
      = int (length evs)"
proof -
  obtain s st ot where tinv: "temporal_inv (map ev_id evs) (now_after evs) (trace_tids evs) s"
    and "tr_scheduler r = build_scheduler lim (first_target evs) (acct_finish lim (ts_acct s)) st s"
      "tr_off_cpu r = build_off_cpu lim (first_target evs) (acct_finish lim (ts_acct s)) ot s"
    by (rule analyze_temporal_state [OF assms(1,2)])
  then have acc: "acc = acct_finish lim (ts_acct s)"
    using assms(3) by (simp add: build_scheduler_def build_off_cpu_def Let_def)
  have inv: "acct.ledger_inv (map ev_id evs) (ts_acct s)"
    by (rule inv_ledger [OF tinv])
  have "ea_observed_event_count acc = int (length evs)"
    using inv by (simp add: acc acct_finish_totals acct.ledger_inv_def)
  then show ?thesis using acct_finish_conserved [OF inv, of lim] by (simp add: acc)
qed

theorem temporal_events_conserved_witness:
  "\<exists>r. analyze_temporal sample_trace analysis_limits_default trace_limits_default = Inr r \<and>
     el_total_count (ea_consumed (sa_event_accounting (tr_scheduler r)))
     + el_total_count (ea_unpaired (sa_event_accounting (tr_scheduler r)))
     + el_total_count (ea_ignored (sa_event_accounting (tr_scheduler r))) = 4"
proof -
  obtain r where r: "analyze_temporal sample_trace analysis_limits_default trace_limits_default = Inr r"
    by (rule sample_analysis)
  show ?thesis
    using temporal_events_conserved [OF trace_limits_default_wf r, OF insertI1] r by (simp add: sample_trace_def)
qed

text \<open>
  C5. Off-CPU conservation: the per-thread rows add up to the totals of the analysis, and in
  each row the off-CPU time of the complete intervals is exactly the blocked time plus the
  runnable time plus the time whose split is unknown.
\<close>

theorem off_cpu_conserved:
  assumes "wf_trace_limits rlim" and "analyze_temporal evs lim rlim = Inr r"
  shows "sum_list (map os_total_complete_interval_count (oa_threads (tr_off_cpu r)))
      = oa_total_complete_interval_count (tr_off_cpu r) \<and>
    sum_list (map os_split_complete_interval_count (oa_threads (tr_off_cpu r)))
      = oa_split_complete_interval_count (tr_off_cpu r) \<and>
    sum_list (map os_total_incomplete_interval_count (oa_threads (tr_off_cpu r)))
      = oa_total_incomplete_interval_count (tr_off_cpu r) \<and>
    (\<forall>x \<in> set (oa_threads (tr_off_cpu r)).
      dd_total_ns (os_off_cpu x) = dd_total_ns (os_blocked x) + dd_total_ns (os_runnable x) + dd_total_ns (os_unknown x)
      \<and> dd_sample_count (os_off_cpu x) = os_total_complete_interval_count x)"
proof (intro conjI)
  obtain s st ot where inv: "temporal_inv (map ev_id evs) (now_after evs) (trace_tids evs) s"
    and rows: "list_all2 (\<lambda>p x. off_cpu_summary p = Inr x) (sort_key fst (ts_threads s)) ot"
    and r: "tr_off_cpu r = build_off_cpu lim (first_target evs) (acct_finish lim (ts_acct s)) ot s"
    by (rule analyze_temporal_state [OF assms])
  let ?F = "ts_off_cpu_intervals s"
  have row: "row_matches t (acc_of s t) (ts_runtime_intervals s) (ts_runnable_intervals s) ?F" for t
    using inv by (simp add: temporal_inv_def rows_match_def)
  note count = rows_count [OF inv rows intervals_in_threads(1) [OF inv]]
  have complete: "sum_list (map os_total_complete_interval_count ot) =
      int (length (filter (\<lambda>i. oc_completeness i = IC_COMPLETE) ?F))"
    by (rule count [where h = ta_total_complete_off_cpu_count])
      (use row in \<open>simp_all add: off_cpu_summary_fields row_matches_def of_thread_def del: filter_filter\<close>)
  have split: "sum_list (map os_split_complete_interval_count ot) = int (length (filter oc_split_complete ?F))"
    by (rule count [where h = ta_split_complete_off_cpu_count])
      (use row in \<open>simp_all add: off_cpu_summary_fields row_matches_def of_thread_def del: filter_filter\<close>)
  have incomplete: "sum_list (map os_total_incomplete_interval_count ot) =
      int (length (filter (\<lambda>i. oc_completeness i = IC_INCOMPLETE) ?F))"
    by (rule count [where h = ta_total_incomplete_off_cpu_count])
      (use row in \<open>simp_all add: off_cpu_summary_fields row_matches_def of_thread_def del: filter_filter\<close>)
  have "int (length (filter (\<lambda>i. oc_completeness i = IC_INCOMPLETE) ?F)) =
      int (length ?F) - int (length (filter (\<lambda>i. oc_completeness i = IC_COMPLETE) ?F))"
    using sum_length_filter_compl [of "\<lambda>i. oc_completeness i = IC_COMPLETE" ?F]
    by (simp add: completeness_exhaust)
  then show "sum_list (map os_total_complete_interval_count (oa_threads (tr_off_cpu r)))
      = oa_total_complete_interval_count (tr_off_cpu r)"
    "sum_list (map os_split_complete_interval_count (oa_threads (tr_off_cpu r)))
      = oa_split_complete_interval_count (tr_off_cpu r)"
    "sum_list (map os_total_incomplete_interval_count (oa_threads (tr_off_cpu r)))
      = oa_total_incomplete_interval_count (tr_off_cpu r)"
    using complete split incomplete by (simp_all add: r build_off_cpu_def Let_def)
  show "\<forall>x \<in> set (oa_threads (tr_off_cpu r)).
      dd_total_ns (os_off_cpu x) = dd_total_ns (os_blocked x) + dd_total_ns (os_runnable x) + dd_total_ns (os_unknown x)
      \<and> dd_sample_count (os_off_cpu x) = os_total_complete_interval_count x"
    using rows by (auto simp: r build_off_cpu_def Let_def elim!: list_all2_in_set2 dest: off_cpu_row_split [OF inv])
qed

text \<open>
  Scheduler conservation: the per-thread sample counts add up to the number of running
  and runnable-latency intervals of the analysis.
\<close>

theorem scheduler_conserved:
  assumes "wf_trace_limits rlim" and "analyze_temporal evs lim rlim = Inr r"
  shows "sum_list (map (\<lambda>x. dd_sample_count (ss_runtime x)) (sa_threads (tr_scheduler r)))
      = sa_runtime_interval_count (tr_scheduler r) \<and>
    sum_list (map (\<lambda>x. dd_sample_count (ss_runnable_latency x)) (sa_threads (tr_scheduler r)))
      = sa_runnable_latency_interval_count (tr_scheduler r)"
proof (intro conjI)
  obtain s st ot where inv: "temporal_inv (map ev_id evs) (now_after evs) (trace_tids evs) s"
    and rows: "list_all2 (\<lambda>p x. scheduler_summary p = Inr x) (sort_key fst (ts_threads s)) st"
    and r: "tr_scheduler r = build_scheduler lim (first_target evs) (acct_finish lim (ts_acct s)) st s"
    by (rule analyze_temporal_state [OF assms])
  have row: "row_matches t (acc_of s t) (ts_runtime_intervals s) (ts_runnable_intervals s) (ts_off_cpu_intervals s)" for t
    using inv by (simp add: temporal_inv_def rows_match_def)
  have run: "sum_list (map (\<lambda>x. dd_sample_count (ss_runtime x)) st) =
      int (length (filter (\<lambda>_. True) (ts_runtime_intervals s)))"
    by (rule rows_count [OF inv rows intervals_in_threads(2) [OF inv], where h = "\<lambda>a. int (length (ta_runtime_ns a))"])
      (use row in \<open>simp_all add: scheduler_summary_fields row_matches_def\<close>)
  have latency: "sum_list (map (\<lambda>x. dd_sample_count (ss_runnable_latency x)) st) =
      int (length (filter (\<lambda>_. True) (ts_runnable_intervals s)))"
    by (rule rows_count [OF inv rows intervals_in_threads(3) [OF inv],
          where h = "\<lambda>a. int (length (ta_runnable_latency_ns a))"])
      (use row in \<open>simp_all add: scheduler_summary_fields row_matches_def\<close>)
  show "sum_list (map (\<lambda>x. dd_sample_count (ss_runtime x)) (sa_threads (tr_scheduler r)))
      = sa_runtime_interval_count (tr_scheduler r)"
    "sum_list (map (\<lambda>x. dd_sample_count (ss_runnable_latency x)) (sa_threads (tr_scheduler r)))
      = sa_runnable_latency_interval_count (tr_scheduler r)"
    using run latency by (simp_all add: r build_scheduler_def)
qed

lemma exported_intervals_ok:
  assumes "wf_trace_limits rlim" and "analyze_temporal evs lim rlim = Inr r"
  shows "(\<forall>i \<in> set (sa_worst_runtime_intervals (tr_scheduler r)). runtime_ok (trace_tids evs) i) \<and>
    (\<forall>i \<in> set (sa_worst_runnable_latencies (tr_scheduler r)). runnable_ok (trace_tids evs) i) \<and>
    (\<forall>i \<in> set (oa_worst_intervals (tr_off_cpu r)). off_cpu_ok (trace_tids evs) i)"
proof -
  obtain s st ot where inv: "temporal_inv (map ev_id evs) (now_after evs) (trace_tids evs) s"
    and r: "tr_scheduler r = build_scheduler lim (first_target evs) (acct_finish lim (ts_acct s)) st s"
      "tr_off_cpu r = build_off_cpu lim (first_target evs) (acct_finish lim (ts_acct s)) ot s"
    by (rule analyze_temporal_state [OF assms])
  have "intervals_ok (trace_tids evs) (ts_runtime_intervals s) (ts_runnable_intervals s) (ts_off_cpu_intervals s)"
    using inv by (simp add: temporal_inv_def)
  then show ?thesis
    unfolding r build_scheduler_def build_off_cpu_def Let_def intervals_ok_def
    by (auto dest!: in_set_takeD)
qed

text \<open>
  C6. Every exported interval is well formed and stays inside the authorized threads: its
  thread and its waker are target threads of the trace, its duration is the difference of
  its two timestamps and not negative, and an off-CPU interval is either split into a blocked
  and a runnable part that add up to its total, or carries the reason why it is not.
\<close>

theorem temporal_intervals_wf:
  assumes "wf_trace_limits rlim" and "analyze_temporal evs lim rlim = Inr r"
  shows "(\<forall>i \<in> set (sa_worst_runtime_intervals (tr_scheduler r)). runtime_ok (trace_tids evs) i) \<and>
    (\<forall>i \<in> set (sa_worst_runnable_latencies (tr_scheduler r)). runnable_ok (trace_tids evs) i) \<and>
    (\<forall>i \<in> set (oa_worst_intervals (tr_off_cpu r)). off_cpu_ok (trace_tids evs) i)"
  using exported_intervals_ok [OF assms] .

text \<open>
  Worst first: the exported off-CPU intervals are a bounded selection of the intervals of
  the run, ordered by falling duration, and no interval that was left out lasted longer than
  one that was exported.
\<close>

theorem off_cpu_worst_first:
  assumes "wf_trace_limits rlim" and "analyze_temporal evs lim rlim = Inr r" and "temporal_run lim evs = Inr s"
  shows "length (oa_worst_intervals (tr_off_cpu r)) =
      min (nat (al_max_worst_intervals lim)) (length (ts_off_cpu_intervals s)) \<and>
    sorted_wrt (\<lambda>x y. off_cpu_duration y \<le> off_cpu_duration x) (oa_worst_intervals (tr_off_cpu r)) \<and>
    (\<exists>rest. mset (oa_worst_intervals (tr_off_cpu r) @ rest) = mset (ts_off_cpu_intervals s) \<and>
      (\<forall>x \<in> set (oa_worst_intervals (tr_off_cpu r)). \<forall>y \<in> set rest. off_cpu_duration y \<le> off_cpu_duration x))"
proof -
  let ?n = "nat (al_max_worst_intervals lim)" and ?sorted = "sort_key off_cpu_sort_key (ts_off_cpu_intervals s)"
  have worst: "oa_worst_intervals (tr_off_cpu r) = take ?n ?sorted"
    using assms by (auto simp: analyze_temporal_cases build_off_cpu_def Let_def)
  have key: "off_cpu_duration y \<le> off_cpu_duration x" if "off_cpu_sort_key x \<le> off_cpu_sort_key y" for x y
    using that by (auto simp: off_cpu_sort_key_def off_cpu_duration_def Let_def less_eq_prod_def)
  have "sorted_wrt (\<lambda>x y. off_cpu_sort_key x \<le> off_cpu_sort_key y) ?sorted"
    using sorted_sort_key [of off_cpu_sort_key "ts_off_cpu_intervals s"] by (simp add: sorted_map)
  then have ordered: "sorted_wrt (\<lambda>x y. off_cpu_duration y \<le> off_cpu_duration x) ?sorted"
    by (rule sorted_wrt_mono_rel [rotated]) (rule key)
  then have take: "sorted_wrt (\<lambda>x y. off_cpu_duration y \<le> off_cpu_duration x) (take ?n ?sorted)"
    and rest: "\<forall>x \<in> set (take ?n ?sorted). \<forall>y \<in> set (drop ?n ?sorted). off_cpu_duration y \<le> off_cpu_duration x"
    by (metis append_take_drop_id sorted_wrt_append)+
  have "mset (take ?n ?sorted @ drop ?n ?sorted) = mset (ts_off_cpu_intervals s)"
    by (simp only: append_take_drop_id mset_sort)
  then show ?thesis
    using take rest unfolding worst by (intro conjI exI [of _ "drop ?n ?sorted"]) simp_all
qed

section \<open>Witnesses\<close>

lemma sample_off_cpu:
  obtains s where "temporal_run analysis_limits_default sample_trace = Inr s"
    "map off_cpu_duration (ts_off_cpu_intervals s) = [-1, 30]"
proof -
  have "(case temporal_run analysis_limits_default sample_trace of Inl _ \<Rightarrow> False
      | Inr s \<Rightarrow> map off_cpu_duration (ts_off_cpu_intervals s) = [-1, 30])"
    by code_simp
  then show thesis using that by (cases "temporal_run analysis_limits_default sample_trace") auto
qed

theorem off_cpu_conserved_witness:
  "\<exists>r. analyze_temporal sample_trace analysis_limits_default trace_limits_default = Inr r \<and>
     sum_list (map os_total_complete_interval_count (oa_threads (tr_off_cpu r)))
       = oa_total_complete_interval_count (tr_off_cpu r)"
proof -
  obtain r where r: "analyze_temporal sample_trace analysis_limits_default trace_limits_default = Inr r"
    by (rule sample_analysis)
  from off_cpu_conserved [OF trace_limits_default_wf r] r show ?thesis by blast
qed

theorem scheduler_conserved_witness:
  "\<exists>r. analyze_temporal sample_trace analysis_limits_default trace_limits_default = Inr r \<and>
     sum_list (map (\<lambda>x. dd_sample_count (ss_runtime x)) (sa_threads (tr_scheduler r)))
       = sa_runtime_interval_count (tr_scheduler r)"
proof -
  obtain r where r: "analyze_temporal sample_trace analysis_limits_default trace_limits_default = Inr r"
    by (rule sample_analysis)
  from scheduler_conserved [OF trace_limits_default_wf r] r show ?thesis by blast
qed

theorem temporal_intervals_wf_witness:
  "\<exists>r. analyze_temporal sample_trace analysis_limits_default trace_limits_default = Inr r \<and>
     (\<forall>i \<in> set (oa_worst_intervals (tr_off_cpu r)). off_cpu_ok (trace_tids sample_trace) i)"
proof -
  obtain r where r: "analyze_temporal sample_trace analysis_limits_default trace_limits_default = Inr r"
    by (rule sample_analysis)
  from temporal_intervals_wf [OF trace_limits_default_wf r] r show ?thesis by blast
qed

theorem off_cpu_worst_first_witness:
  "\<exists>r. analyze_temporal sample_trace analysis_limits_default trace_limits_default = Inr r \<and>
     length (oa_worst_intervals (tr_off_cpu r)) = 2"
proof -
  obtain r where r: "analyze_temporal sample_trace analysis_limits_default trace_limits_default = Inr r"
    by (rule sample_analysis)
  obtain s where s: "temporal_run analysis_limits_default sample_trace = Inr s"
    "map off_cpu_duration (ts_off_cpu_intervals s) = [-1, 30]"
    by (rule sample_off_cpu)
  from s(2) have "length (ts_off_cpu_intervals s) = 2" by (metis length_map list.size(3,4) Suc_1 One_nat_def add_Suc_right add_0_right)
  with off_cpu_worst_first [OF trace_limits_default_wf r s(1)] r show ?thesis
    by (simp add: analysis_limits_default_def)
qed

end
