(* ===== verification/Projection.thy ===== *)
theory Projection
  imports Prelude
begin

text \<open>
  Projection tables. The analyzers group observations by a key (a lock, a thread, a call
  path, an outcome) into one accumulator per key, in the order in which the keys first
  appear. \<open>project_table\<close> is that grouping; the locale states when a quantity read off the
  accumulators is conserved by it.
\<close>

definition project_step ::
  "'acc \<Rightarrow> ('obs \<Rightarrow> 'acc \<Rightarrow> 'acc) \<Rightarrow> ('obs \<Rightarrow> 'k) \<Rightarrow> 'obs \<Rightarrow> ('k, 'acc) dict \<Rightarrow> ('k, 'acc) dict" where
  "project_step e add key ob = dict_modify (key ob) e (add ob)"

definition project_table ::
  "'acc \<Rightarrow> ('obs \<Rightarrow> 'acc \<Rightarrow> 'acc) \<Rightarrow> ('obs \<Rightarrow> 'k) \<Rightarrow> 'obs list \<Rightarrow> ('k, 'acc) dict" where
  "project_table e add key obs = fold (project_step e add key) obs []"

lemma project_table_Nil [simp]: "project_table e add key [] = []"
  by (simp add: project_table_def)

lemma project_table_snoc [simp]:
  "project_table e add key (obs @ [ob]) = dict_modify (key ob) e (add ob) (project_table e add key obs)"
  by (simp add: project_table_def project_step_def)

lemma dict_wf_project_table [simp]: "dict_wf (project_table e add key obs)"
  by (induction obs rule: rev_induct) auto

lemma keys_project_table: "fst ` set (project_table e add key obs) = key ` set obs"
  by (induction obs rule: rev_induct) (auto simp: keys_dict_modify)

lemma get_project_table:
  "dict_get_or e (project_table e add key obs) k = fold add (filter (\<lambda>ob. key ob = k) obs) e"
  by (induction obs rule: rev_induct) (auto simp: dict_get_or_modify)

text \<open>Each row of the table is the accumulation of exactly the observations with its key.\<close>

lemma lookup_project_table:
  "map_of (project_table e add key obs) k =
     (if k \<in> key ` set obs then Some (fold add (filter (\<lambda>ob. key ob = k) obs) e) else None)"
proof (cases "k \<in> key ` set obs")
  case True
  then have "map_of (project_table e add key obs) k \<noteq> None"
    by (simp add: map_of_eq_None_iff keys_project_table)
  then show ?thesis
    using get_project_table [of e add key obs k] True by (auto simp: dict_get_or_def)
next
  case False
  then show ?thesis
    by (simp add: map_of_eq_None_iff keys_project_table)
qed

text \<open>
  A measure of the accumulators that starts at zero and grows by a weight that only depends
  on the observation is conserved: summed over the rows it is the total weight, whatever the
  key.
\<close>

locale conserved_measure =
  fixes empty :: "'acc"
    and add :: "'obs \<Rightarrow> 'acc \<Rightarrow> 'acc"
    and measure :: "'acc \<Rightarrow> int"
    and weight :: "'obs \<Rightarrow> int"
  assumes measure_empty: "measure empty = 0"
    and measure_add: "measure (add ob a) = measure a + weight ob"
begin

lemma measure_fold: "measure (fold add obs a) = measure a + sum_list (map weight obs)"
  by (induction obs arbitrary: a) (auto simp: measure_add)

lemma conserved: "dict_sum measure (project_table empty add key obs) = sum_list (map weight obs)"
  by (induction obs rule: rev_induct) (auto simp: dict_sum_modify measure_empty measure_add)

lemma conserved_sorted:
  "dict_sum measure (sort_key h (project_table empty add key obs)) = sum_list (map weight obs)"
  by (simp add: conserved)

lemma row_measure:
  "(k, a) \<in> set (project_table empty add key obs) \<Longrightarrow>
     measure a = sum_list (map weight (filter (\<lambda>ob. key ob = k) obs))"
proof -
  assume "(k, a) \<in> set (project_table empty add key obs)"
  then have "map_of (project_table empty add key obs) k = Some a"
    by simp
  then have "a = fold add (filter (\<lambda>ob. key ob = k) obs) empty"
    by (simp add: lookup_project_table split: if_splits)
  then show ?thesis by (simp add: measure_fold measure_empty)
qed

end

end
