(* ===== verification/LockModel.thy ===== *)
theory LockModel
  imports TraceSequence Durations Accounting Projection
begin

text \<open>
  The lock analyzer of \<open>src/src/perflens/domain/trace_lock_analysis.py\<close>. The local variables
  of \<open>analyze_locks\<close> are the fields of \<open>lock_state\<close>; its nested functions are operations on
  that record, and the branches of its event loop are one definition each. The module
  repeats the accounting builder and the distribution of the temporal analyzer; the
  repetitions are modelled as they are written.
\<close>

section \<open>Data\<close>

datatype lock_quality_status = LQ_COMPLETE | LQ_PARTIAL

datatype owner_evidence = OE_TARGET | OE_FOREIGN_REDACTED | OE_UNAVAILABLE

datatype candidate_action = CA_WAIT | CA_WAKE

datatype lock_pairing_phase = LP_WAIT | LP_HOLD

datatype lock_pairing_reason =
    LR_TRACE_START_BOUNDARY | LR_TRACE_END_BOUNDARY | LR_DUPLICATE_WAIT
  | LR_OVERLAPPING_ACQUIRE | LR_RELEASE_WITHOUT_ACQUIRE

record lock_analysis_limits =
  ll_max_intervals :: int
  ll_max_worst_intervals :: int
  ll_max_incomplete_intervals :: int
  ll_max_candidate_observations :: int
  ll_max_projection_rows :: int
  ll_max_event_ids :: int
  ll_max_warnings :: int

record exact_lock_wait_interval =
  lw_tid :: int
  lw_lock_id :: string
  lw_wait_timestamp_ns :: int
  lw_wait_end_timestamp_ns :: int
  lw_duration_ns :: int
  lw_wait_event_id :: string
  lw_wait_end_event_id :: string
  lw_outcome :: lock_wait_outcome
  lw_owner_evidence :: owner_evidence
  lw_owner_tid :: "int option"
  lw_path :: "string list"

record exact_lock_hold_interval =
  lh_tid :: int
  lh_lock_id :: string
  lh_acquired_timestamp_ns :: int
  lh_released_timestamp_ns :: int
  lh_duration_ns :: int
  lh_acquired_event_id :: string
  lh_released_event_id :: string
  lh_path :: "string list"

record user_lock_wait_candidate =
  uc_tid :: int
  uc_lock_id :: string
  uc_timestamp_ns :: int
  uc_action :: candidate_action
  uc_event_id :: string
  uc_path :: "string list"
  uc_source :: string

record lock_pairing_issue =
  pi_tid :: int
  pi_lock_id :: string
  pi_phase :: lock_pairing_phase
  pi_reason :: lock_pairing_reason
  pi_event_ids :: "string list"

record lock_wait_outcome_count =
  woc_outcome :: lock_wait_outcome
  woc_count :: int

text \<open>
  \<open>LockAggregate\<close>, \<open>LockThreadAggregate\<close> and \<open>LockPathAggregate\<close> differ in their key only
  (\<open>path_resolved\<close> is the truth value of the path): one record over the type of the key.
\<close>

record 'k lock_aggregate =
  ag_key :: 'k
  ag_exact_wait :: duration_distribution
  ag_exact_hold :: duration_distribution
  ag_wait_outcomes :: "lock_wait_outcome_count list"
  ag_candidate_wait_count :: int
  ag_candidate_wake_count :: int

record lock_analysis =
  an_target :: "target_identity option"
  an_quality_status :: lock_quality_status
  an_exact_wait :: duration_distribution
  an_exact_hold :: duration_distribution
  an_exact_wait_interval_count :: int
  an_exact_hold_interval_count :: int
  an_wait_outcomes :: "lock_wait_outcome_count list"
  an_candidate_wait_event_count :: int
  an_candidate_wake_event_count :: int
  an_incomplete_pairing_count :: int
  an_locks :: "string lock_aggregate list"
  an_threads :: "int lock_aggregate list"
  an_paths :: "(string list) lock_aggregate list"
  an_worst_wait_intervals :: "exact_lock_wait_interval list"
  an_worst_hold_intervals :: "exact_lock_hold_interval list"
  an_incomplete_pairings :: "lock_pairing_issue list"
  an_incomplete_pairings_truncated :: bool
  an_candidate_observations :: "user_lock_wait_candidate list"
  an_candidate_observations_truncated :: bool
  an_event_accounting :: event_accounting
  an_projection_conservation_passed :: bool

record projection_values =
  pv_waits :: "int list"
  pv_holds :: "int list"
  pv_wait_outcomes :: "(lock_wait_outcome, int) dict"
  pv_candidate_wait_count :: int
  pv_candidate_wake_count :: int

record lock_accounting_builder =
  lb_order :: "string list"
  lb_status :: "(string, event_status) dict"
  lb_warning_count :: int
  lb_warnings :: "analysis_warning list"

record lock_state =
  la_acct :: lock_accounting_builder
  la_pending_waits :: "(int \<times> string, lock_event list) dict"
  la_active_holds :: "(int \<times> string, lock_event) dict"
  la_wait_intervals :: "exact_lock_wait_interval list"
  la_hold_intervals :: "exact_lock_hold_interval list"
  la_incomplete :: "lock_pairing_issue list"
  la_incomplete_count :: int
  la_candidates :: "user_lock_wait_candidate list"
  la_candidate_wait_count :: int
  la_candidate_wake_count :: int
  la_interval_count :: int
  la_lock_values :: "(string, projection_values) dict"
  la_thread_values :: "(int, projection_values) dict"
  la_path_values :: "(string list, projection_values) dict"

definition lock_limits_default :: lock_analysis_limits where
  "lock_limits_default =
     \<lparr>ll_max_intervals = 100000, ll_max_worst_intervals = 100, ll_max_incomplete_intervals = 100,
      ll_max_candidate_observations = 1000, ll_max_projection_rows = 65536,
      ll_max_event_ids = 1000, ll_max_warnings = 100\<rparr>"

definition lock_limits_post_init :: "lock_analysis_limits \<Rightarrow> unit result" where
  "lock_limits_post_init lim =
     raise_if (\<exists>v \<in> set [ll_max_intervals lim, ll_max_worst_intervals lim,
                 ll_max_incomplete_intervals lim, ll_max_candidate_observations lim,
                 ll_max_projection_rows lim, ll_max_event_ids lim, ll_max_warnings lim]. v < 1)
       (ValueError ''LockAnalysisLimits values must be positive'')"

fun outcome_value :: "lock_wait_outcome \<Rightarrow> string" where
  "outcome_value Outcome_ACQUIRED = ''acquired''"
| "outcome_value Outcome_TIMED_OUT = ''timed_out''"
| "outcome_value Outcome_INTERRUPTED = ''interrupted''"
| "outcome_value Outcome_FAILED = ''failed''"
| "outcome_value Outcome_UNKNOWN = ''unknown''"

definition all_outcomes :: "lock_wait_outcome list" where
  "all_outcomes = [Outcome_ACQUIRED, Outcome_TIMED_OUT, Outcome_INTERRUPTED, Outcome_FAILED, Outcome_UNKNOWN]"

definition empty_projection_values :: projection_values where
  "empty_projection_values =
     \<lparr>pv_waits = [], pv_holds = [], pv_wait_outcomes = [], pv_candidate_wait_count = 0,
      pv_candidate_wake_count = 0\<rparr>"

definition outcome_counts :: "projection_values \<Rightarrow> lock_wait_outcome_count list" where
  "outcome_counts v =
     map (\<lambda>(o1, n). \<lparr>woc_outcome = o1, woc_count = n\<rparr>)
       (sort_key (\<lambda>p. outcome_value (fst p)) (pv_wait_outcomes v))"

section \<open>The accounting builder of the lock analyzer\<close>

definition lock_acct_init :: lock_accounting_builder where
  "lock_acct_init = \<lparr>lb_order = [], lb_status = [], lb_warning_count = 0, lb_warnings = []\<rparr>"

definition lock_acct_observe :: "string \<Rightarrow> bool \<Rightarrow> lock_accounting_builder \<Rightarrow> lock_accounting_builder" where
  "lock_acct_observe i ignored b =
     b\<lparr>lb_order := lb_order b @ [i],
       lb_status := dict_set i (if ignored then St_IGNORED else St_OBSERVED) (lb_status b)\<rparr>"

definition lock_acct_consume_one :: "string \<Rightarrow> lock_accounting_builder \<Rightarrow> lock_accounting_builder result" where
  "lock_acct_consume_one i b =
     (case map_of (lb_status b) i of
        None \<Rightarrow> Inl KeyError
      | Some st \<Rightarrow>
          if st \<noteq> St_IGNORED then Inr (b\<lparr>lb_status := dict_set i St_CONSUMED (lb_status b)\<rparr>)
          else Inr b)"

definition lock_acct_consume :: "string list \<Rightarrow> lock_accounting_builder \<Rightarrow> lock_accounting_builder result" where
  "lock_acct_consume = foldE lock_acct_consume_one"

definition lock_acct_unpaired_one :: "string \<Rightarrow> lock_accounting_builder \<Rightarrow> lock_accounting_builder result" where
  "lock_acct_unpaired_one i b =
     (case map_of (lb_status b) i of
        None \<Rightarrow> Inl KeyError
      | Some st \<Rightarrow>
          if st = St_OBSERVED then Inr (b\<lparr>lb_status := dict_set i St_UNPAIRED (lb_status b)\<rparr>)
          else Inr b)"

definition lock_acct_unpaired :: "string list \<Rightarrow> lock_accounting_builder \<Rightarrow> lock_accounting_builder result" where
  "lock_acct_unpaired = foldE lock_acct_unpaired_one"

definition lock_acct_warn ::
  "lock_analysis_limits \<Rightarrow> string \<Rightarrow> string \<Rightarrow> string option \<Rightarrow> int
     \<Rightarrow> lock_accounting_builder \<Rightarrow> lock_accounting_builder" where
  "lock_acct_warn lim code message eid tid b =
     b\<lparr>lb_warning_count := lb_warning_count b + 1,
       lb_warnings :=
         (if int (length (lb_warnings b)) < ll_max_warnings lim
          then lb_warnings b @
            [\<lparr>aw_code = code, aw_message = message, aw_event_id = eid, aw_tid = Some tid\<rparr>]
          else lb_warnings b)\<rparr>"

definition lock_event_ids ::
  "int \<Rightarrow> string list \<Rightarrow> (string, event_status) dict \<Rightarrow> event_status \<Rightarrow> event_id_ledger" where
  "lock_event_ids max_event_ids order m st =
     (let ids = filter (\<lambda>i. map_of m i = Some st) order;
          sample = take (nat max_event_ids) ids
      in \<lparr>el_total_count = int (length ids), el_ids = sample,
          el_all_event_ids_sha256 = event_id_ledger_sha256 ids,
          el_truncated = int (length ids) > int (length sample)\<rparr>)"

definition lock_acct_finish :: "lock_analysis_limits \<Rightarrow> lock_accounting_builder \<Rightarrow> event_accounting result" where
  "lock_acct_finish lim b =
     (let m = map (\<lambda>(i, st). (i, if st = St_OBSERVED then St_UNPAIRED else st)) (lb_status b);
          ledger = lock_event_ids (ll_max_event_ids lim) (lb_order b) m;
          accounting =
            \<lparr>ea_observed_event_count = int (length (lb_order b)),
             ea_consumed = ledger St_CONSUMED,
             ea_unpaired = ledger St_UNPAIRED,
             ea_ignored = ledger St_IGNORED,
             ea_warning_count = lb_warning_count b,
             ea_warnings = lb_warnings b,
             ea_warnings_truncated = lb_warning_count b > int (length (lb_warnings b))\<rparr>;
          categorized = el_total_count (ea_consumed accounting) + el_total_count (ea_unpaired accounting)
            + el_total_count (ea_ignored accounting)
      in bindE (raise_if (categorized \<noteq> ea_observed_event_count accounting)
           (ValueError ''lock event accounting is not conserved'')) (\<lambda>_.
         Inr accounting))"

section \<open>Helpers\<close>

definition lock_distribution :: "int list \<Rightarrow> duration_distribution result" where
  "lock_distribution values =
     (if values = [] then
        Inr \<lparr>dd_sample_count = 0, dd_total_ns = 0, dd_minimum_ns = 0, dd_mean_ns = 0,
             dd_p50_ns = None, dd_p95_ns = None, dd_p99_ns = None, dd_max_ns = None\<rparr>
      else let total = sum_list values in
        bindE (nearest_rank_percentile values 50) (\<lambda>p50.
        bindE (nearest_rank_percentile values 95) (\<lambda>p95.
        bindE (nearest_rank_percentile values 99) (\<lambda>p99.
        Inr \<lparr>dd_sample_count = int (length values), dd_total_ns = total,
             dd_minimum_ns = Min (set values), dd_mean_ns = total div int (length values),
             dd_p50_ns = Some p50, dd_p95_ns = Some p95, dd_p99_ns = Some p99,
             dd_max_ns = Some (Max (set values))\<rparr>))))"

definition lock_owner :: "lock_event \<Rightarrow> (owner_evidence \<times> int option) result" where
  "lock_owner e =
     (case (lk_owner e, lk_owner_scope e) of
        (Some owner, Some Scope_TARGET) \<Rightarrow>
          (case task_tid owner of
             None \<Rightarrow> Inl (ValueError ''target lock owner identity was redacted'')
           | Some t \<Rightarrow> Inr (OE_TARGET, Some t))
      | (Some _, Some Scope_FOREIGN) \<Rightarrow> Inr (OE_FOREIGN_REDACTED, None)
      | _ \<Rightarrow> Inr (OE_UNAVAILABLE, None))"

definition candidate_from_futex :: "futex_event \<Rightarrow> user_lock_wait_candidate result" where
  "candidate_from_futex e =
     (case task_tid (fx_task e) of
        None \<Rightarrow> Inl (ValueError ''target futex task identity was redacted'')
      | Some t \<Rightarrow> Inr
          \<lparr>uc_tid = t, uc_lock_id = fx_futex_id e, uc_timestamp_ns = te_timestamp_ns e,
           uc_action = (if fx_action e = Futex_WAIT then CA_WAIT else CA_WAKE),
           uc_event_id = te_event_id e, uc_path = te_stack e,
           uc_source = ''user_lock_wait_candidate''\<rparr>)"

definition candidate_from_lock :: "lock_event \<Rightarrow> user_lock_wait_candidate result" where
  "candidate_from_lock e =
     (case task_tid (lk_task e) of
        None \<Rightarrow> Inl (ValueError ''target lock task identity was redacted'')
      | Some t \<Rightarrow> Inr
          \<lparr>uc_tid = t, uc_lock_id = lk_lock_id e, uc_timestamp_ns = te_timestamp_ns e,
           uc_action = CA_WAIT, uc_event_id = te_event_id e, uc_path = te_stack e,
           uc_source = ''user_lock_wait_candidate''\<rparr>)"

definition lock_state_init :: lock_state where
  "lock_state_init =
     \<lparr>la_acct = lock_acct_init, la_pending_waits = [], la_active_holds = [],
      la_wait_intervals = [], la_hold_intervals = [], la_incomplete = [], la_incomplete_count = 0,
      la_candidates = [], la_candidate_wait_count = 0, la_candidate_wake_count = 0,
      la_interval_count = 0, la_lock_values = [], la_thread_values = [], la_path_values = []\<rparr>"

definition lock_reserve_interval :: "lock_analysis_limits \<Rightarrow> lock_state \<Rightarrow> lock_state result" where
  "lock_reserve_interval lim s =
     bindE (raise_if (la_interval_count s + 1 > ll_max_intervals lim)
       (ValueError ''lock analysis interval count exceeds max_intervals'')) (\<lambda>_.
     Inr (s\<lparr>la_interval_count := la_interval_count s + 1\<rparr>))"

text \<open>\<open>projection\<close> followed by an update of the row, in each of the three tables.\<close>

definition update_projections ::
  "string \<Rightarrow> int \<Rightarrow> string list \<Rightarrow> (projection_values \<Rightarrow> projection_values) \<Rightarrow> lock_state \<Rightarrow> lock_state" where
  "update_projections lock_id tid path f s =
     s\<lparr>la_lock_values := dict_modify lock_id empty_projection_values f (la_lock_values s),
       la_thread_values := dict_modify tid empty_projection_values f (la_thread_values s),
       la_path_values := dict_modify path empty_projection_values f (la_path_values s)\<rparr>"

definition record_wait :: "int \<Rightarrow> lock_wait_outcome \<Rightarrow> projection_values \<Rightarrow> projection_values" where
  "record_wait d outcome v =
     v\<lparr>pv_waits := pv_waits v @ [d],
       pv_wait_outcomes := dict_modify outcome 0 (\<lambda>n. n + 1) (pv_wait_outcomes v)\<rparr>"

definition record_hold :: "int \<Rightarrow> projection_values \<Rightarrow> projection_values" where
  "record_hold d v = v\<lparr>pv_holds := pv_holds v @ [d]\<rparr>"

definition record_candidate :: "candidate_action \<Rightarrow> projection_values \<Rightarrow> projection_values" where
  "record_candidate a v =
     (case a of
        CA_WAIT \<Rightarrow> v\<lparr>pv_candidate_wait_count := pv_candidate_wait_count v + 1\<rparr>
      | CA_WAKE \<Rightarrow> v\<lparr>pv_candidate_wake_count := pv_candidate_wake_count v + 1\<rparr>)"

definition add_projection_wait ::
  "string \<Rightarrow> int \<Rightarrow> string list \<Rightarrow> int \<Rightarrow> lock_wait_outcome \<Rightarrow> lock_state \<Rightarrow> lock_state" where
  "add_projection_wait lock_id tid path d outcome = update_projections lock_id tid path (record_wait d outcome)"

definition add_projection_hold :: "string \<Rightarrow> int \<Rightarrow> string list \<Rightarrow> int \<Rightarrow> lock_state \<Rightarrow> lock_state" where
  "add_projection_hold lock_id tid path d = update_projections lock_id tid path (record_hold d)"

definition add_projection_candidate :: "user_lock_wait_candidate \<Rightarrow> lock_state \<Rightarrow> lock_state" where
  "add_projection_candidate c =
     update_projections (uc_lock_id c) (uc_tid c) (uc_path c) (record_candidate (uc_action c))"

definition add_incomplete ::
  "lock_analysis_limits \<Rightarrow> int \<Rightarrow> string \<Rightarrow> lock_pairing_phase \<Rightarrow> lock_pairing_reason \<Rightarrow> string list
     \<Rightarrow> lock_state \<Rightarrow> lock_state" where
  "add_incomplete lim tid lock_id phase reason ids s =
     s\<lparr>la_incomplete_count := la_incomplete_count s + 1,
       la_incomplete :=
         (if int (length (la_incomplete s)) < ll_max_incomplete_intervals lim
          then la_incomplete s @
            [\<lparr>pi_tid = tid, pi_lock_id = lock_id, pi_phase = phase, pi_reason = reason, pi_event_ids = ids\<rparr>]
          else la_incomplete s)\<rparr>"

definition lock_mark_consumed :: "string list \<Rightarrow> lock_state \<Rightarrow> lock_state result" where
  "lock_mark_consumed ids s = bindE (lock_acct_consume ids (la_acct s)) (\<lambda>b. Inr (s\<lparr>la_acct := b\<rparr>))"

definition lock_mark_unpaired :: "string list \<Rightarrow> lock_state \<Rightarrow> lock_state result" where
  "lock_mark_unpaired ids s = bindE (lock_acct_unpaired ids (la_acct s)) (\<lambda>b. Inr (s\<lparr>la_acct := b\<rparr>))"

definition lock_warn ::
  "lock_analysis_limits \<Rightarrow> string \<Rightarrow> string \<Rightarrow> string option \<Rightarrow> int \<Rightarrow> lock_state \<Rightarrow> lock_state" where
  "lock_warn lim code message eid tid s =
     s\<lparr>la_acct := lock_acct_warn lim code message eid tid (la_acct s)\<rparr>"

definition add_candidate ::
  "lock_analysis_limits \<Rightarrow> user_lock_wait_candidate \<Rightarrow> lock_state \<Rightarrow> lock_state result" where
  "add_candidate lim c s =
     (let s = (if uc_action c = CA_WAIT
               then s\<lparr>la_candidate_wait_count := la_candidate_wait_count s + 1\<rparr>
               else s\<lparr>la_candidate_wake_count := la_candidate_wake_count s + 1\<rparr>);
          s = (if int (length (la_candidates s)) < ll_max_candidate_observations lim
               then s\<lparr>la_candidates := la_candidates s @ [c]\<rparr> else s)
      in lock_mark_consumed [uc_event_id c] (add_projection_candidate c s))"

section \<open>The event loop\<close>

definition observe_lock_wait :: "lock_analysis_limits \<Rightarrow> lock_event \<Rightarrow> int \<Rightarrow> lock_state \<Rightarrow> lock_state result" where
  "observe_lock_wait lim e tid s =
     (let key = (tid, lk_lock_id e);
          waits = dict_get_or [] (la_pending_waits s) key @ [e];
          s = s\<lparr>la_pending_waits := dict_set key waits (la_pending_waits s)\<rparr>
      in if length waits > 1 then
           bindE (lock_mark_unpaired (map te_event_id waits) s) (\<lambda>s.
           Inr (lock_warn lim ''duplicate_lock_wait''
             ''multiple exact waits precede one acquire; wait duration is ambiguous''
             (Some (te_event_id e)) tid s))
         else Inr s)"

definition lock_wait_interval ::
  "lock_event \<Rightarrow> int \<Rightarrow> lock_event \<Rightarrow> lock_wait_outcome \<Rightarrow> owner_evidence \<times> int option \<Rightarrow> exact_lock_wait_interval" where
  "lock_wait_interval e tid wait outcome owner =
     \<lparr>lw_tid = tid, lw_lock_id = lk_lock_id e, lw_wait_timestamp_ns = te_timestamp_ns wait,
      lw_wait_end_timestamp_ns = te_timestamp_ns e,
      lw_duration_ns = te_timestamp_ns e - te_timestamp_ns wait,
      lw_wait_event_id = te_event_id wait, lw_wait_end_event_id = te_event_id e,
      lw_outcome = outcome, lw_owner_evidence = fst owner, lw_owner_tid = snd owner,
      lw_path = te_stack wait\<rparr>"

definition close_lock_wait ::
  "lock_analysis_limits \<Rightarrow> lock_event \<Rightarrow> int \<Rightarrow> lock_wait_outcome \<Rightarrow> lock_state \<Rightarrow> lock_state result" where
  "close_lock_wait lim e tid outcome s =
     (let key = (tid, lk_lock_id e);
          waits = dict_get_or [] (la_pending_waits s) key;
          s = s\<lparr>la_pending_waits := dict_pop key (la_pending_waits s)\<rparr>
      in (case waits of
            [] \<Rightarrow>
              bindE (lock_mark_unpaired [te_event_id e] s) (\<lambda>s.
              Inr (add_incomplete lim tid (lk_lock_id e) LP_WAIT LR_TRACE_START_BOUNDARY [te_event_id e] s))
          | [wait] \<Rightarrow>
              bindE (lock_reserve_interval lim s) (\<lambda>s.
              bindE (lock_owner wait) (\<lambda>owner.
              let i = lock_wait_interval e tid wait outcome owner;
                  s = s\<lparr>la_wait_intervals := la_wait_intervals s @ [i]\<rparr>;
                  s = add_projection_wait (lk_lock_id e) tid (te_stack wait)
                        (te_timestamp_ns e - te_timestamp_ns wait) outcome s
              in lock_mark_consumed [te_event_id wait, te_event_id e] s))
          | _ # _ # _ \<Rightarrow>
              let ids = map te_event_id waits @ [te_event_id e] in
              bindE (lock_mark_unpaired ids s) (\<lambda>s.
              Inr (add_incomplete lim tid (lk_lock_id e) LP_WAIT LR_DUPLICATE_WAIT ids s))))"

definition open_lock_hold :: "lock_analysis_limits \<Rightarrow> lock_event \<Rightarrow> int \<Rightarrow> lock_state \<Rightarrow> lock_state result" where
  "open_lock_hold lim e tid s =
     (let key = (tid, lk_lock_id e);
          previous = map_of (la_active_holds s) key;
          s = s\<lparr>la_active_holds := dict_pop key (la_active_holds s)\<rparr>
      in (case previous of
            Some p \<Rightarrow>
              bindE (lock_mark_unpaired [te_event_id p, te_event_id e] s) (\<lambda>s.
              let s = add_incomplete lim tid (lk_lock_id e) LP_HOLD LR_OVERLAPPING_ACQUIRE
                        [te_event_id p, te_event_id e] s
              in Inr (lock_warn lim ''overlapping_lock_acquire''
                   ''a second acquire arrived before the prior hold was released''
                   (Some (te_event_id e)) tid s))
          | None \<Rightarrow> Inr (s\<lparr>la_active_holds := dict_set key e (la_active_holds s)\<rparr>)))"

definition lock_hold_interval :: "lock_event \<Rightarrow> int \<Rightarrow> lock_event \<Rightarrow> exact_lock_hold_interval" where
  "lock_hold_interval e tid acquire =
     \<lparr>lh_tid = tid, lh_lock_id = lk_lock_id e, lh_acquired_timestamp_ns = te_timestamp_ns acquire,
      lh_released_timestamp_ns = te_timestamp_ns e,
      lh_duration_ns = te_timestamp_ns e - te_timestamp_ns acquire,
      lh_acquired_event_id = te_event_id acquire, lh_released_event_id = te_event_id e,
      lh_path = te_stack acquire\<rparr>"

definition close_lock_hold :: "lock_analysis_limits \<Rightarrow> lock_event \<Rightarrow> int \<Rightarrow> lock_state \<Rightarrow> lock_state result" where
  "close_lock_hold lim e tid s =
     (let key = (tid, lk_lock_id e);
          acquire = map_of (la_active_holds s) key;
          s = s\<lparr>la_active_holds := dict_pop key (la_active_holds s)\<rparr>
      in (case acquire of
            None \<Rightarrow>
              bindE (lock_mark_unpaired [te_event_id e] s) (\<lambda>s.
              let s = add_incomplete lim tid (lk_lock_id e) LP_HOLD LR_RELEASE_WITHOUT_ACQUIRE [te_event_id e] s
              in Inr (lock_warn lim ''release_without_acquire''
                   ''release has no matching acquire; hold duration is unavailable''
                   (Some (te_event_id e)) tid s))
          | Some a \<Rightarrow>
              bindE (lock_reserve_interval lim s) (\<lambda>s.
              let s = s\<lparr>la_hold_intervals := la_hold_intervals s @ [lock_hold_interval e tid a]\<rparr>;
                  s = add_projection_hold (lk_lock_id e) tid (te_stack a)
                        (te_timestamp_ns e - te_timestamp_ns a) s
              in lock_mark_consumed [te_event_id a, te_event_id e] s)))"

definition end_lock_wait ::
  "lock_analysis_limits \<Rightarrow> lock_event \<Rightarrow> int \<Rightarrow> lock_wait_outcome option \<Rightarrow> lock_state \<Rightarrow> lock_state result" where
  "end_lock_wait lim e tid outcome s =
     (case outcome of
        None \<Rightarrow> Inl (ValueError ''lock wait-ended event omits its outcome'')
      | Some outcome \<Rightarrow>
          bindE (close_lock_wait lim e tid outcome s) (\<lambda>s.
          if outcome \<noteq> Outcome_ACQUIRED then Inr s else open_lock_hold lim e tid s))"

definition handle_lock :: "lock_analysis_limits \<Rightarrow> lock_event \<Rightarrow> lock_state \<Rightarrow> lock_state result" where
  "handle_lock lim e s =
     (case task_tid (lk_task e) of
        None \<Rightarrow> Inl (ValueError ''target lock task identity was redacted'')
      | Some tid \<Rightarrow>
          (case lk_action e of
             Lock_WAIT \<Rightarrow>
               if te_semantics e = Sem_CANDIDATE
               then bindE (candidate_from_lock e) (\<lambda>c. add_candidate lim c s)
               else observe_lock_wait lim e tid s
           | Lock_ACQUIRED \<Rightarrow> end_lock_wait lim e tid (Some Outcome_ACQUIRED) s
           | Lock_WAIT_ENDED \<Rightarrow> end_lock_wait lim e tid (lk_wait_outcome e) s
           | Lock_RELEASED \<Rightarrow> close_lock_hold lim e tid s))"

fun is_sched_event :: "trace_event \<Rightarrow> bool" where
  "is_sched_event (SchedSwitch _) = True"
| "is_sched_event (SchedWakeup _) = True"
| "is_sched_event (SchedMigrate _) = True"
| "is_sched_event _ = False"

definition lock_observe :: "trace_event \<Rightarrow> bool \<Rightarrow> lock_state \<Rightarrow> lock_state" where
  "lock_observe e ignored s = s\<lparr>la_acct := lock_acct_observe (ev_id e) ignored (la_acct s)\<rparr>"

definition lock_step :: "lock_analysis_limits \<Rightarrow> trace_event \<Rightarrow> lock_state \<Rightarrow> lock_state result" where
  "lock_step lim e s0 =
     (let s = lock_observe e (is_sched_event e) s0 in
      (case e of
         Futex x \<Rightarrow> bindE (candidate_from_futex x) (\<lambda>c. add_candidate lim c s)
       | Lock x \<Rightarrow> handle_lock lim x s
       | _ \<Rightarrow> Inr s))"

definition end_pending_wait ::
  "lock_analysis_limits \<Rightarrow> (int \<times> string) \<times> lock_event list \<Rightarrow> lock_state \<Rightarrow> lock_state result" where
  "end_pending_wait lim p s =
     (case p of ((tid, lock_id), waits) \<Rightarrow>
        let ids = map te_event_id waits in
        bindE (lock_mark_unpaired ids s) (\<lambda>s.
        let s = add_incomplete lim tid lock_id LP_WAIT
                  (if length waits > 1 then LR_DUPLICATE_WAIT else LR_TRACE_END_BOUNDARY) ids s
        in (case ids of
              [] \<Rightarrow> Inl IndexError
            | i # _ \<Rightarrow>
                Inr (lock_warn lim ''unclosed_lock_wait''
                  ''exact wait did not reach an acquire before the trace ended'' (Some i) tid s))))"

definition end_active_hold ::
  "lock_analysis_limits \<Rightarrow> (int \<times> string) \<times> lock_event \<Rightarrow> lock_state \<Rightarrow> lock_state result" where
  "end_active_hold lim p s =
     (case p of ((tid, lock_id), acquire) \<Rightarrow>
        bindE (lock_mark_unpaired [te_event_id acquire] s) (\<lambda>s.
        let s = add_incomplete lim tid lock_id LP_HOLD LR_TRACE_END_BOUNDARY [te_event_id acquire] s
        in Inr (lock_warn lim ''unclosed_lock_hold''
             ''acquire did not reach a release; hold duration is unavailable''
             (Some (te_event_id acquire)) tid s)))"

definition lock_run :: "lock_analysis_limits \<Rightarrow> trace_event list \<Rightarrow> lock_state result" where
  "lock_run lim events =
     bindE (foldE (lock_step lim) events lock_state_init) (\<lambda>s.
     bindE (foldE (end_pending_wait lim) (sort_key fst (la_pending_waits s)) s) (\<lambda>s.
     foldE (end_active_hold lim) (sort_key fst (la_active_holds s)) s))"

section \<open>Results\<close>

definition lock_aggregate_row :: "'k \<times> projection_values \<Rightarrow> 'k lock_aggregate result" where
  "lock_aggregate_row p =
     (case p of (key, v) \<Rightarrow>
        bindE (lock_distribution (pv_waits v)) (\<lambda>w.
        bindE (lock_distribution (pv_holds v)) (\<lambda>h.
        Inr \<lparr>ag_key = key, ag_exact_wait = w, ag_exact_hold = h, ag_wait_outcomes = outcome_counts v,
             ag_candidate_wait_count = pv_candidate_wait_count v,
             ag_candidate_wake_count = pv_candidate_wake_count v\<rparr>)))"

definition path_resolved :: "(string list) lock_aggregate \<Rightarrow> bool" where
  "path_resolved row \<longleftrightarrow> ag_key row \<noteq> []"

definition projection_totals :: "'k lock_aggregate list \<Rightarrow> int list" where
  "projection_totals rows =
     [sum_list (map (\<lambda>r. dd_sample_count (ag_exact_wait r)) rows),
      sum_list (map (\<lambda>r. dd_total_ns (ag_exact_wait r)) rows),
      sum_list (map (\<lambda>r. dd_sample_count (ag_exact_hold r)) rows),
      sum_list (map (\<lambda>r. dd_total_ns (ag_exact_hold r)) rows),
      sum_list (map ag_candidate_wait_count rows),
      sum_list (map ag_candidate_wake_count rows)]"

definition global_outcome :: "exact_lock_wait_interval list \<Rightarrow> lock_wait_outcome \<Rightarrow> int" where
  "global_outcome waits outcome = int (length (filter (\<lambda>i. lw_outcome i = outcome) waits))"

definition projected_outcome :: "'k lock_aggregate list \<Rightarrow> lock_wait_outcome \<Rightarrow> int" where
  "projected_outcome rows outcome =
     sum_list (map woc_count (filter (\<lambda>i. woc_outcome i = outcome) (concat (map ag_wait_outcomes rows))))"

definition check_outcomes :: "exact_lock_wait_interval list \<Rightarrow> 'k lock_aggregate list \<Rightarrow> unit result" where
  "check_outcomes waits rows =
     checkE (\<lambda>outcome. raise_if (projected_outcome rows outcome \<noteq> global_outcome waits outcome)
       (ValueError ''lock wait outcomes are not conserved'')) all_outcomes"

definition wait_sort_key :: "exact_lock_wait_interval \<Rightarrow> int \<times> string \<times> int \<times> string" where
  "wait_sort_key i = (- lw_duration_ns i, lw_lock_id i, lw_tid i, lw_wait_event_id i)"

definition hold_sort_key :: "exact_lock_hold_interval \<Rightarrow> int \<times> string \<times> int \<times> string" where
  "hold_sort_key i = (- lh_duration_ns i, lh_lock_id i, lh_tid i, lh_acquired_event_id i)"

definition lock_quality :: "lock_state \<Rightarrow> lock_quality_status" where
  "lock_quality s =
     (if la_incomplete_count s \<noteq> 0 \<or> la_candidate_wait_count s \<noteq> 0 \<or> la_candidate_wake_count s \<noteq> 0
         \<or> global_outcome (la_wait_intervals s) Outcome_UNKNOWN \<noteq> 0
      then LQ_PARTIAL else LQ_COMPLETE)"

definition lock_expected_totals :: "duration_distribution \<Rightarrow> duration_distribution \<Rightarrow> lock_state \<Rightarrow> int list" where
  "lock_expected_totals w h s =
     [dd_sample_count w, dd_total_ns w, dd_sample_count h, dd_total_ns h,
      la_candidate_wait_count s, la_candidate_wake_count s]"

definition build_lock_analysis ::
  "lock_analysis_limits \<Rightarrow> target_identity option \<Rightarrow> lock_state \<Rightarrow> string lock_aggregate list
     \<Rightarrow> int lock_aggregate list \<Rightarrow> (string list) lock_aggregate list \<Rightarrow> duration_distribution
     \<Rightarrow> duration_distribution \<Rightarrow> event_accounting \<Rightarrow> lock_analysis" where
  "build_lock_analysis lim tgt s locks threads paths exact_wait exact_hold accounting =
     \<lparr>an_target = tgt,
      an_quality_status = lock_quality s,
      an_exact_wait = exact_wait,
      an_exact_hold = exact_hold,
      an_exact_wait_interval_count = int (length (la_wait_intervals s)),
      an_exact_hold_interval_count = int (length (la_hold_intervals s)),
      an_wait_outcomes =
        map (\<lambda>(outcome, n). \<lparr>woc_outcome = outcome, woc_count = n\<rparr>)
          (filter (\<lambda>p. snd p \<noteq> 0)
            (sort_key (\<lambda>p. outcome_value (fst p))
              (map (\<lambda>outcome. (outcome, global_outcome (la_wait_intervals s) outcome)) all_outcomes))),
      an_candidate_wait_event_count = la_candidate_wait_count s,
      an_candidate_wake_event_count = la_candidate_wake_count s,
      an_incomplete_pairing_count = la_incomplete_count s,
      an_locks = locks, an_threads = threads, an_paths = paths,
      an_worst_wait_intervals =
        take (nat (ll_max_worst_intervals lim)) (sort_key wait_sort_key (la_wait_intervals s)),
      an_worst_hold_intervals =
        take (nat (ll_max_worst_intervals lim)) (sort_key hold_sort_key (la_hold_intervals s)),
      an_incomplete_pairings = la_incomplete s,
      an_incomplete_pairings_truncated = la_incomplete_count s > int (length (la_incomplete s)),
      an_candidate_observations = la_candidates s,
      an_candidate_observations_truncated =
        la_candidate_wait_count s + la_candidate_wake_count s > int (length (la_candidates s)),
      an_event_accounting = accounting,
      an_projection_conservation_passed = True\<rparr>"

definition finish_lock_analysis ::
  "lock_analysis_limits \<Rightarrow> trace_validation_stats \<Rightarrow> target_identity option \<Rightarrow> lock_state \<Rightarrow> lock_analysis result" where
  "finish_lock_analysis lim validation tgt s =
     bindE (raise_if (int (length (la_lock_values s)) + int (length (la_thread_values s))
         + int (length (la_path_values s)) > ll_max_projection_rows lim)
       (ValueError ''lock projection rows exceed max_projection_rows'')) (\<lambda>_.
     bindE (mapE lock_aggregate_row (sort_key fst (la_lock_values s))) (\<lambda>locks.
     bindE (mapE lock_aggregate_row (sort_key fst (la_thread_values s))) (\<lambda>threads.
     bindE (mapE lock_aggregate_row (sort_key fst (la_path_values s))) (\<lambda>paths.
     bindE (lock_distribution (map lw_duration_ns (la_wait_intervals s))) (\<lambda>exact_wait.
     bindE (lock_distribution (map lh_duration_ns (la_hold_intervals s))) (\<lambda>exact_hold.
     let expected = lock_expected_totals exact_wait exact_hold s in
     bindE (raise_if (projection_totals locks \<noteq> expected \<or> projection_totals threads \<noteq> expected
         \<or> projection_totals paths \<noteq> expected)
       (ValueError ''lock/TID/path projections are not conserved'')) (\<lambda>_.
     bindE (check_outcomes (la_wait_intervals s) locks) (\<lambda>_.
     bindE (check_outcomes (la_wait_intervals s) threads) (\<lambda>_.
     bindE (check_outcomes (la_wait_intervals s) paths) (\<lambda>_.
     bindE (lock_acct_finish lim (la_acct s)) (\<lambda>accounting.
     bindE (raise_if (ea_observed_event_count accounting \<noteq> st_event_count validation)
       (ValueError ''lock analysis event accounting is not conserved'')) (\<lambda>_.
     Inr (build_lock_analysis lim tgt s locks threads paths exact_wait exact_hold accounting)))))))))))))"

definition analyze_locks ::
  "trace_event list \<Rightarrow> lock_analysis_limits option \<Rightarrow> trace_limits option \<Rightarrow> lock_analysis result" where
  "analyze_locks events limits resource_limits =
     (let lim = (case limits of None \<Rightarrow> lock_limits_default | Some l \<Rightarrow> l);
          rlim = (case resource_limits of None \<Rightarrow> trace_limits_default | Some l \<Rightarrow> l)
      in bindE (validate_trace_sequence events None None None (Some rlim)) (\<lambda>validation.
         bindE (lock_run lim events) (\<lambda>s.
         finish_lock_analysis lim validation
           (case events of [] \<Rightarrow> None | e # _ \<Rightarrow> Some (te_target (ev_base e))) s)))"

end
