(* ===== verification/LockInvariant.thy ===== *)
theory LockInvariant
  imports LockModel TemporalProofs
begin

text \<open>
  The invariant of the lock analyzer. A ghost list of observations ties the three
  projection tables to the interval lists: every table is the grouping of the same
  observations by lock, thread and path. The invariant carries two parameters: the set of
  identities that are momentarily not accounted for (the event being handled and the
  evidence taken out of the pending tables), and the number of observations the current
  event may still add.
\<close>

section \<open>The builder provides the ledger interface\<close>

lemma lock_consume_one_known:
  assumes "i \<in> dom (map_of (lb_status b))"
  shows "\<exists>b'. lock_acct_consume_one i b = Inr b' \<and> lb_order b' = lb_order b \<and>
    map_of (lb_status b') = consumed_status [i] (map_of (lb_status b))"
  using assms
  by (auto simp: lock_acct_consume_one_def consumed_status_def fun_eq_iff map_of_dict_set split: option.splits)

lemma lock_unpaired_one_known:
  assumes "i \<in> dom (map_of (lb_status b))"
  shows "\<exists>b'. lock_acct_unpaired_one i b = Inr b' \<and> lb_order b' = lb_order b \<and>
    map_of (lb_status b') = unpaired_status [i] (map_of (lb_status b))"
  using assms
  by (auto simp: lock_acct_unpaired_one_def unpaired_status_def fun_eq_iff map_of_dict_set split: option.splits)

interpretation lacct: event_ledger lb_order "\<lambda>b. map_of (lb_status b)" lock_acct_observe lock_acct_consume
  lock_acct_unpaired "\<lambda>(lim, code, msg, eid, tid). lock_acct_warn lim code msg eid tid"
proof unfold_locales
  fix ids b
  show "set ids \<subseteq> dom (map_of (lb_status b)) \<Longrightarrow>
      \<exists>b'. lock_acct_consume ids b = Inr b' \<and> lb_order b' = lb_order b \<and>
        map_of (lb_status b') = consumed_status ids (map_of (lb_status b))"
    unfolding lock_acct_consume_def by (rule consumed_list_known [OF lock_consume_one_known])
  show "set ids \<subseteq> dom (map_of (lb_status b)) \<Longrightarrow>
      \<exists>b'. lock_acct_unpaired ids b = Inr b' \<and> lb_order b' = lb_order b \<and>
        map_of (lb_status b') = unpaired_status ids (map_of (lb_status b))"
    unfolding lock_acct_unpaired_def by (rule unpaired_list_known [OF lock_unpaired_one_known])
qed (auto simp: lock_acct_observe_def lock_acct_warn_def update_conv')

section \<open>Observations and projections\<close>

datatype lock_obs =
    ObsWait exact_lock_wait_interval
  | ObsHold exact_lock_hold_interval
  | ObsCandidate user_lock_wait_candidate

fun obs_add :: "lock_obs \<Rightarrow> projection_values \<Rightarrow> projection_values" where
  "obs_add (ObsWait i) = record_wait (lw_duration_ns i) (lw_outcome i)"
| "obs_add (ObsHold i) = record_hold (lh_duration_ns i)"
| "obs_add (ObsCandidate c) = record_candidate (uc_action c)"

fun obs_lock :: "lock_obs \<Rightarrow> string" where
  "obs_lock (ObsWait i) = lw_lock_id i"
| "obs_lock (ObsHold i) = lh_lock_id i"
| "obs_lock (ObsCandidate c) = uc_lock_id c"

fun obs_tid :: "lock_obs \<Rightarrow> int" where
  "obs_tid (ObsWait i) = lw_tid i"
| "obs_tid (ObsHold i) = lh_tid i"
| "obs_tid (ObsCandidate c) = uc_tid c"

fun obs_path :: "lock_obs \<Rightarrow> string list" where
  "obs_path (ObsWait i) = lw_path i"
| "obs_path (ObsHold i) = lh_path i"
| "obs_path (ObsCandidate c) = uc_path c"

fun obs_wait :: "lock_obs \<Rightarrow> exact_lock_wait_interval option" where
  "obs_wait (ObsWait i) = Some i"
| "obs_wait _ = None"

fun obs_hold :: "lock_obs \<Rightarrow> exact_lock_hold_interval option" where
  "obs_hold (ObsHold i) = Some i"
| "obs_hold _ = None"

fun obs_candidate :: "candidate_action \<Rightarrow> lock_obs \<Rightarrow> bool" where
  "obs_candidate a (ObsCandidate c) = (uc_action c = a)"
| "obs_candidate a _ = False"

text \<open>The weights with which one observation enters each measured quantity.\<close>

definition wait_weight :: "(exact_lock_wait_interval \<Rightarrow> int) \<Rightarrow> lock_obs \<Rightarrow> int" where
  "wait_weight f ob = (case obs_wait ob of None \<Rightarrow> 0 | Some i \<Rightarrow> f i)"

definition hold_weight :: "(exact_lock_hold_interval \<Rightarrow> int) \<Rightarrow> lock_obs \<Rightarrow> int" where
  "hold_weight f ob = (case obs_hold ob of None \<Rightarrow> 0 | Some i \<Rightarrow> f i)"

definition candidate_weight :: "candidate_action \<Rightarrow> lock_obs \<Rightarrow> int" where
  "candidate_weight a ob = (if obs_candidate a ob then 1 else 0)"

lemmas projection_update_simps =
  record_wait_def record_hold_def record_candidate_def empty_projection_values_def
  wait_weight_def hold_weight_def candidate_weight_def

interpretation wait_samples: conserved_measure empty_projection_values obs_add
  "\<lambda>v. int (length (pv_waits v))" "wait_weight (\<lambda>_. 1)"
proof
  show "int (length (pv_waits (obs_add ob a))) = int (length (pv_waits a)) + wait_weight (\<lambda>_. 1) ob" for ob a
    by (cases ob) (auto simp: projection_update_simps split: candidate_action.split)
qed (simp add: empty_projection_values_def)

interpretation wait_time: conserved_measure empty_projection_values obs_add
  "\<lambda>v. sum_list (pv_waits v)" "wait_weight lw_duration_ns"
proof
  show "sum_list (pv_waits (obs_add ob a)) = sum_list (pv_waits a) + wait_weight lw_duration_ns ob" for ob a
    by (cases ob) (auto simp: projection_update_simps split: candidate_action.split)
qed (simp add: empty_projection_values_def)

interpretation hold_samples: conserved_measure empty_projection_values obs_add
  "\<lambda>v. int (length (pv_holds v))" "hold_weight (\<lambda>_. 1)"
proof
  show "int (length (pv_holds (obs_add ob a))) = int (length (pv_holds a)) + hold_weight (\<lambda>_. 1) ob" for ob a
    by (cases ob) (auto simp: projection_update_simps split: candidate_action.split)
qed (simp add: empty_projection_values_def)

interpretation hold_time: conserved_measure empty_projection_values obs_add
  "\<lambda>v. sum_list (pv_holds v)" "hold_weight lh_duration_ns"
proof
  show "sum_list (pv_holds (obs_add ob a)) = sum_list (pv_holds a) + hold_weight lh_duration_ns ob" for ob a
    by (cases ob) (auto simp: projection_update_simps split: candidate_action.split)
qed (simp add: empty_projection_values_def)

interpretation candidate_waits: conserved_measure empty_projection_values obs_add
  pv_candidate_wait_count "candidate_weight CA_WAIT"
proof
  show "pv_candidate_wait_count (obs_add ob a) = pv_candidate_wait_count a + candidate_weight CA_WAIT ob" for ob a
    by (cases ob) (auto simp: projection_update_simps split: candidate_action.split)
qed (simp add: empty_projection_values_def)

interpretation candidate_wakes: conserved_measure empty_projection_values obs_add
  pv_candidate_wake_count "candidate_weight CA_WAKE"
proof
  show "pv_candidate_wake_count (obs_add ob a) = pv_candidate_wake_count a + candidate_weight CA_WAKE ob" for ob a
    by (cases ob) (auto simp: projection_update_simps split: candidate_action.split)
qed (simp add: empty_projection_values_def)

interpretation outcome_total: conserved_measure empty_projection_values obs_add
  "\<lambda>v. dict_get_or 0 (pv_wait_outcomes v) outcome" "wait_weight (\<lambda>i. if lw_outcome i = outcome then 1 else 0)"
  for outcome
proof
  show "dict_get_or 0 (pv_wait_outcomes (obs_add ob a)) outcome =
      dict_get_or 0 (pv_wait_outcomes a) outcome + wait_weight (\<lambda>i. if lw_outcome i = outcome then 1 else 0) ob" for ob a
    by (cases ob) (auto simp: projection_update_simps dict_get_or_modify split: candidate_action.split)
qed (simp add: empty_projection_values_def)

lemma sum_wait_weight:
  "sum_list (map (wait_weight f) obs) = sum_list (map f (List.map_filter obs_wait obs))"
  by (induction obs) (auto simp: wait_weight_def List.map_filter_def split: option.split)

lemma sum_hold_weight:
  "sum_list (map (hold_weight f) obs) = sum_list (map f (List.map_filter obs_hold obs))"
  by (induction obs) (auto simp: hold_weight_def List.map_filter_def split: option.split)

lemma sum_candidate_weight:
  "sum_list (map (candidate_weight a) obs) = int (length (filter (obs_candidate a) obs))"
  by (induction obs) (auto simp: candidate_weight_def)

section \<open>Invariant\<close>

definition owner_ok :: "int set \<Rightarrow> lock_event \<Rightarrow> bool" where
  "owner_ok T w \<longleftrightarrow> (\<exists>ev otid. lock_owner w = Inr (ev, otid) \<and> set_option otid \<subseteq> T \<and>
     (ev \<noteq> OE_TARGET \<longrightarrow> otid = None))"

definition lock_wait_ok :: "int set \<Rightarrow> exact_lock_wait_interval \<Rightarrow> bool" where
  "lock_wait_ok T i \<longleftrightarrow> lw_tid i \<in> T \<and> 0 \<le> lw_duration_ns i \<and>
     lw_duration_ns i = lw_wait_end_timestamp_ns i - lw_wait_timestamp_ns i \<and>
     set_option (lw_owner_tid i) \<subseteq> T \<and> (lw_owner_evidence i \<noteq> OE_TARGET \<longrightarrow> lw_owner_tid i = None)"

definition lock_hold_ok :: "int set \<Rightarrow> exact_lock_hold_interval \<Rightarrow> bool" where
  "lock_hold_ok T i \<longleftrightarrow> lh_tid i \<in> T \<and> 0 \<le> lh_duration_ns i \<and>
     lh_duration_ns i = lh_released_timestamp_ns i - lh_acquired_timestamp_ns i"

definition pending_ok :: "string set \<Rightarrow> int \<Rightarrow> int set \<Rightarrow> (int \<times> string, lock_event list) dict \<Rightarrow> bool" where
  "pending_ok ids now T m \<longleftrightarrow> dict_wf m \<and>
     (\<forall>k ws. map_of m k = Some ws \<longrightarrow> fst k \<in> T \<and> ws \<noteq> [] \<and>
        (\<forall>w \<in> set ws. te_event_id w \<in> ids \<and> te_timestamp_ns w \<le> now \<and> owner_ok T w))"

definition holds_ok :: "string set \<Rightarrow> int \<Rightarrow> int set \<Rightarrow> (int \<times> string, lock_event) dict \<Rightarrow> bool" where
  "holds_ok ids now T m \<longleftrightarrow> dict_wf m \<and>
     (\<forall>k a. map_of m k = Some a \<longrightarrow> fst k \<in> T \<and> te_event_id a \<in> ids \<and> te_timestamp_ns a \<le> now)"

definition pending_ids :: "(int \<times> string, lock_event list) dict \<Rightarrow> string set" where
  "pending_ids m = {i. \<exists>k ws w. map_of m k = Some ws \<and> w \<in> set ws \<and> i = te_event_id w}"

definition hold_ids :: "(int \<times> string, lock_event) dict \<Rightarrow> string set" where
  "hold_ids m = {i. \<exists>k a. map_of m k = Some a \<and> i = te_event_id a}"

definition resolved :: "event_status option \<Rightarrow> bool" where
  "resolved st \<longleftrightarrow> st = Some St_CONSUMED \<or> st = Some St_IGNORED"

text \<open>Unless something is reported incomplete, every identity is resolved or still pending.\<close>

definition covered :: "string set \<Rightarrow> string set \<Rightarrow> lock_state \<Rightarrow> bool" where
  "covered X ids s \<longleftrightarrow> 0 \<le> la_incomplete_count s \<and>
     (la_incomplete_count s = 0 \<longrightarrow>
        (\<forall>i \<in> ids - X. resolved (map_of (lb_status (la_acct s)) i) \<or>
           i \<in> pending_ids (la_pending_waits s) \<or> i \<in> hold_ids (la_active_holds s)))"

definition projected :: "int set \<Rightarrow> lock_obs list \<Rightarrow> lock_state \<Rightarrow> bool" where
  "projected T obs s \<longleftrightarrow>
     la_lock_values s = project_table empty_projection_values obs_add obs_lock obs \<and>
     la_thread_values s = project_table empty_projection_values obs_add obs_tid obs \<and>
     la_path_values s = project_table empty_projection_values obs_add obs_path obs \<and>
     la_wait_intervals s = List.map_filter obs_wait obs \<and>
     la_hold_intervals s = List.map_filter obs_hold obs \<and>
     la_candidate_wait_count s = int (length (filter (obs_candidate CA_WAIT) obs)) \<and>
     la_candidate_wake_count s = int (length (filter (obs_candidate CA_WAKE) obs)) \<and>
     la_interval_count s = int (length (la_wait_intervals s) + length (la_hold_intervals s)) \<and>
     (\<forall>i \<in> set (la_wait_intervals s). lock_wait_ok T i) \<and>
     (\<forall>i \<in> set (la_hold_intervals s). lock_hold_ok T i)"

definition lock_inv :: "string set \<Rightarrow> nat \<Rightarrow> int \<Rightarrow> string list \<Rightarrow> int \<Rightarrow> int set \<Rightarrow> lock_state \<Rightarrow> bool" where
  "lock_inv X slack n ids now T s \<longleftrightarrow>
     lacct.ledger_inv ids (la_acct s) \<and>
     pending_ok (set ids) now T (la_pending_waits s) \<and>
     holds_ok (set ids) now T (la_active_holds s) \<and>
     covered X (set ids) s \<and>
     la_candidate_wait_count s + la_candidate_wake_count s = n \<and>
     (\<exists>obs. projected T obs s \<and> length obs + slack \<le> length ids)"

text \<open>The only exception of the event loop, with what it says about the size of the trace.\<close>

definition lock_interval_error :: "lock_analysis_limits \<Rightarrow> nat \<Rightarrow> py_error \<Rightarrow> bool" where
  "lock_interval_error lim k e \<longleftrightarrow>
     e = ValueError ''lock analysis interval count exceeds max_intervals'' \<and> ll_max_intervals lim < int k"

section \<open>State updates\<close>

lemma inv_weaken:
  "lock_inv X slack n ids now T s \<Longrightarrow> X \<subseteq> Y \<Longrightarrow> slack' \<le> slack \<Longrightarrow> lock_inv Y slack' n ids now T s"
  unfolding lock_inv_def covered_def by (fastforce intro: le_trans [of "_ + slack'" "_ + slack"])

lemma wp_lock_consume:
  assumes inv: "lock_inv X slack n ids now T s" and js: "set js \<subseteq> set ids"
    and k: "\<And>s'. lock_inv (X - set js) slack n ids now T s' \<Longrightarrow> la_incomplete_count s' = la_incomplete_count s
      \<Longrightarrow> ensures E Q (f s')"
  shows "ensures E Q (bindE (lock_mark_consumed js s) f)"
proof -
  have l: "lacct.ledger_inv ids (la_acct s)" using inv by (simp add: lock_inv_def)
  obtain b where b: "lock_acct_consume js (la_acct s) = Inr b" "lacct.ledger_inv ids b"
    "map_of (lb_status b) = consumed_status js (map_of (lb_status (la_acct s)))"
    using lacct.ensures_consume [OF l js, of "\<lambda>_. False"]
    by (cases "lock_acct_consume js (la_acct s)") auto
  have "resolved (consumed_status js m i)" if "i \<in> set js" "m i \<noteq> None" for m i
    using that by (auto simp: resolved_def consumed_status_def)
  moreover have "resolved (consumed_status js m i)" if "resolved (m i)" for m i
    using that by (auto simp: resolved_def consumed_status_def)
  moreover have "dom (map_of (lb_status (la_acct s))) = set ids"
    using l by (simp add: lacct.ledger_inv_def)
  ultimately have "covered (X - set js) (set ids) (s\<lparr>la_acct := b\<rparr>)"
    using inv unfolding lock_inv_def covered_def by (auto simp: b(3)) blast+
  then have "lock_inv (X - set js) slack n ids now T (s\<lparr>la_acct := b\<rparr>)"
    using inv b(2) by (simp add: lock_inv_def projected_def)
  then show ?thesis using k by (simp add: lock_mark_consumed_def b(1))
qed

lemma wp_lock_unpaired:
  assumes inv: "lock_inv X slack n ids now T s" and js: "set js \<subseteq> set ids"
    and k: "\<And>s'. lock_inv X slack n ids now T s' \<Longrightarrow> la_incomplete_count s' = la_incomplete_count s
      \<Longrightarrow> ensures E Q (f s')"
  shows "ensures E Q (bindE (lock_mark_unpaired js s) f)"
proof -
  have l: "lacct.ledger_inv ids (la_acct s)" using inv by (simp add: lock_inv_def)
  obtain b where b: "lock_acct_unpaired js (la_acct s) = Inr b" "lacct.ledger_inv ids b"
    "map_of (lb_status b) = unpaired_status js (map_of (lb_status (la_acct s)))"
    using lacct.ensures_unpaired [OF l js, of "\<lambda>_. False"]
    by (cases "lock_acct_unpaired js (la_acct s)") auto
  have "resolved (unpaired_status js m i) = resolved (m i)" for m i
    by (auto simp: resolved_def unpaired_status_def)
  then have "covered X (set ids) (s\<lparr>la_acct := b\<rparr>)"
    using inv unfolding lock_inv_def covered_def by (simp add: b(3))
  then have "lock_inv X slack n ids now T (s\<lparr>la_acct := b\<rparr>)"
    using inv b(2) by (simp add: lock_inv_def projected_def)
  then show ?thesis using k by (simp add: lock_mark_unpaired_def b(1))
qed

lemma lock_consume_ok:
  assumes "lock_inv X slack n ids now T s" "set js \<subseteq> set ids" "X \<subseteq> set js"
  shows "ensures E (lock_inv {} slack n ids now T) (lock_mark_consumed js s)"
proof -
  have "bindE (lock_mark_consumed js s) Inr = lock_mark_consumed js s"
    by (cases "lock_mark_consumed js s") auto
  then show ?thesis
    using wp_lock_consume [OF assms(1,2), of E "lock_inv {} slack n ids now T" Inr] assms(3)
    by (simp add: Diff_eq_empty_iff [THEN iffD2])
qed

lemma inv_lock_warn [simp]: "lock_inv X slack n ids now T (lock_warn lim c m i t s) = lock_inv X slack n ids now T s"
proof -
  have "lacct.ledger_inv ids (lock_acct_warn lim c m i t b) = lacct.ledger_inv ids b"
    "lb_status (lock_acct_warn lim c m i t b) = lb_status b" for b
    by (simp_all add: lacct.ledger_inv_def lock_acct_warn_def)
  then show ?thesis by (simp add: lock_inv_def lock_warn_def covered_def projected_def)
qed

lemma lock_warn_count [simp]: "la_incomplete_count (lock_warn lim c m i t s) = la_incomplete_count s"
  by (simp add: lock_warn_def)

text \<open>Reporting something incomplete accounts for everything.\<close>

lemma inv_add_incomplete:
  assumes "lock_inv X slack n ids now T s"
  shows "lock_inv Y slack n ids now T (add_incomplete lim t l ph r js s)"
    "0 < la_incomplete_count (add_incomplete lim t l ph r js s)"
  using assms by (auto simp: lock_inv_def add_incomplete_def covered_def projected_def)

lemma wp_unpaired_incomplete:
  assumes "lock_inv X slack n ids now T s" "set js \<subseteq> set ids"
  shows "ensures E (lock_inv Y slack n ids now T)
      (bindE (lock_mark_unpaired js s) (\<lambda>s. Inr (add_incomplete lim t l ph r js s)))"
    "ensures E (lock_inv Y slack n ids now T)
      (bindE (lock_mark_unpaired js s) (\<lambda>s.
        Inr (lock_warn lim c m i t (add_incomplete lim t l ph r js s))))"
  by (rule wp_lock_unpaired [OF assms]; simp add: inv_add_incomplete)+

lemma wp_reserve_lock:
  assumes inv: "lock_inv X (Suc slack) n ids now T s"
    and k: "\<And>s'. s' = s\<lparr>la_interval_count := la_interval_count s + 1\<rparr> \<Longrightarrow> ensures (lock_interval_error lim (length ids)) Q (f s')"
  shows "ensures (lock_interval_error lim (length ids)) Q (bindE (lock_reserve_interval lim s) f)"
proof -
  obtain obs where obs: "projected T obs s" "length obs + Suc slack \<le> length ids"
    using inv by (auto simp: lock_inv_def)
  have "length (List.map_filter obs_wait obs) + length (List.map_filter obs_hold obs) \<le> length obs"
    by (induction obs) (auto simp: List.map_filter_def elim: obs_wait.elims obs_hold.elims split: option.splits)
  then have "la_interval_count s < int (length ids)"
    using obs by (simp add: projected_def)
  then show ?thesis
    using k by (auto simp: lock_reserve_interval_def bindE_raise_if lock_interval_error_def)
qed

lemma update_projections_fields [simp]:
  "la_acct (update_projections l t p f s) = la_acct s"
  "la_pending_waits (update_projections l t p f s) = la_pending_waits s"
  "la_active_holds (update_projections l t p f s) = la_active_holds s"
  "la_incomplete_count (update_projections l t p f s) = la_incomplete_count s"
  "la_wait_intervals (update_projections l t p f s) = la_wait_intervals s"
  "la_hold_intervals (update_projections l t p f s) = la_hold_intervals s"
  "la_candidates (update_projections l t p f s) = la_candidates s"
  "la_candidate_wait_count (update_projections l t p f s) = la_candidate_wait_count s"
  "la_candidate_wake_count (update_projections l t p f s) = la_candidate_wake_count s"
  "la_interval_count (update_projections l t p f s) = la_interval_count s"
  by (simp_all add: update_projections_def)

lemma covered_update_projections [simp]: "covered X ids (update_projections l t p f s) = covered X ids s"
  by (simp add: covered_def)

lemma projected_observation:
  assumes "projected T obs s"
  shows "la_lock_values (update_projections (obs_lock ob) (obs_tid ob) (obs_path ob) (obs_add ob) s) =
      project_table empty_projection_values obs_add obs_lock (obs @ [ob])"
    "la_thread_values (update_projections (obs_lock ob) (obs_tid ob) (obs_path ob) (obs_add ob) s) =
      project_table empty_projection_values obs_add obs_tid (obs @ [ob])"
    "la_path_values (update_projections (obs_lock ob) (obs_tid ob) (obs_path ob) (obs_add ob) s) =
      project_table empty_projection_values obs_add obs_path (obs @ [ob])"
  using assms by (simp_all add: projected_def update_projections_def)

text \<open>The three kinds of observation an event can add.\<close>

lemma inv_add_wait:
  assumes inv: "lock_inv X (Suc slack) n ids now T s" and ok: "lock_wait_ok T i"
  shows "lock_inv X slack n ids now T
    (add_projection_wait (lw_lock_id i) (lw_tid i) (lw_path i) (lw_duration_ns i) (lw_outcome i)
      (s\<lparr>la_interval_count := la_interval_count s + 1, la_wait_intervals := la_wait_intervals s @ [i]\<rparr>))"
proof -
  obtain obs where obs: "projected T obs s" "length obs + Suc slack \<le> length ids"
    using inv by (auto simp: lock_inv_def)
  let ?s = "s\<lparr>la_interval_count := la_interval_count s + 1, la_wait_intervals := la_wait_intervals s @ [i]\<rparr>"
  have "projected T (obs @ [ObsWait i]) (update_projections (lw_lock_id i) (lw_tid i) (lw_path i)
      (record_wait (lw_duration_ns i) (lw_outcome i)) ?s)"
    using obs(1) ok by (simp add: projected_def update_projections_def map_filter_single)
  moreover have "length (obs @ [ObsWait i]) + slack \<le> length ids" using obs(2) by simp
  ultimately show ?thesis
    using inv unfolding lock_inv_def add_projection_wait_def
    by (intro conjI exI [of _ "obs @ [ObsWait i]"]) (simp_all add: covered_def)
qed

lemma inv_add_hold:
  assumes inv: "lock_inv X (Suc slack) n ids now T s" and ok: "lock_hold_ok T i"
  shows "lock_inv X slack n ids now T
    (add_projection_hold (lh_lock_id i) (lh_tid i) (lh_path i) (lh_duration_ns i)
      (s\<lparr>la_interval_count := la_interval_count s + 1, la_hold_intervals := la_hold_intervals s @ [i]\<rparr>))"
proof -
  obtain obs where obs: "projected T obs s" "length obs + Suc slack \<le> length ids"
    using inv by (auto simp: lock_inv_def)
  let ?s = "s\<lparr>la_interval_count := la_interval_count s + 1, la_hold_intervals := la_hold_intervals s @ [i]\<rparr>"
  have "projected T (obs @ [ObsHold i]) (update_projections (lh_lock_id i) (lh_tid i) (lh_path i)
      (record_hold (lh_duration_ns i)) ?s)"
    using obs(1) ok by (simp add: projected_def update_projections_def map_filter_single)
  moreover have "length (obs @ [ObsHold i]) + slack \<le> length ids" using obs(2) by simp
  ultimately show ?thesis
    using inv unfolding lock_inv_def add_projection_hold_def
    by (intro conjI exI [of _ "obs @ [ObsHold i]"]) (simp_all add: covered_def)
qed

lemma add_candidate_ok:
  assumes inv: "lock_inv {uc_event_id c} (Suc slack) n ids now T s" and c: "uc_event_id c \<in> set ids"
  shows "ensures E (lock_inv {} slack (n + 1) ids now T) (add_candidate lim c s)"
proof -
  let ?s1 = "if uc_action c = CA_WAIT then s\<lparr>la_candidate_wait_count := la_candidate_wait_count s + 1\<rparr>
    else s\<lparr>la_candidate_wake_count := la_candidate_wake_count s + 1\<rparr>"
  let ?s2 = "if int (length (la_candidates ?s1)) < ll_max_candidate_observations lim
    then ?s1\<lparr>la_candidates := la_candidates ?s1 @ [c]\<rparr> else ?s1"
  obtain obs where obs: "projected T obs s" "length obs + Suc slack \<le> length ids"
    using inv by (auto simp: lock_inv_def)
  have "projected T (obs @ [ObsCandidate c]) (add_projection_candidate c ?s2)"
    using obs(1) by (cases "uc_action c")
      (simp_all add: projected_def add_projection_candidate_def update_projections_def map_filter_single)
  moreover have "length (obs @ [ObsCandidate c]) + slack \<le> length ids" using obs(2) by simp
  ultimately have "lock_inv {uc_event_id c} slack (n + 1) ids now T (add_projection_candidate c ?s2)"
    using inv unfolding lock_inv_def add_projection_candidate_def
    by (intro conjI exI [of _ "obs @ [ObsCandidate c]"]) (simp_all add: covered_def)
  then show ?thesis
    unfolding add_candidate_def Let_def by (rule lock_consume_ok) (use c in auto)
qed

text \<open>Taking evidence out of the pending tables and putting it in.\<close>

lemma covered_change:
  assumes "covered X ids s" "la_acct s' = la_acct s" "la_incomplete_count s' = la_incomplete_count s"
    and "pending_ids (la_pending_waits s) \<union> hold_ids (la_active_holds s) \<union> X
      \<subseteq> Y \<union> pending_ids (la_pending_waits s') \<union> hold_ids (la_active_holds s')"
  shows "covered Y ids s'"
  unfolding covered_def
proof (intro conjI impI ballI)
  show "0 \<le> la_incomplete_count s'" using assms(1,3) by (simp add: covered_def)
  fix i assume "la_incomplete_count s' = 0" and i: "i \<in> ids - Y"
  then have "i \<in> X \<or> resolved (map_of (lb_status (la_acct s)) i) \<or>
      i \<in> pending_ids (la_pending_waits s) \<or> i \<in> hold_ids (la_active_holds s)"
    using assms(1,3) unfolding covered_def by auto
  then show "resolved (map_of (lb_status (la_acct s')) i) \<or>
      i \<in> pending_ids (la_pending_waits s') \<or> i \<in> hold_ids (la_active_holds s')"
    using assms(2,4) i by auto
qed

lemma pending_ids_pop:
  assumes "i \<in> pending_ids m" "i \<notin> te_event_id ` set (dict_get_or [] m k)"
  shows "i \<in> pending_ids (dict_pop k m)"
  using assms by (force simp: pending_ids_def dict_get_or_def map_of_dict_pop)

lemma inv_pop_pending:
  assumes "lock_inv X slack n ids now T s"
  shows "lock_inv (X \<union> te_event_id ` set (dict_get_or [] (la_pending_waits s) k)) slack n ids now T
    (s\<lparr>la_pending_waits := dict_pop k (la_pending_waits s)\<rparr>)" (is "lock_inv ?Y _ _ _ _ _ ?s")
proof -
  have "covered X (set ids) s" using assms by (simp add: lock_inv_def)
  then have "covered ?Y (set ids) ?s"
    by (rule covered_change) (use pending_ids_pop [of _ "la_pending_waits s" k] in auto)
  then show ?thesis
    using assms by (simp add: lock_inv_def projected_def pending_ok_def map_of_dict_pop)
qed

lemma inv_set_pending:
  assumes inv: "lock_inv X slack n ids now T s" and k: "fst k \<in> T"
    and e: "te_event_id e \<in> set ids" "te_timestamp_ns e \<le> now" "owner_ok T e"
  shows "lock_inv (X - {te_event_id e}) slack n ids now T
    (s\<lparr>la_pending_waits := dict_set k (dict_get_or [] (la_pending_waits s) k @ [e]) (la_pending_waits s)\<rparr>)"
proof -
  let ?m = "dict_set k (dict_get_or [] (la_pending_waits s) k @ [e]) (la_pending_waits s)"
  have old: "pending_ids (la_pending_waits s) \<subseteq> pending_ids ?m"
  proof
    fix i assume "i \<in> pending_ids (la_pending_waits s)"
    then obtain k' ws w where w: "map_of (la_pending_waits s) k' = Some ws" "w \<in> set ws" "i = te_event_id w"
      by (auto simp: pending_ids_def)
    then have "\<exists>ws'. map_of ?m k' = Some ws' \<and> w \<in> set ws'"
      by (auto simp: map_of_dict_set dict_get_or_def)
    with w(3) show "i \<in> pending_ids ?m" unfolding pending_ids_def by blast
  qed
  have new: "te_event_id e \<in> pending_ids ?m"
    unfolding pending_ids_def mem_Collect_eq by (rule exI [of _ k]) (auto simp: map_of_dict_set)
  have "covered X (set ids) s" using inv by (simp add: lock_inv_def)
  then have "covered (X - {te_event_id e}) (set ids) (s\<lparr>la_pending_waits := ?m\<rparr>)"
    by (rule covered_change) (use old new in auto)
  moreover have "pending_ok (set ids) now T ?m"
    using inv k e by (auto simp: lock_inv_def pending_ok_def map_of_dict_set dict_get_or_def split: option.splits)
  ultimately show ?thesis
    using inv by (simp add: lock_inv_def projected_def)
qed

lemma hold_ids_pop:
  assumes "i \<in> hold_ids m" "i \<notin> te_event_id ` set_option (map_of m k)"
  shows "i \<in> hold_ids (dict_pop k m)"
  using assms by (force simp: hold_ids_def map_of_dict_pop)

lemma inv_pop_hold:
  assumes "lock_inv X slack n ids now T s"
  shows "lock_inv (X \<union> te_event_id ` set_option (map_of (la_active_holds s) k)) slack n ids now T
    (s\<lparr>la_active_holds := dict_pop k (la_active_holds s)\<rparr>)" (is "lock_inv ?Y _ _ _ _ _ ?s")
proof -
  have "covered X (set ids) s" using assms by (simp add: lock_inv_def)
  then have "covered ?Y (set ids) ?s"
    by (rule covered_change) (use hold_ids_pop [of _ "la_active_holds s" k] in auto)
  then show ?thesis
    using assms by (simp add: lock_inv_def projected_def holds_ok_def map_of_dict_pop)
qed

lemma inv_set_hold:
  assumes inv: "lock_inv X slack n ids now T s" and k: "fst k \<in> T" "map_of (la_active_holds s) k = None"
    and e: "te_event_id e \<in> set ids" "te_timestamp_ns e \<le> now"
  shows "lock_inv (X - {te_event_id e}) slack n ids now T
    (s\<lparr>la_active_holds := dict_set k e (la_active_holds s)\<rparr>)"
proof -
  let ?m = "dict_set k e (la_active_holds s)"
  have old: "hold_ids (la_active_holds s) \<subseteq> hold_ids ?m"
  proof
    fix i assume "i \<in> hold_ids (la_active_holds s)"
    then obtain k' a where "map_of (la_active_holds s) k' = Some a" "i = te_event_id a"
      by (auto simp: hold_ids_def)
    moreover from this k(2) have "map_of ?m k' = Some a" by (auto simp: map_of_dict_set)
    ultimately show "i \<in> hold_ids ?m" unfolding hold_ids_def by blast
  qed
  have new: "te_event_id e \<in> hold_ids ?m"
    unfolding hold_ids_def mem_Collect_eq by (rule exI [of _ k]) (auto simp: map_of_dict_set)
  have "covered X (set ids) s" using inv by (simp add: lock_inv_def)
  then have "covered (X - {te_event_id e}) (set ids) (s\<lparr>la_active_holds := ?m\<rparr>)"
    by (rule covered_change) (use old new in auto)
  moreover have "holds_ok (set ids) now T ?m"
    using inv k e by (auto simp: lock_inv_def holds_ok_def map_of_dict_set)
  ultimately show ?thesis
    using inv by (simp add: lock_inv_def projected_def)
qed

end
