(* ===== verification/LockProofs.thy ===== *)
theory LockProofs
  imports LockInvariant
begin

text \<open>
  Every branch of the lock analyzer's event loop keeps the invariant and raises nothing but
  the interval-limit error, and that one only when the trace has more events than the limit
  allows intervals.
\<close>

section \<open>Waits\<close>

lemma pending_waits_known:
  assumes "lock_inv X slack n ids now T s" and "w \<in> set (dict_get_or [] (la_pending_waits s) k)"
  shows "te_event_id w \<in> set ids" "te_timestamp_ns w \<le> now" "owner_ok T w"
  using assms by (cases k; auto simp: lock_inv_def pending_ok_def dict_get_or_def split: option.splits)+

lemma observe_lock_wait_ok:
  assumes inv: "lock_inv {te_event_id e} slack n ids now T s" and t: "t \<in> T"
    and e: "te_event_id e \<in> set ids" "te_timestamp_ns e \<le> now" "owner_ok T e"
  shows "ensures E (lock_inv {} slack n ids now T) (observe_lock_wait lim e t s)"
proof -
  let ?k = "(t, lk_lock_id e)"
  let ?waits = "dict_get_or [] (la_pending_waits s) ?k @ [e]"
  let ?s = "s\<lparr>la_pending_waits := dict_set ?k ?waits (la_pending_waits s)\<rparr>"
  have inv': "lock_inv {} slack n ids now T ?s"
    using inv_set_pending [OF inv, of ?k e] t e by simp
  have ids: "set (map te_event_id ?waits) \<subseteq> set ids"
    using pending_waits_known(1) [OF inv] e(1) by auto
  have dup: "ensures E (lock_inv {} slack n ids now T) (bindE (lock_mark_unpaired (map te_event_id ?waits) ?s)
      (\<lambda>s. Inr (lock_warn lim c m i t s)))" for c m i
    by (rule wp_lock_unpaired [OF inv' ids]) simp
  show ?thesis
    unfolding observe_lock_wait_def Let_def
    using dup inv' by (simp only: ensures_Inr split: if_split) blast
qed

lemma close_lock_wait_ok:
  assumes inv: "lock_inv {te_event_id e} 1 n ids now T s" and t: "t \<in> T"
    and e: "te_event_id e \<in> set ids" "te_timestamp_ns e = now"
  shows "ensures (lock_interval_error lim (length ids)) (lock_inv {} 0 n ids now T)
    (close_lock_wait lim e t outcome s)"
proof -
  let ?k = "(t, lk_lock_id e)"
  let ?waits = "dict_get_or [] (la_pending_waits s) ?k"
  let ?s = "s\<lparr>la_pending_waits := dict_pop ?k (la_pending_waits s)\<rparr>"
  let ?X = "{te_event_id e} \<union> te_event_id ` set ?waits"
  have inv1: "lock_inv ?X 1 n ids now T ?s" by (rule inv_pop_pending [OF inv])
  then have inv0: "lock_inv ?X 0 n ids now T ?s" by (rule inv_weaken) auto
  have known: "te_event_id w \<in> set ids" "te_timestamp_ns w \<le> now" "owner_ok T w" if "w \<in> set ?waits" for w
    using pending_waits_known [OF inv that] by auto
  consider (none) "?waits = []" | (one) w where "?waits = [w]" | (many) a b ws where "?waits = a # b # ws"
    by (metis list.exhaust)
  then show ?thesis
  proof cases
    case none
    show ?thesis
      unfolding close_lock_wait_def Let_def none list.case
      by (rule wp_unpaired_incomplete(1) [OF inv0]) (use e in simp)
  next
    case (one w)
    have w: "te_event_id w \<in> set ids" "te_timestamp_ns w \<le> now" "owner_ok T w"
      using known one by auto
    obtain ev otid where owner: "lock_owner w = Inr (ev, otid)" "set_option otid \<subseteq> T" "ev \<noteq> OE_TARGET \<longrightarrow> otid = None"
      using w(3) by (auto simp: owner_ok_def)
    let ?i = "lock_wait_interval e t w outcome (ev, otid)"
    have "lock_wait_ok T ?i"
      using w(2) e(2) t owner by (simp add: lock_wait_ok_def lock_wait_interval_def)
    from inv_add_wait [OF inv1 [unfolded One_nat_def] this]
    have inv2: "lock_inv ?X 0 n ids now T
      (add_projection_wait (lk_lock_id e) t (te_stack w) (te_timestamp_ns e - te_timestamp_ns w) outcome
        (?s\<lparr>la_interval_count := la_interval_count ?s + 1, la_wait_intervals := la_wait_intervals ?s @ [?i]\<rparr>))"
      by (simp add: lock_wait_interval_def)
    show ?thesis
      unfolding close_lock_wait_def Let_def one list.case
    proof (rule wp_reserve_lock [where slack = 0])
      show "lock_inv ?X (Suc 0) n ids now T ?s" using inv1 by simp
    next
      fix s' assume s': "s' = ?s\<lparr>la_interval_count := la_interval_count ?s + 1\<rparr>"
      show "ensures (lock_interval_error lim (length ids)) (lock_inv {} 0 n ids now T)
        (bindE (lock_owner w) (\<lambda>owner. lock_mark_consumed [te_event_id w, te_event_id e]
          (add_projection_wait (lk_lock_id e) t (te_stack w) (te_timestamp_ns e - te_timestamp_ns w) outcome
            (s'\<lparr>la_wait_intervals := la_wait_intervals s' @ [lock_wait_interval e t w outcome owner]\<rparr>))))"
        unfolding owner(1) bindE.simps
        by (rule lock_consume_ok [of ?X]) (use inv2 w e one s' in auto)
    qed
  next
    case (many a b ws)
    have ids: "set (map te_event_id ?waits @ [te_event_id e]) \<subseteq> set ids"
      using known(1) e(1) by auto
    show ?thesis
      unfolding close_lock_wait_def Let_def
      using wp_unpaired_incomplete(1) [OF inv0 ids] many by simp
  qed
qed

section \<open>Holds\<close>

lemma active_hold_known:
  assumes "lock_inv X slack n ids now T s" and "map_of (la_active_holds s) k = Some a"
  shows "te_event_id a \<in> set ids" "te_timestamp_ns a \<le> now"
  using assms by (cases k; auto simp: lock_inv_def holds_ok_def)+

lemma open_lock_hold_ok:
  assumes inv: "lock_inv {} slack n ids now T s" and t: "t \<in> T"
    and e: "te_event_id e \<in> set ids" "te_timestamp_ns e \<le> now"
  shows "ensures E (lock_inv {} slack n ids now T) (open_lock_hold lim e t s)"
proof (cases "map_of (la_active_holds s) (t, lk_lock_id e)")
  case None
  let ?s = "s\<lparr>la_active_holds := dict_pop (t, lk_lock_id e) (la_active_holds s)\<rparr>"
  have inv1: "lock_inv {} slack n ids now T ?s"
    using inv_pop_hold [OF inv, of "(t, lk_lock_id e)"] None by simp
  have "lock_inv {} slack n ids now T
      (?s\<lparr>la_active_holds := dict_set (t, lk_lock_id e) e (la_active_holds ?s)\<rparr>)"
    using inv_set_hold [OF inv1, of "(t, lk_lock_id e)" e] t e by (simp add: map_of_dict_pop)
  then show ?thesis unfolding open_lock_hold_def Let_def None by simp
next
  case (Some p)
  note inv1 = inv_pop_hold [OF inv, of "(t, lk_lock_id e)", unfolded Some]
  show ?thesis
    unfolding open_lock_hold_def Let_def Some option.case
    by (rule wp_unpaired_incomplete(2) [OF inv1]) (use active_hold_known [OF inv Some] e in simp)
qed

lemma close_lock_hold_ok:
  assumes inv: "lock_inv {te_event_id e} 1 n ids now T s" and t: "t \<in> T"
    and e: "te_event_id e \<in> set ids" "te_timestamp_ns e = now"
  shows "ensures (lock_interval_error lim (length ids)) (lock_inv {} 0 n ids now T) (close_lock_hold lim e t s)"
proof -
  let ?s = "s\<lparr>la_active_holds := dict_pop (t, lk_lock_id e) (la_active_holds s)\<rparr>"
  show ?thesis
  proof (cases "map_of (la_active_holds s) (t, lk_lock_id e)")
    case None
    have inv0: "lock_inv {te_event_id e} 0 n ids now T ?s"
      using inv_weaken [OF inv_pop_hold [OF inv, of "(t, lk_lock_id e)"], of "{te_event_id e}" 0] None by simp
    show ?thesis
      unfolding close_lock_hold_def Let_def None option.case
      by (rule wp_unpaired_incomplete(2) [OF inv0]) (use e in simp)
  next
    case (Some a)
    let ?X = "{te_event_id e} \<union> te_event_id ` set_option (Some a)"
    let ?i = "lock_hold_interval e t a"
    have inv1: "lock_inv ?X (Suc 0) n ids now T ?s"
      using inv_pop_hold [OF inv, of "(t, lk_lock_id e)"] Some by simp
    have a: "te_event_id a \<in> set ids" "te_timestamp_ns a \<le> now"
      by (rule active_hold_known [OF inv Some])+
    then have "lock_hold_ok T ?i"
      using e(2) t by (simp add: lock_hold_ok_def lock_hold_interval_def)
    from inv_add_hold [OF inv1 this]
    have inv2: "lock_inv ?X 0 n ids now T
      (add_projection_hold (lk_lock_id e) t (te_stack a) (te_timestamp_ns e - te_timestamp_ns a)
        (?s\<lparr>la_interval_count := la_interval_count ?s + 1, la_hold_intervals := la_hold_intervals ?s @ [?i]\<rparr>))"
      by (simp add: lock_hold_interval_def)
    show ?thesis
      unfolding close_lock_hold_def Let_def Some option.case
      by (rule wp_reserve_lock [OF inv1], rule lock_consume_ok [of ?X]) (use inv2 a e in auto)
  qed
qed

section \<open>The loop\<close>

lemma end_lock_wait_ok:
  assumes inv: "lock_inv {te_event_id e} 1 n ids now T s" and t: "t \<in> T"
    and e: "te_event_id e \<in> set ids" "te_timestamp_ns e = now"
  shows "ensures (lock_interval_error lim (length ids)) (lock_inv {} 0 n ids now T)
    (end_lock_wait lim e t (Some outcome) s)"
  unfolding end_lock_wait_def option.case
  by (rule ensures_bind [OF close_lock_wait_ok [OF assms]]) (use t e in \<open>auto intro!: open_lock_hold_ok\<close>)

text \<open>What validation establishes about a lock and a futex event.\<close>

lemma valid_owner:
  assumes "validate_trace_event (Lock x) lim = Inr ()"
  shows "owner_ok (event_tids (Lock x)) x"
proof (cases "(lk_owner x, lk_owner_scope x)")
  case (Pair owner scope)
  show ?thesis
  proof (cases "\<exists>o1. owner = Some o1 \<and> scope = Some Scope_TARGET")
    case True
    then obtain o1 where o1: "lk_owner x = Some o1" "lk_owner_scope x = Some Scope_TARGET"
      using Pair by auto
    then obtain t where "task_tid o1 = Some t"
      using assms validate_target_task by (fastforce simp: validate_trace_event_def validate_lock_def)
    moreover from this o1 have "t \<in> event_tids (Lock x)"
      by (intro event_tids_member [where t = o1]) auto
    ultimately show ?thesis using o1 by (simp add: owner_ok_def lock_owner_def)
  next
    case False
    then show ?thesis
      using Pair by (auto simp: owner_ok_def lock_owner_def split: option.splits trace_scope.splits)
  qed
qed

lemma valid_lock_task:
  assumes "validate_trace_event (Lock x) lim = Inr ()"
  shows "\<exists>t. task_tid (lk_task x) = Some t \<and> t \<in> event_tids (Lock x)"
    and "lk_action x = Lock_WAIT_ENDED \<Longrightarrow> \<exists>r. lk_wait_outcome x = Some r"
    and "lk_action x \<noteq> Lock_WAIT \<Longrightarrow> te_semantics x = Sem_EXACT"
proof -
  have scope: "lk_task_scope x = Scope_TARGET"
    using assms by (auto simp: validate_trace_event_def validate_lock_def)
  obtain t where t: "task_tid (lk_task x) = Some t"
    using assms scope validate_target_task by (fastforce simp: validate_trace_event_def validate_lock_def)
  then have "t \<in> event_tids (Lock x)"
    using scope by (intro event_tids_member [where t = "lk_task x"]) auto
  with t show "\<exists>t. task_tid (lk_task x) = Some t \<and> t \<in> event_tids (Lock x)" by blast
  show "lk_action x = Lock_WAIT_ENDED \<Longrightarrow> \<exists>r. lk_wait_outcome x = Some r"
    "lk_action x \<noteq> Lock_WAIT \<Longrightarrow> te_semantics x = Sem_EXACT"
    using assms by (cases "lk_action x"; auto simp: validate_trace_event_def validate_lock_def)+
qed

lemma valid_futex_task:
  assumes "validate_trace_event (Futex x) lim = Inr ()"
  shows "\<exists>t. task_tid (fx_task x) = Some t" "te_semantics x = Sem_CANDIDATE"
proof -
  have "fx_task_scope x = Scope_TARGET"
    using assms by (auto simp: validate_trace_event_def validate_futex_def)
  then show "\<exists>t. task_tid (fx_task x) = Some t"
    using assms validate_target_task by (fastforce simp: validate_trace_event_def validate_futex_def)
  show "te_semantics x = Sem_CANDIDATE"
    using assms by (auto simp: validate_trace_event_def validate_futex_def)
qed

lemma inv_lock_observe:
  assumes inv: "lock_inv {} 0 n ids now T s" and "now \<le> now'"
  shows "lock_inv (if g then {} else {ev_id e}) 1 n (ids @ [ev_id e]) now' T (lock_observe e g s)"
proof -
  let ?b = "lock_acct_observe (ev_id e) g (la_acct s)"
  have status: "map_of (lb_status ?b) = (map_of (lb_status (la_acct s)))(ev_id e \<mapsto> if g then St_IGNORED else St_OBSERVED)"
    by (simp add: lock_acct_observe_def update_conv')
  have "covered (if g then {} else {ev_id e}) (set (ids @ [ev_id e])) (s\<lparr>la_acct := ?b\<rparr>)"
    using inv by (auto simp: lock_inv_def covered_def status resolved_def)
  moreover have "pending_ok (set (ids @ [ev_id e])) now' T (la_pending_waits s)"
    "holds_ok (set (ids @ [ev_id e])) now' T (la_active_holds s)"
    using inv assms(2) by (fastforce simp: lock_inv_def pending_ok_def holds_ok_def)+
  ultimately show ?thesis
    using inv lacct.inv_observe [of ids "la_acct s" "ev_id e" g]
    by (auto simp: lock_inv_def lock_observe_def projected_def)
qed

definition candidate_event :: "trace_event \<Rightarrow> bool" where
  "candidate_event e \<longleftrightarrow> te_semantics (ev_base e) = Sem_CANDIDATE \<and> \<not> is_sched_event e"

lemma handle_lock_ok:
  assumes inv: "lock_inv {te_event_id x} 1 n ids now T s"
    and valid: "validate_trace_event (Lock x) lim = Inr ()" and T: "event_tids (Lock x) \<subseteq> T"
    and x: "te_event_id x \<in> set ids" "te_timestamp_ns x = now"
  shows "ensures (lock_interval_error llim (length ids))
    (lock_inv {} 0 (n + (if te_semantics x = Sem_CANDIDATE then 1 else 0)) ids now T) (handle_lock llim x s)"
proof -
  obtain t where t: "task_tid (lk_task x) = Some t" "t \<in> T"
    using valid_lock_task(1) [OF valid] T by auto
  have owner: "owner_ok T x"
    using valid_owner [OF valid] T by (auto simp: owner_ok_def)
  have exact: "te_semantics x = Sem_EXACT" if "lk_action x \<noteq> Lock_WAIT"
    by (rule valid_lock_task(3) [OF valid that])
  have semantics: "te_semantics x \<noteq> Sem_CANDIDATE \<Longrightarrow> te_semantics x = Sem_EXACT"
    by (cases "te_semantics x") auto
  show ?thesis
  proof (cases "lk_action x")
    case Lock_WAIT
    let ?c = "\<lparr>uc_tid = t, uc_lock_id = lk_lock_id x, uc_timestamp_ns = te_timestamp_ns x,
      uc_action = CA_WAIT, uc_event_id = te_event_id x, uc_path = te_stack x,
      uc_source = ''user_lock_wait_candidate''\<rparr>"
    have cand: "ensures E (lock_inv {} 0 (n + 1) ids now T) (add_candidate llim ?c s)" for E
      by (rule add_candidate_ok) (use inv x in simp_all)
    have wait: "ensures E (lock_inv {} 0 n ids now T) (observe_lock_wait llim x t s)" for E
      by (rule observe_lock_wait_ok) (use inv_weaken [OF inv, of "{te_event_id x}" 0] x t owner in auto)
    show ?thesis
      using cand wait Lock_WAIT t by (simp add: handle_lock_def candidate_from_lock_def)
  next
    case Lock_ACQUIRED
    then show ?thesis
      using end_lock_wait_ok [OF inv t(2) x] exact t by (simp add: handle_lock_def)
  next
    case Lock_WAIT_ENDED
    then show ?thesis
      using end_lock_wait_ok [OF inv t(2) x] valid_lock_task(2) [OF valid] exact t by (auto simp: handle_lock_def)
  next
    case Lock_RELEASED
    then show ?thesis
      using close_lock_hold_ok [OF inv t(2) x] exact t by (simp add: handle_lock_def)
  qed
qed

lemma lock_step_ok:
  assumes inv: "lock_inv {} 0 n ids now T s" and le: "now \<le> ev_ts e"
    and valid: "validate_trace_event e lim = Inr ()" and T: "event_tids e \<subseteq> T"
  shows "ensures (lock_interval_error llim (length ids + 1))
    (lock_inv {} 0 (n + (if candidate_event e then 1 else 0)) (ids @ [ev_id e]) (ev_ts e) T) (lock_step llim e s)"
proof -
  note obs = inv_lock_observe [OF inv le]
  have weak: "lock_inv {} 0 n (ids @ [ev_id e]) (ev_ts e) T (lock_observe e True s)"
    using inv_weaken [OF obs [where g = True and e = e], of "{}" 0] by simp
  show ?thesis
  proof (cases e)
    case (Lock x)
    have inv': "lock_inv {te_event_id x} 1 n (ids @ [te_event_id x]) (te_timestamp_ns x) T (lock_observe e False s)"
      using obs [where g = False and e = e] Lock by simp
    have "candidate_event e \<longleftrightarrow> te_semantics x = Sem_CANDIDATE"
      by (simp add: candidate_event_def Lock)
    then show ?thesis
      using handle_lock_ok [OF inv'] valid T Lock by (simp add: lock_step_def)
  next
    case (Futex x)
    obtain t where t: "task_tid (fx_task x) = Some t"
      using valid_futex_task(1) valid Futex by blast
    have "candidate_event e"
      using valid_futex_task(2) valid Futex by (auto simp: candidate_event_def)
    moreover have "ensures (lock_interval_error llim (length ids + 1)) (lock_inv {} 0 (n + 1) (ids @ [ev_id e]) (ev_ts e) T)
      (add_candidate llim \<lparr>uc_tid = t, uc_lock_id = fx_futex_id x, uc_timestamp_ns = te_timestamp_ns x,
        uc_action = (if fx_action x = Futex_WAIT then CA_WAIT else CA_WAKE),
        uc_event_id = te_event_id x, uc_path = te_stack x,
        uc_source = ''user_lock_wait_candidate''\<rparr> (lock_observe e False s))"
      by (rule add_candidate_ok) (use obs [where g = False and e = e] Futex in simp_all)
    ultimately show ?thesis
      using t Futex by (simp add: lock_step_def candidate_from_futex_def)
  qed (use weak in \<open>simp_all add: lock_step_def candidate_event_def\<close>)
qed

end
