(* ===== verification/LockProperties.thy ===== *)
theory LockProperties
  imports LockResults
begin

text \<open>
  The properties of the lock analysis, stated over \<open>analyze_locks\<close>.
\<close>

section \<open>A concrete lock trace\<close>

definition sample_lock :: "string \<Rightarrow> int \<Rightarrow> int \<Rightarrow> lock_action \<Rightarrow> trace_event" where
  "sample_lock i seq ts act = Lock
     \<lparr>te_event_id = i, te_sequence = seq, te_timestamp_ns = ts, te_target = sample_target,
      te_semantics = Sem_EXACT, te_cpu = None, te_stack = [''main''],
      lk_task = sample_task 101, lk_task_scope = Scope_TARGET, lk_action = act, lk_lock_id = ''L1'',
      lk_wait_outcome = None, lk_owner = None, lk_owner_scope = None\<rparr>"

definition sample_lock_trace :: "trace_event list" where
  "sample_lock_trace =
     [sample_lock ''w'' 0 5 Lock_WAIT, sample_lock ''a'' 1 9 Lock_ACQUIRED, sample_lock ''r'' 2 20 Lock_RELEASED]"

lemma sample_lock_trace_ok: "sequence_ok trace_limits_default None sample_lock_trace"
  by code_simp

lemma analyze_locks_total:
  assumes "wf_trace_limits rlim" "sequence_ok rlim None evs"
    "int (length evs) \<le> ll_max_intervals lim" "3 * int (length evs) \<le> ll_max_projection_rows lim"
  obtains r where "analyze_locks evs (Some lim) (Some rlim) = Inr r"
  using analyze_locks_ensures [OF assms(1,2), of lim] assms(3,4)
  by (cases "analyze_locks evs (Some lim) (Some rlim)") (auto simp: lock_interval_error_def lock_rows_error_def)

lemma sample_lock_analysis:
  obtains r where "analyze_locks sample_lock_trace (Some lock_limits_default) (Some trace_limits_default) = Inr r"
  by (rule analyze_locks_total [OF trace_limits_default_wf sample_lock_trace_ok, of lock_limits_default])
    (simp_all add: sample_lock_trace_def lock_limits_default_def)

section \<open>Exceptions and termination\<close>



text \<open>
  The lock analysis returns: every valid trace that has no more events than the interval
  limit and at most a third of the projection-row limit is analyzed without an exception.
\<close>

theorem lock_returns:
  assumes "wf_trace_limits rlim" and "sequence_ok rlim None evs"
    and "int (length evs) \<le> ll_max_intervals lim" and "3 * int (length evs) \<le> ll_max_projection_rows lim"
  shows "\<exists>r. analyze_locks evs (Some lim) (Some rlim) = Inr r"
  using analyze_locks_total [OF assms] by blast

theorem lock_returns_witness:
  "\<exists>r. analyze_locks sample_lock_trace (Some lock_limits_default) (Some trace_limits_default) = Inr r"
  by (rule lock_returns [OF trace_limits_default_wf sample_lock_trace_ok])
    (simp_all add: sample_lock_trace_def lock_limits_default_def)

section \<open>Conservation\<close>

text \<open>
  Every event of the trace is reported as observed and counted in exactly one of the
  ledgers of consumed, unpaired and ignored events.
\<close>

theorem lock_events_conserved:
  assumes "wf_trace_limits rlim" and "analyze_locks evs (Some lim) (Some rlim) = Inr r"
  shows "ea_observed_event_count (an_event_accounting r) = int (length evs) \<and>
    el_total_count (ea_consumed (an_event_accounting r)) + el_total_count (ea_unpaired (an_event_accounting r))
      + el_total_count (ea_ignored (an_event_accounting r)) = int (length evs)"
proof (rule analyze_locks_final [OF assms])
  fix s obs locks threads paths w h acc
  assume "lock_final evs obs s" "lock_acct_finish lim (la_acct s) = Inr acc"
    and r: "r = build_lock_analysis lim (first_target evs) s locks threads paths w h acc"
  then have l: "lacct.ledger_inv (map ev_id evs) (la_acct s)" and acc: "lock_acct_finish lim (la_acct s) = Inr acc"
    by (simp_all add: lock_final_def lock_inv_def)
  obtain acc' where a: "lock_acct_finish lim (la_acct s) = Inr acc'"
    "ea_observed_event_count acc' = int (length (map ev_id evs))"
    "el_total_count (ea_consumed acc') = ledger_total (map_of (lb_status (la_acct s))) (map ev_id evs) St_CONSUMED"
    "el_total_count (ea_unpaired acc') = ledger_total (map_of (lb_status (la_acct s))) (map ev_id evs) St_UNPAIRED"
    "el_total_count (ea_ignored acc') = ledger_total (map_of (lb_status (la_acct s))) (map ev_id evs) St_IGNORED"
    by (rule lock_finish_accounting [OF l])
  moreover have "acc' = acc" using a(1) acc by simp
  ultimately show ?thesis
    using lacct.ledgers_partition [OF l] by (simp add: r build_lock_analysis_def)
qed

theorem lock_events_conserved_witness:
  "\<exists>r. analyze_locks sample_lock_trace (Some lock_limits_default) (Some trace_limits_default) = Inr r \<and>
     ea_observed_event_count (an_event_accounting r) = 3"
proof -
  obtain r where r: "analyze_locks sample_lock_trace (Some lock_limits_default) (Some trace_limits_default) = Inr r"
    by (rule sample_lock_analysis)
  from lock_events_conserved [OF trace_limits_default_wf r] r show ?thesis
    by (simp add: sample_lock_trace_def)
qed

lemma waits_of_key:
  assumes "\<And>i. key (ObsWait i) = g i"
  shows "List.map_filter obs_wait (filter (\<lambda>ob. key ob = k) obs) = filter (\<lambda>i. g i = k) (List.map_filter obs_wait obs)"
proof (induction obs)
  case (Cons ob obs)
  then show ?case using assms by (cases ob) (auto simp: List.map_filter_def)
qed simp

lemma holds_of_key:
  assumes "\<And>i. key (ObsHold i) = g i"
  shows "List.map_filter obs_hold (filter (\<lambda>ob. key ob = k) obs) = filter (\<lambda>i. g i = k) (List.map_filter obs_hold obs)"
proof (induction obs)
  case (Cons ob obs)
  then show ?case using assms by (cases ob) (auto simp: List.map_filter_def)
qed simp

text \<open>The specification of a row: the statistics of the intervals that have its key.\<close>

definition row_of ::
  "(exact_lock_wait_interval \<Rightarrow> 'k) \<Rightarrow> (exact_lock_hold_interval \<Rightarrow> 'k) \<Rightarrow> lock_state \<Rightarrow> 'k lock_aggregate \<Rightarrow> bool" where
  "row_of f g s row \<longleftrightarrow>
     lock_distribution (map lw_duration_ns (filter (\<lambda>i. f i = ag_key row) (la_wait_intervals s))) = Inr (ag_exact_wait row) \<and>
     lock_distribution (map lh_duration_ns (filter (\<lambda>i. g i = ag_key row) (la_hold_intervals s))) = Inr (ag_exact_hold row)"

lemma rows_refine:
  assumes rows: "mapE lock_aggregate_row (sort_key fst (lock_table key obs)) = Inr rows" and row: "row \<in> set rows"
    and proj: "projected T obs s" and keys: "\<And>i. key (ObsWait i) = f i" "\<And>i. key (ObsHold i) = g i"
  shows "row_of f g s row"
proof -
  obtain p where "p \<in> set (sort_key fst (lock_table key obs))" and pr: "lock_aggregate_row p = Inr row"
    using rows row unfolding mapE_Inr by (rule list_all2_in_set2)
  then have mem: "p \<in> set (lock_table key obs)" by simp
  obtain k v where p: "p = (k, v)" by (cases p)
  note fields = aggregate_row_fields [OF pr [unfolded p]]
  show ?thesis
    using fields(1,9,10) proj unfolding lock_table_row [OF mem [unfolded p]]
    by (simp add: row_of_def projected_def waits_of_key [of key f, OF keys(1)] holds_of_key [of key g, OF keys(2)])
qed

text \<open>
  C8. The three projections are exact: the row of a lock, of a thread and of a call path
  reports the distribution of precisely the wait and hold intervals of the run that have that
  lock, that thread or that path, and nothing of the candidate evidence.
\<close>

theorem lock_projections_refine:
  assumes "wf_trace_limits rlim" and "analyze_locks evs (Some lim) (Some rlim) = Inr r" and "lock_run lim evs = Inr s"
  shows "(\<forall>row \<in> set (an_locks r). row_of lw_lock_id lh_lock_id s row) \<and>
    (\<forall>row \<in> set (an_threads r). row_of lw_tid lh_tid s row) \<and>
    (\<forall>row \<in> set (an_paths r). row_of lw_path lh_path s row)"
proof (rule analyze_locks_final [OF assms(1,2)])
  fix s' obs locks threads paths w h acc
  assume s': "lock_run lim evs = Inr s'" and fin: "lock_final evs obs s'"
    and rows: "mapE lock_aggregate_row (sort_key fst (lock_table obs_lock obs)) = Inr locks"
      "mapE lock_aggregate_row (sort_key fst (lock_table obs_tid obs)) = Inr threads"
      "mapE lock_aggregate_row (sort_key fst (lock_table obs_path obs)) = Inr paths"
    and r: "r = build_lock_analysis lim (first_target evs) s' locks threads paths w h acc"
  have "s' = s" using s' assms(3) by simp
  then have proj: "projected (trace_tids evs) obs s" using fin by (simp add: lock_final_def)
  show ?thesis
    unfolding r build_lock_analysis_def lock_analysis.select_convs
    using rows_refine [OF rows(1) _ proj, of _ lw_lock_id lh_lock_id]
      rows_refine [OF rows(2) _ proj, of _ lw_tid lh_tid] rows_refine [OF rows(3) _ proj, of _ lw_path lh_path]
    by simp
qed

lemma sample_lock_run:
  obtains s where "lock_run lock_limits_default sample_lock_trace = Inr s" "length (la_wait_intervals s) = 1"
    "length (la_hold_intervals s) = 1"
proof -
  have "(case lock_run lock_limits_default sample_lock_trace of Inl _ \<Rightarrow> False
      | Inr s \<Rightarrow> length (la_wait_intervals s) = 1 \<and> length (la_hold_intervals s) = 1)"
    by code_simp
  then show thesis using that by (cases "lock_run lock_limits_default sample_lock_trace") auto
qed

theorem lock_projections_refine_witness:
  "\<exists>r s. analyze_locks sample_lock_trace (Some lock_limits_default) (Some trace_limits_default) = Inr r \<and>
     length (la_wait_intervals s) = 1 \<and> (\<forall>row \<in> set (an_locks r). row_of lw_lock_id lh_lock_id s row)"
proof -
  obtain r where r: "analyze_locks sample_lock_trace (Some lock_limits_default) (Some trace_limits_default) = Inr r"
    by (rule sample_lock_analysis)
  obtain s where s: "lock_run lock_limits_default sample_lock_trace = Inr s" "length (la_wait_intervals s) = 1"
    by (rule sample_lock_run)
  from lock_projections_refine [OF trace_limits_default_wf r s(1)] r s(2) show ?thesis by blast
qed

section \<open>Quality and privacy\<close>

lemma all_resolved:
  assumes "lock_final evs obs s" and "la_incomplete_count s = 0"
  shows "ledger_total (map_of (lb_status (la_acct s))) (map ev_id evs) St_UNPAIRED = 0"
proof -
  have "la_pending_waits s = []" "la_active_holds s = []"
    using assms by (auto simp: lock_final_def settled_pairings_def)
  then have "\<forall>i \<in> set (map ev_id evs). resolved (map_of (lb_status (la_acct s)) i)"
    using assms by (auto simp: lock_final_def lock_inv_def covered_def pending_ids_def hold_ids_def)
  then show ?thesis
    by (auto simp: ledger_total_def filter_empty_conv resolved_def settled_def)
qed

text \<open>
  The quality status is earned: an analysis reported as complete has no unpaired event,
  no incomplete pairing, and rests on no candidate evidence and on no wait whose outcome is
  unknown.
\<close>

theorem lock_complete_quality:
  assumes "wf_trace_limits rlim" and "analyze_locks evs (Some lim) (Some rlim) = Inr r"
    and "an_quality_status r = LQ_COMPLETE"
  shows "el_total_count (ea_unpaired (an_event_accounting r)) = 0 \<and> an_incomplete_pairing_count r = 0 \<and>
    (\<forall>e \<in> set evs. is_sched_event e \<or> te_semantics (ev_base e) = Sem_EXACT) \<and>
    (\<forall>i \<in> set (an_worst_wait_intervals r). lw_outcome i \<noteq> Outcome_UNKNOWN)"
proof (rule analyze_locks_final [OF assms(1,2)])
  fix s obs locks threads paths w h acc
  assume fin: "lock_final evs obs s" and acc: "lock_acct_finish lim (la_acct s) = Inr acc"
    and r: "r = build_lock_analysis lim (first_target evs) s locks threads paths w h acc"
  have q: "la_incomplete_count s = 0" "la_candidate_wait_count s = 0" "la_candidate_wake_count s = 0"
    "global_outcome (la_wait_intervals s) Outcome_UNKNOWN = 0"
    using assms(3) by (auto simp: r build_lock_analysis_def lock_quality_def split: if_splits)
  have l: "lacct.ledger_inv (map ev_id evs) (la_acct s)" and "candidate_count evs = 0"
    using fin q by (auto simp: lock_final_def lock_inv_def)
  then have sem: "\<forall>e \<in> set evs. is_sched_event e \<or> te_semantics (ev_base e) \<noteq> Sem_CANDIDATE"
    by (auto simp: candidate_count_def filter_empty_conv candidate_event_def)
  have exact: "te_semantics b \<noteq> Sem_CANDIDATE \<longleftrightarrow> te_semantics b = Sem_EXACT" for b :: trace_event_base
    by (cases "te_semantics b") auto
  have "el_total_count (ea_unpaired acc) = 0"
    using lock_finish_accounting [OF l, of lim] acc all_resolved [OF fin q(1)] by auto
  moreover have "\<forall>i \<in> set (la_wait_intervals s). lw_outcome i \<noteq> Outcome_UNKNOWN"
    using q(4) by (auto simp: global_outcome_def filter_empty_conv)
  ultimately show ?thesis
    using q(1) sem by (auto simp: r build_lock_analysis_def exact dest!: in_set_takeD)
qed

theorem lock_complete_quality_witness:
  "\<exists>r. analyze_locks sample_lock_trace (Some lock_limits_default) (Some trace_limits_default) = Inr r \<and>
     an_quality_status r = LQ_COMPLETE \<and> el_total_count (ea_unpaired (an_event_accounting r)) = 0"
proof -
  have quality: "(case lock_run lock_limits_default sample_lock_trace of Inl _ \<Rightarrow> False
      | Inr s \<Rightarrow> lock_quality s = LQ_COMPLETE)"
    by code_simp
  obtain r where r: "analyze_locks sample_lock_trace (Some lock_limits_default) (Some trace_limits_default) = Inr r"
    by (rule sample_lock_analysis)
  have "an_quality_status r = LQ_COMPLETE"
    by (rule analyze_locks_final [OF trace_limits_default_wf r])
      (use quality in \<open>simp add: build_lock_analysis_def\<close>)
  with lock_complete_quality [OF trace_limits_default_wf r] r show ?thesis by blast
qed

lemma exported_lock_intervals_ok:
  assumes "wf_trace_limits rlim" and "analyze_locks evs (Some lim) (Some rlim) = Inr r"
  shows "(\<forall>i \<in> set (an_worst_wait_intervals r). lock_wait_ok (trace_tids evs) i) \<and>
    (\<forall>i \<in> set (an_worst_hold_intervals r). lock_hold_ok (trace_tids evs) i)"
proof (rule analyze_locks_final [OF assms])
  fix s obs locks threads paths w h acc
  assume "lock_final evs obs s"
    and r: "r = build_lock_analysis lim (first_target evs) s locks threads paths w h acc"
  then have "\<forall>i \<in> set (la_wait_intervals s). lock_wait_ok (trace_tids evs) i"
    "\<forall>i \<in> set (la_hold_intervals s). lock_hold_ok (trace_tids evs) i"
    by (simp_all add: lock_final_def projected_def)
  then show ?thesis by (auto simp: r build_lock_analysis_def dest!: in_set_takeD)
qed

text \<open>
  The exported lock intervals are well formed and disclose no foreign identity: every
  thread and every owner they name is a target thread of the trace, an owner is named only
  with target evidence, and every duration is the non-negative difference of the timestamps.
\<close>

theorem lock_intervals_private:
  assumes "wf_trace_limits rlim" and "analyze_locks evs (Some lim) (Some rlim) = Inr r"
  shows "(\<forall>i \<in> set (an_worst_wait_intervals r). lock_wait_ok (trace_tids evs) i) \<and>
    (\<forall>i \<in> set (an_worst_hold_intervals r). lock_hold_ok (trace_tids evs) i)"
  using exported_lock_intervals_ok [OF assms] .

theorem lock_intervals_private_witness:
  "\<exists>r. analyze_locks sample_lock_trace (Some lock_limits_default) (Some trace_limits_default) = Inr r \<and>
     (\<forall>i \<in> set (an_worst_wait_intervals r). lock_wait_ok (trace_tids sample_lock_trace) i)"
proof -
  obtain r where r: "analyze_locks sample_lock_trace (Some lock_limits_default) (Some trace_limits_default) = Inr r"
    by (rule sample_lock_analysis)
  from lock_intervals_private [OF trace_limits_default_wf r] r show ?thesis by blast
qed

end
