(* ===== verification/RuntimeEvents.thy ===== *)
theory RuntimeEvents
  imports Durations TraceEvents
begin

text \<open>
  Normalized runtime lock events of \<open>src/src/perflens/domain/runtime_lock_analysis.py\<close>: the
  enumerations, the execution context and the event with the checks their constructors make,
  the sequence validation, and the duration statistics of this module.
\<close>

section \<open>Data\<close>

datatype runtime_semantics = RS_EXACT | RS_THRESHOLDED | RS_SAMPLED | RS_CUMULATIVE

datatype runtime_event_kind =
    RK_WAIT_BEGIN | RK_WAIT_END | RK_ACQUIRE | RK_RELEASE | RK_PARK | RK_UNPARK | RK_SAMPLED_CONTENTION

datatype runtime_context_kind =
    CK_OS_THREAD | CK_JAVA_PLATFORM_THREAD | CK_JAVA_VIRTUAL_THREAD | CK_GO_GOROUTINE | CK_PROCESS_AGGREGATE

record runtime_context =
  rc_kind :: runtime_context_kind
  rc_context_id :: string
  rc_target_tid :: "int option"

text \<open>A Python float: mantissa and binary exponent of a finite value, or a value that is not finite.\<close>

datatype py_float = Finite int int | Infinite bool | NaN

record runtime_lock_event =
  re_event_id :: string
  re_event_index :: int
  re_timestamp_ns :: int
  re_context :: runtime_context
  re_event_kind :: runtime_event_kind
  re_measurement_semantics :: runtime_semantics
  re_lock_kind :: string
  re_lock_id :: "string option"
  re_stack_id :: "string option"
  re_owner_context :: "runtime_context option"
  re_wait_begin_event_id :: "string option"
  re_wait_end_event_id :: "string option"
  re_acquire_event_id :: "string option"
  re_duration_ns :: "int option"
  re_hold_duration_ns :: "int option"
  re_outcome :: "string option"
  re_parked_context :: "runtime_context option"
  re_observed_count :: "int option"
  re_estimated_count :: "py_float option"
  re_cumulative_wait_ns :: "int option"

record runtime_duration_distribution =
  rd_sample_count :: int
  rd_total_ns :: int
  rd_minimum_ns :: int
  rd_mean_ns :: int
  rd_p50_ns :: int
  rd_p95_ns :: int
  rd_p99_ns :: int
  rd_maximum_ns :: int

section \<open>Construction checks\<close>

definition runtime_context_post_init :: "runtime_context \<Rightarrow> unit result" where
  "runtime_context_post_init c =
     bindE (raise_if (rc_context_id c = [] \<or> length (rc_context_id c) > 256)
       (ValueError ''runtime execution context requires a bounded identity'')) (\<lambda>_.
     bindE (raise_if (case rc_target_tid c of None \<Rightarrow> False | Some t \<Rightarrow> t \<le> 0)
       (ValueError ''runtime target TID must be positive'')) (\<lambda>_.
     bindE (raise_if (rc_kind c = CK_OS_THREAD \<and> rc_target_tid c = None)
       (ValueError ''OS-thread runtime context requires a target TID'')) (\<lambda>_.
     bindE (raise_if (rc_kind c = CK_PROCESS_AGGREGATE \<and> rc_target_tid c \<noteq> None)
       (ValueError ''process aggregate runtime context cannot claim a target TID'')) (\<lambda>_.
     raise_if (rc_kind c \<in> {CK_JAVA_VIRTUAL_THREAD, CK_GO_GOROUTINE} \<and> rc_target_tid c \<noteq> None)
       (ValueError ''virtual-thread and goroutine contexts cannot claim an OS TID'')))))"

definition reject_fields :: "string \<Rightarrow> bool list \<Rightarrow> unit result" where
  "reject_fields label present =
     raise_if (True \<in> set present)
       (ValueError (''runtime '' @ label @ '' carries fields owned by another event kind''))"

definition bounded_optional :: "string option \<Rightarrow> bool" where
  "bounded_optional v = (case v of None \<Rightarrow> True | Some s \<Rightarrow> s \<noteq> [] \<and> length s \<le> 256)"

definition negative_optional :: "int option \<Rightarrow> bool" where
  "negative_optional v = (case v of None \<Rightarrow> False | Some d \<Rightarrow> d < 0)"

fun float_positive :: "py_float \<Rightarrow> bool" where
  "float_positive (Finite m e) = (m > 0)"
| "float_positive _ = False"

definition runtime_event_fields :: "runtime_lock_event \<Rightarrow> unit result" where
  "runtime_event_fields e =
     bindE (raise_if (re_event_id e = [] \<or> length (re_event_id e) > 256)
       (ValueError ''runtime event requires a bounded identity'')) (\<lambda>_.
     bindE (raise_if (re_event_index e < 0 \<or> re_timestamp_ns e < 0)
       (ValueError ''runtime event index and timestamp must be non-negative'')) (\<lambda>_.
     bindE (raise_if (re_lock_kind e = [] \<or> length (re_lock_kind e) > 128)
       (ValueError ''runtime event requires a bounded lock kind'')) (\<lambda>_.
     bindE (raise_if (\<not> bounded_optional (re_lock_id e))
       (ValueError ''runtime lock identity must be bounded'')) (\<lambda>_.
     bindE (raise_if (\<not> bounded_optional (re_stack_id e))
       (ValueError ''runtime stack identity must be bounded'')) (\<lambda>_.
     bindE (raise_if (negative_optional (re_duration_ns e))
       (ValueError ''runtime wait duration must be non-negative'')) (\<lambda>_.
     bindE (raise_if (negative_optional (re_hold_duration_ns e))
       (ValueError ''runtime hold duration must be non-negative'')) (\<lambda>_.
     bindE (raise_if (negative_optional (re_cumulative_wait_ns e))
       (ValueError ''runtime cumulative wait must be non-negative'')) (\<lambda>_.
     bindE (raise_if (case re_observed_count e of None \<Rightarrow> False | Some n \<Rightarrow> n \<le> 0)
       (ValueError ''runtime observed count must be positive'')) (\<lambda>_.
     raise_if (case re_estimated_count e of None \<Rightarrow> False | Some x \<Rightarrow> \<not> float_positive x)
       (ValueError ''runtime estimated count must be finite and positive''))))))))))"

text \<open>Which optional fields each event kind owns.\<close>

definition runtime_event_kind_fields :: "runtime_lock_event \<Rightarrow> unit result" where
  "runtime_event_kind_fields e =
     (let wb = re_wait_begin_event_id e \<noteq> None; we = re_wait_end_event_id e \<noteq> None;
          aq = re_acquire_event_id e \<noteq> None; du = re_duration_ns e \<noteq> None;
          hd = re_hold_duration_ns e \<noteq> None; oc = re_outcome e \<noteq> None;
          ow = re_owner_context e \<noteq> None; pk = re_parked_context e \<noteq> None;
          ob = re_observed_count e \<noteq> None; es = re_estimated_count e \<noteq> None;
          cw = re_cumulative_wait_ns e \<noteq> None
      in (case re_event_kind e of
            RK_WAIT_BEGIN \<Rightarrow> reject_fields ''wait_begin'' [wb, we, aq, du, hd, oc, pk, ob, es, cw]
          | RK_WAIT_END \<Rightarrow>
              bindE (raise_if (\<not> du \<or> \<not> oc)
                (ValueError ''runtime wait_end requires duration and outcome'')) (\<lambda>_.
              reject_fields ''wait_end'' [aq, we, hd, pk, ob, es, cw])
          | RK_ACQUIRE \<Rightarrow> reject_fields ''acquire'' [wb, aq, du, hd, oc, ow, pk, ob, es, cw]
          | RK_RELEASE \<Rightarrow>
              bindE (raise_if ((\<not> aq) \<noteq> (\<not> hd))
                (ValueError ''runtime release acquire identity and duration must be paired'')) (\<lambda>_.
              reject_fields ''release'' [wb, we, du, oc, ow, pk, ob, es, cw])
          | RK_PARK \<Rightarrow> reject_fields ''park'' [wb, we, aq, du, hd, oc, ow, pk, ob, es, cw]
          | RK_UNPARK \<Rightarrow> reject_fields ''unpark'' [wb, we, aq, du, hd, oc, ow, ob, es, cw]
          | RK_SAMPLED_CONTENTION \<Rightarrow>
              bindE (raise_if (re_measurement_semantics e \<notin> {RS_SAMPLED, RS_CUMULATIVE})
                (ValueError ''profile contention requires sampled/cumulative semantics'')) (\<lambda>_.
              bindE (raise_if (\<not> ob \<or> \<not> cw)
                (ValueError ''profile contention requires observed count and wait weight'')) (\<lambda>_.
              reject_fields ''sampled_contention'' [wb, we, aq, du, hd, oc, ow, pk]))))"

definition runtime_event_post_init :: "runtime_lock_event \<Rightarrow> unit result" where
  "runtime_event_post_init e = bindE (runtime_event_fields e) (\<lambda>_. runtime_event_kind_fields e)"

definition runtime_validate_sequence :: "runtime_lock_event list \<Rightarrow> unit result" where
  "runtime_validate_sequence events =
     bindE (raise_if (card (set (map re_event_id events)) \<noteq> length events)
       (ValueError ''runtime event IDs must be unique'')) (\<lambda>_.
     bindE (raise_if (map re_event_index events \<noteq> map int [0..<length events])
       (ValueError ''runtime event indexes must be contiguous'')) (\<lambda>_.
     bindE (raise_if (let ordering = map (\<lambda>e. (re_timestamp_ns e, re_event_index e)) events
                      in ordering \<noteq> sort ordering)
       (ValueError ''runtime events must use canonical timestamp/index order'')) (\<lambda>_.
     raise_if (card (set (map re_measurement_semantics events)) > 1)
       (ValueError ''one runtime evidence stream must use one measurement semantics''))))"

section \<open>Duration statistics\<close>

text \<open>
  \<open>ceil(percentile * n / 100)\<close> divides two integers as floats; the quotient is a multiple of
  one hundredth, so for lists of fewer than \<open>2 ^ 40\<close> values rounding cannot move it across an
  integer, and the rank is the exact integer ceiling used here.
\<close>

definition runtime_percentile :: "int list \<Rightarrow> int \<Rightarrow> int result" where
  "runtime_percentile values percentile =
     (if values = [] then Inr 0
      else bindE (raise_if (percentile < 0 \<or> percentile > 100)
        (ValueError ''runtime percentile must be between zero and one hundred'')) (\<lambda>_.
        let ordered = sort values;
            rank = (percentile * int (length ordered) + 99) div 100
        in if percentile = 0 then Inr (ordered ! 0) else Inr (ordered ! nat (rank - 1))))"

definition runtime_distribution :: "int list \<Rightarrow> runtime_duration_distribution result" where
  "runtime_distribution values =
     (if values = [] then
        Inr \<lparr>rd_sample_count = 0, rd_total_ns = 0, rd_minimum_ns = 0, rd_mean_ns = 0,
             rd_p50_ns = 0, rd_p95_ns = 0, rd_p99_ns = 0, rd_maximum_ns = 0\<rparr>
      else bindE (raise_if (\<exists>v \<in> set values. v < 0)
        (ValueError ''runtime duration distributions cannot contain negative values'')) (\<lambda>_.
        let total = sum_list values in
        bindE (runtime_percentile values 50) (\<lambda>p50.
        bindE (runtime_percentile values 95) (\<lambda>p95.
        bindE (runtime_percentile values 99) (\<lambda>p99.
        Inr \<lparr>rd_sample_count = int (length values), rd_total_ns = total,
             rd_minimum_ns = Min (set values), rd_mean_ns = total div int (length values),
             rd_p50_ns = p50, rd_p95_ns = p95, rd_p99_ns = p99,
             rd_maximum_ns = Max (set values)\<rparr>)))))"

section \<open>What the checks establish\<close>

lemma runtime_sequence_ok:
  assumes "runtime_validate_sequence events = Inr ()"
  shows "distinct (map re_event_id events)"
    "\<And>i. i < length events \<Longrightarrow> re_event_index (events ! i) = int i"
    "sorted (map re_timestamp_ns events)"
    "\<And>e f. e \<in> set events \<Longrightarrow> f \<in> set events \<Longrightarrow> re_measurement_semantics e = re_measurement_semantics f"
proof -
  let ?ord = "map (\<lambda>e. (re_timestamp_ns e, re_event_index e)) events"
  have parts: "card (set (map re_event_id events)) = length events"
    "map re_event_index events = map int [0..<length events]" "?ord = sort ?ord"
    "\<not> card (set (map re_measurement_semantics events)) > 1"
    using assms unfolding runtime_validate_sequence_def bindE_Inr_iff raise_if_Inr Let_def by blast+
  show "distinct (map re_event_id events)"
    by (rule card_distinct) (simp only: parts length_map)
  show "re_event_index (events ! i) = int i" if "i < length events" for i
    using arg_cong [OF parts(2), of "\<lambda>xs. xs ! i"] that by simp
  have "sorted ?ord" using parts(3) by (metis sorted_sort)
  then show "sorted (map re_timestamp_ns events)"
    unfolding sorted_map by (rule sorted_wrt_mono_rel [rotated]) (auto simp: less_eq_prod_def)
  have le: "card (set (map re_measurement_semantics events)) \<le> 1"
    using parts(4) by simp
  then have same: "\<forall>a \<in> set (map re_measurement_semantics events). \<forall>b \<in> set (map re_measurement_semantics events). a = b"
    unfolding One_nat_def card_le_Suc0_iff_eq [OF finite_set] .
  show "re_measurement_semantics e = re_measurement_semantics f" if "e \<in> set events" "f \<in> set events" for e f
    using same that by (metis image_eqI list.set_map)
qed

lemma runtime_percentile_total: "0 \<le> p \<Longrightarrow> p \<le> 100 \<Longrightarrow> \<exists>v. runtime_percentile values p = Inr v"
  by (auto simp: runtime_percentile_def bindE_raise_if Let_def)

lemma runtime_distribution_total:
  assumes "\<forall>v \<in> set values. 0 \<le> v"
  shows "\<exists>d. runtime_distribution values = Inr d"
proof -
  obtain a b c where "runtime_percentile values 50 = Inr a" "runtime_percentile values 95 = Inr b"
    "runtime_percentile values 99 = Inr c"
    using runtime_percentile_total [of 50 "values"] runtime_percentile_total [of 95 "values"]
      runtime_percentile_total [of 99 "values"] by auto
  then show ?thesis using assms by (auto simp: runtime_distribution_def bindE_raise_if Let_def)
qed

lemma runtime_distribution_fields:
  assumes "runtime_distribution values = Inr d"
  shows "rd_sample_count d = int (length values)" "rd_total_ns d = sum_list values"
  using assms by (auto simp: runtime_distribution_def bindE_raise_if Let_def split: if_splits)

end
