(* ===== verification/RuntimeReplay.thy ===== *)
theory RuntimeReplay
  imports RuntimeEvents
begin

text \<open>
  The replay of runtime lock events, \<open>replay_runtime_lock_events\<close> of
  \<open>src/src/perflens/domain/runtime_lock_analysis.py\<close>. Its local variables are the fields of
  \<open>replay_state\<close>, its nested functions operations on it, and the branches of its loop one
  definition per event kind. Event identities are unique in an accepted stream, so the
  identity test \<open>is\<close> between events is equality.
\<close>

section \<open>Data\<close>

datatype runtime_pairing_phase = PP_WAIT | PP_HOLD | PP_PARK

datatype runtime_pairing_reason =
    PR_DUPLICATE_WAIT_BEGIN | PR_UNKNOWN_WAIT_BEGIN | PR_WAIT_IDENTITY_MISMATCH | PR_WAIT_DURATION_MISMATCH
  | PR_WAIT_END_WITHOUT_BEGIN | PR_ACQUIRE_WITHOUT_WAIT | PR_DUPLICATE_ACQUIRE | PR_UNKNOWN_ACQUIRE
  | PR_HOLD_IDENTITY_MISMATCH | PR_HOLD_DURATION_MISMATCH | PR_RELEASE_WITHOUT_ACQUIRE | PR_NON_LIFO_RELEASE
  | PR_REUSED_WAIT_BEGIN | PR_REUSED_WAIT_END | PR_REUSED_ACQUIRE | PR_UNPARK_WITHOUT_PARK
  | PR_TRACE_END_BOUNDARY

record runtime_pairing_issue =
  rx_phase :: runtime_pairing_phase
  rx_reason :: runtime_pairing_reason
  rx_event_ids :: "string list"
  rx_context :: runtime_context
  rx_lock_id :: "string option"
  rx_lock_kind :: string

record runtime_wait_observation =
  wo_context :: runtime_context
  wo_lock_id :: "string option"
  wo_lock_kind :: string
  wo_stack_id :: "string option"
  wo_semantics :: runtime_semantics
  wo_duration_ns :: int
  wo_outcome :: string
  wo_owner_observed :: bool
  wo_event_ids :: "string list"

record runtime_hold_observation =
  ho_context :: runtime_context
  ho_lock_id :: "string option"
  ho_lock_kind :: string
  ho_stack_id :: "string option"
  ho_duration_ns :: int
  ho_event_ids :: "string \<times> string"

record runtime_profile_observation =
  po_context :: runtime_context
  po_lock_id :: "string option"
  po_lock_kind :: string
  po_stack_id :: "string option"
  po_semantics :: runtime_semantics
  po_observed_count :: int
  po_estimated_count :: "py_float option"
  po_cumulative_wait_ns :: int
  po_event_id :: string

record runtime_replay =
  rp_semantics :: "runtime_semantics option"
  rp_waits :: "runtime_wait_observation list"
  rp_holds :: "runtime_hold_observation list"
  rp_profiles :: "runtime_profile_observation list"
  rp_issues :: "runtime_pairing_issue list"
  rp_consumed_event_ids :: "string list"
  rp_unpaired_event_ids :: "string list"
  rp_ignored_event_ids :: "string list"

record runtime_status =
  st_used :: bool
  st_invalid :: bool

type_synonym subject_key = "runtime_context \<times> string option \<times> string"

record replay_state =
  ry_statuses :: "(string, runtime_status) dict"
  ry_pending_waits :: "(subject_key, runtime_lock_event) dict"
  ry_active_acquires :: "(subject_key, runtime_lock_event list) dict"
  ry_pending_parks :: "(subject_key, runtime_lock_event) dict"
  ry_waits :: "runtime_wait_observation list"
  ry_holds :: "runtime_hold_observation list"
  ry_profiles :: "runtime_profile_observation list"
  ry_issues :: "runtime_pairing_issue list"
  ry_paired_wait_begins :: "string set"
  ry_linked_wait_ends :: "string set"
  ry_released_acquires :: "string set"

definition observed_event_count :: "runtime_replay \<Rightarrow> int" where
  "observed_event_count r =
     int (length (rp_consumed_event_ids r)) + int (length (rp_unpaired_event_ids r))
     + int (length (rp_ignored_event_ids r))"

section \<open>Helpers\<close>

definition same_subject :: "runtime_lock_event \<Rightarrow> runtime_lock_event \<Rightarrow> bool" where
  "same_subject l r \<longleftrightarrow> re_context l = re_context r \<and> re_lock_id l = re_lock_id r \<and>
     re_lock_kind l = re_lock_kind r \<and> re_measurement_semantics l = re_measurement_semantics r"

definition duration_matches :: "runtime_lock_event \<Rightarrow> runtime_lock_event \<Rightarrow> int \<Rightarrow> bool" where
  "duration_matches start end_ev d \<longleftrightarrow>
     re_timestamp_ns start \<le> re_timestamp_ns end_ev \<and> re_timestamp_ns end_ev - re_timestamp_ns start = d"

definition subject_key :: "runtime_lock_event \<Rightarrow> subject_key" where
  "subject_key e = (re_context e, re_lock_id e, re_lock_kind e)"

text \<open>Python's \<open>or\<close> on optional strings.\<close>

definition str_or :: "string option \<Rightarrow> string option \<Rightarrow> string option" where
  "str_or a b = (case a of None \<Rightarrow> b | Some s \<Rightarrow> if s = [] then b else Some s)"

definition events_by_id :: "runtime_lock_event list \<Rightarrow> (string, runtime_lock_event) dict" where
  "events_by_id events = fold (\<lambda>e m. dict_set (re_event_id e) e m) events []"

definition fresh_status :: runtime_status where
  "fresh_status = \<lparr>st_used = False, st_invalid = False\<rparr>"

definition initial_statuses :: "runtime_lock_event list \<Rightarrow> (string, runtime_status) dict" where
  "initial_statuses events = fold (\<lambda>e m. dict_set (re_event_id e) fresh_status m) events []"

definition replay_init :: "runtime_lock_event list \<Rightarrow> replay_state" where
  "replay_init events =
     \<lparr>ry_statuses = initial_statuses events, ry_pending_waits = [], ry_active_acquires = [],
      ry_pending_parks = [], ry_waits = [], ry_holds = [], ry_profiles = [], ry_issues = [],
      ry_paired_wait_begins = {}, ry_linked_wait_ends = {}, ry_released_acquires = {}\<rparr>"

definition update_status ::
  "(runtime_status \<Rightarrow> runtime_status) \<Rightarrow> runtime_lock_event \<Rightarrow> replay_state \<Rightarrow> replay_state result" where
  "update_status f e s =
     (case map_of (ry_statuses s) (re_event_id e) of
        None \<Rightarrow> Inl KeyError
      | Some st \<Rightarrow> Inr (s\<lparr>ry_statuses := dict_set (re_event_id e) (f st) (ry_statuses s)\<rparr>))"

definition mark_used :: "runtime_lock_event list \<Rightarrow> replay_state \<Rightarrow> replay_state result" where
  "mark_used = foldE (update_status (\<lambda>st. st\<lparr>st_used := True\<rparr>))"

definition runtime_issue ::
  "runtime_pairing_phase \<Rightarrow> runtime_pairing_reason \<Rightarrow> runtime_lock_event \<Rightarrow> runtime_lock_event list
     \<Rightarrow> replay_state \<Rightarrow> replay_state result" where
  "runtime_issue phase reason subject related s =
     bindE (foldE (update_status (\<lambda>st. st\<lparr>st_invalid := True\<rparr>)) (subject # related) s) (\<lambda>s.
     Inr (s\<lparr>ry_issues := ry_issues s @
       [\<lparr>rx_phase = phase, rx_reason = reason, rx_event_ids = map re_event_id (subject # related),
         rx_context = re_context subject, rx_lock_id = re_lock_id subject,
         rx_lock_kind = re_lock_kind subject\<rparr>]\<rparr>))"

definition is_invalid :: "replay_state \<Rightarrow> runtime_lock_event \<Rightarrow> bool result" where
  "is_invalid s e =
     (case map_of (ry_statuses s) (re_event_id e) of None \<Rightarrow> Inl KeyError | Some st \<Rightarrow> Inr (st_invalid st))"

definition paired_wait ::
  "runtime_lock_event \<Rightarrow> runtime_lock_event \<Rightarrow> int \<Rightarrow> string \<Rightarrow> runtime_context option \<Rightarrow> runtime_wait_observation" where
  "paired_wait start end_ev d outcome ctx =
     \<lparr>wo_context = (case ctx of None \<Rightarrow> re_context start | Some c \<Rightarrow> c),
      wo_lock_id = re_lock_id start, wo_lock_kind = re_lock_kind start,
      wo_stack_id = str_or (re_stack_id end_ev) (re_stack_id start),
      wo_semantics = re_measurement_semantics start, wo_duration_ns = d, wo_outcome = outcome,
      wo_owner_observed = (re_owner_context start \<noteq> None \<or> re_owner_context end_ev \<noteq> None),
      wo_event_ids = [re_event_id start, re_event_id end_ev]\<rparr>"

definition runtime_record_wait ::
  "runtime_lock_event \<Rightarrow> runtime_lock_event \<Rightarrow> int \<Rightarrow> string \<Rightarrow> runtime_context option
     \<Rightarrow> replay_state \<Rightarrow> replay_state result" where
  "runtime_record_wait start end_ev d outcome ctx s =
     (let s = s\<lparr>ry_waits := ry_waits s @ [paired_wait start end_ev d outcome ctx]\<rparr>;
          s = (if re_event_kind start = RK_WAIT_BEGIN
               then s\<lparr>ry_paired_wait_begins := insert (re_event_id start) (ry_paired_wait_begins s)\<rparr> else s)
      in mark_used [start, end_ev] s)"

section \<open>One definition per event kind\<close>

definition replay_wait_begin :: "runtime_lock_event \<Rightarrow> replay_state \<Rightarrow> replay_state result" where
  "replay_wait_begin e s =
     (case map_of (ry_pending_waits s) (subject_key e) of
        Some previous \<Rightarrow>
          bindE (runtime_issue PP_WAIT PR_DUPLICATE_WAIT_BEGIN previous [e] s) (\<lambda>s.
          Inr (s\<lparr>ry_pending_waits := dict_pop (subject_key e) (ry_pending_waits s)\<rparr>))
      | None \<Rightarrow> Inr (s\<lparr>ry_pending_waits := dict_set (subject_key e) e (ry_pending_waits s)\<rparr>))"

text \<open>The wait end once its start is known (or known to be absent).\<close>

definition finish_wait_end ::
  "runtime_lock_event \<Rightarrow> int \<Rightarrow> string \<Rightarrow> runtime_lock_event option \<Rightarrow> replay_state \<Rightarrow> replay_state result" where
  "finish_wait_end e d outcome start s =
     (case start of
        None \<Rightarrow>
          if re_measurement_semantics e = RS_THRESHOLDED then
            mark_used [e] (s\<lparr>ry_waits := ry_waits s @
              [\<lparr>wo_context = re_context e, wo_lock_id = re_lock_id e, wo_lock_kind = re_lock_kind e,
                wo_stack_id = re_stack_id e, wo_semantics = re_measurement_semantics e,
                wo_duration_ns = d, wo_outcome = outcome,
                wo_owner_observed = (re_owner_context e \<noteq> None), wo_event_ids = [re_event_id e]\<rparr>]\<rparr>)
          else runtime_issue PP_WAIT PR_WAIT_END_WITHOUT_BEGIN e [] s
      | Some st \<Rightarrow>
          let s = s\<lparr>ry_pending_waits := dict_pop (subject_key st) (ry_pending_waits s)\<rparr> in
          if \<not> duration_matches st e d then runtime_issue PP_WAIT PR_WAIT_DURATION_MISMATCH e [st] s
          else runtime_record_wait st e d outcome None s)"

definition referenced_wait_end ::
  "runtime_lock_event \<Rightarrow> int \<Rightarrow> string \<Rightarrow> runtime_lock_event option \<Rightarrow> replay_state \<Rightarrow> replay_state result" where
  "referenced_wait_end e d outcome referenced s =
     (case referenced of
        None \<Rightarrow> runtime_issue PP_WAIT PR_UNKNOWN_WAIT_BEGIN e [] s
      | Some r \<Rightarrow>
          if re_event_kind r \<noteq> RK_WAIT_BEGIN then runtime_issue PP_WAIT PR_UNKNOWN_WAIT_BEGIN e [] s
          else if re_event_id r \<in> ry_paired_wait_begins s
          then runtime_issue PP_WAIT PR_REUSED_WAIT_BEGIN e [r] s
          else
            bindE (is_invalid s r) (\<lambda>bad.
            if bad then runtime_issue PP_WAIT PR_REUSED_WAIT_BEGIN e [r] s
            else if \<not> same_subject r e then
              bindE (runtime_issue PP_WAIT PR_WAIT_IDENTITY_MISMATCH e [r] s) (\<lambda>s.
              Inr (s\<lparr>ry_pending_waits := dict_pop (subject_key r) (ry_pending_waits s)\<rparr>))
            else finish_wait_end e d outcome (Some r) s))"

definition replay_wait_end ::
  "(string, runtime_lock_event) dict \<Rightarrow> runtime_lock_event \<Rightarrow> replay_state \<Rightarrow> replay_state result" where
  "replay_wait_end by_id e s =
     (case (re_duration_ns e, re_outcome e) of
        (Some d, Some outcome) \<Rightarrow>
          (case re_wait_begin_event_id e of
             Some i \<Rightarrow> referenced_wait_end e d outcome (map_of by_id i) s
           | None \<Rightarrow> finish_wait_end e d outcome (map_of (ry_pending_waits s) (subject_key e)) s)
      | _ \<Rightarrow> Inl AssertionError)"

text \<open>An acquire may link the wait end that led to it; the link either fails or continues.\<close>

definition link_wait_end ::
  "runtime_lock_event \<Rightarrow> runtime_lock_event option \<Rightarrow> replay_state \<Rightarrow> (replay_state \<Rightarrow> replay_state result)
     \<Rightarrow> replay_state result" where
  "link_wait_end e referenced s k =
     (case referenced of
        None \<Rightarrow> runtime_issue PP_WAIT PR_UNKNOWN_WAIT_BEGIN e [] s
      | Some r \<Rightarrow>
          if re_event_kind r \<noteq> RK_WAIT_END \<or> re_outcome r \<noteq> Some ''acquired''
          then runtime_issue PP_WAIT PR_UNKNOWN_WAIT_BEGIN e [] s
          else if re_event_id r \<in> ry_linked_wait_ends s
          then runtime_issue PP_WAIT PR_REUSED_WAIT_END e [r] s
          else
            bindE (is_invalid s r) (\<lambda>bad.
            if bad then runtime_issue PP_WAIT PR_REUSED_WAIT_END e [r] s
            else if \<not> same_subject r e \<or> re_timestamp_ns r > re_timestamp_ns e
            then runtime_issue PP_WAIT PR_WAIT_IDENTITY_MISMATCH e [r] s
            else
              bindE (mark_used [r, e] s) (\<lambda>s.
              k (s\<lparr>ry_linked_wait_ends := insert (re_event_id r) (ry_linked_wait_ends s)\<rparr>))))"

definition activate_acquire :: "runtime_lock_event \<Rightarrow> replay_state \<Rightarrow> replay_state result" where
  "activate_acquire e s =
     (let k = subject_key e; active = dict_get_or [] (ry_active_acquires s) k in
      if active \<noteq> [] \<and> re_lock_kind e \<noteq> ''recursive_mutex'' then
        let previous = last active; rest = butlast active;
            s = s\<lparr>ry_active_acquires :=
                  (if rest = [] then dict_pop k (ry_active_acquires s)
                   else dict_set k rest (ry_active_acquires s))\<rparr>
        in runtime_issue PP_HOLD PR_DUPLICATE_ACQUIRE previous [e] s
      else Inr (s\<lparr>ry_active_acquires := dict_set k (active @ [e]) (ry_active_acquires s)\<rparr>))"

definition acquire_after_link :: "runtime_lock_event \<Rightarrow> replay_state \<Rightarrow> replay_state result" where
  "acquire_after_link e s =
     (let start = map_of (ry_pending_waits s) (subject_key e);
          s = s\<lparr>ry_pending_waits := dict_pop (subject_key e) (ry_pending_waits s)\<rparr>
      in bindE (case start of
                  None \<Rightarrow> Inr s
                | Some st \<Rightarrow>
                    runtime_record_wait st e (re_timestamp_ns e - re_timestamp_ns st) ''acquired'' None s)
           (activate_acquire e))"

definition replay_acquire ::
  "(string, runtime_lock_event) dict \<Rightarrow> runtime_lock_event \<Rightarrow> replay_state \<Rightarrow> replay_state result" where
  "replay_acquire by_id e s =
     (case re_wait_end_event_id e of
        Some i \<Rightarrow> link_wait_end e (map_of by_id i) s (acquire_after_link e)
      | None \<Rightarrow> acquire_after_link e s)"

definition close_acquire :: "runtime_lock_event \<Rightarrow> runtime_lock_event \<Rightarrow> replay_state \<Rightarrow> replay_state result" where
  "close_acquire e a s =
     (let active = dict_get_or [] (ry_active_acquires s) (subject_key a);
          s = s\<lparr>ry_active_acquires :=
                (if butlast active = [] then dict_pop (subject_key a) (ry_active_acquires s)
                 else dict_set (subject_key a) (butlast active) (ry_active_acquires s)),
                ry_released_acquires := insert (re_event_id a) (ry_released_acquires s)\<rparr>
      in (case re_hold_duration_ns e of
            None \<Rightarrow> mark_used [a, e] s
          | Some d \<Rightarrow>
              if \<not> duration_matches a e d then runtime_issue PP_HOLD PR_HOLD_DURATION_MISMATCH e [a] s
              else
                let s = (if re_measurement_semantics e = RS_EXACT
                         then s\<lparr>ry_holds := ry_holds s @
                           [\<lparr>ho_context = re_context e, ho_lock_id = re_lock_id e, ho_lock_kind = re_lock_kind e,
                             ho_stack_id = str_or (re_stack_id e) (re_stack_id a), ho_duration_ns = d,
                             ho_event_ids = (re_event_id a, re_event_id e)\<rparr>]\<rparr>
                         else s)
                in mark_used [a, e] s))"

definition release_acquire ::
  "runtime_lock_event \<Rightarrow> runtime_lock_event option \<Rightarrow> replay_state \<Rightarrow> replay_state result" where
  "release_acquire e acquire s =
     (case acquire of
        None \<Rightarrow> runtime_issue PP_HOLD PR_RELEASE_WITHOUT_ACQUIRE e [] s
      | Some a \<Rightarrow>
          let active = dict_get_or [] (ry_active_acquires s) (subject_key a) in
          if active = [] \<or> a \<notin> set active then runtime_issue PP_HOLD PR_REUSED_ACQUIRE e [a] s
          else if last active \<noteq> a then
            bindE (runtime_issue PP_HOLD PR_NON_LIFO_RELEASE e [a] s) (\<lambda>s.
            Inr (s\<lparr>ry_active_acquires := dict_pop (subject_key a) (ry_active_acquires s)\<rparr>))
          else close_acquire e a s)"

definition referenced_release ::
  "runtime_lock_event \<Rightarrow> runtime_lock_event option \<Rightarrow> replay_state \<Rightarrow> replay_state result" where
  "referenced_release e referenced s =
     (case referenced of
        None \<Rightarrow> runtime_issue PP_HOLD PR_UNKNOWN_ACQUIRE e [] s
      | Some r \<Rightarrow>
          if re_event_kind r \<noteq> RK_ACQUIRE then runtime_issue PP_HOLD PR_UNKNOWN_ACQUIRE e [] s
          else if re_event_id r \<in> ry_released_acquires s
          then runtime_issue PP_HOLD PR_REUSED_ACQUIRE e [r] s
          else
            bindE (is_invalid s r) (\<lambda>bad.
            if bad then runtime_issue PP_HOLD PR_REUSED_ACQUIRE e [r] s
            else if \<not> same_subject r e then
              bindE (runtime_issue PP_HOLD PR_HOLD_IDENTITY_MISMATCH e [r] s) (\<lambda>s.
              Inr (s\<lparr>ry_active_acquires := dict_pop (subject_key r) (ry_active_acquires s)\<rparr>))
            else release_acquire e (Some r) s))"

definition replay_release ::
  "(string, runtime_lock_event) dict \<Rightarrow> runtime_lock_event \<Rightarrow> replay_state \<Rightarrow> replay_state result" where
  "replay_release by_id e s =
     (case re_acquire_event_id e of
        Some i \<Rightarrow> referenced_release e (map_of by_id i) s
      | None \<Rightarrow>
          let active = dict_get_or [] (ry_active_acquires s) (subject_key e) in
          release_acquire e (if active = [] then None else Some (last active)) s)"

definition replay_park :: "runtime_lock_event \<Rightarrow> replay_state \<Rightarrow> replay_state result" where
  "replay_park e s =
     (case map_of (ry_pending_parks s) (subject_key e) of
        Some previous \<Rightarrow>
          bindE (runtime_issue PP_PARK PR_DUPLICATE_WAIT_BEGIN previous [e] s) (\<lambda>s.
          Inr (s\<lparr>ry_pending_parks := dict_pop (subject_key e) (ry_pending_parks s)\<rparr>))
      | None \<Rightarrow> Inr (s\<lparr>ry_pending_parks := dict_set (subject_key e) e (ry_pending_parks s)\<rparr>))"

definition replay_unpark :: "runtime_lock_event \<Rightarrow> replay_state \<Rightarrow> replay_state result" where
  "replay_unpark e s =
     (case re_parked_context e of
        None \<Rightarrow> runtime_issue PP_PARK PR_UNPARK_WITHOUT_PARK e [] s
      | Some ctx \<Rightarrow>
          let park_key = (ctx, re_lock_id e, re_lock_kind e);
              park = map_of (ry_pending_parks s) park_key;
              s = s\<lparr>ry_pending_parks := dict_pop park_key (ry_pending_parks s)\<rparr>
          in (case park of
                None \<Rightarrow> runtime_issue PP_PARK PR_UNPARK_WITHOUT_PARK e [] s
              | Some p \<Rightarrow>
                  bindE (is_invalid s p) (\<lambda>bad.
                  if bad then runtime_issue PP_PARK PR_UNPARK_WITHOUT_PARK e [p] s
                  else runtime_record_wait p e (re_timestamp_ns e - re_timestamp_ns p) ''unparked''
                         (Some (re_context p)) s)))"

definition replay_profile :: "runtime_lock_event \<Rightarrow> replay_state \<Rightarrow> replay_state result" where
  "replay_profile e s =
     (case (re_observed_count e, re_cumulative_wait_ns e) of
        (Some n, Some w) \<Rightarrow>
          mark_used [e] (s\<lparr>ry_profiles := ry_profiles s @
            [\<lparr>po_context = re_context e, po_lock_id = re_lock_id e, po_lock_kind = re_lock_kind e,
              po_stack_id = re_stack_id e, po_semantics = re_measurement_semantics e,
              po_observed_count = n, po_estimated_count = re_estimated_count e,
              po_cumulative_wait_ns = w, po_event_id = re_event_id e\<rparr>]\<rparr>)
      | _ \<Rightarrow> Inl AssertionError)"

definition replay_step ::
  "(string, runtime_lock_event) dict \<Rightarrow> runtime_lock_event \<Rightarrow> replay_state \<Rightarrow> replay_state result" where
  "replay_step by_id e s =
     (case re_event_kind e of
        RK_WAIT_BEGIN \<Rightarrow> replay_wait_begin e s
      | RK_WAIT_END \<Rightarrow> replay_wait_end by_id e s
      | RK_ACQUIRE \<Rightarrow> replay_acquire by_id e s
      | RK_RELEASE \<Rightarrow> replay_release by_id e s
      | RK_PARK \<Rightarrow> replay_park e s
      | RK_UNPARK \<Rightarrow> replay_unpark e s
      | RK_SAMPLED_CONTENTION \<Rightarrow> replay_profile e s)"

section \<open>The replay\<close>

definition trace_end_issues :: "replay_state \<Rightarrow> replay_state result" where
  "trace_end_issues s =
     bindE (foldE (\<lambda>e. runtime_issue PP_WAIT PR_TRACE_END_BOUNDARY e []) (map snd (ry_pending_waits s)) s) (\<lambda>s.
     bindE (foldE (\<lambda>e. runtime_issue PP_HOLD PR_TRACE_END_BOUNDARY e [])
       (concat (map snd (ry_active_acquires s))) s) (\<lambda>s.
     foldE (\<lambda>e. runtime_issue PP_PARK PR_TRACE_END_BOUNDARY e []) (map snd (ry_pending_parks s)) s))"

definition event_status_of :: "replay_state \<Rightarrow> runtime_lock_event \<Rightarrow> runtime_status" where
  "event_status_of s e = dict_get_or fresh_status (ry_statuses s) (re_event_id e)"

definition build_replay :: "runtime_lock_event list \<Rightarrow> replay_state \<Rightarrow> runtime_replay" where
  "build_replay events s =
     \<lparr>rp_semantics = (case events of [] \<Rightarrow> None | e # _ \<Rightarrow> Some (re_measurement_semantics e)),
      rp_waits = ry_waits s, rp_holds = ry_holds s, rp_profiles = ry_profiles s, rp_issues = ry_issues s,
      rp_consumed_event_ids = map re_event_id (filter (\<lambda>e. st_used (event_status_of s e)) events),
      rp_unpaired_event_ids = map re_event_id
        (filter (\<lambda>e. \<not> st_used (event_status_of s e) \<and> st_invalid (event_status_of s e)) events),
      rp_ignored_event_ids = map re_event_id
        (filter (\<lambda>e. \<not> st_used (event_status_of s e) \<and> \<not> st_invalid (event_status_of s e)) events)\<rparr>"

definition replay_run :: "runtime_lock_event list \<Rightarrow> replay_state result" where
  "replay_run events =
     bindE (foldE (replay_step (events_by_id events)) events (replay_init events)) trace_end_issues"

definition replay_runtime_lock_events :: "runtime_lock_event list \<Rightarrow> runtime_replay result" where
  "replay_runtime_lock_events events =
     bindE (runtime_validate_sequence events) (\<lambda>_.
     bindE (replay_run events) (\<lambda>s. Inr (build_replay events s)))"

end
