(* ===== verification/PyText.thy ===== *)
theory PyText
  imports Prelude
begin

text \<open>
  Text as the profile parsers see it: a Python \<open>str\<close> is a list of code points, compared
  lexicographically. The theory has the string methods the sources use (\<open>strip\<close>,
  \<open>split\<close>, \<open>rsplit\<close>, \<open>removesuffix\<close>, \<open>int\<close>, \<open>str\<close>), the line reader of a text stream
  opened with \<open>newline=""\<close>, and the laws the parsers rely on.
\<close>

type_synonym pytext = "nat list"

definition ascii :: "string \<Rightarrow> pytext" where
  "ascii s = map of_char s"

section \<open>Integers as text\<close>

text \<open>Decimal representation, as \<open>str\<close> prints an integer.\<close>

fun str_nat :: "nat \<Rightarrow> string" where
  "str_nat n = (if n < 10 then [char_of (48 + n)] else str_nat (n div 10) @ [char_of (48 + n mod 10)])"

declare str_nat.simps [simp del]

definition str_int :: "int \<Rightarrow> string" where
  "str_int i = (if i < 0 then ''-'' @ str_nat (nat (- i)) else str_nat (nat i))"

text \<open>
  \<open>int(text)\<close>: surrounding white space, a sign, decimal digits with single underscores
  between them, and at most 4300 digits. \<open>dec\<close> gives the value of the decimal digits
  outside ASCII (\<open>unicodedata.decimal\<close>), which the parsers accept like \<open>int\<close> does.
\<close>

definition digit_value :: "(nat \<Rightarrow> nat option) \<Rightarrow> nat \<Rightarrow> nat option" where
  "digit_value dec c = (if 48 \<le> c \<and> c \<le> 57 then Some (c - 48) else if c < 128 then None else dec c)"

fun int_digits :: "(nat \<Rightarrow> nat option) \<Rightarrow> bool \<Rightarrow> nat list \<Rightarrow> pytext \<Rightarrow> nat list option" where
  "int_digits dec after_digit acc [] = (if after_digit then Some acc else None)"
| "int_digits dec after_digit acc (c # cs) =
     (if c = 95 then (if after_digit then int_digits dec False acc cs else None)
      else case digit_value dec c of
             None \<Rightarrow> None
           | Some d \<Rightarrow> int_digits dec True (acc @ [d]) cs)"

definition digits_value :: "nat list \<Rightarrow> nat" where
  "digits_value ds = fold (\<lambda>d n. 10 * n + d) ds 0"

section \<open>White space\<close>

text \<open>The code points \<open>str.isspace\<close> accepts.\<close>

definition is_space :: "nat \<Rightarrow> bool" where
  "is_space c \<longleftrightarrow> (9 \<le> c \<and> c \<le> 13) \<or> (28 \<le> c \<and> c \<le> 32) \<or> c = 133 \<or> c = 160 \<or> c = 5760 \<or>
     (8192 \<le> c \<and> c \<le> 8202) \<or> c = 8232 \<or> c = 8233 \<or> c = 8239 \<or> c = 8287 \<or> c = 12288"

definition lstrip :: "pytext \<Rightarrow> pytext" where
  "lstrip s = dropWhile is_space s"

definition rstrip :: "pytext \<Rightarrow> pytext" where
  "rstrip s = rev (dropWhile is_space (rev s))"

definition strip :: "pytext \<Rightarrow> pytext" where
  "strip s = rstrip (lstrip s)"

definition py_int :: "(nat \<Rightarrow> nat option) \<Rightarrow> pytext \<Rightarrow> int option" where
  "py_int dec s =
     (let body = strip s;
          negative = (case body of c # _ \<Rightarrow> c = 45 | [] \<Rightarrow> False);
          digits = (case body of c # cs \<Rightarrow> if c = 43 \<or> c = 45 then cs else body | [] \<Rightarrow> [])
      in case int_digits dec False [] digits of
           None \<Rightarrow> None
         | Some ds \<Rightarrow>
             if length ds > 4300 then None
             else Some (if negative then - int (digits_value ds) else int (digits_value ds)))"

section \<open>Splitting\<close>

text \<open>\<open>s.split(sep)\<close> for a single character.\<close>

fun split_on :: "nat \<Rightarrow> pytext \<Rightarrow> pytext list" where
  "split_on sep [] = [[]]"
| "split_on sep (c # cs) =
     (if c = sep then [] # split_on sep cs
      else case split_on sep cs of [] \<Rightarrow> [[c]] | w # ws \<Rightarrow> (c # w) # ws)"

text \<open>\<open>s.rsplit(maxsplit=1)\<close> when it yields two parts: the last word and what precedes it.\<close>

definition rsplit_word :: "pytext \<Rightarrow> (pytext \<times> pytext) option" where
  "rsplit_word s =
     (let body = rstrip s;
          word = rev (takeWhile (\<lambda>c. \<not> is_space c) (rev body));
          front = rstrip (rev (dropWhile (\<lambda>c. \<not> is_space c) (rev body)))
      in if word = [] \<or> front = [] then None else Some (front, word))"

definition starts_with :: "pytext \<Rightarrow> pytext \<Rightarrow> bool" where
  "starts_with p s \<longleftrightarrow> take (length p) s = p"

definition ends_with :: "pytext \<Rightarrow> pytext \<Rightarrow> bool" where
  "ends_with p s \<longleftrightarrow> length p \<le> length s \<and> drop (length s - length p) s = p"

definition removesuffix :: "pytext \<Rightarrow> pytext \<Rightarrow> pytext" where
  "removesuffix p s = (if p \<noteq> [] \<and> ends_with p s then take (length s - length p) s else s)"

section \<open>Reading lines\<close>

text \<open>
  The length of the first line of a stream, terminator included: lines end at a line feed, a
  carriage return, or the two together, and are not translated.
\<close>

fun line_length :: "pytext \<Rightarrow> nat" where
  "line_length [] = 0"
| "line_length (c # cs) =
     (if c = 10 then 1
      else if c = 13 then (case cs of d # _ \<Rightarrow> if d = 10 then 2 else 1 | [] \<Rightarrow> 1)
      else Suc (line_length cs))"

text \<open>\<open>readline(limit)\<close>: the text read and the rest of the stream.\<close>

definition readline :: "nat \<Rightarrow> pytext \<Rightarrow> pytext \<times> pytext" where
  "readline limit s = (let n = min limit (line_length s) in (take n s, drop n s))"

section \<open>Laws\<close>

lemma line_length_pos: "s \<noteq> [] \<Longrightarrow> 0 < line_length s"
  by (cases s) (auto split: list.splits)

lemma line_length_le: "line_length s \<le> length s"
  by (induction s rule: line_length.induct) (auto split: list.splits)

lemma readline_append: "readline limit s = (l, r) \<Longrightarrow> s = l @ r"
  by (auto simp: readline_def Let_def)

lemma readline_progress:
  assumes "readline limit s = (l, r)" and "0 < limit" and "s \<noteq> []"
  shows "l \<noteq> [] \<and> length r < length s"
  using assms line_length_pos [of s] by (auto simp: readline_def Let_def)

lemma readline_length: "readline limit s = (l, r) \<Longrightarrow> length l \<le> limit"
  by (auto simp: readline_def Let_def)

lemma rstrip_last: "rstrip s \<noteq> [] \<Longrightarrow> \<not> is_space (last (rstrip s))"
  by (metis hd_dropWhile last_rev rev_is_Nil_conv rstrip_def)

lemma lstrip_hd: "lstrip s \<noteq> [] \<Longrightarrow> \<not> is_space (hd (lstrip s))"
  by (simp add: lstrip_def hd_dropWhile)

lemma rstrip_prefix: "\<exists>t. s = rstrip s @ t"
proof -
  have "rev s = takeWhile is_space (rev s) @ dropWhile is_space (rev s)" by simp
  then have "s = rev (dropWhile is_space (rev s)) @ rev (takeWhile is_space (rev s))"
    by (metis rev_append rev_rev_ident)
  then show ?thesis by (auto simp: rstrip_def)
qed

lemma strip_ends:
  assumes "strip s \<noteq> []"
  shows "\<not> is_space (hd (strip s))" "\<not> is_space (last (strip s))"
proof -
  obtain t where t: "lstrip s = strip s @ t" using rstrip_prefix [of "lstrip s"] by (auto simp: strip_def)
  with assms have "hd (strip s) = hd (lstrip s)" "lstrip s \<noteq> []" by auto
  then show "\<not> is_space (hd (strip s))" using lstrip_hd [of s] by simp
  show "\<not> is_space (last (strip s))" using assms rstrip_last [of "lstrip s"] by (simp add: strip_def)
qed

lemma rstrip_id: "s = [] \<or> \<not> is_space (last s) \<Longrightarrow> rstrip s = s"
  by (cases s rule: rev_cases) (auto simp: rstrip_def)

lemma lstrip_id: "s = [] \<or> \<not> is_space (hd s) \<Longrightarrow> lstrip s = s"
  by (cases s) (auto simp: lstrip_def)

lemma strip_idem [simp]: "strip (strip s) = strip s"
proof (cases "strip s = []")
  case True
  have "strip [] = []" by (simp add: strip_def lstrip_def rstrip_def)
  with True show ?thesis by simp
next
  case False
  from strip_ends [OF this] show ?thesis unfolding strip_def [of "strip s"] by (simp add: lstrip_id rstrip_id)
qed

lemma split_on_nonempty: "split_on sep s \<noteq> []"
  by (cases s) (auto split: list.splits)

lemma split_on_join: "sep \<notin> set w \<Longrightarrow> split_on sep (w @ sep # s) = w # split_on sep s"
  by (induction w) auto

lemma split_on_word: "sep \<notin> set w \<Longrightarrow> split_on sep w = [w]"
  by (induction w) auto

text \<open>\<open>sep.join(words)\<close> and \<open>split(sep)\<close> are inverse on words without the separator.\<close>

fun join_with :: "nat \<Rightarrow> pytext list \<Rightarrow> pytext" where
  "join_with sep [] = []"
| "join_with sep [w] = w"
| "join_with sep (w # v # ws) = w @ sep # join_with sep (v # ws)"

lemma split_join: "ws \<noteq> [] \<Longrightarrow> \<forall>w \<in> set ws. sep \<notin> set w \<Longrightarrow> split_on sep (join_with sep ws) = ws"
  by (induction sep ws rule: join_with.induct) (auto simp: split_on_join split_on_word)

text \<open>A word that ends a line after white space is what \<open>rsplit\<close> splits off.\<close>

lemma rsplit_word_append:
  assumes "w \<noteq> []" "\<forall>c \<in> set w. \<not> is_space c" "f \<noteq> []" "\<not> is_space (last f)"
  shows "rsplit_word (f @ 32 # w) = Some (f, w)"
proof -
  have sp: "is_space 32" by (simp add: is_space_def)
  have body: "rstrip (f @ 32 # w) = f @ 32 # w"
    using assms(1,2) by (intro rstrip_id) auto
  have "takeWhile (\<lambda>c. \<not> is_space c) (rev (f @ 32 # w)) = rev w"
    using sp takeWhile_append2 [of "rev w" "\<lambda>c. \<not> is_space c" "32 # rev f"] assms(2) by simp
  moreover have "dropWhile (\<lambda>c. \<not> is_space c) (rev (f @ 32 # w)) = 32 # rev f"
    using sp dropWhile_append2 [of "rev w" "\<lambda>c. \<not> is_space c" "32 # rev f"] assms(2) by simp
  moreover have "rstrip (f @ [32]) = f"
    using assms(3,4) sp rstrip_id [of f] by (simp add: rstrip_def)
  ultimately show ?thesis
    using assms(1,3) unfolding rsplit_word_def body Let_def by simp
qed

section \<open>Printing and reading integers\<close>

lemma str_nat_nonempty: "str_nat n \<noteq> []"
  by (subst str_nat.simps) simp

lemma ascii_str_nat_digits: "c \<in> set (ascii (str_nat n)) \<Longrightarrow> 48 \<le> c \<and> c \<le> 57"
proof (induction n rule: str_nat.induct)
  case (1 n)
  show ?case
  proof (cases "n < 10")
    case True
    with 1 show ?thesis by (subst (asm) str_nat.simps) (auto simp: ascii_def)
  next
    case False
    have "ascii (str_nat n) = ascii (str_nat (n div 10)) @ [48 + n mod 10]"
      using False by (subst str_nat.simps) (simp add: ascii_def)
    with 1 False show ?thesis by auto
  qed
qed

lemma int_digits_ascii:
  "\<forall>c \<in> set s. 48 \<le> c \<and> c \<le> 57 \<Longrightarrow> s \<noteq> [] \<or> b \<Longrightarrow> int_digits dec b acc s = Some (acc @ map (\<lambda>c. c - 48) s)"
  by (induction s arbitrary: b acc) (auto simp: digit_value_def)

lemma digits_value_snoc: "digits_value (ds @ [d]) = 10 * digits_value ds + d"
  by (simp add: digits_value_def)

lemma digits_value_str_nat: "digits_value (map (\<lambda>c. c - 48) (ascii (str_nat n))) = n"
proof (induction n rule: str_nat.induct)
  case (1 n)
  show ?case
  proof (cases "n < 10")
    case True
    then show ?thesis by (subst str_nat.simps) (simp add: ascii_def digits_value_def)
  next
    case False
    have "ascii (str_nat n) = ascii (str_nat (n div 10)) @ [48 + n mod 10]"
      using False by (subst str_nat.simps) (simp add: ascii_def)
    then show ?thesis using 1 False by (simp add: digits_value_snoc)
  qed
qed

text \<open>Reading a printed natural number gives the number back, within the digit limit.\<close>

lemma py_int_str_nat:
  assumes "length (str_nat n) \<le> 4300"
  shows "py_int dec (ascii (str_nat n)) = Some (int n)"
proof -
  let ?s = "ascii (str_nat n)"
  have digits: "\<forall>c \<in> set ?s. 48 \<le> c \<and> c \<le> 57" using ascii_str_nat_digits by blast
  have ne: "?s \<noteq> []" using str_nat_nonempty [of n] by (simp add: ascii_def)
  have nosp: "\<not> is_space c" if "c \<in> set ?s" for c using digits that by (auto simp: is_space_def)
  have "strip ?s = ?s"
    unfolding strip_def using nosp ne lstrip_id [of ?s] rstrip_id [of ?s] by simp
  moreover obtain c cs where c: "?s = c # cs" "48 \<le> c" using ne digits by (cases ?s) auto
  moreover have "int_digits dec False [] ?s = Some (map (\<lambda>c. c - 48) ?s)"
    using int_digits_ascii [OF digits] ne by simp
  moreover have "length ?s \<le> 4300" using assms by (simp add: ascii_def)
  ultimately show ?thesis
    using digits_value_str_nat [of n] unfolding py_int_def Let_def by simp
qed

end
