(* ===== verification/RuntimeAnalysis.thy ===== *)
theory RuntimeAnalysis
  imports RuntimeReplay Projection PyText
begin

text \<open>
  The five projections of \<open>src/src/perflens/domain/runtime_lock_analysis.py\<close>: the
  accumulators, the loops that distribute the replayed observations over locks, execution
  contexts, call paths, outcomes and lock kinds, the exported pages with their omission
  summaries, and the conservation check that closes the analysis.
\<close>

section \<open>Data\<close>

record runtime_metrics =
  rm_exact_waits :: runtime_duration_distribution
  rm_thresholded_waits :: runtime_duration_distribution
  rm_sampled_observation_count :: int
  rm_cumulative_observation_count :: int
  rm_observed_or_estimated_wait_ns :: int
  rm_exact_holds :: runtime_duration_distribution
  rm_owner_observed_count :: int

definition observation_count :: "runtime_metrics \<Rightarrow> int" where
  "observation_count m =
     rd_sample_count (rm_exact_waits m) + rd_sample_count (rm_thresholded_waits m)
     + rm_sampled_observation_count m + rm_cumulative_observation_count m"

definition total_wait_ns :: "runtime_metrics \<Rightarrow> int" where
  "total_wait_ns m = rm_observed_or_estimated_wait_ns m"

record runtime_lock_projection =
  pl_lock_id :: "string option"
  pl_lock_kind :: string
  pl_metrics :: runtime_metrics
  pl_waiter_context_count :: int
  pl_top_stack_ids :: "string list"

record runtime_context_projection =
  pc_context :: runtime_context
  pc_metrics :: runtime_metrics
  pc_lock_count :: "int option"

record runtime_call_path_projection =
  pp_stack_id :: "string option"
  pp_metrics :: runtime_metrics
  pp_lock_count :: "int option"
  pp_execution_context_count :: int

record runtime_outcome_projection =
  pu_outcome :: string
  pu_metrics :: runtime_metrics
  pu_lock_count :: "int option"
  pu_execution_context_count :: int

record runtime_lock_kind_projection =
  pk_lock_kind :: string
  pk_metrics :: runtime_metrics
  pk_lock_count :: "int option"
  pk_execution_context_count :: int

record runtime_projection_omission =
  om_total_row_count :: int
  om_exported_row_count :: int
  om_omitted_row_count :: int
  om_exact_wait_count :: int
  om_exact_wait_ns :: int
  om_thresholded_wait_count :: int
  om_thresholded_wait_ns :: int
  om_sampled_observation_count :: int
  om_cumulative_observation_count :: int
  om_observed_or_estimated_wait_ns :: int
  om_observation_count :: int
  om_wait_ns :: int
  om_hold_count :: int
  om_hold_ns :: int
  om_owner_observed_count :: int

definition omission_post_init :: "runtime_projection_omission \<Rightarrow> unit result" where
  "omission_post_init x =
     bindE (raise_if (om_total_row_count x \<noteq> om_exported_row_count x + om_omitted_row_count x)
       (ValueError ''runtime projection row counts are not conserved'')) (\<lambda>_.
     bindE (raise_if (om_observation_count x \<noteq> om_exact_wait_count x + om_thresholded_wait_count x
         + om_sampled_observation_count x + om_cumulative_observation_count x)
       (ValueError ''runtime omitted semantic observation counts are not conserved'')) (\<lambda>_.
     raise_if (om_wait_ns x \<noteq> om_observed_or_estimated_wait_ns x)
       (ValueError ''runtime omitted semantic wait weights are not conserved'')))"

record 'row runtime_page =
  pg_rows :: "'row list"
  pg_omission :: runtime_projection_omission

record runtime_lock_analysis =
  ra_replay :: runtime_replay
  ra_totals :: runtime_metrics
  ra_locks :: "runtime_lock_projection runtime_page"
  ra_contexts :: "runtime_context_projection runtime_page"
  ra_call_paths :: "runtime_call_path_projection runtime_page"
  ra_outcomes :: "runtime_outcome_projection runtime_page"
  ra_lock_kinds :: "runtime_lock_kind_projection runtime_page"

record runtime_accumulator =
  ac_exact_wait_ns :: "int list"
  ac_thresholded_wait_ns :: "int list"
  ac_sampled_observation_count :: int
  ac_cumulative_observation_count :: int
  ac_observed_or_estimated_wait_ns :: int
  ac_exact_hold_ns :: "int list"
  ac_owner_observed_count :: int

definition accumulator_init :: runtime_accumulator where
  "accumulator_init =
     \<lparr>ac_exact_wait_ns = [], ac_thresholded_wait_ns = [], ac_sampled_observation_count = 0,
      ac_cumulative_observation_count = 0, ac_observed_or_estimated_wait_ns = 0,
      ac_exact_hold_ns = [], ac_owner_observed_count = 0\<rparr>"

type_synonym lock_key = "string option \<times> string"

text \<open>The local variables of the analysis; a \<open>defaultdict\<close> reads as its default when a key is absent.\<close>

record projection_tables =
  tb_totals :: runtime_accumulator
  tb_by_lock :: "(lock_key, runtime_accumulator) dict"
  tb_lock_contexts :: "(lock_key, runtime_context set) dict"
  tb_lock_stacks :: "(lock_key, (string, int) dict) dict"
  tb_by_context :: "(runtime_context, runtime_accumulator) dict"
  tb_context_locks :: "(runtime_context, lock_key set) dict"
  tb_by_path :: "(string option, runtime_accumulator) dict"
  tb_path_locks :: "(string option, lock_key set) dict"
  tb_path_contexts :: "(string option, runtime_context set) dict"
  tb_by_outcome :: "(string, runtime_accumulator) dict"
  tb_outcome_locks :: "(string, lock_key set) dict"
  tb_outcome_contexts :: "(string, runtime_context set) dict"
  tb_by_kind :: "(string, runtime_accumulator) dict"
  tb_kind_locks :: "(string, lock_key set) dict"
  tb_kind_contexts :: "(string, runtime_context set) dict"

definition tables_init :: projection_tables where
  "tables_init =
     \<lparr>tb_totals = accumulator_init, tb_by_lock = [], tb_lock_contexts = [], tb_lock_stacks = [],
      tb_by_context = [], tb_context_locks = [], tb_by_path = [], tb_path_locks = [],
      tb_path_contexts = [], tb_by_outcome = [], tb_outcome_locks = [], tb_outcome_contexts = [],
      tb_by_kind = [], tb_kind_locks = [], tb_kind_contexts = []\<rparr>"

section \<open>Accumulators\<close>

definition accumulator_metrics :: "runtime_accumulator \<Rightarrow> runtime_metrics result" where
  "accumulator_metrics a =
     bindE (runtime_distribution (ac_exact_wait_ns a)) (\<lambda>w.
     bindE (runtime_distribution (ac_thresholded_wait_ns a)) (\<lambda>t.
     bindE (runtime_distribution (ac_exact_hold_ns a)) (\<lambda>h.
     Inr \<lparr>rm_exact_waits = w, rm_thresholded_waits = t,
          rm_sampled_observation_count = ac_sampled_observation_count a,
          rm_cumulative_observation_count = ac_cumulative_observation_count a,
          rm_observed_or_estimated_wait_ns = ac_observed_or_estimated_wait_ns a,
          rm_exact_holds = h, rm_owner_observed_count = ac_owner_observed_count a\<rparr>)))"

definition accumulate_wait :: "runtime_wait_observation \<Rightarrow> runtime_accumulator \<Rightarrow> runtime_accumulator result" where
  "accumulate_wait ob a =
     bindE (case wo_semantics ob of
              RS_EXACT \<Rightarrow> Inr (a\<lparr>ac_exact_wait_ns := ac_exact_wait_ns a @ [wo_duration_ns ob]\<rparr>)
            | RS_THRESHOLDED \<Rightarrow> Inr (a\<lparr>ac_thresholded_wait_ns := ac_thresholded_wait_ns a @ [wo_duration_ns ob]\<rparr>)
            | _ \<Rightarrow> Inl (ValueError ''paired runtime wait carried profile measurement semantics'')) (\<lambda>a.
     let a = a\<lparr>ac_observed_or_estimated_wait_ns := ac_observed_or_estimated_wait_ns a + wo_duration_ns ob\<rparr>
     in Inr (if wo_owner_observed ob then a\<lparr>ac_owner_observed_count := ac_owner_observed_count a + 1\<rparr> else a))"

definition accumulate_hold :: "runtime_hold_observation \<Rightarrow> runtime_accumulator \<Rightarrow> runtime_accumulator result" where
  "accumulate_hold ob a = Inr (a\<lparr>ac_exact_hold_ns := ac_exact_hold_ns a @ [ho_duration_ns ob]\<rparr>)"

definition accumulate_profile :: "runtime_profile_observation \<Rightarrow> runtime_accumulator \<Rightarrow> runtime_accumulator result" where
  "accumulate_profile ob a =
     bindE (case po_semantics ob of
              RS_SAMPLED \<Rightarrow>
                Inr (a\<lparr>ac_sampled_observation_count := ac_sampled_observation_count a + po_observed_count ob\<rparr>)
            | RS_CUMULATIVE \<Rightarrow>
                Inr (a\<lparr>ac_cumulative_observation_count := ac_cumulative_observation_count a + po_observed_count ob\<rparr>)
            | _ \<Rightarrow> Inl (ValueError ''profile runtime observation carried event measurement semantics'')) (\<lambda>a.
     Inr (a\<lparr>ac_observed_or_estimated_wait_ns := ac_observed_or_estimated_wait_ns a + po_cumulative_wait_ns ob\<rparr>))"

section \<open>Distributing the observations\<close>

definition update_row ::
  "(runtime_accumulator \<Rightarrow> runtime_accumulator result) \<Rightarrow> 'k \<Rightarrow> ('k, runtime_accumulator) dict
     \<Rightarrow> ('k, runtime_accumulator) dict result" where
  "update_row f k m = bindE (f (dict_get_or accumulator_init m k)) (\<lambda>a. Inr (dict_set k a m))"

text \<open>The six targets of an observation, in the order in which the loop visits them.\<close>

definition accumulate_targets ::
  "(runtime_accumulator \<Rightarrow> runtime_accumulator result) \<Rightarrow> lock_key \<Rightarrow> runtime_context \<Rightarrow> string option \<Rightarrow> string
     \<Rightarrow> projection_tables \<Rightarrow> projection_tables result" where
  "accumulate_targets f lk ctx stack outcome t =
     bindE (f (tb_totals t)) (\<lambda>totals.
     bindE (update_row f lk (tb_by_lock t)) (\<lambda>by_lock.
     bindE (update_row f ctx (tb_by_context t)) (\<lambda>by_context.
     bindE (update_row f stack (tb_by_path t)) (\<lambda>by_path.
     bindE (update_row f outcome (tb_by_outcome t)) (\<lambda>by_outcome.
     bindE (update_row f (snd lk) (tb_by_kind t)) (\<lambda>by_kind.
     Inr (t\<lparr>tb_totals := totals, tb_by_lock := by_lock, tb_by_context := by_context,
            tb_by_path := by_path, tb_by_outcome := by_outcome, tb_by_kind := by_kind\<rparr>)))))))"

definition add_member :: "'k \<Rightarrow> 'v \<Rightarrow> ('k, 'v set) dict \<Rightarrow> ('k, 'v set) dict" where
  "add_member k v = dict_modify k {} (insert v)"

definition add_members ::
  "lock_key \<Rightarrow> runtime_context \<Rightarrow> string option \<Rightarrow> string \<Rightarrow> projection_tables \<Rightarrow> projection_tables" where
  "add_members lk ctx stack outcome t =
     t\<lparr>tb_context_locks := add_member ctx lk (tb_context_locks t),
       tb_path_locks := add_member stack lk (tb_path_locks t),
       tb_path_contexts := add_member stack ctx (tb_path_contexts t),
       tb_outcome_locks := add_member outcome lk (tb_outcome_locks t),
       tb_outcome_contexts := add_member outcome ctx (tb_outcome_contexts t),
       tb_kind_locks := add_member (snd lk) lk (tb_kind_locks t),
       tb_kind_contexts := add_member (snd lk) ctx (tb_kind_contexts t)\<rparr>"

definition add_waiter :: "lock_key \<Rightarrow> runtime_context \<Rightarrow> projection_tables \<Rightarrow> projection_tables" where
  "add_waiter lk ctx t = t\<lparr>tb_lock_contexts := add_member lk ctx (tb_lock_contexts t)\<rparr>"

definition add_stack_weight :: "lock_key \<Rightarrow> string option \<Rightarrow> int \<Rightarrow> projection_tables \<Rightarrow> projection_tables" where
  "add_stack_weight lk stack w t =
     (case stack of
        None \<Rightarrow> t
      | Some sid \<Rightarrow>
          t\<lparr>tb_lock_stacks := dict_modify lk [] (dict_modify sid 0 (\<lambda>x. x + w)) (tb_lock_stacks t)\<rparr>)"

definition project_wait :: "runtime_wait_observation \<Rightarrow> projection_tables \<Rightarrow> projection_tables result" where
  "project_wait ob t =
     (let lk = (wo_lock_id ob, wo_lock_kind ob) in
      bindE (accumulate_targets (accumulate_wait ob) lk (wo_context ob) (wo_stack_id ob) (wo_outcome ob) t) (\<lambda>t.
      let t = add_waiter lk (wo_context ob) t;
          t = add_members lk (wo_context ob) (wo_stack_id ob) (wo_outcome ob) t
      in Inr (add_stack_weight lk (wo_stack_id ob) (wo_duration_ns ob) t)))"

definition project_hold :: "runtime_hold_observation \<Rightarrow> projection_tables \<Rightarrow> projection_tables result" where
  "project_hold ob t =
     (let lk = (ho_lock_id ob, ho_lock_kind ob) in
      bindE (accumulate_targets (accumulate_hold ob) lk (ho_context ob) (ho_stack_id ob) ''acquired'' t) (\<lambda>t.
      let t = add_members lk (ho_context ob) (ho_stack_id ob) ''acquired'' t
      in Inr (add_stack_weight lk (ho_stack_id ob) (ho_duration_ns ob) t)))"

definition project_profile :: "runtime_profile_observation \<Rightarrow> projection_tables \<Rightarrow> projection_tables result" where
  "project_profile ob t =
     (let lk = (po_lock_id ob, po_lock_kind ob) in
      bindE (accumulate_targets (accumulate_profile ob) lk (po_context ob) (po_stack_id ob) ''unknown'' t) (\<lambda>t.
      let t = add_waiter lk (po_context ob) t;
          t = add_members lk (po_context ob) (po_stack_id ob) ''unknown'' t
      in Inr (add_stack_weight lk (po_stack_id ob) (po_cumulative_wait_ns ob) t)))"

definition build_tables :: "runtime_replay \<Rightarrow> projection_tables result" where
  "build_tables r =
     bindE (foldE project_wait (rp_waits r) tables_init) (\<lambda>t.
     bindE (foldE project_hold (rp_holds r) t) (\<lambda>t.
     foldE project_profile (rp_profiles r) t))"

section \<open>Rows and their order\<close>

definition metrics_sort_key :: "runtime_metrics \<Rightarrow> string \<Rightarrow> int \<times> int \<times> int \<times> string" where
  "metrics_sort_key m identity = (- total_wait_ns m, - rd_total_ns (rm_exact_holds m), - observation_count m, identity)"

definition known_lock_count :: "lock_key set \<Rightarrow> int option" where
  "known_lock_count values = (if \<exists>v \<in> values. fst v = None then None else Some (int (card values)))"

fun context_kind_value :: "runtime_context_kind \<Rightarrow> string" where
  "context_kind_value CK_OS_THREAD = ''os_thread''"
| "context_kind_value CK_JAVA_PLATFORM_THREAD = ''java_platform_thread''"
| "context_kind_value CK_JAVA_VIRTUAL_THREAD = ''java_virtual_thread''"
| "context_kind_value CK_GO_GOROUTINE = ''go_goroutine''"
| "context_kind_value CK_PROCESS_AGGREGATE = ''process_aggregate''"

text \<open>The character that separates the parts of a composite sort identity.\<close>

definition nul :: string where
  "nul = [char_of (0 :: nat)]"

definition text_or :: "string option \<Rightarrow> string \<Rightarrow> string" where
  "text_or v d = (case v of None \<Rightarrow> d | Some s \<Rightarrow> if s = [] then d else s)"

definition lock_row_identity :: "runtime_lock_projection \<Rightarrow> string" where
  "lock_row_identity row = text_or (pl_lock_id row) ''~aggregate'' @ nul @ pl_lock_kind row"

definition context_row_identity :: "runtime_context_projection \<Rightarrow> string" where
  "context_row_identity row =
     context_kind_value (rc_kind (pc_context row)) @ nul @ rc_context_id (pc_context row) @ nul
     @ str_int (case rc_target_tid (pc_context row) of None \<Rightarrow> 0 | Some t \<Rightarrow> t)"

definition top_stacks :: "int \<Rightarrow> (string, int) dict \<Rightarrow> string list" where
  "top_stacks limit m = map fst (take (nat limit) (sort_key (\<lambda>p. (- snd p, fst p)) m))"

definition lock_row ::
  "int \<Rightarrow> projection_tables \<Rightarrow> lock_key \<times> runtime_accumulator \<Rightarrow> runtime_lock_projection result" where
  "lock_row limit t p =
     bindE (accumulator_metrics (snd p)) (\<lambda>m.
     Inr \<lparr>pl_lock_id = fst (fst p), pl_lock_kind = snd (fst p), pl_metrics = m,
          pl_waiter_context_count = int (card (dict_get_or {} (tb_lock_contexts t) (fst p))),
          pl_top_stack_ids = top_stacks limit (dict_get_or [] (tb_lock_stacks t) (fst p))\<rparr>)"

definition context_row ::
  "projection_tables \<Rightarrow> runtime_context \<times> runtime_accumulator \<Rightarrow> runtime_context_projection result" where
  "context_row t p =
     bindE (accumulator_metrics (snd p)) (\<lambda>m.
     Inr \<lparr>pc_context = fst p, pc_metrics = m,
          pc_lock_count = known_lock_count (dict_get_or {} (tb_context_locks t) (fst p))\<rparr>)"

definition path_row ::
  "projection_tables \<Rightarrow> string option \<times> runtime_accumulator \<Rightarrow> runtime_call_path_projection result" where
  "path_row t p =
     bindE (accumulator_metrics (snd p)) (\<lambda>m.
     Inr \<lparr>pp_stack_id = fst p, pp_metrics = m,
          pp_lock_count = known_lock_count (dict_get_or {} (tb_path_locks t) (fst p)),
          pp_execution_context_count = int (card (dict_get_or {} (tb_path_contexts t) (fst p)))\<rparr>)"

definition outcome_row ::
  "projection_tables \<Rightarrow> string \<times> runtime_accumulator \<Rightarrow> runtime_outcome_projection result" where
  "outcome_row t p =
     bindE (accumulator_metrics (snd p)) (\<lambda>m.
     Inr \<lparr>pu_outcome = fst p, pu_metrics = m,
          pu_lock_count = known_lock_count (dict_get_or {} (tb_outcome_locks t) (fst p)),
          pu_execution_context_count = int (card (dict_get_or {} (tb_outcome_contexts t) (fst p)))\<rparr>)"

definition kind_row ::
  "projection_tables \<Rightarrow> string \<times> runtime_accumulator \<Rightarrow> runtime_lock_kind_projection result" where
  "kind_row t p =
     bindE (accumulator_metrics (snd p)) (\<lambda>m.
     Inr \<lparr>pk_lock_kind = fst p, pk_metrics = m,
          pk_lock_count = known_lock_count (dict_get_or {} (tb_kind_locks t) (fst p)),
          pk_execution_context_count = int (card (dict_get_or {} (tb_kind_contexts t) (fst p)))\<rparr>)"

section \<open>Pages\<close>

definition page_omission :: "('row \<Rightarrow> runtime_metrics) \<Rightarrow> 'row list \<Rightarrow> 'row list \<Rightarrow> 'row list \<Rightarrow> runtime_projection_omission" where
  "page_omission metrics rows exported omitted =
     (let total = (\<lambda>f. sum_list (map (\<lambda>row. f (metrics row)) omitted)) in
      \<lparr>om_total_row_count = int (length rows),
       om_exported_row_count = int (length exported),
       om_omitted_row_count = int (length omitted),
       om_exact_wait_count = total (\<lambda>m. rd_sample_count (rm_exact_waits m)),
       om_exact_wait_ns = total (\<lambda>m. rd_total_ns (rm_exact_waits m)),
       om_thresholded_wait_count = total (\<lambda>m. rd_sample_count (rm_thresholded_waits m)),
       om_thresholded_wait_ns = total (\<lambda>m. rd_total_ns (rm_thresholded_waits m)),
       om_sampled_observation_count = total rm_sampled_observation_count,
       om_cumulative_observation_count = total rm_cumulative_observation_count,
       om_observed_or_estimated_wait_ns = total rm_observed_or_estimated_wait_ns,
       om_observation_count = total observation_count,
       om_wait_ns = total total_wait_ns,
       om_hold_count = total (\<lambda>m. rd_sample_count (rm_exact_holds m)),
       om_hold_ns = total (\<lambda>m. rd_total_ns (rm_exact_holds m)),
       om_owner_observed_count = total rm_owner_observed_count\<rparr>)"

definition page :: "int \<Rightarrow> ('row \<Rightarrow> runtime_metrics) \<Rightarrow> 'row list \<Rightarrow> 'row runtime_page result" where
  "page limit metrics rows =
     bindE (raise_if (limit < 1) (ValueError ''runtime projection export limit must be positive'')) (\<lambda>_.
     let exported = take (nat limit) rows;
         omitted = drop (nat limit) rows;
         omission = page_omission metrics rows exported omitted
     in bindE (omission_post_init omission) (\<lambda>_.
        Inr \<lparr>pg_rows = exported, pg_omission = omission\<rparr>))"

section \<open>Conservation check\<close>

type_synonym metric_ledger = "int \<times> int \<times> int \<times> int"

definition metric_ledger :: "runtime_metrics \<Rightarrow> metric_ledger" where
  "metric_ledger m =
     (observation_count m, total_wait_ns m, rd_sample_count (rm_exact_holds m), rd_total_ns (rm_exact_holds m))"

definition sum_metric_ledgers :: "metric_ledger list \<Rightarrow> metric_ledger" where
  "sum_metric_ledgers ledgers =
     fold (\<lambda>(a, b, c, d) (x, y, z, w). (x + a, y + b, z + c, w + d)) ledgers (0, 0, 0, 0)"

definition page_ledger :: "('row \<Rightarrow> runtime_metrics) \<Rightarrow> 'row runtime_page \<Rightarrow> metric_ledger" where
  "page_ledger metrics p =
     (case sum_metric_ledgers (map (\<lambda>row. metric_ledger (metrics row)) (pg_rows p)) of
        (a, b, c, d) \<Rightarrow>
          (a + om_observation_count (pg_omission p), b + om_wait_ns (pg_omission p),
           c + om_hold_count (pg_omission p), d + om_hold_ns (pg_omission p)))"

definition check_page :: "string \<Rightarrow> metric_ledger \<Rightarrow> ('row \<Rightarrow> runtime_metrics) \<Rightarrow> 'row runtime_page \<Rightarrow> unit result" where
  "check_page name expected metrics p =
     raise_if (page_ledger metrics p \<noteq> expected)
       (ValueError (''runtime '' @ name @ '' projection weights are not conserved''))"

definition validate_runtime_projection_conservation :: "runtime_lock_analysis \<Rightarrow> unit result" where
  "validate_runtime_projection_conservation a =
     (let expected = metric_ledger (ra_totals a) in
      bindE (check_page ''lock'' expected pl_metrics (ra_locks a)) (\<lambda>_.
      bindE (check_page ''context'' expected pc_metrics (ra_contexts a)) (\<lambda>_.
      bindE (check_page ''call path'' expected pp_metrics (ra_call_paths a)) (\<lambda>_.
      bindE (check_page ''lock kind'' expected pk_metrics (ra_lock_kinds a)) (\<lambda>_.
      check_page ''outcome'' expected pu_metrics (ra_outcomes a))))))"

section \<open>The analysis\<close>

definition build_runtime_analysis ::
  "int \<Rightarrow> int \<Rightarrow> runtime_replay \<Rightarrow> projection_tables \<Rightarrow> runtime_lock_analysis result" where
  "build_runtime_analysis max_exported_rows max_top_stack_ids r t =
     bindE (mapE (lock_row max_top_stack_ids t) (tb_by_lock t)) (\<lambda>locks.
     bindE (mapE (context_row t) (tb_by_context t)) (\<lambda>contexts.
     bindE (mapE (path_row t) (tb_by_path t)) (\<lambda>paths.
     bindE (mapE (outcome_row t) (tb_by_outcome t)) (\<lambda>outcomes.
     bindE (mapE (kind_row t) (tb_by_kind t)) (\<lambda>kinds.
     bindE (accumulator_metrics (tb_totals t)) (\<lambda>totals.
     bindE (page max_exported_rows pl_metrics
       (sort_key (\<lambda>row. metrics_sort_key (pl_metrics row) (lock_row_identity row)) locks)) (\<lambda>lock_page.
     bindE (page max_exported_rows pc_metrics
       (sort_key (\<lambda>row. metrics_sort_key (pc_metrics row) (context_row_identity row)) contexts)) (\<lambda>context_page.
     bindE (page max_exported_rows pp_metrics
       (sort_key (\<lambda>row. metrics_sort_key (pp_metrics row) (text_or (pp_stack_id row) ''~unknown'')) paths)) (\<lambda>path_page.
     bindE (page max_exported_rows pu_metrics
       (sort_key (\<lambda>row. metrics_sort_key (pu_metrics row) (pu_outcome row)) outcomes)) (\<lambda>outcome_page.
     bindE (page max_exported_rows pk_metrics
       (sort_key (\<lambda>row. metrics_sort_key (pk_metrics row) (pk_lock_kind row)) kinds)) (\<lambda>kind_page.
     Inr \<lparr>ra_replay = r, ra_totals = totals, ra_locks = lock_page, ra_contexts = context_page,
          ra_call_paths = path_page, ra_outcomes = outcome_page, ra_lock_kinds = kind_page\<rparr>)))))))))))"

definition analyze_runtime_lock_events :: "runtime_lock_event list \<Rightarrow> int \<Rightarrow> int \<Rightarrow> runtime_lock_analysis result" where
  "analyze_runtime_lock_events events max_exported_rows max_top_stack_ids =
     bindE (raise_if (max_top_stack_ids < 1) (ValueError ''runtime top-stack limit must be positive'')) (\<lambda>_.
     bindE (replay_runtime_lock_events events) (\<lambda>r.
     bindE (build_tables r) (\<lambda>t.
     bindE (build_runtime_analysis max_exported_rows max_top_stack_ids r t) (\<lambda>a.
     bindE (validate_runtime_projection_conservation a) (\<lambda>_.
     Inr a)))))"

end
