(* ===== verification/RuntimeReplayProofs.thy ===== *)
theory RuntimeReplayProofs
  imports RuntimeReplay
begin

text \<open>
  The replay of an accepted event stream never raises, its observations are justified by
  events of the stream, and every event of an observation is consumed.
\<close>

section \<open>Marks on known events\<close>

definition set_status ::
  "(runtime_status \<Rightarrow> runtime_status) \<Rightarrow> runtime_lock_event list \<Rightarrow> (string, runtime_status) dict
     \<Rightarrow> (string, runtime_status) dict" where
  "set_status f es m = fold (\<lambda>e. dict_modify (re_event_id e) fresh_status f) es m"

abbreviation use :: "runtime_status \<Rightarrow> runtime_status" where
  "use st \<equiv> st\<lparr>st_used := True\<rparr>"

abbreviation flag :: "runtime_status \<Rightarrow> runtime_status" where
  "flag st \<equiv> st\<lparr>st_invalid := True\<rparr>"

definition known :: "runtime_lock_event list \<Rightarrow> (string, runtime_status) dict \<Rightarrow> bool" where
  "known evs m \<longleftrightarrow> dom (map_of m) = re_event_id ` set evs"

definition used_in :: "(string, runtime_status) dict \<Rightarrow> string \<Rightarrow> bool" where
  "used_in m i \<longleftrightarrow> st_used (dict_get_or fresh_status m i)"

definition invalid_in :: "(string, runtime_status) dict \<Rightarrow> string \<Rightarrow> bool" where
  "invalid_in m i \<longleftrightarrow> st_invalid (dict_get_or fresh_status m i)"

lemma known_set_status: "known evs m \<Longrightarrow> set es \<subseteq> set evs \<Longrightarrow> known evs (set_status f es m)"
proof (induction es arbitrary: m)
  case (Cons e es)
  have "known evs (dict_modify (re_event_id e) fresh_status f m)"
    using Cons.prems by (auto simp: known_def dict_modify_def update_conv' split: option.splits if_splits)
  then show ?case using Cons by (simp add: set_status_def)
qed (simp add: set_status_def)

lemma foldE_update_status:
  assumes "known evs (ry_statuses s)" "set es \<subseteq> set evs"
  shows "foldE (update_status f) es s = Inr (s\<lparr>ry_statuses := set_status f es (ry_statuses s)\<rparr>)"
  using assms
proof (induction es arbitrary: s)
  case (Cons e es)
  let ?m = "dict_modify (re_event_id e) fresh_status f (ry_statuses s)"
  obtain st where st: "map_of (ry_statuses s) (re_event_id e) = Some st"
    using Cons.prems by (auto simp: known_def dom_def set_eq_iff)
  then have step: "update_status f e s = Inr (s\<lparr>ry_statuses := ?m\<rparr>)"
    by (simp add: update_status_def dict_modify_def)
  have "known evs ?m"
    using known_set_status [of evs "ry_statuses s" "[e]" f] Cons.prems by (simp add: set_status_def)
  then show ?case
    using Cons.IH [of "s\<lparr>ry_statuses := ?m\<rparr>"] Cons.prems(2) by (simp add: step set_status_def)
qed (simp add: set_status_def)

lemma mark_used_eq:
  assumes "known evs (ry_statuses s)" "set es \<subseteq> set evs"
  shows "mark_used es s = Inr (s\<lparr>ry_statuses := set_status use es (ry_statuses s)\<rparr>)"
  unfolding mark_used_def by (rule foldE_update_status [OF assms])

definition with_issue ::
  "runtime_pairing_phase \<Rightarrow> runtime_pairing_reason \<Rightarrow> runtime_lock_event list \<Rightarrow> replay_state \<Rightarrow> replay_state" where
  "with_issue ph r es s = s\<lparr>ry_statuses := set_status flag es (ry_statuses s),
     ry_issues := ry_issues s @ [\<lparr>rx_phase = ph, rx_reason = r, rx_event_ids = map re_event_id es,
       rx_context = re_context (hd es), rx_lock_id = re_lock_id (hd es), rx_lock_kind = re_lock_kind (hd es)\<rparr>]\<rparr>"

lemma issue_eq:
  assumes "known evs (ry_statuses s)" "set (e # es) \<subseteq> set evs"
  shows "runtime_issue ph r e es s = Inr (with_issue ph r (e # es) s)"
  unfolding runtime_issue_def foldE_update_status [OF assms] by (simp add: with_issue_def)

lemma is_invalid_eq:
  assumes "known evs (ry_statuses s)" "e \<in> set evs"
  shows "is_invalid s e = Inr (invalid_in (ry_statuses s) (re_event_id e))"
proof -
  obtain st where "map_of (ry_statuses s) (re_event_id e) = Some st"
    using assms by (auto simp: known_def dom_def set_eq_iff)
  then show ?thesis by (simp add: is_invalid_def invalid_in_def dict_get_or_def)
qed

lemma get_set_status:
  assumes "\<And>st. f (f st) = f st"
  shows "dict_get_or fresh_status (set_status f es m) i =
    (if i \<in> re_event_id ` set es then f (dict_get_or fresh_status m i) else dict_get_or fresh_status m i)"
proof (induction es arbitrary: m)
  case (Cons e es)
  then show ?case
    by (auto simp: set_status_def dict_get_or_modify assms)
qed (simp add: set_status_def)

lemma used_set_status:
  "used_in (set_status use es m) i \<longleftrightarrow> used_in m i \<or> i \<in> re_event_id ` set es"
  "used_in (set_status flag es m) i \<longleftrightarrow> used_in m i"
  by (auto simp: used_in_def get_set_status)

lemma invalid_set_status:
  "invalid_in (set_status flag es m) i \<longleftrightarrow> invalid_in m i \<or> i \<in> re_event_id ` set es"
  "invalid_in (set_status use es m) i \<longleftrightarrow> invalid_in m i"
  by (auto simp: invalid_in_def get_set_status)

lemma with_issue_fields [simp]:
  "ry_statuses (with_issue ph r es s) = set_status flag es (ry_statuses s)"
  "ry_pending_waits (with_issue ph r es s) = ry_pending_waits s"
  "ry_active_acquires (with_issue ph r es s) = ry_active_acquires s"
  "ry_pending_parks (with_issue ph r es s) = ry_pending_parks s"
  "ry_waits (with_issue ph r es s) = ry_waits s"
  "ry_holds (with_issue ph r es s) = ry_holds s"
  "ry_profiles (with_issue ph r es s) = ry_profiles s"
  "ry_paired_wait_begins (with_issue ph r es s) = ry_paired_wait_begins s"
  "ry_linked_wait_ends (with_issue ph r es s) = ry_linked_wait_ends s"
  "ry_released_acquires (with_issue ph r es s) = ry_released_acquires s"
  by (simp_all add: with_issue_def)

section \<open>Invariant\<close>

text \<open>What justifies a wait, a hold and a profile observation.\<close>

definition wait_justified :: "runtime_lock_event list \<Rightarrow> runtime_wait_observation \<Rightarrow> bool" where
  "wait_justified evs w \<longleftrightarrow> 0 \<le> wo_duration_ns w \<and>
     (\<exists>e \<in> set evs. wo_semantics w = re_measurement_semantics e \<and>
       ((\<exists>st \<in> set evs. wo_event_ids w = [re_event_id st, re_event_id e] \<and>
           re_event_kind st \<in> {RK_WAIT_BEGIN, RK_PARK} \<and> re_lock_id st = wo_lock_id w \<and> re_lock_kind st = wo_lock_kind w \<and>
           re_context st = wo_context w \<and> wo_duration_ns w = re_timestamp_ns e - re_timestamp_ns st) \<or>
        (wo_event_ids w = [re_event_id e] \<and> re_measurement_semantics e = RS_THRESHOLDED \<and>
           re_duration_ns e = Some (wo_duration_ns w))))"

definition hold_justified :: "runtime_lock_event list \<Rightarrow> runtime_hold_observation \<Rightarrow> bool" where
  "hold_justified evs h \<longleftrightarrow> 0 \<le> ho_duration_ns h \<and>
     (\<exists>a \<in> set evs. \<exists>e \<in> set evs. ho_event_ids h = (re_event_id a, re_event_id e) \<and>
        re_event_kind a = RK_ACQUIRE \<and> re_event_kind e = RK_RELEASE \<and> subject_key a = subject_key e \<and>
        re_measurement_semantics e = RS_EXACT \<and> ho_context h = re_context e \<and> ho_lock_id h = re_lock_id e \<and>
        ho_duration_ns h = re_timestamp_ns e - re_timestamp_ns a \<and> re_hold_duration_ns e = Some (ho_duration_ns h))"

definition profile_justified :: "runtime_lock_event list \<Rightarrow> runtime_profile_observation \<Rightarrow> bool" where
  "profile_justified evs p \<longleftrightarrow>
     (\<exists>e \<in> set evs. po_event_id p = re_event_id e \<and> po_semantics p = re_measurement_semantics e \<and>
        po_semantics p \<in> {RS_SAMPLED, RS_CUMULATIVE} \<and> re_observed_count e = Some (po_observed_count p) \<and>
        re_cumulative_wait_ns e = Some (po_cumulative_wait_ns p) \<and> 0 \<le> po_cumulative_wait_ns p)"

definition table_ok :: "runtime_event_kind \<Rightarrow> runtime_lock_event list \<Rightarrow> (subject_key, runtime_lock_event) dict \<Rightarrow> bool" where
  "table_ok kd ys m \<longleftrightarrow> dict_wf m \<and>
     (\<forall>k e. map_of m k = Some e \<longrightarrow> e \<in> set ys \<and> subject_key e = k \<and> re_event_kind e = kd)"

definition active_ok :: "runtime_lock_event list \<Rightarrow> (subject_key, runtime_lock_event list) dict \<Rightarrow> bool" where
  "active_ok ys m \<longleftrightarrow> dict_wf m \<and>
     (\<forall>k l. map_of m k = Some l \<longrightarrow> l \<noteq> [] \<and>
        (\<forall>e \<in> set l. e \<in> set ys \<and> subject_key e = k \<and> re_event_kind e = RK_ACQUIRE))"

definition observations_ok :: "runtime_lock_event list \<Rightarrow> replay_state \<Rightarrow> bool" where
  "observations_ok evs s \<longleftrightarrow>
     (\<forall>w \<in> set (ry_waits s). wait_justified evs w \<and> (\<forall>i \<in> set (wo_event_ids w). used_in (ry_statuses s) i)) \<and>
     (\<forall>h \<in> set (ry_holds s). hold_justified evs h \<and> used_in (ry_statuses s) (fst (ho_event_ids h)) \<and>
        used_in (ry_statuses s) (snd (ho_event_ids h))) \<and>
     (\<forall>p \<in> set (ry_profiles s). profile_justified evs p \<and> used_in (ry_statuses s) (po_event_id p)) \<and>
     distinct (map (\<lambda>h. fst (ho_event_ids h)) (ry_holds s)) \<and>
     (\<lambda>h. fst (ho_event_ids h)) ` set (ry_holds s) \<subseteq> ry_released_acquires s"

definition replay_inv :: "runtime_lock_event list \<Rightarrow> runtime_lock_event list \<Rightarrow> replay_state \<Rightarrow> bool" where
  "replay_inv evs ys s \<longleftrightarrow>
     known evs (ry_statuses s) \<and>
     table_ok RK_WAIT_BEGIN ys (ry_pending_waits s) \<and>
     active_ok ys (ry_active_acquires s) \<and>
     table_ok RK_PARK ys (ry_pending_parks s) \<and>
     observations_ok evs s"

text \<open>What a handler may assume about the event in hand, the last of the events seen so far.\<close>

definition in_hand :: "runtime_lock_event list \<Rightarrow> runtime_lock_event list \<Rightarrow> runtime_lock_event \<Rightarrow> bool" where
  "in_hand evs ys e \<longleftrightarrow> set ys \<subseteq> set evs \<and> e \<in> set ys \<and>
     runtime_event_post_init e = Inr () \<and>
     (\<forall>y \<in> set ys. re_timestamp_ns y \<le> re_timestamp_ns e) \<and>
     (\<forall>f \<in> set evs. re_measurement_semantics f = re_measurement_semantics e)"

section \<open>Updates that keep the invariant\<close>

lemma table_ok_mono: "table_ok kd ys m \<Longrightarrow> set ys \<subseteq> set zs \<Longrightarrow> table_ok kd zs m"
  by (auto simp: table_ok_def)

lemma active_ok_mono: "active_ok ys m \<Longrightarrow> set ys \<subseteq> set zs \<Longrightarrow> active_ok zs m"
  unfolding active_ok_def by blast

lemma table_ok_pop: "table_ok kd ys m \<Longrightarrow> table_ok kd ys (dict_pop k m)"
  by (auto simp: table_ok_def map_of_dict_pop)

lemma table_ok_set:
  "table_ok kd ys m \<Longrightarrow> e \<in> set ys \<Longrightarrow> re_event_kind e = kd \<Longrightarrow> table_ok kd ys (dict_set (subject_key e) e m)"
  by (auto simp: table_ok_def map_of_dict_set)

lemma active_ok_pop: "active_ok ys m \<Longrightarrow> active_ok ys (dict_pop k m)"
  by (auto simp: active_ok_def map_of_dict_pop)

lemma active_ok_set:
  assumes "active_ok ys m" "l \<noteq> []"
    "\<forall>e \<in> set l. e \<in> set ys \<and> subject_key e = k \<and> re_event_kind e = RK_ACQUIRE"
  shows "active_ok ys (dict_set k l m)"
  using assms by (auto simp: active_ok_def map_of_dict_set)

lemma active_get:
  assumes "active_ok ys m" "e \<in> set (dict_get_or [] m k)"
  shows "e \<in> set ys" "subject_key e = k" "re_event_kind e = RK_ACQUIRE"
proof -
  obtain l where "map_of m k = Some l" "e \<in> set l"
    using assms(2) by (cases "map_of m k") (auto simp: dict_get_or_def)
  then show "e \<in> set ys" "subject_key e = k" "re_event_kind e = RK_ACQUIRE"
    using assms(1) unfolding active_ok_def by blast+
qed

lemma active_ok_shrink:
  assumes "active_ok ys m" "l = butlast (dict_get_or [] m k)"
  shows "active_ok ys (if l = [] then dict_pop k m else dict_set k l m)"
proof (cases "l = []")
  case False
  have "e \<in> set (dict_get_or [] m k)" if "e \<in> set l" for e
    using that assms(2) by (simp add: in_set_butlastD)
  with active_get [OF assms(1)] have "\<forall>e \<in> set l. e \<in> set ys \<and> subject_key e = k \<and> re_event_kind e = RK_ACQUIRE"
    by blast
  then show ?thesis using active_ok_set [OF assms(1) False] False by simp
qed (use active_ok_pop [OF assms(1)] in simp)

lemma inv_issue:
  assumes "replay_inv evs ys s" "set es \<subseteq> set evs"
  shows "replay_inv evs ys (with_issue ph r es s)"
  using assms known_set_status
  by (simp add: replay_inv_def observations_ok_def used_set_status)

lemma inv_used:
  assumes "replay_inv evs ys s" "set es \<subseteq> set evs"
  shows "replay_inv evs ys (s\<lparr>ry_statuses := set_status use es (ry_statuses s)\<rparr>)"
  using assms known_set_status
  by (simp add: replay_inv_def observations_ok_def used_set_status)

lemma inv_pending:
  "replay_inv evs ys s \<Longrightarrow> table_ok RK_WAIT_BEGIN ys P \<Longrightarrow> replay_inv evs ys (s\<lparr>ry_pending_waits := P\<rparr>)"
  by (simp add: replay_inv_def observations_ok_def)

lemma inv_active:
  "replay_inv evs ys s \<Longrightarrow> active_ok ys A \<Longrightarrow> replay_inv evs ys (s\<lparr>ry_active_acquires := A\<rparr>)"
  by (simp add: replay_inv_def observations_ok_def)

lemma inv_parks:
  "replay_inv evs ys s \<Longrightarrow> table_ok RK_PARK ys K \<Longrightarrow> replay_inv evs ys (s\<lparr>ry_pending_parks := K\<rparr>)"
  by (simp add: replay_inv_def observations_ok_def)

lemma inv_links [simp]:
  "replay_inv evs ys (s\<lparr>ry_paired_wait_begins := X\<rparr>) = replay_inv evs ys s"
  "replay_inv evs ys (s\<lparr>ry_linked_wait_ends := X\<rparr>) = replay_inv evs ys s"
  by (simp_all add: replay_inv_def observations_ok_def)

lemma inv_released: "replay_inv evs ys s \<Longrightarrow> replay_inv evs ys (s\<lparr>ry_released_acquires := insert i (ry_released_acquires s)\<rparr>)"
  by (auto simp: replay_inv_def observations_ok_def)

lemma inv_add_wait_observation:
  assumes "replay_inv evs ys s" "wait_justified evs w" "set (wo_event_ids w) \<subseteq> re_event_id ` set es" "set es \<subseteq> set evs"
  shows "replay_inv evs ys (s\<lparr>ry_waits := ry_waits s @ [w], ry_statuses := set_status use es (ry_statuses s)\<rparr>)"
  using assms known_set_status
  by (auto simp: replay_inv_def observations_ok_def used_set_status)

lemma replay_invD:
  assumes "replay_inv evs ys s"
  shows "known evs (ry_statuses s)" "table_ok RK_WAIT_BEGIN ys (ry_pending_waits s)"
    "active_ok ys (ry_active_acquires s)" "table_ok RK_PARK ys (ry_pending_parks s)"
  using assms by (simp_all add: replay_inv_def)

lemma in_handD:
  assumes "in_hand evs ys e"
  shows "e \<in> set evs" "e \<in> set ys" "set ys \<subseteq> set evs" "runtime_event_post_init e = Inr ()"
    "\<And>y. y \<in> set ys \<Longrightarrow> re_timestamp_ns y \<le> re_timestamp_ns e"
    "\<And>y. y \<in> set evs \<Longrightarrow> re_measurement_semantics y = re_measurement_semantics e"
  using assms unfolding in_hand_def by auto

lemma pending_event:
  assumes "table_ok kd ys m" "map_of m k = Some e"
  shows "e \<in> set ys" "subject_key e = k" "re_event_kind e = kd"
  using assms unfolding table_ok_def by blast+

lemma issue_ok:
  assumes inv: "replay_inv evs ys s" and es: "set (e # es) \<subseteq> set evs"
  shows "ensures E (replay_inv evs ys) (runtime_issue ph r e es s)"
  using issue_eq [OF replay_invD(1) [OF inv] es] inv_issue [OF inv es] by simp

lemma used_ok:
  assumes inv: "replay_inv evs ys s" and es: "set es \<subseteq> set evs"
  shows "ensures E (replay_inv evs ys) (mark_used es s)"
  using mark_used_eq [OF replay_invD(1) [OF inv] es] inv_used [OF inv es] by simp

lemma observe_ok:
  assumes inv: "replay_inv evs ys s" and w: "wait_justified evs w" "set (wo_event_ids w) \<subseteq> re_event_id ` set es"
    and es: "set es \<subseteq> set evs"
  shows "ensures E (replay_inv evs ys) (mark_used es (s\<lparr>ry_waits := ry_waits s @ [w]\<rparr>))"
proof -
  have "mark_used es (s\<lparr>ry_waits := ry_waits s @ [w]\<rparr>) =
      Inr (s\<lparr>ry_waits := ry_waits s @ [w], ry_statuses := set_status use es (ry_statuses s)\<rparr>)"
    using mark_used_eq [of evs "s\<lparr>ry_waits := ry_waits s @ [w]\<rparr>" es] replay_invD(1) [OF inv] es by simp
  then show ?thesis using inv_add_wait_observation [OF inv w es] by simp
qed

lemma waits_paired_commute:
  "s\<lparr>ry_waits := W, ry_paired_wait_begins := P\<rparr> = s\<lparr>ry_paired_wait_begins := P, ry_waits := W\<rparr>" for s :: replay_state
  by (cases s) simp

lemma record_wait_ok:
  assumes inv: "replay_inv evs ys s" and ev: "set [start, e] \<subseteq> set evs" "re_event_kind start \<in> {RK_WAIT_BEGIN, RK_PARK}"
    and d: "d = re_timestamp_ns e - re_timestamp_ns start" "0 \<le> d"
    and ctx: "ctx = None \<or> ctx = Some (re_context start)"
    and sem: "re_measurement_semantics start = re_measurement_semantics e"
  shows "ensures E (replay_inv evs ys) (runtime_record_wait start e d outcome ctx s)"
proof -
  let ?w = "paired_wait start e d outcome ctx"
  have fields: "wo_context ?w = re_context start" "wo_lock_id ?w = re_lock_id start" "wo_lock_kind ?w = re_lock_kind start"
    "wo_semantics ?w = re_measurement_semantics e" "wo_duration_ns ?w = d"
    "wo_event_ids ?w = [re_event_id start, re_event_id e]"
    using ctx sem by (auto simp: paired_wait_def)
  have w: "wait_justified evs ?w"
    unfolding wait_justified_def fields
    by (intro conjI bexI [of _ e] disjI1 bexI [of _ start]) (use ev d in auto)
  have "ensures E (replay_inv evs ys) (mark_used [start, e] (t\<lparr>ry_waits := ry_waits t @ [?w]\<rparr>))" if "replay_inv evs ys t" for t
    by (rule observe_ok [OF that w]) (use ev fields in auto)
  from this [OF inv] this [of "s\<lparr>ry_paired_wait_begins := insert (re_event_id start) (ry_paired_wait_begins s)\<rparr>"] inv
  show ?thesis by (simp add: runtime_record_wait_def Let_def waits_paired_commute)
qed

section \<open>Handlers\<close>

lemma replay_wait_begin_ok:
  assumes h: "in_hand evs ys e" and inv: "replay_inv evs ys s" and k: "re_event_kind e = RK_WAIT_BEGIN"
  shows "ensures E (replay_inv evs ys) (replay_wait_begin e s)"
proof (cases "map_of (ry_pending_waits s) (subject_key e)")
  case None
  have "table_ok RK_WAIT_BEGIN ys (dict_set (subject_key e) e (ry_pending_waits s))"
    by (rule table_ok_set [OF replay_invD(2) [OF inv] in_handD(2) [OF h] k])
  then show ?thesis using inv_pending [OF inv] by (simp add: replay_wait_begin_def None)
next
  case (Some p)
  have "set [p, e] \<subseteq> set evs"
    using pending_event [OF replay_invD(2) [OF inv] Some] in_handD [OF h] by auto
  then have "ensures E (replay_inv evs ys) (runtime_issue PP_WAIT PR_DUPLICATE_WAIT_BEGIN p [e] s)"
    by (rule issue_ok [OF inv])
  then show ?thesis
    unfolding replay_wait_begin_def Some option.case
    by (rule ensures_bind) (simp add: inv_pending table_ok_pop replay_invD)
qed

lemma finish_wait_end_ok:
  assumes h: "in_hand evs ys e" and inv: "replay_inv evs ys s" and d: "re_duration_ns e = Some d"
    and st: "\<And>st. start = Some st \<Longrightarrow> st \<in> set evs \<and> re_event_kind st = RK_WAIT_BEGIN"
  shows "ensures E (replay_inv evs ys) (finish_wait_end e d outcome start s)"
proof (cases start)
  case None
  have "0 \<le> d"
    using in_handD(4) [OF h] d
    by (auto simp: runtime_event_post_init_def runtime_event_fields_def negative_optional_def)
  then have "wait_justified evs \<lparr>wo_context = re_context e, wo_lock_id = re_lock_id e, wo_lock_kind = re_lock_kind e,
      wo_stack_id = re_stack_id e, wo_semantics = re_measurement_semantics e,
      wo_duration_ns = d, wo_outcome = outcome,
      wo_owner_observed = (re_owner_context e \<noteq> None), wo_event_ids = [re_event_id e]\<rparr>"
    if "re_measurement_semantics e = RS_THRESHOLDED"
    unfolding wait_justified_def using that d in_handD(1) [OF h] by (auto intro!: bexI [of _ e])
  then show ?thesis
    unfolding finish_wait_end_def None option.case
    using in_handD(1) [OF h] by (auto intro!: observe_ok [OF inv] issue_ok [OF inv])
next
  case (Some x)
  have x: "x \<in> set evs" "re_event_kind x = RK_WAIT_BEGIN" using st Some by auto
  let ?s = "s\<lparr>ry_pending_waits := dict_pop (subject_key x) (ry_pending_waits s)\<rparr>"
  have inv': "replay_inv evs ys ?s"
    by (rule inv_pending [OF inv]) (rule table_ok_pop [OF replay_invD(2) [OF inv]])
  have "ensures E (replay_inv evs ys) (runtime_issue PP_WAIT PR_WAIT_DURATION_MISMATCH e [x] ?s)"
    by (rule issue_ok [OF inv']) (use x in_handD(1) [OF h] in simp)
  moreover have "ensures E (replay_inv evs ys) (runtime_record_wait x e d outcome None ?s)" if "duration_matches x e d"
    by (rule record_wait_ok [OF inv'])
      (use that x in_handD(1) [OF h] in_handD(6) [OF h x(1)] in \<open>auto simp: duration_matches_def\<close>)
  ultimately show ?thesis unfolding finish_wait_end_def Some option.case Let_def by simp
qed

lemma events_by_id_lookup:
  "map_of (events_by_id evs) i = Some r \<Longrightarrow> r \<in> set evs \<and> re_event_id r = i"
proof -
  have "map_of (fold (\<lambda>e m. dict_set (re_event_id e) e m) xs m) i = Some r \<Longrightarrow>
      (r \<in> set xs \<and> re_event_id r = i) \<or> map_of m i = Some r" for xs m
  proof (induction xs arbitrary: m)
    case (Cons x xs)
    then show ?case by (fastforce simp: map_of_dict_set split: if_splits)
  qed simp
  then show "map_of (events_by_id evs) i = Some r \<Longrightarrow> r \<in> set evs \<and> re_event_id r = i"
    unfolding events_by_id_def by fastforce
qed

lemma referenced_wait_end_ok:
  assumes h: "in_hand evs ys e" and inv: "replay_inv evs ys s" and d: "re_duration_ns e = Some d"
    and r: "\<And>r. ref = Some r \<Longrightarrow> r \<in> set evs"
  shows "ensures E (replay_inv evs ys) (referenced_wait_end e d outcome ref s)"
proof (cases ref)
  case None
  then show ?thesis using issue_ok [OF inv] in_handD(1) [OF h] by (simp add: referenced_wait_end_def)
next
  case (Some x)
  have x: "x \<in> set evs" using r Some by simp
  have issue: "ensures E (replay_inv evs ys) (runtime_issue ph rs e [x] s)" "ensures E (replay_inv evs ys) (runtime_issue ph rs e [] s)" for ph rs
    by (rule issue_ok [OF inv]; use x in_handD(1) [OF h] in simp)+
  have mismatch: "ensures E (replay_inv evs ys) (bindE (runtime_issue ph rs e [x] s) (\<lambda>s.
      Inr (s\<lparr>ry_pending_waits := dict_pop (subject_key x) (ry_pending_waits s)\<rparr>)))" for ph rs
    by (rule ensures_bind [OF issue(1)]) (simp add: inv_pending table_ok_pop replay_invD)
  have finish: "ensures E (replay_inv evs ys) (finish_wait_end e d outcome (Some x) s)" if "re_event_kind x = RK_WAIT_BEGIN"
    by (rule finish_wait_end_ok [OF h inv d]) (use x that in auto)
  show ?thesis
    unfolding referenced_wait_end_def Some option.case is_invalid_eq [OF replay_invD(1) [OF inv] x] bindE.simps
    using issue mismatch finish by simp
qed

lemma replay_wait_end_ok:
  assumes h: "in_hand evs ys e" and inv: "replay_inv evs ys s" and k: "re_event_kind e = RK_WAIT_END"
  shows "ensures E (replay_inv evs ys) (replay_wait_end (events_by_id evs) e s)"
proof -
  obtain d outcome where d: "re_duration_ns e = Some d" "re_outcome e = Some outcome"
    using in_handD(4) [OF h] k
    by (auto simp: runtime_event_post_init_def runtime_event_kind_fields_def Let_def)
  have ref: "ensures E (replay_inv evs ys) (referenced_wait_end e d outcome (map_of (events_by_id evs) i) s)" for i
    by (rule referenced_wait_end_ok [OF h inv d(1)]) (use events_by_id_lookup in blast)
  have "ensures E (replay_inv evs ys) (finish_wait_end e d outcome (map_of (ry_pending_waits s) (subject_key e)) s)"
    by (rule finish_wait_end_ok [OF h inv d(1)])
      (use pending_event [OF replay_invD(2) [OF inv]] in_handD(3) [OF h] in blast)
  with ref show ?thesis by (simp add: replay_wait_end_def d split: option.split)
qed

lemma activate_acquire_ok:
  assumes h: "in_hand evs ys e" and inv: "replay_inv evs ys s" and k: "re_event_kind e = RK_ACQUIRE"
  shows "ensures E (replay_inv evs ys) (activate_acquire e s)"
proof -
  let ?k = "subject_key e" and ?A = "ry_active_acquires s"
  let ?active = "dict_get_or [] ?A ?k"
  note act = replay_invD(3) [OF inv]
  show ?thesis
  proof (cases "?active \<noteq> [] \<and> re_lock_kind e \<noteq> ''recursive_mutex''")
    case True
    let ?s = "s\<lparr>ry_active_acquires := (if butlast ?active = [] then dict_pop ?k ?A else dict_set ?k (butlast ?active) ?A)\<rparr>"
    have inv': "replay_inv evs ys ?s"
      by (rule inv_active [OF inv]) (rule active_ok_shrink [OF act refl])
    have "last ?active \<in> set evs"
      using active_get(1) [OF act last_in_set] True in_handD(3) [OF h] by blast
    then have "ensures E (replay_inv evs ys) (runtime_issue PP_HOLD PR_DUPLICATE_ACQUIRE (last ?active) [e] ?s)"
      by (intro issue_ok [OF inv']) (use in_handD(1) [OF h] in simp)
    with True show ?thesis by (simp add: activate_acquire_def Let_def)
  next
    case False
    have "active_ok ys (dict_set ?k (?active @ [e]) ?A)"
      by (rule active_ok_set [OF act]) (use active_get [OF act] in_handD(2) [OF h] k in auto)
    with False show ?thesis using inv_active [OF inv] by (auto simp: activate_acquire_def Let_def)
  qed
qed

lemma acquire_after_link_ok:
  assumes h: "in_hand evs ys e" and inv: "replay_inv evs ys s" and k: "re_event_kind e = RK_ACQUIRE"
  shows "ensures E (replay_inv evs ys) (acquire_after_link e s)"
proof -
  let ?s = "s\<lparr>ry_pending_waits := dict_pop (subject_key e) (ry_pending_waits s)\<rparr>"
  have inv': "replay_inv evs ys ?s"
    by (rule inv_pending [OF inv]) (rule table_ok_pop [OF replay_invD(2) [OF inv]])
  have "ensures E (replay_inv evs ys) (runtime_record_wait st e (re_timestamp_ns e - re_timestamp_ns st) ''acquired'' None ?s)"
    if "map_of (ry_pending_waits s) (subject_key e) = Some st" for st
  proof -
    have st: "st \<in> set ys" "re_event_kind st = RK_WAIT_BEGIN"
      using pending_event [OF replay_invD(2) [OF inv] that] by auto
    then have se: "st \<in> set evs" using in_handD(3) [OF h] by auto
    then show ?thesis
      by (intro record_wait_ok [OF inv'])
        (simp_all add: st in_handD(1) [OF h] in_handD(5) [OF h st(1)] in_handD(6) [OF h se])
  qed
  with inv' show ?thesis
    unfolding acquire_after_link_def Let_def
    by (intro ensures_bind [where Q = "replay_inv evs ys"]) (auto split: option.split intro: activate_acquire_ok [OF h _ k])
qed

lemma replay_acquire_ok:
  assumes h: "in_hand evs ys e" and inv: "replay_inv evs ys s" and k: "re_event_kind e = RK_ACQUIRE"
  shows "ensures E (replay_inv evs ys) (replay_acquire (events_by_id evs) e s)"
proof -
  note e = in_handD(1) [OF h]
  have "ensures E (replay_inv evs ys) (link_wait_end e ref s (acquire_after_link e))" if "\<And>r. ref = Some r \<Longrightarrow> r \<in> set evs" for ref
  proof (cases ref)
    case None
    then show ?thesis using issue_ok [OF inv] e by (simp add: link_wait_end_def)
  next
    case (Some x)
    have x: "x \<in> set evs" using that Some by simp
    have issue: "ensures E (replay_inv evs ys) (runtime_issue ph rs e [x] s)" "ensures E (replay_inv evs ys) (runtime_issue ph rs e [] s)" for ph rs
      by (rule issue_ok [OF inv]; use x e in simp)+
    have link: "ensures E (replay_inv evs ys) (bindE (mark_used [x, e] s)
        (\<lambda>s. acquire_after_link e (s\<lparr>ry_linked_wait_ends := insert (re_event_id x) (ry_linked_wait_ends s)\<rparr>)))"
      by (rule ensures_bind [OF used_ok [OF inv]]) (use x e in \<open>auto intro: acquire_after_link_ok [OF h _ k]\<close>)
    show ?thesis
      unfolding link_wait_end_def Some option.case is_invalid_eq [OF replay_invD(1) [OF inv] x] bindE.simps
      using issue link by simp
  qed
  then show ?thesis
    using acquire_after_link_ok [OF h inv k] events_by_id_lookup by (auto simp: replay_acquire_def split: option.split)
qed

lemma close_acquire_ok:
  assumes h: "in_hand evs ys e" and inv: "replay_inv evs ys s" and k: "re_event_kind e = RK_RELEASE"
    and a: "a \<in> set evs" "re_event_kind a = RK_ACQUIRE" "subject_key a = subject_key e"
      "re_hold_duration_ns e = None \<or> re_event_id a \<notin> ry_released_acquires s"
  shows "ensures E (replay_inv evs ys) (close_acquire e a s)"
proof -
  note e = in_handD(1) [OF h]
  let ?k = "subject_key a" and ?A = "ry_active_acquires s"
  let ?l = "butlast (dict_get_or [] ?A ?k)"
  let ?s = "s\<lparr>ry_active_acquires := (if ?l = [] then dict_pop ?k ?A else dict_set ?k ?l ?A),
    ry_released_acquires := insert (re_event_id a) (ry_released_acquires s)\<rparr>"
  have "replay_inv evs ys (s\<lparr>ry_active_acquires := (if ?l = [] then dict_pop ?k ?A else dict_set ?k ?l ?A)\<rparr>)"
    by (rule inv_active [OF inv]) (rule active_ok_shrink [OF replay_invD(3) [OF inv] refl])
  from inv_released [OF this, of "re_event_id a"] have inv': "replay_inv evs ys ?s" by simp
  have hold: "ensures E (replay_inv evs ys) (mark_used [a, e] (?s\<lparr>ry_holds := ry_holds s @ [h]\<rparr>))"
    if "hold_justified evs h" "ho_event_ids h = (re_event_id a, re_event_id e)" "re_hold_duration_ns e \<noteq> None" for h
  proof -
    let ?t = "?s\<lparr>ry_holds := ry_holds s @ [h]\<rparr>"
    have "mark_used [a, e] ?t = Inr (?t\<lparr>ry_statuses := set_status use [a, e] (ry_statuses s)\<rparr>)"
      using mark_used_eq [of evs ?t "[a, e]"] replay_invD(1) [OF inv] a(1) e by simp
    moreover have "known evs (set_status use [a, e] (ry_statuses s))"
      by (rule known_set_status [OF replay_invD(1) [OF inv]]) (use a(1) e in simp)
    moreover have "re_event_id a \<notin> (\<lambda>h. fst (ho_event_ids h)) ` set (ry_holds s)"
      using inv a(4) that(3) by (auto simp: replay_inv_def observations_ok_def)
    ultimately show ?thesis
      using inv' that by (auto simp: replay_inv_def observations_ok_def used_set_status)
  qed
  have issue: "ensures E (replay_inv evs ys) (runtime_issue PP_HOLD PR_HOLD_DURATION_MISMATCH e [a] ?s)"
    by (rule issue_ok [OF inv']) (use a e in simp)
  have used: "ensures E (replay_inv evs ys) (mark_used [a, e] ?s)"
    by (rule used_ok [OF inv']) (use a e in simp)
  have just: "hold_justified evs \<lparr>ho_context = re_context e, ho_lock_id = re_lock_id e, ho_lock_kind = re_lock_kind e,
      ho_stack_id = str_or (re_stack_id e) (re_stack_id a), ho_duration_ns = d, ho_event_ids = (re_event_id a, re_event_id e)\<rparr>"
    if "duration_matches a e d" "re_measurement_semantics e = RS_EXACT" "re_hold_duration_ns e = Some d" for d
    unfolding hold_justified_def runtime_hold_observation.select_convs
    by (intro conjI bexI [of _ a] bexI [of _ e]) (use that a k e in \<open>auto simp: duration_matches_def\<close>)
  show ?thesis
    unfolding close_acquire_def Let_def
    using used issue hold [OF just] by (auto split: option.split)
qed

lemma release_acquire_ok:
  assumes h: "in_hand evs ys e" and inv: "replay_inv evs ys s" and k: "re_event_kind e = RK_RELEASE"
    and a: "\<And>a. acquire = Some a \<Longrightarrow> a \<in> set evs \<and> subject_key a = subject_key e \<and>
      (re_hold_duration_ns e = None \<or> re_event_id a \<notin> ry_released_acquires s)"
  shows "ensures E (replay_inv evs ys) (release_acquire e acquire s)"
proof (cases acquire)
  case None
  then show ?thesis using issue_ok [OF inv] in_handD(1) [OF h] by (simp add: release_acquire_def)
next
  case (Some x)
  have x: "x \<in> set evs" using a Some by simp
  have issue: "ensures E (replay_inv evs ys) (runtime_issue ph rs e [x] s)" for ph rs
    by (rule issue_ok [OF inv]) (use x in_handD(1) [OF h] in simp)
  have pop: "ensures E (replay_inv evs ys) (bindE (runtime_issue ph rs e [x] s) (\<lambda>s.
      Inr (s\<lparr>ry_active_acquires := dict_pop (subject_key x) (ry_active_acquires s)\<rparr>)))" for ph rs
    by (rule ensures_bind [OF issue]) (simp add: inv_active active_ok_pop replay_invD)
  have close: "ensures E (replay_inv evs ys) (close_acquire e x s)"
    if "x \<in> set (dict_get_or [] (ry_active_acquires s) (subject_key x))"
    by (rule close_acquire_ok [OF h inv k x active_get(3) [OF replay_invD(3) [OF inv] that]]) (use a Some in auto)
  show ?thesis
    unfolding release_acquire_def Some option.case Let_def using issue pop close by simp
qed

lemma replay_release_ok:
  assumes h: "in_hand evs ys e" and inv: "replay_inv evs ys s" and k: "re_event_kind e = RK_RELEASE"
  shows "ensures E (replay_inv evs ys) (replay_release (events_by_id evs) e s)"
proof -
  note e = in_handD(1) [OF h]
  have "ensures E (replay_inv evs ys) (referenced_release e ref s)" if "\<And>r. ref = Some r \<Longrightarrow> r \<in> set evs" for ref
  proof (cases ref)
    case None
    then show ?thesis using issue_ok [OF inv] e by (simp add: referenced_release_def)
  next
    case (Some x)
    have x: "x \<in> set evs" using that Some by simp
    have issue: "ensures E (replay_inv evs ys) (runtime_issue ph rs e [x] s)" "ensures E (replay_inv evs ys) (runtime_issue ph rs e [] s)" for ph rs
      by (rule issue_ok [OF inv]; use x e in simp)+
    have pop: "ensures E (replay_inv evs ys) (bindE (runtime_issue ph rs e [x] s) (\<lambda>s.
        Inr (s\<lparr>ry_active_acquires := dict_pop (subject_key x) (ry_active_acquires s)\<rparr>)))" for ph rs
      by (rule ensures_bind [OF issue(1)]) (simp add: inv_active active_ok_pop replay_invD)
    have rel: "ensures E (replay_inv evs ys) (release_acquire e (Some x) s)"
      if "same_subject x e" "re_event_id x \<notin> ry_released_acquires s"
      by (rule release_acquire_ok [OF h inv k]) (use that x in \<open>auto simp: same_subject_def subject_key_def\<close>)
    show ?thesis
      unfolding referenced_release_def Some option.case is_invalid_eq [OF replay_invD(1) [OF inv] x] bindE.simps
      using issue pop rel by simp
  qed
  moreover have "ensures E (replay_inv evs ys) (release_acquire e
      (if dict_get_or [] (ry_active_acquires s) (subject_key e) = [] then None
       else Some (last (dict_get_or [] (ry_active_acquires s) (subject_key e)))) s)"
    if "re_acquire_event_id e = None"
  proof (rule release_acquire_ok [OF h inv k])
    fix a
    assume a: "(if dict_get_or [] (ry_active_acquires s) (subject_key e) = [] then None
       else Some (last (dict_get_or [] (ry_active_acquires s) (subject_key e)))) = Some a"
    then have "a \<in> set (dict_get_or [] (ry_active_acquires s) (subject_key e))"
      by (auto split: if_splits)
    moreover have "re_hold_duration_ns e = None"
      using in_handD(4) [OF h] k that
      by (auto simp: runtime_event_post_init_def runtime_event_kind_fields_def Let_def)
    ultimately show "a \<in> set evs \<and> subject_key a = subject_key e \<and>
        (re_hold_duration_ns e = None \<or> re_event_id a \<notin> ry_released_acquires s)"
      using active_get [OF replay_invD(3) [OF inv]] in_handD(3) [OF h] by blast
  qed
  ultimately show ?thesis
    using events_by_id_lookup by (auto simp: replay_release_def Let_def split: option.split)
qed

lemma replay_park_ok:
  assumes h: "in_hand evs ys e" and inv: "replay_inv evs ys s" and k: "re_event_kind e = RK_PARK"
  shows "ensures E (replay_inv evs ys) (replay_park e s)"
proof (cases "map_of (ry_pending_parks s) (subject_key e)")
  case None
  have "table_ok RK_PARK ys (dict_set (subject_key e) e (ry_pending_parks s))"
    by (rule table_ok_set [OF replay_invD(4) [OF inv] in_handD(2) [OF h] k])
  then show ?thesis using inv_parks [OF inv] by (simp add: replay_park_def None)
next
  case (Some p)
  have "set [p, e] \<subseteq> set evs"
    using pending_event [OF replay_invD(4) [OF inv] Some] in_handD [OF h] by auto
  then have "ensures E (replay_inv evs ys) (runtime_issue PP_PARK PR_DUPLICATE_WAIT_BEGIN p [e] s)"
    by (rule issue_ok [OF inv])
  then show ?thesis
    unfolding replay_park_def Some option.case
    by (rule ensures_bind) (simp add: inv_parks table_ok_pop replay_invD)
qed

lemma replay_unpark_ok:
  assumes h: "in_hand evs ys e" and inv: "replay_inv evs ys s"
  shows "ensures E (replay_inv evs ys) (replay_unpark e s)"
proof (cases "re_parked_context e")
  case None
  then show ?thesis using issue_ok [OF inv] in_handD(1) [OF h] by (simp add: replay_unpark_def)
next
  case (Some ctx)
  let ?k = "(ctx, re_lock_id e, re_lock_kind e)"
  let ?s = "s\<lparr>ry_pending_parks := dict_pop ?k (ry_pending_parks s)\<rparr>"
  have inv': "replay_inv evs ys ?s"
    by (rule inv_parks [OF inv]) (rule table_ok_pop [OF replay_invD(4) [OF inv]])
  show ?thesis
  proof (cases "map_of (ry_pending_parks s) ?k")
    case None
    then show ?thesis using Some issue_ok [OF inv'] in_handD(1) [OF h] by (simp add: replay_unpark_def Let_def)
  next
    case p: (Some p)
    have park: "p \<in> set ys" "re_event_kind p = RK_PARK"
      using pending_event [OF replay_invD(4) [OF inv] p] by auto
    then have pe: "p \<in> set evs" using in_handD(3) [OF h] by auto
    have "ensures E (replay_inv evs ys) (runtime_issue PP_PARK PR_UNPARK_WITHOUT_PARK e [p] ?s)"
      by (rule issue_ok [OF inv']) (use pe in_handD(1) [OF h] in simp)
    moreover have "ensures E (replay_inv evs ys) (runtime_record_wait p e (re_timestamp_ns e - re_timestamp_ns p)
        ''unparked'' (Some (re_context p)) ?s)"
      by (rule record_wait_ok [OF inv'])
        (simp_all add: park pe in_handD(1) [OF h] in_handD(5) [OF h park(1)] in_handD(6) [OF h pe])
    ultimately show ?thesis
      using Some p is_invalid_eq [OF replay_invD(1) [OF inv'] pe] by (simp add: replay_unpark_def Let_def)
  qed
qed

lemma replay_profile_ok:
  assumes h: "in_hand evs ys e" and inv: "replay_inv evs ys s" and k: "re_event_kind e = RK_SAMPLED_CONTENTION"
  shows "ensures E (replay_inv evs ys) (replay_profile e s)"
proof -
  note e = in_handD(1) [OF h]
  have valid: "runtime_event_fields e = Inr ()" "runtime_event_kind_fields e = Inr ()"
    using in_handD(4) [OF h] by (auto simp: runtime_event_post_init_def)
  obtain n w where nw: "re_observed_count e = Some n" "re_cumulative_wait_ns e = Some w"
    and sem: "re_measurement_semantics e \<in> {RS_SAMPLED, RS_CUMULATIVE}"
    using valid(2) k by (auto simp: runtime_event_kind_fields_def Let_def)
  have "0 \<le> w" using valid(1) nw by (auto simp: runtime_event_fields_def negative_optional_def)
  let ?p = "\<lparr>po_context = re_context e, po_lock_id = re_lock_id e, po_lock_kind = re_lock_kind e,
      po_stack_id = re_stack_id e, po_semantics = re_measurement_semantics e,
      po_observed_count = n, po_estimated_count = re_estimated_count e,
      po_cumulative_wait_ns = w, po_event_id = re_event_id e\<rparr>"
  let ?t = "s\<lparr>ry_profiles := ry_profiles s @ [?p]\<rparr>"
  have "profile_justified evs ?p"
    unfolding profile_justified_def runtime_profile_observation.select_convs
    by (intro bexI [of _ e]) (use e nw sem \<open>0 \<le> w\<close> in auto)
  moreover have "mark_used [e] ?t = Inr (?t\<lparr>ry_statuses := set_status use [e] (ry_statuses s)\<rparr>)"
    using mark_used_eq [of evs ?t "[e]"] replay_invD(1) [OF inv] e by simp
  moreover have "known evs (set_status use [e] (ry_statuses s))"
    by (rule known_set_status [OF replay_invD(1) [OF inv]]) (use e in simp)
  ultimately show ?thesis
    using inv by (auto simp: replay_profile_def nw replay_inv_def observations_ok_def used_set_status)
qed

lemma replay_step_ok:
  assumes h: "in_hand evs ys e" and inv: "replay_inv evs ys s"
  shows "ensures E (replay_inv evs ys) (replay_step (events_by_id evs) e s)"
  unfolding replay_step_def
  using replay_wait_begin_ok [OF assms] replay_wait_end_ok [OF assms] replay_acquire_ok [OF assms]
    replay_release_ok [OF assms] replay_park_ok [OF assms] replay_unpark_ok [OF assms] replay_profile_ok [OF assms]
  by (cases "re_event_kind e") simp_all

end
