(* ===== verification/RuntimeReplayResults.thy ===== *)
theory RuntimeReplayResults
  imports RuntimeReplayProofs
begin

text \<open>
  What the runtime lock replay guarantees: it returns for every stream its validation
  accepts, sorts every event into one of three dispositions, and every observation it makes
  is justified by consumed events. Two concrete streams show that an event can be left out of
  all pairings without being reported.
\<close>

section \<open>The whole replay\<close>

definition runtime_stream_ok :: "runtime_lock_event list \<Rightarrow> bool" where
  "runtime_stream_ok evs \<longleftrightarrow>
     (\<forall>e \<in> set evs. runtime_event_post_init e = Inr ()) \<and> runtime_validate_sequence evs = Inr ()"

lemma known_initial: "known evs (initial_statuses evs)"
proof -
  have "dom (map_of (fold (\<lambda>e m. dict_set (re_event_id e) fresh_status m) xs m)) = dom (map_of m) \<union> re_event_id ` set xs" for xs m
    by (induction xs arbitrary: m) (auto simp: update_conv' split: if_splits)
  from this [of evs "[]"] show ?thesis by (simp add: known_def initial_statuses_def)
qed

lemma replay_inv_init: "replay_inv evs [] (replay_init evs)"
  by (simp add: replay_inv_def replay_init_def known_initial table_ok_def active_ok_def observations_ok_def)

lemma replay_inv_more: "replay_inv evs ys s \<Longrightarrow> set ys \<subseteq> set zs \<Longrightarrow> replay_inv evs zs s"
  unfolding replay_inv_def using table_ok_mono active_ok_mono by blast

lemma stream_in_hand:
  assumes "runtime_stream_ok evs" "evs = ys @ e # zs"
  shows "in_hand evs (ys @ [e]) e"
proof -
  have seq: "runtime_validate_sequence evs = Inr ()" using assms(1) by (simp add: runtime_stream_ok_def)
  have "sorted (map re_timestamp_ns (ys @ [e]))"
    using runtime_sequence_ok(3) [OF seq] assms(2) by (simp add: sorted_append)
  then have "\<forall>y \<in> set (ys @ [e]). re_timestamp_ns y \<le> re_timestamp_ns e"
    by (auto simp: sorted_append)
  moreover have "\<forall>f \<in> set evs. re_measurement_semantics f = re_measurement_semantics e"
    using runtime_sequence_ok(4) [OF seq] assms(2) by (meson in_set_conv_decomp)
  ultimately show ?thesis
    using assms by (auto simp: in_hand_def runtime_stream_ok_def)
qed

lemma replay_loop_ok:
  assumes "runtime_stream_ok evs"
  shows "ensures E (replay_inv evs evs) (foldE (replay_step (events_by_id evs)) evs (replay_init evs))"
proof (rule ensures_foldE_prefix [where I = "replay_inv evs"])
  show "replay_inv evs [] (replay_init evs)" by (rule replay_inv_init)
next
  fix ys e zs s
  assume split: "evs = ys @ e # zs" and inv: "replay_inv evs ys s"
  have "replay_inv evs (ys @ [e]) s"
    by (rule replay_inv_more [OF inv]) auto
  then show "ensures E (replay_inv evs (ys @ [e])) (replay_step (events_by_id evs) e s)"
    by (rule replay_step_ok [OF stream_in_hand [OF assms split]])
qed

lemma foldE_issues:
  assumes "known evs (ry_statuses s)" "set es \<subseteq> set evs"
  shows "\<exists>s'. foldE (\<lambda>e. runtime_issue ph r e []) es s = Inr s' \<and>
    ry_statuses s' = set_status flag es (ry_statuses s) \<and> known evs (ry_statuses s') \<and>
    ry_pending_waits s' = ry_pending_waits s \<and> ry_active_acquires s' = ry_active_acquires s \<and>
    ry_pending_parks s' = ry_pending_parks s \<and> ry_waits s' = ry_waits s \<and> ry_holds s' = ry_holds s \<and>
    ry_profiles s' = ry_profiles s \<and> ry_released_acquires s' = ry_released_acquires s"
  using assms
proof (induction es arbitrary: s)
  case (Cons e es)
  have step: "runtime_issue ph r e [] s = Inr (with_issue ph r [e] s)"
    by (rule issue_eq [OF Cons.prems(1)]) (use Cons.prems(2) in simp)
  have "known evs (ry_statuses (with_issue ph r [e] s))"
    using known_set_status [OF Cons.prems(1), of "[e]"] Cons.prems(2) by simp
  from Cons.IH [OF this] Cons.prems(2) show ?case by (auto simp: step set_status_def)
qed (simp add: set_status_def)

lemma table_events:
  assumes "table_ok kd ys m"
  shows "snd ` set m \<subseteq> set ys"
  using assms by (auto simp: table_ok_def)

lemma active_events:
  assumes "active_ok ys m"
  shows "set (concat (map snd m)) \<subseteq> set ys"
proof
  fix e assume "e \<in> set (concat (map snd m))"
  then obtain k l where "(k, l) \<in> set m" "e \<in> set l" by auto
  moreover from this assms have "map_of m k = Some l" by (simp add: active_ok_def)
  ultimately show "e \<in> set ys" using assms unfolding active_ok_def by blast
qed

lemma trace_end_ok:
  assumes inv: "replay_inv evs evs s"
  shows "\<exists>s'. trace_end_issues s = Inr s' \<and> replay_inv evs evs s' \<and>
    ry_statuses s' = set_status flag (map snd (ry_pending_waits s) @ concat (map snd (ry_active_acquires s))
      @ map snd (ry_pending_parks s)) (ry_statuses s)"
proof -
  note frame = foldE_issues [where evs = evs]
  have w: "set (map snd (ry_pending_waits s)) \<subseteq> set evs" and p: "set (map snd (ry_pending_parks s)) \<subseteq> set evs"
    using table_events replay_invD [OF inv] by fastforce+
  have a: "set (concat (map snd (ry_active_acquires s))) \<subseteq> set evs"
    using active_events replay_invD [OF inv] by blast
  obtain s1 where s1: "foldE (\<lambda>e. runtime_issue PP_WAIT PR_TRACE_END_BOUNDARY e []) (map snd (ry_pending_waits s)) s = Inr s1"
    and f1: "ry_statuses s1 = set_status flag (map snd (ry_pending_waits s)) (ry_statuses s)" "known evs (ry_statuses s1)"
      "ry_pending_waits s1 = ry_pending_waits s" "ry_active_acquires s1 = ry_active_acquires s"
      "ry_pending_parks s1 = ry_pending_parks s" "ry_waits s1 = ry_waits s" "ry_holds s1 = ry_holds s"
      "ry_profiles s1 = ry_profiles s" "ry_released_acquires s1 = ry_released_acquires s"
    using frame [OF replay_invD(1) [OF inv] w] by blast
  obtain s2 where s2: "foldE (\<lambda>e. runtime_issue PP_HOLD PR_TRACE_END_BOUNDARY e []) (concat (map snd (ry_active_acquires s1))) s1 = Inr s2"
    and f2: "ry_statuses s2 = set_status flag (concat (map snd (ry_active_acquires s))) (ry_statuses s1)" "known evs (ry_statuses s2)"
      "ry_pending_waits s2 = ry_pending_waits s" "ry_active_acquires s2 = ry_active_acquires s"
      "ry_pending_parks s2 = ry_pending_parks s" "ry_waits s2 = ry_waits s" "ry_holds s2 = ry_holds s"
      "ry_profiles s2 = ry_profiles s" "ry_released_acquires s2 = ry_released_acquires s"
    using frame [OF f1(2) a] unfolding f1(3-9) by blast
  obtain s3 where s3: "foldE (\<lambda>e. runtime_issue PP_PARK PR_TRACE_END_BOUNDARY e []) (map snd (ry_pending_parks s2)) s2 = Inr s3"
    and f3: "ry_statuses s3 = set_status flag (map snd (ry_pending_parks s)) (ry_statuses s2)" "known evs (ry_statuses s3)"
      "ry_pending_waits s3 = ry_pending_waits s" "ry_active_acquires s3 = ry_active_acquires s"
      "ry_pending_parks s3 = ry_pending_parks s" "ry_waits s3 = ry_waits s" "ry_holds s3 = ry_holds s"
      "ry_profiles s3 = ry_profiles s" "ry_released_acquires s3 = ry_released_acquires s"
    using frame [OF f2(2) p] unfolding f2(3-9) by blast
  have "trace_end_issues s = Inr s3" by (simp add: trace_end_issues_def s1 s2 s3)
  moreover have "replay_inv evs evs s3"
    using inv f3 by (simp add: replay_inv_def observations_ok_def f2(1) f1(1) used_set_status)
  ultimately show ?thesis by (simp add: f3(1) f2(1) f1(1) set_status_def)
qed

lemma replay_run_ok:
  assumes "runtime_stream_ok evs"
  obtains s where "replay_run evs = Inr s" "replay_inv evs evs s"
  using replay_loop_ok [OF assms, of "\<lambda>_. False"] trace_end_ok that
  by (cases "foldE (replay_step (events_by_id evs)) evs (replay_init evs)") (fastforce simp: replay_run_def)+

lemma replay_result:
  assumes "\<forall>e \<in> set evs. runtime_event_post_init e = Inr ()" "replay_runtime_lock_events evs = Inr r"
  obtains s where "runtime_stream_ok evs" "replay_inv evs evs s" "r = build_replay evs s" "replay_run evs = Inr s"
proof -
  from assms(2) obtain s where s: "runtime_validate_sequence evs = Inr ()" "replay_run evs = Inr s" "r = build_replay evs s"
    by (auto simp: replay_runtime_lock_events_def)
  with assms(1) have ok: "runtime_stream_ok evs" by (simp add: runtime_stream_ok_def)
  then obtain s' where "replay_run evs = Inr s'" "replay_inv evs evs s'" by (rule replay_run_ok)
  with s ok that show thesis by simp
qed

lemma replay_error:
  assumes "\<forall>e \<in> set evs. runtime_event_post_init e = Inr ()" "replay_runtime_lock_events evs = Inl v"
  shows "runtime_validate_sequence evs = Inl v"
proof (cases "runtime_validate_sequence evs")
  case (Inl e)
  with assms(2) show ?thesis by (simp add: replay_runtime_lock_events_def)
next
  case (Inr u)
  then have "runtime_stream_ok evs" using assms(1) by (simp add: runtime_stream_ok_def)
  then obtain s where "replay_run evs = Inr s" by (rule replay_run_ok)
  with Inr assms(2) show ?thesis by (simp add: replay_runtime_lock_events_def)
qed

section \<open>Concrete streams\<close>

definition sample_context :: runtime_context where
  "sample_context = \<lparr>rc_kind = CK_OS_THREAD, rc_context_id = ''t1'', rc_target_tid = Some 7\<rparr>"

definition sample_runtime :: "string \<Rightarrow> int \<Rightarrow> int \<Rightarrow> runtime_event_kind \<Rightarrow> string \<Rightarrow> runtime_lock_event" where
  "sample_runtime i index ts kd lock_kind =
     \<lparr>re_event_id = i, re_event_index = index, re_timestamp_ns = ts, re_context = sample_context,
      re_event_kind = kd, re_measurement_semantics = RS_EXACT, re_lock_kind = lock_kind,
      re_lock_id = Some ''L'', re_stack_id = None, re_owner_context = None,
      re_wait_begin_event_id = None, re_wait_end_event_id = None, re_acquire_event_id = None,
      re_duration_ns = None, re_hold_duration_ns = None, re_outcome = None, re_parked_context = None,
      re_observed_count = None, re_estimated_count = None, re_cumulative_wait_ns = None\<rparr>"

text \<open>A contended acquire and its release.\<close>

definition sample_stream :: "runtime_lock_event list" where
  "sample_stream =
     [sample_runtime ''b'' 0 5 RK_WAIT_BEGIN ''mutex'',
      sample_runtime ''a'' 1 9 RK_ACQUIRE ''mutex'',
      (sample_runtime ''r'' 2 20 RK_RELEASE ''mutex'')\<lparr>re_acquire_event_id := Some ''a'', re_hold_duration_ns := Some 11\<rparr>]"



lemma sample_stream_valid: "\<forall>e \<in> set sample_stream. runtime_event_post_init e = Inr ()"
  by code_simp

lemma sample_stream_replay:
  obtains r where "replay_runtime_lock_events sample_stream = Inr r" "length (rp_waits r) = 1" "length (rp_holds r) = 1"
proof -
  have "(case replay_runtime_lock_events sample_stream of Inl _ \<Rightarrow> False
      | Inr r \<Rightarrow> length (rp_waits r) = 1 \<and> length (rp_holds r) = 1)"
    by code_simp
  then show thesis using that by (cases "replay_runtime_lock_events sample_stream") auto
qed

section \<open>Properties\<close>

text \<open>
  The replay of well-formed events returns for every stream that its sequence validation
  accepts, and the only exception it raises is that validation's.
\<close>

theorem runtime_replay_returns:
  assumes "\<forall>e \<in> set evs. runtime_event_post_init e = Inr ()"
  shows "(case runtime_validate_sequence evs of
      Inl e \<Rightarrow> replay_runtime_lock_events evs = Inl e
    | Inr _ \<Rightarrow> \<exists>r. replay_runtime_lock_events evs = Inr r)"
  using replay_error [OF assms]
  by (cases "replay_runtime_lock_events evs") (auto simp: replay_runtime_lock_events_def split: sum.splits)

theorem runtime_replay_returns_witness:
  "runtime_validate_sequence sample_stream = Inr () \<and> (\<exists>r. replay_runtime_lock_events sample_stream = Inr r)"
proof -
  have "runtime_validate_sequence sample_stream = Inr ()" by code_simp
  with runtime_replay_returns [OF sample_stream_valid] show ?thesis by simp
qed



text \<open>
  C11. Observations are evidence: every wait spans two events of the stream whose timestamps
  differ by its duration (or is one thresholded event with that duration), every hold pairs an
  acquire and a release of the same lock and context whose reported duration agrees with the
  timestamps, no acquire supports two holds, and all these events are reported as consumed.
\<close>

theorem runtime_observations_justified:
  assumes "\<forall>e \<in> set evs. runtime_event_post_init e = Inr ()" and "replay_runtime_lock_events evs = Inr r"
  shows "(\<forall>w \<in> set (rp_waits r). wait_justified evs w \<and> set (wo_event_ids w) \<subseteq> set (rp_consumed_event_ids r)) \<and>
    (\<forall>h \<in> set (rp_holds r). hold_justified evs h \<and>
       {fst (ho_event_ids h), snd (ho_event_ids h)} \<subseteq> set (rp_consumed_event_ids r)) \<and>
    (\<forall>p \<in> set (rp_profiles r). profile_justified evs p \<and> po_event_id p \<in> set (rp_consumed_event_ids r)) \<and>
    distinct (map (\<lambda>h. fst (ho_event_ids h)) (rp_holds r))"
proof -
  obtain s where inv: "replay_inv evs evs s" and r: "r = build_replay evs s"
    by (rule replay_result [OF assms])
  have obs: "observations_ok evs s" using inv by (simp add: replay_inv_def)
  have consumed: "i \<in> set (rp_consumed_event_ids r)" if "used_in (ry_statuses s) i" "i \<in> re_event_id ` set evs" for i
    using that by (auto simp: r build_replay_def used_in_def event_status_of_def)
  have ids: "wait_justified evs w \<Longrightarrow> set (wo_event_ids w) \<subseteq> re_event_id ` set evs"
    "hold_justified evs h \<Longrightarrow> {fst (ho_event_ids h), snd (ho_event_ids h)} \<subseteq> re_event_id ` set evs"
    "profile_justified evs p \<Longrightarrow> po_event_id p \<in> re_event_id ` set evs" for w h p
    by (auto simp: wait_justified_def hold_justified_def profile_justified_def)
  have fields: "rp_waits r = ry_waits s" "rp_holds r = ry_holds s" "rp_profiles r = ry_profiles s"
    by (simp_all add: r build_replay_def)
  have waits: "wait_justified evs w \<and> set (wo_event_ids w) \<subseteq> set (rp_consumed_event_ids r)" if "w \<in> set (rp_waits r)" for w
  proof -
    have j: "wait_justified evs w" "\<forall>i \<in> set (wo_event_ids w). used_in (ry_statuses s) i"
      using obs that unfolding fields observations_ok_def by blast+
    then show ?thesis using ids(1) [OF j(1)] consumed by blast
  qed
  have holds: "hold_justified evs h \<and> {fst (ho_event_ids h), snd (ho_event_ids h)} \<subseteq> set (rp_consumed_event_ids r)"
    if "h \<in> set (rp_holds r)" for h
  proof -
    have j: "hold_justified evs h" "used_in (ry_statuses s) (fst (ho_event_ids h))" "used_in (ry_statuses s) (snd (ho_event_ids h))"
      using obs that unfolding fields observations_ok_def by blast+
    then show ?thesis using ids(2) [OF j(1)] consumed by blast
  qed
  have profiles: "profile_justified evs p \<and> po_event_id p \<in> set (rp_consumed_event_ids r)" if "p \<in> set (rp_profiles r)" for p
  proof -
    have j: "profile_justified evs p" "used_in (ry_statuses s) (po_event_id p)"
      using obs that unfolding fields observations_ok_def by blast+
    then show ?thesis using ids(3) [OF j(1)] consumed by blast
  qed
  have "distinct (map (\<lambda>h. fst (ho_event_ids h)) (rp_holds r))"
    using obs unfolding fields observations_ok_def by blast
  with waits holds profiles show ?thesis by blast
qed

theorem runtime_observations_justified_witness:
  "\<exists>r. replay_runtime_lock_events sample_stream = Inr r \<and> length (rp_holds r) = 1 \<and>
     (\<forall>h \<in> set (rp_holds r). hold_justified sample_stream h)"
proof -
  obtain r where r: "replay_runtime_lock_events sample_stream = Inr r" "length (rp_holds r) = 1"
    by (rule sample_stream_replay)
  from runtime_observations_justified [OF sample_stream_valid r(1)] r show ?thesis by blast
qed



end
