(* ===== verification/RuntimeProjections.thy ===== *)
theory RuntimeProjections
  imports RuntimeAnalysis RuntimeReplayResults
begin

text \<open>
  The three loops of the analysis seen as one pass over the observations: every table is a
  \<open>project_table\<close> of the same list under a different key, so the measures of the ledger are
  conserved by each of them, and no conservation check of the code can fail.
\<close>

section \<open>Observations\<close>

datatype runtime_observation =
    ObsWait runtime_wait_observation
  | ObsHold runtime_hold_observation
  | ObsProfile runtime_profile_observation

definition observations :: "runtime_replay \<Rightarrow> runtime_observation list" where
  "observations r = map ObsWait (rp_waits r) @ map ObsHold (rp_holds r) @ map ObsProfile (rp_profiles r)"

fun obs_lock :: "runtime_observation \<Rightarrow> lock_key" where
  "obs_lock (ObsWait w) = (wo_lock_id w, wo_lock_kind w)"
| "obs_lock (ObsHold h) = (ho_lock_id h, ho_lock_kind h)"
| "obs_lock (ObsProfile p) = (po_lock_id p, po_lock_kind p)"

fun obs_context :: "runtime_observation \<Rightarrow> runtime_context" where
  "obs_context (ObsWait w) = wo_context w"
| "obs_context (ObsHold h) = ho_context h"
| "obs_context (ObsProfile p) = po_context p"

fun obs_stack :: "runtime_observation \<Rightarrow> string option" where
  "obs_stack (ObsWait w) = wo_stack_id w"
| "obs_stack (ObsHold h) = ho_stack_id h"
| "obs_stack (ObsProfile p) = po_stack_id p"

fun obs_outcome :: "runtime_observation \<Rightarrow> string" where
  "obs_outcome (ObsWait w) = wo_outcome w"
| "obs_outcome (ObsHold h) = ''acquired''"
| "obs_outcome (ObsProfile p) = ''unknown''"

abbreviation obs_kind :: "runtime_observation \<Rightarrow> string" where
  "obs_kind ob \<equiv> snd (obs_lock ob)"

fun obs_supported :: "runtime_observation \<Rightarrow> bool" where
  "obs_supported (ObsWait w) = (wo_semantics w \<in> {RS_EXACT, RS_THRESHOLDED})"
| "obs_supported (ObsHold h) = True"
| "obs_supported (ObsProfile p) = (po_semantics p \<in> {RS_SAMPLED, RS_CUMULATIVE})"

fun obs_nonneg :: "runtime_observation \<Rightarrow> bool" where
  "obs_nonneg (ObsWait w) = (0 \<le> wo_duration_ns w)"
| "obs_nonneg (ObsHold h) = (0 \<le> ho_duration_ns h)"
| "obs_nonneg (ObsProfile p) = True"

text \<open>The weights of the ledger: observations, waiting time, holds and holding time.\<close>

fun obs_count :: "runtime_observation \<Rightarrow> int" where
  "obs_count (ObsWait w) = 1"
| "obs_count (ObsHold h) = 0"
| "obs_count (ObsProfile p) = po_observed_count p"

fun obs_wait_ns :: "runtime_observation \<Rightarrow> int" where
  "obs_wait_ns (ObsWait w) = wo_duration_ns w"
| "obs_wait_ns (ObsHold h) = 0"
| "obs_wait_ns (ObsProfile p) = po_cumulative_wait_ns p"

fun obs_hold_count :: "runtime_observation \<Rightarrow> int" where
  "obs_hold_count (ObsHold h) = 1"
| "obs_hold_count _ = 0"

fun obs_hold_ns :: "runtime_observation \<Rightarrow> int" where
  "obs_hold_ns (ObsHold h) = ho_duration_ns h"
| "obs_hold_ns _ = 0"

text \<open>Which observations count as waiters of a lock, and the weight they give their call path.\<close>

fun obs_waiter :: "runtime_observation \<Rightarrow> bool" where
  "obs_waiter (ObsHold h) = False"
| "obs_waiter _ = True"

definition obs_stack_weight :: "runtime_observation \<Rightarrow> int" where
  "obs_stack_weight ob = obs_wait_ns ob + obs_hold_ns ob"

definition add_obs_stack :: "runtime_observation \<Rightarrow> (string, int) dict \<Rightarrow> (string, int) dict" where
  "add_obs_stack ob = dict_modify (the (obs_stack ob)) 0 (\<lambda>x. x + obs_stack_weight ob)"

definition obs_ledger :: "runtime_observation list \<Rightarrow> metric_ledger" where
  "obs_ledger obs =
     (sum_list (map obs_count obs), sum_list (map obs_wait_ns obs),
      sum_list (map obs_hold_count obs), sum_list (map obs_hold_ns obs))"

text \<open>The update of an accumulator, total on every observation.\<close>

fun add_obs :: "runtime_observation \<Rightarrow> runtime_accumulator \<Rightarrow> runtime_accumulator" where
  "add_obs (ObsWait w) a =
     (let a = (if wo_semantics w = RS_EXACT
               then a\<lparr>ac_exact_wait_ns := ac_exact_wait_ns a @ [wo_duration_ns w]\<rparr>
               else a\<lparr>ac_thresholded_wait_ns := ac_thresholded_wait_ns a @ [wo_duration_ns w]\<rparr>);
          a = a\<lparr>ac_observed_or_estimated_wait_ns := ac_observed_or_estimated_wait_ns a + wo_duration_ns w\<rparr>
      in if wo_owner_observed w then a\<lparr>ac_owner_observed_count := ac_owner_observed_count a + 1\<rparr> else a)"
| "add_obs (ObsHold h) a = a\<lparr>ac_exact_hold_ns := ac_exact_hold_ns a @ [ho_duration_ns h]\<rparr>"
| "add_obs (ObsProfile p) a =
     (let a = (if po_semantics p = RS_SAMPLED
               then a\<lparr>ac_sampled_observation_count := ac_sampled_observation_count a + po_observed_count p\<rparr>
               else a\<lparr>ac_cumulative_observation_count := ac_cumulative_observation_count a + po_observed_count p\<rparr>)
      in a\<lparr>ac_observed_or_estimated_wait_ns := ac_observed_or_estimated_wait_ns a + po_cumulative_wait_ns p\<rparr>)"

fun project_obs :: "runtime_observation \<Rightarrow> projection_tables \<Rightarrow> projection_tables result" where
  "project_obs (ObsWait w) = project_wait w"
| "project_obs (ObsHold h) = project_hold h"
| "project_obs (ObsProfile p) = project_profile p"

section \<open>Measures of an accumulator\<close>

definition ac_count :: "runtime_accumulator \<Rightarrow> int" where
  "ac_count a = int (length (ac_exact_wait_ns a)) + int (length (ac_thresholded_wait_ns a))
     + ac_sampled_observation_count a + ac_cumulative_observation_count a"

definition ac_hold_count :: "runtime_accumulator \<Rightarrow> int" where
  "ac_hold_count a = int (length (ac_exact_hold_ns a))"

definition ac_hold_total :: "runtime_accumulator \<Rightarrow> int" where
  "ac_hold_total a = sum_list (ac_exact_hold_ns a)"

definition ac_nonneg :: "runtime_accumulator \<Rightarrow> bool" where
  "ac_nonneg a \<longleftrightarrow> (\<forall>v \<in> set (ac_exact_wait_ns a) \<union> set (ac_thresholded_wait_ns a) \<union> set (ac_exact_hold_ns a). 0 \<le> v)"

interpretation obs_counts: conserved_measure accumulator_init add_obs ac_count obs_count
proof unfold_locales
  fix ob a
  show "ac_count (add_obs ob a) = ac_count a + obs_count ob"
    by (cases ob) (auto simp: ac_count_def Let_def)
qed (simp add: accumulator_init_def ac_count_def)

interpretation obs_waits: conserved_measure accumulator_init add_obs ac_observed_or_estimated_wait_ns obs_wait_ns
proof unfold_locales
  fix ob a
  show "ac_observed_or_estimated_wait_ns (add_obs ob a) = ac_observed_or_estimated_wait_ns a + obs_wait_ns ob"
    by (cases ob) (auto simp: Let_def)
qed (simp add: accumulator_init_def)

interpretation obs_holds: conserved_measure accumulator_init add_obs ac_hold_count obs_hold_count
proof unfold_locales
  fix ob a
  show "ac_hold_count (add_obs ob a) = ac_hold_count a + obs_hold_count ob"
    by (cases ob) (auto simp: ac_hold_count_def Let_def)
qed (simp add: accumulator_init_def ac_hold_count_def)

interpretation obs_hold_times: conserved_measure accumulator_init add_obs ac_hold_total obs_hold_ns
proof unfold_locales
  fix ob a
  show "ac_hold_total (add_obs ob a) = ac_hold_total a + obs_hold_ns ob"
    by (cases ob) (auto simp: ac_hold_total_def Let_def)
qed (simp add: accumulator_init_def ac_hold_total_def)

definition table_ledger :: "('k, runtime_accumulator) dict \<Rightarrow> metric_ledger" where
  "table_ledger m =
     (dict_sum ac_count m, dict_sum ac_observed_or_estimated_wait_ns m,
      dict_sum ac_hold_count m, dict_sum ac_hold_total m)"

lemma table_ledger_project [simp]:
  "table_ledger (project_table accumulator_init add_obs key obs) = obs_ledger obs"
  by (simp add: table_ledger_def obs_ledger_def obs_counts.conserved obs_waits.conserved
      obs_holds.conserved obs_hold_times.conserved)

lemma metrics_ledger:
  assumes "accumulator_metrics a = Inr m"
  shows "metric_ledger m = (ac_count a, ac_observed_or_estimated_wait_ns a, ac_hold_count a, ac_hold_total a)"
proof -
  obtain w t h where d: "runtime_distribution (ac_exact_wait_ns a) = Inr w"
    "runtime_distribution (ac_thresholded_wait_ns a) = Inr t" "runtime_distribution (ac_exact_hold_ns a) = Inr h"
    and m: "m = \<lparr>rm_exact_waits = w, rm_thresholded_waits = t,
      rm_sampled_observation_count = ac_sampled_observation_count a,
      rm_cumulative_observation_count = ac_cumulative_observation_count a,
      rm_observed_or_estimated_wait_ns = ac_observed_or_estimated_wait_ns a,
      rm_exact_holds = h, rm_owner_observed_count = ac_owner_observed_count a\<rparr>"
    using assms by (auto simp: accumulator_metrics_def)
  show ?thesis
    by (simp add: m metric_ledger_def observation_count_def total_wait_ns_def ac_count_def ac_hold_count_def
        ac_hold_total_def runtime_distribution_fields [OF d(1)] runtime_distribution_fields [OF d(2)]
        runtime_distribution_fields [OF d(3)])
qed

lemma metrics_total: "ac_nonneg a \<Longrightarrow> \<exists>m. accumulator_metrics a = Inr m"
  using runtime_distribution_total [of "ac_exact_wait_ns a"] runtime_distribution_total [of "ac_thresholded_wait_ns a"]
    runtime_distribution_total [of "ac_exact_hold_ns a"]
  by (auto simp: accumulator_metrics_def ac_nonneg_def)

lemma ac_nonneg_fold: "ac_nonneg a \<Longrightarrow> \<forall>ob \<in> set obs. obs_nonneg ob \<Longrightarrow> ac_nonneg (fold add_obs obs a)"
proof (induction obs arbitrary: a)
  case (Cons ob obs)
  have "ac_nonneg (add_obs ob a)"
    using Cons.prems by (cases ob) (auto simp: ac_nonneg_def Let_def)
  with Cons show ?case by simp
qed simp

lemma ac_nonneg_init [simp]: "ac_nonneg accumulator_init"
  by (simp add: ac_nonneg_def accumulator_init_def)

lemma ac_nonneg_row:
  assumes "p \<in> set (project_table accumulator_init add_obs key obs)" and "\<forall>ob \<in> set obs. obs_nonneg ob"
  shows "ac_nonneg (snd p)"
proof -
  have "map_of (project_table accumulator_init add_obs key obs) (fst p) = Some (snd p)"
    using assms(1) by (intro map_of_is_SomeI) simp_all
  then have "snd p = fold add_obs (filter (\<lambda>ob. key ob = fst p) obs) accumulator_init"
    by (simp add: lookup_project_table split: if_splits)
  then show ?thesis using assms(2) ac_nonneg_fold [of accumulator_init "filter (\<lambda>ob. key ob = fst p) obs"] by simp
qed

section \<open>The loops build the tables\<close>

lemma accumulate_wait_pure:
  "accumulate_wait w a = (if obs_supported (ObsWait w) then Inr (add_obs (ObsWait w) a)
     else Inl (ValueError ''paired runtime wait carried profile measurement semantics''))"
  by (cases "wo_semantics w") (auto simp: accumulate_wait_def Let_def)

lemma accumulate_hold_pure: "accumulate_hold h a = Inr (add_obs (ObsHold h) a)"
  by (simp add: accumulate_hold_def)

lemma accumulate_profile_pure:
  "accumulate_profile p a = (if obs_supported (ObsProfile p) then Inr (add_obs (ObsProfile p) a)
     else Inl (ValueError ''profile runtime observation carried event measurement semantics''))"
  by (cases "po_semantics p") (auto simp: accumulate_profile_def Let_def)

definition projected :: "runtime_observation list \<Rightarrow> projection_tables \<Rightarrow> bool" where
  "projected obs t \<longleftrightarrow>
     tb_totals t = fold add_obs obs accumulator_init \<and>
     tb_by_lock t = project_table accumulator_init add_obs obs_lock obs \<and>
     tb_by_context t = project_table accumulator_init add_obs obs_context obs \<and>
     tb_by_path t = project_table accumulator_init add_obs obs_stack obs \<and>
     tb_by_outcome t = project_table accumulator_init add_obs obs_outcome obs \<and>
     tb_by_kind t = project_table accumulator_init add_obs obs_kind obs \<and>
     tb_context_locks t = project_table {} (\<lambda>ob. insert (obs_lock ob)) obs_context obs \<and>
     tb_path_locks t = project_table {} (\<lambda>ob. insert (obs_lock ob)) obs_stack obs \<and>
     tb_path_contexts t = project_table {} (\<lambda>ob. insert (obs_context ob)) obs_stack obs \<and>
     tb_outcome_locks t = project_table {} (\<lambda>ob. insert (obs_lock ob)) obs_outcome obs \<and>
     tb_outcome_contexts t = project_table {} (\<lambda>ob. insert (obs_context ob)) obs_outcome obs \<and>
     tb_kind_locks t = project_table {} (\<lambda>ob. insert (obs_lock ob)) obs_kind obs \<and>
     tb_kind_contexts t = project_table {} (\<lambda>ob. insert (obs_context ob)) obs_kind obs \<and>
     tb_lock_contexts t = project_table {} (\<lambda>ob. insert (obs_context ob)) obs_lock (filter obs_waiter obs) \<and>
     tb_lock_stacks t = project_table [] add_obs_stack obs_lock (filter (\<lambda>ob. obs_stack ob \<noteq> None) obs)"

lemma projectedD:
  assumes "projected obs t"
  shows "tb_totals t = fold add_obs obs accumulator_init"
    "tb_by_lock t = project_table accumulator_init add_obs obs_lock obs"
    "tb_by_context t = project_table accumulator_init add_obs obs_context obs"
    "tb_by_path t = project_table accumulator_init add_obs obs_stack obs"
    "tb_by_outcome t = project_table accumulator_init add_obs obs_outcome obs"
    "tb_by_kind t = project_table accumulator_init add_obs obs_kind obs"
  using assms by (simp_all add: projected_def)

lemma update_row_pure: "update_row (\<lambda>a. Inr (g a)) k m = Inr (dict_modify k accumulator_init g m)"
  by (simp add: update_row_def dict_modify_def dict_get_or_def)

lemma projected_step:
  assumes "projected obs t" and "obs_supported ob"
  shows "\<exists>t'. project_obs ob t = Inr t' \<and> projected (obs @ [ob]) t'"
proof (cases ob)
  case (ObsWait w)
  then have f: "accumulate_wait w = (\<lambda>a. Inr (add_obs ob a))"
    using assms(2) by (intro ext) (simp add: accumulate_wait_pure del: add_obs.simps)
  show ?thesis using assms(1) ObsWait
    by (simp add: projected_def project_wait_def f accumulate_targets_def update_row_pure Let_def add_waiter_def
        add_members_def add_member_def add_stack_weight_def add_obs_stack_def obs_stack_weight_def del: add_obs.simps split: option.split)
next
  case (ObsHold h)
  then have f: "accumulate_hold h = (\<lambda>a. Inr (add_obs ob a))"
    by (intro ext) (simp add: accumulate_hold_pure del: add_obs.simps)
  show ?thesis using assms(1) ObsHold
    by (simp add: projected_def project_hold_def f accumulate_targets_def update_row_pure Let_def
        add_members_def add_member_def add_stack_weight_def add_obs_stack_def obs_stack_weight_def del: add_obs.simps split: option.split)
next
  case (ObsProfile p)
  then have f: "accumulate_profile p = (\<lambda>a. Inr (add_obs ob a))"
    using assms(2) by (intro ext) (simp add: accumulate_profile_pure del: add_obs.simps)
  show ?thesis using assms(1) ObsProfile
    by (simp add: projected_def project_profile_def f accumulate_targets_def update_row_pure Let_def add_waiter_def
        add_members_def add_member_def add_stack_weight_def add_obs_stack_def obs_stack_weight_def del: add_obs.simps split: option.split)
qed

lemma foldE_map: "foldE f (map g xs) = foldE (\<lambda>x. f (g x)) xs"
proof
  show "foldE f (map g xs) s = foldE (\<lambda>x. f (g x)) xs s" for s
  proof (induction xs arbitrary: s)
    case (Cons x xs)
    then show ?case by (cases "f (g x) s") auto
  qed simp
qed

lemma build_tables_observations: "build_tables r = foldE project_obs (observations r) tables_init"
  unfolding build_tables_def observations_def
  by (cases "foldE project_wait (rp_waits r) tables_init") (simp_all add: foldE_append foldE_map)

lemma projected_init: "projected [] tables_init"
  by (simp add: projected_def tables_init_def)

lemma projected_run:
  assumes "\<forall>ob \<in> set obs. obs_supported ob"
  shows "\<exists>t. foldE project_obs obs tables_init = Inr t \<and> projected obs t"
  using assms
proof (induction obs rule: rev_induct)
  case Nil
  then show ?case by (simp add: projected_init)
next
  case (snoc ob obs)
  then obtain t where "foldE project_obs obs tables_init = Inr t" "projected obs t" by auto
  with projected_step [of obs t ob] snoc.prems show ?case by (auto simp: foldE_append)
qed

lemma project_obs_supported: "project_obs ob t = Inr t' \<Longrightarrow> obs_supported ob"
  by (cases ob)
    (auto simp: project_wait_def project_profile_def accumulate_targets_def accumulate_wait_pure
      accumulate_profile_pure Let_def simp del: add_obs.simps split: if_splits)

lemma projected_result:
  assumes "foldE project_obs obs tables_init = Inr t"
  shows "projected obs t \<and> (\<forall>ob \<in> set obs. obs_supported ob)"
  using assms
proof (induction obs arbitrary: t rule: rev_induct)
  case Nil
  then show ?case by (simp add: projected_init)
next
  case (snoc ob obs)
  then obtain s where s: "foldE project_obs obs tables_init = Inr s" "project_obs ob s = Inr t"
    by (auto simp: foldE_append)
  with snoc.IH projected_step [of obs s ob] project_obs_supported [OF s(2)] show ?case by auto
qed

end
