(* ===== verification/RuntimeAnalysisResults.thy ===== *)
theory RuntimeAnalysisResults
  imports RuntimeProjections
begin

text \<open>
  Results on \<open>analyze_runtime_lock_events\<close>: when it returns, what each exported page says
  together with its omission summary, and that the closing conservation check cannot fire.
\<close>

section \<open>Pages\<close>

lemma sum_metric_ledgers_sums:
  "sum_metric_ledgers ls =
     (sum_list (map fst ls), sum_list (map (\<lambda>l. fst (snd l)) ls),
      sum_list (map (\<lambda>l. fst (snd (snd l))) ls), sum_list (map (\<lambda>l. snd (snd (snd l))) ls))"
  unfolding sum_metric_ledgers_def
  by (induction ls rule: rev_induct) (auto split: prod.splits)

definition rows_ledger :: "('row \<Rightarrow> runtime_metrics) \<Rightarrow> 'row list \<Rightarrow> metric_ledger" where
  "rows_ledger metrics rows =
     (sum_list (map (\<lambda>r. observation_count (metrics r)) rows), sum_list (map (\<lambda>r. total_wait_ns (metrics r)) rows),
      sum_list (map (\<lambda>r. rd_sample_count (rm_exact_holds (metrics r))) rows),
      sum_list (map (\<lambda>r. rd_total_ns (rm_exact_holds (metrics r))) rows))"

lemma sum_list_take_drop: "sum_list (map f (take n xs)) + sum_list (map f (drop n xs)) = sum_list (map (f :: 'a \<Rightarrow> int) xs)"
  by (metis append_take_drop_id map_append sum_list_append)

lemma omission_post_init_ok:
  "rows = exported @ omitted \<Longrightarrow> omission_post_init (page_omission metrics rows exported omitted) = Inr ()"
  by (simp add: omission_post_init_def page_omission_def Let_def observation_count_def total_wait_ns_def
      sum_list_addf bindE_raise_if)

lemma page_eq:
  "1 \<le> limit \<Longrightarrow> page limit metrics rows =
     Inr \<lparr>pg_rows = take (nat limit) rows,
          pg_omission = page_omission metrics rows (take (nat limit) rows) (drop (nat limit) rows)\<rparr>"
  by (simp add: page_def raise_if_def omission_post_init_ok Let_def)

lemma page_limit: "limit < 1 \<Longrightarrow> page limit metrics rows = Inl (ValueError ''runtime projection export limit must be positive'')"
  by (simp add: page_def raise_if_def)

lemma page_InrD: "page limit metrics rows = Inr p \<Longrightarrow> 1 \<le> limit"
  using page_limit [of limit metrics rows] by (cases "limit < 1") auto

lemma page_ledger_rows:
  assumes "page limit metrics rows = Inr p"
  shows "page_ledger metrics p = rows_ledger metrics rows"
  using page_eq [OF page_InrD [OF assms], of metrics rows] assms
  by (auto simp: page_ledger_def rows_ledger_def sum_metric_ledgers_sums metric_ledger_def o_def
      page_omission_def Let_def sum_list_take_drop)

lemma rows_ledger_sort [simp]: "rows_ledger metrics (sort_key k rows) = rows_ledger metrics rows"
proof -
  have "sum_list (map f (sort_key k rows)) = sum_list (map f rows)" for f :: "'a \<Rightarrow> int"
    unfolding sum_mset_sum_list [symmetric] mset_map by simp
  then show ?thesis by (simp add: rows_ledger_def)
qed

lemma rows_ledger_table:
  assumes "list_all2 (\<lambda>p row. accumulator_metrics (snd p) = Inr (metrics row)) tbl rows"
  shows "rows_ledger metrics rows = table_ledger tbl"
  using assms
proof (induction rule: list_all2_induct)
  case Nil
  then show ?case by (simp add: rows_ledger_def table_ledger_def)
next
  case (Cons p tbl row rows)
  have "metric_ledger (metrics row) =
      (ac_count (snd p), ac_observed_or_estimated_wait_ns (snd p), ac_hold_count (snd p), ac_hold_total (snd p))"
    by (rule metrics_ledger) (rule Cons)
  with Cons.IH show ?case
    by (cases p) (auto simp: rows_ledger_def table_ledger_def metric_ledger_def)
qed

text \<open>A projection: the rows of a table, sorted and cut to a page.\<close>

lemma projection_page_ledger:
  assumes rows: "mapE f (project_table accumulator_init add_obs key obs) = Inr rows"
    and f: "\<And>p row. f p = Inr row \<Longrightarrow> accumulator_metrics (snd p) = Inr (metrics row)"
    and page: "page limit metrics (sort_key k rows) = Inr pg"
  shows "page_ledger metrics pg = obs_ledger obs"
proof -
  have "list_all2 (\<lambda>p row. accumulator_metrics (snd p) = Inr (metrics row)) (project_table accumulator_init add_obs key obs) rows"
    using rows f unfolding mapE_Inr by (auto elim: list_all2_mono)
  then have "rows_ledger metrics rows = table_ledger (project_table accumulator_init add_obs key obs)"
    by (rule rows_ledger_table)
  then show ?thesis by (simp add: page_ledger_rows [OF page])
qed

lemma projection_rows_total:
  assumes "\<forall>ob \<in> set obs. obs_nonneg ob"
    and "\<And>p m. accumulator_metrics (snd p) = Inr m \<Longrightarrow> \<exists>row. f p = Inr row"
  shows "\<exists>rows. mapE f (project_table accumulator_init add_obs key obs) = Inr rows"
  using assms ac_nonneg_row metrics_total by (metis mapE_total)

section \<open>The analysis\<close>

lemma row_metrics:
  "lock_row n t p = Inr l \<Longrightarrow> accumulator_metrics (snd p) = Inr (pl_metrics l)"
  "context_row t q = Inr c \<Longrightarrow> accumulator_metrics (snd q) = Inr (pc_metrics c)"
  "path_row t s = Inr a \<Longrightarrow> accumulator_metrics (snd s) = Inr (pp_metrics a)"
  "outcome_row t u = Inr b \<Longrightarrow> accumulator_metrics (snd u) = Inr (pu_metrics b)"
  "kind_row t u = Inr d \<Longrightarrow> accumulator_metrics (snd u) = Inr (pk_metrics d)"
  by (auto simp: lock_row_def context_row_def path_row_def outcome_row_def kind_row_def)

lemma totals_ledger:
  "accumulator_metrics (fold add_obs obs accumulator_init) = Inr m \<Longrightarrow> metric_ledger m = obs_ledger obs"
  by (simp add: metrics_ledger obs_ledger_def obs_counts.measure_fold obs_waits.measure_fold
      obs_holds.measure_fold obs_hold_times.measure_fold obs_counts.measure_empty obs_waits.measure_empty
      obs_holds.measure_empty obs_hold_times.measure_empty)

definition pages_conserved :: "runtime_observation list \<Rightarrow> runtime_lock_analysis \<Rightarrow> bool" where
  "pages_conserved obs a \<longleftrightarrow>
     metric_ledger (ra_totals a) = obs_ledger obs \<and>
     page_ledger pl_metrics (ra_locks a) = obs_ledger obs \<and>
     page_ledger pc_metrics (ra_contexts a) = obs_ledger obs \<and>
     page_ledger pp_metrics (ra_call_paths a) = obs_ledger obs \<and>
     page_ledger pu_metrics (ra_outcomes a) = obs_ledger obs \<and>
     page_ledger pk_metrics (ra_lock_kinds a) = obs_ledger obs"

lemma build_analysis_parts:
  assumes "build_runtime_analysis n lim r t = Inr a"
  obtains locks contexts paths outcomes kinds where
    "mapE (lock_row lim t) (tb_by_lock t) = Inr locks" "mapE (context_row t) (tb_by_context t) = Inr contexts"
    "mapE (path_row t) (tb_by_path t) = Inr paths" "mapE (outcome_row t) (tb_by_outcome t) = Inr outcomes"
    "mapE (kind_row t) (tb_by_kind t) = Inr kinds" "accumulator_metrics (tb_totals t) = Inr (ra_totals a)"
    "page n pl_metrics (sort_key (\<lambda>row. metrics_sort_key (pl_metrics row) (lock_row_identity row)) locks) = Inr (ra_locks a)"
    "page n pc_metrics (sort_key (\<lambda>row. metrics_sort_key (pc_metrics row) (context_row_identity row)) contexts) = Inr (ra_contexts a)"
    "page n pp_metrics (sort_key (\<lambda>row. metrics_sort_key (pp_metrics row) (text_or (pp_stack_id row) ''~unknown'')) paths) = Inr (ra_call_paths a)"
    "page n pu_metrics (sort_key (\<lambda>row. metrics_sort_key (pu_metrics row) (pu_outcome row)) outcomes) = Inr (ra_outcomes a)"
    "page n pk_metrics (sort_key (\<lambda>row. metrics_sort_key (pk_metrics row) (pk_lock_kind row)) kinds) = Inr (ra_lock_kinds a)"
  using assms unfolding build_runtime_analysis_def by auto

lemma analysis_conserved:
  assumes "projected obs t" and "build_runtime_analysis n lim r t = Inr a"
  shows "pages_conserved obs a"
  using assms(2)
proof (rule build_analysis_parts)
  fix locks contexts paths outcomes kinds
  assume rows: "mapE (lock_row lim t) (tb_by_lock t) = Inr locks" "mapE (context_row t) (tb_by_context t) = Inr contexts"
    "mapE (path_row t) (tb_by_path t) = Inr paths" "mapE (outcome_row t) (tb_by_outcome t) = Inr outcomes"
    "mapE (kind_row t) (tb_by_kind t) = Inr kinds" "accumulator_metrics (tb_totals t) = Inr (ra_totals a)"
    and pages: "page n pl_metrics (sort_key (\<lambda>row. metrics_sort_key (pl_metrics row) (lock_row_identity row)) locks) = Inr (ra_locks a)"
    "page n pc_metrics (sort_key (\<lambda>row. metrics_sort_key (pc_metrics row) (context_row_identity row)) contexts) = Inr (ra_contexts a)"
    "page n pp_metrics (sort_key (\<lambda>row. metrics_sort_key (pp_metrics row) (text_or (pp_stack_id row) ''~unknown'')) paths) = Inr (ra_call_paths a)"
    "page n pu_metrics (sort_key (\<lambda>row. metrics_sort_key (pu_metrics row) (pu_outcome row)) outcomes) = Inr (ra_outcomes a)"
    "page n pk_metrics (sort_key (\<lambda>row. metrics_sort_key (pk_metrics row) (pk_lock_kind row)) kinds) = Inr (ra_lock_kinds a)"
  note rows = rows [unfolded projectedD [OF assms(1)]]
  show ?thesis
    unfolding pages_conserved_def
    using totals_ledger [OF rows(6)]
      projection_page_ledger [OF rows(1) row_metrics(1) pages(1)] projection_page_ledger [OF rows(2) row_metrics(2) pages(2)]
      projection_page_ledger [OF rows(3) row_metrics(3) pages(3)] projection_page_ledger [OF rows(4) row_metrics(4) pages(4)]
      projection_page_ledger [OF rows(5) row_metrics(5) pages(5)]
    by simp
qed

lemma conservation_check_passes:
  "pages_conserved obs a \<Longrightarrow> validate_runtime_projection_conservation a = Inr ()"
  by (simp add: pages_conserved_def validate_runtime_projection_conservation_def check_page_def raise_if_def)

lemma analysis_total:
  assumes "projected obs t" and "\<forall>ob \<in> set obs. obs_nonneg ob" and "1 \<le> n"
  shows "\<exists>a. build_runtime_analysis n lim r t = Inr a"
proof -
  note tables = assms(1) [unfolded projected_def]
  obtain locks contexts paths outcomes kinds m where
    "mapE (lock_row lim t) (tb_by_lock t) = Inr locks" "mapE (context_row t) (tb_by_context t) = Inr contexts"
    "mapE (path_row t) (tb_by_path t) = Inr paths" "mapE (outcome_row t) (tb_by_outcome t) = Inr outcomes"
    "mapE (kind_row t) (tb_by_kind t) = Inr kinds" "accumulator_metrics (tb_totals t) = Inr m"
    using projection_rows_total [OF assms(2), of "lock_row lim t" obs_lock]
      projection_rows_total [OF assms(2), of "context_row t" obs_context]
      projection_rows_total [OF assms(2), of "path_row t" obs_stack]
      projection_rows_total [OF assms(2), of "outcome_row t" obs_outcome]
      projection_rows_total [OF assms(2), of "kind_row t" "\<lambda>ob. obs_kind ob"]
      metrics_total [OF ac_nonneg_fold [OF ac_nonneg_init assms(2)]] tables
    by (auto simp: lock_row_def context_row_def path_row_def outcome_row_def kind_row_def)
  then show ?thesis by (simp add: build_runtime_analysis_def page_eq [OF assms(3)])
qed

section \<open>From the events to the observations\<close>

lemma replay_observations:
  assumes "\<forall>e \<in> set evs. runtime_event_post_init e = Inr ()" and "replay_runtime_lock_events evs = Inr r"
  shows "\<forall>ob \<in> set (observations r). obs_nonneg ob"
    "\<forall>ob \<in> set (observations r). obs_supported ob \<longleftrightarrow>
       (\<forall>w. ob = ObsWait w \<longrightarrow> wo_semantics w \<in> {RS_EXACT, RS_THRESHOLDED})"
proof -
  obtain s where inv: "replay_inv evs evs s" and r: "r = build_replay evs s"
    by (rule replay_result [OF assms])
  then have obs: "observations_ok evs s" by (simp add: replay_inv_def)
  have fields: "rp_waits r = ry_waits s" "rp_holds r = ry_holds s" "rp_profiles r = ry_profiles s"
    by (simp_all add: r build_replay_def)
  have waits: "\<forall>w \<in> set (rp_waits r). 0 \<le> wo_duration_ns w"
    using obs unfolding fields observations_ok_def wait_justified_def by blast
  moreover have holds: "\<forall>h \<in> set (rp_holds r). 0 \<le> ho_duration_ns h"
    using obs unfolding fields observations_ok_def hold_justified_def by blast
  ultimately show "\<forall>ob \<in> set (observations r). obs_nonneg ob"
    by (auto simp: observations_def)
  have "\<forall>p \<in> set (rp_profiles r). po_semantics p \<in> {RS_SAMPLED, RS_CUMULATIVE}"
    using obs unfolding fields observations_ok_def profile_justified_def by blast
  then show "\<forall>ob \<in> set (observations r). obs_supported ob \<longleftrightarrow>
       (\<forall>w. ob = ObsWait w \<longrightarrow> wo_semantics w \<in> {RS_EXACT, RS_THRESHOLDED})"
    by (auto simp: observations_def)
qed

definition waits_supported :: "runtime_replay \<Rightarrow> bool" where
  "waits_supported r \<longleftrightarrow> (\<forall>w \<in> set (rp_waits r). wo_semantics w \<in> {RS_EXACT, RS_THRESHOLDED})"

abbreviation unsupported_wait :: py_error where
  "unsupported_wait \<equiv> ValueError ''paired runtime wait carried profile measurement semantics''"

lemma foldE_first_error:
  assumes "\<And>s. f x s = Inl e" and "\<And>y s. y \<in> set xs \<Longrightarrow> f y s = Inl e \<or> (\<exists>s'. f y s = Inr s')" and "x \<in> set xs"
  shows "foldE f xs s = Inl e"
  using assms(2,3)
proof (induction xs arbitrary: s)
  case (Cons y ys)
  show ?case
  proof (cases "f y s")
    case (Inl e')
    then have "e' = e" using Cons.prems(1) [of y s] by auto
    with Inl show ?thesis by simp
  next
    case (Inr s')
    then have "x \<in> set ys" using Cons.prems(2) assms(1) [of s] by auto
    with Cons Inr show ?thesis by simp
  qed
qed simp

lemma project_wait_cases:
  "project_wait w t = Inl unsupported_wait \<or> (\<exists>t'. project_wait w t = Inr t')"
  by (auto simp: project_wait_def accumulate_targets_def accumulate_wait_pure update_row_def Let_def
      simp del: add_obs.simps)

lemma build_tables_unsupported:
  assumes "\<not> waits_supported r"
  shows "build_tables r = Inl unsupported_wait"
proof -
  obtain w where w: "w \<in> set (rp_waits r)" "wo_semantics w \<notin> {RS_EXACT, RS_THRESHOLDED}"
    using assms by (auto simp: waits_supported_def)
  have "foldE project_wait (rp_waits r) tables_init = Inl unsupported_wait"
  proof (rule foldE_first_error [OF _ project_wait_cases w(1)])
    show "project_wait w s = Inl unsupported_wait" for s
      using w(2) by (simp add: project_wait_def accumulate_targets_def accumulate_wait_pure Let_def)
  qed
  then show ?thesis by (simp add: build_tables_def)
qed

lemma build_tables_supported:
  assumes "\<forall>e \<in> set evs. runtime_event_post_init e = Inr ()" "replay_runtime_lock_events evs = Inr r" "waits_supported r"
  shows "\<exists>t. build_tables r = Inr t \<and> projected (observations r) t"
proof -
  have "\<forall>ob \<in> set (observations r). obs_supported ob"
    using replay_observations(2) [OF assms(1,2)] assms(3) by (auto simp: waits_supported_def observations_def)
  from projected_run [OF this] show ?thesis by (simp add: build_tables_observations)
qed

lemma build_analysis_limit:
  assumes "projected obs t" and "\<forall>ob \<in> set obs. obs_nonneg ob" and "n < 1"
  shows "build_runtime_analysis n lim r t = Inl (ValueError ''runtime projection export limit must be positive'')"
proof -
  obtain a where "build_runtime_analysis 1 lim r t = Inr a"
    using analysis_total [OF assms(1,2), of 1] by auto
  then show ?thesis using assms(3) by (auto simp: build_runtime_analysis_def page_limit)
qed

section \<open>Rows\<close>

lemma analyze_result:
  assumes "analyze_runtime_lock_events evs n lim = Inr a"
  obtains t where "projected (observations (ra_replay a)) t"
    "build_runtime_analysis n lim (ra_replay a) t = Inr a" "replay_runtime_lock_events evs = Inr (ra_replay a)" "1 \<le> n"
proof -
  from assms obtain r t where r: "replay_runtime_lock_events evs = Inr r" "build_tables r = Inr t"
      "build_runtime_analysis n lim r t = Inr a"
    by (auto simp: analyze_runtime_lock_events_def)
  then have "ra_replay a = r" "1 \<le> n"
    by (auto simp: build_runtime_analysis_def dest: page_InrD)
  with r projected_result [of "observations r" t] that show thesis
    by (auto simp: build_tables_observations)
qed

lemma obs_ledger_observations:
  "obs_ledger (observations r) =
     (int (length (rp_waits r)) + sum_list (map po_observed_count (rp_profiles r)),
      sum_list (map wo_duration_ns (rp_waits r)) + sum_list (map po_cumulative_wait_ns (rp_profiles r)),
      int (length (rp_holds r)), sum_list (map ho_duration_ns (rp_holds r)))"
  by (simp add: obs_ledger_def observations_def o_def sum_list_triv)

text \<open>The row of a table with a given key, and the sets that a \<open>defaultdict(set)\<close> collects.\<close>

lemma project_row:
  assumes "p \<in> set (project_table e add key obs)"
  shows "fst p \<in> key ` set obs" "snd p = fold add (filter (\<lambda>ob. key ob = fst p) obs) e"
proof -
  have "map_of (project_table e add key obs) (fst p) = Some (snd p)"
    using assms by (intro map_of_is_SomeI) simp_all
  then show "fst p \<in> key ` set obs" "snd p = fold add (filter (\<lambda>ob. key ob = fst p) obs) e"
    by (simp_all add: lookup_project_table split: if_splits)
qed

lemma project_set:
  "dict_get_or {} (project_table {} (\<lambda>ob. insert (f ob)) key obs) k = f ` {ob \<in> set obs. key ob = k}"
proof -
  have fold_insert: "fold (\<lambda>ob. insert (f ob)) xs A = f ` set xs \<union> A" for xs A
    by (induction xs arbitrary: A) auto
  show ?thesis by (simp add: get_project_table fold_insert)
qed

lemma row_ledger:
  assumes "p \<in> set (project_table accumulator_init add_obs key obs)" and "accumulator_metrics (snd p) = Inr m"
  shows "metric_ledger m = obs_ledger (filter (\<lambda>ob. key ob = fst p) obs)"
  using totals_ledger assms(2) project_row(2) [OF assms(1)] by simp

lemma page_rows_subset: "page n metrics rows = Inr pg \<Longrightarrow> set (pg_rows pg) \<subseteq> set rows"
  using page_eq [OF page_InrD, of n metrics rows pg metrics rows] set_take_subset [of "nat n" rows] by auto

lemma page_row_source:
  assumes "page n metrics (sort_key k rows) = Inr pg" "mapE f tbl = Inr rows" "row \<in> set (pg_rows pg)"
  shows "\<exists>p \<in> set tbl. f p = Inr row"
  using page_rows_subset [OF assms(1)] assms(2,3) unfolding mapE_Inr by (auto elim: list_all2_in_set2)

lemma analysis_row_sources:
  assumes "build_runtime_analysis n lim r t = Inr a"
  shows "row1 \<in> set (pg_rows (ra_locks a)) \<Longrightarrow> \<exists>p \<in> set (tb_by_lock t). lock_row lim t p = Inr row1"
    "row2 \<in> set (pg_rows (ra_contexts a)) \<Longrightarrow> \<exists>p \<in> set (tb_by_context t). context_row t p = Inr row2"
    "row3 \<in> set (pg_rows (ra_call_paths a)) \<Longrightarrow> \<exists>p \<in> set (tb_by_path t). path_row t p = Inr row3"
    "row4 \<in> set (pg_rows (ra_outcomes a)) \<Longrightarrow> \<exists>p \<in> set (tb_by_outcome t). outcome_row t p = Inr row4"
    "row5 \<in> set (pg_rows (ra_lock_kinds a)) \<Longrightarrow> \<exists>p \<in> set (tb_by_kind t). kind_row t p = Inr row5"
  by (rule build_analysis_parts [OF assms], erule (2) page_row_source)+

text \<open>What a row of a projection by \<open>key\<close> says, given the identities it was built from.\<close>

definition row_exact ::
  "(runtime_observation \<Rightarrow> 'k) \<Rightarrow> runtime_observation list \<Rightarrow> 'k \<Rightarrow> runtime_metrics \<Rightarrow> int option \<Rightarrow> int \<Rightarrow> bool" where
  "row_exact key obs k m locks contexts \<longleftrightarrow>
     (let sel = filter (\<lambda>ob. key ob = k) obs
      in sel \<noteq> [] \<and> metric_ledger m = obs_ledger sel \<and>
         locks = known_lock_count (obs_lock ` set sel) \<and> contexts = int (card (obs_context ` set sel)))"

lemma row_exactI:
  assumes "p \<in> set (project_table accumulator_init add_obs key obs)" "accumulator_metrics (snd p) = Inr m"
    "locks = known_lock_count (obs_lock ` {ob \<in> set obs. key ob = fst p})"
    "contexts = int (card (obs_context ` {ob \<in> set obs. key ob = fst p}))"
  shows "row_exact key obs (fst p) m locks contexts"
  using row_ledger [OF assms(1,2)] project_row(1) [OF assms(1)] assms(3,4)
  by (auto simp: row_exact_def Let_def filter_empty_conv)

lemma context_row_exact:
  assumes "projected obs t" "p \<in> set (tb_by_context t)" "context_row t p = Inr row"
  shows "row_exact obs_context obs (pc_context row) (pc_metrics row) (pc_lock_count row) 1"
proof -
  have mem: "p \<in> set (project_table accumulator_init add_obs obs_context obs)"
    using assms(2) by (simp add: projectedD [OF assms(1)])
  have "obs_context ` {ob \<in> set obs. obs_context ob = fst p} = {fst p}"
    using project_row(1) [OF mem] by auto
  then have "1 = int (card (obs_context ` {ob \<in> set obs. obs_context ob = fst p}))" by simp
  from row_exactI [OF mem _ refl this] show ?thesis
    using assms(1,3) by (auto simp: context_row_def projected_def project_set)
qed

lemma path_row_exact:
  assumes "projected obs t" "p \<in> set (tb_by_path t)" "path_row t p = Inr row"
  shows "row_exact obs_stack obs (pp_stack_id row) (pp_metrics row) (pp_lock_count row) (pp_execution_context_count row)"
  using row_exactI [of p obs_stack obs, OF _ _ refl refl] assms
  by (auto simp: path_row_def projected_def project_set)

lemma outcome_row_exact:
  assumes "projected obs t" "p \<in> set (tb_by_outcome t)" "outcome_row t p = Inr row"
  shows "row_exact obs_outcome obs (pu_outcome row) (pu_metrics row) (pu_lock_count row) (pu_execution_context_count row)"
  using row_exactI [of p obs_outcome obs, OF _ _ refl refl] assms
  by (auto simp: outcome_row_def projected_def project_set)

lemma kind_row_exact:
  assumes "projected obs t" "p \<in> set (tb_by_kind t)" "kind_row t p = Inr row"
  shows "row_exact obs_kind obs (pk_lock_kind row) (pk_metrics row) (pk_lock_count row) (pk_execution_context_count row)"
  using row_exactI [of p "\<lambda>ob. obs_kind ob" obs, OF _ _ refl refl] assms
  by (auto simp: kind_row_def projected_def project_set)

interpretation stack_weights: conserved_measure 0 "\<lambda>ob x. x + obs_stack_weight ob" "\<lambda>x. x" obs_stack_weight
  by unfold_locales simp_all

text \<open>The observations of a lock that carry a call path, and the weight of one of their paths.\<close>

definition stacked :: "lock_key \<Rightarrow> runtime_observation list \<Rightarrow> runtime_observation list" where
  "stacked k obs = filter (\<lambda>ob. obs_lock ob = k) (filter (\<lambda>ob. obs_stack ob \<noteq> None) obs)"

definition stack_weight :: "lock_key \<Rightarrow> runtime_observation list \<Rightarrow> string \<Rightarrow> int" where
  "stack_weight k obs sid = sum_list (map obs_stack_weight (filter (\<lambda>ob. obs_lock ob = k \<and> obs_stack ob = Some sid) obs))"

lemma lock_stacks_table:
  assumes "projected obs t"
  shows "dict_get_or [] (tb_lock_stacks t) k =
    project_table 0 (\<lambda>ob x. x + obs_stack_weight ob) (\<lambda>ob. the (obs_stack ob)) (stacked k obs)"
proof -
  have "add_obs_stack = project_step 0 (\<lambda>ob x. x + obs_stack_weight ob) (\<lambda>ob. the (obs_stack ob))"
    by (intro ext) (simp add: add_obs_stack_def project_step_def)
  then show ?thesis
    using assms unfolding projected_def project_table_def [of 0] stacked_def by (simp add: get_project_table)
qed

lemma stack_row_weight:
  assumes "(sid, w) \<in> set (project_table 0 (\<lambda>ob x. x + obs_stack_weight ob) (\<lambda>ob. the (obs_stack ob)) (stacked k obs))"
  shows "w = stack_weight k obs sid"
proof -
  have "filter (\<lambda>ob. the (obs_stack ob) = sid) (stacked k obs) = filter (\<lambda>ob. obs_lock ob = k \<and> obs_stack ob = Some sid) obs"
    unfolding stacked_def filter_filter by (rule filter_cong) auto
  with stack_weights.row_measure [OF assms] show ?thesis by (simp add: stack_weight_def)
qed

lemma top_stacks_heaviest:
  assumes m: "m = project_table 0 (\<lambda>ob x. x + obs_stack_weight ob) (\<lambda>ob. the (obs_stack ob)) (stacked k obs)"
    and s: "s \<in> set (top_stacks lim m)" and s': "s' \<in> fst ` set m" "s' \<notin> set (top_stacks lim m)"
  shows "stack_weight k obs s' \<le> stack_weight k obs s"
proof -
  let ?key = "\<lambda>p. (- snd p, fst p)"
  obtain w where w: "(s, w) \<in> set (take (nat lim) (sort_key ?key m))"
    using s by (auto simp: top_stacks_def)
  obtain w' where w': "(s', w') \<in> set m" using s'(1) by auto
  have "(s', w') \<in> set (take (nat lim) (sort_key ?key m)) \<union> set (drop (nat lim) (sort_key ?key m))"
    using w' unfolding set_append [symmetric] append_take_drop_id by simp
  moreover have "(s', w') \<notin> set (take (nat lim) (sort_key ?key m))"
    using s'(2) by (force simp: top_stacks_def)
  ultimately have "?key (s, w) \<le> ?key (s', w')"
    by (intro take_sort_key_dominates [OF w]) simp
  moreover have "(s, w) \<in> set m" using w in_set_takeD by fastforce
  ultimately show ?thesis
    using stack_row_weight [of s w k obs] stack_row_weight [of s' w' k obs] w' m by (auto simp: less_eq_prod_def)
qed

lemma top_stacks_shape:
  assumes "dict_wf m"
  shows "distinct (top_stacks lim m)" "length (top_stacks lim m) \<le> nat lim" "set (top_stacks lim m) \<subseteq> fst ` set m"
proof -
  have "distinct (map fst (sort_key (\<lambda>p. (- snd p, fst p)) m))"
    using assms by (simp add: distinct_map_sort_key)
  then show "distinct (top_stacks lim m)" unfolding top_stacks_def take_map [symmetric] by (rule distinct_take)
  show "length (top_stacks lim m) \<le> nat lim" by (simp add: top_stacks_def)
  show "set (top_stacks lim m) \<subseteq> fst ` set m"
    using set_take_subset [of "nat lim" "sort_key (\<lambda>p. (- snd p, fst p)) m"] by (force simp: top_stacks_def)
qed

text \<open>What a lock row says.\<close>

definition lock_row_exact :: "int \<Rightarrow> runtime_observation list \<Rightarrow> runtime_lock_projection \<Rightarrow> bool" where
  "lock_row_exact lim obs row \<longleftrightarrow>
     (let k = (pl_lock_id row, pl_lock_kind row);
          sel = filter (\<lambda>ob. obs_lock ob = k) obs;
          stacks = {sid. \<exists>ob \<in> set sel. obs_stack ob = Some sid}
      in sel \<noteq> [] \<and> metric_ledger (pl_metrics row) = obs_ledger sel \<and>
         pl_waiter_context_count row = int (card (obs_context ` {ob \<in> set sel. obs_waiter ob})) \<and>
         distinct (pl_top_stack_ids row) \<and> length (pl_top_stack_ids row) \<le> nat lim \<and>
         set (pl_top_stack_ids row) \<subseteq> stacks \<and>
         (\<forall>s \<in> set (pl_top_stack_ids row). \<forall>s' \<in> stacks - set (pl_top_stack_ids row).
            stack_weight k obs s' \<le> stack_weight k obs s))"

lemma lock_row_exactI:
  assumes "projected obs t" "p \<in> set (tb_by_lock t)" "lock_row lim t p = Inr row"
  shows "lock_row_exact lim obs row"
proof -
  define m where "m = project_table 0 (\<lambda>ob x. x + obs_stack_weight ob) (\<lambda>ob. the (obs_stack ob)) (stacked (fst p) obs)"
  have mem: "p \<in> set (project_table accumulator_init add_obs obs_lock obs)"
    using assms(2) by (simp add: projectedD [OF assms(1)])
  have key: "(pl_lock_id row, pl_lock_kind row) = fst p" and metrics: "accumulator_metrics (snd p) = Inr (pl_metrics row)"
    and tops: "pl_top_stack_ids row = top_stacks lim m"
    using assms(3) unfolding lock_row_def m_def lock_stacks_table [OF assms(1), symmetric] by auto
  have stacks: "fst ` set m = {sid. \<exists>ob \<in> set (filter (\<lambda>ob. obs_lock ob = fst p) obs). obs_stack ob = Some sid}"
    unfolding m_def keys_project_table stacked_def by force
  have waiters: "pl_waiter_context_count row =
      int (card (obs_context ` {ob \<in> set (filter (\<lambda>ob. obs_lock ob = fst p) obs). obs_waiter ob}))"
  proof -
    have "{ob \<in> set (filter obs_waiter obs). obs_lock ob = fst p} =
        {ob \<in> set (filter (\<lambda>ob. obs_lock ob = fst p) obs). obs_waiter ob}" by auto
    then show ?thesis using assms(1,3) unfolding lock_row_def projected_def by (auto simp: project_set)
  qed
  have "filter (\<lambda>ob. obs_lock ob = fst p) obs \<noteq> []"
    using project_row(1) [OF mem] by (auto simp: filter_empty_conv)
  then show ?thesis
    unfolding lock_row_exact_def Let_def key tops stacks [symmetric]
    using row_ledger [OF mem metrics] waiters top_stacks_shape [of m lim] top_stacks_heaviest [OF m_def, of _ lim]
    by (auto simp: m_def)
qed

section \<open>Properties\<close>

text \<open>
  C9. When the analysis returns and what it raises: it raises for a non-positive top-stack
  limit, then whatever the sequence validation raises, then for a paired wait with profile
  semantics, then for a non-positive export limit, and otherwise returns. In particular no
  conservation check of the code ever fails.
\<close>

theorem runtime_analysis_outcome:
  assumes valid: "\<forall>e \<in> set evs. runtime_event_post_init e = Inr ()"
  shows "case analyze_runtime_lock_events evs n lim of
      Inl e \<Rightarrow>
        (if lim < 1 then e = ValueError ''runtime top-stack limit must be positive''
         else case replay_runtime_lock_events evs of
             Inl v \<Rightarrow> e = v \<and> runtime_validate_sequence evs = Inl v
           | Inr r \<Rightarrow> if waits_supported r
               then n < 1 \<and> e = ValueError ''runtime projection export limit must be positive''
               else e = ValueError ''paired runtime wait carried profile measurement semantics'')
    | Inr a \<Rightarrow> 1 \<le> lim \<and> 1 \<le> n \<and> replay_runtime_lock_events evs = Inr (ra_replay a) \<and> waits_supported (ra_replay a)"
proof (cases "lim < 1 \<or> (\<exists>v. replay_runtime_lock_events evs = Inl v)")
  case True
  have "runtime_validate_sequence evs = Inl v" if "replay_runtime_lock_events evs = Inl v" for v
    using replay_error [OF valid that] .
  with True show ?thesis by (auto simp: analyze_runtime_lock_events_def raise_if_def)
next
  case False
  then obtain r where lim: "1 \<le> lim" and r: "replay_runtime_lock_events evs = Inr r"
    by (cases "replay_runtime_lock_events evs") auto
  have run: "analyze_runtime_lock_events evs n lim = bindE (build_tables r) (\<lambda>t.
      bindE (build_runtime_analysis n lim r t) (\<lambda>a. bindE (validate_runtime_projection_conservation a) (\<lambda>_. Inr a)))"
    using lim r by (simp add: analyze_runtime_lock_events_def raise_if_def)
  show ?thesis
  proof (cases "waits_supported r")
    case False
    then show ?thesis using lim r by (simp add: run build_tables_unsupported)
  next
    case True
    obtain t where t: "build_tables r = Inr t" "projected (observations r) t"
      using build_tables_supported [OF valid r True] by auto
    note nonneg = replay_observations(1) [OF valid r]
    show ?thesis
    proof (cases "n < 1")
      case True
      then show ?thesis using lim r t \<open>waits_supported r\<close>
        by (simp add: run build_analysis_limit [OF t(2) nonneg])
    next
      case n: False
      then obtain a where a: "build_runtime_analysis n lim r t = Inr a"
        using analysis_total [OF t(2) nonneg, of n] by auto
      then have "validate_runtime_projection_conservation a = Inr ()" "ra_replay a = r"
        using conservation_check_passes [OF analysis_conserved [OF t(2) a]]
        by (auto simp: build_runtime_analysis_def)
      then show ?thesis using lim r t a n True by (simp add: run)
    qed
  qed
qed

theorem runtime_analysis_outcome_witness:
  "\<exists>a. analyze_runtime_lock_events sample_stream 1 1 = Inr a \<and> waits_supported (ra_replay a)"
proof -
  have "\<exists>r. replay_runtime_lock_events sample_stream = Inr r \<and> waits_supported r"
  proof -
    have "(case replay_runtime_lock_events sample_stream of Inl _ \<Rightarrow> False | Inr r \<Rightarrow> waits_supported r)"
      by code_simp
    then show ?thesis by (cases "replay_runtime_lock_events sample_stream") auto
  qed
  with runtime_analysis_outcome [OF sample_stream_valid, of 1 1] show ?thesis
    by (cases "analyze_runtime_lock_events sample_stream 1 1") auto
qed

text \<open>
  C10. Conservation of the five projections: the totals are the number of waits plus the
  profiled observations, the waiting time, the number of holds and the holding time of the
  replay, and the exported rows of each projection plus its omission summary add up to
  exactly these totals, whatever the export limit cuts off.
\<close>

theorem runtime_projections_conserved:
  assumes "analyze_runtime_lock_events evs n lim = Inr a"
  shows "(let r = ra_replay a;
      totals = (int (length (rp_waits r)) + sum_list (map po_observed_count (rp_profiles r)),
                sum_list (map wo_duration_ns (rp_waits r)) + sum_list (map po_cumulative_wait_ns (rp_profiles r)),
                int (length (rp_holds r)), sum_list (map ho_duration_ns (rp_holds r)))
    in metric_ledger (ra_totals a) = totals \<and>
       page_ledger pl_metrics (ra_locks a) = totals \<and> page_ledger pc_metrics (ra_contexts a) = totals \<and>
       page_ledger pp_metrics (ra_call_paths a) = totals \<and> page_ledger pu_metrics (ra_outcomes a) = totals \<and>
       page_ledger pk_metrics (ra_lock_kinds a) = totals)"
proof -
  obtain t where t: "projected (observations (ra_replay a)) t" "build_runtime_analysis n lim (ra_replay a) t = Inr a"
    using assms by (rule analyze_result)
  show ?thesis
    using analysis_conserved [OF t] by (simp add: pages_conserved_def obs_ledger_observations Let_def)
qed

theorem runtime_projections_conserved_witness:
  "\<exists>a. analyze_runtime_lock_events sample_stream 1 1 = Inr a \<and>
     metric_ledger (ra_totals a) = (1, 4, 1, 11) \<and> page_ledger pp_metrics (ra_call_paths a) = (1, 4, 1, 11)"
proof -
  have "(case analyze_runtime_lock_events sample_stream 1 1 of Inl _ \<Rightarrow> False
      | Inr a \<Rightarrow> metric_ledger (ra_totals a) = (1, 4, 1, 11))"
    by code_simp
  then obtain a where "analyze_runtime_lock_events sample_stream 1 1 = Inr a" "metric_ledger (ra_totals a) = (1, 4, 1, 11)"
    by (cases "analyze_runtime_lock_events sample_stream 1 1") auto
  then show ?thesis using runtime_projections_conserved [of sample_stream 1 1 a] by (simp add: Let_def)
qed

text \<open>
  C13. Every exported context, call-path, outcome and lock-kind row aggregates exactly the
  observations with its key: their ledger, the number of their execution contexts, and the
  number of their locks, which is absent as soon as one observation hid its lock identity.
\<close>

theorem runtime_rows_exact:
  assumes "analyze_runtime_lock_events evs n lim = Inr a"
  shows "(let obs = observations (ra_replay a) in
     (\<forall>row \<in> set (pg_rows (ra_contexts a)). row_exact obs_context obs (pc_context row) (pc_metrics row) (pc_lock_count row) 1) \<and>
     (\<forall>row \<in> set (pg_rows (ra_call_paths a)).
        row_exact obs_stack obs (pp_stack_id row) (pp_metrics row) (pp_lock_count row) (pp_execution_context_count row)) \<and>
     (\<forall>row \<in> set (pg_rows (ra_outcomes a)).
        row_exact obs_outcome obs (pu_outcome row) (pu_metrics row) (pu_lock_count row) (pu_execution_context_count row)) \<and>
     (\<forall>row \<in> set (pg_rows (ra_lock_kinds a)).
        row_exact obs_kind obs (pk_lock_kind row) (pk_metrics row) (pk_lock_count row) (pk_execution_context_count row)))"
proof -
  define obs where "obs = observations (ra_replay a)"
  obtain t where t: "projected obs t" "build_runtime_analysis n lim (ra_replay a) t = Inr a"
    using assms unfolding obs_def by (rule analyze_result)
  note sources = analysis_row_sources [OF t(2)]
  show ?thesis
    unfolding obs_def [symmetric] Let_def
    using sources(2) context_row_exact [OF t(1)] sources(3) path_row_exact [OF t(1)]
      sources(4) outcome_row_exact [OF t(1)] sources(5) kind_row_exact [OF t(1)]
    by (intro conjI ballI) blast+
qed

theorem runtime_rows_exact_witness:
  "\<exists>a row. analyze_runtime_lock_events sample_stream 1 1 = Inr a \<and> pg_rows (ra_call_paths a) = [row] \<and>
     row_exact obs_stack (observations (ra_replay a)) (pp_stack_id row) (pp_metrics row) (pp_lock_count row)
       (pp_execution_context_count row)"
proof -
  have "(case analyze_runtime_lock_events sample_stream 1 1 of Inl _ \<Rightarrow> False
      | Inr a \<Rightarrow> length (pg_rows (ra_call_paths a)) = 1)"
    by code_simp
  then obtain a row where a: "analyze_runtime_lock_events sample_stream 1 1 = Inr a" "pg_rows (ra_call_paths a) = [row]"
    by (cases "analyze_runtime_lock_events sample_stream 1 1") (auto simp: length_Suc_conv)
  with runtime_rows_exact [OF a(1)] show ?thesis by (auto simp: Let_def)
qed

text \<open>
  Every exported lock row aggregates exactly the observations of its lock, counts the
  contexts that waited for it, and lists the call paths of greatest weight: no more than the
  limit, without repetition, and no path left out weighs more than one listed.
\<close>

theorem runtime_lock_rows_exact:
  assumes "analyze_runtime_lock_events evs n lim = Inr a" and "row \<in> set (pg_rows (ra_locks a))"
  shows "lock_row_exact lim (observations (ra_replay a)) row"
proof -
  obtain t where t: "projected (observations (ra_replay a)) t" "build_runtime_analysis n lim (ra_replay a) t = Inr a"
    using assms(1) by (rule analyze_result)
  show ?thesis
    using analysis_row_sources(1) [OF t(2) assms(2)] lock_row_exactI [OF t(1)] by blast
qed

theorem runtime_lock_rows_exact_witness:
  "\<exists>a row. analyze_runtime_lock_events sample_stream 1 1 = Inr a \<and> pg_rows (ra_locks a) = [row] \<and>
     lock_row_exact 1 (observations (ra_replay a)) row"
proof -
  have "(case analyze_runtime_lock_events sample_stream 1 1 of Inl _ \<Rightarrow> False
      | Inr a \<Rightarrow> length (pg_rows (ra_locks a)) = 1)"
    by code_simp
  then obtain a row where a: "analyze_runtime_lock_events sample_stream 1 1 = Inr a" "pg_rows (ra_locks a) = [row]"
    by (cases "analyze_runtime_lock_events sample_stream 1 1") (auto simp: length_Suc_conv)
  with runtime_lock_rows_exact [OF a(1), of row] show ?thesis by auto
qed

end
