(* ===== verification/FrameTable.thy ===== *)
theory FrameTable
  imports PyText Projection
begin

text \<open>
  The records of \<open>src/src/perflens/domain/models.py\<close> and the symbol normalization of
  \<open>src/src/perflens/stacks/normalize.py\<close>: frames and their interning table, stack samples,
  parse diagnostics with a bounded list of warnings, and the resource limits.
\<close>

section \<open>Frames\<close>

record frame_key =
  fk_symbol :: pytext
  fk_dso :: pytext
  fk_raw_symbol :: "pytext option"
  fk_ip :: "pytext option"
  fk_source_file :: "pytext option"
  fk_source_line :: "int option"
  fk_source_column :: "int option"
  fk_is_inline :: bool
  fk_is_kernel :: bool
  fk_is_unknown :: bool

definition UNKNOWN :: pytext where
  "UNKNOWN = ascii ''unknown''"

text \<open>A frame with the defaults of \<open>FrameKey\<close> for every field but the symbol.\<close>

definition frame_default :: "pytext \<Rightarrow> frame_key" where
  "frame_default symbol =
     \<lparr>fk_symbol = symbol, fk_dso = UNKNOWN, fk_raw_symbol = None, fk_ip = None, fk_source_file = None,
      fk_source_line = None, fk_source_column = None, fk_is_inline = False, fk_is_kernel = False,
      fk_is_unknown = False\<rparr>"

record frame_table =
  ft_frames :: "frame_key list"
  ft_ids :: "(frame_key, int) dict"

definition frame_table_init :: frame_table where
  "frame_table_init = \<lparr>ft_frames = [], ft_ids = []\<rparr>"

definition intern :: "frame_key \<Rightarrow> frame_table \<Rightarrow> int \<times> frame_table" where
  "intern key t =
     (case map_of (ft_ids t) key of
        Some existing \<Rightarrow> (existing, t)
      | None \<Rightarrow>
          let frame_id = int (length (ft_frames t))
          in (frame_id, \<lparr>ft_frames = ft_frames t @ [key], ft_ids = dict_set key frame_id (ft_ids t)\<rparr>))"

text \<open>List access: an index from \<open>-n\<close> to \<open>n - 1\<close>, any other raises.\<close>

definition py_nth :: "'a list \<Rightarrow> int \<Rightarrow> 'a result" where
  "py_nth xs i =
     (if 0 \<le> i \<and> i < int (length xs) then Inr (xs ! nat i)
      else if - int (length xs) \<le> i \<and> i < 0 then Inr (xs ! nat (int (length xs) + i))
      else Inl IndexError)"

definition resolve :: "frame_table \<Rightarrow> int \<Rightarrow> frame_key result" where
  "resolve t frame_id = py_nth (ft_frames t) frame_id"

definition frame_count :: "frame_table \<Rightarrow> int" where
  "frame_count t = int (length (ft_frames t))"

section \<open>Samples, diagnostics and limits\<close>

record stack_sample =
  ss_frames :: "int list"
  ss_weight :: int
  ss_event :: pytext
  ss_weight_unit :: pytext
  ss_weight_source :: pytext
  ss_process_id :: "int option"
  ss_thread_id :: "int option"
  ss_thread_name :: pytext
  ss_cpu :: "int option"
  ss_sample_context :: pytext

text \<open>The timestamp of a sample, a float, is not read by the code modelled here.\<close>

definition sample_default :: "int list \<Rightarrow> int \<Rightarrow> stack_sample" where
  "sample_default frames weight =
     \<lparr>ss_frames = frames, ss_weight = weight, ss_event = UNKNOWN, ss_weight_unit = ascii ''sample_count'',
      ss_weight_source = ascii ''folded_weight'', ss_process_id = None, ss_thread_id = None,
      ss_thread_name = UNKNOWN, ss_cpu = None, ss_sample_context = UNKNOWN\<rparr>"

record parse_warning =
  pw_code :: string
  pw_message :: string
  pw_line_number :: "int option"
  pw_preview :: "pytext option"

record parse_diagnostics =
  pd_parsed_records :: int
  pd_skipped_records :: int
  pd_malformed_records :: int
  pd_bytes_read :: int
  pd_frame_lines :: int
  pd_duplicate_frame_lines :: int
  pd_address_annotation_lines :: int
  pd_source_annotation_lines :: int
  pd_unicode_replacement_count :: int
  pd_warnings :: "parse_warning list"
  pd_warning_count :: int
  pd_warnings_truncated :: bool
  pd_max_warnings :: int

definition diagnostics_init :: "int \<Rightarrow> parse_diagnostics" where
  "diagnostics_init max_warnings =
     \<lparr>pd_parsed_records = 0, pd_skipped_records = 0, pd_malformed_records = 0, pd_bytes_read = 0,
      pd_frame_lines = 0, pd_duplicate_frame_lines = 0, pd_address_annotation_lines = 0,
      pd_source_annotation_lines = 0, pd_unicode_replacement_count = 0, pd_warnings = [],
      pd_warning_count = 0, pd_warnings_truncated = False, pd_max_warnings = max_warnings\<rparr>"

definition add_warning :: "parse_warning \<Rightarrow> parse_diagnostics \<Rightarrow> parse_diagnostics" where
  "add_warning w d =
     (let d = d\<lparr>pd_warning_count := pd_warning_count d + 1\<rparr>
      in if int (length (pd_warnings d)) < pd_max_warnings d
         then d\<lparr>pd_warnings := pd_warnings d @ [w]\<rparr>
         else d\<lparr>pd_warnings_truncated := True\<rparr>)"

record resource_limits =
  rl_max_input_bytes :: int
  rl_max_records :: int
  rl_max_line_chars :: int
  rl_max_stack_depth :: int
  rl_max_unique_frames :: int
  rl_max_unique_call_paths :: int
  rl_max_warnings :: int
  rl_max_hotspots_output :: int
  rl_max_call_paths_output :: int
  rl_max_output_bytes :: int

definition resource_limits_default :: resource_limits where
  "resource_limits_default =
     \<lparr>rl_max_input_bytes = 1073741824, rl_max_records = 10000000, rl_max_line_chars = 1048576,
      rl_max_stack_depth = 4096, rl_max_unique_frames = 2000000, rl_max_unique_call_paths = 1000000,
      rl_max_warnings = 100, rl_max_hotspots_output = 10000, rl_max_call_paths_output = 1000,
      rl_max_output_bytes = 134217728\<rparr>"

definition resource_limits_post_init :: "resource_limits \<Rightarrow> unit result" where
  "resource_limits_post_init l =
     (let positive_limits =
            [rl_max_input_bytes l, rl_max_records l, rl_max_line_chars l, rl_max_stack_depth l,
             rl_max_unique_frames l, rl_max_unique_call_paths l, rl_max_hotspots_output l,
             rl_max_call_paths_output l, rl_max_output_bytes l]
      in raise_if ((\<exists>v \<in> set positive_limits. v < 1) \<or> rl_max_warnings l < 0)
           (ValueError ''ResourceLimits values must be positive except max_warnings''))"

section \<open>Symbol normalization\<close>

definition is_lower_hex :: "nat \<Rightarrow> bool" where
  "is_lower_hex c \<longleftrightarrow> (48 \<le> c \<and> c \<le> 57) \<or> (97 \<le> c \<and> c \<le> 102)"

definition is_hex :: "nat \<Rightarrow> bool" where
  "is_hex c \<longleftrightarrow> is_lower_hex c \<or> (65 \<le> c \<and> c \<le> 70)"

definition trailing :: "(nat \<Rightarrow> bool) \<Rightarrow> pytext \<Rightarrow> pytext" where
  "trailing P s = rev (takeWhile P (rev s))"

definition before_trailing :: "(nat \<Rightarrow> bool) \<Rightarrow> pytext \<Rightarrow> pytext" where
  "before_trailing P s = rev (dropWhile P (rev s))"

text \<open>
  Each pattern is a literal followed by a run of characters of a class that contains no
  character of the literal's end, and the end of the text. The class run is therefore the
  maximal one, and the match is unique.
\<close>

definition strip_address_offset :: "pytext \<Rightarrow> pytext" where
  "strip_address_offset raw =
     (let s = strip raw
      in if trailing is_hex s \<noteq> [] \<and> ends_with (ascii ''+0x'') (before_trailing is_hex s)
         then removesuffix (ascii ''+0x'') (before_trailing is_hex s) else s)"

text \<open>
  \<open>$\<close> also matches before a final line feed, so a suffix pattern may be removed in front of
  one; the line feed stays.
\<close>

definition sub_at_end :: "(pytext \<Rightarrow> pytext) \<Rightarrow> pytext \<Rightarrow> pytext" where
  "sub_at_end f s =
     (if s \<noteq> [] \<and> last s = 10 then f (butlast s) @ [10] else f s)"

text \<open>
  \<open>\d\<close> matches the decimal digits of Unicode; \<open>dec\<close> gives those outside ASCII.
\<close>

definition cut_compiler_suffix :: "(nat \<Rightarrow> nat option) \<Rightarrow> pytext \<Rightarrow> pytext" where
  "cut_compiler_suffix dec s =
     (let is_digit = (\<lambda>c. digit_value dec c \<noteq> None); front = before_trailing is_digit s
      in if trailing is_digit s = [] then s
         else if ends_with (ascii ''.isra.'') front then removesuffix (ascii ''.isra.'') front
         else if ends_with (ascii ''.constprop.'') front then removesuffix (ascii ''.constprop.'') front
         else if ends_with (ascii ''.part.'') front then removesuffix (ascii ''.part.'') front
         else s)"

definition cut_rust_hash :: "pytext \<Rightarrow> pytext" where
  "cut_rust_hash s =
     (let run = trailing is_lower_hex s; front = before_trailing is_lower_hex s
      in if (length run = 16 \<or> length run = 17) \<and> ends_with (ascii ''::h'') front
         then removesuffix (ascii ''::h'') front else s)"

definition normalize_symbol :: "(nat \<Rightarrow> nat option) \<Rightarrow> pytext \<Rightarrow> pytext" where
  "normalize_symbol dec raw =
     (let s = strip_address_offset raw;
          s = (if ends_with (ascii '' [clone]'') s then removesuffix (ascii '' [clone]'') s else s);
          s = sub_at_end (cut_compiler_suffix dec) s;
          s = removesuffix (ascii ''.cold'') s
      in sub_at_end cut_rust_hash s)"

section \<open>Interning\<close>

text \<open>
  The interface of an interning table: an identity is stable, resolves to what was interned,
  and equal values share it.
\<close>

locale interner =
  fixes intern :: "'k \<Rightarrow> 't \<Rightarrow> int \<times> 't"
    and resolve :: "'t \<Rightarrow> int \<Rightarrow> 'k result"
    and count :: "'t \<Rightarrow> int"
    and wf :: "'t \<Rightarrow> bool"
  assumes intern_wf: "wf t \<Longrightarrow> wf (snd (intern k t))"
    and resolve_interned: "wf t \<Longrightarrow> resolve (snd (intern k t)) (fst (intern k t)) = Inr k"
    and resolve_stable: "wf t \<Longrightarrow> 0 \<le> i \<Longrightarrow> resolve t i = Inr v \<Longrightarrow> resolve (snd (intern k t)) i = Inr v"
    and resolve_injective: "wf t \<Longrightarrow> 0 \<le> i \<Longrightarrow> 0 \<le> j \<Longrightarrow> resolve t i = Inr v \<Longrightarrow> resolve t j = Inr v \<Longrightarrow> i = j"
    and intern_id: "wf t \<Longrightarrow> 0 \<le> fst (intern k t)"
    and intern_count: "count t \<le> count (snd (intern k t)) \<and> count (snd (intern k t)) \<le> count t + 1"
begin

text \<open>Interning a list of values, left to right, as a tuple comprehension does.\<close>

primrec intern_all :: "'k list \<Rightarrow> 't \<Rightarrow> int list \<times> 't" where
  "intern_all [] t = ([], t)"
| "intern_all (k # ks) t =
     (let u = snd (intern k t) in (fst (intern k t) # fst (intern_all ks u), snd (intern_all ks u)))"

lemma intern_all_wf: "wf t \<Longrightarrow> wf (snd (intern_all ks t))"
proof (induction ks arbitrary: t)
  case (Cons k ks)
  then show ?case by (simp add: intern_wf Let_def)
qed simp

lemma intern_all_stable:
  "wf t \<Longrightarrow> 0 \<le> i \<Longrightarrow> resolve t i = Inr v \<Longrightarrow> resolve (snd (intern_all ks t)) i = Inr v"
proof (induction ks arbitrary: t)
  case (Cons k ks)
  then have "wf (snd (intern k t))" "resolve (snd (intern k t)) i = Inr v"
    by (auto simp: intern_wf resolve_stable)
  with Cons.IH [of "snd (intern k t)"] Cons.prems(2) show ?case by (simp add: Let_def)
qed simp

lemma intern_all_resolves:
  "wf t \<Longrightarrow> list_all2 (\<lambda>i k. 0 \<le> i \<and> resolve (snd (intern_all ks t)) i = Inr k) (fst (intern_all ks t)) ks"
proof (induction ks arbitrary: t)
  case (Cons k ks)
  let ?u = "snd (intern k t)"
  have u: "wf ?u" using Cons.prems by (rule intern_wf)
  have "resolve (snd (intern_all ks ?u)) (fst (intern k t)) = Inr k"
    by (rule intern_all_stable [OF u intern_id [OF Cons.prems] resolve_interned [OF Cons.prems]])
  with Cons.IH [OF u] intern_id [OF Cons.prems, of k] show ?case
    by (simp add: Let_def)
qed simp

end

definition frame_table_wf :: "frame_table \<Rightarrow> bool" where
  "frame_table_wf t \<longleftrightarrow> distinct (ft_frames t) \<and>
     (\<forall>k i. map_of (ft_ids t) k = Some i \<longleftrightarrow> 0 \<le> i \<and> i < int (length (ft_frames t)) \<and> ft_frames t ! nat i = k)"

lemma frame_table_init_wf [simp]: "frame_table_wf frame_table_init"
  by (simp add: frame_table_wf_def frame_table_init_def)

lemma intern_cases:
  assumes "frame_table_wf t"
  obtains (old) i where "intern k t = (i, t)" "0 \<le> i" "i < frame_count t" "ft_frames t ! nat i = k"
  | (fresh) u where "intern k t = (frame_count t, u)" "ft_frames u = ft_frames t @ [k]" "k \<notin> set (ft_frames t)"
      "ft_ids u = dict_set k (frame_count t) (ft_ids t)"
proof (cases "map_of (ft_ids t) k")
  case None
  have "k \<notin> set (ft_frames t)"
  proof
    assume "k \<in> set (ft_frames t)"
    then obtain n where "n < length (ft_frames t)" "ft_frames t ! n = k" by (auto simp: in_set_conv_nth)
    then have "map_of (ft_ids t) k = Some (int n)" using assms by (auto simp: frame_table_wf_def)
    with None show False by simp
  qed
  with None show thesis by (intro fresh) (auto simp: intern_def Let_def frame_count_def)
next
  case (Some i)
  then have "0 \<le> i \<and> i < int (length (ft_frames t)) \<and> ft_frames t ! nat i = k"
    using assms by (simp add: frame_table_wf_def)
  with Some show thesis by (auto intro: old [of i] simp: intern_def frame_count_def)
qed

lemma frame_table_wf_fresh:
  assumes "frame_table_wf t" "ft_frames u = ft_frames t @ [k]" "k \<notin> set (ft_frames t)"
    "ft_ids u = dict_set k (frame_count t) (ft_ids t)"
  shows "frame_table_wf u"
proof -
  have "map_of (ft_ids u) k' = Some i \<longleftrightarrow> 0 \<le> i \<and> i < int (length (ft_frames u)) \<and> ft_frames u ! nat i = k'" for k' i
  proof (cases "k' = k")
    case True
    have "i = frame_count t \<longleftrightarrow> 0 \<le> i \<and> i < int (length (ft_frames t @ [k])) \<and> (ft_frames t @ [k]) ! nat i = k"
      using assms(3) by (auto simp: frame_count_def nth_append in_set_conv_nth split: if_splits)
    then show ?thesis unfolding assms(2,4) True by (auto simp: map_of_dict_set)
  next
    case False
    then show ?thesis using assms(1) unfolding assms(2,4) frame_table_wf_def
      by (auto simp: map_of_dict_set frame_count_def nth_append split: if_splits)
  qed
  then show ?thesis using assms by (simp add: frame_table_wf_def)
qed

lemma resolve_nonneg: "0 \<le> i \<Longrightarrow> resolve t i = Inr v \<longleftrightarrow> i < frame_count t \<and> ft_frames t ! nat i = v"
  by (auto simp: resolve_def py_nth_def frame_count_def)

interpretation frames: interner intern resolve frame_count frame_table_wf
proof unfold_locales
  fix t k assume wf: "frame_table_wf t"
  show "frame_table_wf (snd (intern k t))"
    using wf by (rule intern_cases [of t k]) (auto simp: wf frame_table_wf_fresh [OF wf])
  show "resolve (snd (intern k t)) (fst (intern k t)) = Inr k"
    using wf by (rule intern_cases [of t k]) (auto simp: resolve_nonneg frame_count_def)
  show "0 \<le> fst (intern k t)"
    using wf by (rule intern_cases [of t k]) (auto simp: frame_count_def)
next
  fix t i v k assume "frame_table_wf t" and i: "0 \<le> (i :: int)" "resolve t i = Inr v"
  then show "resolve (snd (intern k t)) i = Inr v"
    by (elim intern_cases [of t k]) (auto simp: resolve_nonneg frame_count_def nth_append)
next
  fix t i j v assume "frame_table_wf t" "0 \<le> i" "0 \<le> (j :: int)" "resolve t i = Inr v" "resolve t j = Inr v"
  then show "i = j"
    by (auto simp: resolve_nonneg frame_count_def frame_table_wf_def nth_eq_iff_index_eq)
next
  fix t k
  show "frame_count t \<le> frame_count (snd (intern k t)) \<and> frame_count (snd (intern k t)) \<le> frame_count t + 1"
    by (auto simp: intern_def Let_def frame_count_def split: option.split)
qed

section \<open>Warnings stay bounded\<close>

definition diagnostics_wf :: "parse_diagnostics \<Rightarrow> bool" where
  "diagnostics_wf d \<longleftrightarrow> 0 \<le> pd_max_warnings d \<and> int (length (pd_warnings d)) \<le> pd_max_warnings d \<and>
     int (length (pd_warnings d)) \<le> pd_warning_count d \<and>
     (pd_warnings_truncated d \<longleftrightarrow> int (length (pd_warnings d)) < pd_warning_count d) \<and>
     (pd_warnings_truncated d \<longrightarrow> int (length (pd_warnings d)) = pd_max_warnings d)"

lemma diagnostics_wf_init: "0 \<le> n \<Longrightarrow> diagnostics_wf (diagnostics_init n)"
  by (simp add: diagnostics_wf_def diagnostics_init_def)

lemma diagnostics_wf_add: "diagnostics_wf d \<Longrightarrow> diagnostics_wf (add_warning w d)"
  by (auto simp: diagnostics_wf_def add_warning_def Let_def)

end
