(* ===== verification/HotspotModel.thy ===== *)
theory HotspotModel
  imports FrameTable
begin

text \<open>
  The hotspot aggregator of \<open>src/src/perflens/hotspots/aggregate.py\<close>: its state, \<open>add\<close> with
  the loop over the frames of a sample, and \<open>finish\<close>. The frame table is shared with the
  parser, so it is an argument of both.
\<close>

section \<open>Data\<close>

type_synonym hotspot_key = "pytext \<times> pytext"

record hotspot_accumulator =
  ha_self_weight :: int
  ha_inclusive_weight :: int
  ha_sample_count :: int
  ha_stack_occurrence_count :: int
  ha_thread_ids :: "int set"
  ha_symbol_variants :: "pytext set"
  ha_symbol_variants_truncated :: bool
  ha_source_locations :: "pytext set"
  ha_source_locations_truncated :: bool

definition hotspot_empty :: hotspot_accumulator where
  "hotspot_empty =
     \<lparr>ha_self_weight = 0, ha_inclusive_weight = 0, ha_sample_count = 0, ha_stack_occurrence_count = 0,
      ha_thread_ids = {}, ha_symbol_variants = {}, ha_symbol_variants_truncated = False,
      ha_source_locations = {}, ha_source_locations_truncated = False\<rparr>"

record hotspot_result =
  hr_symbol :: pytext
  hr_dso :: pytext
  hr_self_weight :: int
  hr_inclusive_weight :: int
  hr_sample_count :: int
  hr_stack_occurrence_count :: int
  hr_thread_count :: int
  hr_symbol_variants :: "pytext list"
  hr_symbol_variant_count :: int
  hr_symbol_variants_truncated :: bool
  hr_normalization_merged :: bool
  hr_source_locations :: "pytext list"
  hr_source_locations_truncated :: bool

text \<open>\<open>_CallPathAccumulator\<close> and \<open>CallPathResult\<close> have the same fields.\<close>

record call_path =
  cp_frame_ids :: "int list"
  cp_weight :: int
  cp_record_count :: int

record aggregation_result =
  ar_total_weight :: int
  ar_record_count :: int
  ar_has_call_graph :: bool
  ar_event :: pytext
  ar_weight_unit :: pytext
  ar_weight_source :: pytext
  ar_call_graph_weight :: int
  ar_unknown_self_weight :: int
  ar_kernel_context_self_weight :: int
  ar_user_context_self_weight :: int
  ar_unknown_context_self_weight :: int
  ar_unresolved_kernel_self_weight :: int
  ar_unresolved_user_self_weight :: int
  ar_unresolved_unknown_context_self_weight :: int
  ar_source_line_frame_count :: int
  ar_source_line_self_weight :: int
  ar_inline_frame_count :: int
  ar_total_frame_count :: int
  ar_normalization_merge_count :: int
  ar_hotspots :: "hotspot_result list"
  ar_call_paths :: "call_path list"

record aggregator =
  ag_hotspots :: "(hotspot_key, hotspot_accumulator) dict"
  ag_frame_identities :: "(hotspot_key, int) dict"
  ag_call_paths :: "(int list, call_path) dict"
  ag_total_weight :: int
  ag_record_count :: int
  ag_has_call_graph :: bool
  ag_call_graph_weight :: int
  ag_unknown_self_weight :: int
  ag_kernel_context_self_weight :: int
  ag_user_context_self_weight :: int
  ag_unknown_context_self_weight :: int
  ag_unresolved_kernel_self_weight :: int
  ag_unresolved_user_self_weight :: int
  ag_unresolved_unknown_context_self_weight :: int
  ag_source_line_frame_count :: int
  ag_source_line_self_weight :: int
  ag_inline_frame_count :: int
  ag_total_frame_count :: int
  ag_scope :: "(pytext \<times> pytext \<times> pytext) option"

text \<open>
  \<open>_event\<close>, \<open>_weight_unit\<close> and \<open>_weight_source\<close> are assigned together, so they are one
  optional triple.
\<close>

definition aggregator_init :: aggregator where
  "aggregator_init =
     \<lparr>ag_hotspots = [], ag_frame_identities = [], ag_call_paths = [], ag_total_weight = 0,
      ag_record_count = 0, ag_has_call_graph = False, ag_call_graph_weight = 0,
      ag_unknown_self_weight = 0, ag_kernel_context_self_weight = 0, ag_user_context_self_weight = 0,
      ag_unknown_context_self_weight = 0, ag_unresolved_kernel_self_weight = 0,
      ag_unresolved_user_self_weight = 0, ag_unresolved_unknown_context_self_weight = 0,
      ag_source_line_frame_count = 0, ag_source_line_self_weight = 0, ag_inline_frame_count = 0,
      ag_total_frame_count = 0, ag_scope = None\<rparr>"

section \<open>Adding a sample\<close>

abbreviation empty_stack :: py_error where
  "empty_stack \<equiv> PerfLensError PROFILE_PARSE_FAILED ''aggregation'' ''A stack sample has no frames''"

abbreviation mixed_scope :: py_error where
  "mixed_scope \<equiv> PerfLensError PROFILE_PARSE_FAILED ''aggregation''
     ''Profiles with different events or weight units cannot be merged''"

abbreviation too_many_paths :: py_error where
  "too_many_paths \<equiv> PerfLensError RESOURCE_LIMIT_EXCEEDED ''aggregation'' ''Input exceeds max_unique_call_paths''"

definition sample_scope :: "stack_sample \<Rightarrow> pytext \<times> pytext \<times> pytext" where
  "sample_scope s = (ss_event s, ss_weight_unit s, ss_weight_source s)"

definition check_scope :: "stack_sample \<Rightarrow> aggregator \<Rightarrow> aggregator result" where
  "check_scope s g =
     (case ag_scope g of
        None \<Rightarrow> Inr (g\<lparr>ag_scope := Some (sample_scope s)\<rparr>)
      | Some expected \<Rightarrow> if sample_scope s \<noteq> expected then Inl mixed_scope else Inr g)"

definition source_location :: "frame_key \<Rightarrow> pytext option" where
  "source_location f =
     (case fk_source_file f of
        None \<Rightarrow> None
      | Some file \<Rightarrow>
          (case fk_source_line f of
             None \<Rightarrow> Some file
           | Some line \<Rightarrow>
               (case fk_source_column f of
                  Some col \<Rightarrow> Some (file @ ascii '':'' @ ascii (str_int line) @ ascii '':'' @ ascii (str_int col))
                | None \<Rightarrow> Some (file @ ascii '':'' @ ascii (str_int line)))))"

definition hotspot_key :: "frame_key \<Rightarrow> hotspot_key" where
  "hotspot_key f = (fk_symbol f, fk_dso f)"

definition symbol_variant :: "frame_key \<Rightarrow> pytext" where
  "symbol_variant f =
     strip_address_offset (case fk_raw_symbol f of None \<Rightarrow> fk_symbol f | Some r \<Rightarrow> if r = [] then fk_symbol f else r)"

definition add_leaf :: "stack_sample \<Rightarrow> hotspot_accumulator \<Rightarrow> hotspot_accumulator" where
  "add_leaf s a = a\<lparr>ha_self_weight := ha_self_weight a + ss_weight s\<rparr>"

definition add_variant :: "pytext \<Rightarrow> hotspot_accumulator \<Rightarrow> hotspot_accumulator" where
  "add_variant v a =
     (if v \<in> ha_symbol_variants a then a
      else if card (ha_symbol_variants a) < 32
      then a\<lparr>ha_symbol_variants := insert v (ha_symbol_variants a)\<rparr>
      else a\<lparr>ha_symbol_variants_truncated := True\<rparr>)"

definition add_location :: "pytext option \<Rightarrow> hotspot_accumulator \<Rightarrow> hotspot_accumulator" where
  "add_location l a =
     (case l of
        None \<Rightarrow> a
      | Some v \<Rightarrow>
          if v \<in> ha_source_locations a then a
          else if card (ha_source_locations a) < 16
          then a\<lparr>ha_source_locations := insert v (ha_source_locations a)\<rparr>
          else a\<lparr>ha_source_locations_truncated := True\<rparr>)"

text \<open>What one frame of a sample adds to its hotspot; \<open>first\<close> tells that the hotspot was not seen yet.\<close>

definition add_frame :: "stack_sample \<Rightarrow> frame_key \<Rightarrow> bool \<Rightarrow> hotspot_accumulator \<Rightarrow> hotspot_accumulator" where
  "add_frame s f first a =
     (let a = add_variant (symbol_variant f) a;
          a = add_location (source_location f) a;
          a = a\<lparr>ha_stack_occurrence_count := ha_stack_occurrence_count a + 1\<rparr>;
          a = (case ss_thread_id s of None \<Rightarrow> a | Some t \<Rightarrow> a\<lparr>ha_thread_ids := insert t (ha_thread_ids a)\<rparr>)
      in if first
         then a\<lparr>ha_inclusive_weight := ha_inclusive_weight a + ss_weight s, ha_sample_count := ha_sample_count a + 1\<rparr>
         else a)"

definition count_leaf :: "stack_sample \<Rightarrow> frame_key \<Rightarrow> aggregator \<Rightarrow> aggregator" where
  "count_leaf s leaf g =
     (let w = ss_weight s; kernel = (ss_sample_context s = ascii ''kernel''); user = (ss_sample_context s = ascii ''user'');
          g = g\<lparr>ag_hotspots := dict_modify (hotspot_key leaf) hotspot_empty (add_leaf s) (ag_hotspots g)\<rparr>;
          g = (if kernel then g\<lparr>ag_kernel_context_self_weight := ag_kernel_context_self_weight g + w\<rparr>
               else if user then g\<lparr>ag_user_context_self_weight := ag_user_context_self_weight g + w\<rparr>
               else g\<lparr>ag_unknown_context_self_weight := ag_unknown_context_self_weight g + w\<rparr>);
          g = (if fk_is_unknown leaf then
                 let g = g\<lparr>ag_unknown_self_weight := ag_unknown_self_weight g + w\<rparr>
                 in if kernel then g\<lparr>ag_unresolved_kernel_self_weight := ag_unresolved_kernel_self_weight g + w\<rparr>
                    else if user then g\<lparr>ag_unresolved_user_self_weight := ag_unresolved_user_self_weight g + w\<rparr>
                    else g\<lparr>ag_unresolved_unknown_context_self_weight := ag_unresolved_unknown_context_self_weight g + w\<rparr>
               else g)
      in if fk_source_line leaf \<noteq> None
         then g\<lparr>ag_source_line_self_weight := ag_source_line_self_weight g + w\<rparr> else g)"

text \<open>The loop over the frames keeps the hotspots already seen and the semantic path.\<close>

record frame_loop =
  fl_state :: aggregator
  fl_seen :: "hotspot_key set"
  fl_path :: "int list"

definition count_frame :: "frame_key \<Rightarrow> aggregator \<Rightarrow> aggregator" where
  "count_frame f g =
     g\<lparr>ag_total_frame_count := ag_total_frame_count g + 1,
       ag_source_line_frame_count := ag_source_line_frame_count g + (if fk_source_line f \<noteq> None then 1 else 0),
       ag_inline_frame_count := ag_inline_frame_count g + (if fk_is_inline f then 1 else 0)\<rparr>"

definition identify_frame :: "hotspot_key \<Rightarrow> (hotspot_key, int) dict \<Rightarrow> int \<times> (hotspot_key, int) dict" where
  "identify_frame k ids =
     (case map_of ids k of
        Some i \<Rightarrow> (i, ids)
      | None \<Rightarrow> (int (length ids), dict_set k (int (length ids)) ids))"

definition frame_step :: "frame_table \<Rightarrow> stack_sample \<Rightarrow> int \<Rightarrow> frame_loop \<Rightarrow> frame_loop result" where
  "frame_step tbl s frame_id l =
     bindE (resolve tbl frame_id) (\<lambda>f.
     let g = count_frame f (fl_state l);
         k = hotspot_key f;
         ident = identify_frame k (ag_frame_identities g);
         g = g\<lparr>ag_frame_identities := snd ident,
               ag_hotspots := dict_modify k hotspot_empty (add_frame s f (k \<notin> fl_seen l)) (ag_hotspots g)\<rparr>
     in Inr \<lparr>fl_state = g, fl_seen = insert k (fl_seen l), fl_path = fl_path l @ [fst ident]\<rparr>)"

definition add_call_path :: "resource_limits \<Rightarrow> stack_sample \<Rightarrow> int list \<Rightarrow> aggregator \<Rightarrow> aggregator result" where
  "add_call_path lim s path g =
     (case map_of (ag_call_paths g) path of
        None \<Rightarrow>
          if int (length (ag_call_paths g)) \<ge> rl_max_unique_call_paths lim then Inl too_many_paths
          else Inr (g\<lparr>ag_call_paths := dict_set path
                 \<lparr>cp_frame_ids = ss_frames s, cp_weight = ss_weight s, cp_record_count = 1\<rparr> (ag_call_paths g)\<rparr>)
      | Some p \<Rightarrow>
          Inr (g\<lparr>ag_call_paths := dict_set path
            (p\<lparr>cp_weight := cp_weight p + ss_weight s, cp_record_count := cp_record_count p + 1\<rparr>) (ag_call_paths g)\<rparr>))"

definition count_sample :: "stack_sample \<Rightarrow> aggregator \<Rightarrow> aggregator" where
  "count_sample s g =
     (let g = g\<lparr>ag_record_count := ag_record_count g + 1, ag_total_weight := ag_total_weight g + ss_weight s,
               ag_has_call_graph := ag_has_call_graph g \<or> length (ss_frames s) > 1\<rparr>
      in if length (ss_frames s) > 1 then g\<lparr>ag_call_graph_weight := ag_call_graph_weight g + ss_weight s\<rparr> else g)"

definition add_sample :: "resource_limits \<Rightarrow> frame_table \<Rightarrow> stack_sample \<Rightarrow> aggregator \<Rightarrow> aggregator result" where
  "add_sample lim tbl s g =
     (if ss_frames s = [] then Inl empty_stack
      else
        bindE (check_scope s g) (\<lambda>g.
        bindE (resolve tbl (last (ss_frames s))) (\<lambda>leaf.
        let g = count_leaf s leaf (count_sample s g) in
        bindE (foldE (frame_step tbl s) (ss_frames s) \<lparr>fl_state = g, fl_seen = {}, fl_path = []\<rparr>) (\<lambda>l.
        add_call_path lim s (fl_path l) (fl_state l)))))"

section \<open>The result\<close>

definition hotspot_row :: "hotspot_key \<times> hotspot_accumulator \<Rightarrow> hotspot_result" where
  "hotspot_row p =
     (case p of (k, a) \<Rightarrow>
        \<lparr>hr_symbol = fst k, hr_dso = snd k, hr_self_weight = ha_self_weight a,
         hr_inclusive_weight = ha_inclusive_weight a, hr_sample_count = ha_sample_count a,
         hr_stack_occurrence_count = ha_stack_occurrence_count a,
         hr_thread_count = int (card (ha_thread_ids a)),
         hr_symbol_variants = sorted_list_of_set (ha_symbol_variants a),
         hr_symbol_variant_count =
           int (card (ha_symbol_variants a)) + (if ha_symbol_variants_truncated a then 1 else 0),
         hr_symbol_variants_truncated = ha_symbol_variants_truncated a,
         hr_normalization_merged = (card (ha_symbol_variants a) > 1 \<or> ha_symbol_variants_truncated a),
         hr_source_locations = sorted_list_of_set (ha_source_locations a),
         hr_source_locations_truncated = ha_source_locations_truncated a\<rparr>)"

definition hotspot_order :: "hotspot_key \<times> hotspot_accumulator \<Rightarrow> int \<times> int \<times> hotspot_key" where
  "hotspot_order p = (- ha_self_weight (snd p), - ha_inclusive_weight (snd p), fst p)"

text \<open>The sort key of a call path resolves its frames again.\<close>

definition path_order :: "frame_table \<Rightarrow> call_path \<Rightarrow> (int \<times> hotspot_key list) result" where
  "path_order tbl p =
     bindE (mapE (\<lambda>i. bindE (resolve tbl i) (\<lambda>f. Inr (hotspot_key f))) (cp_frame_ids p)) (\<lambda>ks.
     Inr (- cp_weight p, ks))"

definition sort_paths :: "frame_table \<Rightarrow> (int list, call_path) dict \<Rightarrow> call_path list result" where
  "sort_paths tbl m =
     bindE (mapE (\<lambda>p. bindE (path_order tbl (snd p)) (\<lambda>k. Inr (k, snd p))) m) (\<lambda>keyed.
     Inr (map snd (sort_key fst keyed)))"

definition finish_aggregation :: "frame_table \<Rightarrow> aggregator \<Rightarrow> aggregation_result result" where
  "finish_aggregation tbl g =
     (let hotspots = map hotspot_row (sort_key hotspot_order (ag_hotspots g)) in
      bindE (sort_paths tbl (ag_call_paths g)) (\<lambda>call_paths.
      let part = (\<lambda>f default. case ag_scope g of None \<Rightarrow> default | Some sc \<Rightarrow> if f sc = [] then default else f sc) in
      Inr \<lparr>ar_total_weight = ag_total_weight g, ar_record_count = ag_record_count g,
           ar_has_call_graph = ag_has_call_graph g,
           ar_event = part fst (ascii ''unknown''),
           ar_weight_unit = part (\<lambda>sc. fst (snd sc)) (ascii ''sample_count''),
           ar_weight_source = part (\<lambda>sc. snd (snd sc)) (ascii ''folded_weight''),
           ar_call_graph_weight = ag_call_graph_weight g,
           ar_unknown_self_weight = ag_unknown_self_weight g,
           ar_kernel_context_self_weight = ag_kernel_context_self_weight g,
           ar_user_context_self_weight = ag_user_context_self_weight g,
           ar_unknown_context_self_weight = ag_unknown_context_self_weight g,
           ar_unresolved_kernel_self_weight = ag_unresolved_kernel_self_weight g,
           ar_unresolved_user_self_weight = ag_unresolved_user_self_weight g,
           ar_unresolved_unknown_context_self_weight = ag_unresolved_unknown_context_self_weight g,
           ar_source_line_frame_count = ag_source_line_frame_count g,
           ar_source_line_self_weight = ag_source_line_self_weight g,
           ar_inline_frame_count = ag_inline_frame_count g,
           ar_total_frame_count = ag_total_frame_count g,
           ar_normalization_merge_count = int (length (filter hr_normalization_merged hotspots)),
           ar_hotspots = hotspots, ar_call_paths = call_paths\<rparr>))"

text \<open>The aggregation loop of \<open>analyze_profile\<close> over samples whose frames are all interned.\<close>

definition aggregate :: "resource_limits \<Rightarrow> frame_table \<Rightarrow> stack_sample list \<Rightarrow> aggregation_result result" where
  "aggregate lim tbl samples =
     bindE (foldE (add_sample lim tbl) samples aggregator_init) (finish_aggregation tbl)"

end
