(* ===== verification/FoldedModel.thy ===== *)
theory FoldedModel
  imports HotspotModel
begin

text \<open>
  The streaming parser for folded stacks, \<open>src/src/perflens/profiles/folded.py\<close>, with the
  text sanitizer of \<open>src/src/perflens/profiles/text.py\<close>. The open file is the decoded text
  that is still to be read; the generator \<open>_samples\<close> is a step that ends, continues with
  the next line, or yields a sample.
\<close>

section \<open>State\<close>

record folded_state =
  fo_rest :: pytext
  fo_line_number :: int
  fo_diagnostics :: parse_diagnostics
  fo_frame_table :: frame_table

definition folded_init :: "resource_limits \<Rightarrow> pytext \<Rightarrow> folded_state" where
  "folded_init lim text =
     \<lparr>fo_rest = text, fo_line_number = 0, fo_diagnostics = diagnostics_init (rl_max_warnings lim),
      fo_frame_table = frame_table_init\<rparr>"

datatype folded_outcome = EndOfFile folded_state | Continue folded_state | Yield stack_sample folded_state

abbreviation input_grew :: py_error where
  "input_grew \<equiv> PerfLensError RESOURCE_LIMIT_EXCEEDED ''input'' ''Input grew beyond max_input_bytes while parsing''"

abbreviation too_many_records :: py_error where
  "too_many_records \<equiv> PerfLensError RESOURCE_LIMIT_EXCEEDED ''parsing'' ''Input exceeds max_records''"

abbreviation too_many_frames :: py_error where
  "too_many_frames \<equiv> PerfLensError RESOURCE_LIMIT_EXCEEDED ''parsing'' ''Input exceeds max_unique_frames''"

section \<open>Sanitizing text\<close>

text \<open>An undecodable byte appears as one of the code points from \<open>0xDC80\<close> to \<open>0xDCFF\<close>.\<close>

definition is_escaped_byte :: "nat \<Rightarrow> bool" where
  "is_escaped_byte c \<longleftrightarrow> 56448 \<le> c \<and> c \<le> 56575"

definition utf8_length :: "nat \<Rightarrow> nat" where
  "utf8_length c =
     (if c < 128 \<or> is_escaped_byte c then 1 else if c < 2048 then 2 else if c < 65536 then 3 else 4)"

definition sanitize_surrogateescaped_text :: "pytext \<Rightarrow> pytext \<times> int \<times> int" where
  "sanitize_surrogateescaped_text v =
     (let source_bytes = sum_list (map utf8_length v);
          invalid_bytes = length (filter is_escaped_byte v)
      in (if invalid_bytes \<noteq> 0 then map (\<lambda>c. if is_escaped_byte c then 65533 else c) v else v,
          int source_bytes, int invalid_bytes))"

section \<open>Diagnostics\<close>

definition count_text :: "int \<Rightarrow> int \<Rightarrow> folded_state \<Rightarrow> folded_state" where
  "count_text byte_count invalid_bytes st =
     st\<lparr>fo_diagnostics := (fo_diagnostics st)
       \<lparr>pd_unicode_replacement_count := pd_unicode_replacement_count (fo_diagnostics st) + invalid_bytes,
        pd_bytes_read := pd_bytes_read (fo_diagnostics st) + byte_count\<rparr>\<rparr>"

definition check_input_bytes :: "resource_limits \<Rightarrow> folded_state \<Rightarrow> unit result" where
  "check_input_bytes lim st = raise_if (pd_bytes_read (fo_diagnostics st) > rl_max_input_bytes lim) input_grew"

definition preview :: "pytext \<Rightarrow> pytext" where
  "preview raw = take 200 (concat (map (\<lambda>c. if c = 10 then [92, 110] else [c]) raw))"

definition malformed :: "string \<Rightarrow> string \<Rightarrow> pytext \<Rightarrow> folded_state \<Rightarrow> folded_state" where
  "malformed code message raw st =
     (let d = fo_diagnostics st;
          d = d\<lparr>pd_malformed_records := pd_malformed_records d + 1,
                pd_skipped_records := pd_skipped_records d + 1\<rparr>
      in st\<lparr>fo_diagnostics := add_warning
             \<lparr>pw_code = code, pw_message = message, pw_line_number = Some (fo_line_number st),
              pw_preview = Some (preview raw)\<rparr> d\<rparr>)"

section \<open>One record\<close>

definition is_unknown_symbol :: "pytext \<Rightarrow> bool" where
  "is_unknown_symbol s \<longleftrightarrow> s \<in> {ascii ''[unknown]'', ascii ''unknown'', ascii ''0x0'', ascii ''??''}"

definition folded_frame :: "pytext \<Rightarrow> frame_key" where
  "folded_frame symbol = (frame_default symbol)\<lparr>fk_is_unknown := is_unknown_symbol symbol\<rparr>"

definition intern_frame :: "resource_limits \<Rightarrow> pytext \<Rightarrow> frame_table \<Rightarrow> (int \<times> frame_table) result" where
  "intern_frame lim symbol t =
     (let (frame_id, u) = intern (folded_frame symbol) t
      in bindE (raise_if (frame_count u > frame_count t \<and> frame_count u > rl_max_unique_frames lim) too_many_frames) (\<lambda>_.
         Inr (frame_id, u)))"

fun intern_symbols :: "resource_limits \<Rightarrow> pytext list \<Rightarrow> frame_table \<Rightarrow> (int list \<times> frame_table) result" where
  "intern_symbols lim [] t = Inr ([], t)"
| "intern_symbols lim (w # ws) t =
     bindE (intern_frame lim (strip w) t) (\<lambda>(i, u).
     bindE (intern_symbols lim ws u) (\<lambda>(is, v). Inr (i # is, v)))"

definition parse_line ::
  "resource_limits \<Rightarrow> (nat \<Rightarrow> nat option) \<Rightarrow> pytext \<Rightarrow> folded_state \<Rightarrow> (stack_sample option \<times> folded_state) result" where
  "parse_line lim dec line st =
     (case rsplit_word line of
        None \<Rightarrow> Inr (None, malformed ''MISSING_WEIGHT'' ''Folded record must end with a positive integer weight'' line st)
      | Some (stack_text, weight_text) \<Rightarrow>
          (case py_int dec weight_text of
             None \<Rightarrow> Inr (None, malformed ''INVALID_WEIGHT'' ''Folded record weight is not an integer'' line st)
           | Some weight \<Rightarrow>
               if weight \<le> 0
               then Inr (None, malformed ''INVALID_WEIGHT'' ''Folded record weight must be positive'' line st)
               else
                 let symbols = split_on 59 stack_text in
                 if symbols = [] \<or> (\<exists>w \<in> set symbols. strip w = [])
                 then Inr (None, malformed ''EMPTY_FRAME'' ''Folded record contains an empty frame'' line st)
                 else if int (length symbols) > rl_max_stack_depth lim
                 then Inr (None, malformed ''STACK_TOO_DEEP'' ''Folded record exceeds max_stack_depth'' line st)
                 else
                   bindE (intern_symbols lim symbols (fo_frame_table st)) (\<lambda>(frame_ids, t).
                   Inr (Some (sample_default frame_ids weight), st\<lparr>fo_frame_table := t\<rparr>))))"

section \<open>The generator\<close>

text \<open>Entering the stream compares the size of the file with the limit.\<close>

definition folded_enter :: "resource_limits \<Rightarrow> int \<Rightarrow> pytext \<Rightarrow> folded_state result" where
  "folded_enter lim st_size text =
     bindE (raise_if (st_size > rl_max_input_bytes lim)
       (PerfLensError RESOURCE_LIMIT_EXCEEDED ''input'' ''Input file exceeds max_input_bytes'')) (\<lambda>_.
     Inr (folded_init lim text))"

text \<open>Reading up to \<open>max_line_chars + 1\<close> characters of a line; the limits are positive by construction.\<close>

definition read_chunk :: "resource_limits \<Rightarrow> folded_state \<Rightarrow> pytext \<times> folded_state" where
  "read_chunk lim st =
     (let (chunk, rest) = readline (nat (rl_max_line_chars lim + 1)) (fo_rest st) in (chunk, st\<lparr>fo_rest := rest\<rparr>))"

function drain_overlong_line :: "resource_limits \<Rightarrow> folded_state \<Rightarrow> folded_state result" where
  "drain_overlong_line lim st =
     (case read_chunk lim st of
        (chunk, st) \<Rightarrow>
          if chunk = [] then Inr st
          else
            let (_, byte_count, invalid_bytes) = sanitize_surrogateescaped_text chunk;
                st = count_text byte_count invalid_bytes st
            in bindE (check_input_bytes lim st) (\<lambda>_.
               if ends_with [10] chunk then Inr st else drain_overlong_line lim st))"
  by pat_completeness auto

termination
  by (relation "measure (\<lambda>(lim, st). length (fo_rest st))")
    (auto simp: count_text_def read_chunk_def readline_def Let_def split: prod.splits)

declare drain_overlong_line.simps [simp del]

text \<open>A line that is neither too long nor blank is a record.\<close>

definition take_record ::
  "resource_limits \<Rightarrow> (nat \<Rightarrow> nat option) \<Rightarrow> pytext \<Rightarrow> folded_state \<Rightarrow> folded_outcome result" where
  "take_record lim dec line st =
     bindE (raise_if (pd_parsed_records (fo_diagnostics st) + pd_malformed_records (fo_diagnostics st)
         \<ge> rl_max_records lim) too_many_records) (\<lambda>_.
     bindE (parse_line lim dec line st) (\<lambda>(parsed, st).
     case parsed of
       None \<Rightarrow> Inr (Continue st)
     | Some s \<Rightarrow>
         Inr (Yield s (st\<lparr>fo_diagnostics := (fo_diagnostics st)
           \<lparr>pd_parsed_records := pd_parsed_records (fo_diagnostics st) + 1\<rparr>\<rparr>))))"

definition classify_line ::
  "resource_limits \<Rightarrow> (nat \<Rightarrow> nat option) \<Rightarrow> pytext \<Rightarrow> folded_state \<Rightarrow> folded_outcome result" where
  "classify_line lim dec raw_line st =
     (if int (length raw_line) > rl_max_line_chars lim then
        bindE (if ends_with [10] raw_line then Inr st else drain_overlong_line lim st) (\<lambda>st.
        Inr (Continue (malformed ''LINE_TOO_LONG'' ''Folded record exceeds max_line_chars'' raw_line st)))
      else
        let line = strip raw_line in
        if line = [] then
          Inr (Continue (st\<lparr>fo_diagnostics := (fo_diagnostics st)
            \<lparr>pd_skipped_records := pd_skipped_records (fo_diagnostics st) + 1\<rparr>\<rparr>))
        else take_record lim dec line st)"

definition folded_step :: "resource_limits \<Rightarrow> (nat \<Rightarrow> nat option) \<Rightarrow> folded_state \<Rightarrow> folded_outcome result" where
  "folded_step lim dec st =
     (case read_chunk lim st of
        (chunk, st) \<Rightarrow>
          if chunk = [] then Inr (EndOfFile st)
          else
            let st = st\<lparr>fo_line_number := fo_line_number st + 1\<rparr>;
                (raw_line, byte_count, invalid_bytes) = sanitize_surrogateescaped_text chunk;
                st = count_text byte_count invalid_bytes st
            in bindE (check_input_bytes lim st) (\<lambda>_. classify_line lim dec raw_line st))"

section \<open>The analysis loop\<close>

text \<open>
  \<open>analyze_profile\<close> iterates over the stream and adds every sample to the aggregator, whose
  frame table is the parser's. The fuel is one step per character of the input and one for its
  end, which is enough because every step but the last reads at least one character.
\<close>

fun folded_loop ::
  "resource_limits \<Rightarrow> (nat \<Rightarrow> nat option) \<Rightarrow> nat \<Rightarrow> folded_state \<Rightarrow> aggregator
     \<Rightarrow> (folded_state \<times> aggregator) result option" where
  "folded_loop lim dec 0 st g = None"
| "folded_loop lim dec (Suc n) st g =
     (case folded_step lim dec st of
        Inl e \<Rightarrow> Some (Inl e)
      | Inr (EndOfFile st) \<Rightarrow> Some (Inr (st, g))
      | Inr (Continue st) \<Rightarrow> folded_loop lim dec n st g
      | Inr (Yield s st) \<Rightarrow>
          (case add_sample lim (fo_frame_table st) s g of
             Inl e \<Rightarrow> Some (Inl e)
           | Inr g \<Rightarrow> folded_loop lim dec n st g))"

definition analyze_folded ::
  "resource_limits \<Rightarrow> (nat \<Rightarrow> nat option) \<Rightarrow> int \<Rightarrow> pytext
     \<Rightarrow> (aggregation_result \<times> parse_diagnostics) result option" where
  "analyze_folded lim dec st_size text =
     (case folded_enter lim st_size text of
        Inl e \<Rightarrow> Some (Inl e)
      | Inr st \<Rightarrow>
          (case folded_loop lim dec (Suc (length text)) st aggregator_init of
             None \<Rightarrow> None
           | Some (Inl e) \<Rightarrow> Some (Inl e)
           | Some (Inr (st, g)) \<Rightarrow>
               Some (bindE (finish_aggregation (fo_frame_table st) g) (\<lambda>r. Inr (r, fo_diagnostics st)))))"

end
