(* ===== verification/FoldedProofs.thy ===== *)
theory FoldedProofs
  imports FoldedModel
begin

text \<open>
  The folded-stack parser: what it keeps about the input it has read, which samples it yields,
  and which errors it may raise.
\<close>

section \<open>Text\<close>

definition text_bytes :: "pytext \<Rightarrow> int" where
  "text_bytes s = int (sum_list (map utf8_length s))"

definition escaped_bytes :: "pytext \<Rightarrow> int" where
  "escaped_bytes s = int (length (filter is_escaped_byte s))"

lemma text_counts_append [simp]:
  "text_bytes (s @ t) = text_bytes s + text_bytes t" "escaped_bytes (s @ t) = escaped_bytes s + escaped_bytes t"
  "text_bytes [] = 0" "escaped_bytes [] = 0"
  by (simp_all add: text_bytes_def escaped_bytes_def)

lemma sanitize_parts:
  assumes "sanitize_surrogateescaped_text v = (w, b, i)"
  shows "length w = length v" "b = text_bytes v" "i = escaped_bytes v"
  using assms by (auto simp: sanitize_surrogateescaped_text_def Let_def text_bytes_def escaped_bytes_def split: if_splits)

lemma read_chunk_parts:
  assumes "read_chunk lim st = (c, st')"
  obtains r where "fo_rest st = c @ r" "st' = st\<lparr>fo_rest := r\<rparr>"
proof -
  obtain l r where lr: "readline (nat (rl_max_line_chars lim + 1)) (fo_rest st) = (l, r)" by fastforce
  with assms have "c = l" "st' = st\<lparr>fo_rest := r\<rparr>" by (simp_all add: read_chunk_def)
  with readline_append [OF lr] that show thesis by blast
qed

lemma read_chunk_end:
  assumes "read_chunk lim st = ([], st')" "1 \<le> rl_max_line_chars lim"
  shows "fo_rest st = []" "st' = st"
proof -
  obtain l r where lr: "readline (nat (rl_max_line_chars lim + 1)) (fo_rest st) = (l, r)" by fastforce
  with assms(1) have "l = []" by (simp add: read_chunk_def)
  then show "fo_rest st = []" using readline_progress [OF lr] assms(2) by (cases "fo_rest st = []") simp_all
  with assms(1) lr show "st' = st" by (cases st) (auto simp: read_chunk_def readline_def)
qed

section \<open>The invariant of the parser\<close>

definition progress :: "pytext \<Rightarrow> folded_state \<Rightarrow> bool" where
  "progress text st \<longleftrightarrow> (\<exists>pre. text = pre @ fo_rest st \<and> pd_bytes_read (fo_diagnostics st) = text_bytes pre \<and>
     pd_unicode_replacement_count (fo_diagnostics st) = escaped_bytes pre)"

definition records_ok :: "resource_limits \<Rightarrow> folded_state \<Rightarrow> bool" where
  "records_ok lim st \<longleftrightarrow>
     (let d = fo_diagnostics st in
      diagnostics_wf d \<and> pd_max_warnings d = rl_max_warnings lim \<and>
      pd_parsed_records d + pd_skipped_records d = fo_line_number st \<and>
      pd_warning_count d = pd_malformed_records d \<and> pd_malformed_records d \<le> pd_skipped_records d \<and>
      0 \<le> pd_parsed_records d \<and> pd_parsed_records d \<le> rl_max_records lim)"

definition table_fits :: "resource_limits \<Rightarrow> folded_state \<Rightarrow> bool" where
  "table_fits lim st \<longleftrightarrow> frame_table_wf (fo_frame_table st) \<and> frame_count (fo_frame_table st) \<le> rl_max_unique_frames lim"

definition folded_inv :: "resource_limits \<Rightarrow> pytext \<Rightarrow> folded_state \<Rightarrow> bool" where
  "folded_inv lim text st \<longleftrightarrow> progress text st \<and> pd_bytes_read (fo_diagnostics st) \<le> rl_max_input_bytes lim \<and>
     records_ok lim st \<and> table_fits lim st"

definition limits_ok :: "resource_limits \<Rightarrow> bool" where
  "limits_ok lim \<longleftrightarrow> resource_limits_post_init lim = Inr ()"

lemma limits_okD:
  assumes "limits_ok lim"
  shows "1 \<le> rl_max_input_bytes lim" "1 \<le> rl_max_records lim" "1 \<le> rl_max_line_chars lim" "1 \<le> rl_max_stack_depth lim"
    "1 \<le> rl_max_unique_frames lim" "1 \<le> rl_max_unique_call_paths lim" "0 \<le> rl_max_warnings lim"
  using assms by (simp_all add: limits_ok_def resource_limits_post_init_def Let_def)

lemma folded_inv_init: "limits_ok lim \<Longrightarrow> folded_inv lim text (folded_init lim text)"
  using limits_okD [of lim]
  by (auto simp: folded_inv_def progress_def records_ok_def table_fits_def folded_init_def diagnostics_init_def
      diagnostics_wf_def Let_def frame_count_def frame_table_init_def frame_table_wf_def)

definition folded_error :: "py_error \<Rightarrow> bool" where
  "folded_error e \<longleftrightarrow> e = input_grew \<or> e = too_many_records \<or> e = too_many_frames"

section \<open>Interning the frames of a record\<close>

definition grows :: "frame_table \<Rightarrow> frame_table \<Rightarrow> bool" where
  "grows t u \<longleftrightarrow> (\<forall>i v. 0 \<le> i \<longrightarrow> resolve t i = Inr v \<longrightarrow> resolve u i = Inr v)"

lemma grows_refl [simp]: "grows t t"
  by (simp add: grows_def)

lemma grows_trans: "grows t u \<Longrightarrow> grows u v \<Longrightarrow> grows t v"
  by (simp add: grows_def)

lemma intern_frame_ok:
  assumes "frame_table_wf t" "frame_count t \<le> rl_max_unique_frames lim"
  shows "ensures folded_error (\<lambda>(i, u). frame_table_wf u \<and> frame_count u \<le> rl_max_unique_frames lim \<and> grows t u \<and>
      0 \<le> i \<and> resolve u i = Inr (folded_frame w)) (intern_frame lim w t)"
  using frames.intern_wf [OF assms(1), of "folded_frame w"] frames.resolve_interned [OF assms(1), of "folded_frame w"]
    frames.intern_id [OF assms(1), of "folded_frame w"] frames.resolve_stable [OF assms(1), of _ _ "folded_frame w"]
    frames.intern_count [of t "folded_frame w"] assms(2)
  by (auto simp: intern_frame_def bindE_raise_if folded_error_def grows_def split: prod.splits)

lemma intern_symbols_ok:
  assumes "frame_table_wf t" "frame_count t \<le> rl_max_unique_frames lim"
  shows "ensures folded_error (\<lambda>(is, u). frame_table_wf u \<and> frame_count u \<le> rl_max_unique_frames lim \<and> grows t u \<and>
      list_all2 (\<lambda>i w. 0 \<le> i \<and> resolve u i = Inr (folded_frame (strip w))) is ws) (intern_symbols lim ws t)"
  using assms
proof (induction ws arbitrary: t)
  case (Cons w ws)
  show ?case
    unfolding intern_symbols.simps
  proof (rule ensures_bind [OF intern_frame_ok [OF Cons.prems, of "strip w"]], clarify)
    fix i u assume u: "frame_table_wf u" "frame_count u \<le> rl_max_unique_frames lim" "grows t u" "0 \<le> i"
      "resolve u i = Inr (folded_frame (strip w))"
    show "ensures folded_error (\<lambda>(is, u). frame_table_wf u \<and> frame_count u \<le> rl_max_unique_frames lim \<and> grows t u \<and>
        list_all2 (\<lambda>i w. 0 \<le> i \<and> resolve u i = Inr (folded_frame (strip w))) is (w # ws))
      (bindE (intern_symbols lim ws u) (\<lambda>(is, v). Inr (i # is, v)))"
      by (rule ensures_bind [OF Cons.IH [OF u(1,2)]])
        (use u in \<open>auto simp: grows_def\<close>)
  qed
qed simp

section \<open>One record\<close>

definition folded_scope :: "pytext \<times> pytext \<times> pytext" where
  "folded_scope = (UNKNOWN, ascii ''sample_count'', ascii ''folded_weight'')"

text \<open>What the aggregator may rely on for a sample of the parser.\<close>

definition sample_good :: "resource_limits \<Rightarrow> frame_table \<Rightarrow> stack_sample \<Rightarrow> bool" where
  "sample_good lim tbl s \<longleftrightarrow> ss_frames s \<noteq> [] \<and> int (length (ss_frames s)) \<le> rl_max_stack_depth lim \<and>
     (\<forall>i \<in> set (ss_frames s). 0 \<le> i \<and> (\<exists>f. resolve tbl i = Inr f)) \<and> 0 < ss_weight s \<and>
     sample_scope s = folded_scope"

lemma sample_scope_default: "sample_scope (sample_default fs w) = folded_scope"
  by (simp add: sample_scope_def sample_default_def folded_scope_def)

lemma malformed_ok:
  assumes "diagnostics_wf (fo_diagnostics st)"
  shows "diagnostics_wf (fo_diagnostics (malformed code message raw st))"
  using diagnostics_wf_add [of "(fo_diagnostics st)\<lparr>pd_malformed_records := pd_malformed_records (fo_diagnostics st) + 1,
      pd_skipped_records := pd_skipped_records (fo_diagnostics st) + 1\<rparr>"] assms
  by (simp add: malformed_def Let_def diagnostics_wf_def)

lemma malformed_fields:
  "fo_rest (malformed code message raw st) = fo_rest st"
  "fo_line_number (malformed code message raw st) = fo_line_number st"
  "fo_frame_table (malformed code message raw st) = fo_frame_table st"
  "pd_bytes_read (fo_diagnostics (malformed code message raw st)) = pd_bytes_read (fo_diagnostics st)"
  "pd_unicode_replacement_count (fo_diagnostics (malformed code message raw st)) =
     pd_unicode_replacement_count (fo_diagnostics st)"
  "pd_max_warnings (fo_diagnostics (malformed code message raw st)) = pd_max_warnings (fo_diagnostics st)"
  "pd_parsed_records (fo_diagnostics (malformed code message raw st)) = pd_parsed_records (fo_diagnostics st)"
  "pd_skipped_records (fo_diagnostics (malformed code message raw st)) = pd_skipped_records (fo_diagnostics st) + 1"
  "pd_malformed_records (fo_diagnostics (malformed code message raw st)) = pd_malformed_records (fo_diagnostics st) + 1"
  "pd_warning_count (fo_diagnostics (malformed code message raw st)) = pd_warning_count (fo_diagnostics st) + 1"
  by (simp_all add: malformed_def add_warning_def Let_def)

text \<open>
  Within a record the line is already counted but not yet classified: \<open>pending\<close> is the
  invariant there.
\<close>

definition pending :: "resource_limits \<Rightarrow> pytext \<Rightarrow> folded_state \<Rightarrow> bool" where
  "pending lim text st \<longleftrightarrow> progress text st \<and> pd_bytes_read (fo_diagnostics st) \<le> rl_max_input_bytes lim \<and>
     records_ok lim (st\<lparr>fo_line_number := fo_line_number st - 1\<rparr>) \<and> table_fits lim st"

lemma pending_malformed: "pending lim text st \<Longrightarrow> folded_inv lim text (malformed code message raw st)"
  using malformed_ok [of st code message raw]
  by (simp add: pending_def folded_inv_def progress_def records_ok_def table_fits_def Let_def malformed_fields)

text \<open>What parsing a line guarantees.\<close>

definition parse_post :: "resource_limits \<Rightarrow> pytext \<Rightarrow> folded_state \<Rightarrow> stack_sample option \<times> folded_state \<Rightarrow> bool" where
  "parse_post lim text st = (\<lambda>(parsed, st'). fo_rest st' = fo_rest st \<and> grows (fo_frame_table st) (fo_frame_table st') \<and>
     pd_parsed_records (fo_diagnostics st') = pd_parsed_records (fo_diagnostics st) \<and>
     (case parsed of
        None \<Rightarrow> folded_inv lim text st'
      | Some s \<Rightarrow> pending lim text st' \<and> sample_good lim (fo_frame_table st') s))"

lemma sample_default_fields [simp]:
  "ss_frames (sample_default fs w) = fs" "ss_weight (sample_default fs w) = w"
  by (simp_all add: sample_default_def)

lemma parse_frames_ok:
  assumes "pending lim text st" "ws \<noteq> []" "int (length ws) \<le> rl_max_stack_depth lim" "0 < w"
  shows "ensures folded_error (parse_post lim text st)
    (bindE (intern_symbols lim ws (fo_frame_table st)) (\<lambda>(frame_ids, t).
      Inr (Some (sample_default frame_ids w), st\<lparr>fo_frame_table := t\<rparr>)))"
proof -
  have t: "frame_table_wf (fo_frame_table st)" "frame_count (fo_frame_table st) \<le> rl_max_unique_frames lim"
    using assms(1) by (simp_all add: pending_def table_fits_def)
  have frames: "is \<noteq> [] \<and> length is = length ws \<and> (\<forall>i \<in> set is. 0 \<le> i \<and> (\<exists>f. resolve u i = Inr f))"
    if "list_all2 (\<lambda>i w. 0 \<le> i \<and> resolve u i = Inr (folded_frame (strip w))) is ws" for "is" u
    using that assms(2) by (auto simp: list_all2_conv_all_nth in_set_conv_nth)
  have keep: "pending lim text (st\<lparr>fo_frame_table := u\<rparr>)"
    if "frame_table_wf u" "frame_count u \<le> rl_max_unique_frames lim" for u
    using assms(1) that by (simp add: pending_def table_fits_def progress_def records_ok_def Let_def)
  show ?thesis
    by (rule ensures_bind [OF intern_symbols_ok [OF t, of ws]])
      (use assms(3,4) keep frames in \<open>auto simp: parse_post_def sample_good_def sample_scope_default\<close>)
qed

lemma parse_line_ok:
  assumes "pending lim text st"
  shows "ensures folded_error (parse_post lim text st) (parse_line lim dec line st)"
proof -
  have bad: "parse_post lim text st (None, malformed code message line st)" for code message
    using pending_malformed [OF assms] by (simp add: parse_post_def malformed_fields)
  show ?thesis
    unfolding parse_line_def using bad parse_frames_ok [OF assms split_on_nonempty]
    by (auto split: option.split prod.split simp: Let_def not_less not_le)
qed

section \<open>The generator\<close>

text \<open>Reading text: the state that is reached when it is counted.\<close>

lemma progress_count:
  assumes "progress text st" "fo_rest st = c @ r" "sanitize_surrogateescaped_text c = (w, b, i)"
  shows "progress text (count_text b i (st\<lparr>fo_rest := r\<rparr>))"
proof -
  obtain pre where "text = pre @ fo_rest st" "pd_bytes_read (fo_diagnostics st) = text_bytes pre"
    "pd_unicode_replacement_count (fo_diagnostics st) = escaped_bytes pre"
    using assms(1) by (auto simp: progress_def)
  then show ?thesis
    unfolding progress_def using assms(2) sanitize_parts [OF assms(3)]
    by (intro exI [of _ "pre @ c"]) (simp add: count_text_def)
qed

lemma count_text_fields [simp]:
  "fo_rest (count_text b i st) = fo_rest st" "fo_frame_table (count_text b i st) = fo_frame_table st"
  "fo_line_number (count_text b i st) = fo_line_number st"
  "pd_parsed_records (fo_diagnostics (count_text b i st)) = pd_parsed_records (fo_diagnostics st)"
  by (simp_all add: count_text_def)

lemma records_ok_count: "records_ok lim ((count_text b i st)\<lparr>fo_line_number := n\<rparr>) = records_ok lim (st\<lparr>fo_line_number := n\<rparr>)"
  by (simp add: records_ok_def count_text_def diagnostics_wf_def Let_def)

lemma records_ok_rest: "records_ok lim (st\<lparr>fo_rest := r, fo_line_number := n\<rparr>) = records_ok lim (st\<lparr>fo_line_number := n\<rparr>)"
  by (simp add: records_ok_def)

lemma check_input_ok: "ensures folded_error (\<lambda>_. pd_bytes_read (fo_diagnostics st) \<le> rl_max_input_bytes lim) (check_input_bytes lim st)"
  by (simp add: check_input_bytes_def ensures_raise_if folded_error_def not_less)

text \<open>Counting a chunk and comparing with the limit keeps the state of a pending record.\<close>

lemma pending_count:
  assumes "pending lim text st" "fo_rest st = c @ r" "sanitize_surrogateescaped_text c = (w, b, i)"
  shows "ensures folded_error (\<lambda>_. pending lim text (count_text b i (st\<lparr>fo_rest := r\<rparr>)))
    (check_input_bytes lim (count_text b i (st\<lparr>fo_rest := r\<rparr>)))"
proof (rule ensures_mono [OF check_input_ok])
  assume "pd_bytes_read (fo_diagnostics (count_text b i (st\<lparr>fo_rest := r\<rparr>))) \<le> rl_max_input_bytes lim"
  moreover have "progress text (count_text b i (st\<lparr>fo_rest := r\<rparr>))"
    using assms by (intro progress_count) (auto simp: pending_def)
  ultimately show "pending lim text (count_text b i (st\<lparr>fo_rest := r\<rparr>))"
    using assms(1) by (simp add: pending_def table_fits_def records_ok_count records_ok_rest)
qed

definition drain_post :: "resource_limits \<Rightarrow> pytext \<Rightarrow> folded_state \<Rightarrow> folded_state \<Rightarrow> bool" where
  "drain_post lim text st st' \<longleftrightarrow> pending lim text st' \<and> fo_frame_table st' = fo_frame_table st \<and>
     pd_parsed_records (fo_diagnostics st') = pd_parsed_records (fo_diagnostics st) \<and>
     length (fo_rest st') \<le> length (fo_rest st)"

lemma drain_ok:
  "pending lim text st \<Longrightarrow> ensures folded_error (drain_post lim text st) (drain_overlong_line lim st)"
proof (induction lim st rule: drain_overlong_line.induct)
  case (1 lim st)
  obtain c st' where cs: "read_chunk lim st = (c, st')" by fastforce
  then obtain r where r: "fo_rest st = c @ r" "st' = st\<lparr>fo_rest := r\<rparr>" by (rule read_chunk_parts)
  obtain w b i where san: "sanitize_surrogateescaped_text c = (w, b, i)" by (cases "sanitize_surrogateescaped_text c")
  let ?u = "count_text b i st'"
  show ?case
  proof (cases "c = []")
    case True
    then have "st' = st" using r by simp
    then have "drain_overlong_line lim st = Inr st"
      using True cs by (subst drain_overlong_line.simps) simp
    then show ?thesis using 1(2) by (simp add: drain_post_def)
  next
    case False
    have run: "drain_overlong_line lim st = bindE (check_input_bytes lim ?u) (\<lambda>_.
        if ends_with [10] c then Inr ?u else drain_overlong_line lim ?u)"
      by (subst drain_overlong_line.simps) (simp add: cs False san Let_def)
    have count: "ensures folded_error (\<lambda>_. pending lim text ?u) (check_input_bytes lim ?u)"
      using pending_count [OF 1(2) r(1) san] r(2) by simp
    show ?thesis
      unfolding run
    proof (rule ensures_bind [OF count])
      fix x assume p: "pending lim text ?u"
      have fields: "fo_frame_table ?u = fo_frame_table st" "length (fo_rest ?u) \<le> length (fo_rest st)"
        "pd_parsed_records (fo_diagnostics ?u) = pd_parsed_records (fo_diagnostics st)"
        using r by simp_all
      have here: "drain_post lim text st ?u" using p fields by (simp add: drain_post_def)
      have "ensures folded_error (drain_post lim text st) (drain_overlong_line lim ?u)" if "\<not> ends_with [10] c"
      proof (rule ensures_mono)
        show "ensures folded_error (drain_post lim text ?u) (drain_overlong_line lim ?u)"
          using 1(1) [OF cs [symmetric] False san [symmetric] _ _ _ that p] by simp
      qed (use fields in \<open>auto simp: drain_post_def\<close>)
      with here show "ensures folded_error (drain_post lim text st)
          (if ends_with [10] c then Inr ?u else drain_overlong_line lim ?u)" by simp
    qed
  qed
qed

text \<open>One step of the generator.\<close>

fun step_post :: "resource_limits \<Rightarrow> pytext \<Rightarrow> folded_state \<Rightarrow> folded_outcome \<Rightarrow> bool" where
  "step_post lim text st (EndOfFile st') \<longleftrightarrow> st' = st \<and> fo_rest st = []"
| "step_post lim text st (Continue st') \<longleftrightarrow> folded_inv lim text st' \<and> grows (fo_frame_table st) (fo_frame_table st') \<and>
     pd_parsed_records (fo_diagnostics st') = pd_parsed_records (fo_diagnostics st) \<and>
     length (fo_rest st') < length (fo_rest st)"
| "step_post lim text st (Yield s st') \<longleftrightarrow> folded_inv lim text st' \<and> grows (fo_frame_table st) (fo_frame_table st') \<and>
     pd_parsed_records (fo_diagnostics st') = pd_parsed_records (fo_diagnostics st) + 1 \<and>
     sample_good lim (fo_frame_table st') s \<and> length (fo_rest st') < length (fo_rest st)"

lemma pending_skipped:
  "pending lim text st \<Longrightarrow> folded_inv lim text (st\<lparr>fo_diagnostics := (fo_diagnostics st)
     \<lparr>pd_skipped_records := pd_skipped_records (fo_diagnostics st) + 1\<rparr>\<rparr>)"
  by (simp add: pending_def folded_inv_def progress_def records_ok_def table_fits_def Let_def diagnostics_wf_def)

lemma pending_parsed:
  "pending lim text st \<Longrightarrow> pd_parsed_records (fo_diagnostics st) < rl_max_records lim \<Longrightarrow>
   folded_inv lim text (st\<lparr>fo_diagnostics := (fo_diagnostics st)
     \<lparr>pd_parsed_records := pd_parsed_records (fo_diagnostics st) + 1\<rparr>\<rparr>)"
  by (simp add: pending_def folded_inv_def progress_def records_ok_def table_fits_def Let_def diagnostics_wf_def)

lemma pending_malformed_nonneg: "pending lim text st \<Longrightarrow> 0 \<le> pd_malformed_records (fo_diagnostics st)"
  by (auto simp: pending_def records_ok_def Let_def diagnostics_wf_def)

text \<open>The same for the part of the step that follows the reading of the line.\<close>

fun line_post :: "resource_limits \<Rightarrow> pytext \<Rightarrow> folded_state \<Rightarrow> folded_outcome \<Rightarrow> bool" where
  "line_post lim text st (EndOfFile st') \<longleftrightarrow> False"
| "line_post lim text st (Continue st') \<longleftrightarrow> folded_inv lim text st' \<and> grows (fo_frame_table st) (fo_frame_table st') \<and>
     pd_parsed_records (fo_diagnostics st') = pd_parsed_records (fo_diagnostics st) \<and>
     length (fo_rest st') \<le> length (fo_rest st)"
| "line_post lim text st (Yield s st') \<longleftrightarrow> folded_inv lim text st' \<and> grows (fo_frame_table st) (fo_frame_table st') \<and>
     pd_parsed_records (fo_diagnostics st') = pd_parsed_records (fo_diagnostics st) + 1 \<and>
     sample_good lim (fo_frame_table st') s \<and> length (fo_rest st') \<le> length (fo_rest st)"

lemma take_record_ok:
  assumes "pending lim text st"
  shows "ensures folded_error (line_post lim text st) (take_record lim dec line st)"
  unfolding take_record_def
proof (rule ensures_bind)
  show "ensures folded_error (\<lambda>_. pd_parsed_records (fo_diagnostics st) < rl_max_records lim)
    (raise_if (rl_max_records lim \<le> pd_parsed_records (fo_diagnostics st) + pd_malformed_records (fo_diagnostics st)) too_many_records)"
    using pending_malformed_nonneg [OF assms] by (auto simp: ensures_raise_if folded_error_def)
next
  assume room: "pd_parsed_records (fo_diagnostics st) < rl_max_records lim"
  show "ensures folded_error (line_post lim text st) (bindE (parse_line lim dec line st) (\<lambda>(parsed, st).
     case parsed of
       None \<Rightarrow> Inr (Continue st)
     | Some s \<Rightarrow>
         Inr (Yield s (st\<lparr>fo_diagnostics := (fo_diagnostics st)
           \<lparr>pd_parsed_records := pd_parsed_records (fo_diagnostics st) + 1\<rparr>\<rparr>))))"
  proof (rule ensures_bind [OF parse_line_ok [OF assms, of dec line]], clarify)
    fix parsed u assume x: "parse_post lim text st (parsed, u)"
    show "ensures folded_error (line_post lim text st) (case parsed of
       None \<Rightarrow> Inr (Continue u)
     | Some s \<Rightarrow>
         Inr (Yield s (u\<lparr>fo_diagnostics := (fo_diagnostics u)
           \<lparr>pd_parsed_records := pd_parsed_records (fo_diagnostics u) + 1\<rparr>\<rparr>)))"
      using x room pending_parsed [of lim _ u] by (cases parsed) (auto simp: parse_post_def)
  qed
qed

lemma classify_line_ok:
  assumes "pending lim text st"
  shows "ensures folded_error (line_post lim text st) (classify_line lim dec raw st)"
proof -
  have long: "ensures folded_error (line_post lim text st)
      (bindE (if ends_with [10] raw then Inr st else drain_overlong_line lim st) (\<lambda>st.
       Inr (Continue (malformed ''LINE_TOO_LONG'' ''Folded record exceeds max_line_chars'' raw st))))"
  proof (rule ensures_bind)
    show "ensures folded_error (drain_post lim text st) (if ends_with [10] raw then Inr st else drain_overlong_line lim st)"
      using drain_ok [OF assms] assms by (simp add: drain_post_def)
  qed (auto simp: drain_post_def malformed_fields intro: pending_malformed)
  then show ?thesis
    using pending_skipped [OF assms] take_record_ok [OF assms] by (simp add: classify_line_def Let_def)
qed

lemma folded_step_ok:
  assumes inv: "folded_inv lim text st" and lim: "limits_ok lim"
  shows "ensures folded_error (step_post lim text st) (folded_step lim dec st)"
proof -
  obtain c st' where cs: "read_chunk lim st = (c, st')" by fastforce
  then obtain r where r: "fo_rest st = c @ r" "st' = st\<lparr>fo_rest := r\<rparr>" by (rule read_chunk_parts)
  obtain w b i where san: "sanitize_surrogateescaped_text c = (w, b, i)" by (cases "sanitize_surrogateescaped_text c")
  show ?thesis
  proof (cases "c = []")
    case True
    then show ?thesis
      using read_chunk_end [of lim st st'] limits_okD(3) [OF lim] cs by (simp add: folded_step_def)
  next
    case False
    define v where "v = st\<lparr>fo_line_number := fo_line_number st + 1\<rparr>"
    define u where "u = count_text b i (v\<lparr>fo_rest := r\<rparr>)"
    have run: "folded_step lim dec st = bindE (check_input_bytes lim u) (\<lambda>_. classify_line lim dec w u)"
    proof -
      have "st\<lparr>fo_rest := r, fo_line_number := fo_line_number st + 1\<rparr> = v\<lparr>fo_rest := r\<rparr>" by (cases st) (simp add: v_def)
      then show ?thesis by (simp add: folded_step_def cs False san u_def r(2) Let_def)
    qed
    have v: "pending lim text v" "fo_rest v = c @ r"
      using inv r(1) by (simp_all add: v_def pending_def folded_inv_def progress_def table_fits_def records_ok_def)
    have u: "length (fo_rest u) < length (fo_rest st)" "fo_frame_table u = fo_frame_table st"
      "pd_parsed_records (fo_diagnostics u) = pd_parsed_records (fo_diagnostics st)"
      using False r(1) by (simp_all add: u_def v_def)
    have "step_post lim text st out" if "line_post lim text u out" for out
      using that u by (cases out) auto
    moreover have "ensures folded_error (line_post lim text u) (folded_step lim dec st)"
      unfolding run by (rule ensures_bind [OF pending_count [OF v san, folded u_def] classify_line_ok])
    ultimately show ?thesis by (elim ensures_mono) auto
  qed
qed

end
