(* ===== verification/HotspotProofs.thy ===== *)
theory HotspotProofs
  imports HotspotModel
begin

text \<open>
  The aggregator against its reference: hotspots are a projection of the frame touches of the
  samples, call paths a projection of the samples by their sequence of hotspots, and every
  counter is a sum over the samples.
\<close>

section \<open>Samples seen through the frame table\<close>

definition frames_of :: "frame_table \<Rightarrow> stack_sample \<Rightarrow> frame_key list" where
  "frames_of tbl s = (case mapE (resolve tbl) (ss_frames s) of Inl _ \<Rightarrow> [] | Inr fs \<Rightarrow> fs)"

definition key_path :: "frame_table \<Rightarrow> stack_sample \<Rightarrow> hotspot_key list" where
  "key_path tbl s = map hotspot_key (frames_of tbl s)"

definition sample_ok :: "frame_table \<Rightarrow> stack_sample \<Rightarrow> bool" where
  "sample_ok tbl s \<longleftrightarrow> ss_frames s \<noteq> [] \<and> (\<forall>i \<in> set (ss_frames s). \<exists>f. resolve tbl i = Inr f)"

lemma sample_ok_frames:
  assumes "sample_ok tbl s"
  shows "list_all2 (\<lambda>i f. resolve tbl i = Inr f) (ss_frames s) (frames_of tbl s)" "frames_of tbl s \<noteq> []"
    "length (frames_of tbl s) = length (ss_frames s)" "resolve tbl (last (ss_frames s)) = Inr (last (frames_of tbl s))"
proof -
  obtain fs where fs: "mapE (resolve tbl) (ss_frames s) = Inr fs"
    using assms mapE_total [of "ss_frames s" "resolve tbl"] by (auto simp: sample_ok_def)
  then have eq: "frames_of tbl s = fs" by (simp add: frames_of_def)
  show all: "list_all2 (\<lambda>i f. resolve tbl i = Inr f) (ss_frames s) (frames_of tbl s)"
    using fs by (simp add: eq mapE_Inr)
  then show len: "length (frames_of tbl s) = length (ss_frames s)" by (auto dest: list_all2_lengthD)
  then show ne: "frames_of tbl s \<noteq> []" using assms by (auto simp: sample_ok_def)
  show "resolve tbl (last (ss_frames s)) = Inr (last (frames_of tbl s))"
  proof -
    have "length (ss_frames s) - 1 < length (ss_frames s)" using assms by (simp add: sample_ok_def)
    with list_all2_nthD [OF all this] show ?thesis
      using assms len last_conv_nth [OF ne] by (simp add: sample_ok_def last_conv_nth)
  qed
qed

section \<open>Touches\<close>

datatype touch = Leaf hotspot_key stack_sample | Frame frame_key stack_sample bool

fun touch_key :: "touch \<Rightarrow> hotspot_key" where
  "touch_key (Leaf k s) = k"
| "touch_key (Frame f s first) = hotspot_key f"

fun apply_touch :: "touch \<Rightarrow> hotspot_accumulator \<Rightarrow> hotspot_accumulator" where
  "apply_touch (Leaf k s) = add_leaf s"
| "apply_touch (Frame f s first) = add_frame s f first"

primrec frame_touches :: "stack_sample \<Rightarrow> hotspot_key set \<Rightarrow> frame_key list \<Rightarrow> touch list" where
  "frame_touches s seen [] = []"
| "frame_touches s seen (f # fs) =
     Frame f s (hotspot_key f \<notin> seen) # frame_touches s (insert (hotspot_key f) seen) fs"

definition touches :: "frame_table \<Rightarrow> stack_sample \<Rightarrow> touch list" where
  "touches tbl s = Leaf (hotspot_key (last (frames_of tbl s))) s # frame_touches s {} (frames_of tbl s)"

section \<open>The loop over the frames\<close>

definition frame_pure :: "stack_sample \<Rightarrow> frame_key \<Rightarrow> frame_loop \<Rightarrow> frame_loop" where
  "frame_pure s f l =
     (let g = count_frame f (fl_state l);
          k = hotspot_key f;
          ident = identify_frame k (ag_frame_identities g);
          g = g\<lparr>ag_frame_identities := snd ident,
                ag_hotspots := dict_modify k hotspot_empty (add_frame s f (k \<notin> fl_seen l)) (ag_hotspots g)\<rparr>
      in \<lparr>fl_state = g, fl_seen = insert k (fl_seen l), fl_path = fl_path l @ [fst ident]\<rparr>)"

lemma frame_loop_pure:
  "list_all2 (\<lambda>i f. resolve tbl i = Inr f) is fs \<Longrightarrow> foldE (frame_step tbl s) is l = Inr (fold (frame_pure s) fs l)"
  by (induction "is" fs arbitrary: l rule: list_all2_induct) (simp_all add: frame_step_def frame_pure_def Let_def)

lemma frame_pure_fields:
  "ag_hotspots (fl_state (frame_pure s f l)) =
     project_step hotspot_empty apply_touch touch_key (Frame f s (hotspot_key f \<notin> fl_seen l)) (ag_hotspots (fl_state l))"
  "ag_frame_identities (fl_state (frame_pure s f l)) = snd (identify_frame (hotspot_key f) (ag_frame_identities (fl_state l)))"
  "fl_path (frame_pure s f l) = fl_path l @ [fst (identify_frame (hotspot_key f) (ag_frame_identities (fl_state l)))]"
  "fl_seen (frame_pure s f l) = insert (hotspot_key f) (fl_seen l)"
  by (simp_all add: frame_pure_def Let_def count_frame_def project_step_def)

lemma loop_hotspots:
  "ag_hotspots (fl_state (fold (frame_pure s) fs l)) =
     fold (project_step hotspot_empty apply_touch touch_key) (frame_touches s (fl_seen l) fs) (ag_hotspots (fl_state l))"
  by (induction fs arbitrary: l) (simp_all add: frame_pure_fields)

lemma loop_counts:
  "ag_total_frame_count (fl_state (fold (frame_pure s) fs l)) = ag_total_frame_count (fl_state l) + int (length fs)"
  "ag_source_line_frame_count (fl_state (fold (frame_pure s) fs l)) =
     ag_source_line_frame_count (fl_state l) + int (length (filter (\<lambda>f. fk_source_line f \<noteq> None) fs))"
  "ag_inline_frame_count (fl_state (fold (frame_pure s) fs l)) =
     ag_inline_frame_count (fl_state l) + int (length (filter fk_is_inline fs))"
  by (induction fs arbitrary: l) (simp_all add: frame_pure_def Let_def count_frame_def)

lemma loop_unchanged:
  "ag_call_paths (fl_state (fold (frame_pure s) fs l)) = ag_call_paths (fl_state l)"
  "ag_total_weight (fl_state (fold (frame_pure s) fs l)) = ag_total_weight (fl_state l)"
  "ag_record_count (fl_state (fold (frame_pure s) fs l)) = ag_record_count (fl_state l)"
  "ag_has_call_graph (fl_state (fold (frame_pure s) fs l)) = ag_has_call_graph (fl_state l)"
  "ag_call_graph_weight (fl_state (fold (frame_pure s) fs l)) = ag_call_graph_weight (fl_state l)"
  "ag_unknown_self_weight (fl_state (fold (frame_pure s) fs l)) = ag_unknown_self_weight (fl_state l)"
  "ag_kernel_context_self_weight (fl_state (fold (frame_pure s) fs l)) = ag_kernel_context_self_weight (fl_state l)"
  "ag_user_context_self_weight (fl_state (fold (frame_pure s) fs l)) = ag_user_context_self_weight (fl_state l)"
  "ag_unknown_context_self_weight (fl_state (fold (frame_pure s) fs l)) = ag_unknown_context_self_weight (fl_state l)"
  "ag_unresolved_kernel_self_weight (fl_state (fold (frame_pure s) fs l)) = ag_unresolved_kernel_self_weight (fl_state l)"
  "ag_unresolved_user_self_weight (fl_state (fold (frame_pure s) fs l)) = ag_unresolved_user_self_weight (fl_state l)"
  "ag_unresolved_unknown_context_self_weight (fl_state (fold (frame_pure s) fs l)) =
     ag_unresolved_unknown_context_self_weight (fl_state l)"
  "ag_source_line_self_weight (fl_state (fold (frame_pure s) fs l)) = ag_source_line_self_weight (fl_state l)"
  "ag_scope (fl_state (fold (frame_pure s) fs l)) = ag_scope (fl_state l)"
  by (induction fs arbitrary: l) (simp_all add: frame_pure_def Let_def count_frame_def)

section \<open>Frame identities are an interning table\<close>

definition identity_at :: "(hotspot_key, int) dict \<Rightarrow> int \<Rightarrow> hotspot_key result" where
  "identity_at ids i = py_nth (map fst ids) i"

definition ids_wf :: "(hotspot_key, int) dict \<Rightarrow> bool" where
  "ids_wf ids \<longleftrightarrow> dict_wf ids \<and> map snd ids = map int [0..<length ids]"

lemma ids_lookup:
  assumes "ids_wf ids"
  shows "map_of ids k = Some i \<longleftrightarrow> 0 \<le> i \<and> i < int (length ids) \<and> fst (ids ! nat i) = k"
proof -
  have nth: "ids ! n = (fst (ids ! n), int n)" if "n < length ids" for n
  proof -
    have "map snd ids ! n = map int [0..<length ids] ! n" using assms by (simp add: ids_wf_def)
    then show ?thesis using that by (simp add: prod_eq_iff)
  qed
  have "map_of ids k = Some i \<longleftrightarrow> (k, i) \<in> set ids" using assms by (simp add: ids_wf_def)
  also have "\<dots> \<longleftrightarrow> (\<exists>n < length ids. ids ! n = (k, i))" by (auto simp: in_set_conv_nth)
  also have "\<dots> \<longleftrightarrow> 0 \<le> i \<and> i < int (length ids) \<and> fst (ids ! nat i) = k"
  proof
    assume "\<exists>n < length ids. ids ! n = (k, i)"
    then obtain n where n: "n < length ids" "ids ! n = (k, i)" by blast
    with nth [OF n(1)] show "0 \<le> i \<and> i < int (length ids) \<and> fst (ids ! nat i) = k" by auto
  next
    assume "0 \<le> i \<and> i < int (length ids) \<and> fst (ids ! nat i) = k"
    then have "nat i < length ids \<and> ids ! nat i = (k, i)" using nth [of "nat i"] by auto
    then show "\<exists>n < length ids. ids ! n = (k, i)" by blast
  qed
  finally show ?thesis .
qed

lemma dict_set_fresh: "k \<notin> fst ` set m \<Longrightarrow> dict_set k v m = m @ [(k, v)]"
  by (induction m) auto

lemma identify_cases:
  assumes "ids_wf ids"
  obtains (old) i where "identify_frame k ids = (i, ids)" "0 \<le> i" "i < int (length ids)" "fst (ids ! nat i) = k"
  | (fresh) "identify_frame k ids = (int (length ids), ids @ [(k, int (length ids))])" "k \<notin> fst ` set ids"
proof (cases "map_of ids k")
  case None
  then have "k \<notin> fst ` set ids" by (simp add: map_of_eq_None_iff)
  with None show thesis by (intro fresh) (simp_all add: identify_frame_def dict_set_fresh)
next
  case (Some i)
  with ids_lookup [OF assms, of k i] show thesis by (intro old [of i]) (simp_all add: identify_frame_def)
qed

lemma identity_at_nonneg: "0 \<le> i \<Longrightarrow> identity_at ids i = Inr k \<longleftrightarrow> i < int (length ids) \<and> fst (ids ! nat i) = k"
  by (auto simp: identity_at_def py_nth_def)

interpretation identities: interner identify_frame identity_at "\<lambda>ids. int (length ids)" ids_wf
proof unfold_locales
  fix t :: "(hotspot_key, int) dict" and k assume wf: "ids_wf t"
  show "ids_wf (snd (identify_frame k t))"
    using wf by (rule identify_cases [of t k]) (use wf in \<open>auto simp: ids_wf_def\<close>)
  show "identity_at (snd (identify_frame k t)) (fst (identify_frame k t)) = Inr k"
    using wf by (rule identify_cases [of t k]) (auto simp: identity_at_nonneg)
  show "0 \<le> fst (identify_frame k t)"
    using wf by (rule identify_cases [of t k]) auto
next
  fix t :: "(hotspot_key, int) dict" and i v k assume "ids_wf t" "0 \<le> (i :: int)" "identity_at t i = Inr v"
  then show "identity_at (snd (identify_frame k t)) i = Inr v"
    by (elim identify_cases [of t k]) (auto simp: identity_at_nonneg nth_append)
next
  fix t :: "(hotspot_key, int) dict" and i j v
  assume "ids_wf t" and ij: "0 \<le> i" "0 \<le> (j :: int)" "identity_at t i = Inr v" "identity_at t j = Inr v"
  then have "map_of t v = Some i" "map_of t v = Some j" by (simp_all add: ids_lookup identity_at_nonneg)
  then show "i = j" by simp
next
  fix t :: "(hotspot_key, int) dict" and k
  have "length (dict_set k v m) \<le> Suc (length m) \<and> length m \<le> length (dict_set k v m)" for v and m :: "(hotspot_key, int) dict"
    by (induction m) auto
  from this [of "int (length t)" t]
  show "int (length t) \<le> int (length (snd (identify_frame k t))) \<and> int (length (snd (identify_frame k t))) \<le> int (length t) + 1"
    by (auto simp: identify_frame_def split: option.split)
qed

lemma loop_identities:
  "ag_frame_identities (fl_state (fold (frame_pure s) fs l)) =
     snd (identities.intern_all (map hotspot_key fs) (ag_frame_identities (fl_state l)))"
  "fl_path (fold (frame_pure s) fs l) =
     fl_path l @ fst (identities.intern_all (map hotspot_key fs) (ag_frame_identities (fl_state l)))"
  by (induction fs arbitrary: l) (simp_all add: frame_pure_fields Let_def)

section \<open>Call paths\<close>

text \<open>The hotspots named by a semantic path.\<close>

definition decode_path :: "(hotspot_key, int) dict \<Rightarrow> int list \<Rightarrow> hotspot_key list" where
  "decode_path ids p = map (\<lambda>i. fst (ids ! nat i)) p"

definition path_in :: "(hotspot_key, int) dict \<Rightarrow> int list \<Rightarrow> bool" where
  "path_in ids p \<longleftrightarrow> (\<forall>i \<in> set p. 0 \<le> i \<and> i < int (length ids))"

lemma decode_inj: "ids_wf ids \<Longrightarrow> inj_on (decode_path ids) {p. path_in ids p}"
proof (rule inj_onI, goal_cases)
  case (1 p q)
  have "inj_on (\<lambda>i. fst (ids ! nat i)) {i. 0 \<le> i \<and> i < int (length ids)}"
  proof (rule inj_onI)
    fix i j assume "i \<in> {i. 0 \<le> i \<and> i < int (length ids)}" "j \<in> {i. 0 \<le> i \<and> i < int (length ids)}"
      "fst (ids ! nat i) = fst (ids ! nat j)"
    then show "i = j" using identities.resolve_injective [OF 1(1), of i j "fst (ids ! nat j)"]
      by (simp add: identity_at_nonneg)
  qed
  then have "inj_on (\<lambda>i. fst (ids ! nat i)) (set p \<union> set q)"
    by (rule inj_on_subset) (use 1(2,3) in \<open>auto simp: path_in_def\<close>)
  then show ?case using 1(4) by (simp add: decode_path_def inj_on_map_eq_map)
qed

text \<open>Keeping a dictionary under an injective renaming of its keys.\<close>

lemma rename_lookup: "inj_on h (insert k (fst ` set m)) \<Longrightarrow> map_of (map (apfst h) m) (h k) = map_of m k"
  by (induction m) (auto simp: inj_on_def)

lemma rename_set:
  "inj_on h (insert k (fst ` set m)) \<Longrightarrow> map (apfst h) (dict_set k v m) = dict_set (h k) v (map (apfst h) m)"
  by (induction m) (auto simp: inj_on_def)

definition path_empty :: call_path where
  "path_empty = \<lparr>cp_frame_ids = [], cp_weight = 0, cp_record_count = 0\<rparr>"

definition path_add :: "stack_sample \<Rightarrow> call_path \<Rightarrow> call_path" where
  "path_add s c = \<lparr>cp_frame_ids = (if cp_record_count c = 0 then ss_frames s else cp_frame_ids c),
     cp_weight = cp_weight c + ss_weight s, cp_record_count = cp_record_count c + 1\<rparr>"

interpretation path_weights: conserved_measure path_empty path_add cp_weight ss_weight
  by unfold_locales (simp_all add: path_empty_def path_add_def)

interpretation path_records: conserved_measure path_empty path_add cp_record_count "\<lambda>_. 1"
  by unfold_locales (simp_all add: path_empty_def path_add_def)

abbreviation path_table :: "frame_table \<Rightarrow> stack_sample list \<Rightarrow> (hotspot_key list, call_path) dict" where
  "path_table tbl \<equiv> project_table path_empty path_add (key_path tbl)"

lemma path_row_counted:
  assumes "map_of (path_table tbl ss) k = Some c"
  shows "cp_record_count c = int (length (filter (\<lambda>s. key_path tbl s = k) ss))" "0 < cp_record_count c"
proof -
  have k: "k \<in> key_path tbl ` set ss"
    using assms by (simp add: lookup_project_table split: if_splits)
  have "cp_record_count c = sum_list (map (\<lambda>_. 1) (filter (\<lambda>s. key_path tbl s = k) ss))"
    by (rule path_records.row_measure [OF map_of_SomeD [OF assms]])
  then show len: "cp_record_count c = int (length (filter (\<lambda>s. key_path tbl s = k) ss))"
    by (simp add: sum_list_triv)
  have "filter (\<lambda>s. key_path tbl s = k) ss \<noteq> []" using k by (auto simp: filter_empty_conv)
  then show "0 < cp_record_count c" by (simp add: len)
qed

text \<open>The call paths of the state are the table by hotspot sequence, under the identities given so far.\<close>

definition paths_ok :: "frame_table \<Rightarrow> stack_sample list \<Rightarrow> aggregator \<Rightarrow> bool" where
  "paths_ok tbl ss g \<longleftrightarrow> ids_wf (ag_frame_identities g) \<and>
     (\<forall>p \<in> fst ` set (ag_call_paths g). path_in (ag_frame_identities g) p) \<and>
     map (apfst (decode_path (ag_frame_identities g))) (ag_call_paths g) = path_table tbl ss"

lemma decode_extend:
  assumes "ids_wf ids" "path_in ids p"
  shows "decode_path (snd (identities.intern_all ks ids)) p = decode_path ids p"
    "path_in (snd (identities.intern_all ks ids)) p"
proof -
  let ?ids = "snd (identities.intern_all ks ids)"
  have stable: "i < int (length ?ids) \<and> fst (?ids ! nat i) = fst (ids ! nat i)" if "i \<in> set p" for i
    using identities.intern_all_stable [OF assms(1), of i "fst (ids ! nat i)" ks] assms(2) that
    by (auto simp: path_in_def identity_at_nonneg)
  then show "decode_path ?ids p = decode_path ids p" by (simp add: decode_path_def)
  show "path_in ?ids p" using stable assms(2) by (simp add: path_in_def)
qed

lemma decode_interned:
  assumes "ids_wf ids"
  shows "decode_path (snd (identities.intern_all ks ids)) (fst (identities.intern_all ks ids)) = ks"
    "path_in (snd (identities.intern_all ks ids)) (fst (identities.intern_all ks ids))"
proof -
  let ?ids = "snd (identities.intern_all ks ids)"
  let ?p = "fst (identities.intern_all ks ids)"
  have "list_all2 (\<lambda>i k. 0 \<le> i \<and> i < int (length ?ids) \<and> fst (?ids ! nat i) = k) ?p ks"
    using identities.intern_all_resolves [OF assms, of ks] by (rule list_all2_mono) (auto simp: identity_at_nonneg)
  moreover have "decode_path u p = qs \<and> path_in u p"
    if "list_all2 (\<lambda>i k. 0 \<le> i \<and> i < int (length u) \<and> fst (u ! nat i) = k) p qs" for u p qs
    using that unfolding decode_path_def path_in_def by (induction rule: list_all2_induct) auto
  ultimately show "decode_path ?ids ?p = ks" "path_in ?ids ?p" by blast+
qed

lemma paths_ok_identities:
  assumes "paths_ok tbl ss g" and "ag_frame_identities g' = snd (identities.intern_all ks (ag_frame_identities g))"
    and "ag_call_paths g' = ag_call_paths g"
  shows "paths_ok tbl ss g'"
proof -
  have wf: "ids_wf (ag_frame_identities g)" and inp: "\<forall>p \<in> fst ` set (ag_call_paths g). path_in (ag_frame_identities g) p"
    and tab: "map (apfst (decode_path (ag_frame_identities g))) (ag_call_paths g) = path_table tbl ss"
    using assms(1) by (simp_all add: paths_ok_def)
  have "map (apfst (decode_path (snd (identities.intern_all ks (ag_frame_identities g))))) (ag_call_paths g) =
      map (apfst (decode_path (ag_frame_identities g))) (ag_call_paths g)"
    using inp decode_extend(1) [OF wf] by (intro map_cong refl) (auto simp: apfst_def map_prod_def split: prod.splits)
  then show ?thesis
    using tab inp decode_extend(2) [OF wf] identities.intern_all_wf [OF wf] by (simp add: paths_ok_def assms(2,3))
qed

text \<open>One more sample.\<close>

lemma paths_ok_add:
  assumes ok: "paths_ok tbl ss g" and path: "path_in (ag_frame_identities g) p"
    and dec: "decode_path (ag_frame_identities g) p = key_path tbl s"
  shows "case add_call_path lim s p g of
      Inl e \<Rightarrow> e = too_many_paths \<and> key_path tbl s \<notin> key_path tbl ` set ss \<and>
        int (length (path_table tbl ss)) \<ge> rl_max_unique_call_paths lim
    | Inr g' \<Rightarrow> paths_ok tbl (ss @ [s]) g' \<and> (\<exists>m. g' = g\<lparr>ag_call_paths := m\<rparr>) \<and>
        (key_path tbl s \<in> key_path tbl ` set ss \<or> int (length (path_table tbl ss)) < rl_max_unique_call_paths lim)"
proof -
  let ?ids = "ag_frame_identities g" and ?m = "ag_call_paths g" and ?h = "decode_path (ag_frame_identities g)"
  have wf: "ids_wf ?ids" and inp: "\<forall>p \<in> fst ` set ?m. path_in ?ids p" and tab: "map (apfst ?h) ?m = path_table tbl ss"
    using ok by (simp_all add: paths_ok_def)
  have inj: "inj_on ?h (insert p (fst ` set ?m))"
    using decode_inj [OF wf] path inp by (elim inj_on_subset) auto
  have look: "map_of ?m p = map_of (path_table tbl ss) (key_path tbl s)"
    using rename_lookup [OF inj] dec tab by simp
  have len: "length ?m = length (path_table tbl ss)" using arg_cong [OF tab, of length] by simp
  have upd: "paths_ok tbl (ss @ [s]) (g\<lparr>ag_call_paths := dict_set p c ?m\<rparr>)"
    if "c = path_add s (dict_get_or path_empty (path_table tbl ss) (key_path tbl s))" for c
    using rename_set [OF inj, of c] dec tab wf inp path that
    by (simp add: paths_ok_def keys_dict_set dict_modify_def dict_get_or_def)
  show ?thesis
  proof (cases "map_of ?m p")
    case None
    then have fresh: "key_path tbl s \<notin> key_path tbl ` set ss"
      using look by (simp add: lookup_project_table split: if_splits)
    have "path_add s (dict_get_or path_empty (path_table tbl ss) (key_path tbl s)) =
        \<lparr>cp_frame_ids = ss_frames s, cp_weight = ss_weight s, cp_record_count = 1\<rparr>"
      using None look by (simp add: dict_get_or_def path_add_def path_empty_def)
    with upd None fresh len show ?thesis by (auto simp: add_call_path_def)
  next
    case (Some c)
    then have c: "map_of (path_table tbl ss) (key_path tbl s) = Some c" using look by simp
    then have mem: "key_path tbl s \<in> key_path tbl ` set ss" by (simp add: lookup_project_table split: if_splits)
    have "path_add s (dict_get_or path_empty (path_table tbl ss) (key_path tbl s)) =
        c\<lparr>cp_weight := cp_weight c + ss_weight s, cp_record_count := cp_record_count c + 1\<rparr>"
      using c path_row_counted(2) [OF c] by (simp add: dict_get_or_def path_add_def)
    with upd Some mem show ?thesis by (auto simp: add_call_path_def)
  qed
qed

section \<open>The invariant\<close>

definition weight_where :: "(stack_sample \<Rightarrow> bool) \<Rightarrow> stack_sample list \<Rightarrow> int" where
  "weight_where P ss = sum_list (map ss_weight (filter P ss))"

lemma weight_where_simps [simp]:
  "weight_where P [] = 0"
  "weight_where P (ss @ [s]) = weight_where P ss + (if P s then ss_weight s else 0)"
  by (simp_all add: weight_where_def)

abbreviation leaf_of :: "frame_table \<Rightarrow> stack_sample \<Rightarrow> frame_key" where
  "leaf_of tbl s \<equiv> last (frames_of tbl s)"

definition in_kernel :: "stack_sample \<Rightarrow> bool" where
  "in_kernel s \<longleftrightarrow> ss_sample_context s = ascii ''kernel''"

definition in_user :: "stack_sample \<Rightarrow> bool" where
  "in_user s \<longleftrightarrow> ss_sample_context s = ascii ''user''"

lemma kernel_not_user: "in_kernel s \<Longrightarrow> \<not> in_user s"
  by (simp add: in_kernel_def in_user_def ascii_def)

definition frames_where :: "frame_table \<Rightarrow> (frame_key \<Rightarrow> bool) \<Rightarrow> stack_sample list \<Rightarrow> int" where
  "frames_where tbl P ss = sum_list (map (\<lambda>s. int (length (filter P (frames_of tbl s)))) ss)"

lemma frames_where_simps [simp]:
  "frames_where tbl P [] = 0"
  "frames_where tbl P (ss @ [s]) = frames_where tbl P ss + int (length (filter P (frames_of tbl s)))"
  by (simp_all add: frames_where_def)

definition counters_ok :: "frame_table \<Rightarrow> stack_sample list \<Rightarrow> aggregator \<Rightarrow> bool" where
  "counters_ok tbl ss g \<longleftrightarrow>
     ag_total_weight g = weight_where (\<lambda>_. True) ss \<and>
     ag_record_count g = int (length ss) \<and>
     (ag_has_call_graph g \<longleftrightarrow> (\<exists>s \<in> set ss. length (ss_frames s) > 1)) \<and>
     ag_call_graph_weight g = weight_where (\<lambda>s. length (ss_frames s) > 1) ss \<and>
     ag_kernel_context_self_weight g = weight_where in_kernel ss \<and>
     ag_user_context_self_weight g = weight_where in_user ss \<and>
     ag_unknown_context_self_weight g = weight_where (\<lambda>s. \<not> in_kernel s \<and> \<not> in_user s) ss \<and>
     ag_unknown_self_weight g = weight_where (\<lambda>s. fk_is_unknown (leaf_of tbl s)) ss \<and>
     ag_unresolved_kernel_self_weight g = weight_where (\<lambda>s. fk_is_unknown (leaf_of tbl s) \<and> in_kernel s) ss \<and>
     ag_unresolved_user_self_weight g = weight_where (\<lambda>s. fk_is_unknown (leaf_of tbl s) \<and> in_user s) ss \<and>
     ag_unresolved_unknown_context_self_weight g =
       weight_where (\<lambda>s. fk_is_unknown (leaf_of tbl s) \<and> \<not> in_kernel s \<and> \<not> in_user s) ss \<and>
     ag_source_line_self_weight g = weight_where (\<lambda>s. fk_source_line (leaf_of tbl s) \<noteq> None) ss \<and>
     ag_source_line_frame_count g = frames_where tbl (\<lambda>f. fk_source_line f \<noteq> None) ss \<and>
     ag_inline_frame_count g = frames_where tbl fk_is_inline ss \<and>
     ag_total_frame_count g = frames_where tbl (\<lambda>_. True) ss"

definition scope_ok :: "stack_sample list \<Rightarrow> aggregator \<Rightarrow> bool" where
  "scope_ok ss g \<longleftrightarrow> ag_scope g = (case ss of [] \<Rightarrow> None | s # _ \<Rightarrow> Some (sample_scope s)) \<and>
     (\<forall>s \<in> set ss. ag_scope g = Some (sample_scope s))"

abbreviation hotspot_table :: "frame_table \<Rightarrow> stack_sample list \<Rightarrow> (hotspot_key, hotspot_accumulator) dict" where
  "hotspot_table tbl ss \<equiv> project_table hotspot_empty apply_touch touch_key (concat (map (touches tbl) ss))"

definition agg_inv :: "frame_table \<Rightarrow> stack_sample list \<Rightarrow> aggregator \<Rightarrow> bool" where
  "agg_inv tbl ss g \<longleftrightarrow> ag_hotspots g = hotspot_table tbl ss \<and> paths_ok tbl ss g \<and> counters_ok tbl ss g \<and> scope_ok ss g"

lemma agg_inv_init: "agg_inv tbl [] aggregator_init"
  by (simp add: agg_inv_def aggregator_init_def paths_ok_def ids_wf_def counters_ok_def scope_ok_def)

text \<open>The state before the call path of the new sample is stored.\<close>

definition before_path :: "frame_table \<Rightarrow> stack_sample \<Rightarrow> aggregator \<Rightarrow> frame_loop" where
  "before_path tbl s g =
     fold (frame_pure s) (frames_of tbl s)
       \<lparr>fl_state = count_leaf s (leaf_of tbl s) (count_sample s (g\<lparr>ag_scope := Some (sample_scope s)\<rparr>)),
        fl_seen = {}, fl_path = []\<rparr>"

lemma add_sample_ok:
  assumes "sample_ok tbl s" "scope_ok ss g"
  shows "add_sample lim tbl s g =
    (if ss \<noteq> [] \<and> sample_scope s \<noteq> sample_scope (hd ss) then Inl mixed_scope
     else add_call_path lim s (fl_path (before_path tbl s g)) (fl_state (before_path tbl s g)))"
proof -
  have scope: "check_scope s g = (if ss \<noteq> [] \<and> sample_scope s \<noteq> sample_scope (hd ss) then Inl mixed_scope
      else Inr (g\<lparr>ag_scope := Some (sample_scope s)\<rparr>))"
    using assms(2) by (cases ss) (auto simp: scope_ok_def check_scope_def)
  have ne: "ss_frames s \<noteq> []" using assms(1) by (simp add: sample_ok_def)
  show ?thesis
    using sample_ok_frames [OF assms(1)]
    by (simp add: add_sample_def scope ne frame_loop_pure before_path_def Let_def)
qed

lemmas count_defs = count_leaf_def count_sample_def Let_def

lemma leaf_counts:
  "ag_total_weight (count_leaf s f (count_sample s g)) = ag_total_weight g + ss_weight s"
  "ag_record_count (count_leaf s f (count_sample s g)) = ag_record_count g + 1"
  "ag_has_call_graph (count_leaf s f (count_sample s g)) = (ag_has_call_graph g \<or> length (ss_frames s) > 1)"
  "ag_call_graph_weight (count_leaf s f (count_sample s g)) =
     ag_call_graph_weight g + (if length (ss_frames s) > 1 then ss_weight s else 0)"
  "ag_source_line_self_weight (count_leaf s f (count_sample s g)) =
     ag_source_line_self_weight g + (if fk_source_line f \<noteq> None then ss_weight s else 0)"
  "ag_source_line_frame_count (count_leaf s f (count_sample s g)) = ag_source_line_frame_count g"
  "ag_inline_frame_count (count_leaf s f (count_sample s g)) = ag_inline_frame_count g"
  "ag_total_frame_count (count_leaf s f (count_sample s g)) = ag_total_frame_count g"
  by (simp_all add: count_defs)

lemma leaf_contexts:
  "ag_kernel_context_self_weight (count_leaf s f (count_sample s g)) =
     ag_kernel_context_self_weight g + (if in_kernel s then ss_weight s else 0)"
  "ag_user_context_self_weight (count_leaf s f (count_sample s g)) =
     ag_user_context_self_weight g + (if in_user s then ss_weight s else 0)"
  "ag_unknown_context_self_weight (count_leaf s f (count_sample s g)) =
     ag_unknown_context_self_weight g + (if \<not> in_kernel s \<and> \<not> in_user s then ss_weight s else 0)"
  "ag_unknown_self_weight (count_leaf s f (count_sample s g)) =
     ag_unknown_self_weight g + (if fk_is_unknown f then ss_weight s else 0)"
  "ag_unresolved_kernel_self_weight (count_leaf s f (count_sample s g)) =
     ag_unresolved_kernel_self_weight g + (if fk_is_unknown f \<and> in_kernel s then ss_weight s else 0)"
  "ag_unresolved_user_self_weight (count_leaf s f (count_sample s g)) =
     ag_unresolved_user_self_weight g + (if fk_is_unknown f \<and> in_user s then ss_weight s else 0)"
  "ag_unresolved_unknown_context_self_weight (count_leaf s f (count_sample s g)) =
     ag_unresolved_unknown_context_self_weight g +
       (if fk_is_unknown f \<and> \<not> in_kernel s \<and> \<not> in_user s then ss_weight s else 0)"
  using kernel_not_user [of s] by (simp_all add: count_defs in_kernel_def [symmetric] in_user_def [symmetric])

lemma before_path_counters:
  assumes "counters_ok tbl ss g"
  shows "counters_ok tbl (ss @ [s]) (fl_state (before_path tbl s g))"
  using assms
  unfolding counters_ok_def before_path_def loop_counts loop_unchanged frame_loop.select_convs leaf_counts leaf_contexts
    weight_where_simps frames_where_simps
  by auto

lemma before_path_tables:
  assumes "paths_ok tbl ss g"
  shows "paths_ok tbl ss (fl_state (before_path tbl s g))"
    "path_in (ag_frame_identities (fl_state (before_path tbl s g))) (fl_path (before_path tbl s g))"
    "decode_path (ag_frame_identities (fl_state (before_path tbl s g))) (fl_path (before_path tbl s g)) = key_path tbl s"
    "ag_hotspots g = hotspot_table tbl ss \<Longrightarrow> ag_hotspots (fl_state (before_path tbl s g)) = hotspot_table tbl (ss @ [s])"
    "ag_scope (fl_state (before_path tbl s g)) = Some (sample_scope s)"
proof -
  have ids: "ag_frame_identities (fl_state (before_path tbl s g)) =
      snd (identities.intern_all (key_path tbl s) (ag_frame_identities g))"
    and path: "fl_path (before_path tbl s g) = fst (identities.intern_all (key_path tbl s) (ag_frame_identities g))"
    unfolding before_path_def loop_identities key_path_def by (simp_all add: count_defs)
  have wf: "ids_wf (ag_frame_identities g)" using assms by (simp add: paths_ok_def)
  show "paths_ok tbl ss (fl_state (before_path tbl s g))"
    using assms ids by (rule paths_ok_identities) (simp add: before_path_def loop_unchanged count_defs)
  show "path_in (ag_frame_identities (fl_state (before_path tbl s g))) (fl_path (before_path tbl s g))"
    "decode_path (ag_frame_identities (fl_state (before_path tbl s g))) (fl_path (before_path tbl s g)) = key_path tbl s"
    unfolding ids path using decode_interned [OF wf] by simp_all
  show "ag_hotspots (fl_state (before_path tbl s g)) = hotspot_table tbl (ss @ [s])"
    if "ag_hotspots g = hotspot_table tbl ss"
    unfolding before_path_def loop_hotspots using that
    by (simp add: count_defs project_table_def touches_def project_step_def)
  show "ag_scope (fl_state (before_path tbl s g)) = Some (sample_scope s)"
    by (simp add: before_path_def loop_unchanged count_defs)
qed

lemma inv_ignores_paths [simp]:
  "counters_ok tbl ss (g\<lparr>ag_call_paths := m\<rparr>) = counters_ok tbl ss g"
  "scope_ok ss (g\<lparr>ag_call_paths := m\<rparr>) = scope_ok ss g"
  by (simp_all add: counters_ok_def scope_ok_def)

text \<open>One sample: the errors, each with its reason, or the invariant for one more sample.\<close>

lemma add_sample_step:
  assumes inv: "agg_inv tbl ss g" and ok: "sample_ok tbl s"
  shows "case add_sample lim tbl s g of
      Inl e \<Rightarrow> (e = mixed_scope \<and> ss \<noteq> [] \<and> sample_scope s \<noteq> sample_scope (hd ss)) \<or>
        (e = too_many_paths \<and> key_path tbl s \<notin> key_path tbl ` set ss \<and>
         int (length (path_table tbl ss)) \<ge> rl_max_unique_call_paths lim)
    | Inr g' \<Rightarrow> agg_inv tbl (ss @ [s]) g' \<and> (ss = [] \<or> sample_scope s = sample_scope (hd ss)) \<and>
        (key_path tbl s \<in> key_path tbl ` set ss \<or> int (length (path_table tbl ss)) < rl_max_unique_call_paths lim)"
proof (cases "ss \<noteq> [] \<and> sample_scope s \<noteq> sample_scope (hd ss)")
  case True
  moreover have "scope_ok ss g" using inv by (simp add: agg_inv_def)
  ultimately show ?thesis by (simp add: add_sample_ok [OF ok])
next
  case False
  let ?l = "before_path tbl s g"
  have parts: "ag_hotspots g = hotspot_table tbl ss" "paths_ok tbl ss g" "counters_ok tbl ss g" "scope_ok ss g"
    using inv by (simp_all add: agg_inv_def)
  note tables = before_path_tables [OF parts(2), of s]
  have run: "add_sample lim tbl s g = add_call_path lim s (fl_path ?l) (fl_state ?l)"
    unfolding add_sample_ok [OF ok parts(4)] if_not_P [OF False] ..
  have scopes: "scope_ok (ss @ [s]) (fl_state ?l)"
    using parts(4) False tables(5) by (cases ss) (auto simp: scope_ok_def)
  have counters: "counters_ok tbl (ss @ [s]) (fl_state ?l)"
    by (rule before_path_counters [OF parts(3)])
  have keep: "agg_inv tbl (ss @ [s]) g'"
    if "g' = (fl_state ?l)\<lparr>ag_call_paths := m\<rparr>" "paths_ok tbl (ss @ [s]) g'" for g' m
    unfolding agg_inv_def using that scopes counters tables(4) [OF parts(1)] by simp
  show ?thesis
    using paths_ok_add [OF tables(1,2,3), of lim] False keep
    unfolding run by (auto split: sum.splits)
qed

end
