(* ===== verification/HotspotRows.thy ===== *)
theory HotspotRows
  imports HotspotProofs
begin

text \<open>
  What one hotspot accumulator says about the samples: each measure of a row of the hotspot
  table is a sum or a set over the samples that touch the hotspot, and the bounded sets of
  symbol variants and source locations are exact until they overflow.
\<close>

section \<open>Measures\<close>

fun touch_self :: "touch \<Rightarrow> int" where
  "touch_self (Leaf k s) = ss_weight s"
| "touch_self (Frame f s first) = 0"

fun touch_inclusive :: "touch \<Rightarrow> int" where
  "touch_inclusive (Frame f s True) = ss_weight s"
| "touch_inclusive _ = 0"

fun touch_sample :: "touch \<Rightarrow> int" where
  "touch_sample (Frame f s True) = 1"
| "touch_sample _ = 0"

fun touch_occurrence :: "touch \<Rightarrow> int" where
  "touch_occurrence (Frame f s first) = 1"
| "touch_occurrence _ = 0"

lemma add_frame_fields:
  "ha_self_weight (add_frame s f first a) = ha_self_weight a"
  "ha_inclusive_weight (add_frame s f first a) = ha_inclusive_weight a + (if first then ss_weight s else 0)"
  "ha_sample_count (add_frame s f first a) = ha_sample_count a + (if first then 1 else 0)"
  "ha_stack_occurrence_count (add_frame s f first a) = ha_stack_occurrence_count a + 1"
  "ha_thread_ids (add_frame s f first a) = set_option (ss_thread_id s) \<union> ha_thread_ids a"
  by (simp_all add: add_frame_def add_variant_def add_location_def Let_def split: option.split)

interpretation selfs: conserved_measure hotspot_empty apply_touch ha_self_weight touch_self
proof unfold_locales
  fix ob a
  show "ha_self_weight (apply_touch ob a) = ha_self_weight a + touch_self ob"
    by (cases ob) (simp_all add: add_leaf_def add_frame_fields)
qed (simp add: hotspot_empty_def)

interpretation inclusives: conserved_measure hotspot_empty apply_touch ha_inclusive_weight touch_inclusive
proof unfold_locales
  fix ob a
  show "ha_inclusive_weight (apply_touch ob a) = ha_inclusive_weight a + touch_inclusive ob"
    by (cases ob rule: touch_inclusive.cases) (simp_all add: add_leaf_def add_frame_fields)
qed (simp add: hotspot_empty_def)

interpretation sampled: conserved_measure hotspot_empty apply_touch ha_sample_count touch_sample
proof unfold_locales
  fix ob a
  show "ha_sample_count (apply_touch ob a) = ha_sample_count a + touch_sample ob"
    by (cases ob rule: touch_sample.cases) (simp_all add: add_leaf_def add_frame_fields)
qed (simp add: hotspot_empty_def)

interpretation occurrences: conserved_measure hotspot_empty apply_touch ha_stack_occurrence_count touch_occurrence
proof unfold_locales
  fix ob a
  show "ha_stack_occurrence_count (apply_touch ob a) = ha_stack_occurrence_count a + touch_occurrence ob"
    by (cases ob) (simp_all add: add_leaf_def add_frame_fields)
qed (simp add: hotspot_empty_def)

section \<open>From touches to samples\<close>

text \<open>The touches of one sample that belong to one hotspot.\<close>

definition touches_at :: "frame_table \<Rightarrow> hotspot_key \<Rightarrow> stack_sample \<Rightarrow> touch list" where
  "touches_at tbl k s = filter (\<lambda>t. touch_key t = k) (touches tbl s)"

lemma touches_at_concat:
  "filter (\<lambda>t. touch_key t = k) (concat (map (touches tbl) ss)) = concat (map (touches_at tbl k) ss)"
  by (induction ss) (simp_all add: touches_at_def)

lemma sum_list_concat: "sum_list (map f (concat (map g xs))) = sum_list (map (\<lambda>x. sum_list (map f (g x))) xs)"
  for f :: "'a \<Rightarrow> int"
  by (induction xs) simp_all

lemma frame_touches_self [simp]: "sum_list (map touch_self (filter P (frame_touches s seen fs))) = 0"
  by (induction fs arbitrary: seen) simp_all

lemma frame_touches_first:
  "sum_list (map touch_inclusive (filter (\<lambda>t. touch_key t = k) (frame_touches s seen fs))) =
     (if k \<in> hotspot_key ` set fs \<and> k \<notin> seen then ss_weight s else 0)"
  "sum_list (map touch_sample (filter (\<lambda>t. touch_key t = k) (frame_touches s seen fs))) =
     (if k \<in> hotspot_key ` set fs \<and> k \<notin> seen then 1 else 0)"
proof (induction fs arbitrary: seen)
  case (Cons f fs)
  {
    case 1
    show ?case using Cons.IH(1) [of "insert (hotspot_key f) seen"] by (cases "hotspot_key f \<in> seen") auto
  next
    case 2
    show ?case using Cons.IH(2) [of "insert (hotspot_key f) seen"] by (cases "hotspot_key f \<in> seen") auto
  }
qed simp_all

lemma frame_touches_occurrence:
  "sum_list (map touch_occurrence (filter (\<lambda>t. touch_key t = k) (frame_touches s seen fs))) =
     int (length (filter (\<lambda>f. hotspot_key f = k) fs))"
  by (induction fs arbitrary: seen) simp_all

text \<open>What a sample contributes to a hotspot.\<close>

lemma sample_touches:
  "sum_list (map touch_self (touches_at tbl k s)) = (if hotspot_key (leaf_of tbl s) = k then ss_weight s else 0)"
  "sum_list (map touch_inclusive (touches_at tbl k s)) = (if k \<in> set (key_path tbl s) then ss_weight s else 0)"
  "sum_list (map touch_sample (touches_at tbl k s)) = (if k \<in> set (key_path tbl s) then 1 else 0)"
  "sum_list (map touch_occurrence (touches_at tbl k s)) = int (length (filter (\<lambda>f. hotspot_key f = k) (frames_of tbl s)))"
  by (simp_all add: touches_at_def touches_def frame_touches_first frame_touches_occurrence key_path_def)

section \<open>Bounded sets\<close>

text \<open>
  \<open>capped n all S over\<close>: \<open>S\<close> is the set \<open>all\<close> kept within \<open>n\<close> members, \<open>over\<close> tells that
  some member had to be left out.
\<close>

definition capped :: "nat \<Rightarrow> 'a set \<Rightarrow> 'a set \<Rightarrow> bool \<Rightarrow> bool" where
  "capped n full S over \<longleftrightarrow> finite full \<and> S \<subseteq> full \<and> card S \<le> n \<and> (\<not> over \<longrightarrow> S = full) \<and> (over \<longrightarrow> card S = n \<and> n < card full)"

lemma capped_add:
  assumes "capped n full S over"
  shows "v \<in> S \<Longrightarrow> capped n (insert v full) S over"
    "v \<notin> S \<Longrightarrow> card S < n \<Longrightarrow> capped n (insert v full) (insert v S) over"
    "v \<notin> S \<Longrightarrow> \<not> card S < n \<Longrightarrow> capped n (insert v full) S True"
proof -
  have fin: "finite full" "finite S" using assms by (auto simp: capped_def intro: finite_subset)
  show "capped n (insert v full) S over" if "v \<in> S"
    using assms that by (auto simp: capped_def insert_absorb subset_iff)
  show "capped n (insert v full) (insert v S) over" if "v \<notin> S" "card S < n"
    using assms that fin by (auto simp: capped_def)
  show "capped n (insert v full) S True" if "v \<notin> S" "\<not> card S < n"
  proof -
    have "card (insert v S) \<le> card (insert v full)" using assms fin by (intro card_mono) (auto simp: capped_def)
    then show ?thesis using assms that fin by (auto simp: capped_def)
  qed
qed

fun touch_variants :: "touch \<Rightarrow> pytext set" where
  "touch_variants (Leaf k s) = {}"
| "touch_variants (Frame f s first) = {symbol_variant f}"

fun touch_locations :: "touch \<Rightarrow> pytext set" where
  "touch_locations (Leaf k s) = {}"
| "touch_locations (Frame f s first) = set_option (source_location f)"

fun touch_threads :: "touch \<Rightarrow> int set" where
  "touch_threads (Leaf k s) = {}"
| "touch_threads (Frame f s first) = set_option (ss_thread_id s)"

definition sets_ok :: "pytext set \<Rightarrow> pytext set \<Rightarrow> int set \<Rightarrow> hotspot_accumulator \<Rightarrow> bool" where
  "sets_ok V L T a \<longleftrightarrow>
     capped 32 V (ha_symbol_variants a) (ha_symbol_variants_truncated a) \<and>
     capped 16 L (ha_source_locations a) (ha_source_locations_truncated a) \<and> ha_thread_ids a = T"

lemma sets_ok_touch:
  assumes "sets_ok V L T a"
  shows "sets_ok (touch_variants t \<union> V) (touch_locations t \<union> L) (touch_threads t \<union> T) (apply_touch t a)"
proof (cases t)
  case (Leaf k s)
  then show ?thesis using assms by (simp add: sets_ok_def add_leaf_def)
next
  case (Frame f s first)
  have v: "capped 32 (insert v V) (ha_symbol_variants (add_variant v a)) (ha_symbol_variants_truncated (add_variant v a))" for v
    using assms capped_add [of 32 V "ha_symbol_variants a" "ha_symbol_variants_truncated a" v]
    by (auto simp: sets_ok_def add_variant_def)
  have l: "capped 16 (set_option l \<union> L) (ha_source_locations (add_location l a)) (ha_source_locations_truncated (add_location l a))" for l
    using assms capped_add [of 16 L "ha_source_locations a" "ha_source_locations_truncated a"]
    by (cases l) (auto simp: sets_ok_def add_location_def)
  have fields: "ha_symbol_variants (add_frame s f first a) = ha_symbol_variants (add_variant (symbol_variant f) a)"
    "ha_symbol_variants_truncated (add_frame s f first a) = ha_symbol_variants_truncated (add_variant (symbol_variant f) a)"
    "ha_source_locations (add_frame s f first a) = ha_source_locations (add_location (source_location f) a)"
    "ha_source_locations_truncated (add_frame s f first a) = ha_source_locations_truncated (add_location (source_location f) a)"
    by (simp_all add: add_frame_def add_variant_def add_location_def Let_def split: option.split)
  show ?thesis
    using Frame v [of "symbol_variant f"] l [of "source_location f"] assms
    by (simp add: sets_ok_def fields add_frame_fields)
qed

lemma sets_ok_fold:
  "sets_ok V L T a \<Longrightarrow>
   sets_ok (\<Union> (touch_variants ` set ts) \<union> V) (\<Union> (touch_locations ` set ts) \<union> L) (\<Union> (touch_threads ` set ts) \<union> T)
     (fold apply_touch ts a)"
proof (induction ts arbitrary: V L T a)
  case (Cons t ts)
  from Cons.IH [OF sets_ok_touch [OF Cons.prems, of t]] show ?case by (simp add: Un_assoc Un_left_commute)
qed simp

lemma sets_ok_empty: "sets_ok {} {} {} hotspot_empty"
  by (simp add: sets_ok_def capped_def hotspot_empty_def)

lemma set_frame_touches: "Frame f s b \<in> set (frame_touches s' seen fs) \<Longrightarrow> f \<in> set fs \<and> s = s'"
  by (induction fs arbitrary: seen) auto

lemma frame_touches_mem: "f \<in> set fs \<Longrightarrow> \<exists>b. Frame f s b \<in> set (frame_touches s seen fs)"
  by (induction fs arbitrary: seen) auto

lemma touches_at_cases:
  assumes "t \<in> set (touches_at tbl k s)"
  obtains j u where "t = Leaf j u" | f b where "t = Frame f s b" "f \<in> set (frames_of tbl s)" "hotspot_key f = k"
proof (cases t)
  case (Frame f u b)
  with assms have "u = s" "f \<in> set (frames_of tbl s)" "hotspot_key f = k"
    by (auto simp: touches_at_def touches_def split: if_splits dest!: set_frame_touches)
  with Frame that(2) show thesis by blast
qed (rule that(1))

lemma touches_at_frame:
  "f \<in> set (frames_of tbl s) \<Longrightarrow> hotspot_key f = k \<Longrightarrow> \<exists>b. Frame f s b \<in> set (touches_at tbl k s)"
  using frame_touches_mem [of f "frames_of tbl s" s] by (auto simp: touches_at_def touches_def)

lemma UN_touches:
  assumes "\<And>j u. F (Leaf j u) = {}" and "\<And>f b. F (Frame f s b) = G f"
  shows "\<Union> (F ` set (touches_at tbl k s)) = \<Union> (G ` {f \<in> set (frames_of tbl s). hotspot_key f = k})"
proof (intro set_eqI iffI)
  fix x assume "x \<in> \<Union> (F ` set (touches_at tbl k s))"
  then obtain t where t: "t \<in> set (touches_at tbl k s)" "x \<in> F t" by blast
  from t(1) show "x \<in> \<Union> (G ` {f \<in> set (frames_of tbl s). hotspot_key f = k})"
    by (rule touches_at_cases) (use t(2) assms in auto)
next
  fix x assume "x \<in> \<Union> (G ` {f \<in> set (frames_of tbl s). hotspot_key f = k})"
  then obtain f where f: "f \<in> set (frames_of tbl s)" "hotspot_key f = k" "x \<in> G f" by blast
  then obtain b where "Frame f s b \<in> set (touches_at tbl k s)" using touches_at_frame by blast
  with f(3) assms(2) show "x \<in> \<Union> (F ` set (touches_at tbl k s))" by blast
qed

section \<open>The rows of the table\<close>

text \<open>The frames of the samples that belong to a hotspot.\<close>

definition frames_at :: "frame_table \<Rightarrow> hotspot_key \<Rightarrow> stack_sample list \<Rightarrow> frame_key set" where
  "frames_at tbl k ss = {f. \<exists>s \<in> set ss. f \<in> set (frames_of tbl s) \<and> hotspot_key f = k}"

definition threads_at :: "frame_table \<Rightarrow> hotspot_key \<Rightarrow> stack_sample list \<Rightarrow> int set" where
  "threads_at tbl k ss = {t. \<exists>s \<in> set ss. k \<in> set (key_path tbl s) \<and> ss_thread_id s = Some t}"

definition row_spec :: "frame_table \<Rightarrow> stack_sample list \<Rightarrow> hotspot_key \<Rightarrow> hotspot_accumulator \<Rightarrow> bool" where
  "row_spec tbl ss k a \<longleftrightarrow>
     ha_self_weight a = weight_where (\<lambda>s. hotspot_key (leaf_of tbl s) = k) ss \<and>
     ha_inclusive_weight a = weight_where (\<lambda>s. k \<in> set (key_path tbl s)) ss \<and>
     ha_sample_count a = int (length (filter (\<lambda>s. k \<in> set (key_path tbl s)) ss)) \<and>
     ha_stack_occurrence_count a = frames_where tbl (\<lambda>f. hotspot_key f = k) ss \<and>
     sets_ok (symbol_variant ` frames_at tbl k ss) (\<Union> (set_option ` source_location ` frames_at tbl k ss))
       (threads_at tbl k ss) a"

lemma sum_list_if: "sum_list (map (\<lambda>s. if P s then f s else 0) ss) = sum_list (map f (filter P ss))" for f :: "'a \<Rightarrow> int"
  by (induction ss) simp_all

lemma hotspot_row_spec:
  assumes "(k, a) \<in> set (hotspot_table tbl ss)"
  shows "row_spec tbl ss k a"
proof -
  let ?ts = "concat (map (touches_at tbl k) ss)"
  have eq: "filter (\<lambda>t. touch_key t = k) (concat (map (touches tbl) ss)) = ?ts" by (rule touches_at_concat)
  note row = selfs.row_measure [OF assms] inclusives.row_measure [OF assms] sampled.row_measure [OF assms]
    occurrences.row_measure [OF assms]
  have "map_of (hotspot_table tbl ss) k = Some a" using assms by simp
  then have a: "a = fold apply_touch ?ts hotspot_empty"
    unfolding eq [symmetric] by (simp add: lookup_project_table split: if_splits)
  have union: "\<Union> (F ` set ?ts) = (\<Union>s \<in> set ss. \<Union> (F ` set (touches_at tbl k s)))" for F :: "touch \<Rightarrow> 'a set" by auto
  have V: "\<Union> (touch_variants ` set ?ts) = symbol_variant ` frames_at tbl k ss"
    unfolding union by (subst UN_touches [where G = "\<lambda>f. {symbol_variant f}"]) (auto simp: frames_at_def)
  have L: "\<Union> (touch_locations ` set ?ts) = \<Union> (set_option ` source_location ` frames_at tbl k ss)"
    unfolding union by (subst UN_touches [where G = "\<lambda>f. set_option (source_location f)"]) (auto simp: frames_at_def)
  have "\<Union> (touch_threads ` set (touches_at tbl k s)) = {t. k \<in> set (key_path tbl s) \<and> ss_thread_id s = Some t}" for s
    by (subst UN_touches [where G = "\<lambda>f. set_option (ss_thread_id s)"]) (auto simp: key_path_def)
  then have T: "\<Union> (touch_threads ` set ?ts) = threads_at tbl k ss"
    unfolding union threads_at_def by auto
  have "sets_ok (\<Union> (touch_variants ` set ?ts)) (\<Union> (touch_locations ` set ?ts)) (\<Union> (touch_threads ` set ?ts)) a"
    using sets_ok_fold [OF sets_ok_empty, of ?ts] by (simp add: a)
  then show ?thesis
    unfolding row_spec_def V L T using row
    by (simp add: eq sum_list_concat sample_touches sum_list_if weight_where_def frames_where_def sum_list_triv)
qed

lemma hotspot_keys: "fst ` set (hotspot_table tbl ss) = (\<Union>s \<in> set ss. insert (hotspot_key (leaf_of tbl s)) (set (key_path tbl s)))"
proof -
  have "touch_key ` set (frame_touches s seen fs) = hotspot_key ` set fs" for s seen fs
    by (induction fs arbitrary: seen) auto
  then show ?thesis by (simp add: keys_project_table image_UN touches_def key_path_def)
qed

end
