(* ===== verification/HotspotResults.thy ===== *)
theory HotspotResults
  imports HotspotRows
begin

text \<open>
  Results on the aggregation of a profile: which sample lists it accepts, what its rows say,
  and that the conservation checks of
  \<open>validate_aggregation_invariants\<close> (\<open>src/src/perflens/application/evidence.py\<close>) hold for it.
\<close>

section \<open>Evidence checks\<close>

definition aggregation_failures :: "aggregation_result \<Rightarrow> parse_diagnostics \<Rightarrow> string \<Rightarrow> string list" where
  "aggregation_failures r d source_type =
     (let self_total = sum_list (map hr_self_weight (ar_hotspots r));
          call_path_total = sum_list (map cp_weight (ar_call_paths r))
      in (if ar_record_count r \<noteq> pd_parsed_records d
          then [''parsed record count differs from aggregated record count''] else []) @
         (if self_total \<noteq> ar_total_weight r
          then [''hotspot Self weight does not equal total profile weight''] else []) @
         (if call_path_total \<noteq> ar_total_weight r
          then [''call-path weight does not equal total profile weight''] else []) @
         (if ar_unknown_self_weight r > ar_total_weight r
          then [''unknown Self weight exceeds total profile weight''] else []) @
         (if ar_call_graph_weight r > ar_total_weight r
          then [''call-graph weight exceeds total profile weight''] else []) @
         (if ar_source_line_self_weight r > ar_total_weight r
          then [''source-line Self weight exceeds total profile weight''] else []) @
         (if ar_kernel_context_self_weight r + ar_user_context_self_weight r
             + ar_unknown_context_self_weight r \<noteq> ar_total_weight r
          then [''sample-context Self weights do not sum to total profile weight''] else []) @
         (if ar_unresolved_kernel_self_weight r + ar_unresolved_user_self_weight r
             + ar_unresolved_unknown_context_self_weight r \<noteq> ar_unknown_self_weight r
          then [''unresolved sample-context weights do not sum to unknown Self weight''] else []) @
         (if source_type \<in> {''perf_script'', ''perf_data''} \<and> pd_malformed_records d = 0 \<and>
             pd_frame_lines d \<noteq> ar_total_frame_count r + pd_duplicate_frame_lines d
          then [''parsed Frame line accounting does not match aggregated frames''] else []))"

definition validate_aggregation_invariants :: "aggregation_result \<Rightarrow> parse_diagnostics \<Rightarrow> string \<Rightarrow> unit result" where
  "validate_aggregation_invariants r d source_type =
     raise_if (aggregation_failures r d source_type \<noteq> [])
       (PerfLensError PROFILE_PARSE_FAILED ''evidence_validation''
          ''Profile evidence failed deterministic conservation checks'')"

section \<open>Acceptance\<close>

definition aggregation_accepts :: "resource_limits \<Rightarrow> frame_table \<Rightarrow> stack_sample list \<Rightarrow> bool" where
  "aggregation_accepts lim tbl ss \<longleftrightarrow>
     (\<forall>s \<in> set ss. sample_ok tbl s) \<and> (\<forall>s \<in> set ss. \<forall>t \<in> set ss. sample_scope s = sample_scope t) \<and>
     int (card (key_path tbl ` set ss)) \<le> rl_max_unique_call_paths lim"

lemma path_table_length: "length (path_table tbl ss) = card (key_path tbl ` set ss)"
proof -
  have "length (path_table tbl ss) = card (fst ` set (path_table tbl ss))"
    using distinct_card [of "map fst (path_table tbl ss)"] by simp
  then show ?thesis by (simp add: keys_project_table)
qed

lemma frame_loop_resolves:
  "foldE (frame_step tbl s) is l = Inr l' \<Longrightarrow> \<forall>i \<in> set is. \<exists>f. resolve tbl i = Inr f"
  by (induction "is" arbitrary: l) (auto simp: frame_step_def Let_def)

lemma add_sample_resolves: "add_sample lim tbl s g = Inr g' \<Longrightarrow> sample_ok tbl s"
  by (auto simp: add_sample_def sample_ok_def Let_def dest!: frame_loop_resolves split: if_splits)

lemma all_same_snoc:
  "(\<forall>x \<in> set (xs @ [a]). \<forall>y \<in> set (xs @ [a]). f x = f y) \<longleftrightarrow>
     (\<forall>x \<in> set xs. \<forall>y \<in> set xs. f x = f y) \<and> (xs = [] \<or> f a = f (hd xs))" (is "?L \<longleftrightarrow> ?R")
proof
  assume L: ?L
  have same: "f x = f y" if "x \<in> set (xs @ [a])" "y \<in> set (xs @ [a])" for x y
    using L that by blast
  have "xs = [] \<or> f a = f (hd xs)"
    using same [of a "hd xs"] by (cases "xs = []") auto
  moreover have "\<forall>x \<in> set xs. \<forall>y \<in> set xs. f x = f y"
    by (intro ballI same) auto
  ultimately show ?R by blast
next
  assume R: ?R
  have "f x = f a" if "x \<in> set (xs @ [a])" for x
  proof (cases "x \<in> set xs")
    case True
    then have "hd xs \<in> set xs" "xs \<noteq> []" by (cases xs; simp)+
    then show ?thesis using R True by metis
  qed (use that in simp)
  then show ?L by metis
qed

lemma accepts_snoc:
  assumes "0 \<le> rl_max_unique_call_paths lim"
  shows "aggregation_accepts lim tbl (ss @ [s]) \<longleftrightarrow> aggregation_accepts lim tbl ss \<and> sample_ok tbl s \<and>
     (ss = [] \<or> sample_scope s = sample_scope (hd ss)) \<and>
     (key_path tbl s \<in> key_path tbl ` set ss \<or> int (card (key_path tbl ` set ss)) < rl_max_unique_call_paths lim)"
proof -
  note scope = all_same_snoc [of ss s sample_scope]
  have "int (card (key_path tbl ` set (ss @ [s]))) \<le> rl_max_unique_call_paths lim \<longleftrightarrow>
      int (card (key_path tbl ` set ss)) \<le> rl_max_unique_call_paths lim \<and>
      (key_path tbl s \<in> key_path tbl ` set ss \<or> int (card (key_path tbl ` set ss)) < rl_max_unique_call_paths lim)"
    by (cases "key_path tbl s \<in> key_path tbl ` set ss") (auto simp: insert_absorb)
  with scope show ?thesis unfolding aggregation_accepts_def by auto
qed

lemma aggregation_run:
  assumes "0 \<le> rl_max_unique_call_paths lim"
  shows "(\<exists>g. foldE (add_sample lim tbl) ss aggregator_init = Inr g) \<longleftrightarrow> aggregation_accepts lim tbl ss"
    and "foldE (add_sample lim tbl) ss aggregator_init = Inr g \<Longrightarrow> agg_inv tbl ss g"
proof (induction ss arbitrary: g rule: rev_induct)
  case Nil
  {
    case 1
    then show ?case using assms by (simp add: aggregation_accepts_def)
  next
    case 2
    then show ?case by (simp add: agg_inv_init)
  }
next
  case (snoc s ss)
  have step: "(\<exists>g'. add_sample lim tbl s g = Inr g') \<longleftrightarrow> sample_ok tbl s \<and>
      (ss = [] \<or> sample_scope s = sample_scope (hd ss)) \<and>
      (key_path tbl s \<in> key_path tbl ` set ss \<or> int (card (key_path tbl ` set ss)) < rl_max_unique_call_paths lim)"
    if "agg_inv tbl ss g" for g
    using add_sample_step [OF that, of s lim] add_sample_resolves [of lim tbl s g]
    by (cases "add_sample lim tbl s g") (auto simp: path_table_length)
  {
    case 1
    show ?case
    proof (cases "foldE (add_sample lim tbl) ss aggregator_init")
      case (Inl e)
      then show ?thesis using snoc.IH(1) by (simp add: foldE_append accepts_snoc [OF assms])
    next
      case (Inr g)
      have "aggregation_accepts lim tbl ss" using snoc.IH(1) Inr by blast
      with step [OF snoc.IH(2) [OF Inr]] show ?thesis
        unfolding accepts_snoc [OF assms] by (simp add: foldE_append Inr)
    qed
  next
    case 2
    then obtain g0 where g0: "foldE (add_sample lim tbl) ss aggregator_init = Inr g0" "add_sample lim tbl s g0 = Inr g"
      by (auto simp: foldE_append)
    then show ?case
      using add_sample_step [OF snoc.IH(2) [OF g0(1)] add_sample_resolves [OF g0(2)], of lim] by simp
  }
qed

section \<open>Call paths of the result\<close>

lemma fold_path_frames: "ss \<noteq> [] \<Longrightarrow> cp_frame_ids (fold path_add ss path_empty) = ss_frames (hd ss)"
proof -
  have keep: "0 < cp_record_count c \<Longrightarrow> cp_frame_ids (fold path_add ss c) = cp_frame_ids c" for ss c
    by (induction ss arbitrary: c) (simp_all add: path_add_def)
  show ?thesis if "ss \<noteq> []"
    using that keep [of "path_add (hd ss) path_empty" "tl ss"] by (cases ss) (simp_all add: path_add_def path_empty_def)
qed

definition path_spec :: "frame_table \<Rightarrow> stack_sample list \<Rightarrow> call_path \<Rightarrow> bool" where
  "path_spec tbl ss c \<longleftrightarrow>
     (\<exists>s \<in> set ss. cp_frame_ids c = ss_frames s \<and>
        cp_weight c = weight_where (\<lambda>t. key_path tbl t = key_path tbl s) ss \<and>
        cp_record_count c = int (length (filter (\<lambda>t. key_path tbl t = key_path tbl s) ss)))"

lemma path_table_spec:
  assumes "(k, c) \<in> set (path_table tbl ss)"
  shows "path_spec tbl ss c" "\<exists>s \<in> set ss. cp_frame_ids c = ss_frames s \<and> key_path tbl s = k"
proof -
  let ?sel = "filter (\<lambda>s. key_path tbl s = k) ss"
  have look: "map_of (path_table tbl ss) k = Some c" using assms by simp
  then have k: "k \<in> key_path tbl ` set ss" and c: "c = fold path_add ?sel path_empty"
    by (simp_all add: lookup_project_table split: if_splits)
  have ne: "?sel \<noteq> []" using k by (auto simp: filter_empty_conv)
  then have hd: "hd ?sel \<in> set ss" "key_path tbl (hd ?sel) = k" using hd_in_set [OF ne] by auto
  have ids: "cp_frame_ids c = ss_frames (hd ?sel)" unfolding c by (rule fold_path_frames [OF ne])
  then show "\<exists>s \<in> set ss. cp_frame_ids c = ss_frames s \<and> key_path tbl s = k" using hd by blast
  have "cp_weight c = weight_where (\<lambda>t. key_path tbl t = k) ss"
    using path_weights.row_measure [OF assms] by (simp add: weight_where_def)
  then show "path_spec tbl ss c"
    unfolding path_spec_def using ids hd path_row_counted(1) [OF look] by (intro bexI [of _ "hd ?sel"]) simp_all
qed

lemma sort_paths_eq:
  assumes "mapE (\<lambda>p. bindE (path_order tbl (snd p)) (\<lambda>k. Inr (k, snd p))) m = Inr keyed"
  shows "map snd keyed = map snd m" "\<forall>q \<in> set keyed. path_order tbl (snd q) = Inr (fst q)"
  using assms unfolding mapE_Inr by (induction rule: list_all2_induct) auto

lemma path_order_weight: "path_order tbl c = Inr k \<Longrightarrow> fst k = - cp_weight c"
  by (auto simp: path_order_def)

lemma sort_paths_result:
  assumes "sort_paths tbl m = Inr ps"
  shows "mset ps = mset (map snd m)" "sorted (map (\<lambda>c. - cp_weight c) ps)"
proof -
  obtain keyed where keyed: "mapE (\<lambda>p. bindE (path_order tbl (snd p)) (\<lambda>k. Inr (k, snd p))) m = Inr keyed"
    and ps: "ps = map snd (sort_key fst keyed)"
    using assms by (auto simp: sort_paths_def)
  show "mset ps = mset (map snd m)"
    unfolding ps sort_paths_eq(1) [OF keyed, symmetric] mset_map mset_sort ..
  have "sorted (map fst (sort_key fst keyed))" by simp
  then have "sorted (map (\<lambda>q. fst (fst q)) (sort_key fst keyed))"
    unfolding sorted_map by (rule sorted_wrt_mono_rel [rotated]) (auto simp: less_eq_prod_def)
  moreover have "map (\<lambda>q. fst (fst q)) (sort_key fst keyed) = map (\<lambda>q. - cp_weight (snd q)) (sort_key fst keyed)"
    using sort_paths_eq(2) [OF keyed] path_order_weight by (intro map_cong) auto
  ultimately show "sorted (map (\<lambda>c. - cp_weight c) ps)" by (simp add: ps o_def)
qed

lemma sort_paths_total:
  assumes "\<forall>p \<in> set m. \<forall>i \<in> set (cp_frame_ids (snd p)). \<exists>f. resolve tbl i = Inr f"
  shows "\<exists>ps. sort_paths tbl m = Inr ps"
proof -
  have "\<exists>k. path_order tbl (snd p) = Inr k" if "p \<in> set m" for p
    using mapE_total [of "cp_frame_ids (snd p)" "\<lambda>i. bindE (resolve tbl i) (\<lambda>f. Inr (hotspot_key f))"] assms that
    by (fastforce simp: path_order_def)
  then show ?thesis
    using mapE_total [of m "\<lambda>p. bindE (path_order tbl (snd p)) (\<lambda>k. Inr (k, snd p))"] by (fastforce simp: sort_paths_def)
qed

lemma call_paths_values: "paths_ok tbl ss g \<Longrightarrow> map snd (ag_call_paths g) = map snd (path_table tbl ss)"
proof -
  assume "paths_ok tbl ss g"
  then have "map snd (map (apfst (decode_path (ag_frame_identities g))) (ag_call_paths g)) = map snd (path_table tbl ss)"
    by (simp only: paths_ok_def)
  then show ?thesis by (simp add: o_def)
qed

lemma aggregate_result:
  assumes "aggregate lim tbl ss = Inr r"
  obtains g ps where "foldE (add_sample lim tbl) ss aggregator_init = Inr g" "finish_aggregation tbl g = Inr r"
    "sort_paths tbl (ag_call_paths g) = Inr (ar_call_paths r)"
    "ar_hotspots r = map hotspot_row (sort_key hotspot_order (ag_hotspots g))"
  using assms by (auto simp: aggregate_def finish_aggregation_def Let_def)

lemma finish_total:
  assumes "agg_inv tbl ss g" "\<forall>s \<in> set ss. sample_ok tbl s"
  shows "\<exists>r. finish_aggregation tbl g = Inr r"
proof -
  have vals: "map snd (ag_call_paths g) = map snd (path_table tbl ss)"
    using assms(1) by (intro call_paths_values) (simp add: agg_inv_def)
  have "\<exists>f. resolve tbl i = Inr f" if "p \<in> set (ag_call_paths g)" "i \<in> set (cp_frame_ids (snd p))" for p i
  proof -
    have "snd p \<in> set (map snd (path_table tbl ss))" using that(1) unfolding vals [symmetric] by simp
    then obtain k where "(k, snd p) \<in> set (path_table tbl ss)" by auto
    then obtain s where "s \<in> set ss" "cp_frame_ids (snd p) = ss_frames s" using path_table_spec(2) by blast
    then show ?thesis using assms(2) that(2) by (auto simp: sample_ok_def)
  qed
  then obtain ps where "sort_paths tbl (ag_call_paths g) = Inr ps" using sort_paths_total by blast
  then show ?thesis by (simp add: finish_aggregation_def Let_def)
qed

end
