(* ===== verification/FoldedPipeline.thy ===== *)
theory FoldedPipeline
  imports FoldedProofs HotspotResults
begin

text \<open>
  Parser and aggregator together: every sample the parser yields is one the aggregator
  accepts, the growing frame table does not change what was aggregated before, the loop ends
  within its fuel, and the result passes the evidence checks.
\<close>

section \<open>A growing frame table\<close>

lemma frames_of_grows:
  assumes "grows t u" "sample_good lim t s"
  shows "frames_of u s = frames_of t s" "sample_ok u s" "sample_good lim u s"
proof -
  have good: "\<forall>i \<in> set (ss_frames s). 0 \<le> i \<and> (\<exists>f. resolve t i = Inr f)" "ss_frames s \<noteq> []"
    using assms(2) by (auto simp: sample_good_def)
  have same: "resolve u i = resolve t i" if "i \<in> set (ss_frames s)" for i
    using assms(1) good that by (auto simp: grows_def)
  have "mapE (resolve u) xs = mapE (resolve t) xs" if "set xs \<subseteq> set (ss_frames s)" for xs
    using that by (induction xs) (simp_all add: same)
  then show "frames_of u s = frames_of t s" by (simp add: frames_of_def)
  show "sample_ok u s" using good same by (auto simp: sample_ok_def)
  show "sample_good lim u s" using assms(2) same by (auto simp: sample_good_def)
qed

lemma project_table_cong:
  assumes "\<And>ob. ob \<in> set obs \<Longrightarrow> key ob = key' ob"
  shows "project_table e add key obs = project_table e add key' obs"
  unfolding project_table_def by (rule fold_cong) (auto simp: project_step_def assms)

lemma weight_where_cong: "(\<And>s. s \<in> set ss \<Longrightarrow> P s = Q s) \<Longrightarrow> weight_where P ss = weight_where Q ss"
  unfolding weight_where_def by (metis (mono_tags, lifting) filter_cong)

lemma agg_inv_grows:
  assumes "agg_inv t ss g" and same: "\<And>s. s \<in> set ss \<Longrightarrow> frames_of u s = frames_of t s"
  shows "agg_inv u ss g"
proof -
  have "map (touches u) ss = map (touches t) ss" using same by (simp add: touches_def)
  then have "hotspot_table u ss = hotspot_table t ss" by (simp only:)
  moreover have "path_table u ss = path_table t ss"
    by (rule project_table_cong) (simp add: key_path_def same)
  moreover have "counters_ok t ss g \<Longrightarrow> counters_ok u ss g"
    unfolding counters_ok_def frames_where_def by (simp add: same cong: map_cong weight_where_cong)
  ultimately show ?thesis using assms(1) by (simp add: agg_inv_def paths_ok_def)
qed

section \<open>The loop\<close>

definition pipeline_inv :: "resource_limits \<Rightarrow> pytext \<Rightarrow> stack_sample list \<Rightarrow> folded_state \<Rightarrow> aggregator \<Rightarrow> bool" where
  "pipeline_inv lim text ss st g \<longleftrightarrow> folded_inv lim text st \<and> agg_inv (fo_frame_table st) ss g \<and>
     (\<forall>s \<in> set ss. sample_good lim (fo_frame_table st) s) \<and>
     pd_parsed_records (fo_diagnostics st) = int (length ss) \<and>
     int (card (key_path (fo_frame_table st) ` set ss)) \<le> rl_max_unique_call_paths lim"

lemma sample_good_ok: "sample_good lim t s \<Longrightarrow> sample_ok t s"
  by (auto simp: sample_good_def sample_ok_def)

definition pipeline_error :: "py_error \<Rightarrow> bool" where
  "pipeline_error e \<longleftrightarrow> folded_error e \<or> e = too_many_paths"

text \<open>Samples taken under a smaller table keep their frames under a larger one.\<close>

lemma good_samples_grow:
  assumes "grows t u" "\<forall>s \<in> set ss. sample_good lim t s"
  shows "agg_inv t ss g \<Longrightarrow> agg_inv u ss g" "\<forall>s \<in> set ss. sample_good lim u s"
    "key_path u ` set ss = key_path t ` set ss"
proof -
  have same: "frames_of u s = frames_of t s" if "s \<in> set ss" for s
    using frames_of_grows(1) [OF assms(1)] assms(2) that by blast
  show "agg_inv u ss g" if "agg_inv t ss g" using that same by (rule agg_inv_grows)
  show "\<forall>s \<in> set ss. sample_good lim u s" using frames_of_grows(3) [OF assms(1)] assms(2) by blast
  show "key_path u ` set ss = key_path t ` set ss"
    by (rule image_cong [OF refl]) (simp add: key_path_def same)
qed

lemma pipeline_grows:
  assumes "pipeline_inv lim text ss st g" "folded_inv lim text st'" "grows (fo_frame_table st) (fo_frame_table st')"
    "pd_parsed_records (fo_diagnostics st') = pd_parsed_records (fo_diagnostics st)"
  shows "pipeline_inv lim text ss st' g"
proof -
  have good: "\<forall>s \<in> set ss. sample_good lim (fo_frame_table st) s" using assms(1) by (simp add: pipeline_inv_def)
  from good_samples_grow [OF assms(3) good] show ?thesis using assms(1,2,4) by (simp add: pipeline_inv_def)
qed

lemma pipeline_add:
  assumes inv: "pipeline_inv lim text ss st g" and lim: "limits_ok lim"
    and st': "folded_inv lim text st'" "grows (fo_frame_table st) (fo_frame_table st')"
      "pd_parsed_records (fo_diagnostics st') = pd_parsed_records (fo_diagnostics st) + 1"
    and s: "sample_good lim (fo_frame_table st') s"
  shows "ensures pipeline_error (pipeline_inv lim text (ss @ [s]) st') (add_sample lim (fo_frame_table st') s g)"
proof -
  let ?t = "fo_frame_table st'"
  have good: "\<forall>s \<in> set ss. sample_good lim (fo_frame_table st) s" using inv by (simp add: pipeline_inv_def)
  note grown = good_samples_grow [OF st'(2) good]
  have agg: "agg_inv ?t ss g" using inv grown(1) by (simp add: pipeline_inv_def)
  note good' = grown(2)
  have card: "int (card (key_path ?t ` set ss)) \<le> rl_max_unique_call_paths lim"
    using inv grown(3) by (simp add: pipeline_inv_def)
  have scope: "ss = [] \<or> sample_scope s = sample_scope (hd ss)"
    using good' s hd_in_set [of ss] by (cases "ss = []") (auto simp: sample_good_def)
  show ?thesis
  proof (cases "add_sample lim ?t s g")
    case (Inl e)
    then show ?thesis
      using add_sample_step [OF agg sample_good_ok [OF s], of lim] scope by (auto simp: pipeline_error_def)
  next
    case (Inr g')
    then have step: "agg_inv ?t (ss @ [s]) g'"
      "key_path ?t s \<in> key_path ?t ` set ss \<or> int (card (key_path ?t ` set ss)) < rl_max_unique_call_paths lim"
      using add_sample_step [OF agg sample_good_ok [OF s], of lim] by (auto simp: path_table_length)
    have "int (card (key_path ?t ` set (ss @ [s]))) \<le> rl_max_unique_call_paths lim"
      using step(2) card by (cases "key_path ?t s \<in> key_path ?t ` set ss") (auto simp: insert_absorb)
    then show ?thesis
      using Inr step(1) st' good' s inv by (auto simp: pipeline_inv_def)
  qed
qed

lemma folded_loop_ok:
  assumes "limits_ok lim" "pipeline_inv lim text ss st g" "length (fo_rest st) < n"
  shows "\<exists>res. folded_loop lim dec n st g = Some res \<and>
    ensures pipeline_error (\<lambda>(st', g'). fo_rest st' = [] \<and> (\<exists>ss'. pipeline_inv lim text ss' st' g')) res"
  using assms(2,3)
proof (induction n arbitrary: ss st g)
  case (Suc n)
  have inv: "folded_inv lim text st" using Suc.prems(1) by (simp add: pipeline_inv_def)
  note step = folded_step_ok [OF inv assms(1), of dec]
  show ?case
  proof (cases "folded_step lim dec st")
    case (Inl e)
    then show ?thesis using step by (simp add: pipeline_error_def)
  next
    case (Inr out)
    then have post: "step_post lim text st out" using step by simp
    show ?thesis
    proof (cases out)
      case (EndOfFile st')
      then show ?thesis using Inr post Suc.prems(1) by auto
    next
      case (Continue st')
      then have "pipeline_inv lim text ss st' g" "length (fo_rest st') < n"
        using post pipeline_grows [OF Suc.prems(1), of st'] Suc.prems(2) by auto
      from Suc.IH [OF this] show ?thesis using Inr Continue by simp
    next
      case (Yield s st')
      then have add: "ensures pipeline_error (pipeline_inv lim text (ss @ [s]) st') (add_sample lim (fo_frame_table st') s g)"
        using post pipeline_add [OF Suc.prems(1) assms(1), of st' s] by auto
      show ?thesis
      proof (cases "add_sample lim (fo_frame_table st') s g")
        case (Inl e)
        then show ?thesis using add Inr Yield by simp
      next
        case g': (Inr g')
        then have "pipeline_inv lim text (ss @ [s]) st' g'" "length (fo_rest st') < n"
          using add post Yield Suc.prems(2) by auto
        from Suc.IH [OF this] show ?thesis using Inr Yield g' by simp
      qed
    qed
  qed
qed simp

lemma pipeline_inv_init: "limits_ok lim \<Longrightarrow> pipeline_inv lim text [] (folded_init lim text) aggregator_init"
  using folded_inv_init [of lim "text"] limits_okD(6) [of lim]
  by (simp add: pipeline_inv_def agg_inv_init folded_init_def diagnostics_init_def)

text \<open>What a completed analysis is made of.\<close>

lemma analyze_folded_result:
  assumes "limits_ok lim" "analyze_folded lim dec st_size text = Some (Inr (r, d))"
  obtains ss st g where "pipeline_inv lim text ss st g" "fo_rest st = []" "d = fo_diagnostics st"
    "finish_aggregation (fo_frame_table st) g = Inr r"
proof -
  have init: "length (fo_rest (folded_init lim text)) < Suc (length text)" by (simp add: folded_init_def)
  obtain st g where loop: "folded_loop lim dec (Suc (length text)) (folded_init lim text) aggregator_init = Some (Inr (st, g))"
    and r: "finish_aggregation (fo_frame_table st) g = Inr r" "d = fo_diagnostics st"
    using assms(2) by (auto simp: analyze_folded_def folded_enter_def bindE_raise_if split: if_splits option.splits sum.splits)
  from folded_loop_ok [OF assms(1) pipeline_inv_init [OF assms(1)] init, of dec] loop
  obtain ss where "pipeline_inv lim text ss st g" "fo_rest st = []" by auto
  with r that show thesis by blast
qed

lemma pipeline_finishes:
  assumes "pipeline_inv lim text ss st g"
  shows "\<exists>r. finish_aggregation (fo_frame_table st) g = Inr r"
proof (rule finish_total)
  show "agg_inv (fo_frame_table st) ss g" using assms by (simp add: pipeline_inv_def)
  show "\<forall>s \<in> set ss. sample_ok (fo_frame_table st) s" using assms sample_good_ok unfolding pipeline_inv_def by blast
qed

end
