(* ===== verification/ProfileProperties.thy ===== *)
theory ProfileProperties
  imports FoldedPipeline "HOL-Library.Code_Target_Nat"
begin

text \<open>
  The properties of the profile pipeline: interning, aggregation and its rows, the folded
  parser, and the analysis of a folded file from text to validated result.
\<close>

section \<open>Sums over the result\<close>

lemma result_sums:
  assumes "agg_inv tbl ss g" "finish_aggregation tbl g = Inr r"
  shows "sum_list (map hr_self_weight (ar_hotspots r)) = sum_list (map ss_weight ss)"
    "sum_list (map cp_weight (ar_call_paths r)) = sum_list (map ss_weight ss)"
    "sum_list (map cp_record_count (ar_call_paths r)) = int (length ss)"
proof -
  obtain ps where ps: "sort_paths tbl (ag_call_paths g) = Inr ps" and paths: "ar_call_paths r = ps"
    and hot: "ar_hotspots r = map hotspot_row (sort_key hotspot_order (ag_hotspots g))"
    using assms(2) by (auto simp: finish_aggregation_def Let_def)
  have tables: "ag_hotspots g = hotspot_table tbl ss" "paths_ok tbl ss g" using assms(1) by (simp_all add: agg_inv_def)
  have self: "sum_list (map touch_self (touches tbl s)) = ss_weight s" for s
    using frame_touches_self [of "\<lambda>_. True" s "{}" "frames_of tbl s"] by (simp add: touches_def)
  have "sum_list (map hr_self_weight (ar_hotspots r)) = dict_sum ha_self_weight (sort_key hotspot_order (hotspot_table tbl ss))"
    unfolding hot tables(1) dict_sum_def by (simp add: o_def hotspot_row_def case_prod_beta)
  then show "sum_list (map hr_self_weight (ar_hotspots r)) = sum_list (map ss_weight ss)"
    by (simp add: selfs.conserved sum_list_concat self)
  have sums: "sum_list (map f ps) = dict_sum f (path_table tbl ss)" for f :: "call_path \<Rightarrow> int"
  proof -
    have "mset ps = mset (map snd (path_table tbl ss))"
      using sort_paths_result(1) [OF ps] call_paths_values [OF tables(2)] by simp
    then have "sum_mset (mset (map f ps)) = sum_mset (mset (map f (map snd (path_table tbl ss))))"
      unfolding mset_map by simp
    then show ?thesis unfolding dict_sum_def sum_mset_sum_list by (simp add: o_def)
  qed
  show "sum_list (map cp_weight (ar_call_paths r)) = sum_list (map ss_weight ss)"
    "sum_list (map cp_record_count (ar_call_paths r)) = int (length ss)"
    by (simp_all add: paths sums path_weights.conserved path_records.conserved sum_list_triv)
qed

lemma weight_where_split: "weight_where P ss = weight_where (\<lambda>s. P s \<and> Q s) ss + weight_where (\<lambda>s. P s \<and> \<not> Q s) ss"
  by (induction ss) (auto simp: weight_where_def)

lemma weight_where_mono: "\<forall>s \<in> set ss. 0 \<le> ss_weight s \<Longrightarrow> weight_where P ss \<le> weight_where (\<lambda>_. True) ss"
  by (induction ss) (auto simp: weight_where_def)

lemma weight_where_contexts:
  "weight_where (\<lambda>s. P s \<and> in_kernel s) ss + weight_where (\<lambda>s. P s \<and> in_user s) ss
     + weight_where (\<lambda>s. P s \<and> \<not> in_kernel s \<and> \<not> in_user s) ss = weight_where P ss"
  using kernel_not_user by (induction ss) (auto simp: weight_where_def)

lemma validation_passes:
  assumes inv: "agg_inv tbl ss g" "finish_aggregation tbl g = Inr r" and nonneg: "\<forall>s \<in> set ss. 0 \<le> ss_weight s"
    and parsed: "pd_parsed_records d = int (length ss)" 
    and lines: "source_type \<in> {''perf_script'', ''perf_data''} \<Longrightarrow> pd_malformed_records d = 0 \<Longrightarrow>
      pd_frame_lines d = frames_where tbl (\<lambda>_. True) ss + pd_duplicate_frame_lines d"
  shows "validate_aggregation_invariants r d source_type = Inr ()"
proof -
  have counters: "counters_ok tbl ss g" using inv(1) by (simp add: agg_inv_def)
  have fields: "ar_total_weight r = ag_total_weight g" "ar_record_count r = ag_record_count g"
    "ar_unknown_self_weight r = ag_unknown_self_weight g" "ar_call_graph_weight r = ag_call_graph_weight g"
    "ar_source_line_self_weight r = ag_source_line_self_weight g" "ar_total_frame_count r = ag_total_frame_count g"
    "ar_kernel_context_self_weight r = ag_kernel_context_self_weight g"
    "ar_user_context_self_weight r = ag_user_context_self_weight g"
    "ar_unknown_context_self_weight r = ag_unknown_context_self_weight g"
    "ar_unresolved_kernel_self_weight r = ag_unresolved_kernel_self_weight g"
    "ar_unresolved_user_self_weight r = ag_unresolved_user_self_weight g"
    "ar_unresolved_unknown_context_self_weight r = ag_unresolved_unknown_context_self_weight g"
    using inv(2) by (auto simp: finish_aggregation_def Let_def)
  have total: "ar_total_weight r = sum_list (map ss_weight ss)"
    using counters by (simp add: fields counters_ok_def weight_where_def)
  have bounds: "ar_unknown_self_weight r \<le> ar_total_weight r" "ar_call_graph_weight r \<le> ar_total_weight r"
    "ar_source_line_self_weight r \<le> ar_total_weight r" "ar_record_count r = int (length ss)"
    using counters weight_where_mono [OF nonneg] by (simp_all add: fields counters_ok_def)
  have "ar_kernel_context_self_weight r + ar_user_context_self_weight r + ar_unknown_context_self_weight r = ar_total_weight r"
    "ar_unresolved_kernel_self_weight r + ar_unresolved_user_self_weight r + ar_unresolved_unknown_context_self_weight r
       = ar_unknown_self_weight r"
    using counters weight_where_contexts [of "\<lambda>_. True" ss] weight_where_contexts [of "\<lambda>s. fk_is_unknown (leaf_of tbl s)" ss]
    by (simp_all add: fields counters_ok_def)
  moreover have "ar_total_frame_count r = frames_where tbl (\<lambda>_. True) ss" using counters by (simp add: fields counters_ok_def)
  ultimately have "aggregation_failures r d source_type = []"
    using bounds lines parsed result_sums(1,2) [OF inv] total by (auto simp: aggregation_failures_def Let_def)
  then show ?thesis by (simp add: validate_aggregation_invariants_def raise_if_def)
qed

section \<open>Rows of the result\<close>

definition hotspot_spec :: "frame_table \<Rightarrow> stack_sample list \<Rightarrow> hotspot_result \<Rightarrow> bool" where
  "hotspot_spec tbl ss h \<longleftrightarrow>
     (let k = (hr_symbol h, hr_dso h); variants = symbol_variant ` frames_at tbl k ss
      in hr_self_weight h = weight_where (\<lambda>s. hotspot_key (leaf_of tbl s) = k) ss \<and>
         hr_inclusive_weight h = weight_where (\<lambda>s. k \<in> set (key_path tbl s)) ss \<and>
         hr_sample_count h = int (length (filter (\<lambda>s. k \<in> set (key_path tbl s)) ss)) \<and>
         hr_stack_occurrence_count h = frames_where tbl (\<lambda>f. hotspot_key f = k) ss \<and>
         hr_thread_count h = int (card (threads_at tbl k ss)) \<and>
         set (hr_symbol_variants h) \<subseteq> variants \<and>
         (hr_symbol_variants_truncated h \<longleftrightarrow> 32 < card variants) \<and>
         (\<not> hr_symbol_variants_truncated h \<longrightarrow> hr_symbol_variants h = sorted_list_of_set variants) \<and>
         hr_symbol_variant_count h = int (min 33 (card variants)))"

lemma capped_count:
  assumes "capped n full S over"
  shows "over \<longleftrightarrow> n < card full" "card S + (if over then 1 else 0) = min (Suc n) (card full)"
proof (atomize(full), cases over)
  case True
  then show "(over \<longleftrightarrow> n < card full) \<and> card S + (if over then 1 else 0) = min (Suc n) (card full)"
    using assms by (simp add: capped_def)
next
  case False
  then show "(over \<longleftrightarrow> n < card full) \<and> card S + (if over then 1 else 0) = min (Suc n) (card full)"
    using assms by (auto simp: capped_def)
qed

lemma hotspot_specI:
  assumes "row_spec tbl ss k a"
  shows "hotspot_spec tbl ss (hotspot_row (k, a))"
proof -
  have cap: "capped 32 (symbol_variant ` frames_at tbl k ss) (ha_symbol_variants a) (ha_symbol_variants_truncated a)"
    and thr: "ha_thread_ids a = threads_at tbl k ss"
    using assms by (simp_all add: row_spec_def sets_ok_def)
  have fin: "finite (ha_symbol_variants a)" "ha_symbol_variants a \<subseteq> symbol_variant ` frames_at tbl k ss"
    "\<not> ha_symbol_variants_truncated a \<Longrightarrow> ha_symbol_variants a = symbol_variant ` frames_at tbl k ss"
    using cap by (auto simp: capped_def intro: finite_subset)
  have count: "int (card (ha_symbol_variants a)) + (if ha_symbol_variants_truncated a then 1 else 0) =
      int (min 33 (card (symbol_variant ` frames_at tbl k ss)))"
    using arg_cong [OF capped_count(2) [OF cap], of int] by (simp split: if_splits)
  show ?thesis
    using assms thr fin capped_count(1) [OF cap] count
    unfolding hotspot_spec_def Let_def hotspot_row_def by (simp add: row_spec_def)
qed

lemma agg_rows:
  assumes "agg_inv tbl ss g" "\<forall>s \<in> set ss. sample_ok tbl s"
    and hot: "ar_hotspots r = map hotspot_row (sort_key hotspot_order (ag_hotspots g))"
  shows "\<forall>h \<in> set (ar_hotspots r). hotspot_spec tbl ss h"
    "distinct (map (\<lambda>h. (hr_symbol h, hr_dso h)) (ar_hotspots r))"
    "(\<lambda>h. (hr_symbol h, hr_dso h)) ` set (ar_hotspots r) = (\<Union>s \<in> set ss. set (key_path tbl s))"
    "sorted (map (\<lambda>h. - hr_self_weight h) (ar_hotspots r))"
proof -
  have table: "ag_hotspots g = hotspot_table tbl ss" using assms(1) by (simp add: agg_inv_def)
  have key: "(hr_symbol (hotspot_row p), hr_dso (hotspot_row p)) = fst p" for p by (simp add: hotspot_row_def split: prod.split)
  show "\<forall>h \<in> set (ar_hotspots r). hotspot_spec tbl ss h"
    unfolding hot table using hotspot_row_spec hotspot_specI by fastforce
  show "distinct (map (\<lambda>h. (hr_symbol h, hr_dso h)) (ar_hotspots r))"
    unfolding hot table by (simp add: o_def key distinct_map_sort_key)
  have leaf: "hotspot_key (leaf_of tbl s) \<in> set (key_path tbl s)" if "s \<in> set ss" for s
    using sample_ok_frames(2) [of tbl s] assms(2) that by (simp add: key_path_def)
  have "(\<lambda>h. (hr_symbol h, hr_dso h)) ` set (ar_hotspots r) = fst ` set (hotspot_table tbl ss)"
    unfolding hot table by (simp add: image_image key)
  also have "\<dots> = (\<Union>s \<in> set ss. set (key_path tbl s))"
    unfolding hotspot_keys using leaf by (auto simp: insert_absorb)
  finally show "(\<lambda>h. (hr_symbol h, hr_dso h)) ` set (ar_hotspots r) = (\<Union>s \<in> set ss. set (key_path tbl s))" .
  have "sorted (map hotspot_order (sort_key hotspot_order (ag_hotspots g)))" by simp
  then have "sorted (map (\<lambda>p. - ha_self_weight (snd p)) (sort_key hotspot_order (ag_hotspots g)))"
    unfolding sorted_map by (rule sorted_wrt_mono_rel [rotated]) (auto simp: hotspot_order_def less_eq_prod_def)
  then show "sorted (map (\<lambda>h. - hr_self_weight h) (ar_hotspots r))"
    unfolding hot by (simp add: o_def hotspot_row_def case_prod_beta)
qed

section \<open>Printing a folded record\<close>

definition folded_line :: "pytext list \<Rightarrow> nat \<Rightarrow> pytext" where
  "folded_line symbols weight = join_with 59 symbols @ 32 # ascii (str_nat weight)"

definition plain_symbol :: "pytext \<Rightarrow> bool" where
  "plain_symbol w \<longleftrightarrow> w \<noteq> [] \<and> 59 \<notin> set w \<and> \<not> is_space (hd w) \<and> \<not> is_space (last w)"

lemma plain_strip: "plain_symbol w \<Longrightarrow> strip w = w"
  by (simp add: plain_symbol_def strip_def lstrip_id rstrip_id)

lemma join_last: "ws \<noteq> [] \<Longrightarrow> last ws \<noteq> [] \<Longrightarrow> join_with sep ws \<noteq> [] \<and> last (join_with sep ws) = last (last ws)"
proof (induction sep ws rule: join_with.induct)
  case (3 sep w v ws)
  then show ?case by (cases ws) auto
qed auto

lemma folded_line_rsplit:
  assumes "ws \<noteq> []" "\<forall>w \<in> set ws. plain_symbol w"
  shows "rsplit_word (folded_line ws n) = Some (join_with 59 ws, ascii (str_nat n))"
    "split_on 59 (join_with 59 ws) = ws"
proof -
  have last: "plain_symbol (last ws)" using assms by simp
  then have join: "join_with 59 ws \<noteq> []" "\<not> is_space (last (join_with 59 ws))"
    using join_last [OF assms(1), of 59] by (auto simp: plain_symbol_def)
  have digits: "\<forall>c \<in> set (ascii (str_nat n)). \<not> is_space c"
    using ascii_str_nat_digits by (fastforce simp: is_space_def)
  show "rsplit_word (folded_line ws n) = Some (join_with 59 ws, ascii (str_nat n))"
    unfolding folded_line_def using str_nat_nonempty [of n] digits join
    by (intro rsplit_word_append) (auto simp: ascii_def)
  show "split_on 59 (join_with 59 ws) = ws"
    using assms by (intro split_join) (auto simp: plain_symbol_def)
qed

lemma intern_symbols_room:
  assumes "frame_table_wf t" "frame_count t + int (length ws) \<le> rl_max_unique_frames lim"
  shows "\<exists>is u. intern_symbols lim ws t = Inr (is, u)"
  using assms
proof (induction ws arbitrary: t)
  case (Cons w ws)
  let ?u = "snd (intern (folded_frame (strip w)) t)"
  have count: "frame_count ?u \<le> frame_count t + 1" using frames.intern_count by blast
  then have "frame_table_wf ?u" "frame_count ?u + int (length ws) \<le> rl_max_unique_frames lim"
    using Cons.prems frames.intern_wf [OF Cons.prems(1)] by auto
  from Cons.IH [OF this] obtain "is" v where v: "intern_symbols lim ws ?u = Inr (is, v)" by blast
  have "frame_count ?u \<le> rl_max_unique_frames lim" using count Cons.prems(2) by simp
  then have "intern_frame lim (strip w) t = Inr (intern (folded_frame (strip w)) t)"
    by (simp add: intern_frame_def raise_if_def case_prod_beta)
  then show ?case using v by (simp add: case_prod_beta)
qed simp

section \<open>Concrete profiles\<close>

text \<open>Evaluation unfolds the sequencing into a case distinction, so that only the taken branch is evaluated.\<close>

lemma bindE_case [code_unfold]: "bindE m f = (case m of Inl e \<Rightarrow> Inl e | Inr x \<Rightarrow> f x)"
  by (cases m) simp_all

definition no_digits :: "nat \<Rightarrow> nat option" where
  "no_digits c = None"

definition sample_folded :: pytext where
  "sample_folded = ascii ''a;b 3'' @ [10] @ ascii ''a;c 4''"

definition two_frames :: frame_table where
  "two_frames = snd (intern (folded_frame (ascii ''b'')) (snd (intern (folded_frame (ascii ''a'')) frame_table_init)))"

definition two_samples :: "stack_sample list" where
  "two_samples = [sample_default [0, 1] 3, sample_default [0] 4]"

lemma default_limits_ok: "limits_ok resource_limits_default"
  unfolding limits_ok_def by code_simp

lemma two_samples_aggregate:
  obtains r where "aggregate resource_limits_default two_frames two_samples = Inr r" "length (ar_hotspots r) = 2"
    "length (ar_call_paths r) = 2"
proof -
  have "(case aggregate resource_limits_default two_frames two_samples of Inl _ \<Rightarrow> False
      | Inr r \<Rightarrow> length (ar_hotspots r) = 2 \<and> length (ar_call_paths r) = 2)" by code_simp
  then show thesis using that by (cases "aggregate resource_limits_default two_frames two_samples") auto
qed

lemma sample_folded_analysis:
  obtains r d where "analyze_folded resource_limits_default no_digits 11 sample_folded = Some (Inr (r, d))"
    "ar_total_weight r = 7" "pd_parsed_records d = 2"
proof -
  have "(case analyze_folded resource_limits_default no_digits 11 sample_folded of
      Some (Inr (r, d)) \<Rightarrow> ar_total_weight r = 7 \<and> pd_parsed_records d = 2 | _ \<Rightarrow> False)" by code_simp
  then show thesis using that by (auto split: option.splits sum.splits)
qed



section \<open>Properties\<close>

text \<open>
  Interning: the identity a frame gets resolves to that frame, identities given before
  still resolve to the same frames, and two identities that resolve to the same frame are equal.
\<close>

theorem intern_resolves:
  assumes "frame_table_wf t"
  shows "frame_table_wf (snd (intern k t)) \<and> resolve (snd (intern k t)) (fst (intern k t)) = Inr k \<and>
    (\<forall>i v. 0 \<le> i \<longrightarrow> resolve t i = Inr v \<longrightarrow> resolve (snd (intern k t)) i = Inr v) \<and>
    (\<forall>i j v. 0 \<le> i \<longrightarrow> 0 \<le> j \<longrightarrow> resolve t i = Inr v \<longrightarrow> resolve t j = Inr v \<longrightarrow> i = j)"
  using frames.intern_wf [OF assms] frames.resolve_interned [OF assms] frames.resolve_stable [OF assms]
    frames.resolve_injective [OF assms] by blast

theorem intern_resolves_witness:
  "frame_table_wf frame_table_init \<and>
   resolve (snd (intern (frame_default [97]) frame_table_init)) 0 = Inr (frame_default [97])"
proof -
  have "fst (intern (frame_default [97]) frame_table_init) = 0" by (simp add: intern_def frame_table_init_def)
  with intern_resolves [OF frame_table_init_wf, of "frame_default [97]"] show ?thesis by simp
qed

text \<open>
  The aggregator accepts a profile exactly when every sample has frames that resolve, all
  samples share one event, unit and weight source, and there are no more distinct call paths
  than the limit allows.
\<close>

theorem aggregate_accepts:
  assumes "resource_limits_post_init lim = Inr ()"
  shows "(\<exists>r. aggregate lim tbl ss = Inr r) \<longleftrightarrow>
    (\<forall>s \<in> set ss. ss_frames s \<noteq> [] \<and> (\<forall>i \<in> set (ss_frames s). \<exists>f. resolve tbl i = Inr f)) \<and>
    (\<forall>s \<in> set ss. \<forall>t \<in> set ss. sample_scope s = sample_scope t) \<and>
    int (card (key_path tbl ` set ss)) \<le> rl_max_unique_call_paths lim"
proof -
  have pos: "0 \<le> rl_max_unique_call_paths lim" using limits_okD(6) [of lim] assms by (simp add: limits_ok_def)
  have "(\<exists>r. aggregate lim tbl ss = Inr r) \<longleftrightarrow> aggregation_accepts lim tbl ss"
  proof
    assume "\<exists>r. aggregate lim tbl ss = Inr r"
    then show "aggregation_accepts lim tbl ss"
      using aggregation_run(1) [OF pos, of tbl ss] by (auto simp: aggregate_def)
  next
    assume ok: "aggregation_accepts lim tbl ss"
    then obtain g where g: "foldE (add_sample lim tbl) ss aggregator_init = Inr g"
      using aggregation_run(1) [OF pos] by blast
    have "\<forall>s \<in> set ss. sample_ok tbl s" using ok unfolding aggregation_accepts_def by blast
    with finish_total [OF aggregation_run(2) [OF pos g]] g show "\<exists>r. aggregate lim tbl ss = Inr r"
      by (simp add: aggregate_def)
  qed
  then show ?thesis by (simp only: aggregation_accepts_def sample_ok_def)
qed

theorem aggregate_accepts_witness:
  "(\<exists>r. aggregate resource_limits_default two_frames two_samples = Inr r) \<and>
   \<not> (\<exists>r. aggregate resource_limits_default two_frames [sample_default [] 1] = Inr r)"
proof -
  have lim: "resource_limits_post_init resource_limits_default = Inr ()" by code_simp
  obtain r where "aggregate resource_limits_default two_frames two_samples = Inr r" by (rule two_samples_aggregate)
  then show ?thesis
    using aggregate_accepts [OF lim, of two_frames "[sample_default [] 1]"] by auto
qed

text \<open>
  C27. Hotspot rows: there is exactly one row per symbol and object that occurs in a sample, in
  falling order of self weight; its self weight is the weight of the samples it is the leaf of,
  its inclusive weight and sample count are those of the samples it occurs in, each counted
  once however often it recurs, its thread count is the number of their threads, and its symbol
  variants are complete unless they are marked as truncated.
\<close>

theorem hotspots_exact:
  assumes "resource_limits_post_init lim = Inr ()" and "aggregate lim tbl ss = Inr r"
  shows "(\<forall>h \<in> set (ar_hotspots r). hotspot_spec tbl ss h) \<and>
    distinct (map (\<lambda>h. (hr_symbol h, hr_dso h)) (ar_hotspots r)) \<and>
    (\<lambda>h. (hr_symbol h, hr_dso h)) ` set (ar_hotspots r) = (\<Union>s \<in> set ss. set (key_path tbl s)) \<and>
    sorted (map (\<lambda>h. - hr_self_weight h) (ar_hotspots r))"
proof -
  have pos: "0 \<le> rl_max_unique_call_paths lim" using limits_okD(6) [of lim] assms(1) by (simp add: limits_ok_def)
  from assms(2) obtain g where g: "foldE (add_sample lim tbl) ss aggregator_init = Inr g"
    and hot: "ar_hotspots r = map hotspot_row (sort_key hotspot_order (ag_hotspots g))" by (rule aggregate_result)
  have "\<forall>s \<in> set ss. sample_ok tbl s"
    using aggregation_run(1) [OF pos, of tbl ss] g unfolding aggregation_accepts_def by blast
  from agg_rows [OF aggregation_run(2) [OF pos g] this hot] show ?thesis by blast
qed

theorem hotspots_exact_witness:
  "\<exists>r. aggregate resource_limits_default two_frames two_samples = Inr r \<and> length (ar_hotspots r) = 2 \<and>
     (\<forall>h \<in> set (ar_hotspots r). hotspot_spec two_frames two_samples h)"
proof -
  have lim: "resource_limits_post_init resource_limits_default = Inr ()" by code_simp
  obtain r where r: "aggregate resource_limits_default two_frames two_samples = Inr r" "length (ar_hotspots r) = 2"
    by (rule two_samples_aggregate)
  from hotspots_exact [OF lim r(1)] r show ?thesis by blast
qed



text \<open>
  C29. The analysis of a folded file always ends: one step per character and one for the end of
  the file are enough, and the only errors are the limits on input bytes, records, frames and
  call paths.
\<close>

theorem folded_analysis_ends:
  assumes "resource_limits_post_init lim = Inr ()"
  shows "\<exists>res. analyze_folded lim dec st_size text = Some res \<and>
    (\<forall>e. res = Inl e \<longrightarrow> (\<exists>stage message. e = PerfLensError RESOURCE_LIMIT_EXCEEDED stage message))"
proof (cases "st_size > rl_max_input_bytes lim")
  case True
  then show ?thesis by (simp add: analyze_folded_def folded_enter_def raise_if_def)
next
  case False
  have lim: "limits_ok lim" using assms by (simp add: limits_ok_def)
  have "length (fo_rest (folded_init lim text)) < Suc (length text)" by (simp add: folded_init_def)
  from folded_loop_ok [OF lim pipeline_inv_init [OF lim] this, of dec]
  obtain res where loop: "folded_loop lim dec (Suc (length text)) (folded_init lim text) aggregator_init = Some res"
    and ok: "ensures pipeline_error (\<lambda>(st, g). fo_rest st = [] \<and> (\<exists>ss. pipeline_inv lim text ss st g)) res" by blast
  show ?thesis
  proof (cases res)
    case (Inl e)
    with ok loop False show ?thesis
      by (auto simp: analyze_folded_def folded_enter_def raise_if_def pipeline_error_def folded_error_def)
  next
    case (Inr x)
    obtain st g where x: "x = (st, g)" by (cases x)
    with ok Inr obtain ss where "pipeline_inv lim text ss st g" by auto
    then obtain r where "finish_aggregation (fo_frame_table st) g = Inr r" using pipeline_finishes by blast
    with loop Inr x False show ?thesis by (simp add: analyze_folded_def folded_enter_def raise_if_def)
  qed
qed

theorem folded_analysis_ends_witness:
  "\<exists>res. analyze_folded resource_limits_default no_digits 11 sample_folded = Some res"
proof -
  have "resource_limits_post_init resource_limits_default = Inr ()" by code_simp
  from folded_analysis_ends [OF this] show ?thesis by blast
qed

text \<open>
  C26. The evidence checks always pass for a folded file: whatever the text, an analysis that
  completes has conserved self, call-path and context weights and as many records as the parser
  counted, so \<open>validate_aggregation_invariants\<close> does not raise.
\<close>

theorem folded_analysis_validates:
  assumes "resource_limits_post_init lim = Inr ()" and "analyze_folded lim dec st_size text = Some (Inr (r, d))"
  shows "validate_aggregation_invariants r d ''folded'' = Inr ()"
proof -
  have lim: "limits_ok lim" using assms(1) by (simp add: limits_ok_def)
  obtain ss st g where run: "pipeline_inv lim text ss st g" "d = fo_diagnostics st"
    "finish_aggregation (fo_frame_table st) g = Inr r"
    using lim assms(2) by (rule analyze_folded_result)
  then have inv: "agg_inv (fo_frame_table st) ss g" "pd_parsed_records d = int (length ss)"
    "\<forall>s \<in> set ss. sample_good lim (fo_frame_table st) s"
    by (simp_all add: pipeline_inv_def)
  have "\<forall>s \<in> set ss. 0 \<le> ss_weight s" using inv(3) by (auto simp: sample_good_def)
  then show ?thesis by (rule validation_passes [OF inv(1) run(3) _ inv(2)]) simp_all
qed

theorem folded_analysis_validates_witness:
  "\<exists>r d. analyze_folded resource_limits_default no_digits 11 sample_folded = Some (Inr (r, d)) \<and>
     ar_total_weight r = 7 \<and> validate_aggregation_invariants r d ''folded'' = Inr ()"
proof -
  have lim: "resource_limits_post_init resource_limits_default = Inr ()" by code_simp
  obtain r d where r: "analyze_folded resource_limits_default no_digits 11 sample_folded = Some (Inr (r, d))" "ar_total_weight r = 7"
    by (rule sample_folded_analysis)
  from folded_analysis_validates [OF lim r(1)] r show ?thesis by blast
qed

text \<open>
  The diagnostics of a completed parse account for the whole input: every byte and every
  undecodable byte of the text is counted, the limits on bytes and records hold, each malformed
  record gave one warning, and the list of warnings is cut at its limit and marked when cut.
\<close>

theorem folded_input_accounted:
  assumes "resource_limits_post_init lim = Inr ()" and "analyze_folded lim dec st_size text = Some (Inr (r, d))"
  shows "pd_bytes_read d = text_bytes text \<and> pd_bytes_read d \<le> rl_max_input_bytes lim \<and>
    pd_unicode_replacement_count d = escaped_bytes text \<and>
    pd_parsed_records d \<le> rl_max_records lim \<and> pd_warning_count d = pd_malformed_records d \<and>
    int (length (pd_warnings d)) = min (pd_warning_count d) (rl_max_warnings lim) \<and>
    (pd_warnings_truncated d \<longleftrightarrow> rl_max_warnings lim < pd_warning_count d)"
proof -
  have lim: "limits_ok lim" using assms(1) by (simp add: limits_ok_def)
  obtain ss st g where run: "pipeline_inv lim text ss st g" "fo_rest st = []" "d = fo_diagnostics st"
    using lim assms(2) by (rule analyze_folded_result)
  then have inv: "folded_inv lim text st" by (simp add: pipeline_inv_def)
  then have "pd_bytes_read d = text_bytes text" "pd_unicode_replacement_count d = escaped_bytes text"
    using run(2) by (auto simp: folded_inv_def progress_def run(3))
  moreover have "pd_bytes_read d \<le> rl_max_input_bytes lim" using inv by (simp add: folded_inv_def run(3))
  moreover have rec: "records_ok lim st" using inv by (simp add: folded_inv_def)
  then have "diagnostics_wf d" "pd_max_warnings d = rl_max_warnings lim" "pd_warning_count d = pd_malformed_records d"
    "pd_parsed_records d \<le> rl_max_records lim" by (simp_all add: records_ok_def Let_def run(3))
  ultimately show ?thesis by (auto simp: diagnostics_wf_def)
qed

theorem folded_input_accounted_witness:
  "\<exists>r d. analyze_folded resource_limits_default no_digits 11 sample_folded = Some (Inr (r, d)) \<and> pd_bytes_read d = 11"
proof -
  have lim: "resource_limits_post_init resource_limits_default = Inr ()" by code_simp
  obtain r d where r: "analyze_folded resource_limits_default no_digits 11 sample_folded = Some (Inr (r, d))"
    by (rule sample_folded_analysis)
  have "text_bytes sample_folded = 11" by code_simp
  with folded_input_accounted [OF lim r] r show ?thesis by auto
qed

text \<open>
  C30. Round trip of a folded record: the line printed for a list of symbols and a positive
  weight parses to one sample with that weight whose frames resolve to exactly these symbols,
  root first.
\<close>

theorem folded_record_roundtrip:
  assumes "symbols \<noteq> []" and "\<forall>w \<in> set symbols. plain_symbol w" and "int (length symbols) \<le> rl_max_stack_depth lim"
    and "0 < weight" and "length (str_nat weight) \<le> 4300" and "frame_table_wf (fo_frame_table st)"
    and "frame_count (fo_frame_table st) + int (length symbols) \<le> rl_max_unique_frames lim"
  shows "\<exists>frames t. parse_line lim dec (folded_line symbols weight) st =
      Inr (Some (sample_default frames (int weight)), st\<lparr>fo_frame_table := t\<rparr>) \<and>
    list_all2 (\<lambda>i w. resolve t i = Inr (folded_frame w)) frames symbols"
proof -
  obtain "is" u where run: "intern_symbols lim symbols (fo_frame_table st) = Inr (is, u)"
    using intern_symbols_room [OF assms(6,7)] by blast
  have "list_all2 (\<lambda>i w. 0 \<le> i \<and> resolve u i = Inr (folded_frame (strip w))) is symbols"
    using intern_symbols_ok [OF assms(6), of lim symbols] assms(7) run by simp
  then have frames: "list_all2 (\<lambda>i w. resolve u i = Inr (folded_frame w)) is symbols"
    using assms(2) plain_strip by (auto simp: list_all2_conv_all_nth)
  have nonblank: "\<not> (\<exists>w \<in> set symbols. strip w = [])"
    using assms(2) plain_strip by (auto simp: plain_symbol_def)
  have "parse_line lim dec (folded_line symbols weight) st =
      Inr (Some (sample_default is (int weight)), st\<lparr>fo_frame_table := u\<rparr>)"
    unfolding parse_line_def
    using folded_line_rsplit [OF assms(1,2)] py_int_str_nat [OF assms(5)] assms(1,3,4) nonblank run
    by (simp add: Let_def)
  with frames show ?thesis by blast
qed

theorem folded_record_roundtrip_witness:
  "\<exists>frames t. parse_line resource_limits_default no_digits (folded_line [ascii ''main'', ascii ''work''] 12)
      (folded_init resource_limits_default []) =
      Inr (Some (sample_default frames 12), (folded_init resource_limits_default [])\<lparr>fo_frame_table := t\<rparr>) \<and>
    length frames = 2"
proof -
  have symbols: "\<forall>w \<in> set [ascii ''main'', ascii ''work'']. plain_symbol w" by code_simp
  have weight: "length (str_nat 12) \<le> 4300" by code_simp
  have t: "frame_table_wf (fo_frame_table (folded_init resource_limits_default []))" by (simp add: folded_init_def)
  have "\<exists>frames t. parse_line resource_limits_default no_digits (folded_line [ascii ''main'', ascii ''work''] 12)
      (folded_init resource_limits_default []) =
      Inr (Some (sample_default frames (int 12)), (folded_init resource_limits_default [])\<lparr>fo_frame_table := t\<rparr>) \<and>
    list_all2 (\<lambda>i w. resolve t i = Inr (folded_frame w)) frames [ascii ''main'', ascii ''work'']"
    by (rule folded_record_roundtrip [OF _ symbols _ _ weight t])
      (simp_all add: resource_limits_default_def folded_init_def frame_table_init_def frame_count_def)
  then obtain frames t where "parse_line resource_limits_default no_digits (folded_line [ascii ''main'', ascii ''work''] 12)
      (folded_init resource_limits_default []) =
      Inr (Some (sample_default frames (int 12)), (folded_init resource_limits_default [])\<lparr>fo_frame_table := t\<rparr>)"
    "list_all2 (\<lambda>i w. resolve t i = Inr (folded_frame w)) frames [ascii ''main'', ascii ''work'']" by blast
  then show ?thesis by (intro exI [of _ frames] exI [of _ t]) (auto dest: list_all2_lengthD)
qed


end
