(* ===== verification/PyDateTime.thy ===== *)
theory PyDateTime
  imports PyText "HOL-Library.Code_Target_Nat"
begin

text \<open>
  The parts of Python's \<open>datetime\<close> module that the Docker session authority uses. A
  \<open>datetime\<close> is its local wall time, in microseconds from 0001-01-01T00:00:00, and its
  UTC offset in microseconds (\<open>None\<close> for a naive value). Aware values compare by the
  instant they denote, and \<open>isoformat\<close> is the text they print as.
\<close>

record datetime =
  dt_local :: int
  dt_offset :: "int option"

definition microseconds :: "int \<Rightarrow> int" where
  "microseconds s = 1000000 * s"

definition dt_instant :: "datetime \<Rightarrow> int" where
  "dt_instant d = dt_local d - (case dt_offset d of None \<Rightarrow> 0 | Some z \<Rightarrow> z)"

text \<open>The first microsecond after 9999-12-31T23:59:59.999999, the largest datetime.\<close>

definition dt_limit :: int where
  "dt_limit = microseconds (86400 * 3652059)"

text \<open>\<open>value + timedelta(seconds=s)\<close>.\<close>

definition dt_add_seconds :: "datetime \<Rightarrow> int \<Rightarrow> datetime result" where
  "dt_add_seconds d s =
     (let l = dt_local d + microseconds s in
      if 0 \<le> l \<and> l < dt_limit then Inr (d\<lparr>dt_local := l\<rparr>) else Inl OverflowError)"

text \<open>\<open>int((a - b).total_seconds())\<close>: the difference truncated towards zero to seconds.\<close>

definition dt_seconds_between :: "datetime \<Rightarrow> datetime \<Rightarrow> int" where
  "dt_seconds_between a b =
     (let d = dt_instant a - dt_instant b in if 0 \<le> d then d div 1000000 else - ((- d) div 1000000))"

section \<open>Text\<close>

definition days_before_month :: "int \<Rightarrow> int" where
  "days_before_month m = [0, 0, 31, 59, 90, 120, 151, 181, 212, 243, 273, 304, 334] ! nat m"

definition days_in_month :: "int \<Rightarrow> int" where
  "days_in_month m = [0, 31, 28, 31, 30, 31, 30, 31, 31, 30, 31, 30, 31] ! nat m"

text \<open>Year, month and day of a proleptic Gregorian day counted from 0001-01-01 as day 0.\<close>

definition civil_date :: "int \<Rightarrow> int \<times> int \<times> int" where
  "civil_date d =
     (let n400 = d div 146097; d = d mod 146097;
          n100 = d div 36524; d = d mod 36524;
          n4 = d div 1461; d = d mod 1461;
          n1 = d div 365; d = d mod 365;
          year = n400 * 400 + 1 + n100 * 100 + n4 * 4 + n1
      in if n1 = 4 \<or> n100 = 4 then (year - 1, 12, 31)
         else
           let leap = (n1 = 3 \<and> (n4 \<noteq> 24 \<or> n100 = 3));
               month = (d + 50) div 32;
               preceding = days_before_month month + (if month > 2 \<and> leap then 1 else 0)
           in if preceding > d
              then (year, month - 1,
                    d - (preceding - (days_in_month (month - 1) + (if month - 1 = 2 \<and> leap then 1 else 0))) + 1)
              else (year, month, d - preceding + 1))"

definition zero_padded :: "nat \<Rightarrow> int \<Rightarrow> string" where
  "zero_padded w n = (let t = str_int n in replicate (w - length t) CHR ''0'' @ t)"

text \<open>Hours, minutes and seconds of a non-negative number of microseconds below one day.\<close>

definition clock_fields :: "int \<Rightarrow> int \<times> int \<times> int \<times> int" where
  "clock_fields t = (let s = t div 1000000 in (s div 3600, s div 60 mod 60, s mod 60, t mod 1000000))"

definition offset_text :: "int \<Rightarrow> string" where
  "offset_text z =
     (let (h, m, s, us) = clock_fields \<bar>z\<bar> in
      (if z < 0 then ''-'' else ''+'') @ zero_padded 2 h @ '':'' @ zero_padded 2 m @
      (if s \<noteq> 0 \<or> us \<noteq> 0 then '':'' @ zero_padded 2 s else []) @
      (if us \<noteq> 0 then ''.'' @ zero_padded 6 us else []))"

definition isoformat :: "datetime \<Rightarrow> string" where
  "isoformat d =
     (let day = 86400000000;
          (y, mo, dd) = civil_date (dt_local d div day);
          (h, m, s, us) = clock_fields (dt_local d mod day)
      in zero_padded 4 y @ ''-'' @ zero_padded 2 mo @ ''-'' @ zero_padded 2 dd @ ''T'' @
         zero_padded 2 h @ '':'' @ zero_padded 2 m @ '':'' @ zero_padded 2 s @
         (if us \<noteq> 0 then ''.'' @ zero_padded 6 us else []) @
         (case dt_offset d of None \<Rightarrow> [] | Some z \<Rightarrow> offset_text z))"

section \<open>Facts\<close>

text \<open>Printed values of the first day, a leap day, the last day of a leap year and an offset with seconds.\<close>

lemma isoformat_vectors:
  "isoformat \<lparr>dt_local = 0, dt_offset = None\<rparr> = ''0001-01-01T00:00:00''"
  "isoformat \<lparr>dt_local = 63844786199000007, dt_offset = Some 0\<rparr> = ''2024-02-29T06:49:59.000007+00:00''"
  "isoformat \<lparr>dt_local = 63871200000000000, dt_offset = Some (- 16200000000)\<rparr>
     = ''2024-12-31T00:00:00-04:30''"
  "isoformat \<lparr>dt_local = 315537897599999999, dt_offset = Some 3601000000\<rparr>
     = ''9999-12-31T23:59:59.999999+01:00:01''"
  by code_simp+

lemma microseconds_mono [simp]: "microseconds a \<le> microseconds b \<longleftrightarrow> a \<le> b"
  by (simp add: microseconds_def)

lemma microseconds_less [simp]: "microseconds a < microseconds b \<longleftrightarrow> a < b"
  by (simp add: microseconds_def)

lemma dt_add_seconds_Inr:
  "dt_add_seconds d s = Inr e \<Longrightarrow> dt_instant e = dt_instant d + microseconds s \<and> dt_offset e = dt_offset d"
  by (auto simp: dt_add_seconds_def dt_instant_def Let_def split: if_splits option.splits)

lemma dt_add_seconds_error: "dt_add_seconds d s = Inl e \<Longrightarrow> e = OverflowError"
  by (auto simp: dt_add_seconds_def Let_def split: if_splits)

text \<open>The truncated number of seconds never reaches past the later instant.\<close>

lemma dt_seconds_between_le:
  assumes "dt_instant b \<le> dt_instant a"
  shows "dt_instant b + microseconds (dt_seconds_between a b) \<le> dt_instant a"
    and "0 \<le> dt_seconds_between a b"
  using assms by (auto simp: dt_seconds_between_def microseconds_def Let_def)

end
