(* ===== verification/ContractJson.thy ===== *)
theory ContractJson
  imports Sha256 PyDateTime
begin

text \<open>
  Content digests of contract artifacts (\<open>application/evidence.py\<close>): the canonical JSON text
  of what pydantic dumps of a model, hashed with SHA-256. \<open>json_dumps\<close> is \<open>json.dumps\<close> with
  \<open>ensure_ascii=False\<close>, sorted keys and the compact separators. A float is carried as the text
  Python prints for it.
\<close>

datatype json =
    JNull
  | JBool bool
  | JInt int
  | JFloat string
  | JString string
  | JArray "json list"
  | JObject "(string \<times> json) list"

definition json_char :: "char \<Rightarrow> string" where
  "json_char c =
     (if c = CHR 0x22 then [CHR 0x5C, CHR 0x22]
      else if c = CHR 0x5C then [CHR 0x5C, CHR 0x5C]
      else if c = CHR 0x0A then [CHR 0x5C, CHR ''n'']
      else if c = CHR 0x0D then [CHR 0x5C, CHR ''r'']
      else if c = CHR 0x09 then [CHR 0x5C, CHR ''t'']
      else if c = CHR 0x0C then [CHR 0x5C, CHR ''f'']
      else if c = CHR 0x08 then [CHR 0x5C, CHR ''b'']
      else if (of_char c :: int) < 32 then [CHR 0x5C] @ ''u00'' @ hex_byte (of_char c)
      else [c])"

definition json_string :: "string \<Rightarrow> string" where
  "json_string s = [CHR 0x22] @ concat (map json_char s) @ [CHR 0x22]"

fun comma_separated :: "string list \<Rightarrow> string" where
  "comma_separated [] = []"
| "comma_separated [t] = t"
| "comma_separated (t # ts) = t @ '','' @ comma_separated ts"

fun json_dumps :: "json \<Rightarrow> string" where
  "json_dumps JNull = ''null''"
| "json_dumps (JBool b) = (if b then ''true'' else ''false'')"
| "json_dumps (JInt i) = str_int i"
| "json_dumps (JFloat t) = t"
| "json_dumps (JString s) = json_string s"
| "json_dumps (JArray vs) = ''['' @ comma_separated (map json_dumps vs) @ '']''"
| "json_dumps (JObject kvs) =
     ''{'' @ comma_separated (map (\<lambda>(k, t). json_string k @ '':'' @ t)
       (sort_key fst (map (\<lambda>(k, v). (k, json_dumps v)) kvs))) @ ''}''"

text \<open>
  \<open>dump\<close> is the model's fields as \<open>model_dump(mode="json", exclude_none=True)\<close> gives them;
  \<open>exclude\<close> names the fields left out.
\<close>

definition contract_content_sha256 :: "(string \<times> json) list \<Rightarrow> string list \<Rightarrow> string" where
  "contract_content_sha256 dump exclude =
     sha256_hexdigest (utf8_encode (json_dumps (JObject (filter (\<lambda>(k, v). k \<notin> set exclude) dump))))"

section \<open>Digest text\<close>

text \<open>The pattern of a SHA-256 digest and of the identifiers made from one.\<close>

definition hex_text :: "nat \<Rightarrow> string \<Rightarrow> bool" where
  "hex_text n s \<longleftrightarrow> length s = n \<and> set s \<subseteq> set ''0123456789abcdef''"

definition is_ascii :: "string \<Rightarrow> bool" where
  "is_ascii s = list_all (\<lambda>c. (of_char c :: int) < 128) s"

text \<open>\<open>str.encode("ascii")\<close>; its exception is a \<open>ValueError\<close>.\<close>

definition encode_ascii :: "string \<Rightarrow> int list result" where
  "encode_ascii s = (if is_ascii s then Inr (map of_char s) else Inl (ValueError ''ascii codec''))"

text \<open>\<open>hmac.compare_digest\<close> on two strings refuses text outside ASCII.\<close>

definition compare_digest :: "string \<Rightarrow> string \<Rightarrow> bool result" where
  "compare_digest a b = (if is_ascii a \<and> is_ascii b then Inr (a = b) else Inl TypeError)"

lemma hex_digit_range: "0 \<le> n \<Longrightarrow> n < 16 \<Longrightarrow> hex_digit n \<in> set ''0123456789abcdef''"
  unfolding hex_digit_def by (rule nth_mem) simp

lemma hex_byte_range: "set (hex_byte n) \<subseteq> set ''0123456789abcdef''"
  using hex_digit_range [of "n div 16 mod 16"] hex_digit_range [of "n mod 16"]
  by (simp only: hex_byte_def list.set) simp

lemma length_sha256_round: "length st = 8 \<Longrightarrow> length (sha256_round kw st) = 8"
  by (cases "(kw, st)" rule: sha256_round.cases) (auto simp: Let_def)

lemma length_sha256_block: "length st = 8 \<Longrightarrow> length (sha256_block b st) = 8"
proof -
  assume st: "length st = 8"
  have "length (fold sha256_round ks s) = 8" if "length s = 8" for ks s
    using that by (induction ks arbitrary: s) (auto simp: length_sha256_round simp del: sha256_round.simps)
  with st show ?thesis by (simp add: sha256_block_def)
qed

lemma length_sha256_blocks: "length st = 8 \<Longrightarrow> length (sha256_blocks ws st) = 8"
proof (induction ws st rule: sha256_blocks.induct)
  case (1 ws st)
  then show ?case
    by (subst sha256_blocks.simps) (simp add: length_sha256_block)
qed

lemma hex_text_sha256 [simp]: "hex_text 64 (sha256_hexdigest m)"
proof -
  let ?f = "\<lambda>w :: w32. concat (map hex_byte (to_bytes_big 4 (uint w)))"
  have len: "length (?f w) = 8" for w
    by (simp add: length_concat hex_byte_def o_def sum_list_triv)
  have "length (concat (map ?f ws)) = 8 * length ws" for ws
    by (induction ws) (simp_all add: len del: concat_map_singleton)
  moreover have "length (sha256_blocks (be_words (sha256_pad m)) sha256_h0) = 8"
    by (rule length_sha256_blocks) (simp add: sha256_h0_def)
  moreover have "set (concat (map ?f ws)) \<subseteq> set ''0123456789abcdef''" for ws
    using hex_byte_range by fastforce
  ultimately show ?thesis
    unfolding hex_text_def sha256_hexdigest_def by simp
qed

lemma hex_text_take: "hex_text n s \<Longrightarrow> k \<le> n \<Longrightarrow> hex_text k (take k s)"
  unfolding hex_text_def using set_take_subset [of k s] by (simp add: subset_trans)

lemma hex_text_ascii: "hex_text n s \<Longrightarrow> is_ascii s"
  unfolding hex_text_def is_ascii_def list_all_iff by (auto dest!: subsetD)

lemma compare_digest_hex [simp]:
  "hex_text 64 a \<Longrightarrow> hex_text 64 b \<Longrightarrow> compare_digest a b = Inr (a = b)"
  by (simp add: compare_digest_def hex_text_ascii)

section \<open>ASCII text\<close>

lemma is_ascii_append [simp]: "is_ascii (s @ t) \<longleftrightarrow> is_ascii s \<and> is_ascii t"
  by (simp add: is_ascii_def)

lemma is_ascii_Nil [simp]: "is_ascii []"
  by (simp add: is_ascii_def)

lemma is_ascii_Cons [simp]: "is_ascii (c # s) \<longleftrightarrow> (of_char c :: int) < 128 \<and> is_ascii s"
  by (simp add: is_ascii_def)

lemma is_ascii_str_nat: "is_ascii (str_nat n)"
proof (induction n rule: str_nat.induct)
  case (1 n)
  have digit: "(of_char (char_of (48 + d mod 10 :: nat)) :: int) < 128" for d :: nat
  proof -
    have "(of_char (char_of (48 + d mod 10 :: nat)) :: int) = int (of_char (char_of (48 + d mod 10 :: nat)))"
      by (rule of_nat_of_char [symmetric])
    also have "\<dots> < 128" by simp
    finally show ?thesis .
  qed
  show ?case
  proof (cases "n < 10")
    case True
    then show ?thesis using digit [of n] by (simp add: str_nat.simps [of n])
  next
    case False
    then show ?thesis using 1 digit [of n] by (simp add: str_nat.simps [of n])
  qed
qed

lemma is_ascii_str_int [simp]: "is_ascii (str_int i)"
  by (simp add: str_int_def is_ascii_str_nat)

lemma is_ascii_zero_padded [simp]: "is_ascii (zero_padded w i)"
  by (simp add: zero_padded_def Let_def is_ascii_def [of "replicate _ _"] list_all_iff)

lemma is_ascii_isoformat [simp]: "is_ascii (isoformat d)"
  by (auto simp: isoformat_def offset_text_def Let_def split: prod.splits option.splits)

lemma is_ascii_comma_separated: "list_all is_ascii ts \<Longrightarrow> is_ascii (comma_separated ts)"
  by (induction ts rule: comma_separated.induct) auto

lemma mapE_encode_ascii: "list_all is_ascii ts \<Longrightarrow> mapE encode_ascii ts = Inr (map (map of_char) ts)"
  by (induction ts) (auto simp: encode_ascii_def)

end
