(* ===== verification/DockerContracts.thy ===== *)
theory DockerContracts
  imports ContractJson
begin

text \<open>
  The Docker session contract (\<open>contracts/docker.py\<close>) and the two contracts an authorization
  is made for. A \<open>ContainerOptimizationSessionArtifact\<close> exists only after \<open>model_validate\<close>:
  the declared field bounds and the model validator. Its two timestamps are texts that
  \<open>isoformat\<close> wrote and \<open>fromisoformat\<close> reads back; the model keeps the datetime they denote
  and prints it where the text is hashed. Pydantic's \<open>ValidationError\<close> is a \<open>ValueError\<close>.
\<close>

datatype docker_target_kind = Existing_container | Managed_temporary_container

datatype session_status = Active | Revoked | Expired | Exhausted

fun kind_text :: "docker_target_kind \<Rightarrow> string" where
  "kind_text Existing_container = ''existing_container''"
| "kind_text Managed_temporary_container = ''managed_temporary_container''"

fun status_text :: "session_status \<Rightarrow> string" where
  "status_text Active = ''active''"
| "status_text Revoked = ''revoked''"
| "status_text Expired = ''expired''"
| "status_text Exhausted = ''exhausted''"

record session_artifact =
  sa_session_id :: string
  sa_created_at :: datetime
  sa_expires_at :: datetime
  sa_target_kind :: docker_target_kind
  sa_authorization_mode :: string
  sa_project_identity_sha256 :: string
  sa_client_connection_identity_sha256 :: string
  sa_authorization_receipt_sha256 :: string
  sa_workload_spec_sha256 :: "string option"
  sa_existing_target_identity_sha256 :: "string option"
  sa_allowed_modes :: "string list"
  sa_state :: session_status
  sa_max_workload_runs :: int
  sa_workload_runs_used :: int
  sa_max_active_seconds :: int
  sa_active_seconds_used :: int
  sa_max_evidence_bytes :: int
  sa_evidence_bytes_used :: int
  sa_instance_count :: int
  sa_invalidation_reason :: "string option"
  sa_content_sha256 :: string

text \<open>
  The contracts of a target and of a workload: the fields the authority reads, and the whole
  dump that the content digest covers.
\<close>

record container_target =
  ct_target_kind :: docker_target_kind
  ct_identity_fingerprint :: string
  ct_content_sha256 :: string
  ct_dump :: "(string \<times> json) list"

record container_workload =
  cw_project_identity_sha256 :: string
  cw_allowed_modes :: "string list"
  cw_authorization_mode :: string
  cw_max_workload_runs :: int
  cw_max_active_seconds :: int
  cw_hard_expiry_seconds :: int
  cw_content_sha256 :: string
  cw_dump :: "(string \<times> json) list"

definition perflens_version :: string where
  "perflens_version = ''0.4.0''"

definition collection_modes :: "string list" where
  "collection_modes = [''stat'', ''record'', ''sched'', ''off_cpu'', ''lock'']"

definition authorization_modes :: "string list" where
  "authorization_modes = [''per_run'', ''bounded_session'']"

definition optional_field :: "string \<Rightarrow> string option \<Rightarrow> (string \<times> json) list" where
  "optional_field k v = (case v of None \<Rightarrow> [] | Some s \<Rightarrow> [(k, JString s)])"

definition session_dump :: "session_artifact \<Rightarrow> (string \<times> json) list" where
  "session_dump a =
     [(''schema_version'', JString ''1.0''),
      (''perflens_version'', JString perflens_version),
      (''session_id'', JString (sa_session_id a)),
      (''created_at'', JString (isoformat (sa_created_at a))),
      (''expires_at'', JString (isoformat (sa_expires_at a))),
      (''target_kind'', JString (kind_text (sa_target_kind a))),
      (''authorization_mode'', JString (sa_authorization_mode a)),
      (''project_identity_sha256'', JString (sa_project_identity_sha256 a)),
      (''client_connection_identity_sha256'', JString (sa_client_connection_identity_sha256 a)),
      (''authorization_receipt_sha256'', JString (sa_authorization_receipt_sha256 a))] @
     optional_field ''workload_spec_sha256'' (sa_workload_spec_sha256 a) @
     optional_field ''existing_target_identity_sha256'' (sa_existing_target_identity_sha256 a) @
     [(''allowed_modes'', JArray (map JString (sa_allowed_modes a))),
      (''state'', JString (status_text (sa_state a))),
      (''max_workload_runs'', JInt (sa_max_workload_runs a)),
      (''workload_runs_used'', JInt (sa_workload_runs_used a)),
      (''max_active_seconds'', JInt (sa_max_active_seconds a)),
      (''active_seconds_used'', JInt (sa_active_seconds_used a)),
      (''max_evidence_bytes'', JInt (sa_max_evidence_bytes a)),
      (''evidence_bytes_used'', JInt (sa_evidence_bytes_used a)),
      (''instance_count'', JInt (sa_instance_count a))] @
     optional_field ''invalidation_reason'' (sa_invalidation_reason a) @
     [(''content_sha256'', JString (sa_content_sha256 a))]"

text \<open>The field declarations: patterns, literals and bounds.\<close>

definition session_fields_ok :: "session_artifact \<Rightarrow> bool" where
  "session_fields_ok a \<longleftrightarrow>
     take 18 (sa_session_id a) = ''container-session-'' \<and> hex_text 20 (drop 18 (sa_session_id a)) \<and>
     sa_authorization_mode a \<in> set authorization_modes \<and>
     hex_text 64 (sa_project_identity_sha256 a) \<and>
     hex_text 64 (sa_client_connection_identity_sha256 a) \<and>
     hex_text 64 (sa_authorization_receipt_sha256 a) \<and>
     (case sa_workload_spec_sha256 a of None \<Rightarrow> True | Some h \<Rightarrow> hex_text 64 h) \<and>
     (case sa_existing_target_identity_sha256 a of None \<Rightarrow> True | Some h \<Rightarrow> hex_text 64 h) \<and>
     list_all (\<lambda>m. m \<in> set collection_modes) (sa_allowed_modes a) \<and>
     0 < sa_max_workload_runs a \<and> sa_max_workload_runs a \<le> 6 \<and>
     0 \<le> sa_workload_runs_used a \<and> sa_workload_runs_used a \<le> 6 \<and>
     0 < sa_max_active_seconds a \<and> sa_max_active_seconds a \<le> 1200 \<and>
     0 \<le> sa_active_seconds_used a \<and> sa_active_seconds_used a \<le> 1200 \<and>
     0 < sa_max_evidence_bytes a \<and> sa_max_evidence_bytes a \<le> 1099511627776 \<and>
     0 \<le> sa_evidence_bytes_used a \<and> sa_evidence_bytes_used a \<le> 1099511627776 \<and>
     0 \<le> sa_instance_count a \<and> sa_instance_count a \<le> 6 \<and>
     (case sa_invalidation_reason a of None \<Rightarrow> True | Some r \<Rightarrow> r \<noteq> [] \<and> length r \<le> 512) \<and>
     hex_text 64 (sa_content_sha256 a)"

definition timestamp_ok :: "datetime \<Rightarrow> string \<Rightarrow> unit result" where
  "timestamp_ok d label = raise_if (dt_offset d = None) (ValueError (label @ '' must include a timezone''))"

definition validate_session :: "session_artifact \<Rightarrow> unit result" where
  "validate_session a =
     bindE (case sa_target_kind a of
        Managed_temporary_container \<Rightarrow>
          raise_if (sa_workload_spec_sha256 a = None \<or> sa_existing_target_identity_sha256 a \<noteq> None)
            (ValueError ''managed Docker session must bind exactly one workload spec'')
      | Existing_container \<Rightarrow>
          raise_if (sa_existing_target_identity_sha256 a = None \<or> sa_workload_spec_sha256 a \<noteq> None)
            (ValueError ''existing Docker session must bind exactly one target identity'')) (\<lambda>_.
     bindE (raise_if (sa_authorization_mode a = ''per_run'' \<and> sa_max_workload_runs a \<noteq> 1)
        (ValueError ''per_run Docker authorization permits exactly one workload run'')) (\<lambda>_.
     bindE (timestamp_ok (sa_created_at a) ''created_at'') (\<lambda>_.
     bindE (timestamp_ok (sa_expires_at a) ''expires_at'') (\<lambda>_.
     bindE (raise_if (dt_instant (sa_created_at a) \<ge> dt_instant (sa_expires_at a))
        (ValueError ''Docker session expiry must be after creation'')) (\<lambda>_.
     bindE (raise_if (sa_workload_runs_used a > sa_max_workload_runs a)
        (ValueError ''Docker session workload budget is overdrawn'')) (\<lambda>_.
     bindE (raise_if (sa_active_seconds_used a > sa_max_active_seconds a)
        (ValueError ''Docker session active-time budget is overdrawn'')) (\<lambda>_.
     bindE (raise_if (sa_evidence_bytes_used a > sa_max_evidence_bytes a)
        (ValueError ''Docker session evidence budget is overdrawn'')) (\<lambda>_.
     bindE (raise_if (sa_state a = Active \<and> sa_invalidation_reason a \<noteq> None)
        (ValueError ''active Docker session cannot carry an invalidation reason'')) (\<lambda>_.
     raise_if (sa_state a \<noteq> Active \<and> sa_invalidation_reason a = None)
        (ValueError ''inactive Docker session must explain why it ended'')))))))))) "

text \<open>\<open>ContainerOptimizationSessionArtifact.model_validate\<close>.\<close>

definition model_validate :: "session_artifact \<Rightarrow> session_artifact result" where
  "model_validate a =
     bindE (raise_if (\<not> session_fields_ok a) (ValueError ''validation error'')) (\<lambda>_.
     bindE (validate_session a) (\<lambda>_. Inr a))"

section \<open>Facts\<close>

definition artifact_ok :: "session_artifact \<Rightarrow> bool" where
  "artifact_ok a \<longleftrightarrow> session_fields_ok a \<and> validate_session a = Inr ()"

lemma validate_session_Inr:
  "validate_session a = Inr u \<longleftrightarrow>
     (case sa_target_kind a of
        Managed_temporary_container \<Rightarrow>
          sa_workload_spec_sha256 a \<noteq> None \<and> sa_existing_target_identity_sha256 a = None
      | Existing_container \<Rightarrow>
          sa_existing_target_identity_sha256 a \<noteq> None \<and> sa_workload_spec_sha256 a = None) \<and>
     (sa_authorization_mode a = ''per_run'' \<longrightarrow> sa_max_workload_runs a = 1) \<and>
     dt_offset (sa_created_at a) \<noteq> None \<and> dt_offset (sa_expires_at a) \<noteq> None \<and>
     dt_instant (sa_created_at a) < dt_instant (sa_expires_at a) \<and>
     sa_workload_runs_used a \<le> sa_max_workload_runs a \<and>
     sa_active_seconds_used a \<le> sa_max_active_seconds a \<and>
     sa_evidence_bytes_used a \<le> sa_max_evidence_bytes a \<and>
     (sa_state a = Active \<longleftrightarrow> sa_invalidation_reason a = None)"
  by (cases "sa_target_kind a") (auto simp: validate_session_def timestamp_ok_def)

lemma model_validate_Inr [simp]: "model_validate a = Inr b \<longleftrightarrow> artifact_ok a \<and> b = a"
  by (auto simp: model_validate_def artifact_ok_def)

text \<open>A managed session is bound to its workload, an existing one to its target.\<close>

definition session_binding :: "session_artifact \<Rightarrow> string option" where
  "session_binding a =
     (if sa_target_kind a = Managed_temporary_container then sa_workload_spec_sha256 a
      else sa_existing_target_identity_sha256 a)"

lemma artifact_ok_binding: "artifact_ok a \<Longrightarrow> \<exists>b. session_binding a = Some b \<and> hex_text 64 b"
  by (cases "sa_target_kind a")
     (auto simp: artifact_ok_def session_binding_def validate_session_Inr session_fields_ok_def)

end
