(* ===== verification/DockerSession.thy ===== *)
theory DockerSession
  imports DockerContracts
begin

text \<open>
  The in-memory Docker authorization sessions of \<open>docker/session.py\<close>. An operation takes the
  authority and gives its result or exception together with the authority it leaves behind:
  what an operation changed before it raised stays changed. Every public method holds the
  authority's lock for its whole body after argument checks, so one call is one step.

  The clocks and the random source are the parameter \<open>docker_env\<close>. \<open>au_reads\<close> counts the
  readings made so far, and reading number \<open>n\<close> of the wall clock is \<open>env_wall_clock env n\<close>, so time
  may pass, jump or go back between any two readings. The monotonic clock is in nanoseconds;
  the rounding of Python's float seconds is not modelled.
\<close>

record docker_env =
  env_wall_clock :: "nat \<Rightarrow> datetime"
  env_monotonic_clock :: "nat \<Rightarrow> int"
  env_token_urlsafe :: "nat \<Rightarrow> string"
  env_token_bytes :: "nat \<Rightarrow> int list"

record session_access =
  ac_session_id :: string
  ac_token :: string

record docker_run_lease =
  rl_lease_id :: string
  rl_session_id :: string
  rl_run_number :: int
  rl_target_kind :: docker_target_kind
  rl_binding_sha256 :: string
  rl_allowed_modes :: "string list"
  rl_reserved_active_seconds :: int
  rl_reserved_evidence_bytes :: int
  rl_expires_at :: string
  rl_token :: string

record active_lease =
  ls_lease_id :: string
  ls_token_sha256 :: string
  ls_binding_sha256 :: string
  ls_allowed_modes :: "string list"
  ls_reserved_active_seconds :: int
  ls_reserved_evidence_bytes :: int
  ls_wall_expires_at :: datetime
  ls_monotonic_expires_at :: int

record session_state =
  ss_artifact :: session_artifact
  ss_token_sha256 :: string
  ss_policy_identity_sha256 :: string
  ss_monotonic_expires_at :: int
  ss_active_lease :: "active_lease option"

record authority =
  au_max_sessions :: int
  au_sessions :: "(string, session_state) dict"
  au_reads :: nat

type_synonym 'a session_op = "authority \<Rightarrow> 'a result \<times> authority"

section \<open>Operations in sequence\<close>

definition returnS :: "'a \<Rightarrow> 'a session_op" where
  "returnS x s = (Inr x, s)"

definition liftS :: "'a result \<Rightarrow> 'a session_op" where
  "liftS r s = (r, s)"

definition bindS :: "'a session_op \<Rightarrow> ('a \<Rightarrow> 'b session_op) \<Rightarrow> 'b session_op" where
  "bindS m f s = (case m s of (Inl e, t) \<Rightarrow> (Inl e, t) | (Inr x, t) \<Rightarrow> f x t)"

definition raiseS :: "py_error \<Rightarrow> 'a session_op" where
  "raiseS e s = (Inl e, s)"

definition guardS :: "bool \<Rightarrow> py_error \<Rightarrow> unit session_op" where
  "guardS b e = (if b then raiseS e else returnS ())"

definition whenS :: "bool \<Rightarrow> unit session_op \<Rightarrow> unit session_op" where
  "whenS b m = (if b then m else returnS ())"

fun forS :: "('a \<Rightarrow> unit session_op) \<Rightarrow> 'a list \<Rightarrow> unit session_op" where
  "forS f [] = returnS ()"
| "forS f (x # xs) = bindS (f x) (\<lambda>_. forS f xs)"

definition getS :: "(authority \<Rightarrow> 'a) \<Rightarrow> 'a session_op" where
  "getS f s = (Inr (f s), s)"

definition readS :: "(nat \<Rightarrow> 'a) \<Rightarrow> 'a session_op" where
  "readS f s = (Inr (f (au_reads s)), s\<lparr>au_reads := au_reads s + 1\<rparr>)"

text \<open>The session object stored under a key, and an assignment to its fields.\<close>

definition loadS :: "string \<Rightarrow> session_state session_op" where
  "loadS sid s = ((case map_of (au_sessions s) sid of None \<Rightarrow> Inl KeyError | Some st \<Rightarrow> Inr st), s)"

definition storeS :: "string \<Rightarrow> session_state \<Rightarrow> unit session_op" where
  "storeS sid st s = (Inr (), s\<lparr>au_sessions := dict_set sid st (au_sessions s)\<rparr>)"

definition modifyS :: "string \<Rightarrow> (session_state \<Rightarrow> session_state) \<Rightarrow> unit session_op" where
  "modifyS sid f = bindS (loadS sid) (\<lambda>st. storeS sid (f st))"

section \<open>Constants and small helpers\<close>

definition explicit_docker_session_authorization :: string where
  "explicit_docker_session_authorization =
     ''I_EXPLICITLY_AUTHORIZE_THIS_BOUNDED_DOCKER_PERFORMANCE_SESSION''"

definition canonical_modes :: "string list" where
  "canonical_modes = [''stat'', ''record'', ''sched'', ''off_cpu'', ''lock'']"

definition max_hard_expiry_seconds :: int where
  "max_hard_expiry_seconds = 7200"

definition lease_grace_seconds :: int where
  "lease_grace_seconds = 120"

definition nanoseconds :: "int \<Rightarrow> int" where
  "nanoseconds s = 1000000000 * s"

definition authorization_error :: "string \<Rightarrow> py_error" where
  "authorization_error message = PerfLensError PATH_SAFETY_VIOLATION ''docker_authorization'' message"

definition resource_error :: "string \<Rightarrow> py_error" where
  "resource_error message = PerfLensError RESOURCE_LIMIT_EXCEEDED ''docker_authorization'' message"

definition bounded_reason :: "string \<Rightarrow> string" where
  "bounded_reason value =
     (let normalized = map char_of (strip (ascii value)) in
      if normalized = [] then ''Docker session ended.'' else take 512 normalized)"

definition secret_sha256 :: "string \<Rightarrow> string" where
  "secret_sha256 value = sha256_hexdigest (utf8_encode value)"

definition validate_sha256 :: "string \<Rightarrow> string \<Rightarrow> unit result" where
  "validate_sha256 value label =
     raise_if (length value \<noteq> 64 \<or> list_ex (\<lambda>c. c \<notin> set ''0123456789abcdef'') value)
       (authorization_error (label @ '' must be a SHA-256 digest''))"

fun list_index :: "'a list \<Rightarrow> 'a \<Rightarrow> nat" where
  "list_index [] x = 0"
| "list_index (y # ys) x = (if x = y then 0 else Suc (list_index ys x))"

definition validate_modes :: "string list \<Rightarrow> string list result" where
  "validate_modes modes =
     bindE (raise_if (modes = [] \<or> \<not> distinct modes)
        (authorization_error ''Docker authorization modes must be non-empty and unique'')) (\<lambda>_.
     bindE (raise_if (list_ex (\<lambda>m. m \<notin> set canonical_modes) modes)
        (authorization_error ''Docker authorization contains an unsupported mode'')) (\<lambda>_.
     bindE (raise_if (modes \<noteq> sort_key (list_index canonical_modes) modes)
        (authorization_error ''Docker authorization modes must use canonical order'')) (\<lambda>_.
     Inr modes)))"

definition verify_contract_content :: "(string \<times> json) list \<Rightarrow> string \<Rightarrow> unit result" where
  "verify_contract_content dump content_sha256 =
     bindE (compare_digest (contract_content_sha256 dump [''content_sha256'']) content_sha256) (\<lambda>same.
     raise_if (\<not> same) (authorization_error ''Docker authorization input content digest does not match''))"

definition with_content_sha256 :: "session_artifact \<Rightarrow> session_artifact result" where
  "with_content_sha256 a =
     model_validate (a\<lparr>sa_content_sha256 := contract_content_sha256 (session_dump a) [''content_sha256'']\<rparr>)"

definition updated_artifact ::
    "session_artifact \<Rightarrow> (session_artifact \<Rightarrow> session_artifact) \<Rightarrow> session_artifact result" where
  "updated_artifact a updates =
     bindE (model_validate ((updates a)\<lparr>sa_content_sha256 := replicate 64 CHR ''0''\<rparr>)) with_content_sha256"

section \<open>Clocks and expiry\<close>

definition wall_now :: "docker_env \<Rightarrow> datetime session_op" where
  "wall_now env =
     bindS (readS (env_wall_clock env)) (\<lambda>value.
     bindS (guardS (dt_offset value = None)
       (ValueError ''Docker session wall clock must be timezone-aware'')) (\<lambda>_.
     returnS value))"

definition monotonic_now :: "docker_env \<Rightarrow> int session_op" where
  "monotonic_now env = readS (env_monotonic_clock env)"

definition past_deadline :: "docker_env \<Rightarrow> datetime \<Rightarrow> int \<Rightarrow> bool session_op" where
  "past_deadline env wall_deadline monotonic_deadline =
     bindS (wall_now env) (\<lambda>now.
     if dt_instant now \<ge> dt_instant wall_deadline then returnS True
     else bindS (monotonic_now env) (\<lambda>mono. returnS (mono \<ge> monotonic_deadline)))"

definition session_expired :: "docker_env \<Rightarrow> session_state \<Rightarrow> bool session_op" where
  "session_expired env st = past_deadline env (sa_expires_at (ss_artifact st)) (ss_monotonic_expires_at st)"

definition lease_expired :: "docker_env \<Rightarrow> active_lease \<Rightarrow> bool session_op" where
  "lease_expired env lease = past_deadline env (ls_wall_expires_at lease) (ls_monotonic_expires_at lease)"

definition end_session :: "string \<Rightarrow> session_status \<Rightarrow> string \<Rightarrow> unit session_op" where
  "end_session sid state_name reason =
     bindS (loadS sid) (\<lambda>st.
     bindS (liftS (updated_artifact (ss_artifact st) (\<lambda>a.
       a\<lparr>sa_state := state_name, sa_invalidation_reason := Some (bounded_reason reason)\<rparr>))) (\<lambda>a.
     storeS sid (st\<lparr>ss_artifact := a\<rparr>)))"

definition drop_lease :: "string \<Rightarrow> unit session_op" where
  "drop_lease sid = modifyS sid (\<lambda>st. st\<lparr>ss_active_lease := None\<rparr>)"

definition expire_session :: "string \<Rightarrow> unit session_op" where
  "expire_session sid =
     bindS (end_session sid Expired ''Docker session reached its hard expiry.'') (\<lambda>_. drop_lease sid)"

fun prune_loop :: "int \<Rightarrow> string list \<Rightarrow> (string, session_state) dict \<Rightarrow> (string, session_state) dict" where
  "prune_loop limit [] sessions = sessions"
| "prune_loop limit (sid # inactive) sessions =
     (if int (length sessions) \<ge> limit then prune_loop limit inactive (dict_pop sid sessions) else sessions)"

definition inactive_sessions :: "authority \<Rightarrow> string list" where
  "inactive_sessions s = map fst (filter (\<lambda>(sid, st). sa_state (ss_artifact st) \<noteq> Active) (au_sessions s))"

definition prune_one :: "docker_env \<Rightarrow> string \<Rightarrow> unit session_op" where
  "prune_one env sid =
     bindS (loadS sid) (\<lambda>st.
     if sa_state (ss_artifact st) = Active
     then bindS (session_expired env st) (\<lambda>expired. whenS expired (expire_session sid))
     else returnS ())"

definition drop_inactive :: "unit session_op" where
  "drop_inactive s =
     (Inr (), s\<lparr>au_sessions := prune_loop (au_max_sessions s) (inactive_sessions s) (au_sessions s)\<rparr>)"

definition prune_inactive :: "docker_env \<Rightarrow> unit session_op" where
  "prune_inactive env =
     bindS (getS (\<lambda>s. map fst (au_sessions s))) (\<lambda>sids.
     bindS (forS (prune_one env) sids) (\<lambda>_. drop_inactive))"

section \<open>Access checks\<close>

definition require_session :: "docker_env \<Rightarrow> session_access \<Rightarrow> bool \<Rightarrow> session_state session_op" where
  "require_session env access allow_inactive =
     (let sid = ac_session_id access in
      bindS (getS (\<lambda>s. map_of (au_sessions s) sid)) (\<lambda>found.
      bindS (liftS (case found of None \<Rightarrow> Inr False
          | Some st \<Rightarrow> compare_digest (ss_token_sha256 st) (secret_sha256 (ac_token access)))) (\<lambda>known.
      bindS (guardS (\<not> known) (authorization_error ''Docker session access is invalid'')) (\<lambda>_.
      bindS (loadS sid) (\<lambda>st.
      bindS (if sa_state (ss_artifact st) = Active
             then bindS (session_expired env st) (\<lambda>expired. whenS expired (expire_session sid))
             else returnS ()) (\<lambda>_.
      bindS (loadS sid) (\<lambda>st.
      bindS (guardS (\<not> allow_inactive \<and> sa_state (ss_artifact st) \<noteq> Active)
        (authorization_error ''Docker session is no longer active'')) (\<lambda>_.
      bindS (case ss_active_lease st of
          None \<Rightarrow> returnS ()
        | Some lease \<Rightarrow>
            bindS (lease_expired env lease) (\<lambda>expired.
            whenS expired
              (bindS (end_session sid Expired ''Docker run lease expired.'') (\<lambda>_.
               bindS (drop_lease sid) (\<lambda>_.
               raiseS (authorization_error ''Docker run lease expired'')))))) (\<lambda>_.
      loadS sid)))))))))"

text \<open>\<open>any\<close> over the four comparisons, which stops at the first that fails.\<close>

fun any_mismatch :: "(string \<times> string option) list \<Rightarrow> bool result" where
  "any_mismatch [] = Inr False"
| "any_mismatch ((actual, expected) # checks) =
     (case expected of
        None \<Rightarrow> Inr True
      | Some e \<Rightarrow> bindE (compare_digest actual e) (\<lambda>same. if same then any_mismatch checks else Inr True))"

definition assert_session_context ::
    "string \<Rightarrow> string \<Rightarrow> string \<Rightarrow> string \<Rightarrow> string \<Rightarrow> unit session_op" where
  "assert_session_context sid project client policy binding =
     bindS (loadS sid) (\<lambda>st.
     let artifact = ss_artifact st;
         expected_binding = session_binding artifact;
         checks =
           [(project, Some (sa_project_identity_sha256 artifact)),
            (client, Some (sa_client_connection_identity_sha256 artifact)),
            (policy, Some (ss_policy_identity_sha256 st)),
            (binding, expected_binding)]
     in bindS (liftS (any_mismatch checks)) (\<lambda>changed.
        whenS changed
          (bindS (end_session sid Revoked ''Docker session binding or policy changed.'') (\<lambda>_.
           bindS (drop_lease sid) (\<lambda>_.
           raiseS (authorization_error ''Docker session binding or policy changed''))))))"

definition require_lease :: "docker_env \<Rightarrow> string \<Rightarrow> docker_run_lease \<Rightarrow> active_lease session_op" where
  "require_lease env sid lease =
     bindS (loadS sid) (\<lambda>st.
     case ss_active_lease st of
       None \<Rightarrow> raiseS (authorization_error ''Docker run lease is invalid or already consumed'')
     | Some active \<Rightarrow>
         bindS (liftS
           (if rl_session_id lease \<noteq> sa_session_id (ss_artifact st)
               \<or> rl_lease_id lease \<noteq> ls_lease_id active
               \<or> rl_binding_sha256 lease \<noteq> ls_binding_sha256 active
            then Inr False
            else compare_digest (ls_token_sha256 active) (secret_sha256 (rl_token lease)))) (\<lambda>valid.
         bindS (guardS (\<not> valid)
           (authorization_error ''Docker run lease is invalid or already consumed'')) (\<lambda>_.
         bindS (lease_expired env active) (\<lambda>expired.
         bindS (whenS expired
           (bindS (end_session sid Expired ''Docker run lease expired.'') (\<lambda>_.
            bindS (drop_lease sid) (\<lambda>_.
            raiseS (authorization_error ''Docker run lease expired''))))) (\<lambda>_.
         returnS active)))))"

section \<open>Authorization\<close>

text \<open>The receipt digests the nonce and the authorized terms, joined with zero bytes.\<close>

fun zero_joined :: "int list list \<Rightarrow> int list" where
  "zero_joined [] = []"
| "zero_joined [b] = b"
| "zero_joined (b # bs) = b @ 0 # zero_joined bs"

definition authorization_receipt :: "int list \<Rightarrow> string list \<Rightarrow> string result" where
  "authorization_receipt nonce terms =
     bindE (mapE encode_ascii terms) (\<lambda>parts. Inr (sha256_hexdigest (zero_joined (nonce # parts))))"

text \<open>The part of \<open>_authorize\<close> that makes and stores the session, once there is room for it.\<close>

definition create_session ::
    "docker_env \<Rightarrow> docker_target_kind \<Rightarrow> string \<Rightarrow> string \<Rightarrow> string \<Rightarrow> string \<Rightarrow> string list \<Rightarrow>
     string option \<Rightarrow> string option \<Rightarrow> int \<Rightarrow> int \<Rightarrow> int \<Rightarrow> int \<Rightarrow> (session_artifact \<times> session_access) session_op" where
  "create_session env target_kind authorization_mode project client policy allowed_modes
     workload_spec existing_target max_workload_runs max_active_seconds max_evidence_bytes hard_expiry_seconds =
     bindS (wall_now env) (\<lambda>now.
     bindS (monotonic_now env) (\<lambda>mono.
     bindS (readS (env_token_urlsafe env)) (\<lambda>token.
     bindS (readS (env_token_bytes env)) (\<lambda>nonce.
     bindS (liftS (case (if workload_spec = None \<or> workload_spec = Some [] then existing_target else workload_spec) of
         None \<Rightarrow> Inl AssertionError | Some b \<Rightarrow> Inr b)) (\<lambda>binding.
     bindS (liftS (authorization_receipt nonce
       [kind_text target_kind, authorization_mode, project, client, policy, binding,
        comma_separated allowed_modes, str_int max_workload_runs, str_int max_active_seconds,
        str_int max_evidence_bytes, isoformat now])) (\<lambda>receipt.
     let sid = ''container-session-'' @ take 20 (sha256_hexdigest (nonce @ map of_char receipt)) in
     bindS (liftS (dt_add_seconds now hard_expiry_seconds)) (\<lambda>expires_at.
     bindS (liftS (bindE (model_validate
       \<lparr>sa_session_id = sid, sa_created_at = now, sa_expires_at = expires_at,
        sa_target_kind = target_kind, sa_authorization_mode = authorization_mode,
        sa_project_identity_sha256 = project, sa_client_connection_identity_sha256 = client,
        sa_authorization_receipt_sha256 = receipt, sa_workload_spec_sha256 = workload_spec,
        sa_existing_target_identity_sha256 = existing_target, sa_allowed_modes = allowed_modes,
        sa_state = Active, sa_max_workload_runs = max_workload_runs, sa_workload_runs_used = 0,
        sa_max_active_seconds = max_active_seconds, sa_active_seconds_used = 0,
        sa_max_evidence_bytes = max_evidence_bytes, sa_evidence_bytes_used = 0,
        sa_instance_count = 0, sa_invalidation_reason = None,
        sa_content_sha256 = replicate 64 CHR ''0''\<rparr>) with_content_sha256)) (\<lambda>artifact.
     bindS (storeS sid
       \<lparr>ss_artifact = artifact, ss_token_sha256 = secret_sha256 token, ss_policy_identity_sha256 = policy,
        ss_monotonic_expires_at = mono + nanoseconds hard_expiry_seconds, ss_active_lease = None\<rparr>) (\<lambda>_.
     returnS (artifact, \<lparr>ac_session_id = sid, ac_token = token\<rparr>))))))))))"

text \<open>The part of \<open>_authorize\<close> that holds the lock.\<close>

definition admit_session ::
    "docker_env \<Rightarrow> docker_target_kind \<Rightarrow> string \<Rightarrow> string \<Rightarrow> string \<Rightarrow> string \<Rightarrow> string list \<Rightarrow>
     string option \<Rightarrow> string option \<Rightarrow> int \<Rightarrow> int \<Rightarrow> int \<Rightarrow> int \<Rightarrow> (session_artifact \<times> session_access) session_op" where
  "admit_session env target_kind authorization_mode project client policy allowed_modes
     workload_spec existing_target max_workload_runs max_active_seconds max_evidence_bytes hard_expiry_seconds =
     bindS (prune_inactive env) (\<lambda>_.
     bindS (getS (\<lambda>s. int (length (au_sessions s)) \<ge> au_max_sessions s)) (\<lambda>full.
     bindS (guardS full (resource_error ''Docker in-memory session capacity is exhausted'')) (\<lambda>_.
     create_session env target_kind authorization_mode project client policy allowed_modes
       workload_spec existing_target max_workload_runs max_active_seconds max_evidence_bytes
       hard_expiry_seconds)))"

text \<open>\<open>_authorize\<close>: the argument checks, then admission.\<close>

definition authorize_session ::
    "docker_env \<Rightarrow> docker_target_kind \<Rightarrow> string \<Rightarrow> string \<Rightarrow> string \<Rightarrow> string \<Rightarrow> string list \<Rightarrow> string \<Rightarrow>
     string option \<Rightarrow> string option \<Rightarrow> int \<Rightarrow> int \<Rightarrow> int \<Rightarrow> int \<Rightarrow> (session_artifact \<times> session_access) session_op" where
  "authorize_session env target_kind authorization_mode project client policy allowed_modes
     explicit_authorization workload_spec existing_target max_workload_runs max_active_seconds
     max_evidence_bytes hard_expiry_seconds =
     bindS (guardS (explicit_authorization \<noteq> explicit_docker_session_authorization)
       (authorization_error ''Docker session requires explicit bounded authorization'')) (\<lambda>_.
     bindS (guardS (authorization_mode \<notin> set authorization_modes)
       (authorization_error ''Docker authorization mode is invalid'')) (\<lambda>_.
     bindS (liftS (checkE (\<lambda>(value, label). validate_sha256 value label)
       [(project, ''project identity''), (client, ''client connection identity''),
        (policy, ''Collector policy identity'')])) (\<lambda>_.
     bindS (guardS (\<not> (1 \<le> max_workload_runs \<and> max_workload_runs \<le> 6))
       (resource_error ''Docker workload run budget is outside the fixed bound'')) (\<lambda>_.
     bindS (guardS (\<not> (1 \<le> max_active_seconds \<and> max_active_seconds \<le> 1200))
       (resource_error ''Docker active-time budget is outside the fixed bound'')) (\<lambda>_.
     bindS (guardS (\<not> (1 \<le> max_evidence_bytes \<and> max_evidence_bytes \<le> 1099511627776))
       (resource_error ''Docker evidence budget is outside the fixed bound'')) (\<lambda>_.
     bindS (guardS (\<not> (1 \<le> hard_expiry_seconds \<and> hard_expiry_seconds \<le> max_hard_expiry_seconds))
       (resource_error ''Docker hard expiry is outside the fixed bound'')) (\<lambda>_.
     admit_session env target_kind authorization_mode project client policy allowed_modes
       workload_spec existing_target max_workload_runs max_active_seconds max_evidence_bytes
       hard_expiry_seconds)))))))"

definition authorize_existing_target ::
    "docker_env \<Rightarrow> container_target \<Rightarrow> string \<Rightarrow> string \<Rightarrow> string \<Rightarrow> string list \<Rightarrow> string \<Rightarrow> string \<Rightarrow>
     int \<Rightarrow> int \<Rightarrow> int \<Rightarrow> int \<Rightarrow> (session_artifact \<times> session_access) session_op" where
  "authorize_existing_target env target project client policy allowed_modes authorization_mode
     explicit_authorization max_workload_runs max_active_seconds max_evidence_bytes hard_expiry_seconds =
     bindS (liftS (verify_contract_content (ct_dump target) (ct_content_sha256 target))) (\<lambda>_.
     bindS (guardS (ct_target_kind target \<noteq> Existing_container)
       (authorization_error ''Existing-container authorization received another target'')) (\<lambda>_.
     bindS (liftS (validate_modes allowed_modes)) (\<lambda>modes.
     authorize_session env Existing_container authorization_mode project client policy modes
       explicit_authorization None (Some (ct_identity_fingerprint target))
       (if authorization_mode = ''per_run'' then 1 else max_workload_runs)
       max_active_seconds max_evidence_bytes hard_expiry_seconds)))"

definition authorize_managed_workload ::
    "docker_env \<Rightarrow> container_workload \<Rightarrow> string \<Rightarrow> string \<Rightarrow> string \<Rightarrow> int \<Rightarrow>
     (session_artifact \<times> session_access) session_op" where
  "authorize_managed_workload env workload client policy explicit_authorization max_evidence_bytes =
     bindS (liftS (verify_contract_content (cw_dump workload) (cw_content_sha256 workload))) (\<lambda>_.
     bindS (liftS (validate_modes (cw_allowed_modes workload))) (\<lambda>modes.
     authorize_session env Managed_temporary_container (cw_authorization_mode workload)
       (cw_project_identity_sha256 workload) client policy modes explicit_authorization
       (Some (cw_content_sha256 workload)) None
       (if cw_authorization_mode workload = ''per_run'' then 1 else cw_max_workload_runs workload)
       (cw_max_active_seconds workload) max_evidence_bytes (cw_hard_expiry_seconds workload)))"

section \<open>Runs\<close>

definition exhaust :: "string \<Rightarrow> string \<Rightarrow> string \<Rightarrow> unit session_op" where
  "exhaust sid reason message =
     bindS (end_session sid Exhausted reason) (\<lambda>_. raiseS (resource_error message))"

text \<open>The guards of \<open>begin_run\<close> on the session it found, in their order.\<close>

definition begin_guards :: "string \<Rightarrow> string list \<Rightarrow> int \<Rightarrow> int \<Rightarrow> unit session_op" where
  "begin_guards sid modes reserve_active_seconds reserve_evidence_bytes =
     bindS (loadS sid) (\<lambda>st.
     let artifact = ss_artifact st in
     bindS (guardS (ss_active_lease st \<noteq> None)
       (resource_error ''Docker session already has an active workload run'')) (\<lambda>_.
     bindS (guardS (list_ex (\<lambda>mode. mode \<notin> set (sa_allowed_modes artifact)) modes)
       (authorization_error ''Docker run requests a mode outside session authorization'')) (\<lambda>_.
     bindS (whenS (sa_workload_runs_used artifact \<ge> sa_max_workload_runs artifact)
       (exhaust sid ''Docker workload run budget was exhausted.''
          ''Docker workload run budget is exhausted'')) (\<lambda>_.
     bindS (whenS (sa_active_seconds_used artifact + reserve_active_seconds > sa_max_active_seconds artifact)
       (exhaust sid ''Docker active-time budget was exhausted.''
          ''Docker active-time budget is exhausted'')) (\<lambda>_.
     whenS (sa_evidence_bytes_used artifact + reserve_evidence_bytes > sa_max_evidence_bytes artifact)
       (exhaust sid ''Docker evidence budget was exhausted.''
          ''Docker evidence budget is exhausted''))))))"

definition lease_seconds :: "int \<Rightarrow> datetime \<Rightarrow> datetime \<Rightarrow> int" where
  "lease_seconds reserve_active_seconds expires_at now =
     min (reserve_active_seconds + lease_grace_seconds) (max 1 (dt_seconds_between expires_at now))"

text \<open>The rest of \<open>begin_run\<close>: the lease is stored first, then the budgets are reserved.\<close>

definition grant_run ::
    "docker_env \<Rightarrow> string \<Rightarrow> string \<Rightarrow> string list \<Rightarrow> int \<Rightarrow> int \<Rightarrow> docker_run_lease session_op" where
  "grant_run env sid binding modes reserve_active_seconds reserve_evidence_bytes =
     bindS (loadS sid) (\<lambda>st.
     let artifact = ss_artifact st;
         run_number = sa_workload_runs_used artifact + 1 in
     bindS (readS (env_token_urlsafe env)) (\<lambda>token.
     bindS (readS (env_token_bytes env)) (\<lambda>nonce.
     bindS (wall_now env) (\<lambda>now.
     let seconds = lease_seconds reserve_active_seconds (sa_expires_at artifact) now in
     bindS (whenS (seconds \<le> 0)
       (bindS (expire_session sid) (\<lambda>_.
        raiseS (authorization_error ''Docker session expired before the workload run'')))) (\<lambda>_.
     bindS (liftS (encode_ascii (sa_session_id artifact))) (\<lambda>sid_bytes.
     let lease_id = ''docker-lease-'' @ take 20 (sha256_hexdigest (nonce @ sid_bytes)) in
     bindS (liftS (dt_add_seconds now seconds)) (\<lambda>wall_expires.
     bindS (monotonic_now env) (\<lambda>mono.
     bindS (modifyS sid (\<lambda>st. st\<lparr>ss_active_lease := Some
       \<lparr>ls_lease_id = lease_id, ls_token_sha256 = secret_sha256 token, ls_binding_sha256 = binding,
        ls_allowed_modes = modes, ls_reserved_active_seconds = reserve_active_seconds,
        ls_reserved_evidence_bytes = reserve_evidence_bytes, ls_wall_expires_at = wall_expires,
        ls_monotonic_expires_at = mono + nanoseconds seconds\<rparr>\<rparr>)) (\<lambda>_.
     bindS (liftS (updated_artifact artifact (\<lambda>a.
       a\<lparr>sa_workload_runs_used := run_number,
         sa_active_seconds_used := sa_active_seconds_used artifact + reserve_active_seconds,
         sa_evidence_bytes_used := sa_evidence_bytes_used artifact + reserve_evidence_bytes,
         sa_instance_count :=
           (if sa_target_kind artifact = Managed_temporary_container
            then sa_instance_count artifact + 1 else max (sa_instance_count artifact) 1)\<rparr>))) (\<lambda>updated.
     bindS (modifyS sid (\<lambda>st. st\<lparr>ss_artifact := updated\<rparr>)) (\<lambda>_.
     returnS
       \<lparr>rl_lease_id = lease_id, rl_session_id = sa_session_id artifact, rl_run_number = run_number,
        rl_target_kind = sa_target_kind artifact, rl_binding_sha256 = binding, rl_allowed_modes = modes,
        rl_reserved_active_seconds = reserve_active_seconds,
        rl_reserved_evidence_bytes = reserve_evidence_bytes,
        rl_expires_at = isoformat wall_expires, rl_token = token\<rparr>)))))))))))"

definition begin_run ::
    "docker_env \<Rightarrow> session_access \<Rightarrow> string \<Rightarrow> string \<Rightarrow> string \<Rightarrow> string \<Rightarrow> string list \<Rightarrow> int \<Rightarrow> int \<Rightarrow>
     docker_run_lease session_op" where
  "begin_run env access project client policy binding requested_modes reserve_active_seconds reserve_evidence_bytes =
     bindS (liftS (validate_modes requested_modes)) (\<lambda>modes.
     bindS (liftS (validate_sha256 binding ''Docker run binding'')) (\<lambda>_.
     bindS (guardS (reserve_active_seconds \<le> 0 \<or> reserve_evidence_bytes \<le> 0)
       (resource_error ''Docker run reservation must be positive'')) (\<lambda>_.
     bindS (require_session env access False) (\<lambda>_.
     let sid = ac_session_id access in
     bindS (assert_session_context sid project client policy binding) (\<lambda>_.
     bindS (begin_guards sid modes reserve_active_seconds reserve_evidence_bytes) (\<lambda>_.
     grant_run env sid binding modes reserve_active_seconds reserve_evidence_bytes))))))"

definition assert_run_current ::
    "docker_env \<Rightarrow> session_access \<Rightarrow> docker_run_lease \<Rightarrow> string \<Rightarrow> string \<Rightarrow> string \<Rightarrow> string \<Rightarrow> string \<Rightarrow>
     session_artifact session_op" where
  "assert_run_current env access lease project client policy binding mode =
     bindS (require_session env access False) (\<lambda>_.
     let sid = ac_session_id access in
     bindS (assert_session_context sid project client policy binding) (\<lambda>_.
     bindS (require_lease env sid lease) (\<lambda>active.
     bindS (guardS (mode \<notin> set (ls_allowed_modes active))
       (authorization_error ''Collection mode is outside the active Docker run lease'')) (\<lambda>_.
     bindS (loadS sid) (\<lambda>st. returnS (ss_artifact st))))))"

definition budget_spent :: "session_artifact \<Rightarrow> bool" where
  "budget_spent a \<longleftrightarrow>
     sa_authorization_mode a = ''per_run''
     \<or> sa_workload_runs_used a \<ge> sa_max_workload_runs a
     \<or> sa_active_seconds_used a \<ge> sa_max_active_seconds a
     \<or> sa_evidence_bytes_used a \<ge> sa_max_evidence_bytes a"

text \<open>The rest of \<open>finish_run\<close>, for the lease it found.\<close>

definition settle_run :: "string \<Rightarrow> active_lease \<Rightarrow> int \<Rightarrow> int \<Rightarrow> session_artifact session_op" where
  "settle_run sid active actual_active_seconds actual_evidence_bytes =
     bindS (whenS (actual_active_seconds > ls_reserved_active_seconds active
                   \<or> actual_evidence_bytes > ls_reserved_evidence_bytes active)
       (bindS (end_session sid Exhausted ''Docker run exceeded its reserved resource budget.'') (\<lambda>_.
        bindS (drop_lease sid) (\<lambda>_.
        raiseS (resource_error ''Docker run exceeded its reserved resource budget''))))) (\<lambda>_.
     bindS (loadS sid) (\<lambda>st.
     let artifact = ss_artifact st in
     bindS (drop_lease sid) (\<lambda>_.
     bindS (liftS (updated_artifact artifact (\<lambda>a.
       a\<lparr>sa_active_seconds_used :=
           sa_active_seconds_used artifact - ls_reserved_active_seconds active + actual_active_seconds,
         sa_evidence_bytes_used :=
           sa_evidence_bytes_used artifact - ls_reserved_evidence_bytes active + actual_evidence_bytes\<rparr>))) (\<lambda>updated.
     bindS (modifyS sid (\<lambda>st. st\<lparr>ss_artifact := updated\<rparr>)) (\<lambda>_.
     bindS (whenS (budget_spent updated)
       (end_session sid Exhausted ''Docker authorization budget was exhausted.'')) (\<lambda>_.
     bindS (loadS sid) (\<lambda>st. returnS (ss_artifact st))))))))"

definition finish_run ::
    "docker_env \<Rightarrow> session_access \<Rightarrow> docker_run_lease \<Rightarrow> int \<Rightarrow> int \<Rightarrow> session_artifact session_op" where
  "finish_run env access lease actual_active_seconds actual_evidence_bytes =
     bindS (guardS (actual_active_seconds < 0 \<or> actual_evidence_bytes < 0)
       (resource_error ''Docker run actual resource use cannot be negative'')) (\<lambda>_.
     bindS (require_session env access False) (\<lambda>_.
     bindS (require_lease env (ac_session_id access) lease) (\<lambda>active.
     settle_run (ac_session_id access) active actual_active_seconds actual_evidence_bytes)))"

section \<open>Revocation\<close>

definition revoke :: "docker_env \<Rightarrow> session_access \<Rightarrow> session_artifact session_op" where
  "revoke env access =
     bindS (require_session env access True) (\<lambda>st.
     let sid = ac_session_id access in
     bindS (whenS (sa_state (ss_artifact st) = Active)
       (end_session sid Revoked ''Docker session was explicitly revoked.'')) (\<lambda>_.
     bindS (drop_lease sid) (\<lambda>_.
     bindS (loadS sid) (\<lambda>st. returnS (ss_artifact st)))))"

definition revoke_one :: "string \<Rightarrow> unit session_op" where
  "revoke_one sid =
     bindS (end_session sid Revoked ''Docker client connection ended.'') (\<lambda>_. drop_lease sid)"

definition client_sessions :: "string \<Rightarrow> authority \<Rightarrow> string list" where
  "client_sessions client s =
     map fst (filter (\<lambda>(sid, st). sa_state (ss_artifact st) = Active \<and>
       sa_client_connection_identity_sha256 (ss_artifact st) = client) (au_sessions s))"

text \<open>
  The loop visits each session once and changes only the one it visits, so the sessions it
  revokes are those that match before it starts.
\<close>

definition revoke_client_connection :: "string \<Rightarrow> string list session_op" where
  "revoke_client_connection client =
     bindS (liftS (validate_sha256 client ''client connection identity'')) (\<lambda>_.
     bindS (getS (client_sessions client)) (\<lambda>revoked.
     bindS (forS revoke_one revoked) (\<lambda>_.
     returnS (sort revoked))))"

definition snapshot :: "docker_env \<Rightarrow> session_access \<Rightarrow> session_artifact session_op" where
  "snapshot env access =
     bindS (require_session env access True) (\<lambda>st. returnS (ss_artifact st))"

definition new_authority :: "int \<Rightarrow> authority result" where
  "new_authority max_sessions =
     bindE (raise_if (\<not> (1 \<le> max_sessions \<and> max_sessions \<le> 64))
       (ValueError ''Docker session capacity is outside the fixed bound'')) (\<lambda>_.
     Inr \<lparr>au_max_sessions = max_sessions, au_sessions = [], au_reads = 0\<rparr>)"

end
