(* ===== verification/DockerSessionProofs.thy ===== *)
theory DockerSessionProofs
  imports DockerSession
begin

text \<open>
  The life of one session as an inductive step relation (a run is granted, a run is finished,
  the session ends), the invariant of a session that every step keeps, and weakest
  preconditions of session operations, by which each operation of the authority is shown to
  move only the session it is called for, along those steps.
\<close>

section \<open>Sealed artifacts\<close>

definition content_digest :: "session_artifact \<Rightarrow> string" where
  "content_digest a = contract_content_sha256 (session_dump a) [''content_sha256'']"

definition seal :: "session_artifact \<Rightarrow> session_artifact" where
  "seal a = a\<lparr>sa_content_sha256 := content_digest a\<rparr>"

lemma content_digest_update [simp]: "content_digest (a\<lparr>sa_content_sha256 := h\<rparr>) = content_digest a"
  by (simp add: content_digest_def contract_content_sha256_def session_dump_def optional_field_def)

lemma content_digest_seal [simp]: "content_digest (seal a) = content_digest a"
  by (simp add: seal_def)

lemma hex_content_digest [simp]: "hex_text 64 (content_digest a)"
  by (simp add: content_digest_def contract_content_sha256_def)

lemma seal_fields [simp]:
  "sa_session_id (seal a) = sa_session_id a" "sa_created_at (seal a) = sa_created_at a"
  "sa_expires_at (seal a) = sa_expires_at a" "sa_target_kind (seal a) = sa_target_kind a"
  "sa_authorization_mode (seal a) = sa_authorization_mode a"
  "sa_project_identity_sha256 (seal a) = sa_project_identity_sha256 a"
  "sa_client_connection_identity_sha256 (seal a) = sa_client_connection_identity_sha256 a"
  "sa_authorization_receipt_sha256 (seal a) = sa_authorization_receipt_sha256 a"
  "sa_workload_spec_sha256 (seal a) = sa_workload_spec_sha256 a"
  "sa_existing_target_identity_sha256 (seal a) = sa_existing_target_identity_sha256 a"
  "sa_allowed_modes (seal a) = sa_allowed_modes a" "sa_state (seal a) = sa_state a"
  "sa_max_workload_runs (seal a) = sa_max_workload_runs a"
  "sa_workload_runs_used (seal a) = sa_workload_runs_used a"
  "sa_max_active_seconds (seal a) = sa_max_active_seconds a"
  "sa_active_seconds_used (seal a) = sa_active_seconds_used a"
  "sa_max_evidence_bytes (seal a) = sa_max_evidence_bytes a"
  "sa_evidence_bytes_used (seal a) = sa_evidence_bytes_used a"
  "sa_instance_count (seal a) = sa_instance_count a"
  "sa_invalidation_reason (seal a) = sa_invalidation_reason a"
  "sa_content_sha256 (seal a) = content_digest a"
  by (simp_all add: seal_def)

lemma session_binding_seal [simp]: "session_binding (seal a) = session_binding a"
  by (simp add: session_binding_def)

lemma hex_zeros [simp]: "hex_text 64 (replicate 64 CHR ''0'')"
  by (simp add: hex_text_def)

lemma artifact_ok_content:
  "hex_text 64 h \<Longrightarrow> hex_text 64 (sa_content_sha256 a) \<Longrightarrow>
     artifact_ok (a\<lparr>sa_content_sha256 := h\<rparr>) = artifact_ok a"
  by (cases "sa_target_kind a") (simp_all add: artifact_ok_def session_fields_ok_def validate_session_Inr)

lemma artifact_ok_hex: "artifact_ok a \<Longrightarrow> hex_text 64 (sa_content_sha256 a)"
  by (simp add: artifact_ok_def session_fields_ok_def)

lemma artifact_ok_seal: "artifact_ok a \<Longrightarrow> artifact_ok (seal a)"
  by (simp add: seal_def artifact_ok_content artifact_ok_hex)

lemma updated_artifact_eq:
  assumes "artifact_ok (updates a)"
  shows "updated_artifact a updates = Inr (seal (updates a))"
proof -
  have "artifact_ok ((updates a)\<lparr>sa_content_sha256 := replicate 64 CHR ''0''\<rparr>)"
    using assms by (simp add: artifact_ok_content artifact_ok_hex)
  then show ?thesis
    using artifact_ok_seal [OF assms]
    by (simp add: updated_artifact_def with_content_sha256_def model_validate_def artifact_ok_def
        seal_def content_digest_def [symmetric])
qed

section \<open>The life of a session\<close>

definition ended :: "session_status \<Rightarrow> string \<Rightarrow> session_artifact \<Rightarrow> session_artifact" where
  "ended status reason a =
     seal (a\<lparr>sa_state := status, sa_invalidation_reason := Some (bounded_reason reason)\<rparr>)"

definition reserved :: "active_lease \<Rightarrow> session_artifact \<Rightarrow> session_artifact" where
  "reserved l a =
     seal (a\<lparr>sa_workload_runs_used := sa_workload_runs_used a + 1,
       sa_active_seconds_used := sa_active_seconds_used a + ls_reserved_active_seconds l,
       sa_evidence_bytes_used := sa_evidence_bytes_used a + ls_reserved_evidence_bytes l,
       sa_instance_count :=
         (if sa_target_kind a = Managed_temporary_container
          then sa_instance_count a + 1 else max (sa_instance_count a) 1)\<rparr>)"

definition settled :: "active_lease \<Rightarrow> int \<Rightarrow> int \<Rightarrow> session_artifact \<Rightarrow> session_artifact" where
  "settled l seconds bytes a =
     seal (a\<lparr>sa_active_seconds_used := sa_active_seconds_used a - ls_reserved_active_seconds l + seconds,
       sa_evidence_bytes_used := sa_evidence_bytes_used a - ls_reserved_evidence_bytes l + bytes\<rparr>)"

definition lease_fits :: "session_artifact \<Rightarrow> active_lease \<Rightarrow> bool" where
  "lease_fits a l \<longleftrightarrow>
     0 < ls_reserved_active_seconds l \<and> 0 < ls_reserved_evidence_bytes l \<and>
     set (ls_allowed_modes l) \<subseteq> set (sa_allowed_modes a) \<and>
     session_binding a = Some (ls_binding_sha256 l) \<and> hex_text 64 (ls_token_sha256 l)"

inductive session_step :: "session_state \<Rightarrow> session_state \<Rightarrow> bool" where
  grant: "sa_state (ss_artifact st) = Active \<Longrightarrow> ss_active_lease st = None \<Longrightarrow>
    lease_fits (ss_artifact st) l \<Longrightarrow>
    sa_workload_runs_used (ss_artifact st) < sa_max_workload_runs (ss_artifact st) \<Longrightarrow>
    sa_active_seconds_used (ss_artifact st) + ls_reserved_active_seconds l \<le> sa_max_active_seconds (ss_artifact st) \<Longrightarrow>
    sa_evidence_bytes_used (ss_artifact st) + ls_reserved_evidence_bytes l \<le> sa_max_evidence_bytes (ss_artifact st) \<Longrightarrow>
    session_step st (st\<lparr>ss_artifact := reserved l (ss_artifact st), ss_active_lease := Some l\<rparr>)"
| settle: "sa_state (ss_artifact st) = Active \<Longrightarrow> ss_active_lease st = Some l \<Longrightarrow>
    0 \<le> seconds \<Longrightarrow> seconds \<le> ls_reserved_active_seconds l \<Longrightarrow>
    0 \<le> bytes \<Longrightarrow> bytes \<le> ls_reserved_evidence_bytes l \<Longrightarrow>
    session_step st (st\<lparr>ss_artifact := settled l seconds bytes (ss_artifact st), ss_active_lease := None\<rparr>)"
| finish: "sa_state (ss_artifact st) = Active \<Longrightarrow> status \<noteq> Active \<Longrightarrow>
    session_step st (st\<lparr>ss_artifact := ended status reason (ss_artifact st), ss_active_lease := None\<rparr>)"

lemma session_step_active: "session_step st st' \<Longrightarrow> sa_state (ss_artifact st) = Active"
  by (cases rule: session_step.cases)

abbreviation session_steps :: "session_state \<Rightarrow> session_state \<Rightarrow> bool" where
  "session_steps \<equiv> session_step\<^sup>*\<^sup>*"

text \<open>What holds of a stored session between two calls.\<close>

definition session_ok :: "string \<Rightarrow> session_state \<Rightarrow> bool" where
  "session_ok sid st \<longleftrightarrow>
     artifact_ok (ss_artifact st) \<and> sa_session_id (ss_artifact st) = sid \<and>
     sa_content_sha256 (ss_artifact st) = content_digest (ss_artifact st) \<and>
     hex_text 64 (ss_token_sha256 st) \<and> hex_text 64 (ss_policy_identity_sha256 st) \<and>
     sa_instance_count (ss_artifact st) \<le> sa_workload_runs_used (ss_artifact st) \<and>
     (case ss_active_lease st of None \<Rightarrow> True
      | Some l \<Rightarrow> sa_state (ss_artifact st) = Active \<and> lease_fits (ss_artifact st) l \<and>
          1 \<le> sa_workload_runs_used (ss_artifact st) \<and>
          ls_reserved_active_seconds l \<le> sa_active_seconds_used (ss_artifact st) \<and>
          ls_reserved_evidence_bytes l \<le> sa_evidence_bytes_used (ss_artifact st))"

lemma bounded_reason_ok [simp]: "bounded_reason r \<noteq> []" "length (bounded_reason r) \<le> 512"
  by (auto simp: bounded_reason_def Let_def)

lemmas artifact_ok_defs = artifact_ok_def session_fields_ok_def validate_session_Inr

lemma ended_artifact_ok:
  "artifact_ok a \<Longrightarrow> status \<noteq> Active \<Longrightarrow>
     artifact_ok (a\<lparr>sa_state := status, sa_invalidation_reason := Some (bounded_reason reason)\<rparr>)"
  by (cases "sa_target_kind a") (simp_all add: artifact_ok_defs)

lemma reserved_artifact_ok:
  assumes "artifact_ok a" "lease_fits a l" "sa_instance_count a \<le> sa_workload_runs_used a"
    "sa_workload_runs_used a < sa_max_workload_runs a"
    "sa_active_seconds_used a + ls_reserved_active_seconds l \<le> sa_max_active_seconds a"
    "sa_evidence_bytes_used a + ls_reserved_evidence_bytes l \<le> sa_max_evidence_bytes a"
  shows "artifact_ok (a\<lparr>sa_workload_runs_used := sa_workload_runs_used a + 1,
       sa_active_seconds_used := sa_active_seconds_used a + ls_reserved_active_seconds l,
       sa_evidence_bytes_used := sa_evidence_bytes_used a + ls_reserved_evidence_bytes l,
       sa_instance_count :=
         (if sa_target_kind a = Managed_temporary_container
          then sa_instance_count a + 1 else max (sa_instance_count a) 1)\<rparr>)"
  using assms by (cases "sa_target_kind a") (simp_all add: artifact_ok_defs lease_fits_def)

lemma settled_artifact_ok:
  assumes "artifact_ok a" "0 \<le> seconds" "seconds \<le> ls_reserved_active_seconds l"
    "0 \<le> bytes" "bytes \<le> ls_reserved_evidence_bytes l"
    "ls_reserved_active_seconds l \<le> sa_active_seconds_used a"
    "ls_reserved_evidence_bytes l \<le> sa_evidence_bytes_used a"
  shows "artifact_ok (a\<lparr>sa_active_seconds_used := sa_active_seconds_used a - ls_reserved_active_seconds l + seconds,
       sa_evidence_bytes_used := sa_evidence_bytes_used a - ls_reserved_evidence_bytes l + bytes\<rparr>)"
  using assms by (cases "sa_target_kind a") (simp_all add: artifact_ok_defs)

lemma updated_reserved:
  assumes "artifact_ok a" "lease_fits a l" "sa_instance_count a \<le> sa_workload_runs_used a"
    "sa_workload_runs_used a < sa_max_workload_runs a"
    "sa_active_seconds_used a + ls_reserved_active_seconds l \<le> sa_max_active_seconds a"
    "sa_evidence_bytes_used a + ls_reserved_evidence_bytes l \<le> sa_max_evidence_bytes a"
  shows "updated_artifact a (\<lambda>b. b\<lparr>sa_workload_runs_used := sa_workload_runs_used a + 1,
       sa_active_seconds_used := sa_active_seconds_used a + ls_reserved_active_seconds l,
       sa_evidence_bytes_used := sa_evidence_bytes_used a + ls_reserved_evidence_bytes l,
       sa_instance_count :=
         (if sa_target_kind a = Managed_temporary_container
          then sa_instance_count a + 1 else max (sa_instance_count a) 1)\<rparr>) = Inr (reserved l a)"
  unfolding reserved_def by (rule updated_artifact_eq) (rule reserved_artifact_ok [OF assms])

lemma updated_settled:
  assumes "artifact_ok a" "0 \<le> seconds" "seconds \<le> ls_reserved_active_seconds l"
    "0 \<le> bytes" "bytes \<le> ls_reserved_evidence_bytes l"
    "ls_reserved_active_seconds l \<le> sa_active_seconds_used a"
    "ls_reserved_evidence_bytes l \<le> sa_evidence_bytes_used a"
  shows "updated_artifact a (\<lambda>b. b\<lparr>sa_active_seconds_used := sa_active_seconds_used a - ls_reserved_active_seconds l + seconds,
       sa_evidence_bytes_used := sa_evidence_bytes_used a - ls_reserved_evidence_bytes l + bytes\<rparr>)
     = Inr (settled l seconds bytes a)"
  unfolding settled_def by (rule updated_artifact_eq) (rule settled_artifact_ok [OF assms])

lemma session_step_ok: "session_step st st' \<Longrightarrow> session_ok sid st \<Longrightarrow> session_ok sid st'"
proof (induction rule: session_step.induct)
  case (grant st l)
  then have "artifact_ok (reserved l (ss_artifact st))"
    unfolding reserved_def by (intro artifact_ok_seal reserved_artifact_ok) (auto simp: session_ok_def)
  with grant show ?case
    by (auto simp: session_ok_def reserved_def lease_fits_def session_binding_def artifact_ok_defs)
next
  case (settle st l seconds bytes)
  then have "artifact_ok (settled l seconds bytes (ss_artifact st))"
    unfolding settled_def by (intro artifact_ok_seal settled_artifact_ok) (auto simp: session_ok_def)
  with settle show ?case by (simp add: session_ok_def settled_def)
next
  case (finish st status reason)
  then have "artifact_ok (ended status reason (ss_artifact st))"
    unfolding ended_def by (intro artifact_ok_seal ended_artifact_ok) (auto simp: session_ok_def)
  with finish show ?case by (simp add: session_ok_def ended_def)
qed

lemma session_steps_ok: "session_steps st st' \<Longrightarrow> session_ok sid st \<Longrightarrow> session_ok sid st'"
  by (induction rule: rtranclp_induct) (blast intro: session_step_ok)+

end
