(* ===== verification/DockerSessionSteps.thy ===== *)
theory DockerSessionSteps
  imports DockerSessionProofs
begin

text \<open>
  Weakest preconditions of session operations, the invariant of the authority, and the proof
  that each call that names a session moves only that session, along the steps of its life.
\<close>

section \<open>Weakest preconditions\<close>

definition wpS ::
    "'a session_op \<Rightarrow> ('a \<Rightarrow> authority \<Rightarrow> bool) \<Rightarrow> (py_error \<Rightarrow> authority \<Rightarrow> bool) \<Rightarrow> authority \<Rightarrow> bool" where
  "wpS m Q E s = (case m s of (Inl e, t) \<Rightarrow> E e t | (Inr x, t) \<Rightarrow> Q x t)"

named_theorems wp_simps \<open>weakest preconditions of the session combinators\<close>

lemma wp_bind [wp_simps]: "wpS (bindS m f) Q E s = wpS m (\<lambda>x. wpS (f x) Q E) E s"
  by (simp add: wpS_def bindS_def split: prod.splits sum.splits)

lemma wp_return [wp_simps]: "wpS (returnS x) Q E s = Q x s"
  by (simp add: wpS_def returnS_def)

lemma wp_raise [wp_simps]: "wpS (raiseS e) Q E s = E e s"
  by (simp add: wpS_def raiseS_def)

lemma wp_lift [wp_simps]: "wpS (liftS r) Q E s = (case r of Inl e \<Rightarrow> E e s | Inr x \<Rightarrow> Q x s)"
  by (simp add: wpS_def liftS_def)

lemma wp_guard [wp_simps]: "wpS (guardS b e) Q E s = (if b then E e s else Q () s)"
  by (simp add: guardS_def wp_simps)

lemma wp_when [wp_simps]: "wpS (whenS b m) Q E s = (if b then wpS m Q E s else Q () s)"
  by (simp add: whenS_def wp_simps)

lemma wp_get [wp_simps]: "wpS (getS f) Q E s = Q (f s) s"
  by (simp add: wpS_def getS_def)

lemma wp_read [wp_simps]: "wpS (readS f) Q E s = Q (f (au_reads s)) (s\<lparr>au_reads := au_reads s + 1\<rparr>)"
  by (simp add: wpS_def readS_def)

lemma wp_load [wp_simps]:
  "wpS (loadS sid) Q E s = (case map_of (au_sessions s) sid of None \<Rightarrow> E KeyError s | Some st \<Rightarrow> Q st s)"
  by (simp add: wpS_def loadS_def split: option.splits)

lemma wp_store [wp_simps]:
  "wpS (storeS sid st) Q E s = Q () (s\<lparr>au_sessions := dict_set sid st (au_sessions s)\<rparr>)"
  by (simp add: wpS_def storeS_def)

lemma wp_modify [wp_simps]:
  "wpS (modifyS sid f) Q E s = (case map_of (au_sessions s) sid of
     None \<Rightarrow> E KeyError s | Some st \<Rightarrow> Q () (s\<lparr>au_sessions := dict_set sid (f st) (au_sessions s)\<rparr>))"
  by (simp add: modifyS_def wp_simps split: option.splits)

lemma wp_if [wp_simps]: "wpS (if b then m else n) Q E s = (if b then wpS m Q E s else wpS n Q E s)"
  by simp

lemma wp_option [wp_simps]:
  "wpS (case x of None \<Rightarrow> m | Some y \<Rightarrow> f y) Q E s = (case x of None \<Rightarrow> wpS m Q E s | Some y \<Rightarrow> wpS (f y) Q E s)"
  by (simp split: option.splits)

lemma wp_mono:
  assumes "wpS m Q E s" and "\<And>x t. Q x t \<Longrightarrow> Q' x t" and "\<And>e t. E e t \<Longrightarrow> E' e t"
  shows "wpS m Q' E' s"
  using assms by (auto simp: wpS_def split: prod.splits sum.splits)

lemma wp_seq:
  assumes "wpS m Q' E' s" and "\<And>x t. Q' x t \<Longrightarrow> wpS (f x) Q E t" and "\<And>e t. E' e t \<Longrightarrow> E e t"
  shows "wpS (bindS m f) Q E s"
  unfolding wp_bind using assms by (rule wp_mono)

lemma wpD: "wpS m Q E s \<Longrightarrow> m s = (Inr x, t) \<Longrightarrow> Q x t"
  by (simp add: wpS_def)

lemma wp_errorD: "wpS m Q E s \<Longrightarrow> m s = (Inl e, t) \<Longrightarrow> E e t"
  by (simp add: wpS_def)

lemma wp_for:
  assumes "I s" and "\<And>x s. x \<in> set xs \<Longrightarrow> I s \<Longrightarrow> wpS (f x) (\<lambda>_. I) E s"
  shows "wpS (forS f xs) (\<lambda>_. I) E s"
  using assms
proof (induction xs arbitrary: s)
  case (Cons x xs)
  have "wpS (f x) (\<lambda>_. I) E s" using Cons.prems by simp
  then show ?case
    unfolding forS.simps wp_bind by (rule wp_mono) (use Cons in auto)
qed (simp add: wp_simps)

section \<open>Readings and errors\<close>

text \<open>
  Clock readings the code can work with: aware, and early enough that adding the longest
  expiry stays in the range of \<open>datetime\<close>.
\<close>

definition env_ok :: "docker_env \<Rightarrow> bool" where
  "env_ok env \<longleftrightarrow> (\<forall>n. dt_offset (env_wall_clock env n) \<noteq> None \<and> 0 \<le> dt_local (env_wall_clock env n) \<and>
     dt_local (env_wall_clock env n) + microseconds max_hard_expiry_seconds < dt_limit)"

definition docker_error :: "py_error \<Rightarrow> bool" where
  "docker_error e \<longleftrightarrow>
     (\<exists>code message. e = PerfLensError code ''docker_authorization'' message \<and>
        code \<in> {PATH_SAFETY_VIOLATION, RESOURCE_LIMIT_EXCEEDED})"

lemma docker_errors [simp]: "docker_error (authorization_error m)" "docker_error (resource_error m)"
  by (simp_all add: docker_error_def authorization_error_def resource_error_def)

text \<open>
  The exceptions of a call: the two domain errors; the clock's own if the readings are not
  usable; a \<open>TypeError\<close> if an identity argument is not ASCII.
\<close>

definition clock_error :: "docker_env \<Rightarrow> py_error \<Rightarrow> bool" where
  "clock_error env e \<longleftrightarrow>
     \<not> env_ok env \<and> e \<in> {OverflowError, ValueError ''Docker session wall clock must be timezone-aware''}"

definition session_error :: "docker_env \<Rightarrow> bool \<Rightarrow> py_error \<Rightarrow> bool" where
  "session_error env args_ok e \<longleftrightarrow>
     docker_error e \<or> clock_error env e \<or> (\<not> args_ok \<and> e = TypeError)"

lemma session_error_clock [simp]: "clock_error env e \<Longrightarrow> session_error env ok e"
  by (simp add: session_error_def)

lemma session_error_docker [simp]: "docker_error e \<Longrightarrow> session_error env ok e"
  by (simp add: session_error_def)

lemma clock_error_naive:
  "dt_offset (env_wall_clock env n) = None \<Longrightarrow>
     clock_error env (ValueError ''Docker session wall clock must be timezone-aware'')"
  by (auto simp: clock_error_def env_ok_def)

lemma dt_add_seconds_env:
  assumes "dt_add_seconds (env_wall_clock env n) k = Inl e" and "0 \<le> k" and "k \<le> max_hard_expiry_seconds"
  shows "clock_error env e"
proof -
  have "\<not> env_ok env"
  proof
    assume ok: "env_ok env"
    then have "dt_local (env_wall_clock env n) + microseconds k < dt_limit"
      using microseconds_mono [of k max_hard_expiry_seconds] assms(3) unfolding env_ok_def
      by (meson add_left_mono le_less_trans)
    moreover have "0 \<le> dt_local (env_wall_clock env n) + microseconds k"
      using ok assms(2) by (simp add: env_ok_def microseconds_def)
    ultimately show False using assms(1) by (simp add: dt_add_seconds_def Let_def)
  qed
  then show ?thesis using assms(1) by (simp add: clock_error_def dt_add_seconds_error)
qed

section \<open>The invariant of the authority\<close>

definition authority_ok :: "authority \<Rightarrow> bool" where
  "authority_ok s \<longleftrightarrow>
     1 \<le> au_max_sessions s \<and> au_max_sessions s \<le> 64 \<and> dict_wf (au_sessions s) \<and>
     int (length (au_sessions s)) \<le> au_max_sessions s \<and>
     (\<forall>sid st. map_of (au_sessions s) sid = Some st \<longrightarrow> session_ok sid st)"

text \<open>
  From \<open>s\<close> to \<open>t\<close> only the session \<open>sid\<close> moved, along steps of its life.
\<close>

definition moves :: "string \<Rightarrow> authority \<Rightarrow> authority \<Rightarrow> bool" where
  "moves sid s t \<longleftrightarrow>
     au_max_sessions t = au_max_sessions s \<and> map fst (au_sessions t) = map fst (au_sessions s) \<and>
     (\<forall>k. k \<noteq> sid \<longrightarrow> map_of (au_sessions t) k = map_of (au_sessions s) k) \<and>
     rel_option session_steps (map_of (au_sessions s) sid) (map_of (au_sessions t) sid)"

lemma keys_dict_set_present: "map_of m k = Some w \<Longrightarrow> map fst (dict_set k v m) = map fst m"
  by (simp add: update_keys) (force dest: map_of_SomeD)

lemma moves_refl [simp]: "au_sessions t = au_sessions s \<Longrightarrow> au_max_sessions t = au_max_sessions s \<Longrightarrow> moves sid s t"
  by (simp add: moves_def option.rel_refl)

lemma movesI:
  assumes "map_of (au_sessions s) sid = Some st" and "session_steps st st'"
    and "au_sessions t = dict_set sid st' (au_sessions s)" and "au_max_sessions t = au_max_sessions s"
  shows "moves sid s t"
  using assms by (simp add: moves_def keys_dict_set_present map_of_dict_set)

lemma moves_trans: "moves sid s t \<Longrightarrow> moves sid t u \<Longrightarrow> moves sid s u"
  unfolding moves_def
  by (auto elim!: option.rel_cases intro: rtranclp_trans)

lemma moves_authority_ok: "moves sid s t \<Longrightarrow> authority_ok s \<Longrightarrow> authority_ok t"
proof -
  assume m: "moves sid s t" and ok: "authority_ok s"
  have "session_ok k st'" if "map_of (au_sessions t) k = Some st'" for k st'
  proof (cases "k = sid")
    case True
    with m that obtain st where "map_of (au_sessions s) sid = Some st" "session_steps st st'"
      by (auto simp: moves_def elim: option.rel_cases)
    then show ?thesis using ok True by (auto simp: authority_ok_def intro: session_steps_ok)
  qed (use m ok that in \<open>auto simp: moves_def authority_ok_def\<close>)
  moreover have "length (au_sessions t) = length (au_sessions s)"
    using m by (metis moves_def length_map)
  ultimately show ?thesis using m ok by (simp add: authority_ok_def moves_def)
qed

end
