(* ===== verification/DockerSessionCalls.thy ===== *)
theory DockerSessionCalls
  imports DockerSessionSteps
begin

text \<open>
  Each call that names a session, specified: when it returns, what it then found and left
  behind; when it raises, that the exception is one of those a caller may expect and that only
  the named session moved, along the steps of its life.
\<close>

section \<open>Helpers of the calls\<close>

lemma wp_past_deadline:
  assumes "\<And>n b. Q b (s\<lparr>au_reads := n\<rparr>)" and "\<And>n e. session_error env ok e \<Longrightarrow> E e (s\<lparr>au_reads := n\<rparr>)"
  shows "wpS (past_deadline env w m) Q E s"
  using assms session_error_clock [OF clock_error_naive [of env "au_reads s"], of ok]
  by (auto simp: past_deadline_def wall_now_def monotonic_now_def wp_simps simp del: One_nat_def)

lemma wp_end_session:
  assumes "map_of (au_sessions s) sid = Some st" and "artifact_ok (ss_artifact st)" and "status \<noteq> Active"
  shows "wpS (end_session sid status reason) Q E s =
    Q () (s\<lparr>au_sessions := dict_set sid (st\<lparr>ss_artifact := ended status reason (ss_artifact st)\<rparr>) (au_sessions s)\<rparr>)"
  using assms by (simp add: end_session_def wp_simps updated_artifact_eq ended_artifact_ok ended_def)

text \<open>Ending a session and dropping its lease, as the code does everywhere, is one step of its life.\<close>

lemma wp_end_and_drop:
  assumes "map_of (au_sessions s) sid = Some st" and "artifact_ok (ss_artifact st)" and "status \<noteq> Active"
  shows "wpS (bindS (end_session sid status reason) (\<lambda>_. bindS (drop_lease sid) f)) Q E s =
    wpS (f ()) Q E (s\<lparr>au_sessions := dict_set sid
      (st\<lparr>ss_artifact := ended status reason (ss_artifact st), ss_active_lease := None\<rparr>) (au_sessions s)\<rparr>)"
  using assms by (simp add: wp_simps wp_end_session drop_lease_def dict_simps)

lemma wp_expire_session:
  assumes "map_of (au_sessions s) sid = Some st" and "artifact_ok (ss_artifact st)"
  shows "wpS (expire_session sid) Q E s =
    Q () (s\<lparr>au_sessions := dict_set sid
      (st\<lparr>ss_artifact := ended Expired ''Docker session reached its hard expiry.'' (ss_artifact st),
          ss_active_lease := None\<rparr>) (au_sessions s)\<rparr>)"
  using assms by (simp add: expire_session_def wp_simps wp_end_session drop_lease_def dict_simps)

lemma ended_state [simp]: "sa_state (ended status reason a) = status"
  by (simp add: ended_def)

lemma session_okD:
  assumes "authority_ok s" and "map_of (au_sessions s) sid = Some st"
  shows "session_ok sid st" and "artifact_ok (ss_artifact st)"
  using assms by (auto simp: authority_ok_def session_ok_def)

lemma moves_reads [simp]: "moves sid s (t\<lparr>au_reads := n\<rparr>) = moves sid s t"
  by (simp add: moves_def)

lemma moves_set [simp]:
  "map_of (au_sessions s) sid = Some st \<Longrightarrow>
     moves sid s (t\<lparr>au_sessions := dict_set sid st' (au_sessions s)\<rparr>) \<longleftrightarrow>
       session_steps st st' \<and> au_max_sessions t = au_max_sessions s"
  by (auto simp: moves_def keys_dict_set_present map_of_dict_set)

lemma steps_end [simp]:
  "sa_state (ss_artifact st) = Active \<Longrightarrow> status \<noteq> Active \<Longrightarrow>
     session_steps st (st\<lparr>ss_artifact := ended status reason (ss_artifact st), ss_active_lease := None\<rparr>)"
  by (blast intro: session_step.finish)

text \<open>The exception of a call that names \<open>sid\<close>, and the state it leaves.\<close>

abbreviation fails :: "docker_env \<Rightarrow> bool \<Rightarrow> string \<Rightarrow> authority \<Rightarrow> py_error \<Rightarrow> authority \<Rightarrow> bool" where
  "fails env ok sid s \<equiv> \<lambda>e t. session_error env ok e \<and> moves sid s t"

definition knows_token :: "authority \<Rightarrow> session_access \<Rightarrow> bool" where
  "knows_token s access \<longleftrightarrow> (\<exists>st. map_of (au_sessions s) (ac_session_id access) = Some st \<and>
     ss_token_sha256 st = secret_sha256 (ac_token access))"

lemma secret_sha256_hex [simp]: "hex_text 64 (secret_sha256 v)"
  by (simp add: secret_sha256_def)

lemma require_session_spec:
  assumes ok: "authority_ok s"
  shows "wpS (require_session env access allow)
    (\<lambda>st t. moves (ac_session_id access) s t \<and> knows_token s access \<and>
       map_of (au_sessions t) (ac_session_id access) = Some st \<and>
       (allow \<or> sa_state (ss_artifact st) = Active) \<and>
       (sa_state (ss_artifact st) = Active \<longrightarrow> au_sessions t = au_sessions s))
    (\<lambda>e t. session_error env args e \<and> moves (ac_session_id access) s t \<and>
       (\<not> knows_token s access \<longrightarrow> e = authorization_error ''Docker session access is invalid'' \<and> t = s)) s"
    (is "wpS _ ?Q ?E s")
proof (cases "map_of (au_sessions s) (ac_session_id access)")
  case None
  then show ?thesis by (simp add: require_session_def wp_simps Let_def knows_token_def)
next
  case (Some st)
  note ok' = session_okD [OF ok Some]
  have hex: "hex_text 64 (ss_token_sha256 st)" using ok'(1) by (simp add: session_ok_def)
  show ?thesis
  proof (cases "ss_token_sha256 st = secret_sha256 (ac_token access)")
    case False
    with Some hex show ?thesis by (simp add: require_session_def wp_simps Let_def knows_token_def)
  next
    case True
    then have known: "knows_token s access" using Some by (simp add: knows_token_def)
    show ?thesis
    proof (cases "sa_state (ss_artifact st) = Active")
      case False
      then have "ss_active_lease st = None"
        using ok'(1) by (auto simp: session_ok_def split: option.splits)
      with False Some True hex known show ?thesis
        by (simp add: require_session_def wp_simps Let_def)
    next
      case active: True
      show ?thesis
        using Some True hex
        by (simp add: require_session_def wp_simps Let_def active session_expired_def,
            intro wp_past_deadline [where ok = args])
           (auto simp: wp_simps known wp_expire_session wp_end_session drop_lease_def ok' active dict_simps lease_expired_def
            split: option.splits intro!: wp_past_deadline [where ok = args])
    qed
  qed
qed


definition context_matches :: "session_state \<Rightarrow> string \<Rightarrow> string \<Rightarrow> string \<Rightarrow> string \<Rightarrow> bool" where
  "context_matches st project client policy binding \<longleftrightarrow>
     sa_project_identity_sha256 (ss_artifact st) = project \<and>
     sa_client_connection_identity_sha256 (ss_artifact st) = client \<and>
     ss_policy_identity_sha256 st = policy \<and> session_binding (ss_artifact st) = Some binding"

abbreviation ascii_args :: "string list \<Rightarrow> bool" where
  "ascii_args \<equiv> list_all is_ascii"

text \<open>Comparing with stored digests gives the expected answer, or refuses text outside ASCII.\<close>

lemma any_mismatch_hex:
  assumes "list_all (\<lambda>(a, e). \<exists>h. e = Some h \<and> hex_text 64 h) checks"
  shows "any_mismatch checks = Inr (list_ex (\<lambda>(a, e). e \<noteq> Some a) checks) \<or>
    any_mismatch checks = Inl TypeError \<and> \<not> ascii_args (map fst checks)"
  using assms
proof (induction checks rule: any_mismatch.induct)
  case (2 actual expected checks)
  then obtain h where h: "expected = Some h" "is_ascii h" by (auto dest: hex_text_ascii)
  show ?case
    using 2 h by (cases "is_ascii actual"; cases "actual = h") (auto simp: compare_digest_def)
qed simp

lemma session_ok_hex:
  assumes "session_ok sid st"
  shows "hex_text 64 (sa_project_identity_sha256 (ss_artifact st))"
    and "hex_text 64 (sa_client_connection_identity_sha256 (ss_artifact st))"
    and "hex_text 64 (ss_policy_identity_sha256 st)"
    and "\<exists>b. session_binding (ss_artifact st) = Some b \<and> hex_text 64 b"
  using assms artifact_ok_binding by (auto simp: session_ok_def artifact_ok_def session_fields_ok_def)

lemma assert_session_context_spec:
  assumes st: "map_of (au_sessions s) sid = Some st" and ok: "session_ok sid st"
    and active: "sa_state (ss_artifact st) = Active"
  shows "wpS (assert_session_context sid project client policy binding)
    (\<lambda>_ t. t = s \<and> context_matches st project client policy binding)
    (fails env (ascii_args [project, client, policy, binding]) sid s) s"
proof -
  let ?checks = "[(project, Some (sa_project_identity_sha256 (ss_artifact st))),
    (client, Some (sa_client_connection_identity_sha256 (ss_artifact st))),
    (policy, Some (ss_policy_identity_sha256 st)), (binding, session_binding (ss_artifact st))]"
  have aok: "artifact_ok (ss_artifact st)" using ok by (simp add: session_ok_def)
  from any_mismatch_hex [of ?checks] session_ok_hex [OF ok]
  consider "any_mismatch ?checks = Inr (\<not> context_matches st project client policy binding)"
    | "any_mismatch ?checks = Inl TypeError" "\<not> ascii_args [project, client, policy, binding]"
    by (auto simp: context_matches_def simp del: any_mismatch.simps)
  then show ?thesis
  proof cases
    case 1
    then show ?thesis
      by (simp add: assert_session_context_def wp_simps st Let_def wp_end_session aok drop_lease_def
          dict_simps active del: any_mismatch.simps)
  next
    case 2
    then show ?thesis
      by (auto simp: assert_session_context_def wp_simps st Let_def session_error_def simp del: any_mismatch.simps)
  qed
qed

abbreviation same_sessions :: "authority \<Rightarrow> authority \<Rightarrow> bool" where
  "same_sessions s t \<equiv> au_sessions t = au_sessions s \<and> au_max_sessions t = au_max_sessions s"

definition lease_matches :: "active_lease \<Rightarrow> docker_run_lease \<Rightarrow> bool" where
  "lease_matches l lease \<longleftrightarrow>
     rl_lease_id lease = ls_lease_id l \<and> rl_binding_sha256 lease = ls_binding_sha256 l \<and>
     ls_token_sha256 l = secret_sha256 (rl_token lease)"

lemma require_lease_spec:
  assumes st: "map_of (au_sessions s) sid = Some st" and ok: "session_ok sid st"
    and active: "sa_state (ss_artifact st) = Active"
  shows "wpS (require_lease env sid lease)
    (\<lambda>l t. same_sessions s t \<and> ss_active_lease st = Some l \<and> rl_session_id lease = sid \<and>
       lease_matches l lease)
    (fails env args sid s) s"
proof (cases "ss_active_lease st")
  case None
  then show ?thesis by (simp add: require_lease_def wp_simps st)
next
  case (Some l)
  with ok have facts: "hex_text 64 (ls_token_sha256 l)" "sa_session_id (ss_artifact st) = sid"
    "artifact_ok (ss_artifact st)"
    by (auto simp: session_ok_def lease_fits_def)
  show ?thesis
  proof (cases "rl_session_id lease = sid")
    case True
    show ?thesis
      by (auto simp: require_lease_def wp_simps st Some facts True lease_expired_def lease_matches_def
          wp_end_session drop_lease_def dict_simps active intro!: wp_past_deadline [where ok = args])
  qed (simp add: require_lease_def wp_simps st Some facts)
qed

section \<open>Starting a run\<close>

definition budget_fits :: "session_artifact \<Rightarrow> int \<Rightarrow> int \<Rightarrow> bool" where
  "budget_fits a seconds bytes \<longleftrightarrow>
     sa_workload_runs_used a < sa_max_workload_runs a \<and>
     sa_active_seconds_used a + seconds \<le> sa_max_active_seconds a \<and>
     sa_evidence_bytes_used a + bytes \<le> sa_max_evidence_bytes a"

lemma begin_guards_spec:
  assumes st: "map_of (au_sessions s) sid = Some st" and ok: "session_ok sid st"
    and active: "sa_state (ss_artifact st) = Active"
  shows "wpS (begin_guards sid modes seconds bytes)
    (\<lambda>_ t. t = s \<and> ss_active_lease st = None \<and> set modes \<subseteq> set (sa_allowed_modes (ss_artifact st)) \<and>
       budget_fits (ss_artifact st) seconds bytes)
    (fails env args sid s) s"
proof (cases "ss_active_lease st")
  case None
  then have "st\<lparr>ss_artifact := a\<rparr> = st\<lparr>ss_artifact := a, ss_active_lease := None\<rparr>" for a
    by (cases st) simp
  then have step: "session_steps st (st\<lparr>ss_artifact := ended Exhausted reason (ss_artifact st)\<rparr>)" for reason
    using active by (metis steps_end session_status.distinct(5))
  have "artifact_ok (ss_artifact st)" using ok by (simp add: session_ok_def)
  with None show ?thesis
    by (auto simp: begin_guards_def wp_simps st Let_def exhaust_def wp_end_session step budget_fits_def
        list_ex_iff)
qed (simp add: begin_guards_def wp_simps st Let_def)

lemma session_id_ascii: "artifact_ok a \<Longrightarrow> is_ascii (sa_session_id a)"
proof -
  assume "artifact_ok a"
  then have "is_ascii (take 18 (sa_session_id a))" "is_ascii (drop 18 (sa_session_id a))"
    by (auto simp: artifact_ok_def session_fields_ok_def is_ascii_def [of "''container-session-''"]
        intro: hex_text_ascii)
  then show ?thesis by (metis append_take_drop_id is_ascii_def list_all_append)
qed

lemma lease_seconds_bounds:
  "0 < r \<Longrightarrow> 1 \<le> lease_seconds r e n" "lease_seconds r e n \<le> r + 120"
  by (auto simp: lease_seconds_def lease_grace_seconds_def)

lemma lease_update_order:
  "st\<lparr>ss_active_lease := x, ss_artifact := a\<rparr> = st\<lparr>ss_artifact := a, ss_active_lease := x\<rparr>"
  by simp

text \<open>What the client is handed agrees with the lease that is stored.\<close>

definition lease_granted :: "docker_run_lease \<Rightarrow> active_lease \<Rightarrow> bool" where
  "lease_granted lease l \<longleftrightarrow>
     lease_matches l lease \<and> rl_allowed_modes lease = ls_allowed_modes l \<and>
     rl_reserved_active_seconds lease = ls_reserved_active_seconds l \<and>
     rl_reserved_evidence_bytes lease = ls_reserved_evidence_bytes l"

lemma grant_run_spec:
  assumes st: "map_of (au_sessions s) sid = Some st" and ok: "session_ok sid st"
    and active: "sa_state (ss_artifact st) = Active" and free: "ss_active_lease st = None"
    and modes: "set modes \<subseteq> set (sa_allowed_modes (ss_artifact st))"
    and fits: "budget_fits (ss_artifact st) seconds bytes" and pos: "0 < seconds" "0 < bytes"
    and binding: "session_binding (ss_artifact st) = Some binding"
  shows "wpS (grant_run env sid binding modes seconds bytes)
    (\<lambda>lease t. moves sid s t \<and> rl_session_id lease = sid \<and>
       rl_run_number lease = sa_workload_runs_used (ss_artifact st) + 1 \<and>
       (\<exists>l. lease_granted lease l \<and> ls_reserved_active_seconds l = seconds \<and>
          ls_reserved_evidence_bytes l = bytes \<and> ls_allowed_modes l = modes \<and>
          map_of (au_sessions t) sid =
            Some (st\<lparr>ss_artifact := reserved l (ss_artifact st), ss_active_lease := Some l\<rparr>)))
    (\<lambda>e t. clock_error env e \<and> same_sessions s t) s"
proof -
  let ?a = "ss_artifact st"
  have aok: "artifact_ok ?a" and sid: "sa_session_id ?a = sid" and count: "sa_instance_count ?a \<le> sa_workload_runs_used ?a"
    using ok by (auto simp: session_ok_def)
  have sec: "seconds \<le> 1200" using fits aok by (simp add: budget_fits_def artifact_ok_defs)
  define now where "now = env_wall_clock env (Suc (Suc (au_reads s)))"
  define k where "k = lease_seconds seconds (sa_expires_at ?a) now"
  have k: "1 \<le> k" "k \<le> max_hard_expiry_seconds"
    using lease_seconds_bounds [of seconds "sa_expires_at ?a" now] sec pos
    by (auto simp: k_def max_hard_expiry_seconds_def)
  have ascii: "encode_ascii sid = Inr (map of_char sid)"
    using session_id_ascii [OF aok] by (simp add: encode_ascii_def sid)
  note run = grant_run_def wp_simps st Let_def wall_now_def monotonic_now_def now_def [symmetric]
    k_def [symmetric] sid ascii dict_simps
  show ?thesis
  proof (cases "dt_offset now = None \<or> (\<exists>e. dt_add_seconds now k = Inl e)")
    case True
    with k show ?thesis
      using clock_error_naive [of env "Suc (Suc (au_reads s))"]
        dt_add_seconds_env [of env "Suc (Suc (au_reads s))" k]
      by (auto simp: run simp flip: now_def)
  next
    case False
    then obtain w where w: "dt_add_seconds now k = Inr w" by (cases "dt_add_seconds now k") auto
    define l where "l = \<lparr>ls_lease_id = ''docker-lease-'' @ take 20 (sha256_hexdigest
        (env_token_bytes env (Suc (au_reads s)) @ map of_char sid)),
      ls_token_sha256 = secret_sha256 (env_token_urlsafe env (au_reads s)), ls_binding_sha256 = binding,
      ls_allowed_modes = modes, ls_reserved_active_seconds = seconds, ls_reserved_evidence_bytes = bytes,
      ls_wall_expires_at = w,
      ls_monotonic_expires_at = env_monotonic_clock env (Suc (Suc (Suc (au_reads s)))) + nanoseconds k\<rparr>"
    have l: "ls_reserved_active_seconds l = seconds" "ls_reserved_evidence_bytes l = bytes" "lease_fits ?a l"
      "ls_binding_sha256 l = binding" "ls_allowed_modes l = modes"
      "ls_token_sha256 l = secret_sha256 (env_token_urlsafe env (au_reads s))"
      "ls_lease_id l = ''docker-lease-'' @ take 20 (sha256_hexdigest
        (env_token_bytes env (Suc (au_reads s)) @ map of_char sid))"
      using pos modes binding by (simp_all add: l_def lease_fits_def)
    have updated: "updated_artifact ?a (\<lambda>b. b\<lparr>sa_workload_runs_used := sa_workload_runs_used ?a + 1,
       sa_active_seconds_used := sa_active_seconds_used ?a + seconds,
       sa_evidence_bytes_used := sa_evidence_bytes_used ?a + bytes,
       sa_instance_count :=
         (if sa_target_kind ?a = Managed_temporary_container
          then sa_instance_count ?a + 1 else max (sa_instance_count ?a) 1)\<rparr>) = Inr (reserved l ?a)"
      using updated_reserved [OF aok l(3) count] fits by (simp add: l budget_fits_def)
    have step: "session_steps st (st\<lparr>ss_artifact := reserved l ?a, ss_active_lease := Some l\<rparr>)"
      using session_step.grant [OF active free l(3)] fits l by (auto simp: budget_fits_def)
    show ?thesis
      using False k w step
      by (auto simp: run l_def [symmetric] updated lease_update_order lease_granted_def lease_matches_def l
          simp del: append_Cons append_Nil intro!: exI [of _ l])
  qed
qed

section \<open>The calls\<close>

lemma same_sessions_ok: "same_sessions s t \<Longrightarrow> authority_ok t = authority_ok s"
  by (simp add: authority_ok_def)

lemma same_sessions_moves: "same_sessions s t \<Longrightarrow> moves sid t u = moves sid s u"
  by (simp add: moves_def)

text \<open>
  A call that requires an active session: after the access check its sessions are those it
  started with, and what follows is proved from there.
\<close>

lemma wp_require_active:
  assumes ok: "authority_ok s"
    and rest: "\<And>st t. same_sessions s t \<Longrightarrow> knows_token s access \<Longrightarrow>
      map_of (au_sessions s) (ac_session_id access) = Some st \<Longrightarrow>
      session_ok (ac_session_id access) st \<Longrightarrow> sa_state (ss_artifact st) = Active \<Longrightarrow>
      wpS (f st) Q (fails env args (ac_session_id access) s) t"
  shows "wpS (bindS (require_session env access False) f) Q (fails env args (ac_session_id access) s) s"
  unfolding wp_bind
proof (rule wp_mono [OF require_session_spec [OF ok, where args = args]], goal_cases)
  case (1 st t)
  then have "same_sessions s t" by (auto simp: moves_def)
  then show ?case
    using 1 by (intro rest) (auto intro: session_okD(1) [OF ok])
qed simp

lemma validate_modes_result:
  "(\<exists>e. validate_modes modes = Inl e \<and> docker_error e) \<or> validate_modes modes = Inr modes"
  by (simp add: validate_modes_def bindE_raise_if)

lemma validate_sha256_result:
  "(\<exists>e. validate_sha256 v label = Inl e \<and> docker_error e) \<or> validate_sha256 v label = Inr () \<and> hex_text 64 v"
proof -
  have "list_ex (\<lambda>c. c \<notin> S) v \<longleftrightarrow> \<not> set v \<subseteq> S" for S
    by (auto simp: list_ex_iff)
  then show ?thesis
    by (simp add: validate_sha256_def raise_if_def hex_text_def del: list.set)
qed

lemma begin_run_spec:
  fixes access :: session_access
  assumes ok: "authority_ok s"
  defines "sid \<equiv> ac_session_id access"
  shows "wpS (begin_run env access project client policy binding modes seconds bytes)
    (\<lambda>lease t. moves sid s t \<and> knows_token s access \<and> rl_session_id lease = sid \<and>
       (\<exists>st l. map_of (au_sessions s) sid = Some st \<and> sa_state (ss_artifact st) = Active \<and>
          ss_active_lease st = None \<and>
          context_matches st project client policy binding \<and> validate_modes modes = Inr modes \<and>
          set modes \<subseteq> set (sa_allowed_modes (ss_artifact st)) \<and>
          budget_fits (ss_artifact st) seconds bytes \<and> 0 < seconds \<and> 0 < bytes \<and>
          lease_granted lease l \<and> ls_reserved_active_seconds l = seconds \<and>
          ls_reserved_evidence_bytes l = bytes \<and> ls_allowed_modes l = modes \<and>
          rl_run_number lease = sa_workload_runs_used (ss_artifact st) + 1 \<and>
          map_of (au_sessions t) sid =
            Some (st\<lparr>ss_artifact := reserved l (ss_artifact st), ss_active_lease := Some l\<rparr>)))
    (fails env (ascii_args [project, client, policy]) sid s) s"
    (is "wpS _ ?Q (fails env ?args sid s) s")
proof (cases "validate_modes modes = Inr modes \<and> validate_sha256 binding ''Docker run binding'' = Inr () \<and> 0 < seconds \<and> 0 < bytes")
  case False
  then show ?thesis
    using validate_modes_result [of modes] validate_sha256_result [of binding "''Docker run binding''"]
    by (auto simp: begin_run_def wp_simps)
next
  case True
  then have hex: "hex_text 64 binding"
    using validate_sha256_result [of binding "''Docker run binding''"] by auto
  have "wpS (bindS (require_session env access False) (\<lambda>_.
      bindS (assert_session_context sid project client policy binding) (\<lambda>_.
      bindS (begin_guards sid modes seconds bytes) (\<lambda>_.
      grant_run env sid binding modes seconds bytes)))) ?Q (fails env ?args sid s) s"
    unfolding sid_def
  proof (rule wp_require_active [OF ok], fold sid_def)
    fix st t
    assume t: "same_sessions s t" and known: "knows_token s access" and st: "map_of (au_sessions s) sid = Some st"
      and sok: "session_ok sid st" and active: "sa_state (ss_artifact st) = Active"
    from t st have st': "map_of (au_sessions t) sid = Some st" by simp
    note again = same_sessions_moves [OF t]
    have args: "ascii_args [project, client, policy, binding] = ?args"
      using hex by (simp add: hex_text_ascii)
    show "wpS (bindS (assert_session_context sid project client policy binding) (\<lambda>_.
      bindS (begin_guards sid modes seconds bytes) (\<lambda>_.
      grant_run env sid binding modes seconds bytes))) ?Q (fails env ?args sid s) t"
    proof (rule wp_seq [OF assert_session_context_spec [OF st' sok active, where env = env]], goal_cases)
      case (1 u t1)
      then have c: "context_matches st project client policy binding" and t1: "t1 = t" by auto
      show ?case unfolding t1
      proof (rule wp_seq [OF begin_guards_spec [OF st' sok active, where env = env and args = ?args]], goal_cases)
        case (1 u t2)
        then have t2: "t2 = t" and free: "ss_active_lease st = None"
          and m: "set modes \<subseteq> set (sa_allowed_modes (ss_artifact st))"
          and fits: "budget_fits (ss_artifact st) seconds bytes" by auto
        have b: "session_binding (ss_artifact st) = Some binding" using c by (simp add: context_matches_def)
        show ?case unfolding t2
          using True c known st active free m fits t
          by (intro wp_mono [OF grant_run_spec [OF st' sok active free m fits _ _ b]])
             (auto simp: again)
      qed (simp add: again)
    qed (use args in \<open>simp add: again\<close>)
  qed
  then show ?thesis using True by (simp add: begin_run_def wp_simps sid_def Let_def)
qed

lemma assert_run_current_spec:
  fixes access :: session_access
  assumes ok: "authority_ok s"
  defines "sid \<equiv> ac_session_id access"
  shows "wpS (assert_run_current env access lease project client policy binding mode)
    (\<lambda>a t. same_sessions s t \<and> knows_token s access \<and>
       (\<exists>st l. map_of (au_sessions s) sid = Some st \<and> a = ss_artifact st \<and> sa_state a = Active \<and>
          context_matches st project client policy binding \<and> ss_active_lease st = Some l \<and>
          rl_session_id lease = sid \<and> lease_matches l lease \<and> mode \<in> set (ls_allowed_modes l)))
    (fails env (ascii_args [project, client, policy, binding]) sid s) s"
    (is "wpS _ ?Q (fails env ?args sid s) s")
  unfolding assert_run_current_def Let_def sid_def
proof (rule wp_require_active [OF ok], fold sid_def)
  fix st t
  assume t: "same_sessions s t" and known: "knows_token s access" and st: "map_of (au_sessions s) sid = Some st"
    and sok: "session_ok sid st" and active: "sa_state (ss_artifact st) = Active"
  from t st have st': "map_of (au_sessions t) sid = Some st" by simp
  note again = same_sessions_moves [OF t]
  show "wpS (bindS (assert_session_context sid project client policy binding) (\<lambda>_.
      bindS (require_lease env sid lease) (\<lambda>active.
      bindS (guardS (mode \<notin> set (ls_allowed_modes active))
        (authorization_error ''Collection mode is outside the active Docker run lease'')) (\<lambda>_.
      bindS (loadS sid) (\<lambda>st. returnS (ss_artifact st)))))) ?Q (fails env ?args sid s) t"
  proof (rule wp_seq [OF assert_session_context_spec [OF st' sok active, where env = env]], goal_cases)
    case (1 u t1)
    then have c: "context_matches st project client policy binding" and t1: "t1 = t" by auto
    show ?case unfolding t1
      by (rule wp_seq [OF require_lease_spec [OF st' sok active, where args = ?args]])
         (use st c t known active in \<open>auto simp: wp_simps again\<close>)
  qed (simp add: again)
qed

definition settled_and_closed :: "active_lease \<Rightarrow> int \<Rightarrow> int \<Rightarrow> session_artifact \<Rightarrow> session_artifact" where
  "settled_and_closed l seconds bytes a =
     (let b = settled l seconds bytes a in
      if budget_spent b then ended Exhausted ''Docker authorization budget was exhausted.'' b else b)"

lemma settle_run_spec:
  assumes st: "map_of (au_sessions s) sid = Some st" and sok: "session_ok sid st"
    and active: "sa_state (ss_artifact st) = Active" and l: "ss_active_lease st = Some l"
    and nonneg: "0 \<le> seconds" "0 \<le> bytes"
  shows "wpS (settle_run sid l seconds bytes)
    (\<lambda>a t. moves sid s t \<and> seconds \<le> ls_reserved_active_seconds l \<and> bytes \<le> ls_reserved_evidence_bytes l \<and>
       a = settled_and_closed l seconds bytes (ss_artifact st) \<and>
       map_of (au_sessions t) sid = Some (st\<lparr>ss_artifact := a, ss_active_lease := None\<rparr>))
    (fails env args sid s) s"
proof (cases "seconds \<le> ls_reserved_active_seconds l \<and> bytes \<le> ls_reserved_evidence_bytes l")
  case False
  moreover have "artifact_ok (ss_artifact st)" using sok by (simp add: session_ok_def)
  ultimately show ?thesis
    by (auto simp: settle_run_def wp_simps st wp_end_session drop_lease_def dict_simps active)
next
  case True
  let ?b = "settled l seconds bytes (ss_artifact st)"
  let ?st = "st\<lparr>ss_artifact := ?b, ss_active_lease := None\<rparr>"
  have step: "session_step st ?st" using True active l nonneg by (blast intro: session_step.settle)
  have b: "artifact_ok ?b" using session_step_ok [OF step sok] by (simp add: session_ok_def)
  have "session_step ?st (?st\<lparr>ss_artifact := ended Exhausted r ?b, ss_active_lease := None\<rparr>)" for r
    using session_step.finish [of ?st Exhausted r] active by (simp add: settled_def)
  then have steps: "session_steps st ?st"
    "session_steps st (st\<lparr>ss_artifact := ended Exhausted r ?b, ss_active_lease := None\<rparr>)" for r
    using step by (auto intro: converse_rtranclp_into_rtranclp)
  have upd: "updated_artifact (ss_artifact st) (\<lambda>b. b\<lparr>sa_active_seconds_used :=
         sa_active_seconds_used (ss_artifact st) - ls_reserved_active_seconds l + seconds,
       sa_evidence_bytes_used := sa_evidence_bytes_used (ss_artifact st) - ls_reserved_evidence_bytes l + bytes\<rparr>)
     = Inr ?b"
    using sok l True nonneg by (intro updated_settled) (auto simp: session_ok_def)
  show ?thesis
    using True steps
    by (simp add: settle_run_def wp_simps st Let_def drop_lease_def dict_simps upd lease_update_order
        wp_end_session b settled_and_closed_def)
qed

lemma finish_run_spec:
  fixes access :: session_access
  assumes ok: "authority_ok s"
  defines "sid \<equiv> ac_session_id access"
  shows "wpS (finish_run env access lease seconds bytes)
    (\<lambda>a t. moves sid s t \<and> knows_token s access \<and>
       (\<exists>st l. map_of (au_sessions s) sid = Some st \<and> sa_state (ss_artifact st) = Active \<and>
          ss_active_lease st = Some l \<and> rl_session_id lease = sid \<and> lease_matches l lease \<and>
          0 \<le> seconds \<and> seconds \<le> ls_reserved_active_seconds l \<and>
          0 \<le> bytes \<and> bytes \<le> ls_reserved_evidence_bytes l \<and>
          a = settled_and_closed l seconds bytes (ss_artifact st) \<and>
          map_of (au_sessions t) sid = Some (st\<lparr>ss_artifact := a, ss_active_lease := None\<rparr>)))
    (fails env args sid s) s"
    (is "wpS _ ?Q (fails env args sid s) s")
proof (cases "0 \<le> seconds \<and> 0 \<le> bytes")
  case False
  then show ?thesis by (auto simp: finish_run_def wp_simps)
next
  case nonneg: True
  have "wpS (bindS (require_session env access False) (\<lambda>_.
      bindS (require_lease env sid lease) (\<lambda>l. settle_run sid l seconds bytes))) ?Q (fails env args sid s) s"
    unfolding sid_def
  proof (rule wp_require_active [OF ok], fold sid_def)
    fix st t
    assume t: "same_sessions s t" and known: "knows_token s access" and st: "map_of (au_sessions s) sid = Some st"
      and sok: "session_ok sid st" and active: "sa_state (ss_artifact st) = Active"
    from t st have st': "map_of (au_sessions t) sid = Some st" by simp
    note again = same_sessions_moves [OF t]
    show "wpS (bindS (require_lease env sid lease) (\<lambda>l. settle_run sid l seconds bytes)) ?Q (fails env args sid s) t"
    proof (rule wp_seq [OF require_lease_spec [OF st' sok active, where args = args]], goal_cases)
      case (1 l u)
      then have u: "same_sessions t u" and l: "ss_active_lease st = Some l" "lease_matches l lease" "rl_session_id lease = sid"
        by auto
      from u st' have st'': "map_of (au_sessions u) sid = Some st" by simp
      show ?case
        by (rule wp_mono [OF settle_run_spec [OF st'' sok active l(1), where env = env and args = args]])
           (use nonneg known st active l in \<open>auto simp: again same_sessions_moves [OF u]\<close>)
    qed (simp add: again)
  qed
  then show ?thesis using nonneg by (simp add: finish_run_def wp_simps sid_def)
qed

end
