(* ===== verification/DockerSessionTable.thy ===== *)
theory DockerSessionTable
  imports DockerSessionCalls
begin

text \<open>
  The calls that inspect or revoke a session, and those that change the table of sessions:
  pruning, authorization and the end of a client connection.
\<close>

section \<open>Revocation and inspection\<close>

lemma snapshot_spec:
  fixes access :: session_access
  assumes ok: "authority_ok s"
  defines "sid \<equiv> ac_session_id access"
  shows "wpS (snapshot env access)
    (\<lambda>a t. moves sid s t \<and> knows_token s access \<and>
       (\<exists>st. map_of (au_sessions t) sid = Some st \<and> a = ss_artifact st))
    (fails env args sid s) s"
  unfolding snapshot_def sid_def
  by (rule wp_seq [OF require_session_spec [OF ok, where args = args]]) (auto simp: wp_simps)

lemma revoke_spec:
  fixes access :: session_access
  assumes ok: "authority_ok s"
  defines "sid \<equiv> ac_session_id access"
  shows "wpS (revoke env access)
    (\<lambda>a t. moves sid s t \<and> knows_token s access \<and> sa_state a \<noteq> Active \<and>
       (\<exists>st. map_of (au_sessions t) sid = Some st \<and> a = ss_artifact st \<and> ss_active_lease st = None))
    (fails env args sid s) s"
  unfolding revoke_def sid_def
proof (rule wp_seq [OF require_session_spec [OF ok, where args = args]], goal_cases)
  case (1 st t)
  then have t: "authority_ok t" and m: "moves (ac_session_id access) s t"
    and st: "map_of (au_sessions t) (ac_session_id access) = Some st" and known: "knows_token s access"
    using moves_authority_ok ok by auto
  note sok = session_okD [OF t st]
  show ?case
  proof (cases "sa_state (ss_artifact st) = Active")
    case True
    with 1 have same: "au_sessions t = au_sessions s" "au_max_sessions t = au_max_sessions s"
      using m by (auto simp: moves_def)
    show ?thesis
      using st [unfolded same(1)] known sok True same
      by (simp add: wp_simps Let_def wp_end_session drop_lease_def dict_simps)
  next
    case False
    then have free: "ss_active_lease st = None"
      using sok(1) by (auto simp: session_ok_def split: option.splits)
    then have "st\<lparr>ss_active_lease := None\<rparr> = st" by (cases st) simp
    with free show ?thesis
      using st known m False by (simp add: wp_simps Let_def drop_lease_def update_triv)
  qed
qed simp

section \<open>The table of sessions\<close>

text \<open>Every session of \<open>t\<close> was there in \<open>s\<close> and moved along its life; the keys are the same.\<close>

definition evolves :: "authority \<Rightarrow> authority \<Rightarrow> bool" where
  "evolves s t \<longleftrightarrow>
     au_max_sessions t = au_max_sessions s \<and> map fst (au_sessions t) = map fst (au_sessions s) \<and>
     (\<forall>k. rel_option session_steps (map_of (au_sessions s) k) (map_of (au_sessions t) k))"

lemma moves_evolves: "moves sid s t \<Longrightarrow> evolves s t"
  unfolding moves_def evolves_def by (metis (no_types, lifting) option.rel_refl rtranclp.rtrancl_refl)

lemma evolves_refl: "same_sessions s t \<Longrightarrow> evolves s t"
  by (simp add: evolves_def option.rel_refl)

lemma rel_option_steps_trans:
  "rel_option session_steps x y \<Longrightarrow> rel_option session_steps y z \<Longrightarrow> rel_option session_steps x z"
  by (cases x; cases y; cases z) auto

lemma evolves_trans: "evolves s t \<Longrightarrow> evolves t u \<Longrightarrow> evolves s u"
  unfolding evolves_def by (blast intro: rel_option_steps_trans trans)

lemma evolves_ok: "evolves s t \<Longrightarrow> authority_ok s \<Longrightarrow> authority_ok t"
proof -
  assume e: "evolves s t" and ok: "authority_ok s"
  have "session_ok k st'" if "map_of (au_sessions t) k = Some st'" for k st'
  proof -
    have "rel_option session_steps (map_of (au_sessions s) k) (Some st')"
      using e that unfolding evolves_def by metis
    then obtain st where "map_of (au_sessions s) k = Some st" "session_steps st st'"
      by (cases "map_of (au_sessions s) k") auto
    then show ?thesis using ok by (auto simp: authority_ok_def intro: session_steps_ok)
  qed
  moreover have "length (au_sessions t) = length (au_sessions s)"
    using e by (metis evolves_def length_map)
  ultimately show ?thesis using e ok by (simp add: authority_ok_def evolves_def)
qed

lemma prune_one_spec:
  assumes ok: "authority_ok s" and sid: "sid \<in> fst ` set (au_sessions s)"
  shows "wpS (prune_one env sid) (\<lambda>_ t. moves sid s t) (fails env args sid s) s"
proof -
  obtain st where st: "map_of (au_sessions s) sid = Some st"
    using sid by (metis domD dom_map_of_conv_image_fst)
  note sok = session_okD [OF ok st]
  show ?thesis
    by (auto simp: prune_one_def wp_simps st session_expired_def wp_expire_session sok
        intro!: wp_past_deadline [where ok = args])
qed

text \<open>
  After pruning, every session left was there before; one that is gone had ended.
\<close>

definition prunes :: "authority \<Rightarrow> authority \<Rightarrow> bool" where
  "prunes s t \<longleftrightarrow> (\<exists>u. evolves s u \<and> au_max_sessions t = au_max_sessions u \<and> dict_wf (au_sessions t) \<and>
     length (au_sessions t) \<le> length (au_sessions u) \<and>
     (\<forall>k. map_of (au_sessions t) k = map_of (au_sessions u) k \<or>
        map_of (au_sessions t) k = None \<and>
        (\<exists>st. map_of (au_sessions u) k = Some st \<and> sa_state (ss_artifact st) \<noteq> Active)))"

lemma prune_loop_wf: "dict_wf m \<Longrightarrow> dict_wf (prune_loop limit sids m)"
  by (induction sids arbitrary: m) (simp_all del: length_map)

lemma length_dict_pop: "length (dict_pop k m) \<le> length m"
  by (induction m) auto

lemma prune_loop_length: "length (prune_loop limit sids m) \<le> length m"
proof (induction sids arbitrary: m)
  case (Cons k sids)
  show ?case using Cons [of "dict_pop k m"] length_dict_pop [of k m] by simp
qed simp

lemma prune_loop_lookup:
  "map_of (prune_loop limit sids m) k = map_of m k \<or> map_of (prune_loop limit sids m) k = None \<and> k \<in> set sids"
proof (induction sids arbitrary: m)
  case (Cons j sids)
  show ?case using Cons [of "dict_pop j m"] by (auto simp: map_of_dict_pop split: if_splits)
qed simp

lemma prune_inactive_spec:
  assumes ok: "authority_ok s"
  shows "wpS (prune_inactive env) (\<lambda>_ t. prunes s t) (\<lambda>e t. session_error env args e \<and> evolves s t) s"
  unfolding prune_inactive_def
proof (simp add: wp_get wp_bind, rule wp_mono, rule wp_for [where I = "evolves s" and E = "\<lambda>e t. session_error env args e \<and> evolves s t"], goal_cases)
  case 1
  show ?case by (simp add: evolves_refl)
next
  case (2 sid t)
  then have "authority_ok t" "map fst (au_sessions t) = map fst (au_sessions s)"
    using ok evolves_ok by (auto simp: evolves_def)
  with 2 have "authority_ok t" "sid \<in> fst ` set (au_sessions t)" by (metis list.set_map)+
  from prune_one_spec [OF this, where args = args] show ?case
    by (rule wp_mono) (use 2 in \<open>auto intro: evolves_trans moves_evolves\<close>)
next
  case (3 u t)
  have t: "authority_ok t" using 3 ok evolves_ok by blast
  let ?t = "t\<lparr>au_sessions := prune_loop (au_max_sessions t) (inactive_sessions t) (au_sessions t)\<rparr>"
  have "\<exists>st. map_of (au_sessions t) k = Some st \<and> sa_state (ss_artifact st) \<noteq> Active"
    if "k \<in> set (inactive_sessions t)" for k
    using that t by (auto simp: inactive_sessions_def authority_ok_def intro!: map_of_is_SomeI)
  moreover have sess: "au_sessions ?t = prune_loop (au_max_sessions t) (inactive_sessions t) (au_sessions t)" by simp
  ultimately have "\<forall>k. map_of (au_sessions ?t) k = map_of (au_sessions t) k \<or> map_of (au_sessions ?t) k = None \<and>
      (\<exists>st. map_of (au_sessions t) k = Some st \<and> sa_state (ss_artifact st) \<noteq> Active)"
    using prune_loop_lookup [of "au_max_sessions t" "inactive_sessions t" "au_sessions t"]
    unfolding sess by metis
  then have "prunes s ?t"
    unfolding prunes_def using 3 t prune_loop_length prune_loop_wf
    by (intro exI [of _ t] conjI) (simp_all add: authority_ok_def del: map_of_eq_Some_iff)
  then show ?case by (simp add: wpS_def drop_inactive_def)
qed auto

section \<open>Authorization\<close>

text \<open>A session as it is when it has just been authorized.\<close>

definition fresh_session :: "session_state \<Rightarrow> bool" where
  "fresh_session st \<longleftrightarrow>
     sa_state (ss_artifact st) = Active \<and> ss_active_lease st = None \<and>
     sa_workload_runs_used (ss_artifact st) = 0 \<and> sa_active_seconds_used (ss_artifact st) = 0 \<and>
     sa_evidence_bytes_used (ss_artifact st) = 0"

text \<open>Sessions were pruned and one new session was stored.\<close>

definition admits :: "authority \<Rightarrow> string \<Rightarrow> session_state \<Rightarrow> authority \<Rightarrow> bool" where
  "admits s sid st t \<longleftrightarrow> (\<exists>u. prunes s u \<and> int (length (au_sessions u)) < au_max_sessions u \<and>
     au_max_sessions t = au_max_sessions s \<and> au_sessions t = dict_set sid st (au_sessions u) \<and>
     fresh_session st \<and> session_ok sid st)"

lemma prunes_ok: "prunes s t \<Longrightarrow> authority_ok s \<Longrightarrow> authority_ok t"
proof -
  assume p: "prunes s t" and ok: "authority_ok s"
  then obtain u where u: "evolves s u" "au_max_sessions t = au_max_sessions u" "dict_wf (au_sessions t)"
      "length (au_sessions t) \<le> length (au_sessions u)"
    and look: "\<And>k. map_of (au_sessions t) k = map_of (au_sessions u) k \<or> map_of (au_sessions t) k = None"
    unfolding prunes_def by metis
  have "authority_ok u" using evolves_ok u ok by blast
  moreover have "session_ok k st" if "map_of (au_sessions t) k = Some st" for k st
    using that look [of k] calculation by (auto simp: authority_ok_def)
  ultimately show ?thesis using u by (simp add: authority_ok_def)
qed

lemma length_dict_set: "length (dict_set k v m) \<le> Suc (length m)"
  by (induction m) auto

lemma admits_ok: "admits s sid st t \<Longrightarrow> authority_ok s \<Longrightarrow> authority_ok t"
proof -
  assume a: "admits s sid st t" and ok: "authority_ok s"
  then obtain u where u: "prunes s u" "int (length (au_sessions u)) < au_max_sessions u"
    "au_max_sessions t = au_max_sessions s" "au_sessions t = dict_set sid st (au_sessions u)" "session_ok sid st"
    by (auto simp: admits_def)
  moreover have "authority_ok u" using prunes_ok u ok by blast
  moreover have "au_max_sessions u = au_max_sessions s" using u(1) by (auto simp: prunes_def evolves_def)
  ultimately show ?thesis
    using length_dict_set [of sid st "au_sessions u"] by (auto simp: authority_ok_def map_of_dict_set)
qed


lemma sealed_validate: "artifact_ok a \<Longrightarrow> bindE (model_validate a) with_content_sha256 = Inr (seal a)"
  using artifact_ok_seal [of a]
  by (simp add: model_validate_def artifact_ok_def with_content_sha256_def seal_def content_digest_def [symmetric])

text \<open>The binding and the terms of a session that pass the checks.\<close>

definition binding_args :: "docker_target_kind \<Rightarrow> string option \<Rightarrow> string option \<Rightarrow> bool" where
  "binding_args kind workload_spec existing_target \<longleftrightarrow>
     (case kind of
        Managed_temporary_container \<Rightarrow> existing_target = None \<and> (\<exists>h. workload_spec = Some h \<and> hex_text 64 h)
      | Existing_container \<Rightarrow> workload_spec = None \<and> (\<exists>h. existing_target = Some h \<and> hex_text 64 h))"

definition terms_ok :: "string \<Rightarrow> string list \<Rightarrow> int \<Rightarrow> int \<Rightarrow> int \<Rightarrow> int \<Rightarrow> bool" where
  "terms_ok mode modes runs seconds bytes expiry \<longleftrightarrow>
     mode \<in> set authorization_modes \<and> list_all (\<lambda>m. m \<in> set canonical_modes) modes \<and>
     (mode = ''per_run'' \<longrightarrow> runs = 1) \<and> 1 \<le> runs \<and> runs \<le> 6 \<and> 1 \<le> seconds \<and> seconds \<le> 1200 \<and>
     1 \<le> bytes \<and> bytes \<le> 1099511627776 \<and> 1 \<le> expiry \<and> expiry \<le> max_hard_expiry_seconds"

lemma canonical_mode_ascii: "list_all (\<lambda>m. m \<in> set canonical_modes) modes \<Longrightarrow> list_all is_ascii modes"
proof -
  have "list_all is_ascii canonical_modes" by code_simp
  then show "list_all (\<lambda>m. m \<in> set canonical_modes) modes \<Longrightarrow> list_all is_ascii modes"
    by (auto simp only: list_all_iff)
qed

lemma authorization_mode_ascii: "mode \<in> set authorization_modes \<Longrightarrow> is_ascii mode"
proof -
  have "list_all is_ascii authorization_modes" by code_simp
  then show "mode \<in> set authorization_modes \<Longrightarrow> is_ascii mode" by (simp only: list_all_iff)
qed

lemma fresh_artifact_ok:
  assumes "terms_ok (sa_authorization_mode p) (sa_allowed_modes p) (sa_max_workload_runs p)
      (sa_max_active_seconds p) (sa_max_evidence_bytes p) expiry"
    and "binding_args (sa_target_kind p) (sa_workload_spec_sha256 p) (sa_existing_target_identity_sha256 p)"
    and "hex_text 64 (sa_project_identity_sha256 p)" "hex_text 64 (sa_client_connection_identity_sha256 p)"
      "hex_text 64 (sa_authorization_receipt_sha256 p)" "hex_text 64 (sa_content_sha256 p)"
    and "sa_session_id p = ''container-session-'' @ x" "hex_text 20 x"
    and "dt_offset (sa_created_at p) \<noteq> None" "dt_offset (sa_expires_at p) \<noteq> None"
      "dt_instant (sa_created_at p) < dt_instant (sa_expires_at p)"
    and "sa_state p = Active" "sa_invalidation_reason p = None" "sa_workload_runs_used p = 0"
      "sa_active_seconds_used p = 0" "sa_evidence_bytes_used p = 0" "sa_instance_count p = 0"
  shows "artifact_ok p"
proof -
  have modes: "list_all (\<lambda>m. m \<in> set collection_modes) (sa_allowed_modes p)"
    using assms(1) by (simp only: terms_ok_def canonical_modes_def collection_modes_def)
  show ?thesis
    using assms modes
    by (cases "sa_target_kind p")
       (auto simp: artifact_ok_defs terms_ok_def binding_args_def)
qed

lemma authorization_receipt_Inr:
  "list_all is_ascii terms \<Longrightarrow> \<exists>h. authorization_receipt nonce terms = Inr h \<and> hex_text 64 h"
  by (simp add: authorization_receipt_def mapE_encode_ascii)

lemma evolves_prunes: "evolves s t \<Longrightarrow> authority_ok s \<Longrightarrow> prunes s t"
proof -
  assume e: "evolves s t" and "authority_ok s"
  then have "dict_wf (au_sessions t)" using evolves_ok by (metis authority_ok_def)
  with e show ?thesis unfolding prunes_def by blast
qed

lemma prunes_same: "same_sessions t u \<Longrightarrow> prunes s u = prunes s t"
  by (simp add: prunes_def)

lemma prunes_reads [simp]: "prunes s (t\<lparr>au_reads := n\<rparr>) = prunes s t"
  by (simp add: prunes_def)

text \<open>What a caller gets from an authorization.\<close>

definition authorized :: "docker_env \<Rightarrow> authority \<Rightarrow> session_artifact \<times> session_access \<Rightarrow> authority \<Rightarrow> bool" where
  "authorized env s r t \<longleftrightarrow> (case r of (a, access) \<Rightarrow>
     \<exists>st. admits s (ac_session_id access) st t \<and> ss_artifact st = a \<and>
       ss_token_sha256 st = secret_sha256 (ac_token access) \<and>
       (\<exists>n < au_reads t. ss_monotonic_expires_at st \<le>
          env_monotonic_clock env n + nanoseconds max_hard_expiry_seconds))"

text \<open>The session records the terms it was authorized with and expires when they say.\<close>

definition terms_recorded ::
    "docker_env \<Rightarrow> nat \<Rightarrow> session_state \<Rightarrow> docker_target_kind \<Rightarrow> string \<Rightarrow> string \<Rightarrow> string \<Rightarrow> string \<Rightarrow> string list \<Rightarrow>
     string option \<Rightarrow> string option \<Rightarrow> int \<Rightarrow> int \<Rightarrow> int \<Rightarrow> int \<Rightarrow> bool" where
  "terms_recorded env n st kind mode project client policy modes w e runs seconds bytes expiry \<longleftrightarrow>
     (let a = ss_artifact st in
      sa_target_kind a = kind \<and> sa_authorization_mode a = mode \<and> sa_project_identity_sha256 a = project \<and>
      sa_client_connection_identity_sha256 a = client \<and> ss_policy_identity_sha256 st = policy \<and>
      sa_allowed_modes a = modes \<and> sa_workload_spec_sha256 a = w \<and> sa_existing_target_identity_sha256 a = e \<and>
      sa_max_workload_runs a = runs \<and> sa_max_active_seconds a = seconds \<and> sa_max_evidence_bytes a = bytes \<and>
      dt_instant (sa_expires_at a) = dt_instant (env_wall_clock env n) + microseconds expiry \<and>
      ss_monotonic_expires_at st = env_monotonic_clock env (Suc n) + nanoseconds expiry)"

lemma create_session_spec:
  assumes args: "terms_ok mode modes runs seconds bytes expiry" "binding_args kind w e"
    and hex: "hex_text 64 project" "hex_text 64 client" "hex_text 64 policy"
  shows "wpS (create_session env kind mode project client policy modes w e runs seconds bytes expiry)
    (\<lambda>(a, access) u. \<exists>st. au_sessions u = dict_set (ac_session_id access) st (au_sessions t) \<and>
       au_max_sessions u = au_max_sessions t \<and> fresh_session st \<and> session_ok (ac_session_id access) st \<and>
       ss_artifact st = a \<and> ss_token_sha256 st = secret_sha256 (ac_token access) \<and>
       terms_recorded env (au_reads t) st kind mode project client policy modes w e runs seconds bytes expiry \<and>
       au_reads t + 4 = au_reads u)
    (\<lambda>x u. clock_error env x \<and> same_sessions t u) t"
proof (cases "dt_offset (env_wall_clock env (au_reads t)) = None")
  case True
  then show ?thesis
    using clock_error_naive by (simp add: create_session_def wp_simps wall_now_def)
next
  case False
  define b where "b = the (if w = None \<or> w = Some [] then e else w)"
  have b: "(case (if w = None \<or> w = Some [] then e else w) of None \<Rightarrow> Inl AssertionError | Some b \<Rightarrow> Inr b) = Inr b"
    "hex_text 64 b"
    using args(2) by (auto simp: binding_args_def b_def hex_text_def split: docker_target_kind.splits)
  define now where "now = env_wall_clock env (au_reads t)"
  define nonce where "nonce = env_token_bytes env (Suc (Suc (Suc (au_reads t))))"
  have "list_all is_ascii [kind_text kind, mode, project, client, policy, b, comma_separated modes,
      str_int runs, str_int seconds, str_int bytes, isoformat now]"
    using args(1) b(2) hex canonical_mode_ascii is_ascii_comma_separated
      authorization_mode_ascii
    by (cases kind) (auto simp: terms_ok_def hex_text_ascii)
  then obtain h where h: "authorization_receipt nonce [kind_text kind, mode, project, client, policy, b,
      comma_separated modes, str_int runs, str_int seconds, str_int bytes, isoformat now] = Inr h" "hex_text 64 h"
    using authorization_receipt_Inr by blast
  define sid where "sid = ''container-session-'' @ take 20 (sha256_hexdigest (nonce @ map of_char h))"
  note run = wp_simps wall_now_def monotonic_now_def b(1) now_def [symmetric] nonce_def [symmetric] h(1)
    sid_def [symmetric] Let_def
  show ?thesis
  proof (cases "dt_add_seconds now expiry")
    case (Inl x)
    then have "clock_error env x"
      unfolding now_def by (rule dt_add_seconds_env) (use args(1) in \<open>auto simp: terms_ok_def\<close>)
    with Inl show ?thesis
      using False by (auto simp: create_session_def run simp del: append_Cons append_Nil)
  next
    case (Inr expires)
    define p where "p = \<lparr>sa_session_id = sid, sa_created_at = now, sa_expires_at = expires,
      sa_target_kind = kind, sa_authorization_mode = mode, sa_project_identity_sha256 = project,
      sa_client_connection_identity_sha256 = client, sa_authorization_receipt_sha256 = h,
      sa_workload_spec_sha256 = w, sa_existing_target_identity_sha256 = e, sa_allowed_modes = modes,
      sa_state = Active, sa_max_workload_runs = runs, sa_workload_runs_used = 0,
      sa_max_active_seconds = seconds, sa_active_seconds_used = 0, sa_max_evidence_bytes = bytes,
      sa_evidence_bytes_used = 0, sa_instance_count = 0, sa_invalidation_reason = None,
      sa_content_sha256 = replicate 64 CHR ''0''\<rparr>"
    define st where "st = \<lparr>ss_artifact = seal p,
      ss_token_sha256 = secret_sha256 (env_token_urlsafe env (Suc (Suc (au_reads t)))),
      ss_policy_identity_sha256 = policy,
      ss_monotonic_expires_at = env_monotonic_clock env (Suc (au_reads t)) + nanoseconds expiry,
      ss_active_lease = None\<rparr>"
    have "dt_instant now < dt_instant expires" "dt_offset expires = dt_offset now"
      using dt_add_seconds_Inr [OF Inr] args(1) by (auto simp: terms_ok_def microseconds_def)
    then have p: "artifact_ok p"
      using False args hex h(2)
      by (intro fresh_artifact_ok [where x = "take 20 (sha256_hexdigest (nonce @ map of_char h))" and expiry = expiry])
         (auto simp: p_def sid_def now_def hex_text_take [OF hex_text_sha256] simp del: append_Cons append_Nil)
    have st: "fresh_session st" "session_ok sid st"
      using artifact_ok_seal [OF p] hex(3) by (auto simp: st_def p_def fresh_session_def session_ok_def)
    have fields: "ss_artifact st = seal p"
      "ss_token_sha256 st = secret_sha256 (env_token_urlsafe env (Suc (Suc (au_reads t))))"
      by (simp_all add: st_def)
    have recorded: "terms_recorded env (au_reads t) st kind mode project client policy modes w e runs seconds bytes expiry"
      using dt_add_seconds_Inr [OF Inr]
      by (simp add: terms_recorded_def st_def p_def now_def)
    show ?thesis
      using False Inr p st fields recorded
      by (auto simp: create_session_def run sealed_validate p_def [symmetric] st_def [symmetric]
          simp del: append_Cons append_Nil intro!: exI [of _ st])
  qed
qed

lemma admit_session_spec:
  assumes ok: "authority_ok s" and args: "terms_ok mode modes runs seconds bytes expiry" "binding_args kind w e"
    and hex: "hex_text 64 project" "hex_text 64 client" "hex_text 64 policy"
  shows "wpS (admit_session env kind mode project client policy modes w e runs seconds bytes expiry)
    (\<lambda>r t. authorized env s r t) (\<lambda>x t. session_error env args x \<and> prunes s t) s"
  unfolding admit_session_def
proof (rule wp_seq [OF prune_inactive_spec [OF ok, where args = args]], goal_cases)
  case (1 u t)
  then have max: "au_max_sessions t = au_max_sessions s" by (auto simp: prunes_def evolves_def)
  have "wpS (create_session env kind mode project client policy modes w e runs seconds bytes expiry)
    (\<lambda>r t. authorized env s r t) (\<lambda>x t. session_error env args x \<and> prunes s t) t"
    if "int (length (au_sessions t)) < au_max_sessions t"
  proof (rule wp_mono [OF create_session_spec [OF args hex]], goal_cases)
    case (1 r v)
    then show ?case
      using that max \<open>prunes s t\<close> args(1)
      by (auto simp: authorized_def admits_def terms_ok_def terms_recorded_def Let_def nanoseconds_def
          intro!: exI [of _ t] exI [of _ "Suc (au_reads t)"])
  next
    case (2 x v)
    then show ?case using prunes_same [of t v s] \<open>prunes s t\<close> by simp
  qed
  with 1 show ?case by (simp add: wp_simps)
qed (use ok evolves_prunes in auto)

lemma authorize_session_spec:
  assumes ok: "authority_ok s" and modes: "validate_modes modes = Inr modes" and b: "binding_args kind w e"
    and per_run: "mode = ''per_run'' \<Longrightarrow> runs = 1"
  shows "wpS (authorize_session env kind mode project client policy modes explicit w e runs seconds bytes expiry)
    (\<lambda>r t. authorized env s r t) (\<lambda>x t. session_error env args x \<and> prunes s t) s"
proof -
  have s: "prunes s s" using ok evolves_prunes [OF evolves_refl] by simp
  have modes': "list_all (\<lambda>m. m \<in> set canonical_modes) modes"
    using modes by (auto simp: validate_modes_def bindE_raise_if list_ex_iff list_all_iff split: if_splits)
  note sha = validate_sha256_result [of project "''project identity''"]
    validate_sha256_result [of client "''client connection identity''"]
    validate_sha256_result [of policy "''Collector policy identity''"]
  show ?thesis
  proof (cases "terms_ok mode modes runs seconds bytes expiry \<and> hex_text 64 project \<and> hex_text 64 client \<and> hex_text 64 policy")
    case True
    then have "wpS (admit_session env kind mode project client policy modes w e runs seconds bytes expiry)
      (\<lambda>r t. authorized env s r t) (\<lambda>x t. session_error env args x \<and> prunes s t) s"
      using b by (intro admit_session_spec [OF ok]) auto
    with True sha s show ?thesis
      by (auto simp: authorize_session_def wp_simps terms_ok_def)
  next
    case False
    then show ?thesis
      using sha s modes' per_run
      by (auto simp: authorize_session_def wp_simps terms_ok_def)
  qed
qed

lemma authorize_existing_target_spec:
  assumes ok: "authority_ok s" and hex: "hex_text 64 (ct_identity_fingerprint target)"
    and content: "is_ascii (ct_content_sha256 target)"
  shows "wpS (authorize_existing_target env target project client policy modes mode explicit runs seconds bytes expiry)
    (\<lambda>r t. authorized env s r t) (\<lambda>x t. session_error env args x \<and> prunes s t) s"
proof -
  have s: "prunes s s" using ok evolves_prunes [OF evolves_refl] by simp
  have digest: "compare_digest (contract_content_sha256 d x) (ct_content_sha256 target) =
      Inr (contract_content_sha256 d x = ct_content_sha256 target)" for d x
    using content by (simp add: compare_digest_def contract_content_sha256_def hex_text_ascii [OF hex_text_sha256])
  have "wpS (authorize_session env Existing_container mode project client policy modes explicit None
      (Some (ct_identity_fingerprint target)) (if mode = ''per_run'' then 1 else runs) seconds bytes expiry)
    (\<lambda>r t. authorized env s r t) (\<lambda>x t. session_error env args x \<and> prunes s t) s"
    if "validate_modes modes = Inr modes"
    by (rule authorize_session_spec [OF ok that]) (auto simp: binding_args_def hex)
  then show ?thesis
    using validate_modes_result [of modes] s
    by (auto simp: authorize_existing_target_def verify_contract_content_def wp_simps digest raise_if_def)
qed

lemma authorize_managed_workload_spec:
  assumes ok: "authority_ok s" and content: "is_ascii (cw_content_sha256 workload)"
  shows "wpS (authorize_managed_workload env workload client policy explicit bytes)
    (\<lambda>r t. authorized env s r t) (\<lambda>x t. session_error env args x \<and> prunes s t) s"
proof -
  have s: "prunes s s" using ok evolves_prunes [OF evolves_refl] by simp
  have digest: "compare_digest (contract_content_sha256 d x) (cw_content_sha256 workload) =
      Inr (contract_content_sha256 d x = cw_content_sha256 workload)" for d x
    using content by (simp add: compare_digest_def contract_content_sha256_def hex_text_ascii [OF hex_text_sha256])
  have "wpS (authorize_session env Managed_temporary_container (cw_authorization_mode workload)
       (cw_project_identity_sha256 workload) client policy modes explicit
       (Some (cw_content_sha256 workload)) None
       (if cw_authorization_mode workload = ''per_run'' then 1 else cw_max_workload_runs workload)
       (cw_max_active_seconds workload) bytes (cw_hard_expiry_seconds workload))
    (\<lambda>r t. authorized env s r t) (\<lambda>x t. session_error env args x \<and> prunes s t) s"
    if "validate_modes modes = Inr modes" "hex_text 64 (cw_content_sha256 workload)" for modes
    by (rule authorize_session_spec [OF ok that(1)]) (auto simp: binding_args_def that(2))
  moreover have "hex_text 64 (cw_content_sha256 workload)"
    if "contract_content_sha256 d x = cw_content_sha256 workload" for d x
    using that by (metis contract_content_sha256_def hex_text_sha256)
  ultimately show ?thesis
    using validate_modes_result [of "cw_allowed_modes workload"] s
    by (auto simp: authorize_managed_workload_def verify_contract_content_def wp_simps digest raise_if_def)
qed

section \<open>The end of a client connection\<close>

definition revoked_session :: "session_state \<Rightarrow> session_state" where
  "revoked_session st =
     st\<lparr>ss_artifact := ended Revoked ''Docker client connection ended.'' (ss_artifact st), ss_active_lease := None\<rparr>"

lemma wp_revoke_one:
  assumes "map_of (au_sessions s) sid = Some st" and "artifact_ok (ss_artifact st)"
  shows "wpS (revoke_one sid) Q E s = Q () (s\<lparr>au_sessions := dict_set sid (revoked_session st) (au_sessions s)\<rparr>)"
  using assms by (simp add: revoke_one_def wp_simps wp_end_session drop_lease_def dict_simps revoked_session_def)

lemma revoke_loop_spec:
  assumes "authority_ok s" and "distinct sids"
    and "\<And>k. k \<in> set sids \<Longrightarrow> \<exists>st. map_of (au_sessions s) k = Some st \<and> sa_state (ss_artifact st) = Active"
  shows "wpS (forS revoke_one sids)
    (\<lambda>_ t. evolves s t \<and> au_reads t = au_reads s \<and> (\<forall>k. map_of (au_sessions t) k =
       (if k \<in> set sids then map_option revoked_session (map_of (au_sessions s) k) else map_of (au_sessions s) k)))
    E s"
  using assms
proof (induction sids arbitrary: s)
  case Nil
  then show ?case by (simp add: wp_simps evolves_refl)
next
  case (Cons sid sids)
  then obtain st where st: "map_of (au_sessions s) sid = Some st" and active: "sa_state (ss_artifact st) = Active"
    by auto
  let ?s = "s\<lparr>au_sessions := dict_set sid (revoked_session st) (au_sessions s)\<rparr>"
  have m: "moves sid s ?s" using st active by (simp add: revoked_session_def)
  have "wpS (forS revoke_one sids)
    (\<lambda>_ t. evolves ?s t \<and> au_reads t = au_reads ?s \<and> (\<forall>k. map_of (au_sessions t) k =
       (if k \<in> set sids then map_option revoked_session (map_of (au_sessions ?s) k) else map_of (au_sessions ?s) k)))
    E ?s"
  proof (rule Cons.IH)
    show "authority_ok ?s" using m Cons.prems(1) moves_authority_ok by blast
    show "distinct sids" using Cons.prems(2) by simp
    show "\<exists>st. map_of (au_sessions ?s) k = Some st \<and> sa_state (ss_artifact st) = Active" if "k \<in> set sids" for k
      using Cons.prems(2,3) that by (auto simp: map_of_dict_set)
  qed
  then show ?case
    unfolding forS.simps wp_bind wp_revoke_one [OF st session_okD(2) [OF Cons.prems(1) st]]
  proof (rule wp_mono, goal_cases)
    case (1 u t)
    then show ?case
      using Cons.prems(2) st
      by (auto simp: map_of_dict_set simp del: map_of_eq_Some_iff
          intro: evolves_trans [OF moves_evolves [OF m]])
  qed
qed

lemma revoke_client_connection_spec:
  assumes ok: "authority_ok s"
  shows "wpS (revoke_client_connection client)
    (\<lambda>r t. evolves s t \<and> r = sort (client_sessions client s) \<and> (\<forall>k. map_of (au_sessions t) k =
       (if k \<in> set r then map_option revoked_session (map_of (au_sessions s) k) else map_of (au_sessions s) k)))
    (\<lambda>e t. docker_error e \<and> t = s) s"
proof -
  let ?r = "client_sessions client s"
  have wf: "dict_wf (au_sessions s)" using ok by (simp add: authority_ok_def)
  then have "distinct ?r"
    unfolding client_sessions_def by (rule distinct_map_filter)
  moreover have "\<exists>st. map_of (au_sessions s) k = Some st \<and> sa_state (ss_artifact st) = Active" if "k \<in> set ?r" for k
    using that wf by (auto simp: client_sessions_def)
  ultimately have loop: "wpS (forS revoke_one ?r) (\<lambda>_ t. evolves s t \<and> au_reads t = au_reads s \<and>
      (\<forall>k. map_of (au_sessions t) k =
       (if k \<in> set ?r then map_option revoked_session (map_of (au_sessions s) k) else map_of (au_sessions s) k)))
      (\<lambda>e t. docker_error e \<and> t = s) s"
    using revoke_loop_spec [OF ok] by blast
  have "wpS (bindS (forS revoke_one ?r) (\<lambda>_. returnS (sort ?r)))
    (\<lambda>r t. evolves s t \<and> r = sort ?r \<and> (\<forall>k. map_of (au_sessions t) k =
       (if k \<in> set r then map_option revoked_session (map_of (au_sessions s) k) else map_of (au_sessions s) k)))
    (\<lambda>e t. docker_error e \<and> t = s) s"
    by (rule wp_seq [OF loop]) (simp_all add: wp_return)
  then show ?thesis
    using validate_sha256_result [of client "''client connection identity''"]
    by (elim disjE exE conjE)
       (simp_all add: revoke_client_connection_def wp_lift wp_get wp_bind [of "liftS _"] wp_bind [of "getS _"]
         split del: if_split)
qed

end
