(* ===== verification/DockerSessionProgress.thy ===== *)
theory DockerSessionProgress
  imports DockerSessionTable
begin

text \<open>
  Progress of the session authority: the clock is only read forwards, every stored deadline is
  at most two hours after a reading already made, pruning makes room as soon as one session has
  ended or passed its deadline, and a run within its terms is granted.
\<close>

section \<open>Readings only advance\<close>

definition advances :: "'a session_op \<Rightarrow> bool" where
  "advances m \<longleftrightarrow> (\<forall>s. au_reads s \<le> au_reads (snd (m s)))"

named_theorems advance \<open>operations that only read the clock forwards\<close>

lemma advances_bind [advance]: "advances m \<Longrightarrow> (\<And>x. advances (f x)) \<Longrightarrow> advances (bindS m f)"
  unfolding advances_def bindS_def
proof (intro allI)
  fix s assume m: "\<forall>s. au_reads s \<le> au_reads (snd (m s))" and f: "\<And>x. \<forall>s. au_reads s \<le> au_reads (snd (f x s))"
  obtain r t where mt: "m s = (r, t)" by (cases "m s")
  with m have t: "au_reads s \<le> au_reads t" by (metis snd_conv)
  then show "au_reads s \<le> au_reads (snd (case m s of (Inl e, t) \<Rightarrow> (Inl e, t) | (Inr x, t) \<Rightarrow> f x t))"
    using mt f by (cases r) (auto intro: order_trans)
qed

lemma advances_basic [advance]:
  "advances (returnS x)" "advances (liftS r)" "advances (raiseS e)" "advances (getS f)" "advances (readS g)"
  "advances (loadS sid)" "advances (storeS sid st)" "advances (guardS b e)" "advances drop_inactive"
  by (simp_all add: advances_def returnS_def liftS_def raiseS_def getS_def readS_def loadS_def storeS_def
      guardS_def drop_inactive_def)

lemma advances_if [advance]: "advances m \<Longrightarrow> advances n \<Longrightarrow> advances (if b then m else n)"
  by simp

lemma advances_option [advance]:
  "advances m \<Longrightarrow> (\<And>y. advances (f y)) \<Longrightarrow> advances (case x of None \<Rightarrow> m | Some y \<Rightarrow> f y)"
  by (simp split: option.splits)

lemma advances_when [advance]: "advances m \<Longrightarrow> advances (whenS b m)"
  by (simp add: whenS_def advances_basic)

lemma advances_for [advance]: "(\<And>x. advances (f x)) \<Longrightarrow> advances (forS f xs)"
  by (induction xs) (auto intro: advance)

lemmas helper_defs = modifyS_def wall_now_def monotonic_now_def past_deadline_def session_expired_def
  lease_expired_def end_session_def drop_lease_def expire_session_def prune_one_def prune_inactive_def
  require_session_def assert_session_context_def require_lease_def exhaust_def Let_def

lemmas call_defs = create_session_def admit_session_def authorize_session_def
  authorize_existing_target_def authorize_managed_workload_def begin_guards_def grant_run_def begin_run_def
  assert_run_current_def settle_run_def finish_run_def revoke_def revoke_one_def
  revoke_client_connection_def snapshot_def

lemma advances_calls:
  "advances (authorize_existing_target env g p c po ms m x r se b h)"
  "advances (authorize_managed_workload env w c po x b)"
  "advances (begin_run env a p c po bi ms se b)"
  "advances (assert_run_current env a l p c po bi mo)"
  "advances (finish_run env a l se b)"
  "advances (revoke env a)" "advances (revoke_client_connection c)" "advances (snapshot env a)"
  unfolding call_defs helper_defs by (intro advance)+

section \<open>Deadlines\<close>

definition deadlines_bounded :: "docker_env \<Rightarrow> authority \<Rightarrow> bool" where
  "deadlines_bounded env s \<longleftrightarrow> (\<forall>sid st. map_of (au_sessions s) sid = Some st \<longrightarrow>
     (\<exists>n < au_reads s. ss_monotonic_expires_at st \<le>
        env_monotonic_clock env n + nanoseconds max_hard_expiry_seconds))"

lemma session_steps_deadline: "session_steps st st' \<Longrightarrow> ss_monotonic_expires_at st' = ss_monotonic_expires_at st"
  by (induction rule: rtranclp_induct) (auto elim: session_step.cases)

text \<open>Sessions that only moved along their life keep the bound.\<close>

lemma deadlines_bounded_mono:
  assumes "deadlines_bounded env s" and "au_reads s \<le> au_reads t"
    and "\<And>k st'. map_of (au_sessions t) k = Some st' \<Longrightarrow>
      (\<exists>st. map_of (au_sessions s) k = Some st \<and> session_steps st st') \<or>
      (\<exists>n < au_reads t. ss_monotonic_expires_at st' \<le>
         env_monotonic_clock env n + nanoseconds max_hard_expiry_seconds)"
  shows "deadlines_bounded env t"
  unfolding deadlines_bounded_def
proof (intro allI impI)
  fix k st' assume "map_of (au_sessions t) k = Some st'"
  from assms(3) [OF this] show "\<exists>n < au_reads t. ss_monotonic_expires_at st' \<le>
      env_monotonic_clock env n + nanoseconds max_hard_expiry_seconds"
  proof (elim disjE exE conjE)
    fix st assume "map_of (au_sessions s) k = Some st" "session_steps st st'"
    then obtain n where "n < au_reads s" "ss_monotonic_expires_at st' \<le>
        env_monotonic_clock env n + nanoseconds max_hard_expiry_seconds"
      using assms(1) session_steps_deadline by (metis deadlines_bounded_def)
    then show ?thesis using assms(2) by (auto intro: less_le_trans)
  qed blast
qed

lemma evolves_lookup:
  "evolves s t \<Longrightarrow> map_of (au_sessions t) k = Some st' \<Longrightarrow>
     \<exists>st. map_of (au_sessions s) k = Some st \<and> session_steps st st'"
  unfolding evolves_def by (metis option.rel_cases option.sel option.distinct(1))

lemma prunes_lookup:
  "prunes s t \<Longrightarrow> map_of (au_sessions t) k = Some st' \<Longrightarrow>
     \<exists>st. map_of (au_sessions s) k = Some st \<and> session_steps st st'"
  unfolding prunes_def by (metis evolves_lookup option.distinct(1))

section \<open>Pruning makes room\<close>

text \<open>With usable clocks a deadline check returns, and tells whether the deadline has passed.\<close>

definition verdict :: "docker_env \<Rightarrow> nat \<Rightarrow> datetime \<Rightarrow> int \<Rightarrow> bool \<Rightarrow> bool" where
  "verdict env n wall deadline b \<longleftrightarrow>
     ((\<forall>j \<ge> n. deadline \<le> env_monotonic_clock env j) \<longrightarrow> b) \<and>
     ((\<forall>j \<ge> n. dt_instant (env_wall_clock env j) < dt_instant wall \<and> env_monotonic_clock env j < deadline) \<longrightarrow> \<not> b)"

lemma wp_deadline:
  assumes env: "env_ok env"
    and "\<And>n b. au_reads s \<le> n \<Longrightarrow> verdict env (au_reads s) wall deadline b \<Longrightarrow> Q b (s\<lparr>au_reads := n\<rparr>)"
  shows "wpS (past_deadline env wall deadline) Q E s"
proof -
  have aware: "dt_offset (env_wall_clock env (au_reads s)) \<noteq> None" using env by (simp add: env_ok_def)
  let ?n = "au_reads s"
  show ?thesis
  proof (cases "dt_instant wall \<le> dt_instant (env_wall_clock env ?n)")
    case True
    then have "Q True (s\<lparr>au_reads := ?n + 1\<rparr>)"
      by (intro assms(2)) (auto simp: verdict_def not_less)
    with aware True show ?thesis by (auto simp: past_deadline_def wall_now_def wp_simps)
  next
    case False
    have "Q (deadline \<le> env_monotonic_clock env (?n + 1)) (s\<lparr>au_reads := ?n + 2\<rparr>)"
      by (intro assms(2)) (auto simp: verdict_def not_le)
    with aware False show ?thesis by (auto simp: past_deadline_def wall_now_def monotonic_now_def wp_simps)
  qed
qed

lemma session_steps_inactive: "session_steps st st' \<Longrightarrow> sa_state (ss_artifact st) \<noteq> Active \<Longrightarrow> st' = st"
  by (erule converse_rtranclpE) (auto dest: session_step_active)

definition overdue :: "docker_env \<Rightarrow> nat \<Rightarrow> session_state \<Rightarrow> bool" where
  "overdue env n st \<longleftrightarrow> sa_state (ss_artifact st) \<noteq> Active \<or>
     (\<forall>j \<ge> n. ss_monotonic_expires_at st \<le> env_monotonic_clock env j)"

lemma prune_one_progress:
  assumes env: "env_ok env" and ok: "authority_ok s" and st: "map_of (au_sessions s) sid = Some st"
  shows "wpS (prune_one env sid)
    (\<lambda>_ t. moves sid s t \<and> au_reads s \<le> au_reads t \<and>
       (overdue env (au_reads s) st \<longrightarrow>
         (\<exists>st'. map_of (au_sessions t) sid = Some st' \<and> sa_state (ss_artifact st') \<noteq> Active)))
    (\<lambda>_ _. False) s"
  using st session_okD [OF ok st]
  by (auto simp: prune_one_def wp_simps session_expired_def wp_expire_session overdue_def dict_simps verdict_def
      simp del: map_of_eq_Some_iff intro!: wp_deadline [OF env] split: if_splits)

lemma forS_append: "forS f (xs @ ys) = bindS (forS f xs) (\<lambda>_. forS f ys)"
  by (induction xs) (auto simp: bindS_def returnS_def split: prod.splits sum.splits intro!: ext)

text \<open>From \<open>s\<close> to \<open>t\<close> the sessions evolved and the clock was read forwards.\<close>

abbreviation later :: "authority \<Rightarrow> authority \<Rightarrow> bool" where
  "later s t \<equiv> evolves s t \<and> au_reads s \<le> au_reads t"

lemma later_lookup:
  assumes "later s t" and "map_of (au_sessions s) sid = Some st"
  obtains st' where "map_of (au_sessions t) sid = Some st'" "session_steps st st'"
  using assms unfolding evolves_def by (metis option.rel_cases option.sel option.distinct(1))

lemma overdue_steps: "session_steps st st' \<Longrightarrow> overdue env n st \<Longrightarrow> n \<le> m \<Longrightarrow> overdue env m st'"
  using session_steps_inactive [of st st'] session_steps_deadline [of st st']
  by (cases "sa_state (ss_artifact st) = Active") (auto simp: overdue_def)

lemma prune_loop_progress:
  assumes env: "env_ok env" and ok: "authority_ok s" and sids: "set sids \<subseteq> fst ` set (au_sessions s)"
  shows "wpS (forS (prune_one env) sids) (\<lambda>_ t. later s t) (\<lambda>_ _. False) s"
proof (rule wp_for, goal_cases)
  case (2 sid t)
  then have t: "authority_ok t" and "sid \<in> fst ` set (au_sessions t)"
    using ok evolves_ok sids by (metis evolves_def list.set_map subsetD)+
  then obtain st where "map_of (au_sessions t) sid = Some st"
    by (metis domD dom_map_of_conv_image_fst)
  from prune_one_progress [OF env t this] show ?case
    by (rule wp_mono) (use 2 in \<open>auto intro: evolves_trans moves_evolves\<close>)
qed (simp add: evolves_refl)

lemma prune_visit_progress:
  assumes env: "env_ok env" and ok: "authority_ok s" and st: "map_of (au_sessions s) sid = Some st"
    and over: "overdue env (au_reads s) st"
  shows "wpS (forS (prune_one env) (map fst (au_sessions s)))
    (\<lambda>_ t. later s t \<and> (\<exists>st'. map_of (au_sessions t) sid = Some st' \<and> sa_state (ss_artifact st') \<noteq> Active))
    (\<lambda>_ _. False) s"
proof -
  have "sid \<in> set (map fst (au_sessions s))" using st by (force dest: map_of_SomeD)
  then obtain xs ys where split: "map fst (au_sessions s) = xs @ sid # ys" by (meson split_list)
  then have subs: "set xs \<subseteq> fst ` set (au_sessions s)" "set ys \<subseteq> fst ` set (au_sessions s)"
    by (metis Un_iff list.set_map set_append set_subset_Cons subset_code(1))+
  show ?thesis
    unfolding split forS_append forS.simps
  proof (rule wp_seq [OF prune_loop_progress [OF env ok subs(1)]], goal_cases)
    case (1 u t)
    then obtain st1 where st1: "map_of (au_sessions t) sid = Some st1" "session_steps st st1"
      using later_lookup st by blast
    have t: "authority_ok t" using evolves_ok ok 1 by blast
    show ?case
    proof (rule wp_seq [OF prune_one_progress [OF env t st1(1)]], goal_cases)
      case (1 u v)
      then obtain st2 where st2: "map_of (au_sessions v) sid = Some st2" "sa_state (ss_artifact st2) \<noteq> Active"
        using overdue_steps [OF st1(2) over] \<open>later s t\<close> by auto
      have sv: "later s v" using 1 \<open>later s t\<close> by (auto intro: evolves_trans moves_evolves)
      then have v: "authority_ok v" "map fst (au_sessions v) = map fst (au_sessions s)"
        using ok evolves_ok by (auto simp: evolves_def)
      then have "set ys \<subseteq> fst ` set (au_sessions v)" using subs(2) by (metis list.set_map)
      from prune_loop_progress [OF env v(1) this] show ?case
      proof (rule wp_mono, goal_cases)
        case (1 u w)
        then obtain st3 where "map_of (au_sessions w) sid = Some st3" "session_steps st2 st3"
          using later_lookup st2(1) by blast
        with 1 sv st2 session_steps_inactive show ?case by (auto intro: evolves_trans)
      qed
    qed simp
  qed simp
qed

lemma length_dict_pop_less: "k \<in> fst ` set m \<Longrightarrow> length (dict_pop k m) < length m"
proof (induction m)
  case (Cons p m)
  then show ?case using length_dict_pop [of k m] by (cases p) (auto simp: less_Suc_eq_le Suc_le_eq image_iff)
qed simp

lemma prune_loop_room:
  assumes "int (length m) \<le> limit" and "sids \<noteq> []" and "set sids \<subseteq> fst ` set m"
  shows "int (length (prune_loop limit sids m)) < limit"
proof -
  obtain k ks where sids: "sids = k # ks" using assms(2) by (meson list.exhaust)
  have "length (dict_pop k m) < length m"
    using assms(3) sids by (intro length_dict_pop_less) auto
  then show ?thesis
    using assms(1) prune_loop_length [of limit ks "dict_pop k m"] by (auto simp: sids)
qed

lemma drop_inactive_room:
  assumes ok: "authority_ok t"
    and "int (length (au_sessions t)) < au_max_sessions t \<or>
      (\<exists>sid st. map_of (au_sessions t) sid = Some st \<and> sa_state (ss_artifact st) \<noteq> Active)"
  shows "int (length (prune_loop (au_max_sessions t) (inactive_sessions t) (au_sessions t))) < au_max_sessions t"
  using assms(2)
proof
  assume "int (length (au_sessions t)) < au_max_sessions t"
  then show ?thesis using prune_loop_length [of "au_max_sessions t" "inactive_sessions t" "au_sessions t"] by linarith
next
  assume "\<exists>sid st. map_of (au_sessions t) sid = Some st \<and> sa_state (ss_artifact st) \<noteq> Active"
  then obtain sid st where "(sid, st) \<in> set (au_sessions t)" "sa_state (ss_artifact st) \<noteq> Active"
    by (auto dest: map_of_SomeD)
  then have "inactive_sessions t \<noteq> []" by (force simp: inactive_sessions_def filter_empty_conv)
  moreover have "set (inactive_sessions t) \<subseteq> fst ` set (au_sessions t)"
    by (auto simp: inactive_sessions_def)
  ultimately show ?thesis using ok by (intro prune_loop_room) (simp_all add: authority_ok_def)
qed

text \<open>The table has a free place, or a session that has ended or passed its deadline.\<close>

definition room_ahead :: "docker_env \<Rightarrow> authority \<Rightarrow> bool" where
  "room_ahead env s \<longleftrightarrow> int (length (au_sessions s)) < au_max_sessions s \<or>
     (\<exists>sid st. map_of (au_sessions s) sid = Some st \<and> overdue env (au_reads s) st)"

lemma prune_inactive_room:
  assumes env: "env_ok env" and ok: "authority_ok s" and room: "room_ahead env s"
  shows "wpS (prune_inactive env) (\<lambda>_ t. int (length (au_sessions t)) < au_max_sessions t) (\<lambda>_ _. False) s"
proof -
  have "wpS (forS (prune_one env) (map fst (au_sessions s)))
    (\<lambda>_ t. later s t \<and> (int (length (au_sessions t)) < au_max_sessions t \<or>
      (\<exists>sid st. map_of (au_sessions t) sid = Some st \<and> sa_state (ss_artifact st) \<noteq> Active)))
    (\<lambda>_ _. False) s"
    using room unfolding room_ahead_def
  proof (elim disjE exE conjE)
    assume less: "int (length (au_sessions s)) < au_max_sessions s"
    have "wpS (forS (prune_one env) (map fst (au_sessions s))) (\<lambda>_ t. later s t) (\<lambda>_ _. False) s"
      by (rule prune_loop_progress [OF env ok]) simp
    then show ?thesis
    proof (rule wp_mono, goal_cases)
      case (1 u t)
      then have "length (au_sessions t) = length (au_sessions s)" by (metis evolves_def length_map)
      with 1 less show ?case by (simp add: evolves_def)
    qed
  next
    fix sid st assume "map_of (au_sessions s) sid = Some st" "overdue env (au_reads s) st"
    from prune_visit_progress [OF env ok this] show ?thesis by (rule wp_mono) auto
  qed
  then show ?thesis
    unfolding prune_inactive_def wp_bind wp_get
  proof (rule wp_mono, goal_cases)
    case (1 u t)
    then have "authority_ok t" using ok evolves_ok by blast
    from drop_inactive_room [OF this] 1 show ?case by (simp add: wpS_def drop_inactive_def)
  qed
qed

text \<open>The returned access opens a fresh, active session that satisfies \<open>P\<close>.\<close>

definition session_stored ::
    "(nat \<Rightarrow> session_state \<Rightarrow> bool) \<Rightarrow> session_artifact \<times> session_access \<Rightarrow> authority \<Rightarrow> bool" where
  "session_stored P r t \<longleftrightarrow> (case r of (a, access) \<Rightarrow>
     \<exists>n st. map_of (au_sessions t) (ac_session_id access) = Some st \<and> ss_artifact st = a \<and>
       ss_token_sha256 st = secret_sha256 (ac_token access) \<and> fresh_session st \<and> P n st)"

lemma admit_session_returns:
  assumes env: "env_ok env" and ok: "authority_ok s" and room: "room_ahead env s"
    and args: "terms_ok mode modes runs seconds bytes expiry" "binding_args kind w e"
    and hex: "hex_text 64 project" "hex_text 64 client" "hex_text 64 policy"
  shows "wpS (admit_session env kind mode project client policy modes w e runs seconds bytes expiry)
    (session_stored (\<lambda>n st. terms_recorded env n st kind mode project client policy modes w e runs seconds bytes expiry))
    (\<lambda>_ _. False) s" (is "wpS _ ?Q _ _")
  unfolding admit_session_def
proof (rule wp_seq [OF prune_inactive_room [OF env ok room]], goal_cases)
  case (1 u t)
  have "wpS (create_session env kind mode project client policy modes w e runs seconds bytes expiry) ?Q (\<lambda>_ _. False) t"
    by (rule wp_mono [OF create_session_spec [OF args hex]])
       (use env in \<open>auto simp: clock_error_def session_stored_def dict_simps simp del: map_of_eq_Some_iff\<close>)
  with 1 show ?case by (simp add: wp_simps)
qed simp

text \<open>A request for a managed workload that passes every argument check.\<close>

definition workload_request_ok :: "container_workload \<Rightarrow> string \<Rightarrow> string \<Rightarrow> string \<Rightarrow> int \<Rightarrow> bool" where
  "workload_request_ok workload client policy explicit bytes \<longleftrightarrow>
     cw_content_sha256 workload = contract_content_sha256 (cw_dump workload) [''content_sha256''] \<and>
     validate_modes (cw_allowed_modes workload) = Inr (cw_allowed_modes workload) \<and>
     explicit = explicit_docker_session_authorization \<and>
     cw_authorization_mode workload \<in> set authorization_modes \<and>
     hex_text 64 (cw_project_identity_sha256 workload) \<and> hex_text 64 client \<and> hex_text 64 policy \<and>
     1 \<le> cw_max_workload_runs workload \<and> cw_max_workload_runs workload \<le> 6 \<and>
     1 \<le> cw_max_active_seconds workload \<and> cw_max_active_seconds workload \<le> 1200 \<and>
     1 \<le> cw_hard_expiry_seconds workload \<and> cw_hard_expiry_seconds workload \<le> max_hard_expiry_seconds \<and>
     1 \<le> bytes \<and> bytes \<le> 1099511627776"

lemma validate_sha256_hex: "hex_text 64 v \<Longrightarrow> validate_sha256 v label = Inr ()"
proof -
  have "list_ex (\<lambda>c. c \<notin> S) v \<longleftrightarrow> \<not> set v \<subseteq> S" for S
    by (auto simp: list_ex_iff)
  then show "hex_text 64 v \<Longrightarrow> validate_sha256 v label = Inr ()"
    by (simp add: validate_sha256_def raise_if_def hex_text_def del: list.set)
qed

lemma validate_modes_canonical:
  "validate_modes modes = Inr ms \<Longrightarrow> list_all (\<lambda>m. m \<in> set canonical_modes) modes"
  by (auto simp: validate_modes_def bindE_raise_if list_ex_iff list_all_iff split: if_splits)

definition workload_recorded ::
    "docker_env \<Rightarrow> nat \<Rightarrow> session_state \<Rightarrow> container_workload \<Rightarrow> string \<Rightarrow> string \<Rightarrow> int \<Rightarrow> bool" where
  "workload_recorded env n st workload client policy bytes \<longleftrightarrow>
     terms_recorded env n st Managed_temporary_container (cw_authorization_mode workload)
       (cw_project_identity_sha256 workload) client policy (cw_allowed_modes workload)
       (Some (cw_content_sha256 workload)) None
       (if cw_authorization_mode workload = ''per_run'' then 1 else cw_max_workload_runs workload)
       (cw_max_active_seconds workload) bytes (cw_hard_expiry_seconds workload)"

lemma authorize_managed_workload_returns:
  assumes env: "env_ok env" and ok: "authority_ok s" and room: "room_ahead env s"
    and req: "workload_request_ok workload client policy explicit bytes"
  shows "wpS (authorize_managed_workload env workload client policy explicit bytes)
    (session_stored (\<lambda>n st. workload_recorded env n st workload client policy bytes)) (\<lambda>_ _. False) s"
    (is "wpS _ ?Q _ _")
proof -
  let ?runs = "if cw_authorization_mode workload = ''per_run'' then 1 else cw_max_workload_runs workload"
  have digest: "hex_text 64 (cw_content_sha256 workload)"
    using req by (simp add: workload_request_ok_def contract_content_sha256_def)
  have "wpS (admit_session env Managed_temporary_container (cw_authorization_mode workload)
       (cw_project_identity_sha256 workload) client policy (cw_allowed_modes workload)
       (Some (cw_content_sha256 workload)) None ?runs
       (cw_max_active_seconds workload) bytes (cw_hard_expiry_seconds workload)) ?Q (\<lambda>_ _. False) s"
    unfolding workload_recorded_def
    by (rule admit_session_returns [OF env ok room])
       (use req digest validate_modes_canonical in \<open>auto simp: workload_request_ok_def terms_ok_def binding_args_def\<close>)
  then show ?thesis
    using req digest
    by (auto simp: authorize_managed_workload_def authorize_session_def verify_contract_content_def wp_simps
        workload_request_ok_def validate_sha256_hex raise_if_def contract_content_sha256_def)
qed

section \<open>A run within its terms is granted\<close>

definition in_time :: "docker_env \<Rightarrow> nat \<Rightarrow> session_state \<Rightarrow> bool" where
  "in_time env n st \<longleftrightarrow> (\<forall>j \<ge> n.
     dt_instant (env_wall_clock env j) < dt_instant (sa_expires_at (ss_artifact st)) \<and>
     env_monotonic_clock env j < ss_monotonic_expires_at st)"

lemma require_session_in_time:
  assumes env: "env_ok env" and ok: "authority_ok s"
    and st: "map_of (au_sessions s) (ac_session_id access) = Some st"
    and token: "ss_token_sha256 st = secret_sha256 (ac_token access)"
    and active: "sa_state (ss_artifact st) = Active" and free: "ss_active_lease st = None"
    and time: "in_time env (au_reads s) st"
  shows "wpS (require_session env access allow) (\<lambda>_ t. same_sessions s t) (\<lambda>_ _. False) s"
proof -
  have hex: "hex_text 64 (ss_token_sha256 st)" using session_okD(1) [OF ok st] by (simp add: session_ok_def)
  have late: "\<not> b" if "verdict env (au_reads s) (sa_expires_at (ss_artifact st)) (ss_monotonic_expires_at st) b" for b
    using that time by (auto simp: verdict_def in_time_def)
  have "wpS (past_deadline env (sa_expires_at (ss_artifact st)) (ss_monotonic_expires_at st))
    (\<lambda>b t. same_sessions s t \<and> \<not> b) E s" for E
    by (rule wp_deadline [OF env]) (use late in auto)
  from wp_mono [OF this] show ?thesis
    using st hex [unfolded token]
    by (simp add: require_session_def wp_simps Let_def token active free session_expired_def del: map_of_eq_Some_iff)
qed

text \<open>The conditions under which a run starts, apart from time.\<close>

definition run_allowed ::
    "session_state \<Rightarrow> session_access \<Rightarrow> string \<Rightarrow> string \<Rightarrow> string \<Rightarrow> string \<Rightarrow> string list \<Rightarrow> int \<Rightarrow> int \<Rightarrow> bool" where
  "run_allowed st access project client policy binding modes seconds bytes \<longleftrightarrow>
     ss_token_sha256 st = secret_sha256 (ac_token access) \<and> sa_state (ss_artifact st) = Active \<and>
     ss_active_lease st = None \<and> context_matches st project client policy binding \<and>
     validate_modes modes = Inr modes \<and> set modes \<subseteq> set (sa_allowed_modes (ss_artifact st)) \<and>
     0 < seconds \<and> 0 < bytes \<and> budget_fits (ss_artifact st) seconds bytes"

lemma context_no_mismatch:
  assumes "session_ok sid st" and "context_matches st project client policy binding"
  shows "any_mismatch [(project, Some (sa_project_identity_sha256 (ss_artifact st))),
    (client, Some (sa_client_connection_identity_sha256 (ss_artifact st))),
    (policy, Some (ss_policy_identity_sha256 st)), (binding, session_binding (ss_artifact st))] = Inr False"
  using session_ok_hex [OF assms(1)] assms(2) by (auto simp: context_matches_def)

lemma begin_run_returns:
  assumes env: "env_ok env" and ok: "authority_ok s"
    and st: "map_of (au_sessions s) (ac_session_id access) = Some st" and time: "in_time env (au_reads s) st"
    and allowed: "run_allowed st access project client policy binding modes seconds bytes"
  shows "wpS (begin_run env access project client policy binding modes seconds bytes) (\<lambda>_ _. True) (\<lambda>_ _. False) s"
proof -
  let ?sid = "ac_session_id access"
  note sok = session_okD(1) [OF ok st]
  note c = allowed [unfolded run_allowed_def]
  have binding: "session_binding (ss_artifact st) = Some binding" using c by (simp add: context_matches_def)
  then have hex: "hex_text 64 binding" using session_ok_hex(4) [OF sok] by simp
  have "wpS (bindS (require_session env access False) (\<lambda>_.
      bindS (assert_session_context ?sid project client policy binding) (\<lambda>_.
      bindS (begin_guards ?sid modes seconds bytes) (\<lambda>_.
      grant_run env ?sid binding modes seconds bytes)))) (\<lambda>_ _. True) (\<lambda>_ _. False) s"
  proof (rule wp_seq [OF require_session_in_time [OF env ok st _ _ _ time]], goal_cases)
    case (4 u t)
    then have st': "map_of (au_sessions t) ?sid = Some st" using st by simp
    have "wpS (grant_run env ?sid binding modes seconds bytes) (\<lambda>_ _. True) (\<lambda>_ _. False) t"
      by (rule wp_mono [OF grant_run_spec [OF st' sok]]) (use c binding env in \<open>auto simp: clock_error_def\<close>)
    then show ?case
      using c context_no_mismatch [OF sok, of project client policy binding]
      by (auto simp: assert_session_context_def begin_guards_def wp_simps st' Let_def budget_fits_def list_ex_iff
          simp del: any_mismatch.simps)
  qed (use c in auto)
  then show ?thesis
    using c hex by (simp add: begin_run_def wp_simps Let_def validate_sha256_hex)
qed

end
