(* ===== verification/DockerSessionProperties.thy ===== *)
theory DockerSessionProperties
  imports DockerSessionProgress
begin

text \<open>
  The Docker session authority as a state machine: any sequence of its public calls, with any
  clock readings between them. The properties hold in every state such a sequence reaches.
\<close>

section \<open>Calls and reachable states\<close>

datatype docker_call =
    Authorize_existing_target container_target string string string "string list" string string int int int int
  | Authorize_managed_workload container_workload string string string int
  | Begin_run session_access string string string string "string list" int int
  | Assert_run_current session_access docker_run_lease string string string string string
  | Finish_run session_access docker_run_lease int int
  | Revoke session_access
  | Revoke_client_connection string
  | Snapshot session_access

definition outcome :: "'a result \<times> authority \<Rightarrow> py_error option \<times> authority" where
  "outcome r = (case r of (Inl e, t) \<Rightarrow> (Some e, t) | (Inr _, t) \<Rightarrow> (None, t))"

text \<open>The exception a call raises, if any, and the authority it leaves.\<close>

fun run_call :: "docker_env \<Rightarrow> docker_call \<Rightarrow> authority \<Rightarrow> py_error option \<times> authority" where
  "run_call env (Authorize_existing_target g p c po ms m x r se b h) s =
     outcome (authorize_existing_target env g p c po ms m x r se b h s)"
| "run_call env (Authorize_managed_workload w c po x b) s = outcome (authorize_managed_workload env w c po x b s)"
| "run_call env (Begin_run a p c po bi ms se b) s = outcome (begin_run env a p c po bi ms se b s)"
| "run_call env (Assert_run_current a l p c po bi m) s = outcome (assert_run_current env a l p c po bi m s)"
| "run_call env (Finish_run a l se b) s = outcome (finish_run env a l se b s)"
| "run_call env (Revoke a) s = outcome (revoke env a s)"
| "run_call env (Revoke_client_connection c) s = outcome (revoke_client_connection c s)"
| "run_call env (Snapshot a) s = outcome (snapshot env a s)"

text \<open>Target and workload contracts are constructed objects, so their digest fields are digests.\<close>

fun call_constructed :: "docker_call \<Rightarrow> bool" where
  "call_constructed (Authorize_existing_target g p c po ms m x r se b h) \<longleftrightarrow>
     hex_text 64 (ct_identity_fingerprint g) \<and> hex_text 64 (ct_content_sha256 g)"
| "call_constructed (Authorize_managed_workload w c po x b) \<longleftrightarrow> hex_text 64 (cw_content_sha256 w)"
| "call_constructed _ \<longleftrightarrow> True"

fun call_ascii :: "docker_call \<Rightarrow> bool" where
  "call_ascii (Begin_run a p c po bi ms se b) \<longleftrightarrow> list_all is_ascii [p, c, po]"
| "call_ascii (Assert_run_current a l p c po bi m) \<longleftrightarrow> list_all is_ascii [p, c, po, bi]"
| "call_ascii _ \<longleftrightarrow> True"

inductive docker_reachable :: "docker_env \<Rightarrow> int \<Rightarrow> authority \<Rightarrow> bool" for env n where
  start: "new_authority n = Inr s \<Longrightarrow> docker_reachable env n s"
| call: "docker_reachable env n s \<Longrightarrow> call_constructed c \<Longrightarrow> run_call env c s = (r, t) \<Longrightarrow> docker_reachable env n t"

inductive_simps docker_reachable_start: "docker_reachable env n \<lparr>au_max_sessions = m, au_sessions = [], au_reads = 0\<rparr>"

section \<open>One call\<close>

text \<open>What every call guarantees from a state that satisfies the invariant.\<close>

definition call_effect :: "docker_env \<Rightarrow> bool \<Rightarrow> authority \<Rightarrow> py_error option \<Rightarrow> authority \<Rightarrow> bool" where
  "call_effect env args s r t \<longleftrightarrow>
     authority_ok t \<and> au_max_sessions t = au_max_sessions s \<and>
     (\<forall>e. r = Some e \<longrightarrow> session_error env args e) \<and>
     (\<forall>k st'. map_of (au_sessions t) k = Some st' \<longrightarrow>
        (\<exists>st. map_of (au_sessions s) k = Some st \<and> session_steps st st') \<or>
        r = None \<and> fresh_session st' \<and>
          (\<exists>n < au_reads t. ss_monotonic_expires_at st' \<le>
             env_monotonic_clock env n + nanoseconds max_hard_expiry_seconds)) \<and>
     (\<forall>k st. map_of (au_sessions s) k = Some st \<longrightarrow> map_of (au_sessions t) k = None \<longrightarrow>
        (\<exists>st'. session_steps st st' \<and> sa_state (ss_artifact st') \<noteq> Active))"

lemma prunes_effect:
  assumes "prunes s t" and ok: "authority_ok s" and "\<forall>e. r = Some e \<longrightarrow> session_error env args e"
  shows "call_effect env args s r t"
  unfolding call_effect_def
proof (intro conjI allI impI)
  show "authority_ok t" using prunes_ok assms by blast
  show "au_max_sessions t = au_max_sessions s" using assms(1) by (auto simp: prunes_def evolves_def)
  fix k st assume "map_of (au_sessions s) k = Some st" "map_of (au_sessions t) k = None"
  moreover obtain u where u: "evolves s u" "map_of (au_sessions t) k = map_of (au_sessions u) k \<or>
      (\<exists>st. map_of (au_sessions u) k = Some st \<and> sa_state (ss_artifact st) \<noteq> Active)"
    using assms(1) unfolding prunes_def by metis
  moreover have "rel_option session_steps (map_of (au_sessions s) k) (map_of (au_sessions u) k)"
    using u(1) by (simp add: evolves_def)
  ultimately show "\<exists>st'. session_steps st st' \<and> sa_state (ss_artifact st') \<noteq> Active" by auto
qed (use assms prunes_lookup in auto)

lemma evolves_effect:
  "evolves s t \<Longrightarrow> authority_ok s \<Longrightarrow> \<forall>e. r = Some e \<longrightarrow> session_error env args e \<Longrightarrow> call_effect env args s r t"
  using prunes_effect evolves_prunes by blast

lemma authorized_effect:
  assumes "authorized env s r t" and ok: "authority_ok s"
  shows "call_effect env args s None t"
proof -
  obtain a access where r: "r = (a, access)" by (cases r)
  obtain st u where u: "prunes s u" "au_max_sessions t = au_max_sessions s"
      "au_sessions t = dict_set (ac_session_id access) st (au_sessions u)" "fresh_session st"
      "\<exists>n < au_reads t. ss_monotonic_expires_at st \<le> env_monotonic_clock env n + nanoseconds max_hard_expiry_seconds"
    and t: "admits s (ac_session_id access) st t"
    using assms(1) by (auto simp: authorized_def admits_def r)
  have "call_effect env args s None u" using prunes_effect u(1) ok by simp
  with u admits_ok [OF t ok] prunes_lookup [OF u(1)] show ?thesis
    by (simp add: call_effect_def map_of_dict_set del: map_of_eq_Some_iff split: if_splits)
qed

lemma wp_outcome:
  assumes "wpS m Q E s" and "outcome (m s) = (r, t)"
    and "\<And>x. r = None \<Longrightarrow> Q x t \<Longrightarrow> P" and "\<And>e. r = Some e \<Longrightarrow> E e t \<Longrightarrow> P"
  shows P
  using assms by (auto simp: wpS_def outcome_def split: prod.splits sum.splits)

lemma moves_effect:
  "wpS m (\<lambda>x t. moves sid s t \<and> Q x t) (fails env args sid s) s \<Longrightarrow> authority_ok s \<Longrightarrow>
     outcome (m s) = (r, t) \<Longrightarrow> call_effect env args s r t"
  by (erule wp_outcome, assumption) (auto intro!: evolves_effect moves_evolves)

lemma authorize_effect:
  "wpS m (\<lambda>x t. authorized env s x t) (\<lambda>x t. session_error env args x \<and> prunes s t) s \<Longrightarrow> authority_ok s \<Longrightarrow>
     outcome (m s) = (r, t) \<Longrightarrow> call_effect env args s r t"
  by (erule wp_outcome, assumption) (simp_all add: authorized_effect prunes_effect)

lemma run_call_effect:
  assumes ok: "authority_ok s" and "call_constructed c" and "run_call env c s = (r, t)"
  shows "call_effect env (call_ascii c) s r t"
proof (cases c)
  case (Authorize_existing_target g p cl po ms m x ru se b h)
  then show ?thesis
    using assms by (intro authorize_effect [OF authorize_existing_target_spec]) (auto intro: hex_text_ascii)
next
  case (Authorize_managed_workload w cl po x b)
  then show ?thesis
    using assms by (intro authorize_effect [OF authorize_managed_workload_spec]) (auto intro: hex_text_ascii)
next
  case (Begin_run a p cl po bi ms se b)
  then show ?thesis using assms moves_effect [OF begin_run_spec [OF ok]] by simp
next
  case (Assert_run_current a l p cl po bi m)
  have "wpS (assert_run_current env a l p cl po bi m) (\<lambda>x t. moves (ac_session_id a) s t \<and> True)
    (fails env (ascii_args [p, cl, po, bi]) (ac_session_id a) s) s"
    by (rule wp_mono [OF assert_run_current_spec [OF ok]]) auto
  with Assert_run_current show ?thesis using assms moves_effect by fastforce
next
  case (Finish_run a l se b)
  then show ?thesis using assms moves_effect [OF finish_run_spec [OF ok]] by simp
next
  case (Revoke a)
  then show ?thesis using assms moves_effect [OF revoke_spec [OF ok]] by simp
next
  case (Revoke_client_connection cl)
  then have "outcome (revoke_client_connection cl s) = (r, t)" using assms by simp
  with revoke_client_connection_spec [OF ok] show ?thesis
    by (rule wp_outcome) (use ok Revoke_client_connection in \<open>auto intro!: evolves_effect evolves_refl\<close>)
next
  case (Snapshot a)
  then show ?thesis using assms moves_effect [OF snapshot_spec [OF ok]] by simp
qed

lemma outcome_advances: "advances m \<Longrightarrow> outcome (m s) = (r, t) \<Longrightarrow> au_reads s \<le> au_reads t"
proof -
  assume "advances m" and o: "outcome (m s) = (r, t)"
  then have "au_reads s \<le> au_reads (snd (m s))" by (simp add: advances_def)
  moreover have "snd (m s) = t"
    using o by (cases "m s"; cases "fst (m s)") (simp_all add: outcome_def)
  ultimately show ?thesis by simp
qed

lemma run_call_advances: "run_call env c s = (r, t) \<Longrightarrow> au_reads s \<le> au_reads t"
  by (cases c) (simp_all add: outcome_advances [OF advances_calls(1)] outcome_advances [OF advances_calls(2)]
      outcome_advances [OF advances_calls(3)] outcome_advances [OF advances_calls(4)]
      outcome_advances [OF advances_calls(5)] outcome_advances [OF advances_calls(6)]
      outcome_advances [OF advances_calls(7)] outcome_advances [OF advances_calls(8)])

lemma docker_reachable_ok:
  "docker_reachable env n s \<Longrightarrow> authority_ok s \<and> au_max_sessions s = n \<and> deadlines_bounded env s"
proof (induction rule: docker_reachable.induct)
  case (start s)
  then show ?case
    by (auto simp: new_authority_def authority_ok_def deadlines_bounded_def)
next
  case (call s c r t)
  then have e: "call_effect env (call_ascii c) s r t" using run_call_effect by blast
  have "deadlines_bounded env t"
  proof (rule deadlines_bounded_mono [of env s])
    show "au_reads s \<le> au_reads t" using call.hyps(3) by (rule run_call_advances)
  qed (use call.IH e in \<open>unfold call_effect_def, blast+\<close>)
  with e call show ?case by (simp add: call_effect_def)
qed

section \<open>An example authority\<close>

text \<open>
  One place for a session, a fixed wall clock, and a monotonic clock that advances by \<open>tick\<close>
  seconds at each reading.
\<close>

definition example_env :: "int \<Rightarrow> docker_env" where
  "example_env tick =
     \<lparr>env_wall_clock = (\<lambda>_. \<lparr>dt_local = 63871200000000000, dt_offset = Some 0\<rparr>),
      env_monotonic_clock = (\<lambda>n. nanoseconds (tick * int n)),
      env_token_urlsafe = (\<lambda>n. ''token-'' @ str_nat n), env_token_bytes = (\<lambda>n. replicate 32 (int n mod 256))\<rparr>"

definition example_digest :: "char \<Rightarrow> string" where
  "example_digest c = replicate 64 c"

definition example_workload :: container_workload where
  "example_workload =
     (let dump = [(''schema_version'', JString ''1.0''), (''max_workload_runs'', JInt 3)] in
      \<lparr>cw_project_identity_sha256 = example_digest CHR ''a'', cw_allowed_modes = [''stat'', ''record''],
       cw_authorization_mode = ''bounded_session'', cw_max_workload_runs = 3, cw_max_active_seconds = 600,
       cw_hard_expiry_seconds = 3600, cw_content_sha256 = contract_content_sha256 dump [''content_sha256''],
       cw_dump = dump\<rparr>)"

definition example_call :: docker_call where
  "example_call = Authorize_managed_workload example_workload (example_digest CHR ''b'') (example_digest CHR ''c'')
     explicit_docker_session_authorization 10000"

definition example_state :: "int \<Rightarrow> authority" where
  "example_state tick =
     snd (run_call (example_env tick) example_call \<lparr>au_max_sessions = 1, au_sessions = [], au_reads = 0\<rparr>)"

lemma example_env_ok: "env_ok (example_env tick)"
  by (simp add: env_ok_def example_env_def microseconds_def max_hard_expiry_seconds_def dt_limit_def)

lemma example_digest_hex: "hex_text 64 (example_digest CHR ''a'')" "hex_text 64 (example_digest CHR ''b'')"
  "hex_text 64 (example_digest CHR ''c'')"
  by (simp_all add: hex_text_def example_digest_def)

lemma example_modes: "validate_modes [''stat'', ''record''] = Inr [''stat'', ''record'']"
  by code_simp

lemma example_request:
  "workload_request_ok example_workload (example_digest CHR ''b'') (example_digest CHR ''c'')
     explicit_docker_session_authorization 10000"
  using example_digest_hex
  by (simp add: workload_request_ok_def example_workload_def Let_def example_modes authorization_modes_def
      max_hard_expiry_seconds_def)

lemma example_start: "docker_reachable (example_env tick) 1 \<lparr>au_max_sessions = 1, au_sessions = [], au_reads = 0\<rparr>"
  by (rule docker_reachable.start) (simp add: new_authority_def)

lemma example_reachable: "docker_reachable (example_env tick) 1 (example_state tick)"
proof -
  have "call_constructed example_call"
    by (simp add: example_call_def example_workload_def Let_def contract_content_sha256_def)
  then show ?thesis
    using docker_reachable.call [OF example_start] by (simp add: example_state_def) (metis prod.collapse)
qed

lemma example_session:
  obtains access :: session_access and st n where "map_of (au_sessions (example_state tick)) (ac_session_id access) = Some st"
    "ss_token_sha256 st = secret_sha256 (ac_token access)" "fresh_session st"
    "workload_recorded (example_env tick) n st example_workload (example_digest CHR ''b'') (example_digest CHR ''c'') 10000"
proof -
  let ?s = "\<lparr>au_max_sessions = 1, au_sessions = [], au_reads = 0\<rparr>"
  have ok: "authority_ok ?s" by (simp add: authority_ok_def)
  have room: "room_ahead (example_env tick) ?s" by (simp add: room_ahead_def)
  from authorize_managed_workload_returns [OF example_env_ok ok room example_request]
  have "\<exists>(access :: session_access) st n. map_of (au_sessions (example_state tick)) (ac_session_id access) = Some st \<and>
      ss_token_sha256 st = secret_sha256 (ac_token access) \<and> fresh_session st \<and>
      workload_recorded (example_env tick) n st example_workload (example_digest CHR ''b'') (example_digest CHR ''c'') 10000"
    by (cases "authorize_managed_workload (example_env tick) example_workload (example_digest CHR ''b'')
        (example_digest CHR ''c'') explicit_docker_session_authorization 10000 ?s")
       (auto simp: wpS_def session_stored_def example_state_def example_call_def outcome_def
         simp del: map_of_eq_Some_iff split: sum.splits)
  then show ?thesis using that by blast
qed

section \<open>Properties\<close>

text \<open>
  C37. In every state that calls can reach, there are at most as many sessions as the authority
  was made for, under distinct identifiers; every stored artifact passes the contract's own
  validation and carries the digest of its content; and a run lease is held only by an active
  session, with its reservation inside the budgets already counted.
\<close>

theorem docker_sessions_wellformed:
  assumes "docker_reachable env n s"
  shows "1 \<le> n \<and> n \<le> 64 \<and> int (length (au_sessions s)) \<le> n \<and> distinct (map fst (au_sessions s)) \<and>
    (\<forall>sid st. map_of (au_sessions s) sid = Some st \<longrightarrow>
       model_validate (ss_artifact st) = Inr (ss_artifact st) \<and> sa_session_id (ss_artifact st) = sid \<and>
       sa_content_sha256 (ss_artifact st) = contract_content_sha256 (session_dump (ss_artifact st)) [''content_sha256''] \<and>
       (\<forall>l. ss_active_lease st = Some l \<longrightarrow>
          sa_state (ss_artifact st) = Active \<and> set (ls_allowed_modes l) \<subseteq> set (sa_allowed_modes (ss_artifact st)) \<and>
          0 < ls_reserved_active_seconds l \<and>
          ls_reserved_active_seconds l \<le> sa_active_seconds_used (ss_artifact st) \<and>
          sa_active_seconds_used (ss_artifact st) \<le> sa_max_active_seconds (ss_artifact st) \<and>
          0 < ls_reserved_evidence_bytes l \<and>
          ls_reserved_evidence_bytes l \<le> sa_evidence_bytes_used (ss_artifact st) \<and>
          sa_evidence_bytes_used (ss_artifact st) \<le> sa_max_evidence_bytes (ss_artifact st)))"
proof -
  have ok: "authority_ok s" and n: "au_max_sessions s = n" using docker_reachable_ok [OF assms] by auto
  have "session_ok sid st" if "map_of (au_sessions s) sid = Some st" for sid st
    using session_okD(1) [OF ok that] .
  moreover have "1 \<le> n \<and> n \<le> 64 \<and> int (length (au_sessions s)) \<le> n \<and> distinct (map fst (au_sessions s))"
    using ok n by (simp add: authority_ok_def)
  ultimately show ?thesis
    unfolding session_ok_def content_digest_def [symmetric]
    by (fastforce simp: lease_fits_def artifact_ok_defs(1) session_fields_ok_def validate_session_Inr
        simp del: map_of_eq_Some_iff)
qed

theorem docker_sessions_wellformed_witness:
  "au_sessions (example_state 0) \<noteq> [] \<and> length (au_sessions (example_state 0)) \<le> 1 \<and>
   (\<exists>sid st. map_of (au_sessions (example_state 0)) sid = Some st \<and> sa_session_id (ss_artifact st) = sid)"
proof -
  obtain access :: session_access and st n where "map_of (au_sessions (example_state 0)) (ac_session_id access) = Some st"
    by (rule example_session [of 0])
  moreover from this have "au_sessions (example_state 0) \<noteq> []" by auto
  moreover note docker_sessions_wellformed [OF example_reachable [of 0]]
  ultimately show ?thesis by (metis of_nat_1 of_nat_le_iff)
qed



text \<open>
  C39. While its clocks are before the deadlines of a session, \<open>begin_run\<close> grants a run exactly
  when the caller holds the session's token, the session is active without a run, the
  identities and the binding are the authorized ones, the modes are canonical and allowed, and
  the positive reservation fits the remaining budgets. The grant counts the run and reserves
  exactly what was asked, hands out the token of the stored lease, and touches no other session.
\<close>

theorem docker_run_granted:
  assumes "docker_reachable env n s" and "env_ok env"
    and "map_of (au_sessions s) (ac_session_id access) = Some st" and "in_time env (au_reads s) st"
  shows "((\<exists>lease t. begin_run env access project client policy binding modes seconds bytes s = (Inr lease, t)) \<longleftrightarrow>
      run_allowed st access project client policy binding modes seconds bytes) \<and>
    (\<forall>lease t. begin_run env access project client policy binding modes seconds bytes s = (Inr lease, t) \<longrightarrow>
      (\<forall>k. k \<noteq> ac_session_id access \<longrightarrow> map_of (au_sessions t) k = map_of (au_sessions s) k) \<and>
      rl_run_number lease = sa_workload_runs_used (ss_artifact st) + 1 \<and>
      (\<exists>st' l. map_of (au_sessions t) (ac_session_id access) = Some st' \<and> ss_active_lease st' = Some l \<and>
         ls_token_sha256 l = secret_sha256 (rl_token lease) \<and> ls_lease_id l = rl_lease_id lease \<and>
         sa_workload_runs_used (ss_artifact st') = sa_workload_runs_used (ss_artifact st) + 1 \<and>
         sa_active_seconds_used (ss_artifact st') = sa_active_seconds_used (ss_artifact st) + seconds \<and>
         sa_evidence_bytes_used (ss_artifact st') = sa_evidence_bytes_used (ss_artifact st) + bytes))"
proof -
  have ok: "authority_ok s" using docker_reachable_ok [OF assms(1)] by simp
  let ?m = "begin_run env access project client policy binding modes seconds bytes"
  note spec = begin_run_spec [OF ok, of env access project client policy binding modes seconds bytes]
  have "\<exists>lease t. ?m s = (Inr lease, t)" if "run_allowed st access project client policy binding modes seconds bytes"
    using begin_run_returns [OF assms(2) ok assms(3,4) that]
    by (cases "?m s"; cases "fst (?m s)") (auto simp: wpS_def)
  moreover have "run_allowed st access project client policy binding modes seconds bytes" if "?m s = (Inr lease, t)" for lease t
    using wpD [OF spec that] assms(3)
    by (auto simp: run_allowed_def knows_token_def simp del: map_of_eq_Some_iff)
  moreover note wpD [OF spec]
  ultimately show ?thesis
    using assms(3)
    by (fastforce simp: moves_def reserved_def lease_granted_def lease_matches_def simp del: map_of_eq_Some_iff)
qed

theorem docker_run_granted_witness:
  "\<exists>access lease t. begin_run (example_env 0) access (example_digest CHR ''a'') (example_digest CHR ''b'')
     (example_digest CHR ''c'') (cw_content_sha256 example_workload) [''stat'', ''record''] 100 5000 (example_state 0) = (Inr lease, t)"
proof -
  obtain access :: session_access and st n where st: "map_of (au_sessions (example_state 0)) (ac_session_id access) = Some st"
    and token: "ss_token_sha256 st = secret_sha256 (ac_token access)" and fresh: "fresh_session st"
    and rec: "workload_recorded (example_env 0) n st example_workload (example_digest CHR ''b'') (example_digest CHR ''c'') 10000"
    by (rule example_session [of 0])
  have "in_time (example_env 0) (au_reads (example_state 0)) st"
    using rec by (simp add: workload_recorded_def terms_recorded_def in_time_def Let_def example_env_def
        example_workload_def microseconds_def nanoseconds_def)
  moreover have "run_allowed st access (example_digest CHR ''a'') (example_digest CHR ''b'') (example_digest CHR ''c'')
      (cw_content_sha256 example_workload) [''stat'', ''record''] 100 5000"
    using rec token fresh example_modes
    by (simp add: workload_recorded_def terms_recorded_def Let_def run_allowed_def fresh_session_def
        context_matches_def session_binding_def budget_fits_def example_workload_def)
  ultimately show ?thesis
    using docker_run_granted [OF example_reachable example_env_ok st] by blast
qed

text \<open>
  C40. The authority recovers its capacity: once every reading of the monotonic clock is two
  hours past the readings made so far, a well-formed request for a managed workload is
  authorized, however many sessions are stored. The access it returns opens an active, unused
  session that records the requested terms.
\<close>

theorem docker_capacity_recovers:
  assumes "docker_reachable env n s" and "env_ok env"
    and "\<forall>i < au_reads s. \<forall>j \<ge> au_reads s.
      env_monotonic_clock env i + nanoseconds max_hard_expiry_seconds \<le> env_monotonic_clock env j"
    and "workload_request_ok workload client policy explicit bytes"
  shows "\<exists>a access t k st. authorize_managed_workload env workload client policy explicit bytes s = (Inr (a, access), t) \<and>
    map_of (au_sessions t) (ac_session_id access) = Some st \<and> ss_artifact st = a \<and>
    ss_token_sha256 st = secret_sha256 (ac_token access) \<and> fresh_session st \<and>
    workload_recorded env k st workload client policy bytes"
proof -
  have ok: "authority_ok s" and d: "deadlines_bounded env s" using docker_reachable_ok [OF assms(1)] by auto
  have "room_ahead env s"
  proof (cases "au_sessions s")
    case Nil
    then show ?thesis using ok by (simp add: room_ahead_def authority_ok_def)
  next
    case (Cons p ps)
    then have "map_of (au_sessions s) (fst p) = Some (snd p)" by (cases p) simp
    moreover from this d obtain i where "i < au_reads s" "ss_monotonic_expires_at (snd p) \<le>
        env_monotonic_clock env i + nanoseconds max_hard_expiry_seconds"
      by (auto simp: deadlines_bounded_def simp del: map_of_eq_Some_iff)
    then have "overdue env (au_reads s) (snd p)" using assms(3) by (force simp: overdue_def)
    ultimately show ?thesis by (auto simp: room_ahead_def simp del: map_of_eq_Some_iff)
  qed
  from authorize_managed_workload_returns [OF assms(2) ok this assms(4)]
  show ?thesis
    by (cases "authorize_managed_workload env workload client policy explicit bytes s";
        cases "fst (authorize_managed_workload env workload client policy explicit bytes s)")
       (auto simp: wpS_def session_stored_def simp del: map_of_eq_Some_iff)
qed

theorem docker_capacity_recovers_witness:
  "au_sessions (example_state 7200) \<noteq> [] \<and>
   (\<exists>a access t. authorize_managed_workload (example_env 7200) example_workload (example_digest CHR ''b'')
      (example_digest CHR ''c'') explicit_docker_session_authorization 10000 (example_state 7200) = (Inr (a, access), t))"
proof -
  have "\<forall>i < au_reads (example_state 7200). \<forall>j \<ge> au_reads (example_state 7200).
      env_monotonic_clock (example_env 7200) i + nanoseconds max_hard_expiry_seconds
        \<le> env_monotonic_clock (example_env 7200) j"
    by (auto simp: example_env_def nanoseconds_def max_hard_expiry_seconds_def)
  from docker_capacity_recovers [OF example_reachable example_env_ok this example_request]
  have "\<exists>a access t. authorize_managed_workload (example_env 7200) example_workload (example_digest CHR ''b'')
      (example_digest CHR ''c'') explicit_docker_session_authorization 10000 (example_state 7200) = (Inr (a, access), t)"
    by blast
  moreover obtain access :: session_access and st n where "map_of (au_sessions (example_state 7200)) (ac_session_id access) = Some st"
    by (rule example_session [of 7200])
  ultimately show ?thesis by (auto simp del: map_of_eq_Some_iff)
qed

end
