(* ===== verification/Regex.thy ===== *)
theory Regex
  imports Prelude
begin

text \<open>
  The regular expressions of the parsers. An expression matches greedily and
  backtracks like Python's \<open>re\<close>: \<open>parses\<close> lists every way to match a prefix, in the order in
  which \<open>re\<close> tries them, with the captured groups and what is left of the input.
  \<open>fullmatch\<close> takes the first that leaves nothing. Repetition is only needed of character classes; \<open>Lazy\<close> is the non-greedy \<open>*?\<close>.
\<close>

type_synonym bytes = "int list"
type_synonym 'a captures = "(string \<times> 'a list) list"

datatype 'a regex =
    Chars "'a \<Rightarrow> bool" nat "nat option"
  | Lazy "'a \<Rightarrow> bool"
  | Text "'a list"
  | Both "'a regex" "'a regex"
  | Either "'a regex" "'a regex"
  | Maybe "'a regex"
  | Group string "'a regex"

definition repeat_lengths :: "('a \<Rightarrow> bool) \<Rightarrow> nat \<Rightarrow> nat option \<Rightarrow> 'a list \<Rightarrow> nat list" where
  "repeat_lengths p least most s =
     rev [least ..< Suc (length (takeWhile p (case most of None \<Rightarrow> s | Some n \<Rightarrow> take n s)))]"

fun parses :: "'a regex \<Rightarrow> 'a list \<Rightarrow> ('a captures \<times> 'a list) list" where
  "parses (Chars p least most) s = map (\<lambda>n. ([], drop n s)) (repeat_lengths p least most s)"
| "parses (Lazy p) s = map (\<lambda>n. ([], drop n s)) (rev (repeat_lengths p 0 None s))"
| "parses (Text t) s = (if take (length t) s = t then [([], drop (length t) s)] else [])"
| "parses (Both r q) s =
     concat (map (\<lambda>(c, rest). map (\<lambda>(d, z). (c @ d, z)) (parses q rest)) (parses r s))"
| "parses (Either r q) s = parses r s @ parses q s"
| "parses (Maybe r) s = parses r s @ [([], s)]"
| "parses (Group name r) s = map (\<lambda>(c, z). (c @ [(name, take (length s - length z) s)], z)) (parses r s)"

definition fullmatch :: "'a regex \<Rightarrow> 'a list \<Rightarrow> 'a captures option" where
  "fullmatch r s = map_option fst (find (\<lambda>(c, z). z = []) (parses r s))"

text \<open>A match at the start of the input: its captures, its length and the rest.\<close>

definition match_prefix :: "'a regex \<Rightarrow> 'a list \<Rightarrow> ('a captures \<times> 'a list) option" where
  "match_prefix r s = (case parses r s of [] \<Rightarrow> None | m # _ \<Rightarrow> Some m)"

text \<open>\<open>match.group(name)\<close>; a group that took no part is \<open>None\<close> in Python and empty here.\<close>

definition group_of :: "'a captures \<Rightarrow> string \<Rightarrow> 'a list" where
  "group_of c name = dict_get_or [] c name"

fun seq :: "'a regex list \<Rightarrow> 'a regex" where
  "seq [] = Text []"
| "seq [r] = r"
| "seq (r # q # rs) = Both r (seq (q # rs))"

section \<open>Meaning\<close>

text \<open>\<open>derives r m c\<close>: the expression matches exactly \<open>m\<close>, with captures \<open>c\<close>.\<close>

fun derives :: "'a regex \<Rightarrow> 'a list \<Rightarrow> 'a captures \<Rightarrow> bool" where
  "derives (Chars p least most) m c \<longleftrightarrow>
     c = [] \<and> list_all p m \<and> least \<le> length m \<and> (case most of None \<Rightarrow> True | Some n \<Rightarrow> length m \<le> n)"
| "derives (Lazy p) m c \<longleftrightarrow> c = [] \<and> list_all p m"
| "derives (Text t) m c \<longleftrightarrow> c = [] \<and> m = t"
| "derives (Both r q) m c \<longleftrightarrow>
     (\<exists>m1 m2 c1 c2. m = m1 @ m2 \<and> c = c1 @ c2 \<and> derives r m1 c1 \<and> derives q m2 c2)"
| "derives (Either r q) m c \<longleftrightarrow> derives r m c \<or> derives q m c"
| "derives (Maybe r) m c \<longleftrightarrow> derives r m c \<or> m = [] \<and> c = []"
| "derives (Group name r) m c \<longleftrightarrow> (\<exists>c'. c = c' @ [(name, m)] \<and> derives r m c')"

lemma takeWhile_length_iff:
  "n \<le> length (takeWhile p xs) \<longleftrightarrow> n \<le> length xs \<and> list_all p (take n xs)"
proof (induction xs arbitrary: n)
  case (Cons x xs)
  then show ?case by (cases n) auto
qed simp

lemma repeat_lengths_iff:
  "n \<in> set (repeat_lengths p least most s) \<longleftrightarrow>
     least \<le> n \<and> n \<le> length s \<and> list_all p (take n s) \<and> (case most of None \<Rightarrow> True | Some k \<Rightarrow> n \<le> k)"
proof -
  have "n \<in> set (repeat_lengths p least most s) \<longleftrightarrow>
      least \<le> n \<and> n \<le> length (takeWhile p (case most of None \<Rightarrow> s | Some k \<Rightarrow> take k s))"
    by (simp add: repeat_lengths_def less_Suc_eq_le del: upt_Suc)
  then show ?thesis
    by (auto simp: takeWhile_length_iff take_take min_absorb1 split: option.splits)
qed

lemma parses_chars:
  "(c, z) \<in> set (parses (Chars p least most) s) \<longleftrightarrow> (\<exists>m. s = m @ z \<and> derives (Chars p least most) m c)"
proof
  assume "(c, z) \<in> set (parses (Chars p least most) s)"
  then obtain n where "n \<in> set (repeat_lengths p least most s)" "c = []" "z = drop n s" by auto
  then show "\<exists>m. s = m @ z \<and> derives (Chars p least most) m c"
    by (intro exI [of _ "take n s"]) (auto simp: repeat_lengths_iff split: option.splits)
next
  assume "\<exists>m. s = m @ z \<and> derives (Chars p least most) m c"
  then obtain m where m: "s = m @ z" "derives (Chars p least most) m c" by blast
  then have "length m \<in> set (repeat_lengths p least most s)" by (simp add: repeat_lengths_iff)
  with m show "(c, z) \<in> set (parses (Chars p least most) s)" by force
qed

lemma parses_derives: "(c, z) \<in> set (parses r s) \<longleftrightarrow> (\<exists>m. s = m @ z \<and> derives r m c)"
proof (induction r arbitrary: s c z)
  case (Chars p least most)
  show ?case by (rule parses_chars)
next
  case (Lazy p)
  have "parses (Lazy p) s = rev (parses (Chars p 0 None) s)" by (simp add: rev_map)
  then have "(c, z) \<in> set (parses (Lazy p) s) \<longleftrightarrow> (c, z) \<in> set (parses (Chars p 0 None) s)" by simp
  also have "\<dots> \<longleftrightarrow> (\<exists>m. s = m @ z \<and> derives (Lazy p) m c)"
    using parses_chars [of c z p 0 None s] by simp
  finally show ?case .
next
  case (Text t)
  show ?case by (auto intro: append_take_drop_id [symmetric]) (metis append_take_drop_id)
next
  case (Both r q)
  have "(c, z) \<in> set (parses (Both r q) s) \<longleftrightarrow>
      (\<exists>c1 rest c2. (c1, rest) \<in> set (parses r s) \<and> (c2, z) \<in> set (parses q rest) \<and> c = c1 @ c2)"
    by force
  then show ?case by (auto simp: Both.IH) (metis append.assoc)+
next
  case (Group name r)
  have "(c, z) \<in> set (parses (Group name r) s) \<longleftrightarrow>
      (\<exists>c'. (c', z) \<in> set (parses r s) \<and> c = c' @ [(name, take (length s - length z) s)])"
    by force
  then show ?case by (auto simp: Group.IH)
qed auto

lemma fullmatch_derives: "fullmatch r s = Some c \<Longrightarrow> derives r s c"
proof -
  assume "fullmatch r s = Some c"
  then have "(c, []) \<in> set (parses r s)"
    by (auto simp: fullmatch_def find_Some_iff in_set_conv_nth)
  then show ?thesis by (simp add: parses_derives)
qed

lemma fullmatch_None: "fullmatch r s = None \<longleftrightarrow> (\<nexists>c. derives r s c)"
  using parses_derives [of _ "[]" r s] by (auto simp: fullmatch_def find_None_iff)

lemma match_prefix_derives: "match_prefix r s = Some (c, z) \<Longrightarrow> \<exists>m. s = m @ z \<and> derives r m c"
  using parses_derives [of c z r s] by (auto simp: match_prefix_def split: list.splits)

section \<open>Groups\<close>

text \<open>What a group captures is matched by the expression under that name.\<close>

fun groups :: "'a regex \<Rightarrow> (string \<times> 'a regex) list" where
  "groups (Both r q) = groups r @ groups q"
| "groups (Either r q) = groups r @ groups q"
| "groups (Maybe r) = groups r"
| "groups (Group name r) = groups r @ [(name, r)]"
| "groups _ = []"

lemma derives_groups:
  "derives r m c \<Longrightarrow> (name, v) \<in> set c \<Longrightarrow> \<exists>q c'. (name, q) \<in> set (groups r) \<and> derives q v c'"
proof (induction r arbitrary: m c)
  case (Both r q)
  then obtain m1 m2 c1 c2 where "derives r m1 c1" "derives q m2 c2" "(name, v) \<in> set c1 \<or> (name, v) \<in> set c2"
    by auto
  with Both.IH show ?case unfolding groups.simps set_append by blast
next
  case (Either r q)
  then show ?case unfolding groups.simps set_append derives.simps by blast
next
  case (Maybe r)
  then show ?case by auto
next
  case (Group n r)
  then obtain c' where "derives r m c'" "(name, v) \<in> set c' \<or> (name, v) = (n, m)" by auto
  with Group.IH [of m c'] show ?case unfolding groups.simps set_append by auto
qed auto

lemma group_of_cases:
  obtains (absent) "group_of c name = []" | (present) "(name, group_of c name) \<in> set c"
  by (cases "map_of c name") (auto simp: group_of_def dict_get_or_def dest: map_of_SomeD)

lemma group_chars:
  assumes "fullmatch r s = Some c" and "\<And>q. (name, q) \<in> set (groups r) \<Longrightarrow> \<exists>least most. q = Chars p least most"
  shows "list_all p (group_of c name)"
proof (cases rule: group_of_cases [of c name])
  case present
  from derives_groups [OF fullmatch_derives [OF assms(1)] this] obtain q c' where
    "(name, q) \<in> set (groups r)" "derives q (group_of c name) c'" by blast
  then show ?thesis using assms(2) by fastforce
qed simp


text \<open>A group is part of the text.\<close>

lemma derives_capture_length: "derives r m c \<Longrightarrow> (name, v) \<in> set c \<Longrightarrow> length v \<le> length m"
proof (induction r arbitrary: m c)
  case (Both r q)
  then obtain m1 m2 c1 c2 where "m = m1 @ m2" "derives r m1 c1" "derives q m2 c2" "(name, v) \<in> set c1 \<or> (name, v) \<in> set c2"
    by auto
  with Both.IH(1) [of m1 c1] Both.IH(2) [of m2 c2] show ?case by auto
qed auto

lemma group_length: "fullmatch r s = Some c \<Longrightarrow> length (group_of c name) \<le> length s"
  by (cases rule: group_of_cases [of c name]) (auto dest: fullmatch_derives derives_capture_length)

end
