(* ===== verification/TraceAdapter.thy ===== *)
theory TraceAdapter
  imports TraceSequence ContractJson Regex
begin

text \<open>
  What the two trace adapters of \<open>src/src/perflens/profiles/\<close> share: the result types of
  \<open>trace_stream.py\<close>, file metadata and reading by lines, the scope an adapter works in, and the
  soundness of the events an adapter builds: they name only observed threads of the target
  or nobody, and pass the validation of \<open>domain/trace.py\<close> unless a record contradicts itself.
\<close>

section \<open>Results\<close>

record trace_parse_diagnostic =
  pd_code :: string
  pd_line_number :: int
  pd_message :: string

record trace_parse_statistics =
  ps_input_bytes :: int
  ps_input_line_count :: int
  ps_input_event_count :: int
  ps_emitted_event_count :: int
  ps_lost_event_count :: int
  ps_malformed_event_count :: int
  ps_duplicate_event_count :: int
  ps_out_of_order_event_count :: int
  ps_unsupported_event_count :: int
  ps_truncated_event_count :: int
  ps_foreign_event_dropped_count :: int
  ps_provisional_enrichment_event_count :: int
  ps_lock_phase_enrichment_event_count :: int
  ps_diagnostic_count :: int
  ps_diagnostics :: "trace_parse_diagnostic list"
  ps_diagnostics_truncated :: bool

definition parse_statistics_post_init :: "trace_parse_statistics \<Rightarrow> unit result" where
  "parse_statistics_post_init p =
     (let classified =
            ps_emitted_event_count p + ps_malformed_event_count p + ps_duplicate_event_count p +
            ps_out_of_order_event_count p + ps_unsupported_event_count p + ps_truncated_event_count p +
            ps_foreign_event_dropped_count p + ps_provisional_enrichment_event_count p +
            ps_lock_phase_enrichment_event_count p
      in
      bindE (raise_if (classified \<noteq> ps_input_event_count p)
        (ValueError ''trace parser input event counts are not conserved'')) (\<lambda>_.
      bindE (raise_if (ps_diagnostic_count p < int (length (ps_diagnostics p)))
        (ValueError ''trace diagnostic sample exceeds diagnostic count'')) (\<lambda>_.
      raise_if (ps_diagnostics_truncated p \<noteq> (ps_diagnostic_count p > int (length (ps_diagnostics p))))
        (ValueError ''trace diagnostic truncation flag is inconsistent''))))"

definition parse_statistics_partial :: "trace_parse_statistics \<Rightarrow> bool" where
  "parse_statistics_partial p \<longleftrightarrow>
     ps_emitted_event_count p = 0 \<or> ps_lost_event_count p \<noteq> 0 \<or> ps_malformed_event_count p \<noteq> 0 \<or>
     ps_duplicate_event_count p \<noteq> 0 \<or> ps_out_of_order_event_count p \<noteq> 0 \<or>
     ps_unsupported_event_count p \<noteq> 0 \<or> ps_truncated_event_count p \<noteq> 0 \<or>
     ps_foreign_event_dropped_count p \<noteq> 0 \<or> ps_diagnostic_count p \<noteq> 0 \<or>
     ps_diagnostics_truncated p"

record trace_stream_parse_result =
  pr_events :: "trace_event list"
  pr_observed_target_tids :: "int list"
  pr_statistics :: trace_parse_statistics

section \<open>Files\<close>

record file_stat =
  fs_dev :: int
  fs_ino :: int
  fs_mode :: int
  fs_nlink :: int
  fs_uid :: int
  fs_gid :: int
  fs_size :: int
  fs_mtime_ns :: int
  fs_ctime_ns :: int

text \<open>
  What the operating system answers while a file is opened and read; \<open>None\<close> is an
  \<open>OSError\<close>: opening and \<open>fstat\<close>, the bytes that reading delivers, and the number of the
  read that fails, if one does.
\<close>

record trace_file =
  tf_open :: "file_stat option"
  tf_content :: bytes
  tf_read_fails :: "nat option"

text \<open>\<open>stat.S_ISREG\<close> and \<open>stat.S_IMODE\<close>.\<close>

definition s_isreg :: "int \<Rightarrow> bool" where
  "s_isreg m \<longleftrightarrow> m div 4096 mod 16 = 8"

definition s_imode :: "int \<Rightarrow> int" where
  "s_imode m = m mod 4096"

text \<open>\<open>readline(limit)\<close> on bytes: up to and including the next line feed, at most \<open>limit\<close> bytes.\<close>

definition bytes_readline :: "nat \<Rightarrow> bytes \<Rightarrow> bytes" where
  "bytes_readline limit content =
     take (min limit (Suc (length (takeWhile (\<lambda>b. b \<noteq> 10) content)))) content"

text \<open>The file as the reads split it.\<close>

function byte_lines :: "nat \<Rightarrow> bytes \<Rightarrow> bytes list" where
  "byte_lines limit content =
     (let line = bytes_readline limit content in
      if line = [] then [] else line # byte_lines limit (drop (length line) content))"
  by pat_completeness auto
termination
  by (relation "measure (\<lambda>(limit, content). length content)") (auto simp: bytes_readline_def)

declare byte_lines.simps [simp del]

lemma bytes_readline_take: "\<exists>n. bytes_readline limit content = take n content"
  by (auto simp: bytes_readline_def)

lemma concat_byte_lines:
  assumes "0 < limit"
  shows "concat (byte_lines limit content) = content"
  using assms
proof (induction limit content rule: byte_lines.induct)
  case (1 limit content)
  let ?line = "bytes_readline limit content"
  obtain n where n: "?line = take n content" using bytes_readline_take by blast
  show ?case
  proof (cases "?line = []")
    case True
    then have "content = []" using "1.prems" by (auto simp: bytes_readline_def)
    with True show ?thesis by (simp add: byte_lines.simps)
  next
    case False
    have "?line @ drop (length ?line) content = content"
      unfolding n by (metis append_take_drop_id drop_take length_take min.commute take_drop nat_le_linear take_all min_def)
    then show ?thesis using 1(1) [OF refl False "1.prems"] False by (subst byte_lines.simps) (simp add: Let_def)
  qed
qed

section \<open>Scope\<close>

record trace_adapter =
  ad_target :: target_identity
  ad_target_tids :: "int list"
  ad_mode :: string
  ad_limits :: trace_limits

type_synonym relation = "task_identity option \<times> trace_scope option"

definition target_task :: "'a trace_adapter_scheme \<Rightarrow> int \<Rightarrow> task_identity" where
  "target_task cfg tid = \<lparr>task_pid = Some (tgt_pid (ad_target cfg)), task_tid = Some tid\<rparr>"

section \<open>Clean text\<close>

definition clean_text :: "nat \<Rightarrow> string \<Rightarrow> bool" where
  "clean_text n t \<longleftrightarrow> t \<noteq> [] \<and> length t \<le> n \<and> set t \<inter> set forbidden_controls = {}"

lemma clean_text_valid:
  assumes "clean_text n t" and "int n \<le> tl_max_line_chars lim"
  shows "validate_bounded_text t name lim = Inr ()"
  using assms by (auto simp: clean_text_def validate_bounded_text_def)

lemma hex_not_control: "set ''0123456789abcdef'' \<inter> set forbidden_controls = {}"
  by code_simp

section \<open>Events\<close>

text \<open>A task that may leave the adapter: an observed thread of the target, or nobody.\<close>

definition private_task :: "'a trace_adapter_scheme \<Rightarrow> task_identity \<times> trace_scope \<Rightarrow> bool" where
  "private_task cfg p \<longleftrightarrow>
     p = (external_redacted, Scope_FOREIGN) \<or>
     (\<exists>tid \<in> set (ad_target_tids cfg). p = (target_task cfg tid, Scope_TARGET))"

definition private_relation :: "'a trace_adapter_scheme \<Rightarrow> relation \<Rightarrow> bool" where
  "private_relation cfg r \<longleftrightarrow>
     r = (None, None) \<or> (\<exists>t sc. r = (Some t, Some sc) \<and> private_task cfg (t, sc))"

text \<open>The two contradictions a record of the right shape can still contain.\<close>

fun event_consistent :: "trace_event \<Rightarrow> bool" where
  "event_consistent (SchedMigrate e) = (mg_origin_cpu e \<noteq> mg_destination_cpu e)"
| "event_consistent (Futex e) =
     (if fx_action e = Futex_WAIT
      then fx_operation e \<in> {Op_WAIT, Op_WAIT_BITSET, Op_WAIT_REQUEUE_PI, Op_UNKNOWN}
      else fx_operation e \<in> {Op_WAKE, Op_WAKE_BITSET, Op_REQUEUE, Op_UNKNOWN})"
| "event_consistent _ = True"

definition limits_fit :: "'a trace_adapter_scheme \<Rightarrow> bool" where
  "limits_fit cfg \<longleftrightarrow> validate_target (ad_target cfg) = Inr () \<and>
     30 \<le> tl_max_line_chars (ad_limits cfg) \<and> 0 \<le> tl_max_stack_depth (ad_limits cfg) \<and>
     (\<forall>tid \<in> set (ad_target_tids cfg). 1 \<le> tid)"

definition event_sound :: "'a trace_adapter_scheme \<Rightarrow> trace_event \<Rightarrow> bool" where
  "event_sound cfg e \<longleftrightarrow>
     te_target (ev_base e) = ad_target cfg \<and>
     (\<forall>p \<in> set (tasks_for_event e). private_task cfg p) \<and>
     (limits_fit cfg \<longrightarrow> (validate_trace_event e (ad_limits cfg) = Inr () \<longleftrightarrow> event_consistent e))"

lemma private_task_valid:
  assumes "limits_fit cfg" and "private_task cfg (t, sc)"
  shows "validate_scoped_task t sc (ad_target cfg) name = Inr ()"
  using assms
  by (auto simp: private_task_def limits_fit_def validate_scoped_task_def external_redacted_def
      target_task_def validate_task_def validate_target_def require_plain_int_def)

lemma private_target: "tid \<in> set (ad_target_tids cfg) \<Longrightarrow> private_task cfg (target_task cfg tid, Scope_TARGET)"
  by (auto simp: private_task_def)

lemma private_redacted: "private_task cfg (external_redacted, Scope_FOREIGN)"
  by (simp add: private_task_def)

text \<open>The common fields of an event, filled in as both adapters do.\<close>

definition base_ok :: "'a trace_adapter_scheme \<Rightarrow> trace_event_base \<Rightarrow> bool" where
  "base_ok cfg b \<longleftrightarrow>
     te_target b = ad_target cfg \<and> te_stack b = [] \<and> clean_text 30 (te_event_id b) \<and>
     0 \<le> te_sequence b \<and> 0 \<le> te_timestamp_ns b \<and> (\<exists>c \<ge> 0. te_cpu b = Some c)"

lemma base_valid:
  assumes "limits_fit cfg" and "base_ok cfg b"
  shows "validate_common b (ad_limits cfg) = Inr ()"
proof -
  have id: "clean_text 30 (te_event_id b)" and "base_ok cfg b" using assms(2) by (simp_all add: base_ok_def)
  then show ?thesis
    using assms clean_text_valid [OF id, of "ad_limits cfg"]
    by (auto simp: base_ok_def validate_common_def limits_fit_def require_plain_int_def validate_stack_def)
qed

lemma truncate_extend [simp]:
  "trace_event_base.truncate (trace_event_base.extend (b :: trace_event_base) m) = b"
  by (cases b) (simp add: trace_event_base.defs)

lemma extend_simps [simp]:
  "te_target (trace_event_base.extend (b :: trace_event_base) m) = te_target b"
  "te_semantics (trace_event_base.extend (b :: trace_event_base) m) = te_semantics b"
  by (simp_all add: trace_event_base.defs)

lemma sched_switch_event_fields [simp]:
  "sw_previous (trace_event_base.extend (b :: trace_event_base) (sched_switch_event.fields x0 x1 x2 x3 x4)) = x0"
  "sw_previous_scope (trace_event_base.extend (b :: trace_event_base) (sched_switch_event.fields x0 x1 x2 x3 x4)) = x1"
  "sw_next (trace_event_base.extend (b :: trace_event_base) (sched_switch_event.fields x0 x1 x2 x3 x4)) = x2"
  "sw_next_scope (trace_event_base.extend (b :: trace_event_base) (sched_switch_event.fields x0 x1 x2 x3 x4)) = x3"
  "sw_previous_state (trace_event_base.extend (b :: trace_event_base) (sched_switch_event.fields x0 x1 x2 x3 x4)) = x4"
  by (simp_all add: trace_event_base.defs sched_switch_event.defs)

lemma sched_wakeup_event_fields [simp]:
  "wk_woken (trace_event_base.extend (b :: trace_event_base) (sched_wakeup_event.fields x0 x1 x2 x3 x4)) = x0"
  "wk_woken_scope (trace_event_base.extend (b :: trace_event_base) (sched_wakeup_event.fields x0 x1 x2 x3 x4)) = x1"
  "wk_source (trace_event_base.extend (b :: trace_event_base) (sched_wakeup_event.fields x0 x1 x2 x3 x4)) = x2"
  "wk_waker (trace_event_base.extend (b :: trace_event_base) (sched_wakeup_event.fields x0 x1 x2 x3 x4)) = x3"
  "wk_waker_scope (trace_event_base.extend (b :: trace_event_base) (sched_wakeup_event.fields x0 x1 x2 x3 x4)) = x4"
  by (simp_all add: trace_event_base.defs sched_wakeup_event.defs)

lemma sched_migrate_event_fields [simp]:
  "mg_task (trace_event_base.extend (b :: trace_event_base) (sched_migrate_event.fields x0 x1 x2 x3)) = x0"
  "mg_task_scope (trace_event_base.extend (b :: trace_event_base) (sched_migrate_event.fields x0 x1 x2 x3)) = x1"
  "mg_origin_cpu (trace_event_base.extend (b :: trace_event_base) (sched_migrate_event.fields x0 x1 x2 x3)) = x2"
  "mg_destination_cpu (trace_event_base.extend (b :: trace_event_base) (sched_migrate_event.fields x0 x1 x2 x3)) = x3"
  by (simp_all add: trace_event_base.defs sched_migrate_event.defs)

lemma lock_event_fields [simp]:
  "lk_task (trace_event_base.extend (b :: trace_event_base) (lock_event.fields x0 x1 x2 x3 x4 x5 x6)) = x0"
  "lk_task_scope (trace_event_base.extend (b :: trace_event_base) (lock_event.fields x0 x1 x2 x3 x4 x5 x6)) = x1"
  "lk_action (trace_event_base.extend (b :: trace_event_base) (lock_event.fields x0 x1 x2 x3 x4 x5 x6)) = x2"
  "lk_lock_id (trace_event_base.extend (b :: trace_event_base) (lock_event.fields x0 x1 x2 x3 x4 x5 x6)) = x3"
  "lk_wait_outcome (trace_event_base.extend (b :: trace_event_base) (lock_event.fields x0 x1 x2 x3 x4 x5 x6)) = x4"
  "lk_owner (trace_event_base.extend (b :: trace_event_base) (lock_event.fields x0 x1 x2 x3 x4 x5 x6)) = x5"
  "lk_owner_scope (trace_event_base.extend (b :: trace_event_base) (lock_event.fields x0 x1 x2 x3 x4 x5 x6)) = x6"
  by (simp_all add: trace_event_base.defs lock_event.defs)

lemma futex_event_fields [simp]:
  "fx_task (trace_event_base.extend (b :: trace_event_base) (futex_event.fields x0 x1 x2 x3 x4 x5)) = x0"
  "fx_task_scope (trace_event_base.extend (b :: trace_event_base) (futex_event.fields x0 x1 x2 x3 x4 x5)) = x1"
  "fx_action (trace_event_base.extend (b :: trace_event_base) (futex_event.fields x0 x1 x2 x3 x4 x5)) = x2"
  "fx_futex_id (trace_event_base.extend (b :: trace_event_base) (futex_event.fields x0 x1 x2 x3 x4 x5)) = x3"
  "fx_operation (trace_event_base.extend (b :: trace_event_base) (futex_event.fields x0 x1 x2 x3 x4 x5)) = x4"
  "fx_wake_count (trace_event_base.extend (b :: trace_event_base) (futex_event.fields x0 x1 x2 x3 x4 x5)) = x5"
  by (simp_all add: trace_event_base.defs futex_event.defs)

lemma switch_sound:
  assumes "private_task cfg (p, ps)" and "private_task cfg (n, ns)" and "ps = Scope_TARGET \<or> ns = Scope_TARGET"
    and "clean_text 30 state" and "base_ok cfg b" and "te_semantics b = Sem_EXACT"
  shows "event_sound cfg (SchedSwitch (trace_event_base.extend b (sched_switch_event.fields p ps n ns state)))"
  using assms base_valid [OF _ assms(5)]
    private_task_valid [OF _ assms(1)] private_task_valid [OF _ assms(2)]
    clean_text_valid [OF assms(4), of "ad_limits cfg"]
  by (auto simp: event_sound_def base_ok_def validate_trace_event_def validate_sched_switch_def limits_fit_def)

lemma wakeup_sound:
  assumes "tid \<in> set (ad_target_tids cfg)" and "private_relation cfg waker" and "base_ok cfg b"
    and "te_semantics b = Sem_EXACT"
  shows "event_sound cfg (SchedWakeup (trace_event_base.extend b
    (sched_wakeup_event.fields (target_task cfg tid) Scope_TARGET source (fst waker) (snd waker))))"
  using assms base_valid [OF _ assms(3)]
    private_task_valid [OF _ private_target [OF assms(1)]] private_task_valid [of cfg]
    private_target [OF assms(1)]
  by (auto simp: event_sound_def base_ok_def validate_trace_event_def validate_sched_wakeup_def
      private_relation_def)

lemma migrate_sound:
  assumes "tid \<in> set (ad_target_tids cfg)" and "0 \<le> origin" and "0 \<le> destination" and "base_ok cfg b"
    and "te_semantics b = Sem_EXACT"
  shows "event_sound cfg (SchedMigrate (trace_event_base.extend b
    (sched_migrate_event.fields (target_task cfg tid) Scope_TARGET origin destination)))"
  using assms base_valid [OF _ assms(4)]
    private_task_valid [OF _ private_target [OF assms(1)]] private_target [OF assms(1)]
  by (auto simp: event_sound_def base_ok_def validate_trace_event_def validate_sched_migrate_def require_plain_int_def)

lemma lock_sound:
  assumes "tid \<in> set (ad_target_tids cfg)" and "clean_text 25 lock" and "base_ok cfg b"
    and "te_semantics b = Sem_EXACT"
    and "(action = Lock_WAIT_ENDED) = (outcome \<noteq> None)"
  shows "event_sound cfg (Lock (trace_event_base.extend b
    (lock_event.fields (target_task cfg tid) Scope_TARGET action lock outcome None None)))"
  using assms base_valid [OF _ assms(3)]
    private_task_valid [OF _ private_target [OF assms(1)]] private_target [OF assms(1)]
    clean_text_valid [OF assms(2), of "ad_limits cfg"]
  by (auto simp: event_sound_def base_ok_def validate_trace_event_def validate_lock_def limits_fit_def)

lemma futex_sound:
  assumes "tid \<in> set (ad_target_tids cfg)" and "clean_text 25 lock" and "base_ok cfg b"
    and "te_semantics b = Sem_CANDIDATE"
  shows "event_sound cfg (Futex (trace_event_base.extend b
    (futex_event.fields (target_task cfg tid) Scope_TARGET action lock operation None)))"
  using assms base_valid [OF _ assms(3)]
    private_task_valid [OF _ private_target [OF assms(1)]] private_target [OF assms(1)]
    clean_text_valid [OF assms(2), of "ad_limits cfg"]
  by (cases action) (auto simp: event_sound_def base_ok_def validate_trace_event_def validate_futex_def limits_fit_def)

section \<open>Exceptions of the validation\<close>

fun is_value_error :: "py_error \<Rightarrow> bool" where
  "is_value_error (ValueError m) = True"
| "is_value_error _ = False"

text \<open>The validation raises nothing but \<open>ValueError\<close>.\<close>

definition only_value_errors :: "'a result \<Rightarrow> bool" where
  "only_value_errors m \<longleftrightarrow> ensures is_value_error (\<lambda>_. True) m"

lemma only_value_errors_simps [simp]:
  "only_value_errors (Inr x)" "only_value_errors (Inl e) = is_value_error e"
  "only_value_errors (raise_if b e) \<longleftrightarrow> (b \<longrightarrow> is_value_error e)"
  by (simp_all add: only_value_errors_def ensures_raise_if)

lemma only_value_errors_bind [intro!]:
  "only_value_errors m \<Longrightarrow> (\<And>x. m = Inr x \<Longrightarrow> only_value_errors (f x)) \<Longrightarrow> only_value_errors (bindE m f)"
  by (cases m) (simp_all add: only_value_errors_def)

lemma only_value_errors_check: "(\<And>x. only_value_errors (f x)) \<Longrightarrow> only_value_errors (checkE f xs)"
  by (induction xs) auto

lemma only_value_errors_fold: "(\<And>x s. only_value_errors (f x s)) \<Longrightarrow> only_value_errors (foldE f xs s)"
  by (induction xs arbitrary: s) auto

lemma plain_int_value_errors [simp]: "only_value_errors (require_plain_int v name m)"
  by (simp add: require_plain_int_def)

lemma text_value_errors [simp]: "only_value_errors (validate_bounded_text v name lim)"
  unfolding validate_bounded_text_def by auto

lemma target_value_errors [simp]: "only_value_errors (validate_target t)"
  unfolding validate_target_def by auto

lemma scoped_task_value_errors [simp]: "only_value_errors (validate_scoped_task t sc tgt name)"
  unfolding validate_scoped_task_def validate_task_def by (auto split: trace_scope.split option.split)

lemma common_value_errors [simp]: "only_value_errors (validate_common b lim)"
  unfolding validate_common_def validate_stack_def
  by (auto intro!: only_value_errors_check split: option.split)

lemma event_value_errors [simp]: "only_value_errors (validate_trace_event e lim)"
  unfolding validate_trace_event_def
  by (cases e)
    (auto simp: validate_sched_switch_def validate_sched_wakeup_def validate_sched_migrate_def
      validate_lock_def validate_futex_def split: option.split)

lemma step_value_errors [simp]: "only_value_errors (validate_step lim e s)"
  unfolding validate_step_def Let_def by (intro only_value_errors_bind) simp_all

lemma sequence_value_errors: "only_value_errors (validate_trace_sequence evs expected lines bytes lims)"
proof -
  have "only_value_errors (case expected of None \<Rightarrow> Inr () | Some t \<Rightarrow> validate_target t)"
    "only_value_errors (case bytes of None \<Rightarrow> Inr () | Some n \<Rightarrow> require_plain_int n ''output_bytes'' 0)"
    "only_value_errors (case lines of None \<Rightarrow> Inr ()
       | Some n \<Rightarrow> bindE (require_plain_int n ''input_line_count'' 0) (\<lambda>_. raise_if (n > tl_max_input_lines lim)
           (ValueError ''input_line_count exceeds max_input_lines'')))" for lim
    by (auto split: option.split)
  then show ?thesis
    unfolding validate_trace_sequence_def Let_def
    by (intro only_value_errors_bind only_value_errors_fold) simp_all
qed


section \<open>The final validation\<close>

text \<open>
  What the validation can still object to in the events of an adapter: a target identity that
  is not one, a record that contradicts itself, two identities that collide, and too many
  threads or locks.
\<close>

definition acceptable :: "'a trace_adapter_scheme \<Rightarrow> trace_event list \<Rightarrow> bool" where
  "acceptable cfg evs \<longleftrightarrow>
     validate_target (ad_target cfg) = Inr () \<and>
     (\<forall>e \<in> set evs. event_consistent e) \<and>
     distinct (map ev_id evs) \<and>
     int (card (\<Union>(event_tids ` set evs))) \<le> tl_max_unique_tids (ad_limits cfg) \<and>
     int (card (\<Union>(event_lock_ids ` set evs))) \<le> tl_max_unique_locks (ad_limits cfg)"

text \<open>Sound events in order, numbered from 0.\<close>

definition sound_run :: "'a trace_adapter_scheme \<Rightarrow> trace_event list \<Rightarrow> bool" where
  "sound_run cfg evs \<longleftrightarrow>
     (\<forall>e \<in> set evs. event_sound cfg e) \<and>
     map (\<lambda>e. te_sequence (ev_base e)) evs = map int [0..<length evs] \<and> sorted (map ev_ts evs)"

lemma sound_sequence_ok:
  assumes "sound_run cfg evs" and "limits_fit cfg" and "int (length evs) \<le> tl_max_events (ad_limits cfg)"
  shows "sequence_ok (ad_limits cfg) (Some (ad_target cfg)) evs \<longleftrightarrow> acceptable cfg evs"
proof -
  have "(\<forall>e \<in> set evs. validate_trace_event e (ad_limits cfg) = Inr ()) \<longleftrightarrow> (\<forall>e \<in> set evs. event_consistent e)"
    "\<forall>e \<in> set evs. te_target (ev_base e) = ad_target cfg"
    using assms(1,2) by (simp_all add: sound_run_def event_sound_def)
  moreover have "sorted_wrt (<) (map (\<lambda>e. te_sequence (ev_base e)) evs)" "sorted (map ev_ts evs)"
    using assms(1) by (simp_all add: sound_run_def sorted_wrt_map)
  ultimately show ?thesis
    using assms(2,3) by (auto simp: sequence_ok_def acceptable_def sequence_target_def limits_fit_def)
qed

lemma validate_sound:
  assumes "wf_trace_limits (ad_limits cfg)" and "sound_run cfg evs" and "limits_fit cfg"
    and "int (length evs) \<le> tl_max_events (ad_limits cfg)"
    and "0 \<le> n" "n \<le> tl_max_input_lines (ad_limits cfg)" and "0 \<le> b" "b \<le> tl_max_output_bytes (ad_limits cfg)"
  shows "(\<exists>st. validate_trace_sequence evs (Some (ad_target cfg)) (Some n) (Some b) (Some (ad_limits cfg)) = Inr st) \<longleftrightarrow>
    acceptable cfg evs"
  using assms sound_sequence_ok [OF assms(2-4)]
  by (auto simp: validate_trace_sequence_def Let_def require_plain_int_def bindE_raise_if limits_fit_def
      validate_loop_spec [OF assms(1)])

end
