(* ===== verification/KernelTrace.thy ===== *)
theory KernelTrace
  imports TraceAdapter
begin

text \<open>
  The adapter for the kernel trace helper's private NDJSON format:
  \<open>src/src/perflens/profiles/kernel_trace_stream.py\<close> with the result types of
  \<open>profiles/trace_stream.py\<close>. \<open>json.loads\<close> is the parameter \<open>decode\<close>: it turns the bytes of a
  line into a value whose objects still have all their pairs, or raises. The hook that
  refuses duplicate keys is modelled on top of it. The attributes of \<open>_KernelParserState\<close> that
  never change are the record \<open>kernel_config\<close>, the others the record \<open>kernel_state\<close>.
\<close>

section \<open>Decoded records\<close>

datatype py_value =
    VNone
  | VBool bool
  | VInt int
  | VFloat string
  | VStr pytext
  | VList "py_value list"
  | VDict "(pytext \<times> py_value) list"

type_synonym raw_record = "(pytext \<times> py_value) list"
type_synonym json_decoder = "bytes \<Rightarrow> py_value result"

definition without_duplicate_keys :: "(pytext \<times> py_value) list \<Rightarrow> (pytext, py_value) dict result" where
  "without_duplicate_keys pairs =
     foldE (\<lambda>(key, v) result.
         if key \<in> fst ` set result then Inl (ValueError ''duplicate kernel trace field'')
         else Inr (dict_set key v result)) pairs []"

text \<open>\<open>json.loads\<close> calls the hook for every object, the inner ones first.\<close>

fun hook_value :: "py_value \<Rightarrow> py_value result"
  and hook_values :: "py_value list \<Rightarrow> py_value list result"
  and hook_pairs :: "(pytext \<times> py_value) list \<Rightarrow> (pytext \<times> py_value) list result" where
  "hook_value (VList vs) = bindE (hook_values vs) (\<lambda>vs'. Inr (VList vs'))"
| "hook_value (VDict kvs) =
     bindE (hook_pairs kvs) (\<lambda>kvs'. bindE (without_duplicate_keys kvs') (\<lambda>d. Inr (VDict d)))"
| "hook_value v = Inr v"
| "hook_values [] = Inr []"
| "hook_values (v # vs) = bindE (hook_value v) (\<lambda>v'. bindE (hook_values vs) (\<lambda>vs'. Inr (v' # vs')))"
| "hook_pairs [] = Inr []"
| "hook_pairs ((k, v) # kvs) =
     bindE (hook_value v) (\<lambda>v'. bindE (hook_pairs kvs) (\<lambda>kvs'. Inr ((k, v') # kvs')))"

definition json_loads :: "json_decoder \<Rightarrow> bytes \<Rightarrow> py_value result" where
  "json_loads decode line = bindE (decode line) hook_value"

text \<open>\<open>raw[k]\<close>, \<open>raw.get(k)\<close>, and \<open>v in {...}\<close> for a set of strings, which needs a hashable \<open>v\<close>.\<close>

definition raw_item :: "raw_record \<Rightarrow> string \<Rightarrow> py_value result" where
  "raw_item raw k = (case map_of raw (ascii k) of None \<Rightarrow> Inl KeyError | Some v \<Rightarrow> Inr v)"

definition raw_get :: "raw_record \<Rightarrow> string \<Rightarrow> py_value" where
  "raw_get raw k = (case map_of raw (ascii k) of None \<Rightarrow> VNone | Some v \<Rightarrow> v)"

fun string_in :: "py_value \<Rightarrow> string list \<Rightarrow> string option result" where
  "string_in (VStr t) ks = Inr (find (\<lambda>k. ascii k = t) ks)"
| "string_in (VList vs) ks = Inl TypeError"
| "string_in (VDict kvs) ks = Inl TypeError"
| "string_in v ks = Inr None"

fun plain_int :: "py_value \<Rightarrow> int option \<Rightarrow> int result" where
  "plain_int (VInt i) minimum =
     (if (case minimum of None \<Rightarrow> False | Some m \<Rightarrow> i < m)
      then Inl (ValueError ''kernel trace integer field is below its bound'') else Inr i)"
| "plain_int _ minimum = Inl TypeError"

fun lock_id :: "py_value \<Rightarrow> string result" where
  "lock_id (VStr t) =
     (if length t \<noteq> 25 \<or> \<not> starts_with (ascii ''lock-'') t
      then Inl (ValueError ''kernel trace lock identity is malformed'')
      else if \<not> set (drop 5 t) \<subseteq> set (ascii ''0123456789abcdef'')
      then Inl (ValueError ''kernel trace lock identity is malformed'')
      else Inr (map char_of t))"
| "lock_id _ = Inl (ValueError ''kernel trace lock identity is malformed'')"

definition task_state :: "py_value \<Rightarrow> string result" where
  "task_state v =
     bindE (plain_int v (Some 0)) (\<lambda>state.
     Inr (dict_get_or ''unknown''
       [(0, ''running''), (1, ''interruptible_sleep''), (2, ''uninterruptible_sleep''),
        (4, ''stopped''), (8, ''traced''), (16, ''dead''), (32, ''dead''), (64, ''parked''),
        (1024, ''idle'')] state))"

definition wait_outcome :: "int \<Rightarrow> lock_wait_outcome" where
  "wait_outcome r =
     dict_get_or Outcome_FAILED
       [(0, Outcome_ACQUIRED), (-4, Outcome_INTERRUPTED), (-35, Outcome_FAILED),
        (-110, Outcome_TIMED_OUT)] r"

text \<open>Sequence number and timestamp are never negative here, and the kinds are ASCII.\<close>

definition kernel_event_id :: "int \<Rightarrow> int \<Rightarrow> string \<Rightarrow> string" where
  "kernel_event_id sequence timestamp kind =
     ''event-'' @ take 24 (sha256_hexdigest
       (map of_char (str_int sequence @ '':'' @ str_int timestamp @ '':'' @ kind)))"

section \<open>The record format\<close>

definition common_fields :: "string list" where
  "common_fields = [''schema_version'', ''sequence'', ''timestamp_ns'', ''cpu'', ''kind'', ''target_tid'']"

definition optional_fields :: "string list" where
  "optional_fields =
     [''related_target_tid'', ''related_scope'', ''previous_state'', ''target_cpu'', ''origin_cpu'',
      ''destination_cpu'', ''lock_id'', ''lock_flags'', ''wait_result'', ''futex_operation'']"

definition kind_fields :: "(string, string list) dict" where
  "kind_fields =
     [(''sched_switch_out'', [''related_target_tid'', ''related_scope'', ''previous_state'']),
      (''sched_switch_in'', [''related_target_tid'', ''related_scope'']),
      (''sched_switch_both'', [''related_target_tid'', ''related_scope'', ''previous_state'']),
      (''sched_waking'', [''related_target_tid'', ''related_scope'', ''target_cpu'']),
      (''sched_wakeup'', [''target_cpu'']),
      (''sched_wakeup_new'', [''target_cpu'']),
      (''sched_migrate'', [''origin_cpu'', ''destination_cpu'']),
      (''lock_wait'', [''lock_id'', ''lock_flags'']),
      (''lock_wait_ended'', [''lock_id'', ''wait_result'']),
      (''futex_wait'', [''lock_id'', ''futex_operation'']),
      (''futex_wake'', [''lock_id'', ''futex_operation''])]"

definition kernel_kinds :: "string list" where
  "kernel_kinds =
     [''sched_switch_out'', ''sched_switch_in'', ''sched_switch_both'', ''sched_waking'',
      ''sched_wakeup'', ''sched_wakeup_new'', ''sched_migrate'', ''lock_wait'', ''lock_wait_ended'',
      ''futex_wait'', ''futex_wake'']"

definition futex_operations :: "(string, futex_operation) dict" where
  "futex_operations =
     [(''wait'', Op_WAIT), (''wait_bitset'', Op_WAIT_BITSET), (''wait_requeue_pi'', Op_WAIT_REQUEUE_PI),
      (''wake'', Op_WAKE), (''wake_bitset'', Op_WAKE_BITSET), (''requeue'', Op_REQUEUE),
      (''unknown'', Op_UNKNOWN)]"

definition keys_within :: "raw_record \<Rightarrow> string list \<Rightarrow> bool" where
  "keys_within raw ks \<longleftrightarrow> fst ` set raw \<subseteq> ascii ` set ks"

definition has_keys :: "raw_record \<Rightarrow> string list \<Rightarrow> bool" where
  "has_keys raw ks \<longleftrightarrow> ascii ` set ks \<subseteq> fst ` set raw"

definition begins :: "string \<Rightarrow> string \<Rightarrow> bool" where
  "begins p s \<longleftrightarrow> take (length p) s = p"

definition ends :: "string \<Rightarrow> string \<Rightarrow> bool" where
  "ends p s \<longleftrightarrow> length p \<le> length s \<and> drop (length s - length p) s = p"

section \<open>Results and parser state\<close>

record kernel_config = trace_adapter +
  kc_lost_event_count :: int

record kernel_state =
  ks_events :: "trace_event list"
  ks_input_bytes :: int
  ks_input_lines :: int
  ks_input_events :: int
  ks_malformed :: int
  ks_unsupported :: int
  ks_out_of_order :: int
  ks_diagnostic_count :: int
  ks_diagnostics :: "trace_parse_diagnostic list"
  ks_provisional_count :: int
  ks_pending_wakers :: "(int, int \<times> relation) dict"
  ks_last_timestamp :: "int option"
  ks_truncated_count :: int

definition diagnose :: "kernel_config \<Rightarrow> string \<Rightarrow> string \<Rightarrow> kernel_state \<Rightarrow> kernel_state" where
  "diagnose cfg code message s =
     s\<lparr>ks_diagnostic_count := ks_diagnostic_count s + 1,
       ks_diagnostics :=
         (if int (length (ks_diagnostics s)) < tl_max_warnings (ad_limits cfg)
          then ks_diagnostics s @
            [\<lparr>pd_code = code, pd_line_number = ks_input_lines s, pd_message = message\<rparr>]
          else ks_diagnostics s)\<rparr>"

definition kernel_init :: "kernel_config \<Rightarrow> bool \<Rightarrow> kernel_state" where
  "kernel_init cfg truncated =
     (let s = \<lparr>ks_events = [], ks_input_bytes = 0, ks_input_lines = 0, ks_input_events = 0,
               ks_malformed = 0, ks_unsupported = 0, ks_out_of_order = 0, ks_diagnostic_count = 0,
               ks_diagnostics = [], ks_provisional_count = 0, ks_pending_wakers = [],
               ks_last_timestamp = None, ks_truncated_count = 0\<rparr>
      in if truncated
         then diagnose cfg ''HELPER_OUTPUT_TRUNCATED'' ''Kernel trace reached the private output bound'' s
         else s)"

section \<open>Converters\<close>

text \<open>
  A converter raises before it changes anything, so a raised exception leaves the state as
  it was. \<open>TaskIdentity\<close> is built with both identities present, which its constructor accepts.
\<close>

definition kernel_base ::
  "kernel_config \<Rightarrow> kernel_state \<Rightarrow> string \<Rightarrow> int \<Rightarrow> int \<Rightarrow> int \<Rightarrow> evidence_semantics \<Rightarrow> trace_event_base" where
  "kernel_base cfg s kind sequence timestamp cpu semantics =
     \<lparr>te_event_id = kernel_event_id sequence timestamp kind, te_sequence = int (length (ks_events s)),
      te_timestamp_ns = timestamp, te_target = ad_target cfg, te_semantics = semantics,
      te_cpu = Some cpu, te_stack = []\<rparr>"

text \<open>The related thread of a record, which has to be one of the target's.\<close>

definition related_tid :: "raw_record \<Rightarrow> int option result" where
  "related_tid raw =
     (if raw_get raw ''related_target_tid'' = VNone then Inr None
      else bindE (plain_int (raw_get raw ''related_target_tid'') (Some 1)) (\<lambda>r. Inr (Some r)))"

definition kernel_switch ::
  "kernel_config \<Rightarrow> string \<Rightarrow> raw_record \<Rightarrow> int \<Rightarrow> int \<Rightarrow> int \<Rightarrow> int \<Rightarrow> kernel_state
     \<Rightarrow> (kernel_state \<times> trace_event option) result" where
  "kernel_switch cfg kind raw sequence timestamp cpu tid s =
     bindE (related_tid raw) (\<lambda>related.
     bindE (raise_if (case related of None \<Rightarrow> False | Some r \<Rightarrow> r \<notin> set (ad_target_tids cfg))
       (ValueError ''related TID escaped target scope'')) (\<lambda>_.
     bindE (string_in (raw_get raw ''related_scope'') [''target'', ''external_redacted'']) (\<lambda>scope.
     bindE (raise_if (scope = None) (ValueError ''switch relation is absent or unsafe'')) (\<lambda>_.
     let target = target_task cfg tid;
         related_task = (case related of Some r \<Rightarrow> target_task cfg r | None \<Rightarrow> external_redacted);
         related_scope = (case related of Some r \<Rightarrow> Scope_TARGET | None \<Rightarrow> Scope_FOREIGN)
     in
     bindE (if kind = ''sched_switch_out'' then Inr (target, Scope_TARGET, related_task, related_scope)
            else if kind = ''sched_switch_in'' then Inr (related_task, related_scope, target, Scope_TARGET)
            else if related = None then Inl (ValueError ''target-to-target switch lacks related TID'')
            else Inr (target, Scope_TARGET, related_task, Scope_TARGET))
       (\<lambda>(previous, previous_scope, next_task, next_scope).
     bindE (if kind \<noteq> ''sched_switch_in'' then task_state (raw_get raw ''previous_state'')
            else Inr ''unknown'') (\<lambda>state.
     Inr (s, Some (SchedSwitch (trace_event_base.extend
       (kernel_base cfg s kind sequence timestamp cpu Sem_EXACT)
       (sched_switch_event.fields previous previous_scope next_task next_scope state))))))))))"

definition waker_relation :: "kernel_config \<Rightarrow> raw_record \<Rightarrow> relation result" where
  "waker_relation cfg raw =
     (let scope = raw_get raw ''related_scope'' in
      bindE (related_tid raw) (\<lambda>related.
      case related of
        Some r \<Rightarrow>
          bindE (raise_if (r \<notin> set (ad_target_tids cfg) \<or> scope \<noteq> VStr (ascii ''target''))
            (ValueError ''waker escaped target scope'')) (\<lambda>_.
          Inr (Some (target_task cfg r), Some Scope_TARGET))
      | None \<Rightarrow>
          if scope = VStr (ascii ''external_redacted'')
          then Inr (Some external_redacted, Some Scope_FOREIGN)
          else if scope \<noteq> VNone then Inl (ValueError ''waker relation is unsafe'')
          else Inr (None, None)))"

definition wakeup_event ::
  "kernel_config \<Rightarrow> kernel_state \<Rightarrow> string \<Rightarrow> int \<Rightarrow> int \<Rightarrow> int \<Rightarrow> int \<Rightarrow> relation \<Rightarrow> trace_event" where
  "wakeup_event cfg s kind sequence timestamp cpu tid waker =
     SchedWakeup (trace_event_base.extend (kernel_base cfg s kind sequence timestamp cpu Sem_EXACT)
       (sched_wakeup_event.fields (target_task cfg tid) Scope_TARGET
         (if ends ''_new'' kind then Src_WAKEUP_NEW else Src_WAKEUP) (fst waker) (snd waker)))"

definition kernel_wakeup ::
  "kernel_config \<Rightarrow> string \<Rightarrow> raw_record \<Rightarrow> int \<Rightarrow> int \<Rightarrow> int \<Rightarrow> int \<Rightarrow> kernel_state
     \<Rightarrow> (kernel_state \<times> trace_event option) result" where
  "kernel_wakeup cfg kind raw sequence timestamp cpu tid s =
     bindE (waker_relation cfg raw) (\<lambda>waker.
     if kind = ''sched_waking'' then
       let n = (case map_of (ks_pending_wakers s) tid of None \<Rightarrow> 1 | Some p \<Rightarrow> fst p + 1)
       in Inr (s\<lparr>ks_pending_wakers := dict_set tid (n, waker) (ks_pending_wakers s)\<rparr>, None)
     else
       let pending = map_of (ks_pending_wakers s) tid;
           s1 = s\<lparr>ks_pending_wakers := dict_pop tid (ks_pending_wakers s)\<rparr>
       in case pending of
            None \<Rightarrow> Inr (s1, Some (wakeup_event cfg s1 kind sequence timestamp cpu tid waker))
          | Some (n, relation) \<Rightarrow>
              if n = 1 then
                let s2 = s1\<lparr>ks_provisional_count := ks_provisional_count s1 + 1\<rparr>
                in Inr (s2, Some (wakeup_event cfg s2 kind sequence timestamp cpu tid relation))
              else
                let s2 = diagnose cfg ''AMBIGUOUS_WAKER''
                           ''Multiple waking records prevented exact waker enrichment''
                           (s1\<lparr>ks_unsupported := ks_unsupported s1 + n\<rparr>)
                in Inr (s2, Some (wakeup_event cfg s2 kind sequence timestamp cpu tid (None, None))))"

definition kernel_migrate ::
  "kernel_config \<Rightarrow> raw_record \<Rightarrow> int \<Rightarrow> int \<Rightarrow> int \<Rightarrow> int \<Rightarrow> kernel_state
     \<Rightarrow> (kernel_state \<times> trace_event option) result" where
  "kernel_migrate cfg raw sequence timestamp cpu tid s =
     bindE (plain_int (raw_get raw ''origin_cpu'') (Some 0)) (\<lambda>origin.
     bindE (plain_int (raw_get raw ''destination_cpu'') (Some 0)) (\<lambda>destination.
     Inr (s, Some (SchedMigrate (trace_event_base.extend
       (kernel_base cfg s ''sched_migrate'' sequence timestamp cpu Sem_EXACT)
       (sched_migrate_event.fields (target_task cfg tid) Scope_TARGET origin destination))))))"

definition kernel_lock ::
  "kernel_config \<Rightarrow> string \<Rightarrow> raw_record \<Rightarrow> int \<Rightarrow> int \<Rightarrow> int \<Rightarrow> int \<Rightarrow> kernel_state
     \<Rightarrow> (kernel_state \<times> trace_event option) result" where
  "kernel_lock cfg kind raw sequence timestamp cpu tid s =
     bindE (lock_id (raw_get raw ''lock_id'')) (\<lambda>lock.
     bindE (if kind = ''lock_wait''
            then bindE (plain_int (raw_get raw ''lock_flags'') (Some 0)) (\<lambda>_. Inr (Lock_WAIT, None))
            else bindE (plain_int (raw_get raw ''wait_result'') None) (\<lambda>r.
              Inr (Lock_WAIT_ENDED, Some (wait_outcome r)))) (\<lambda>(action, outcome).
     Inr (s, Some (Lock (trace_event_base.extend
       (kernel_base cfg s kind sequence timestamp cpu Sem_EXACT)
       (lock_event.fields (target_task cfg tid) Scope_TARGET action lock outcome None None))))))"

definition kernel_futex ::
  "kernel_config \<Rightarrow> string \<Rightarrow> raw_record \<Rightarrow> int \<Rightarrow> int \<Rightarrow> int \<Rightarrow> int \<Rightarrow> kernel_state
     \<Rightarrow> (kernel_state \<times> trace_event option) result" where
  "kernel_futex cfg kind raw sequence timestamp cpu tid s =
     bindE (string_in (raw_get raw ''futex_operation'') (map fst futex_operations)) (\<lambda>operation_raw.
     case operation_raw of
       None \<Rightarrow> Inl (ValueError ''futex operation is not allowlisted'')
     | Some operation \<Rightarrow>
         let action = (if kind = ''futex_wait'' then Futex_WAIT else Futex_WAKE) in
         bindE (lock_id (raw_get raw ''lock_id'')) (\<lambda>futex_id.
         Inr (s, Some (Futex (trace_event_base.extend
           (kernel_base cfg s kind sequence timestamp cpu Sem_CANDIDATE)
           (futex_event.fields (target_task cfg tid) Scope_TARGET action futex_id
              (dict_get_or Op_UNKNOWN futex_operations operation) None))))))"

definition kernel_converter ::
  "kernel_config \<Rightarrow> string \<Rightarrow> raw_record \<Rightarrow> int \<Rightarrow> int \<Rightarrow> int \<Rightarrow> int \<Rightarrow> kernel_state
     \<Rightarrow> (kernel_state \<times> trace_event option) result" where
  "kernel_converter cfg kind =
     (if begins ''sched_switch_'' kind then kernel_switch cfg kind
      else if kind \<in> set [''sched_waking'', ''sched_wakeup'', ''sched_wakeup_new''] then kernel_wakeup cfg kind
      else if kind = ''sched_migrate'' then kernel_migrate cfg
      else if kind \<in> set [''lock_wait'', ''lock_wait_ended''] then kernel_lock cfg kind
      else kernel_futex cfg kind)"

section \<open>One line\<close>

text \<open>The checks of \<open>_consume_record\<close> before it looks at the order of timestamps.\<close>

definition record_header ::
  "kernel_config \<Rightarrow> int \<Rightarrow> raw_record \<Rightarrow> (string \<times> int \<times> int \<times> int \<times> int) result" where
  "record_header cfg input_events raw =
     bindE (raw_item raw ''schema_version'') (\<lambda>schema.
     bindE (raise_if (schema \<noteq> VStr (ascii ''1.0'')) (ValueError ''unsupported schema or event kind'')) (\<lambda>_.
     bindE (raw_item raw ''kind'') (\<lambda>kind_raw.
     bindE (string_in kind_raw kernel_kinds) (\<lambda>known.
     case known of
       None \<Rightarrow> Inl (ValueError ''unsupported schema or event kind'')
     | Some kind \<Rightarrow>
         bindE (raise_if (\<not> keys_within raw (common_fields @ dict_get_or [] kind_fields kind))
           (ValueError ''event fields do not match their fixed kind'')) (\<lambda>_.
         bindE (bindE (raw_item raw ''sequence'') (\<lambda>v. plain_int v (Some 0))) (\<lambda>sequence.
         bindE (bindE (raw_item raw ''timestamp_ns'') (\<lambda>v. plain_int v (Some 0))) (\<lambda>timestamp.
         bindE (bindE (raw_item raw ''cpu'') (\<lambda>v. plain_int v (Some 0))) (\<lambda>cpu.
         bindE (bindE (raw_item raw ''target_tid'') (\<lambda>v. plain_int v (Some 1))) (\<lambda>tid.
         bindE (raise_if (sequence \<noteq> input_events - 1 \<or> tid \<notin> set (ad_target_tids cfg))
           (ValueError ''sequence or target TID is outside the authenticated scope'')) (\<lambda>_.
         Inr (kind, sequence, timestamp, cpu, tid)))))))))))"

definition mode_check :: "kernel_config \<Rightarrow> string \<Rightarrow> unit result" where
  "mode_check cfg kind =
     bindE (raise_if (ad_mode cfg \<in> set [''sched'', ''off_cpu''] \<and> \<not> begins ''sched_'' kind)
       (ValueError ''non-scheduler event in scheduler trace'')) (\<lambda>_.
     raise_if (ad_mode cfg = ''lock'' \<and> begins ''sched_'' kind)
       (ValueError ''scheduler event in lock trace''))"

text \<open>
  The state is part of the outcome also when the record raises: the timestamp of a record
  in order is remembered before its kind is converted.
\<close>

definition consume_record ::
  "kernel_config \<Rightarrow> raw_record \<Rightarrow> kernel_state \<Rightarrow> kernel_state \<times> unit result" where
  "consume_record cfg raw s =
     (case record_header cfg (ks_input_events s) raw of
        Inl e \<Rightarrow> (s, Inl e)
      | Inr (kind, sequence, timestamp, cpu, tid) \<Rightarrow>
          if (case ks_last_timestamp s of None \<Rightarrow> False | Some t \<Rightarrow> timestamp < t)
          then (diagnose cfg ''OUT_OF_ORDER_EVENT'' ''Kernel trace record is out of order''
                  (s\<lparr>ks_out_of_order := ks_out_of_order s + 1\<rparr>), Inr ())
          else
            let s1 = s\<lparr>ks_last_timestamp := Some timestamp\<rparr> in
            case bindE (mode_check cfg kind) (\<lambda>_.
                   kernel_converter cfg kind raw sequence timestamp cpu tid s1) of
              Inl e \<Rightarrow> (s1, Inl e)
            | Inr (s2, None) \<Rightarrow> (s2, Inr ())
            | Inr (s2, Some event) \<Rightarrow> (s2\<lparr>ks_events := ks_events s2 @ [event]\<rparr>, Inr ()))"

definition kernel_limit :: "string \<Rightarrow> py_error" where
  "kernel_limit message = PerfLensError RESOURCE_LIMIT_EXCEEDED ''kernel_trace_input'' message"

definition kernel_invalid :: "string \<Rightarrow> py_error" where
  "kernel_invalid message = PerfLensError INVALID_INPUT ''kernel_trace_input'' message"

definition count_malformed :: "kernel_config \<Rightarrow> string \<Rightarrow> string \<Rightarrow> kernel_state \<Rightarrow> kernel_state" where
  "count_malformed cfg code message s =
     diagnose cfg code message (s\<lparr>ks_malformed := ks_malformed s + 1\<rparr>)"

text \<open>\<open>UnicodeDecodeError\<close> and \<open>JSONDecodeError\<close> are kinds of \<open>ValueError\<close>.\<close>

definition consume ::
  "kernel_config \<Rightarrow> json_decoder \<Rightarrow> bytes \<Rightarrow> kernel_state \<Rightarrow> kernel_state result" where
  "consume cfg decode raw_line s =
     (let lim = ad_limits cfg;
          s1 = s\<lparr>ks_input_lines := ks_input_lines s + 1,
                 ks_input_bytes := ks_input_bytes s + int (length raw_line)\<rparr>
      in
      bindE (raise_if (ks_input_lines s1 > tl_max_input_lines lim)
        (kernel_limit ''Kernel trace exceeds the configured line limit'')) (\<lambda>_.
      bindE (raise_if (ks_input_bytes s1 > tl_max_output_bytes lim)
        (kernel_limit ''Kernel trace exceeds the configured byte limit'')) (\<lambda>_.
      let s2 = s1\<lparr>ks_input_events := ks_input_events s1 + 1\<rparr> in
      bindE (raise_if (ks_input_events s2 > tl_max_events lim)
        (kernel_limit ''Kernel trace exceeds the configured event limit'')) (\<lambda>_.
      if int (length raw_line) > tl_max_line_chars lim \<or> \<not> (raw_line \<noteq> [] \<and> last raw_line = 10)
      then Inr (count_malformed cfg ''INVALID_LINE'' ''Kernel trace record violates the line boundary'' s2)
      else
        case json_loads decode raw_line of
          Inl e \<Rightarrow>
            if is_value_error e
            then Inr (count_malformed cfg ''INVALID_JSON'' ''Kernel trace record is not strict JSON'' s2)
            else Inl e
        | Inr (VDict raw) \<Rightarrow>
            if \<not> has_keys raw common_fields \<or> \<not> keys_within raw (common_fields @ optional_fields)
            then Inr (count_malformed cfg ''INVALID_FIELDS''
                   ''Kernel trace record has missing or unknown fields'' s2)
            else
              (case consume_record cfg raw s2 of
                 (s3, Inr _) \<Rightarrow> Inr s3
               | (s3, Inl e) \<Rightarrow>
                   if is_value_error e \<or> e = KeyError \<or> e = TypeError
                   then Inr (count_malformed cfg ''INVALID_RECORD''
                          ''Kernel trace record failed typed validation'' s3)
                   else Inl e)
        | Inr _ \<Rightarrow>
            Inr (count_malformed cfg ''INVALID_FIELDS''
              ''Kernel trace record has missing or unknown fields'' s2)))))"

definition kernel_statistics :: "kernel_config \<Rightarrow> kernel_state \<Rightarrow> trace_parse_statistics" where
  "kernel_statistics cfg s =
     \<lparr>ps_input_bytes = ks_input_bytes s, ps_input_line_count = ks_input_lines s,
      ps_input_event_count = ks_input_events s,
      ps_emitted_event_count = int (length (ks_events s)),
      ps_lost_event_count = kc_lost_event_count cfg,
      ps_malformed_event_count = ks_malformed s, ps_duplicate_event_count = 0,
      ps_out_of_order_event_count = ks_out_of_order s,
      ps_unsupported_event_count = ks_unsupported s,
      ps_truncated_event_count = ks_truncated_count s, ps_foreign_event_dropped_count = 0,
      ps_provisional_enrichment_event_count = ks_provisional_count s,
      ps_lock_phase_enrichment_event_count = 0,
      ps_diagnostic_count = ks_diagnostic_count s, ps_diagnostics = ks_diagnostics s,
      ps_diagnostics_truncated = (ks_diagnostic_count s > int (length (ks_diagnostics s)))\<rparr>"

definition kernel_finish :: "kernel_config \<Rightarrow> int list \<Rightarrow> kernel_state \<Rightarrow> trace_stream_parse_result result" where
  "kernel_finish cfg observed_target_tids s0 =
     (let unpaired = dict_sum fst (ks_pending_wakers s0);
          s = (if unpaired \<noteq> 0
               then diagnose cfg ''UNPAIRED_WAKING'' ''Waking enrichment lacked a successful wakeup''
                      (s0\<lparr>ks_unsupported := ks_unsupported s0 + unpaired\<rparr>)
               else s0);
          statistics = kernel_statistics cfg s
      in
      bindE (parse_statistics_post_init statistics) (\<lambda>_.
      Inr \<lparr>pr_events = ks_events s, pr_observed_target_tids = observed_target_tids,
           pr_statistics = statistics\<rparr>))"

section \<open>The adapter\<close>

text \<open>This adapter also asks for \<open>fstat\<close> after the last read, and for \<open>stat\<close> of the path.\<close>

record kernel_input = trace_file +
  ki_after :: "file_stat option"
  ki_current :: "file_stat option"

record kernel_adapter =
  ka_target :: target_identity
  ka_observed_target_tids :: "int list"
  ka_owner_uid :: int
  ka_owner_gid :: int
  ka_input_mode :: int
  ka_input_sha256 :: string
  ka_input_bytes :: int
  ka_mode :: string
  ka_lost_event_count :: int
  ka_truncated :: bool
  ka_limits :: trace_limits

definition kernel_adapter_init :: "trace_limits option \<Rightarrow> kernel_adapter \<Rightarrow> kernel_adapter result" where
  "kernel_adapter_init limits a =
     bindE (raise_if (ka_mode a \<notin> set [''sched'', ''off_cpu'', ''lock''])
       (ValueError ''kernel trace mode must be sched, off_cpu, or lock'')) (\<lambda>_.
     bindE (raise_if (ka_observed_target_tids a = [] \<or>
         sorted_list_of_set (set (ka_observed_target_tids a)) \<noteq> ka_observed_target_tids a \<or>
         (\<exists>tid \<in> set (ka_observed_target_tids a). tid \<le> 0))
       (ValueError ''observed target TIDs must be sorted unique positive integers'')) (\<lambda>_.
     bindE (raise_if (ka_owner_uid a < 0 \<or> ka_owner_gid a < 0)
       (ValueError ''expected kernel trace owner identity must be non-negative'')) (\<lambda>_.
     bindE (raise_if (ka_input_mode a \<notin> set [384, 416])
       (ValueError ''expected kernel trace mode must be exactly 0600 or 0640'')) (\<lambda>_.
     bindE (raise_if (\<not> hex_text 64 (ka_input_sha256 a) \<or> ka_input_bytes a < 1)
       (ValueError ''expected kernel trace content identity is invalid'')) (\<lambda>_.
     bindE (raise_if (ka_lost_event_count a < 0)
       (ValueError ''lost_event_count must be a non-negative integer'')) (\<lambda>_.
     Inr (a\<lparr>ka_limits := (case limits of None \<Rightarrow> trace_limits_default | Some l \<Rightarrow> l)\<rparr>)))))))"

definition input_identity :: "file_stat \<Rightarrow> int list" where
  "input_identity m =
     [fs_dev m, fs_ino m, fs_uid m, fs_gid m, s_imode (fs_mode m), fs_nlink m, fs_size m,
      fs_mtime_ns m, fs_ctime_ns m]"

definition open_safe_input ::
  "kernel_input \<Rightarrow> int \<Rightarrow> int \<Rightarrow> int \<Rightarrow> int \<Rightarrow> int \<Rightarrow> int list result" where
  "open_safe_input f expected_uid expected_gid expected_mode max_bytes expected_bytes =
     (let unsafe = PerfLensError PATH_SAFETY_VIOLATION ''kernel_trace_input''
            ''Kernel trace input failed the private-file safety check''
      in case tf_open f of
           None \<Rightarrow> Inl unsafe
         | Some metadata \<Rightarrow>
             bindE (raise_if (\<not> s_isreg (fs_mode metadata) \<or> fs_nlink metadata \<noteq> 1 \<or>
                 fs_uid metadata \<noteq> expected_uid \<or> fs_gid metadata \<noteq> expected_gid \<or>
                 s_imode (fs_mode metadata) \<noteq> expected_mode \<or> fs_size metadata \<le> 0 \<or>
                 fs_size metadata > max_bytes \<or> fs_size metadata \<noteq> expected_bytes) unsafe) (\<lambda>_.
             Inr (input_identity metadata)))"

function kernel_read_loop ::
  "kernel_config \<Rightarrow> json_decoder \<Rightarrow> nat option \<Rightarrow> nat \<Rightarrow> bytes \<Rightarrow> nat \<Rightarrow> kernel_state \<times> bytes
     \<Rightarrow> (kernel_state \<times> bytes) result" where
  "kernel_read_loop cfg decode fails limit content reads (s, digest) =
     (if fails = Some reads then Inl (kernel_invalid ''Kernel trace input could not be read'')
      else
        let line = bytes_readline limit content in
        if line = [] then Inr (s, digest)
        else bindE (consume cfg decode line s) (\<lambda>s'.
          kernel_read_loop cfg decode fails limit (drop (length line) content) (Suc reads) (s', digest @ line)))"
  by pat_completeness auto
termination
  by (relation "measure (\<lambda>(cfg, decode, fails, limit, content, reads, s). length content)")
    (auto simp: bytes_readline_def)

declare kernel_read_loop.simps [simp del]

definition adapter_config :: "kernel_adapter \<Rightarrow> kernel_config" where
  "adapter_config a =
     \<lparr>ad_target = ka_target a, ad_target_tids = ka_observed_target_tids a, ad_mode = ka_mode a,
      ad_limits = ka_limits a, kc_lost_event_count = ka_lost_event_count a\<rparr>"

definition kernel_parse :: "kernel_adapter \<Rightarrow> json_decoder \<Rightarrow> kernel_input \<Rightarrow> trace_stream_parse_result result" where
  "kernel_parse a decode f =
     (let cfg = adapter_config a; lim = ka_limits a;
          unreadable = kernel_invalid ''Kernel trace input could not be read''
      in
      bindE (open_safe_input f (ka_owner_uid a) (ka_owner_gid a) (ka_input_mode a)
        (tl_max_output_bytes lim) (ka_input_bytes a)) (\<lambda>identity.
      bindE (kernel_read_loop cfg decode (tf_read_fails f) (nat (tl_max_line_chars lim + 1)) (tf_content f) 0
        (kernel_init cfg (ka_truncated a), [])) (\<lambda>(s, digest).
      bindE (case ki_after f of None \<Rightarrow> Inl unreadable | Some m \<Rightarrow> Inr m) (\<lambda>after.
      bindE (case ki_current f of None \<Rightarrow> Inl unreadable | Some m \<Rightarrow> Inr m) (\<lambda>current.
      bindE (raise_if (ks_input_bytes s \<noteq> ka_input_bytes a \<or>
          sha256_hexdigest digest \<noteq> ka_input_sha256 a \<or>
          input_identity after \<noteq> identity \<or> input_identity current \<noteq> identity)
        (PerfLensError PATH_SAFETY_VIOLATION ''kernel_trace_input''
          ''Kernel trace content or file identity changed during parsing'')) (\<lambda>_.
      bindE (kernel_finish cfg (ka_observed_target_tids a) s) (\<lambda>result.
      bindE (validate_trace_sequence (pr_events result) (Some (ka_target a))
        (Some (ps_input_line_count (pr_statistics result)))
        (Some (ps_input_bytes (pr_statistics result))) (Some lim)) (\<lambda>_.
      Inr result))))))))"

end
