(* ===== verification/KernelTraceEvents.thy ===== *)
theory KernelTraceEvents
  imports KernelTrace
begin

text \<open>
  What one record of the kernel trace becomes: the events the converters build name only
  observed threads of the target or nobody, and pass the validation of
  \<open>domain/trace.py\<close> unless the record contradicts itself.
\<close>

section \<open>Text\<close>

lemma char_of_ascii: "map char_of (ascii s) = s"
  by (simp add: ascii_def o_def)

lemma ascii_inject [simp]: "ascii a = ascii b \<longleftrightarrow> a = b"
  by (metis char_of_ascii)

lemma string_in_Some: "string_in v ks = Inr (Some k) \<longleftrightarrow> v = VStr (ascii k) \<and> k \<in> set ks"
proof (cases v)
  case (VStr t)
  have "find (\<lambda>k. ascii k = t) ks = Some k \<longleftrightarrow> ascii k = t \<and> k \<in> set ks"
    by (induction ks) auto
  with VStr show ?thesis by auto
qed auto

lemma plain_int_Inr: "plain_int v m = Inr i \<longleftrightarrow> v = VInt i \<and> (case m of None \<Rightarrow> True | Some b \<Rightarrow> b \<le> i)"
  by (cases v) (auto simp: not_less split: option.splits)

lemma clean_event_id: "clean_text 30 (kernel_event_id sequence timestamp kind)"
proof -
  let ?d = "take 24 (sha256_hexdigest
     (map of_char (str_int sequence @ '':'' @ str_int timestamp @ '':'' @ kind)))"
  have d: "hex_text 24 ?d" by (rule hex_text_take [OF hex_text_sha256]) simp
  have "set ''event-'' \<inter> set forbidden_controls = {}" by code_simp
  with d hex_not_control show ?thesis
    unfolding clean_text_def kernel_event_id_def hex_text_def by fastforce
qed

lemma lock_id_Inr:
  assumes "lock_id v = Inr t"
  shows "clean_text 25 t"
proof (cases v)
  case (VStr u)
  let ?f = "char_of :: nat \<Rightarrow> char"
  have five: "length (ascii ''lock-'') = 5" by (simp add: ascii_def)
  have u: "length u = 25" "take 5 u = ascii ''lock-''" "set (drop 5 u) \<subseteq> set (ascii ''0123456789abcdef'')"
    and t: "t = map ?f u"
    using assms unfolding VStr lock_id.simps starts_with_def five by (metis (full_types) Inl_Inr_False Inr_inject)+
  have "t = map ?f (take 5 u) @ map ?f (drop 5 u)"
    unfolding t map_append [symmetric] by simp
  moreover have "map ?f (take 5 u) = ''lock-''"
    unfolding u(2) by (rule char_of_ascii)
  moreover have "set (map ?f (drop 5 u)) \<subseteq> set ''0123456789abcdef''"
  proof -
    have "set (map ?f (drop 5 u)) \<subseteq> ?f ` set (ascii ''0123456789abcdef'')"
      using u(3) by (simp add: image_mono)
    also have "\<dots> = set ''0123456789abcdef''"
      unfolding ascii_def by code_simp
    finally show ?thesis .
  qed
  ultimately have "set t \<subseteq> set ''lock-'' \<union> set ''0123456789abcdef''"
    by auto
  moreover have "set ''lock-'' \<inter> set forbidden_controls = {}" by code_simp
  ultimately have "set t \<inter> set forbidden_controls = {}"
    using hex_not_control by blast
  moreover have "length t = 25" using u(1) t by simp
  ultimately show ?thesis by (auto simp: clean_text_def)
qed (use assms in simp_all)

lemma task_state_Inr:
  assumes "task_state v = Inr t"
  shows "clean_text 30 t"
proof -
  let ?names = "[''running'', ''interruptible_sleep'', ''uninterruptible_sleep'', ''stopped'', ''traced'',
    ''dead'', ''parked'', ''idle'', ''unknown'']"
  have "t \<in> set ?names"
    using assms by (auto simp: task_state_def dict_get_or_def split: if_splits)
  moreover have "list_all (clean_text 30) ?names" by code_simp
  ultimately show ?thesis by (simp only: list_all_iff)
qed

section \<open>Events\<close>

lemma kernel_base_simps [simp]:
  "te_event_id (kernel_base cfg s kind sequence timestamp cpu sem) = kernel_event_id sequence timestamp kind"
  "te_sequence (kernel_base cfg s kind sequence timestamp cpu sem) = int (length (ks_events s))"
  "te_timestamp_ns (kernel_base cfg s kind sequence timestamp cpu sem) = timestamp"
  "te_target (kernel_base cfg s kind sequence timestamp cpu sem) = ad_target cfg"
  "te_semantics (kernel_base cfg s kind sequence timestamp cpu sem) = sem"
  "te_cpu (kernel_base cfg s kind sequence timestamp cpu sem) = Some cpu"
  "te_stack (kernel_base cfg s kind sequence timestamp cpu sem) = []"
  by (simp_all add: kernel_base_def)

lemma kernel_base_ok [simp]:
  "0 \<le> timestamp \<Longrightarrow> 0 \<le> cpu \<Longrightarrow> base_ok cfg (kernel_base cfg s kind sequence timestamp cpu sem)"
  by (simp add: base_ok_def clean_event_id)

lemma wakeup_event_sound:
  assumes "tid \<in> set (ad_target_tids cfg)" and "private_relation cfg waker" and "0 \<le> timestamp" and "0 \<le> cpu"
  shows "event_sound cfg (wakeup_event cfg s kind sequence timestamp cpu tid waker)"
  unfolding wakeup_event_def using assms by (intro wakeup_sound) simp_all

section \<open>Conversions\<close>

text \<open>
  What a converter can do with a record, as a function of the parser state: refuse it in
  every state, or emit one event that depends on the state only through the number of
  events before it. The wakeup converter is the one that also changes the state.
\<close>

definition refuses :: "(kernel_state \<Rightarrow> (kernel_state \<times> trace_event option) result) \<Rightarrow> bool" where
  "refuses f \<longleftrightarrow> (\<exists>e. (is_value_error e \<or> e = KeyError \<or> e = TypeError) \<and> (\<forall>s. f s = Inl e))"

definition emits ::
  "kernel_config \<Rightarrow> string \<Rightarrow> int \<Rightarrow> int \<Rightarrow> int \<Rightarrow>
     (kernel_state \<Rightarrow> (kernel_state \<times> trace_event option) result) \<Rightarrow> bool" where
  "emits cfg kind sequence timestamp cpu f \<longleftrightarrow>
     (\<exists>build semantics.
        (\<forall>s. f s = Inr (s, Some (build (kernel_base cfg s kind sequence timestamp cpu semantics)))) \<and>
        (\<forall>b. ev_base (build b) = b) \<and>
        (\<forall>s. event_sound cfg (build (kernel_base cfg s kind sequence timestamp cpu semantics))))"

lemma plain_int_Inl: "plain_int v m = Inl e \<Longrightarrow> is_value_error e \<or> e = TypeError"
  by (cases v) (auto split: if_splits)

lemma related_tid_Inl: "related_tid raw = Inl e \<Longrightarrow> is_value_error e \<or> e = TypeError"
  by (auto simp: related_tid_def bindE_Inl_iff dest: plain_int_Inl split: if_splits)

lemma string_in_Inl: "string_in v ks = Inl e \<Longrightarrow> e = TypeError"
  by (cases v) auto

lemma lock_id_Inl: "lock_id v = Inl e \<Longrightarrow> is_value_error e"
  by (cases v) (auto simp del: set_map split: if_splits)

lemma task_state_Inl: "task_state v = Inl e \<Longrightarrow> is_value_error e \<or> e = TypeError"
  by (auto simp: task_state_def bindE_Inl_iff dest: plain_int_Inl)

lemma refusesI: "(\<And>s. f s = Inl e) \<Longrightarrow> is_value_error e \<or> e = KeyError \<or> e = TypeError \<Longrightarrow> refuses f"
  by (auto simp: refuses_def)

lemma emitsI:
  assumes "\<And>s. f s = Inr (s, Some (build (kernel_base cfg s kind sequence timestamp cpu semantics)))"
    and "\<And>b. ev_base (build b) = b"
    and "\<And>s. event_sound cfg (build (kernel_base cfg s kind sequence timestamp cpu semantics))"
  shows "emits cfg kind sequence timestamp cpu f"
  using assms unfolding emits_def by blast

text \<open>Checks that do not look at the state can be discharged one by one.\<close>

definition converts ::
  "kernel_config \<Rightarrow> string \<Rightarrow> int \<Rightarrow> int \<Rightarrow> int \<Rightarrow>
     (kernel_state \<Rightarrow> (kernel_state \<times> trace_event option) result) \<Rightarrow> bool" where
  "converts cfg kind sequence timestamp cpu f \<longleftrightarrow> refuses f \<or> emits cfg kind sequence timestamp cpu f"

lemma converts_bind:
  assumes "\<And>e. m = Inl e \<Longrightarrow> is_value_error e \<or> e = KeyError \<or> e = TypeError"
    and "\<And>x. m = Inr x \<Longrightarrow> converts cfg kind sequence timestamp cpu (f x)"
  shows "converts cfg kind sequence timestamp cpu (\<lambda>s. bindE m (\<lambda>x. f x s))"
proof (cases m)
  case (Inl e)
  then show ?thesis using assms(1) by (auto simp: converts_def intro!: refusesI)
next
  case (Inr x)
  then show ?thesis using assms(2) by simp
qed

lemma converts_event:
  assumes "\<And>b. ev_base (build b) = b"
    and "\<And>s. event_sound cfg (build (kernel_base cfg s kind sequence timestamp cpu semantics))"
  shows "converts cfg kind sequence timestamp cpu
    (\<lambda>s. Inr (s, Some (build (kernel_base cfg s kind sequence timestamp cpu semantics))))"
  unfolding converts_def by (rule disjI2, rule emitsI [where build = build and semantics = semantics]) (use assms in auto)

lemma switch_converts:
  assumes "tid \<in> set (ad_target_tids cfg)" and "0 \<le> timestamp" and "0 \<le> cpu"
  shows "converts cfg kind sequence timestamp cpu (kernel_switch cfg kind raw sequence timestamp cpu tid)"
  unfolding kernel_switch_def Let_def
proof (intro converts_bind, goal_cases)
  case (1 e)
  then show ?case by (auto dest: related_tid_Inl)
next
  case (2 related e)
  then show ?case by simp
next
  case (3 related u e)
  then show ?case by (auto dest: string_in_Inl)
next
  case (4 related u scope e)
  then show ?case by simp
next
  case (5 related u scope v e)
  then show ?case by (auto split: if_splits)
next
  case (6 related u scope v tasks)
  obtain p ps n ns where tasks: "tasks = (p, ps, n, ns)" by (cases tasks)
  have related: "related = Some r \<Longrightarrow> r \<in> set (ad_target_tids cfg)" for r
    using 6(2) by simp
  have priv: "private_task cfg (p, ps)" "private_task cfg (n, ns)" "ps = Scope_TARGET \<or> ns = Scope_TARGET"
    using 6(5) assms(1) related private_target [of _ cfg] private_redacted [of cfg]
    by (cases related; force simp: tasks split: if_splits)+
  show ?case
    unfolding tasks prod.case
  proof (rule converts_bind, goal_cases)
    case (1 e)
    then show ?case by (auto dest: task_state_Inl split: if_splits)
  next
    case (2 state)
    have "clean_text 30 ''unknown''" by code_simp
    then have "clean_text 30 state"
      using 2 by (auto dest: task_state_Inr split: if_splits)
    then show ?case
      by (intro converts_event) (simp_all add: switch_sound priv assms)
  qed
qed

lemma migrate_converts:
  assumes "tid \<in> set (ad_target_tids cfg)" and "0 \<le> timestamp" and "0 \<le> cpu"
  shows "converts cfg ''sched_migrate'' sequence timestamp cpu (kernel_migrate cfg raw sequence timestamp cpu tid)"
  unfolding kernel_migrate_def
  by (intro converts_bind converts_event)
    (auto simp: plain_int_Inr dest: plain_int_Inl intro!: migrate_sound kernel_base_ok assms)

lemma lock_converts:
  assumes "tid \<in> set (ad_target_tids cfg)" and "0 \<le> timestamp" and "0 \<le> cpu"
  shows "converts cfg kind sequence timestamp cpu (kernel_lock cfg kind raw sequence timestamp cpu tid)"
  unfolding kernel_lock_def
proof (intro converts_bind, goal_cases)
  case (1 e)
  then show ?case by (auto dest: lock_id_Inl)
next
  case (2 lock e)
  then show ?case by (auto simp: bindE_Inl_iff dest: plain_int_Inl split: if_splits)
next
  case (3 lock x)
  obtain action outcome where x: "x = (action, outcome)" by (cases x)
  have "(action = Lock_WAIT_ENDED) = (outcome \<noteq> None)"
    using 3(2) by (auto simp: x split: if_splits)
  then show ?case
    unfolding x prod.case
    by (intro converts_event) (simp_all add: lock_sound lock_id_Inr [OF 3(1)] assms)
qed

lemma futex_converts:
  assumes "tid \<in> set (ad_target_tids cfg)" and "0 \<le> timestamp" and "0 \<le> cpu"
  shows "converts cfg kind sequence timestamp cpu (kernel_futex cfg kind raw sequence timestamp cpu tid)"
  unfolding kernel_futex_def
proof (rule converts_bind, goal_cases)
  case (1 e)
  then show ?case by (auto dest: string_in_Inl)
next
  case (2 operation_raw)
  show ?case
  proof (cases operation_raw)
    case None
    then show ?thesis by (auto simp: converts_def intro!: refusesI)
  next
    case (Some operation)
    show ?thesis
      unfolding Some option.case Let_def
      by (intro converts_bind converts_event) (auto dest: lock_id_Inl lock_id_Inr intro!: futex_sound kernel_base_ok assms)
  qed
qed

end
