(* ===== verification/KernelTraceReference.thy ===== *)
theory KernelTraceReference
  imports KernelTraceEvents
begin

text \<open>
  A reading of the kernel trace without parser state. Every quantity is a function of the
  lines read so far, newest first: which class a line falls into, which waking records of a
  thread are still open, and which events the lines stand for. The parser, which keeps a
  watermark, a table of wakers and counters, is shown to compute exactly this.
\<close>

section \<open>Lines\<close>

definition line_record :: "kernel_config \<Rightarrow> json_decoder \<Rightarrow> bytes \<Rightarrow> raw_record option" where
  "line_record cfg decode line =
     (if int (length line) > tl_max_line_chars (ad_limits cfg) \<or> line = [] \<or> last line \<noteq> 10 then None
      else case json_loads decode line of
             Inr (VDict raw) \<Rightarrow>
               if has_keys raw common_fields \<and> keys_within raw (common_fields @ optional_fields)
               then Some raw else None
           | _ \<Rightarrow> None)"

text \<open>Line number \<open>i\<close>, counted from 0, with the fields every record has.\<close>

definition line_header ::
  "kernel_config \<Rightarrow> json_decoder \<Rightarrow> nat \<Rightarrow> bytes \<Rightarrow> (raw_record \<times> string \<times> int \<times> int \<times> int) option" where
  "line_header cfg decode i line =
     (case line_record cfg decode line of
        None \<Rightarrow> None
      | Some raw \<Rightarrow>
          (case record_header cfg (int i + 1) raw of
             Inl _ \<Rightarrow> None
           | Inr (kind, sequence, timestamp, cpu, tid) \<Rightarrow> Some (raw, kind, timestamp, cpu, tid)))"

definition header_time :: "raw_record \<times> string \<times> int \<times> int \<times> int \<Rightarrow> int" where
  "header_time h = (case h of (raw, kind, timestamp, cpu, tid) \<Rightarrow> timestamp)"

fun header_times :: "kernel_config \<Rightarrow> json_decoder \<Rightarrow> bytes list \<Rightarrow> int list" where
  "header_times cfg decode [] = []"
| "header_times cfg decode (line # older) =
     (case line_header cfg decode (length older) line of
        None \<Rightarrow> header_times cfg decode older
      | Some h \<Rightarrow> header_time h # header_times cfg decode older)"

datatype line_class =
    Malformed
  | Late
  | Waking int relation
  | Woken int
  | Plain

text \<open>A record is late when an earlier one with a valid header has a larger timestamp.\<close>

definition class_of :: "kernel_config \<Rightarrow> json_decoder \<Rightarrow> bytes list \<Rightarrow> bytes \<Rightarrow> line_class" where
  "class_of cfg decode older line =
     (case line_header cfg decode (length older) line of
        None \<Rightarrow> Malformed
      | Some (raw, kind, timestamp, cpu, tid) \<Rightarrow>
          if \<exists>t \<in> set (header_times cfg decode older). timestamp < t then Late
          else if mode_check cfg kind \<noteq> Inr () then Malformed
          else if kind \<in> set [''sched_waking'', ''sched_wakeup'', ''sched_wakeup_new''] then
            (case waker_relation cfg raw of
               Inl _ \<Rightarrow> Malformed
             | Inr r \<Rightarrow> if kind = ''sched_waking'' then Waking tid r else Woken tid)
          else
            (case kernel_converter cfg kind raw (int (length older)) timestamp cpu tid (kernel_init cfg False) of
               Inl _ \<Rightarrow> Malformed
             | Inr _ \<Rightarrow> Plain))"

fun classes :: "kernel_config \<Rightarrow> json_decoder \<Rightarrow> bytes list \<Rightarrow> line_class list" where
  "classes cfg decode [] = []"
| "classes cfg decode (line # older) = class_of cfg decode older line # classes cfg decode older"

text \<open>The waking records of a thread since its last wakeup, newest first.\<close>

fun open_wakings :: "int \<Rightarrow> line_class list \<Rightarrow> relation list" where
  "open_wakings tid [] = []"
| "open_wakings tid (Woken t # cs) = (if t = tid then [] else open_wakings tid cs)"
| "open_wakings tid (Waking t r # cs) = (if t = tid then r # open_wakings tid cs else open_wakings tid cs)"
| "open_wakings tid (_ # cs) = open_wakings tid cs"

text \<open>Wakeups that used up exactly one waking record, and waking records that were ambiguous.\<close>

fun enriched :: "line_class list \<Rightarrow> int" where
  "enriched [] = 0"
| "enriched (Woken t # cs) = enriched cs + (if length (open_wakings t cs) = 1 then 1 else 0)"
| "enriched (_ # cs) = enriched cs"

fun ambiguous :: "line_class list \<Rightarrow> int" where
  "ambiguous [] = 0"
| "ambiguous (Woken t # cs) =
     ambiguous cs + (if length (open_wakings t cs) > 1 then int (length (open_wakings t cs)) else 0)"
| "ambiguous (_ # cs) = ambiguous cs"

text \<open>Waking records that no later wakeup of their thread used up; \<open>woken\<close> are the threads woken later.\<close>

fun still_open :: "int set \<Rightarrow> line_class list \<Rightarrow> int" where
  "still_open woken [] = 0"
| "still_open woken (Woken t # cs) = still_open (insert t woken) cs"
| "still_open woken (Waking t r # cs) = (if t \<in> woken then 0 else 1) + still_open woken cs"
| "still_open woken (_ # cs) = still_open woken cs"

definition line_events ::
  "kernel_config \<Rightarrow> json_decoder \<Rightarrow> bytes list \<Rightarrow> bytes \<Rightarrow> trace_event list \<Rightarrow> trace_event list" where
  "line_events cfg decode older line evs =
     (let s = (kernel_init cfg False)\<lparr>ks_events := evs\<rparr> in
      case line_header cfg decode (length older) line of
        None \<Rightarrow> []
      | Some (raw, kind, timestamp, cpu, tid) \<Rightarrow>
          (case class_of cfg decode older line of
             Plain \<Rightarrow>
               (case kernel_converter cfg kind raw (int (length older)) timestamp cpu tid s of
                  Inr (_, Some e) \<Rightarrow> [e]
                | _ \<Rightarrow> [])
           | Woken t \<Rightarrow>
               [wakeup_event cfg s kind (int (length older)) timestamp cpu t
                  (case open_wakings t (classes cfg decode older) of [r] \<Rightarrow> r | _ \<Rightarrow> (None, None))]
           | _ \<Rightarrow> []))"

fun emitted :: "kernel_config \<Rightarrow> json_decoder \<Rightarrow> bytes list \<Rightarrow> trace_event list" where
  "emitted cfg decode [] = []"
| "emitted cfg decode (line # older) =
     emitted cfg decode older @ line_events cfg decode older line (emitted cfg decode older)"

section \<open>Headers\<close>

lemma raw_item_Inl: "raw_item raw k = Inl e \<Longrightarrow> e = KeyError"
  by (auto simp: raw_item_def split: option.splits)

lemma record_header_Inr:
  assumes "record_header cfg n raw = Inr (kind, sequence, timestamp, cpu, tid)"
  shows "kind \<in> set kernel_kinds" and "keys_within raw (common_fields @ dict_get_or [] kind_fields kind)"
    and "sequence = n - 1" and "0 \<le> timestamp" and "0 \<le> cpu" and "1 \<le> tid" and "tid \<in> set (ad_target_tids cfg)"
  using assms
  by (auto simp: record_header_def string_in_Some plain_int_Inr split: option.splits)

lemma record_header_Inl:
  assumes "record_header cfg n raw = Inl e"
  shows "is_value_error e \<or> e = KeyError \<or> e = TypeError"
  using assms
  by (auto simp: record_header_def bindE_Inl_iff dest!: raw_item_Inl plain_int_Inl string_in_Inl
      split: option.splits)

lemma mode_check_Inl: "mode_check cfg kind = Inl e \<Longrightarrow> is_value_error e"
  by (auto simp: mode_check_def bindE_Inl_iff)

lemma waker_relation_Inl: "waker_relation cfg raw = Inl e \<Longrightarrow> is_value_error e \<or> e = TypeError"
  by (auto simp: waker_relation_def Let_def bindE_Inl_iff dest: related_tid_Inl split: option.splits if_splits)

lemma waker_relation_private: "waker_relation cfg raw = Inr r \<Longrightarrow> private_relation cfg r"
  by (auto simp: waker_relation_def Let_def private_relation_def intro: private_target private_redacted
      split: option.splits if_splits)

lemma raw_get_absent: "ascii k \<notin> fst ` set raw \<Longrightarrow> raw_get raw k = VNone"
  by (simp add: raw_get_def map_of_eq_None_iff [symmetric])

text \<open>A wakeup record has no field that could name a waker.\<close>

lemma wakeup_relation:
  assumes "keys_within raw (common_fields @ dict_get_or [] kind_fields kind)"
    and "kind = ''sched_wakeup'' \<or> kind = ''sched_wakeup_new''"
  shows "waker_relation cfg raw = Inr (None, None)"
proof -
  have no: "''related_target_tid'' \<notin> set (common_fields @ dict_get_or [] kind_fields kind)"
    "''related_scope'' \<notin> set (common_fields @ dict_get_or [] kind_fields kind)"
    using assms(2) by (elim disjE; simp; code_simp)+
  have "raw_get raw k = VNone" if "k \<notin> set (common_fields @ dict_get_or [] kind_fields kind)" for k
    using that assms(1) by (intro raw_get_absent) (auto simp: keys_within_def)
  from this [OF no(1)] this [OF no(2)] show ?thesis
    by (simp add: waker_relation_def related_tid_def)
qed

end
