(* ===== verification/KernelTraceProofs.thy ===== *)
theory KernelTraceProofs
  imports KernelTraceReference
begin

text \<open>
  The parser of the kernel trace computes the stateless reading. The invariant
  \<open>kernel_inv\<close> ties every field of the parser state to the lines consumed so far; one line
  keeps it, whatever the line contains, unless a resource limit is reached or the JSON
  decoder raises something other than a \<open>ValueError\<close>.
\<close>

section \<open>Invariant\<close>

definition pending_matches :: "(int, int \<times> relation) dict \<Rightarrow> line_class list \<Rightarrow> bool" where
  "pending_matches pending cs \<longleftrightarrow> dict_wf pending \<and>
     (\<forall>tid. map_of pending tid =
        (case open_wakings tid cs of [] \<Rightarrow> None | r # rs \<Rightarrow> Some (1 + int (length rs), r)))"

text \<open>The watermark: the largest timestamp among the valid headers.\<close>

definition watermark :: "kernel_config \<Rightarrow> json_decoder \<Rightarrow> bytes list \<Rightarrow> int option" where
  "watermark cfg decode older =
     (let times = header_times cfg decode older in if times = [] then None else Some (Max (set times)))"

definition kernel_inv :: "kernel_config \<Rightarrow> json_decoder \<Rightarrow> bool \<Rightarrow> bytes list \<Rightarrow> kernel_state \<Rightarrow> bool" where
  "kernel_inv cfg decode truncated older s \<longleftrightarrow>
     (let cs = classes cfg decode older in
     ks_events s = emitted cfg decode older \<and>
     ks_input_lines s = int (length older) \<and>
     ks_input_events s = int (length older) \<and>
     ks_input_bytes s = int (length (concat older)) \<and>
     ks_malformed s = int (count_list cs Malformed) \<and>
     ks_out_of_order s = int (count_list cs Late) \<and>
     ks_unsupported s = ambiguous cs \<and>
     ks_provisional_count s = enriched cs \<and>
     ks_truncated_count s = 0 \<and>
     pending_matches (ks_pending_wakers s) cs \<and>
     ks_last_timestamp s = watermark cfg decode older \<and>
     int (length older) = int (length (ks_events s)) + ks_malformed s + ks_out_of_order s +
       ks_unsupported s + ks_provisional_count s + dict_sum fst (ks_pending_wakers s) \<and>
     int (length (ks_diagnostics s)) = min (ks_diagnostic_count s) (tl_max_warnings (ad_limits cfg)) \<and>
     (if truncated then 1 else 0) + ks_malformed s + ks_out_of_order s \<le> ks_diagnostic_count s)"

lemma diagnose_simps [simp]:
  "ks_events (diagnose cfg code msg s) = ks_events s"
  "ks_input_lines (diagnose cfg code msg s) = ks_input_lines s"
  "ks_input_events (diagnose cfg code msg s) = ks_input_events s"
  "ks_input_bytes (diagnose cfg code msg s) = ks_input_bytes s"
  "ks_malformed (diagnose cfg code msg s) = ks_malformed s"
  "ks_out_of_order (diagnose cfg code msg s) = ks_out_of_order s"
  "ks_unsupported (diagnose cfg code msg s) = ks_unsupported s"
  "ks_provisional_count (diagnose cfg code msg s) = ks_provisional_count s"
  "ks_truncated_count (diagnose cfg code msg s) = ks_truncated_count s"
  "ks_pending_wakers (diagnose cfg code msg s) = ks_pending_wakers s"
  "ks_last_timestamp (diagnose cfg code msg s) = ks_last_timestamp s"
  "ks_diagnostic_count (diagnose cfg code msg s) = ks_diagnostic_count s + 1"
  by (simp_all add: diagnose_def)

lemma length_diagnostics:
  "int (length (ks_diagnostics s)) = min (ks_diagnostic_count s) (tl_max_warnings (ad_limits cfg)) \<Longrightarrow>
   int (length (ks_diagnostics (diagnose cfg code msg s))) =
     min (ks_diagnostic_count s + 1) (tl_max_warnings (ad_limits cfg))"
  by (auto simp: diagnose_def)

lemma kernel_inv_init:
  "1 \<le> tl_max_warnings (ad_limits cfg) \<Longrightarrow> kernel_inv cfg decode truncated [] (kernel_init cfg truncated)"
  by (simp add: kernel_inv_def kernel_init_def Let_def pending_matches_def watermark_def) (simp add: diagnose_def)

section \<open>Classes\<close>

lemma private_open_wakings:
  "r \<in> set (open_wakings tid (classes cfg decode older)) \<Longrightarrow> private_relation cfg r"
proof (induction older)
  case (Cons line older)
  have "private_relation cfg q" if "class_of cfg decode older line = Waking t q" for t q
    using that waker_relation_private [of cfg]
    by (auto simp: class_of_def split: option.splits if_splits sum.splits prod.splits)
  with Cons show ?case
    by (cases "class_of cfg decode older line") (auto split: if_splits)
qed simp

lemma pending_waking:
  assumes "pending_matches p cs"
  shows "pending_matches (dict_set tid ((case map_of p tid of None \<Rightarrow> 1 | Some q \<Rightarrow> fst q + 1), r) p) (Waking tid r # cs)"
  using assms
  by (auto simp: pending_matches_def map_of_dict_set split: list.splits)

lemma pending_woken:
  assumes "pending_matches p cs"
  shows "pending_matches (dict_pop tid p) (Woken tid # cs)"
  using assms by (auto simp: pending_matches_def map_of_dict_pop split: list.splits)

lemma pending_other:
  assumes "pending_matches p cs" and "\<And>t. c \<noteq> Woken t" and "\<And>t r. c \<noteq> Waking t r"
  shows "pending_matches p (c # cs)"
  using assms by (cases c) (auto simp: pending_matches_def)

lemma kernel_base_cong:
  "length (ks_events s) = length (ks_events s') \<Longrightarrow>
   kernel_base cfg s kind sequence timestamp cpu sem = kernel_base cfg s' kind sequence timestamp cpu sem"
  by (simp add: kernel_base_def)

lemma converter_plain:
  assumes "kind \<in> set kernel_kinds" and "kind \<notin> set [''sched_waking'', ''sched_wakeup'', ''sched_wakeup_new'']"
    and "tid \<in> set (ad_target_tids cfg)" and "0 \<le> timestamp" and "0 \<le> cpu"
  shows "converts cfg kind sequence timestamp cpu (kernel_converter cfg kind raw sequence timestamp cpu tid)"
  unfolding kernel_converter_def
  using assms switch_converts migrate_converts lock_converts futex_converts
  by auto

lemma converter_wakeup:
  "kind \<in> set [''sched_waking'', ''sched_wakeup'', ''sched_wakeup_new''] \<Longrightarrow>
     kernel_converter cfg kind = kernel_wakeup cfg kind"
  by (auto simp: kernel_converter_def begins_def)

section \<open>One line\<close>

definition counted :: "bytes \<Rightarrow> kernel_state \<Rightarrow> kernel_state" where
  "counted line s =
     s\<lparr>ks_input_lines := ks_input_lines s + 1, ks_input_bytes := ks_input_bytes s + int (length line),
       ks_input_events := ks_input_events s + 1\<rparr>"

lemma counted_simps [simp]:
  "ks_events (counted line s) = ks_events s"
  "ks_input_lines (counted line s) = ks_input_lines s + 1"
  "ks_input_events (counted line s) = ks_input_events s + 1"
  "ks_input_bytes (counted line s) = ks_input_bytes s + int (length line)"
  "ks_malformed (counted line s) = ks_malformed s"
  "ks_out_of_order (counted line s) = ks_out_of_order s"
  "ks_unsupported (counted line s) = ks_unsupported s"
  "ks_provisional_count (counted line s) = ks_provisional_count s"
  "ks_truncated_count (counted line s) = ks_truncated_count s"
  "ks_pending_wakers (counted line s) = ks_pending_wakers s"
  "ks_last_timestamp (counted line s) = ks_last_timestamp s"
  "ks_diagnostic_count (counted line s) = ks_diagnostic_count s"
  "ks_diagnostics (counted line s) = ks_diagnostics s"
  by (simp_all add: counted_def)

definition within_limits :: "kernel_config \<Rightarrow> bytes \<Rightarrow> kernel_state \<Rightarrow> bool" where
  "within_limits cfg line s \<longleftrightarrow>
     ks_input_lines s + 1 \<le> tl_max_input_lines (ad_limits cfg) \<and>
     ks_input_bytes s + int (length line) \<le> tl_max_output_bytes (ad_limits cfg) \<and>
     ks_input_events s + 1 \<le> tl_max_events (ad_limits cfg)"

text \<open>A line that fits its bounds but makes the decoder raise something unforeseen.\<close>

definition decoder_escapes :: "kernel_config \<Rightarrow> json_decoder \<Rightarrow> bytes \<Rightarrow> py_error \<Rightarrow> bool" where
  "decoder_escapes cfg decode line e \<longleftrightarrow>
     int (length line) \<le> tl_max_line_chars (ad_limits cfg) \<and> line \<noteq> [] \<and> last line = 10 \<and>
     decode line = Inl e \<and> \<not> is_value_error e"

lemma hook_errors:
  shows "\<And>e. hook_value v = Inl e \<Longrightarrow> is_value_error e"
    and "\<And>e. hook_values vs = Inl e \<Longrightarrow> is_value_error e"
    and "\<And>e. hook_pairs kvs = Inl e \<Longrightarrow> is_value_error e"
proof (induction v and vs and kvs rule: hook_value_hook_values_hook_pairs.induct)
  case (2 kvs)
  have "is_value_error e" if "foldE (\<lambda>(key, v) result.
         if key \<in> fst ` set result then Inl (ValueError ''duplicate kernel trace field'')
         else Inr (dict_set key v result)) pairs d = Inl e" for pairs d e
    using that by (induction pairs arbitrary: d) (auto split: if_splits)
  with 2 show ?case
    by (auto simp: bindE_Inl_iff without_duplicate_keys_def)
qed (auto simp: bindE_Inl_iff)

lemma json_loads_escapes:
  "json_loads decode line = Inl e \<Longrightarrow> \<not> is_value_error e \<Longrightarrow> decode line = Inl e"
  by (auto simp: json_loads_def bindE_Inl_iff dest: hook_errors(1))

lemma consume_over:
  assumes "\<not> within_limits cfg line s"
  shows "\<exists>m. consume cfg decode line s = Inl (kernel_limit m)"
  using assms by (auto simp: consume_def within_limits_def Let_def bindE_raise_if not_le)

lemma consume_escape:
  assumes "within_limits cfg line s" and "decoder_escapes cfg decode line e"
  shows "consume cfg decode line s = Inl e"
  using assms
  by (auto simp: consume_def within_limits_def decoder_escapes_def Let_def bindE_raise_if not_le json_loads_def)

lemma consume_no_record:
  assumes "within_limits cfg line s" and "\<nexists>e. decoder_escapes cfg decode line e"
    and "line_record cfg decode line = None"
  shows "\<exists>code m. consume cfg decode line s = Inr (count_malformed cfg code m (counted line s))"
proof (cases "int (length line) > tl_max_line_chars (ad_limits cfg) \<or> line = [] \<or> last line \<noteq> 10")
  case True
  then show ?thesis
    using assms(1) by (auto simp: consume_def within_limits_def Let_def bindE_raise_if not_le counted_def)
next
  case False
  then have fits: "\<not> int (length line) > tl_max_line_chars (ad_limits cfg)" "line \<noteq> []" "last line = 10" by auto
  show ?thesis
  proof (cases "json_loads decode line")
    case (Inl e)
    have "is_value_error e"
      using assms(2) fits json_loads_escapes [OF Inl] by (auto simp: decoder_escapes_def not_less)
    then show ?thesis
      using assms(1) fits Inl
      by (auto simp: consume_def within_limits_def Let_def bindE_raise_if not_le counted_def)
  next
    case (Inr v)
    then show ?thesis
      using assms(1,3) fits
      by (cases v)
        (auto simp: consume_def line_record_def within_limits_def Let_def bindE_raise_if not_le counted_def)
  qed
qed

lemma consume_some_record:
  assumes "within_limits cfg line s" and "line_record cfg decode line = Some raw"
  shows "consume cfg decode line s =
    (case consume_record cfg raw (counted line s) of
       (s3, Inr _) \<Rightarrow> Inr s3
     | (s3, Inl e) \<Rightarrow>
         if is_value_error e \<or> e = KeyError \<or> e = TypeError
         then Inr (count_malformed cfg ''INVALID_RECORD'' ''Kernel trace record failed typed validation'' s3)
         else Inl e)"
  using assms
  by (auto simp: consume_def line_record_def within_limits_def Let_def bindE_raise_if not_le counted_def
      split: if_splits sum.splits py_value.splits)

lemma watermark_late:
  "(case watermark cfg decode older of None \<Rightarrow> False | Some t \<Rightarrow> timestamp < t) \<longleftrightarrow>
     (\<exists>t \<in> set (header_times cfg decode older). timestamp < t)"
  by (auto simp: watermark_def Let_def Max_gr_iff)

lemma watermark_no_header:
  "line_header cfg decode (length older) line = None \<Longrightarrow>
     watermark cfg decode (line # older) = watermark cfg decode older"
  by (simp add: watermark_def)

lemma watermark_header:
  assumes "line_header cfg decode (length older) line = Some h"
  shows "watermark cfg decode (line # older) =
    (if \<exists>t \<in> set (header_times cfg decode older). header_time h < t
     then watermark cfg decode older else Some (header_time h))"
proof (cases "\<exists>t \<in> set (header_times cfg decode older). header_time h < t")
  case True
  then show ?thesis
    using assms by (auto simp: watermark_def Let_def max_def not_le Max_ge_iff dest: leD)
next
  case False
  then have "Max (insert (header_time h) (set (header_times cfg decode older))) = header_time h"
    by (intro Max_eqI) (auto simp: not_less)
  then show ?thesis using assms False by (auto simp: watermark_def)
qed

lemmas inv_simps = kernel_inv_def Let_def

lemma inv_malformed:
  assumes "kernel_inv cfg decode truncated older s" and "class_of cfg decode older line = Malformed"
    and "t = watermark cfg decode (line # older)"
  shows "kernel_inv cfg decode truncated (line # older)
    (count_malformed cfg code m ((counted line s)\<lparr>ks_last_timestamp := t\<rparr>))"
proof -
  have none: "line_events cfg decode older line evs = []" for evs
    using assms(2) by (auto simp: line_events_def Let_def split: option.splits)
  show ?thesis
    using assms none pending_other [of "ks_pending_wakers s" "classes cfg decode older" Malformed]
    by (auto simp: inv_simps count_malformed_def length_diagnostics)
qed

lemma inv_late:
  assumes "kernel_inv cfg decode truncated older s" and "class_of cfg decode older line = Late"
    and "ks_last_timestamp s = watermark cfg decode (line # older)"
  shows "kernel_inv cfg decode truncated (line # older)
    (diagnose cfg code m ((counted line s)\<lparr>ks_out_of_order := ks_out_of_order s + 1\<rparr>))"
proof -
  have none: "line_events cfg decode older line evs = []" for evs
    using assms(2) by (auto simp: line_events_def Let_def split: option.splits)
  show ?thesis
    using assms none pending_other [of "ks_pending_wakers s" "classes cfg decode older" Late]
    by (auto simp: inv_simps length_diagnostics)
qed

lemma inv_waking:
  assumes "kernel_inv cfg decode truncated older s" and "class_of cfg decode older line = Waking tid r"
    and "t = watermark cfg decode (line # older)"
  shows "kernel_inv cfg decode truncated (line # older)
    ((counted line s)\<lparr>ks_last_timestamp := t, ks_pending_wakers := dict_set tid
       ((case map_of (ks_pending_wakers s) tid of None \<Rightarrow> 1 | Some p \<Rightarrow> fst p + 1), r) (ks_pending_wakers s)\<rparr>)"
proof -
  have none: "line_events cfg decode older line evs = []" for evs
    using assms(2) by (auto simp: line_events_def Let_def split: option.splits)
  have pend: "pending_matches (ks_pending_wakers s) (classes cfg decode older)"
    using assms(1) by (simp add: inv_simps)
  then have wf: "dict_wf (ks_pending_wakers s)" by (simp add: pending_matches_def)
  show ?thesis
    using assms none pending_waking [OF pend, of tid r]
    by (auto simp: inv_simps dict_sum_set [OF wf] split: option.splits)
qed

lemma inv_plain:
  assumes "kernel_inv cfg decode truncated older s" and "class_of cfg decode older line = Plain"
    and "t = watermark cfg decode (line # older)" and "line_events cfg decode older line (ks_events s) = [e]"
  shows "kernel_inv cfg decode truncated (line # older)
    ((counted line s)\<lparr>ks_last_timestamp := t, ks_events := ks_events s @ [e]\<rparr>)"
  using assms pending_other [of "ks_pending_wakers s" "classes cfg decode older" Plain]
  by (auto simp: inv_simps)

text \<open>What the wakeup converter does with the table of wakers, in terms of the open records.\<close>

definition woken_state :: "kernel_config \<Rightarrow> int \<Rightarrow> relation list \<Rightarrow> kernel_state \<Rightarrow> kernel_state" where
  "woken_state cfg tid rs s =
     (let s1 = s\<lparr>ks_pending_wakers := dict_pop tid (ks_pending_wakers s)\<rparr> in
      case rs of
        [] \<Rightarrow> s1
      | [r] \<Rightarrow> s1\<lparr>ks_provisional_count := ks_provisional_count s1 + 1\<rparr>
      | _ \<Rightarrow> diagnose cfg ''AMBIGUOUS_WAKER'' ''Multiple waking records prevented exact waker enrichment''
               (s1\<lparr>ks_unsupported := ks_unsupported s1 + int (length rs)\<rparr>))"

lemma kernel_base_update [simp]:
  "kernel_base cfg (s\<lparr>ks_pending_wakers := p\<rparr>) = kernel_base cfg s"
  "kernel_base cfg (s\<lparr>ks_provisional_count := n\<rparr>) = kernel_base cfg s"
  "kernel_base cfg (s\<lparr>ks_unsupported := n\<rparr>) = kernel_base cfg s"
  "kernel_base cfg (s\<lparr>ks_last_timestamp := t\<rparr>) = kernel_base cfg s"
  "kernel_base cfg (diagnose cfg code m s) = kernel_base cfg s"
  "kernel_base cfg (counted line s) = kernel_base cfg s"
  by (simp_all add: kernel_base_def fun_eq_iff)

lemma woken_state_events [simp]: "ks_events (woken_state cfg tid rs s) = ks_events s"
  by (auto simp: woken_state_def Let_def split: list.splits)

lemma kernel_wakeup_woken:
  assumes "pending_matches (ks_pending_wakers s) cs" and "kind \<noteq> ''sched_waking''"
    and "waker_relation cfg raw = Inr (None, None)"
  shows "kernel_wakeup cfg kind raw sequence timestamp cpu tid s =
    Inr (woken_state cfg tid (open_wakings tid cs) s,
         Some (wakeup_event cfg s kind sequence timestamp cpu tid
           (case open_wakings tid cs of [r] \<Rightarrow> r | _ \<Rightarrow> (None, None))))"
proof -
  have p: "map_of (ks_pending_wakers s) tid =
      (case open_wakings tid cs of [] \<Rightarrow> None | r # rs \<Rightarrow> Some (1 + int (length rs), r))"
    using assms(1) by (simp add: pending_matches_def)
  show ?thesis
  proof (cases "open_wakings tid cs")
    case Nil
    then show ?thesis using assms p by (simp add: kernel_wakeup_def woken_state_def wakeup_event_def)
  next
    case (Cons r rs)
    then show ?thesis
      using assms p by (cases rs) (simp_all add: kernel_wakeup_def woken_state_def Let_def wakeup_event_def)
  qed
qed

lemma inv_woken:
  assumes "kernel_inv cfg decode truncated older s" and "class_of cfg decode older line = Woken tid"
    and "t = watermark cfg decode (line # older)" and "line_events cfg decode older line (ks_events s) = [e]"
  shows "kernel_inv cfg decode truncated (line # older)
    ((woken_state cfg tid (open_wakings tid (classes cfg decode older))
       ((counted line s)\<lparr>ks_last_timestamp := t\<rparr>))\<lparr>ks_events := ks_events s @ [e]\<rparr>)"
proof -
  let ?p = "ks_pending_wakers s" and ?rs = "open_wakings tid (classes cfg decode older)"
  have pend: "pending_matches ?p (classes cfg decode older)"
    using assms(1) by (simp add: inv_simps)
  then have sums: "dict_sum fst (dict_pop tid ?p) = dict_sum fst ?p - int (length ?rs)"
    by (auto simp: pending_matches_def dict_sum_pop split: list.splits)
  show ?thesis
  proof (cases ?rs)
    case Nil
    then show ?thesis
      using assms pending_woken [OF pend, of tid] sums
      by (auto simp: inv_simps woken_state_def)
  next
    case (Cons r rs)
    then show ?thesis
      using assms pending_woken [OF pend, of tid] sums
      by (cases rs) (auto simp: inv_simps woken_state_def length_diagnostics)
  qed
qed

section \<open>A line in order\<close>

text \<open>The facts about a line whose header is valid and whose timestamp is not below the watermark.\<close>

definition in_order ::
  "kernel_config \<Rightarrow> json_decoder \<Rightarrow> bytes list \<Rightarrow> bytes \<Rightarrow> raw_record \<Rightarrow> string \<Rightarrow> int \<Rightarrow> int \<Rightarrow> int \<Rightarrow> bool" where
  "in_order cfg decode older line raw kind timestamp cpu tid \<longleftrightarrow>
     line_header cfg decode (length older) line = Some (raw, kind, timestamp, cpu, tid) \<and>
     \<not> (\<exists>t \<in> set (header_times cfg decode older). timestamp < t) \<and>
     kind \<in> set kernel_kinds \<and> keys_within raw (common_fields @ dict_get_or [] kind_fields kind) \<and>
     0 \<le> timestamp \<and> 0 \<le> cpu \<and> tid \<in> set (ad_target_tids cfg)"

abbreviation finished ::
  "kernel_config \<Rightarrow> kernel_state \<Rightarrow> (kernel_state \<times> trace_event option) result \<Rightarrow> kernel_state" where
  "finished cfg s1 m \<equiv>
     (case m of
        Inl e \<Rightarrow> count_malformed cfg ''INVALID_RECORD'' ''Kernel trace record failed typed validation'' s1
      | Inr (s2, None) \<Rightarrow> s2
      | Inr (s2, Some event) \<Rightarrow> s2\<lparr>ks_events := ks_events s2 @ [event]\<rparr>)"

lemma in_order_watermark:
  "in_order cfg decode older line raw kind timestamp cpu tid \<Longrightarrow>
     watermark cfg decode (line # older) = Some timestamp"
  by (auto simp: in_order_def watermark_header header_time_def)

lemma in_order_mode:
  assumes "in_order cfg decode older line raw kind timestamp cpu tid" and "mode_check cfg kind \<noteq> Inr ()"
  shows "class_of cfg decode older line = Malformed"
  using assms by (simp add: in_order_def class_of_def)

lemma in_order_keeps_plain:
  assumes io: "in_order cfg decode older line raw kind timestamp cpu tid" and inv: "kernel_inv cfg decode truncated older s"
    and mode: "mode_check cfg kind = Inr ()"
    and kind: "kind \<notin> set [''sched_waking'', ''sched_wakeup'', ''sched_wakeup_new'']"
    and s1: "s1 = (counted line s)\<lparr>ks_last_timestamp := Some timestamp\<rparr>"
  shows "kernel_inv cfg decode truncated (line # older)
    (finished cfg s1 (kernel_converter cfg kind raw (int (length older)) timestamp cpu tid s1))"
proof -
  let ?f = "kernel_converter cfg kind raw (int (length older)) timestamp cpu tid"
  note hdr = io [unfolded in_order_def]
  note w = in_order_watermark [OF io, symmetric]
  have "converts cfg kind (int (length older)) timestamp cpu ?f"
    by (rule converter_plain) (use hdr kind in auto)
  then consider (refuses) e where "\<And>s. ?f s = Inl e"
    | (emits) build sem where "\<And>s. ?f s = Inr (s, Some (build (kernel_base cfg s kind (int (length older)) timestamp cpu sem)))"
    unfolding converts_def refuses_def emits_def by blast
  then show ?thesis
  proof cases
    case refuses
    then have "class_of cfg decode older line = Malformed"
      using hdr mode kind by (simp add: class_of_def)
    from inv_malformed [OF inv this w] show ?thesis by (simp add: refuses s1)
  next
    case emits
    then have cls: "class_of cfg decode older line = Plain"
      using hdr mode kind by (simp add: class_of_def)
    have "line_events cfg decode older line (ks_events s) = [build (kernel_base cfg s kind (int (length older)) timestamp cpu sem)]"
      using hdr cls by (simp add: line_events_def emits) (simp add: kernel_base_def)
    from inv_plain [OF inv cls w this] show ?thesis by (simp add: emits s1)
  qed
qed

lemma in_order_keeps_wakeup:
  assumes io: "in_order cfg decode older line raw kind timestamp cpu tid" and inv: "kernel_inv cfg decode truncated older s"
    and mode: "mode_check cfg kind = Inr ()"
    and kind: "kind \<in> set [''sched_waking'', ''sched_wakeup'', ''sched_wakeup_new'']"
    and s1: "s1 = (counted line s)\<lparr>ks_last_timestamp := Some timestamp\<rparr>"
  shows "kernel_inv cfg decode truncated (line # older)
    (finished cfg s1 (kernel_converter cfg kind raw (int (length older)) timestamp cpu tid s1))"
proof -
  note hdr = io [unfolded in_order_def]
  note w = in_order_watermark [OF io, symmetric]
  let ?cs = "classes cfg decode older"
  show ?thesis
  proof (cases "waker_relation cfg raw")
    case (Inl e)
    then have "class_of cfg decode older line = Malformed"
      using hdr mode kind by (simp add: class_of_def)
    from inv_malformed [OF inv this w] show ?thesis
      using Inl kind by (simp add: converter_wakeup kernel_wakeup_def s1)
  next
    case (Inr r)
    show ?thesis
    proof (cases "kind = ''sched_waking''")
      case True
      then have "class_of cfg decode older line = Waking tid r"
        using hdr mode Inr by (simp add: class_of_def)
      from inv_waking [OF inv this w] show ?thesis
        using Inr True by (simp add: converter_wakeup kernel_wakeup_def s1)
    next
      case False
      then have "waker_relation cfg raw = Inr (None, None)"
        using wakeup_relation hdr kind by auto
      moreover have cls: "class_of cfg decode older line = Woken tid"
        using hdr mode kind Inr False by (simp add: class_of_def)
      moreover have "pending_matches (ks_pending_wakers s1) ?cs"
        using inv by (simp add: inv_simps s1)
      ultimately have conv: "kernel_converter cfg kind raw (int (length older)) timestamp cpu tid s1 =
          Inr (woken_state cfg tid (open_wakings tid ?cs) s1,
            Some (wakeup_event cfg s1 kind (int (length older)) timestamp cpu tid
              (case open_wakings tid ?cs of [r] \<Rightarrow> r | _ \<Rightarrow> (None, None))))"
        using kind False by (simp add: converter_wakeup kernel_wakeup_woken)
      have "line_events cfg decode older line (ks_events s) =
          [wakeup_event cfg s1 kind (int (length older)) timestamp cpu tid
            (case open_wakings tid ?cs of [r] \<Rightarrow> r | _ \<Rightarrow> (None, None))]"
        using hdr cls by (simp add: line_events_def s1 wakeup_event_def) (simp add: kernel_base_def)
      from inv_woken [OF inv cls w this] show ?thesis
        unfolding conv by (simp add: s1)
    qed
  qed
qed

lemma converter_Inl:
  assumes "in_order cfg decode older line raw kind timestamp cpu tid"
    and "kernel_converter cfg kind raw sequence timestamp cpu tid s = Inl e"
  shows "is_value_error e \<or> e = KeyError \<or> e = TypeError"
proof (cases "kind \<in> set [''sched_waking'', ''sched_wakeup'', ''sched_wakeup_new'']")
  case True
  then show ?thesis
    using assms(2) waker_relation_Inl [of cfg raw e]
    by (auto simp: converter_wakeup kernel_wakeup_def bindE_Inl_iff Let_def split: option.splits if_splits)
next
  case False
  then have "converts cfg kind sequence timestamp cpu (kernel_converter cfg kind raw sequence timestamp cpu tid)"
    using assms(1) by (intro converter_plain) (auto simp: in_order_def)
  then show ?thesis
    using assms(2) unfolding converts_def refuses_def emits_def by fastforce
qed

text \<open>The error a line may raise.\<close>

definition line_error :: "kernel_config \<Rightarrow> json_decoder \<Rightarrow> bytes \<Rightarrow> py_error \<Rightarrow> bool" where
  "line_error cfg decode line e \<longleftrightarrow> (\<exists>m. e = kernel_limit m) \<or> decoder_escapes cfg decode line e"

lemma inv_no_header:
  assumes "kernel_inv cfg decode truncated older s" and none: "line_header cfg decode (length older) line = None"
  shows "kernel_inv cfg decode truncated (line # older) (count_malformed cfg code m (counted line s))"
proof -
  have "ks_last_timestamp s = watermark cfg decode (line # older)"
    using assms watermark_no_header [OF none] by (simp add: inv_simps)
  moreover have "(counted line s)\<lparr>ks_last_timestamp := ks_last_timestamp s\<rparr> = counted line s"
    by (cases s) (simp add: counted_def)
  moreover have "class_of cfg decode older line = Malformed" using none by (simp add: class_of_def)
  ultimately show ?thesis using inv_malformed [OF assms(1)] by metis
qed

lemma header_keeps:
  assumes inv: "kernel_inv cfg decode truncated older s" and lim: "within_limits cfg line s"
    and rec: "line_record cfg decode line = Some raw"
  shows "\<exists>s'. consume cfg decode line s = Inr s' \<and> kernel_inv cfg decode truncated (line # older) s'"
proof (cases "record_header cfg (int (length older) + 1) raw")
  case (Inl e)
  have n: "ks_input_events (counted line s) = int (length older) + 1"
    using inv by (simp add: inv_simps)
  have "line_header cfg decode (length older) line = None"
    using Inl rec by (simp add: line_header_def)
  from inv_no_header [OF inv this] show ?thesis
    using record_header_Inl [OF Inl] Inl n
    by (simp add: consume_some_record [OF lim rec] consume_record_def)
next
  case (Inr h)
  obtain kind sequence timestamp cpu tid where h: "h = (kind, sequence, timestamp, cpu, tid)" by (cases h)
  note facts = record_header_Inr [OF Inr [unfolded h]]
  have seq: "sequence = int (length older)" using facts(3) by simp
  have n: "ks_input_events (counted line s) = int (length older) + 1" and t: "ks_last_timestamp s = watermark cfg decode older"
    using inv by (simp_all add: inv_simps)
  have hdr: "line_header cfg decode (length older) line = Some (raw, kind, timestamp, cpu, tid)"
    using Inr rec by (simp add: line_header_def h)
  show ?thesis
  proof (cases "\<exists>t \<in> set (header_times cfg decode older). timestamp < t")
    case True
    then have cls: "class_of cfg decode older line = Late" using hdr by (simp add: class_of_def)
    have "ks_last_timestamp s = watermark cfg decode (line # older)"
      using True t hdr by (auto simp: watermark_header header_time_def)
    from inv_late [OF inv cls this] show ?thesis
      using True Inr n t watermark_late [of timestamp cfg decode older]
      by (simp add: consume_some_record [OF lim rec] consume_record_def h)
  next
    case False
    then have io: "in_order cfg decode older line raw kind timestamp cpu tid"
      using hdr facts by (simp add: in_order_def)
    let ?s1 = "(counted line s)\<lparr>ks_last_timestamp := Some timestamp\<rparr>"
    let ?m = "bindE (mode_check cfg kind) (\<lambda>_. kernel_converter cfg kind raw sequence timestamp cpu tid ?s1)"
    have err: "is_value_error e \<or> e = KeyError \<or> e = TypeError" if "?m = Inl e" for e
      using that converter_Inl [OF io] mode_check_Inl [of cfg kind e] by (auto simp: bindE_Inl_iff)
    have fin: "consume cfg decode line s = Inr (finished cfg ?s1 ?m)"
      using False Inr n t watermark_late [of timestamp cfg decode older] err
      by (cases ?m) (auto simp: consume_some_record [OF lim rec] consume_record_def h Let_def split: option.splits)
    have "kernel_inv cfg decode truncated (line # older) (finished cfg ?s1 ?m)"
    proof (cases "mode_check cfg kind")
      case (Inl e)
      then have "class_of cfg decode older line = Malformed" using in_order_mode [OF io] by simp
      from inv_malformed [OF inv this in_order_watermark [OF io, symmetric]] show ?thesis by (simp add: Inl)
    next
      case (Inr u)
      then show ?thesis
        using in_order_keeps_plain [OF io inv _ _ refl] in_order_keeps_wakeup [OF io inv _ _ refl] seq
        by (cases "kind \<in> set [''sched_waking'', ''sched_wakeup'', ''sched_wakeup_new'']") auto
    qed
    with fin show ?thesis by blast
  qed
qed

lemma consume_keeps:
  assumes inv: "kernel_inv cfg decode truncated older s"
  shows "ensures (line_error cfg decode line) (kernel_inv cfg decode truncated (line # older)) (consume cfg decode line s)"
proof (cases "within_limits cfg line s")
  case False
  from consume_over [OF this, of decode] show ?thesis by (auto simp: line_error_def)
next
  case lim: True
  show ?thesis
  proof (cases "\<exists>e. decoder_escapes cfg decode line e")
    case True
    then show ?thesis using consume_escape [OF lim] by (auto simp: line_error_def)
  next
    case False
    show ?thesis
    proof (cases "line_record cfg decode line")
      case None
      then have "line_header cfg decode (length older) line = None" by (simp add: line_header_def)
      from inv_no_header [OF inv this] consume_no_record [OF lim False None] show ?thesis by auto
    next
      case (Some raw)
      from header_keeps [OF inv lim this] show ?thesis by auto
    qed
  qed
qed

end
