(* ===== verification/KernelTraceResults.thy ===== *)
theory KernelTraceResults
  imports KernelTraceProofs
begin

text \<open>
  From one line to a whole transcript: the events of the stateless reading are sound, in
  order and numbered consecutively; the statistics of a parse are always conserved; the
  loop over the file is the loop over its lines; and the final validation fails in exactly
  the listed cases.
\<close>

section \<open>The events of a transcript\<close>

lemma line_header_facts:
  assumes "line_header cfg decode i line = Some (raw, kind, timestamp, cpu, tid)"
  shows "kind \<in> set kernel_kinds" and "keys_within raw (common_fields @ dict_get_or [] kind_fields kind)"
    and "0 \<le> timestamp" and "0 \<le> cpu" and "tid \<in> set (ad_target_tids cfg)"
  using assms
  by (auto simp: line_header_def dest: record_header_Inr split: option.splits sum.splits prod.splits)

lemma class_of_in_order:
  assumes "line_header cfg decode (length older) line = Some (raw, kind, timestamp, cpu, tid)"
    and "class_of cfg decode older line \<notin> {Malformed, Late}"
  shows "in_order cfg decode older line raw kind timestamp cpu tid"
  using assms line_header_facts [OF assms(1)]
  by (auto simp: in_order_def class_of_def split: if_splits)

lemma class_of_Plain:
  assumes "line_header cfg decode (length older) line = Some (raw, kind, timestamp, cpu, tid)"
    and "class_of cfg decode older line = Plain"
  shows "kind \<notin> set [''sched_waking'', ''sched_wakeup'', ''sched_wakeup_new'']"
    and "\<exists>x. kernel_converter cfg kind raw (int (length older)) timestamp cpu tid (kernel_init cfg False) = Inr x"
  using assms by (auto simp: class_of_def split: if_splits sum.splits)

lemma class_of_Woken:
  assumes "line_header cfg decode (length older) line = Some (raw, kind, timestamp, cpu, tid)"
    and "class_of cfg decode older line = Woken t"
  shows "t = tid"
  using assms by (auto simp: class_of_def split: if_splits sum.splits)

text \<open>The sequence number, time and kind from which an event's identity is hashed.\<close>

definition line_keys :: "kernel_config \<Rightarrow> json_decoder \<Rightarrow> bytes list \<Rightarrow> bytes \<Rightarrow> (int \<times> int \<times> string) list" where
  "line_keys cfg decode older line =
     (case line_header cfg decode (length older) line of
        None \<Rightarrow> []
      | Some (raw, kind, timestamp, cpu, tid) \<Rightarrow>
          (case class_of cfg decode older line of
             Plain \<Rightarrow> [(int (length older), timestamp, kind)]
           | Woken t \<Rightarrow> [(int (length older), timestamp, kind)]
           | _ \<Rightarrow> []))"

fun event_keys :: "kernel_config \<Rightarrow> json_decoder \<Rightarrow> bytes list \<Rightarrow> (int \<times> int \<times> string) list" where
  "event_keys cfg decode [] = []"
| "event_keys cfg decode (line # older) = event_keys cfg decode older @ line_keys cfg decode older line"

text \<open>A line stands for no event, or for one that carries the data of its record.\<close>

lemma line_events_cases:
  obtains (none) "line_events cfg decode older line evs = []" "line_keys cfg decode older line = []"
  | (one) raw kind timestamp cpu tid semantics e where
      "in_order cfg decode older line raw kind timestamp cpu tid" "line_events cfg decode older line evs = [e]"
      "ev_base e = kernel_base cfg ((kernel_init cfg False)\<lparr>ks_events := evs\<rparr>) kind (int (length older)) timestamp cpu semantics"
      "event_sound cfg e" "line_keys cfg decode older line = [(int (length older), timestamp, kind)]"
proof (cases "line_header cfg decode (length older) line")
  case None
  then show ?thesis by (intro none) (simp_all add: line_events_def line_keys_def)
next
  case (Some h)
  obtain raw kind timestamp cpu tid where h: "h = (raw, kind, timestamp, cpu, tid)" by (cases h)
  note hdr = Some [unfolded h] and facts = line_header_facts [OF Some [unfolded h]]
  let ?s = "(kernel_init cfg False)\<lparr>ks_events := evs\<rparr>"
  let ?f = "kernel_converter cfg kind raw (int (length older)) timestamp cpu tid"
  show ?thesis
  proof (cases "class_of cfg decode older line")
    case Plain
    from class_of_Plain [OF hdr Plain] have "converts cfg kind (int (length older)) timestamp cpu ?f" "\<not> refuses ?f"
      using facts by (auto simp: refuses_def intro!: converter_plain)
    then obtain build sem where
      e: "?f ?s = Inr (?s, Some (build (kernel_base cfg ?s kind (int (length older)) timestamp cpu sem)))"
         "\<And>b. ev_base (build b) = b" "event_sound cfg (build (kernel_base cfg ?s kind (int (length older)) timestamp cpu sem))"
      unfolding converts_def emits_def by blast
    show ?thesis
      using hdr Plain e class_of_in_order [OF hdr] by (intro one) (auto simp: line_events_def line_keys_def)
  next
    case (Woken t)
    then have t: "t = tid" using class_of_Woken [OF hdr] by simp
    let ?w = "case open_wakings tid (classes cfg decode older) of [r] \<Rightarrow> r | _ \<Rightarrow> (None, None)"
    have "private_relation cfg ?w"
      using private_open_wakings [of _ tid cfg decode older]
      by (auto simp: private_relation_def [of cfg "(None, None)"] split: list.splits)
    then have "event_sound cfg (wakeup_event cfg ?s kind (int (length older)) timestamp cpu tid ?w)"
      using facts by (intro wakeup_event_sound) auto
    then show ?thesis
      using hdr Woken t class_of_in_order [OF hdr]
      by (intro one) (auto simp: line_events_def line_keys_def wakeup_event_def)
  qed (use hdr in \<open>auto simp: line_events_def line_keys_def intro!: none\<close>)
qed

lemma emitted_sound: "e \<in> set (emitted cfg decode older) \<Longrightarrow> event_sound cfg e"
proof (induction older)
  case (Cons line older)
  show ?case
    by (cases rule: line_events_cases [of cfg decode older line "emitted cfg decode older"])
      (use Cons in auto)
qed simp

lemma emitted_sequence: "map (\<lambda>e. te_sequence (ev_base e)) (emitted cfg decode older) = map int [0..<length (emitted cfg decode older)]"
proof (induction older)
  case (Cons line older)
  show ?case
    by (cases rule: line_events_cases [of cfg decode older line "emitted cfg decode older"])
      (use Cons in auto)
qed simp

lemma emitted_times:
  "sorted (map ev_ts (emitted cfg decode older)) \<and> ev_ts ` set (emitted cfg decode older) \<subseteq> set (header_times cfg decode older)"
proof (induction older)
  case (Cons line older)
  show ?case
  proof (cases rule: line_events_cases [of cfg decode older line "emitted cfg decode older"])
    case none
    then show ?thesis using Cons by (auto split: option.splits)
  next
    case (one raw kind timestamp cpu tid semantics e)
    then have hdr: "line_header cfg decode (length older) line = Some (raw, kind, timestamp, cpu, tid)"
      and le: "\<And>t. t \<in> set (header_times cfg decode older) \<Longrightarrow> t \<le> timestamp"
      by (auto simp: in_order_def not_less)
    show ?thesis
      using Cons one(2,3) hdr le by (auto simp: sorted_append header_time_def)
  qed
qed simp

definition key_id :: "int \<times> int \<times> string \<Rightarrow> string" where
  "key_id k = (case k of (sequence, timestamp, kind) \<Rightarrow> kernel_event_id sequence timestamp kind)"

lemma emitted_ids: "map ev_id (emitted cfg decode older) = map key_id (event_keys cfg decode older)"
proof (induction older)
  case (Cons line older)
  show ?case
    by (cases rule: line_events_cases [of cfg decode older line "emitted cfg decode older"])
      (use Cons in \<open>auto simp: key_id_def\<close>)
qed simp

lemma event_keys_increasing:
  "sorted_wrt (<) (map fst (event_keys cfg decode older)) \<and> (\<forall>k \<in> set (event_keys cfg decode older). fst k < int (length older))"
proof (induction older)
  case (Cons line older)
  show ?case
    by (cases rule: line_events_cases [of cfg decode older line "emitted cfg decode older"])
      (use Cons in \<open>auto simp: sorted_wrt_append\<close>)
qed simp

lemma event_keys_distinct: "distinct (map fst (event_keys cfg decode older))"
  using event_keys_increasing [of cfg decode older] strict_sorted_iff by blast

text \<open>Two events share an identity only when the truncated digests of different texts collide.\<close>

lemma ids_distinct:
  "distinct (map ev_id (emitted cfg decode older)) \<longleftrightarrow> inj_on key_id (set (event_keys cfg decode older))"
proof -
  have "distinct (event_keys cfg decode older)"
    using event_keys_distinct [of cfg decode older] by (simp add: distinct_map)
  then show ?thesis unfolding emitted_ids by (simp add: distinct_map)
qed

section \<open>The whole transcript\<close>

lemma consume_lines:
  assumes "1 \<le> tl_max_warnings (ad_limits cfg)"
  shows "ensures (\<lambda>e. \<exists>line \<in> set lines. line_error cfg decode line e)
    (kernel_inv cfg decode truncated (rev lines)) (foldE (consume cfg decode) lines (kernel_init cfg truncated))"
proof (rule ensures_foldE_prefix [where I = "\<lambda>ys. kernel_inv cfg decode truncated (rev ys)"])
  show "kernel_inv cfg decode truncated (rev []) (kernel_init cfg truncated)"
    using assms by (simp add: kernel_inv_init)
next
  fix ys line zs s
  assume *: "lines = ys @ line # zs" "kernel_inv cfg decode truncated (rev ys) s"
  show "ensures (\<lambda>e. \<exists>line \<in> set lines. line_error cfg decode line e)
      (kernel_inv cfg decode truncated (rev (ys @ [line]))) (consume cfg decode line s)"
    using consume_keeps [OF *(2), of line] *(1) by (auto elim!: ensures_mono)
qed

section \<open>Statistics\<close>

lemma still_open_insert:
  "still_open C cs = still_open (insert t C) cs + (if t \<in> C then 0 else int (length (open_wakings t cs)))"
proof (induction cs arbitrary: C)
  case (Cons c cs)
  show ?case
  proof (cases c)
    case (Waking u r)
    have "still_open (insert t C) (c # cs) =
        (if u = t \<or> u \<in> C then 0 else 1) + still_open (insert t C) cs"
      by (simp add: Waking)
    moreover have "still_open C (c # cs) = (if u \<in> C then 0 else 1) + still_open C cs"
      by (simp add: Waking)
    ultimately show ?thesis using Cons [of C] by (auto simp: Waking)
  next
    case (Woken u)
    have "still_open C (c # cs) = still_open (insert u C) cs"
      "still_open (insert t C) (c # cs) = still_open (insert t (insert u C)) cs"
      by (simp_all add: Woken insert_commute)
    then show ?thesis using Cons [of "insert u C"] by (auto simp: Woken)
  qed (use Cons [of C] in \<open>simp_all only: still_open.simps open_wakings.simps\<close>)
qed simp

lemma still_open_woken:
  "still_open {} (Woken t # cs) = still_open {} cs - int (length (open_wakings t cs))"
  using still_open_insert [of "{}" cs t] by simp

text \<open>Every line is in exactly one column of the statistics.\<close>

lemma classes_partition:
  "int (length older) = int (length (emitted cfg decode older)) +
     int (count_list (classes cfg decode older) Malformed) + int (count_list (classes cfg decode older) Late) +
     ambiguous (classes cfg decode older) + enriched (classes cfg decode older) +
     still_open {} (classes cfg decode older)"
proof (induction older)
  case (Cons line older)
  have len: "length (line_events cfg decode older line evs) =
      (case class_of cfg decode older line of Plain \<Rightarrow> 1 | Woken t \<Rightarrow> 1 | _ \<Rightarrow> 0)" for evs
  proof (cases rule: line_events_cases [of cfg decode older line evs])
    case none
    then show ?thesis
      by (auto simp: line_keys_def class_of_def split: option.splits line_class.splits)
  next
    case (one raw kind timestamp cpu tid semantics e)
    then show ?thesis
      by (auto simp: line_keys_def in_order_def split: option.splits line_class.splits)
  qed
  have split: "(if length rs = 1 then 1 else 0) + (if 1 < length rs then int (length rs) else 0) = int (length rs)"
    for rs :: "relation list"
    by (cases rs) auto
  show ?case
    using Cons
  proof (cases "class_of cfg decode older line")
    case (Woken t)
    then show ?thesis
      using Cons split [of "open_wakings t (classes cfg decode older)"]
      by (simp add: len still_open_woken del: still_open.simps(2))
  qed (simp_all add: len)
qed simp

definition transcript_statistics ::
  "kernel_config \<Rightarrow> json_decoder \<Rightarrow> bytes list \<Rightarrow> trace_parse_statistics \<Rightarrow> bool" where
  "transcript_statistics cfg decode lines st \<longleftrightarrow>
     (let cs = classes cfg decode (rev lines) in
      ps_input_bytes st = int (length (concat lines)) \<and>
      ps_input_line_count st = int (length lines) \<and>
      ps_input_event_count st = int (length lines) \<and>
      ps_emitted_event_count st = int (length (emitted cfg decode (rev lines))) \<and>
      ps_lost_event_count st = kc_lost_event_count cfg \<and>
      ps_malformed_event_count st = int (count_list cs Malformed) \<and>
      ps_out_of_order_event_count st = int (count_list cs Late) \<and>
      ps_unsupported_event_count st = ambiguous cs + still_open {} cs \<and>
      ps_provisional_enrichment_event_count st = enriched cs \<and>
      ps_duplicate_event_count st = 0 \<and> ps_truncated_event_count st = 0 \<and>
      ps_foreign_event_dropped_count st = 0 \<and> ps_lock_phase_enrichment_event_count st = 0)"

lemma length_concat_rev: "length (concat (rev xss)) = length (concat xss)"
  by (induction xss) auto

text \<open>The statistics always pass their own check, so \<open>finish\<close> returns.\<close>

lemma finish_returns:
  assumes inv: "kernel_inv cfg decode truncated (rev lines) s"
  obtains r where "kernel_finish cfg tids s = Inr r"
    "pr_events r = emitted cfg decode (rev lines)" "pr_observed_target_tids r = tids"
    "transcript_statistics cfg decode lines (pr_statistics r)"
    "(if truncated then 1 else 0) \<le> ps_diagnostic_count (pr_statistics r)"
    "int (length (ps_diagnostics (pr_statistics r))) \<le> tl_max_warnings (ad_limits cfg)"
proof -
  have sums: "dict_sum fst (ks_pending_wakers s) = still_open {} (classes cfg decode (rev lines))"
    using inv classes_partition [of "rev lines" cfg decode] by (simp add: inv_simps)
  define t where "t = (if dict_sum fst (ks_pending_wakers s) \<noteq> 0
     then diagnose cfg ''UNPAIRED_WAKING'' ''Waking enrichment lacked a successful wakeup''
            (s\<lparr>ks_unsupported := ks_unsupported s + dict_sum fst (ks_pending_wakers s)\<rparr>)
     else s)"
  have t: "ks_events t = ks_events s" "ks_input_bytes t = ks_input_bytes s" "ks_input_lines t = ks_input_lines s"
    "ks_input_events t = ks_input_events s" "ks_malformed t = ks_malformed s" "ks_out_of_order t = ks_out_of_order s"
    "ks_unsupported t = ks_unsupported s + dict_sum fst (ks_pending_wakers s)"
    "ks_provisional_count t = ks_provisional_count s" "ks_truncated_count t = ks_truncated_count s"
    by (simp_all add: t_def)
  have diag: "int (length (ks_diagnostics t)) = min (ks_diagnostic_count t) (tl_max_warnings (ad_limits cfg))"
    "(if truncated then 1 else 0) \<le> ks_diagnostic_count t"
    using inv by (auto simp: t_def inv_simps length_diagnostics)
  have bal: "ks_input_events s = int (length (ks_events s)) + ks_malformed s + ks_out_of_order s +
      ks_unsupported s + ks_provisional_count s + dict_sum fst (ks_pending_wakers s)" "ks_truncated_count s = 0"
    using inv by (simp_all add: inv_simps)
  have "parse_statistics_post_init (kernel_statistics cfg t) = Inr ()"
    using diag(1) bal t by (simp add: parse_statistics_post_init_def kernel_statistics_def)
  then have fin: "kernel_finish cfg tids s =
      Inr \<lparr>pr_events = ks_events t, pr_observed_target_tids = tids, pr_statistics = kernel_statistics cfg t\<rparr>"
    by (simp add: kernel_finish_def Let_def t_def [symmetric])
  have st: "transcript_statistics cfg decode lines (kernel_statistics cfg t)"
    using inv sums t by (simp add: transcript_statistics_def kernel_statistics_def inv_simps length_concat_rev)
  have ev: "ks_events t = emitted cfg decode (rev lines)"
    using inv t by (simp add: inv_simps)
  have d: "ps_diagnostic_count (kernel_statistics cfg t) = ks_diagnostic_count t"
    "ps_diagnostics (kernel_statistics cfg t) = ks_diagnostics t"
    by (simp_all add: kernel_statistics_def)
  show ?thesis
    by (rule that [OF fin]) (simp_all add: st ev d diag)
qed

section \<open>The lines of the file\<close>

lemma read_loop_lines:
  "kernel_read_loop cfg decode None limit content reads (s, d) =
     bindE (foldE (consume cfg decode) (byte_lines limit content) s)
       (\<lambda>s'. Inr (s', d @ concat (byte_lines limit content)))"
proof (induction limit content arbitrary: reads s d rule: byte_lines.induct)
  case (1 limit content)
  show ?case
  proof (cases "bytes_readline limit content = []")
    case True
    then show ?thesis by (simp add: byte_lines.simps kernel_read_loop.simps)
  next
    case False
    show ?thesis
      using 1 [OF refl False] False
      by (cases "consume cfg decode (bytes_readline limit content) s")
        (simp_all add: byte_lines.simps [of limit content] kernel_read_loop.simps [of _ _ _ limit content] Let_def)
  qed
qed

lemma read_loop_fails:
  "kernel_read_loop cfg decode fails limit content reads (s, d) =
     Inl (kernel_invalid ''Kernel trace input could not be read'') \<or>
   kernel_read_loop cfg decode fails limit content reads (s, d) =
     kernel_read_loop cfg decode None limit content reads (s, d)"
proof (induction limit content arbitrary: reads s d rule: byte_lines.induct)
  case (1 limit content)
  show ?case
  proof (cases "bytes_readline limit content = []")
    case True
    then show ?thesis by (simp add: kernel_read_loop.simps)
  next
    case False
    show ?thesis
      using 1 [OF refl False] False
      by (cases "consume cfg decode (bytes_readline limit content) s")
        (simp_all add: kernel_read_loop.simps [of _ _ _ limit content] Let_def)
  qed
qed

text \<open>A transcript within the limits whose lines the decoder handles is consumed to the end.\<close>

definition transcript_fits :: "kernel_config \<Rightarrow> json_decoder \<Rightarrow> bytes list \<Rightarrow> bool" where
  "transcript_fits cfg decode lines \<longleftrightarrow>
     int (length lines) \<le> tl_max_input_lines (ad_limits cfg) \<and>
     int (length lines) \<le> tl_max_events (ad_limits cfg) \<and>
     int (length (concat lines)) \<le> tl_max_output_bytes (ad_limits cfg) \<and>
     (\<forall>line \<in> set lines. \<nexists>e. decoder_escapes cfg decode line e)"

lemma line_error_within:
  assumes "kernel_inv cfg decode truncated older s" and "within_limits cfg line s"
    and "\<nexists>e. decoder_escapes cfg decode line e"
  shows "\<exists>s'. consume cfg decode line s = Inr s'"
proof (cases "line_record cfg decode line")
  case None
  then show ?thesis using consume_no_record [OF assms(2,3)] by blast
next
  case (Some raw)
  then show ?thesis using header_keeps [OF assms(1,2)] by blast
qed

lemma consume_lines_returns:
  assumes lim: "1 \<le> tl_max_warnings (ad_limits cfg)" and fits: "transcript_fits cfg decode lines"
  obtains s where "foldE (consume cfg decode) lines (kernel_init cfg truncated) = Inr s"
    "kernel_inv cfg decode truncated (rev lines) s"
proof -
  have "ensures (\<lambda>e. False) (kernel_inv cfg decode truncated (rev lines))
      (foldE (consume cfg decode) lines (kernel_init cfg truncated))"
  proof (rule ensures_foldE_prefix [where I = "\<lambda>ys. kernel_inv cfg decode truncated (rev ys)"])
    show "kernel_inv cfg decode truncated (rev []) (kernel_init cfg truncated)"
      using lim by (simp add: kernel_inv_init)
  next
    fix ys line zs s
    assume *: "lines = ys @ line # zs" "kernel_inv cfg decode truncated (rev ys) s"
    have "within_limits cfg line s"
      using * fits by (simp add: within_limits_def inv_simps transcript_fits_def length_concat_rev)
    moreover have "\<nexists>e. decoder_escapes cfg decode line e"
      using *(1) fits by (simp add: transcript_fits_def)
    ultimately obtain s' where "consume cfg decode line s = Inr s'"
      using line_error_within [OF *(2)] by blast
    then show "ensures (\<lambda>e. False) (kernel_inv cfg decode truncated (rev (ys @ [line]))) (consume cfg decode line s)"
      using ensuresD [OF consume_keeps [OF *(2), of line]] by simp
  qed
  then show ?thesis
    using that by (cases "foldE (consume cfg decode) lines (kernel_init cfg truncated)") auto
qed

lemma consume_lines_within:
  assumes wf: "wf_trace_limits (ad_limits cfg)"
    and loop: "foldE (consume cfg decode) lines (kernel_init cfg truncated) = Inr s"
  shows "int (length lines) \<le> tl_max_input_lines (ad_limits cfg)"
    and "int (length lines) \<le> tl_max_events (ad_limits cfg)"
    and "int (length (concat lines)) \<le> tl_max_output_bytes (ad_limits cfg)"
proof -
  let ?bounds = "\<lambda>ys. int (length ys) \<le> tl_max_input_lines (ad_limits cfg) \<and>
    int (length ys) \<le> tl_max_events (ad_limits cfg) \<and>
    int (length (concat ys)) \<le> tl_max_output_bytes (ad_limits cfg)"
  have "ensures (\<lambda>_. True) (\<lambda>s. kernel_inv cfg decode truncated (rev lines) s \<and> ?bounds lines)
      (foldE (consume cfg decode) lines (kernel_init cfg truncated))"
  proof (rule ensures_foldE_prefix [where I = "\<lambda>ys s. kernel_inv cfg decode truncated (rev ys) s \<and> ?bounds ys"])
    show "kernel_inv cfg decode truncated (rev []) (kernel_init cfg truncated) \<and> ?bounds []"
      using wf by (auto simp: wf_trace_limits_def trace_limits_post_init_def intro!: kernel_inv_init)
  next
    fix ys line zs s
    assume *: "lines = ys @ line # zs" "kernel_inv cfg decode truncated (rev ys) s \<and> ?bounds ys"
    show "ensures (\<lambda>_. True) (\<lambda>s. kernel_inv cfg decode truncated (rev (ys @ [line])) s \<and> ?bounds (ys @ [line]))
        (consume cfg decode line s)"
    proof (cases "within_limits cfg line s")
      case True
      then have "?bounds (ys @ [line])"
        using * by (simp add: within_limits_def inv_simps length_concat_rev)
      then show ?thesis
        using consume_keeps [of cfg decode truncated "rev ys" s line] * by (auto elim!: ensures_mono)
    next
      case False
      then show ?thesis using consume_over [OF False, of decode] by auto
    qed
  qed
  from ensuresD [OF this loop] show "int (length lines) \<le> tl_max_input_lines (ad_limits cfg)"
    "int (length lines) \<le> tl_max_events (ad_limits cfg)"
    "int (length (concat lines)) \<le> tl_max_output_bytes (ad_limits cfg)" by auto
qed

section \<open>The final validation\<close>

text \<open>
  What the final validation can still object to: a target identity that is not one, a
  record that contradicts itself, two identities that collide, and too many threads or locks.
\<close>

definition publishable :: "kernel_config \<Rightarrow> json_decoder \<Rightarrow> bytes list \<Rightarrow> bool" where
  "publishable cfg decode lines \<longleftrightarrow>
     (let evs = emitted cfg decode (rev lines) in
      validate_target (ad_target cfg) = Inr () \<and>
      (\<forall>e \<in> set evs. event_consistent e) \<and>
      inj_on key_id (set (event_keys cfg decode (rev lines))) \<and>
      int (card (\<Union>(event_tids ` set evs))) \<le> tl_max_unique_tids (ad_limits cfg) \<and>
      int (card (\<Union>(event_lock_ids ` set evs))) \<le> tl_max_unique_locks (ad_limits cfg))"

lemma validate_parsed:
  assumes "wf_trace_limits (ad_limits cfg)" and "limits_fit cfg"
    and "int n \<le> tl_max_input_lines (ad_limits cfg)" and "int b \<le> tl_max_output_bytes (ad_limits cfg)"
    and "int (length (emitted cfg decode (rev lines))) \<le> tl_max_events (ad_limits cfg)"
  shows "(\<exists>st. validate_trace_sequence (emitted cfg decode (rev lines)) (Some (ad_target cfg)) (Some (int n)) (Some (int b))
      (Some (ad_limits cfg)) = Inr st) \<longleftrightarrow> publishable cfg decode lines"
proof -
  let ?evs = "emitted cfg decode (rev lines)"
  have "sound_run cfg ?evs"
    using emitted_sound [of _ cfg decode "rev lines"] emitted_sequence [of cfg decode "rev lines"]
      emitted_times [of cfg decode "rev lines"] by (simp add: sound_run_def)
  moreover have "publishable cfg decode lines \<longleftrightarrow> acceptable cfg ?evs"
    unfolding publishable_def acceptable_def ids_distinct Let_def ..
  ultimately show ?thesis using validate_sound [of cfg ?evs "int n" "int b"] assms by simp
qed

end
