(* ===== verification/KernelTraceParse.thy ===== *)
theory KernelTraceParse
  imports KernelTraceResults
begin

text \<open>
  The adapter's \<open>parse\<close> as a whole: the file it reads is the pinned one, a parse that returns
  stands for the stateless reading of that file, and a parse that raises does so for one
  of the listed reasons.
\<close>

section \<open>A parse that returns\<close>

definition adapter_lines :: "kernel_adapter \<Rightarrow> kernel_input \<Rightarrow> bytes list" where
  "adapter_lines a f = byte_lines (nat (tl_max_line_chars (ka_limits a) + 1)) (tf_content f)"

definition adapter_ok :: "kernel_adapter \<Rightarrow> bool" where
  "adapter_ok a \<longleftrightarrow> kernel_adapter_init (Some (ka_limits a)) a = Inr a \<and> wf_trace_limits (ka_limits a)"

lemma adapter_okD:
  assumes "adapter_ok a"
  shows "wf_trace_limits (ka_limits a)" and "\<forall>tid \<in> set (ka_observed_target_tids a). 1 \<le> tid"
    and "0 < nat (tl_max_line_chars (ka_limits a) + 1)" and "1 \<le> tl_max_warnings (ka_limits a)"
    and "0 \<le> tl_max_stack_depth (ka_limits a)"
  using assms
  by (auto simp: adapter_ok_def kernel_adapter_init_def wf_trace_limits_def trace_limits_post_init_def not_le)

lemma adapter_config_simps [simp]:
  "ad_target (adapter_config a) = ka_target a" "ad_target_tids (adapter_config a) = ka_observed_target_tids a"
  "ad_limits (adapter_config a) = ka_limits a" "ad_mode (adapter_config a) = ka_mode a"
  "kc_lost_event_count (adapter_config a) = ka_lost_event_count a"
  by (simp_all add: adapter_config_def)

lemma concat_adapter_lines:
  "adapter_ok a \<Longrightarrow> concat (adapter_lines a f) = tf_content f"
  unfolding adapter_lines_def by (rule concat_byte_lines) (rule adapter_okD)

text \<open>The file is the one the caller pinned, and it is the same file after the last read.\<close>

definition pinned_file :: "kernel_adapter \<Rightarrow> kernel_input \<Rightarrow> bool" where
  "pinned_file a f \<longleftrightarrow>
     (case (tf_open f, ki_after f, ki_current f) of
        (Some m, Some after, Some current) \<Rightarrow>
          s_isreg (fs_mode m) \<and> fs_nlink m = 1 \<and> fs_uid m = ka_owner_uid a \<and> fs_gid m = ka_owner_gid a \<and>
          s_imode (fs_mode m) = ka_input_mode a \<and> 0 < fs_size m \<and>
          fs_size m \<le> tl_max_output_bytes (ka_limits a) \<and> fs_size m = ka_input_bytes a \<and>
          input_identity after = input_identity m \<and> input_identity current = input_identity m
      | _ \<Rightarrow> False) \<and>
     int (length (tf_content f)) = ka_input_bytes a \<and>
     sha256_hexdigest (tf_content f) = ka_input_sha256 a"

text \<open>Everything after the loop over the lines.\<close>

definition parse_tail ::
  "kernel_adapter \<Rightarrow> kernel_input \<Rightarrow> int list \<Rightarrow> kernel_state \<times> bytes \<Rightarrow> trace_stream_parse_result result" where
  "parse_tail a f identity = (\<lambda>(s, digest).
      bindE (case ki_after f of None \<Rightarrow> Inl (kernel_invalid ''Kernel trace input could not be read'') | Some m \<Rightarrow> Inr m) (\<lambda>after.
      bindE (case ki_current f of None \<Rightarrow> Inl (kernel_invalid ''Kernel trace input could not be read'') | Some m \<Rightarrow> Inr m) (\<lambda>current.
      bindE (raise_if (ks_input_bytes s \<noteq> ka_input_bytes a \<or>
          sha256_hexdigest digest \<noteq> ka_input_sha256 a \<or>
          input_identity after \<noteq> identity \<or> input_identity current \<noteq> identity)
        (PerfLensError PATH_SAFETY_VIOLATION ''kernel_trace_input''
          ''Kernel trace content or file identity changed during parsing'')) (\<lambda>_.
      bindE (kernel_finish (adapter_config a) (ka_observed_target_tids a) s) (\<lambda>result.
      bindE (validate_trace_sequence (pr_events result) (Some (ka_target a))
        (Some (ps_input_line_count (pr_statistics result)))
        (Some (ps_input_bytes (pr_statistics result))) (Some (ka_limits a))) (\<lambda>_.
      Inr result))))))"

lemma kernel_parse_tail:
  "kernel_parse a decode f =
     bindE (open_safe_input f (ka_owner_uid a) (ka_owner_gid a) (ka_input_mode a)
       (tl_max_output_bytes (ka_limits a)) (ka_input_bytes a)) (\<lambda>identity.
     bindE (kernel_read_loop (adapter_config a) decode (tf_read_fails f)
       (nat (tl_max_line_chars (ka_limits a) + 1)) (tf_content f) 0
       (kernel_init (adapter_config a) (ka_truncated a), [])) (parse_tail a f identity))"
  by (simp add: kernel_parse_def parse_tail_def Let_def)

lemma parse_loop:
  assumes "adapter_ok a"
  shows "kernel_read_loop (adapter_config a) decode None (nat (tl_max_line_chars (ka_limits a) + 1)) (tf_content f) 0
       (kernel_init (adapter_config a) (ka_truncated a), []) =
     bindE (foldE (consume (adapter_config a) decode) (adapter_lines a f) (kernel_init (adapter_config a) (ka_truncated a)))
       (\<lambda>s. Inr (s, tf_content f))"
  using concat_adapter_lines [OF assms, of f] by (simp add: read_loop_lines adapter_lines_def)

lemma kernel_parse_Inr:
  assumes ok: "adapter_ok a" and parse: "kernel_parse a decode f = Inr r"
  obtains s where "foldE (consume (adapter_config a) decode) (adapter_lines a f)
      (kernel_init (adapter_config a) (ka_truncated a)) = Inr s"
    "kernel_inv (adapter_config a) decode (ka_truncated a) (rev (adapter_lines a f)) s"
    "kernel_finish (adapter_config a) (ka_observed_target_tids a) s = Inr r" "pinned_file a f"
    "\<exists>st. validate_trace_sequence (pr_events r) (Some (ka_target a)) (Some (ps_input_line_count (pr_statistics r)))
      (Some (ps_input_bytes (pr_statistics r))) (Some (ka_limits a)) = Inr st"
proof -
  let ?cfg = "adapter_config a" and ?s0 = "kernel_init (adapter_config a) (ka_truncated a)"
  let ?loop = "\<lambda>fails. kernel_read_loop ?cfg decode fails (nat (tl_max_line_chars (ka_limits a) + 1)) (tf_content f) 0 (?s0, [])"
  obtain identity p where op: "open_safe_input f (ka_owner_uid a) (ka_owner_gid a) (ka_input_mode a)
      (tl_max_output_bytes (ka_limits a)) (ka_input_bytes a) = Inr identity"
    and loop: "?loop (tf_read_fails f) = Inr p" and tail: "parse_tail a f identity p = Inr r"
    using parse unfolding kernel_parse_tail by auto
  have "?loop None = Inr p"
    using loop read_loop_fails [of ?cfg decode "tf_read_fails f" "nat (tl_max_line_chars (ka_limits a) + 1)" "tf_content f" 0 ?s0 "[]"]
    by auto
  then obtain s where s: "foldE (consume ?cfg decode) (adapter_lines a f) ?s0 = Inr s" "p = (s, tf_content f)"
    unfolding parse_loop [OF ok] by auto
  have inv: "kernel_inv ?cfg decode (ka_truncated a) (rev (adapter_lines a f)) s"
    using ensuresD [OF consume_lines s(1)] adapter_okD [OF ok] by simp
  then have bytes: "ks_input_bytes s = int (length (tf_content f))"
    using concat_adapter_lines [OF ok, of f] by (simp add: inv_simps length_concat_rev)
  show ?thesis
  proof (rule that [OF s(1) inv])
    show "kernel_finish ?cfg (ka_observed_target_tids a) s = Inr r"
      using tail by (auto simp: parse_tail_def s(2))
    show "pinned_file a f"
      using op tail bytes
      by (auto simp: parse_tail_def s(2) open_safe_input_def pinned_file_def Let_def split: option.splits)
    show "\<exists>st. validate_trace_sequence (pr_events r) (Some (ka_target a)) (Some (ps_input_line_count (pr_statistics r)))
      (Some (ps_input_bytes (pr_statistics r))) (Some (ka_limits a)) = Inr st"
      using tail by (auto simp: parse_tail_def s(2))
  qed
qed

lemma kernel_parse_result:
  assumes ok: "adapter_ok a" and parse: "kernel_parse a decode f = Inr r"
  shows "pr_events r = emitted (adapter_config a) decode (rev (adapter_lines a f))"
    and "pr_observed_target_tids r = ka_observed_target_tids a"
    and "transcript_statistics (adapter_config a) decode (adapter_lines a f) (pr_statistics r)"
    and "sequence_ok (ka_limits a) (Some (ka_target a)) (pr_events r)"
proof -
  obtain s where inv: "kernel_inv (adapter_config a) decode (ka_truncated a) (rev (adapter_lines a f)) s"
    and fin: "kernel_finish (adapter_config a) (ka_observed_target_tids a) s = Inr r"
    and val: "\<exists>st. validate_trace_sequence (pr_events r) (Some (ka_target a)) (Some (ps_input_line_count (pr_statistics r)))
      (Some (ps_input_bytes (pr_statistics r))) (Some (ka_limits a)) = Inr st"
    by (rule kernel_parse_Inr [OF ok parse])
  obtain r' where "kernel_finish (adapter_config a) (ka_observed_target_tids a) s = Inr r'"
    "pr_events r' = emitted (adapter_config a) decode (rev (adapter_lines a f))"
    "pr_observed_target_tids r' = ka_observed_target_tids a"
    "transcript_statistics (adapter_config a) decode (adapter_lines a f) (pr_statistics r')"
    by (rule finish_returns [OF inv]) auto
  with fin show "pr_events r = emitted (adapter_config a) decode (rev (adapter_lines a f))"
    "pr_observed_target_tids r = ka_observed_target_tids a"
    "transcript_statistics (adapter_config a) decode (adapter_lines a f) (pr_statistics r)"
    by simp_all
  show "sequence_ok (ka_limits a) (Some (ka_target a)) (pr_events r)"
    using val by (auto simp: validate_trace_sequence_def Let_def validate_loop_spec [OF adapter_okD(1) [OF ok]])
qed

section \<open>Helpers for the properties\<close>

lemma adapter_limits_fit:
  assumes "adapter_ok a" and "30 \<le> tl_max_line_chars (ka_limits a)" and "validate_target (ka_target a) = Inr ()"
  shows "limits_fit (adapter_config a)"
  using assms adapter_okD [OF assms(1)] by (simp add: limits_fit_def)

lemma emitted_at_most: "length (emitted cfg decode older) \<le> length older"
proof (induction older)
  case (Cons line older)
  show ?case
    by (cases rule: line_events_cases [of cfg decode older line "emitted cfg decode older"]) (use Cons in auto)
qed simp

text \<open>The validation of the parsed events returns exactly for publishable transcripts.\<close>

lemma validate_outcome:
  assumes ok: "adapter_ok a" and chars: "30 \<le> tl_max_line_chars (ka_limits a)"
    and inv: "kernel_inv (adapter_config a) decode (ka_truncated a) (rev (adapter_lines a f)) s"
    and loop: "foldE (consume (adapter_config a) decode) (adapter_lines a f)
      (kernel_init (adapter_config a) (ka_truncated a)) = Inr s"
    and r: "kernel_finish (adapter_config a) (ka_observed_target_tids a) s = Inr r"
  shows "(\<exists>st. validate_trace_sequence (pr_events r) (Some (ka_target a)) (Some (ps_input_line_count (pr_statistics r)))
      (Some (ps_input_bytes (pr_statistics r))) (Some (ka_limits a)) = Inr st) \<longleftrightarrow>
    publishable (adapter_config a) decode (adapter_lines a f)"
proof -
  let ?cfg = "adapter_config a" and ?lines = "adapter_lines a f"
  obtain r' where "kernel_finish ?cfg (ka_observed_target_tids a) s = Inr r'"
    "pr_events r' = emitted ?cfg decode (rev ?lines)" "transcript_statistics ?cfg decode ?lines (pr_statistics r')"
    by (rule finish_returns [OF inv]) auto
  with r have ev: "pr_events r = emitted ?cfg decode (rev ?lines)"
    and n: "ps_input_line_count (pr_statistics r) = int (length ?lines)"
    and b: "ps_input_bytes (pr_statistics r) = int (length (concat ?lines))"
    by (simp_all add: transcript_statistics_def Let_def)
  note fits = consume_lines_within [of ?cfg, simplified, OF adapter_okD(1) [OF ok] loop]
  show ?thesis
  proof (cases "validate_target (ka_target a)")
    case (Inl e)
    then show ?thesis by (simp add: validate_trace_sequence_def publishable_def Let_def)
  next
    case (Inr u)
    then have "limits_fit ?cfg" using adapter_limits_fit [OF ok chars] by simp
    from validate_parsed [of ?cfg, OF _ this, of "length ?lines" "length (concat ?lines)" decode ?lines]
    show ?thesis
      using fits emitted_at_most [of ?cfg decode "rev ?lines"] adapter_okD(1) [OF ok] by (simp add: ev n b)
  qed
qed

text \<open>The exceptions of the parts before the final validation.\<close>

definition adapter_error :: "kernel_adapter \<Rightarrow> json_decoder \<Rightarrow> kernel_input \<Rightarrow> py_error \<Rightarrow> bool" where
  "adapter_error a decode f e \<longleftrightarrow>
     (\<exists>c m. c \<in> {INVALID_INPUT, RESOURCE_LIMIT_EXCEEDED, PATH_SAFETY_VIOLATION} \<and>
        e = PerfLensError c ''kernel_trace_input'' m) \<or>
     (\<exists>line \<in> set (adapter_lines a f). decoder_escapes (adapter_config a) decode line e)"

lemma adapter_errorI [intro!]:
  "adapter_error a decode f (kernel_invalid m)" "adapter_error a decode f (kernel_limit m)"
  "adapter_error a decode f (PerfLensError PATH_SAFETY_VIOLATION ''kernel_trace_input'' m)"
  by (auto simp: adapter_error_def kernel_invalid_def kernel_limit_def)

lemma line_adapter_error:
  "line \<in> set (adapter_lines a f) \<Longrightarrow> line_error (adapter_config a) decode line e \<Longrightarrow> adapter_error a decode f e"
  by (auto simp: line_error_def) (auto simp: adapter_error_def)

lemma parse_tail_outcome:
  assumes ok: "adapter_ok a" and chars: "30 \<le> tl_max_line_chars (ka_limits a)"
    and loop: "foldE (consume (adapter_config a) decode) (adapter_lines a f)
      (kernel_init (adapter_config a) (ka_truncated a)) = Inr s"
    and e: "parse_tail a f identity (s, tf_content f) = Inl e"
  shows "adapter_error a decode f e \<or>
    is_value_error e \<and> \<not> publishable (adapter_config a) decode (adapter_lines a f)"
proof -
  have inv: "kernel_inv (adapter_config a) decode (ka_truncated a) (rev (adapter_lines a f)) s"
    using ensuresD [OF consume_lines loop] adapter_okD [OF ok] by simp
  obtain r where r: "kernel_finish (adapter_config a) (ka_observed_target_tids a) s = Inr r"
    by (rule finish_returns [OF inv])
  note out = validate_outcome [OF ok chars inv loop r]
  have "is_value_error e'" if "validate_trace_sequence (pr_events r) (Some (ka_target a))
      (Some (ps_input_line_count (pr_statistics r))) (Some (ps_input_bytes (pr_statistics r)))
      (Some (ka_limits a)) = Inl e'" for e'
    using sequence_value_errors that by (metis only_value_errors_simps(2))
  then show ?thesis
    using e out by (auto simp: parse_tail_def r bindE_Inl_iff split: option.splits)
qed

lemma kernel_parse_Inl:
  assumes ok: "adapter_ok a" and chars: "30 \<le> tl_max_line_chars (ka_limits a)"
    and e: "kernel_parse a decode f = Inl e"
  shows "adapter_error a decode f e \<or>
    is_value_error e \<and> \<not> publishable (adapter_config a) decode (adapter_lines a f)"
proof -
  let ?cfg = "adapter_config a" and ?s0 = "kernel_init (adapter_config a) (ka_truncated a)"
  let ?n = "nat (tl_max_line_chars (ka_limits a) + 1)"
  let ?loop = "\<lambda>fails. kernel_read_loop ?cfg decode fails ?n (tf_content f) 0 (?s0, [])"
  have openE: "adapter_error a decode f e'" if "open_safe_input f (ka_owner_uid a) (ka_owner_gid a) (ka_input_mode a)
      (tl_max_output_bytes (ka_limits a)) (ka_input_bytes a) = Inl e'" for e'
    using that by (auto simp: open_safe_input_def Let_def bindE_Inl_iff split: option.splits)
  have foldE: "adapter_error a decode f e'" if "foldE (consume ?cfg decode) (adapter_lines a f) ?s0 = Inl e'" for e'
    using ensures_errorD [OF consume_lines that] adapter_okD [OF ok] line_adapter_error by auto
  consider "?loop (tf_read_fails f) = Inl (kernel_invalid ''Kernel trace input could not be read'')"
    | "?loop (tf_read_fails f) = ?loop None"
    using read_loop_fails by blast
  then show ?thesis
  proof cases
    case 1
    then show ?thesis using e openE by (auto simp: kernel_parse_tail bindE_Inl_iff)
  next
    case 2
    show ?thesis
    proof (cases "foldE (consume ?cfg decode) (adapter_lines a f) ?s0")
      case (Inl e')
      then show ?thesis
        using e openE foldE by (auto simp: kernel_parse_tail 2 parse_loop [OF ok] bindE_Inl_iff)
    next
      case (Inr s)
      then show ?thesis
        using e openE parse_tail_outcome [OF ok chars Inr]
        by (auto simp: kernel_parse_tail 2 parse_loop [OF ok] bindE_Inl_iff)
    qed
  qed
qed

lemma kernel_parse_complete:
  assumes ok: "adapter_ok a" and chars: "30 \<le> tl_max_line_chars (ka_limits a)"
    and fl: "pinned_file a f" "tf_read_fails f = None"
    and fits: "transcript_fits (adapter_config a) decode (adapter_lines a f)"
    and pub: "publishable (adapter_config a) decode (adapter_lines a f)"
  shows "\<exists>r. kernel_parse a decode f = Inr r"
proof -
  let ?cfg = "adapter_config a"
  obtain s where loop: "foldE (consume ?cfg decode) (adapter_lines a f) (kernel_init ?cfg (ka_truncated a)) = Inr s"
    and inv: "kernel_inv ?cfg decode (ka_truncated a) (rev (adapter_lines a f)) s"
    by (rule consume_lines_returns [OF _ fits]) (use adapter_okD [OF ok] in auto)
  obtain r where r: "kernel_finish ?cfg (ka_observed_target_tids a) s = Inr r"
    by (rule finish_returns [OF inv])
  have bytes: "ks_input_bytes s = int (length (tf_content f))"
    using inv concat_adapter_lines [OF ok, of f] by (simp add: inv_simps length_concat_rev)
  obtain m after current where stats: "tf_open f = Some m" "ki_after f = Some after" "ki_current f = Some current"
    using fl(1) by (auto simp: pinned_file_def split: option.splits)
  have op: "open_safe_input f (ka_owner_uid a) (ka_owner_gid a) (ka_input_mode a)
      (tl_max_output_bytes (ka_limits a)) (ka_input_bytes a) = Inr (input_identity m)"
    using fl(1) stats by (simp add: pinned_file_def open_safe_input_def bindE_raise_if)
  have "\<exists>r. parse_tail a f (input_identity m) (s, tf_content f) = Inr r"
    using fl(1) stats bytes r validate_outcome [OF ok chars inv loop r] pub
    by (auto simp: pinned_file_def parse_tail_def)
  then show ?thesis
    using op loop by (auto simp: kernel_parse_tail fl(2) parse_loop [OF ok])
qed

end
