(* ===== verification/KernelTraceProperties.thy ===== *)
theory KernelTraceProperties
  imports KernelTraceParse TemporalResults LockProperties TraceSamples
begin

text \<open>
  The properties of the kernel trace adapter, for every JSON decoder and every answer of the
  operating system: what a parse that returns stands for, which exceptions are possible, that
  the statistics lose nothing, that only observed threads reach the result, and that the
  analyzers accept it.
\<close>

section \<open>An example transcript\<close>

text \<open>
  Two records, a waking of thread 101 by thread 102 and its wakeup, and one migration from
  CPU 1 to CPU 1. The decoder is a table.
\<close>

definition sample_record :: "int \<Rightarrow> string \<Rightarrow> (string \<times> py_value) list \<Rightarrow> py_value" where
  "sample_record sequence kind extra =
     VDict (map (\<lambda>(k, v). (ascii k, v))
       ([(''schema_version'', VStr (ascii ''1.0'')), (''sequence'', VInt sequence),
         (''timestamp_ns'', VInt (1000 + 10 * sequence)), (''cpu'', VInt 2), (''kind'', VStr (ascii kind)),
         (''target_tid'', VInt 101)] @ extra))"

definition sample_decoder :: json_decoder where
  "sample_decoder line =
     (case map_of
        [([1, 10], sample_record 0 ''sched_waking''
            [(''related_target_tid'', VInt 102), (''related_scope'', VStr (ascii ''target'')), (''target_cpu'', VInt 2)]),
         ([2, 10], sample_record 1 ''sched_wakeup'' [(''target_cpu'', VInt 2)]),
         ([3, 10], sample_record 0 ''sched_migrate'' [(''origin_cpu'', VInt 1), (''destination_cpu'', VInt 1)])] line of
        None \<Rightarrow> Inl (ValueError ''Expecting value'')
      | Some v \<Rightarrow> Inr v)"

definition sample_adapter :: "bytes \<Rightarrow> kernel_adapter" where
  "sample_adapter content =
     \<lparr>ka_target = sample_target, ka_observed_target_tids = [101, 102], ka_owner_uid = 0, ka_owner_gid = 7,
      ka_input_mode = 416, ka_input_sha256 = sha256_hexdigest content, ka_input_bytes = int (length content),
      ka_mode = ''sched'', ka_lost_event_count = 0, ka_truncated = False, ka_limits = trace_limits_default\<rparr>"

definition sample_stat :: "int \<Rightarrow> file_stat" where
  "sample_stat n =
     \<lparr>fs_dev = 8, fs_ino = 77, fs_mode = 33184, fs_nlink = 1, fs_uid = 0, fs_gid = 7, fs_size = n,
      fs_mtime_ns = 5, fs_ctime_ns = 5\<rparr>"

definition sample_file :: "bytes \<Rightarrow> kernel_input" where
  "sample_file content =
     \<lparr>tf_open = Some (sample_stat (int (length content))), tf_content = content, tf_read_fails = None,
      ki_after = Some (sample_stat (int (length content))), ki_current = Some (sample_stat (int (length content)))\<rparr>"

definition sample_cfg :: kernel_config where
  "sample_cfg =
     \<lparr>ad_target = sample_target, ad_target_tids = [101, 102], ad_mode = ''sched'',
      ad_limits = trace_limits_default, kc_lost_event_count = 0\<rparr>"

lemma sample_adapter_ok: "content \<noteq> [] \<Longrightarrow> adapter_ok (sample_adapter content)"
  using trace_limits_default_wf
  by (cases content) (auto simp: adapter_ok_def kernel_adapter_init_def sample_adapter_def)

lemma sample_config_eq: "adapter_config (sample_adapter content) = sample_cfg"
  by (simp add: adapter_config_def sample_adapter_def sample_cfg_def)

lemma sample_pinned: "content \<noteq> [] \<Longrightarrow> length content < 100 \<Longrightarrow> pinned_file (sample_adapter content) (sample_file content)"
  by (simp add: pinned_file_def sample_adapter_def sample_file_def sample_stat_def s_isreg_def s_imode_def
      trace_limits_default_def)

lemma sample_lines: "adapter_lines (sample_adapter [1, 10, 2, 10]) (sample_file [1, 10, 2, 10]) = [[1, 10], [2, 10]]"
  "adapter_lines (sample_adapter [3, 10]) (sample_file [3, 10]) = [[3, 10]]"
  by (simp_all add: adapter_lines_def sample_file_def sample_adapter_def trace_limits_default_def
      byte_lines.simps bytes_readline_def)

lemma sample_classes:
  "classes sample_cfg sample_decoder [[2, 10], [1, 10]] =
     [Woken 101, Waking 101 (Some (target_task sample_cfg 102), Some Scope_TARGET)]"
  by code_simp

lemma sample_headers:
  "map_option snd (line_header sample_cfg sample_decoder 1 [2, 10]) = Some (''sched_wakeup'', 1010, 2, 101)"
  "map_option snd (line_header sample_cfg sample_decoder 0 [3, 10]) = Some (''sched_migrate'', 1000, 2, 101)"
  "line_record sample_cfg sample_decoder [3, 10] =
     Some (map (\<lambda>(k, v). (ascii k, v))
       [(''schema_version'', VStr (ascii ''1.0'')), (''sequence'', VInt 0), (''timestamp_ns'', VInt 1000),
        (''cpu'', VInt 2), (''kind'', VStr (ascii ''sched_migrate'')), (''target_tid'', VInt 101),
        (''origin_cpu'', VInt 1), (''destination_cpu'', VInt 1)])"
  by code_simp+

lemma sample_emitted:
  "emitted sample_cfg sample_decoder [[2, 10], [1, 10]] =
     [wakeup_event sample_cfg (kernel_init sample_cfg False) ''sched_wakeup'' 1 1010 2 101
        (Some (target_task sample_cfg 102), Some Scope_TARGET)]"
proof -
  obtain raw where "line_header sample_cfg sample_decoder (Suc 0) [2, 10] = Some (raw, ''sched_wakeup'', 1010, 2, 101)"
    using sample_headers(1) by auto
  moreover have "class_of sample_cfg sample_decoder [[1, 10]] [2, 10] = Woken 101"
    "class_of sample_cfg sample_decoder [] [1, 10] = Waking 101 (Some (target_task sample_cfg 102), Some Scope_TARGET)"
    using sample_classes by simp_all
  ultimately show ?thesis
    by (simp add: line_events_def wakeup_event_def kernel_base_def kernel_init_def Let_def split: option.splits)
qed

lemma sample_publishable: "publishable sample_cfg sample_decoder [[1, 10], [2, 10]]"
proof -
  have "event_keys sample_cfg sample_decoder [[2, 10], [1, 10]] = [(1, 1010, ''sched_wakeup'')]"
    by code_simp
  then have "inj_on key_id (set (event_keys sample_cfg sample_decoder [[2, 10], [1, 10]]))" by simp
  moreover have "validate_target (ad_target sample_cfg) = Inr ()" by code_simp
  moreover have "event_tids (wakeup_event sample_cfg s k q t c 101 (Some (target_task sample_cfg 102), Some Scope_TARGET)) = {101, 102}"
    for s k q t c
    by (simp add: event_tids_def wakeup_event_def target_task_def List.map_filter_simps)
  moreover have "event_lock_ids (wakeup_event sample_cfg s k q t c 101 r) = {}" "event_consistent (wakeup_event sample_cfg s k q t c 101 r)"
    for s k q t c r
    by (simp_all add: wakeup_event_def)
  moreover have "ad_limits sample_cfg = trace_limits_default" by (simp add: sample_cfg_def)
  ultimately show ?thesis
    by (simp add: publishable_def Let_def sample_emitted trace_limits_default_def
        del: emitted.simps event_keys.simps)
qed

lemma sample_contradiction: "\<not> publishable sample_cfg sample_decoder [[3, 10]]"
proof -
  define raw where "raw = map (\<lambda>(k, v). (ascii k, v))
       [(''schema_version'', VStr (ascii ''1.0'')), (''sequence'', VInt 0), (''timestamp_ns'', VInt 1000),
        (''cpu'', VInt 2), (''kind'', VStr (ascii ''sched_migrate'')), (''target_tid'', VInt 101),
        (''origin_cpu'', VInt 1), (''destination_cpu'', VInt 1)]"
  have hdr: "line_header sample_cfg sample_decoder 0 [3, 10] = Some (raw, ''sched_migrate'', 1000, 2, 101)"
    using sample_headers(2,3) by (auto simp: line_header_def raw_def split: sum.splits)
  have get: "raw_get raw ''origin_cpu'' = VInt 1" "raw_get raw ''destination_cpu'' = VInt 1"
    unfolding raw_def by code_simp+
  have mode: "mode_check sample_cfg ''sched_migrate'' = Inr ()" by code_simp
  have conv: "kernel_converter sample_cfg ''sched_migrate'' raw q t c tid s =
      Inr (s, Some (SchedMigrate (trace_event_base.extend (kernel_base sample_cfg s ''sched_migrate'' q t c Sem_EXACT)
        (sched_migrate_event.fields (target_task sample_cfg tid) Scope_TARGET 1 1))))" for q t c tid s
    by (simp add: kernel_converter_def kernel_migrate_def begins_def get)
  have cls: "class_of sample_cfg sample_decoder [] [3, 10] = Plain"
    unfolding class_of_def list.size hdr option.case prod.case conv mode by simp
  have "\<exists>e \<in> set (line_events sample_cfg sample_decoder [] [3, 10] []). \<not> event_consistent e"
    unfolding line_events_def list.size hdr option.case prod.case cls line_class.case conv Let_def by simp
  then show ?thesis by (auto simp: publishable_def Let_def)
qed

lemma sample_fits: "transcript_fits sample_cfg sample_decoder [[1, 10], [2, 10]]"
proof -
  have "decode \<noteq> sample_decoder \<or> \<not> decoder_escapes cfg decode line e" for cfg decode line e
    by (auto simp: decoder_escapes_def sample_decoder_def split: option.splits)
  then show ?thesis
    by (auto simp: transcript_fits_def sample_cfg_def trace_limits_default_def)
qed

lemma sample_parse: "\<exists>r. kernel_parse (sample_adapter [1, 10, 2, 10]) sample_decoder (sample_file [1, 10, 2, 10]) = Inr r"
  by (rule kernel_parse_complete)
    (simp_all add: sample_adapter_ok sample_pinned sample_lines sample_config_eq sample_fits sample_publishable,
      simp_all add: sample_adapter_def sample_file_def trace_limits_default_def)

section \<open>Properties\<close>

text \<open>
  C16. The parser is equivalent to the reading without state: whatever the decoder and the file,
  a parse that returns has exactly the events the lines stand for, with every wakeup
  attributed to the one waking record that is open for its thread and to nobody when there
  are several, and its statistics count exactly the malformed, late, ambiguous, unpaired and
  enriching records.
\<close>

theorem kernel_parse_reference:
  assumes "adapter_ok a" and "kernel_parse a decode f = Inr r"
  shows "pr_events r = emitted (adapter_config a) decode (rev (adapter_lines a f)) \<and>
    pr_observed_target_tids r = ka_observed_target_tids a \<and>
    transcript_statistics (adapter_config a) decode (adapter_lines a f) (pr_statistics r) \<and>
    concat (adapter_lines a f) = tf_content f"
  using kernel_parse_result [OF assms] concat_adapter_lines [OF assms(1)] by blast

theorem kernel_parse_reference_witness:
  "\<exists>r. kernel_parse (sample_adapter [1, 10, 2, 10]) sample_decoder (sample_file [1, 10, 2, 10]) = Inr r \<and>
     pr_events r = [wakeup_event sample_cfg (kernel_init sample_cfg False) ''sched_wakeup'' 1 1010 2 101
        (Some (target_task sample_cfg 102), Some Scope_TARGET)] \<and>
     ps_provisional_enrichment_event_count (pr_statistics r) = 1"
proof -
  obtain r where r: "kernel_parse (sample_adapter [1, 10, 2, 10]) sample_decoder (sample_file [1, 10, 2, 10]) = Inr r"
    using sample_parse by blast
  have lines: "rev [[1, 10], [2, 10]] = [[2, 10 :: int], [1, 10]]" by simp
  from kernel_parse_reference [OF sample_adapter_ok r]
  have "pr_events r = emitted sample_cfg sample_decoder [[2, 10], [1, 10]]"
    "ps_provisional_enrichment_event_count (pr_statistics r) = enriched (classes sample_cfg sample_decoder [[2, 10], [1, 10]])"
    unfolding sample_lines sample_config_eq lines transcript_statistics_def Let_def by simp_all
  with r sample_emitted sample_classes show ?thesis by simp
qed

text \<open>
  C17. The statistics of a transcript are always conserved: when the lines have been consumed,
  \<open>finish\<close> returns, its counters add up to the number of lines, and a result that is not
  marked partial lost nothing: the helper did not truncate or lose events, no record was malformed or
  late, and every record became an event or named the waker of one.
\<close>

theorem kernel_statistics_conserved:
  assumes "1 \<le> tl_max_warnings (ad_limits cfg)"
    and "foldE (consume cfg decode) lines (kernel_init cfg truncated) = Inr s"
  shows "\<exists>r. kernel_finish cfg tids s = Inr r \<and>
    (let st = pr_statistics r in
     ps_input_event_count st = int (length lines) \<and>
     ps_emitted_event_count st = int (length (pr_events r)) \<and>
     int (length (pr_events r)) + ps_malformed_event_count st + ps_out_of_order_event_count st +
       ps_unsupported_event_count st + ps_provisional_enrichment_event_count st = int (length lines) \<and>
     (\<not> parse_statistics_partial st \<longrightarrow>
        \<not> truncated \<and> kc_lost_event_count cfg = 0 \<and>
        Malformed \<notin> set (classes cfg decode (rev lines)) \<and> Late \<notin> set (classes cfg decode (rev lines)) \<and>
        int (length (pr_events r)) + ps_provisional_enrichment_event_count st = int (length lines)))"
proof -
  have inv: "kernel_inv cfg decode truncated (rev lines) s"
    by (rule ensuresD [OF consume_lines [OF assms(1)] assms(2)])
  obtain r where r: "kernel_finish cfg tids s = Inr r" "pr_events r = emitted cfg decode (rev lines)"
    "transcript_statistics cfg decode lines (pr_statistics r)"
    "(if truncated then 1 else 0) \<le> ps_diagnostic_count (pr_statistics r)"
    by (rule finish_returns [OF inv])
  then show ?thesis
    using classes_partition [of "rev lines" cfg decode]
    by (intro exI [of _ r])
      (auto simp: transcript_statistics_def Let_def parse_statistics_partial_def count_list_0_iff split: if_splits)
qed

theorem kernel_statistics_conserved_witness:
  "\<exists>s r. foldE (consume sample_cfg sample_decoder) [[1, 10], [2, 10]] (kernel_init sample_cfg False) = Inr s \<and>
     kernel_finish sample_cfg [101, 102] s = Inr r \<and> ps_input_event_count (pr_statistics r) = 2"
proof -
  have warn: "1 \<le> tl_max_warnings (ad_limits sample_cfg)" by (simp add: sample_cfg_def trace_limits_default_def)
  obtain s where s: "foldE (consume sample_cfg sample_decoder) [[1, 10], [2, 10]] (kernel_init sample_cfg False) = Inr s"
    by (rule consume_lines_returns [OF warn sample_fits])
  from kernel_statistics_conserved [OF warn s, of "[101, 102]"] s show ?thesis
    by (auto simp: Let_def)
qed

text \<open>
  C18. The outcome of a parse. It returns only for the pinned file and a publishable transcript.
  It raises a \<open>PerfLensError\<close> of the stage \<open>kernel_trace_input\<close>, or what the decoder raised on a line beyond
  \<open>ValueError\<close>, or a \<open>ValueError\<close> of the final validation, and the last only for a transcript
  that is not publishable: an invalid target, a migration to the same CPU, a futex operation that contradicts
  its record, colliding identities, or too many threads or locks. And it does return for
  every pinned, readable, publishable transcript within the limits.
\<close>

theorem kernel_parse_outcome:
  assumes "adapter_ok a" and "30 \<le> tl_max_line_chars (ka_limits a)"
  shows "(case kernel_parse a decode f of
      Inl e \<Rightarrow>
        (\<exists>c m. c \<in> {INVALID_INPUT, RESOURCE_LIMIT_EXCEEDED, PATH_SAFETY_VIOLATION} \<and>
           e = PerfLensError c ''kernel_trace_input'' m) \<or>
        (\<exists>line \<in> set (adapter_lines a f). decoder_escapes (adapter_config a) decode line e) \<or>
        is_value_error e \<and> \<not> publishable (adapter_config a) decode (adapter_lines a f)
    | Inr r \<Rightarrow> pinned_file a f \<and> publishable (adapter_config a) decode (adapter_lines a f)) \<and>
    (pinned_file a f \<and> tf_read_fails f = None \<and>
       transcript_fits (adapter_config a) decode (adapter_lines a f) \<and>
       publishable (adapter_config a) decode (adapter_lines a f) \<longrightarrow>
     (\<exists>r. kernel_parse a decode f = Inr r))"
proof
  show "case kernel_parse a decode f of
      Inl e \<Rightarrow>
        (\<exists>c m. c \<in> {INVALID_INPUT, RESOURCE_LIMIT_EXCEEDED, PATH_SAFETY_VIOLATION} \<and>
           e = PerfLensError c ''kernel_trace_input'' m) \<or>
        (\<exists>line \<in> set (adapter_lines a f). decoder_escapes (adapter_config a) decode line e) \<or>
        is_value_error e \<and> \<not> publishable (adapter_config a) decode (adapter_lines a f)
    | Inr r \<Rightarrow> pinned_file a f \<and> publishable (adapter_config a) decode (adapter_lines a f)"
  proof (cases "kernel_parse a decode f")
    case (Inl e)
    then show ?thesis using kernel_parse_Inl [OF assms Inl] by (simp add: adapter_error_def)
  next
    case (Inr r)
    from kernel_parse_Inr [OF assms(1) Inr] validate_outcome [OF assms]
    show ?thesis unfolding Inr sum.case by (metis (no_types))
  qed
  show "pinned_file a f \<and> tf_read_fails f = None \<and>
       transcript_fits (adapter_config a) decode (adapter_lines a f) \<and>
       publishable (adapter_config a) decode (adapter_lines a f) \<longrightarrow>
     (\<exists>r. kernel_parse a decode f = Inr r)"
    using kernel_parse_complete [OF assms] by blast
qed

theorem kernel_parse_outcome_witness:
  "(\<exists>r. kernel_parse (sample_adapter [1, 10, 2, 10]) sample_decoder (sample_file [1, 10, 2, 10]) = Inr r) \<and>
   (\<nexists>r. kernel_parse (sample_adapter [3, 10]) sample_decoder (sample_file [3, 10]) = Inr r)"
proof -
  have chars: "30 \<le> tl_max_line_chars (ka_limits (sample_adapter content))" for content
    by (simp add: sample_adapter_def trace_limits_default_def)
  have reads: "tf_read_fails (sample_file content) = None" for content by (simp add: sample_file_def)
  have ok: "adapter_ok (sample_adapter [1, 10, 2, 10])" "adapter_ok (sample_adapter [3, 10])"
    by (simp_all add: sample_adapter_ok)
  show ?thesis
    using kernel_parse_outcome [OF ok(1) chars, where decode = sample_decoder and f = "sample_file [1, 10, 2, 10]"]
      kernel_parse_outcome [OF ok(2) chars, where decode = sample_decoder and f = "sample_file [3, 10]"]
      sample_pinned [of "[1, 10, 2, 10]"] sample_fits sample_publishable sample_contradiction reads
    unfolding sample_lines sample_config_eq by auto
qed

text \<open>
  C19. Privacy and order of what leaves the adapter: every event belongs to the target,
  every task it names is a thread the caller listed as observed or has no identity
  at all, the sequence numbers count from 0 without gaps, and timestamps never decrease.
\<close>

theorem kernel_events_private:
  assumes "adapter_ok a" and "kernel_parse a decode f = Inr r"
  shows "(\<forall>e \<in> set (pr_events r). te_target (ev_base e) = ka_target a \<and>
      (\<forall>p \<in> set (tasks_for_event e). p = (external_redacted, Scope_FOREIGN) \<or>
         (\<exists>tid \<in> set (ka_observed_target_tids a).
            p = (\<lparr>task_pid = Some (tgt_pid (ka_target a)), task_tid = Some tid\<rparr>, Scope_TARGET)))) \<and>
    map (\<lambda>e. te_sequence (ev_base e)) (pr_events r) = map int [0..<length (pr_events r)] \<and>
    sorted (map ev_ts (pr_events r))"
proof -
  note ev = kernel_parse_result(1) [OF assms]
  have "event_sound (adapter_config a) e" if "e \<in> set (pr_events r)" for e
    using that emitted_sound unfolding ev by blast
  then show ?thesis
    using emitted_sequence [of "adapter_config a" decode "rev (adapter_lines a f)"]
      emitted_times [of "adapter_config a" decode "rev (adapter_lines a f)"]
    unfolding event_sound_def private_task_def target_task_def adapter_config_simps ev by blast
qed

theorem kernel_events_private_witness:
  "\<exists>r. kernel_parse (sample_adapter [1, 10, 2, 10]) sample_decoder (sample_file [1, 10, 2, 10]) = Inr r \<and>
     (\<forall>e \<in> set (pr_events r). te_target (ev_base e) = sample_target)"
proof -
  obtain r where r: "kernel_parse (sample_adapter [1, 10, 2, 10]) sample_decoder (sample_file [1, 10, 2, 10]) = Inr r"
    using sample_parse by blast
  have ok: "adapter_ok (sample_adapter [1, 10, 2, 10])" by (simp add: sample_adapter_ok)
  from kernel_events_private [OF ok r] r show ?thesis
    by (auto simp: sample_adapter_def)
qed

text \<open>The threads of a parsed trace are among the observed ones.\<close>

lemma parsed_tids:
  assumes "adapter_ok a" and "kernel_parse a decode f = Inr r"
  shows "trace_tids (pr_events r) \<subseteq> set (ka_observed_target_tids a)"
proof -
  have "event_tids e \<subseteq> set (ka_observed_target_tids a)" if "e \<in> set (pr_events r)" for e
  proof -
    have "event_sound (adapter_config a) e"
      using that emitted_sound unfolding kernel_parse_result(1) [OF assms] by blast
    then show ?thesis
      unfolding event_tids_def event_sound_def private_task_def
      by (fastforce simp: List.map_filter_def target_task_def split: if_splits)
  qed
  then show ?thesis by (auto simp: trace_tids_def)
qed

lemma parsed_sequence_ok:
  assumes "adapter_ok a" and "kernel_parse a decode f = Inr r"
  shows "sequence_ok (ka_limits a) None (pr_events r)"
proof -
  have "sequence_ok (ka_limits a) (Some (ka_target a)) (pr_events r)"
    by (rule kernel_parse_result(4) [OF assms])
  then show ?thesis
    by (cases "pr_events r") (auto simp: sequence_ok_def sequence_target_def)
qed

text \<open>
  C25. From the raw transcript to the analyses: the events of a parse that returns are accepted by
  the scheduler, off-CPU and lock analyzers under the same resource limits. Whatever the
  decoder delivered, the analyses return when their own limits cover the adapter's event and thread
  counts, and the intervals they export name only threads the caller listed as observed.
\<close>

theorem kernel_trace_analyzed:
  assumes "adapter_ok a" and "kernel_parse a decode f = Inr r"
    and "4 * int (length (pr_events r)) + int (length (ka_observed_target_tids a)) \<le> al_max_intervals alim"
    and "3 * int (length (pr_events r)) \<le> min (ll_max_intervals llim) (ll_max_projection_rows llim)"
  shows "\<exists>t l. analyze_temporal (pr_events r) alim (ka_limits a) = Inr t \<and>
    analyze_locks (pr_events r) (Some llim) (Some (ka_limits a)) = Inr l \<and>
    trace_tids (pr_events r) \<subseteq> set (ka_observed_target_tids a) \<and>
    (\<forall>i \<in> set (oa_worst_intervals (tr_off_cpu t)). off_cpu_ok (trace_tids (pr_events r)) i) \<and>
    (\<forall>i \<in> set (sa_worst_runtime_intervals (tr_scheduler t)). runtime_ok (trace_tids (pr_events r)) i) \<and>
    (\<forall>i \<in> set (an_worst_wait_intervals l). lock_wait_ok (trace_tids (pr_events r)) i)"
proof -
  note wf = adapter_okD(1) [OF assms(1)] and seq = parsed_sequence_ok [OF assms(1,2)]
  have "card (trace_tids (pr_events r)) \<le> card (set (ka_observed_target_tids a))"
    by (rule card_mono [OF _ parsed_tids [OF assms(1,2)]]) simp
  also have "\<dots> \<le> length (ka_observed_target_tids a)" by (rule card_length)
  finally have "4 * int (length (pr_events r)) + int (card (trace_tids (pr_events r))) \<le> al_max_intervals alim"
    using assms(3) by simp
  from analyze_temporal_total [OF wf seq this] obtain t where
    t: "analyze_temporal (pr_events r) alim (ka_limits a) = Inr t" by blast
  have "int (length (pr_events r)) \<le> ll_max_intervals llim" "3 * int (length (pr_events r)) \<le> ll_max_projection_rows llim"
    using assms(4) by simp_all
  from analyze_locks_total [OF wf seq this] obtain l where
    l: "analyze_locks (pr_events r) (Some llim) (Some (ka_limits a)) = Inr l" by blast
  from t l exported_intervals_ok [OF wf t] exported_lock_intervals_ok [OF wf l] parsed_tids [OF assms(1,2)]
  show ?thesis by blast
qed

theorem kernel_trace_analyzed_witness:
  "\<exists>r t. kernel_parse (sample_adapter [1, 10, 2, 10]) sample_decoder (sample_file [1, 10, 2, 10]) = Inr r \<and>
     analyze_temporal (pr_events r) analysis_limits_default trace_limits_default = Inr t"
proof -
  obtain r where r: "kernel_parse (sample_adapter [1, 10, 2, 10]) sample_decoder (sample_file [1, 10, 2, 10]) = Inr r"
    using sample_parse by blast
  have ok: "adapter_ok (sample_adapter [1, 10, 2, 10])" by (simp add: sample_adapter_ok)
  have "length (pr_events r) \<le> 2"
    using emitted_at_most [of sample_cfg sample_decoder "rev [[1, 10], [2, 10]]"]
    by (simp add: kernel_parse_result(1) [OF ok r] sample_lines sample_config_eq del: emitted.simps)
  then have "\<exists>t l. analyze_temporal (pr_events r) analysis_limits_default (ka_limits (sample_adapter [1, 10, 2, 10])) = Inr t"
    using kernel_trace_analyzed [OF ok r, of analysis_limits_default lock_limits_default]
    by (auto simp: sample_adapter_def analysis_limits_default_def lock_limits_default_def)
  with r show ?thesis by (auto simp: sample_adapter_def)
qed

end
