(* ===== verification/TraceScriptText.thy ===== *)
theory TraceScriptText
  imports TraceAdapter
begin

text \<open>
  The text side of \<open>src/src/perflens/profiles/trace_stream.py\<close>: byte strings, integer conversion,
  HMAC-SHA-256, the module's regular expressions, the scan for fields of a futex payload, and
  the header of a trace line.
\<close>

section \<open>Bytes\<close>

definition bstr :: "string \<Rightarrow> bytes" where
  "bstr s = map of_char s"

definition space_byte :: "int \<Rightarrow> bool" where
  "space_byte b \<longleftrightarrow> b = 32 \<or> 9 \<le> b \<and> b \<le> 13"

definition digit_byte :: "int \<Rightarrow> bool" where
  "digit_byte b \<longleftrightarrow> 48 \<le> b \<and> b \<le> 57"

definition lower_byte :: "int \<Rightarrow> bool" where
  "lower_byte b \<longleftrightarrow> 97 \<le> b \<and> b \<le> 122"

definition upper_byte :: "int \<Rightarrow> bool" where
  "upper_byte b \<longleftrightarrow> 65 \<le> b \<and> b \<le> 90"

definition hex_digit_byte :: "int \<Rightarrow> bool" where
  "hex_digit_byte b \<longleftrightarrow> digit_byte b \<or> 97 \<le> b \<and> b \<le> 102 \<or> 65 \<le> b \<and> b \<le> 70"

text \<open>\<open>.\<close> without flags.\<close>

definition any_byte :: "int \<Rightarrow> bool" where
  "any_byte b \<longleftrightarrow> b \<noteq> 10"

definition rstrip_bytes :: "(int \<Rightarrow> bool) \<Rightarrow> bytes \<Rightarrow> bytes" where
  "rstrip_bytes p s = rev (dropWhile p (rev s))"

definition lower_bytes :: "bytes \<Rightarrow> bytes" where
  "lower_bytes s = map (\<lambda>b. if upper_byte b then b + 32 else b) s"

text \<open>\<open>bytes.count\<close>: occurrences that do not overlap, from the left.\<close>

function count_sub :: "bytes \<Rightarrow> bytes \<Rightarrow> nat" where
  "count_sub label [] = 0"
| "count_sub label (b # bs) =
     (if take (length label) (b # bs) = label then Suc (count_sub label (drop (length label - 1) bs))
      else count_sub label bs)"
  by pat_completeness auto
termination
  by (relation "measure (\<lambda>(label, bs). length bs)") auto

fun contains_sub :: "bytes \<Rightarrow> bytes \<Rightarrow> bool" where
  "contains_sub label [] = (label = [])"
| "contains_sub label (b # bs) = (take (length label) (b # bs) = label \<or> contains_sub label bs)"

text \<open>
  \<open>int\<close> of ASCII digits refuses more than 4300 of them, and so does \<open>str\<close> of an integer; in
  base 16 there is no such limit.
\<close>

definition digits_int :: "bytes \<Rightarrow> int" where
  "digits_int ds = foldl (\<lambda>n d. 10 * n + (d - 48)) 0 ds"

definition decimal_int :: "bytes \<Rightarrow> int result" where
  "decimal_int ds =
     (if length ds > 4300 then Inl (ValueError ''Exceeds the limit for integer string conversion'')
      else Inr (digits_int ds))"

definition hex_value :: "int \<Rightarrow> int" where
  "hex_value b = (if digit_byte b then b - 48 else if lower_byte b then b - 87 else b - 55)"

definition hex_int :: "bytes \<Rightarrow> int" where
  "hex_int ds = foldl (\<lambda>n d. 16 * n + hex_value d) 0 ds"

definition decimal_text :: "int \<Rightarrow> string result" where
  "decimal_text i =
     (let t = str_int i in
      if length t > 4300 + (if i < 0 then 1 else 0)
      then Inl (ValueError ''Exceeds the limit for integer string conversion'') else Inr t)"

section \<open>HMAC\<close>

text \<open>\<open>hmac.new(key, message, hashlib.sha256).hexdigest()\<close>.\<close>

unbundle bit_operations_syntax

definition sha256_digest :: "bytes \<Rightarrow> bytes" where
  "sha256_digest m =
     concat (map (\<lambda>w. to_bytes_big 4 (uint w)) (sha256_blocks (be_words (sha256_pad m)) sha256_h0))"

definition hmac_sha256 :: "bytes \<Rightarrow> bytes \<Rightarrow> string" where
  "hmac_sha256 key message =
     (let short = (if length key > 64 then sha256_digest key else key);
          block = short @ replicate (64 - length short) 0
      in sha256_hexdigest (map (\<lambda>b. b XOR 92) block @
           sha256_digest (map (\<lambda>b. b XOR 54) block @ message)))"

section \<open>Regular expressions\<close>

abbreviation spaces :: "nat \<Rightarrow> int regex" where
  "spaces n \<equiv> Chars space_byte n None"

abbreviation digits :: "int regex" where
  "digits \<equiv> Chars digit_byte 1 None"

abbreviation txt_re :: "string \<Rightarrow> int regex" where
  "txt_re s \<equiv> Text (bstr s)"

definition name_byte :: "int \<Rightarrow> bool" where
  "name_byte b \<longleftrightarrow> lower_byte b \<or> digit_byte b \<or> b = 95"

definition header_tail :: "int regex list" where
  "header_tail =
     [spaces 1, txt_re ''['', Group ''cpu'' digits, txt_re '']'', spaces 1, Group ''seconds'' digits,
      txt_re ''.'', Group ''fraction'' (Chars digit_byte 9 (Some 9)), txt_re '':'', spaces 1,
      Group ''group'' (Chars name_byte 1 None), txt_re '':'', Group ''event'' (Chars name_byte 1 None),
      txt_re '':'', Maybe (Both (spaces 0) (Group ''payload'' (Chars any_byte 0 None)))]"

definition header_slash :: "int regex" where
  "header_slash = seq ([spaces 0, Group ''pid'' digits, txt_re ''/'', Group ''tid'' digits] @ header_tail)"

definition header_split :: "int regex" where
  "header_split = seq ([spaces 0, Group ''pid'' digits, spaces 1, Group ''tid'' digits] @ header_tail)"

definition lost_record :: "int regex" where
  "lost_record =
     seq [spaces 0,
       Maybe (seq [
         Either (seq [digits, txt_re ''/'', digits]) (seq [digits, spaces 1, digits]),
         spaces 1, txt_re ''['', digits, txt_re '']'', spaces 1, digits, txt_re ''.'',
         Chars digit_byte 9 (Some 9), txt_re '':'', spaces 1,
         Maybe (seq [Chars (\<lambda>b. \<not> space_byte b) 1 None, txt_re '':'', spaces 1])]),
       txt_re ''PERF_RECORD_LOST'', spaces 1, txt_re ''lost'', spaces 1, Group ''count'' digits, spaces 0]"

abbreviation signed_re :: "int regex" where
  "signed_re \<equiv> Both (Maybe (txt_re ''-'')) digits"

abbreviation comm_re :: "int regex" where
  "comm_re \<equiv> Chars any_byte 0 (Some 16)"

definition sched_switch_re :: "int regex" where
  "sched_switch_re =
     seq [txt_re ''prev_comm='', Group ''prev_comm'' comm_re, txt_re '' prev_pid='', Group ''prev_tid'' digits,
       txt_re '' prev_prio='', Group ''prev_prio'' signed_re, txt_re '' prev_state='',
       Group ''prev_state'' (Chars (\<lambda>b. \<not> space_byte b) 1 None), txt_re '' ==> next_comm='',
       Group ''next_comm'' comm_re, txt_re '' next_pid='', Group ''next_tid'' digits,
       txt_re '' next_prio='', Group ''next_prio'' signed_re]"

definition sched_wakeup_re :: "int regex" where
  "sched_wakeup_re =
     seq [txt_re ''comm='', Group ''comm'' comm_re, txt_re '' pid='', Group ''tid'' digits,
       txt_re '' prio='', Group ''prio'' signed_re, txt_re '' target_cpu='', Group ''target_cpu'' digits]"

definition sched_migrate_re :: "int regex" where
  "sched_migrate_re =
     seq [txt_re ''comm='', Group ''comm'' comm_re, txt_re '' pid='', Group ''tid'' digits,
       txt_re '' prio='', Group ''prio'' signed_re, txt_re '' orig_cpu='', Group ''origin'' digits,
       txt_re '' dest_cpu='', Group ''destination'' digits]"

abbreviation address_re :: "int regex" where
  "address_re \<equiv> Both (Maybe (txt_re ''0x'')) (Chars hex_digit_byte 1 (Some 16))"

definition integer_re :: "int regex" where
  "integer_re =
     Both (Maybe (txt_re ''-'')) (Either (Both (txt_re ''0x'') (Chars hex_digit_byte 1 None)) digits)"

definition modern_lock_begin :: "int regex" where
  "modern_lock_begin =
     seq [Group ''address'' address_re, txt_re '' (flags='',
       Group ''flags'' (Chars (\<lambda>b. upper_byte b \<or> digit_byte b \<or> b = 95 \<or> b = 124) 1 None), txt_re '')'']"

definition modern_lock_end :: "int regex" where
  "modern_lock_end = seq [Group ''address'' address_re, txt_re '' (ret='', Group ''ret'' signed_re, txt_re '')'']"

definition legacy_lock :: "int regex" where
  "legacy_lock =
     seq [Group ''address'' address_re, txt_re '' '',
       Group ''name'' (Chars (\<lambda>b. b \<noteq> 0 \<and> b \<noteq> 10 \<and> b \<noteq> 13) 1 None)]"

text \<open>One field of a futex payload; at the start of the payload the separator may be absent.\<close>

definition field_body :: "int regex" where
  "field_body =
     seq [Group ''name'' (Both (Chars (\<lambda>b. lower_byte b \<or> upper_byte b \<or> b = 95) 1 (Some 1))
            (Chars (\<lambda>b. lower_byte b \<or> upper_byte b \<or> digit_byte b \<or> b = 95) 0 None)),
       spaces 0, Either (txt_re ''='') (txt_re '':''), spaces 0,
       Group ''value'' (Chars (\<lambda>b. \<not> space_byte b \<and> b \<noteq> 44) 1 None)]"

definition field_re :: "bool \<Rightarrow> int regex" where
  "field_re at_start =
     (let separated = Both (Chars (\<lambda>b. space_byte b \<or> b = 44) 1 (Some 1)) field_body
      in if at_start then Either field_body separated else separated)"

text \<open>\<open>_FIELD.finditer(payload)\<close>: the text skipped before each match, the match, and the text after the last.\<close>

function scan_fields :: "bool \<Rightarrow> bytes \<Rightarrow> bytes \<Rightarrow> (bytes \<times> int captures) list \<times> bytes" where
  "scan_fields at_start skipped s =
     (case match_prefix (field_re at_start) s of
        Some (c, rest) \<Rightarrow>
          if length rest < length s
          then (let (ms, tail_text) = scan_fields False [] rest in ((skipped, c) # ms, tail_text))
          else ([], skipped @ s)
      | None \<Rightarrow>
          (case s of
             [] \<Rightarrow> ([], skipped)
           | b # bs \<Rightarrow> scan_fields False (skipped @ [b]) bs))"
  by pat_completeness auto
termination
  by (relation "measure (\<lambda>(at_start, skipped, s). length s)") auto

declare scan_fields.simps [simp del]

section \<open>Headers and events of interest\<close>

record trace_header =
  th_pid :: int
  th_tid :: int
  th_cpu :: int
  th_timestamp_ns :: int
  th_group :: string
  th_event :: string
  th_payload :: bytes

definition sched_events :: "(string \<times> string) list" where
  "sched_events =
     [(''sched'', ''sched_switch''), (''sched'', ''sched_waking''), (''sched'', ''sched_wakeup''),
      (''sched'', ''sched_wakeup_new''), (''sched'', ''sched_migrate_task'')]"

definition lock_events :: "(string \<times> string) list" where
  "lock_events =
     [(''lock'', ''contention_begin''), (''lock'', ''contention_end''), (''lock'', ''lock_acquire''),
      (''lock'', ''lock_acquired''), (''lock'', ''lock_contended''), (''lock'', ''lock_release''),
      (''syscalls'', ''sys_enter_futex''), (''syscalls'', ''sys_exit_futex'')]"

definition known_lock_flags :: "bytes list" where
  "known_lock_flags = map bstr [''0'', ''SPIN'', ''READ'', ''WRITE'', ''RT'', ''PERCPU'', ''MUTEX'']"

definition parse_header :: "bytes \<Rightarrow> trace_header option result" where
  "parse_header line =
     (case (case fullmatch header_slash line of None \<Rightarrow> fullmatch header_split line | Some c \<Rightarrow> Some c) of
        None \<Rightarrow> Inr None
      | Some c \<Rightarrow>
          bindE (decimal_int (group_of c ''pid'')) (\<lambda>pid.
          bindE (decimal_int (group_of c ''tid'')) (\<lambda>tid.
          bindE (decimal_int (group_of c ''cpu'')) (\<lambda>cpu.
          bindE (decimal_int (group_of c ''seconds'')) (\<lambda>seconds.
          bindE (decimal_int (group_of c ''fraction'')) (\<lambda>fraction.
          Inr (Some \<lparr>th_pid = pid, th_tid = tid, th_cpu = cpu,
                     th_timestamp_ns = seconds * 1000000000 + fraction,
                     th_group = map char_of (group_of c ''group''),
                     th_event = map char_of (group_of c ''event''),
                     th_payload = group_of c ''payload''\<rparr>)))))))"

end
