(* ===== verification/TraceScript.thy ===== *)
theory TraceScript
  imports TraceScriptText
begin

text \<open>
  The parser for the fixed \<open>perf script\<close> recipe, \<open>src/src/perflens/profiles/trace_stream.py\<close>: the
  reading loop with its handling of overlong lines, the converters for scheduler, lock and
  futex records, waker and contention state, and the final validation. No exception is caught between a line and the end of the parse, so a
  raised exception ends it and the state needs no value then.
\<close>

unbundle bit_operations_syntax

section \<open>Parser state\<close>

record script_config = trace_adapter +
  sc_lock_identity_key :: bytes

record script_state =
  sp_events :: "trace_event list"
  sp_observed_tids :: "int set"
  sp_diagnostics :: "trace_parse_diagnostic list"
  sp_diagnostic_count :: int
  sp_input_bytes :: int
  sp_input_lines :: int
  sp_input_events :: int
  sp_lost_events :: int
  sp_malformed :: int
  sp_duplicates :: int
  sp_out_of_order :: int
  sp_unsupported :: int
  sp_truncated :: int
  sp_foreign :: int
  sp_provisional :: int
  sp_lock_phase_enrichment :: int
  sp_last_timestamp_ns :: "int option"
  sp_provisional_wakers :: "(int, int \<times> task_identity \<times> trace_scope) dict"
  sp_audited_contentions :: "(int \<times> string, bytes option) dict"

definition script_init :: script_state where
  "script_init =
     \<lparr>sp_events = [], sp_observed_tids = {}, sp_diagnostics = [], sp_diagnostic_count = 0,
      sp_input_bytes = 0, sp_input_lines = 0, sp_input_events = 0, sp_lost_events = 0, sp_malformed = 0,
      sp_duplicates = 0, sp_out_of_order = 0, sp_unsupported = 0, sp_truncated = 0, sp_foreign = 0,
      sp_provisional = 0, sp_lock_phase_enrichment = 0, sp_last_timestamp_ns = None,
      sp_provisional_wakers = [], sp_audited_contentions = []\<rparr>"

definition script_diagnose :: "script_config \<Rightarrow> string \<Rightarrow> string \<Rightarrow> script_state \<Rightarrow> script_state" where
  "script_diagnose cfg code message s =
     s\<lparr>sp_diagnostic_count := sp_diagnostic_count s + 1,
       sp_diagnostics :=
         (if int (length (sp_diagnostics s)) < tl_max_warnings (ad_limits cfg)
          then sp_diagnostics s @
            [\<lparr>pd_code = code, pd_line_number = sp_input_lines s, pd_message = message\<rparr>]
          else sp_diagnostics s)\<rparr>"

definition script_limit :: "string \<Rightarrow> py_error" where
  "script_limit message = PerfLensError RESOURCE_LIMIT_EXCEEDED ''trace_input'' message"

definition malformed_payload :: "script_config \<Rightarrow> string \<Rightarrow> script_state \<Rightarrow> script_state" where
  "malformed_payload cfg code s =
     script_diagnose cfg code ''Trace event payload failed strict field validation''
       (s\<lparr>sp_malformed := sp_malformed s + 1\<rparr>)"

definition discard_provisional_wakers :: "script_config \<Rightarrow> string \<Rightarrow> string \<Rightarrow> script_state \<Rightarrow> script_state" where
  "discard_provisional_wakers cfg code message s =
     (let n = dict_sum fst (sp_provisional_wakers s) in
      if n = 0 then s
      else script_diagnose cfg code message
        (s\<lparr>sp_unsupported := sp_unsupported s + n, sp_provisional_wakers := []\<rparr>))"

section \<open>Converters\<close>

definition scoped_payload_task :: "script_config \<Rightarrow> int \<Rightarrow> task_identity \<times> trace_scope" where
  "scoped_payload_task cfg tid =
     (if tid \<in> set (ad_target_tids cfg) then (target_task cfg tid, Scope_TARGET)
      else (external_redacted, Scope_FOREIGN))"

definition scoped_header_task :: "script_config \<Rightarrow> trace_header \<Rightarrow> task_identity \<times> trace_scope" where
  "scoped_header_task cfg h =
     (if th_pid h = tgt_pid (ad_target cfg) \<and> th_tid h \<in> set (ad_target_tids cfg)
      then (target_task cfg (th_tid h), Scope_TARGET)
      else (external_redacted, Scope_FOREIGN))"

definition observe_target_task :: "task_identity \<times> trace_scope \<Rightarrow> script_state \<Rightarrow> script_state" where
  "observe_target_task p s =
     (case (snd p, task_tid (fst p)) of
        (Scope_TARGET, Some tid) \<Rightarrow> s\<lparr>sp_observed_tids := insert tid (sp_observed_tids s)\<rparr>
      | _ \<Rightarrow> s)"

definition script_event_id :: "trace_header \<Rightarrow> string \<Rightarrow> script_state \<Rightarrow> string result" where
  "script_event_id h kind s =
     bindE (decimal_text (th_timestamp_ns h)) (\<lambda>timestamp.
     bindE (decimal_text (th_cpu h)) (\<lambda>cpu.
     Inr (''event-'' @ take 24 (sha256_hexdigest (map of_char
       (str_int (sp_input_events s) @ '':'' @ timestamp @ '':'' @ cpu @ '':'' @ kind @ '':'' @
        str_int (int (length (sp_events s)))))))))"

definition script_base ::
  "script_config \<Rightarrow> trace_header \<Rightarrow> string \<Rightarrow> evidence_semantics \<Rightarrow> script_state \<Rightarrow> trace_event_base result" where
  "script_base cfg h kind semantics s =
     bindE (script_event_id h kind s) (\<lambda>event_id.
     Inr \<lparr>te_event_id = event_id, te_sequence = int (length (sp_events s)),
          te_timestamp_ns = th_timestamp_ns h, te_target = ad_target cfg, te_semantics = semantics,
          te_cpu = Some (th_cpu h), te_stack = []\<rparr>)"

definition script_lock_id :: "script_config \<Rightarrow> bytes \<Rightarrow> string" where
  "script_lock_id cfg raw_address =
     (let normalized = lower_bytes raw_address;
          prefixed = (if take 2 normalized = bstr ''0x'' then normalized else bstr ''0x'' @ normalized)
      in ''lock-'' @ take 20 (hmac_sha256 (sc_lock_identity_key cfg) prefixed))"

definition parse_integer :: "bytes \<Rightarrow> int result" where
  "parse_integer v =
     (if take 3 v = bstr ''-0x'' then Inr (- hex_int (drop 3 v))
      else if take 2 v = bstr ''0x'' then
        (let parsed = hex_int (drop 2 v) in Inr (if parsed \<ge> 2 ^ 63 then parsed - 2 ^ 64 else parsed))
      else if take 1 v = bstr ''-'' then bindE (decimal_int (drop 1 v)) (\<lambda>n. Inr (- n))
      else decimal_int v)"

definition script_wait_outcome :: "int \<Rightarrow> bool \<Rightarrow> lock_wait_outcome" where
  "script_wait_outcome r audited_begin =
     (if r = 0 then (if audited_begin then Outcome_ACQUIRED else Outcome_UNKNOWN)
      else if r = -110 then Outcome_TIMED_OUT
      else if r = -4 then Outcome_INTERRUPTED
      else Outcome_FAILED)"

definition sched_states :: "(bytes, string) dict" where
  "sched_states = map (\<lambda>(k, v). (bstr k, v))
     [(''R'', ''running''), (''S'', ''interruptible_sleep''), (''D'', ''uninterruptible_sleep''),
      (''T'', ''stopped''), (''t'', ''traced''), (''X'', ''dead''), (''x'', ''dead''), (''Z'', ''dead''),
      (''P'', ''parked''), (''I'', ''idle'')]"

definition normalize_sched_state :: "script_config \<Rightarrow> bytes \<Rightarrow> script_state \<Rightarrow> string \<times> script_state" where
  "normalize_sched_state cfg raw_state s =
     (case map_of sched_states (rstrip_bytes (\<lambda>b. b = 43) raw_state) of
        Some state \<Rightarrow> (state, s)
      | None \<Rightarrow> (''unknown'', script_diagnose cfg ''UNKNOWN_TASK_STATE'' ''Scheduler task state is unknown'' s))"

text \<open>A converter returns the state and the event it emits, if any.\<close>

type_synonym conversion = "(script_state \<times> trace_event option) result"

definition convert_sched_switch :: "script_config \<Rightarrow> trace_header \<Rightarrow> script_state \<Rightarrow> conversion" where
  "convert_sched_switch cfg h s =
     (if \<exists>label \<in> set [''prev_pid='', '' prev_prio='', '' prev_state='', '' next_pid='', '' next_prio=''].
           count_sub (bstr label) (th_payload h) \<noteq> 1
      then Inr (malformed_payload cfg ''AMBIGUOUS_SCHED_SWITCH'' s, None)
      else case fullmatch sched_switch_re (th_payload h) of
             None \<Rightarrow> Inr (malformed_payload cfg ''MALFORMED_SCHED_SWITCH'' s, None)
           | Some c \<Rightarrow>
               bindE (decimal_int (group_of c ''prev_tid'')) (\<lambda>previous_tid.
               bindE (decimal_int (group_of c ''next_tid'')) (\<lambda>next_tid.
               let previous = scoped_payload_task cfg previous_tid;
                   next_task = scoped_payload_task cfg next_tid
               in if snd previous = Scope_FOREIGN \<and> snd next_task = Scope_FOREIGN
                  then Inr (s\<lparr>sp_foreign := sp_foreign s + 1\<rparr>, None)
                  else
                    let (state, s1) = normalize_sched_state cfg (group_of c ''prev_state'') s in
                    bindE (script_base cfg h ''sched-switch'' Sem_EXACT s1) (\<lambda>b.
                    Inr (observe_target_task next_task (observe_target_task previous s1),
                         Some (SchedSwitch (trace_event_base.extend b
                           (sched_switch_event.fields (fst previous) (snd previous) (fst next_task)
                              (snd next_task) state))))))))"

definition convert_sched_wakeup :: "script_config \<Rightarrow> trace_header \<Rightarrow> script_state \<Rightarrow> conversion" where
  "convert_sched_wakeup cfg h s =
     (if \<exists>label \<in> set ['' pid='', '' prio='', '' target_cpu='']. count_sub (bstr label) (th_payload h) \<noteq> 1
      then Inr (malformed_payload cfg ''AMBIGUOUS_SCHED_WAKEUP'' s, None)
      else case fullmatch sched_wakeup_re (th_payload h) of
             None \<Rightarrow> Inr (malformed_payload cfg ''MALFORMED_SCHED_WAKEUP'' s, None)
           | Some c \<Rightarrow>
               bindE (decimal_int (group_of c ''tid'')) (\<lambda>woken_tid.
               if woken_tid \<notin> set (ad_target_tids cfg) then Inr (s\<lparr>sp_foreign := sp_foreign s + 1\<rparr>, None)
               else
                 let s1 = s\<lparr>sp_observed_tids := insert woken_tid (sp_observed_tids s)\<rparr>;
                     pending = map_of (sp_provisional_wakers s1) woken_tid
                 in if th_event h = ''sched_waking''
                    then
                      let entry = (case pending of
                            None \<Rightarrow> (1, scoped_header_task cfg h)
                          | Some (n, first) \<Rightarrow> (n + 1, first))
                      in Inr (s1\<lparr>sp_provisional_wakers := dict_set woken_tid entry (sp_provisional_wakers s1)\<rparr>, None)
                    else
                      let s2 = s1\<lparr>sp_provisional_wakers := dict_pop woken_tid (sp_provisional_wakers s1)\<rparr>;
                          (s3, waker) = (case pending of
                              None \<Rightarrow> (s2, (None, None))
                            | Some (n, task, scope) \<Rightarrow>
                                if n = 1
                                then (s2\<lparr>sp_provisional := sp_provisional s2 + 1\<rparr>, (Some task, Some scope))
                                else (script_diagnose cfg ''AMBIGUOUS_PROVISIONAL_WAKER''
                                        ''Multiple sched_waking records prevented exact waker enrichment''
                                        (s2\<lparr>sp_unsupported := sp_unsupported s2 + n\<rparr>), (None, None)))
                      in bindE (script_base cfg h ''sched-wakeup'' Sem_EXACT s3) (\<lambda>b.
                         Inr (s3, Some (SchedWakeup (trace_event_base.extend b
                           (sched_wakeup_event.fields (target_task cfg woken_tid) Scope_TARGET
                              (if th_event h = ''sched_wakeup_new'' then Src_WAKEUP_NEW else Src_WAKEUP)
                              (fst waker) (snd waker))))))))"

definition convert_sched_migrate :: "script_config \<Rightarrow> trace_header \<Rightarrow> script_state \<Rightarrow> conversion" where
  "convert_sched_migrate cfg h s =
     (if \<exists>label \<in> set ['' pid='', '' prio='', '' orig_cpu='', '' dest_cpu=''].
           count_sub (bstr label) (th_payload h) \<noteq> 1
      then Inr (malformed_payload cfg ''AMBIGUOUS_SCHED_MIGRATION'' s, None)
      else case fullmatch sched_migrate_re (th_payload h) of
             None \<Rightarrow> Inr (malformed_payload cfg ''MALFORMED_SCHED_MIGRATION'' s, None)
           | Some c \<Rightarrow>
               bindE (decimal_int (group_of c ''tid'')) (\<lambda>tid.
               if tid \<notin> set (ad_target_tids cfg) then Inr (s\<lparr>sp_foreign := sp_foreign s + 1\<rparr>, None)
               else
                 let s1 = s\<lparr>sp_observed_tids := insert tid (sp_observed_tids s)\<rparr> in
                 bindE (script_base cfg h ''sched-migrate'' Sem_EXACT s1) (\<lambda>b.
                 bindE (decimal_int (group_of c ''origin'')) (\<lambda>origin.
                 bindE (decimal_int (group_of c ''destination'')) (\<lambda>destination.
                 Inr (s1, Some (SchedMigrate (trace_event_base.extend b
                   (sched_migrate_event.fields (target_task cfg tid) Scope_TARGET origin destination)))))))))"

fun lock_action_value :: "lock_action \<Rightarrow> string" where
  "lock_action_value Lock_WAIT = ''wait''"
| "lock_action_value Lock_ACQUIRED = ''acquired''"
| "lock_action_value Lock_WAIT_ENDED = ''wait_ended''"
| "lock_action_value Lock_RELEASED = ''released''"

fun futex_action_value :: "futex_action \<Rightarrow> string" where
  "futex_action_value Futex_WAIT = ''wait''"
| "futex_action_value Futex_WAKE = ''wake''"

definition script_lock_event ::
  "script_config \<Rightarrow> trace_header \<Rightarrow> task_identity \<Rightarrow> lock_action \<Rightarrow> string \<Rightarrow> lock_wait_outcome option
     \<Rightarrow> script_state \<Rightarrow> conversion" where
  "script_lock_event cfg h task action lock outcome s =
     bindE (script_base cfg h (''lock-'' @ lock_action_value action) Sem_EXACT s) (\<lambda>b.
     Inr (s, Some (Lock (trace_event_base.extend b
       (lock_event.fields task Scope_TARGET action lock outcome None None)))))"

text \<open>\<open>bytes.split(b"|")\<close>.\<close>

fun split_bar :: "bytes \<Rightarrow> bytes list" where
  "split_bar [] = [[]]"
| "split_bar (b # bs) =
     (if b = 124 then [] # split_bar bs
      else case split_bar bs of [] \<Rightarrow> [[b]] | w # ws \<Rightarrow> (b # w) # ws)"

definition unsupported_flags :: "bytes list \<Rightarrow> bool" where
  "unsupported_flags parts \<longleftrightarrow>
     \<not> distinct parts \<or> (\<exists>p \<in> set parts. p \<notin> set known_lock_flags) \<or>
     (bstr ''0'' \<in> set parts \<and> length parts \<noteq> 1)"

definition convert_contention_begin ::
  "script_config \<Rightarrow> trace_header \<Rightarrow> task_identity \<Rightarrow> int \<Rightarrow> script_state \<Rightarrow> conversion" where
  "convert_contention_begin cfg h task tid s =
     (case fullmatch modern_lock_begin (th_payload h) of
        None \<Rightarrow> Inr (malformed_payload cfg ''MALFORMED_LOCK_CONTENTION_BEGIN'' s, None)
      | Some c \<Rightarrow>
          let lock = script_lock_id cfg (group_of c ''address'');
              key = (tid, lock);
              audited = map_of (sp_audited_contentions s) key
          in if unsupported_flags (split_bar (group_of c ''flags'')) then
               let s1 = (if audited \<noteq> None
                         then s\<lparr>sp_audited_contentions := dict_set key None (sp_audited_contentions s)\<rparr> else s)
               in Inr (script_diagnose cfg ''UNKNOWN_LOCK_FLAGS'' ''Lock contention flags contain an unsupported value''
                    (s1\<lparr>sp_unsupported := sp_unsupported s1 + 1\<rparr>), None)
             else (case audited of
                 Some (Some previous_flags) \<Rightarrow>
                   Inr (s\<lparr>sp_lock_phase_enrichment := sp_lock_phase_enrichment s + 1\<rparr>, None)
               | Some None \<Rightarrow>
                   Inr (script_diagnose cfg ''POISONED_LOCK_PHASE''
                     ''An earlier unsupported lock phase prevents exact wait pairing''
                     (s\<lparr>sp_unsupported := sp_unsupported s + 1\<rparr>), None)
               | None \<Rightarrow>
                   script_lock_event cfg h task Lock_WAIT lock None
                     (s\<lparr>sp_audited_contentions :=
                        dict_set key (Some (bstr ''audited'')) (sp_audited_contentions s)\<rparr>)))"

definition convert_contention_end ::
  "script_config \<Rightarrow> trace_header \<Rightarrow> task_identity \<Rightarrow> int \<Rightarrow> script_state \<Rightarrow> conversion" where
  "convert_contention_end cfg h task tid s =
     (case fullmatch modern_lock_end (th_payload h) of
        None \<Rightarrow> Inr (malformed_payload cfg ''MALFORMED_LOCK_CONTENTION_END'' s, None)
      | Some c \<Rightarrow>
          let lock = script_lock_id cfg (group_of c ''address'');
              audited_flags = dict_get_or None (sp_audited_contentions s) (tid, lock);
              s1 = s\<lparr>sp_audited_contentions := dict_pop (tid, lock) (sp_audited_contentions s)\<rparr>
          in bindE (parse_integer (group_of c ''ret'')) (\<lambda>r.
             script_lock_event cfg h task Lock_WAIT_ENDED lock
               (Some (script_wait_outcome r (audited_flags \<noteq> None))) s1))"

definition convert_legacy_lock :: "script_config \<Rightarrow> trace_header \<Rightarrow> task_identity \<Rightarrow> script_state \<Rightarrow> conversion" where
  "convert_legacy_lock cfg h task s =
     (case fullmatch legacy_lock (th_payload h) of
        None \<Rightarrow> Inr (malformed_payload cfg ''MALFORMED_LEGACY_LOCK_EVENT'' s, None)
      | Some c \<Rightarrow>
          let lock = script_lock_id cfg (group_of c ''address'') in
          if th_event h = ''lock_contended'' then script_lock_event cfg h task Lock_WAIT lock None s
          else if th_event h = ''lock_acquired'' then script_lock_event cfg h task Lock_ACQUIRED lock None s
          else if th_event h = ''lock_release'' then script_lock_event cfg h task Lock_RELEASED lock None s
          else Inl AssertionError)"

definition convert_lock :: "script_config \<Rightarrow> trace_header \<Rightarrow> script_state \<Rightarrow> conversion" where
  "convert_lock cfg h s =
     (let (task, scope) = scoped_header_task cfg h in
      if scope = Scope_FOREIGN then Inr (s\<lparr>sp_foreign := sp_foreign s + 1\<rparr>, None)
      else case task_tid task of
        None \<Rightarrow> Inl AssertionError
      | Some tid \<Rightarrow>
          let s1 = s\<lparr>sp_observed_tids := insert tid (sp_observed_tids s)\<rparr> in
          if th_event h = ''contention_begin'' then convert_contention_begin cfg h task tid s1
          else if th_event h = ''contention_end'' then convert_contention_end cfg h task tid s1
          else if th_event h = ''lock_acquire''
          then Inr (script_diagnose cfg ''UNSUPPORTED_LOCK_ATTEMPT'' ''lock_acquire does not prove that a task waited''
                 (s1\<lparr>sp_unsupported := sp_unsupported s1 + 1\<rparr>), None)
          else convert_legacy_lock cfg h task s1)"

text \<open>Between the fields only blanks and commas may stand, and no field may appear twice.\<close>

definition blank_or_comma :: "bytes \<Rightarrow> bool" where
  "blank_or_comma s \<longleftrightarrow> list_all (\<lambda>b. b = 32 \<or> b = 44) s"

fun collect_fields :: "(bytes \<times> int captures) list \<Rightarrow> (string, bytes) dict \<Rightarrow> (string, bytes) dict option" where
  "collect_fields [] named = Some named"
| "collect_fields ((skipped, c) # ms) named =
     (let name = map char_of (group_of c ''name'') in
      if \<not> blank_or_comma skipped then None
      else if name \<in> fst ` set named then None
      else collect_fields ms (dict_set name (group_of c ''value'') named))"

definition unique_fields :: "bytes \<Rightarrow> (string, bytes) dict option" where
  "unique_fields payload =
     (let (ms, tail_text) = scan_fields True [] payload in
      case collect_fields ms [] of
        None \<Rightarrow> None
      | Some named \<Rightarrow> if blank_or_comma tail_text then Some named else None)"

definition futex_commands :: "(int, futex_action \<times> futex_operation) dict" where
  "futex_commands =
     [(0, (Futex_WAIT, Op_WAIT)), (9, (Futex_WAIT, Op_WAIT_BITSET)), (11, (Futex_WAIT, Op_WAIT_REQUEUE_PI)),
      (1, (Futex_WAKE, Op_WAKE)), (10, (Futex_WAKE, Op_WAKE_BITSET)), (3, (Futex_WAKE, Op_REQUEUE))]"

definition convert_futex :: "script_config \<Rightarrow> trace_header \<Rightarrow> script_state \<Rightarrow> conversion" where
  "convert_futex cfg h s =
     (let (task, scope) = scoped_header_task cfg h in
      if scope = Scope_FOREIGN then Inr (s\<lparr>sp_foreign := sp_foreign s + 1\<rparr>, None)
      else case task_tid task of
        None \<Rightarrow> Inl AssertionError
      | Some tid \<Rightarrow>
          let s1 = s\<lparr>sp_observed_tids := insert tid (sp_observed_tids s)\<rparr> in
          if th_event h = ''sys_exit_futex''
          then Inr (script_diagnose cfg ''UNPAIRED_FUTEX_EXIT''
                 ''Futex exit cannot be normalized without an address-bearing entry pair''
                 (s1\<lparr>sp_unsupported := sp_unsupported s1 + 1\<rparr>), None)
          else case unique_fields (th_payload h) of
            None \<Rightarrow> Inr (malformed_payload cfg ''AMBIGUOUS_FUTEX_PAYLOAD'' s1, None)
          | Some named \<Rightarrow>
              (case (map_of named ''uaddr'', map_of named ''op'') of
                 (Some raw_address, Some raw_op) \<Rightarrow>
                   if fullmatch address_re raw_address = None \<or> fullmatch integer_re raw_op = None
                   then Inr (malformed_payload cfg ''MISSING_FUTEX_FIELDS'' s1, None)
                   else
                     bindE (parse_integer raw_op) (\<lambda>op_value.
                     case map_of futex_commands (op_value AND 127) of
                       None \<Rightarrow>
                         Inr (script_diagnose cfg ''UNSUPPORTED_FUTEX_OPERATION'' ''Futex operation is not allowlisted''
                           (s1\<lparr>sp_unsupported := sp_unsupported s1 + 1\<rparr>), None)
                     | Some (action, operation) \<Rightarrow>
                         bindE (script_base cfg h (''futex-'' @ futex_action_value action) Sem_CANDIDATE s1) (\<lambda>b.
                         Inr (s1, Some (Futex (trace_event_base.extend b
                           (futex_event.fields task Scope_TARGET action (script_lock_id cfg raw_address)
                              operation None))))))
               | _ \<Rightarrow> Inr (malformed_payload cfg ''MISSING_FUTEX_FIELDS'' s1, None)))"

definition convert_sched :: "script_config \<Rightarrow> trace_header \<Rightarrow> script_state \<Rightarrow> conversion" where
  "convert_sched cfg h =
     (if th_event h = ''sched_switch'' then convert_sched_switch cfg h
      else if th_event h \<in> set [''sched_waking'', ''sched_wakeup'', ''sched_wakeup_new''] then convert_sched_wakeup cfg h
      else convert_sched_migrate cfg h)"

definition convert :: "script_config \<Rightarrow> trace_header \<Rightarrow> script_state \<Rightarrow> conversion" where
  "convert cfg h =
     (if th_group h = ''sched'' then convert_sched cfg h
      else if th_group h = ''lock'' then convert_lock cfg h
      else convert_futex cfg h)"

section \<open>Lines\<close>

definition script_unreadable :: py_error where
  "script_unreadable = PerfLensError INVALID_INPUT ''trace_input'' ''Trace transcript could not be read''"

definition script_unsafe :: py_error where
  "script_unsafe =
     PerfLensError PATH_SAFETY_VIOLATION ''trace_input'' ''Trace transcript failed the private-file safety check''"

text \<open>
  The rest of an overlong line is read and thrown away, but its bytes count. \<open>reads\<close> is the
  number of the next read and \<open>fails\<close> the number of the read that raises, if one does.
\<close>

function drain_line ::
  "script_config \<Rightarrow> nat option \<Rightarrow> nat \<Rightarrow> bytes \<Rightarrow> nat \<Rightarrow> script_state \<Rightarrow> (script_state \<times> bytes \<times> nat) result" where
  "drain_line cfg fails limit content reads s =
     (if fails = Some reads then Inl script_unreadable
      else
        let remainder = bytes_readline limit content;
            rest = drop (length remainder) content;
            s1 = s\<lparr>sp_input_bytes := sp_input_bytes s + int (length remainder)\<rparr>
        in if remainder = [] then Inr (s, rest, Suc reads)
           else if sp_input_bytes s1 > tl_max_output_bytes (ad_limits cfg)
           then Inl (script_limit ''Trace transcript exceeds the configured byte limit'')
           else if last remainder = 10 then Inr (s1, rest, Suc reads)
           else drain_line cfg fails limit rest (Suc reads) s1)"
  by pat_completeness auto
termination
  by (relation "measure (\<lambda>(cfg, fails, limit, content, reads, s). length content)")
    (auto simp: bytes_readline_def)

declare drain_line.simps [simp del]

text \<open>A header in order: the allowlist of the mode, the event limit and the converter.\<close>

definition consume_header :: "script_config \<Rightarrow> trace_header \<Rightarrow> script_state \<Rightarrow> script_state result" where
  "consume_header cfg h s =
     (if (case sp_last_timestamp_ns s of None \<Rightarrow> False | Some t \<Rightarrow> th_timestamp_ns h < t)
      then Inr (script_diagnose cfg ''OUT_OF_ORDER_EVENT'' ''Out-of-order trace event was discarded''
             (s\<lparr>sp_out_of_order := sp_out_of_order s + 1\<rparr>))
      else
        let s1 = s\<lparr>sp_last_timestamp_ns := Some (th_timestamp_ns h)\<rparr>;
            allowed = (if ad_mode cfg \<in> set [''sched'', ''off_cpu''] then sched_events else lock_events)
        in if (th_group h, th_event h) \<notin> set allowed
           then Inr (script_diagnose cfg ''UNSUPPORTED_EVENT'' ''Trace event is outside the fixed mode allowlist''
                  (s1\<lparr>sp_unsupported := sp_unsupported s1 + 1\<rparr>))
           else if int (length (sp_events s1)) \<ge> tl_max_events (ad_limits cfg)
           then Inr (script_diagnose cfg ''EVENT_LIMIT'' ''Normalized trace event limit was reached''
                  (s1\<lparr>sp_truncated := sp_truncated s1 + 1\<rparr>))
           else bindE (convert cfg h s1) (\<lambda>(s2, event).
             case event of
               None \<Rightarrow> Inr s2
             | Some e \<Rightarrow> Inr (s2\<lparr>sp_events := sp_events s2 @ [e]\<rparr>)))"

text \<open>A line of text, once it is known to fit.\<close>

definition consume_text :: "script_config \<Rightarrow> bytes \<Rightarrow> script_state \<Rightarrow> script_state result" where
  "consume_text cfg raw_line s =
     (let line = rstrip_bytes (\<lambda>b. b = 13 \<or> b = 10) raw_line in
      if list_all space_byte line then Inr s
      else if 0 \<in> set line
      then Inr (script_diagnose cfg ''CONTROL_CHARACTER'' ''Trace event contains a forbidden byte''
             (s\<lparr>sp_input_events := sp_input_events s + 1, sp_malformed := sp_malformed s + 1\<rparr>))
      else case fullmatch lost_record line of
        Some c \<Rightarrow>
          bindE (decimal_int (group_of c ''count'')) (\<lambda>n.
          let s1 = discard_provisional_wakers cfg ''LOST_PROVISIONAL_WAKER''
                     ''Lost kernel events invalidated pending sched_waking enrichment''
                     (s\<lparr>sp_lost_events := sp_lost_events s + n\<rparr>)
          in Inr (script_diagnose cfg ''KERNEL_EVENTS_LOST'' ''The kernel reported lost trace events''
               (s1\<lparr>sp_audited_contentions := []\<rparr>)))
      | None \<Rightarrow>
          let s1 = s\<lparr>sp_input_events := sp_input_events s + 1\<rparr> in
          if sp_input_events s1 > tl_max_events (ad_limits cfg)
          then Inr (script_diagnose cfg ''INPUT_EVENT_LIMIT'' ''Trace input event limit was reached''
                 (s1\<lparr>sp_truncated := sp_truncated s1 + 1\<rparr>))
          else bindE (parse_header line) (\<lambda>header.
            case header of
              None \<Rightarrow>
                Inr (script_diagnose cfg
                  (if contains_sub (bstr ''PERF_RECORD_LOST'') line then ''MALFORMED_LOST_RECORD'' else ''MALFORMED_EVENT'')
                  ''Trace event does not match the fixed event-only format''
                  (s1\<lparr>sp_malformed := sp_malformed s1 + 1\<rparr>))
            | Some h \<Rightarrow> consume_header cfg h s1))"

definition consume_line ::
  "script_config \<Rightarrow> nat option \<Rightarrow> nat \<Rightarrow> bytes \<Rightarrow> bytes \<Rightarrow> nat \<Rightarrow> script_state
     \<Rightarrow> (script_state \<times> bytes \<times> nat) result" where
  "consume_line cfg fails limit raw_line rest reads s =
     (let lim = ad_limits cfg;
          s1 = s\<lparr>sp_input_lines := sp_input_lines s + 1\<rparr>
      in
      bindE (raise_if (sp_input_lines s1 > tl_max_input_lines lim)
        (script_limit ''Trace transcript exceeds the configured line limit'')) (\<lambda>_.
      let s2 = s1\<lparr>sp_input_bytes := sp_input_bytes s1 + int (length raw_line)\<rparr> in
      bindE (raise_if (sp_input_bytes s2 > tl_max_output_bytes lim)
        (script_limit ''Trace transcript exceeds the configured byte limit'')) (\<lambda>_.
      if int (length raw_line) > tl_max_line_chars lim
      then
        bindE (if raw_line \<noteq> [] \<and> last raw_line = 10 then Inr (s2, rest, reads)
               else drain_line cfg fails limit rest reads s2) (\<lambda>(s3, rest', reads').
        Inr (script_diagnose cfg ''LINE_TOO_LONG'' ''Trace event line exceeds the fixed byte limit''
               (s3\<lparr>sp_input_events := sp_input_events s3 + 1, sp_malformed := sp_malformed s3 + 1\<rparr>),
             rest', reads'))
      else bindE (consume_text cfg raw_line s2) (\<lambda>s3. Inr (s3, rest, reads)))))"

section \<open>The adapter\<close>

definition script_finish :: "script_config \<Rightarrow> script_state \<Rightarrow> trace_stream_parse_result result" where
  "script_finish cfg s0 =
     (let s = discard_provisional_wakers cfg ''UNMATCHED_PROVISIONAL_WAKER''
                ''sched_waking records without a canonical wakeup were not exported'' s0;
          statistics =
            \<lparr>ps_input_bytes = sp_input_bytes s, ps_input_line_count = sp_input_lines s,
             ps_input_event_count = sp_input_events s, ps_emitted_event_count = int (length (sp_events s)),
             ps_lost_event_count = sp_lost_events s, ps_malformed_event_count = sp_malformed s,
             ps_duplicate_event_count = sp_duplicates s, ps_out_of_order_event_count = sp_out_of_order s,
             ps_unsupported_event_count = sp_unsupported s, ps_truncated_event_count = sp_truncated s,
             ps_foreign_event_dropped_count = sp_foreign s,
             ps_provisional_enrichment_event_count = sp_provisional s,
             ps_lock_phase_enrichment_event_count = sp_lock_phase_enrichment s,
             ps_diagnostic_count = sp_diagnostic_count s, ps_diagnostics = sp_diagnostics s,
             ps_diagnostics_truncated = (sp_diagnostic_count s > int (length (sp_diagnostics s)))\<rparr>
      in
      bindE (validate_trace_sequence (sp_events s) (Some (ad_target cfg)) (Some (sp_input_lines s))
        (Some (sp_input_bytes s)) (Some (ad_limits cfg))) (\<lambda>_.
      bindE (parse_statistics_post_init statistics) (\<lambda>_.
      Inr \<lparr>pr_events = sp_events s,
           pr_observed_target_tids = sorted_list_of_set (set (ad_target_tids cfg)),
           pr_statistics = statistics\<rparr>)))"

record script_adapter =
  sa_config :: script_config
  sa_owner_uid :: int
  sa_owner_gid :: int
  sa_input_mode :: int

definition trace_perf_script_fields :: string where
  "trace_perf_script_fields = ''trace:pid,tid,cpu,time,event,trace''"

definition trace_perf_script_recipe :: "string list" where
  "trace_perf_script_recipe =
     [''script'', ''--force'', ''--ns'', ''--show-lost-events'', ''-F'', trace_perf_script_fields, ''-i'',
      ''<private-input>'']"

text \<open>\<open>key\<close> is the given lock identity key, or else the random bytes drawn for this adapter.\<close>

definition script_adapter_init ::
  "target_identity \<Rightarrow> int list \<Rightarrow> int \<Rightarrow> int \<Rightarrow> int \<Rightarrow> string \<Rightarrow> trace_limits option \<Rightarrow> bytes \<Rightarrow>
     string \<Rightarrow> string \<Rightarrow> string list \<Rightarrow> script_adapter result" where
  "script_adapter_init target tids uid gid input_mode mode limits key manifest_fields locale_name manifest_recipe =
     bindE (raise_if (mode \<notin> set [''sched'', ''off_cpu'', ''lock''])
       (ValueError ''trace mode must be sched, off_cpu, or lock'')) (\<lambda>_.
     bindE (raise_if (manifest_fields \<noteq> trace_perf_script_fields \<or> locale_name \<noteq> ''C'' \<or>
         manifest_recipe \<noteq> trace_perf_script_recipe)
       (ValueError ''trace parser requires the fixed event-only manifest and C locale'')) (\<lambda>_.
     bindE (raise_if (tids = []) (ValueError ''observed_target_tids must not be empty'')) (\<lambda>_.
     bindE (raise_if (uid < 0) (ValueError ''expected_input_owner_uid must be a non-negative integer'')) (\<lambda>_.
     bindE (raise_if (gid < 0) (ValueError ''expected_input_owner_gid must be a non-negative integer'')) (\<lambda>_.
     bindE (raise_if (input_mode \<notin> set [384, 416])
       (ValueError ''expected_input_mode must be exactly 0600 or 0640'')) (\<lambda>_.
     bindE (raise_if ((\<exists>tid \<in> set tids. tid \<le> 0) \<or> sorted_list_of_set (set tids) \<noteq> tids)
       (ValueError ''observed_target_tids must be sorted unique positive integers'')) (\<lambda>_.
     bindE (raise_if (length key < 16)
       (ValueError ''lock identity key must contain at least 128 bits'')) (\<lambda>_.
     Inr \<lparr>sa_config = \<lparr>ad_target = target, ad_target_tids = tids, ad_mode = mode,
            ad_limits = (case limits of None \<Rightarrow> trace_limits_default | Some l \<Rightarrow> l),
            sc_lock_identity_key = key\<rparr>,
          sa_owner_uid = uid, sa_owner_gid = gid, sa_input_mode = input_mode\<rparr>))))))))"

text \<open>A line reads on only inside itself, so the loop over the file ends.\<close>

lemma drain_line_shrinks:
  "drain_line cfg fails limit content reads s = Inr (s', rest, reads') \<Longrightarrow> length rest \<le> length content"
proof (induction cfg fails limit content reads s rule: drain_line.induct)
  case (1 cfg fails limit content reads s)
  show ?case
    using 1(2) 1(1) [OF _ refl refl refl]
    by (subst (asm) drain_line.simps) (auto simp: Let_def split: if_splits)
qed

lemma consume_line_shrinks:
  "consume_line cfg fails limit raw_line rest reads s = Inr (s', rest', reads') \<Longrightarrow> length rest' \<le> length rest"
  by (auto simp: consume_line_def Let_def dest: drain_line_shrinks split: if_splits)

function script_loop ::
  "script_config \<Rightarrow> nat option \<Rightarrow> nat \<Rightarrow> bytes \<Rightarrow> nat \<Rightarrow> script_state \<Rightarrow> script_state result" where
  "script_loop cfg fails limit content reads s =
     (if fails = Some reads then Inl script_unreadable
      else
        let raw_line = bytes_readline limit content in
        if raw_line = [] then Inr s
        else case consume_line cfg fails limit raw_line (drop (length raw_line) content) (Suc reads) s of
               Inl e \<Rightarrow> Inl e
             | Inr (s', rest, reads') \<Rightarrow> script_loop cfg fails limit rest reads' s')"
  by pat_completeness auto
termination
proof (relation "measure (\<lambda>(cfg, fails, limit, content, reads, s). length content)", goal_cases)
  case (2 cfg fails limit content reads s line p s' q rest reads')
  have "length rest \<le> length (drop (length line) content)"
    using consume_line_shrinks 2 by blast
  moreover have "0 < length line" "0 < length content"
    using 2 by (auto simp: bytes_readline_def)
  ultimately have "length rest < length content" unfolding length_drop by linarith
  then show ?case by simp
qed simp

declare script_loop.simps [simp del]

definition script_parse :: "script_adapter \<Rightarrow> trace_file \<Rightarrow> trace_stream_parse_result result" where
  "script_parse a f =
     (let cfg = sa_config a; lim = ad_limits cfg in
      case tf_open f of
        None \<Rightarrow> Inl script_unsafe
      | Some source_stat \<Rightarrow>
          bindE (raise_if (\<not> s_isreg (fs_mode source_stat) \<or> fs_nlink source_stat \<noteq> 1 \<or>
              fs_uid source_stat \<noteq> sa_owner_uid a \<or> fs_gid source_stat \<noteq> sa_owner_gid a \<or>
              s_imode (fs_mode source_stat) \<noteq> sa_input_mode a) script_unsafe) (\<lambda>_.
          bindE (raise_if (fs_size source_stat > tl_max_output_bytes lim)
            (script_limit ''Trace transcript exceeds the configured byte limit'')) (\<lambda>_.
          bindE (script_loop cfg (tf_read_fails f) (nat (tl_max_line_chars lim + 1)) (tf_content f) 0 script_init) (\<lambda>s.
          script_finish cfg s))))"

end
