(* ===== verification/TraceScriptProofs.thy ===== *)
theory TraceScriptProofs
  imports TraceScript
begin

text \<open>
  The invariant of the \<open>perf script\<close> trace parser and that every converter keeps it: every
  input event is in exactly one counter, pending wakers are private, events are sound, numbered and
  in order, and an audited contention has an open wait among the events.
\<close>

section \<open>Headers\<close>

lemma digits_int_nonneg: "list_all digit_byte ds \<Longrightarrow> 0 \<le> digits_int ds"
proof -
  assume ds: "list_all digit_byte ds"
  have "0 \<le> n \<Longrightarrow> 0 \<le> foldl (\<lambda>n d. 10 * n + (d - 48)) n ds" for n :: int
    using ds by (induction ds arbitrary: n) (auto simp: digit_byte_def)
  then show ?thesis by (simp add: digits_int_def)
qed

lemma decimal_int_Inr: "decimal_int ds = Inr n \<Longrightarrow> n = digits_int ds"
  by (auto simp: decimal_int_def split: if_splits)

lemma decimal_int_Inl: "decimal_int ds = Inl e \<Longrightarrow> is_value_error e"
  by (auto simp: decimal_int_def split: if_splits)

lemma header_groups:
  assumes "fullmatch header_slash line = Some c \<or> fullmatch header_split line = Some c"
    and "name \<in> {''pid'', ''tid'', ''cpu'', ''seconds'', ''fraction''}"
  shows "list_all digit_byte (group_of c name)"
proof -
  have "\<exists>least most. q = Chars digit_byte least most"
    if "(name, q) \<in> set (groups header_slash) \<or> (name, q) \<in> set (groups header_split)" for q
    using that assms(2) by (auto simp: header_slash_def header_split_def header_tail_def)
  then show ?thesis using assms(1) group_chars [of _ line c name digit_byte] by blast
qed

lemma parse_header_Inr:
  assumes "parse_header line = Inr (Some h)"
  shows "0 \<le> th_timestamp_ns h" and "0 \<le> th_cpu h"
proof -
  let ?m = "case fullmatch header_slash line of None \<Rightarrow> fullmatch header_split line | Some c \<Rightarrow> Some c"
  from assms obtain c where m: "?m = Some c"
    and nums: "th_timestamp_ns h = digits_int (group_of c ''seconds'') * 1000000000 + digits_int (group_of c ''fraction'')"
      "th_cpu h = digits_int (group_of c ''cpu'')"
    unfolding parse_header_def by (cases ?m) (auto dest!: decimal_int_Inr)
  from m have c: "fullmatch header_slash line = Some c \<or> fullmatch header_split line = Some c"
    by (auto split: option.splits)
  from header_groups [OF c] have "0 \<le> digits_int (group_of c name)"
    if "name \<in> {''cpu'', ''seconds'', ''fraction''}" for name
    using that by (intro digits_int_nonneg) auto
  then show "0 \<le> th_timestamp_ns h" "0 \<le> th_cpu h" using nums by simp_all
qed

lemma parse_header_Inl: "parse_header line = Inl e \<Longrightarrow> is_value_error e"
  by (auto simp: parse_header_def bindE_Inl_iff dest!: decimal_int_Inl split: option.splits)

section \<open>Invariant\<close>

definition accounted :: "script_state \<Rightarrow> int" where
  "accounted s =
     int (length (sp_events s)) + sp_malformed s + sp_duplicates s + sp_out_of_order s + sp_unsupported s +
     sp_truncated s + sp_foreign s + sp_provisional s + sp_lock_phase_enrichment s +
     dict_sum fst (sp_provisional_wakers s)"

definition wakers_ok :: "script_config \<Rightarrow> (int, int \<times> task_identity \<times> trace_scope) dict \<Rightarrow> bool" where
  "wakers_ok cfg w \<longleftrightarrow> dict_wf w \<and> (\<forall>tid n p. map_of w tid = Some (n, p) \<longrightarrow> 1 \<le> n \<and> private_task cfg p)"

definition diagnostics_ok :: "script_config \<Rightarrow> script_state \<Rightarrow> bool" where
  "diagnostics_ok cfg s \<longleftrightarrow>
     int (length (sp_diagnostics s)) = min (sp_diagnostic_count s) (tl_max_warnings (ad_limits cfg))"

definition events_ok :: "script_config \<Rightarrow> script_state \<Rightarrow> bool" where
  "events_ok cfg s \<longleftrightarrow>
     sound_run cfg (sp_events s) \<and>
     (\<forall>e \<in> set (sp_events s). \<exists>t. sp_last_timestamp_ns s = Some t \<and> ev_ts e \<le> t)"

text \<open>A lock record of one thread and lock, and a wait among the events that has not ended.\<close>

definition lock_record :: "lock_action \<Rightarrow> int \<times> string \<Rightarrow> trace_event \<Rightarrow> bool" where
  "lock_record action key e \<longleftrightarrow>
     (\<exists>l. e = Lock l \<and> lk_action l = action \<and> task_tid (lk_task l) = Some (fst key) \<and> lk_lock_id l = snd key)"

definition open_wait :: "int \<times> string \<Rightarrow> trace_event list \<Rightarrow> bool" where
  "open_wait key evs \<longleftrightarrow>
     (\<exists>pre e post. evs = pre @ e # post \<and> lock_record Lock_WAIT key e \<and>
        (\<forall>x \<in> set post. \<not> lock_record Lock_WAIT_ENDED key x))"

definition contentions_ok :: "script_state \<Rightarrow> bool" where
  "contentions_ok s \<longleftrightarrow>
     (\<forall>key flags. map_of (sp_audited_contentions s) key = Some (Some flags) \<longrightarrow> open_wait key (sp_events s))"

text \<open>The end of a wait reports an acquisition only while that wait is open.\<close>

definition acquired_end :: "int \<times> string \<Rightarrow> trace_event \<Rightarrow> bool" where
  "acquired_end key e \<longleftrightarrow> lock_record Lock_WAIT_ENDED key e \<and> (\<exists>l. e = Lock l \<and> lk_wait_outcome l = Some Outcome_ACQUIRED)"

definition acquisitions_justified :: "trace_event list \<Rightarrow> bool" where
  "acquisitions_justified evs \<longleftrightarrow>
     (\<forall>pre e post key. evs = pre @ e # post \<longrightarrow> acquired_end key e \<longrightarrow> open_wait key pre)"

definition script_inv :: "script_config \<Rightarrow> int \<Rightarrow> script_state \<Rightarrow> bool" where
  "script_inv cfg d s \<longleftrightarrow>
     sp_input_events s = accounted s + d \<and> wakers_ok cfg (sp_provisional_wakers s) \<and> diagnostics_ok cfg s \<and>
     events_ok cfg s \<and> contentions_ok s \<and> acquisitions_justified (sp_events s)"

lemmas script_inv_defs =
  script_inv_def accounted_def diagnostics_ok_def events_ok_def contentions_ok_def sound_run_def

lemma script_diagnose_simps [simp]:
  "sp_events (script_diagnose cfg code m s) = sp_events s"
  "sp_observed_tids (script_diagnose cfg code m s) = sp_observed_tids s"
  "sp_diagnostic_count (script_diagnose cfg code m s) = sp_diagnostic_count s + 1"
  "sp_input_bytes (script_diagnose cfg code m s) = sp_input_bytes s"
  "sp_input_lines (script_diagnose cfg code m s) = sp_input_lines s"
  "sp_input_events (script_diagnose cfg code m s) = sp_input_events s"
  "sp_lost_events (script_diagnose cfg code m s) = sp_lost_events s"
  "sp_malformed (script_diagnose cfg code m s) = sp_malformed s"
  "sp_duplicates (script_diagnose cfg code m s) = sp_duplicates s"
  "sp_out_of_order (script_diagnose cfg code m s) = sp_out_of_order s"
  "sp_unsupported (script_diagnose cfg code m s) = sp_unsupported s"
  "sp_truncated (script_diagnose cfg code m s) = sp_truncated s"
  "sp_foreign (script_diagnose cfg code m s) = sp_foreign s"
  "sp_provisional (script_diagnose cfg code m s) = sp_provisional s"
  "sp_lock_phase_enrichment (script_diagnose cfg code m s) = sp_lock_phase_enrichment s"
  "sp_last_timestamp_ns (script_diagnose cfg code m s) = sp_last_timestamp_ns s"
  "sp_provisional_wakers (script_diagnose cfg code m s) = sp_provisional_wakers s"
  "sp_audited_contentions (script_diagnose cfg code m s) = sp_audited_contentions s"
  by (simp_all add: script_diagnose_def)

lemma diagnostics_ok_diagnose [simp]:
  "diagnostics_ok cfg s \<Longrightarrow> diagnostics_ok cfg (script_diagnose cfg code m s)"
  by (auto simp: diagnostics_ok_def script_diagnose_def)

lemma script_inv_diagnose [simp]: "script_inv cfg d s \<Longrightarrow> script_inv cfg d (script_diagnose cfg code m s)"
  using diagnostics_ok_diagnose [of cfg s code m]
  by (simp add: script_inv_def accounted_def events_ok_def contentions_ok_def)

lemma script_inv_init: "0 \<le> tl_max_warnings (ad_limits cfg) \<Longrightarrow> script_inv cfg 0 script_init"
  by (simp add: script_inv_defs script_init_def wakers_ok_def acquisitions_justified_def)

text \<open>Counting an event in one more column settles it.\<close>

lemma script_inv_count:
  "script_inv cfg d s \<Longrightarrow> script_inv cfg (d - 1) (s\<lparr>sp_malformed := sp_malformed s + 1\<rparr>)"
  "script_inv cfg d s \<Longrightarrow> script_inv cfg (d - 1) (s\<lparr>sp_out_of_order := sp_out_of_order s + 1\<rparr>)"
  "script_inv cfg d s \<Longrightarrow> script_inv cfg (d - 1) (s\<lparr>sp_unsupported := sp_unsupported s + 1\<rparr>)"
  "script_inv cfg d s \<Longrightarrow> script_inv cfg (d - 1) (s\<lparr>sp_truncated := sp_truncated s + 1\<rparr>)"
  "script_inv cfg d s \<Longrightarrow> script_inv cfg (d - 1) (s\<lparr>sp_foreign := sp_foreign s + 1\<rparr>)"
  "script_inv cfg d s \<Longrightarrow> script_inv cfg (d - 1) (s\<lparr>sp_lock_phase_enrichment := sp_lock_phase_enrichment s + 1\<rparr>)"
  "script_inv cfg d s \<Longrightarrow> script_inv cfg (d + 1) (s\<lparr>sp_input_events := sp_input_events s + 1\<rparr>)"
  by (simp_all add: script_inv_defs)

lemma script_inv_frame [simp]:
  "script_inv cfg d (s\<lparr>sp_observed_tids := o'\<rparr>) = script_inv cfg d s"
  "script_inv cfg d (s\<lparr>sp_input_bytes := n\<rparr>) = script_inv cfg d s"
  "script_inv cfg d (s\<lparr>sp_input_lines := n\<rparr>) = script_inv cfg d s"
  "script_inv cfg d (s\<lparr>sp_lost_events := n\<rparr>) = script_inv cfg d s"
  by (simp_all add: script_inv_defs)

lemma script_inv_malformed: "script_inv cfg 1 s \<Longrightarrow> script_inv cfg 0 (malformed_payload cfg code s)"
  using script_inv_count(1) [of cfg 1 s] by (simp add: malformed_payload_def)

lemma script_inv_clear:
  "script_inv cfg d s \<Longrightarrow> script_inv cfg d (s\<lparr>sp_audited_contentions := []\<rparr>)"
  by (simp add: script_inv_defs)

lemma script_inv_discard:
  assumes "script_inv cfg d s"
  shows "script_inv cfg d (discard_provisional_wakers cfg code m s)"
proof -
  have "script_inv cfg d (s\<lparr>sp_unsupported := sp_unsupported s + dict_sum fst (sp_provisional_wakers s),
      sp_provisional_wakers := []\<rparr>)"
    using assms by (simp add: script_inv_defs wakers_ok_def)
  then show ?thesis using assms by (simp add: discard_provisional_wakers_def Let_def)
qed


section \<open>Emitting an event\<close>

lemma open_wait_append:
  "open_wait key evs \<Longrightarrow> \<not> lock_record Lock_WAIT_ENDED key e \<Longrightarrow> open_wait key (evs @ [e])"
  unfolding open_wait_def by (elim exE conjE) (rule exI, rule exI, rule exI [of _ "_ @ [e]"], auto)

lemma open_wait_new: "lock_record Lock_WAIT key e \<Longrightarrow> open_wait key (evs @ [e])"
  unfolding open_wait_def by (intro exI [of _ evs] exI [of _ e] exI [of _ "[]"]) simp

lemma acquisitions_justified_snoc:
  assumes "acquisitions_justified evs" and "\<And>key. acquired_end key e \<Longrightarrow> open_wait key evs"
  shows "acquisitions_justified (evs @ [e])"
  unfolding acquisitions_justified_def
proof (intro allI impI)
  fix pre x post key
  assume split: "evs @ [e] = pre @ x # post" and x: "acquired_end key x"
  show "open_wait key pre"
  proof (cases post rule: rev_cases)
    case Nil
    with split x assms(2) show ?thesis by simp
  next
    case (snoc rest y)
    then have "evs = pre @ x # rest" using split by simp
    with x assms(1) show ?thesis unfolding acquisitions_justified_def by blast
  qed
qed

text \<open>The state in which a converter runs: the header passed the order check.\<close>

definition converting :: "script_config \<Rightarrow> trace_header \<Rightarrow> script_state \<Rightarrow> bool" where
  "converting cfg h s \<longleftrightarrow>
     script_inv cfg 1 s \<and> sp_last_timestamp_ns s = Some (th_timestamp_ns h) \<and>
     0 \<le> th_timestamp_ns h \<and> 0 \<le> th_cpu h"

definition numbered :: "trace_header \<Rightarrow> script_state \<Rightarrow> trace_event \<Rightarrow> bool" where
  "numbered h s e \<longleftrightarrow> te_sequence (ev_base e) = int (length (sp_events s)) \<and> ev_ts e = th_timestamp_ns h"

lemma script_inv_emit:
  assumes "converting cfg h s" and "event_sound cfg e" and "numbered h s e"
    and "\<And>key flags. map_of a key = Some (Some flags) \<Longrightarrow> open_wait key (sp_events s @ [e])"
    and "\<And>key. acquired_end key e \<Longrightarrow> open_wait key (sp_events s)"
  shows "script_inv cfg 0 (s\<lparr>sp_audited_contentions := a, sp_events := sp_events s @ [e]\<rparr>)"
proof -
  have "acquisitions_justified (sp_events s @ [e])"
    using assms(1,5) by (intro acquisitions_justified_snoc) (auto simp: converting_def script_inv_def)
  moreover have "sorted (map ev_ts (sp_events s @ [e]))"
    using assms(1,3) by (force simp: converting_def script_inv_defs numbered_def sorted_append)
  ultimately show ?thesis
    using assms by (auto simp: converting_def script_inv_defs numbered_def)
qed

lemma script_inv_emit_plain:
  assumes "converting cfg h s" and "event_sound cfg e" and "numbered h s e"
    and "\<And>key. \<not> lock_record Lock_WAIT_ENDED key e"
  shows "script_inv cfg 0 (s\<lparr>sp_events := sp_events s @ [e]\<rparr>)"
proof -
  have "open_wait key (sp_events s @ [e])" if "map_of (sp_audited_contentions s) key = Some (Some flags)" for key flags
    using that assms(1,4) unfolding converting_def script_inv_def contentions_ok_def
    by (intro open_wait_append) blast+
  from script_inv_emit [OF assms(1-3) this, of "sp_audited_contentions s"] assms(4)
  show ?thesis by (simp add: acquired_end_def)
qed

text \<open>What a converter returns, with its event appended.\<close>

definition appended :: "script_state \<times> trace_event option \<Rightarrow> script_state" where
  "appended p = (case snd p of None \<Rightarrow> fst p | Some e \<Rightarrow> (fst p)\<lparr>sp_events := sp_events (fst p) @ [e]\<rparr>)"

definition script_converts :: "script_config \<Rightarrow> conversion \<Rightarrow> bool" where
  "script_converts cfg m \<longleftrightarrow> ensures is_value_error (\<lambda>p. script_inv cfg 0 (appended p)) m"

lemma converts_simps [simp]:
  "script_converts cfg (Inr (s, None)) = script_inv cfg 0 s"
  "script_converts cfg (Inr (s, Some e)) = script_inv cfg 0 (s\<lparr>sp_events := sp_events s @ [e]\<rparr>)"
  "script_converts cfg (Inl err) = is_value_error err"
  by (simp_all add: script_converts_def appended_def)

lemma converts_if: "(b \<Longrightarrow> script_converts cfg m) \<Longrightarrow> (\<not> b \<Longrightarrow> script_converts cfg m') \<Longrightarrow> script_converts cfg (if b then m else m')"
  by simp

lemma converts_option:
  "(x = None \<Longrightarrow> script_converts cfg m) \<Longrightarrow> (\<And>y. x = Some y \<Longrightarrow> script_converts cfg (f y)) \<Longrightarrow>
     script_converts cfg (case x of None \<Rightarrow> m | Some y \<Rightarrow> f y)"
  by (simp split: option.split)

lemma converts_emit:
  assumes "converting cfg h s" and "event_sound cfg e" and "numbered h s e"
    and "\<And>key. \<not> lock_record Lock_WAIT_ENDED key e"
  shows "script_converts cfg (Inr (s, Some e))"
  using script_inv_emit_plain [OF assms] by simp

lemma converts_decimal:
  "(decimal_int ds = Inr (digits_int ds) \<Longrightarrow> script_converts cfg (f (digits_int ds))) \<Longrightarrow> script_converts cfg (bindE (decimal_int ds) f)"
  by (simp add: decimal_int_def)

lemmas convert_rules = converts_if converts_option converts_decimal

lemma converting_diagnose [simp]: "converting cfg h s \<Longrightarrow> converting cfg h (script_diagnose cfg code m s)"
  by (simp add: converting_def)

lemma converting_observe [simp]: "converting cfg h (s\<lparr>sp_observed_tids := t\<rparr>) = converting cfg h s"
  by (simp add: converting_def)

lemma converting_inv: "converting cfg h s \<Longrightarrow> script_inv cfg 1 s"
  by (simp add: converting_def)

lemmas counted_once = script_inv_count [where d = 1, simplified]


section \<open>Converters\<close>

lemma clean_script_id:
  assumes "script_event_id h kind s = Inr t"
  shows "clean_text 30 t"
proof -
  from assms obtain m where t: "t = ''event-'' @ take 24 (sha256_hexdigest m)" by (auto simp: script_event_id_def)
  have d: "hex_text 24 (take 24 (sha256_hexdigest m))" by (rule hex_text_take [OF hex_text_sha256]) simp
  have "set ''event-'' \<inter> set forbidden_controls = {}" by code_simp
  with d hex_not_control show ?thesis unfolding clean_text_def t hex_text_def by fastforce
qed

lemma clean_lock_id: "clean_text 25 (script_lock_id cfg address)"
proof -
  obtain m where t: "script_lock_id cfg address = ''lock-'' @ take 20 (sha256_hexdigest m)"
    by (simp add: script_lock_id_def hmac_sha256_def Let_def)
  have d: "hex_text 20 (take 20 (sha256_hexdigest m))" by (rule hex_text_take [OF hex_text_sha256]) simp
  have "set ''lock-'' \<inter> set forbidden_controls = {}" by code_simp
  with d hex_not_control show ?thesis unfolding clean_text_def t hex_text_def by fastforce
qed

lemma script_event_id_Inl: "script_event_id h kind s = Inl e \<Longrightarrow> is_value_error e"
  by (auto simp: script_event_id_def bindE_Inl_iff decimal_text_def Let_def split: if_splits)

lemma script_base_Inr:
  assumes "script_base cfg h kind sem s = Inr b" and "converting cfg h s"
  shows "base_ok cfg b" and "te_semantics b = sem" and "te_sequence b = int (length (sp_events s))"
    and "te_timestamp_ns b = th_timestamp_ns h"
  using assms by (auto simp: script_base_def base_ok_def converting_def clean_script_id)

text \<open>An event built on the base is numbered, and may be emitted when it is sound.\<close>

lemma converts_base:
  assumes "converting cfg h s"
    and "\<And>b. base_ok cfg b \<Longrightarrow> te_semantics b = sem \<Longrightarrow> te_sequence b = int (length (sp_events s)) \<Longrightarrow>
      te_timestamp_ns b = th_timestamp_ns h \<Longrightarrow> script_converts cfg (f b)"
  shows "script_converts cfg (bindE (script_base cfg h kind sem s) f)"
proof (cases "script_base cfg h kind sem s")
  case (Inl e)
  then have "is_value_error e" by (auto simp: script_base_def bindE_Inl_iff dest: script_event_id_Inl)
  with Inl show ?thesis by simp
next
  case (Inr b)
  with assms script_base_Inr [OF Inr] show ?thesis by simp
qed

lemma scoped_payload_private: "private_task cfg (scoped_payload_task cfg tid)"
  by (simp add: scoped_payload_task_def private_target private_redacted)

lemma scoped_header_private: "private_task cfg (scoped_header_task cfg h)"
  by (simp add: scoped_header_task_def private_target private_redacted)

lemma observe_target_task_simps [simp]:
  "sp_events (observe_target_task p s) = sp_events s"
  "converting cfg h (observe_target_task p s) = converting cfg h s"
  by (auto simp: observe_target_task_def split: trace_scope.split option.split)

lemma normalize_sched_state_cases:
  assumes "normalize_sched_state cfg raw s = (state, s1)" and "converting cfg h s"
  shows "converting cfg h s1" and "clean_text 30 state"
proof -
  have "\<forall>state \<in> insert ''unknown'' (snd ` set sched_states). clean_text 30 state" by code_simp
  then show "clean_text 30 state"
    using assms(1) map_of_in_values
    by (fastforce simp: normalize_sched_state_def split: option.splits)
  show "converting cfg h s1"
    using assms by (auto simp: normalize_sched_state_def split: option.splits)
qed

lemma sched_switch_converts:
  assumes "converting cfg h s"
  shows "script_converts cfg (convert_sched_switch cfg h s)"
proof -
  note inv = converting_inv [OF assms]
  have emit: "script_converts cfg (let (state, s1) = normalize_sched_state cfg raw s in
      bindE (script_base cfg h ''sched-switch'' Sem_EXACT s1) (\<lambda>b.
      Inr (observe_target_task n (observe_target_task p s1),
        Some (SchedSwitch (trace_event_base.extend b
          (sched_switch_event.fields (fst p) (snd p) (fst n) (snd n) state))))))"
    if "private_task cfg p" "private_task cfg n" "snd p \<noteq> Scope_FOREIGN \<or> snd n \<noteq> Scope_FOREIGN" for p n raw
  proof -
    obtain state s1 where st: "normalize_sched_state cfg raw s = (state, s1)" by fastforce
    note st' = normalize_sched_state_cases [OF st assms]
    have "snd p = Scope_TARGET \<or> snd n = Scope_TARGET"
      using that by (auto simp: private_task_def)
    then show ?thesis
      unfolding st Let_def prod.case using that st'
      by (intro converts_base converts_emit [where h = h] switch_sound)
        (simp_all add: numbered_def lock_record_def)
  qed
  show ?thesis
    unfolding convert_sched_switch_def Let_def
    using script_inv_malformed [OF inv] counted_once(5) [OF inv] scoped_payload_private
    by (intro convert_rules emit [unfolded Let_def]) auto
qed


lemma waking_inv:
  assumes "converting cfg h s" and "private_task cfg p"
  shows "script_inv cfg 0 (s\<lparr>sp_provisional_wakers := dict_set tid
    (case map_of (sp_provisional_wakers s) tid of None \<Rightarrow> (1, p) | Some (n, first) \<Rightarrow> (n + 1, first))
    (sp_provisional_wakers s)\<rparr>)"
  using assms
  by (auto simp: converting_def script_inv_defs wakers_ok_def dict_simps dict_sum_set split: option.splits) force

text \<open>A wakeup takes the pending wakers of its thread and names a waker when there was exactly one.\<close>

lemma woken_inv:
  assumes "converting cfg h s"
  shows "map_of (sp_provisional_wakers s) tid = None \<Longrightarrow>
      converting cfg h (s\<lparr>sp_provisional_wakers := dict_pop tid (sp_provisional_wakers s)\<rparr>)"
    and "map_of (sp_provisional_wakers s) tid = Some (n, p) \<Longrightarrow> private_task cfg p"
    and "map_of (sp_provisional_wakers s) tid = Some (1, p) \<Longrightarrow>
      converting cfg h (s\<lparr>sp_provisional_wakers := dict_pop tid (sp_provisional_wakers s),
        sp_provisional := sp_provisional s + 1\<rparr>)"
    and "map_of (sp_provisional_wakers s) tid = Some (n, p) \<Longrightarrow>
      converting cfg h (s\<lparr>sp_provisional_wakers := dict_pop tid (sp_provisional_wakers s),
        sp_unsupported := sp_unsupported s + n\<rparr>)"
  using assms by (cases p; auto simp: converting_def script_inv_defs wakers_ok_def dict_simps dict_sum_pop)+

lemma woken_converts:
  assumes "converting cfg h s" and "tid \<in> set (ad_target_tids cfg)" and "private_relation cfg waker"
  shows "script_converts cfg (bindE (script_base cfg h kind Sem_EXACT s) (\<lambda>b.
    Inr (s, Some (SchedWakeup (trace_event_base.extend b
      (sched_wakeup_event.fields (target_task cfg tid) Scope_TARGET source (fst waker) (snd waker)))))))"
  using assms
  by (intro converts_base converts_emit [where h = h] wakeup_sound) (simp_all add: numbered_def lock_record_def)

lemma sched_wakeup_converts:
  assumes "converting cfg h s"
  shows "script_converts cfg (convert_sched_wakeup cfg h s)"
proof -
  note inv = converting_inv [OF assms]
  let ?seen = "\<lambda>tid. s\<lparr>sp_observed_tids := insert tid (sp_observed_tids s)\<rparr>"
  have seen: "converting cfg h (?seen tid)" for tid using assms by simp
  have woken: "script_converts cfg
      (let s2 = (?seen tid)\<lparr>sp_provisional_wakers := dict_pop tid (sp_provisional_wakers (?seen tid))\<rparr>;
           (s3, waker) = (case map_of (sp_provisional_wakers (?seen tid)) tid of
               None \<Rightarrow> (s2, (None, None))
             | Some (n, task, scope) \<Rightarrow>
                 if n = 1
                 then (s2\<lparr>sp_provisional := sp_provisional s2 + 1\<rparr>, (Some task, Some scope))
                 else (script_diagnose cfg ''AMBIGUOUS_PROVISIONAL_WAKER''
                         ''Multiple sched_waking records prevented exact waker enrichment''
                         (s2\<lparr>sp_unsupported := sp_unsupported s2 + n\<rparr>), (None, None)))
       in bindE (script_base cfg h ''sched-wakeup'' Sem_EXACT s3) (\<lambda>b.
          Inr (s3, Some (SchedWakeup (trace_event_base.extend b
            (sched_wakeup_event.fields (target_task cfg tid) Scope_TARGET source (fst waker) (snd waker)))))))"
    if "tid \<in> set (ad_target_tids cfg)" for tid source
    using that woken_inv [OF seen, of tid]
      woken_converts [OF _ that, where waker = "(None, None)"]
      woken_converts [OF _ that, where waker = "(Some task, Some scope)" for task scope]
    by (auto simp: Let_def private_relation_def split: option.split)
  show ?thesis
    unfolding convert_sched_wakeup_def Let_def
    using script_inv_malformed [OF inv] counted_once(5) [OF inv] waking_inv [OF seen scoped_header_private [of cfg h]]
    by (intro convert_rules woken [unfolded Let_def]) auto
qed

lemma sched_migrate_converts:
  assumes "converting cfg h s"
  shows "script_converts cfg (convert_sched_migrate cfg h s)"
proof -
  note inv = converting_inv [OF assms]
  have cpus: "0 \<le> digits_int (group_of c name)"
    if "fullmatch sched_migrate_re (th_payload h) = Some c" "name \<in> {''origin'', ''destination''}" for c name
    by (rule digits_int_nonneg, rule group_chars [OF that(1)])
      (use that(2) in \<open>auto simp: sched_migrate_re_def\<close>)
  show ?thesis
    unfolding convert_sched_migrate_def Let_def
    using script_inv_malformed [OF inv] counted_once(5) [OF inv] assms cpus
    by (intro convert_rules converts_base converts_emit [where h = h] migrate_sound)
      (auto simp: numbered_def lock_record_def)
qed


text \<open>A lock event of an observed thread, with the contentions \<open>a\<close> after it.\<close>

lemma lock_event_converts:
  assumes "converting cfg h s" and "tid \<in> set (ad_target_tids cfg)" and "clean_text 25 lock"
    and "(action = Lock_WAIT_ENDED) = (outcome \<noteq> None)"
    and "\<And>key flags. map_of a key = Some (Some flags) \<Longrightarrow>
      key = (tid, lock) \<and> action = Lock_WAIT \<or>
      map_of (sp_audited_contentions s) key = Some (Some flags) \<and> (key \<noteq> (tid, lock) \<or> action \<noteq> Lock_WAIT_ENDED)"
    and "outcome = Some Outcome_ACQUIRED \<Longrightarrow> \<exists>flags. map_of (sp_audited_contentions s) (tid, lock) = Some (Some flags)"
  shows "script_converts cfg (script_lock_event cfg h (target_task cfg tid) action lock outcome
    (s\<lparr>sp_audited_contentions := a\<rparr>))"
proof -
  have contended: "open_wait key (sp_events s)" if "map_of (sp_audited_contentions s) key = Some (Some flags)" for key flags
    using assms(1) that unfolding converting_def script_inv_def contentions_ok_def by blast
  have "script_converts cfg (Inr (s\<lparr>sp_audited_contentions := a\<rparr>, Some (Lock e)))"
    if b: "base_ok cfg b" "te_semantics b = Sem_EXACT" "te_sequence b = int (length (sp_events s))"
      "te_timestamp_ns b = th_timestamp_ns h"
      and e: "e = trace_event_base.extend b (lock_event.fields (target_task cfg tid) Scope_TARGET action lock outcome None None)"
    for b e
  proof -
    have rec: "lock_record act key (Lock e) \<longleftrightarrow> act = action \<and> key = (tid, lock)" for act key
      by (cases key) (auto simp: lock_record_def e target_task_def)
    have "open_wait key (sp_events s @ [Lock e])" if "map_of a key = Some (Some flags)" for key flags
      using assms(5) [OF that] open_wait_new [of key "Lock e"] open_wait_append [OF contended, of key _ "Lock e"]
      unfolding rec by blast
    moreover have "open_wait key (sp_events s)" if "acquired_end key (Lock e)" for key
      using that contended assms(6) unfolding acquired_end_def rec by (auto simp: e)
    moreover have "event_sound cfg (Lock e)" unfolding e by (rule lock_sound) (use assms b in auto)
    ultimately show ?thesis
      using script_inv_emit [OF assms(1)] b by (simp add: numbered_def e)
  qed
  moreover have "script_base cfg h kind sem (s\<lparr>sp_audited_contentions := a\<rparr>) = script_base cfg h kind sem s" for kind sem
    by (simp add: script_base_def script_event_id_def)
  ultimately show ?thesis
    unfolding script_lock_event_def using converts_base [OF assms(1)] by (metis (no_types, lifting))
qed

lemma contention_begin_converts:
  assumes "converting cfg h s" and "tid \<in> set (ad_target_tids cfg)"
  shows "script_converts cfg (convert_contention_begin cfg h (target_task cfg tid) tid s)"
proof -
  note inv = converting_inv [OF assms(1)]
  have poison: "script_inv cfg 1 (s\<lparr>sp_audited_contentions := dict_set key None (sp_audited_contentions s)\<rparr>)" for key
    using inv by (auto simp: script_inv_defs dict_simps simp del: split_paired_All split: if_splits)
  show ?thesis
    unfolding convert_contention_begin_def Let_def
    using script_inv_malformed [OF inv] counted_once(3,6) [OF inv] counted_once(3) [OF poison]
    by (auto simp: clean_lock_id dict_simps intro!: lock_event_converts assms split: option.split if_splits)
qed

lemma parse_integer_Inl: "parse_integer v = Inl e \<Longrightarrow> is_value_error e"
  by (auto simp: parse_integer_def Let_def bindE_Inl_iff dest: decimal_int_Inl split: if_splits)

lemma converts_integer:
  "(\<And>r. parse_integer v = Inr r \<Longrightarrow> script_converts cfg (f r)) \<Longrightarrow> script_converts cfg (bindE (parse_integer v) f)"
  by (cases "parse_integer v") (simp_all add: parse_integer_Inl)

lemma contention_end_converts:
  assumes "converting cfg h s" and "tid \<in> set (ad_target_tids cfg)"
  shows "script_converts cfg (convert_contention_end cfg h (target_task cfg tid) tid s)"
  unfolding convert_contention_end_def Let_def
  using script_inv_malformed [OF converting_inv [OF assms(1)]]
  by (auto simp: clean_lock_id dict_simps script_wait_outcome_def dict_get_or_def
      intro!: converts_integer lock_event_converts assms split: option.splits if_splits)


lemma legacy_lock_converts:
  assumes "converting cfg h s" and "tid \<in> set (ad_target_tids cfg)"
    and "th_event h \<in> {''lock_contended'', ''lock_acquired'', ''lock_release''}"
  shows "script_converts cfg (convert_legacy_lock cfg h (target_task cfg tid) s)"
proof -
  have "script_converts cfg (script_lock_event cfg h (target_task cfg tid) action (script_lock_id cfg address) None s)"
    if "action \<noteq> Lock_WAIT_ENDED" for action address
    using lock_event_converts [OF assms(1,2) clean_lock_id, where a = "sp_audited_contentions s" and outcome = None] that
    by simp
  then show ?thesis
    unfolding convert_legacy_lock_def Let_def
    using script_inv_malformed [OF converting_inv [OF assms(1)]] assms(3) by (auto split: option.split)
qed

text \<open>The thread of a lock or futex record: foreign, or an observed thread that is recorded.\<close>

lemma scoped_header_cases:
  obtains (foreign) "scoped_header_task cfg h = (external_redacted, Scope_FOREIGN)"
  | (target) tid where "tid \<in> set (ad_target_tids cfg)" "scoped_header_task cfg h = (target_task cfg tid, Scope_TARGET)"
  by (cases "th_pid h = tgt_pid (ad_target cfg) \<and> th_tid h \<in> set (ad_target_tids cfg)")
    (auto simp: scoped_header_task_def)

lemma script_lock_converts:
  assumes "converting cfg h s" and "th_group h = ''lock''" and "(th_group h, th_event h) \<in> set lock_events"
  shows "script_converts cfg (convert_lock cfg h s)"
proof (cases rule: scoped_header_cases [of cfg h])
  case foreign
  then show ?thesis using counted_once(5) [OF converting_inv [OF assms(1)]] by (simp add: convert_lock_def)
next
  case (target tid)
  let ?s = "s\<lparr>sp_observed_tids := insert tid (sp_observed_tids s)\<rparr>"
  have s: "converting cfg h ?s" using assms(1) by simp
  have "th_event h \<in> {''contention_begin'', ''contention_end'', ''lock_acquire'', ''lock_contended'', ''lock_acquired'', ''lock_release''}"
    using assms(2,3) by (auto simp: lock_events_def)
  then show ?thesis
    using contention_begin_converts [OF s target(1)] contention_end_converts [OF s target(1)]
      legacy_lock_converts [OF s target(1)] counted_once(3) [OF converting_inv [OF s]]
    by (auto simp: convert_lock_def target(2) target_task_def [of cfg tid, symmetric] Let_def)
       (auto simp: target_task_def)
qed

lemma script_futex_converts:
  assumes "converting cfg h s"
  shows "script_converts cfg (convert_futex cfg h s)"
proof (cases rule: scoped_header_cases [of cfg h])
  case foreign
  then show ?thesis using counted_once(5) [OF converting_inv [OF assms(1)]] by (simp add: convert_futex_def)
next
  case (target tid)
  let ?s = "s\<lparr>sp_observed_tids := insert tid (sp_observed_tids s)\<rparr>"
  have s: "converting cfg h ?s" using assms(1) by simp
  note inv = converting_inv [OF s]
  have tid: "task_tid (target_task cfg tid) = Some tid" by (simp add: target_task_def)
  have emit: "script_converts cfg (bindE (script_base cfg h kind Sem_CANDIDATE ?s) (\<lambda>b.
      Inr (?s, Some (Futex (trace_event_base.extend b
        (futex_event.fields (target_task cfg tid) Scope_TARGET action (script_lock_id cfg address) operation None))))))"
    for kind action address operation
    by (intro converts_base converts_emit [where h = h] futex_sound s target(1) clean_lock_id)
      (simp_all add: numbered_def lock_record_def)
  show ?thesis
    unfolding convert_futex_def target(2) prod.case tid option.case Let_def
    using script_inv_malformed [OF inv] counted_once(3) [OF inv] emit
    by (auto intro!: converts_integer split: option.split)
qed

lemma convert_converts:
  assumes "converting cfg h s" and "(th_group h, th_event h) \<in> set sched_events \<union> set lock_events"
  shows "script_converts cfg (convert cfg h s)"
  using assms script_lock_converts [OF assms(1)]
  by (auto simp: convert_def convert_sched_def sched_switch_converts sched_wakeup_converts
      sched_migrate_converts script_futex_converts sched_events_def)

end
