(* ===== verification/TraceScriptNumbers.thy ===== *)
theory TraceScriptNumbers
  imports TraceScriptProofs
begin

text \<open>
  The only exceptions between the first line and the final validation, other than the resource
  limits, come from integers with more than 4300 digits: a line that is not longer than that is always
  consumed.
\<close>

definition returns :: "'a result \<Rightarrow> bool" where
  "returns m \<longleftrightarrow> (\<exists>x. m = Inr x)"

lemma returns_simps [simp]: "returns (Inr x)" "\<not> returns (Inl e)"
  by (simp_all add: returns_def)

lemma returns_bind: "returns m \<Longrightarrow> (\<And>x. m = Inr x \<Longrightarrow> returns (f x)) \<Longrightarrow> returns (bindE m f)"
  by (cases m) simp_all

lemma returns_if: "(b \<Longrightarrow> returns m) \<Longrightarrow> (\<not> b \<Longrightarrow> returns m') \<Longrightarrow> returns (if b then m else m')"
  by simp

lemma returns_option:
  "(x = None \<Longrightarrow> returns m) \<Longrightarrow> (\<And>y. x = Some y \<Longrightarrow> returns (f y)) \<Longrightarrow> returns (case x of None \<Rightarrow> m | Some y \<Rightarrow> f y)"
  by (simp split: option.split)

lemma returns_prod: "(\<And>x y. p = (x, y) \<Longrightarrow> returns (f x y)) \<Longrightarrow> returns (case p of (x, y) \<Rightarrow> f x y)"
  by (cases p) simp

lemmas return_rules = returns_bind returns_if returns_option returns_prod

section \<open>Numbers\<close>

lemma length_str_nat: "n < 10 ^ k \<Longrightarrow> 0 < k \<Longrightarrow> length (str_nat n) \<le> k"
proof (induction n arbitrary: k rule: str_nat.induct)
  case (1 n)
  show ?case
  proof (cases "n < 10")
    case True
    then show ?thesis using "1.prems" by (simp add: str_nat.simps [of n])
  next
    case False
    then obtain j where k: "k = Suc j" "0 < j"
      using "1.prems" by (cases k; cases "k - 1") auto
    then have "n div 10 < 10 ^ j" using "1.prems" by (simp add: less_mult_imp_div_less mult.commute)
    then show ?thesis using "1.IH" [OF False, of j] False k by (simp add: str_nat.simps [of n])
  qed
qed

lemma digits_int_less:
  assumes "list_all digit_byte ds"
  shows "digits_int ds < 10 ^ length ds"
proof -
  have "foldl (\<lambda>n d. 10 * n + (d - 48)) n ds < (n + 1) * 10 ^ length ds" for n :: int
    using assms
  proof (induction ds arbitrary: n)
    case (Cons d ds)
    have "foldl (\<lambda>n d. 10 * n + (d - 48)) (10 * n + (d - 48)) ds < (10 * n + (d - 48) + 1) * 10 ^ length ds"
      by (rule Cons.IH) (use Cons.prems in simp)
    also have "\<dots> \<le> (10 * n + 10) * 10 ^ length ds"
      using Cons.prems by (intro mult_right_mono) (simp_all add: digit_byte_def)
    finally show ?case by (simp add: algebra_simps)
  qed simp
  from this [of 0] show ?thesis by (simp add: digits_int_def)
qed

lemma decimal_text_returns:
  assumes "0 \<le> i" and "i < 10 ^ k" and "k \<le> 4300"
  shows "returns (decimal_text i)"
proof -
  have "nat i < 10 ^ k" using assms(1,2) by (simp add: nat_less_iff)
  also have "(10 :: nat) ^ k \<le> 10 ^ Suc (k - 1)" by (rule power_increasing) simp_all
  finally have "length (str_nat (nat i)) \<le> Suc (k - 1)" by (rule length_str_nat) simp
  then show ?thesis
    using assms(1,3) by (simp add: decimal_text_def str_int_def Let_def)
qed

lemma decimal_int_returns: "length ds \<le> 4300 \<Longrightarrow> returns (decimal_int ds)"
  by (simp add: decimal_int_def)

section \<open>Headers of a short line\<close>

definition short_header :: "trace_header \<Rightarrow> bool" where
  "short_header h \<longleftrightarrow>
     length (th_payload h) \<le> 4300 \<and> returns (decimal_text (th_timestamp_ns h)) \<and> returns (decimal_text (th_cpu h))"


lemma header_lengths:
  assumes "fullmatch header_slash line = Some c \<or> fullmatch header_split line = Some c"
  shows "length (group_of c ''seconds'') + 9 \<le> length line" and "length (group_of c ''fraction'') = 9"
    and "length (group_of c ''cpu'') \<le> length line" and "length (group_of c ''payload'') \<le> length line"
proof -
  have "derives header_slash line c \<or> derives header_split line c"
    using assms by (auto dest: fullmatch_derives)
  then have "length (group_of c ''seconds'') + 9 \<le> length line \<and> length (group_of c ''fraction'') = 9"
    by (auto simp: header_slash_def header_split_def header_tail_def group_of_def dict_get_or_def)
  then show "length (group_of c ''seconds'') + 9 \<le> length line" "length (group_of c ''fraction'') = 9" by auto
  show "length (group_of c ''cpu'') \<le> length line" "length (group_of c ''payload'') \<le> length line"
    using assms by (auto dest: group_length)
qed

lemma parse_header_short:
  assumes "length line \<le> 4300"
  shows "returns (parse_header line)" and "parse_header line = Inr (Some h) \<Longrightarrow> short_header h"
proof -
  let ?m = "case fullmatch header_slash line of None \<Rightarrow> fullmatch header_split line | Some c \<Rightarrow> Some c"
  have group: "length (group_of c name) \<le> 4300" if "?m = Some c" for c name
    using that assms by (fastforce dest: group_length split: option.splits intro: order_trans)
  show "returns (parse_header line)"
    unfolding parse_header_def by (intro return_rules decimal_int_returns group) simp_all
  assume h: "parse_header line = Inr (Some h)"
  then obtain c where m: "?m = Some c"
    and nums: "th_timestamp_ns h = digits_int (group_of c ''seconds'') * 1000000000 + digits_int (group_of c ''fraction'')"
      "th_cpu h = digits_int (group_of c ''cpu'')" "th_payload h = group_of c ''payload''"
    unfolding parse_header_def by (cases ?m) (auto dest!: decimal_int_Inr)
  from m have c: "fullmatch header_slash line = Some c \<or> fullmatch header_split line = Some c"
    by (auto split: option.splits)
  note ds = header_groups [OF c]
  note len = header_lengths [OF c]
  let ?sec = "digits_int (group_of c ''seconds'')" and ?frac = "digits_int (group_of c ''fraction'')"
  have "?frac < 10 ^ 9" using digits_int_less [OF ds, of "''fraction''"] len(2) by simp
  moreover have "?sec + 1 \<le> 10 ^ length (group_of c ''seconds'')"
    using digits_int_less [OF ds, of "''seconds''"] by simp
  then have "(?sec + 1) * 10 ^ 9 \<le> 10 ^ length (group_of c ''seconds'') * 10 ^ 9" by (rule mult_right_mono) simp
  ultimately have "th_timestamp_ns h < 10 ^ (length (group_of c ''seconds'') + 9)"
    by (simp add: nums power_add)
  moreover have "th_cpu h < 10 ^ length (group_of c ''cpu'')"
    using digits_int_less [OF ds, of "''cpu''"] by (simp add: nums)
  ultimately show "short_header h"
    using parse_header_Inr [OF h] len assms by (auto simp: short_header_def nums(3) intro!: decimal_text_returns)
qed


section \<open>Converters on short headers\<close>

lemma script_base_returns: "short_header h \<Longrightarrow> returns (script_base cfg h kind sem s)"
  unfolding script_base_def script_event_id_def short_header_def by (intro return_rules) simp_all

lemma lock_event_returns: "short_header h \<Longrightarrow> returns (script_lock_event cfg h task action lock outcome s)"
  unfolding script_lock_event_def by (intro return_rules script_base_returns) simp_all

lemma parse_integer_returns: "length v \<le> 4300 \<Longrightarrow> returns (parse_integer v)"
  unfolding parse_integer_def Let_def by (intro return_rules decimal_int_returns) simp_all

lemma payload_group:
  "short_header h \<Longrightarrow> fullmatch r (th_payload h) = Some c \<Longrightarrow> length (group_of c name) \<le> 4300"
  using group_length [of r "th_payload h" c name] by (simp add: short_header_def)

lemma scan_fields_length:
  "scan_fields b skipped s = (ms, tail_text) \<Longrightarrow> (k, c) \<in> set ms \<Longrightarrow> length (group_of c name) \<le> length s"
proof (induction b skipped s arbitrary: ms tail_text rule: scan_fields.induct)
  case (1 at_start skipped s)
  show ?case
  proof (cases "match_prefix (field_re at_start) s")
    case None
    show ?thesis
    proof (cases s)
      case Nil
      with None 1(3,4) show ?thesis by (simp add: scan_fields.simps [of at_start])
    next
      case (Cons x xs)
      then have "scan_fields False (skipped @ [x]) xs = (ms, tail_text)"
        using None 1(3) by (simp add: scan_fields.simps [of at_start])
      from 1(1) [OF None Cons this 1(4)] Cons show ?thesis by simp
    qed
  next
    case (Some p)
    obtain d rest where p: "p = (d, rest)" by (cases p)
    have d: "length (group_of d name) \<le> length s"
      using match_prefix_derives [OF Some [unfolded p]] derives_capture_length
      by (cases rule: group_of_cases [of d name]) fastforce+
    show ?thesis
    proof (cases "length rest < length s")
      case True
      obtain ms' tl' where rec: "scan_fields False [] rest = (ms', tl')" by fastforce
      then have "ms = (skipped, d) # ms'" using True Some p 1(3) by (simp add: scan_fields.simps [of at_start])
      then show ?thesis
        using d 1(2) [OF Some p [symmetric] True rec] 1(4) True by auto
    next
      case False
      then show ?thesis using Some p 1(3,4) by (simp add: scan_fields.simps [of at_start])
    qed
  qed
qed

lemma collect_fields_values:
  "collect_fields ms named = Some named' \<Longrightarrow> map_of named' name = Some v \<Longrightarrow>
     map_of named name = Some v \<or> (\<exists>k c. (k, c) \<in> set ms \<and> v = group_of c ''value'')"
proof (induction ms named rule: collect_fields.induct)
  case (2 skipped c ms named)
  then have "map_of (dict_set (map char_of (group_of c ''name'')) (group_of c ''value'') named) name = Some v \<or>
      (\<exists>k d. (k, d) \<in> set ms \<and> v = group_of d ''value'')"
    by (auto simp: Let_def split: if_splits)
  then show ?case by (auto simp: dict_simps split: if_splits)
qed auto

lemma unique_fields_length:
  assumes "unique_fields payload = Some named" and "map_of named name = Some v"
  shows "length v \<le> length payload"
proof -
  obtain ms tl' where scan: "scan_fields True [] payload = (ms, tl')" by fastforce
  then have "collect_fields ms [] = Some named"
    using assms(1) by (simp add: unique_fields_def split: option.splits if_splits)
  from collect_fields_values [OF this assms(2)] scan_fields_length [OF scan] show ?thesis by auto
qed

lemma convert_sched_returns: "short_header h \<Longrightarrow> returns (convert_sched cfg h s)"
  unfolding convert_sched_def convert_sched_switch_def convert_sched_wakeup_def convert_sched_migrate_def Let_def
    if_distrib [of "\<lambda>f. f s"]
  by (intro return_rules decimal_int_returns script_base_returns) (simp_all add: payload_group)


lemma convert_lock_returns:
  assumes "short_header h" and "th_group h = ''lock''" and "(th_group h, th_event h) \<in> set lock_events"
  shows "returns (convert_lock cfg h s)"
proof -
  have "th_event h \<in> {''contention_begin'', ''contention_end'', ''lock_acquire'', ''lock_contended'', ''lock_acquired'', ''lock_release''}"
    using assms(2,3) by (auto simp: lock_events_def)
  moreover have "returns (convert_contention_begin cfg h task tid t)" for task tid t
    unfolding convert_contention_begin_def Let_def using lock_event_returns [OF assms(1)]
    by (auto split: option.split)
  moreover have "returns (convert_contention_end cfg h task tid t)" for task tid t
    unfolding convert_contention_end_def Let_def
    by (intro return_rules parse_integer_returns payload_group [OF assms(1)] lock_event_returns [OF assms(1)]) simp_all
  moreover have "returns (convert_legacy_lock cfg h task t)"
    if "th_event h \<in> {''lock_contended'', ''lock_acquired'', ''lock_release''}" for task t
    unfolding convert_legacy_lock_def Let_def using that lock_event_returns [OF assms(1)]
    by (auto split: option.split)
  ultimately show ?thesis
    by (cases rule: scoped_header_cases [of cfg h]) (auto simp: convert_lock_def target_task_def)
qed

lemma convert_futex_returns:
  assumes "short_header h"
  shows "returns (convert_futex cfg h s)"
proof -
  have "length v \<le> 4300" if "unique_fields (th_payload h) = Some named" "map_of named name = Some v" for named name v
    using unique_fields_length [OF that] assms by (simp add: short_header_def)
  then show ?thesis
    unfolding convert_futex_def Let_def
    by (cases rule: scoped_header_cases [of cfg h])
      (auto simp: target_task_def intro!: returns_bind parse_integer_returns script_base_returns assms split: option.split)
qed

lemma convert_returns:
  assumes "short_header h" and "(th_group h, th_event h) \<in> set sched_events \<union> set lock_events"
  shows "returns (convert cfg h s)"
  using assms convert_lock_returns [OF assms(1)]
  by (auto simp: convert_def convert_sched_returns convert_futex_returns sched_events_def)

lemma consume_header_returns:
  assumes "short_header h"
  shows "returns (consume_header cfg h s)"
proof -
  have allowed: "set (if b then sched_events else lock_events) \<subseteq> set sched_events \<union> set lock_events" for b by auto
  show ?thesis
    unfolding consume_header_def Let_def
    by (intro return_rules convert_returns assms) (use allowed in auto)
qed

lemma consume_text_returns:
  assumes "length raw_line \<le> 4300"
  shows "returns (consume_text cfg raw_line s)"
proof -
  have "length (rstrip_bytes p raw_line) \<le> 4300" for p
    using assms length_dropWhile_le [of p "rev raw_line"] by (simp add: rstrip_bytes_def)
  note short = parse_header_short [OF this] this
  show ?thesis
    unfolding consume_text_def Let_def
    by (intro return_rules short consume_header_returns decimal_int_returns)
      (auto intro: short order_trans [OF group_length])
qed

end
