(* ===== verification/TraceScriptParse.thy ===== *)
theory TraceScriptParse
  imports TraceScriptNumbers
begin

text \<open>
  From converters to the whole parse of a \<open>perf script\<close> transcript: every line keeps the
  invariant and accounts for its bytes, and the final step publishes exactly the events.
\<close>

section \<open>What a converter leaves alone\<close>

definition frame :: "script_state \<Rightarrow> trace_event list \<times> int \<times> int \<times> int \<times> int" where
  "frame s = (sp_events s, sp_input_bytes s, sp_input_lines s, sp_input_events s, sp_duplicates s)"

lemma frame_simps [simp]:
  "frame (script_diagnose cfg code m s) = frame s"
  "frame (s\<lparr>sp_observed_tids := t\<rparr>) = frame s"
  "frame (s\<lparr>sp_malformed := n\<rparr>) = frame s"
  "frame (s\<lparr>sp_out_of_order := n\<rparr>) = frame s"
  "frame (s\<lparr>sp_unsupported := n\<rparr>) = frame s"
  "frame (s\<lparr>sp_truncated := n\<rparr>) = frame s"
  "frame (s\<lparr>sp_foreign := n\<rparr>) = frame s"
  "frame (s\<lparr>sp_lost_events := n\<rparr>) = frame s"
  "frame (s\<lparr>sp_provisional := n\<rparr>) = frame s"
  "frame (s\<lparr>sp_lock_phase_enrichment := n\<rparr>) = frame s"
  "frame (s\<lparr>sp_last_timestamp_ns := l\<rparr>) = frame s"
  "frame (s\<lparr>sp_provisional_wakers := w\<rparr>) = frame s"
  "frame (s\<lparr>sp_audited_contentions := a\<rparr>) = frame s"
  "frame (malformed_payload cfg code s) = frame s"
  "frame (discard_provisional_wakers cfg code m s) = frame s"
  by (simp_all add: frame_def malformed_payload_def discard_provisional_wakers_def Let_def)

lemma frame_observe [simp]: "frame (observe_target_task p s) = frame s"
  by (simp add: observe_target_task_def split: trace_scope.split option.split)

lemma frame_normalize: "normalize_sched_state cfg raw s = (state, s1) \<Longrightarrow> frame s1 = frame s"
  by (auto simp: normalize_sched_state_def split: option.splits)

lemma frame_lock_event: "script_lock_event cfg h task action lock outcome s = Inr (s', ev) \<Longrightarrow> frame s' = frame s"
  by (auto simp: script_lock_event_def)

lemma frame_sched:
  "convert_sched cfg h s = Inr (s', ev) \<Longrightarrow> frame s' = frame s"
  unfolding convert_sched_def convert_sched_switch_def convert_sched_wakeup_def convert_sched_migrate_def Let_def
  by (auto dest: frame_normalize split: if_splits option.splits prod.splits)

lemma frame_lock: "convert_lock cfg h s = Inr (s', ev) \<Longrightarrow> frame s' = frame s"
  unfolding convert_lock_def convert_contention_begin_def convert_contention_end_def convert_legacy_lock_def Let_def
  by (auto dest!: frame_lock_event split: if_splits option.splits prod.splits)

lemma frame_futex: "convert_futex cfg h s = Inr (s', ev) \<Longrightarrow> frame s' = frame s"
  unfolding convert_futex_def Let_def
  by (auto split: if_splits option.splits prod.splits)

lemma frame_convert: "convert cfg h s = Inr (s', ev) \<Longrightarrow> frame s' = frame s"
  by (auto simp: convert_def dest: frame_sched frame_lock frame_futex split: if_splits)


section \<open>Lines\<close>

text \<open>The room for events is respected and the counters of input are those of \<open>s\<close>.\<close>

definition stepped :: "script_config \<Rightarrow> script_state \<Rightarrow> script_state \<Rightarrow> bool" where
  "stepped cfg s s' \<longleftrightarrow>
     script_inv cfg 0 s' \<and> sp_input_bytes s' = sp_input_bytes s \<and> sp_input_lines s' = sp_input_lines s \<and>
     (int (length (sp_events s)) \<le> tl_max_events (ad_limits cfg) \<longrightarrow>
      int (length (sp_events s')) \<le> tl_max_events (ad_limits cfg))"

lemma stepped_frame: "script_inv cfg 0 s' \<Longrightarrow> frame s' = frame s \<Longrightarrow> stepped cfg s s'"
  by (simp add: stepped_def frame_def)

lemma stepped_input_events: "stepped cfg (s\<lparr>sp_input_events := n\<rparr>) = stepped cfg s"
  by (simp add: stepped_def fun_eq_iff)

lemma script_inv_last_timestamp:
  assumes "script_inv cfg d s" and "\<not> (case sp_last_timestamp_ns s of None \<Rightarrow> False | Some l \<Rightarrow> t < l)"
  shows "script_inv cfg d (s\<lparr>sp_last_timestamp_ns := Some t\<rparr>)"
  using assms by (fastforce simp: script_inv_defs split: option.splits)

lemma consume_header_steps:
  assumes "script_inv cfg 1 s" and "0 \<le> th_timestamp_ns h" and "0 \<le> th_cpu h"
  shows "ensures is_value_error (stepped cfg s) (consume_header cfg h s)"
proof (cases "case sp_last_timestamp_ns s of None \<Rightarrow> False | Some t \<Rightarrow> th_timestamp_ns h < t")
  case True
  then show ?thesis
    using counted_once(2) [OF assms(1)] by (simp add: consume_header_def stepped_frame)
next
  case False
  let ?s = "s\<lparr>sp_last_timestamp_ns := Some (th_timestamp_ns h)\<rparr>"
  note inv = script_inv_last_timestamp [OF assms(1) False]
  have conv: "converting cfg h ?s" using inv assms(2,3) by (simp add: converting_def)
  have allowed: "set (if b then sched_events else lock_events) \<subseteq> set sched_events \<union> set lock_events" for b by auto
  have "ensures is_value_error (stepped cfg s) (bindE (convert cfg h ?s) (\<lambda>(s2, event).
      case event of None \<Rightarrow> Inr s2 | Some e \<Rightarrow> Inr (s2\<lparr>sp_events := sp_events s2 @ [e]\<rparr>)))"
    if "(th_group h, th_event h) \<in> set sched_events \<union> set lock_events"
      "int (length (sp_events s)) < tl_max_events (ad_limits cfg)"
  proof (cases "convert cfg h ?s")
    case (Inl e)
    then show ?thesis using convert_converts [OF conv that(1)] by simp
  next
    case (Inr p)
    obtain s2 event where p: "p = (s2, event)" by (cases p)
    then have "frame s2 = frame s" "script_inv cfg 0 (appended (s2, event))"
      using frame_convert [of cfg h ?s s2 event] convert_converts [OF conv that(1)] Inr by (simp_all add: script_converts_def)
    then show ?thesis
      using that(2) by (cases event) (simp_all add: Inr p stepped_def frame_def appended_def)
  qed
  then show ?thesis
    using False counted_once(3,4) [OF inv] allowed
    by (auto simp: consume_header_def Let_def stepped_frame)
qed

lemma lost_record_steps:
  assumes "script_inv cfg 0 s"
  shows "stepped cfg s (script_diagnose cfg code m ((discard_provisional_wakers cfg code' m'
    (s\<lparr>sp_lost_events := n\<rparr>))\<lparr>sp_audited_contentions := []\<rparr>))"
  using assms by (intro stepped_frame script_inv_diagnose script_inv_clear script_inv_discard) simp_all

lemma consume_text_steps:
  assumes "script_inv cfg 0 s"
  shows "ensures is_value_error (stepped cfg s) (consume_text cfg raw s)"
proof -
  have next_event: "script_inv cfg 1 (s\<lparr>sp_input_events := sp_input_events s + 1\<rparr>)"
    using script_inv_count(7) [OF assms] by simp
  have blank: "stepped cfg s s" using assms by (simp add: stepped_def)
  have bad: "stepped cfg s (script_diagnose cfg code m
      (s\<lparr>sp_input_events := sp_input_events s + 1, sp_malformed := sp_malformed s + 1\<rparr>))" for code m
    using counted_once(1) [OF next_event] by (simp add: stepped_def)
  have full: "stepped cfg s (script_diagnose cfg code m
      (s\<lparr>sp_input_events := sp_input_events s + 1, sp_truncated := sp_truncated s + 1\<rparr>))" for code m
    using counted_once(4) [OF next_event] by (simp add: stepped_def)
  have event: "ensures is_value_error (stepped cfg s) (consume_header cfg h (s\<lparr>sp_input_events := sp_input_events s + 1\<rparr>))"
    if "parse_header line = Inr (Some h)" for line h
    using consume_header_steps [OF next_event parse_header_Inr [OF that]] by (simp add: stepped_input_events)
  have bind: "ensures is_value_error P (bindE m f)"
    if "\<And>e. m = Inl e \<Longrightarrow> is_value_error e" "\<And>x. m = Inr x \<Longrightarrow> ensures is_value_error P (f x)"
    for P :: "script_state \<Rightarrow> bool" and m :: "'x result" and f
    using that by (cases m) auto
  show ?thesis
    unfolding consume_text_def Let_def
    using blank bad full event lost_record_steps [OF assms]
    by (auto intro!: bind dest: decimal_int_Inl parse_header_Inl split: option.split)
qed


section \<open>The loop\<close>

definition reading :: "script_config \<Rightarrow> script_state \<Rightarrow> bool" where
  "reading cfg s \<longleftrightarrow>
     script_inv cfg 0 s \<and>
     0 \<le> sp_input_bytes s \<and> sp_input_bytes s \<le> tl_max_output_bytes (ad_limits cfg) \<and>
     0 \<le> sp_input_lines s \<and> sp_input_lines s \<le> tl_max_input_lines (ad_limits cfg) \<and>
     int (length (sp_events s)) \<le> tl_max_events (ad_limits cfg)"

text \<open>The exceptions of the loop: a read fails, a limit is exceeded, or a number is too long.\<close>

definition line_raises :: "script_config \<Rightarrow> py_error \<Rightarrow> bool" where
  "line_raises cfg e \<longleftrightarrow>
     e = script_unreadable \<or> (\<exists>m. e = script_limit m) \<or>
     is_value_error e \<and> 4300 < tl_max_line_chars (ad_limits cfg)"

text \<open>\<open>(s', rest)\<close> follows from \<open>s\<close> and the bytes still to be read: none is counted twice or missed.\<close>

definition follows :: "script_config \<Rightarrow> int \<Rightarrow> script_state \<times> bytes \<times> nat \<Rightarrow> bool" where
  "follows cfg n p \<longleftrightarrow> reading cfg (fst p) \<and> sp_input_bytes (fst p) + int (length (fst (snd p))) = n"

lemma bytes_readline_length: "length (bytes_readline limit content) \<le> length content"
  by (simp add: bytes_readline_def)

lemma drain_line_follows:
  assumes "reading cfg s"
  shows "ensures (line_raises cfg) (follows cfg (sp_input_bytes s + int (length content)))
    (drain_line cfg fails limit content reads s)"
  using assms
proof (induction cfg fails limit content reads s rule: drain_line.induct)
  case (1 cfg fails limit content reads s)
  let ?r = "bytes_readline limit content"
  let ?s = "s\<lparr>sp_input_bytes := sp_input_bytes s + int (length ?r)\<rparr>"
  have len: "int (length ?r) + int (length content - length ?r) = int (length content)"
    using bytes_readline_length [of limit content] by simp
  then have sum: "sp_input_bytes ?s + int (length (drop (length ?r) content)) = sp_input_bytes s + int (length content)"
    by simp
  have next_read: "reading cfg ?s" if "\<not> sp_input_bytes ?s > tl_max_output_bytes (ad_limits cfg)"
    using that "1.prems" by (simp add: reading_def)
  have again: "ensures (line_raises cfg) (follows cfg (sp_input_bytes s + int (length content)))
      (drain_line cfg fails limit (drop (length ?r) content) (Suc reads) ?s)"
    if "fails \<noteq> Some reads" "?r \<noteq> []" "\<not> sp_input_bytes ?s > tl_max_output_bytes (ad_limits cfg)" "last ?r \<noteq> 10"
    using 1(1) [OF that(1) refl refl refl that(2-4) next_read [OF that(3)]] unfolding sum .
  have stop: "line_raises cfg script_unreadable" "line_raises cfg (script_limit m)" for m
    by (auto simp: line_raises_def)
  show ?case
    using again next_read stop len "1.prems"
    by (subst drain_line.simps) (auto simp: Let_def follows_def)
qed

lemma consume_line_follows:
  assumes "reading cfg s"
  shows "ensures (line_raises cfg) (follows cfg (sp_input_bytes s + int (length raw_line) + int (length rest)))
    (consume_line cfg fails limit raw_line rest reads s)"
proof (cases "sp_input_lines s + 1 > tl_max_input_lines (ad_limits cfg) \<or>
    sp_input_bytes s + int (length raw_line) > tl_max_output_bytes (ad_limits cfg)")
  case True
  then show ?thesis by (auto simp: consume_line_def Let_def bindE_raise_if line_raises_def)
next
  case False
  let ?s = "s\<lparr>sp_input_lines := sp_input_lines s + 1, sp_input_bytes := sp_input_bytes s + int (length raw_line)\<rparr>"
  have s: "reading cfg ?s" using False assms by (simp add: reading_def)
  then have inv: "script_inv cfg 0 ?s" by (simp add: reading_def)
  show ?thesis
  proof (cases "int (length raw_line) > tl_max_line_chars (ad_limits cfg)")
    case True
    have too_long: "reading cfg (script_diagnose cfg code m
        (t\<lparr>sp_input_events := sp_input_events t + 1, sp_malformed := sp_malformed t + 1\<rparr>))"
      if "reading cfg t" for t code m
      using that counted_once(1) [OF script_inv_count(7) [of cfg 0 t, simplified]] by (auto simp: reading_def)
    have "ensures (line_raises cfg) (follows cfg (sp_input_bytes ?s + int (length rest)))
        (if raw_line \<noteq> [] \<and> last raw_line = 10 then Inr (?s, rest, reads) else drain_line cfg fails limit rest reads ?s)"
      using drain_line_follows [OF s, of rest fails limit reads] s by (simp add: follows_def)
    then have "ensures (line_raises cfg) (follows cfg (sp_input_bytes ?s + int (length rest)))
        (bindE (if raw_line \<noteq> [] \<and> last raw_line = 10 then Inr (?s, rest, reads) else drain_line cfg fails limit rest reads ?s)
          (\<lambda>(s3, rest', reads').
          Inr (script_diagnose cfg ''LINE_TOO_LONG'' ''Trace event line exceeds the fixed byte limit''
               (s3\<lparr>sp_input_events := sp_input_events s3 + 1, sp_malformed := sp_malformed s3 + 1\<rparr>), rest', reads')))"
      by (rule ensures_bind) (auto simp: follows_def too_long)
    moreover have "consume_line cfg fails limit raw_line rest reads s =
        bindE (if raw_line \<noteq> [] \<and> last raw_line = 10 then Inr (?s, rest, reads) else drain_line cfg fails limit rest reads ?s)
          (\<lambda>(s3, rest', reads').
          Inr (script_diagnose cfg ''LINE_TOO_LONG'' ''Trace event line exceeds the fixed byte limit''
               (s3\<lparr>sp_input_events := sp_input_events s3 + 1, sp_malformed := sp_malformed s3 + 1\<rparr>), rest', reads'))"
      using True False by (simp add: consume_line_def Let_def bindE_raise_if)
    moreover have "sp_input_bytes ?s + int (length rest) = sp_input_bytes s + int (length raw_line) + int (length rest)"
      by simp
    ultimately show ?thesis by metis
  next
    case False': False
    have "line_raises cfg e" if "consume_text cfg raw_line ?s = Inl e" for e
    proof -
      have "is_value_error e" using ensures_errorD [OF consume_text_steps [OF inv] that] .
      moreover have "\<not> length raw_line \<le> 4300"
        using consume_text_returns [of raw_line cfg ?s] that by auto
      ultimately show ?thesis using False' by (auto simp: line_raises_def)
    qed
    then show ?thesis
      using False False' consume_text_steps [OF inv, of raw_line] s
      by (cases "consume_text cfg raw_line ?s")
        (auto simp: consume_line_def Let_def bindE_raise_if follows_def reading_def stepped_def)
  qed
qed

lemma script_loop_reads:
  assumes "reading cfg s" and "0 < limit"
  shows "ensures (line_raises cfg) (\<lambda>s'. reading cfg s' \<and> sp_input_bytes s' = sp_input_bytes s + int (length content))
    (script_loop cfg fails limit content reads s)"
  using assms
proof (induction cfg fails limit content reads s rule: script_loop.induct)
  case (1 cfg fails limit content reads s)
  let ?r = "bytes_readline limit content" and ?rest = "drop (length (bytes_readline limit content)) content"
  have len: "int (length ?r) + int (length ?rest) = int (length content)"
    using bytes_readline_length [of limit content] by (simp add: of_nat_diff)
  have empty: "content = []" if "?r = []"
    using that "1.prems"(2) by (auto simp: bytes_readline_def)
  show ?case
  proof (cases "fails = Some reads \<or> ?r = []")
    case True
    then show ?thesis
      using "1.prems" empty by (subst script_loop.simps) (auto simp: Let_def line_raises_def)
  next
    case False
    note line = consume_line_follows [OF "1.prems"(1), of ?r ?rest fails limit "Suc reads"]
    show ?thesis
    proof (cases "consume_line cfg fails limit ?r ?rest (Suc reads) s")
      case (Inl e)
      then show ?thesis using False line by (subst script_loop.simps) (auto simp: Let_def)
    next
      case (Inr p)
      obtain s' rest reads' where p: "p = (s', rest, reads')" by (cases p)
      then have "reading cfg s'" "sp_input_bytes s' + int (length rest) = sp_input_bytes s + int (length content)"
        using line len unfolding Inr by (simp_all add: follows_def)
      with 1(1) [OF _ refl _ Inr p [symmetric] refl] False "1.prems"(2) Inr p show ?thesis
        by (subst script_loop.simps) (auto simp: Let_def)
    qed
  qed
qed


section \<open>The final step\<close>

text \<open>The statistics of a parse, with every event in one column.\<close>

definition script_conserved :: "script_config \<Rightarrow> int \<Rightarrow> trace_stream_parse_result \<Rightarrow> bool" where
  "script_conserved cfg total_bytes r \<longleftrightarrow>
     (let st = pr_statistics r in
      ps_input_bytes st = total_bytes \<and> ps_input_line_count st \<le> tl_max_input_lines (ad_limits cfg) \<and>
      ps_emitted_event_count st = int (length (pr_events r)) \<and>
      int (length (pr_events r)) + ps_malformed_event_count st + ps_duplicate_event_count st +
        ps_out_of_order_event_count st + ps_unsupported_event_count st + ps_truncated_event_count st +
        ps_foreign_event_dropped_count st + ps_provisional_enrichment_event_count st +
        ps_lock_phase_enrichment_event_count st = ps_input_event_count st \<and>
      int (length (ps_diagnostics st)) = min (ps_diagnostic_count st) (tl_max_warnings (ad_limits cfg)))"

lemma discard_simps [simp]:
  "sp_events (discard_provisional_wakers cfg code m s) = sp_events s"
  "sp_input_bytes (discard_provisional_wakers cfg code m s) = sp_input_bytes s"
  "sp_input_lines (discard_provisional_wakers cfg code m s) = sp_input_lines s"
  "sp_input_events (discard_provisional_wakers cfg code m s) = sp_input_events s"
  "dict_sum fst (sp_provisional_wakers (discard_provisional_wakers cfg code m s)) = 0"
  by (simp_all add: discard_provisional_wakers_def Let_def)

text \<open>Past the validation the final step cannot raise: the counters always add up.\<close>

lemma script_finish_eq:
  assumes "reading cfg s"
  shows "\<exists>r. script_finish cfg s =
      bindE (validate_trace_sequence (sp_events s) (Some (ad_target cfg)) (Some (sp_input_lines s))
        (Some (sp_input_bytes s)) (Some (ad_limits cfg))) (\<lambda>_. Inr r) \<and>
    pr_events r = sp_events s \<and> pr_observed_target_tids r = sorted_list_of_set (set (ad_target_tids cfg)) \<and>
    script_conserved cfg (sp_input_bytes s) r"
proof -
  define t where "t = discard_provisional_wakers cfg ''UNMATCHED_PROVISIONAL_WAKER''
    ''sched_waking records without a canonical wakeup were not exported'' s"
  have "script_inv cfg 0 t"
    unfolding t_def using assms by (intro script_inv_discard) (simp add: reading_def)
  moreover have t: "sp_events t = sp_events s" "sp_input_bytes t = sp_input_bytes s" "sp_input_lines t = sp_input_lines s"
    "dict_sum fst (sp_provisional_wakers t) = 0"
    by (simp_all add: t_def)
  ultimately have inv: "sp_input_events t =
      int (length (sp_events t)) + sp_malformed t + sp_duplicates t + sp_out_of_order t + sp_unsupported t +
      sp_truncated t + sp_foreign t + sp_provisional t + sp_lock_phase_enrichment t"
    "int (length (sp_diagnostics t)) = min (sp_diagnostic_count t) (tl_max_warnings (ad_limits cfg))"
    by (simp_all add: script_inv_def accounted_def diagnostics_ok_def)
  then show ?thesis
    unfolding script_finish_def Let_def t_def [symmetric]
    using assms
    by (intro exI conjI)
      (auto simp: parse_statistics_post_init_def bindE_raise_if script_conserved_def reading_def t)
qed


section \<open>The parse\<close>

definition script_adapter_ok :: "script_adapter \<Rightarrow> bool" where
  "script_adapter_ok a \<longleftrightarrow>
     (let cfg = sa_config a in
      script_adapter_init (ad_target cfg) (ad_target_tids cfg) (sa_owner_uid a) (sa_owner_gid a) (sa_input_mode a)
        (ad_mode cfg) (Some (ad_limits cfg)) (sc_lock_identity_key cfg) trace_perf_script_fields ''C''
        trace_perf_script_recipe = Inr a \<and> wf_trace_limits (ad_limits cfg))"

text \<open>A regular file with one name, owner and mode as expected, and not too large.\<close>

definition script_private_file :: "script_adapter \<Rightarrow> trace_file \<Rightarrow> bool" where
  "script_private_file a f \<longleftrightarrow>
     (\<exists>m. tf_open f = Some m \<and> s_isreg (fs_mode m) \<and> fs_nlink m = 1 \<and> fs_uid m = sa_owner_uid a \<and>
        fs_gid m = sa_owner_gid a \<and> s_imode (fs_mode m) = sa_input_mode a \<and>
        fs_size m \<le> tl_max_output_bytes (ad_limits (sa_config a)))"

text \<open>The loop of an adapter over a file.\<close>

definition script_run :: "script_adapter \<Rightarrow> trace_file \<Rightarrow> script_state result" where
  "script_run a f =
     script_loop (sa_config a) (tf_read_fails f) (nat (tl_max_line_chars (ad_limits (sa_config a)) + 1))
       (tf_content f) 0 script_init"

lemma script_adapter_okD:
  assumes "script_adapter_ok a"
  shows "wf_trace_limits (ad_limits (sa_config a))" and "\<forall>tid \<in> set (ad_target_tids (sa_config a)). 1 \<le> tid"
    and "0 < nat (tl_max_line_chars (ad_limits (sa_config a)) + 1)"
    and "sorted_list_of_set (set (ad_target_tids (sa_config a))) = ad_target_tids (sa_config a)"
    and "0 \<le> tl_max_stack_depth (ad_limits (sa_config a))"
  using assms
  by (auto simp: script_adapter_ok_def Let_def script_adapter_init_def wf_trace_limits_def trace_limits_post_init_def not_le)

lemma reading_init: "wf_trace_limits (ad_limits cfg) \<Longrightarrow> reading cfg script_init"
  using script_inv_init [of cfg]
  by (auto simp: reading_def wf_trace_limits_def trace_limits_post_init_def) (simp_all add: script_init_def)

lemma script_run_reads:
  assumes "script_adapter_ok a"
  shows "ensures (line_raises (sa_config a))
    (\<lambda>s. reading (sa_config a) s \<and> sp_input_bytes s = int (length (tf_content f))) (script_run a f)"
  unfolding script_run_def
  using script_loop_reads [OF reading_init script_adapter_okD(3) [OF assms]] script_adapter_okD(1) [OF assms]
  by (simp add: script_init_def)

lemma script_parse_run:
  "script_parse a f =
     (if script_private_file a f then bindE (script_run a f) (script_finish (sa_config a))
      else if (\<exists>m. tf_open f = Some m \<and> s_isreg (fs_mode m) \<and> fs_nlink m = 1 \<and> fs_uid m = sa_owner_uid a \<and>
        fs_gid m = sa_owner_gid a \<and> s_imode (fs_mode m) = sa_input_mode a)
      then Inl (script_limit ''Trace transcript exceeds the configured byte limit'') else Inl script_unsafe)"
  by (auto simp: script_parse_def script_private_file_def script_run_def Let_def bindE_raise_if split: option.splits)

lemma script_parse_Inr:
  assumes "script_adapter_ok a" and "script_parse a f = Inr r"
  obtains s where "script_private_file a f" "script_run a f = Inr s" "reading (sa_config a) s" "pr_events r = sp_events s"
    "pr_observed_target_tids r = ad_target_tids (sa_config a)" "script_conserved (sa_config a) (int (length (tf_content f))) r"
    "sequence_ok (ad_limits (sa_config a)) (Some (ad_target (sa_config a))) (pr_events r)"
    "\<exists>st. validate_trace_sequence (sp_events s) (Some (ad_target (sa_config a))) (Some (sp_input_lines s))
        (Some (sp_input_bytes s)) (Some (ad_limits (sa_config a))) = Inr st"
proof -
  from assms(2) obtain s where priv: "script_private_file a f" and s: "script_run a f = Inr s"
    and fin: "script_finish (sa_config a) s = Inr r"
    unfolding script_parse_run by (auto split: if_splits)
  from ensuresD [OF script_run_reads [OF assms(1)] s]
  have read: "reading (sa_config a) s" "sp_input_bytes s = int (length (tf_content f))" by auto
  from script_finish_eq [OF read(1)] fin obtain st where
    val: "validate_trace_sequence (sp_events s) (Some (ad_target (sa_config a))) (Some (sp_input_lines s))
        (Some (sp_input_bytes s)) (Some (ad_limits (sa_config a))) = Inr st"
    and r: "pr_events r = sp_events s" "pr_observed_target_tids r = ad_target_tids (sa_config a)"
      "script_conserved (sa_config a) (sp_input_bytes s) r"
    using script_adapter_okD(4) [OF assms(1)] by (auto simp: eq_commute [of "Inr r"])
  from val have "sequence_ok (ad_limits (sa_config a)) (Some (ad_target (sa_config a))) (pr_events r)"
    unfolding r(1) by (auto simp: validate_trace_sequence_def Let_def validate_loop_spec [OF script_adapter_okD(1) [OF assms(1)]])
  with that [OF priv s read(1)] r val read(2) show ?thesis by simp
qed

lemma reading_run: "reading cfg s \<Longrightarrow> sound_run cfg (sp_events s) \<and> acquisitions_justified (sp_events s)"
  by (simp add: reading_def script_inv_def events_ok_def)

lemma script_validate:
  assumes "script_adapter_ok a" and "30 \<le> tl_max_line_chars (ad_limits (sa_config a))" and "reading (sa_config a) s"
  shows "(\<exists>st. validate_trace_sequence (sp_events s) (Some (ad_target (sa_config a))) (Some (sp_input_lines s))
        (Some (sp_input_bytes s)) (Some (ad_limits (sa_config a))) = Inr st) \<longleftrightarrow> acceptable (sa_config a) (sp_events s)"
proof (cases "validate_target (ad_target (sa_config a))")
  case (Inl e)
  then show ?thesis by (simp add: validate_trace_sequence_def acceptable_def Let_def)
next
  case (Inr u)
  then have "limits_fit (sa_config a)"
    using script_adapter_okD [OF assms(1)] assms(2) by (simp add: limits_fit_def)
  with validate_sound [OF script_adapter_okD(1) [OF assms(1)]] assms(3) reading_run [OF assms(3)] show ?thesis
    by (simp add: reading_def)
qed

end
