(* ===== verification/TraceScriptRecords.thy ===== *)
theory TraceScriptRecords
  imports TraceScriptParse
begin

text \<open>
  Scheduler records against hostile task names. A record prints the names of the tasks
  between its labels, and a name may contain any of the labels. The converters demand that every label
  they rely on occurs exactly once; then the text splits in only one way, so the thread
  identifiers are the ones the kernel printed.
\<close>

section \<open>Labels\<close>

text \<open>A label ends with a byte that occurs nowhere else in it.\<close>

definition marker :: "bytes \<Rightarrow> bool" where
  "marker label \<longleftrightarrow> label \<noteq> [] \<and> last label \<notin> set (butlast label)"

lemma marker_overlap:
  assumes "marker label" and "us \<noteq> []" and "label @ b = us @ label @ d"
  shows "\<exists>vs. us = label @ vs"
proof (cases "length label \<le> length us")
  case True
  then have "us = label @ drop (length label) us"
    using assms(3) by (metis append_eq_append_conv_if append_take_drop_id)
  then show ?thesis ..
next
  case False
  let ?i = "length label - 1"
  have i: "?i < length label" "\<not> ?i < length us" "?i - length us < ?i"
    using False assms(2) by (auto simp: not_le neq_Nil_conv)
  have "last label = (label @ b) ! ?i"
    using assms(1) by (simp add: marker_def last_conv_nth nth_append)
  also have "\<dots> = label ! (?i - length us)"
    using i unfolding assms(3) by (simp add: nth_append)
  also have "\<dots> = butlast label ! (?i - length us)"
    using i by (simp add: nth_butlast)
  also have "\<dots> \<in> set (butlast label)"
    using i by (intro nth_mem) simp
  finally show ?thesis using assms(1) by (simp add: marker_def)
qed

lemma count_sub_label: "label \<noteq> [] \<Longrightarrow> count_sub label (label @ b) = Suc (count_sub label b)"
  by (cases label) auto

lemma count_sub_split:
  assumes "marker label"
  shows "count_sub label (a @ label @ b) = count_sub label a + Suc (count_sub label b)"
proof (induction a rule: length_induct)
  case (1 a)
  have ne: "label \<noteq> []" using assms by (simp add: marker_def)
  show ?case
  proof (cases a)
    case Nil
    then show ?thesis using count_sub_label [OF ne] by simp
  next
    case (Cons x xs)
    show ?thesis
    proof (cases "\<exists>vs. a = label @ vs")
      case True
      then obtain vs where vs: "a = label @ vs" by blast
      then have "length vs < length a" using ne by simp
      with 1 have "count_sub label (vs @ label @ b) = count_sub label vs + Suc (count_sub label b)" by blast
      then show ?thesis using count_sub_label [OF ne] by (simp add: vs)
    next
      case False
      have whole: "take (length label) (x # xs @ label @ b) \<noteq> label"
      proof
        assume "take (length label) (x # xs @ label @ b) = label"
        then have "label @ drop (length label) (a @ label @ b) = a @ label @ b"
          using Cons by (metis append_Cons append_take_drop_id)
        with marker_overlap [OF assms _ this] Cons False show False by blast
      qed
      moreover have "take (length label) (x # xs) \<noteq> label"
        using False Cons by (metis append_take_drop_id)
      moreover have "count_sub label (xs @ label @ b) = count_sub label xs + Suc (count_sub label b)"
        using 1 Cons by simp
      ultimately show ?thesis using Cons by simp
    qed
  qed
qed

text \<open>A label that occurs once splits the text in one way.\<close>

lemma label_once:
  assumes "marker label" and "count_sub label s = 1" and "s = a @ label @ b" and "s = c @ label @ d"
  shows "a = c \<and> b = d"
proof -
  have no_label: "count_sub label x = 0" if "s = x @ label @ y" for x y
    using count_sub_split [OF assms(1), of x y] assms(2) that by simp
  have same: "us = []" if eq: "label @ y = us @ label @ z" and none: "count_sub label (x @ us) = 0" for x us y z
  proof (rule ccontr)
    assume "us \<noteq> []"
    from marker_overlap [OF assms(1) this eq] obtain vs where "us = label @ vs" by blast
    then show False using none count_sub_split [OF assms(1), of x vs] by simp
  qed
  have "a @ (label @ b) = c @ (label @ d)" using assms(3,4) by simp
  then obtain us where "a = c @ us \<and> us @ label @ b = label @ d \<or> a @ us = c \<and> label @ b = us @ label @ d"
    unfolding append_eq_append_conv2 by blast
  then show ?thesis
  proof
    assume *: "a = c @ us \<and> us @ label @ b = label @ d"
    with same [of d us b c] no_label [OF assms(3)] have "us = []" by simp
    with * show ?thesis by simp
  next
    assume *: "a @ us = c \<and> label @ b = us @ label @ d"
    with same [of b us d a] no_label [OF assms(4)] have "us = []" by simp
    with * show ?thesis by simp
  qed
qed

text \<open>The field between two labels that occur once.\<close>

lemma field_once:
  assumes "marker l" "count_sub l s = 1" and "marker k" "count_sub k s = 1"
    and "s = a @ l @ v @ k @ b" and "s = c @ l @ w @ k @ d"
  shows "v = w"
proof -
  have "v @ k @ b = w @ k @ d"
    using label_once [OF assms(1,2), of a "v @ k @ b" c "w @ k @ d"] assms(5,6) by blast
  moreover have "b = d"
    using label_once [OF assms(3,4), of "a @ l @ v" b "c @ l @ w" d] assms(5,6) unfolding append_assoc by blast
  ultimately show ?thesis by simp
qed

section \<open>Fields\<close>

definition switch_text :: "bytes \<Rightarrow> bytes \<Rightarrow> bytes \<Rightarrow> bytes \<Rightarrow> bytes \<Rightarrow> bytes \<Rightarrow> bytes \<Rightarrow> bytes" where
  "switch_text prev_comm prev_tid prev_prio prev_state next_comm next_tid next_prio =
     bstr ''prev_comm='' @ prev_comm @ bstr '' prev_pid='' @ prev_tid @ bstr '' prev_prio='' @ prev_prio @
     bstr '' prev_state='' @ prev_state @ bstr '' ==> next_comm='' @ next_comm @ bstr '' next_pid='' @ next_tid @
     bstr '' next_prio='' @ next_prio"

text \<open>A name has at most 16 bytes and no line feed.\<close>

definition comm_bytes :: "bytes \<Rightarrow> bool" where
  "comm_bytes c \<longleftrightarrow> list_all any_byte c \<and> length c \<le> 16"

definition number_bytes :: "bytes \<Rightarrow> bool" where
  "number_bytes ds \<longleftrightarrow> list_all digit_byte ds \<and> ds \<noteq> []"

definition state_bytes :: "bytes \<Rightarrow> bool" where
  "state_bytes st \<longleftrightarrow> list_all (\<lambda>b. \<not> space_byte b) st \<and> st \<noteq> []"

definition signed_bytes :: "bytes \<Rightarrow> bool" where
  "signed_bytes ds \<longleftrightarrow> number_bytes ds \<or> (\<exists>n. number_bytes n \<and> ds = bstr ''-'' @ n)"

lemma derives_pieces [simp]:
  "derives comm_re m c \<longleftrightarrow> c = [] \<and> comm_bytes m"
  "derives digits m c \<longleftrightarrow> c = [] \<and> number_bytes m"
  "derives signed_re m c \<longleftrightarrow> c = [] \<and> signed_bytes m"
  "derives (Chars (\<lambda>b. \<not> space_byte b) 1 None) m c \<longleftrightarrow> c = [] \<and> state_bytes m"
  by (auto simp: comm_bytes_def number_bytes_def signed_bytes_def state_bytes_def Suc_le_eq)

text \<open>A sequence of labels and named parts.\<close>

lemma derives_text: "derives (Both (Text t) r) m c \<longleftrightarrow> (\<exists>rest. m = t @ rest \<and> derives r rest c)"
  by auto

lemma derives_named:
  "derives (Both (Group name q) r) m c \<longleftrightarrow>
     (\<exists>v rest c1 c2. m = v @ rest \<and> c = (c1 @ [(name, v)]) @ c2 \<and> derives q v c1 \<and> derives r rest c2)"
  unfolding derives.simps by blast

lemma switch_derives:
  "derives sched_switch_re payload c \<longleftrightarrow>
     (\<exists>pc p pp st nc n np. payload = switch_text pc p pp st nc n np \<and>
        c = [(''prev_comm'', pc), (''prev_tid'', p), (''prev_prio'', pp), (''prev_state'', st), (''next_comm'', nc),
             (''next_tid'', n), (''next_prio'', np)] \<and>
        comm_bytes pc \<and> number_bytes p \<and> signed_bytes pp \<and> state_bytes st \<and> comm_bytes nc \<and> number_bytes n \<and>
        signed_bytes np)"
  unfolding sched_switch_re_def seq.simps derives_text derives_named derives_pieces derives.simps(7) switch_text_def
  by fastforce


abbreviation switch_labels :: "string list" where
  "switch_labels \<equiv> [''prev_pid='', '' prev_prio='', '' prev_state='', '' next_pid='', '' next_prio='']"

text \<open>Where the fields stand.\<close>

definition stands_between :: "string \<Rightarrow> bytes \<Rightarrow> string \<Rightarrow> bytes \<Rightarrow> bool" where
  "stands_between l v k s \<longleftrightarrow> (\<exists>a b. s = a @ bstr l @ v @ bstr k @ b)"

lemma stands_betweenI: "s = a @ bstr l @ v @ bstr k @ b \<Longrightarrow> stands_between l v k s"
  by (auto simp: stands_between_def)

lemma stands_once:
  assumes "marker (bstr l)" "count_sub (bstr l) s = 1" and "marker (bstr k)" "count_sub (bstr k) s = 1"
    and "stands_between l v k s" "stands_between l w k s"
  shows "v = w"
  using assms(5,6) field_once [OF assms(1-4)] unfolding stands_between_def by blast

lemma switch_layout:
  "stands_between ''prev_pid='' p '' prev_prio='' (switch_text pc p pp st nc n np)"
  "stands_between '' prev_state='' st '' ==> next_comm='' (switch_text pc p pp st nc n np)"
  "stands_between '' next_pid='' n '' next_prio='' (switch_text pc p pp st nc n np)"
proof -
  have blank: "bstr '' prev_pid='' = [32] @ bstr ''prev_pid=''" by code_simp
  show "stands_between ''prev_pid='' p '' prev_prio='' (switch_text pc p pp st nc n np)"
    unfolding switch_text_def blank
    by (rule stands_betweenI [where a = "bstr ''prev_comm='' @ pc @ [32]"]) simp
  show "stands_between '' prev_state='' st '' ==> next_comm='' (switch_text pc p pp st nc n np)"
    unfolding switch_text_def
    by (rule stands_betweenI [where a = "bstr ''prev_comm='' @ pc @ bstr '' prev_pid='' @ p @ bstr '' prev_prio='' @ pp"]) simp
  show "stands_between '' next_pid='' n '' next_prio='' (switch_text pc p pp st nc n np)"
    unfolding switch_text_def
    by (rule stands_betweenI [where a = "bstr ''prev_comm='' @ pc @ bstr '' prev_pid='' @ p @ bstr '' prev_prio='' @ pp @
        bstr '' prev_state='' @ st @ bstr '' ==> next_comm='' @ nc" and b = np]) simp
qed

text \<open>A state has no blank, so it ends at the blank of the arrow.\<close>

lemma state_once:
  assumes "marker (bstr l)" "count_sub (bstr l) s = 1" and "state_bytes v" "state_bytes w"
    and "stands_between l v '' ==> next_comm='' s" "stands_between l w '' ==> next_comm='' s"
  shows "v = w"
proof -
  from assms(5,6) obtain a b c d where s: "s = a @ bstr l @ (v @ bstr '' ==> next_comm='' @ b)"
    "s = c @ bstr l @ (w @ bstr '' ==> next_comm='' @ d)"
    unfolding stands_between_def append_assoc by blast
  have stop: "takeWhile (\<lambda>b. \<not> space_byte b) (x @ bstr '' ==> next_comm='' @ y) = x" if "state_bytes x" for x y
    using that by (simp add: state_bytes_def list_all_iff bstr_def space_byte_def)
  from label_once [OF assms(1,2) s] stop [OF assms(3), of b] stop [OF assms(4), of d] show ?thesis by simp
qed

lemma switch_unique:
  assumes once: "\<forall>label \<in> set switch_labels. count_sub (bstr label) s = 1"
    and s: "s = switch_text pc p pp st nc n np" "s = switch_text pc' p' pp' st' nc' n' np'"
    and st: "state_bytes st" "state_bytes st'"
  shows "p = p' \<and> st = st' \<and> n = n'"
proof -
  have "\<forall>label \<in> set switch_labels. marker (bstr label)" by code_simp
  with once have m: "marker (bstr label)" "count_sub (bstr label) s = 1" if "label \<in> set switch_labels" for label
    using that by blast+
  note here = switch_layout [where pc = pc and p = p and pp = pp and st = st and nc = nc and n = n and np = np, folded s(1)]
    and there = switch_layout [where pc = pc' and p = p' and pp = pp' and st = st' and nc = nc' and n = n' and np = np', folded s(2)]
  show ?thesis
    using stands_once [OF m m here(1) there(1)] stands_once [OF m m here(3) there(3)]
      state_once [OF m st here(2) there(2)] by simp
qed

section \<open>Wakeups and migrations\<close>

definition wakeup_text :: "bytes \<Rightarrow> bytes \<Rightarrow> bytes \<Rightarrow> bytes \<Rightarrow> bytes" where
  "wakeup_text comm tid prio target_cpu =
     bstr ''comm='' @ comm @ bstr '' pid='' @ tid @ bstr '' prio='' @ prio @ bstr '' target_cpu='' @ target_cpu"

definition migrate_text :: "bytes \<Rightarrow> bytes \<Rightarrow> bytes \<Rightarrow> bytes \<Rightarrow> bytes \<Rightarrow> bytes" where
  "migrate_text comm tid prio origin destination =
     bstr ''comm='' @ comm @ bstr '' pid='' @ tid @ bstr '' prio='' @ prio @ bstr '' orig_cpu='' @ origin @
     bstr '' dest_cpu='' @ destination"

lemma wakeup_derives:
  "derives sched_wakeup_re payload c \<longleftrightarrow>
     (\<exists>comm tid prio cpu. payload = wakeup_text comm tid prio cpu \<and>
        c = [(''comm'', comm), (''tid'', tid), (''prio'', prio), (''target_cpu'', cpu)] \<and>
        comm_bytes comm \<and> number_bytes tid \<and> signed_bytes prio \<and> number_bytes cpu)"
  unfolding sched_wakeup_re_def seq.simps derives_text derives_named derives_pieces derives.simps(7) wakeup_text_def
  by fastforce

lemma migrate_derives:
  "derives sched_migrate_re payload c \<longleftrightarrow>
     (\<exists>comm tid prio origin destination. payload = migrate_text comm tid prio origin destination \<and>
        c = [(''comm'', comm), (''tid'', tid), (''prio'', prio), (''origin'', origin), (''destination'', destination)] \<and>
        comm_bytes comm \<and> number_bytes tid \<and> signed_bytes prio \<and> number_bytes origin \<and> number_bytes destination)"
  unfolding sched_migrate_re_def seq.simps derives_text derives_named derives_pieces derives.simps(7) migrate_text_def
  by fastforce

abbreviation wakeup_labels :: "string list" where
  "wakeup_labels \<equiv> ['' pid='', '' prio='', '' target_cpu='']"

abbreviation migrate_labels :: "string list" where
  "migrate_labels \<equiv> ['' pid='', '' prio='', '' orig_cpu='', '' dest_cpu='']"

lemma wakeup_unique:
  assumes once: "\<forall>label \<in> set wakeup_labels. count_sub (bstr label) s = 1"
    and s: "s = wakeup_text comm tid prio cpu" "s = wakeup_text comm' tid' prio' cpu'"
  shows "tid = tid'"
proof (rule stands_once)
  show "marker (bstr '' pid='')" "marker (bstr '' prio='')" by code_simp+
  show "stands_between '' pid='' tid '' prio='' s"
    unfolding s(1) wakeup_text_def by (rule stands_betweenI [where a = "bstr ''comm='' @ comm"]) simp
  show "stands_between '' pid='' tid' '' prio='' s"
    unfolding s(2) wakeup_text_def by (rule stands_betweenI [where a = "bstr ''comm='' @ comm'"]) simp
qed (use once in auto)

lemma migrate_layout:
  "stands_between '' pid='' tid '' prio='' (migrate_text comm tid prio origin destination)"
  "stands_between '' orig_cpu='' origin '' dest_cpu='' (migrate_text comm tid prio origin destination)"
  unfolding migrate_text_def
  by (rule stands_betweenI [where a = "bstr ''comm='' @ comm"], simp)
    (rule stands_betweenI [where a = "bstr ''comm='' @ comm @ bstr '' pid='' @ tid @ bstr '' prio='' @ prio"
        and b = destination], simp)

lemma migrate_unique:
  assumes once: "\<forall>label \<in> set migrate_labels. count_sub (bstr label) s = 1"
    and s: "s = migrate_text comm tid prio origin destination" "s = migrate_text comm' tid' prio' origin' destination'"
  shows "tid = tid' \<and> origin = origin' \<and> destination = destination'"
proof -
  have "\<forall>label \<in> set migrate_labels. marker (bstr label)" by code_simp
  with once have m: "marker (bstr label)" "count_sub (bstr label) s = 1" if "label \<in> set migrate_labels" for label
    using that by blast+
  note here = migrate_layout [where comm = comm and tid = tid and prio = prio and origin = origin and destination = destination, folded s(1)]
    and there = migrate_layout [where comm = comm' and tid = tid' and prio = prio' and origin = origin' and destination = destination', folded s(2)]
  let ?a = "\<lambda>comm tid prio origin. bstr ''comm='' @ comm @ bstr '' pid='' @ tid @ bstr '' prio='' @ prio @ bstr '' orig_cpu='' @ origin"
  have d1: "s = ?a comm tid prio origin @ bstr '' dest_cpu='' @ destination"
    by (simp only: s(1) migrate_text_def append_assoc)
  have d2: "s = ?a comm' tid' prio' origin' @ bstr '' dest_cpu='' @ destination'"
    by (simp only: s(2) migrate_text_def append_assoc)
  from label_once [OF m d1 d2] stands_once [OF m m here(1) there(1)] stands_once [OF m m here(2) there(2)]
  show ?thesis by simp
qed

end
