(* ===== verification/TraceScriptProperties.thy ===== *)
theory TraceScriptProperties
  imports TraceScriptRecords TraceSamples
begin

text \<open>
  The properties of the \<open>perf script\<close> parser: no task name can change the thread identifiers of a scheduler
  record, every input event is counted once, what leaves the parser is private,
  ordered and justified, and which exceptions a parse can raise.
\<close>

section \<open>An example transcript\<close>

definition sample_script :: "string \<Rightarrow> script_adapter" where
  "sample_script mode =
     \<lparr>sa_config = \<lparr>ad_target = sample_target, ad_target_tids = [101, 102], ad_mode = mode,
        ad_limits = trace_limits_default, sc_lock_identity_key = replicate 32 7\<rparr>,
      sa_owner_uid = 0, sa_owner_gid = 7, sa_input_mode = 416\<rparr>"

definition begin_line :: bytes where
  "begin_line = bstr ''100/101 [002] 5.000000010: lock:contention_begin: 0xff (flags=MUTEX)'' @ [10]"

definition end_line :: bytes where
  "end_line = bstr ''100/101 [002] 5.000000020: lock:contention_end: 0xff (ret=0)'' @ [10]"

definition script_file :: "bytes \<Rightarrow> trace_file" where
  "script_file content =
     \<lparr>tf_open = Some \<lparr>fs_dev = 8, fs_ino = 77, fs_mode = 33184, fs_nlink = 1, fs_uid = 0, fs_gid = 7,
        fs_size = int (length content), fs_mtime_ns = 5, fs_ctime_ns = 5\<rparr>,
      tf_content = content, tf_read_fails = None\<rparr>"

lemma sample_script_ok: "script_adapter_ok (sample_script ''lock'')" "script_adapter_ok (sample_script ''sched'')"
  using trace_limits_default_wf
  by (simp_all add: script_adapter_ok_def script_adapter_init_def sample_script_def insert_commute)

lemma script_sample_headers:
  "parse_header (butlast begin_line) = Inr (Some \<lparr>th_pid = 100, th_tid = 101, th_cpu = 2, th_timestamp_ns = 5000000010,
     th_group = ''lock'', th_event = ''contention_begin'', th_payload = bstr ''0xff (flags=MUTEX)''\<rparr>)"
  "parse_header (butlast end_line) = Inr (Some \<lparr>th_pid = 100, th_tid = 101, th_cpu = 2, th_timestamp_ns = 5000000020,
     th_group = ''lock'', th_event = ''contention_end'', th_payload = bstr ''0xff (ret=0)''\<rparr>)"
  by code_simp+


section \<open>Scheduler records\<close>

text \<open>With every label once, the groups are the fields that were printed.\<close>

lemma switch_groups:
  assumes "comm_bytes pc" "number_bytes p" "signed_bytes pp" "state_bytes st" "comm_bytes nc" "number_bytes n" "signed_bytes np"
    and "\<forall>label \<in> set switch_labels. count_sub (bstr label) (switch_text pc p pp st nc n np) = 1"
  obtains c where "fullmatch sched_switch_re (switch_text pc p pp st nc n np) = Some c"
    "group_of c ''prev_tid'' = p" "group_of c ''prev_state'' = st" "group_of c ''next_tid'' = n"
proof -
  let ?s = "switch_text pc p pp st nc n np"
  have "\<exists>c. derives sched_switch_re ?s c" unfolding switch_derives using assms(1-7) by blast
  then obtain c where c: "fullmatch sched_switch_re ?s = Some c"
    using fullmatch_None [of sched_switch_re ?s] by (cases "fullmatch sched_switch_re ?s") auto
  from fullmatch_derives [OF c] obtain pc' p' pp' st' nc' n' np' where
    s: "?s = switch_text pc' p' pp' st' nc' n' np'" "state_bytes st'"
    and groups: "c = [(''prev_comm'', pc'), (''prev_tid'', p'), (''prev_prio'', pp'), (''prev_state'', st'),
      (''next_comm'', nc'), (''next_tid'', n'), (''next_prio'', np')]"
    unfolding switch_derives by blast
  have "p = p' \<and> st = st' \<and> n = n'" by (rule switch_unique [OF assms(8) refl s(1) assms(4) s(2)])
  then show ?thesis by (intro that [OF c]) (simp_all add: groups group_of_def dict_get_or_def)
qed

text \<open>
  C20. No task name can forge a scheduler switch. For a record in the layout of the recipe, whatever bytes
  the two task names hold: when a name repeats one of the labels, the record is refused as ambiguous;
  otherwise the tasks of the event are those of the two identifiers the kernel printed, its state is the
  one that was printed, and a switch between two unobserved threads is only counted.
\<close>

theorem sched_switch_unspoofable:
  assumes "comm_bytes pc" "number_bytes p" "signed_bytes pp" "state_bytes st" "comm_bytes nc" "number_bytes n" "signed_bytes np"
    and "th_payload h = switch_text pc p pp st nc n np"
  shows "if \<exists>label \<in> set [''prev_pid='', '' prev_prio='', '' prev_state='', '' next_pid='', '' next_prio=''].
         count_sub (bstr label) (th_payload h) \<noteq> 1
    then convert_sched_switch cfg h s = Inr (malformed_payload cfg ''AMBIGUOUS_SCHED_SWITCH'' s, None)
    else (case convert_sched_switch cfg h s of
        Inl e \<Rightarrow> is_value_error e
      | Inr (s', None) \<Rightarrow>
          digits_int p \<notin> set (ad_target_tids cfg) \<and> digits_int n \<notin> set (ad_target_tids cfg) \<and>
          s' = s\<lparr>sp_foreign := sp_foreign s + 1\<rparr>
      | Inr (s', Some e) \<Rightarrow>
          \<exists>sw. e = SchedSwitch sw \<and>
            (sw_previous sw, sw_previous_scope sw) = scoped_payload_task cfg (digits_int p) \<and>
            (sw_next sw, sw_next_scope sw) = scoped_payload_task cfg (digits_int n) \<and>
            sw_previous_state sw = fst (normalize_sched_state cfg st s))"
proof (cases "\<forall>label \<in> set switch_labels. count_sub (bstr label) (switch_text pc p pp st nc n np) = 1")
  case False
  then show ?thesis using assms(8) by (auto simp: convert_sched_switch_def)
next
  case True
  obtain c where c: "fullmatch sched_switch_re (th_payload h) = Some c"
    "group_of c ''prev_tid'' = p" "group_of c ''prev_state'' = st" "group_of c ''next_tid'' = n"
    unfolding assms(8) by (rule switch_groups [OF assms(1-7) True])
  have none: "\<not> (\<exists>label \<in> set switch_labels. count_sub (bstr label) (th_payload h) \<noteq> 1)"
    using True assms(8) by simp
  have scope: "snd (scoped_payload_task cfg t) = Scope_FOREIGN \<longleftrightarrow> t \<notin> set (ad_target_tids cfg)" for t
    by (simp add: scoped_payload_task_def)
  obtain state s1 where st: "normalize_sched_state cfg st s = (state, s1)" by fastforce
  show ?thesis
    unfolding if_not_P [OF none] convert_sched_switch_def c option.case Let_def scope st prod.case
    by (cases "decimal_int p"; cases "decimal_int n"; cases "script_base cfg h ''sched-switch'' Sem_EXACT s1")
      (auto dest: decimal_int_Inl decimal_int_Inr simp: script_base_def bindE_Inl_iff script_event_id_Inl)
qed

definition switch_header :: "string \<Rightarrow> trace_header" where
  "switch_header comm =
     \<lparr>th_pid = 0, th_tid = 0, th_cpu = 1, th_timestamp_ns = 7, th_group = ''sched'', th_event = ''sched_switch'',
      th_payload = switch_text (bstr comm) (bstr ''101'') (bstr ''120'') (bstr ''S+'') (bstr ''b'') (bstr ''7'') (bstr ''-5'')\<rparr>"

lemma switch_header_fields:
  "number_bytes (bstr ''101'')" "signed_bytes (bstr ''120'')" "state_bytes (bstr ''S+'')" "comm_bytes (bstr ''b'')"
  "number_bytes (bstr ''7'')" "signed_bytes (bstr ''-5'')" "comm_bytes (bstr ''a'')" "comm_bytes (bstr ''a prev_pid=102'')"
proof -
  show "number_bytes (bstr ''101'')" "state_bytes (bstr ''S+'')" "comm_bytes (bstr ''b'')"
    "number_bytes (bstr ''7'')" "comm_bytes (bstr ''a'')" "comm_bytes (bstr ''a prev_pid=102'')" by code_simp+
  have "number_bytes (bstr ''120'')" "number_bytes (bstr ''5'')" "bstr ''-5'' = bstr ''-'' @ bstr ''5''" by code_simp+
  then show "signed_bytes (bstr ''120'')" "signed_bytes (bstr ''-5'')" unfolding signed_bytes_def by blast+
qed

theorem sched_switch_unspoofable_witness:
  "convert_sched_switch (sa_config (sample_script ''sched'')) (switch_header ''a prev_pid=102'') script_init =
     Inr (malformed_payload (sa_config (sample_script ''sched'')) ''AMBIGUOUS_SCHED_SWITCH'' script_init, None) \<and>
   (case convert_sched_switch (sa_config (sample_script ''sched'')) (switch_header ''a'') script_init of
      Inr (s', Some (SchedSwitch sw)) \<Rightarrow> sw_previous sw = sample_task 101 \<and> sw_next sw = external_redacted
    | _ \<Rightarrow> False)"
proof -
  let ?cfg = "sa_config (sample_script ''sched'')"
  have layout: "th_payload (switch_header comm) =
      switch_text (bstr comm) (bstr ''101'') (bstr ''120'') (bstr ''S+'') (bstr ''b'') (bstr ''7'') (bstr ''-5'')" for comm
    by (simp add: switch_header_def)
  have counts: "\<exists>label \<in> set switch_labels. count_sub (bstr label) (th_payload (switch_header ''a prev_pid=102'')) \<noteq> 1"
    "\<not> (\<exists>label \<in> set switch_labels. count_sub (bstr label) (th_payload (switch_header ''a'')) \<noteq> 1)"
    "digits_int (bstr ''101'') = 101" "digits_int (bstr ''7'') = 7"
    by code_simp+
  have "length (th_payload (switch_header ''a'')) \<le> 4300 \<and> decimal_text 7 = Inr ''7'' \<and> decimal_text 1 = Inr ''1''"
    by code_simp
  then have short: "short_header (switch_header ''a'')"
    by (simp add: short_header_def switch_header_def)
  note fields = switch_header_fields
  note forged = sched_switch_unspoofable [OF fields(8,1-6) layout, unfolded if_P [OF counts(1)]]
  note plain = sched_switch_unspoofable [OF fields(7,1-6) layout, unfolded if_not_P [OF counts(2)], where cfg = ?cfg and s = script_init]
  have "returns (convert_sched ?cfg (switch_header ''a'') script_init)" by (rule convert_sched_returns) (rule short)
  then have "returns (convert_sched_switch ?cfg (switch_header ''a'') script_init)"
    by (simp add: convert_sched_def switch_header_def)
  then obtain s' ev where "convert_sched_switch ?cfg (switch_header ''a'') script_init = Inr (s', ev)"
    unfolding returns_def by auto
  with plain forged counts(3,4) show ?thesis
    by (cases ev) (auto simp: sample_script_def scoped_payload_task_def target_task_def sample_task_def sample_target_def)
qed


lemma wakeup_groups:
  assumes "fullmatch sched_wakeup_re (wakeup_text comm tid prio cpu) = Some c"
    and "\<forall>label \<in> set wakeup_labels. count_sub (bstr label) (wakeup_text comm tid prio cpu) = 1"
  shows "group_of c ''tid'' = tid"
proof -
  from fullmatch_derives [OF assms(1)] obtain comm' tid' prio' cpu' where
    s: "wakeup_text comm tid prio cpu = wakeup_text comm' tid' prio' cpu'"
    and groups: "c = [(''comm'', comm'), (''tid'', tid'), (''prio'', prio'), (''target_cpu'', cpu')]"
    unfolding wakeup_derives by blast
  have "tid = tid'" by (rule wakeup_unique [OF assms(2) refl s])
  then show ?thesis by (simp add: groups group_of_def dict_get_or_def)
qed

lemma migrate_groups:
  assumes "fullmatch sched_migrate_re (migrate_text comm tid prio origin destination) = Some c"
    and "\<forall>label \<in> set migrate_labels. count_sub (bstr label) (migrate_text comm tid prio origin destination) = 1"
  shows "group_of c ''tid'' = tid" "group_of c ''origin'' = origin" "group_of c ''destination'' = destination"
proof -
  from fullmatch_derives [OF assms(1)] obtain comm' tid' prio' origin' destination' where
    s: "migrate_text comm tid prio origin destination = migrate_text comm' tid' prio' origin' destination'"
    and groups: "c = [(''comm'', comm'), (''tid'', tid'), (''prio'', prio'), (''origin'', origin'), (''destination'', destination')]"
    unfolding migrate_derives by blast
  have "tid = tid' \<and> origin = origin' \<and> destination = destination'" by (rule migrate_unique [OF assms(2) refl s])
  then show "group_of c ''tid'' = tid" "group_of c ''origin'' = origin" "group_of c ''destination'' = destination"
    by (simp_all add: groups group_of_def dict_get_or_def)
qed

text \<open>
  C21. Nor can a name forge a wakeup or a migration. An event built from a record in the layout of the
  recipe names the thread whose identifier was printed, which is an observed one, and a migration carries the
  printed CPUs, whatever bytes the name of the task holds.
\<close>

theorem sched_task_records_unspoofable:
  "(th_payload h = wakeup_text comm tid prio cpu \<longrightarrow> convert_sched_wakeup cfg h s = Inr (s', Some e) \<longrightarrow>
      (\<exists>w. e = SchedWakeup w \<and> digits_int tid \<in> set (ad_target_tids cfg) \<and>
         wk_woken w = target_task cfg (digits_int tid) \<and> wk_woken_scope w = Scope_TARGET)) \<and>
   (th_payload h = migrate_text comm tid prio origin destination \<longrightarrow> convert_sched_migrate cfg h s = Inr (s', Some e) \<longrightarrow>
      (\<exists>m. e = SchedMigrate m \<and> digits_int tid \<in> set (ad_target_tids cfg) \<and>
         mg_task m = target_task cfg (digits_int tid) \<and> mg_task_scope m = Scope_TARGET \<and>
         mg_origin_cpu m = digits_int origin \<and> mg_destination_cpu m = digits_int destination))"
proof (intro conjI impI)
  assume layout: "th_payload h = wakeup_text comm tid prio cpu" and conv: "convert_sched_wakeup cfg h s = Inr (s', Some e)"
  from conv obtain c where c: "fullmatch sched_wakeup_re (th_payload h) = Some c"
    "\<forall>label \<in> set wakeup_labels. count_sub (bstr label) (th_payload h) = 1"
    unfolding convert_sched_wakeup_def by (fastforce split: if_splits option.splits)
  note tid = wakeup_groups [OF c [unfolded layout]]
  show "\<exists>w. e = SchedWakeup w \<and> digits_int tid \<in> set (ad_target_tids cfg) \<and>
      wk_woken w = target_task cfg (digits_int tid) \<and> wk_woken_scope w = Scope_TARGET"
    using conv c(1) tid unfolding convert_sched_wakeup_def Let_def
    by (auto split: if_splits prod.splits dest!: decimal_int_Inr)
next
  assume layout: "th_payload h = migrate_text comm tid prio origin destination"
    and conv: "convert_sched_migrate cfg h s = Inr (s', Some e)"
  from conv obtain c where c: "fullmatch sched_migrate_re (th_payload h) = Some c"
    "\<forall>label \<in> set migrate_labels. count_sub (bstr label) (th_payload h) = 1"
    unfolding convert_sched_migrate_def by (fastforce split: if_splits option.splits)
  note groups = migrate_groups [OF c [unfolded layout]]
  show "\<exists>m. e = SchedMigrate m \<and> digits_int tid \<in> set (ad_target_tids cfg) \<and>
      mg_task m = target_task cfg (digits_int tid) \<and> mg_task_scope m = Scope_TARGET \<and>
      mg_origin_cpu m = digits_int origin \<and> mg_destination_cpu m = digits_int destination"
    using conv c(1) groups unfolding convert_sched_migrate_def Let_def
    by (auto split: if_splits dest!: decimal_int_Inr)
qed


definition migrate_header :: "string \<Rightarrow> trace_header" where
  "migrate_header comm =
     \<lparr>th_pid = 0, th_tid = 0, th_cpu = 1, th_timestamp_ns = 7, th_group = ''sched'', th_event = ''sched_migrate_task'',
      th_payload = migrate_text (bstr comm) (bstr ''102'') (bstr ''120'') (bstr ''0'') (bstr ''3'')\<rparr>"

lemma migrate_header_facts:
  "\<not> (\<exists>label \<in> set migrate_labels. count_sub (bstr label) (th_payload (migrate_header ''x pid 1'')) \<noteq> 1)"
  "fullmatch sched_migrate_re (th_payload (migrate_header ''x pid 1'')) =
     Some [(''comm'', bstr ''x pid 1''), (''tid'', bstr ''102''), (''prio'', bstr ''120''), (''origin'', bstr ''0''),
       (''destination'', bstr ''3'')]"
  "decimal_int (bstr ''102'') = Inr 102" "decimal_int (bstr ''0'') = Inr 0" "decimal_int (bstr ''3'') = Inr 3"
  "decimal_text 7 = Inr ''7''" "decimal_text 1 = Inr ''1''"
  "(digits_int (bstr ''102''), digits_int (bstr ''0''), digits_int (bstr ''3'')) = (102, 0, 3)"
  by code_simp+

theorem sched_task_records_unspoofable_witness:
  "\<exists>s' m. convert_sched_migrate (sa_config (sample_script ''sched'')) (migrate_header ''x pid 1'') script_init =
       Inr (s', Some (SchedMigrate m)) \<and>
     mg_task m = sample_task 102 \<and> mg_origin_cpu m = 0 \<and> mg_destination_cpu m = 3"
proof -
  let ?cfg = "sa_config (sample_script ''sched'')" and ?h = "migrate_header ''x pid 1''"
  let ?s = "script_init\<lparr>sp_observed_tids := {102}\<rparr>"
  note facts = migrate_header_facts
  obtain b where "script_base ?cfg ?h ''sched-migrate'' Sem_EXACT ?s = Inr b"
    using facts(6,7) by (auto simp: script_base_def script_event_id_def migrate_header_def)
  then obtain e where conv: "convert_sched_migrate ?cfg ?h script_init = Inr (?s, Some e)"
    unfolding convert_sched_migrate_def if_not_P [OF facts(1)] facts(2)
    using facts(3-5) by (auto simp: group_of_def dict_get_or_def sample_script_def script_init_def)
  have layout: "th_payload ?h = migrate_text (bstr ''x pid 1'') (bstr ''102'') (bstr ''120'') (bstr ''0'') (bstr ''3'')"
    by (simp add: migrate_header_def)
  show ?thesis
    using sched_task_records_unspoofable [THEN conjunct2, rule_format, OF layout conv] facts(8) conv
    by (auto simp: target_task_def sample_task_def sample_script_def sample_target_def)
qed


section \<open>A whole transcript\<close>

text \<open>The sample transcript: a thread begins to wait for a lock and gets it.\<close>

lemma script_sample_lines:
  "bytes_readline 65537 (begin_line @ end_line) = begin_line" "bytes_readline 65537 end_line = end_line"
  "drop (length begin_line) (begin_line @ end_line) = end_line" "length begin_line = 69" "length end_line = 61"
  "drop 61 end_line = []" "begin_line \<noteq> []" "end_line \<noteq> []"
  by code_simp+

lemma sample_texts:
  "rstrip_bytes (\<lambda>b. b = 13 \<or> b = 10) begin_line = butlast begin_line"
  "rstrip_bytes (\<lambda>b. b = 13 \<or> b = 10) end_line = butlast end_line"
  "\<not> list_all space_byte (butlast begin_line)" "\<not> list_all space_byte (butlast end_line)"
  "0 \<notin> set (butlast begin_line)" "0 \<notin> set (butlast end_line)"
  "fullmatch lost_record (butlast begin_line) = None" "fullmatch lost_record (butlast end_line) = None"
  by code_simp+

lemma sample_payloads:
  "fullmatch modern_lock_begin (bstr ''0xff (flags=MUTEX)'') = Some [(''address'', bstr ''0xff''), (''flags'', bstr ''MUTEX'')]"
  "fullmatch modern_lock_end (bstr ''0xff (ret=0)'') = Some [(''address'', bstr ''0xff''), (''ret'', bstr ''0'')]"
  "unsupported_flags (split_bar (bstr ''MUTEX'')) = False" "parse_integer (bstr ''0'') = Inr 0"
  "decimal_text 5000000010 = Inr ''5000000010''" "decimal_text 5000000020 = Inr ''5000000020''" "decimal_text 2 = Inr ''2''"
  by code_simp+

abbreviation script_sample_lock :: string where
  "script_sample_lock \<equiv> script_lock_id (sa_config (sample_script ''lock'')) (bstr ''0xff'')"

definition begun :: "trace_event \<Rightarrow> script_state" where
  "begun e = script_init
     \<lparr>sp_input_lines := 1, sp_input_bytes := 69, sp_input_events := 1, sp_observed_tids := {101},
      sp_last_timestamp_ns := Some 5000000010, sp_events := [e],
      sp_audited_contentions := [((101, script_sample_lock), Some (bstr ''audited''))]\<rparr>"

lemmas sample_step =
  consume_line_def consume_text_def consume_header_def Let_def bindE_raise_if script_sample_lines sample_texts script_sample_headers
  sample_script_def script_init_def trace_limits_default_def lock_events_def convert_def convert_lock_def
  scoped_header_task_def sample_target_def target_task_def convert_contention_begin_def convert_contention_end_def
  sample_payloads group_of_def dict_get_or_def script_lock_event_def script_base_def script_event_id_def begun_def
  lock_record_def acquired_end_def script_wait_outcome_def

lemma sample_begin:
  "\<exists>e. lock_record Lock_WAIT (101, script_sample_lock) e \<and>
     consume_line (sa_config (sample_script ''lock'')) None 65537 begin_line rest reads script_init =
       Inr (begun e, rest, reads)"
  by (simp add: sample_step)

lemma sample_end:
  "\<exists>s e'. acquired_end (101, script_sample_lock) e' \<and> sp_events s = [e, e'] \<and>
     consume_line (sa_config (sample_script ''lock'')) None 65537 end_line rest reads (begun e) = Inr (s, rest, reads)"
  by (simp add: sample_step)

lemma sample_run:
  "\<exists>s e e'. script_run (sample_script ''lock'') (script_file (begin_line @ end_line)) = Inr s \<and>
     sp_events s = [e, e'] \<and> acquired_end (101, script_sample_lock) e'"
proof -
  obtain e where e: "consume_line (sa_config (sample_script ''lock'')) None 65537 begin_line rest reads script_init =
      Inr (begun e, rest, reads)" for rest reads
    using sample_begin by (simp add: sample_step) 
  obtain s e' where s: "acquired_end (101, script_sample_lock) e'" "sp_events s = [e, e']"
    "consume_line (sa_config (sample_script ''lock'')) None 65537 end_line [] (Suc (Suc 0)) (begun e) = Inr (s, [], Suc (Suc 0))"
    using sample_end by blast
  have "script_loop (sa_config (sample_script ''lock'')) None 65537 (begin_line @ end_line) 0 script_init = Inr s"
    using e s(3) by (simp add: script_loop.simps script_sample_lines bytes_readline_def [of _ "[]"])
  with s show ?thesis
    by (auto simp: script_run_def script_file_def) (simp_all add: sample_script_def trace_limits_default_def)
qed

text \<open>A blank line and half a line: one malformed event.\<close>

lemma sample_malformed:
  obtains s where "script_run (sample_script ''lock'') (script_file [32, 10, 65]) = Inr s" "sp_events s = []"
    "sp_malformed s = 1"
proof -
  have "map_sum id (\<lambda>s. (sp_events s, sp_malformed s)) (script_run (sample_script ''lock'') (script_file [32, 10, 65])) = Inr ([], 1)"
    by code_simp
  then show ?thesis
    using that by (cases "script_run (sample_script ''lock'') (script_file [32, 10, 65])") auto
qed

lemma script_sample_private: "length content < 100 \<Longrightarrow> script_private_file (sample_script mode) (script_file content)"
  by (simp add: script_private_file_def sample_script_def script_file_def s_isreg_def s_imode_def trace_limits_default_def)

lemma sample_acceptable: "acceptable (sa_config (sample_script mode)) []"
proof -
  have "validate_target sample_target = Inr ()" by code_simp
  then show ?thesis by (simp add: acceptable_def sample_script_def trace_limits_default_def)
qed

lemma script_parse_returns:
  assumes "script_adapter_ok a" and "30 \<le> tl_max_line_chars (ad_limits (sa_config a))"
    and "script_private_file a f" and "script_run a f = Inr s" and "acceptable (sa_config a) (sp_events s)"
  shows "\<exists>r. script_parse a f = Inr r \<and> pr_events r = sp_events s"
proof -
  from ensuresD [OF script_run_reads [OF assms(1)] assms(4)] have read: "reading (sa_config a) s" by simp
  from script_finish_eq [OF read] script_validate [OF assms(1,2) read] assms(3-5) show ?thesis
    by (auto simp: script_parse_run)
qed

text \<open>
  C22. The statistics of a parse lose nothing: when a parse returns, every byte of the file was read, every
  input event is in exactly one column, the diagnostics are the first ones up to their limit, and a
  result that is not marked partial lost no event at all: each one was emitted or completed another.
\<close>

theorem script_statistics_conserved:
  assumes "script_adapter_ok a" and "script_parse a f = Inr r"
  shows "let st = pr_statistics r in
    ps_input_bytes st = int (length (tf_content f)) \<and>
    ps_emitted_event_count st = int (length (pr_events r)) \<and>
    int (length (pr_events r)) + ps_malformed_event_count st + ps_duplicate_event_count st +
      ps_out_of_order_event_count st + ps_unsupported_event_count st + ps_truncated_event_count st +
      ps_foreign_event_dropped_count st + ps_provisional_enrichment_event_count st +
      ps_lock_phase_enrichment_event_count st = ps_input_event_count st \<and>
    int (length (ps_diagnostics st)) = min (ps_diagnostic_count st) (tl_max_warnings (ad_limits (sa_config a))) \<and>
    (\<not> parse_statistics_partial st \<longrightarrow>
       ps_lost_event_count st = 0 \<and> 0 < length (pr_events r) \<and>
       int (length (pr_events r)) + ps_provisional_enrichment_event_count st + ps_lock_phase_enrichment_event_count st =
         ps_input_event_count st)"
proof -
  have "script_conserved (sa_config a) (int (length (tf_content f))) r"
    by (rule script_parse_Inr [OF assms])
  then show ?thesis by (auto simp: script_conserved_def parse_statistics_partial_def Let_def)
qed

theorem script_statistics_conserved_witness:
  "\<exists>r. script_parse (sample_script ''lock'') (script_file [32, 10, 65]) = Inr r \<and>
     ps_input_bytes (pr_statistics r) = 3"
proof -
  let ?f = "script_file [32, 10, 65]"
  obtain s where s: "script_run (sample_script ''lock'') ?f = Inr s" "sp_events s = []" by (rule sample_malformed)
  have chars: "30 \<le> tl_max_line_chars (ad_limits (sa_config (sample_script ''lock'')))"
    by (simp add: sample_script_def trace_limits_default_def)
  from script_parse_returns [OF sample_script_ok(1) chars script_sample_private s(1)] s(2) sample_acceptable obtain r where
    r: "script_parse (sample_script ''lock'') ?f = Inr r" by auto
  from script_statistics_conserved [OF sample_script_ok(1) r] r show ?thesis
    by (auto simp: Let_def script_file_def)
qed

text \<open>
  C23. What the parser collects is private, ordered and justified. When the loop over a file ends, every
  event belongs to the target and names observed threads or nobody, sequence numbers count from 0,
  timestamps never decrease, and a wait that is reported to have ended with the lock acquired was
  open: the same thread's wait for the same lock is among the earlier events, and no end of it in between.
\<close>

theorem script_events_sound:
  assumes "script_adapter_ok a" and "script_run a f = Inr s"
  shows "(\<forall>e \<in> set (sp_events s). te_target (ev_base e) = ad_target (sa_config a) \<and>
      (\<forall>p \<in> set (tasks_for_event e). p = (external_redacted, Scope_FOREIGN) \<or>
         (\<exists>tid \<in> set (ad_target_tids (sa_config a)).
            p = (\<lparr>task_pid = Some (tgt_pid (ad_target (sa_config a))), task_tid = Some tid\<rparr>, Scope_TARGET)))) \<and>
    map (\<lambda>e. te_sequence (ev_base e)) (sp_events s) = map int [0..<length (sp_events s)] \<and>
    sorted (map ev_ts (sp_events s)) \<and>
    (\<forall>pre e post key. sp_events s = pre @ e # post \<longrightarrow> acquired_end key e \<longrightarrow> open_wait key pre) \<and>
    (\<forall>r. script_parse a f = Inr r \<longrightarrow> pr_events r = sp_events s)"
proof -
  from ensuresD [OF script_run_reads [OF assms(1)] assms(2)] have read: "reading (sa_config a) s" by simp
  from reading_run [OF read] have "sound_run (sa_config a) (sp_events s)" "acquisitions_justified (sp_events s)" by simp_all
  moreover have "pr_events r = sp_events s" if "script_parse a f = Inr r" for r
    using script_parse_Inr [OF assms(1) that] assms(2) by (metis sum.inject(2))
  ultimately show ?thesis
    unfolding sound_run_def event_sound_def private_task_def target_task_def acquisitions_justified_def by blast
qed

theorem script_events_sound_witness:
  "\<exists>s e e'. script_run (sample_script ''lock'') (script_file (begin_line @ end_line)) = Inr s \<and>
     sp_events s = [e, e'] \<and> acquired_end (101, script_sample_lock) e' \<and> open_wait (101, script_sample_lock) [e]"
proof -
  obtain s e e' where s: "script_run (sample_script ''lock'') (script_file (begin_line @ end_line)) = Inr s"
    "sp_events s = [e, e']" "acquired_end (101, script_sample_lock) e'"
    using sample_run by blast
  have "sp_events s = [e] @ e' # []" using s(2) by simp
  with script_events_sound [OF sample_script_ok(1) s(1)] s(3) have "open_wait (101, script_sample_lock) [e]" by blast
  with s show ?thesis by blast
qed

text \<open>
  C24. The outcome of a parse. It raises a \<open>PerfLensError\<close> of the stage \<open>trace_input\<close> for a file that is
  not private, a read that fails or a limit that is exceeded. A \<open>ValueError\<close> is possible only for
  lines that may be longer than 4300 bytes, or from the final validation of events that are not acceptable:
  an invalid target, a contradictory record, colliding identities, or too many threads or locks. And
  it returns exactly the collected events when the loop ends with acceptable ones.
\<close>

theorem script_parse_outcome:
  assumes "script_adapter_ok a" and "30 \<le> tl_max_line_chars (ad_limits (sa_config a))"
  shows "(case script_parse a f of
      Inl e \<Rightarrow>
        (\<exists>c m. c \<in> {INVALID_INPUT, RESOURCE_LIMIT_EXCEEDED, PATH_SAFETY_VIOLATION} \<and>
           e = PerfLensError c ''trace_input'' m) \<or>
        is_value_error e \<and>
          (4300 < tl_max_line_chars (ad_limits (sa_config a)) \<or>
           (\<exists>s. script_run a f = Inr s \<and> \<not> acceptable (sa_config a) (sp_events s)))
    | Inr r \<Rightarrow> script_private_file a f \<and> acceptable (sa_config a) (pr_events r) \<and>
        pr_observed_target_tids r = ad_target_tids (sa_config a)) \<and>
    (\<forall>s. script_private_file a f \<and> script_run a f = Inr s \<and> acceptable (sa_config a) (sp_events s) \<longrightarrow>
      (\<exists>r. script_parse a f = Inr r \<and> pr_events r = sp_events s))"
proof (cases "script_private_file a f")
  case False
  then show ?thesis by (auto simp: script_parse_run script_limit_def script_unsafe_def)
next
  case True
  show ?thesis
  proof (cases "script_run a f")
    case (Inl e)
    have "line_raises (sa_config a) e" by (rule ensures_errorD [OF script_run_reads [OF assms(1)] Inl])
    with True Inl show ?thesis
      by (auto simp: script_parse_run line_raises_def script_limit_def script_unreadable_def)
  next
    case (Inr s)
    from ensuresD [OF script_run_reads [OF assms(1)] Inr] have read: "reading (sa_config a) s" by simp
    from script_finish_eq [OF read] obtain r where
      fin: "script_finish (sa_config a) s =
        bindE (validate_trace_sequence (sp_events s) (Some (ad_target (sa_config a))) (Some (sp_input_lines s))
          (Some (sp_input_bytes s)) (Some (ad_limits (sa_config a)))) (\<lambda>_. Inr r)"
      and r: "pr_events r = sp_events s" "pr_observed_target_tids r = ad_target_tids (sa_config a)"
      using script_adapter_okD(4) [OF assms(1)] by auto
    show ?thesis
      using script_validate [OF assms read] True Inr r
        sequence_value_errors [of "sp_events s" "Some (ad_target (sa_config a))" "Some (sp_input_lines s)"
          "Some (sp_input_bytes s)" "Some (ad_limits (sa_config a))"]
      by (cases "validate_trace_sequence (sp_events s) (Some (ad_target (sa_config a))) (Some (sp_input_lines s))
          (Some (sp_input_bytes s)) (Some (ad_limits (sa_config a)))")
        (auto simp: script_parse_run fin)
  qed
qed


theorem script_parse_outcome_witness:
  "(\<exists>r. script_parse (sample_script ''lock'') (script_file [32, 10, 65]) = Inr r \<and> pr_events r = []) \<and>
   (\<nexists>r. script_parse (sample_script ''lock'') ((script_file [32, 10, 65])\<lparr>tf_open := None\<rparr>) = Inr r)"
proof -
  obtain s where s: "script_run (sample_script ''lock'') (script_file [32, 10, 65]) = Inr s" "sp_events s = []"
    by (rule sample_malformed)
  have chars: "30 \<le> tl_max_line_chars (ad_limits (sa_config (sample_script ''lock'')))"
    by (simp add: sample_script_def trace_limits_default_def)
  note outcome = script_parse_outcome [OF sample_script_ok(1) chars]
  have "\<exists>r. script_parse (sample_script ''lock'') (script_file [32, 10, 65]) = Inr r \<and> pr_events r = []"
    using outcome [of "script_file [32, 10, 65]"] script_sample_private [of "[32, 10, 65]" "''lock''"] s sample_acceptable by auto
  moreover have "\<not> script_private_file (sample_script ''lock'') ((script_file [32, 10, 65])\<lparr>tf_open := None\<rparr>)"
    by (simp add: script_private_file_def)
  ultimately show ?thesis
    using outcome [of "(script_file [32, 10, 65])\<lparr>tf_open := None\<rparr>"] by auto
qed

section \<open>Counts that are too long\<close>

lemma derives_skip:
  assumes "\<exists>x m. line = x @ m \<and> derives (Both r q) m c" and "groups r = []"
  shows "\<exists>x m. line = x @ m \<and> derives q m c"
proof -
  obtain x m1 m2 c1 c2 where *: "line = x @ m1 @ m2" "c = c1 @ c2" "derives r m1 c1" "derives q m2 c2"
    using assms(1) by auto
  have "c1 = []"
  proof (cases c1)
    case (Cons p ps)
    then obtain name v where "(name, v) \<in> set c1" by (cases p) auto
    with derives_groups [OF *(3)] assms(2) show ?thesis by fastforce
  qed simp
  with * show ?thesis by (intro exI [of _ "x @ m1"] exI [of _ m2]) simp
qed

lemma last_number:
  assumes "x @ sp @ n @ tl' = y @ bstr '' '' @ ds" and "number_bytes ds"
    and "list_all space_byte sp" "sp \<noteq> []" "number_bytes n" "list_all space_byte tl'"
  shows "n = ds"
proof -
  have digit: "space_byte b \<Longrightarrow> \<not> digit_byte b" for b by (auto simp: digit_byte_def space_byte_def)
  have "tl' = []"
  proof (rule ccontr)
    assume "tl' \<noteq> []"
    then have "last tl' = last ds" using assms(1,2) by (metis last_appendR append_is_Nil_conv number_bytes_def)
    moreover have "space_byte (last tl')" "digit_byte (last ds)"
      using \<open>tl' \<noteq> []\<close> assms(2,6) by (auto simp: list_all_iff number_bytes_def)
    ultimately show False using digit by metis
  qed
  have run: "takeWhile digit_byte (rev (z @ s @ m)) = rev m"
    if "number_bytes m" "list_all space_byte s" "s \<noteq> []" for z s m
  proof (cases s rule: rev_cases)
    case (snoc ys b)
    have "takeWhile digit_byte (rev m @ b # rev ys @ rev z) = rev m @ takeWhile digit_byte (b # rev ys @ rev z)"
      using that(1) by (intro takeWhile_append2) (simp add: number_bytes_def list_all_iff)
    then show ?thesis using that(2) digit snoc by simp
  qed (use that(3) in simp)
  have "list_all space_byte (bstr '' '')" "bstr '' '' \<noteq> []" by code_simp+
  moreover have "x @ sp @ n = y @ bstr '' '' @ ds" using assms(1) \<open>tl' = []\<close> by simp
  ultimately have "rev n = rev ds" using run [OF assms(5,3,4), of x] run [OF assms(2), of "bstr '' ''" y] by metis
  then show ?thesis by simp
qed

lemma lost_record_count:
  assumes "fullmatch lost_record (bstr ''PERF_RECORD_LOST lost '' @ ds) = Some c" and "number_bytes ds"
  shows "group_of c ''count'' = ds"
proof -
  have layout: "bstr ''PERF_RECORD_LOST lost '' = bstr ''PERF_RECORD_LOST lost'' @ bstr '' ''" by code_simp
  let ?line = "bstr ''PERF_RECORD_LOST lost '' @ ds"
  have "\<exists>x m. ?line = x @ m \<and> derives lost_record m c"
    using fullmatch_derives [OF assms(1)] by (intro exI [of _ "[]"] exI [of _ ?line]) simp
  then have "\<exists>x m. ?line = x @ m \<and> derives (seq [spaces 1, Group ''count'' digits, spaces 0]) m c"
    unfolding lost_record_def seq.simps
    by (rule derives_skip [OF derives_skip [OF derives_skip [OF derives_skip [OF derives_skip]]]]) simp_all
  then obtain x sp n tl' where "?line = x @ sp @ n @ tl'" "c = [(''count'', n)]"
    "list_all space_byte sp" "sp \<noteq> []" "number_bytes n" "list_all space_byte tl'"
    by (auto simp: Suc_le_eq number_bytes_def)
  with last_number [of x sp n tl' "bstr ''PERF_RECORD_LOST lost''" ds] assms(2) show ?thesis
    by (simp add: layout group_of_def dict_get_or_def)
qed

lemma derives_both: "derives r x [] \<Longrightarrow> derives q y c \<Longrightarrow> derives (Both r q) (x @ y) c"
  by (metis append_Nil derives.simps(4))

lemma lost_record_matches:
  assumes "number_bytes ds"
  obtains c where "fullmatch lost_record (bstr ''PERF_RECORD_LOST lost '' @ ds) = Some c" "group_of c ''count'' = ds"
proof -
  let ?line = "bstr ''PERF_RECORD_LOST lost '' @ ds"
  have layout: "bstr ''PERF_RECORD_LOST lost '' = bstr ''PERF_RECORD_LOST'' @ bstr '' '' @ bstr ''lost'' @ bstr '' ''" by code_simp
  have "bstr '' '' = [32]" by code_simp
  then have sp: "derives (spaces 1) (bstr '' '') []" by (simp add: space_byte_def)
  have "derives (Both (Group ''count'' digits) (spaces 0)) ds [(''count'', ds)]"
    unfolding derives_named using assms
    by (intro exI [of _ ds] exI [of _ "[]"] exI [of _ "[]"] exI [of _ "[]"]) (simp add: number_bytes_def Suc_le_eq)
  then have "derives (seq [txt_re ''PERF_RECORD_LOST'', spaces 1, txt_re ''lost'', spaces 1, Group ''count'' digits, spaces 0])
      ?line [(''count'', ds)]"
    unfolding layout append_assoc seq.simps
    by (intro derives_both sp) simp_all
  then have "derives lost_record ([] @ [] @ ?line) [(''count'', ds)]"
    unfolding lost_record_def seq.simps
    by (intro derives_both [of _ "[]"]) simp_all
  then show ?thesis
    using that lost_record_count [OF _ assms] fullmatch_None [of lost_record ?line]
    by (cases "fullmatch lost_record ?line") auto
qed

text \<open>
  Whatever the configured limits and the state: a report of lost events whose count has more than 4300
  digits ends the parse with the \<open>ValueError\<close> of \<open>int\<close>.
\<close>

lemma script_lost_count_raises:
  assumes "number_bytes ds" and "4300 < length ds"
  shows "consume_text cfg (bstr ''PERF_RECORD_LOST lost '' @ ds @ [10]) s =
    Inl (ValueError ''Exceeds the limit for integer string conversion'')"
proof -
  let ?line = "bstr ''PERF_RECORD_LOST lost '' @ ds"
  obtain c where c: "fullmatch lost_record ?line = Some c" "group_of c ''count'' = ds"
    by (rule lost_record_matches [OF assms(1)])
  have ds: "\<forall>b \<in> set ds. digit_byte b" "ds \<noteq> []" using assms(1) by (simp_all add: number_bytes_def list_all_iff)
  then have strip: "rstrip_bytes (\<lambda>b. b = 13 \<or> b = 10) (?line @ [10]) = ?line"
    by (cases ds rule: rev_cases) (auto simp: rstrip_bytes_def digit_byte_def)
  have "0 \<notin> set (bstr ''PERF_RECORD_LOST lost '')" "\<not> list_all space_byte (bstr ''PERF_RECORD_LOST lost '')" by code_simp+
  then have "0 \<notin> set ?line" "\<not> list_all space_byte ?line" using ds by (auto simp: digit_byte_def)
  then show ?thesis
    unfolding consume_text_def Let_def append_assoc [symmetric] strip c(1) option.case c(2)
    using assms(2) by (simp add: decimal_int_def del: set_append list_all_append)
qed


end
