(* ===== verification/PerfScriptText.thy ===== *)
theory PerfScriptText
  imports FoldedModel Regex
begin

text \<open>
  The text side of \<open>src/src/perflens/profiles/perf_script.py\<close>: its regular expressions, the record
  header, the body of a frame line with its object and source, and the units of events in
  \<open>src/src/perflens/profiles/events.py\<close>. \<open>dec\<close> gives the decimal digits outside ASCII, which \<open>\d\<close>
  and \<open>int\<close> accept.
\<close>

type_synonym decimals = "nat \<Rightarrow> nat option"

section \<open>Regular expressions\<close>

definition is_digit :: "decimals \<Rightarrow> nat \<Rightarrow> bool" where
  "is_digit dec c \<longleftrightarrow> digit_value dec c \<noteq> None"

definition is_any :: "nat \<Rightarrow> bool" where
  "is_any c \<longleftrightarrow> c \<noteq> 10"

definition is_misc :: "nat \<Rightarrow> bool" where
  "is_misc c \<longleftrightarrow> 65 \<le> c \<and> c \<le> 90 \<or> 97 \<le> c \<and> c \<le> 122 \<or> c = 46"

abbreviation blanks_re :: "nat regex" where
  "blanks_re \<equiv> Chars is_space 1 None"

abbreviation digits_re :: "decimals \<Rightarrow> nat regex" where
  "digits_re dec \<equiv> Chars (is_digit dec) 1 None"

abbreviation text_re :: "string \<Rightarrow> nat regex" where
  "text_re s \<equiv> Text (ascii s)"

text \<open>The three spellings of the thread, each with and without the CPU.\<close>

definition ids_slash :: "decimals \<Rightarrow> nat regex list" where
  "ids_slash dec = [Group ''pid'' (digits_re dec), text_re ''/'', Group ''tid'' (digits_re dec)]"

definition ids_split :: "decimals \<Rightarrow> nat regex list" where
  "ids_split dec = [Group ''pid'' (digits_re dec), blanks_re, Group ''tid'' (digits_re dec)]"

definition ids_legacy :: "decimals \<Rightarrow> nat regex list" where
  "ids_legacy dec = [Group ''pid'' (digits_re dec)]"

definition cpu_part :: "decimals \<Rightarrow> nat regex list" where
  "cpu_part dec = [text_re ''['', Group ''cpu'' (digits_re dec), text_re '']'', blanks_re]"

definition perf_header_re :: "decimals \<Rightarrow> nat regex list \<Rightarrow> nat regex list \<Rightarrow> nat regex" where
  "perf_header_re dec ids cpu =
     seq ([Group ''comm'' (Lazy is_any), blanks_re] @ ids @ [blanks_re] @ cpu @
       [Maybe (Both (Group ''misc'' (Chars is_misc 1 None)) blanks_re),
        Group ''time'' (Both (digits_re dec) (Maybe (Both (text_re ''.'') (digits_re dec)))), text_re '':'', blanks_re,
        Maybe (Both (Group ''period'' (digits_re dec)) blanks_re),
        Group ''event'' (Chars (\<lambda>c. \<not> is_space c) 1 None), text_re '':'',
        Maybe (Both blanks_re (Group ''tail'' (Chars is_any 0 None)))])"

definition perf_header_res :: "decimals \<Rightarrow> nat regex list" where
  "perf_header_res dec =
     [perf_header_re dec (ids_slash dec) (cpu_part dec), perf_header_re dec (ids_split dec) (cpu_part dec),
      perf_header_re dec (ids_legacy dec) (cpu_part dec), perf_header_re dec (ids_slash dec) [],
      perf_header_re dec (ids_split dec) [], perf_header_re dec (ids_legacy dec) []]"

definition frame_re :: "nat regex" where
  "frame_re =
     seq [Group ''ip'' (Both (Maybe (text_re ''0x'')) (Chars is_hex 1 None)), blanks_re,
       Group ''body'' (Chars is_any 1 None)]"

definition frame_annotation_re :: "nat regex" where
  "frame_annotation_re =
     seq [Group ''label'' (Chars is_any 1 None), text_re ''['', Group ''ip'' (Chars is_hex 1 None), text_re '']'']"

definition source_annotation_re :: "decimals \<Rightarrow> nat regex" where
  "source_annotation_re dec =
     seq [Group ''source'' (seq [Chars is_any 1 None, text_re '':'', digits_re dec,
            Maybe (Both (text_re '':'') (digits_re dec))]),
       Maybe (Group ''inline'' (Both blanks_re (text_re ''(inlined)'')))]"

definition missing_source_re :: "nat regex" where
  "missing_source_re = Both (text_re ''??:'') (Either (text_re ''0'') (text_re ''?''))"

definition python_perf_map_re :: "decimals \<Rightarrow> nat regex" where
  "python_perf_map_re dec = seq [text_re ''perf-'', digits_re dec, text_re ''.map'']"

definition source_re :: "decimals \<Rightarrow> nat regex" where
  "source_re dec =
     seq [Group ''file'' (Lazy is_any), text_re '':'', Group ''line'' (digits_re dec),
       Maybe (Both (text_re '':'') (Group ''column'' (digits_re dec)))]"

text \<open>\<open>match.group(name)\<close> where the group need not take part.\<close>

definition group_opt :: "nat captures \<Rightarrow> string \<Rightarrow> pytext option" where
  "group_opt c name = map_of c name"

section \<open>Numbers and characters\<close>

definition int_of :: "decimals \<Rightarrow> pytext \<Rightarrow> int result" where
  "int_of dec t =
     (case py_int dec t of
        None \<Rightarrow> Inl (ValueError ''Exceeds the limit for integer string conversion'')
      | Some n \<Rightarrow> Inr n)"

definition int_of_opt :: "decimals \<Rightarrow> pytext option \<Rightarrow> int option result" where
  "int_of_opt dec t = (case t of None \<Rightarrow> Inr None | Some t \<Rightarrow> bindE (int_of dec t) (\<lambda>n. Inr (Some n)))"

text \<open>\<open>lower()\<close> and \<open>upper()\<close> of ASCII text.\<close>

definition lower_char :: "nat \<Rightarrow> nat" where
  "lower_char c = (if 65 \<le> c \<and> c \<le> 90 then c + 32 else c)"

definition upper_char :: "nat \<Rightarrow> nat" where
  "upper_char c = (if 97 \<le> c \<and> c \<le> 122 then c - 32 else c)"

definition removeprefix :: "pytext \<Rightarrow> pytext \<Rightarrow> pytext" where
  "removeprefix p s = (if starts_with p s then drop (length p) s else s)"

text \<open>\<open>s.find(sub, start)\<close>.\<close>

function find_sub :: "pytext \<Rightarrow> pytext \<Rightarrow> nat \<Rightarrow> nat option" where
  "find_sub sub s start =
     (if starts_with sub (drop start s) \<and> start \<le> length s then Some start
      else if start \<ge> length s then None else find_sub sub s (Suc start))"
  by pat_completeness auto
termination
  by (relation "measure (\<lambda>(sub, s, start). length s - start)") auto

declare find_sub.simps [simp del]

definition contains_text :: "pytext \<Rightarrow> pytext \<Rightarrow> bool" where
  "contains_text sub s \<longleftrightarrow> find_sub sub s 0 \<noteq> None"

text \<open>\<open>Path(p).name\<close>: the last part that is neither empty nor a dot.\<close>

definition path_name :: "pytext \<Rightarrow> pytext" where
  "path_name p =
     (let parts = filter (\<lambda>w. w \<noteq> [] \<and> w \<noteq> [46]) (split_on 47 p) in if parts = [] then [] else last parts)"

section \<open>Headers\<close>

record perf_header =
  ph_command :: pytext
  ph_process_id :: int
  ph_thread_id :: int
  ph_cpu :: "int option"
  ph_event :: pytext
  ph_weight :: int
  ph_weight_source :: pytext
  ph_sample_context :: pytext

definition or_unknown :: "pytext \<Rightarrow> pytext" where
  "or_unknown t = (if t = [] then UNKNOWN else t)"

definition sample_context :: "pytext option \<Rightarrow> pytext" where
  "sample_context misc =
     (case misc of
        Some (c # cs) \<Rightarrow>
          if upper_char c = 85 then ascii ''user'' else if upper_char c = 75 then ascii ''kernel'' else ascii ''unknown''
      | _ \<Rightarrow> ascii ''unknown'')"

text \<open>\<open>float\<close> of the time cannot fail and nobody reads the timestamp.\<close>

definition header_of :: "decimals \<Rightarrow> nat captures \<Rightarrow> (perf_header \<times> pytext) result" where
  "header_of dec c =
     bindE (case group_opt c ''period'' of None \<Rightarrow> Inr 1 | Some t \<Rightarrow> int_of dec t) (\<lambda>weight.
     bindE (int_of dec (group_of c ''pid'')) (\<lambda>process_id.
     bindE (case group_opt c ''tid'' of None \<Rightarrow> Inr process_id | Some t \<Rightarrow> int_of dec t) (\<lambda>thread_id.
     bindE (int_of_opt dec (group_opt c ''cpu'')) (\<lambda>cpu.
     Inr (\<lparr>ph_command = or_unknown (strip (group_of c ''comm'')), ph_process_id = process_id,
           ph_thread_id = thread_id, ph_cpu = cpu, ph_event = group_of c ''event'', ph_weight = weight,
           ph_weight_source =
             (if group_opt c ''period'' \<noteq> None then ascii ''perf_period'' else ascii ''sample_count_fallback''),
           ph_sample_context = sample_context (group_opt c ''misc'')\<rparr>,
          strip (group_of c ''tail''))))))"

text \<open>The first expression of the list that matches.\<close>

fun first_match :: "nat regex list \<Rightarrow> pytext \<Rightarrow> nat captures option" where
  "first_match [] s = None"
| "first_match (r # rs) s = (case fullmatch r s of Some c \<Rightarrow> Some c | None \<Rightarrow> first_match rs s)"

definition parse_perf_header :: "decimals \<Rightarrow> pytext \<Rightarrow> (perf_header \<times> pytext) option result" where
  "parse_perf_header dec line =
     (case first_match (perf_header_res dec) line of
        None \<Rightarrow> Inr None
      | Some c \<Rightarrow> bindE (header_of dec c) (\<lambda>h. Inr (Some h)))"

section \<open>Frame bodies\<close>

text \<open>The position of the parenthesis that closes the first one of the text.\<close>

fun closing_index :: "int \<Rightarrow> nat \<Rightarrow> pytext \<Rightarrow> nat option" where
  "closing_index depth index [] = None"
| "closing_index depth index (c # cs) =
     (if c = 40 then closing_index (depth + 1) (Suc index) cs
      else if c = 41 then (if depth - 1 = 0 then Some index else closing_index (depth - 1) (Suc index) cs)
      else closing_index depth (Suc index) cs)"

type_synonym frame_body = "pytext \<times> pytext \<times> pytext option \<times> bool"

text \<open>Symbol, object and source when the object stands between \<open>opening\<close> and \<open>closing\<close>.\<close>

definition frame_body_at :: "decimals \<Rightarrow> pytext \<Rightarrow> nat \<Rightarrow> nat \<Rightarrow> frame_body option" where
  "frame_body_at dec body opening closing =
     (let symbol = strip (take (opening - 1) body);
          dso = strip (drop (opening + 1) (take closing body));
          suffix = strip (drop (closing + 1) body)
      in if suffix = [] then Some (or_unknown symbol, or_unknown dso, None, False)
         else case fullmatch (source_annotation_re dec) suffix of
           Some c \<Rightarrow> Some (or_unknown symbol, or_unknown dso, Some (group_of c ''source''), group_opt c ''inline'' \<noteq> None)
         | None \<Rightarrow>
             if suffix \<in> {ascii ''??'', ascii ''??:0''} then Some (or_unknown symbol, or_unknown dso, Some suffix, False)
             else None)"

lemma find_sub_bounds: "find_sub sub s start = Some i \<Longrightarrow> start \<le> i \<and> i + length sub \<le> length s \<and> take (length sub) (drop i s) = sub"
proof (induction sub s start rule: find_sub.induct)
  case (1 sub s start)
  note unfold = find_sub.simps [of sub s start]
  show ?case
  proof (cases "starts_with sub (drop start s) \<and> start \<le> length s")
    case True
    then have "length (take (length sub) (drop start s)) = length sub" "start \<le> length s" by (auto simp: starts_with_def)
    then show ?thesis using 1(2) True unfold by (auto simp: starts_with_def)
  next
    case False
    then have "\<not> length s \<le> start" "find_sub sub s (Suc start) = Some i" using 1(2) unfold by (auto split: if_splits)
    with 1(1) [OF False] show ?thesis by auto
  qed
qed

function split_frame_body :: "decimals \<Rightarrow> pytext \<Rightarrow> nat \<Rightarrow> frame_body option" where
  "split_frame_body dec body search_from =
     (case find_sub (ascii '' ('') body search_from of
        None \<Rightarrow> None
      | Some i \<Rightarrow>
          (case closing_index 0 (Suc i) (drop (Suc i) body) of
             None \<Rightarrow> None
           | Some closing \<Rightarrow>
               (case frame_body_at dec body (Suc i) closing of
                  Some b \<Rightarrow> Some b
                | None \<Rightarrow> split_frame_body dec body (Suc (Suc i)))))"
  by pat_completeness auto
termination
  by (relation "measure (\<lambda>(dec, body, search_from). length body - search_from)")
    (auto dest!: find_sub_bounds simp: ascii_def)

declare split_frame_body.simps [simp del]

definition python_perf_map_source :: "decimals \<Rightarrow> pytext \<Rightarrow> pytext \<Rightarrow> pytext option \<Rightarrow> pytext \<times> pytext option" where
  "python_perf_map_source dec raw_symbol dso source =
     (if source \<noteq> None \<or> \<not> starts_with (ascii ''py::'') raw_symbol then (raw_symbol, source)
      else if fullmatch (python_perf_map_re dec) (path_name dso) = None then (raw_symbol, source)
      else case find_sub (ascii '':'') raw_symbol 4 of
             None \<Rightarrow> (raw_symbol, source)
           | Some separator \<Rightarrow>
               if separator = length raw_symbol - 1 then (raw_symbol, source)
               else (take separator raw_symbol, Some (drop (Suc separator) raw_symbol)))"

definition normalized_ip :: "pytext \<Rightarrow> pytext" where
  "normalized_ip v =
     (let n = dropWhile (\<lambda>c. c = 48) (removeprefix (ascii ''0x'') (map lower_char v)) in if n = [] then [48] else n)"

definition parse_source :: "decimals \<Rightarrow> pytext option \<Rightarrow> (pytext option \<times> int option \<times> int option) result" where
  "parse_source dec source =
     (case source of
        None \<Rightarrow> Inr (None, None, None)
      | Some t \<Rightarrow>
          if t \<in> {ascii ''??'', ascii ''??:0''} then Inr (None, None, None)
          else case fullmatch (source_re dec) t of
            None \<Rightarrow> Inr (Some t, None, None)
          | Some c \<Rightarrow>
              bindE (int_of dec (group_of c ''line'')) (\<lambda>line.
              bindE (int_of_opt dec (group_opt c ''column'')) (\<lambda>column.
              Inr (Some (group_of c ''file''), if line > 0 then Some line else None,
                   case column of
                     Some n \<Rightarrow> if line > 0 \<and> n > 0 then Some n else None
                   | None \<Rightarrow> None))))"

section \<open>Events\<close>

definition is_modifier :: "nat \<Rightarrow> bool" where
  "is_modifier c \<longleftrightarrow> c \<in> set (ascii ''ukhGHpPSDWebR'')"

definition pmu_hardware_event :: "nat regex" where
  "pmu_hardware_event =
     seq [Either (text_re ''cpu'') (Either (text_re ''cpu_core'') (text_re ''cpu_atom'')), text_re ''/'',
       Group ''event'' (Either (text_re ''cycles'') (Either (text_re ''instructions'')
         (Either (text_re ''cache-references'') (Either (text_re ''cache-misses'')
         (Either (text_re ''branches'') (text_re ''branch-misses'')))))), text_re ''/'']"

text \<open>\<open>event.rsplit(":", 1)\<close> of an event with a colon.\<close>

definition split_modifier :: "pytext \<Rightarrow> pytext \<times> pytext" where
  "split_modifier event =
     (butlast (rev (dropWhile (\<lambda>c. c \<noteq> 58) (rev event))), rev (takeWhile (\<lambda>c. c \<noteq> 58) (rev event)))"

definition canonical_perf_event :: "pytext \<Rightarrow> pytext" where
  "canonical_perf_event event =
     (let event_name =
            (if 58 \<in> set event \<and> snd (split_modifier event) \<noteq> [] \<and> list_all is_modifier (snd (split_modifier event))
             then fst (split_modifier event) else event)
      in if event_name = ascii ''cpu-cycles'' then ascii ''cycles''
         else case fullmatch pmu_hardware_event event_name of
                Some c \<Rightarrow> group_of c ''event''
              | None \<Rightarrow> event_name)"

definition perf_period_unit :: "pytext \<Rightarrow> pytext" where
  "perf_period_unit event =
     (let event_name = canonical_perf_event event in
      if event_name \<in> {ascii ''cpu-clock'', ascii ''task-clock''} then ascii ''nanoseconds''
      else if event_name = ascii ''cycles'' then ascii ''cycles''
      else if event_name = ascii ''instructions'' then ascii ''instructions''
      else ascii ''event_count'')"

end
