(* ===== verification/PerfScript.thy ===== *)
theory PerfScript
  imports PerfScriptText
begin

text \<open>
  The streaming parser for \<open>perf script\<close> text, \<open>src/src/perflens/profiles/perf_script.py\<close>. A
  record is a header line and the callchain lines below it, so the generator keeps the record
  that is still open. It yields in the middle of a step, so the code that consumes the samples is
  an argument of the step: \<open>consume\<close> gets the frame table of that moment and the sample.

  The stream, its reader and its diagnostics are those of the folded parser (\<open>folded_state\<close>).
\<close>

section \<open>State\<close>

record pending_record =
  pr_header :: perf_header
  pr_line_number :: int
  pr_frames_leaf_to_root :: "int list"
  pr_header_frame_id :: "int option"

type_synonym 'g consumer = "frame_table \<Rightarrow> stack_sample \<Rightarrow> 'g \<Rightarrow> 'g result"
type_synonym 'g perf_run = "folded_state \<times> pending_record option \<times> 'g"

abbreviation on_diagnostics :: "(parse_diagnostics \<Rightarrow> parse_diagnostics) \<Rightarrow> folded_state \<Rightarrow> folded_state" where
  "on_diagnostics f st \<equiv> st\<lparr>fo_diagnostics := f (fo_diagnostics st)\<rparr>"

definition perf_warning :: "string \<Rightarrow> string \<Rightarrow> int \<Rightarrow> pytext \<Rightarrow> folded_state \<Rightarrow> folded_state" where
  "perf_warning code message line_number raw st =
     on_diagnostics (add_warning
       \<lparr>pw_code = code, pw_message = message, pw_line_number = Some line_number, pw_preview = Some (preview raw)\<rparr>) st"

definition perf_malformed :: "string \<Rightarrow> string \<Rightarrow> int \<Rightarrow> pytext \<Rightarrow> folded_state \<Rightarrow> folded_state" where
  "perf_malformed code message line_number raw st =
     perf_warning code message line_number raw
       (on_diagnostics (\<lambda>d. d\<lparr>pd_malformed_records := pd_malformed_records d + 1,
                              pd_skipped_records := pd_skipped_records d + 1\<rparr>) st)"

definition count_frame_line :: "folded_state \<Rightarrow> folded_state" where
  "count_frame_line = on_diagnostics (\<lambda>d. d\<lparr>pd_frame_lines := pd_frame_lines d + 1\<rparr>)"

section \<open>Frames\<close>

text \<open>Interning with the limit on the number of frames, as each of the three callers does it.\<close>

definition intern_limited :: "resource_limits \<Rightarrow> frame_key \<Rightarrow> folded_state \<Rightarrow> (int \<times> folded_state) result" where
  "intern_limited lim key st =
     (let known = frame_count (fo_frame_table st); (frame_id, t) = intern key (fo_frame_table st)
      in bindE (raise_if (frame_count t > known \<and> frame_count t > rl_max_unique_frames lim) too_many_frames) (\<lambda>_.
         Inr (frame_id, st\<lparr>fo_frame_table := t\<rparr>)))"

definition unknown_frame_key :: frame_key where
  "unknown_frame_key =
     (frame_default UNKNOWN)\<lparr>fk_raw_symbol := Some (ascii ''[unparsed-frame]''), fk_is_unknown := True\<rparr>"

definition unknown_frame :: "resource_limits \<Rightarrow> folded_state \<Rightarrow> (int \<times> folded_state) result" where
  "unknown_frame lim st = intern_limited lim unknown_frame_key st"

text \<open>The frame of an address and a body that was split into symbol, object, source and inline mark.\<close>

definition perf_frame_key :: "decimals \<Rightarrow> pytext \<Rightarrow> frame_body \<Rightarrow> frame_key result" where
  "perf_frame_key dec ip parts =
     (case parts of (raw_symbol, dso, source, is_inline) \<Rightarrow>
        let (symbol_text, source) = python_perf_map_source dec raw_symbol dso source in
        bindE (parse_source dec source) (\<lambda>(source_file, source_line, source_column).
        let symbol = normalize_symbol dec symbol_text;
            is_unknown = (symbol \<in> {ascii ''[unknown]'', UNKNOWN, ascii ''0'', ascii ''??''} \<or>
              dso \<in> {ascii ''[unknown]'', UNKNOWN});
            is_kernel = (dso \<in> {ascii ''[kernel.kallsyms]'', ascii ''[kernel]''} \<or> contains_text (ascii ''[k]'') raw_symbol)
        in Inr \<lparr>fk_symbol = symbol, fk_dso = dso, fk_raw_symbol = Some raw_symbol, fk_ip = Some (ascii ''0x'' @ ip),
                fk_source_file = source_file, fk_source_line = source_line, fk_source_column = source_column,
                fk_is_inline = is_inline, fk_is_kernel = is_kernel, fk_is_unknown = is_unknown\<rparr>))"

definition parse_frame ::
  "resource_limits \<Rightarrow> decimals \<Rightarrow> pytext \<Rightarrow> int \<Rightarrow> folded_state \<Rightarrow> (int option \<times> folded_state) result" where
  "parse_frame lim dec t line_number st =
     (case fullmatch frame_re t of
        None \<Rightarrow>
          Inr (None, perf_warning ''MALFORMED_FRAME'' ''Callchain frame has no hexadecimal IP'' line_number t st)
      | Some c \<Rightarrow>
          let ip = removeprefix (ascii ''0x'') (map lower_char (group_of c ''ip''));
              body = strip (group_of c ''body'');
              (parts, st) =
                (case split_frame_body dec body 0 of
                   Some parts \<Rightarrow> (parts, st)
                 | None \<Rightarrow> ((or_unknown body, UNKNOWN, None, False),
                     perf_warning ''UNPARSED_FRAME_BODY'' ''Callchain Frame body could not be split into symbol and DSO''
                       line_number body st))
          in bindE (perf_frame_key dec ip parts) (\<lambda>key.
             bindE (intern_limited lim key st) (\<lambda>(frame_id, st).
             Inr (Some frame_id, count_frame_line st))))"

text \<open>A callchain position that could not be read stays as an unknown frame.\<close>

definition frame_or_unknown ::
  "resource_limits \<Rightarrow> decimals \<Rightarrow> pytext \<Rightarrow> int \<Rightarrow> folded_state \<Rightarrow> (int \<times> folded_state) result" where
  "frame_or_unknown lim dec t line_number st =
     bindE (parse_frame lim dec t line_number st) (\<lambda>(frame_id, st).
     case frame_id of
       Some i \<Rightarrow> Inr (i, st)
     | None \<Rightarrow> bindE (unknown_frame lim st) (\<lambda>(i, st). Inr (i, count_frame_line st)))"

definition append_frame :: "int \<Rightarrow> pending_record \<Rightarrow> pending_record" where
  "append_frame i p = p\<lparr>pr_frames_leaf_to_root := pr_frames_leaf_to_root p @ [i]\<rparr>"

section \<open>Annotations\<close>

text \<open>\<open>dso[offset]\<close> repeats the address and the object of the frame before it.\<close>

definition address_annotation :: "nat captures \<Rightarrow> frame_key \<Rightarrow> pending_record \<Rightarrow> bool" where
  "address_annotation c previous p =
     (case fk_ip previous of
        None \<Rightarrow> False
      | Some ip \<Rightarrow>
          normalized_ip (group_of c ''ip'') = normalized_ip ip \<and>
          (let label = strip (group_of c ''label'');
               dso_label = (if fk_dso previous \<noteq> UNKNOWN then path_name (fk_dso previous) else [])
           in label = dso_label \<or> label = ascii (''[JIT] tid '' @ str_int (ph_thread_id (pr_header p)))))"

definition annotated_key :: "frame_key \<Rightarrow> pytext \<Rightarrow> int \<Rightarrow> int option \<Rightarrow> bool \<Rightarrow> frame_key" where
  "annotated_key previous source_file source_line source_column is_inline =
     previous\<lparr>fk_source_file := Some source_file, fk_source_line := Some source_line,
       fk_source_column := source_column, fk_is_inline := is_inline\<rparr>"

text \<open>\<open>file:line\<close> puts its location into the frame before it, which must not have one yet.\<close>

definition consume_source_annotation ::
  "resource_limits \<Rightarrow> decimals \<Rightarrow> pytext \<Rightarrow> frame_key \<Rightarrow> pending_record \<Rightarrow> folded_state
     \<Rightarrow> (bool \<times> pending_record \<times> folded_state) result" where
  "consume_source_annotation lim dec t previous p st =
     (if fullmatch missing_source_re t \<noteq> None then Inr (True, p, st)
      else case fullmatch (source_annotation_re dec) t of
        None \<Rightarrow> Inr (False, p, st)
      | Some c \<Rightarrow>
          if fk_source_file previous \<noteq> None then Inr (False, p, st)
          else
            bindE (parse_source dec (Some (group_of c ''source''))) (\<lambda>(source_file, source_line, source_column).
            case (source_file, source_line) of
              (Some name, Some line) \<Rightarrow>
                bindE (intern_limited lim
                  (annotated_key previous name line source_column (group_opt c ''inline'' \<noteq> None)) st) (\<lambda>(i, st).
                Inr (True,
                  p\<lparr>pr_frames_leaf_to_root := butlast (pr_frames_leaf_to_root p) @ [i]\<rparr>,
                  on_diagnostics (\<lambda>d. d\<lparr>pd_source_annotation_lines := pd_source_annotation_lines d + 1\<rparr>) st))
            | _ \<Rightarrow> Inr (False, p, st)))"

definition consume_frame_annotation ::
  "resource_limits \<Rightarrow> decimals \<Rightarrow> pytext \<Rightarrow> pending_record \<Rightarrow> folded_state
     \<Rightarrow> (bool \<times> pending_record \<times> folded_state) result" where
  "consume_frame_annotation lim dec t p st =
     (if pr_frames_leaf_to_root p = [] then Inr (False, p, st)
      else
        bindE (resolve (fo_frame_table st) (last (pr_frames_leaf_to_root p))) (\<lambda>previous.
        case fullmatch frame_annotation_re t of
          Some c \<Rightarrow>
            if address_annotation c previous p
            then Inr (True, p,
              on_diagnostics (\<lambda>d. d\<lparr>pd_address_annotation_lines := pd_address_annotation_lines d + 1\<rparr>) st)
            else Inr (False, p, st)
        | None \<Rightarrow> consume_source_annotation lim dec t previous p st))"

section \<open>Records\<close>

definition same_physical_frame :: "frame_table \<Rightarrow> int \<Rightarrow> int \<Rightarrow> bool result" where
  "same_physical_frame tbl left_id right_id =
     bindE (resolve tbl left_id) (\<lambda>left.
     bindE (resolve tbl right_id) (\<lambda>right.
     Inr (case (fk_ip left, fk_ip right) of
            (Some l, Some r) \<Rightarrow>
              normalized_ip l = normalized_ip r \<and> fk_raw_symbol left = fk_raw_symbol right \<and> fk_dso left = fk_dso right
          | _ \<Rightarrow> False)))"

text \<open>Whether the frame of the header line is repeated by the first callchain line.\<close>

definition repeats_header_frame :: "frame_table \<Rightarrow> pending_record \<Rightarrow> bool result" where
  "repeats_header_frame tbl p =
     (case (pr_header_frame_id p, pr_frames_leaf_to_root p) of
        (Some h, a # b # _) \<Rightarrow> if a = h then same_physical_frame tbl a b else Inr False
      | _ \<Rightarrow> Inr False)"

definition record_sample :: "perf_header \<Rightarrow> int list \<Rightarrow> stack_sample" where
  "record_sample h frames =
     \<lparr>ss_frames = rev frames, ss_weight = ph_weight h, ss_event = ph_event h,
      ss_weight_unit =
        (if ph_weight_source h = ascii ''perf_period'' then perf_period_unit (ph_event h) else ascii ''sample_count''),
      ss_weight_source = ph_weight_source h, ss_process_id = Some (ph_process_id h),
      ss_thread_id = Some (ph_thread_id h), ss_thread_name = ph_command h, ss_cpu = ph_cpu h,
      ss_sample_context = ph_sample_context h\<rparr>"

definition finish_record ::
  "resource_limits \<Rightarrow> pending_record \<Rightarrow> folded_state \<Rightarrow> (stack_sample option \<times> folded_state) result" where
  "finish_record lim p st =
     bindE (repeats_header_frame (fo_frame_table st) p) (\<lambda>repeated.
     let (frames, st) =
           (if repeated
            then (tl (pr_frames_leaf_to_root p),
                  on_diagnostics (\<lambda>d. d\<lparr>pd_duplicate_frame_lines := pd_duplicate_frame_lines d + 1\<rparr>) st)
            else (pr_frames_leaf_to_root p, st))
     in if frames = [] then
          Inr (None, perf_malformed ''MISSING_CALLCHAIN'' ''perf script record contains no parseable frame''
            (pr_line_number p) (ph_command (pr_header p)) st)
        else if int (length frames) > rl_max_stack_depth lim then
          Inr (None, perf_malformed ''STACK_TOO_DEEP'' ''perf script record exceeds max_stack_depth''
            (pr_line_number p) (ph_command (pr_header p)) st)
        else Inr (Some (record_sample (pr_header p) frames),
               on_diagnostics (\<lambda>d. d\<lparr>pd_parsed_records := pd_parsed_records d + 1\<rparr>) st))"

text \<open>Finishing the open record, if there is one, and yielding its sample.\<close>

definition flush_pending ::
  "resource_limits \<Rightarrow> 'g consumer \<Rightarrow> pending_record option \<Rightarrow> folded_state \<Rightarrow> 'g \<Rightarrow> (folded_state \<times> 'g) result" where
  "flush_pending lim consume pending st g =
     (case pending of
        None \<Rightarrow> Inr (st, g)
      | Some p \<Rightarrow>
          bindE (finish_record lim p st) (\<lambda>(parsed, st).
          case parsed of
            None \<Rightarrow> Inr (st, g)
          | Some s \<Rightarrow> bindE (consume (fo_frame_table st) s g) (\<lambda>g. Inr (st, g))))"

definition check_record_limit :: "resource_limits \<Rightarrow> folded_state \<Rightarrow> unit result" where
  "check_record_limit lim st =
     raise_if (pd_parsed_records (fo_diagnostics st) + pd_malformed_records (fo_diagnostics st) \<ge> rl_max_records lim)
       too_many_records"

section \<open>Lines\<close>

definition starts_blank :: "pytext \<Rightarrow> bool" where
  "starts_blank s = (case s of [] \<Rightarrow> False | c # _ \<Rightarrow> is_space c)"

definition rstrip_newline :: "pytext \<Rightarrow> pytext" where
  "rstrip_newline s = rev (dropWhile (\<lambda>c. c = 10 \<or> c = 13) (rev s))"

definition overlong_line ::
  "resource_limits \<Rightarrow> 'g consumer \<Rightarrow> pytext \<Rightarrow> pending_record option \<Rightarrow> folded_state \<Rightarrow> 'g \<Rightarrow> 'g perf_run result" where
  "overlong_line lim consume raw_line pending st g =
     bindE (if ends_with [10] raw_line then Inr st else drain_overlong_line lim st) (\<lambda>st.
     case (pending, starts_blank raw_line) of
       (Some p, True) \<Rightarrow>
         bindE (unknown_frame lim (perf_warning ''LINE_TOO_LONG''
           ''Overlong callchain line was retained as an unknown Frame'' (fo_line_number st) raw_line st)) (\<lambda>(i, st).
         Inr (count_frame_line st, Some (append_frame i p), g))
     | _ \<Rightarrow>
         bindE (flush_pending lim consume pending st g) (\<lambda>(st, g).
         Inr (perf_malformed ''LINE_TOO_LONG'' ''perf script line exceeds max_line_chars'' (fo_line_number st) raw_line st,
              None, g)))"

definition blank_line ::
  "resource_limits \<Rightarrow> 'g consumer \<Rightarrow> pending_record option \<Rightarrow> folded_state \<Rightarrow> 'g \<Rightarrow> 'g perf_run result" where
  "blank_line lim consume pending st g =
     (case pending of
        None \<Rightarrow> Inr (on_diagnostics (\<lambda>d. d\<lparr>pd_skipped_records := pd_skipped_records d + 1\<rparr>) st, None, g)
      | Some p \<Rightarrow> bindE (flush_pending lim consume pending st g) (\<lambda>(st, g). Inr (st, None, g)))"

definition header_line ::
  "resource_limits \<Rightarrow> decimals \<Rightarrow> 'g consumer \<Rightarrow> perf_header \<Rightarrow> pytext \<Rightarrow> pending_record option \<Rightarrow> folded_state \<Rightarrow> 'g
     \<Rightarrow> 'g perf_run result" where
  "header_line lim dec consume header tail pending st g =
     bindE (flush_pending lim consume pending st g) (\<lambda>(st, g).
     bindE (check_record_limit lim st) (\<lambda>_.
     let p = \<lparr>pr_header = header, pr_line_number = fo_line_number st, pr_frames_leaf_to_root = [],
              pr_header_frame_id = None\<rparr>
     in if tail = [] then Inr (st, Some p, g)
        else bindE (frame_or_unknown lim dec tail (fo_line_number st) st) (\<lambda>(i, st).
             Inr (st, Some ((append_frame i p)\<lparr>pr_header_frame_id := Some i\<rparr>), g))))"

definition callchain_line ::
  "resource_limits \<Rightarrow> decimals \<Rightarrow> pytext \<Rightarrow> pending_record \<Rightarrow> folded_state \<Rightarrow> (folded_state \<times> pending_record) result" where
  "callchain_line lim dec frame_text p st =
     (if fullmatch frame_re frame_text \<noteq> None then
        bindE (frame_or_unknown lim dec frame_text (fo_line_number st) st) (\<lambda>(i, st). Inr (st, append_frame i p))
      else
        bindE (consume_frame_annotation lim dec frame_text p st) (\<lambda>(consumed, p, st).
        if consumed then Inr (st, p)
        else if fullmatch frame_annotation_re frame_text \<noteq> None \<or> fullmatch (source_annotation_re dec) frame_text \<noteq> None
        then Inr (perf_warning ''UNMATCHED_FRAME_ANNOTATION'' ''Callchain annotation does not match the preceding Frame''
               (fo_line_number st) frame_text st, p)
        else bindE (frame_or_unknown lim dec frame_text (fo_line_number st) st) (\<lambda>(i, st). Inr (st, append_frame i p))))"

definition stray_line ::
  "resource_limits \<Rightarrow> 'g consumer \<Rightarrow> pytext \<Rightarrow> pending_record option \<Rightarrow> folded_state \<Rightarrow> 'g \<Rightarrow> 'g perf_run result" where
  "stray_line lim consume line pending st g =
     bindE (flush_pending lim consume pending st g) (\<lambda>(st, g).
     Inr (perf_malformed ''UNRECOGNIZED_LINE'' ''Line is not a perf script record'' (fo_line_number st) line st, None, g))"

definition perf_line ::
  "resource_limits \<Rightarrow> decimals \<Rightarrow> 'g consumer \<Rightarrow> pytext \<Rightarrow> pending_record option \<Rightarrow> folded_state \<Rightarrow> 'g
     \<Rightarrow> 'g perf_run result" where
  "perf_line lim dec consume raw_line pending st g =
     (if int (length raw_line) > rl_max_line_chars lim then overlong_line lim consume raw_line pending st g
      else
        let line = rstrip_newline raw_line in
        if strip line = [] then blank_line lim consume pending st g
        else
          bindE (parse_perf_header dec line) (\<lambda>parsed.
          case parsed of
            Some (header, tail) \<Rightarrow> header_line lim dec consume header tail pending st g
          | None \<Rightarrow>
              (case (pending, starts_blank raw_line) of
                 (Some p, True) \<Rightarrow> bindE (callchain_line lim dec (strip line) p st) (\<lambda>(st, p). Inr (st, Some p, g))
               | _ \<Rightarrow> stray_line lim consume line pending st g)))"

text \<open>One turn of the loop: \<open>None\<close> at the end of the file.\<close>

definition perf_step ::
  "resource_limits \<Rightarrow> decimals \<Rightarrow> 'g consumer \<Rightarrow> 'g perf_run \<Rightarrow> 'g perf_run option result" where
  "perf_step lim dec consume run =
     (case run of (st, pending, g) \<Rightarrow>
        (case read_chunk lim st of
           (chunk, st) \<Rightarrow>
             if chunk = [] then Inr None
             else
               let st = st\<lparr>fo_line_number := fo_line_number st + 1\<rparr>;
                   (raw_line, byte_count, invalid_bytes) = sanitize_surrogateescaped_text chunk;
                   st = count_text byte_count invalid_bytes st
               in bindE (check_input_bytes lim st) (\<lambda>_.
                  bindE (perf_line lim dec consume raw_line pending st g) (\<lambda>run. Inr (Some run)))))"

end
