(* ===== verification/PerfScriptLoop.thy ===== *)
theory PerfScriptLoop
  imports PerfScript FoldedProofs
begin

text \<open>
  The loop of the \<open>perf script\<close> parser. No operation but the reader touches what is left of the
  input, so every turn of the loop shortens it and the loop ends.
\<close>

section \<open>What the operations leave alone\<close>

text \<open>The position in the input and what was counted while reading it.\<close>

definition same_input :: "folded_state \<Rightarrow> folded_state \<Rightarrow> bool" where
  "same_input st st' \<longleftrightarrow> fo_rest st' = fo_rest st \<and> fo_line_number st' = fo_line_number st \<and>
     pd_bytes_read (fo_diagnostics st') = pd_bytes_read (fo_diagnostics st) \<and>
     pd_unicode_replacement_count (fo_diagnostics st') = pd_unicode_replacement_count (fo_diagnostics st) \<and>
     pd_max_warnings (fo_diagnostics st') = pd_max_warnings (fo_diagnostics st)"

lemma same_input_refl [simp]: "same_input st st"
  by (simp add: same_input_def)

lemma same_input_trans: "same_input st u \<Longrightarrow> same_input u v \<Longrightarrow> same_input st v"
  by (simp add: same_input_def)

abbreviation quiet :: "('a \<Rightarrow> bool) \<Rightarrow> 'a result \<Rightarrow> bool" where
  "quiet \<equiv> ensures (\<lambda>_. True)"

lemma same_input_warning [simp]: "same_input st (perf_warning code message n raw st') = same_input st st'"
  by (simp add: same_input_def perf_warning_def add_warning_def Let_def)

lemma same_input_malformed [simp]: "same_input st (perf_malformed code message n raw st') = same_input st st'"
  by (simp add: perf_malformed_def) (simp add: same_input_def)

lemma same_input_count [simp]: "same_input st (count_frame_line st') = same_input st st'"
  by (simp add: same_input_def count_frame_line_def)

lemma intern_limited_input: "quiet (\<lambda>(i, u). same_input st u) (intern_limited lim key st)"
  by (simp add: intern_limited_def bindE_raise_if same_input_def split: prod.split)

lemma unknown_frame_input: "quiet (\<lambda>(i, u). same_input st u) (unknown_frame lim st)"
  by (simp add: unknown_frame_def intern_limited_input)

lemma ensures_any: "quiet (\<lambda>_. True) m"
  by (cases m) simp_all

lemma parse_frame_input: "quiet (\<lambda>(i, u). same_input st u) (parse_frame lim dec t n st)"
proof -
  have "quiet (\<lambda>(i, u). same_input st u) (bindE (perf_frame_key dec ip parts) (\<lambda>key.
      bindE (intern_limited lim key v) (\<lambda>(i, w). Inr (Some i, count_frame_line w))))"
    if v: "same_input st v" for ip parts v
  proof (rule ensures_bind [OF ensures_any])
    fix key :: frame_key
    show "quiet (\<lambda>(i, u). same_input st u) (bindE (intern_limited lim key v) (\<lambda>(i, w). Inr (Some i, count_frame_line w)))"
      by (rule ensures_bind [OF intern_limited_input]) (auto intro: same_input_trans [OF v])
  qed
  then show ?thesis
    unfolding parse_frame_def Let_def by (simp split: option.split prod.split)
qed

lemma frame_or_unknown_input: "quiet (\<lambda>(i, u). same_input st u) (frame_or_unknown lim dec t n st)"
proof -
  have "quiet (\<lambda>(i, u). same_input st u) (bindE (unknown_frame lim v) (\<lambda>(i, w). Inr (i, count_frame_line w)))"
    if v: "same_input st v" for v
    by (rule ensures_bind [OF unknown_frame_input]) (auto intro: same_input_trans [OF v])
  then show ?thesis
    unfolding frame_or_unknown_def
    by (intro ensures_bind [OF parse_frame_input]) (auto split: option.split)
qed

lemma consume_source_input:
  "quiet (\<lambda>(b, p', u). same_input st u) (consume_source_annotation lim dec t previous p st)"
proof -
  have "quiet (\<lambda>(b, p', u). same_input st u) (bindE (intern_limited lim key st) (\<lambda>(i, w).
      Inr (True, q i, on_diagnostics (\<lambda>d. d\<lparr>pd_source_annotation_lines := pd_source_annotation_lines d + 1\<rparr>) w)))"
    for key and q :: "int \<Rightarrow> pending_record"
    by (rule ensures_bind [OF intern_limited_input]) (auto simp: same_input_def)
  then show ?thesis
    unfolding consume_source_annotation_def
    by (auto split: option.split intro!: ensures_bind [OF ensures_any])
qed

lemma consume_annotation_input:
  "quiet (\<lambda>(b, p', u). same_input st u) (consume_frame_annotation lim dec t p st)"
  unfolding consume_frame_annotation_def
  using consume_source_input
  by (auto split: option.split intro!: ensures_bind [OF ensures_any]) (auto simp: same_input_def)

lemma finish_record_input: "quiet (\<lambda>(s, u). same_input st u) (finish_record lim p st)"
  unfolding finish_record_def
  by (rule ensures_bind [OF ensures_any]) (auto simp: Let_def same_input_def perf_malformed_def perf_warning_def add_warning_def)

lemma flush_pending_input: "quiet (\<lambda>(u, g'). same_input st u) (flush_pending lim consume po st g)"
proof (cases po)
  case (Some p)
  have "quiet (\<lambda>(u, g'). same_input st u) (case parsed of
      None \<Rightarrow> Inr (v, g) | Some s \<Rightarrow> bindE (consume (fo_frame_table v) s g) (\<lambda>g. Inr (v, g)))"
    if "same_input st v" for parsed v
    using that by (auto split: option.split intro!: ensures_bind [OF ensures_any])
  then show ?thesis
    unfolding flush_pending_def Some option.case by (intro ensures_bind [OF finish_record_input]) auto
qed (simp add: flush_pending_def)

lemma callchain_input: "quiet (\<lambda>(u, p'). same_input st u) (callchain_line lim dec t p st)"
proof -
  have frame: "quiet (\<lambda>(u, p'). same_input st u) (bindE (frame_or_unknown lim dec t n v) (\<lambda>(i, w). Inr (w, append_frame i q)))"
    if v: "same_input st v" for n v q
    by (rule ensures_bind [OF frame_or_unknown_input]) (auto intro: same_input_trans [OF v])
  show ?thesis
    unfolding callchain_line_def
    using frame by (auto intro!: ensures_bind [OF consume_annotation_input])
qed

section \<open>Reading\<close>

text \<open>What is left of the input never grows.\<close>

definition shorter_input :: "folded_state \<Rightarrow> folded_state \<Rightarrow> bool" where
  "shorter_input st st' \<longleftrightarrow> length (fo_rest st') \<le> length (fo_rest st)"

lemma same_shorter: "same_input v u \<Longrightarrow> shorter_input st v \<Longrightarrow> shorter_input st u"
  by (simp add: same_input_def shorter_input_def)

lemma drain_shorter: "quiet (shorter_input st) (drain_overlong_line lim st)"
proof (induction lim st rule: drain_overlong_line.induct)
  case (1 lim st)
  obtain c st' where cs: "read_chunk lim st = (c, st')" by fastforce
  then obtain r where r: "fo_rest st = c @ r" "st' = st\<lparr>fo_rest := r\<rparr>" by (rule read_chunk_parts)
  obtain w b i where san: "sanitize_surrogateescaped_text c = (w, b, i)" by (cases "sanitize_surrogateescaped_text c")
  let ?u = "count_text b i st'"
  have here: "shorter_input st ?u" "shorter_input st st'" using r by (simp_all add: shorter_input_def)
  show ?case
  proof (cases "c = []")
    case True
    then show ?thesis using cs here by (subst drain_overlong_line.simps) simp
  next
    case False
    have run: "drain_overlong_line lim st = bindE (check_input_bytes lim ?u) (\<lambda>_.
        if ends_with [10] c then Inr ?u else drain_overlong_line lim ?u)"
      by (subst drain_overlong_line.simps) (simp add: cs False san Let_def)
    have "quiet (shorter_input st) (drain_overlong_line lim ?u)" if "\<not> ends_with [10] c"
    proof (rule ensures_mono)
      show "quiet (shorter_input ?u) (drain_overlong_line lim ?u)"
        using 1 [OF cs [symmetric] False san [symmetric] _ _ _ that] by simp
    qed (use here in \<open>auto simp: shorter_input_def\<close>)
    then show ?thesis
      unfolding run using here by (intro ensures_bind [OF ensures_any]) simp
  qed
qed

lemma flush_shorter:
  assumes "shorter_input st v"
    and "\<And>u g'. shorter_input st u \<Longrightarrow> quiet (\<lambda>(u, p, g). shorter_input st u) (f u g')"
  shows "quiet (\<lambda>(u, p, g). shorter_input st u) (bindE (flush_pending lim consume po v g) (\<lambda>(u, g). f u g))"
  by (rule ensures_bind [OF flush_pending_input]) (auto intro!: assms(2) intro: same_shorter [OF _ assms(1)])

lemma perf_line_shorter: "quiet (\<lambda>(u, p, g). shorter_input st u) (perf_line lim dec consume raw po st g)"
proof -
  have refl: "shorter_input st st" by (simp add: shorter_input_def)
  have malformed: "shorter_input st (perf_malformed code message n line u) = shorter_input st u" for code message n line u
    by (simp add: shorter_input_def perf_malformed_def perf_warning_def)
  have unknown: "quiet (\<lambda>(u, p, g). shorter_input st u)
      (bindE (unknown_frame lim v) (\<lambda>(i, w). Inr (count_frame_line w, q i, g)))"
    if "shorter_input st v" for v g and q :: "int \<Rightarrow> pending_record option"
    by (rule ensures_bind [OF unknown_frame_input])
      (use that same_shorter in \<open>auto simp: shorter_input_def count_frame_line_def same_input_def\<close>)
  have over: "quiet (\<lambda>(u, p, g). shorter_input st u) (overlong_line lim consume raw po st g)"
    unfolding overlong_line_def
  proof (rule ensures_bind)
    show "quiet (shorter_input st) (if ends_with [10] raw then Inr st else drain_overlong_line lim st)"
      using refl drain_shorter by simp
    fix v assume v: "shorter_input st v"
    then have "shorter_input st (perf_warning code message n line v)" for code message n line
      by (simp add: shorter_input_def perf_warning_def)
    with v show "quiet (\<lambda>(u, p, g). shorter_input st u) (case (po, starts_blank raw) of
       (Some p, True) \<Rightarrow>
         bindE (unknown_frame lim (perf_warning ''LINE_TOO_LONG''
           ''Overlong callchain line was retained as an unknown Frame'' (fo_line_number v) raw v)) (\<lambda>(i, st).
         Inr (count_frame_line st, Some (append_frame i p), g))
     | _ \<Rightarrow>
         bindE (flush_pending lim consume po v g) (\<lambda>(st, g).
         Inr (perf_malformed ''LINE_TOO_LONG'' ''perf script line exceeds max_line_chars'' (fo_line_number st) raw st,
              None, g)))"
      by (auto split: option.split bool.split simp: malformed intro!: unknown flush_shorter)
  qed
  have blank: "quiet (\<lambda>(u, p, g). shorter_input st u) (blank_line lim consume po st g)"
    unfolding blank_line_def
    by (auto split: option.split intro!: flush_shorter [OF refl]) (simp add: shorter_input_def)
  have frame: "quiet (\<lambda>(u, p, g). shorter_input st u)
      (bindE (frame_or_unknown lim dec t n v) (\<lambda>(i, w). Inr (w, q i, g)))"
    if "shorter_input st v" for t n v g and q :: "int \<Rightarrow> pending_record option"
    by (rule ensures_bind [OF frame_or_unknown_input]) (use that same_shorter in auto)
  have header: "quiet (\<lambda>(u, p, g). shorter_input st u) (header_line lim dec consume h tail po st g)" for h tail
    unfolding header_line_def
    by (rule flush_shorter [OF refl], rule ensures_bind [OF ensures_any]) (auto simp: Let_def intro: frame)
  have chain: "quiet (\<lambda>(u, p, g). shorter_input st u) (bindE (callchain_line lim dec t p st) (\<lambda>(st, p). Inr (st, Some p, g)))"
    for t p
    by (rule ensures_bind [OF callchain_input]) (use refl same_shorter in auto)
  have stray: "quiet (\<lambda>(u, p, g). shorter_input st u) (stray_line lim consume line po st g)" for line
    unfolding stray_line_def by (rule flush_shorter [OF refl]) (simp add: malformed)
  show ?thesis
    unfolding perf_line_def Let_def
    using over blank header chain stray
    by (auto split: option.split bool.split intro!: ensures_bind [OF ensures_any])
qed

lemma perf_step_shorter:
  assumes "perf_step lim dec consume (st, po, g) = Inr (Some (st', po', g'))"
  shows "length (fo_rest st') < length (fo_rest st)"
proof -
  obtain c v where cs: "read_chunk lim st = (c, v)" by fastforce
  then obtain r where r: "fo_rest st = c @ r" "v = st\<lparr>fo_rest := r\<rparr>" by (rule read_chunk_parts)
  obtain w b i where san: "sanitize_surrogateescaped_text c = (w, b, i)" by (cases "sanitize_surrogateescaped_text c")
  define u where "u = count_text b i (v\<lparr>fo_line_number := fo_line_number v + 1\<rparr>)"
  have c: "c \<noteq> []" "perf_line lim dec consume w po u g = Inr (st', po', g')"
    using assms by (auto simp: perf_step_def cs san Let_def u_def split: if_splits)
  have "shorter_input u st'" using ensuresD [OF perf_line_shorter c(2)] by simp
  then show ?thesis using r c(1) by (cases c) (simp_all add: shorter_input_def u_def)
qed

section \<open>The loop\<close>

function perf_loop ::
  "resource_limits \<Rightarrow> decimals \<Rightarrow> 'g consumer \<Rightarrow> 'g perf_run \<Rightarrow> (folded_state \<times> 'g) result" where
  "perf_loop lim dec consume (st, po, g) =
     (case perf_step lim dec consume (st, po, g) of
        Inl e \<Rightarrow> Inl e
      | Inr None \<Rightarrow> flush_pending lim consume po st g
      | Inr (Some (st', po', g')) \<Rightarrow> perf_loop lim dec consume (st', po', g'))"
  by pat_completeness auto

termination
  by (relation "measure (\<lambda>(lim, dec, consume, st, po, g). length (fo_rest st))")
    (auto dest: perf_step_shorter)

declare perf_loop.simps [simp del]

end
