(* ===== verification/PerfScriptProofs.thy ===== *)
theory PerfScriptProofs
  imports PerfScriptLoop
begin

text \<open>
  What the \<open>perf script\<close> parser keeps true: the frames of the open record and of every yielded
  sample are interned, records and frame lines are accounted for, and only the limits and the
  digits of a number can raise.
\<close>

section \<open>Consumers\<close>

text \<open>The consumer that only keeps the samples.\<close>

definition collect :: "stack_sample list consumer" where
  "collect tbl s ss = Inr (ss @ [s])"

abbreviation number_error :: py_error where
  "number_error \<equiv> ValueError ''Exceeds the limit for integer string conversion''"

definition perf_error :: "py_error \<Rightarrow> bool" where
  "perf_error e \<longleftrightarrow> folded_error e \<or> e = number_error"

section \<open>The invariant\<close>

definition valid_id :: "frame_table \<Rightarrow> int \<Rightarrow> bool" where
  "valid_id t i \<longleftrightarrow> 0 \<le> i \<and> (\<exists>f. resolve t i = Inr f)"

definition diag_ok :: "resource_limits \<Rightarrow> parse_diagnostics \<Rightarrow> bool" where
  "diag_ok lim d \<longleftrightarrow> diagnostics_wf d \<and> pd_max_warnings d = rl_max_warnings lim \<and>
     0 \<le> pd_malformed_records d \<and> pd_malformed_records d \<le> pd_skipped_records d \<and>
     pd_malformed_records d \<le> pd_warning_count d \<and> 0 \<le> pd_duplicate_frame_lines d"

definition header_ok :: "perf_header \<Rightarrow> bool" where
  "header_ok h \<longleftrightarrow> 0 \<le> ph_weight h \<and>
     (ph_weight_source h = ascii ''perf_period'' \<or> ph_weight_source h = ascii ''sample_count_fallback'' \<and> ph_weight h = 1)"

definition pending_ok :: "frame_table \<Rightarrow> pending_record \<Rightarrow> bool" where
  "pending_ok t p \<longleftrightarrow> header_ok (pr_header p) \<and> (\<forall>i \<in> set (pr_frames_leaf_to_root p). valid_id t i)"

text \<open>A sample of the parser: interned frames within the depth limit, and a weight that is a period or one.\<close>

definition perf_sample :: "resource_limits \<Rightarrow> frame_table \<Rightarrow> stack_sample \<Rightarrow> bool" where
  "perf_sample lim t s \<longleftrightarrow> ss_frames s \<noteq> [] \<and> int (length (ss_frames s)) \<le> rl_max_stack_depth lim \<and>
     (\<forall>i \<in> set (ss_frames s). valid_id t i) \<and> 0 \<le> ss_weight s \<and>
     (ss_weight_source s = ascii ''perf_period'' \<and> ss_weight_unit s = perf_period_unit (ss_event s) \<or>
      ss_weight_source s = ascii ''sample_count_fallback'' \<and> ss_weight_unit s = ascii ''sample_count'' \<and> ss_weight s = 1)"

definition frame_total :: "stack_sample list \<Rightarrow> int" where
  "frame_total ss = sum_list (map (\<lambda>s. int (length (ss_frames s))) ss)"

definition open_frames :: "pending_record option \<Rightarrow> int" where
  "open_frames po = (case po of None \<Rightarrow> 0 | Some p \<Rightarrow> int (length (pr_frames_leaf_to_root p)))"

definition run_ok :: "resource_limits \<Rightarrow> folded_state \<Rightarrow> pending_record option \<Rightarrow> stack_sample list \<Rightarrow> bool" where
  "run_ok lim st po ss \<longleftrightarrow>
     (let d = fo_diagnostics st; t = fo_frame_table st in
      diag_ok lim d \<and> table_fits lim st \<and> (\<forall>s \<in> set ss. perf_sample lim t s) \<and>
      pd_parsed_records d = int (length ss) \<and>
      pd_parsed_records d + (if po = None then 0 else 1) \<le> rl_max_records lim \<and>
      (\<forall>p. po = Some p \<longrightarrow> pending_ok t p) \<and>
      (pd_malformed_records d = 0 \<longrightarrow>
         pd_frame_lines d = frame_total ss + pd_duplicate_frame_lines d + open_frames po))"

definition input_ok :: "resource_limits \<Rightarrow> pytext \<Rightarrow> folded_state \<Rightarrow> bool" where
  "input_ok lim text st \<longleftrightarrow> progress text st \<and> pd_bytes_read (fo_diagnostics st) \<le> rl_max_input_bytes lim"

lemma input_ok_same: "same_input st u \<Longrightarrow> input_ok lim text st \<Longrightarrow> input_ok lim text u"
  by (simp add: input_ok_def progress_def same_input_def)

lemma frame_total_simps [simp]:
  "frame_total [] = 0" "frame_total (ss @ [s]) = frame_total ss + int (length (ss_frames s))"
  by (simp_all add: frame_total_def)

lemma open_frames_simps [simp]:
  "open_frames None = 0" "open_frames (Some p) = int (length (pr_frames_leaf_to_root p))"
  by (simp_all add: open_frames_def)

lemma valid_id_grows: "grows t u \<Longrightarrow> valid_id t i \<Longrightarrow> valid_id u i"
  by (auto simp: valid_id_def grows_def)

lemma pending_ok_grows: "grows t u \<Longrightarrow> pending_ok t p \<Longrightarrow> pending_ok u p"
  by (auto simp: pending_ok_def intro: valid_id_grows)

lemma perf_sample_grows: "grows t u \<Longrightarrow> perf_sample lim t s \<Longrightarrow> perf_sample lim u s"
  by (auto simp: perf_sample_def intro: valid_id_grows)

lemma diag_ok_warning: "diag_ok lim (fo_diagnostics st) \<Longrightarrow> diag_ok lim (fo_diagnostics (perf_warning code message n raw st))"
  using diagnostics_wf_add [of "fo_diagnostics st"]
  by (simp add: diag_ok_def perf_warning_def) (simp add: add_warning_def Let_def)

lemma warning_fields [simp]:
  "fo_frame_table (perf_warning code message n raw st) = fo_frame_table st"
  "pd_parsed_records (fo_diagnostics (perf_warning code message n raw st)) = pd_parsed_records (fo_diagnostics st)"
  "pd_skipped_records (fo_diagnostics (perf_warning code message n raw st)) = pd_skipped_records (fo_diagnostics st)"
  "pd_malformed_records (fo_diagnostics (perf_warning code message n raw st)) = pd_malformed_records (fo_diagnostics st)"
  "pd_duplicate_frame_lines (fo_diagnostics (perf_warning code message n raw st)) = pd_duplicate_frame_lines (fo_diagnostics st)"
  "pd_frame_lines (fo_diagnostics (perf_warning code message n raw st)) = pd_frame_lines (fo_diagnostics st)"
  by (simp_all add: perf_warning_def add_warning_def Let_def)

lemma perf_malformed_fields [simp]:
  "fo_frame_table (perf_malformed code message n raw st) = fo_frame_table st"
  "pd_parsed_records (fo_diagnostics (perf_malformed code message n raw st)) = pd_parsed_records (fo_diagnostics st)"
  "pd_malformed_records (fo_diagnostics (perf_malformed code message n raw st)) = pd_malformed_records (fo_diagnostics st) + 1"
  by (simp_all add: perf_malformed_def)

lemma diag_ok_malformed:
  "diag_ok lim (fo_diagnostics st) \<Longrightarrow> diag_ok lim (fo_diagnostics (perf_malformed code message n raw st))"
  using diagnostics_wf_add [of "(fo_diagnostics st)\<lparr>pd_malformed_records := pd_malformed_records (fo_diagnostics st) + 1,
      pd_skipped_records := pd_skipped_records (fo_diagnostics st) + 1\<rparr>"]
  by (simp add: diag_ok_def perf_malformed_def perf_warning_def diagnostics_wf_def)
    (auto simp: add_warning_def Let_def)

text \<open>A malformed record ends the accounting of frame lines.\<close>

lemma run_ok_malformed:
  assumes "run_ok lim st None ss"
  shows "run_ok lim (perf_malformed code message n raw st) None ss"
  using assms diag_ok_malformed [of lim st code message n raw]
  by (auto simp: run_ok_def Let_def table_fits_def diag_ok_def)

section \<open>Frames\<close>

text \<open>A step that interns frames and counts \<open>n\<close> frame lines.\<close>

definition frames_step :: "resource_limits \<Rightarrow> int \<Rightarrow> folded_state \<Rightarrow> folded_state \<Rightarrow> bool" where
  "frames_step lim n st u \<longleftrightarrow> same_input st u \<and> table_fits lim u \<and> grows (fo_frame_table st) (fo_frame_table u) \<and>
     (diag_ok lim (fo_diagnostics st) \<longrightarrow> diag_ok lim (fo_diagnostics u)) \<and>
     pd_parsed_records (fo_diagnostics u) = pd_parsed_records (fo_diagnostics st) \<and>
     pd_malformed_records (fo_diagnostics u) = pd_malformed_records (fo_diagnostics st) \<and>
     pd_duplicate_frame_lines (fo_diagnostics u) = pd_duplicate_frame_lines (fo_diagnostics st) \<and>
     pd_frame_lines (fo_diagnostics u) = pd_frame_lines (fo_diagnostics st) + n"

lemma frames_step_refl: "table_fits lim st \<Longrightarrow> frames_step lim 0 st st"
  by (simp add: frames_step_def)

lemma frames_step_trans: "frames_step lim m st u \<Longrightarrow> frames_step lim n u v \<Longrightarrow> frames_step lim (m + n) st v"
  by (auto simp: frames_step_def intro: same_input_trans grows_trans)

lemma frames_step_warning:
  "frames_step lim n st u \<Longrightarrow> frames_step lim n st (perf_warning code message k raw u)"
  using diag_ok_warning [of lim u code message k raw] by (auto simp: frames_step_def table_fits_def)

lemma frames_step_count: "frames_step lim n st u \<Longrightarrow> frames_step lim (n + 1) st (count_frame_line u)"
  by (auto simp: frames_step_def)
    (simp_all add: count_frame_line_def table_fits_def diag_ok_def diagnostics_wf_def)

lemma frames_step_fits: "frames_step lim n st u \<Longrightarrow> table_fits lim u"
  by (simp add: frames_step_def)

lemma frames_step_diag:
  "frames_step lim n st u \<Longrightarrow> frames_step lim n st
     (on_diagnostics (\<lambda>d. d\<lparr>pd_source_annotation_lines := pd_source_annotation_lines d + 1\<rparr>) u)"
  "frames_step lim n st u \<Longrightarrow> frames_step lim n st
     (on_diagnostics (\<lambda>d. d\<lparr>pd_address_annotation_lines := pd_address_annotation_lines d + 1\<rparr>) u)"
  by (auto simp: frames_step_def same_input_def table_fits_def diag_ok_def diagnostics_wf_def)

lemma intern_limited_ok:
  assumes "table_fits lim st"
  shows "ensures perf_error (\<lambda>(i, u). frames_step lim 0 st u \<and> 0 \<le> i \<and> resolve (fo_frame_table u) i = Inr key)
    (intern_limited lim key st)"
proof -
  let ?t = "fo_frame_table st"
  have wf: "frame_table_wf ?t" using assms by (simp add: table_fits_def)
  show ?thesis
    using frames.intern_wf [OF wf, of key] frames.resolve_interned [OF wf, of key]
      frames.intern_id [OF wf, of key] frames.resolve_stable [OF wf, of _ _ key] frames.intern_count [of ?t key] assms
    by (auto simp: intern_limited_def bindE_raise_if perf_error_def folded_error_def grows_def frames_step_def
        same_input_def table_fits_def Let_def split: prod.splits)
qed

lemma unknown_frame_ok:
  assumes "table_fits lim st"
  shows "ensures perf_error (\<lambda>(i, u). frames_step lim 0 st u \<and> valid_id (fo_frame_table u) i) (unknown_frame lim st)"
  unfolding unknown_frame_def by (rule ensures_mono [OF intern_limited_ok [OF assms]]) (auto simp: valid_id_def)

lemma int_of_ok: "ensures perf_error (\<lambda>_. True) (int_of dec t)"
  by (simp add: int_of_def perf_error_def split: option.split)

lemma int_of_opt_ok: "ensures perf_error (\<lambda>_. True) (int_of_opt dec t)"
  unfolding int_of_opt_def by (auto split: option.split intro!: ensures_bind [OF int_of_ok])

lemma parse_source_ok: "ensures perf_error (\<lambda>_. True) (parse_source dec source)"
  unfolding parse_source_def
  by (auto split: option.split intro!: ensures_bind [OF int_of_ok] ensures_bind [OF int_of_opt_ok])

lemma perf_frame_key_ok: "ensures perf_error (\<lambda>_. True) (perf_frame_key dec ip parts)"
  unfolding perf_frame_key_def by (auto simp: Let_def split: prod.split intro!: ensures_bind [OF parse_source_ok])

definition frame_parsed :: "resource_limits \<Rightarrow> folded_state \<Rightarrow> int option \<times> folded_state \<Rightarrow> bool" where
  "frame_parsed lim st = (\<lambda>(fi, u). case fi of
     None \<Rightarrow> frames_step lim 0 st u
   | Some i \<Rightarrow> frames_step lim 1 st u \<and> valid_id (fo_frame_table u) i)"

lemma parse_frame_ok:
  assumes "table_fits lim st"
  shows "ensures perf_error (frame_parsed lim st) (parse_frame lim dec t n st)"
proof -
  note refl = frames_step_refl [OF assms]
  have interned: "ensures perf_error (frame_parsed lim st) (bindE (perf_frame_key dec ip parts) (\<lambda>key.
      bindE (intern_limited lim key v) (\<lambda>(i, w). Inr (Some i, count_frame_line w))))"
    if v: "frames_step lim 0 st v" for ip parts v
  proof (rule ensures_bind [OF perf_frame_key_ok])
    fix key :: frame_key
    show "ensures perf_error (frame_parsed lim st)
        (bindE (intern_limited lim key v) (\<lambda>(i, w). Inr (Some i, count_frame_line w)))"
    proof (rule ensures_bind [OF intern_limited_ok [OF frames_step_fits [OF v]]], clarify)
      fix i w assume w: "frames_step lim 0 v w" "0 \<le> i" "resolve (fo_frame_table w) i = Inr key"
      from frames_step_count [OF frames_step_trans [OF v w(1)]] w(2,3)
      show "ensures perf_error (frame_parsed lim st) (Inr (Some i, count_frame_line w))"
        by (auto simp: frame_parsed_def valid_id_def count_frame_line_def)
    qed
  qed
  have bad: "frame_parsed lim st (None, perf_warning code message n t st)" for code message
    using frames_step_warning [OF refl] by (simp add: frame_parsed_def)
  show ?thesis
    unfolding parse_frame_def Let_def
    using bad interned [OF refl] interned [OF frames_step_warning [OF refl]] by (simp split: option.split)
qed

lemma frame_or_unknown_ok:
  assumes "table_fits lim st"
  shows "ensures perf_error (\<lambda>(i, u). frames_step lim 1 st u \<and> valid_id (fo_frame_table u) i)
    (frame_or_unknown lim dec t n st)"
  unfolding frame_or_unknown_def
proof (rule ensures_bind [OF parse_frame_ok [OF assms]], clarify)
  fix fi v assume v: "frame_parsed lim st (fi, v)"
  show "ensures perf_error (\<lambda>(i, u). frames_step lim 1 st u \<and> valid_id (fo_frame_table u) i)
     (case fi of Some i \<Rightarrow> Inr (i, v) | None \<Rightarrow> bindE (unknown_frame lim v) (\<lambda>(i, st). Inr (i, count_frame_line st)))"
  proof (cases fi)
    case None
    then have v: "frames_step lim 0 st v" using v by (simp add: frame_parsed_def)
    have "ensures perf_error (\<lambda>(i, u). frames_step lim 1 st u \<and> valid_id (fo_frame_table u) i)
        (bindE (unknown_frame lim v) (\<lambda>(i, st). Inr (i, count_frame_line st)))"
      by (rule ensures_bind [OF unknown_frame_ok [OF frames_step_fits [OF v]]])
        (auto dest!: frames_step_count [OF frames_step_trans [OF v]] simp: count_frame_line_def)
    then show ?thesis using None by simp
  qed (use v in \<open>simp add: frame_parsed_def\<close>)
qed

section \<open>Annotations\<close>

text \<open>An annotation replaces the last frame at most, and counts no frame line.\<close>

definition annotation_post :: "resource_limits \<Rightarrow> folded_state \<Rightarrow> pending_record \<Rightarrow> bool \<times> pending_record \<times> folded_state \<Rightarrow> bool" where
  "annotation_post lim st p = (\<lambda>(consumed, p', u). frames_step lim 0 st u \<and> pending_ok (fo_frame_table u) p' \<and>
     length (pr_frames_leaf_to_root p') = length (pr_frames_leaf_to_root p))"

lemma consume_source_ok:
  assumes "table_fits lim st" "pending_ok (fo_frame_table st) p" "pr_frames_leaf_to_root p \<noteq> []"
  shows "ensures perf_error (annotation_post lim st p) (consume_source_annotation lim dec t previous p st)"
proof -
  let ?p = "\<lambda>i. p\<lparr>pr_frames_leaf_to_root := butlast (pr_frames_leaf_to_root p) @ [i]\<rparr>"
  have here: "annotation_post lim st p (b, p, st)" for b
    using assms frames_step_refl by (simp add: annotation_post_def)
  have replaced: "annotation_post lim st p (True, ?p i,
      on_diagnostics (\<lambda>d. d\<lparr>pd_source_annotation_lines := pd_source_annotation_lines d + 1\<rparr>) u)"
    if u: "frames_step lim 0 st u" and i: "0 \<le> i" "resolve (fo_frame_table u) i = Inr key" for i u key
  proof -
    have "pending_ok (fo_frame_table u) p" using u assms(2) by (auto simp: frames_step_def intro: pending_ok_grows)
    then have "pending_ok (fo_frame_table u) (?p i)"
      using i by (auto simp: pending_ok_def valid_id_def dest: in_set_butlastD)
    then show ?thesis using frames_step_diag(1) [OF u] assms(3) by (simp add: annotation_post_def)
  qed
  have interned: "ensures perf_error (annotation_post lim st p) (bindE (intern_limited lim key st) (\<lambda>(i, st).
      Inr (True, ?p i, on_diagnostics (\<lambda>d. d\<lparr>pd_source_annotation_lines := pd_source_annotation_lines d + 1\<rparr>) st)))" for key
    by (rule ensures_bind [OF intern_limited_ok [OF assms(1)]]) (use replaced in auto)
  show ?thesis
    unfolding consume_source_annotation_def
    using here interned by (auto split: option.split intro!: ensures_bind [OF parse_source_ok])
qed

lemma valid_resolve: "valid_id t i \<Longrightarrow> ensures perf_error (\<lambda>_. True) (resolve t i)"
  by (auto simp: valid_id_def)

lemma consume_annotation_ok:
  assumes "table_fits lim st" "pending_ok (fo_frame_table st) p"
  shows "ensures perf_error (annotation_post lim st p) (consume_frame_annotation lim dec t p st)"
proof (cases "pr_frames_leaf_to_root p = []")
  case True
  then show ?thesis
    using assms frames_step_refl by (simp add: consume_frame_annotation_def annotation_post_def)
next
  case False
  then have last: "valid_id (fo_frame_table st) (last (pr_frames_leaf_to_root p))" using assms(2) by (simp add: pending_ok_def)
  have here: "annotation_post lim st p (b, p, st)" for b
    using assms frames_step_refl by (simp add: annotation_post_def)
  have counted: "annotation_post lim st p (True, p,
      on_diagnostics (\<lambda>d. d\<lparr>pd_address_annotation_lines := pd_address_annotation_lines d + 1\<rparr>) st)"
    using assms frames_step_diag(2) [OF frames_step_refl [OF assms(1)]] by (simp add: annotation_post_def)
  show ?thesis
    unfolding consume_frame_annotation_def if_not_P [OF False]
    by (rule ensures_bind [OF valid_resolve [OF last]])
      (use here counted consume_source_ok [OF assms False] in \<open>auto split: option.split\<close>)
qed

definition chain_post :: "resource_limits \<Rightarrow> folded_state \<Rightarrow> pending_record \<Rightarrow> folded_state \<times> pending_record \<Rightarrow> bool" where
  "chain_post lim st p = (\<lambda>(u, p'). pending_ok (fo_frame_table u) p' \<and>
     frames_step lim (int (length (pr_frames_leaf_to_root p')) - int (length (pr_frames_leaf_to_root p))) st u)"

lemma append_frame_ok: "pending_ok t p \<Longrightarrow> valid_id t i \<Longrightarrow> pending_ok t (append_frame i p)"
  by (auto simp: pending_ok_def append_frame_def)

lemma append_frame_simps [simp]:
  "pr_frames_leaf_to_root (append_frame i p) = pr_frames_leaf_to_root p @ [i]" "pr_header (append_frame i p) = pr_header p"
  by (simp_all add: append_frame_def)

lemma callchain_ok:
  assumes "table_fits lim st" "pending_ok (fo_frame_table st) p"
  shows "ensures perf_error (chain_post lim st p) (callchain_line lim dec t p st)"
proof -
  have frame: "ensures perf_error (chain_post lim st p)
      (bindE (frame_or_unknown lim dec t n v) (\<lambda>(i, w). Inr (w, append_frame i q)))"
    if v: "frames_step lim 0 st v" "pending_ok (fo_frame_table v) q"
      "length (pr_frames_leaf_to_root q) = length (pr_frames_leaf_to_root p)" for n v q
  proof (rule ensures_bind [OF frame_or_unknown_ok [OF frames_step_fits [OF v(1)]]], clarify)
    fix i w assume w: "frames_step lim 1 v w" "valid_id (fo_frame_table w) i"
    have "pending_ok (fo_frame_table w) q" using w(1) v(2) by (auto simp: frames_step_def intro: pending_ok_grows)
    then show "ensures perf_error (chain_post lim st p) (Inr (w, append_frame i q))"
      using frames_step_trans [OF v(1) w(1)] append_frame_ok w(2) v(3) by (simp add: chain_post_def)
  qed
  have rest: "ensures perf_error (chain_post lim st p)
      (if consumed then Inr (v, q) else if b then Inr (perf_warning code message n t v, q)
       else bindE (frame_or_unknown lim dec t n v) (\<lambda>(i, w). Inr (w, append_frame i q)))"
    if "annotation_post lim st p (consumed, q, v)" for consumed q v b code message n
    using that frame [of v q] frames_step_warning by (auto simp: annotation_post_def chain_post_def)
  show ?thesis
    unfolding callchain_line_def
    using rest frame [OF frames_step_refl [OF assms(1)] assms(2)]
    by (auto intro!: ensures_bind [OF consume_annotation_ok [OF assms]])
qed

end
