(* ===== verification/PerfScriptRuns.thy ===== *)
theory PerfScriptRuns
  imports PerfScriptProofs
begin

text \<open>
  Runs of the \<open>perf script\<close> parser that keep the samples: every line keeps the invariant, the loop
  ends with the whole input read, and the errors are those of the parser.
\<close>

section \<open>Finishing a record\<close>

lemma repeats_header_ok:
  assumes "pending_ok t p"
  shows "ensures perf_error (\<lambda>b. b \<longrightarrow> 2 \<le> length (pr_frames_leaf_to_root p)) (repeats_header_frame t p)"
proof (cases "pr_frames_leaf_to_root p")
  case (Cons a as)
  show ?thesis
  proof (cases as)
    case bs: (Cons b bs)
    then have "valid_id t a" "valid_id t b" using assms Cons by (simp_all add: pending_ok_def)
    then have "ensures perf_error (\<lambda>_. True) (same_physical_frame t a b)"
      by (auto simp: same_physical_frame_def valid_id_def)
    then show ?thesis
      using Cons bs by (auto simp: repeats_header_frame_def elim: ensures_mono split: option.split)
  qed (simp add: repeats_header_frame_def Cons split: option.split)
qed (simp add: repeats_header_frame_def split: option.split)

lemma record_sample_ok:
  assumes "pending_ok t p" "frames \<noteq> []" "set frames \<subseteq> set (pr_frames_leaf_to_root p)"
    "int (length frames) \<le> rl_max_stack_depth lim"
  shows "perf_sample lim t (record_sample (pr_header p) frames)"
  using assms by (auto simp: perf_sample_def record_sample_def pending_ok_def header_ok_def ascii_def)

definition finish_post ::
  "resource_limits \<Rightarrow> folded_state \<Rightarrow> stack_sample list \<Rightarrow> stack_sample option \<times> folded_state \<Rightarrow> bool" where
  "finish_post lim st ss = (\<lambda>(parsed, u). same_input st u \<and> fo_frame_table u = fo_frame_table st \<and>
     run_ok lim u None (case parsed of None \<Rightarrow> ss | Some s \<Rightarrow> ss @ [s]))"

lemma finish_record_ok:
  assumes run: "run_ok lim st (Some p) ss"
  shows "ensures perf_error (finish_post lim st ss) (finish_record lim p st)"
proof -
  let ?t = "fo_frame_table st" and ?fs = "pr_frames_leaf_to_root p"
  have p: "pending_ok ?t p" using run by (simp add: run_ok_def Let_def)
  have outcome: "ensures perf_error (finish_post lim st ss)
      (if frames = [] then Inr (None, perf_malformed c1 m1 n raw u)
       else if int (length frames) > rl_max_stack_depth lim then Inr (None, perf_malformed c2 m2 n raw u)
       else Inr (Some (record_sample (pr_header p) frames),
              on_diagnostics (\<lambda>d. d\<lparr>pd_parsed_records := pd_parsed_records d + 1\<rparr>) u))"
    if u: "same_input st u" "fo_frame_table u = ?t" and frames: "set frames \<subseteq> set ?fs"
      and diag: "fo_diagnostics u = (fo_diagnostics st)\<lparr>pd_duplicate_frame_lines := pd_duplicate_frame_lines (fo_diagnostics st) + k\<rparr>"
      and k: "0 \<le> k" "int (length frames) + k = int (length ?fs)"
    for frames u k c1 m1 c2 m2 n raw
  proof -
    have bad: "run_ok lim (perf_malformed c m n raw u) None ss" for c m
    proof -
      have "diag_ok lim (fo_diagnostics (perf_malformed c m n raw u))"
        using run k(1) diag by (intro diag_ok_malformed) (auto simp: run_ok_def Let_def diag_ok_def diagnostics_wf_def)
      then show ?thesis
        using run u diag by (auto simp: run_ok_def Let_def table_fits_def diag_ok_def)
    qed
    have good: "run_ok lim (on_diagnostics (\<lambda>d. d\<lparr>pd_parsed_records := pd_parsed_records d + 1\<rparr>) u) None
        (ss @ [record_sample (pr_header p) frames])"
      if "frames \<noteq> []" "int (length frames) \<le> rl_max_stack_depth lim"
    proof -
      have "perf_sample lim ?t (record_sample (pr_header p) frames)" using p that(1) frames that(2) by (rule record_sample_ok)
      moreover have "length (ss_frames (record_sample (pr_header p) frames)) = length frames" by (simp add: record_sample_def)
      ultimately show ?thesis
        using run u diag k by (auto simp: run_ok_def Let_def table_fits_def diag_ok_def diagnostics_wf_def)
    qed
    show ?thesis
      using bad good u by (auto simp: finish_post_def not_less) (simp add: same_input_def)
  qed
  show ?thesis
    unfolding finish_record_def
  proof (rule ensures_bind [OF repeats_header_ok [OF p]])
    fix repeated assume two: "repeated \<longrightarrow> 2 \<le> length ?fs"
    have tail: "set (tl ?fs) \<subseteq> set ?fs" by (cases ?fs) auto
    show "ensures perf_error (finish_post lim st ss) (let (frames, st) =
           (if repeated
            then (tl ?fs, on_diagnostics (\<lambda>d. d\<lparr>pd_duplicate_frame_lines := pd_duplicate_frame_lines d + 1\<rparr>) st)
            else (?fs, st))
     in if frames = [] then
          Inr (None, perf_malformed ''MISSING_CALLCHAIN'' ''perf script record contains no parseable frame''
            (pr_line_number p) (ph_command (pr_header p)) st)
        else if int (length frames) > rl_max_stack_depth lim then
          Inr (None, perf_malformed ''STACK_TOO_DEEP'' ''perf script record exceeds max_stack_depth''
            (pr_line_number p) (ph_command (pr_header p)) st)
        else Inr (Some (record_sample (pr_header p) frames),
               on_diagnostics (\<lambda>d. d\<lparr>pd_parsed_records := pd_parsed_records d + 1\<rparr>) st))"
    proof (cases repeated)
      case True
      let ?u = "on_diagnostics (\<lambda>d. d\<lparr>pd_duplicate_frame_lines := pd_duplicate_frame_lines d + 1\<rparr>) st"
      have "same_input st ?u" by (simp add: same_input_def)
      from outcome [OF this _ tail, of 1] show ?thesis using True two by simp
    next
      case False
      from outcome [of st ?fs 0] show ?thesis using False by simp
    qed
  qed
qed

definition grows_to :: "folded_state \<Rightarrow> folded_state \<Rightarrow> bool" where
  "grows_to st u \<longleftrightarrow> grows (fo_frame_table st) (fo_frame_table u)"

definition flush_post ::
  "resource_limits \<Rightarrow> folded_state \<Rightarrow> stack_sample list \<Rightarrow> folded_state \<times> stack_sample list \<Rightarrow> bool" where
  "flush_post lim st ss = (\<lambda>(u, ss'). same_input st u \<and> fo_frame_table u = fo_frame_table st \<and> run_ok lim u None ss' \<and>
     (\<exists>new. ss' = ss @ new))"

lemma flush_ok:
  assumes "run_ok lim st po ss"
  shows "ensures perf_error (flush_post lim st ss) (flush_pending lim collect po st ss)"
proof (cases po)
  case None
  then show ?thesis using assms by (simp add: flush_pending_def flush_post_def)
next
  case (Some p)
  then have "run_ok lim st (Some p) ss" using assms by simp
  then show ?thesis
    unfolding flush_pending_def Some option.case
    by (intro ensures_bind [OF finish_record_ok])
      (auto simp: finish_post_def flush_post_def collect_def split: option.splits)
qed

section \<open>Reading\<close>

text \<open>A step of the reader changes the rest of the input and two counters.\<close>

definition only_read :: "folded_state \<Rightarrow> folded_state \<Rightarrow> bool" where
  "only_read st u \<longleftrightarrow> (\<exists>r b i. u = count_text b i (st\<lparr>fo_rest := r\<rparr>))"

lemma only_read_refl: "only_read st st"
  unfolding only_read_def by (intro exI [of _ "fo_rest st"] exI [of _ 0]) (simp add: count_text_def)

lemma only_read_trans:
  assumes "only_read st u" "only_read u v"
  shows "only_read st v"
proof -
  obtain r b i r' b' i' where "u = count_text b i (st\<lparr>fo_rest := r\<rparr>)" "v = count_text b' i' (u\<lparr>fo_rest := r'\<rparr>)"
    using assms by (auto simp: only_read_def)
  then have "v = count_text (b + b') (i + i') (st\<lparr>fo_rest := r'\<rparr>)" by (simp add: count_text_def)
  then show ?thesis by (auto simp: only_read_def)
qed

lemma run_ok_read:
  assumes "only_read st u"
  shows "run_ok lim u po ss = run_ok lim st po ss"
proof -
  obtain r b i where "u = count_text b i (st\<lparr>fo_rest := r\<rparr>)" using assms by (auto simp: only_read_def)
  then show ?thesis
    by (simp add: run_ok_def Let_def count_text_def table_fits_def diag_ok_def diagnostics_wf_def)
qed

lemma run_ok_line_number [simp]: "run_ok lim (st\<lparr>fo_line_number := n\<rparr>) po ss = run_ok lim st po ss"
  by (simp add: run_ok_def table_fits_def)

lemma only_read_table: "only_read st u \<Longrightarrow> fo_frame_table u = fo_frame_table st"
  by (auto simp: only_read_def)

lemma input_count:
  assumes "input_ok lim text st" "fo_rest st = c @ r" "sanitize_surrogateescaped_text c = (w, b, i)"
  shows "ensures perf_error (\<lambda>_. input_ok lim text (count_text b i (st\<lparr>fo_rest := r\<rparr>)))
    (check_input_bytes lim (count_text b i (st\<lparr>fo_rest := r\<rparr>)))"
proof -
  have "progress text (count_text b i (st\<lparr>fo_rest := r\<rparr>))"
    using assms by (intro progress_count) (auto simp: input_ok_def)
  then show ?thesis
    by (auto simp: check_input_bytes_def ensures_raise_if perf_error_def folded_error_def input_ok_def)
qed

lemma perf_drain_ok:
  "input_ok lim text st \<Longrightarrow> ensures perf_error (\<lambda>u. input_ok lim text u \<and> only_read st u) (drain_overlong_line lim st)"
proof (induction lim st rule: drain_overlong_line.induct)
  case (1 lim st)
  obtain c st' where cs: "read_chunk lim st = (c, st')" by fastforce
  then obtain r where r: "fo_rest st = c @ r" "st' = st\<lparr>fo_rest := r\<rparr>" by (rule read_chunk_parts)
  obtain w b i where san: "sanitize_surrogateescaped_text c = (w, b, i)" by (cases "sanitize_surrogateescaped_text c")
  let ?u = "count_text b i st'"
  have read: "only_read st ?u" using r by (auto simp: only_read_def)
  show ?case
  proof (cases "c = []")
    case True
    then have "st' = st" using r by simp
    then have "drain_overlong_line lim st = Inr st" using True cs by (subst drain_overlong_line.simps) simp
    then show ?thesis using 1(2) only_read_refl by simp
  next
    case False
    have run: "drain_overlong_line lim st = bindE (check_input_bytes lim ?u) (\<lambda>_.
        if ends_with [10] c then Inr ?u else drain_overlong_line lim ?u)"
      by (subst drain_overlong_line.simps) (simp add: cs False san Let_def)
    show ?thesis
      unfolding run
    proof (rule ensures_bind)
      show "ensures perf_error (\<lambda>_. input_ok lim text ?u) (check_input_bytes lim ?u)"
        using input_count [OF 1(2) r(1) san] r(2) by simp
      fix x assume u: "input_ok lim text ?u"
      have "ensures perf_error (\<lambda>u. input_ok lim text u \<and> only_read st u) (drain_overlong_line lim ?u)"
        if "\<not> ends_with [10] c"
      proof (rule ensures_mono)
        show "ensures perf_error (\<lambda>v. input_ok lim text v \<and> only_read ?u v) (drain_overlong_line lim ?u)"
          using 1(1) [OF cs [symmetric] False san [symmetric] _ _ _ that u] by simp
      qed (use read in \<open>auto intro: only_read_trans\<close>)
      with u read show "ensures perf_error (\<lambda>u. input_ok lim text u \<and> only_read st u)
          (if ends_with [10] c then Inr ?u else drain_overlong_line lim ?u)" by simp
    qed
  qed
qed

end
