(* ===== verification/PerfScriptLines.thy ===== *)
theory PerfScriptLines
  imports PerfScriptRuns
begin

text \<open>
  One line of the \<open>perf script\<close> parser, split into what happens before the open record is
  finished, the record to finish, and what happens after. Only the middle part sees the consumer.
\<close>

section \<open>Headers\<close>

lemma set_strip: "set (strip s) \<subseteq> set s"
proof -
  have "set (rstrip u) \<subseteq> set u" for u
    using set_dropWhileD [of _ is_space "rev u"] by (auto simp: rstrip_def)
  then show ?thesis using set_dropWhileD [of _ is_space s] by (fastforce simp: strip_def lstrip_def)
qed

lemma py_int_digits_nonneg:
  assumes "list_all (is_digit dec) t" "py_int dec t = Some n"
  shows "0 \<le> n"
proof -
  have "45 \<notin> set t" using assms(1) by (auto simp: list_all_iff is_digit_def digit_value_def)
  then have "45 \<notin> set (strip t)" using set_strip by blast
  then have "\<not> (case strip t of [] \<Rightarrow> False | c # _ \<Rightarrow> c = 45)" by (auto split: list.splits)
  then show ?thesis
    using assms(2) by (auto simp: py_int_def Let_def split: option.splits if_splits)
qed

lemma int_of_digits: "list_all (is_digit dec) t \<Longrightarrow> ensures perf_error (\<lambda>n. 0 \<le> n) (int_of dec t)"
  by (auto simp: int_of_def perf_error_def dest: py_int_digits_nonneg split: option.split)

lemma first_match_in: "first_match rs s = Some c \<Longrightarrow> \<exists>r \<in> set rs. fullmatch r s = Some c"
  by (induction rs) (auto split: option.splits)

lemma period_group: "r \<in> set (perf_header_res dec) \<Longrightarrow> (''period'', q) \<in> set (groups r) \<Longrightarrow> q = Chars (is_digit dec) 1 None"
  by (auto simp: perf_header_res_def perf_header_re_def ids_slash_def ids_split_def ids_legacy_def cpu_part_def)

lemma period_digits:
  assumes "first_match (perf_header_res dec) s = Some c" "group_opt c ''period'' = Some t"
  shows "list_all (is_digit dec) t"
proof -
  obtain r where r: "r \<in> set (perf_header_res dec)" "fullmatch r s = Some c" using first_match_in [OF assms(1)] by blast
  have "(''period'', t) \<in> set c" using assms(2) by (auto simp: group_opt_def dest: map_of_SomeD)
  from derives_groups [OF fullmatch_derives [OF r(2)] this] obtain q c' where
    "(''period'', q) \<in> set (groups r)" "derives q t c'" by blast
  with period_group [OF r(1)] show ?thesis by fastforce
qed

lemma parse_perf_header_ok:
  "ensures perf_error (\<lambda>h. \<forall>x tail. h = Some (x, tail) \<longrightarrow> header_ok x) (parse_perf_header dec line)"
proof (cases "first_match (perf_header_res dec) line")
  case (Some c)
  have weight: "ensures perf_error (\<lambda>n. 0 \<le> n \<and> (group_opt c ''period'' = None \<longrightarrow> n = 1))
      (case group_opt c ''period'' of None \<Rightarrow> Inr 1 | Some t \<Rightarrow> int_of dec t)"
    using int_of_digits period_digits [OF Some] by (auto split: option.split)
  have "ensures perf_error (\<lambda>(x, tail). header_ok x) (header_of dec c)"
    unfolding header_of_def
    by (intro ensures_bind [OF weight] ensures_bind [OF int_of_ok] ensures_bind [OF int_of_opt_ok])
      (auto split: option.split intro!: ensures_bind [OF int_of_opt_ok] ensures_bind [OF int_of_ok] simp: header_ok_def)
  then show ?thesis
    using Some by (auto simp: parse_perf_header_def intro!: ensures_bind)
qed (simp add: parse_perf_header_def)

section \<open>The parts of a line\<close>

type_synonym line_rest = "folded_state \<Rightarrow> (folded_state \<times> pending_record option) result"

definition open_record :: "resource_limits \<Rightarrow> decimals \<Rightarrow> perf_header \<Rightarrow> pytext \<Rightarrow> line_rest" where
  "open_record lim dec header tail st =
     bindE (check_record_limit lim st) (\<lambda>_.
     let p = \<lparr>pr_header = header, pr_line_number = fo_line_number st, pr_frames_leaf_to_root = [],
              pr_header_frame_id = None\<rparr>
     in if tail = [] then Inr (st, Some p)
        else bindE (frame_or_unknown lim dec tail (fo_line_number st) st) (\<lambda>(i, st).
             Inr (st, Some ((append_frame i p)\<lparr>pr_header_frame_id := Some i\<rparr>))))"

definition overlong_frame :: "resource_limits \<Rightarrow> pytext \<Rightarrow> pending_record \<Rightarrow> line_rest" where
  "overlong_frame lim raw p st =
     bindE (unknown_frame lim (perf_warning ''LINE_TOO_LONG''
       ''Overlong callchain line was retained as an unknown Frame'' (fo_line_number st) raw st)) (\<lambda>(i, st).
     Inr (count_frame_line st, Some (append_frame i p)))"

definition close_malformed :: "string \<Rightarrow> string \<Rightarrow> pytext \<Rightarrow> line_rest" where
  "close_malformed code message raw st = Inr (perf_malformed code message (fo_line_number st) raw st, None)"

definition line_plan ::
  "resource_limits \<Rightarrow> decimals \<Rightarrow> pytext \<Rightarrow> pending_record option \<Rightarrow> folded_state
     \<Rightarrow> (folded_state \<times> pending_record option \<times> line_rest) result" where
  "line_plan lim dec raw po st =
     (if int (length raw) > rl_max_line_chars lim then
        bindE (if ends_with [10] raw then Inr st else drain_overlong_line lim st) (\<lambda>st.
        Inr (case (po, starts_blank raw) of
               (Some p, True) \<Rightarrow> (st, None, overlong_frame lim raw p)
             | _ \<Rightarrow> (st, po, close_malformed ''LINE_TOO_LONG'' ''perf script line exceeds max_line_chars'' raw)))
      else
        let line = rstrip_newline raw in
        if strip line = [] then
          Inr (st, po, \<lambda>st. Inr (if po = None then on_diagnostics (\<lambda>d. d\<lparr>pd_skipped_records := pd_skipped_records d + 1\<rparr>) st
                                 else st, None))
        else
          bindE (parse_perf_header dec line) (\<lambda>parsed.
          Inr (case parsed of
                 Some (header, tail) \<Rightarrow> (st, po, open_record lim dec header tail)
               | None \<Rightarrow>
                   (case (po, starts_blank raw) of
                      (Some p, True) \<Rightarrow>
                        (st, None, \<lambda>st. bindE (callchain_line lim dec (strip line) p st) (\<lambda>(st, p). Inr (st, Some p)))
                    | _ \<Rightarrow> (st, po, close_malformed ''UNRECOGNIZED_LINE'' ''Line is not a perf script record'' line)))))"

definition flush_then ::
  "resource_limits \<Rightarrow> 'g consumer \<Rightarrow> pending_record option \<Rightarrow> folded_state \<Rightarrow> line_rest \<Rightarrow> 'g \<Rightarrow> 'g perf_run result" where
  "flush_then lim consume po st rest g =
     bindE (flush_pending lim consume po st g) (\<lambda>(st, g). bindE (rest st) (\<lambda>(st, po). Inr (st, po, g)))"

lemma flush_none [simp]: "flush_pending lim consume None st g = Inr (st, g)"
  by (simp add: flush_pending_def)

lemma header_line_parts:
  "header_line lim dec consume h tail po st g = flush_then lim consume po st (open_record lim dec h tail) g"
  unfolding header_line_def flush_then_def open_record_def
  by (cases "tail = []") (simp_all add: bindE_assoc case_prod_unfold Let_def)

lemma stray_line_parts:
  "stray_line lim consume line po st g =
     flush_then lim consume po st (close_malformed ''UNRECOGNIZED_LINE'' ''Line is not a perf script record'' line) g"
  by (simp add: stray_line_def flush_then_def close_malformed_def case_prod_unfold)

lemma perf_line_plan:
  "perf_line lim dec consume raw po st g =
     bindE (line_plan lim dec raw po st) (\<lambda>(v, q, rest). flush_then lim consume q v rest g)"
proof -
  have over: "overlong_line lim consume raw po st g =
      bindE (bindE (if ends_with [10] raw then Inr st else drain_overlong_line lim st) (\<lambda>st.
        Inr (case (po, starts_blank raw) of
               (Some p, True) \<Rightarrow> (st, None, overlong_frame lim raw p)
             | _ \<Rightarrow> (st, po, close_malformed ''LINE_TOO_LONG'' ''perf script line exceeds max_line_chars'' raw))))
        (\<lambda>(v, q, rest). flush_then lim consume q v rest g)"
    unfolding overlong_line_def bindE_assoc
    by (rule arg_cong [where f = "bindE _"], rule ext)
      (simp add: flush_then_def overlong_frame_def close_malformed_def bindE_assoc case_prod_unfold split: option.split bool.split)
  show ?thesis
  proof (cases "int (length raw) > rl_max_line_chars lim")
    case True
    then show ?thesis using over by (simp add: perf_line_def line_plan_def)
  next
    case False
    show ?thesis
    proof (cases "strip (rstrip_newline raw) = []")
      case True
      then show ?thesis
        using False by (simp add: perf_line_def line_plan_def blank_line_def flush_then_def case_prod_unfold split: option.split)
    next
      case blank: False
      have "perf_line lim dec consume raw po st g =
          bindE (parse_perf_header dec (rstrip_newline raw)) (\<lambda>parsed.
          case parsed of
            Some (header, tail) \<Rightarrow> header_line lim dec consume header tail po st g
          | None \<Rightarrow>
              (case (po, starts_blank raw) of
                 (Some p, True) \<Rightarrow> bindE (callchain_line lim dec (strip (rstrip_newline raw)) p st) (\<lambda>(st, p). Inr (st, Some p, g))
               | _ \<Rightarrow> stray_line lim consume (rstrip_newline raw) po st g))"
        by (simp only: perf_line_def Let_def False blank if_False)
      also have "\<dots> = bindE (bindE (parse_perf_header dec (rstrip_newline raw)) (\<lambda>parsed.
          Inr (case parsed of
                 Some (header, tail) \<Rightarrow> (st, po, open_record lim dec header tail)
               | None \<Rightarrow>
                   (case (po, starts_blank raw) of
                      (Some p, True) \<Rightarrow>
                        (st, None, \<lambda>st. bindE (callchain_line lim dec (strip (rstrip_newline raw)) p st) (\<lambda>(st, p). Inr (st, Some p)))
                    | _ \<Rightarrow> (st, po, close_malformed ''UNRECOGNIZED_LINE'' ''Line is not a perf script record'' (rstrip_newline raw))))))
          (\<lambda>(v, q, rest). flush_then lim consume q v rest g)"
        unfolding bindE_assoc
        by (rule arg_cong [where f = "bindE _"], rule ext)
          (simp add: flush_then_def [of lim consume None] header_line_parts stray_line_parts bindE_assoc case_prod_unfold
            split: option.split bool.split)
      finally show ?thesis by (simp only: line_plan_def Let_def False blank if_False)
    qed
  qed
qed

section \<open>What a line guarantees\<close>

text \<open>After the open record is finished the rest of the line keeps the invariant.\<close>

definition rest_post ::
  "resource_limits \<Rightarrow> folded_state \<Rightarrow> stack_sample list \<Rightarrow> folded_state \<times> pending_record option \<Rightarrow> bool" where
  "rest_post lim u ss = (\<lambda>(w, p). same_input u w \<and> grows_to u w \<and> run_ok lim w p ss)"

definition rest_ok :: "resource_limits \<Rightarrow> line_rest \<Rightarrow> bool" where
  "rest_ok lim rest \<longleftrightarrow> (\<forall>u ss. run_ok lim u None ss \<longrightarrow> ensures perf_error (rest_post lim u ss) (rest u))"

lemma run_ok_frames:
  assumes run: "run_ok lim st po ss" and step: "frames_step lim n st u"
    and p: "po = None \<longrightarrow> pd_parsed_records (fo_diagnostics st) < rl_max_records lim" "pending_ok (fo_frame_table u) p"
    and n: "open_frames (Some p) = open_frames po + n"
  shows "rest_post lim st ss (u, Some p)"
proof -
  have grown: "grows (fo_frame_table st) (fo_frame_table u)" using step by (simp add: frames_step_def)
  have "\<forall>s \<in> set ss. perf_sample lim (fo_frame_table u) s"
    using run perf_sample_grows [OF grown] by (simp add: run_ok_def Let_def)
  then show ?thesis
    using run step p n grown
    by (cases po) (auto simp: rest_post_def grows_to_def run_ok_def Let_def frames_step_def)
qed

lemma run_ok_table: "run_ok lim st po ss \<Longrightarrow> table_fits lim st"
  by (simp add: run_ok_def Let_def)

lemma check_record_limit_ok:
  assumes "run_ok lim st None ss"
  shows "ensures perf_error (\<lambda>_. pd_parsed_records (fo_diagnostics st) < rl_max_records lim) (check_record_limit lim st)"
  using assms by (auto simp: check_record_limit_def ensures_raise_if perf_error_def folded_error_def run_ok_def Let_def diag_ok_def)

lemma open_record_ok:
  assumes "header_ok h"
  shows "rest_ok lim (open_record lim dec h tail)"
  unfolding rest_ok_def
proof (intro allI impI)
  fix u ss assume run: "run_ok lim u None ss"
  let ?p = "\<lparr>pr_header = h, pr_line_number = fo_line_number u, pr_frames_leaf_to_root = [], pr_header_frame_id = None\<rparr>"
  show "ensures perf_error (rest_post lim u ss) (open_record lim dec h tail u)"
    unfolding open_record_def
  proof (rule ensures_bind [OF check_record_limit_ok [OF run]])
    assume room: "pd_parsed_records (fo_diagnostics u) < rl_max_records lim"
    have empty: "rest_post lim u ss (u, Some ?p)"
      by (rule run_ok_frames [OF run frames_step_refl [OF run_ok_table [OF run]]])
        (use room assms in \<open>simp_all add: pending_ok_def\<close>)
    have first: "rest_post lim u ss (w, Some ((append_frame i ?p)\<lparr>pr_header_frame_id := Some i\<rparr>))"
      if "frames_step lim 1 u w" "valid_id (fo_frame_table w) i" for i w
      by (rule run_ok_frames [OF run that(1)]) (use room assms that(2) in \<open>simp_all add: pending_ok_def\<close>)
    have "ensures perf_error (rest_post lim u ss) (bindE (frame_or_unknown lim dec tail (fo_line_number u) u) (\<lambda>(i, st).
        Inr (st, Some ((append_frame i ?p)\<lparr>pr_header_frame_id := Some i\<rparr>))))"
      by (rule ensures_bind [OF frame_or_unknown_ok [OF run_ok_table [OF run]]]) (use first in auto)
    with empty show "ensures perf_error (rest_post lim u ss) (let p = ?p in
        if tail = [] then Inr (u, Some p)
        else bindE (frame_or_unknown lim dec tail (fo_line_number u) u) (\<lambda>(i, st).
             Inr (st, Some ((append_frame i p)\<lparr>pr_header_frame_id := Some i\<rparr>))))" by (simp add: Let_def)
  qed
qed

lemma close_malformed_ok: "rest_ok lim (close_malformed code message raw)"
  using run_ok_malformed by (auto simp: rest_ok_def close_malformed_def rest_post_def grows_to_def)

lemma skip_blank_ok:
  "rest_ok lim (\<lambda>st. Inr (if b then on_diagnostics (\<lambda>d. d\<lparr>pd_skipped_records := pd_skipped_records d + 1\<rparr>) st else st, None))"
  by (auto simp: rest_ok_def rest_post_def grows_to_def same_input_def run_ok_def Let_def table_fits_def diag_ok_def diagnostics_wf_def)

lemma overlong_frame_ok:
  assumes "run_ok lim st (Some p) ss"
  shows "ensures perf_error (rest_post lim st ss) (overlong_frame lim raw p st)"
proof -
  let ?v = "perf_warning ''LINE_TOO_LONG'' ''Overlong callchain line was retained as an unknown Frame'' (fo_line_number st) raw st"
  note fits = run_ok_table [OF assms]
  have v: "frames_step lim 0 st ?v" by (rule frames_step_warning [OF frames_step_refl [OF fits]])
  have p: "pending_ok (fo_frame_table st) p" using assms by (simp add: run_ok_def Let_def)
  have "rest_post lim st ss (count_frame_line w, Some (append_frame i p))"
    if w: "frames_step lim 0 ?v w" "valid_id (fo_frame_table w) i" for i w
  proof (rule run_ok_frames [OF assms])
    show "frames_step lim 1 st (count_frame_line w)" using frames_step_count [OF frames_step_trans [OF v w(1)]] by simp
    have "pending_ok (fo_frame_table w) p" using p w(1) by (auto simp: frames_step_def intro: pending_ok_grows)
    then show "pending_ok (fo_frame_table (count_frame_line w)) (append_frame i p)"
      using append_frame_ok w(2) by (simp add: count_frame_line_def)
  qed simp_all
  then show ?thesis
    unfolding overlong_frame_def
    by (intro ensures_bind [OF unknown_frame_ok [OF frames_step_fits [OF v]]]) auto
qed

lemma chain_rest_ok:
  assumes "run_ok lim st (Some p) ss"
  shows "ensures perf_error (rest_post lim st ss) (bindE (callchain_line lim dec t p st) (\<lambda>(st, p). Inr (st, Some p)))"
proof -
  have p: "pending_ok (fo_frame_table st) p" using assms by (simp add: run_ok_def Let_def)
  have "rest_post lim st ss (u, Some q)" if "chain_post lim st p (u, q)" for u q
    using that by (auto simp: chain_post_def intro!: run_ok_frames [OF assms])
  then show ?thesis by (intro ensures_bind [OF callchain_ok [OF run_ok_table [OF assms] p]]) auto
qed

text \<open>
  The plan either finishes the open record, and the rest starts without one, or the line
  belongs to the open record.
\<close>

definition plan_post ::
  "resource_limits \<Rightarrow> pytext \<Rightarrow> folded_state \<Rightarrow> pending_record option
     \<Rightarrow> folded_state \<times> pending_record option \<times> line_rest \<Rightarrow> bool" where
  "plan_post lim text st po = (\<lambda>(v, q, rest). input_ok lim text v \<and> only_read st v \<and>
     (q = po \<and> rest_ok lim rest \<or>
      q = None \<and> (\<forall>ss. run_ok lim v po ss \<longrightarrow> ensures perf_error (rest_post lim v ss) (rest v))))"

lemma line_plan_ok:
  assumes "input_ok lim text st"
  shows "ensures perf_error (plan_post lim text st po) (line_plan lim dec raw po st)"
proof -
  have kept: "plan_post lim text st po (v, po, rest)" if "input_ok lim text v" "only_read st v" "rest_ok lim rest" for v rest
    using that by (simp add: plan_post_def)
  have joined: "plan_post lim text st (Some p) (v, None, rest)"
    if "input_ok lim text v" "only_read st v" "\<And>ss. run_ok lim v (Some p) ss \<Longrightarrow> ensures perf_error (rest_post lim v ss) (rest v)"
    for v rest p
    using that by (simp add: plan_post_def)
  let ?drain = "if ends_with [10] raw then Inr st else drain_overlong_line lim st"
  have drained: "ensures perf_error (\<lambda>v. input_ok lim text v \<and> only_read st v) ?drain"
    using assms perf_drain_ok only_read_refl by simp
  have over: "ensures perf_error (plan_post lim text st po) (bindE ?drain (\<lambda>st.
        Inr (case (po, starts_blank raw) of
               (Some p, True) \<Rightarrow> (st, None, overlong_frame lim raw p)
             | _ \<Rightarrow> (st, po, close_malformed ''LINE_TOO_LONG'' ''perf script line exceeds max_line_chars'' raw))))"
    by (rule ensures_bind [OF drained])
      (use kept close_malformed_ok joined overlong_frame_ok in \<open>auto split: option.split bool.split\<close>)
  have parsed: "ensures perf_error (plan_post lim text st po) (bindE (parse_perf_header dec line) (\<lambda>parsed.
      Inr (case parsed of
             Some (header, tail) \<Rightarrow> (st, po, open_record lim dec header tail)
           | None \<Rightarrow>
               (case (po, starts_blank raw) of
                  (Some p, True) \<Rightarrow>
                    (st, None, \<lambda>st. bindE (callchain_line lim dec (strip line) p st) (\<lambda>(st, p). Inr (st, Some p)))
                | _ \<Rightarrow> (st, po, close_malformed ''UNRECOGNIZED_LINE'' ''Line is not a perf script record'' line)))))" for line
    by (rule ensures_bind [OF parse_perf_header_ok])
      (use assms only_read_refl kept close_malformed_ok open_record_ok joined chain_rest_ok
        in \<open>auto split: option.split bool.split\<close>)
  show ?thesis
    unfolding line_plan_def Let_def
    using over parsed kept [OF assms only_read_refl skip_blank_ok] by simp
qed

definition line_done ::
  "resource_limits \<Rightarrow> pytext \<Rightarrow> folded_state \<Rightarrow> stack_sample list \<Rightarrow> stack_sample list perf_run \<Rightarrow> bool" where
  "line_done lim text st ss = (\<lambda>(u, po, ss'). input_ok lim text u \<and> grows_to st u \<and> run_ok lim u po ss' \<and> (\<exists>new. ss' = ss @ new))"

lemma flush_then_ok:
  assumes v: "input_ok lim text v" "only_read st v" "run_ok lim st po ss"
    and rest: "q = po \<and> rest_ok lim rest \<or>
      q = None \<and> (\<forall>ss. run_ok lim v po ss \<longrightarrow> ensures perf_error (rest_post lim v ss) (rest v))"
  shows "ensures perf_error (line_done lim text st ss) (flush_then lim collect q v rest ss)"
proof -
  have run: "run_ok lim v po ss" using v run_ok_read by blast
  have tbl: "fo_frame_table v = fo_frame_table st" using v(2) by (rule only_read_table)
  have finish: "ensures perf_error (line_done lim text st ss) (bindE (rest u) (\<lambda>(w, p). Inr (w, p, ss @ new)))"
    if u: "same_input v u" "fo_frame_table u = fo_frame_table v"
      and r: "ensures perf_error (rest_post lim u (ss @ new)) (rest u)" for u new
  proof (rule ensures_bind [OF r], clarify)
    fix w p assume w: "rest_post lim u (ss @ new) (w, p)"
    then have "input_ok lim text w" using v(1) u(1) by (auto simp: rest_post_def intro: input_ok_same)
    with w u(2) tbl show "ensures perf_error (line_done lim text st ss) (Inr (w, p, ss @ new))"
      by (simp add: rest_post_def line_done_def grows_to_def)
  qed
  show ?thesis
  proof (cases "q = po \<and> rest_ok lim rest")
    case True
    then have "ensures perf_error (line_done lim text st ss) (bindE (rest u) (\<lambda>(w, p). Inr (w, p, ss')))"
      if "flush_post lim v ss (u, ss')" for u ss'
      using that finish [of u] by (auto simp: flush_post_def rest_ok_def)
    then show ?thesis
      unfolding flush_then_def using True by (intro ensures_bind [OF flush_ok]) (use run in auto)
  next
    case False
    then have "q = None" "ensures perf_error (rest_post lim v ss) (rest v)" using rest run by auto
    with finish [of v "[]"] show ?thesis by (simp add: flush_then_def)
  qed
qed

end
