(* ===== verification/RegexRuns.thy ===== *)
theory RegexRuns
  imports Regex
begin

text \<open>
  Reading a known text with a regular expression: when a run of characters of a class ends where
  the next part of the expression has to begin, it is matched in one way.
\<close>

lemma derives_Both: "derives r m1 c1 \<Longrightarrow> derives q m2 c2 \<Longrightarrow> derives (Both r q) (m1 @ m2) (c1 @ c2)"
  by auto

section \<open>How a match begins_in\<close>

text \<open>\<open>nonnull r\<close>: no match is empty. \<open>begins_in P r\<close>: a match is empty or begins_in with a character in \<open>P\<close>.\<close>

fun nonnull :: "'a regex \<Rightarrow> bool" where
  "nonnull (Chars p least most) \<longleftrightarrow> 1 \<le> least"
| "nonnull (Lazy p) \<longleftrightarrow> False"
| "nonnull (Text t) \<longleftrightarrow> t \<noteq> []"
| "nonnull (Both r q) \<longleftrightarrow> nonnull r \<or> nonnull q"
| "nonnull (Either r q) \<longleftrightarrow> nonnull r \<and> nonnull q"
| "nonnull (Maybe r) \<longleftrightarrow> False"
| "nonnull (Group n r) \<longleftrightarrow> nonnull r"

fun begins_in :: "('a \<Rightarrow> bool) \<Rightarrow> 'a regex \<Rightarrow> bool" where
  "begins_in P (Chars p least most) \<longleftrightarrow> (\<forall>x. p x \<longrightarrow> P x)"
| "begins_in P (Lazy p) \<longleftrightarrow> (\<forall>x. p x \<longrightarrow> P x)"
| "begins_in P (Text t) \<longleftrightarrow> t = [] \<or> P (hd t)"
| "begins_in P (Both r q) \<longleftrightarrow> begins_in P r \<and> (nonnull r \<or> begins_in P q)"
| "begins_in P (Either r q) \<longleftrightarrow> begins_in P r \<and> begins_in P q"
| "begins_in P (Maybe r) \<longleftrightarrow> begins_in P r"
| "begins_in P (Group n r) \<longleftrightarrow> begins_in P r"

lemma nonnull_derives: "nonnull r \<Longrightarrow> derives r m c \<Longrightarrow> m \<noteq> []"
  by (induction r arbitrary: m c) auto

lemma begins_derives: "begins_in P r \<Longrightarrow> derives r m c \<Longrightarrow> m = [] \<or> P (hd m)"
proof (induction r arbitrary: m c)
  case (Both r q)
  then obtain m1 m2 c1 c2 where m: "m = m1 @ m2" "derives r m1 c1" "derives q m2 c2" by auto
  then show ?case
    using Both.IH(1) [of m1 c1] Both.IH(2) [of m2 c2] Both.prems(1) nonnull_derives [of r m1 c1] by (cases m1) auto
next
  case (Chars p least most)
  then show ?case by (cases m) auto
next
  case (Lazy p)
  then show ?case by (cases m) auto
qed auto

section \<open>Runs\<close>

text \<open>Where a run ends: the text goes on with a character outside the class, and the next part cannot begin inside the run.\<close>

lemma run_ends:
  assumes eq: "m1 @ m2 = w @ s" and p: "list_all p m1" and stop: "s = [] \<or> \<not> p (hd s)"
    and start: "m2 = [] \<or> hd m2 \<notin> set w"
  shows "m1 = w \<and> m2 = s"
proof -
  consider (less) us where "w = m1 @ us" "us \<noteq> []" "m2 = us @ s" | (more) us where "m1 = w @ us" "s = us @ m2"
    using eq append_eq_append_conv2 [of m1 m2 w s] by (cases "length m1 < length w") auto
  then show ?thesis
  proof cases
    case less
    then show ?thesis using start by (cases us) auto
  next
    case more
    then show ?thesis using p stop by (cases us) auto
  qed
qed

lemma derives_run:
  assumes "w \<noteq> []" "list_all p w" "s = [] \<or> \<not> p (hd s)" "begins_in (\<lambda>x. x \<notin> set w) r"
  shows "derives (Both (Chars p 1 None) r) (w @ s) c \<longleftrightarrow> derives r s c"
proof
  assume "derives (Both (Chars p 1 None) r) (w @ s) c"
  then obtain m1 m2 where m: "m1 @ m2 = w @ s" "list_all p m1" "derives r m2 c" by auto
  then have "m2 = s" using run_ends [OF m(1,2) assms(3)] begins_derives [OF assms(4) m(3)] by blast
  with m(3) show "derives r s c" by simp
next
  assume "derives r s c"
  then show "derives (Both (Chars p 1 None) r) (w @ s) c"
    using derives_Both [of "Chars p 1 None" w "[]" r s c] assms(1,2) by (simp add: Suc_le_eq)
qed

lemma derives_group_run:
  assumes "w \<noteq> []" "list_all p w" "s = [] \<or> \<not> p (hd s)" "begins_in (\<lambda>x. x \<notin> set w) r"
  shows "derives (Both (Group n (Chars p 1 None)) r) (w @ s) c \<longleftrightarrow> (\<exists>d. c = (n, w) # d \<and> derives r s d)"
proof
  assume "derives (Both (Group n (Chars p 1 None)) r) (w @ s) c"
  then obtain m1 m2 d where m: "m1 @ m2 = w @ s" "list_all p m1" "derives r m2 d" "c = (n, m1) # d" by auto
  then have "m1 = w" "m2 = s" using run_ends [OF m(1,2) assms(3)] begins_derives [OF assms(4) m(3)] by blast+
  with m show "\<exists>d. c = (n, w) # d \<and> derives r s d" by simp
next
  assume "\<exists>d. c = (n, w) # d \<and> derives r s d"
  then obtain d where d: "c = (n, w) # d" "derives r s d" by blast
  show "derives (Both (Group n (Chars p 1 None)) r) (w @ s) c"
    using derives_Both [of "Group n (Chars p 1 None)" w "[(n, w)]" r s d] assms(1,2) d by (simp add: Suc_le_eq)
qed

lemma derives_char: "derives (Both (Text [x]) r) (x # s) c \<longleftrightarrow> derives r s c"
  by auto

text \<open>A group without captures that stops at a character it cannot match.\<close>

lemma derives_group_until:
  assumes "derives g w []" "\<And>m c. derives g m c \<Longrightarrow> x \<notin> set m \<and> c = []" "begins_in (\<lambda>y. y = x) r" "nonnull r"
  shows "derives (Both (Group n g) r) (w @ x # s) c \<longleftrightarrow> (\<exists>d. c = (n, w) # d \<and> derives r (x # s) d)"
proof
  assume "derives (Both (Group n g) r) (w @ x # s) c"
  then obtain m1 m2 d e where m: "m1 @ m2 = w @ x # s" "derives g m1 e" "derives r m2 d" "c = e @ (n, m1) # d" by auto
  obtain t where t: "m2 = x # t" using begins_derives [OF assms(3) m(3)] nonnull_derives [OF assms(4) m(3)] by (cases m2) auto
  have "takeWhile (\<lambda>y. y \<noteq> x) (m1 @ m2) = m1" "takeWhile (\<lambda>y. y \<noteq> x) (w @ x # s) = w"
    using assms(2) [OF m(2)] assms(2) [OF assms(1)] t
    by (auto simp: takeWhile_append takeWhile_eq_all_conv)
  then have "m1 = w" using m(1) by simp
  with m assms(2) [OF m(2)] show "\<exists>d. c = (n, w) # d \<and> derives r (x # s) d" by auto
next
  assume "\<exists>d. c = (n, w) # d \<and> derives r (x # s) d"
  then obtain d where d: "c = (n, w) # d" "derives r (x # s) d" by blast
  have "derives (Group n g) w [(n, w)]" using assms(1) by auto
  from derives_Both [OF this d(2)] show "derives (Both (Group n g) r) (w @ x # s) c" by (simp add: d(1))
qed

text \<open>An optional part whose absence the text rules out.\<close>

lemma derives_taken:
  assumes "\<And>d. \<not> derives r s d"
  shows "derives (Both (Maybe (Both a b)) r) s c \<longleftrightarrow> derives (Both a (Both b r)) s c"
proof
  assume "derives (Both (Maybe (Both a b)) r) s c"
  then obtain m1 m2 c1 c2 where m: "s = m1 @ m2" "c = c1 @ c2" "derives r m2 c2"
    "derives (Both a b) m1 c1 \<or> m1 = [] \<and> c1 = []"
    unfolding derives.simps(4) [of "Maybe (Both a b)"] derives.simps(6) by blast
  then have "derives (Both a b) m1 c1" using assms by auto
  then obtain x y d e where "m1 = x @ y" "c1 = d @ e" "derives a x d" "derives b y e" by auto
  with derives_Both [of a x d "Both b r" "y @ m2" "e @ c2"] derives_Both [of b y e r m2 c2] m(1-3)
  show "derives (Both a (Both b r)) s c" by simp
next
  assume "derives (Both a (Both b r)) s c"
  then obtain x t d k where x: "s = x @ t" "c = d @ k" "derives a x d" "derives (Both b r) t k"
    unfolding derives.simps(4) [of a "Both b r"] by blast
  then obtain y m2 e c2 where y: "t = y @ m2" "k = e @ c2" "derives b y e" "derives r m2 c2" by auto
  have "derives (Maybe (Both a b)) (x @ y) (d @ e)" using derives_Both [OF x(3) y(3)] by simp
  from derives_Both [OF this y(4)] show "derives (Both (Maybe (Both a b)) r) s c" by (simp add: x(1,2) y(1,2))
qed

section \<open>Sequences\<close>

lemma derives_seq_suffix: "derives (seq (xs @ y # ys)) m c \<Longrightarrow> \<exists>a b d. m = a @ b \<and> derives (seq (y # ys)) b d"
proof (induction xs arbitrary: m c)
  case Nil
  then show ?case by (intro exI [of _ "[]"] exI [of _ m] exI [of _ c]) simp
next
  case (Cons x xs)
  have "seq ((x # xs) @ y # ys) = Both x (seq (xs @ y # ys))" by (cases xs) simp_all
  then obtain m1 m2 d where "m = m1 @ m2" "derives (seq (xs @ y # ys)) m2 d" using Cons.prems by auto
  with Cons.IH show ?case by (metis append.assoc)
qed

section \<open>A lazy group\<close>

lemma find_append: "find P (xs @ ys) = (case find P xs of None \<Rightarrow> find P ys | Some x \<Rightarrow> Some x)"
  by (induction xs) auto

text \<open>A non-greedy group in front takes the shortest text after which the rest matches.\<close>

lemma fullmatch_lazy:
  assumes early: "\<And>n c. n < length w \<Longrightarrow> \<not> derives q (drop n w @ s) c" and w: "list_all p w" and rest: "derives q s d"
  obtains c where "fullmatch (Both (Group name (Lazy p)) q) (w @ s) = Some ((name, w) # c)" "derives q s c"
proof -
  let ?F = "\<lambda>n. map (\<lambda>(c, z). ((name, take n (w @ s)) # c, z)) (parses q (drop n (w @ s)))"
  let ?full = "\<lambda>(c, z). z = []"
  let ?k = "length (takeWhile p (w @ s))"
  have k: "length w \<le> ?k" using w by (simp add: takeWhile_append list_all_iff)
  have "parses (Both (Group name (Lazy p)) q) (w @ s) = concat (map ?F [0..<Suc ?k])"
  proof -
    have lengths: "rev (repeat_lengths p 0 None (w @ s)) = [0..<Suc ?k]" by (simp add: repeat_lengths_def del: upt_Suc)
    have "take (length u - length (drop n u)) u = take n u" for n and u :: "'a list"
      by (cases "n \<le> length u") simp_all
    then show ?thesis
      unfolding parses.simps(2,4,7) lengths by (simp only: map_map o_def prod.case append_Cons append_Nil)
  qed
  also have "[0..<Suc ?k] = [0..<length w] @ length w # [Suc (length w)..<Suc ?k]"
    using k upt_add_eq_append [of 0 "length w" "Suc ?k - length w"] upt_conv_Cons [of "length w" "Suc ?k"]
    by (simp del: upt_Suc)
  finally have parses: "parses (Both (Group name (Lazy p)) q) (w @ s) =
      concat (map ?F [0..<length w]) @ ?F (length w) @ concat (map ?F [Suc (length w)..<Suc ?k])" by (simp del: upt_Suc)
  have none: "find ?full (concat (map ?F [0..<length w])) = None"
    using early parses_derives [of _ "[]" q] by (fastforce simp: find_None_iff)
  obtain c where c: "fullmatch q s = Some c" using rest fullmatch_None [of q s] by auto
  then obtain z where z: "find ?full (parses q s) = Some (c, z)" by (auto simp: fullmatch_def)
  have "find ?full (map (\<lambda>(c, z). ((name, w) # c, z)) xs) = map_option (\<lambda>(c, z). ((name, w) # c, z)) (find ?full xs)"
    for xs :: "('a captures \<times> 'a list) list"
    by (induction xs) auto
  then have "find ?full (?F (length w)) = Some ((name, w) # c, z)" using z by simp
  then have "fullmatch (Both (Group name (Lazy p)) q) (w @ s) = Some ((name, w) # c)"
    unfolding fullmatch_def parses find_append none by simp
  with that fullmatch_derives [OF c] show thesis by blast
qed

end
