(* ===== verification/PerfScriptPrint.thy ===== *)
theory PerfScriptPrint
  imports PerfScriptLines RegexRuns
begin

text \<open>
  Lines as \<open>perf script\<close> prints them, with any padding between the columns: a printed header is
  read back, and a printed callchain line is not taken for a header.
\<close>

section \<open>Printed headers\<close>

definition blanks :: "pytext \<Rightarrow> bool" where
  "blanks b \<longleftrightarrow> b \<noteq> [] \<and> set b \<subseteq> {9, 32}"

definition digits_text :: "pytext \<Rightarrow> bool" where
  "digits_text t \<longleftrightarrow> t \<noteq> [] \<and> (\<forall>c \<in> set t. 48 \<le> c \<and> c \<le> 57)"

definition word_text :: "pytext \<Rightarrow> bool" where
  "word_text t \<longleftrightarrow> t \<noteq> [] \<and> (\<forall>c \<in> set t. \<not> is_space c)"

record printed_header =
  hp_comm :: pytext
  hp_pid :: nat
  hp_tid :: nat
  hp_cpu :: nat
  hp_misc :: pytext
  hp_seconds :: pytext
  hp_fraction :: pytext
  hp_period :: nat
  hp_event :: pytext
  hp_pad :: "nat \<Rightarrow> pytext"

abbreviation number_text :: "nat \<Rightarrow> pytext" where
  "number_text n \<equiv> ascii (str_nat n)"

definition header_text :: "printed_header \<Rightarrow> pytext" where
  "header_text h =
     hp_comm h @ hp_pad h 0 @ number_text (hp_pid h) @ 47 # number_text (hp_tid h) @ hp_pad h 1 @
     91 # number_text (hp_cpu h) @ 93 # hp_pad h 2 @ hp_misc h @ hp_pad h 3 @
     hp_seconds h @ 46 # hp_fraction h @ 58 # hp_pad h 4 @ number_text (hp_period h) @ hp_pad h 5 @
     hp_event h @ 58 # hp_pad h 6"

definition header_fits :: "printed_header \<Rightarrow> bool" where
  "header_fits h \<longleftrightarrow> word_text (hp_comm h) \<and> word_text (hp_event h) \<and>
     hp_misc h \<noteq> [] \<and> list_all is_misc (hp_misc h) \<and> digits_text (hp_seconds h) \<and> digits_text (hp_fraction h) \<and>
     (\<forall>k < 6. blanks (hp_pad h k)) \<and> set (hp_pad h 6) \<subseteq> {9, 32} \<and>
     (\<forall>n \<in> {hp_pid h, hp_tid h, hp_cpu h, hp_period h}. length (str_nat n) \<le> 4300)"

text \<open>What a printed header stands for.\<close>

definition printed_perf_header :: "printed_header \<Rightarrow> perf_header" where
  "printed_perf_header h =
     \<lparr>ph_command = hp_comm h, ph_process_id = int (hp_pid h), ph_thread_id = int (hp_tid h),
      ph_cpu = Some (int (hp_cpu h)), ph_event = hp_event h, ph_weight = int (hp_period h),
      ph_weight_source = ascii ''perf_period'', ph_sample_context = sample_context (Some (hp_misc h))\<rparr>"

section \<open>Characters\<close>

lemma blank_chars: "x \<in> {9, 32} \<Longrightarrow> is_space x" "x \<in> {9, 32} \<Longrightarrow> \<not> is_digit dec x" "x \<in> {9, 32} \<Longrightarrow> \<not> is_misc x"
  "x \<in> {9, 32} \<Longrightarrow> is_any x" "x \<in> {9, 32} \<Longrightarrow> \<not> is_hex x"
  by (auto simp: is_space_def is_digit_def digit_value_def is_misc_def is_any_def is_hex_def is_lower_hex_def)

lemma digit_chars: "48 \<le> x \<Longrightarrow> x \<le> 57 \<Longrightarrow> is_digit dec x" "48 \<le> x \<Longrightarrow> x \<le> 57 \<Longrightarrow> \<not> is_space x"
  "48 \<le> x \<Longrightarrow> x \<le> 57 \<Longrightarrow> x \<noteq> 58"
  by (auto simp: is_space_def is_digit_def digit_value_def)

lemma blanksD:
  assumes "blanks b"
  shows "b \<noteq> []" "list_all is_space b" "\<not> is_digit dec (hd b)" "\<not> is_misc (hd b)" "is_space (hd b)" "\<not> is_hex (hd b)"
    "hd b \<in> {9, 32}"
proof -
  show b: "b \<noteq> []" "list_all is_space b" using assms blank_chars by (auto simp: blanks_def list_all_iff)
  then have "hd b \<in> {9, 32}" using assms hd_in_set [OF b(1)] unfolding blanks_def by blast
  then show "\<not> is_digit dec (hd b)" "\<not> is_misc (hd b)" "is_space (hd b)" "\<not> is_hex (hd b)" "hd b \<in> {9, 32}"
    using blank_chars by blast+
qed

lemma digits_text_number [simp]: "digits_text (number_text n)"
  using ascii_str_nat_digits str_nat_nonempty [of n] by (auto simp: digits_text_def ascii_def)

lemma digits_textD:
  assumes "digits_text t"
  shows "t \<noteq> []" "list_all (is_digit dec) t" "\<not> is_space (hd t)" "is_digit dec (hd t)" "58 \<notin> set t"
proof -
  show t: "t \<noteq> []" "list_all (is_digit dec) t" "58 \<notin> set t"
    using assms digit_chars by (auto simp: digits_text_def list_all_iff)
  show "\<not> is_space (hd t)" "is_digit dec (hd t)"
    using assms digit_chars hd_in_set [OF t(1)] by (auto simp: digits_text_def)
qed

section \<open>The parts of the expression\<close>

abbreviation event_rest :: "nat regex" where
  "event_rest \<equiv> Both (Group ''event'' (Chars (\<lambda>c. \<not> is_space c) 1 None))
     (Both (Text [58]) (Maybe (Both blanks_re (Group ''tail'' (Chars is_any 0 None)))))"

abbreviation period_rest :: "decimals \<Rightarrow> nat regex" where
  "period_rest dec \<equiv> Both (Maybe (Both (Group ''period'' (digits_re dec)) blanks_re)) event_rest"

abbreviation time_re :: "decimals \<Rightarrow> nat regex" where
  "time_re dec \<equiv> Both (digits_re dec) (Maybe (Both (Text [46]) (digits_re dec)))"

abbreviation time_rest :: "decimals \<Rightarrow> nat regex" where
  "time_rest dec \<equiv> Both (Group ''time'' (time_re dec)) (Both (Text [58]) (Both blanks_re (period_rest dec)))"

abbreviation misc_rest :: "decimals \<Rightarrow> nat regex" where
  "misc_rest dec \<equiv> Both (Maybe (Both (Group ''misc'' (Chars is_misc 1 None)) blanks_re)) (time_rest dec)"

abbreviation cpu_rest :: "decimals \<Rightarrow> nat regex" where
  "cpu_rest dec \<equiv> Both (Text [91]) (Both (Group ''cpu'' (digits_re dec)) (Both (Text [93]) (Both blanks_re (misc_rest dec))))"

abbreviation ids_rest :: "decimals \<Rightarrow> nat regex" where
  "ids_rest dec \<equiv> Both (Group ''pid'' (digits_re dec)) (Both (Text [47]) (Both (Group ''tid'' (digits_re dec))
     (Both blanks_re (cpu_rest dec))))"

lemma header_slash_parts:
  "perf_header_re dec (ids_slash dec) (cpu_part dec) =
     Both (Group ''comm'' (Lazy is_any)) (Both blanks_re (ids_rest dec))"
  by (simp add: perf_header_re_def ids_slash_def cpu_part_def ascii_def)

text \<open>The event ends at the last colon of its word.\<close>

lemma event_derives:
  assumes ev: "word_text ev" and b: "set b \<subseteq> {9, 32}"
  shows "derives event_rest (ev @ 58 # b) c \<Longrightarrow>
      c = [(''event'', ev)] \<or> (\<exists>t. c = [(''event'', ev), (''tail'', t)] \<and> set t \<subseteq> {9, 32})"
    and "\<exists>c. derives event_rest (ev @ 58 # b) c"
proof -
  assume "derives event_rest (ev @ 58 # b) c"
  then obtain m1 m2 d where m: "ev @ 58 # b = m1 @ 58 # m2" "m1 \<noteq> []" "list_all (\<lambda>c. \<not> is_space c) m1" "c = (''event'', m1) # d"
    and d: "m2 = [] \<and> d = [] \<or> (\<exists>u t. m2 = u @ t \<and> u \<noteq> [] \<and> list_all is_space u \<and> d = [(''tail'', t)])"
    by (auto simp: Suc_le_eq)
  have m2: "m2 = [] \<or> is_space (hd m2)" using d by (auto simp: list_all_iff)
  have sp: "\<not> is_space 58" by (simp add: is_space_def)
  have "m1 = ev \<and> m2 = b"
  proof (cases "length m1" "length ev" rule: linorder_cases)
    case less
    then obtain x us where us: "ev = m1 @ x # us" using m(1)
      by (metis append_eq_append_conv_if id_take_nth_drop less_imp_le_nat take_all_iff append_take_drop_id Cons_nth_drop_Suc)
    then have "x = 58" "m2 = us @ 58 # b" using m(1) by auto
    then have "m2 \<noteq> []" "\<not> is_space (hd m2)" using us ev sp by (auto simp: word_text_def hd_append)
    then show ?thesis using m2 by simp
  next
    case equal
    then show ?thesis using m(1) by simp
  next
    case greater
    then obtain x us where us: "m1 = ev @ x # us" using m(1)
      by (metis append_eq_append_conv_if id_take_nth_drop less_imp_le_nat take_all_iff append_take_drop_id Cons_nth_drop_Suc)
    then have "b = us @ 58 # m2" using m(1) by auto
    then have "58 \<in> set b" by simp
    then show ?thesis using b by auto
  qed
  then show "c = [(''event'', ev)] \<or> (\<exists>t. c = [(''event'', ev), (''tail'', t)] \<and> set t \<subseteq> {9, 32})"
    using d m(4) b by auto
next
  have e: "derives (Group ''event'' (Chars (\<lambda>c. \<not> is_space c) 1 None)) ev [(''event'', ev)]"
    using ev by (simp add: word_text_def list_all_iff Suc_le_eq)
  have "\<exists>d. derives (Maybe (Both blanks_re (Group ''tail'' (Chars is_any 0 None)))) b d"
  proof (cases "b = []")
    case False
    then have "derives (Both blanks_re (Group ''tail'' (Chars is_any 0 None))) (b @ []) ([] @ [(''tail'', [])])"
      using b blank_chars False by (intro derives_Both) (auto simp: list_all_iff Suc_le_eq)
    then show ?thesis unfolding derives.simps(6) by (intro exI [of _ "[(''tail'', [])]"]) simp
  qed auto
  then obtain d where "derives (Maybe (Both blanks_re (Group ''tail'' (Chars is_any 0 None)))) b d" by blast
  from derives_Both [OF e derives_Both [of "Text [58]" "[58]" "[]", OF _ this]]
  have "derives event_rest (ev @ [58] @ b) ([(''event'', ev)] @ [] @ d)" by simp
  then show "\<exists>c. derives event_rest (ev @ 58 # b) c" by (intro exI) (simp only: append_Cons append_Nil)
qed

text \<open>A period is not an event.\<close>

lemma period_not_event:
  assumes t: "digits_text t" and b: "blanks b"
  shows "\<not> derives event_rest (t @ b @ s) c"
proof
  assume "derives event_rest (t @ b @ s) c"
  then obtain m1 m2 where m: "t @ b @ s = m1 @ 58 # m2" "list_all (\<lambda>c. \<not> is_space c) m1" by auto
  obtain x bs where x: "b = x # bs" "x \<in> {9, 32}" using b by (cases b) (auto simp: blanks_def)
  have "takeWhile (\<lambda>c. \<not> is_space c \<and> c \<noteq> 58) (t @ b @ s) = t"
    using t x blank_chars(1) digit_chars by (auto simp: digits_text_def takeWhile_append takeWhile_eq_all_conv)
  then show False
  proof -
    assume eq: "takeWhile (\<lambda>c. \<not> is_space c \<and> c \<noteq> 58) (t @ b @ s) = t"
    have "x \<noteq> 58" using x by auto
    have "t = takeWhile (\<lambda>c. \<not> is_space c \<and> c \<noteq> 58) (m1 @ 58 # m2)" using eq m(1) by simp
    also have "\<dots> = takeWhile (\<lambda>c. c \<noteq> 58) m1"
      using m(2) by (induction m1) auto
    finally have t': "t = takeWhile (\<lambda>c. c \<noteq> 58) m1" .
    then have "t @ dropWhile (\<lambda>c. c \<noteq> 58) m1 = m1" by simp
    then have "b @ s = dropWhile (\<lambda>c. c \<noteq> 58) m1 @ 58 # m2" using m(1) by (metis append.assoc same_append_eq)
    moreover have "hd (y @ [58]) = x" if "b @ s = y @ 58 # m2" for y using that x(1) by (cases y) auto
    ultimately have "hd (dropWhile (\<lambda>c. c \<noteq> 58) m1 @ [58]) = x" by blast
    moreover have "hd (dropWhile (\<lambda>c. c \<noteq> 58) m1 @ [58]) = 58"
    proof (cases "dropWhile (\<lambda>c. c \<noteq> 58) m1 = []")
      case False
      then show ?thesis using hd_dropWhile [of "\<lambda>c. c \<noteq> 58" m1] unfolding hd_append2 [OF False] by blast
    qed (simp only: append_Nil list.sel)
    ultimately show False using \<open>x \<noteq> 58\<close> by simp
  qed
qed

section \<open>Reading a printed header\<close>

lemma time_derives:
  assumes "digits_text a" "digits_text b"
  shows "derives (time_re dec) (a @ 46 # b) []"
proof -
  have d: "derives (digits_re dec) t []" if "digits_text t" for t
    using digits_textD [OF that] by (simp add: Suc_le_eq)
  have "derives (Maybe (Both (Text [46]) (digits_re dec))) ([46] @ b) ([] @ [])"
    using derives_Both [of "Text [46]" "[46]" "[]", OF _ d [OF assms(2)]] by simp
  from derives_Both [OF d [OF assms(1)] this] show ?thesis by simp
qed

lemma time_no_colon: "derives (time_re dec) m c \<Longrightarrow> 58 \<notin> set m \<and> c = []"
proof -
  have "\<not> is_digit dec 58" by (simp add: is_digit_def digit_value_def)
  then show "derives (time_re dec) m c \<Longrightarrow> 58 \<notin> set m \<and> c = []" by (auto simp: list_all_iff)
qed

abbreviation misc_text :: "printed_header \<Rightarrow> pytext" where
  "misc_text h \<equiv> hp_misc h @ hp_pad h 3 @ hp_seconds h @ 46 # hp_fraction h @ 58 # hp_pad h 4 @
     number_text (hp_period h) @ hp_pad h 5 @ hp_event h @ 58 # hp_pad h 6"

abbreviation ids_text :: "printed_header \<Rightarrow> pytext" where
  "ids_text h \<equiv> number_text (hp_pid h) @ 47 # number_text (hp_tid h) @ hp_pad h 1 @
     91 # number_text (hp_cpu h) @ 93 # hp_pad h 2 @ misc_text h"

lemma header_text_parts: "header_text h = hp_comm h @ hp_pad h 0 @ ids_text h"
  by (simp add: header_text_def)

lemma header_fitsD:
  assumes "header_fits h"
  shows "word_text (hp_comm h)" "word_text (hp_event h)" "hp_misc h \<noteq> []" "list_all is_misc (hp_misc h)"
    "digits_text (hp_seconds h)" "digits_text (hp_fraction h)" "set (hp_pad h 6) \<subseteq> {9, 32}"
    "blanks (hp_pad h 0)" "blanks (hp_pad h 1)" "blanks (hp_pad h 2)" "blanks (hp_pad h 3)" "blanks (hp_pad h 4)" "blanks (hp_pad h 5)"
  using assms by (simp_all add: header_fits_def)

lemma blanks_run:
  assumes "blanks b" "s = [] \<or> \<not> is_space (hd s)" "begins_in (\<lambda>x. x \<notin> {9, 32}) r"
  shows "derives (Both blanks_re r) (b @ s) c \<longleftrightarrow> derives r s c"
proof (rule derives_run [OF blanksD(1,2) [OF assms(1)] assms(2)])
  have mono: "begins_in P r \<Longrightarrow> (\<And>x. P x \<Longrightarrow> Q x) \<Longrightarrow> begins_in Q r" for P Q and r :: "nat regex"
    by (induction r) auto
  show "begins_in (\<lambda>x. x \<notin> set b) r" using assms(1) by (intro mono [OF assms(3)]) (auto simp: blanks_def)
qed

lemma digits_run:
  assumes "digits_text t" "s = [] \<or> \<not> is_digit dec (hd s)" "begins_in (\<lambda>x. \<not> (48 \<le> x \<and> x \<le> 57)) r"
  shows "derives (Both (Group n (digits_re dec)) r) (t @ s) c \<longleftrightarrow> (\<exists>d. c = (n, t) # d \<and> derives r s d)"
proof (rule derives_group_run [OF digits_textD(1,2) [OF assms(1)] assms(2)])
  have mono: "begins_in P r \<Longrightarrow> (\<And>x. P x \<Longrightarrow> Q x) \<Longrightarrow> begins_in Q r" for P Q and r :: "nat regex"
    by (induction r) auto
  show "begins_in (\<lambda>x. x \<notin> set t) r" using assms(1) by (intro mono [OF assms(3)]) (auto simp: digits_text_def)
qed

lemma not_digit: "\<not> is_digit dec 47" "\<not> is_digit dec 93" "\<not> is_digit dec 58" "\<not> is_digit dec 9" "\<not> is_digit dec 32" "\<not> is_digit dec 91"
  "\<not> is_space 91" "\<not> is_space 58" "\<not> is_misc 9" "\<not> is_misc 32"
  by (simp_all add: is_digit_def digit_value_def is_space_def is_misc_def)

lemma period_derives:
  assumes fits: "header_fits h"
  shows "derives (period_rest dec) (number_text (hp_period h) @ hp_pad h 5 @ hp_event h @ 58 # hp_pad h 6) c \<longleftrightarrow>
    (\<exists>d. c = (''period'', number_text (hp_period h)) # d \<and> derives event_rest (hp_event h @ 58 # hp_pad h 6) d)"
proof -
  note pad = header_fitsD(13) [OF fits]
  have ev: "hp_event h @ 58 # hp_pad h 6 = [] \<or> \<not> is_space (hd (hp_event h @ 58 # hp_pad h 6))"
    using header_fitsD(2) [OF fits] by (auto simp: word_text_def)
  have start: "hp_pad h 5 @ hp_event h @ 58 # hp_pad h 6 = [] \<or> \<not> is_digit dec (hd (hp_pad h 5 @ hp_event h @ 58 # hp_pad h 6))"
    using blanksD(1,3) [OF pad] by simp
  have event_first: "begins_in (\<lambda>x. x \<notin> {9, 32}) event_rest" using blank_chars(1) by auto
  have "derives (period_rest dec) (number_text (hp_period h) @ hp_pad h 5 @ hp_event h @ 58 # hp_pad h 6) c \<longleftrightarrow>
      derives (Both (Group ''period'' (digits_re dec)) (Both blanks_re event_rest))
        (number_text (hp_period h) @ hp_pad h 5 @ hp_event h @ 58 # hp_pad h 6) c"
    by (rule derives_taken, rule period_not_event [OF digits_text_number pad])
  also have "\<dots> \<longleftrightarrow> (\<exists>d. c = (''period'', number_text (hp_period h)) # d \<and>
      derives (Both blanks_re event_rest) (hp_pad h 5 @ hp_event h @ 58 # hp_pad h 6) d)"
    by (rule digits_run [OF digits_text_number start]) (use digit_chars in auto)
  also have "\<dots> \<longleftrightarrow> (\<exists>d. c = (''period'', number_text (hp_period h)) # d \<and>
      derives event_rest (hp_event h @ 58 # hp_pad h 6) d)"
    unfolding blanks_run [OF pad ev event_first] ..
  finally show ?thesis .
qed

lemma time_rest_derives:
  assumes fits: "header_fits h"
  shows "derives (time_rest dec) (hp_seconds h @ 46 # hp_fraction h @ 58 # hp_pad h 4 @
      number_text (hp_period h) @ hp_pad h 5 @ hp_event h @ 58 # hp_pad h 6) c \<longleftrightarrow>
    (\<exists>d. c = (''time'', hp_seconds h @ 46 # hp_fraction h) # (''period'', number_text (hp_period h)) # d \<and>
       derives event_rest (hp_event h @ 58 # hp_pad h 6) d)"
proof -
  let ?p = "number_text (hp_period h) @ hp_pad h 5 @ hp_event h @ 58 # hp_pad h 6"
  have start: "?p = [] \<or> \<not> is_space (hd ?p)" using digits_textD(1,3) [OF digits_text_number [of "hp_period h"]] by simp
  have digit: "is_digit dec x \<Longrightarrow> x \<notin> {9, 32}" for x using not_digit(4,5) [of dec] by auto
  have period_first: "begins_in (\<lambda>x. x \<notin> {9, 32}) (period_rest dec)" using digit blank_chars(1) by auto
  have "derives (time_rest dec) ((hp_seconds h @ 46 # hp_fraction h) @ 58 # hp_pad h 4 @ ?p) c \<longleftrightarrow>
      (\<exists>d. c = (''time'', hp_seconds h @ 46 # hp_fraction h) # d \<and>
        derives (Both (Text [58]) (Both blanks_re (period_rest dec))) (58 # hp_pad h 4 @ ?p) d)"
    by (rule derives_group_until [OF time_derives [OF header_fitsD(5,6) [OF fits]] time_no_colon]) simp_all
  also have "\<dots> \<longleftrightarrow> (\<exists>d. c = (''time'', hp_seconds h @ 46 # hp_fraction h) # d \<and> derives (period_rest dec) ?p d)"
    unfolding derives_char blanks_run [OF header_fitsD(12) [OF fits] start period_first] ..
  finally show ?thesis unfolding period_derives [OF fits] append_assoc append_Cons by blast
qed

lemma misc_rest_derives:
  assumes fits: "header_fits h"
  shows "derives (misc_rest dec) (misc_text h) c \<longleftrightarrow>
    (\<exists>d. c = (''misc'', hp_misc h) # (''time'', hp_seconds h @ 46 # hp_fraction h) #
         (''period'', number_text (hp_period h)) # d \<and>
       derives event_rest (hp_event h @ 58 # hp_pad h 6) d)"
proof -
  let ?t = "hp_seconds h @ 46 # hp_fraction h @ 58 # hp_pad h 4 @
      number_text (hp_period h) @ hp_pad h 5 @ hp_event h @ 58 # hp_pad h 6"
  note misc = header_fitsD(3,4) [OF fits] and pad = header_fitsD(11) [OF fits]
  have misc_digit: "is_misc x \<Longrightarrow> \<not> is_digit dec x" for x
    by (auto simp: is_misc_def is_digit_def digit_value_def)
  have head: "misc_text h \<noteq> []" "is_misc (hd (misc_text h))" using misc by (cases "hp_misc h"; auto)+
  have first_digit: "begins_in (is_digit dec) (time_rest dec)" by simp
  have absent: "\<not> derives (time_rest dec) (misc_text h) d" for d
    using begins_derives [OF first_digit, of "misc_text h" d] head misc_digit by blast
  have start: "hp_pad h 3 @ ?t = [] \<or> \<not> is_misc (hd (hp_pad h 3 @ ?t))" using blanksD(1,4) [OF pad] by simp
  have first: "?t = [] \<or> \<not> is_space (hd ?t)" using digits_textD(1,3) [OF header_fitsD(5) [OF fits]] by simp
  have digit: "is_digit dec x \<Longrightarrow> x \<notin> {9, 32}" for x using not_digit(4,5) [of dec] by auto
  have time_first: "begins_in (\<lambda>x. x \<notin> {9, 32}) (time_rest dec)" using digit by simp
  have "derives (misc_rest dec) (misc_text h) c \<longleftrightarrow>
      derives (Both (Group ''misc'' (Chars is_misc 1 None)) (Both blanks_re (time_rest dec))) (misc_text h) c"
    by (rule derives_taken, rule absent)
  also have "\<dots> \<longleftrightarrow> (\<exists>d. c = (''misc'', hp_misc h) # d \<and> derives (Both blanks_re (time_rest dec)) (hp_pad h 3 @ ?t) d)"
    by (rule derives_group_run [OF misc start]) (use misc in \<open>auto simp: list_all_iff is_misc_def is_space_def\<close>)
  also have "\<dots> \<longleftrightarrow> (\<exists>d. c = (''misc'', hp_misc h) # d \<and> derives (time_rest dec) ?t d)"
    unfolding blanks_run [OF pad first time_first] ..
  finally show ?thesis unfolding time_rest_derives [OF fits] by blast
qed

lemma ids_rest_derives:
  assumes fits: "header_fits h"
  shows "derives (ids_rest dec) (ids_text h) c \<longleftrightarrow>
    (\<exists>d. c = (''pid'', number_text (hp_pid h)) # (''tid'', number_text (hp_tid h)) # (''cpu'', number_text (hp_cpu h)) #
         (''misc'', hp_misc h) # (''time'', hp_seconds h @ 46 # hp_fraction h) #
         (''period'', number_text (hp_period h)) # d \<and>
       derives event_rest (hp_event h @ 58 # hp_pad h 6) d)"
proof -
  let ?cpu = "91 # number_text (hp_cpu h) @ 93 # hp_pad h 2 @ misc_text h"
  have digit: "is_digit dec x \<Longrightarrow> x \<notin> {9, 32}" for x using not_digit(4,5) [of dec] by auto
  have misc: "misc_text h = [] \<or> \<not> is_space (hd (misc_text h))"
    using header_fitsD(3,4) [OF fits] by (cases "hp_misc h") (auto simp: is_misc_def is_space_def)
  have misc_first: "begins_in (\<lambda>x. x \<notin> {9, 32}) (misc_rest dec)" using digit not_digit(9,10) by auto
  have cpu: "derives (cpu_rest dec) ?cpu k \<longleftrightarrow>
      (\<exists>d. k = (''cpu'', number_text (hp_cpu h)) # d \<and> derives (misc_rest dec) (misc_text h) d)" for k
  proof -
    have "derives (cpu_rest dec) ?cpu k \<longleftrightarrow> (\<exists>d. k = (''cpu'', number_text (hp_cpu h)) # d \<and>
        derives (Both (Text [93]) (Both blanks_re (misc_rest dec))) (93 # hp_pad h 2 @ misc_text h) d)"
      unfolding derives_char [of 91] by (rule digits_run [OF digits_text_number]) (use not_digit in auto)
    then show ?thesis unfolding derives_char blanks_run [OF header_fitsD(10) [OF fits] misc misc_first] .
  qed
  have tid: "derives (Both (Group ''tid'' (digits_re dec)) (Both blanks_re (cpu_rest dec)))
        (number_text (hp_tid h) @ hp_pad h 1 @ ?cpu) k \<longleftrightarrow>
      (\<exists>d. k = (''tid'', number_text (hp_tid h)) # d \<and> derives (cpu_rest dec) ?cpu d)" for k
  proof -
    note pad = header_fitsD(9) [OF fits]
    have start: "hp_pad h 1 @ ?cpu = [] \<or> \<not> is_digit dec (hd (hp_pad h 1 @ ?cpu))" using blanksD(1,3) [OF pad] by simp
    have cpu_start: "?cpu = [] \<or> \<not> is_space (hd ?cpu)" using not_digit by simp
    have cpu_first: "begins_in (\<lambda>x. x \<notin> {9, 32}) (cpu_rest dec)" by simp
    have "derives (Both (Group ''tid'' (digits_re dec)) (Both blanks_re (cpu_rest dec)))
          (number_text (hp_tid h) @ hp_pad h 1 @ ?cpu) k \<longleftrightarrow>
        (\<exists>d. k = (''tid'', number_text (hp_tid h)) # d \<and> derives (Both blanks_re (cpu_rest dec)) (hp_pad h 1 @ ?cpu) d)"
      by (rule digits_run [OF digits_text_number start]) (use digit_chars in auto)
    then show ?thesis unfolding blanks_run [OF pad cpu_start cpu_first] .
  qed
  have "derives (ids_rest dec) (ids_text h) c \<longleftrightarrow> (\<exists>d. c = (''pid'', number_text (hp_pid h)) # d \<and>
      derives (Both (Text [47]) (Both (Group ''tid'' (digits_re dec)) (Both blanks_re (cpu_rest dec))))
        (47 # number_text (hp_tid h) @ hp_pad h 1 @ ?cpu) d)"
    by (rule digits_run [OF digits_text_number]) (use not_digit in auto)
  then show ?thesis unfolding derives_char [of 47] tid cpu misc_rest_derives [OF fits] by blast
qed

lemma strip_word: "w = [] \<or> \<not> is_space (hd w) \<and> \<not> is_space (last w) \<Longrightarrow> strip w = w"
  by (cases "w = []") (simp_all add: strip_def lstrip_id rstrip_id)

lemma word_textD:
  assumes "word_text w"
  shows "w \<noteq> []" "\<not> is_space (hd w)" "\<not> is_space (last w)" "strip w = w"
proof -
  show w: "w \<noteq> []" "\<not> is_space (hd w)" "\<not> is_space (last w)" using assms by (auto simp: word_text_def)
  then show "strip w = w" by (simp add: strip_word)
qed

lemma strip_blank: "set b \<subseteq> {9, 32} \<Longrightarrow> strip b = []"
proof -
  assume "set b \<subseteq> {9, 32}"
  then have "\<forall>x \<in> set b. is_space x" using blank_chars(1) by blast
  then have "lstrip b = []" by (simp add: lstrip_def dropWhile_eq_Nil_conv)
  then show "strip b = []" by (simp add: strip_def rstrip_def)
qed

lemma int_of_number: "length (str_nat n) \<le> 4300 \<Longrightarrow> int_of dec (number_text n) = Inr (int n)"
  by (simp add: int_of_def py_int_str_nat)

lemma header_of_printed:
  assumes fits: "header_fits h" and tail: "tail_part = [] \<or> (\<exists>t. tail_part = [(''tail'', t)] \<and> set t \<subseteq> {9, 32})"
  shows "header_of dec ((''comm'', hp_comm h) # (''pid'', number_text (hp_pid h)) # (''tid'', number_text (hp_tid h)) #
      (''cpu'', number_text (hp_cpu h)) # (''misc'', hp_misc h) # (''time'', hp_seconds h @ 46 # hp_fraction h) #
      (''period'', number_text (hp_period h)) # (''event'', hp_event h) # tail_part) = Inr (printed_perf_header h, [])"
proof -
  have nums: "int_of dec (number_text (hp_pid h)) = Inr (int (hp_pid h))" "int_of dec (number_text (hp_tid h)) = Inr (int (hp_tid h))"
    "int_of dec (number_text (hp_cpu h)) = Inr (int (hp_cpu h))" "int_of dec (number_text (hp_period h)) = Inr (int (hp_period h))"
    using fits by (simp_all add: header_fits_def int_of_number)
  have comm: "or_unknown (strip (hp_comm h)) = hp_comm h"
    using word_textD(1,4) [OF header_fitsD(1) [OF fits]] by (simp add: or_unknown_def)
  have "strip [] = []" by (simp add: strip_def lstrip_def rstrip_def)
  then have "strip (group_of ((''comm'', hp_comm h) # (''pid'', number_text (hp_pid h)) # (''tid'', number_text (hp_tid h)) #
      (''cpu'', number_text (hp_cpu h)) # (''misc'', hp_misc h) # (''time'', hp_seconds h @ 46 # hp_fraction h) #
      (''period'', number_text (hp_period h)) # (''event'', hp_event h) # tail_part) ''tail'') = []"
    using tail strip_blank by (auto simp: group_of_def dict_get_or_def)
  then show ?thesis
    using comm by (simp add: header_of_def group_opt_def group_of_def dict_get_or_def int_of_opt_def nums printed_perf_header_def)
qed

lemma header_fullmatch:
  assumes fits: "header_fits h"
  obtains tail_part where "fullmatch (perf_header_re dec (ids_slash dec) (cpu_part dec)) (header_text h) =
      Some ((''comm'', hp_comm h) # (''pid'', number_text (hp_pid h)) # (''tid'', number_text (hp_tid h)) #
        (''cpu'', number_text (hp_cpu h)) # (''misc'', hp_misc h) # (''time'', hp_seconds h @ 46 # hp_fraction h) #
        (''period'', number_text (hp_period h)) # (''event'', hp_event h) # tail_part)"
    "tail_part = [] \<or> (\<exists>t. tail_part = [(''tail'', t)] \<and> set t \<subseteq> {9, 32})"
proof -
  let ?q = "Both blanks_re (ids_rest dec)" and ?s = "hp_pad h 0 @ ids_text h"
  note comm = header_fitsD(1) [OF fits]
  have q_first: "begins_in is_space ?q" "nonnull ?q" by simp_all
  have early: "\<not> derives ?q (drop n (hp_comm h) @ ?s) c" if "n < length (hp_comm h)" for n c
  proof
    assume d: "derives ?q (drop n (hp_comm h) @ ?s) c"
    have "drop n (hp_comm h) \<noteq> []" "hd (drop n (hp_comm h)) \<in> set (hp_comm h)" using that by (auto simp: hd_drop_conv_nth)
    then have "\<not> is_space (hd (drop n (hp_comm h) @ ?s))" using comm by (auto simp: word_text_def)
    with begins_derives [OF q_first(1) d] nonnull_derives [OF q_first(2) d] show False by satx
  qed
  have "is_space 10" by (simp add: is_space_def)
  then have any: "list_all is_any (hp_comm h)" using comm by (auto simp: word_text_def list_all_iff is_any_def)
  have ids: "ids_text h = [] \<or> \<not> is_space (hd (ids_text h))"
    using digits_textD(1,3) [OF digits_text_number [of "hp_pid h"]] by simp
  have ids_first: "begins_in (\<lambda>x. x \<notin> {9, 32}) (ids_rest dec)" using not_digit(4,5) [of dec] by auto
  have read: "derives ?q ?s c \<longleftrightarrow> derives (ids_rest dec) (ids_text h) c" for c
    by (rule blanks_run [OF header_fitsD(8) [OF fits] ids ids_first])
  obtain d where "derives event_rest (hp_event h @ 58 # hp_pad h 6) d"
    using event_derives(2) [OF header_fitsD(2,7) [OF fits]] by blast
  then have "\<exists>c. derives ?q ?s c" unfolding read ids_rest_derives [OF fits] by blast
  then obtain c0 where "derives ?q ?s c0" by blast
  from fullmatch_lazy [of "hp_comm h" ?q ?s is_any, OF early any this] obtain c where
    c: "fullmatch (Both (Group ''comm'' (Lazy is_any)) ?q) (hp_comm h @ ?s) = Some ((''comm'', hp_comm h) # c)" "derives ?q ?s c" by blast
  then obtain d where d: "c = (''pid'', number_text (hp_pid h)) # (''tid'', number_text (hp_tid h)) # (''cpu'', number_text (hp_cpu h)) #
         (''misc'', hp_misc h) # (''time'', hp_seconds h @ 46 # hp_fraction h) #
         (''period'', number_text (hp_period h)) # d" "derives event_rest (hp_event h @ 58 # hp_pad h 6) d"
    unfolding read ids_rest_derives [OF fits] by blast
  from event_derives(1) [OF header_fitsD(2,7) [OF fits] d(2)] obtain tail_part where
    "d = (''event'', hp_event h) # tail_part" "tail_part = [] \<or> (\<exists>t. tail_part = [(''tail'', t)] \<and> set t \<subseteq> {9, 32})" by blast
  with that c(1) d(1) show thesis by (simp add: header_slash_parts header_text_parts)
qed

theorem parse_printed_header:
  assumes "header_fits h"
  shows "parse_perf_header dec (header_text h) = Inr (Some (printed_perf_header h, []))"
proof -
  obtain tail_part where m: "fullmatch (perf_header_re dec (ids_slash dec) (cpu_part dec)) (header_text h) =
      Some ((''comm'', hp_comm h) # (''pid'', number_text (hp_pid h)) # (''tid'', number_text (hp_tid h)) #
        (''cpu'', number_text (hp_cpu h)) # (''misc'', hp_misc h) # (''time'', hp_seconds h @ 46 # hp_fraction h) #
        (''period'', number_text (hp_period h)) # (''event'', hp_event h) # tail_part)"
    "tail_part = [] \<or> (\<exists>t. tail_part = [(''tail'', t)] \<and> set t \<subseteq> {9, 32})"
    using assms by (rule header_fullmatch)
  have "parse_perf_header dec (header_text h) = bindE (header_of dec ((''comm'', hp_comm h) # (''pid'', number_text (hp_pid h)) #
        (''tid'', number_text (hp_tid h)) # (''cpu'', number_text (hp_cpu h)) # (''misc'', hp_misc h) #
        (''time'', hp_seconds h @ 46 # hp_fraction h) #
        (''period'', number_text (hp_period h)) # (''event'', hp_event h) # tail_part)) (\<lambda>h. Inr (Some h))"
    unfolding parse_perf_header_def perf_header_res_def first_match.simps m(1) by simp
  then show ?thesis unfolding header_of_printed [OF assms m(2)] by simp
qed

end
