(* ===== verification/PerfScriptFrames.thy ===== *)
theory PerfScriptFrames
  imports PerfScriptPrint
begin

text \<open>
  Callchain lines as \<open>perf script\<close> prints them: the address, the symbol and the object in
  parentheses. Such a line is not a header, and it is read back to the frame it stands for.
\<close>

section \<open>Printed frames\<close>

record printed_frame =
  pf_indent :: pytext
  pf_ip :: pytext
  pf_gap :: pytext
  pf_symbol :: pytext
  pf_dso :: pytext

definition body_text :: "printed_frame \<Rightarrow> pytext" where
  "body_text f = pf_symbol f @ 32 # 40 # pf_dso f @ [41]"

definition frame_text :: "printed_frame \<Rightarrow> pytext" where
  "frame_text f = pf_indent f @ pf_ip f @ pf_gap f @ body_text f"

text \<open>No colon is followed by white space, as the one after the time of a header is.\<close>

fun no_colon_blank :: "pytext \<Rightarrow> bool" where
  "no_colon_blank (c # d # cs) \<longleftrightarrow> \<not> (c = 58 \<and> is_space d) \<and> no_colon_blank (d # cs)"
| "no_colon_blank _ \<longleftrightarrow> True"

definition trimmed :: "pytext \<Rightarrow> bool" where
  "trimmed w \<longleftrightarrow> w \<noteq> [] \<and> \<not> is_space (hd w) \<and> \<not> is_space (last w)"

definition frame_fits :: "printed_frame \<Rightarrow> bool" where
  "frame_fits f \<longleftrightarrow> blanks (pf_indent f) \<and> blanks (pf_gap f) \<and> pf_ip f \<noteq> [] \<and> list_all is_hex (pf_ip f) \<and>
     trimmed (pf_symbol f) \<and> trimmed (pf_dso f) \<and> find_sub [32, 40] (pf_symbol f) 0 = None \<and>
     \<not> starts_with (ascii ''py::'') (pf_symbol f) \<and> set (pf_dso f) \<inter> {40, 41} = {} \<and>
     10 \<notin> set (body_text f) \<and> no_colon_blank (frame_text f)"

text \<open>The frame that a printed line stands for.\<close>

definition printed_key :: "decimals \<Rightarrow> printed_frame \<Rightarrow> frame_key" where
  "printed_key dec f =
     (let symbol = normalize_symbol dec (pf_symbol f); dso = pf_dso f
      in \<lparr>fk_symbol = symbol, fk_dso = dso, fk_raw_symbol = Some (pf_symbol f),
          fk_ip = Some (ascii ''0x'' @ map lower_char (pf_ip f)), fk_source_file = None, fk_source_line = None,
          fk_source_column = None, fk_is_inline = False,
          fk_is_kernel = (dso \<in> {ascii ''[kernel.kallsyms]'', ascii ''[kernel]''} \<or> contains_text (ascii ''[k]'') (pf_symbol f)),
          fk_is_unknown = (symbol \<in> {ascii ''[unknown]'', UNKNOWN, ascii ''0'', ascii ''??''} \<or>
            dso \<in> {ascii ''[unknown]'', UNKNOWN})\<rparr>)"

section \<open>Not a header\<close>

lemma no_colon_blankD: "no_colon_blank (a @ 58 # x # b) \<Longrightarrow> \<not> is_space x"
proof (induction a)
  case (Cons y a)
  then show ?case by (cases a) auto
qed simp

lemma header_has_colon:
  assumes "derives (perf_header_re dec ids cpu) m c"
  shows "\<exists>a x b. m = a @ 58 # x # b \<and> is_space x"
proof -
  define A where "A = [Group ''comm'' (Lazy is_any), blanks_re] @ ids @ [blanks_re] @ cpu @
       [Maybe (Both (Group ''misc'' (Chars is_misc 1 None)) blanks_re),
        Group ''time'' (Both (digits_re dec) (Maybe (Both (text_re ''.'') (digits_re dec))))]"
  define B where "B = [Maybe (Both (Group ''period'' (digits_re dec)) blanks_re),
        Group ''event'' (Chars (\<lambda>c. \<not> is_space c) 1 None), text_re '':'',
        Maybe (Both blanks_re (Group ''tail'' (Chars is_any 0 None)))]"
  have "perf_header_re dec ids cpu = seq (A @ text_re '':'' # blanks_re # B)"
    unfolding perf_header_re_def A_def B_def by (rule arg_cong [where f = seq]) simp
  then have "derives (seq (A @ text_re '':'' # blanks_re # B)) m c" using assms by simp
  from derives_seq_suffix [OF this] obtain a t d where m: "m = a @ t" "derives (seq (text_re '':'' # blanks_re # B)) t d" by blast
  have "seq (text_re '':'' # blanks_re # B) = Both (text_re '':'') (Both blanks_re (seq B))" by (simp add: B_def)
  then obtain u v where t: "t = 58 # u @ v" "u \<noteq> []" "list_all is_space u"
    using m(2) by (auto simp: ascii_def Suc_le_eq)
  then obtain x us where "u = x # us" "is_space x" by (cases u) auto
  with m(1) t(1) show ?thesis by auto
qed

lemma first_match_None: "(\<And>r. r \<in> set rs \<Longrightarrow> fullmatch r s = None) \<Longrightarrow> first_match rs s = None"
  by (induction rs) auto

lemma not_a_header:
  assumes "no_colon_blank t"
  shows "parse_perf_header dec t = Inr None"
proof -
  have "fullmatch (perf_header_re dec ids cpu) t = None" for ids cpu
    unfolding fullmatch_None using header_has_colon no_colon_blankD assms by blast
  then have "first_match (perf_header_res dec) t = None"
    by (intro first_match_None) (auto simp: perf_header_res_def)
  then show ?thesis by (simp add: parse_perf_header_def)
qed

section \<open>Address and body\<close>

lemma strip_pad:
  assumes "list_all is_space k" "trimmed w"
  shows "strip (k @ w) = w"
proof -
  have "dropWhile is_space (k @ w) = w"
    using assms by (cases w) (auto simp: trimmed_def list_all_iff dropWhile_append)
  then have "lstrip (k @ w) = w" by (simp add: lstrip_def)
  then show ?thesis using assms(2) by (simp add: strip_def trimmed_def rstrip_id)
qed

lemma body_trimmed:
  assumes "frame_fits f"
  shows "trimmed (body_text f)"
proof -
  have "\<not> is_space 41" by (simp add: is_space_def)
  then show ?thesis using assms by (auto simp: frame_fits_def trimmed_def body_text_def)
qed

lemma frame_re_parts:
  "frame_re = Both (Group ''ip'' (Both (Maybe (Text [48, 120])) (Chars is_hex 1 None)))
     (Both blanks_re (Group ''body'' (Chars is_any 1 None)))"
  by (simp add: frame_re_def ascii_def)

lemma hex_space: "is_hex x \<Longrightarrow> \<not> is_space x" "\<not> is_hex 120"
  by (auto simp: is_hex_def is_lower_hex_def is_space_def)

lemma frame_groups:
  assumes fits: "frame_fits f" and d: "derives frame_re (pf_ip f @ pf_gap f @ body_text f) c"
  shows "group_of c ''ip'' = pf_ip f" "strip (group_of c ''body'') = body_text f"
proof -
  let ?ip = "pf_ip f" and ?gap = "pf_gap f" and ?body = "body_text f"
  have gap: "blanks ?gap" and ip: "list_all is_hex ?ip" "?ip \<noteq> []" using fits by (simp_all add: frame_fits_def)
  have body: "trimmed ?body" using fits by (rule body_trimmed)
  have prefixed: "?ip @ ?gap @ ?body \<noteq> 48 # 120 # u" for u
  proof
    assume eq: "?ip @ ?gap @ ?body = 48 # 120 # u"
    obtain x xs where x: "?ip = x # xs" using ip(2) by (cases ?ip) auto
    show False
    proof (cases xs)
      case Nil
      then show False using eq x blanksD(1,7) [OF gap] by (cases ?gap) auto
    next
      case (Cons y ys)
      then show False using eq x ip(1) hex_space(2) by simp
    qed
  qed
  have "(\<exists>u. ?ip @ ?gap @ ?body = 48 # 120 # u) \<or>
      (\<exists>h m2 m3. ?ip @ ?gap @ ?body = h @ m2 @ m3 \<and> list_all is_hex h \<and> m2 \<noteq> [] \<and> list_all is_space m2 \<and>
        c = [(''ip'', h), (''body'', m3)])"
    using d unfolding frame_re_parts by (auto simp: Suc_le_eq)
  then obtain m1 m2 m3 where m: "?ip @ ?gap @ ?body = m1 @ m2 @ m3" "list_all is_hex m1" "m2 \<noteq> []" "list_all is_space m2"
    "c = [(''ip'', m1), (''body'', m3)]"
    using prefixed by blast
  have "hd (m2 @ m3) \<notin> set ?ip"
    using m(3,4) ip(1) hex_space(1) by (cases m2) (auto simp: list_all_iff)
  moreover have "?gap @ ?body = [] \<or> \<not> is_hex (hd (?gap @ ?body))" using blanksD(1,6) [OF gap] by simp
  ultimately have split: "m1 = ?ip" "m2 @ m3 = ?gap @ ?body"
    using run_ends [of m1 "m2 @ m3" ?ip "?gap @ ?body" is_hex] m(1,2) by auto
  show "group_of c ''ip'' = ?ip" by (simp add: m(5) split(1) group_of_def dict_get_or_def)
  have "\<exists>k. list_all is_space k \<and> m3 = k @ ?body"
  proof (cases "length m2 \<le> length ?gap")
    case True
    then obtain k where k: "?gap = m2 @ k" "m3 = k @ ?body"
      using split(2) by (metis append_eq_append_conv_if append_take_drop_id)
    then show ?thesis using blanksD(2) [OF gap] by auto
  next
    case False
    then obtain k where "m2 = ?gap @ k" "k \<noteq> []" "?body = k @ m3"
      using split(2) by (metis append_eq_append_conv_if append_take_drop_id drop_eq_Nil linorder_le_cases)
    then show ?thesis using m(4) body by (cases k) (auto simp: trimmed_def)
  qed
  then have "strip m3 = ?body" using strip_pad body by auto
  then show "strip (group_of c ''body'') = ?body" by (simp add: m(5) group_of_def dict_get_or_def)
qed

lemma frame_matches:
  assumes fits: "frame_fits f"
  obtains c where "fullmatch frame_re (pf_ip f @ pf_gap f @ body_text f) = Some c"
    "group_of c ''ip'' = pf_ip f" "strip (group_of c ''body'') = body_text f"
proof -
  have "list_all is_any (body_text f)" "body_text f \<noteq> []" using fits by (auto simp: frame_fits_def list_all_iff is_any_def body_text_def)
  then have body: "derives (Group ''body'' (Chars is_any 1 None)) (body_text f) [(''body'', body_text f)]" by (simp add: Suc_le_eq)
  have gap: "derives blanks_re (pf_gap f) []" using fits blanksD(1,2) by (simp add: frame_fits_def Suc_le_eq)
  have hex: "derives (Chars is_hex 1 None) (pf_ip f) []" using fits by (simp add: frame_fits_def Suc_le_eq)
  have "derives (Both (Maybe (Text [48, 120])) (Chars is_hex 1 None)) ([] @ pf_ip f) ([] @ [])"
    by (rule derives_Both [OF _ hex]) simp
  then have "derives (Group ''ip'' (Both (Maybe (Text [48, 120])) (Chars is_hex 1 None))) (pf_ip f) [(''ip'', pf_ip f)]"
    unfolding derives.simps(7) by (intro exI [of _ "[]"]) simp
  from derives_Both [OF this derives_Both [OF gap body]]
  have "\<exists>c. derives frame_re (pf_ip f @ pf_gap f @ body_text f) c" unfolding frame_re_parts by blast
  then obtain c where c: "fullmatch frame_re (pf_ip f @ pf_gap f @ body_text f) = Some c"
    using fullmatch_None [of frame_re] by (metis option.exhaust)
  from that [OF this frame_groups [OF fits fullmatch_derives [OF c]]] show thesis .
qed

section \<open>Symbol and object\<close>

lemma find_sub_at:
  "starts_with sub (drop i s) \<Longrightarrow> i \<le> length s \<Longrightarrow> start \<le> i \<Longrightarrow>
   (\<And>j. start \<le> j \<Longrightarrow> j < i \<Longrightarrow> \<not> starts_with sub (drop j s)) \<Longrightarrow> find_sub sub s start = Some i"
proof (induction "i - start" arbitrary: start)
  case 0
  then show ?case by (simp add: find_sub.simps [of sub s start])
next
  case (Suc n)
  then have "find_sub sub s (Suc start) = Some i" by simp
  moreover have "\<not> starts_with sub (drop start s)" using Suc.prems(4) [of start] Suc.hyps(2) by simp
  ultimately show ?case using Suc.prems(2) Suc.hyps(2) by (simp add: find_sub.simps [of sub s start])
qed

lemma find_sub_none: "find_sub sub s start = None \<Longrightarrow> start \<le> j \<Longrightarrow> j \<le> length s \<Longrightarrow> \<not> starts_with sub (drop j s)"
proof (induction "j - start" arbitrary: start)
  case 0
  then show ?case by (simp add: find_sub.simps [of sub s start] split: if_splits)
next
  case (Suc n)
  then have "find_sub sub s (Suc start) = None" by (simp add: find_sub.simps [of sub s start] split: if_splits)
  with Suc.hyps(1) [of "Suc start"] Suc.hyps(2) Suc.prems(3) show ?case by simp
qed

lemma closing_object:
  "set dso \<inter> {40, 41} = {} \<Longrightarrow> closing_index 1 n (dso @ [41]) = Some (n + length dso)"
  by (induction dso arbitrary: n) auto

lemma split_printed_body:
  assumes fits: "frame_fits f"
  shows "split_frame_body dec (body_text f) 0 = Some (pf_symbol f, pf_dso f, None, False)"
proof -
  let ?s = "pf_symbol f" and ?d = "pf_dso f"
  have sym: "trimmed ?s" "find_sub [32, 40] ?s 0 = None" and dso: "trimmed ?d" "set ?d \<inter> {40, 41} = {}"
    using fits by (simp_all add: frame_fits_def)
  have found: "find_sub [32, 40] (body_text f) 0 = Some (length ?s)"
  proof (rule find_sub_at)
    fix j assume j: "j < length ?s"
    show "\<not> starts_with [32, 40] (drop j (body_text f))"
    proof (cases "Suc j < length ?s")
      case True
      then have "take 2 (drop j (body_text f)) = take 2 (drop j ?s)" by (simp add: body_text_def)
      then show ?thesis using find_sub_none [OF sym(2), of j] j by (simp add: starts_with_def numeral_2_eq_2)
    next
      case False
      then have "j = length ?s - 1" using j by simp
      then have "drop j (body_text f) = last ?s # 32 # 40 # ?d @ [41]"
        using sym(1) j by (simp add: body_text_def trimmed_def last_conv_nth Cons_nth_drop_Suc [symmetric])
      moreover have "last ?s \<noteq> 32" using sym(1) blank_chars(1) [of 32] by (auto simp: trimmed_def)
      ultimately show ?thesis by (simp add: starts_with_def)
    qed
  qed (simp_all add: body_text_def starts_with_def)
  have closing: "closing_index 0 (Suc (length ?s)) (drop (Suc (length ?s)) (body_text f)) = Some (length ?s + 2 + length ?d)"
    using closing_object [OF dso(2), of "length ?s + 2"] by (simp add: body_text_def)
  have strips: "strip ?s = ?s" "strip ?d = ?d" "strip [] = []" "?s \<noteq> []" "?d \<noteq> []"
    using sym(1) dso(1) by (simp_all add: trimmed_def strip_word)
  have "frame_body_at dec (body_text f) (Suc (length ?s)) (length ?s + 2 + length ?d) = Some (?s, ?d, None, False)"
    by (simp add: frame_body_at_def body_text_def Let_def strips or_unknown_def)
  then show ?thesis
    using found closing by (simp add: split_frame_body.simps [of dec "body_text f" 0] ascii_def)
qed

lemma printed_frame_key:
  assumes fits: "frame_fits f"
  shows "perf_frame_key dec (map lower_char (pf_ip f)) (pf_symbol f, pf_dso f, None, False) = Inr (printed_key dec f)"
proof -
  have "python_perf_map_source dec (pf_symbol f) (pf_dso f) None = (pf_symbol f, None)"
    using fits by (simp add: python_perf_map_source_def frame_fits_def)
  then show ?thesis by (simp add: perf_frame_key_def parse_source_def printed_key_def Let_def)
qed

lemma no_address_prefix:
  assumes "list_all is_hex ip"
  shows "removeprefix (ascii ''0x'') (map lower_char ip) = map lower_char ip"
proof -
  have "lower_char x \<noteq> 120" if "is_hex x" for x
    using that by (auto simp: lower_char_def is_hex_def is_lower_hex_def)
  then have "\<not> starts_with [48, 120] (map lower_char ip)"
    using assms by (cases ip; cases "tl ip") (auto simp: starts_with_def list_all_iff)
  then show ?thesis by (simp add: removeprefix_def ascii_def)
qed

section \<open>The line\<close>

abbreviation frame_stripped :: "printed_frame \<Rightarrow> pytext" where
  "frame_stripped f \<equiv> pf_ip f @ pf_gap f @ body_text f"

lemma parse_printed_frame:
  assumes fits: "frame_fits f"
  shows "parse_frame lim dec (frame_stripped f) n st =
    bindE (intern_limited lim (printed_key dec f) st) (\<lambda>(i, st). Inr (Some i, count_frame_line st))"
proof -
  obtain c where c: "fullmatch frame_re (frame_stripped f) = Some c" "group_of c ''ip'' = pf_ip f"
    "strip (group_of c ''body'') = body_text f" using fits by (rule frame_matches)
  have "removeprefix (ascii ''0x'') (map lower_char (pf_ip f)) = map lower_char (pf_ip f)"
    using fits by (intro no_address_prefix) (simp add: frame_fits_def)
  then show ?thesis
    using c by (simp add: parse_frame_def split_printed_body [OF fits] printed_frame_key [OF fits])
qed

lemma printed_callchain:
  assumes fits: "frame_fits f"
  shows "callchain_line lim dec (frame_stripped f) p st =
    bindE (intern_limited lim (printed_key dec f) st) (\<lambda>(i, st). Inr (count_frame_line st, append_frame i p))"
proof -
  obtain c where "fullmatch frame_re (frame_stripped f) = Some c" using fits by (rule frame_matches)
  then show ?thesis
    by (cases "intern_limited lim (printed_key dec f) st")
      (auto simp: callchain_line_def frame_or_unknown_def parse_printed_frame [OF fits])
qed

lemma strip_frame: "frame_fits f \<Longrightarrow> strip (frame_text f) = frame_stripped f"
proof -
  assume fits: "frame_fits f"
  have "trimmed (frame_stripped f)"
    using body_trimmed [OF fits] fits hex_space(1)
    by (cases "pf_ip f") (auto simp: trimmed_def frame_fits_def)
  then show ?thesis
    unfolding frame_text_def using fits blanksD(2) by (intro strip_pad) (auto simp: frame_fits_def)
qed

end
