(* ===== verification/PerfScriptConsumer.thy ===== *)
theory PerfScriptConsumer
  imports PerfScriptLines
begin

text \<open>
  The loop of the \<open>perf script\<close> parser with any consumer is the loop that only keeps the samples
  followed by one pass of the consumer over them. The laws a consumer has to keep are a locale.
\<close>

section \<open>The loop that keeps the samples\<close>

definition step_done ::
  "resource_limits \<Rightarrow> pytext \<Rightarrow> folded_state \<Rightarrow> stack_sample list \<Rightarrow> stack_sample list perf_run option \<Rightarrow> bool" where
  "step_done lim text st ss out = (case out of None \<Rightarrow> fo_rest st = [] | Some run \<Rightarrow> line_done lim text st ss run)"

text \<open>Reading a line: where the state stands when the line is looked at.\<close>

lemma perf_step_reads:
  assumes "read_chunk lim st = (c, v)" "c \<noteq> []" "sanitize_surrogateescaped_text c = (w, b, i)"
  defines "u \<equiv> count_text b i (v\<lparr>fo_line_number := fo_line_number v + 1\<rparr>)"
  shows "perf_step lim dec consume (st, po, g) =
    bindE (check_input_bytes lim u) (\<lambda>_. bindE (perf_line lim dec consume w po u g) (\<lambda>run. Inr (Some run)))"
  using assms by (simp add: perf_step_def u_def Let_def)

lemma perf_step_end: "read_chunk lim st = ([], v) \<Longrightarrow> perf_step lim dec consume (st, po, g) = Inr None"
  by (simp add: perf_step_def)

lemma run_ok_next:
  assumes "read_chunk lim st = (c, v)" "run_ok lim st po ss"
  shows "run_ok lim (count_text b i (v\<lparr>fo_line_number := fo_line_number v + 1\<rparr>)) po ss"
proof -
  obtain r where r: "fo_rest st = c @ r" "v = st\<lparr>fo_rest := r\<rparr>" using assms(1) by (rule read_chunk_parts)
  have "v\<lparr>fo_line_number := fo_line_number v + 1\<rparr> = st\<lparr>fo_line_number := fo_line_number v + 1, fo_rest := r\<rparr>"
    by (cases st) (simp add: r(2))
  then have "only_read (st\<lparr>fo_line_number := fo_line_number v + 1\<rparr>) (count_text b i (v\<lparr>fo_line_number := fo_line_number v + 1\<rparr>))"
    by (auto simp: only_read_def)
  then show ?thesis using assms(2) run_ok_read by simp
qed

lemma input_ok_next:
  assumes "read_chunk lim st = (c, v)" "input_ok lim text st" "sanitize_surrogateescaped_text c = (w, b, i)"
  defines "u \<equiv> count_text b i (v\<lparr>fo_line_number := fo_line_number v + 1\<rparr>)"
  shows "ensures perf_error (\<lambda>_. input_ok lim text u) (check_input_bytes lim u)"
proof -
  obtain r where r: "fo_rest st = c @ r" "v = st\<lparr>fo_rest := r\<rparr>" using assms(1) by (rule read_chunk_parts)
  let ?s = "st\<lparr>fo_line_number := fo_line_number v + 1\<rparr>"
  have u: "u = count_text b i (?s\<lparr>fo_rest := r\<rparr>)" by (cases st) (simp add: u_def r(2))
  have "input_ok lim text ?s" using assms(2) by (simp add: input_ok_def progress_def)
  from input_count [OF this _ assms(3), of r] show ?thesis using r(1) u by simp
qed

lemma perf_line_ok:
  assumes "input_ok lim text st" "run_ok lim st po ss"
  shows "ensures perf_error (line_done lim text st ss) (perf_line lim dec collect raw po st ss)"
  unfolding perf_line_plan
  by (rule ensures_bind [OF line_plan_ok [OF assms(1)]])
    (use assms(2) in \<open>auto simp: plan_post_def intro!: flush_then_ok\<close>)

lemma perf_step_ok:
  assumes lim: "1 \<le> rl_max_line_chars lim" and "input_ok lim text st" "run_ok lim st po ss"
  shows "ensures perf_error (step_done lim text st ss) (perf_step lim dec collect (st, po, ss))"
proof -
  obtain c v where cs: "read_chunk lim st = (c, v)" by fastforce
  show ?thesis
  proof (cases "c = []")
    case True
    then have "fo_rest st = []" "perf_step lim dec collect (st, po, ss) = Inr None"
      using read_chunk_end(1) [of lim st v] cs lim perf_step_end by simp_all
    then show ?thesis by (simp add: step_done_def)
  next
    case False
    obtain w b i where san: "sanitize_surrogateescaped_text c = (w, b, i)" by (cases "sanitize_surrogateescaped_text c")
    let ?u = "count_text b i (v\<lparr>fo_line_number := fo_line_number v + 1\<rparr>)"
    have same: "fo_frame_table ?u = fo_frame_table st" using cs by (auto elim: read_chunk_parts)
    show ?thesis
      unfolding perf_step_reads [OF cs False san]
    proof (rule ensures_bind [OF input_ok_next [OF cs assms(2) san]])
      assume "input_ok lim text ?u"
      from perf_line_ok [OF this run_ok_next [OF cs assms(3)], of dec w]
      show "ensures perf_error (step_done lim text st ss) (bindE (perf_line lim dec collect w po ?u ss) (\<lambda>run. Inr (Some run)))"
        by (rule ensures_bind) (use same in \<open>auto simp: step_done_def line_done_def grows_to_def\<close>)
    qed
  qed
qed

definition loop_done :: "resource_limits \<Rightarrow> pytext \<Rightarrow> folded_state \<Rightarrow> stack_sample list \<Rightarrow> folded_state \<times> stack_sample list \<Rightarrow> bool" where
  "loop_done lim text st ss = (\<lambda>(u, ss'). input_ok lim text u \<and> fo_rest u = [] \<and> grows_to st u \<and> run_ok lim u None ss' \<and>
     (\<exists>new. ss' = ss @ new))"

lemma perf_loop_ok:
  assumes lim: "1 \<le> rl_max_line_chars lim" and st: "input_ok lim text st" "run_ok lim st po ss"
  shows "ensures perf_error (loop_done lim text st ss) (perf_loop lim dec collect (st, po, ss))"
  using st
proof (induction "length (fo_rest st)" arbitrary: st po ss rule: less_induct)
  case less
  note step = perf_step_ok [OF lim less.prems, of dec]
  show ?case
  proof (cases "perf_step lim dec collect (st, po, ss)")
    case (Inl e)
    then show ?thesis using step by (simp add: perf_loop.simps)
  next
    case (Inr out)
    show ?thesis
    proof (cases out)
      case None
      then have "fo_rest st = []" using step Inr by (simp add: step_done_def)
      then have "loop_done lim text st ss x" if "flush_post lim st ss x" for x
        using that less.prems(1) input_ok_same
        by (auto simp: flush_post_def loop_done_def grows_to_def) (auto simp: same_input_def)
      then show ?thesis
        using Inr None by (auto simp: perf_loop.simps intro: ensures_mono [OF flush_ok [OF less.prems(2)]])
    next
      case (Some run)
      obtain u p ss' where run: "run = (u, p, ss')" by (cases run)
      have shorter: "length (fo_rest u) < length (fo_rest st)" using perf_step_shorter [of lim dec collect st po ss u p ss'] Inr Some run by simp
      have reached: "input_ok lim text u" "grows_to st u" "run_ok lim u p ss'" "\<exists>new. ss' = ss @ new"
        using step Inr Some run by (simp_all add: step_done_def line_done_def)
      have "loop_done lim text st ss x" if "loop_done lim text u ss' x" for x
        using that reached(2,4) by (auto simp: loop_done_def grows_to_def intro: grows_trans)
      then show ?thesis
        using ensures_mono [OF less.hyps [OF shorter reached(1,3)]] Inr Some run by (simp add: perf_loop.simps)
    qed
  qed
qed

section \<open>Any consumer\<close>

text \<open>
  The contract of a consumer: what it does with a sample does not change when the frame table
  grows, and it raises nothing but \<open>err\<close> on the samples of the parser.
\<close>

lemma run_ok_samples: "run_ok lim st po ss \<Longrightarrow> \<forall>s \<in> set ss. perf_sample lim (fo_frame_table st) s"
  by (simp add: run_ok_def Let_def)

locale sample_consumer =
  fixes lim :: resource_limits
    and consume :: "'g consumer"
    and start :: 'g
    and err :: "py_error \<Rightarrow> bool"
  assumes consume_grows: "perf_sample lim t s \<Longrightarrow> grows t u \<Longrightarrow> consume u s g = consume t s g"
    and consume_error: "\<forall>s \<in> set ss. perf_sample lim t s \<Longrightarrow> foldE (consume t) ss start = Inl e \<Longrightarrow> err e"
begin

definition batch :: "frame_table \<Rightarrow> stack_sample list \<Rightarrow> 'g result" where
  "batch t ss = foldE (consume t) ss start"

lemma foldE_grows: "\<forall>s \<in> set ss. perf_sample lim t s \<Longrightarrow> grows t u \<Longrightarrow> foldE (consume u) ss g = foldE (consume t) ss g"
proof (induction ss arbitrary: g)
  case (Cons s ss)
  then have "consume u s g = consume t s g" by (intro consume_grows) simp_all
  with Cons show ?case by (cases "consume t s g") simp_all
qed simp

lemma batch_grows: "\<forall>s \<in> set ss. perf_sample lim t s \<Longrightarrow> grows t u \<Longrightarrow> batch u ss = batch t ss"
  unfolding batch_def by (rule foldE_grows)

lemma batch_extends: "batch t ss = Inl e \<Longrightarrow> batch t (ss @ new) = Inl e"
  by (simp add: batch_def foldE_append)

text \<open>Once the consumer has raised, the samples that follow do not matter.\<close>

lemma batch_doomed:
  assumes "run_ok lim st po ss" "batch (fo_frame_table st) ss = Inl e" "grows_to st u" "ss' = ss @ new"
  shows "batch (fo_frame_table u) ss' = Inl e"
proof -
  have "batch (fo_frame_table u) ss = Inl e"
    using assms(2) batch_grows [OF run_ok_samples [OF assms(1)] assms(3) [unfolded grows_to_def]] by simp
  then show ?thesis by (simp add: assms(4) batch_extends)
qed

lemma run_ok_err:
  assumes "run_ok lim st po ss" "batch (fo_frame_table st) ss = Inl e"
  shows "err e"
  using consume_error [OF run_ok_samples [OF assms(1)]] assms(2) by (simp add: batch_def)

lemma flush_batch:
  assumes "run_ok lim st po ss" "batch (fo_frame_table st) ss = Inr g"
  shows "flush_pending lim consume po st g =
    bindE (flush_pending lim collect po st ss) (\<lambda>(u, ss'). bindE (batch (fo_frame_table u) ss') (\<lambda>g'. Inr (u, g')))"
proof (cases po)
  case None
  then show ?thesis using assms(2) by simp
next
  case (Some p)
  show ?thesis
  proof (cases "finish_record lim p st")
    case (Inl e)
    then show ?thesis using Some by (simp add: flush_pending_def)
  next
    case (Inr x)
    obtain parsed u where x: "x = (parsed, u)" by (cases x)
    have "run_ok lim st (Some p) ss" using assms(1) Some by simp
    from ensuresD [OF finish_record_ok [OF this] Inr] have "fo_frame_table u = fo_frame_table st" by (simp add: finish_post_def x)
    then show ?thesis
      using assms(2) Some Inr x by (cases parsed) (simp_all add: flush_pending_def collect_def batch_def foldE_append bindE_assoc)
  qed
qed

definition follows ::
  "('a \<Rightarrow> folded_state \<times> stack_sample list) \<Rightarrow> ('a \<Rightarrow> 'g \<Rightarrow> 'b) \<Rightarrow> 'a result \<Rightarrow> 'b result \<Rightarrow> bool" where
  "follows part whole m n \<longleftrightarrow> (case m of
     Inl e \<Rightarrow> (\<exists>e'. n = Inl e' \<and> (e' = e \<or> err e'))
   | Inr x \<Rightarrow> n = bindE (batch (fo_frame_table (fst (part x))) (snd (part x))) (\<lambda>g. Inr (whole x g)))"

abbreviation of_run :: "stack_sample list perf_run \<Rightarrow> folded_state \<times> stack_sample list" where
  "of_run run \<equiv> (fst run, snd (snd run))"

abbreviation with_run :: "stack_sample list perf_run \<Rightarrow> 'g \<Rightarrow> 'g perf_run" where
  "with_run run g \<equiv> (fst run, fst (snd run), g)"

lemma follows_error: "follows part whole (Inl e) (Inl e)"
  by (simp add: follows_def)

lemma rest_follows:
  assumes rest: "ensures perf_error (rest_post lim u ss) (rest u)"
    and good: "\<forall>s \<in> set ss. perf_sample lim (fo_frame_table u) s"
  shows "follows of_run with_run (bindE (rest u) (\<lambda>(w, p). Inr (w, p, ss)))
    (bindE (batch (fo_frame_table u) ss) (\<lambda>g. bindE (rest u) (\<lambda>(w, p). Inr (w, p, g))))"
proof (cases "rest u")
  case (Inl e)
  then show ?thesis
    using consume_error [OF good] by (cases "batch (fo_frame_table u) ss") (simp_all add: follows_def batch_def)
next
  case (Inr x)
  obtain w p where x: "x = (w, p)" by (cases x)
  have "grows (fo_frame_table u) (fo_frame_table w)" using rest Inr x by (simp add: rest_post_def grows_to_def)
  then have "batch (fo_frame_table w) ss = batch (fo_frame_table u) ss" by (rule batch_grows [OF good])
  with Inr x show ?thesis by (simp add: follows_def)
qed

lemma flush_then_follows:
  assumes run: "run_ok lim v po ss" "batch (fo_frame_table v) ss = Inr g"
    and rest: "q = po \<and> rest_ok lim rest \<or>
      q = None \<and> (\<forall>ss. run_ok lim v po ss \<longrightarrow> ensures perf_error (rest_post lim v ss) (rest v))"
  shows "follows of_run with_run (flush_then lim collect q v rest ss) (flush_then lim consume q v rest g)"
proof (cases "q = po \<and> rest_ok lim rest")
  case True
  show ?thesis
  proof (cases "flush_pending lim collect po v ss")
    case (Inl e)
    then show ?thesis using True flush_batch [OF run] by (simp add: flush_then_def follows_error)
  next
    case (Inr x)
    obtain u ss' where x: "x = (u, ss')" by (cases x)
    then have "run_ok lim u None ss'" using ensuresD [OF flush_ok [OF run(1)] Inr] by (simp add: flush_post_def)
    then have "ensures perf_error (rest_post lim u ss') (rest u)" "\<forall>s \<in> set ss'. perf_sample lim (fo_frame_table u) s"
      using True run_ok_samples by (auto simp: rest_ok_def)
    from rest_follows [of u ss' rest, OF this] show ?thesis
      using True Inr x flush_batch [OF run] by (simp add: flush_then_def bindE_assoc)
  qed
next
  case False
  then have q: "q = None" "ensures perf_error (rest_post lim v ss) (rest v)" using rest run(1) by auto
  from rest_follows [of v ss rest, OF q(2) run_ok_samples [OF run(1)]] show ?thesis using q(1) run(2) by (simp add: flush_then_def)
qed

lemma perf_line_follows:
  assumes "input_ok lim text st" "run_ok lim st po ss" "batch (fo_frame_table st) ss = Inr g"
  shows "follows of_run with_run (perf_line lim dec collect raw po st ss) (perf_line lim dec consume raw po st g)"
proof (cases "line_plan lim dec raw po st")
  case (Inl e)
  then show ?thesis by (simp add: perf_line_plan follows_error)
next
  case (Inr x)
  obtain v q rest where x: "x = (v, q, rest)" by (cases x)
  have plan: "plan_post lim text st po (v, q, rest)" using ensuresD [OF line_plan_ok [OF assms(1)] Inr] x by simp
  then have v: "only_read st v" by (simp add: plan_post_def)
  have "run_ok lim v po ss" "batch (fo_frame_table v) ss = Inr g"
    using assms(2,3) run_ok_read [OF v] only_read_table [OF v] by simp_all
  from flush_then_follows [OF this, of q rest] plan show ?thesis
    using Inr x by (simp add: perf_line_plan plan_post_def)
qed

theorem loop_follows:
  assumes lim: "1 \<le> rl_max_line_chars lim"
    and st: "input_ok lim text st" "run_ok lim st po ss" "batch (fo_frame_table st) ss = Inr g"
  shows "follows (\<lambda>x. x) (\<lambda>x g. (fst x, g)) (perf_loop lim dec collect (st, po, ss)) (perf_loop lim dec consume (st, po, g))"
  using st
proof (induction "length (fo_rest st)" arbitrary: st po ss g rule: less_induct)
  case less
  obtain c v where cs: "read_chunk lim st = (c, v)" by fastforce
  show ?case
  proof (cases "c = []")
    case True
    then have "perf_loop lim dec collect (st, po, ss) = flush_pending lim collect po st ss"
      "perf_loop lim dec consume (st, po, g) = flush_pending lim consume po st g"
      using cs by (simp_all add: perf_loop.simps perf_step_end)
    then show ?thesis
      unfolding follows_def
      by (cases "flush_pending lim collect po st ss") (auto simp: flush_batch [OF less.prems(2,3)])
  next
    case False
    obtain w b i where san: "sanitize_surrogateescaped_text c = (w, b, i)" by (cases "sanitize_surrogateescaped_text c")
    define u where "u = count_text b i (v\<lparr>fo_line_number := fo_line_number v + 1\<rparr>)"
    note step = perf_step_reads [OF cs False san, folded u_def]
    have tbl: "fo_frame_table u = fo_frame_table st" using cs by (auto simp: u_def elim: read_chunk_parts)
    show ?thesis
    proof (cases "check_input_bytes lim u")
      case (Inl e)
      then show ?thesis by (simp add: perf_loop.simps step follows_error)
    next
      case (Inr x)
      have u: "input_ok lim text u" "run_ok lim u po ss" "batch (fo_frame_table u) ss = Inr g"
        using ensuresD [OF input_ok_next [OF cs less.prems(1) san] Inr [unfolded u_def]]
          run_ok_next [OF cs less.prems(2)] less.prems(3) by (simp_all add: tbl) (simp_all add: u_def)
      note line = perf_line_follows [OF u, of dec w] and ok = perf_line_ok [OF u(1,2), of dec w]
      show ?thesis
      proof (cases "perf_line lim dec collect w po u ss")
        case e: (Inl e)
        then show ?thesis using line Inr by (auto simp: perf_loop.simps step follows_def)
      next
        case run: (Inr run)
        obtain s p ss' where parts: "run = (s, p, ss')" by (cases run)
        have reached: "input_ok lim text s" "run_ok lim s p ss'" using ok run parts by (simp_all add: line_done_def)
        have collected: "perf_step lim dec collect (st, po, ss) = Inr (Some (s, p, ss'))" using Inr run parts by (simp add: step)
        then have shorter: "length (fo_rest s) < length (fo_rest st)" by (rule perf_step_shorter)
        have loop: "perf_loop lim dec collect (st, po, ss) = perf_loop lim dec collect (s, p, ss')"
          using collected by (simp add: perf_loop.simps)
        show ?thesis
        proof (cases "batch (fo_frame_table s) ss'")
          case e: (Inl e)
          then have "perf_loop lim dec consume (st, po, g) = Inl e"
            using line run parts Inr by (simp add: perf_loop.simps step follows_def)
          moreover have "batch (fo_frame_table t) ss'' = Inl e" if "perf_loop lim dec collect (s, p, ss') = Inr (t, ss'')" for t ss''
            using ensuresD [OF perf_loop_ok [OF lim reached] that] batch_doomed [OF reached(2) e] by (auto simp: loop_done_def)
          ultimately show ?thesis
            using run_ok_err [OF reached(2) e] loop by (cases "perf_loop lim dec collect (s, p, ss')") (auto simp: follows_def)
        next
          case g': (Inr g')
          then have "perf_loop lim dec consume (st, po, g) = perf_loop lim dec consume (s, p, g')"
            using line run parts Inr by (simp add: perf_loop.simps [of lim dec consume st] step follows_def)
          then show ?thesis using less.hyps [OF shorter reached g'] loop by simp
        qed
      qed
    qed
  qed
qed

end

end
