(* ===== verification/PerfScriptPipeline.thy ===== *)
theory PerfScriptPipeline
  imports PerfScriptConsumer FoldedPipeline
begin

text \<open>
  The analysis of a \<open>perf script\<close> file: the parser with the hotspot aggregator as the consumer
  of its samples, the result, and the checks of its evidence.
\<close>

section \<open>The analysis\<close>

text \<open>A transcript without records does not show an event.\<close>

definition without_event :: "aggregation_result \<Rightarrow> aggregation_result" where
  "without_event r =
     (if ar_record_count r = 0
      then r\<lparr>ar_event := ascii ''unknown'', ar_weight_unit := ascii ''sample_count'',
             ar_weight_source := ascii ''sample_count_fallback''\<rparr>
      else r)"

definition analyze_perf ::
  "resource_limits \<Rightarrow> decimals \<Rightarrow> int \<Rightarrow> pytext \<Rightarrow> (aggregation_result \<times> parse_diagnostics) result" where
  "analyze_perf lim dec st_size text =
     bindE (folded_enter lim st_size text) (\<lambda>st.
     bindE (perf_loop lim dec (add_sample lim) (st, None, aggregator_init)) (\<lambda>(st, g).
     bindE (finish_aggregation (fo_frame_table st) g) (\<lambda>r.
     Inr (without_event r, fo_diagnostics st))))"

text \<open>The same file read for its samples only: the samples, the frame table and the diagnostics.\<close>

definition parse_perf ::
  "resource_limits \<Rightarrow> decimals \<Rightarrow> int \<Rightarrow> pytext \<Rightarrow> (stack_sample list \<times> frame_table \<times> parse_diagnostics) result" where
  "parse_perf lim dec st_size text =
     bindE (folded_enter lim st_size text) (\<lambda>st.
     bindE (perf_loop lim dec collect (st, None, [])) (\<lambda>(st, ss).
     Inr (ss, fo_frame_table st, fo_diagnostics st)))"

section \<open>The aggregator as a consumer\<close>

definition aggregation_error :: "py_error \<Rightarrow> bool" where
  "aggregation_error e \<longleftrightarrow> e = mixed_scope \<or> e = too_many_paths"

lemma perf_sample_ok: "perf_sample lim t s \<Longrightarrow> sample_ok t s"
  by (auto simp: perf_sample_def sample_ok_def valid_id_def)

lemma frame_loop_cong:
  "\<forall>i \<in> set is. resolve u i = resolve t i \<Longrightarrow> foldE (frame_step u s) is l = foldE (frame_step t s) is l"
proof (induction "is" arbitrary: l)
  case (Cons i "is")
  then have "frame_step u s i l = frame_step t s i l" by (simp add: frame_step_def)
  with Cons show ?case by (cases "frame_step t s i l") simp_all
qed simp

lemma add_sample_grows:
  assumes "perf_sample lim t s" "grows t u"
  shows "add_sample lim u s g = add_sample lim t s g"
proof -
  have same: "\<forall>i \<in> set (ss_frames s). resolve u i = resolve t i" "ss_frames s \<noteq> []"
    using assms by (auto simp: perf_sample_def valid_id_def grows_def)
  then show ?thesis unfolding add_sample_def by (simp add: frame_loop_cong [OF same(1)])
qed

lemma aggregation_ensures:
  "\<forall>s \<in> set ss. sample_ok t s \<Longrightarrow> ensures aggregation_error (agg_inv t ss) (foldE (add_sample lim t) ss aggregator_init)"
proof (induction ss rule: rev_induct)
  case Nil
  then show ?case by (simp add: agg_inv_init)
next
  case (snoc s ss)
  have "ensures aggregation_error (agg_inv t (ss @ [s])) (add_sample lim t s g)" if "agg_inv t ss g" for g
    using add_sample_step [OF that, of s lim] snoc.prems
    by (cases "add_sample lim t s g") (auto simp: aggregation_error_def)
  moreover have "ensures aggregation_error (agg_inv t ss) (foldE (add_sample lim t) ss aggregator_init)"
    using snoc by simp
  ultimately show ?case unfolding foldE_append by (auto intro!: ensures_bind)
qed

interpretation aggregating: sample_consumer lim "add_sample lim" aggregator_init aggregation_error
  for lim
proof unfold_locales
  fix t u s g assume "perf_sample lim t s" "grows t u"
  then show "add_sample lim u s g = add_sample lim t s g" by (rule add_sample_grows)
next
  fix ss t e assume "\<forall>s \<in> set ss. perf_sample lim t s" and raised: "foldE (add_sample lim t) ss aggregator_init = Inl e"
  then have "\<forall>s \<in> set ss. sample_ok t s" using perf_sample_ok by blast
  from aggregation_ensures [OF this, of lim] show "aggregation_error e" using raised by simp
qed

text \<open>Keeping the samples is a consumer that never raises.\<close>

lemma collect_all: "foldE (collect t) ss acc = Inr (acc @ ss)"
  by (induction ss arbitrary: acc) (simp_all add: collect_def)

interpretation collecting: sample_consumer lim collect "[]" "\<lambda>_. False"
  for lim
  by unfold_locales (simp_all add: collect_def collect_all)

section \<open>From the text to the result\<close>

lemma perf_start:
  assumes "limits_ok lim"
  shows "input_ok lim text (folded_init lim text)" "run_ok lim (folded_init lim text) None []"
  using limits_okD [OF assms] folded_inv_init [OF assms, of "text"]
  by (auto simp: input_ok_def run_ok_def Let_def folded_inv_def diag_ok_def folded_init_def diagnostics_init_def
      diagnostics_wf_def)

lemma folded_enter_cases:
  obtains (large) "rl_max_input_bytes lim < st_size"
      "folded_enter lim st_size text = Inl (PerfLensError RESOURCE_LIMIT_EXCEEDED ''input'' ''Input file exceeds max_input_bytes'')"
  | (entered) "folded_enter lim st_size text = Inr (folded_init lim text)"
  by (cases "rl_max_input_bytes lim < st_size") (simp_all add: folded_enter_def raise_if_def)

lemma analyze_follows:
  assumes lim: "limits_ok lim"
  shows "case parse_perf lim dec st_size text of
      Inl e \<Rightarrow> \<exists>e'. analyze_perf lim dec st_size text = Inl e' \<and> (e' = e \<or> aggregation_error e')
    | Inr (ss, t, d) \<Rightarrow> analyze_perf lim dec st_size text = bindE (aggregate lim t ss) (\<lambda>r. Inr (without_event r, d))"
proof (cases rule: folded_enter_cases [of lim st_size "text"])
  case large
  then show ?thesis by (simp add: parse_perf_def analyze_perf_def)
next
  case entered
  let ?st = "folded_init lim text"
  have "aggregating.batch lim (fo_frame_table ?st) [] = Inr aggregator_init" by (simp add: aggregating.batch_def)
  from aggregating.loop_follows [OF limits_okD(3) [OF lim] perf_start [OF lim] this, of dec]
  show ?thesis
    by (cases "perf_loop lim dec collect (?st, None, [])")
      (auto simp: parse_perf_def analyze_perf_def entered aggregating.follows_def aggregating.batch_def aggregate_def bindE_assoc)
qed

text \<open>What a completed parse is.\<close>

lemma parse_perf_result:
  assumes "limits_ok lim" "parse_perf lim dec st_size text = Inr (ss, t, d)"
  obtains st where "input_ok lim text st" "fo_rest st = []" "run_ok lim st None ss" "t = fo_frame_table st" "d = fo_diagnostics st"
proof (cases rule: folded_enter_cases [of lim st_size "text"])
  case large
  then show thesis using assms(2) by (simp add: parse_perf_def)
next
  case entered
  then obtain st where "perf_loop lim dec collect (folded_init lim text, None, []) = Inr (st, ss)"
    "t = fo_frame_table st" "d = fo_diagnostics st"
    using assms(2) by (auto simp: parse_perf_def)
  with ensuresD [OF perf_loop_ok [OF limits_okD(3) [OF assms(1)] perf_start [OF assms(1), of "text"], of dec]] that
  show thesis by (auto simp: loop_done_def)
qed

lemma analyze_perf_result:
  assumes lim: "limits_ok lim" and result: "analyze_perf lim dec st_size text = Inr (r, d)"
  obtains ss t g r' where "parse_perf lim dec st_size text = Inr (ss, t, d)" "agg_inv t ss g"
    "finish_aggregation t g = Inr r'" "r = without_event r'"
proof -
  obtain ss t d' where parsed: "parse_perf lim dec st_size text = Inr (ss, t, d')"
    using analyze_follows [OF lim, of dec st_size "text"] result by (cases "parse_perf lim dec st_size text") auto
  then have agg: "bindE (aggregate lim t ss) (\<lambda>r. Inr (without_event r, d')) = Inr (r, d)"
    using analyze_follows [OF lim, of dec st_size "text"] result by simp
  then have parse: "parse_perf lim dec st_size text = Inr (ss, t, d)" using parsed by auto
  from agg obtain g r' where g: "foldE (add_sample lim t) ss aggregator_init = Inr g" "finish_aggregation t g = Inr r'" "r = without_event r'"
    by (auto simp: aggregate_def)
  from parse_perf_result [OF lim parse] obtain st where "run_ok lim st None ss" "t = fo_frame_table st" by blast
  then have "\<forall>s \<in> set ss. sample_ok t s" using run_ok_samples perf_sample_ok by blast
  from aggregation_ensures [OF this, of lim] g(1) have "agg_inv t ss g" by simp
  with that parse g show thesis by blast
qed

text \<open>The parser and the aggregator count the same frames.\<close>

lemma frames_where_total:
  assumes "\<forall>s \<in> set ss. sample_ok t s"
  shows "frames_where t (\<lambda>_. True) ss = frame_total ss"
  using assms by (induction ss) (simp_all add: frames_where_def frame_total_def sample_ok_frames(3))

lemma without_event_fields [simp]:
  "ar_record_count (without_event r) = ar_record_count r" "ar_total_weight (without_event r) = ar_total_weight r"
  "ar_hotspots (without_event r) = ar_hotspots r" "ar_call_paths (without_event r) = ar_call_paths r"
  "ar_call_graph_weight (without_event r) = ar_call_graph_weight r"
  "ar_unknown_self_weight (without_event r) = ar_unknown_self_weight r"
  "ar_kernel_context_self_weight (without_event r) = ar_kernel_context_self_weight r"
  "ar_user_context_self_weight (without_event r) = ar_user_context_self_weight r"
  "ar_unknown_context_self_weight (without_event r) = ar_unknown_context_self_weight r"
  "ar_unresolved_kernel_self_weight (without_event r) = ar_unresolved_kernel_self_weight r"
  "ar_unresolved_user_self_weight (without_event r) = ar_unresolved_user_self_weight r"
  "ar_unresolved_unknown_context_self_weight (without_event r) = ar_unresolved_unknown_context_self_weight r"
  "ar_source_line_self_weight (without_event r) = ar_source_line_self_weight r"
  "ar_total_frame_count (without_event r) = ar_total_frame_count r"
  by (simp_all add: without_event_def)

lemma validate_without_event:
  "validate_aggregation_invariants (without_event r) d source_type = validate_aggregation_invariants r d source_type"
  by (simp only: validate_aggregation_invariants_def aggregation_failures_def without_event_fields)

end
