(* ===== verification/PerfScriptTranscript.thy ===== *)
theory PerfScriptTranscript
  imports PerfScriptFrames PerfScriptPipeline
begin

text \<open>
  Whole transcripts: printed records, one after the other, are read back to one sample each.
\<close>

section \<open>Printed records\<close>

record printed_record =
  pt_header :: printed_header
  pt_frames :: "printed_frame list"

definition frame_lines :: "printed_frame list \<Rightarrow> pytext" where
  "frame_lines fs = concat (map (\<lambda>f. frame_text f @ [10]) fs)"

definition record_text :: "printed_record \<Rightarrow> pytext" where
  "record_text r = header_text (pt_header r) @ 10 # frame_lines (pt_frames r) @ [10]"

definition transcript :: "printed_record list \<Rightarrow> pytext" where
  "transcript rs = concat (map record_text rs)"

text \<open>A line the reader takes whole, without line ends and undecodable bytes.\<close>

definition line_fits :: "resource_limits \<Rightarrow> pytext \<Rightarrow> bool" where
  "line_fits lim line \<longleftrightarrow> int (length line) + 1 \<le> rl_max_line_chars lim \<and>
     (\<forall>c \<in> set line. c \<noteq> 10 \<and> c \<noteq> 13 \<and> \<not> is_escaped_byte c)"

definition record_fits :: "resource_limits \<Rightarrow> printed_record \<Rightarrow> bool" where
  "record_fits lim r \<longleftrightarrow> header_fits (pt_header r) \<and> line_fits lim (header_text (pt_header r)) \<and>
     pt_frames r \<noteq> [] \<and> int (length (pt_frames r)) \<le> rl_max_stack_depth lim \<and>
     (\<forall>f \<in> set (pt_frames r). frame_fits f \<and> line_fits lim (frame_text f))"

definition frame_number :: "printed_record list \<Rightarrow> int" where
  "frame_number rs = sum_list (map (\<lambda>r. int (length (pt_frames r))) rs)"

text \<open>The sample of a record: its header's data, and its frames from the root to the leaf.\<close>

definition stands_for :: "decimals \<Rightarrow> frame_table \<Rightarrow> stack_sample \<Rightarrow> printed_record \<Rightarrow> bool" where
  "stands_for dec t s r \<longleftrightarrow>
     (let h = pt_header r in
      list_all2 (\<lambda>i f. 0 \<le> i \<and> resolve t i = Inr (printed_key dec f)) (rev (ss_frames s)) (pt_frames r) \<and>
      s = \<lparr>ss_frames = ss_frames s, ss_weight = int (hp_period h), ss_event = hp_event h,
           ss_weight_unit = perf_period_unit (hp_event h), ss_weight_source = ascii ''perf_period'',
           ss_process_id = Some (int (hp_pid h)), ss_thread_id = Some (int (hp_tid h)), ss_thread_name = hp_comm h,
           ss_cpu = Some (int (hp_cpu h)), ss_sample_context = sample_context (Some (hp_misc h))\<rparr>)"

section \<open>Reading a line\<close>

lemma line_length_line: "\<forall>c \<in> set line. c \<noteq> 10 \<and> c \<noteq> 13 \<Longrightarrow> line_length (line @ 10 # rest) = Suc (length line)"
  by (induction line) auto

definition after_line :: "folded_state \<Rightarrow> pytext \<Rightarrow> pytext \<Rightarrow> folded_state" where
  "after_line st line rest =
     count_text (text_bytes (line @ [10])) 0 (st\<lparr>fo_rest := rest, fo_line_number := fo_line_number st + 1\<rparr>)"

lemma after_line_simps [simp]:
  "fo_rest (after_line st line rest) = rest" "fo_frame_table (after_line st line rest) = fo_frame_table st"
  "pd_parsed_records (fo_diagnostics (after_line st line rest)) = pd_parsed_records (fo_diagnostics st)"
  "pd_malformed_records (fo_diagnostics (after_line st line rest)) = pd_malformed_records (fo_diagnostics st)"
  "pd_skipped_records (fo_diagnostics (after_line st line rest)) = pd_skipped_records (fo_diagnostics st)"
  "pd_warning_count (fo_diagnostics (after_line st line rest)) = pd_warning_count (fo_diagnostics st)"
  "pd_bytes_read (fo_diagnostics (after_line st line rest)) =
     pd_bytes_read (fo_diagnostics st) + text_bytes (line @ [10])"
  by (simp_all add: after_line_def count_text_def)

lemma text_bytes_nonneg: "0 \<le> text_bytes s"
  by (simp add: text_bytes_def)

lemma step_line:
  assumes rest: "fo_rest st = line @ 10 # rest" and fits: "line_fits lim line"
    and bytes: "pd_bytes_read (fo_diagnostics st) + text_bytes (fo_rest st) \<le> rl_max_input_bytes lim"
  shows "perf_step lim dec consume (st, po, g) =
    bindE (perf_line lim dec consume (line @ [10]) po (after_line st line rest) g) (\<lambda>run. Inr (Some run))"
proof -
  have chars: "\<forall>c \<in> set line. c \<noteq> 10 \<and> c \<noteq> 13 \<and> \<not> is_escaped_byte c" and len: "int (length line) + 1 \<le> rl_max_line_chars lim"
    using fits by (simp_all add: line_fits_def)
  have "line_length (fo_rest st) = Suc (length line)" using chars line_length_line by (simp add: rest)
  moreover have "Suc (length line) \<le> nat (rl_max_line_chars lim + 1)" using len by simp
  ultimately have chunk: "read_chunk lim st = (line @ [10], st\<lparr>fo_rest := rest\<rparr>)"
    by (simp add: read_chunk_def readline_def rest min_absorb2)
  have plain: "filter is_escaped_byte (line @ [10]) = []" using chars by (auto simp: filter_empty_conv is_escaped_byte_def)
  have clean: "sanitize_surrogateescaped_text (line @ [10]) = (line @ [10], text_bytes (line @ [10]), 0)"
    unfolding sanitize_surrogateescaped_text_def plain by (simp add: text_bytes_def)
  have state: "count_text (text_bytes (line @ [10])) 0 ((st\<lparr>fo_rest := rest\<rparr>)\<lparr>fo_line_number := fo_line_number (st\<lparr>fo_rest := rest\<rparr>) + 1\<rparr>) =
      after_line st line rest"
    by (simp add: after_line_def)
  have "text_bytes (fo_rest st) = text_bytes (line @ [10]) + text_bytes rest"
    using text_counts_append(1) [of "line @ [10]" rest] by (simp add: rest)
  then have "check_input_bytes lim (after_line st line rest) = Inr ()"
    using bytes text_bytes_nonneg [of rest] by (simp add: check_input_bytes_def)
  then show ?thesis
    unfolding perf_step_reads [OF chunk _ clean, simplified] state [simplified] by simp
qed

lemma loop_line:
  assumes "fo_rest st = line @ 10 # rest" "line_fits lim line"
    "pd_bytes_read (fo_diagnostics st) + text_bytes (fo_rest st) \<le> rl_max_input_bytes lim"
    and "perf_line lim dec consume (line @ [10]) po (after_line st line rest) g = Inr run"
  shows "perf_loop lim dec consume (st, po, g) = perf_loop lim dec consume run"
proof -
  have "perf_step lim dec consume (st, po, g) = Inr (Some run)" 
    unfolding step_line [OF assms(1-3), of dec consume po g] assms(4) by simp
  then show ?thesis by (cases run) (simp add: perf_loop.simps [of lim dec consume st])
qed

lemma rstrip_newline_line: "line_fits lim line \<Longrightarrow> rstrip_newline (line @ [10]) = line"
  by (cases line rule: rev_cases) (auto simp: rstrip_newline_def line_fits_def)

text \<open>A line within the limit is looked at without its line feed.\<close>

lemma perf_line_text:
  assumes "line_fits lim line"
  shows "perf_line lim dec consume (line @ [10]) po st g =
    (if strip line = [] then blank_line lim consume po st g
     else bindE (parse_perf_header dec line) (\<lambda>parsed.
       case parsed of
         Some (header, rest) \<Rightarrow> header_line lim dec consume header rest po st g
       | None \<Rightarrow>
           (case (po, starts_blank (line @ [10])) of
              (Some p, True) \<Rightarrow> bindE (callchain_line lim dec (strip line) p st) (\<lambda>(st, p). Inr (st, Some p, g))
            | _ \<Rightarrow> stray_line lim consume line po st g)))"
proof -
  have short: "\<not> int (length (line @ [10])) > rl_max_line_chars lim" using assms by (simp add: line_fits_def)
  show ?thesis by (simp only: perf_line_def short if_False Let_def rstrip_newline_line [OF assms])
qed

section \<open>One line of a record\<close>

definition room :: "resource_limits \<Rightarrow> int \<Rightarrow> int \<Rightarrow> folded_state \<Rightarrow> bool" where
  "room lim n k st \<longleftrightarrow> frame_table_wf (fo_frame_table st) \<and> frame_count (fo_frame_table st) + k \<le> rl_max_unique_frames lim \<and>
     pd_parsed_records (fo_diagnostics st) + pd_malformed_records (fo_diagnostics st) + n \<le> rl_max_records lim \<and>
     pd_bytes_read (fo_diagnostics st) + text_bytes (fo_rest st) \<le> rl_max_input_bytes lim"

definition moved :: "folded_state \<Rightarrow> folded_state \<Rightarrow> bool" where
  "moved st u \<longleftrightarrow> grows_to st u \<and>
     pd_malformed_records (fo_diagnostics u) = pd_malformed_records (fo_diagnostics st) \<and>
     pd_skipped_records (fo_diagnostics u) = pd_skipped_records (fo_diagnostics st) \<and>
     pd_warning_count (fo_diagnostics u) = pd_warning_count (fo_diagnostics st)"

lemma moved_trans: "moved st u \<Longrightarrow> moved u v \<Longrightarrow> moved st v"
  by (auto simp: moved_def grows_to_def intro: grows_trans)

lemma room_after:
  assumes "room lim n k st" "fo_rest st = line @ 10 # rest"
  shows "room lim n k (after_line st line rest)"
proof -
  have "text_bytes (fo_rest st) = text_bytes (line @ [10]) + text_bytes rest"
    using text_counts_append(1) [of "line @ [10]" rest] by (simp add: assms(2))
  then show ?thesis using assms(1) by (simp add: room_def)
qed

lemma moved_after: "moved st (after_line st line rest)"
  by (simp add: moved_def grows_to_def)

lemma room_bytes: "room lim n k st \<Longrightarrow> pd_bytes_read (fo_diagnostics st) + text_bytes (fo_rest st) \<le> rl_max_input_bytes lim"
  by (simp add: room_def)

text \<open>Interning within the limit.\<close>

lemma intern_room:
  assumes "room lim n (k + 1) st" "0 \<le> k"
  obtains i u where "intern_limited lim key st = Inr (i, u)" "room lim n k u" "moved st u" "fo_rest u = fo_rest st"
    "pd_parsed_records (fo_diagnostics u) = pd_parsed_records (fo_diagnostics st)"
    "0 \<le> i" "resolve (fo_frame_table u) i = Inr key"
proof -
  let ?t = "fo_frame_table st"
  let ?i = "fst (intern key ?t)" and ?v = "snd (intern key ?t)"
  have wf: "frame_table_wf ?t" using assms by (simp add: room_def)
  have count: "frame_count ?v \<le> frame_count ?t + 1" using frames.intern_count by blast
  then have "frame_count ?v \<le> rl_max_unique_frames lim" using assms by (simp add: room_def)
  then have "intern_limited lim key st = Inr (?i, st\<lparr>fo_frame_table := ?v\<rparr>)"
    by (simp add: intern_limited_def bindE_raise_if case_prod_unfold Let_def)
  moreover have "room lim n k (st\<lparr>fo_frame_table := ?v\<rparr>)"
    using assms(1) count frames.intern_wf [OF wf, of key] by (simp add: room_def)
  moreover have "moved st (st\<lparr>fo_frame_table := ?v\<rparr>)"
    using frames.resolve_stable [OF wf] by (simp add: moved_def grows_to_def grows_def)
  ultimately show thesis
    using that frames.intern_id [OF wf, of key] frames.resolve_interned [OF wf, of key] by simp
qed

lemma count_frame_line_simps [simp]:
  "fo_rest (count_frame_line st) = fo_rest st" "fo_frame_table (count_frame_line st) = fo_frame_table st"
  "pd_parsed_records (fo_diagnostics (count_frame_line st)) = pd_parsed_records (fo_diagnostics st)"
  "pd_malformed_records (fo_diagnostics (count_frame_line st)) = pd_malformed_records (fo_diagnostics st)"
  "pd_skipped_records (fo_diagnostics (count_frame_line st)) = pd_skipped_records (fo_diagnostics st)"
  "pd_warning_count (fo_diagnostics (count_frame_line st)) = pd_warning_count (fo_diagnostics st)"
  "pd_bytes_read (fo_diagnostics (count_frame_line st)) = pd_bytes_read (fo_diagnostics st)"
  by (simp_all add: count_frame_line_def)

lemma strip_nonempty: "x \<in> set s \<Longrightarrow> \<not> is_space x \<Longrightarrow> strip s \<noteq> []"
proof
  assume x: "x \<in> set s" "\<not> is_space x" "strip s = []"
  have "lstrip s \<noteq> []" using x(1,2) by (auto simp: lstrip_def dropWhile_eq_Nil_conv)
  moreover have "\<forall>y \<in> set (lstrip s). is_space y"
    using x(3) by (auto simp: strip_def rstrip_def dropWhile_eq_Nil_conv)
  ultimately show False using lstrip_hd [of s] hd_in_set [of "lstrip s"] by blast
qed

lemma frame_line_read:
  assumes fits: "frame_fits f" "line_fits lim (frame_text f)" and rest: "fo_rest st = frame_text f @ 10 # rest"
    and room: "room lim n (k + 1) st" "0 \<le> k"
  obtains i u where "perf_loop lim dec consume (st, Some p, g) = perf_loop lim dec consume (u, Some (append_frame i p), g)"
    "fo_rest u = rest" "room lim n k u" "moved st u"
    "pd_parsed_records (fo_diagnostics u) = pd_parsed_records (fo_diagnostics st)"
    "0 \<le> i" "resolve (fo_frame_table u) i = Inr (printed_key dec f)"
proof -
  let ?v = "after_line st (frame_text f) rest"
  obtain i u where u: "intern_limited lim (printed_key dec f) ?v = Inr (i, u)" "room lim n k u" "moved ?v u" "fo_rest u = fo_rest ?v"
    "pd_parsed_records (fo_diagnostics u) = pd_parsed_records (fo_diagnostics ?v)"
    "0 \<le> i" "resolve (fo_frame_table u) i = Inr (printed_key dec f)"
    using room_after [OF room(1) rest] room(2) by (rule intern_room)
  have chars: "starts_blank (frame_text f @ [10])" "frame_stripped f \<noteq> []" "no_colon_blank (frame_text f)"
  proof -
    have indent: "blanks (pf_indent f)" using fits(1) by (simp add: frame_fits_def)
    then show "starts_blank (frame_text f @ [10])"
      using blanksD(1,5) [OF indent] by (cases "pf_indent f") (auto simp: starts_blank_def frame_text_def)
    show "frame_stripped f \<noteq> []" using fits(1) by (simp add: frame_fits_def)
    show "no_colon_blank (frame_text f)" using fits(1) by (simp add: frame_fits_def)
  qed
  have "perf_line lim dec consume (frame_text f @ [10]) (Some p) ?v g =
      bindE (callchain_line lim dec (frame_stripped f) p ?v) (\<lambda>(st, p). Inr (st, Some p, g))"
    unfolding perf_line_text [OF fits(2)] strip_frame [OF fits(1)] not_a_header [OF chars(3)] if_not_P [OF chars(2)]
    using chars(1) by simp
  also have "\<dots> = Inr (count_frame_line u, Some (append_frame i p), g)"
    unfolding printed_callchain [OF fits(1)] u(1) by simp
  finally have "perf_line lim dec consume (frame_text f @ [10]) (Some p) ?v g = Inr (count_frame_line u, Some (append_frame i p), g)" .
  from loop_line [OF rest fits(2) room_bytes [OF room(1)] this]
  have "perf_loop lim dec consume (st, Some p, g) = perf_loop lim dec consume (count_frame_line u, Some (append_frame i p), g)" .
  moreover have "room lim n k (count_frame_line u)" using u(2) by (simp add: room_def)
  moreover have "moved st (count_frame_line u)"
    using moved_trans [OF moved_after u(3)] by (simp add: moved_def grows_to_def)
  ultimately show thesis using that u(4-7) by simp
qed

section \<open>The lines of a record\<close>

lemma frame_lines_read:
  assumes "\<forall>f \<in> set fs. frame_fits f \<and> line_fits lim (frame_text f)"
    and "fo_rest st = frame_lines fs @ rest" "room lim n (int (length fs) + k) st" "0 \<le> k"
  shows "\<exists>u p' is. perf_loop lim dec consume (st, Some p, g) = perf_loop lim dec consume (u, Some p', g) \<and>
    fo_rest u = rest \<and> room lim n k u \<and> moved st u \<and>
    pd_parsed_records (fo_diagnostics u) = pd_parsed_records (fo_diagnostics st) \<and>
    p' = p\<lparr>pr_frames_leaf_to_root := pr_frames_leaf_to_root p @ is\<rparr> \<and>
    list_all2 (\<lambda>i f. 0 \<le> i \<and> resolve (fo_frame_table u) i = Inr (printed_key dec f)) is fs"
  using assms
proof (induction fs arbitrary: st p)
  case Nil
  then show ?case
    by (intro exI [of _ st] exI [of _ p] exI [of _ "[]"]) (simp add: frame_lines_def moved_def grows_to_def)
next
  case (Cons f fs)
  have f: "frame_fits f" "line_fits lim (frame_text f)" and fs: "\<forall>f \<in> set fs. frame_fits f \<and> line_fits lim (frame_text f)"
    using Cons.prems(1) by simp_all
  have rest: "fo_rest st = frame_text f @ 10 # frame_lines fs @ rest" using Cons.prems(2) by (simp add: frame_lines_def)
  have room: "room lim n (int (length fs) + k + 1) st" "0 \<le> int (length fs) + k" using Cons.prems(3,4) by (simp_all add: add_ac)
  obtain i v where v: "perf_loop lim dec consume (st, Some p, g) = perf_loop lim dec consume (v, Some (append_frame i p), g)"
    "fo_rest v = frame_lines fs @ rest" "room lim n (int (length fs) + k) v" "moved st v"
    "pd_parsed_records (fo_diagnostics v) = pd_parsed_records (fo_diagnostics st)"
    "0 \<le> i" "resolve (fo_frame_table v) i = Inr (printed_key dec f)"
    by (rule frame_line_read [OF f rest room])
  obtain u "is" where u: "perf_loop lim dec consume (v, Some (append_frame i p), g) =
      perf_loop lim dec consume (u, Some ((append_frame i p)\<lparr>pr_frames_leaf_to_root := pr_frames_leaf_to_root (append_frame i p) @ is\<rparr>), g)"
    "fo_rest u = rest" "room lim n k u" "moved v u"
    "pd_parsed_records (fo_diagnostics u) = pd_parsed_records (fo_diagnostics v)"
    "list_all2 (\<lambda>i f. 0 \<le> i \<and> resolve (fo_frame_table u) i = Inr (printed_key dec f)) is fs"
    using Cons.IH [OF fs v(2,3) Cons.prems(4), of "append_frame i p"] by blast
  have "resolve (fo_frame_table u) i = Inr (printed_key dec f)"
    using u(4) v(6,7) by (auto simp: moved_def grows_to_def grows_def)
  then have "list_all2 (\<lambda>i f. 0 \<le> i \<and> resolve (fo_frame_table u) i = Inr (printed_key dec f)) (i # is) (f # fs)"
    using u(6) v(6) by simp
  moreover have "(append_frame i p)\<lparr>pr_frames_leaf_to_root := pr_frames_leaf_to_root (append_frame i p) @ is\<rparr> =
      p\<lparr>pr_frames_leaf_to_root := pr_frames_leaf_to_root p @ i # is\<rparr>" by (cases p) (simp add: append_frame_def)
  ultimately show ?case 
    using u(1-3,5) v(1,5) moved_trans [OF v(4) u(4)]
    by (intro exI [of _ u] exI [of _ "p\<lparr>pr_frames_leaf_to_root := pr_frames_leaf_to_root p @ i # is\<rparr>"]
        exI [of _ "i # is"]) simp
qed

lemma header_line_read:
  assumes fits: "header_fits h" "line_fits lim (header_text h)" and rest: "fo_rest st = header_text h @ 10 # rest"
    and room: "room lim (n + 1) k st" "0 \<le> n"
  shows "perf_loop lim dec consume (st, None, g) = perf_loop lim dec consume
    (after_line st (header_text h) rest,
     Some \<lparr>pr_header = printed_perf_header h, pr_line_number = fo_line_number st + 1, pr_frames_leaf_to_root = [],
           pr_header_frame_id = None\<rparr>, g)"
proof -
  let ?v = "after_line st (header_text h) rest"
  have "hp_comm h \<noteq> []" "\<not> is_space (hd (hp_comm h))" using word_textD [OF header_fitsD(1) [OF fits(1)]] by simp_all
  then have "strip (header_text h) \<noteq> []" by (intro strip_nonempty [of "hd (hp_comm h)"]) (simp_all add: header_text_def)
  moreover have "check_record_limit lim ?v = Inr ()"
    using room by (simp add: check_record_limit_def room_def)
  moreover have "fo_line_number ?v = fo_line_number st + 1" by (simp add: after_line_def)
  ultimately have "perf_line lim dec consume (header_text h @ [10]) None ?v g = Inr (?v,
     Some \<lparr>pr_header = printed_perf_header h, pr_line_number = fo_line_number st + 1, pr_frames_leaf_to_root = [],
           pr_header_frame_id = None\<rparr>, g)"
    unfolding perf_line_text [OF fits(2)] by (simp add: parse_printed_header [OF fits(1)] header_line_def)
  from loop_line [OF rest fits(2) room_bytes [OF room(1)] this] show ?thesis .
qed

lemma blank_line_read:
  assumes rest: "fo_rest st = 10 # rest" and room: "room lim n k st" and lim: "1 \<le> rl_max_line_chars lim"
    and p: "pr_header_frame_id p = None" "pr_frames_leaf_to_root p \<noteq> []"
      "int (length (pr_frames_leaf_to_root p)) \<le> rl_max_stack_depth lim"
  shows "perf_loop lim dec collect (st, Some p, ss) = perf_loop lim dec collect
    (on_diagnostics (\<lambda>d. d\<lparr>pd_parsed_records := pd_parsed_records d + 1\<rparr>) (after_line st [] rest), None,
     ss @ [record_sample (pr_header p) (pr_frames_leaf_to_root p)])"
proof -
  let ?v = "after_line st [] rest"
  have fits: "line_fits lim []" using lim by (simp add: line_fits_def)
  have empty: "strip [] = []" by (simp add: strip_def lstrip_def rstrip_def)
  have "repeats_header_frame (fo_frame_table ?v) p = Inr False" using p(1) by (simp add: repeats_header_frame_def)
  then have "perf_line lim dec collect ([] @ [10]) (Some p) ?v ss = Inr
    (on_diagnostics (\<lambda>d. d\<lparr>pd_parsed_records := pd_parsed_records d + 1\<rparr>) ?v, None,
     ss @ [record_sample (pr_header p) (pr_frames_leaf_to_root p)])"
    unfolding perf_line_text [OF fits] using p(2,3)
    by (simp add: empty blank_line_def flush_pending_def finish_record_def collect_def)
  from loop_line [OF _ fits room_bytes [OF room] this] rest show ?thesis by simp
qed

end
