(* ===== verification/PerfScriptProperties.thy ===== *)
theory PerfScriptProperties
  imports PerfScriptPipeline ProfileProperties
begin

text \<open>
  The properties of the analysis of \<open>perf script\<close> files: streaming against batch, the checks of
  the evidence, the errors, and the accounting of the input.
\<close>

section \<open>A concrete transcript\<close>

definition sample_perf :: pytext where
  "sample_perf = ascii ''a 1/2 3: 5 cycles:'' @ [10, 9] @ ascii ''40 m (x)'' @ [10, 9] @ ascii ''41 s (x)'' @ [10]"

lemma sample_perf_parse:
  obtains ss t d where "parse_perf resource_limits_default no_digits 39 sample_perf = Inr (ss, t, d)"
    "map ss_frames ss = [[1, 0]]" "pd_parsed_records d = 1"
proof -
  have "(case parse_perf resource_limits_default no_digits 39 sample_perf of
      Inr (ss, t, d) \<Rightarrow> map ss_frames ss = [[1, 0]] \<and> pd_parsed_records d = 1 | Inl _ \<Rightarrow> False)" by code_simp
  then show thesis using that by (auto split: sum.splits prod.splits)
qed

lemma sample_perf_analysis:
  obtains r d where "analyze_perf resource_limits_default no_digits 39 sample_perf = Inr (r, d)"
    "ar_total_weight r = 5" "ar_total_frame_count r = 2" "pd_frame_lines d = 2"
proof -
  have "(case analyze_perf resource_limits_default no_digits 39 sample_perf of
      Inr (r, d) \<Rightarrow> ar_total_weight r = 5 \<and> ar_total_frame_count r = 2 \<and> pd_frame_lines d = 2 | Inl _ \<Rightarrow> False)" by code_simp
  then show thesis using that by (auto split: sum.splits)
qed

section \<open>Properties\<close>

text \<open>
  C32. Streaming is batch: analyzing a file while it is parsed gives the result of parsing the
  whole file first and aggregating its samples under the final frame table, with the same
  diagnostics; the aggregator raises where the batch raises, and when the parser raises the
  analysis raises too, the same error or one that the aggregator had raised before.
\<close>

theorem perf_streaming_is_batch:
  assumes "resource_limits_post_init lim = Inr ()"
  shows "case parse_perf lim dec st_size text of
      Inl e \<Rightarrow> (\<exists>e'. analyze_perf lim dec st_size text = Inl e' \<and> (e' = e \<or> aggregation_error e'))
    | Inr (ss, t, d) \<Rightarrow> analyze_perf lim dec st_size text = bindE (aggregate lim t ss) (\<lambda>r. Inr (without_event r, d))"
  using analyze_follows [of lim dec st_size "text"] assms by (simp add: limits_ok_def)

theorem perf_streaming_is_batch_witness:
  "\<exists>ss t d. parse_perf resource_limits_default no_digits 39 sample_perf = Inr (ss, t, d) \<and> map ss_frames ss = [[1, 0]] \<and>
     analyze_perf resource_limits_default no_digits 39 sample_perf =
       bindE (aggregate resource_limits_default t ss) (\<lambda>r. Inr (without_event r, d))"
proof -
  have lim: "resource_limits_post_init resource_limits_default = Inr ()" by code_simp
  obtain ss t d where p: "parse_perf resource_limits_default no_digits 39 sample_perf = Inr (ss, t, d)" "map ss_frames ss = [[1, 0]]"
    by (rule sample_perf_parse)
  from perf_streaming_is_batch [OF lim, of no_digits 39 sample_perf] p show ?thesis by simp
qed

text \<open>
  C33. The evidence checks always pass for a \<open>perf script\<close> file: an analysis that completes has
  conserved its weights, has as many records as were parsed and, when no record was malformed,
  as many frames as frame lines without the repeated ones.
\<close>

theorem perf_analysis_validates:
  assumes "resource_limits_post_init lim = Inr ()" and "analyze_perf lim dec st_size text = Inr (r, d)"
  shows "validate_aggregation_invariants r d ''perf_script'' = Inr ()"
proof -
  have lim: "limits_ok lim" using assms(1) by (simp add: limits_ok_def)
  obtain ss t g r' where run: "parse_perf lim dec st_size text = Inr (ss, t, d)" "agg_inv t ss g"
    "finish_aggregation t g = Inr r'" "r = without_event r'"
    using lim assms(2) by (rule analyze_perf_result)
  obtain st where st: "run_ok lim st None ss" "t = fo_frame_table st" "d = fo_diagnostics st"
    using lim run(1) by (rule parse_perf_result)
  have samples: "\<forall>s \<in> set ss. perf_sample lim t s" using run_ok_samples [OF st(1)] st(2) by simp
  then have "\<forall>s \<in> set ss. 0 \<le> ss_weight s" by (simp add: perf_sample_def)
  moreover have "frames_where t (\<lambda>_. True) ss = frame_total ss"
    using samples perf_sample_ok by (intro frames_where_total) blast
  moreover have "pd_parsed_records d = int (length ss)"
    "pd_malformed_records d = 0 \<Longrightarrow> pd_frame_lines d = frame_total ss + pd_duplicate_frame_lines d"
    using st by (simp_all add: run_ok_def Let_def)
  ultimately have "validate_aggregation_invariants r' d ''perf_script'' = Inr ()"
    by (intro validation_passes [OF run(2,3)]) simp_all
  then show ?thesis by (simp add: run(4) validate_without_event)
qed

theorem perf_analysis_validates_witness:
  "\<exists>r d. analyze_perf resource_limits_default no_digits 39 sample_perf = Inr (r, d) \<and> ar_total_weight r = 5 \<and>
     validate_aggregation_invariants r d ''perf_script'' = Inr ()"
proof -
  have lim: "resource_limits_post_init resource_limits_default = Inr ()" by code_simp
  obtain r d where r: "analyze_perf resource_limits_default no_digits 39 sample_perf = Inr (r, d)" "ar_total_weight r = 5"
    by (rule sample_perf_analysis)
  from perf_analysis_validates [OF lim r(1)] r show ?thesis by blast
qed

text \<open>
  C34. The analysis of a \<open>perf script\<close> file can only raise what its limits, a change of the event
  within the file, or a number beyond the interpreter's digit limit call for. No malformed line,
  unreadable frame or dangling annotation raises.
\<close>

theorem perf_analysis_outcome:
  assumes "resource_limits_post_init lim = Inr ()" and "analyze_perf lim dec st_size text = Inl e"
  shows "(\<exists>stage message. e = PerfLensError RESOURCE_LIMIT_EXCEEDED stage message) \<or> e = mixed_scope \<or> e = number_error"
proof -
  have lim: "limits_ok lim" using assms(1) by (simp add: limits_ok_def)
  have parser: "(\<exists>stage message. e = PerfLensError RESOURCE_LIMIT_EXCEEDED stage message) \<or> e = number_error"
    if "parse_perf lim dec st_size text = Inl e"
  proof (cases rule: folded_enter_cases [of lim st_size "text"])
    case large
    then show ?thesis using that by (auto simp: parse_perf_def)
  next
    case entered
    then have "perf_loop lim dec collect (folded_init lim text, None, []) = Inl e"
      using that by (auto simp: parse_perf_def bindE_Inl_iff)
    from ensures_errorD [OF perf_loop_ok [OF limits_okD(3) [OF lim] perf_start [OF lim, of "text"], of dec] this]
    show ?thesis by (auto simp: perf_error_def folded_error_def)
  qed
  show ?thesis
  proof (cases "parse_perf lim dec st_size text")
    case (Inl e')
    then show ?thesis
      using analyze_follows [OF lim, of dec st_size "text"] assms(2) parser by (auto simp: aggregation_error_def)
  next
    case (Inr x)
    obtain ss t d where x: "x = (ss, t, d)" by (cases x)
    obtain st where st: "run_ok lim st None ss" "t = fo_frame_table st"
      using lim Inr [unfolded x] by (rule parse_perf_result)
    have ok: "\<forall>s \<in> set ss. sample_ok t s" using run_ok_samples [OF st(1)] st(2) perf_sample_ok by blast
    have "ensures aggregation_error (\<lambda>_. True) (aggregate lim t ss)"
      unfolding aggregate_def
      by (rule ensures_bind [OF aggregation_ensures [OF ok]]) (auto dest!: finish_total [OF _ ok])
    moreover have "aggregate lim t ss = Inl e"
      using analyze_follows [OF lim, of dec st_size "text"] assms(2) Inr x
      by (cases "aggregate lim t ss") simp_all
    ultimately show ?thesis by (auto simp: aggregation_error_def)
  qed
qed

theorem perf_analysis_outcome_witness:
  "\<exists>e. analyze_perf resource_limits_default no_digits 1073741825 sample_perf = Inl e \<and>
     ((\<exists>stage message. e = PerfLensError RESOURCE_LIMIT_EXCEEDED stage message) \<or> e = mixed_scope \<or> e = number_error)"
proof -
  have lim: "resource_limits_post_init resource_limits_default = Inr ()" by code_simp
  have "analyze_perf resource_limits_default no_digits 1073741825 sample_perf =
      Inl (PerfLensError RESOURCE_LIMIT_EXCEEDED ''input'' ''Input file exceeds max_input_bytes'')"
    by (simp add: analyze_perf_def folded_enter_def raise_if_def resource_limits_default_def)
  from perf_analysis_outcome [OF lim this] this show ?thesis by blast
qed

text \<open>
  C35. The parser accounts for its whole input and yields only well-formed samples: every byte is
  counted, each sample has frames that are interned and a stack within the depth limit, a
  sample's weight is its period in the unit of its event or the fallback of one sample, and
  without malformed records every frame line is a frame of a sample or a counted duplicate.
\<close>

theorem perf_input_accounted:
  assumes "resource_limits_post_init lim = Inr ()" and "parse_perf lim dec st_size text = Inr (ss, t, d)"
  shows "pd_bytes_read d = text_bytes text \<and> pd_unicode_replacement_count d = escaped_bytes text \<and>
    pd_parsed_records d = int (length ss) \<and> pd_parsed_records d \<le> rl_max_records lim \<and>
    pd_malformed_records d \<le> pd_skipped_records d \<and> pd_malformed_records d \<le> pd_warning_count d \<and>
    int (length (pd_warnings d)) = min (pd_warning_count d) (rl_max_warnings lim) \<and>
    (pd_malformed_records d = 0 \<longrightarrow> pd_frame_lines d = frame_total ss + pd_duplicate_frame_lines d) \<and>
    frame_count t \<le> rl_max_unique_frames lim \<and> (\<forall>s \<in> set ss. perf_sample lim t s)"
proof -
  have lim: "limits_ok lim" using assms(1) by (simp add: limits_ok_def)
  obtain st where st: "input_ok lim text st" "fo_rest st = []" "run_ok lim st None ss" "t = fo_frame_table st" "d = fo_diagnostics st"
    using lim assms(2) by (rule parse_perf_result)
  have "pd_bytes_read d = text_bytes text" "pd_unicode_replacement_count d = escaped_bytes text"
    using st(1,2,5) by (auto simp: input_ok_def progress_def)
  moreover have "diag_ok lim d" "table_fits lim st" using st(3,5) by (simp_all add: run_ok_def Let_def)
  ultimately show ?thesis
    using st(3,4,5) by (auto simp: run_ok_def Let_def diag_ok_def diagnostics_wf_def table_fits_def)
qed

theorem perf_input_accounted_witness:
  "\<exists>ss t d. parse_perf resource_limits_default no_digits 39 sample_perf = Inr (ss, t, d) \<and> pd_bytes_read d = 39 \<and>
     perf_sample resource_limits_default t (hd ss)"
proof -
  have lim: "resource_limits_post_init resource_limits_default = Inr ()" by code_simp
  obtain ss t d where p: "parse_perf resource_limits_default no_digits 39 sample_perf = Inr (ss, t, d)" "map ss_frames ss = [[1, 0]]"
    by (rule sample_perf_parse)
  have "text_bytes sample_perf = 39" by code_simp
  moreover have "hd ss \<in> set ss" using p(2) by (cases ss) auto
  ultimately show ?thesis using perf_input_accounted [OF lim p(1)] p(1) by auto
qed

end
