(* ===== verification/PerfScriptRoundTrip.thy ===== *)
theory PerfScriptRoundTrip
  imports PerfScriptTranscript PerfScriptProperties
begin

text \<open>
  The round trip of \<open>perf script\<close> transcripts: a printed transcript is read back to its records.
\<close>

section \<open>One record\<close>

lemma stands_for_grows: "grows t u \<Longrightarrow> stands_for dec t s r \<Longrightarrow> stands_for dec u s r"
  by (auto simp: stands_for_def Let_def grows_def elim!: list_all2_mono)

lemma record_stands_for:
  "list_all2 (\<lambda>i f. 0 \<le> i \<and> resolve t i = Inr (printed_key dec f)) is (pt_frames r) \<Longrightarrow>
   stands_for dec t (record_sample (printed_perf_header (pt_header r)) is) r"
  by (simp add: stands_for_def record_sample_def printed_perf_header_def Let_def)

lemma record_read:
  assumes fits: "record_fits lim r" and lim: "1 \<le> rl_max_line_chars lim" and rest: "fo_rest st = record_text r @ rest"
    and room: "room lim (n + 1) (int (length (pt_frames r)) + k) st" "0 \<le> n" "0 \<le> k"
  shows "\<exists>u s. perf_loop lim dec collect (st, None, ss) = perf_loop lim dec collect (u, None, ss @ [s]) \<and>
    fo_rest u = rest \<and> room lim n k u \<and> moved st u \<and>
    pd_parsed_records (fo_diagnostics u) = pd_parsed_records (fo_diagnostics st) + 1 \<and>
    stands_for dec (fo_frame_table u) s r"
proof -
  let ?h = "pt_header r" and ?fs = "pt_frames r"
  have h: "header_fits ?h" "line_fits lim (header_text ?h)" and fs: "\<forall>f \<in> set ?fs. frame_fits f \<and> line_fits lim (frame_text f)"
    using fits by (simp_all add: record_fits_def)
  have lines: "fo_rest st = header_text ?h @ 10 # frame_lines ?fs @ 10 # rest" by (simp add: rest record_text_def)
  let ?v = "after_line st (header_text ?h) (frame_lines ?fs @ 10 # rest)"
  define p where "p = \<lparr>pr_header = printed_perf_header ?h, pr_line_number = fo_line_number st + 1,
    pr_frames_leaf_to_root = [], pr_header_frame_id = None\<rparr>"
  have header: "perf_loop lim dec collect (st, None, ss) = perf_loop lim dec collect (?v, Some p, ss)"
    unfolding p_def using header_line_read [OF h lines room(1,2)] .
  have v: "room lim (n + 1) (int (length ?fs) + k) ?v" "fo_rest ?v = frame_lines ?fs @ 10 # rest"
    using room_after [OF room(1) lines] by simp_all
  obtain u "is" where u: "perf_loop lim dec collect (?v, Some p, ss) =
      perf_loop lim dec collect (u, Some (p\<lparr>pr_frames_leaf_to_root := is\<rparr>), ss)"
    "fo_rest u = 10 # rest" "room lim (n + 1) k u" "moved ?v u"
    "pd_parsed_records (fo_diagnostics u) = pd_parsed_records (fo_diagnostics ?v)"
    "list_all2 (\<lambda>i f. 0 \<le> i \<and> resolve (fo_frame_table u) i = Inr (printed_key dec f)) is ?fs"
    using frame_lines_read [OF fs v(2,1) room(3), where p = p and dec = dec and consume = collect and g = ss]
    by (auto simp: p_def)
  let ?p = "p\<lparr>pr_frames_leaf_to_root := is\<rparr>"
  have len: "length is = length ?fs" using u(6) by (rule list_all2_lengthD)
  have p: "pr_header_frame_id ?p = None" "pr_frames_leaf_to_root ?p \<noteq> []"
    "int (length (pr_frames_leaf_to_root ?p)) \<le> rl_max_stack_depth lim"
    using len fits by (auto simp: p_def record_fits_def)
  let ?w = "on_diagnostics (\<lambda>d. d\<lparr>pd_parsed_records := pd_parsed_records d + 1\<rparr>) (after_line u [] rest)"
  let ?s = "record_sample (printed_perf_header ?h) is"
  have blank: "perf_loop lim dec collect (u, Some ?p, ss) = perf_loop lim dec collect (?w, None, ss @ [?s])"
    using blank_line_read [OF u(2,3) lim p, of dec ss] by (simp add: p_def)
  have "room lim (n + 1) k (after_line u [] rest)" using u(2,3) room_after [of lim "n + 1" k u "[]" rest] by simp
  then have "room lim n k ?w" by (simp add: room_def)
  moreover have "moved st ?w"
    using moved_trans [OF moved_after moved_trans [OF u(4) moved_after [of u "[]" rest]]]
    by (simp add: moved_def grows_to_def)
  moreover have "stands_for dec (fo_frame_table ?w) ?s r" using record_stands_for [OF u(6)] by simp
  ultimately show ?thesis
    using header u(1,5) blank by (intro exI [of _ ?w] exI [of _ ?s]) simp
qed

section \<open>All records\<close>

lemma records_read:
  assumes "\<forall>r \<in> set rs. record_fits lim r" and lim: "1 \<le> rl_max_line_chars lim"
    and "fo_rest st = transcript rs" "room lim (int (length rs)) (frame_number rs) st"
  shows "\<exists>u ts. perf_loop lim dec collect (st, None, ss) = Inr (u, ss @ ts) \<and> moved st u \<and>
    pd_parsed_records (fo_diagnostics u) = pd_parsed_records (fo_diagnostics st) + int (length rs) \<and>
    list_all2 (stands_for dec (fo_frame_table u)) ts rs"
  using assms(1,3,4)
proof (induction rs arbitrary: st ss)
  case Nil
  obtain c v where c: "read_chunk lim st = (c, v)" by fastforce
  then have "c = []" using Nil.prems(2) by (simp add: read_chunk_def readline_def transcript_def Let_def)
  then have "perf_step lim dec collect (st, None, ss) = Inr None" using c perf_step_end by simp
  then have "perf_loop lim dec collect (st, None, ss) = Inr (st, ss)"
    by (simp add: perf_loop.simps [of lim dec collect st] flush_pending_def)
  then show ?case by (intro exI [of _ st] exI [of _ "[]"]) (simp add: moved_def grows_to_def)
next
  case (Cons r rs)
  have fits: "record_fits lim r" "\<forall>r \<in> set rs. record_fits lim r" using Cons.prems(1) by simp_all
  have rest: "fo_rest st = record_text r @ transcript rs" using Cons.prems(2) by (simp add: transcript_def)
  have number: "0 \<le> frame_number rs" unfolding frame_number_def by (rule sum_list_nonneg) auto
  have room: "room lim (int (length rs) + 1) (int (length (pt_frames r)) + frame_number rs) st"
    using Cons.prems(3) by (simp add: frame_number_def add_ac)
  obtain v s where v: "perf_loop lim dec collect (st, None, ss) = perf_loop lim dec collect (v, None, ss @ [s])"
    "fo_rest v = transcript rs" "room lim (int (length rs)) (frame_number rs) v" "moved st v"
    "pd_parsed_records (fo_diagnostics v) = pd_parsed_records (fo_diagnostics st) + 1"
    "stands_for dec (fo_frame_table v) s r"
    using record_read [OF fits(1) lim rest room _ number, of dec ss] by auto
  obtain u ts where u: "perf_loop lim dec collect (v, None, ss @ [s]) = Inr (u, (ss @ [s]) @ ts)" "moved v u"
    "pd_parsed_records (fo_diagnostics u) = pd_parsed_records (fo_diagnostics v) + int (length rs)"
    "list_all2 (stands_for dec (fo_frame_table u)) ts rs"
    using Cons.IH [OF fits(2) v(2,3), of "ss @ [s]"] by blast
  have "stands_for dec (fo_frame_table u) s r"
    using u(2) v(6) by (auto simp: moved_def grows_to_def intro: stands_for_grows)
  then show ?case
    using v(1,5) u(1,3,4) moved_trans [OF v(4) u(2)] by (intro exI [of _ u] exI [of _ "s # ts"]) simp
qed

section \<open>The round trip\<close>

text \<open>
  C36. Round trip: a transcript of printed records within the limits is accepted; each record gives
  one sample, in the order of the transcript, with the ids, the name, the event, the weight and the
  context of its header and with its frames, symbols and objects as printed, from the root to the
  leaf; nothing is counted as malformed or skipped, and there is no warning.
\<close>

theorem perf_transcript_roundtrip:
  assumes "resource_limits_post_init lim = Inr ()" and "\<forall>r \<in> set rs. record_fits lim r"
    and "int (length rs) \<le> rl_max_records lim" "frame_number rs \<le> rl_max_unique_frames lim"
    and "text_bytes (transcript rs) \<le> rl_max_input_bytes lim" "st_size \<le> rl_max_input_bytes lim"
  shows "\<exists>ss t d. parse_perf lim dec st_size (transcript rs) = Inr (ss, t, d) \<and> list_all2 (stands_for dec t) ss rs \<and>
    pd_parsed_records d = int (length rs) \<and> pd_malformed_records d = 0 \<and> pd_skipped_records d = 0 \<and>
    pd_warning_count d = 0"
proof -
  let ?st = "folded_init lim (transcript rs)"
  have lim: "1 \<le> rl_max_line_chars lim" using assms(1) limits_okD(3) [of lim] by (simp add: limits_ok_def)
  have entered: "folded_enter lim st_size (transcript rs) = Inr ?st"
    using assms(6) by (simp add: folded_enter_def raise_if_def)
  have init: "pd_parsed_records (fo_diagnostics ?st) = 0" "pd_malformed_records (fo_diagnostics ?st) = 0"
    "pd_skipped_records (fo_diagnostics ?st) = 0" "pd_warning_count (fo_diagnostics ?st) = 0"
    "pd_bytes_read (fo_diagnostics ?st) = 0" "fo_rest ?st = transcript rs" "fo_frame_table ?st = frame_table_init"
    by (simp_all add: folded_init_def diagnostics_init_def)
  have "frame_table_wf frame_table_init" "frame_count frame_table_init = 0"
    by (simp_all add: frame_count_def frame_table_init_def frame_table_wf_def)
  then have "room lim (int (length rs)) (frame_number rs) ?st" using assms(3-5) by (simp add: room_def init)
  from records_read [OF assms(2) lim init(6) this, of dec "[]"] show ?thesis
    by (auto simp: parse_perf_def entered init moved_def)
qed

definition printed_sample :: printed_record where
  "printed_sample =
     \<lparr>pt_header = \<lparr>hp_comm = ascii ''app'', hp_pid = 7, hp_tid = 8, hp_cpu = 2, hp_misc = ascii ''d'',
        hp_seconds = ascii ''12'', hp_fraction = ascii ''5'', hp_period = 40, hp_event = ascii ''cycles:u'',
        hp_pad = (\<lambda>k. if k < 6 then [32] else [])\<rparr>,
      pt_frames = [\<lparr>pf_indent = [9], pf_ip = ascii ''4a'', pf_gap = [32], pf_symbol = ascii ''leaf'', pf_dso = ascii ''x''\<rparr>,
        \<lparr>pf_indent = [9], pf_ip = ascii ''40'', pf_gap = [32], pf_symbol = ascii ''main'', pf_dso = ascii ''x''\<rparr>]\<rparr>"

lemma printed_sample_fits: "record_fits resource_limits_default printed_sample"
proof -
  have lines: "line_fits resource_limits_default (header_text (pt_header printed_sample))"
    "\<forall>f \<in> set (pt_frames printed_sample). line_fits resource_limits_default (frame_text f)"
    "pt_frames printed_sample \<noteq> []"
    "int (length (pt_frames printed_sample)) \<le> rl_max_stack_depth resource_limits_default" by code_simp+
  have frames: "\<forall>f \<in> set (pt_frames printed_sample). frame_fits f" by code_simp
  have "\<forall>k<6. blanks (hp_pad (pt_header printed_sample) k)" "set (hp_pad (pt_header printed_sample) 6) \<subseteq> {9, 32}"
    by (simp_all add: printed_sample_def blanks_def)
  moreover have "word_text (hp_comm (pt_header printed_sample))" "word_text (hp_event (pt_header printed_sample))"
    "hp_misc (pt_header printed_sample) \<noteq> []" "list_all is_misc (hp_misc (pt_header printed_sample))"
    "digits_text (hp_seconds (pt_header printed_sample))" "digits_text (hp_fraction (pt_header printed_sample))"
    "\<forall>n \<in> {hp_pid (pt_header printed_sample), hp_tid (pt_header printed_sample), hp_cpu (pt_header printed_sample),
       hp_period (pt_header printed_sample)}. length (str_nat n) \<le> 4300" by code_simp+
  ultimately have "header_fits (pt_header printed_sample)" by (simp add: header_fits_def)
  then show ?thesis using lines frames by (simp add: record_fits_def)
qed

theorem perf_transcript_roundtrip_witness:
  "text_bytes (transcript [printed_sample, printed_sample]) = 120 \<and>
   (\<exists>ss t d. parse_perf resource_limits_default no_digits 120 (transcript [printed_sample, printed_sample]) = Inr (ss, t, d) \<and>
     list_all2 (stands_for no_digits t) ss [printed_sample, printed_sample])"
proof -
  let ?rs = "[printed_sample, printed_sample]"
  have limits: "resource_limits_post_init resource_limits_default = Inr ()" by code_simp
  have room: "int (length ?rs) \<le> rl_max_records resource_limits_default"
    "frame_number ?rs \<le> rl_max_unique_frames resource_limits_default"
    "text_bytes (transcript ?rs) \<le> rl_max_input_bytes resource_limits_default"
    "120 \<le> rl_max_input_bytes resource_limits_default" by code_simp+
  have size: "text_bytes (transcript ?rs) = 120" by code_simp
  have "\<forall>r \<in> set ?rs. record_fits resource_limits_default r" using printed_sample_fits by simp
  from perf_transcript_roundtrip [OF limits this room, of no_digits] show ?thesis using size by blast
qed

end
