(* ===== verification/Spec2Isabelle.thy ===== *)
theory Spec2Isabelle
  imports Sha256Vector TraceProperties TemporalResults LockProperties RuntimeAnalysisResults
    ProfileProperties DockerSessionProperties KernelTraceProperties TraceScriptProperties PerfScriptRoundTrip
begin

text \<open>
  \<^bold>\<open>PerfLens: a verification of its deterministic core.\<close>

  PerfLens collects performance evidence of one Linux process and turns it into bounded,
  reproducible artifacts for people and coding agents. Evidence reaches the analyzers along
  three paths: sampled stacks (\<open>profiles/\<close>, \<open>hotspots/\<close>), kernel scheduler and lock traces
  (\<open>domain/trace*.py\<close>), and lock events of language runtimes (\<open>domain/runtime_lock_analysis.py\<close>).
  Every analyzer is a deterministic function of its input, refuses input outside declared
  limits, and checks that what it publishes accounts for everything it read. Collection
  itself is only possible inside authorization sessions, whose state machine is
  \<open>docker/session.py\<close>. All paths below are relative to \<open>src/src/perflens/\<close>.

  \<^bold>\<open>Conventions.\<close> A frozen dataclass is a record, an enumeration a datatype, a Python \<open>int\<close> is an
  \<open>int\<close>, a \<open>dict\<close> an association list in insertion order, an exception a value of \<open>py_error\<close>. A
  function that may raise returns \<open>'a result\<close> (\<open>Inl\<close> the exception); a loop that may raise is
  \<open>foldE\<close>. Text is \<open>string\<close> where only code points below 256 matter and a list of code points
  (\<open>PyText\<close>) where the parsers handle arbitrary text. SHA-256 (\<open>Sha256\<close>, tested against published
  vectors in \<open>Sha256Vector\<close>), UTF-8, \<open>str\<close>/\<open>int\<close> conversion, \<open>json.dumps\<close> and \<open>isoformat\<close> are
  modelled and executable. \<open>Prelude\<close> holds these conventions, the predicate \<open>ensures\<close> for
  guarantees of fallible code, and the laws of dictionaries.

  \<^bold>\<open>Normalized traces\<close> (\<open>domain/trace.py\<close>). \<open>TraceEvents\<close> has the event classes and the validation of one
  event, \<open>TraceSequence\<close> the streaming validation of a sequence, with a declarative
  specification that it meets exactly; \<open>TraceSamples\<close> has example traces for the witnesses.
  \<open>TraceProperties\<close> states the specification and that foreign tasks carry no identity.

  \<^bold>\<open>Trace adapters\<close> (\<open>profiles/\<close>). \<open>TraceAdapter\<close> has what the two adapters share: result types, file
  metadata, reading by lines, and the soundness of events, from which acceptance by the final
  validation follows unless a record contradicts itself.

  \<^bold>\<open>perf script adapter\<close> (\<open>profiles/trace_stream.py\<close>). \<open>Regex\<close> models Python's backtracking \<open>re\<close> as the ordered
  list of ways to match, with a declarative reading. \<open>TraceScriptText\<close> has the module's expressions, integers,
  HMAC and the line header, \<open>TraceScript\<close> the reading loop, the converters with waker and contention
  state, and the adapter. \<open>TraceScriptProofs\<close> has the invariant and that every converter keeps it,
  \<open>TraceScriptNumbers\<close> that integers of lines up to 4300 bytes never raise, \<open>TraceScriptParse\<close> covers the file as a
  whole, \<open>TraceScriptRecords\<close> shows that records with each label once split in one way, whatever
  the task names hold, and \<open>TraceScriptProperties\<close> has the properties. The lock identity key and the
  answers of the operating system are arguments.

  \<^bold>\<open>Kernel trace adapter\<close> (\<open>profiles/kernel_trace_stream.py\<close>).
  \<open>KernelTrace\<close> is the adapter that turns the trace helper's private NDJSON file into normalized events:
  file checks, reading loop, record checks, converters, waker enrichment and statistics. Its
  state survives an exception where the code's does. \<open>json.loads\<close> is the parameter \<open>decode\<close>, about which nothing
  is assumed, and the answers of the operating system are the record \<open>kernel_input\<close>.
  \<open>KernelTraceEvents\<close> shows what one record becomes, \<open>KernelTraceReference\<close> reads a transcript without any
  parser state, \<open>KernelTraceProofs\<close> and \<open>KernelTraceResults\<close> show that the parser computes this reading,
  \<open>KernelTraceParse\<close> covers the file as a whole, and \<open>KernelTraceProperties\<close> has the properties, up to the composition
  with the scheduler, off-CPU and lock analyzers.

  \<^bold>\<open>Scheduler and off-CPU analysis\<close> (\<open>domain/trace_analysis.py\<close>). \<open>Durations\<close> has the nearest-rank
  distributions, \<open>Accounting\<close> the event ledger, \<open>TemporalModel\<close> every handler of
  \<open>_analyze_temporal\<close>, \<open>TemporalInvariant\<close> and \<open>TemporalProofs\<close> the invariant of the handlers,
  \<open>TemporalBudget\<close> the bound on intervals, \<open>TemporalResults\<close> the properties: which errors are
  possible, that every valid trace within the budget is analyzed, and that events, off-CPU
  time and per-thread figures are conserved. A trace of \<open>n\<close> events with \<open>k\<close> threads makes at most
  \<open>4 * n + k\<close> intervals, so a limit of at least that is never reached.

  \<^bold>\<open>Trace lock analysis\<close> (\<open>domain/trace_lock_analysis.py\<close>). \<open>LockModel\<close> is the whole of
  \<open>analyze_locks\<close>; \<open>Projection\<close> states, as locales, what a keyed projection conserves, and
  \<open>LockInvariant\<close>, \<open>LockProofs\<close> and \<open>LockResults\<close> interpret them for the lock, thread and path
  tables; \<open>LockProperties\<close> has the properties.

  \<^bold>\<open>Runtime lock analysis\<close> (\<open>domain/runtime_lock_analysis.py\<close>). \<open>RuntimeEvents\<close> and \<open>RuntimeReplay\<close> model
  event construction, sequence validation and the replay that pairs waits and holds;
  \<open>RuntimeReplayProofs\<close> and \<open>RuntimeReplayResults\<close> show that every observation is justified by events
  and that every event has one disposition. \<open>RuntimeAnalysis\<close>, \<open>RuntimeProjections\<close> and
  \<open>RuntimeAnalysisResults\<close> model the five projections and show that rows and omission summaries
  add up to the replay.

  \<^bold>\<open>Sampled profiles\<close> (\<open>domain/models.py\<close>, \<open>stacks/normalize.py\<close>, \<open>hotspots/aggregate.py\<close>,
  \<open>profiles/folded.py\<close>, \<open>profiles/text.py\<close>, parts of \<open>application/\<close>). \<open>FrameTable\<close> has the interning frame
  table, behind the locale \<open>interner\<close> that the aggregator's identity table also
  interprets; \<open>HotspotModel\<close>, \<open>HotspotProofs\<close>, \<open>HotspotRows\<close> and \<open>HotspotResults\<close> the aggregator and its
  declarative reading; \<open>FoldedModel\<close>, \<open>FoldedProofs\<close> and \<open>FoldedPipeline\<close> the folded-stack parser and its
  composition with the aggregator; \<open>ProfileProperties\<close> the properties. The parser's loop
  runs on fuel, one more than the number of characters of the file; that this is
  enough is one of its properties. The decimal digits of Unicode are the parameter \<open>dec\<close>.

  \<^bold>\<open>perf script profiles\<close> (\<open>profiles/perf_script.py\<close>, \<open>profiles/events.py\<close>). \<open>PerfScriptText\<close> has the expressions,
  header, frame bodies and sources, and the units of events; \<open>PerfScript\<close> the open record, the
  annotations and every kind of line. The generator yields in the middle of a line, so the code
  that takes the samples is an argument, a \<open>consumer\<close>. \<open>PerfScriptLoop\<close> defines the loop, which ends because
  every turn reads at least a character; \<open>PerfScriptProofs\<close>, \<open>PerfScriptRuns\<close> and \<open>PerfScriptLines\<close> have the
  invariant of the parser with a consumer that only keeps the samples. \<open>PerfScriptConsumer\<close> states the
  contract of a consumer as the locale \<open>sample_consumer\<close> and shows that every run with one is a run that
  keeps the samples followed by one pass over them; \<open>PerfScriptPipeline\<close> interprets it for the hotspot
  aggregator, and \<open>PerfScriptProperties\<close> has the properties. Reading, entering and draining are the
  definitions of the folded parser, whose code is the same. For the round trip, \<open>RegexRuns\<close> decides where
  the runs of characters of an expression end; \<open>PerfScriptPrint\<close> and \<open>PerfScriptFrames\<close> print headers and
  callchain lines, with any padding, and read them back; \<open>PerfScriptTranscript\<close> goes through the loop line
  by line, and \<open>PerfScriptRoundTrip\<close> reads a whole transcript.

  \<^bold>\<open>Docker authorization sessions\<close> (\<open>docker/session.py\<close>, parts of \<open>contracts/docker.py\<close> and
  \<open>application/evidence.py\<close>). \<open>PyDateTime\<close>, \<open>ContractJson\<close> and \<open>DockerContracts\<close> have datetimes, canonical
  JSON digests and the session contract with its validator. \<open>DockerSession\<close> is the authority: a
  state monad whose state survives an exception, because the code ends sessions before it
  raises. Clocks and random source are the parameter \<open>docker_env\<close>: reading number \<open>n\<close> of a clock is
  a value of a function, so time may do anything between readings. \<open>DockerSessionProofs\<close>
  defines the life of one session as the inductive relation \<open>session_step\<close>; \<open>DockerSessionSteps\<close> has
  weakest preconditions; \<open>DockerSessionCalls\<close> and \<open>DockerSessionTable\<close> specify each call;
  \<open>DockerSessionProgress\<close> shows what happens in time; \<open>DockerSessionProperties\<close> closes the machine over
  arbitrary sequences of calls.

  \<^bold>\<open>Numbers.\<close> Percentiles use floats in the source, \<open>math.ceil(n * p / 100)\<close>; the model uses the exact
  integer ceiling, which agrees while \<open>n\<close> is below \<open>2 ^ 40\<close>. \<open>total_seconds()\<close> of a session's remaining
  time is exact in the range where it can decide the lease. Shares and percentages that
  the source only prints as floats are not part of the records here.

  \<^bold>\<open>Not modelled.\<close> The command line (\<open>cli/\<close>), the MCP server and its storage (\<open>mcp/\<close>), host administration
  and distribution (\<open>admin/\<close>, \<open>distribution/\<close>, \<open>integrations/\<close>) and the collectors, brokers and helper
  clients (\<open>collection/\<close>, \<open>collector_broker/\<close>, \<open>privileged_helper/\<close>, \<open>trace_helper/\<close>, \<open>workloads/\<close>) are input
  and output around processes, sockets and files. Of \<open>docker/\<close> everything but the sessions drives the
  Docker engine or reads the host. The adapters of \<open>runtime_locks/\<close> and
  \<open>profiles/perf_data.py\<close> run external tools. Reports, classification rules,
  comparisons, benchmarks and symbol lookup (\<open>reporting/\<close>, \<open>classification/\<close>, \<open>comparison/\<close>, \<open>benchmarks/\<close>,
  \<open>metrics/\<close>, \<open>symbols/\<close>) work on floats, templates or external tools and come after the core.
  The remaining contracts (\<open>contracts/\<close>) are pydantic declarations.
\<close>

end
